(* ===== verification/Prelude.thy ===== *)
theory Prelude
  imports Main "HOL-Library.Word" "HOL-Library.Char_ord" "HOL-Library.List_Lexorder"
    "HOL-Library.Sublist"
begin

text \<open>
  Shared vocabulary of the development: faults, the error-and-state computations in which the
  contract methods are written, and the theorem collections that carry their proofs.

  A contract method of the repository is a Go method that reads and writes the ledger and returns
  early with an error. Here it is a function of type \<open>('s, 'a) act\<close>: it takes the ledger state
  and returns either a fault or a value, together with the ledger state it leaves behind. The
  state is returned on an early return too, so that writes made before an error stay visible in
  the model.
\<close>

section \<open>Faults\<close>

text \<open>
  The error codes of \<^verbatim>\<open>xdb/errorx/codes.go\<close>; the message texts are not modelled. A Go
  run-time panic (nil dereference, index out of range) is a fault of its own.
\<close>

datatype errcode =
    ErrCodeInternal | ErrCodeParam | ErrCodeConfig | ErrCodeNotFound | ErrCodeEncoding
  | ErrCodeNotAuthorized | ErrCodeAlreadyExists | ErrCodeBadSignature | ErrCodeCrypto
  | ErrCodeExpired | ErrCodeReadBlockchain | ErrCodeWriteBlockchain | ErrCodeAlreadyUpdate

datatype fault = Errx errcode | Panicked

type_synonym 'a result = "fault + 'a"

definition rbind :: "'a result \<Rightarrow> ('a \<Rightarrow> 'b result) \<Rightarrow> 'b result" where
  "rbind r f = (case r of Inl e \<Rightarrow> Inl e | Inr x \<Rightarrow> f x)"

lemma rbind_simps [simp]: "rbind (Inl e) f = Inl e" "rbind (Inr x) f = f x"
  by (simp_all add: rbind_def)

text \<open>A method argument: absent, present but not decodable, or decoded.\<close>

datatype 'a arg = Missing | Malformed | Got 'a

section \<open>Error-and-state computations\<close>

type_synonym ('s, 'a) act = "'s \<Rightarrow> 'a result \<times> 's"

named_theorems act_ok \<open>inversion of runs that return a value\<close>
named_theorems act_defs \<open>definitions of the computation combinators\<close>

definition ret :: "'a \<Rightarrow> ('s, 'a) act" where
  "ret x = (\<lambda>s. (Inr x, s))"

definition fail :: "fault \<Rightarrow> ('s, 'a) act" where
  "fail e = (\<lambda>s. (Inl e, s))"

definition bnd :: "('s, 'a) act \<Rightarrow> ('a \<Rightarrow> ('s, 'b) act) \<Rightarrow> ('s, 'b) act" where
  "bnd m f = (\<lambda>s. case m s of (Inl e, s') \<Rightarrow> (Inl e, s') | (Inr x, s') \<Rightarrow> f x s')"

definition require :: "fault \<Rightarrow> bool \<Rightarrow> ('s, unit) act" where
  "require e b = (if b then ret () else fail e)"

definition need :: "fault \<Rightarrow> 'a option \<Rightarrow> ('s, 'a) act" where
  "need e x = (case x of None \<Rightarrow> fail e | Some v \<Rightarrow> ret v)"

definition lift :: "'a result \<Rightarrow> ('s, 'a) act" where
  "lift r = (\<lambda>s. (r, s))"

definition reads :: "('s \<Rightarrow> 'a result) \<Rightarrow> ('s, 'a) act" where
  "reads f = (\<lambda>s. (f s, s))"

definition get_arg :: "errcode \<Rightarrow> 'a arg \<Rightarrow> ('s, 'a) act" where
  "get_arg bad a = (case a of Missing \<Rightarrow> fail (Errx ErrCodeParam)
     | Malformed \<Rightarrow> fail (Errx bad) | Got x \<Rightarrow> ret x)"

lemmas act_base_defs [act_defs] =
  ret_def fail_def bnd_def require_def need_def lift_def reads_def get_arg_def

lemma ret_ok [act_ok]: "ret x s = (Inr y, s') \<longleftrightarrow> y = x \<and> s' = s"
  by (auto simp: ret_def)

lemma fail_ok [act_ok]: "fail e s = (Inr y, s') \<longleftrightarrow> False"
  by (simp add: fail_def)

lemma bnd_ok [act_ok]:
  "bnd m f s = (Inr y, s') \<longleftrightarrow> (\<exists>x s1. m s = (Inr x, s1) \<and> f x s1 = (Inr y, s'))"
  by (auto simp: bnd_def split: prod.splits sum.splits)

lemma require_ok [act_ok]: "require e b s = (Inr y, s') \<longleftrightarrow> b \<and> s' = s"
  by (auto simp: require_def ret_def fail_def)

lemma need_ok [act_ok]: "need e x s = (Inr y, s') \<longleftrightarrow> x = Some y \<and> s' = s"
  by (auto simp: need_def ret_def fail_def split: option.splits)

lemma lift_ok [act_ok]: "lift r s = (Inr y, s') \<longleftrightarrow> r = Inr y \<and> s' = s"
  by (auto simp: lift_def)

lemma reads_ok [act_ok]: "reads f s = (Inr y, s') \<longleftrightarrow> f s = Inr y \<and> s' = s"
  by (auto simp: reads_def)

lemma get_arg_ok [act_ok]: "get_arg c a s = (Inr y, s') \<longleftrightarrow> a = Got y \<and> s' = s"
  by (auto simp: get_arg_def ret_def fail_def split: arg.splits)

lemma if_ok [act_ok]:
  "(if b then m else m') s = (Inr y, s') \<longleftrightarrow>
     (b \<and> m s = (Inr y, s')) \<or> (\<not> b \<and> m' s = (Inr y, s'))"
  by simp

text \<open>An error of a callee reported under another code; a panic passes through.\<close>

definition rewrap :: "errcode \<Rightarrow> ('s, 'a) act \<Rightarrow> ('s, 'a) act" where
  "rewrap e m = (\<lambda>s. case m s of (Inl (Errx _), s') \<Rightarrow> (Inl (Errx e), s') | r \<Rightarrow> r)"

lemma rewrap_ok [act_ok]: "rewrap e m s = (Inr y, s') \<longleftrightarrow> m s = (Inr y, s')"
  by (auto simp: rewrap_def split: prod.splits sum.splits fault.splits)

text \<open>
  A computation is \<open>quiet\<close> when a run that ends in a fault leaves the state as it was, and
  \<open>pure\<close> when every run does.
\<close>

definition quiet :: "('s, 'a) act \<Rightarrow> bool" where
  "quiet m \<longleftrightarrow> (\<forall>s e s'. m s = (Inl e, s') \<longrightarrow> s' = s)"

definition keeps_state :: "('s, 'a) act \<Rightarrow> bool" where
  "keeps_state m \<longleftrightarrow> (\<forall>s. snd (m s) = s)"

named_theorems quietI \<open>introduction rules for quiet and state-keeping computations\<close>

lemma quietD: "quiet m \<Longrightarrow> m s = (Inl e, s') \<Longrightarrow> s' = s"
  by (auto simp: quiet_def)

lemma keeps_stateD: "keeps_state m \<Longrightarrow> m s = (r, s') \<Longrightarrow> s' = s"
  unfolding keeps_state_def by (metis snd_conv)

lemma keeps_quiet: "keeps_state m \<Longrightarrow> quiet m"
  by (auto simp: quiet_def dest: keeps_stateD)

lemma keeps_ret [quietI]: "keeps_state (ret x)"
  and keeps_fail [quietI]: "keeps_state (fail e)"
  and keeps_require [quietI]: "keeps_state (require e b)"
  and keeps_need [quietI]: "keeps_state (need e v)"
  and keeps_lift [quietI]: "keeps_state (lift r)"
  and keeps_reads [quietI]: "keeps_state (reads f)"
  and keeps_get_arg [quietI]: "keeps_state (get_arg c a)"
  by (auto simp: keeps_state_def act_defs split: option.splits arg.splits)

lemma keeps_bnd [quietI]:
  assumes "keeps_state m" and "\<And>x. keeps_state (f x)"
  shows "keeps_state (bnd m f)"
  unfolding keeps_state_def
proof
  fix s
  obtain r s1 where m: "m s = (r, s1)" by fastforce
  with assms(1) have s1: "s1 = s" by (rule keeps_stateD)
  show "snd (bnd m f s) = s"
    using assms(2) m s1 by (auto simp: bnd_def keeps_state_def split: sum.splits)
qed

lemma quiet_bnd:
  assumes "keeps_state m" and "\<And>x. quiet (f x)"
  shows "quiet (bnd m f)"
  unfolding quiet_def
proof (intro allI impI)
  fix s e s'
  assume run: "bnd m f s = (Inl e, s')"
  obtain r s1 where m: "m s = (r, s1)" by fastforce
  with assms(1) have s1: "s1 = s" by (rule keeps_stateD)
  show "s' = s"
    using run m s1 assms(2) by (auto simp: bnd_def quiet_def split: sum.splits)
qed

section \<open>Lists\<close>

lemma map_inj_eq: "inj f \<Longrightarrow> map f xs = map f ys \<longleftrightarrow> xs = ys"
  by (simp add: inj_map_eq_map)

text \<open>Splitting at the first separator is unambiguous when the left parts have none.\<close>

lemma sep_eq:
  assumes "c \<notin> set a" and "c \<notin> set a'"
  shows "a @ c # b = a' @ c # b' \<longleftrightarrow> a = a' \<and> b = b'"
  using assms
proof (induction a arbitrary: a')
  case Nil
  then show ?case by (cases a') auto
next
  case (Cons x a)
  then show ?case by (cases a') auto
qed

lemma sep_eq_last:
  assumes "c \<notin> set b" and "c \<notin> set b'"
  shows "a @ c # b = a' @ c # b' \<longleftrightarrow> a = a' \<and> b = b'"
proof -
  have "a @ c # b = a' @ c # b' \<longleftrightarrow> rev b @ c # rev a = rev b' @ c # rev a'"
    by (metis rev.simps(2) rev_append rev_rev_ident append_assoc append_Cons append_Nil)
  also have "\<dots> \<longleftrightarrow> a = a' \<and> b = b'"
    using assms by (subst sep_eq) auto
  finally show ?thesis .
qed

lemma prefix_sep:
  "c \<notin> set a \<Longrightarrow> c \<notin> set b \<Longrightarrow> prefix (a @ c # x) (b @ c # y) \<longleftrightarrow> a = b \<and> prefix x y"
proof -
  assume c: "c \<notin> set a" "c \<notin> set b"
  have "prefix (a @ c # x) (b @ c # y) \<longleftrightarrow> (\<exists>z. b @ c # y = a @ c # (x @ z))"
    by (simp add: prefix_def)
  also have "\<dots> \<longleftrightarrow> a = b \<and> prefix x y" using c by (auto simp: sep_eq prefix_def)
  finally show ?thesis .
qed

end
