(* ===== verification/Golang.thy ===== *)
theory Golang
  imports Prelude
begin

text \<open>
  The part of Go's types and standard library that the contracts use: 64-bit integers, the
  \<^verbatim>\<open>%x\<close> and \<^verbatim>\<open>%d\<close> verbs of \<^verbatim>\<open>fmt.Sprintf\<close>, \<^verbatim>\<open>hex.DecodeString\<close>,
  \<^verbatim>\<open>strconv.ParseInt\<close> and \<^verbatim>\<open>strconv.FormatInt\<close> in base 10, and \<^verbatim>\<open>strings.Split\<close>,
  \<^verbatim>\<open>strings.Join\<close> and \<^verbatim>\<open>strings.TrimRight\<close>.

  A Go string and a Go byte slice are both byte sequences; a HOL \<open>char\<close> is a byte, so both are
  \<open>char list\<close> and the conversions between them are the identity. Nil and empty byte slices,
  which the modelled code tells apart nowhere, are both the empty list. The types \<open>int64\<close> and
  \<open>int\<close> (64 bits on every supported platform) are 64-bit words read by \<open>sint\<close>,
  \<open>uint64\<close> is a 64-bit word read by \<open>uint\<close>.
\<close>

type_synonym bytes = "char list"
type_synonym int64 = "64 word"

definition maxInt64 :: int64 where
  "maxInt64 = 9223372036854775807"

section \<open>Decimal numerals\<close>

definition digit :: "nat \<Rightarrow> char" where
  "digit n = char_of (48 + n)"

definition digit_val :: "char \<Rightarrow> nat option" where
  "digit_val c = (let n = of_char c in if 48 \<le> n \<and> n < 58 then Some (n - 48) else None)"

lemma of_char_digit: "n < 10 \<Longrightarrow> (of_char (digit n) :: nat) = 48 + n"
  by (simp add: digit_def)

lemma digit_val_digit [simp]: "n < 10 \<Longrightarrow> digit_val (digit n) = Some n"
  by (simp add: digit_val_def of_char_digit)

lemma digit_neq_slash [simp]: "n < 10 \<Longrightarrow> digit n \<noteq> CHR ''/''"
  and digit_neq_minus [simp]: "n < 10 \<Longrightarrow> digit n \<noteq> CHR ''-''"
  and digit_neq_plus [simp]: "n < 10 \<Longrightarrow> digit n \<noteq> CHR ''+''"
  by (auto dest!: arg_cong[where f = "of_char :: char \<Rightarrow> nat"] simp: of_char_digit)

fun dec_nat :: "nat \<Rightarrow> string" where
  "dec_nat n = (if n < 10 then [digit n] else dec_nat (n div 10) @ [digit (n mod 10)])"

declare dec_nat.simps [simp del]

fun dec_val :: "nat \<Rightarrow> string \<Rightarrow> nat option" where
  "dec_val acc [] = Some acc"
| "dec_val acc (c # cs) = (case digit_val c of None \<Rightarrow> None | Some d \<Rightarrow> dec_val (10 * acc + d) cs)"

lemma dec_val_append:
  "dec_val acc (xs @ ys) = (case dec_val acc xs of None \<Rightarrow> None | Some m \<Rightarrow> dec_val m ys)"
  by (induction xs arbitrary: acc) (auto split: option.splits)

lemma dec_nat_nonempty [simp]: "dec_nat n \<noteq> []"
  by (subst dec_nat.simps) simp

lemma dec_nat_chars: "\<exists>d < 10. x = digit d" if "x \<in> set (dec_nat n)"
  using that
proof (induction n rule: dec_nat.induct)
  case (1 n)
  show ?case
  proof (cases "n < 10")
    case True
    with "1.prems" show ?thesis by (auto simp: dec_nat.simps[of n])
  next
    case False
    then consider "x \<in> set (dec_nat (n div 10))" | "x = digit (n mod 10)"
      using "1.prems" by (subst (asm) dec_nat.simps) auto
    then show ?thesis
      by cases (use "1.IH" False in blast, use mod_less_divisor[of 10 n] in force)
  qed
qed

lemma dec_val_dec_nat: "dec_val 0 (dec_nat n) = Some n"
proof (induction n rule: dec_nat.induct)
  case (1 n)
  show ?case
  proof (cases "n < 10")
    case True
    then show ?thesis by (subst dec_nat.simps) simp
  next
    case False
    then have "dec_val 0 (dec_nat (n div 10)) = Some (n div 10)" by (rule "1.IH")
    with False show ?thesis
      by (subst dec_nat.simps) (simp add: dec_val_append)
  qed
qed

lemma dec_nat_inj [simp]: "dec_nat m = dec_nat n \<longleftrightarrow> m = n"
  by (metis dec_val_dec_nat option.inject)

definition dec_int :: "int \<Rightarrow> string" where
  "dec_int i = (if i < 0 then CHR ''-'' # dec_nat (nat (- i)) else dec_nat (nat i))"

lemma dec_nat_no_minus: "dec_nat n \<noteq> CHR ''-'' # xs"
  using dec_nat_chars[of "CHR ''-''" n] digit_neq_minus by (metis list.set_intros(1))

lemma dec_int_inj [simp]: "dec_int i = dec_int j \<longleftrightarrow> i = j"
  using dec_nat_no_minus dec_nat_no_minus[symmetric]
  by (auto simp: dec_int_def split: if_splits)

lemma dec_nat_no_slash [simp]: "CHR ''/'' \<notin> set (dec_nat n)"
  using dec_nat_chars digit_neq_slash by metis

lemma dec_int_no_slash [simp]: "CHR ''/'' \<notin> set (dec_int i)"
  by (simp add: dec_int_def)

lemma dec_int_nonempty [simp]: "dec_int i \<noteq> []"
  by (simp add: dec_int_def)

text \<open>\<^verbatim>\<open>strconv.FormatInt(n, 10)\<close> and the verb \<^verbatim>\<open>%d\<close>.\<close>

definition FormatInt :: "int64 \<Rightarrow> string" where
  "FormatInt n = dec_int (sint n)"

lemma FormatInt_inj [simp]: "FormatInt m = FormatInt n \<longleftrightarrow> m = n"
  by (auto simp: FormatInt_def intro: signed_word_eqI)

lemma FormatInt_no_slash [simp]: "CHR ''/'' \<notin> set (FormatInt n)"
  by (simp add: FormatInt_def)

text \<open>
  \<^verbatim>\<open>strconv.ParseInt(s, 10, 64)\<close>: an optional sign, at least one digit, nothing else, and a
  value in the range of \<open>int64\<close>.
\<close>

definition in_int64 :: "int \<Rightarrow> bool" where
  "in_int64 i \<longleftrightarrow> - 9223372036854775808 \<le> i \<and> i \<le> 9223372036854775807"

definition ParseInt :: "string \<Rightarrow> int64 option" where
  "ParseInt s =
     (let neg = (s \<noteq> [] \<and> hd s = CHR ''-'');
          ds = (if s \<noteq> [] \<and> hd s \<in> {CHR ''-'', CHR ''+''} then tl s else s)
      in if ds = [] then None
         else case dec_val 0 ds of None \<Rightarrow> None
              | Some n \<Rightarrow> let i = (if neg then - int n else int n)
                          in if in_int64 i then Some (word_of_int i) else None)"

lemma in_int64_sint [simp]: "in_int64 (sint (n :: int64))"
  using sint_ge[of n] sint_lt[of n] by (simp add: in_int64_def)

lemma sint_word_int64: "in_int64 v \<Longrightarrow> sint (word_of_int v :: int64) = v"
  by (simp add: in_int64_def signed_take_bit_int_eq_self sint_sbintrunc')

lemma dec_nat_hd: "hd (dec_nat n) \<noteq> CHR ''-''" "hd (dec_nat n) \<noteq> CHR ''+''"
  using dec_nat_chars[of "hd (dec_nat n)" n] digit_neq_minus digit_neq_plus
  by (metis dec_nat_nonempty hd_in_set)+

theorem ParseInt_FormatInt [simp]: "ParseInt (FormatInt n) = Some n"
proof (cases "sint n < 0")
  case True
  have "in_int64 (- int (nat (- sint n)))" using True by simp
  with True show ?thesis
    by (simp add: ParseInt_def FormatInt_def dec_int_def dec_val_dec_nat Let_def)
next
  case False
  then have "in_int64 (int (nat (sint n)))" by simp
  with False show ?thesis
    by (simp add: ParseInt_def FormatInt_def dec_int_def dec_val_dec_nat dec_nat_hd Let_def)
qed

section \<open>Hexadecimal\<close>

definition hexdigit :: "nat \<Rightarrow> char" where
  "hexdigit n = (if n < 10 then char_of (48 + n) else char_of (87 + n))"

definition hexval :: "char \<Rightarrow> nat option" where
  "hexval c = (let n = of_char c in
     if 48 \<le> n \<and> n < 58 then Some (n - 48)
     else if 97 \<le> n \<and> n < 103 then Some (n - 87)
     else if 65 \<le> n \<and> n < 71 then Some (n - 55) else None)"

text \<open>The verb \<^verbatim>\<open>%x\<close> on a byte sequence: two lower-case digits for every byte.\<close>

fun hex :: "bytes \<Rightarrow> string" where
  "hex [] = []"
| "hex (b # bs) = hexdigit (of_char b div 16) # hexdigit (of_char b mod 16) # hex bs"

text \<open>\<^verbatim>\<open>hex.DecodeString\<close>: an error for an odd length or a character that is no digit.\<close>

fun hexDecode :: "string \<Rightarrow> bytes option" where
  "hexDecode [] = Some []"
| "hexDecode [c] = None"
| "hexDecode (c # d # cs) =
     (case hexval c of None \<Rightarrow> None
      | Some h \<Rightarrow> case hexval d of None \<Rightarrow> None
        | Some l \<Rightarrow> map_option (\<lambda>bs. char_of (16 * h + l) # bs) (hexDecode cs))"

lemma of_char_hexdigit:
  "n < 16 \<Longrightarrow> (of_char (hexdigit n) :: nat) = (if n < 10 then 48 + n else 87 + n)"
  by (simp add: hexdigit_def)

lemma hexval_hexdigit [simp]: "n < 16 \<Longrightarrow> hexval (hexdigit n) = Some n"
  by (simp add: hexval_def of_char_hexdigit)

lemma of_char_div_16 [simp]: "(of_char (b :: char) :: nat) div 16 < 16"
  by (simp add: div_less_iff_less_mult)

theorem hexDecode_hex [simp]: "hexDecode (hex bs) = Some bs"
  by (induction bs) simp_all

lemma hex_inj [simp]: "hex a = hex b \<longleftrightarrow> a = b"
  by (metis hexDecode_hex option.inject)

lemma hexdigit_neq_slash [simp]: "n < 16 \<Longrightarrow> hexdigit n \<noteq> CHR ''/''"
  by (auto dest!: arg_cong[where f = "of_char :: char \<Rightarrow> nat"] simp: of_char_hexdigit
        split: if_splits)

lemma hex_no_slash [simp]: "CHR ''/'' \<notin> set (hex bs)"
  by (induction bs) (auto simp: eq_commute[of "CHR ''/''"])

lemma length_hex [simp]: "length (hex bs) = 2 * length bs"
  by (induction bs) auto

lemma hex_Nil_iff [simp]: "hex bs = [] \<longleftrightarrow> bs = []"
  by (cases bs) auto

lemma length_hexDecode: "hexDecode s = Some bs \<Longrightarrow> length s = 2 * length bs"
  by (induction s arbitrary: bs rule: hexDecode.induct) (auto split: option.splits)

section \<open>Strings\<close>

text \<open>\<^verbatim>\<open>strings.Split(s, sep)\<close> for a one-byte separator.\<close>

fun Split :: "string \<Rightarrow> char \<Rightarrow> string list" where
  "Split [] c = [[]]"
| "Split (x # xs) c =
     (if x = c then [] # Split xs c
      else case Split xs c of [] \<Rightarrow> [[x]] | y # ys \<Rightarrow> (x # y) # ys)"

lemma Split_nonempty [simp]: "Split s c \<noteq> []"
  by (induction s) (auto split: list.splits)

lemma Split_no_sep [simp]: "c \<notin> set s \<Longrightarrow> Split s c = [s]"
  by (induction s) auto

lemma Split_append_sep: "c \<notin> set a \<Longrightarrow> Split (a @ c # b) c = a # Split b c"
  by (induction a) auto

text \<open>\<^verbatim>\<open>strings.Join(xs, sep)\<close>.\<close>

fun Join :: "string list \<Rightarrow> string \<Rightarrow> string" where
  "Join [] sep = []"
| "Join [x] sep = x"
| "Join (x # y # ys) sep = x @ sep @ Join (y # ys) sep"

text \<open>\<^verbatim>\<open>strings.TrimRight(s, cutset)\<close> for a one-byte cutset.\<close>

definition TrimRight :: "string \<Rightarrow> char \<Rightarrow> string" where
  "TrimRight s c = rev (dropWhile (\<lambda>x. x = c) (rev s))"

lemma TrimRight_last [simp]: "TrimRight (s @ [c]) c = TrimRight s c"
  by (simp add: TrimRight_def)

lemma TrimRight_id: "s = [] \<or> last s \<noteq> c \<Longrightarrow> TrimRight s c = s"
  by (cases s rule: rev_cases) (auto simp: TrimRight_def)

text \<open>Keys are taken apart component by component, so a join of several components stays folded.\<close>

declare Join.simps(3) [simp del]

end
