(* ===== verification/Json.thy ===== *)
theory Json
  imports Golang
begin

text \<open>
  What the contracts use of \<^verbatim>\<open>encoding/json\<close>. A JSON document is modelled by its syntax
  tree; the fields of a struct are encoded and decoded by name, as the struct tags say:
  \<^item> a byte slice is the base64 text of its bytes, and \<^verbatim>\<open>null\<close> when it is empty (nil);
  \<^item> an integer field decodes only from a number in the range of its type;
  \<^item> an absent field and a \<^verbatim>\<open>null\<close> leave the zero value, an unknown field is ignored, and
    a value of another JSON type is an error.
  \<open>json_text\<close> is the text \<^verbatim>\<open>json.Marshal\<close> writes: no spaces, HTML characters escaped.
  Numbers are integers, since no modelled struct has a floating-point field.
\<close>

datatype json =
    JNull
  | JBool bool
  | JNum int
  | JStr string
  | JArr "json list"
  | JObj "(string \<times> json) list"

section \<open>Base64\<close>

definition b64char :: "nat \<Rightarrow> char" where
  "b64char n = (if n < 26 then char_of (65 + n) else if n < 52 then char_of (71 + n)
     else if n < 62 then char_of (n - 4) else if n = 62 then CHR ''+'' else CHR ''/'')"

definition b64val :: "char \<Rightarrow> nat option" where
  "b64val c = (let n = of_char c in
     if 65 \<le> n \<and> n < 91 then Some (n - 65) else if 97 \<le> n \<and> n < 123 then Some (n - 71)
     else if 48 \<le> n \<and> n < 58 then Some (n + 4) else if c = CHR ''+'' then Some 62
     else if c = CHR ''/'' then Some 63 else None)"

fun b64enc :: "bytes \<Rightarrow> string" where
  "b64enc [] = []"
| "b64enc [a] =
     [b64char (of_char a div 4), b64char (of_char a mod 4 * 16), CHR ''='', CHR ''='']"
| "b64enc [a, b] =
     [b64char (of_char a div 4), b64char (of_char a mod 4 * 16 + of_char b div 16),
      b64char (of_char b mod 16 * 4), CHR ''='']"
| "b64enc (a # b # c # r) =
     b64char (of_char a div 4) # b64char (of_char a mod 4 * 16 + of_char b div 16) #
     b64char (of_char b mod 16 * 4 + of_char c div 64) # b64char (of_char c mod 64) # b64enc r"

fun b64dec :: "string \<Rightarrow> bytes option" where
  "b64dec [] = Some []"
| "b64dec (w # x # y # z # r) =
     (case (b64val w, b64val x) of
        (Some p, Some q) \<Rightarrow>
          (if y = CHR ''='' then
             (if z = CHR ''='' \<and> r = [] then Some [char_of (p * 4 + q div 16)] else None)
           else case b64val y of None \<Rightarrow> None
             | Some u \<Rightarrow>
                 (if z = CHR ''='' then
                    (if r = [] then Some [char_of (p * 4 + q div 16), char_of (q mod 16 * 16 + u div 4)]
                     else None)
                  else case b64val z of None \<Rightarrow> None
                    | Some v \<Rightarrow>
                        map_option (\<lambda>bs. char_of (p * 4 + q div 16) # char_of (q mod 16 * 16 + u div 4)
                          # char_of (u mod 4 * 64 + v) # bs) (b64dec r)))
      | _ \<Rightarrow> None)"
| "b64dec _ = None"

lemma of_char_b64char:
  "n < 64 \<Longrightarrow> (of_char (b64char n) :: nat) =
     (if n < 26 then 65 + n else if n < 52 then 71 + n else if n < 62 then n - 4
      else if n = 62 then 43 else 47)"
  by (simp add: b64char_def)

lemma b64val_b64char [simp]:
  assumes "n < 64"
  shows "b64val (b64char n) = Some n"
proof -
  consider "n < 62" | "n = 62" | "n = 63" using assms by linarith
  then show ?thesis
  proof cases
    case 1
    then show ?thesis by (auto simp: b64val_def of_char_b64char Let_def)
  qed (simp_all add: b64val_def b64char_def)
qed

lemma b64char_neq_pad [simp]: "n < 64 \<Longrightarrow> b64char n \<noteq> CHR ''=''"
  by (auto dest!: arg_cong[where f = "of_char :: char \<Rightarrow> nat"] simp: of_char_b64char
        split: if_splits)

lemma b64_bound: "(of_char (a :: char) :: nat) div 4 < 64" "(of_char a :: nat) mod 4 * 16 < 64"
  "(of_char a :: nat) mod 4 * 16 + of_char (b :: char) div 16 < 64"
  "(of_char b :: nat) mod 16 * 4 < 64"
  "(of_char b :: nat) mod 16 * 4 + of_char (c :: char) div 64 < 64"
  "(of_char c :: nat) mod 64 < 64"
  using nat_of_char_less_256[of a] nat_of_char_less_256[of b] nat_of_char_less_256[of c] by linarith+

lemma b64_high: "(of_char (c :: char) :: nat) div 64 div 4 = 0"
  "(of_char c :: nat) div 64 mod 4 * 64 + of_char c mod 64 = of_char c"
proof -
  have "(of_char c :: nat) div 64 < 4" by (simp add: div_less_iff_less_mult)
  then show "(of_char c :: nat) div 64 div 4 = 0"
    and "(of_char c :: nat) div 64 mod 4 * 64 + of_char c mod 64 = of_char c"
    by simp_all
qed

lemma b64dec_b64enc [simp]: "b64dec (b64enc bs) = Some bs"
  by (induction bs rule: b64enc.induct) (simp_all add: b64_bound b64_high)

lemma b64enc_inj [simp]: "b64enc a = b64enc b \<longleftrightarrow> a = b"
  by (metis b64dec_b64enc option.inject)

section \<open>Encoding and decoding the field types\<close>

definition enc_bytes :: "bytes \<Rightarrow> json" where
  "enc_bytes b = (if b = [] then JNull else JStr (b64enc b))"

definition enc_int :: "int64 \<Rightarrow> json" where
  "enc_int n = JNum (sint n)"

definition enc_uint :: "64 word \<Rightarrow> json" where
  "enc_uint n = JNum (uint n)"

definition enc_list :: "('a \<Rightarrow> json) \<Rightarrow> 'a list \<Rightarrow> json" where
  "enc_list f xs = (if xs = [] then JNull else JArr (map f xs))"

fun dec_bytes :: "json \<Rightarrow> bytes option" where
  "dec_bytes JNull = Some []"
| "dec_bytes (JStr s) = b64dec s"
| "dec_bytes _ = None"

fun dec_str :: "json \<Rightarrow> string option" where
  "dec_str JNull = Some []"
| "dec_str (JStr s) = Some s"
| "dec_str _ = None"

fun dec_bool :: "json \<Rightarrow> bool option" where
  "dec_bool JNull = Some False"
| "dec_bool (JBool b) = Some b"
| "dec_bool _ = None"

fun dec_int_json :: "json \<Rightarrow> int64 option" where
  "dec_int_json JNull = Some 0"
| "dec_int_json (JNum i) = (if in_int64 i then Some (word_of_int i) else None)"
| "dec_int_json _ = None"

fun dec_uint_json :: "json \<Rightarrow> 64 word option" where
  "dec_uint_json JNull = Some 0"
| "dec_uint_json (JNum i) = (if 0 \<le> i \<and> i < 18446744073709551616 then Some (word_of_int i) else None)"
| "dec_uint_json _ = None"

fun dec_all :: "(json \<Rightarrow> 'a option) \<Rightarrow> json list \<Rightarrow> 'a list option" where
  "dec_all d [] = Some []"
| "dec_all d (j # js) =
     (case d j of None \<Rightarrow> None | Some x \<Rightarrow> map_option (\<lambda>xs. x # xs) (dec_all d js))"

fun dec_list :: "(json \<Rightarrow> 'a option) \<Rightarrow> json \<Rightarrow> 'a list option" where
  "dec_list d JNull = Some []"
| "dec_list d (JArr js) = dec_all d js"
| "dec_list d _ = None"

text \<open>One field of a struct: its zero value when the object does not have it.\<close>

definition fld :: "(json \<Rightarrow> 'a option) \<Rightarrow> 'a \<Rightarrow> string \<Rightarrow> (string \<times> json) list \<Rightarrow> 'a option" where
  "fld d z k kvs = (case map_of kvs k of None \<Rightarrow> Some z | Some v \<Rightarrow> d v)"

text \<open>A struct: \<^verbatim>\<open>null\<close> leaves it as it is (zero), anything but an object is an error.\<close>

definition dec_struct :: "((string \<times> json) list \<Rightarrow> 'a option) \<Rightarrow> json \<Rightarrow> 'a option" where
  "dec_struct d j = (case j of JNull \<Rightarrow> d [] | JObj kvs \<Rightarrow> d kvs | _ \<Rightarrow> None)"

named_theorems json_rt \<open>decoding undoes encoding\<close>

lemma dec_enc_bytes [json_rt, simp]: "dec_bytes (enc_bytes b) = Some b"
  by (simp add: enc_bytes_def)

lemma dec_enc_int [json_rt, simp]: "dec_int_json (enc_int n) = Some n"
  by (simp add: enc_int_def)

lemma dec_enc_uint [json_rt, simp]: "dec_uint_json (enc_uint n) = Some n"
  using uint_lt2p[of n] by (simp add: enc_uint_def)

lemma dec_all_map: "(\<And>x. x \<in> set xs \<Longrightarrow> d (f x) = Some x) \<Longrightarrow> dec_all d (map f xs) = Some xs"
  by (induction xs) auto

lemma dec_enc_list [json_rt]: "(\<And>x. d (f x) = Some x) \<Longrightarrow> dec_list d (enc_list f xs) = Some xs"
  by (simp add: enc_list_def dec_all_map)

section \<open>Fields that are left out when they are zero\<close>

text \<open>The tag \<^verbatim>\<open>omitempty\<close>: a zero value is not written, and reading gives it back.\<close>

definition omit_str :: "string \<Rightarrow> string \<Rightarrow> (string \<times> json) list" where
  "omit_str k v = (if v = [] then [] else [(k, JStr v)])"

definition omit_bytes :: "string \<Rightarrow> bytes \<Rightarrow> (string \<times> json) list" where
  "omit_bytes k v = (if v = [] then [] else [(k, enc_bytes v)])"

definition omit_int :: "string \<Rightarrow> int64 \<Rightarrow> (string \<times> json) list" where
  "omit_int k v = (if v = 0 then [] else [(k, enc_int v)])"

definition omit_bool :: "string \<Rightarrow> bool \<Rightarrow> (string \<times> json) list" where
  "omit_bool k v = (if v then [(k, JBool True)] else [])"

definition omit_list :: "('a \<Rightarrow> json) \<Rightarrow> string \<Rightarrow> 'a list \<Rightarrow> (string \<times> json) list" where
  "omit_list f k v = (if v = [] then [] else [(k, enc_list f v)])"

definition omit_json :: "string \<Rightarrow> json \<Rightarrow> (string \<times> json) list" where
  "omit_json k v = (if v = JNull then [] else [(k, v)])"

lemmas omit_defs = omit_str_def omit_bytes_def omit_int_def omit_bool_def omit_list_def omit_json_def

lemma fld_skip [json_rt]:
  assumes "k \<noteq> k'"
  shows "fld d z k (omit_str k' a @ r) = fld d z k r" and "fld d z k (omit_bytes k' b @ r) = fld d z k r"
    and "fld d z k (omit_int k' c @ r) = fld d z k r" and "fld d z k (omit_bool k' e @ r) = fld d z k r"
    and "fld d z k (omit_list f k' x @ r) = fld d z k r" and "fld d z k (omit_json k' j @ r) = fld d z k r"
    and "fld d z k (omit_str k' a) = Some z" and "fld d z k (omit_bytes k' b) = Some z"
    and "fld d z k (omit_int k' c) = Some z" and "fld d z k (omit_bool k' e) = Some z"
    and "fld d z k (omit_list f k' x) = Some z" and "fld d z k (omit_json k' j) = Some z"
  using assms by (simp_all add: fld_def omit_defs)

lemma fld_other: "k \<notin> fst ` set r \<Longrightarrow> fld d z k r = Some z"
  by (metis fld_def map_of_eq_None_iff option.case(1))

lemma omit_no_key [simp]:
  assumes "k \<noteq> k'"
  shows "k \<notin> fst ` set (omit_str k' a)" and "k \<notin> fst ` set (omit_bytes k' b)"
    and "k \<notin> fst ` set (omit_int k' c)" and "k \<notin> fst ` set (omit_bool k' e)"
    and "k \<notin> fst ` set (omit_list f k' x)" and "k \<notin> fst ` set (omit_json k' j)"
  using assms by (auto simp: omit_defs)

lemma fld_hit [json_rt]:
  assumes "k \<notin> fst ` set r"
  shows "fld dec_str [] k (omit_str k a @ r) = Some a"
    and "fld dec_bytes [] k (omit_bytes k b @ r) = Some b"
    and "fld dec_int_json 0 k (omit_int k c @ r) = Some c"
    and "fld dec_bool False k (omit_bool k e @ r) = Some e"
    and "(\<And>x. d (f x) = Some x) \<Longrightarrow> fld (dec_list d) [] k (omit_list f k x @ r) = Some x"
    and "fld Some JNull k (omit_json k j @ r) = Some j"
  using fld_other[OF assms] by (auto simp: omit_defs fld_def dec_enc_list)

section \<open>The text of a value\<close>

definition json_escape_char :: "char \<Rightarrow> string" where
  "json_escape_char c =
     (if c = CHR 0x22 then [CHR 0x5C, CHR 0x22]
      else if c = CHR 0x5C then [CHR 0x5C, CHR 0x5C]
      else if c = CHR 0x0A then [CHR 0x5C, CHR ''n'']
      else if c = CHR 0x0D then [CHR 0x5C, CHR ''r'']
      else if c = CHR 0x09 then [CHR 0x5C, CHR ''t'']
      else if of_char c < (32 :: nat) \<or> c \<in> {CHR ''<'', CHR ''>'', CHR ''&''}
        then CHR 0x5C # ''u00'' @ hex [c]
      else [c])"

text \<open>The code points U+2028 and U+2029 are escaped too; their UTF-8 bytes are E2 80 A8 and A9.\<close>

fun json_escape :: "string \<Rightarrow> string" where
  "json_escape (a # b # c # r) =
     (if a = CHR 0xE2 \<and> b = CHR 0x80 \<and> c \<in> {CHR 0xA8, CHR 0xA9}
      then CHR 0x5C # (if c = CHR 0xA8 then ''u2028'' else ''u2029'') @ json_escape r
      else json_escape_char a @ json_escape (b # c # r))"
| "json_escape (a # r) = json_escape_char a @ json_escape r"
| "json_escape [] = []"

definition json_quote :: "string \<Rightarrow> string" where
  "json_quote s = CHR 0x22 # json_escape s @ [CHR 0x22]"

fun json_text :: "json \<Rightarrow> string" where
  "json_text JNull = ''null''"
| "json_text (JBool b) = (if b then ''true'' else ''false'')"
| "json_text (JNum i) = dec_int i"
| "json_text (JStr s) = json_quote s"
| "json_text (JArr js) = ''['' @ Join (map json_text js) '','' @ '']''"
| "json_text (JObj kvs) =
     ''{'' @ Join (map (\<lambda>(k, t). json_quote k @ '':'' @ t)
       (map (\<lambda>(k, v). (k, json_text v)) kvs)) '','' @ ''}''"

text \<open>
  A value that was decoded into an \<^verbatim>\<open>interface{}\<close> is made of Go maps, and those are
  written with their keys in order.
\<close>

fun json_sort :: "json \<Rightarrow> json" where
  "json_sort (JArr js) = JArr (map json_sort js)"
| "json_sort (JObj kvs) = JObj (sort_key fst (map (\<lambda>(k, v). (k, json_sort v)) kvs))"
| "json_sort j = j"

end
