(* ===== verification/Chain.thy ===== *)
theory Chain
  imports Json
begin

text \<open>
  The ledger a contract runs on. The ledger itself (the XuperChain contract SDK behind
  \<^verbatim>\<open>code.Context\<close>) is not part of the repository, so the model takes its three operations as
  a record of functions and every contract method has that record as an argument. What the
  contracts rely on is the locale \<open>chain\<close>; \<open>durable_chain\<close> adds that a write is never
  refused. The section on the reference ledger gives a store that satisfies both, which the
  development runs the contracts on.
\<close>

section \<open>Stored values\<close>

text \<open>
  A stored value is a byte sequence: either one the contracts build themselves (an identifier,
  a number, a list of slice positions) or the JSON text of a struct, kept as its syntax tree.
\<close>

datatype blob = Raw string | Doc json

text \<open>
  The primitives that the modelled code calls and that are not modelled: ECDSA verification
  (\<^verbatim>\<open>crypto/core/ecdsa\<close>, public key, digest, signature), SHA-256, the JSON syntax tree of a
  byte sequence, and the pairing check of \<^verbatim>\<open>crypto/core/pdp\<close>.
\<close>

record env =
  ecdsa_verify :: "bytes \<Rightarrow> bytes \<Rightarrow> bytes \<Rightarrow> bool"
  sha256 :: "bytes \<Rightarrow> bytes"
  parse_json :: "bytes \<Rightarrow> json option"
  pairing_ok :: "bytes \<Rightarrow> bytes \<Rightarrow> bytes \<Rightarrow> bytes \<Rightarrow> bytes \<Rightarrow> bytes list \<Rightarrow> bytes list \<Rightarrow> bool"

definition unmarshal :: "env \<Rightarrow> (json \<Rightarrow> 'a option) \<Rightarrow> blob \<Rightarrow> 'a option" where
  "unmarshal E d b = Option.bind (case b of Raw s \<Rightarrow> parse_json E s | Doc j \<Rightarrow> Some j) d"

lemma unmarshal_Doc [simp]: "unmarshal E d (Doc j) = d j"
  by (simp add: unmarshal_def)

section \<open>The interface\<close>

record 's chain_ops =
  get_object :: "'s \<Rightarrow> string \<Rightarrow> blob option"
  put_object :: "'s \<Rightarrow> string \<Rightarrow> blob \<Rightarrow> 's option"
  prefix_scan :: "'s \<Rightarrow> string \<Rightarrow> (string \<times> blob) list"

locale chain =
  fixes C :: "'s chain_ops"
  assumes get_put: "put_object C s k v = Some s' \<Longrightarrow>
      get_object C s' k' = (if k' = k then Some v else get_object C s k')"
    and scan_set: "set (prefix_scan C s p) = {(k, v). prefix p k \<and> get_object C s k = Some v}"
    and scan_sorted: "sorted_wrt (<) (map fst (prefix_scan C s p))"
begin

lemma get_put_same: "put_object C s k v = Some s' \<Longrightarrow> get_object C s' k = Some v"
  by (simp add: get_put)

lemma get_put_other: "put_object C s k v = Some s' \<Longrightarrow> k' \<noteq> k \<Longrightarrow>
    get_object C s' k' = get_object C s k'"
  by (simp add: get_put)

lemma scan_distinct: "distinct (map fst (prefix_scan C s p))"
  using scan_sorted[of s p] by (simp add: strict_sorted_iff)

lemma scan_iff: "(k, v) \<in> set (prefix_scan C s p) \<longleftrightarrow> prefix p k \<and> get_object C s k = Some v"
  by (simp add: scan_set)

text \<open>The ordered listing is determined by what the ledger holds.\<close>

lemma scan_unique:
  assumes "set xs = {(k, v). prefix p k \<and> get_object C s k = Some v}"
    and "sorted_wrt (<) (map fst xs)"
  shows "prefix_scan C s p = xs"
proof (rule map_sorted_distinct_set_unique[where f = fst])
  have "distinct (map fst xs)" using assms(2) by (simp add: strict_sorted_iff)
  then show "inj_on fst (set (prefix_scan C s p) \<union> set xs)"
    by (simp add: assms(1) scan_set distinct_map)
qed (use assms scan_sorted[of s p] scan_set in \<open>auto simp: strict_sorted_iff\<close>)

end

locale durable_chain = chain +
  assumes put_total: "\<exists>s'. put_object C s k v = Some s'"

section \<open>Access in a method\<close>

definition get_obj :: "'s chain_ops \<Rightarrow> errcode \<Rightarrow> string \<Rightarrow> ('s, blob) act" where
  "get_obj C e k = (\<lambda>s. case get_object C s k of
     None \<Rightarrow> (Inl (Errx e), s) | Some v \<Rightarrow> (Inr v, s))"

text \<open>The duplicate check: \<^verbatim>\<open>if _, err := ctx.GetObject(key); err == nil { return error }\<close>.\<close>

definition absent :: "'s chain_ops \<Rightarrow> errcode \<Rightarrow> string \<Rightarrow> ('s, unit) act" where
  "absent C e k = (\<lambda>s. case get_object C s k of
     None \<Rightarrow> (Inr (), s) | Some v \<Rightarrow> (Inl (Errx e), s))"

definition put_obj :: "'s chain_ops \<Rightarrow> string \<Rightarrow> blob \<Rightarrow> ('s, unit) act" where
  "put_obj C k v = (\<lambda>s. case put_object C s k v of
     None \<Rightarrow> (Inl (Errx ErrCodeWriteBlockchain), s) | Some s' \<Rightarrow> (Inr (), s'))"

text \<open>Writes in sequence, stopping at the first one that is refused.\<close>

fun put_all :: "'s chain_ops \<Rightarrow> (string \<times> blob) list \<Rightarrow> ('s, unit) act" where
  "put_all C [] = ret ()"
| "put_all C ((k, v) # kvs) = bnd (put_obj C k v) (\<lambda>_. put_all C kvs)"

lemmas access_defs [act_defs] = get_obj_def absent_def put_obj_def

lemma get_obj_ok [act_ok]:
  "get_obj C e k s = (Inr v, s') \<longleftrightarrow> get_object C s k = Some v \<and> s' = s"
  by (auto simp: get_obj_def split: option.splits)

lemma absent_ok [act_ok]:
  "absent C e k s = (Inr u, s') \<longleftrightarrow> get_object C s k = None \<and> s' = s"
  by (auto simp: absent_def split: option.splits)

lemma put_obj_ok [act_ok]:
  "put_obj C k v s = (Inr u, s') \<longleftrightarrow> put_object C s k v = Some s'"
  by (auto simp: put_obj_def split: option.splits)

lemma keeps_get_obj [quietI]: "keeps_state (get_obj C e k)"
  and keeps_absent [quietI]: "keeps_state (absent C e k)"
  by (auto simp: keeps_state_def act_defs split: option.splits)

lemma quiet_put_obj [quietI]: "quiet (put_obj C k v)"
  by (auto simp: quiet_def put_obj_def split: option.splits)

context chain begin

lemma put_all_get:
  assumes "put_all C kvs s = (Inr u, s')"
  shows "get_object C s' k =
    (case map_of (rev kvs) k of Some v \<Rightarrow> Some v | None \<Rightarrow> get_object C s k)"
  using assms
proof (induction kvs arbitrary: s)
  case Nil
  then show ?case by (simp add: act_ok)
next
  case (Cons kv kvs)
  obtain k0 v0 where kv: "kv = (k0, v0)" by fastforce
  from Cons.prems obtain s1 where s1: "put_object C s k0 v0 = Some s1"
    and rest: "put_all C kvs s1 = (Inr u, s')"
    by (auto simp: kv act_ok)
  from Cons.IH[OF rest] get_put[OF s1, of k] show ?case
    by (auto simp: kv map_add_def split: option.splits)
qed

end

context durable_chain begin

lemma put_obj_total: "\<exists>s'. put_obj C k v s = (Inr (), s')"
  using put_total[of s k v] by (auto simp: act_ok)

lemma put_obj_no_fault: "put_obj C k v s \<noteq> (Inl e, s')"
  using put_total[of s k v] by (auto simp: put_obj_def split: option.splits)

lemma put_all_total: "\<exists>s'. put_all C kvs s = (Inr (), s')"
proof (induction kvs arbitrary: s)
  case Nil
  then show ?case by (simp add: act_ok)
next
  case (Cons kv kvs)
  obtain k0 v0 where kv: "kv = (k0, v0)" by fastforce
  obtain s1 where "put_obj C k0 v0 s = (Inr (), s1)" using put_obj_total by blast
  moreover obtain s' where "put_all C kvs s1 = (Inr (), s')" using Cons.IH by blast
  ultimately show ?case by (auto simp: kv act_ok)
qed

end

section \<open>Footprints\<close>

text \<open>
  \<open>writes C P m\<close>: whatever way a run of \<open>m\<close> ends, only keys with \<open>P\<close> have changed. The rules
  collected in \<open>writesI\<close> derive the footprint of a method from its text.
\<close>

definition writes :: "'s chain_ops \<Rightarrow> (string \<Rightarrow> bool) \<Rightarrow> ('s, 'a) act \<Rightarrow> bool" where
  "writes C P m \<longleftrightarrow>
     (\<forall>s r s' k. m s = (r, s') \<longrightarrow> \<not> P k \<longrightarrow> get_object C s' k = get_object C s k)"

named_theorems writesI \<open>footprint rules\<close>

lemma writesD: "writes C P m \<Longrightarrow> m s = (r, s') \<Longrightarrow> \<not> P k \<Longrightarrow> get_object C s' k = get_object C s k"
  by (simp add: writes_def)

lemma writes_keeps: "keeps_state m \<Longrightarrow> writes C P m"
  by (auto simp: writes_def dest: keeps_stateD)

lemma writes_bnd [writesI]:
  assumes m: "writes C P m" and f: "\<And>x. writes C P (f x)"
  shows "writes C P (bnd m f)"
  unfolding writes_def
proof (intro allI impI)
  fix s r s' k
  assume run: "bnd m f s = (r, s')" and k: "\<not> P k"
  obtain q s1 where q: "m s = (q, s1)" by fastforce
  note first = writesD[OF m q k]
  show "get_object C s' k = get_object C s k"
  proof (cases q)
    case (Inl e)
    with run q first show ?thesis by (simp add: bnd_def)
  next
    case (Inr x)
    with run q have "f x s1 = (r, s')" by (simp add: bnd_def)
    from writesD[OF f this k] first show ?thesis by simp
  qed
qed

lemma writes_rewrap [writesI]: "writes C P m \<Longrightarrow> writes C P (rewrap e m)"
  unfolding writes_def rewrap_def
  by (fastforce split: prod.splits sum.splits fault.splits)

lemma writes_if [writesI]:
  "(b \<Longrightarrow> writes C P m) \<Longrightarrow> (\<not> b \<Longrightarrow> writes C P m') \<Longrightarrow> writes C P (if b then m else m')"
  by simp

lemmas writes_simple [writesI] =
  writes_keeps[OF keeps_ret] writes_keeps[OF keeps_fail] writes_keeps[OF keeps_require]
  writes_keeps[OF keeps_need] writes_keeps[OF keeps_lift] writes_keeps[OF keeps_reads]
  writes_keeps[OF keeps_get_arg] writes_keeps[OF keeps_get_obj] writes_keeps[OF keeps_absent]

context chain begin

lemma writes_put_obj: "P k \<Longrightarrow> writes C P (put_obj C k v)"
  unfolding writes_def put_obj_def by (auto simp: get_put split: option.splits)

lemma writes_put_all: "(\<And>k v. (k, v) \<in> set kvs \<Longrightarrow> P k) \<Longrightarrow> writes C P (put_all C kvs)"
proof (induction kvs)
  case Nil
  then show ?case by (auto intro: writesI)
next
  case (Cons kv kvs)
  obtain k v where kv: "kv = (k, v)" by fastforce
  have "writes C P (put_obj C k v)" using Cons.prems kv by (intro writes_put_obj) auto
  moreover have "writes C P (put_all C kvs)" using Cons.prems by (intro Cons.IH) auto
  ultimately show ?case by (auto simp: kv intro: writesI)
qed

end

section \<open>Iterating over a listing\<close>

text \<open>
  The body of a \<^verbatim>\<open>for iter.Next()\<close> loop that builds a list: it sees what has been collected
  and the current entry, and returns early, stops the loop, passes to the next entry, or appends.
\<close>

datatype 'x iter = Break | Continue | Append 'x

fun for_iter :: "('x list \<Rightarrow> 'i \<Rightarrow> 'x iter result) \<Rightarrow> 'i list \<Rightarrow> 'x list \<Rightarrow> 'x list result" where
  "for_iter body [] acc = Inr acc"
| "for_iter body (i # it) acc =
     (case body acc i of
        Inl e \<Rightarrow> Inl e
      | Inr Break \<Rightarrow> Inr acc
      | Inr Continue \<Rightarrow> for_iter body it acc
      | Inr (Append x) \<Rightarrow> for_iter body it (acc @ [x]))"

text \<open>The limit of a list query: zero or less means no limit.\<close>

definition limit_reached :: "int64 \<Rightarrow> 'a list \<Rightarrow> bool" where
  "limit_reached lim xs \<longleftrightarrow> 0 <s lim \<and> sint lim \<le> int (length xs)"

definition limited :: "int64 \<Rightarrow> 'a list \<Rightarrow> 'a list" where
  "limited lim xs = (if 0 <s lim then take (nat (sint lim)) xs else xs)"

text \<open>
  A loop that first checks the limit and whose body then decides by the entry alone collects,
  in listing order, what the body appends, up to the limit.
\<close>

lemma for_iter_limited:
  assumes body: "\<And>acc i. i \<in> set it \<Longrightarrow> body acc i =
      (if limit_reached lim acc then Inr Break
       else case h i of None \<Rightarrow> Inr Continue | Some x \<Rightarrow> Inr (Append x))"
  shows "for_iter body it acc = Inr (if limit_reached lim acc then acc
      else limited lim (acc @ List.map_filter h it))"
  using body
proof (induction it arbitrary: acc)
  case Nil
  then show ?case
    by (auto simp: limited_def limit_reached_def word_sless_alt List.map_filter_simps)
next
  case (Cons i it)
  have sub: "\<And>acc j. j \<in> set it \<Longrightarrow> body acc j =
      (if limit_reached lim acc then Inr Break
       else case h j of None \<Rightarrow> Inr Continue | Some x \<Rightarrow> Inr (Append x))"
    by (simp add: Cons.prems)
  note IH = Cons.IH[OF sub]
  show ?case
  proof (cases "limit_reached lim acc")
    case True
    then show ?thesis by (simp add: Cons.prems)
  next
    case False
    show ?thesis
    proof (cases "h i")
      case None
      with False IH[of acc] show ?thesis
        by (simp add: Cons.prems List.map_filter_simps)
    next
      case (Some x)
      have full: "limited lim (acc @ x # ys) = acc @ [x]" if "limit_reached lim (acc @ [x])" for ys
        using that False
        by (auto simp: limited_def limit_reached_def word_sless_alt nat_eq_iff take_Cons' )
      from Some False IH[of "acc @ [x]"] full show ?thesis
        by (simp add: Cons.prems List.map_filter_simps)
    qed
  qed
qed

lemma for_iter_all:
  assumes "\<And>acc i. i \<in> set it \<Longrightarrow> body acc i = Inr (Append (h i))"
  shows "for_iter body it acc = Inr (acc @ map h it)"
  using assms by (induction it arbitrary: acc) auto

lemma for_iter_fault:
  assumes "i \<in> set it" and "\<And>acc. body acc i = Inl e"
    and "\<And>acc j. j \<in> set it \<Longrightarrow> body acc j \<noteq> Inr Break"
  shows "\<exists>e'. for_iter body it acc = Inl e'"
  using assms
proof (induction it arbitrary: acc)
  case Nil
  then show ?case by simp
next
  case (Cons j it)
  show ?case
  proof (cases "j = i")
    case True
    then show ?thesis by (simp add: Cons.prems)
  next
    case False
    with Cons.prems have "i \<in> set it" by simp
    from Cons.IH[OF this Cons.prems(2)] Cons.prems(3) show ?thesis
      by (auto split: sum.splits iter.splits)
  qed
qed

text \<open>
  Listing the objects of an index. Every entry under the prefix belongs to an object, every object
  has its entry, and the loop keeps the objects that pass a filter: it returns them in key order,
  up to the limit.
\<close>

context chain begin

lemma listing:
  assumes entry: "\<And>k v. prefix p k \<Longrightarrow> get_object C s k = Some v \<Longrightarrow>
      \<exists>c. at c \<and> k = kf c \<and> v = vf c"
    and stored: "\<And>c. at c \<Longrightarrow> get_object C s (kf c) = Some (vf c)"
    and inj: "\<And>c c'. at c \<Longrightarrow> at c' \<Longrightarrow> kf c = kf c' \<Longrightarrow> c = c'"
    and body: "\<And>acc c. at c \<Longrightarrow> body acc (kf c, vf c) =
      (if limit_reached lim acc then Inr Break
       else if keep c then Inr (Append c) else Inr Continue)"
  obtains cs where "for_iter body (prefix_scan C s p) [] = Inr (limited lim (filter keep cs))"
    and "set cs = {c. at c \<and> prefix p (kf c)}" and "distinct cs"
    and "sorted_wrt (<) (map kf cs)"
proof -
  define it where "it = prefix_scan C s p"
  define obj where "obj = (\<lambda>kv. SOME c. at c \<and> kv = (kf c, vf c))"
  have objI: "at (obj kv) \<and> kv = (kf (obj kv), vf (obj kv))" if kv: "kv \<in> set it" for kv
  proof -
    obtain k v where "kv = (k, v)" by fastforce
    with kv entry have "\<exists>c. at c \<and> kv = (kf c, vf c)" by (auto simp: it_def scan_iff)
    then show ?thesis unfolding obj_def by (rule someI_ex)
  qed
  define cs where "cs = map obj it"
  have keys: "map kf cs = map fst it"
    unfolding cs_def map_map by (rule map_cong[OF refl]) (metis comp_apply fst_conv objI)
  have obj_eq: "obj (kf c, vf c) = c" if "at c" "(kf c, vf c) \<in> set it" for c
    using objI[OF that(2)] inj[OF _ that(1)] by simp
  define h where "h = (\<lambda>kv. if keep (obj kv) then Some (obj kv) else None)"
  have step: "body acc i = (if limit_reached lim acc then Inr Break
      else case h i of None \<Rightarrow> Inr Continue | Some x \<Rightarrow> Inr (Append x))"
    if "i \<in> set it" for acc i
    using objI[OF that] body[of "obj i" acc] by (simp add: h_def)
  have "for_iter body it [] = Inr (limited lim (List.map_filter h it))"
    using for_iter_limited[of it body lim h "[]", OF step]
    by (auto simp: limit_reached_def word_sless_alt split: if_splits)
  moreover have "List.map_filter h it = filter keep cs"
    unfolding cs_def h_def by (induction it) (simp_all add: List.map_filter_simps)
  ultimately have 1: "for_iter body (prefix_scan C s p) [] = Inr (limited lim (filter keep cs))"
    by (simp add: it_def)
  have 2: "set cs = {c. at c \<and> prefix p (kf c)}"
  proof (intro equalityI subsetI)
    fix c assume "c \<in> set cs"
    then obtain kv where kv: "kv \<in> set it" "c = obj kv" by (auto simp: cs_def)
    with objI[OF kv(1)] show "c \<in> {c. at c \<and> prefix p (kf c)}"
      using kv(1) scan_iff[of "kf c" "vf c" s p] by (simp add: it_def)
  next
    fix c assume c: "c \<in> {c. at c \<and> prefix p (kf c)}"
    then have "(kf c, vf c) \<in> set it" using stored by (simp add: it_def scan_iff)
    with obj_eq c show "c \<in> set cs" unfolding cs_def by (force simp: image_iff)
  qed
  have 4: "sorted_wrt (<) (map kf cs)" using scan_sorted[of s p] by (simp only: keys it_def)
  then have "distinct (map kf cs)" by (simp add: strict_sorted_iff)
  then have 3: "distinct cs" by (simp add: distinct_map)
  from 1 2 3 4 show thesis by (rule that)
qed


end

section \<open>A reference ledger\<close>

text \<open>
  An association list kept in key order: the smallest store with the interface's laws. The
  witnesses of the development run the contracts on it.
\<close>

type_synonym mem = "(string \<times> blob) list"

fun mem_put :: "mem \<Rightarrow> string \<Rightarrow> blob \<Rightarrow> mem" where
  "mem_put [] k v = [(k, v)]"
| "mem_put ((k', v') # m) k v =
     (if k < k' then (k, v) # (k', v') # m
      else if k = k' then (k, v) # m else (k', v') # mem_put m k v)"

definition mem_wf :: "mem \<Rightarrow> bool" where
  "mem_wf m \<longleftrightarrow> sorted_wrt (<) (map fst m)"

lemma mem_put_set: "fst ` set (mem_put m k v) = insert k (fst ` set m)"
  by (induction m k v rule: mem_put.induct) (simp_all add: insert_commute)

lemma mem_put_wf: "mem_wf m \<Longrightarrow> mem_wf (mem_put m k v)"
proof (induction m)
  case Nil
  then show ?case by (simp add: mem_wf_def)
next
  case (Cons kv m)
  obtain k' v' where kv: "kv = (k', v')" by fastforce
  from Cons.prems have all: "\<forall>x \<in> fst ` set m. k' < x" and wf: "mem_wf m"
    by (auto simp: kv mem_wf_def)
  have put: "mem_wf (mem_put m k v)" using wf by (rule Cons.IH)
  show ?case
    using all wf put mem_put_set[of m k v]
    by (auto simp: kv mem_wf_def)
qed

lemma mem_put_get: "map_of (mem_put m k v) k' = (if k' = k then Some v else map_of m k')"
  if "mem_wf m"
  using that
proof (induction m)
  case Nil
  then show ?case by simp
next
  case (Cons kv m)
  obtain a b where kv: "kv = (a, b)" by fastforce
  from Cons.prems have "mem_wf m" by (simp add: kv mem_wf_def)
  with Cons.IH show ?case by (auto simp: kv)
qed

typedef store = "{m. mem_wf m}"
  by (rule exI[of _ "[]"]) (simp add: mem_wf_def)

setup_lifting type_definition_store

lift_definition empty_store :: store is "[]"
  by (simp add: mem_wf_def)

lift_definition store_get :: "store \<Rightarrow> string \<Rightarrow> blob option" is "map_of" .

lift_definition store_put :: "store \<Rightarrow> string \<Rightarrow> blob \<Rightarrow> store" is mem_put
  by (rule mem_put_wf)

lift_definition store_scan :: "store \<Rightarrow> string \<Rightarrow> (string \<times> blob) list"
  is "\<lambda>m p. filter (\<lambda>kv. prefix p (fst kv)) m" .

definition mem_chain :: "store chain_ops" where
  "mem_chain = \<lparr>get_object = store_get, put_object = (\<lambda>s k v. Some (store_put s k v)),
     prefix_scan = store_scan\<rparr>"

lemma store_get_put [simp]:
  "store_get (store_put s k v) k' = (if k' = k then Some v else store_get s k')"
  by transfer (simp add: mem_put_get)

lemma store_get_empty [simp]: "store_get empty_store k = None"
  by transfer simp

lemma mem_wf_distinct: "mem_wf m \<Longrightarrow> distinct (map fst m)"
  by (simp add: mem_wf_def strict_sorted_iff)

lemma store_scan_set:
  "set (store_scan s p) = {(k, v). prefix p k \<and> store_get s k = Some v}"
  by transfer (auto simp: mem_wf_distinct)

lemma store_scan_sorted: "sorted_wrt (<) (map fst (store_scan s p))"
proof (transfer, unfold mem_wf_def)
  fix s :: mem and p :: string
  assume "sorted_wrt (<) (map fst s)"
  then show "sorted_wrt (<) (map fst (filter (\<lambda>kv. prefix p (fst kv)) s))"
    by (simp add: sorted_wrt_map sorted_wrt_filter)
qed

lemma mem_chain_simps [simp]:
  "get_object mem_chain = store_get"
  "put_object mem_chain s k v = Some (store_put s k v)"
  "prefix_scan mem_chain = store_scan"
  by (simp_all add: mem_chain_def)

lemma mem_chain_eval:
  "store_scan s p = filter (\<lambda>kv. prefix p (fst kv)) (Rep_store s)"
  "Rep_store (store_put s k v) = mem_put (Rep_store s) k v"
  "Rep_store empty_store = []"
  by (simp_all add: store_scan.rep_eq store_put.rep_eq empty_store.rep_eq)

interpretation mem: durable_chain mem_chain
  by unfold_locales (auto simp: store_scan_set store_scan_sorted)

text \<open>
  An environment to run the contracts in: every signature and every pairing proof passes, the
  hash pads or cuts its input to 32 bytes, and no byte sequence is read as JSON.
\<close>

definition mem_env :: env where
  "mem_env = \<lparr>ecdsa_verify = (\<lambda>_ _ _. True),
     sha256 = (\<lambda>b. take 32 (b @ replicate 32 (CHR 0x00))), parse_json = (\<lambda>_. None),
     pairing_ok = (\<lambda>_ _ _ _ _ _ _. True)\<rparr>"

lemma mem_env_simps [simp]:
  "ecdsa_verify mem_env pk d sig" "parse_json mem_env b = None"
  "sha256 mem_env b = take 32 (b @ replicate 32 (CHR 0x00))"
  "pairing_ok mem_env g m v u pk is vs"
  by (simp_all add: mem_env_def)

end
