(* ===== verification/XdbTypes.thy ===== *)
theory XdbTypes
  imports Chain
begin

text \<open>
  The data of XuperDB that is stored on the ledger or sent to its contract
  (\<^verbatim>\<open>xdb/blockchain/blockchain.go\<close>). Every struct is a record; a prefix of the struct's name
  keeps the field names apart. For a struct that is stored or signed, \<open>enc_\<close> is
  \<^verbatim>\<open>json.Marshal\<close> by the struct's tags, and for one that is read back \<open>dec_\<close> is
  \<^verbatim>\<open>json.Unmarshal\<close>; every decoder undoes its encoder.
\<close>

section \<open>Constants\<close>

abbreviation "ChallengeToProve \<equiv> ''ToProve''"
abbreviation "ChallengeProved \<equiv> ''Proved''"
abbreviation "ChallengeFailed \<equiv> ''Failed''"
abbreviation "FileAuthUnapproved \<equiv> ''Unapproved''"
abbreviation "FileAuthApproved \<equiv> ''Approved''"
abbreviation "FileAuthRejected \<equiv> ''Rejected''"
abbreviation "NodeHealthGood \<equiv> ''Green''"
abbreviation "NodeHealthMedium \<equiv> ''Yellow''"
abbreviation "NodeHealthBad \<equiv> ''Red''"

text \<open>\<open>7 * 24 * time.Hour\<close> in nanoseconds.\<close>

definition FileRetainPeriod :: int64 where
  "FileRetainPeriod = 604800000000000"

section \<open>Stored structs\<close>

record Node =
  nd_ID :: bytes
  nd_Name :: string
  nd_Address :: string
  nd_Online :: bool
  nd_RegTime :: int64
  nd_UpdateAt :: int64

definition enc_Node :: "Node \<Rightarrow> json" where
  "enc_Node n = JObj
    [(''id'', enc_bytes (nd_ID n)),
     (''name'', JStr (nd_Name n)),
     (''address'', JStr (nd_Address n)),
     (''online'', JBool (nd_Online n)),
     (''regTime'', enc_int (nd_RegTime n)),
     (''updateAt'', enc_int (nd_UpdateAt n))]"

definition dec_Node :: "json \<Rightarrow> Node option" where
  "dec_Node = dec_struct (\<lambda>kvs.
    Option.bind (fld dec_bytes [] ''id'' kvs) (\<lambda>v0.
    Option.bind (fld dec_str [] ''name'' kvs) (\<lambda>v1.
    Option.bind (fld dec_str [] ''address'' kvs) (\<lambda>v2.
    Option.bind (fld dec_bool False ''online'' kvs) (\<lambda>v3.
    Option.bind (fld dec_int_json 0 ''regTime'' kvs) (\<lambda>v4.
    Option.bind (fld dec_int_json 0 ''updateAt'' kvs) (\<lambda>v5.
    Some \<lparr>nd_ID = v0, nd_Name = v1, nd_Address = v2, nd_Online = v3, nd_RegTime = v4, nd_UpdateAt = v5\<rparr>)))))))"

lemma dec_enc_Node [json_rt, simp]: "dec_Node (enc_Node n) = Some n"
  by (cases n) (simp add: dec_Node_def enc_Node_def dec_struct_def fld_def json_rt)

record PublicSliceMeta =
  sm_ID :: string
  sm_CipherHash :: bytes
  sm_Length :: "64 word"
  sm_NodeID :: bytes
  sm_StorIndex :: string
  sm_SliceIdx :: int64

definition enc_PublicSliceMeta :: "PublicSliceMeta \<Rightarrow> json" where
  "enc_PublicSliceMeta m = JObj
    [(''id'', JStr (sm_ID m)),
     (''cipherHash'', enc_bytes (sm_CipherHash m)),
     (''length'', enc_uint (sm_Length m)),
     (''nodeID'', enc_bytes (sm_NodeID m)),
     (''storIndex'', JStr (sm_StorIndex m)),
     (''sliceIdx'', enc_int (sm_SliceIdx m))]"

definition dec_PublicSliceMeta :: "json \<Rightarrow> PublicSliceMeta option" where
  "dec_PublicSliceMeta = dec_struct (\<lambda>kvs.
    Option.bind (fld dec_str [] ''id'' kvs) (\<lambda>v0.
    Option.bind (fld dec_bytes [] ''cipherHash'' kvs) (\<lambda>v1.
    Option.bind (fld dec_uint_json 0 ''length'' kvs) (\<lambda>v2.
    Option.bind (fld dec_bytes [] ''nodeID'' kvs) (\<lambda>v3.
    Option.bind (fld dec_str [] ''storIndex'' kvs) (\<lambda>v4.
    Option.bind (fld dec_int_json 0 ''sliceIdx'' kvs) (\<lambda>v5.
    Some \<lparr>sm_ID = v0, sm_CipherHash = v1, sm_Length = v2, sm_NodeID = v3, sm_StorIndex = v4, sm_SliceIdx = v5\<rparr>)))))))"

lemma dec_enc_PublicSliceMeta [json_rt, simp]: "dec_PublicSliceMeta (enc_PublicSliceMeta m) = Some m"
  by (cases m) (simp add: dec_PublicSliceMeta_def enc_PublicSliceMeta_def dec_struct_def fld_def json_rt)

record File =
  f_ID :: string
  f_Name :: string
  f_Description :: string
  f_Namespace :: string
  f_Owner :: bytes
  f_Length :: "64 word"
  f_MerkleRoot :: bytes
  f_Slices :: "PublicSliceMeta list"
  f_Structure :: bytes
  f_PublishTime :: int64
  f_ExpireTime :: int64
  f_PdpPubkey :: bytes
  f_RandU :: bytes
  f_RandV :: bytes
  f_Ext :: bytes

definition enc_File :: "File \<Rightarrow> json" where
  "enc_File f = JObj
    [(''id'', JStr (f_ID f)),
     (''name'', JStr (f_Name f)),
     (''description'', JStr (f_Description f)),
     (''namespace'', JStr (f_Namespace f)),
     (''owner'', enc_bytes (f_Owner f)),
     (''length'', enc_uint (f_Length f)),
     (''merkleRoot'', enc_bytes (f_MerkleRoot f)),
     (''slices'', (enc_list enc_PublicSliceMeta) (f_Slices f)),
     (''structure'', enc_bytes (f_Structure f)),
     (''publishTime'', enc_int (f_PublishTime f)),
     (''expireTime'', enc_int (f_ExpireTime f)),
     (''pdpPubkey'', enc_bytes (f_PdpPubkey f)),
     (''randU'', enc_bytes (f_RandU f)),
     (''randV'', enc_bytes (f_RandV f)),
     (''ext'', enc_bytes (f_Ext f))]"

definition dec_File :: "json \<Rightarrow> File option" where
  "dec_File = dec_struct (\<lambda>kvs.
    Option.bind (fld dec_str [] ''id'' kvs) (\<lambda>v0.
    Option.bind (fld dec_str [] ''name'' kvs) (\<lambda>v1.
    Option.bind (fld dec_str [] ''description'' kvs) (\<lambda>v2.
    Option.bind (fld dec_str [] ''namespace'' kvs) (\<lambda>v3.
    Option.bind (fld dec_bytes [] ''owner'' kvs) (\<lambda>v4.
    Option.bind (fld dec_uint_json 0 ''length'' kvs) (\<lambda>v5.
    Option.bind (fld dec_bytes [] ''merkleRoot'' kvs) (\<lambda>v6.
    Option.bind (fld (dec_list dec_PublicSliceMeta) [] ''slices'' kvs) (\<lambda>v7.
    Option.bind (fld dec_bytes [] ''structure'' kvs) (\<lambda>v8.
    Option.bind (fld dec_int_json 0 ''publishTime'' kvs) (\<lambda>v9.
    Option.bind (fld dec_int_json 0 ''expireTime'' kvs) (\<lambda>v10.
    Option.bind (fld dec_bytes [] ''pdpPubkey'' kvs) (\<lambda>v11.
    Option.bind (fld dec_bytes [] ''randU'' kvs) (\<lambda>v12.
    Option.bind (fld dec_bytes [] ''randV'' kvs) (\<lambda>v13.
    Option.bind (fld dec_bytes [] ''ext'' kvs) (\<lambda>v14.
    Some \<lparr>f_ID = v0, f_Name = v1, f_Description = v2, f_Namespace = v3, f_Owner = v4, f_Length = v5, f_MerkleRoot = v6, f_Slices = v7, f_Structure = v8, f_PublishTime = v9, f_ExpireTime = v10, f_PdpPubkey = v11, f_RandU = v12, f_RandV = v13, f_Ext = v14\<rparr>))))))))))))))))"

lemma dec_enc_File [json_rt, simp]: "dec_File (enc_File f) = Some f"
  by (cases f) (simp add: dec_File_def enc_File_def dec_struct_def fld_def json_rt)

record Namespace =
  ns_Name :: string
  ns_Description :: string
  ns_Owner :: bytes
  ns_Replica :: int64
  ns_FileTotalNum :: int64
  ns_CreateTime :: int64
  ns_UpdateTime :: int64

definition enc_Namespace :: "Namespace \<Rightarrow> json" where
  "enc_Namespace n = JObj
    [(''name'', JStr (ns_Name n)),
     (''description'', JStr (ns_Description n)),
     (''owner'', enc_bytes (ns_Owner n)),
     (''replica'', enc_int (ns_Replica n)),
     (''fileTotalNum'', enc_int (ns_FileTotalNum n)),
     (''createTime'', enc_int (ns_CreateTime n)),
     (''updateTime'', enc_int (ns_UpdateTime n))]"

definition dec_Namespace :: "json \<Rightarrow> Namespace option" where
  "dec_Namespace = dec_struct (\<lambda>kvs.
    Option.bind (fld dec_str [] ''name'' kvs) (\<lambda>v0.
    Option.bind (fld dec_str [] ''description'' kvs) (\<lambda>v1.
    Option.bind (fld dec_bytes [] ''owner'' kvs) (\<lambda>v2.
    Option.bind (fld dec_int_json 0 ''replica'' kvs) (\<lambda>v3.
    Option.bind (fld dec_int_json 0 ''fileTotalNum'' kvs) (\<lambda>v4.
    Option.bind (fld dec_int_json 0 ''createTime'' kvs) (\<lambda>v5.
    Option.bind (fld dec_int_json 0 ''updateTime'' kvs) (\<lambda>v6.
    Some \<lparr>ns_Name = v0, ns_Description = v1, ns_Owner = v2, ns_Replica = v3, ns_FileTotalNum = v4, ns_CreateTime = v5, ns_UpdateTime = v6\<rparr>))))))))"

lemma dec_enc_Namespace [json_rt, simp]: "dec_Namespace (enc_Namespace n) = Some n"
  by (cases n) (simp add: dec_Namespace_def enc_Namespace_def dec_struct_def fld_def json_rt)

record Range =
  rg_Start :: "64 word"
  rg_End :: "64 word"

definition enc_Range :: "Range \<Rightarrow> json" where
  "enc_Range r = JObj
    [(''start'', enc_uint (rg_Start r)),
     (''end'', enc_uint (rg_End r))]"

definition dec_Range :: "json \<Rightarrow> Range option" where
  "dec_Range = dec_struct (\<lambda>kvs.
    Option.bind (fld dec_uint_json 0 ''start'' kvs) (\<lambda>v0.
    Option.bind (fld dec_uint_json 0 ''end'' kvs) (\<lambda>v1.
    Some \<lparr>rg_Start = v0, rg_End = v1\<rparr>)))"

lemma dec_enc_Range [json_rt, simp]: "dec_Range (enc_Range r) = Some r"
  by (cases r) (simp add: dec_Range_def enc_Range_def dec_struct_def fld_def json_rt)

record Challenge =
  ch_ID :: string
  ch_FileOwner :: bytes
  ch_TargetNode :: bytes
  ch_FileID :: string
  ch_ChallengeAlgorithm :: string
  ch_SliceIDs :: "string list"
  ch_SliceStorIndexes :: "string list"
  ch_Indices :: "bytes list"
  ch_Vs :: "bytes list"
  ch_Round :: int64
  ch_RandThisRound :: bytes
  ch_SliceID :: string
  ch_SliceStorIndex :: string
  ch_Ranges :: "Range list"
  ch_HashOfProof :: bytes
  ch_Status :: string
  ch_ChallengeTime :: int64
  ch_AnswerTime :: int64

definition enc_Challenge :: "Challenge \<Rightarrow> json" where
  "enc_Challenge c = JObj
    [(''id'', JStr (ch_ID c)),
     (''fileOwner'', enc_bytes (ch_FileOwner c)),
     (''targetNode'', enc_bytes (ch_TargetNode c)),
     (''fileID'', JStr (ch_FileID c)),
     (''challengeAlgorithm'', JStr (ch_ChallengeAlgorithm c)),
     (''sliceIDs'', (enc_list JStr) (ch_SliceIDs c)),
     (''sliceStorIndexes'', (enc_list JStr) (ch_SliceStorIndexes c)),
     (''indices'', (enc_list enc_bytes) (ch_Indices c)),
     (''vs'', (enc_list enc_bytes) (ch_Vs c)),
     (''round'', enc_int (ch_Round c)),
     (''randThisRound'', enc_bytes (ch_RandThisRound c)),
     (''sliceID'', JStr (ch_SliceID c)),
     (''sliceStorIndex'', JStr (ch_SliceStorIndex c)),
     (''ranges'', (enc_list enc_Range) (ch_Ranges c)),
     (''hashOfProof'', enc_bytes (ch_HashOfProof c)),
     (''status'', JStr (ch_Status c)),
     (''challengeTime'', enc_int (ch_ChallengeTime c)),
     (''answerTime'', enc_int (ch_AnswerTime c))]"

definition dec_Challenge :: "json \<Rightarrow> Challenge option" where
  "dec_Challenge = dec_struct (\<lambda>kvs.
    Option.bind (fld dec_str [] ''id'' kvs) (\<lambda>v0.
    Option.bind (fld dec_bytes [] ''fileOwner'' kvs) (\<lambda>v1.
    Option.bind (fld dec_bytes [] ''targetNode'' kvs) (\<lambda>v2.
    Option.bind (fld dec_str [] ''fileID'' kvs) (\<lambda>v3.
    Option.bind (fld dec_str [] ''challengeAlgorithm'' kvs) (\<lambda>v4.
    Option.bind (fld (dec_list dec_str) [] ''sliceIDs'' kvs) (\<lambda>v5.
    Option.bind (fld (dec_list dec_str) [] ''sliceStorIndexes'' kvs) (\<lambda>v6.
    Option.bind (fld (dec_list dec_bytes) [] ''indices'' kvs) (\<lambda>v7.
    Option.bind (fld (dec_list dec_bytes) [] ''vs'' kvs) (\<lambda>v8.
    Option.bind (fld dec_int_json 0 ''round'' kvs) (\<lambda>v9.
    Option.bind (fld dec_bytes [] ''randThisRound'' kvs) (\<lambda>v10.
    Option.bind (fld dec_str [] ''sliceID'' kvs) (\<lambda>v11.
    Option.bind (fld dec_str [] ''sliceStorIndex'' kvs) (\<lambda>v12.
    Option.bind (fld (dec_list dec_Range) [] ''ranges'' kvs) (\<lambda>v13.
    Option.bind (fld dec_bytes [] ''hashOfProof'' kvs) (\<lambda>v14.
    Option.bind (fld dec_str [] ''status'' kvs) (\<lambda>v15.
    Option.bind (fld dec_int_json 0 ''challengeTime'' kvs) (\<lambda>v16.
    Option.bind (fld dec_int_json 0 ''answerTime'' kvs) (\<lambda>v17.
    Some \<lparr>ch_ID = v0, ch_FileOwner = v1, ch_TargetNode = v2, ch_FileID = v3, ch_ChallengeAlgorithm = v4, ch_SliceIDs = v5, ch_SliceStorIndexes = v6, ch_Indices = v7, ch_Vs = v8, ch_Round = v9, ch_RandThisRound = v10, ch_SliceID = v11, ch_SliceStorIndex = v12, ch_Ranges = v13, ch_HashOfProof = v14, ch_Status = v15, ch_ChallengeTime = v16, ch_AnswerTime = v17\<rparr>)))))))))))))))))))"

lemma dec_enc_Challenge [json_rt, simp]: "dec_Challenge (enc_Challenge c) = Some c"
  by (cases c) (simp add: dec_Challenge_def enc_Challenge_def dec_struct_def fld_def json_rt)

record FileAuthApplication =
  fa_ID :: string
  fa_FileID :: string
  fa_Name :: string
  fa_Description :: string
  fa_Applier :: bytes
  fa_Authorizer :: bytes
  fa_AuthKey :: bytes
  fa_Status :: string
  fa_RejectReason :: string
  fa_CreateTime :: int64
  fa_ApprovalTime :: int64
  fa_ExpireTime :: int64
  fa_Ext :: bytes

definition enc_FileAuthApplication :: "FileAuthApplication \<Rightarrow> json" where
  "enc_FileAuthApplication a = JObj
    [(''id'', JStr (fa_ID a)),
     (''fileID'', JStr (fa_FileID a)),
     (''name'', JStr (fa_Name a)),
     (''description'', JStr (fa_Description a)),
     (''applier'', enc_bytes (fa_Applier a)),
     (''authorizer'', enc_bytes (fa_Authorizer a)),
     (''authKey'', enc_bytes (fa_AuthKey a)),
     (''status'', JStr (fa_Status a)),
     (''rejectReason'', JStr (fa_RejectReason a)),
     (''createTime'', enc_int (fa_CreateTime a)),
     (''approvalTime'', enc_int (fa_ApprovalTime a)),
     (''expireTime'', enc_int (fa_ExpireTime a)),
     (''ext'', enc_bytes (fa_Ext a))]"

definition dec_FileAuthApplication :: "json \<Rightarrow> FileAuthApplication option" where
  "dec_FileAuthApplication = dec_struct (\<lambda>kvs.
    Option.bind (fld dec_str [] ''id'' kvs) (\<lambda>v0.
    Option.bind (fld dec_str [] ''fileID'' kvs) (\<lambda>v1.
    Option.bind (fld dec_str [] ''name'' kvs) (\<lambda>v2.
    Option.bind (fld dec_str [] ''description'' kvs) (\<lambda>v3.
    Option.bind (fld dec_bytes [] ''applier'' kvs) (\<lambda>v4.
    Option.bind (fld dec_bytes [] ''authorizer'' kvs) (\<lambda>v5.
    Option.bind (fld dec_bytes [] ''authKey'' kvs) (\<lambda>v6.
    Option.bind (fld dec_str [] ''status'' kvs) (\<lambda>v7.
    Option.bind (fld dec_str [] ''rejectReason'' kvs) (\<lambda>v8.
    Option.bind (fld dec_int_json 0 ''createTime'' kvs) (\<lambda>v9.
    Option.bind (fld dec_int_json 0 ''approvalTime'' kvs) (\<lambda>v10.
    Option.bind (fld dec_int_json 0 ''expireTime'' kvs) (\<lambda>v11.
    Option.bind (fld dec_bytes [] ''ext'' kvs) (\<lambda>v12.
    Some \<lparr>fa_ID = v0, fa_FileID = v1, fa_Name = v2, fa_Description = v3, fa_Applier = v4, fa_Authorizer = v5, fa_AuthKey = v6, fa_Status = v7, fa_RejectReason = v8, fa_CreateTime = v9, fa_ApprovalTime = v10, fa_ExpireTime = v11, fa_Ext = v12\<rparr>))))))))))))))"

lemma dec_enc_FileAuthApplication [json_rt, simp]: "dec_FileAuthApplication (enc_FileAuthApplication a) = Some a"
  by (cases a) (simp add: dec_FileAuthApplication_def enc_FileAuthApplication_def dec_struct_def fld_def json_rt)

section \<open>Method arguments\<close>

record AddNodeOptions =
  ano_Node :: Node
  ano_Signature :: bytes

definition enc_AddNodeOptions :: "AddNodeOptions \<Rightarrow> json" where
  "enc_AddNodeOptions opt = JObj
    [(''node'', enc_Node (ano_Node opt)),
     (''signature'', enc_bytes (ano_Signature opt))]"

record NodeOperateOptions =
  noo_NodeID :: bytes
  noo_Nonce :: int64
  noo_Signature :: bytes

definition enc_NodeOperateOptions :: "NodeOperateOptions \<Rightarrow> json" where
  "enc_NodeOperateOptions opt = JObj
    [(''nodeID'', enc_bytes (noo_NodeID opt)),
     (''nonce'', enc_int (noo_Nonce opt)),
     (''signature'', enc_bytes (noo_Signature opt))]"

record NodeHeartBeatOptions =
  hbo_NodeID :: bytes
  hbo_CurrentTime :: int64
  hbo_BeginningTime :: int64
  hbo_Signature :: bytes

definition enc_NodeHeartBeatOptions :: "NodeHeartBeatOptions \<Rightarrow> json" where
  "enc_NodeHeartBeatOptions opt = JObj
    [(''nodeID'', enc_bytes (hbo_NodeID opt)),
     (''currentTime'', enc_int (hbo_CurrentTime opt)),
     (''beginningTime'', enc_int (hbo_BeginningTime opt)),
     (''signature'', enc_bytes (hbo_Signature opt))]"

record PublishFileOptions =
  pfo_File :: File
  pfo_Signature :: bytes

definition enc_PublishFileOptions :: "PublishFileOptions \<Rightarrow> json" where
  "enc_PublishFileOptions opt = JObj
    [(''file'', enc_File (pfo_File opt)),
     (''signature'', enc_bytes (pfo_Signature opt))]"

record UpdateExptimeOptions =
  ueo_FileID :: string
  ueo_NewExpireTime :: int64
  ueo_CurrentTime :: int64
  ueo_Signature :: bytes

definition enc_UpdateExptimeOptions :: "UpdateExptimeOptions \<Rightarrow> json" where
  "enc_UpdateExptimeOptions opt = JObj
    [(''fileID'', JStr (ueo_FileID opt)),
     (''newExpireTime'', enc_int (ueo_NewExpireTime opt)),
     (''currentTime'', enc_int (ueo_CurrentTime opt)),
     (''signature'', enc_bytes (ueo_Signature opt))]"

record UpdateFilePSMOptions =
  ufo_FileID :: string
  ufo_Owner :: bytes
  ufo_Slices :: "PublicSliceMeta list"
  ufo_Signature :: bytes

definition enc_UpdateFilePSMOptions :: "UpdateFilePSMOptions \<Rightarrow> json" where
  "enc_UpdateFilePSMOptions opt = JObj
    [(''fileID'', JStr (ufo_FileID opt)),
     (''owner'', enc_bytes (ufo_Owner opt)),
     (''slices'', (enc_list enc_PublicSliceMeta) (ufo_Slices opt)),
     (''signature'', enc_bytes (ufo_Signature opt))]"

record UpdateNsReplicaOptions =
  uno_Owner :: bytes
  uno_Name :: string
  uno_Replica :: int64
  uno_CurrentTime :: int64
  uno_Signature :: bytes

definition enc_UpdateNsReplicaOptions :: "UpdateNsReplicaOptions \<Rightarrow> json" where
  "enc_UpdateNsReplicaOptions opt = JObj
    [(''owner'', enc_bytes (uno_Owner opt)),
     (''name'', JStr (uno_Name opt)),
     (''replica'', enc_int (uno_Replica opt)),
     (''currentTime'', enc_int (uno_CurrentTime opt)),
     (''signature'', enc_bytes (uno_Signature opt))]"

record SliceMigrateOptions =
  smo_NodeID :: bytes
  smo_FileID :: string
  smo_SliceID :: string
  smo_CurrentTime :: int64
  smo_Signature :: bytes

definition enc_SliceMigrateOptions :: "SliceMigrateOptions \<Rightarrow> json" where
  "enc_SliceMigrateOptions opt = JObj
    [(''nodeID'', enc_bytes (smo_NodeID opt)),
     (''fileID'', JStr (smo_FileID opt)),
     (''sliceID'', JStr (smo_SliceID opt)),
     (''currentTime'', enc_int (smo_CurrentTime opt)),
     (''signature'', enc_bytes (smo_Signature opt))]"

record AddNsOptions =
  aso_Namespace :: Namespace
  aso_Signature :: bytes

definition enc_AddNsOptions :: "AddNsOptions \<Rightarrow> json" where
  "enc_AddNsOptions opt = JObj
    [(''namespace'', enc_Namespace (aso_Namespace opt)),
     (''signature'', enc_bytes (aso_Signature opt))]"

record ChallengeRequestOptions =
  cro_ChallengeID :: string
  cro_FileOwner :: bytes
  cro_TargetNode :: bytes
  cro_FileID :: string
  cro_SliceIDs :: "string list"
  cro_SliceStorIndexes :: "string list"
  cro_ChallengeTime :: int64
  cro_ChallengeAlgorithm :: string
  cro_Indices :: "bytes list"
  cro_Vs :: "bytes list"
  cro_Round :: int64
  cro_RandThisRound :: bytes
  cro_SliceID :: string
  cro_SliceStorIndex :: string
  cro_Ranges :: "Range list"
  cro_HashOfProof :: bytes
  cro_Signature :: bytes

definition enc_ChallengeRequestOptions :: "ChallengeRequestOptions \<Rightarrow> json" where
  "enc_ChallengeRequestOptions opt = JObj
    [(''challengeID'', JStr (cro_ChallengeID opt)),
     (''fileOwner'', enc_bytes (cro_FileOwner opt)),
     (''targetNode'', enc_bytes (cro_TargetNode opt)),
     (''fileID'', JStr (cro_FileID opt)),
     (''sliceIDs'', (enc_list JStr) (cro_SliceIDs opt)),
     (''sliceStorIndexes'', (enc_list JStr) (cro_SliceStorIndexes opt)),
     (''challengeTime'', enc_int (cro_ChallengeTime opt)),
     (''challengeAlgorithm'', JStr (cro_ChallengeAlgorithm opt)),
     (''indices'', (enc_list enc_bytes) (cro_Indices opt)),
     (''vs'', (enc_list enc_bytes) (cro_Vs opt)),
     (''round'', enc_int (cro_Round opt)),
     (''randThisRound'', enc_bytes (cro_RandThisRound opt)),
     (''sliceID'', JStr (cro_SliceID opt)),
     (''sliceStorIndex'', JStr (cro_SliceStorIndex opt)),
     (''ranges'', (enc_list enc_Range) (cro_Ranges opt)),
     (''hashOfProof'', enc_bytes (cro_HashOfProof opt)),
     (''signature'', enc_bytes (cro_Signature opt))]"

record ChallengeAnswerOptions =
  cao_ChallengeID :: string
  cao_Sigma :: bytes
  cao_Mu :: bytes
  cao_AnswerTime :: int64
  cao_Proof :: bytes
  cao_Signature :: bytes

definition enc_ChallengeAnswerOptions :: "ChallengeAnswerOptions \<Rightarrow> json" where
  "enc_ChallengeAnswerOptions opt = JObj
    [(''challengeID'', JStr (cao_ChallengeID opt)),
     (''sigma'', enc_bytes (cao_Sigma opt)),
     (''mu'', enc_bytes (cao_Mu opt)),
     (''answerTime'', enc_int (cao_AnswerTime opt)),
     (''proof'', enc_bytes (cao_Proof opt)),
     (''signature'', enc_bytes (cao_Signature opt))]"

record PublishFileAuthOptions =
  pao_FileAuthApplication :: FileAuthApplication
  pao_Signature :: bytes

definition enc_PublishFileAuthOptions :: "PublishFileAuthOptions \<Rightarrow> json" where
  "enc_PublishFileAuthOptions opt = JObj
    [(''fileAuthApplication'', enc_FileAuthApplication (pao_FileAuthApplication opt)),
     (''signature'', enc_bytes (pao_Signature opt))]"

record ConfirmFileAuthOptions =
  cfo_ID :: string
  cfo_AuthKey :: bytes
  cfo_RejectReason :: string
  cfo_CurrentTime :: int64
  cfo_ExpireTime :: int64
  cfo_Signature :: bytes

definition enc_ConfirmFileAuthOptions :: "ConfirmFileAuthOptions \<Rightarrow> json" where
  "enc_ConfirmFileAuthOptions opt = JObj
    [(''id'', JStr (cfo_ID opt)),
     (''authKey'', enc_bytes (cfo_AuthKey opt)),
     (''rejectReason'', JStr (cfo_RejectReason opt)),
     (''currentTime'', enc_int (cfo_CurrentTime opt)),
     (''expireTime'', enc_int (cfo_ExpireTime opt)),
     (''signature'', enc_bytes (cfo_Signature opt))]"

record ListFileOptions =
  lfo_Owner :: bytes
  lfo_Namespace :: string
  lfo_TimeStart :: int64
  lfo_TimeEnd :: int64
  lfo_CurrentTime :: int64
  lfo_Limit :: int64

record ListChallengeOptions =
  lco_FileOwner :: bytes
  lco_TargetNode :: bytes
  lco_FileID :: string
  lco_Status :: string
  lco_TimeStart :: int64
  lco_TimeEnd :: int64
  lco_Limit :: int64

record ListNodeSliceOptions =
  lno_Target :: bytes
  lno_StartTime :: int64
  lno_EndTime :: int64
  lno_Limit :: int64

record GetChallengeNumOptions =
  gco_TargetNode :: bytes
  gco_Status :: string
  gco_TimeStart :: int64
  gco_TimeEnd :: int64

record ListFileAuthOptions =
  lao_Applier :: bytes
  lao_Authorizer :: bytes
  lao_FileID :: string
  lao_Status :: string
  lao_TimeStart :: int64
  lao_TimeEnd :: int64
  lao_Limit :: int64

text \<open>\<^verbatim>\<open>NodeSliceMigrateOptions\<close> is declared as \<^verbatim>\<open>ListNodeSliceOptions\<close>, and \<^verbatim>\<open>ListNsOptions\<close> as
  \<^verbatim>\<open>ListFileOptions\<close>.\<close>

type_synonym NodeSliceMigrateOptions = ListNodeSliceOptions
type_synonym ListNsOptions = ListFileOptions

section \<open>The remaining stored documents\<close>

text \<open>The heartbeat list of a node for one day is a JSON array of times.\<close>

definition enc_times :: "int64 list \<Rightarrow> json" where
  "enc_times = enc_list enc_int"

definition dec_times :: "json \<Rightarrow> int64 list option" where
  "dec_times = dec_list dec_int_json"

lemma dec_enc_times [json_rt, simp]: "dec_times (enc_times ts) = Some ts"
  by (simp add: dec_times_def enc_times_def dec_enc_list)

end
