(* ===== verification/XdbKeys.thy ===== *)
theory XdbKeys
  imports XdbTypes
begin

text \<open>
  The ledger keys of the XuperDB contract (\<^verbatim>\<open>xdb/blockchain/xchain/contract/core/internal.go\<close>).
  A key is an index name followed by components, separated by slashes. Two keys of different
  indexes are different; keys of one index are equal only for equal components as long as the
  components that are written as they are (file names, namespaces, identifiers) hold no slash.
  File records are not indexed: the key of a file is its identifier itself. The contract of the
  computation network (\<^verbatim>\<open>dai/blockchain/xchain/contract/internal.go\<close>) embeds this contract and
  keeps its tasks and executor nodes on the same ledger, so its six indexes are listed here too.
\<close>

section \<open>Index names\<close>

datatype index =
    FilenameIndex | FileListByOwnerIndex | FileListByNsIndex | FileNsIndex | FileNsListIndex
  | FileAuthIndex | FileAuthApplierIndex | FileAuthAuthorizerIndex | FileAuthListIndex
  | ChallengeIndex | ChallengeIndex4Owner | ChallengeIndex4Target
  | NodeIndex | NodeListIndex | NodeHeartbeatIndex | NodeSliceMigrateIndex | NodeFileSlice
  | NodeNonceIndex
  | FlTaskIndex | FlTaskListIndex | REFlTaskListIndex
  | ExecutorNodeIndex | ExecutorNameIndex | ExecutorListIndex

primrec prefix_of :: "index \<Rightarrow> string" where
  "prefix_of FilenameIndex = ''index_fn''"
| "prefix_of FileListByOwnerIndex = ''index_fo_list''"
| "prefix_of FileListByNsIndex = ''index_fs_list''"
| "prefix_of FileNsIndex = ''index_fns''"
| "prefix_of FileNsListIndex = ''index_fns_list''"
| "prefix_of FileAuthIndex = ''index_fileauth''"
| "prefix_of FileAuthApplierIndex = ''index_fa_applier''"
| "prefix_of FileAuthAuthorizerIndex = ''index_fa_authorizer''"
| "prefix_of FileAuthListIndex = ''index_fa_list''"
| "prefix_of ChallengeIndex = ''index_chal''"
| "prefix_of ChallengeIndex4Owner = ''index_cho''"
| "prefix_of ChallengeIndex4Target = ''index_cht''"
| "prefix_of NodeIndex = ''index_node''"
| "prefix_of NodeListIndex = ''index_node_list''"
| "prefix_of NodeHeartbeatIndex = ''index_hbnode''"
| "prefix_of NodeSliceMigrateIndex = ''index_slicemigrate''"
| "prefix_of NodeFileSlice = ''index_fslice''"
| "prefix_of NodeNonceIndex = ''index_ndnonce''"
| "prefix_of FlTaskIndex = ''index_fltask''"
| "prefix_of FlTaskListIndex = ''index_fltask_list''"
| "prefix_of REFlTaskListIndex = ''index_re_fltask_list''"
| "prefix_of ExecutorNodeIndex = ''index_executor_node''"
| "prefix_of ExecutorNameIndex = ''index_executor_name''"
| "prefix_of ExecutorListIndex = ''index_executor_node_list''"

definition key :: "index \<Rightarrow> string list \<Rightarrow> string" where
  "key i ps = prefix_of i @ CHR ''/'' # Join ps ''/''"

lemma prefix_of_no_slash [simp]: "CHR ''/'' \<notin> set (prefix_of i)"
  by (cases i) simp_all

lemma prefix_of_inj [simp]: "prefix_of i = prefix_of j \<longleftrightarrow> i = j"
  by (cases i; cases j; simp)

lemma key_eq [simp]: "key i ps = key j qs \<longleftrightarrow> i = j \<and> Join ps ''/'' = Join qs ''/''"
  by (simp add: key_def sep_eq)

lemma slash_in_key [simp]: "CHR ''/'' \<in> set (key i ps)"
  by (simp add: key_def)

text \<open>The key of a file is never an index key when its identifier holds no slash.\<close>

lemma plain_neq_key [simp]:
  "CHR ''/'' \<notin> set x \<Longrightarrow> x \<noteq> key i ps" "CHR ''/'' \<notin> set x \<Longrightarrow> key i ps \<noteq> x"
  using slash_in_key by metis+

text \<open>The keys of some indexes; identifiers that keep clear of all of them.\<close>

definition in_index :: "index set \<Rightarrow> string \<Rightarrow> bool" where
  "in_index I k \<longleftrightarrow> (\<exists>i \<in> I. \<exists>ps. k = key i ps)"

lemma in_index_key [simp]: "in_index I (key i ps) \<longleftrightarrow> i \<in> I"
  unfolding in_index_def by auto

definition plain_id :: "string \<Rightarrow> bool" where
  "plain_id k \<longleftrightarrow> CHR ''/'' \<notin> set k \<and> \<not> prefix ''index_'' k"

lemma plain_not_key [simp]: "plain_id k \<Longrightarrow> k \<noteq> key i ps" "plain_id k \<Longrightarrow> key i ps \<noteq> k"
  by (auto simp: plain_id_def)

lemma plain_not_in_index [simp]: "plain_id k \<Longrightarrow> \<not> in_index I k"
  by (auto simp: in_index_def)

lemma key_not_plain [simp]: "\<not> plain_id (key i ps)"
  by (simp add: plain_id_def)

lemma index_prefix: "prefix ''index_'' (prefix_of i)"
  by (cases i) simp_all

lemma plain_no_prefix: "plain_id k \<Longrightarrow> \<not> prefix (prefix_of i) k"
  using index_prefix[of i] prefix_order.trans unfolding plain_id_def by blast

text \<open>The keys that an iteration over an index can meet.\<close>

definition under :: "index \<Rightarrow> string \<Rightarrow> bool" where
  "under i k \<longleftrightarrow> prefix (prefix_of i @ ''/'') k"

lemma under_key [simp]: "under i (key j ps) \<longleftrightarrow> i = j"
  by (simp add: under_def key_def prefix_sep)

lemma under_other: "under i k \<Longrightarrow> i \<notin> I \<Longrightarrow> \<not> in_index I k"
  by (auto simp: in_index_def)

lemma under_not_plain [simp]: "under i k \<Longrightarrow> \<not> plain_id k"
  by (auto simp: under_def plain_id_def prefix_def)

lemma under_prefix: "prefix (key i ps) k \<Longrightarrow> under i k"
  unfolding under_def key_def by (auto simp: prefix_def)

lemma prefix_key_same [simp]:
  "prefix (key i ps) (key j qs) \<longleftrightarrow> i = j \<and> prefix (Join ps ''/'') (Join qs ''/'')"
  by (simp add: key_def prefix_sep)

section \<open>Components\<close>

lemma Join_Cons2: "Join (a # b # r) ''/'' = a @ CHR ''/'' # Join (b # r) ''/''"
  by (simp add: Join.simps(3))

lemma Join_hex [simp]:
  "Join (hex a # p # ps) ''/'' = Join (hex b # q # qs) ''/'' \<longleftrightarrow>
     a = b \<and> Join (p # ps) ''/'' = Join (q # qs) ''/''"
  by (simp add: sep_eq Join.simps(3))

lemma Join_FormatInt [simp]:
  "Join (FormatInt a # p # ps) ''/'' = Join (FormatInt b # q # qs) ''/'' \<longleftrightarrow>
     a = b \<and> Join (p # ps) ''/'' = Join (q # qs) ''/''"
  by (simp add: sep_eq Join.simps(3))

lemma Join_plain:
  "CHR ''/'' \<notin> set a \<Longrightarrow> CHR ''/'' \<notin> set b \<Longrightarrow>
   Join (a # p # ps) ''/'' = Join (b # q # qs) ''/'' \<longleftrightarrow>
     a = b \<and> Join (p # ps) ''/'' = Join (q # qs) ''/''"
  by (simp add: sep_eq Join.simps(3))

definition subByInt64Max :: "int64 \<Rightarrow> int64" where
  "subByInt64Max n = maxInt64 - n"

lemma subByInt64Max_inj [simp]: "subByInt64Max m = subByInt64Max n \<longleftrightarrow> m = n"
  by (simp add: subByInt64Max_def)

lemma subByInt64Max_twice [simp]: "subByInt64Max (subByInt64Max n) = n"
  by (simp add: subByInt64Max_def)

section \<open>Keys of nodes\<close>

definition packNodeIndex :: "bytes \<Rightarrow> string" where
  "packNodeIndex nodeID = key NodeIndex [hex nodeID]"

definition packNodeListIndex :: "Node \<Rightarrow> string" where
  "packNodeListIndex n = key NodeListIndex [FormatInt (subByInt64Max (nd_RegTime n)), hex (nd_ID n)]"

definition packNodeHeartBeatIndex :: "bytes \<Rightarrow> int64 \<Rightarrow> string" where
  "packNodeHeartBeatIndex nodeID ctime = key NodeHeartbeatIndex [hex nodeID, FormatInt ctime]"

definition packNonceIndex :: "bytes \<Rightarrow> int64 \<Rightarrow> string" where
  "packNonceIndex nd nonce = key NodeNonceIndex [hex nd, FormatInt nonce]"

definition packNodeSliceIndex :: "string \<Rightarrow> File \<Rightarrow> string" where
  "packNodeSliceIndex nd f = key NodeFileSlice [nd, FormatInt (f_ExpireTime f), f_ID f]"

definition packNodeSliceFilter :: "string \<Rightarrow> string" where
  "packNodeSliceFilter target = key NodeFileSlice [target, '''']"

text \<open>
  \<open>strArr[2]\<close> panics when the key has fewer than three components, which is \<open>None\<close>.
\<close>

definition getNodeSliceFileID :: "string \<Rightarrow> (string \<times> int64) option" where
  "getNodeSliceFileID k = (let strArr = Split k (CHR ''/'') in
     if length strArr \<le> 2 then None
     else case ParseInt (strArr ! 2) of None \<Rightarrow> Some ('''', 0)
          | Some expireTime \<Rightarrow> Some (last strArr, expireTime))"

definition packNodeSliceMigrateIndex :: "string \<Rightarrow> int64 \<Rightarrow> string" where
  "packNodeSliceMigrateIndex target ctime =
     key NodeSliceMigrateIndex [target, FormatInt (subByInt64Max ctime)]"

definition packNodeSliceMigrateFilter :: "string \<Rightarrow> string" where
  "packNodeSliceMigrateFilter target = key NodeSliceMigrateIndex [target, '''']"

definition getNodeSliceMigrateTime :: "string \<Rightarrow> int64 option" where
  "getNodeSliceMigrateTime k = (let strArr = Split k (CHR ''/'') in
     if length strArr \<le> 2 then None
     else case ParseInt (strArr ! 2) of None \<Rightarrow> Some 0
          | Some expireTime \<Rightarrow> Some (subByInt64Max expireTime))"

section \<open>Keys of files and namespaces\<close>

definition packFileNameIndex :: "bytes \<Rightarrow> string \<Rightarrow> string \<Rightarrow> string" where
  "packFileNameIndex owner ns name = key FilenameIndex [hex owner, ns, name]"

definition packFileListByOwnerIndex :: "bytes \<Rightarrow> string \<Rightarrow> string \<Rightarrow> int64 \<Rightarrow> string" where
  "packFileListByOwnerIndex owner ns name pubTime =
     key FileListByOwnerIndex [hex owner, ns, FormatInt (subByInt64Max pubTime), name]"

definition packFileListByNsIndex :: "bytes \<Rightarrow> string \<Rightarrow> string \<Rightarrow> int64 \<Rightarrow> string" where
  "packFileListByNsIndex owner ns name pubTime =
     key FileListByNsIndex [ns, hex owner, FormatInt (subByInt64Max pubTime), name]"

definition packFileNsIndex :: "bytes \<Rightarrow> string \<Rightarrow> string" where
  "packFileNsIndex owner ns = key FileNsIndex [hex owner, ns]"

definition packFileNsListIndex :: "bytes \<Rightarrow> string \<Rightarrow> int64 \<Rightarrow> string" where
  "packFileNsListIndex owner ns createTime =
     key FileNsListIndex [hex owner, FormatInt (subByInt64Max createTime), ns]"

definition packFileNsListFilter :: "bytes \<Rightarrow> string" where
  "packFileNsListFilter owner =
     (if owner \<noteq> [] then key FileNsListIndex [hex owner, ''''] else key FileNsListIndex [])"

definition packFileNameFilter :: "bytes \<Rightarrow> string \<Rightarrow> string" where
  "packFileNameFilter owner ns =
     (let filter0 = (if owner = [] \<and> ns \<noteq> [] then FileListByNsIndex else FileListByOwnerIndex)
      in key filter0 ((if owner \<noteq> [] then [hex owner] else []) @
           (if ns \<noteq> [] then [ns] else []) @ (if owner \<noteq> [] \<or> ns \<noteq> [] then [''''] else [])))"

section \<open>Keys of file authorizations\<close>

definition packFileAuthIndex :: "string \<Rightarrow> string" where
  "packFileAuthIndex id' = key FileAuthIndex [id']"

definition packFileAuthApplierIndex :: "bytes \<Rightarrow> string \<Rightarrow> int64 \<Rightarrow> string" where
  "packFileAuthApplierIndex applier authID createTime =
     key FileAuthApplierIndex [hex applier, FormatInt (subByInt64Max createTime), authID]"

definition packFileAuthAuthorizerIndex :: "bytes \<Rightarrow> string \<Rightarrow> int64 \<Rightarrow> string" where
  "packFileAuthAuthorizerIndex authorizer authID createTime =
     key FileAuthAuthorizerIndex [hex authorizer, FormatInt (subByInt64Max createTime), authID]"

definition packApplierAndAuthorizerIndex :: "bytes \<Rightarrow> bytes \<Rightarrow> string \<Rightarrow> int64 \<Rightarrow> string" where
  "packApplierAndAuthorizerIndex applier authorizer authID createTime =
     key FileAuthListIndex
       [hex applier, hex authorizer, FormatInt (subByInt64Max createTime), authID]"

definition packFileAuthFilter :: "bytes \<Rightarrow> bytes \<Rightarrow> string" where
  "packFileAuthFilter applier authorizer =
     (if applier \<noteq> [] \<and> authorizer \<noteq> []
      then key FileAuthListIndex [hex applier, hex authorizer, '''']
      else if applier \<noteq> [] then key FileAuthApplierIndex [hex applier, '''']
      else key FileAuthAuthorizerIndex [hex authorizer, ''''])"

section \<open>Keys of challenges\<close>

definition packChallengeIndex :: "string \<Rightarrow> string" where
  "packChallengeIndex id' = key ChallengeIndex [id']"

definition packChallengeIndex4Owner :: "Challenge \<Rightarrow> string" where
  "packChallengeIndex4Owner c = key ChallengeIndex4Owner
     [hex (ch_FileOwner c), hex (ch_TargetNode c), FormatInt (subByInt64Max (ch_ChallengeTime c)),
      ch_ID c]"

definition packChallengeIndex4Target :: "Challenge \<Rightarrow> string" where
  "packChallengeIndex4Target c = key ChallengeIndex4Target
     [hex (ch_TargetNode c), FormatInt (subByInt64Max (ch_ChallengeTime c)), ch_ID c]"

definition packChallengeFilter :: "bytes \<Rightarrow> bytes \<Rightarrow> string" where
  "packChallengeFilter owner target =
     (let prefix0 = (if owner = [] \<and> target \<noteq> [] then ChallengeIndex4Target
                     else ChallengeIndex4Owner)
      in key prefix0 ((if owner \<noteq> [] then [hex owner] else []) @
           (if target \<noteq> [] then [hex target] else []) @
           (if owner \<noteq> [] \<or> target \<noteq> [] then [''''] else [])))"

lemmas pack_defs =
  packNodeIndex_def packNodeListIndex_def packNodeHeartBeatIndex_def packNonceIndex_def
  packNodeSliceIndex_def packNodeSliceMigrateIndex_def packFileNameIndex_def
  packFileListByOwnerIndex_def packFileListByNsIndex_def packFileNsIndex_def
  packFileNsListIndex_def packFileAuthIndex_def packFileAuthApplierIndex_def
  packFileAuthAuthorizerIndex_def packApplierAndAuthorizerIndex_def packChallengeIndex_def
  packChallengeIndex4Owner_def packChallengeIndex4Target_def

section \<open>What the keys tell\<close>

lemma packNodeIndex_inj [simp]: "packNodeIndex a = packNodeIndex b \<longleftrightarrow> a = b"
  by (simp add: pack_defs)

lemma packNonceIndex_inj [simp]:
  "packNonceIndex a m = packNonceIndex b n \<longleftrightarrow> a = b \<and> m = n"
  by (simp add: pack_defs)

lemma packNodeHeartBeatIndex_inj [simp]:
  "packNodeHeartBeatIndex a m = packNodeHeartBeatIndex b n \<longleftrightarrow> a = b \<and> m = n"
  by (simp add: pack_defs)

lemma packNodeListIndex_eq [simp]:
  "packNodeListIndex m = packNodeListIndex n \<longleftrightarrow> nd_RegTime m = nd_RegTime n \<and> nd_ID m = nd_ID n"
  by (simp add: pack_defs)

lemma packFileNsIndex_inj [simp]:
  "packFileNsIndex a m = packFileNsIndex b n \<longleftrightarrow> a = b \<and> m = n"
  by (simp add: pack_defs)

lemma packFileNsListIndex_inj [simp]:
  "packFileNsListIndex a m t = packFileNsListIndex b n u \<longleftrightarrow> a = b \<and> m = n \<and> t = u"
  by (auto simp: pack_defs)

lemma packChallengeIndex_inj [simp]: "packChallengeIndex a = packChallengeIndex b \<longleftrightarrow> a = b"
  by (simp add: pack_defs)

lemma packFileAuthIndex_inj [simp]: "packFileAuthIndex a = packFileAuthIndex b \<longleftrightarrow> a = b"
  by (simp add: pack_defs)

lemma packFileNameIndex_inj:
  assumes "CHR ''/'' \<notin> set m" and "CHR ''/'' \<notin> set n"
  shows "packFileNameIndex a m x = packFileNameIndex b n y \<longleftrightarrow> a = b \<and> m = n \<and> x = y"
  using assms by (simp add: pack_defs Join_plain)

lemma Split_key:
  assumes "CHR ''/'' \<notin> set a"
  shows "Split (key i (a # b # r)) (CHR ''/'') =
     prefix_of i # a # Split (Join (b # r) ''/'') (CHR ''/'')"
  using assms by (simp add: key_def Join_Cons2 Split_append_sep)

text \<open>The readers recover what the writers put into a key.\<close>

lemma getNodeSliceFileID_pack:
  assumes "CHR ''/'' \<notin> set nd" and "CHR ''/'' \<notin> set (f_ID f)"
  shows "getNodeSliceFileID (packNodeSliceIndex nd f) = Some (f_ID f, f_ExpireTime f)"
  using assms
  by (simp add: getNodeSliceFileID_def packNodeSliceIndex_def Split_key Join_Cons2
      Split_append_sep Let_def)

lemma getNodeSliceMigrateTime_pack:
  assumes "CHR ''/'' \<notin> set target"
  shows "getNodeSliceMigrateTime (packNodeSliceMigrateIndex target t) = Some t"
  using assms
  by (simp add: getNodeSliceMigrateTime_def packNodeSliceMigrateIndex_def Split_key Join_Cons2
      Let_def)

end
