(* ===== verification/XdbSign.thy ===== *)
theory XdbSign
  imports XdbKeys
begin

text \<open>
  What is signed and how a signature is checked: \<^verbatim>\<open>GetSigMessage\<close>
  (\<^verbatim>\<open>xdb/pkgs/strings/strings.go\<close>) and \<^verbatim>\<open>checkSign\<close> of the contract
  (\<^verbatim>\<open>xdb/blockchain/xchain/contract/core/files.go\<close>).

  The message of a struct lists its fields in the order of their JSON names as \<open>name=value\<close>,
  joined by ampersands; the field \<open>signature\<close> and the null fields are left out.
\<close>

section \<open>Lists of strings\<close>

fun IsContain :: "string list \<Rightarrow> string \<Rightarrow> bool" where
  "IsContain [] item = False"
| "IsContain (every # items) item = (if every = item then True else IsContain items item)"

fun dup_loop :: "string set \<Rightarrow> string list \<Rightarrow> bool" where
  "dup_loop temp [] = False"
| "dup_loop temp (item # items) = (if item \<in> temp then True else dup_loop (insert item temp) items)"

definition IsContainDuplicateItems :: "string list \<Rightarrow> bool" where
  "IsContainDuplicateItems items = dup_loop {} items"

lemma IsContain_iff [simp]: "IsContain items item \<longleftrightarrow> item \<in> set items"
  by (induction items) auto

lemma dup_loop_iff: "dup_loop temp items \<longleftrightarrow> \<not> distinct items \<or> set items \<inter> temp \<noteq> {}"
  by (induction items arbitrary: temp) auto

lemma IsContainDuplicateItems_iff [simp]: "IsContainDuplicateItems items \<longleftrightarrow> \<not> distinct items"
  by (simp add: IsContainDuplicateItems_def dup_loop_iff)

section \<open>The message to sign\<close>

definition sig_value :: "json \<Rightarrow> string" where
  "sig_value v = (case v of JStr s \<Rightarrow> s | JNum i \<Rightarrow> dec_int i
     | JBool b \<Rightarrow> (if b then ''true'' else ''false'') | _ \<Rightarrow> json_text (json_sort v))"

definition sig_part :: "string \<times> json \<Rightarrow> string" where
  "sig_part kv = (if fst kv = ''signature'' \<or> snd kv = JNull then []
     else fst kv @ ''='' @ sig_value (snd kv) @ ''&'')"

definition GetSigMessage :: "json \<Rightarrow> string option" where
  "GetSigMessage j = (case j of
       JNull \<Rightarrow> Some []
     | JObj kvs \<Rightarrow> Some (TrimRight (concat (map sig_part (sort_key fst kvs))) (CHR ''&''))
     | _ \<Rightarrow> None)"

section \<open>Checking a signature\<close>

definition PublicKeyLength :: nat where
  "PublicKeyLength = 64"

definition SignatureLength :: nat where
  "SignatureLength = 64"

definition checkSign :: "env \<Rightarrow> bytes \<Rightarrow> bytes \<Rightarrow> bytes \<Rightarrow> ('s, unit) act" where
  "checkSign E sign owner mes =
     (if length owner \<noteq> PublicKeyLength \<or> length sign \<noteq> SignatureLength
      then fail (Errx ErrCodeParam)
      else if \<not> ecdsa_verify E owner (sha256 E mes) sign then fail (Errx ErrCodeBadSignature)
      else ret ())"

text \<open>The two steps every signed method takes: build the message of its argument, check it.\<close>

definition checkSigned :: "env \<Rightarrow> bytes \<Rightarrow> bytes \<Rightarrow> json \<Rightarrow> ('s, unit) act" where
  "checkSigned E sign owner j =
     bnd (need (Errx ErrCodeInternal) (GetSigMessage j)) (\<lambda>msg. checkSign E sign owner msg)"

text \<open>What a passed check establishes: the key's holder signed this very message.\<close>

definition signed_by :: "env \<Rightarrow> bytes \<Rightarrow> bytes \<Rightarrow> json \<Rightarrow> bool" where
  "signed_by E sign owner j \<longleftrightarrow> length owner = 64 \<and> length sign = 64 \<and>
     (\<exists>msg. GetSigMessage j = Some msg \<and> ecdsa_verify E owner (sha256 E msg) sign)"

lemma checkSign_ok [act_ok]:
  "checkSign E sign owner mes s = (Inr u, s') \<longleftrightarrow>
     length owner = 64 \<and> length sign = 64 \<and> ecdsa_verify E owner (sha256 E mes) sign \<and> s' = s"
  by (auto simp: checkSign_def PublicKeyLength_def SignatureLength_def act_ok)

lemma checkSigned_ok [act_ok]:
  "checkSigned E sign owner j s = (Inr u, s') \<longleftrightarrow> signed_by E sign owner j \<and> s' = s"
  by (auto simp: checkSigned_def signed_by_def act_ok)

lemma keeps_checkSign [quietI]: "keeps_state (checkSign E sign owner mes)"
  by (auto simp: checkSign_def keeps_state_def act_defs)

lemma keeps_checkSigned [quietI]: "keeps_state (checkSigned E sign owner j)"
  unfolding checkSigned_def by (intro quietI)

lemmas writes_checks [writesI] = writes_keeps[OF keeps_checkSign] writes_keeps[OF keeps_checkSigned]

section \<open>What the message does not fix\<close>

text \<open>
  The values are neither quoted nor escaped, so the message does not determine the fields: a value
  can carry the text of the next field, and trailing ampersands of the last value are trimmed.
\<close>

lemma sort_key_sorted: "sorted (map fst kvs) \<Longrightarrow> sort_key fst kvs = kvs"
  by (rule sort_key_id_if_sorted)

end
