(* ===== verification/XdbFiles.thy ===== *)
theory XdbFiles
  imports XdbSign
begin

text \<open>
  Files and namespaces of the XuperDB contract
  (\<^verbatim>\<open>xdb/blockchain/xchain/contract/core/files.go\<close>). A file record stands under its
  identifier; four index keys lead to it (by name, by owner, by namespace and, per storage node, to
  its slices). A namespace record stands under its name key and under its list key.
\<close>

section \<open>Lookup\<close>

text \<open>The bytes of a stored value, as \<^verbatim>\<open>string(value)\<close> gives them.\<close>

definition blob_text :: "blob \<Rightarrow> string" where
  "blob_text b = (case b of Raw s \<Rightarrow> s | Doc j \<Rightarrow> json_text j)"

lemma blob_text_Raw [simp]: "blob_text (Raw s) = s"
  by (simp add: blob_text_def)

definition getFileByID :: "'s chain_ops \<Rightarrow> env \<Rightarrow> string \<Rightarrow> ('s, File) act" where
  "getFileByID C E fileID =
     bnd (get_obj C ErrCodeNotFound fileID) (\<lambda>s.
     need (Errx ErrCodeInternal) (unmarshal E dec_File s))"

definition getCtxTime :: "string option \<Rightarrow> ('s, int64) act" where
  "getCtxTime t =
     bnd (need (Errx ErrCodeParam) t) (\<lambda>pTime.
     need (Errx ErrCodeParam) (ParseInt pTime))"

section \<open>Publishing a file\<close>

text \<open>
  \<open>nodeSice\<close> of the code: the slices of a file by storage node, as a list of entries in the order in
  which the nodes first occur. The code ranges over a Go map, whose order is not fixed; the keys it
  writes are different for different nodes.
\<close>

fun append_slice :: "(string \<times> string list) list \<Rightarrow> string \<Rightarrow> string \<Rightarrow> (string \<times> string list) list" where
  "append_slice [] nd v = [(nd, [v])]"
| "append_slice ((n, vs) # m) nd v =
     (if n = nd then (n, vs @ [v]) # m else (n, vs) # append_slice m nd v)"

definition slice_entry :: "PublicSliceMeta \<Rightarrow> string" where
  "slice_entry sl = sm_ID sl @ '':'' @ sm_StorIndex sl"

definition node_slices :: "PublicSliceMeta list \<Rightarrow> (string \<times> string list) list" where
  "node_slices sls = foldl (\<lambda>m sl. append_slice m (sm_NodeID sl) (slice_entry sl)) [] sls"

definition node_slice_writes :: "File \<Rightarrow> (string \<times> blob) list" where
  "node_slice_writes f =
     map (\<lambda>(nd, sls). (packNodeSliceIndex nd f, Raw (Join sls '',''))) (node_slices (f_Slices f))"

text \<open>A name is taken while the file it leads to is not past its retention period.\<close>

definition check_name_free :: "'s chain_ops \<Rightarrow> env \<Rightarrow> string \<Rightarrow> int64 \<Rightarrow> ('s, unit) act" where
  "check_name_free C E filenameIndex publishTime =
     (\<lambda>s. case get_object C s filenameIndex of
        None \<Rightarrow> ret () s
      | Some i \<Rightarrow> bnd (getFileByID C E (blob_text i)) (\<lambda>fc.
          if publishTime <s f_ExpireTime fc + FileRetainPeriod
          then fail (Errx ErrCodeAlreadyExists) else ret ()) s)"

definition PublishFile :: "'s chain_ops \<Rightarrow> env \<Rightarrow> PublishFileOptions arg \<Rightarrow> ('s, string) act" where
  "PublishFile C E a =
     bnd (get_arg ErrCodeInternal a) (\<lambda>opt.
     let f = pfo_File opt in
     bnd (checkSigned E (pfo_Signature opt) (f_Owner f) (enc_PublishFileOptions opt)) (\<lambda>_.
     bnd (require (Errx ErrCodeParam) (f_Slices f \<noteq> [])) (\<lambda>_.
     bnd (absent C ErrCodeAlreadyExists (f_ID f)) (\<lambda>_.
     let fileNsIndex = packFileNsIndex (f_Owner f) (f_Namespace f) in
     bnd (get_obj C ErrCodeNotFound fileNsIndex) (\<lambda>nsr.
     bnd (need (Errx ErrCodeInternal) (unmarshal E dec_Namespace nsr)) (\<lambda>ns.
     let filenameIndex = packFileNameIndex (f_Owner f) (f_Namespace f) (f_Name f) in
     bnd (check_name_free C E filenameIndex (f_PublishTime f)) (\<lambda>_.
     bnd (put_obj C (f_ID f) (Doc (enc_File f))) (\<lambda>_.
     bnd (put_obj C filenameIndex (Raw (f_ID f))) (\<lambda>_.
     bnd (put_obj C (packFileListByOwnerIndex (f_Owner f) (f_Namespace f) (f_Name f) (f_PublishTime f))
            (Raw (f_ID f))) (\<lambda>_.
     bnd (put_obj C (packFileListByNsIndex (f_Owner f) (f_Namespace f) (f_Name f) (f_PublishTime f))
            (Raw (f_ID f))) (\<lambda>_.
     let ns = ns\<lparr>ns_FileTotalNum := ns_FileTotalNum ns + 1, ns_UpdateTime := f_PublishTime f\<rparr>;
         nsf = Doc (enc_Namespace ns) in
     bnd (put_obj C fileNsIndex nsf) (\<lambda>_.
     bnd (put_obj C (packFileNsListIndex (ns_Owner ns) (ns_Name ns) (ns_CreateTime ns)) nsf) (\<lambda>_.
     bnd (put_all C (node_slice_writes f)) (\<lambda>_.
     ret ''Published''))))))))))))))"

section \<open>Namespaces\<close>

definition AddFileNs :: "'s chain_ops \<Rightarrow> env \<Rightarrow> AddNsOptions arg \<Rightarrow> ('s, string) act" where
  "AddFileNs C E a =
     bnd (get_arg ErrCodeInternal a) (\<lambda>opt.
     let ns = aso_Namespace opt; s = Doc (enc_Namespace ns) in
     bnd (checkSigned E (aso_Signature opt) (ns_Owner ns) (enc_AddNsOptions opt)) (\<lambda>_.
     let fileNsIndex = packFileNsIndex (ns_Owner ns) (ns_Name ns) in
     bnd (absent C ErrCodeAlreadyExists fileNsIndex) (\<lambda>_.
     bnd (put_obj C fileNsIndex s) (\<lambda>_.
     bnd (put_obj C (packFileNsListIndex (ns_Owner ns) (ns_Name ns) (ns_CreateTime ns)) s) (\<lambda>_.
     ret ''OK'')))))"

definition UpdateNsReplica ::
    "'s chain_ops \<Rightarrow> env \<Rightarrow> UpdateNsReplicaOptions arg \<Rightarrow> ('s, string) act" where
  "UpdateNsReplica C E a =
     bnd (get_arg ErrCodeInternal a) (\<lambda>opt.
     bnd (checkSigned E (uno_Signature opt) (uno_Owner opt) (enc_UpdateNsReplicaOptions opt)) (\<lambda>_.
     let fileNsIndex = packFileNsIndex (uno_Owner opt) (uno_Name opt) in
     bnd (get_obj C ErrCodeNotFound fileNsIndex) (\<lambda>nsr.
     bnd (need (Errx ErrCodeInternal) (unmarshal E dec_Namespace nsr)) (\<lambda>n.
     bnd (require (Errx ErrCodeParam) (\<not> uno_Replica opt \<le>s ns_Replica n)) (\<lambda>_.
     let n = n\<lparr>ns_Replica := uno_Replica opt, ns_UpdateTime := uno_CurrentTime opt\<rparr>;
         s = Doc (enc_Namespace n) in
     bnd (put_obj C fileNsIndex s) (\<lambda>_.
     bnd (put_obj C (packFileNsListIndex (ns_Owner n) (ns_Name n) (ns_CreateTime n)) s) (\<lambda>_.
     ret ''OK'')))))))"

definition GetNsByName ::
    "'s chain_ops \<Rightarrow> bytes option \<Rightarrow> string option \<Rightarrow> ('s, blob) act" where
  "GetNsByName C owner name =
     bnd (need (Errx ErrCodeParam) owner) (\<lambda>owner.
     bnd (need (Errx ErrCodeParam) name) (\<lambda>ns.
     get_obj C ErrCodeNotFound (packFileNsIndex owner ns)))"

section \<open>Updating a file\<close>

definition UpdateFilePublicSliceMeta ::
    "'s chain_ops \<Rightarrow> env \<Rightarrow> UpdateFilePSMOptions arg \<Rightarrow> ('s, string) act" where
  "UpdateFilePublicSliceMeta C E a =
     bnd (get_arg ErrCodeInternal a) (\<lambda>opt.
     bnd (checkSigned E (ufo_Signature opt) (ufo_Owner opt) (enc_UpdateFilePSMOptions opt)) (\<lambda>_.
     bnd (get_obj C ErrCodeNotFound (ufo_FileID opt)) (\<lambda>fs.
     bnd (need (Errx ErrCodeInternal) (unmarshal E dec_File fs)) (\<lambda>f.
     bnd (require (Errx ErrCodeNotAuthorized) (f_Owner f = ufo_Owner opt)) (\<lambda>_.
     let f = f\<lparr>f_Slices := ufo_Slices opt\<rparr> in
     bnd (put_obj C (f_ID f) (Doc (enc_File f))) (\<lambda>_.
     ret ''OK''))))))"

definition UpdateFileExpireTime ::
    "'s chain_ops \<Rightarrow> env \<Rightarrow> UpdateExptimeOptions arg \<Rightarrow> ('s, blob) act" where
  "UpdateFileExpireTime C E a =
     bnd (get_arg ErrCodeInternal a) (\<lambda>opt.
     bnd (getFileByID C E (ueo_FileID opt)) (\<lambda>f.
     bnd (require (Errx ErrCodeParam)
            (\<not> f_ExpireTime f + FileRetainPeriod \<le>s ueo_CurrentTime opt)) (\<lambda>_.
     bnd (require (Errx ErrCodeParam)
            (\<not> (ueo_NewExpireTime opt \<le>s f_ExpireTime f \<or>
                ueo_NewExpireTime opt \<le>s ueo_CurrentTime opt))) (\<lambda>_.
     bnd (checkSigned E (ueo_Signature opt) (f_Owner f) (enc_UpdateExptimeOptions opt)) (\<lambda>_.
     let f = f\<lparr>f_ExpireTime := ueo_NewExpireTime opt\<rparr>; nf = Doc (enc_File f) in
     bnd (put_obj C (f_ID f) nf) (\<lambda>_.
     ret nf))))))"

definition SliceMigrateRecord ::
    "'s chain_ops \<Rightarrow> env \<Rightarrow> SliceMigrateOptions arg \<Rightarrow> ('s, string) act" where
  "SliceMigrateRecord C E a =
     bnd (get_arg ErrCodeInternal a) (\<lambda>opt.
     bnd (getFileByID C E (smo_FileID opt)) (\<lambda>file.
     bnd (checkSigned E (smo_Signature opt) (f_Owner file) (enc_SliceMigrateOptions opt)) (\<lambda>_.
     let hindex = packNodeSliceMigrateIndex (smo_NodeID opt) (smo_CurrentTime opt);
         fs = JObj [(''fileID'', JStr (smo_FileID opt)), (''sliceID'', JStr (smo_SliceID opt))] in
     bnd (put_obj C hindex (Doc fs)) (\<lambda>_.
     ret ''ok''))))"

section \<open>Queries\<close>

definition GetFileByName ::
    "'s chain_ops \<Rightarrow> env \<Rightarrow> bytes option \<Rightarrow> string option \<Rightarrow> string option \<Rightarrow> string option \<Rightarrow>
     ('s, blob) act" where
  "GetFileByName C E owner ns name currentTime =
     bnd (need (Errx ErrCodeParam) owner) (\<lambda>owner.
     bnd (need (Errx ErrCodeParam) ns) (\<lambda>ns.
     bnd (need (Errx ErrCodeParam) name) (\<lambda>name.
     bnd (getCtxTime currentTime) (\<lambda>ctime.
     bnd (get_obj C ErrCodeParam (packFileNsIndex owner ns)) (\<lambda>_.
     bnd (get_obj C ErrCodeNotFound (packFileNameIndex owner ns name)) (\<lambda>i.
     bnd (get_obj C ErrCodeNotFound (blob_text i)) (\<lambda>s.
     bnd (need (Errx ErrCodeInternal) (unmarshal E dec_File s)) (\<lambda>f.
     bnd (require (Errx ErrCodeNotFound) (\<not> f_ExpireTime f <s ctime)) (\<lambda>_.
     ret s)))))))))"

definition GetFileByID ::
    "'s chain_ops \<Rightarrow> env \<Rightarrow> string option \<Rightarrow> string option \<Rightarrow> ('s, blob) act" where
  "GetFileByID C E id' currentTime =
     bnd (need (Errx ErrCodeParam) id') (\<lambda>i.
     bnd (getCtxTime currentTime) (\<lambda>ctime.
     bnd (get_obj C ErrCodeNotFound i) (\<lambda>fs.
     bnd (need (Errx ErrCodeInternal) (unmarshal E dec_File fs)) (\<lambda>f.
     bnd (require (Errx ErrCodeExpired) (\<not> f_ExpireTime f <s ctime)) (\<lambda>_.
     ret fs)))))"

text \<open>The body shared by the two listings: the limit, the file, then the filter of the listing.\<close>

definition list_files_body ::
    "'s chain_ops \<Rightarrow> env \<Rightarrow> 's \<Rightarrow> int64 \<Rightarrow> (File \<Rightarrow> bool) \<Rightarrow> File list \<Rightarrow> string \<times> blob \<Rightarrow>
     File iter result" where
  "list_files_body C E s limit skip fs kv =
     (if limit_reached limit fs then Inr Break
      else case fst (getFileByID C E (blob_text (snd kv)) s) of
          Inl e \<Rightarrow> Inl e
        | Inr f \<Rightarrow> if skip f then Inr Continue else Inr (Append f))"

definition outside_window :: "ListFileOptions \<Rightarrow> int64 \<Rightarrow> bool" where
  "outside_window opt t \<longleftrightarrow>
     t <s lfo_TimeStart opt \<or> (0 <s lfo_TimeEnd opt \<and> lfo_TimeEnd opt <s t)"

definition ListFiles :: "'s chain_ops \<Rightarrow> env \<Rightarrow> ListFileOptions arg \<Rightarrow> ('s, File list) act" where
  "ListFiles C E a =
     bnd (get_arg ErrCodeInternal a) (\<lambda>opt.
     reads (\<lambda>s. for_iter
       (list_files_body C E s (lfo_Limit opt) (\<lambda>f.
          outside_window opt (f_PublishTime f) \<or> f_ExpireTime f \<le>s lfo_CurrentTime opt))
       (prefix_scan C s (packFileNameFilter (lfo_Owner opt) (lfo_Namespace opt))) []))"

definition ListExpiredFiles ::
    "'s chain_ops \<Rightarrow> env \<Rightarrow> ListFileOptions arg \<Rightarrow> ('s, File list) act" where
  "ListExpiredFiles C E a =
     bnd (get_arg ErrCodeInternal a) (\<lambda>opt.
     reads (\<lambda>s. for_iter
       (list_files_body C E s (lfo_Limit opt) (\<lambda>f.
          outside_window opt (f_PublishTime f) \<or>
          f_ExpireTime f <s lfo_CurrentTime opt - FileRetainPeriod \<or>
          lfo_CurrentTime opt <s f_ExpireTime f))
       (prefix_scan C s (packFileNameFilter (lfo_Owner opt) (lfo_Namespace opt))) []))"

definition ListFileNs_body ::
    "env \<Rightarrow> ListNsOptions \<Rightarrow> Namespace list \<Rightarrow> string \<times> blob \<Rightarrow> Namespace iter result" where
  "ListFileNs_body E opt nss kv =
     (if limit_reached (lfo_Limit opt) nss then Inr Break
      else case unmarshal E dec_Namespace (snd kv) of
          None \<Rightarrow> Inl (Errx ErrCodeInternal)
        | Some ns \<Rightarrow> if outside_window opt (ns_CreateTime ns) then Inr Continue else Inr (Append ns))"

definition ListFileNs ::
    "'s chain_ops \<Rightarrow> env \<Rightarrow> ListNsOptions arg \<Rightarrow> ('s, Namespace list) act" where
  "ListFileNs C E a =
     bnd (get_arg ErrCodeInternal a) (\<lambda>opt.
     reads (\<lambda>s. for_iter (ListFileNs_body E opt)
       (prefix_scan C s (packFileNsListFilter (lfo_Owner opt))) []))"

lemma sless_le: "(a :: int64) \<le>s b \<longleftrightarrow> \<not> b <s a"
  by (auto simp: word_sle_eq word_sless_alt)

section \<open>Footprints\<close>

lemma bnd_got: "bnd (get_arg e (Got x)) f = f x"
  by (simp add: bnd_def get_arg_def ret_def)

lemma keeps_getFileByID [quietI]: "keeps_state (getFileByID C E i)"
  unfolding getFileByID_def by (intro quietI)

lemma keeps_check_name_free [quietI]: "keeps_state (check_name_free C E k t)"
proof -
  have "keeps_state (bnd (getFileByID C E i) (\<lambda>fc.
      if t <s f_ExpireTime fc + FileRetainPeriod
      then fail (Errx ErrCodeAlreadyExists) else ret ()))" for i
    by (intro quietI) (simp add: quietI)
  then show ?thesis
    unfolding check_name_free_def
    by (auto simp: keeps_state_def ret_def split: option.splits)
qed

lemmas writes_file_reads [writesI] =
  writes_keeps[OF keeps_getFileByID] writes_keeps[OF keeps_check_name_free]

abbreviation "file_indexes \<equiv>
  {FilenameIndex, FileListByOwnerIndex, FileListByNsIndex, FileNsIndex, FileNsListIndex, NodeFileSlice}"

context chain begin

lemma PublishFile_writes:
  "writes C (\<lambda>k. k = f_ID (pfo_File opt) \<or> in_index file_indexes k) (PublishFile C E (Got opt))"
  unfolding PublishFile_def Let_def bnd_got
  by (intro writesI writes_put_obj writes_put_all)
    (auto simp: pack_defs node_slice_writes_def)

lemma AddFileNs_writes: "writes C (in_index {FileNsIndex, FileNsListIndex}) (AddFileNs C E a)"
  unfolding AddFileNs_def Let_def by (intro writesI writes_put_obj) (simp_all add: pack_defs)

lemma UpdateNsReplica_writes:
  "writes C (in_index {FileNsIndex, FileNsListIndex}) (UpdateNsReplica C E a)"
  unfolding UpdateNsReplica_def Let_def by (intro writesI writes_put_obj) (simp_all add: pack_defs)

lemma SliceMigrateRecord_writes:
  "writes C (in_index {NodeSliceMigrateIndex}) (SliceMigrateRecord C E a)"
  unfolding SliceMigrateRecord_def Let_def by (intro writesI writes_put_obj) (simp_all add: pack_defs)

end

section \<open>The file store\<close>

text \<open>
  What the methods keep of files: whatever stands under a plain identifier is the file of that
  identifier, and every entry of the three file indexes belongs to such a file.
\<close>

definition file_at :: "'s chain_ops \<Rightarrow> 's \<Rightarrow> File \<Rightarrow> bool" where
  "file_at C s f \<longleftrightarrow> plain_id (f_ID f) \<and> get_object C s (f_ID f) = Some (Doc (enc_File f))"

definition file_lists :: "index set" where
  "file_lists = {FilenameIndex, FileListByOwnerIndex, FileListByNsIndex}"

definition file_key :: "index \<Rightarrow> File \<Rightarrow> string" where
  "file_key i f =
     (if i = FilenameIndex then packFileNameIndex (f_Owner f) (f_Namespace f) (f_Name f)
      else if i = FileListByOwnerIndex
      then packFileListByOwnerIndex (f_Owner f) (f_Namespace f) (f_Name f) (f_PublishTime f)
      else packFileListByNsIndex (f_Owner f) (f_Namespace f) (f_Name f) (f_PublishTime f))"

definition file_inv :: "'s chain_ops \<Rightarrow> 's \<Rightarrow> bool" where
  "file_inv C s \<longleftrightarrow>
     (\<forall>k v. plain_id k \<longrightarrow> get_object C s k = Some v \<longrightarrow>
        (\<exists>f. v = Doc (enc_File f) \<and> f_ID f = k)) \<and>
     (\<forall>x \<in> file_lists. \<forall>k v. under x k \<longrightarrow> get_object C s k = Some v \<longrightarrow>
        (\<exists>f. file_at C s f \<and> k = file_key x f \<and> v = Raw (f_ID f)))"

lemma enc_File_inj [simp]: "enc_File a = enc_File b \<longleftrightarrow> a = b"
  by (metis dec_enc_File option.inject)

lemma enc_Namespace_inj [simp]: "enc_Namespace a = enc_Namespace b \<longleftrightarrow> a = b"
  by (metis dec_enc_Namespace option.inject)

lemma file_key_simps [simp]:
  assumes "x \<in> file_lists"
  shows "under x (file_key x f)" and "\<not> plain_id (file_key x f)"
  using assms by (auto simp: file_lists_def file_key_def pack_defs)

lemma under_file_key: "x \<in> file_lists \<Longrightarrow> y \<in> file_lists \<Longrightarrow> under x (file_key y f) \<longleftrightarrow> x = y"
  by (auto simp: file_lists_def file_key_def pack_defs)

lemma file_key_cong:
  "f_Owner f = f_Owner g \<Longrightarrow> f_Namespace f = f_Namespace g \<Longrightarrow> f_Name f = f_Name g \<Longrightarrow>
     f_PublishTime f = f_PublishTime g \<Longrightarrow> file_key x f = file_key x g"
  by (simp add: file_key_def)

lemma file_invD:
  assumes "file_inv C s"
  shows "plain_id k \<Longrightarrow> get_object C s k = Some v \<Longrightarrow> \<exists>f. v = Doc (enc_File f) \<and> f_ID f = k"
    and "x \<in> file_lists \<Longrightarrow> under x k \<Longrightarrow> get_object C s k = Some v \<Longrightarrow>
      \<exists>f. file_at C s f \<and> k = file_key x f \<and> v = Raw (f_ID f)"
  using assms unfolding file_inv_def by blast+

lemma file_inv_frame:
  assumes inv: "file_inv C s"
    and pl: "\<And>k. plain_id k \<Longrightarrow> get_object C s' k = get_object C s k"
    and ls: "\<And>x k. x \<in> file_lists \<Longrightarrow> under x k \<Longrightarrow> get_object C s' k = get_object C s k"
  shows "file_inv C s'"
proof -
  have at: "file_at C s' f \<longleftrightarrow> file_at C s f" for f by (auto simp: file_at_def pl)
  show ?thesis using inv ls pl by (simp add: file_inv_def at)
qed

lemma file_inv_store:
  assumes inv: "file_inv C s" and id: "plain_id (f_ID f)"
    and pl: "\<And>k. plain_id k \<Longrightarrow> get_object C s' k =
        (if k = f_ID f then Some (Doc (enc_File f)) else get_object C s k)"
    and ls: "\<And>x k. x \<in> file_lists \<Longrightarrow> under x k \<Longrightarrow>
        get_object C s' k = get_object C s k \<or>
        (k = file_key x f \<and> get_object C s' k = Some (Raw (f_ID f)))"
    and same: "\<And>g x. file_at C s g \<Longrightarrow> f_ID g = f_ID f \<Longrightarrow> file_key x g = file_key x f"
  shows "file_inv C s'"
proof -
  have atf: "file_at C s' f" using id by (simp add: file_at_def pl)
  have at: "file_at C s' g" if "file_at C s g" "f_ID g \<noteq> f_ID f" for g
    using that by (simp add: file_at_def pl)
  have 1: "\<exists>g. v = Doc (enc_File g) \<and> f_ID g = k" if "plain_id k" "get_object C s' k = Some v" for k v
    using that file_invD(1)[OF inv that(1)] by (auto simp: pl split: if_splits)
  have 2: "\<exists>g. file_at C s' g \<and> k = file_key x g \<and> v = Raw (f_ID g)"
    if x: "x \<in> file_lists" and k: "under x k" and v: "get_object C s' k = Some v" for x k v
  proof (cases "k = file_key x f \<and> v = Raw (f_ID f)")
    case True
    with atf show ?thesis by blast
  next
    case False
    with ls[OF x k] v have "get_object C s k = Some v" by auto
    from file_invD(2)[OF inv x k this] obtain g where g: "file_at C s g" "k = file_key x g"
      "v = Raw (f_ID g)" by blast
    show ?thesis
    proof (cases "f_ID g = f_ID f")
      case True
      with same[OF g(1) True, of x] g(2,3) atf show ?thesis by auto
    next
      case False
      with at[OF g(1)] g show ?thesis by blast
    qed
  qed
  show ?thesis unfolding file_inv_def using 1 2 by blast
qed

text \<open>Namespaces: as for nodes, the record and its list copy are equal.\<close>

definition ns_list_key :: "Namespace \<Rightarrow> string" where
  "ns_list_key ns = packFileNsListIndex (ns_Owner ns) (ns_Name ns) (ns_CreateTime ns)"

definition ns_at :: "'s chain_ops \<Rightarrow> 's \<Rightarrow> Namespace \<Rightarrow> bool" where
  "ns_at C s ns \<longleftrightarrow>
     get_object C s (packFileNsIndex (ns_Owner ns) (ns_Name ns)) = Some (Doc (enc_Namespace ns))"

definition ns_inv :: "'s chain_ops \<Rightarrow> 's \<Rightarrow> bool" where
  "ns_inv C s \<longleftrightarrow>
     (\<forall>w n v. get_object C s (packFileNsIndex w n) = Some v \<longrightarrow>
        (\<exists>ns. v = Doc (enc_Namespace ns) \<and> ns_Owner ns = w \<and> ns_Name ns = n \<and>
           get_object C s (ns_list_key ns) = Some v)) \<and>
     (\<forall>k v. under FileNsListIndex k \<longrightarrow> get_object C s k = Some v \<longrightarrow>
        (\<exists>ns. k = ns_list_key ns \<and> v = Doc (enc_Namespace ns) \<and> ns_at C s ns))"

lemma ns_key_simps [simp]:
  "packFileNsIndex a m = packFileNsIndex b n \<longleftrightarrow> a = b \<and> m = n"
  "ns_list_key x = ns_list_key y \<longleftrightarrow>
     ns_Owner x = ns_Owner y \<and> ns_CreateTime x = ns_CreateTime y \<and> ns_Name x = ns_Name y"
  "packFileNsIndex a m \<noteq> ns_list_key x" "ns_list_key x \<noteq> packFileNsIndex a m"
  "under FileNsListIndex (ns_list_key x)" "\<not> under FileNsListIndex (packFileNsIndex a m)"
  by (simp_all add: ns_list_key_def pack_defs)

lemma ns_invD:
  assumes "ns_inv C s"
  shows "get_object C s (packFileNsIndex w n) = Some v \<Longrightarrow>
      \<exists>ns. v = Doc (enc_Namespace ns) \<and> ns_Owner ns = w \<and> ns_Name ns = n \<and>
           get_object C s (ns_list_key ns) = Some v"
    and "under FileNsListIndex k \<Longrightarrow> get_object C s k = Some v \<Longrightarrow>
      \<exists>ns. k = ns_list_key ns \<and> v = Doc (enc_Namespace ns) \<and> ns_at C s ns"
  using assms unfolding ns_inv_def by blast+

lemma ns_inv_frame:
  assumes "ns_inv C s"
    and "\<And>w n. get_object C s' (packFileNsIndex w n) = get_object C s (packFileNsIndex w n)"
    and "\<And>k. under FileNsListIndex k \<Longrightarrow> get_object C s' k = get_object C s k"
  shows "ns_inv C s'"
  using assms(1) by (simp add: ns_inv_def ns_at_def assms(2,3))

lemma ns_inv_store:
  assumes inv: "ns_inv C s"
    and ix: "\<And>w n. get_object C s' (packFileNsIndex w n) =
        (if w = ns_Owner ns \<and> n = ns_Name ns then Some (Doc (enc_Namespace ns))
         else get_object C s (packFileNsIndex w n))"
    and ls: "\<And>k. under FileNsListIndex k \<Longrightarrow> get_object C s' k =
        (if k = ns_list_key ns then Some (Doc (enc_Namespace ns)) else get_object C s k)"
    and same: "\<And>m. ns_at C s m \<Longrightarrow> ns_Owner m = ns_Owner ns \<Longrightarrow> ns_Name m = ns_Name ns \<Longrightarrow>
        ns_CreateTime m = ns_CreateTime ns"
  shows "ns_inv C s'"
proof -
  have 1: "\<exists>m. v = Doc (enc_Namespace m) \<and> ns_Owner m = w \<and> ns_Name m = n \<and>
         get_object C s' (ns_list_key m) = Some v"
    if v: "get_object C s' (packFileNsIndex w n) = Some v" for w n v
  proof (cases "w = ns_Owner ns \<and> n = ns_Name ns")
    case True
    with v show ?thesis by (intro exI[of _ ns]) (simp add: ix ls)
  next
    case False
    with v have "get_object C s (packFileNsIndex w n) = Some v" by (simp add: ix)
    from ns_invD(1)[OF inv this] False show ?thesis by (auto simp: ls)
  qed
  have 2: "\<exists>m. k = ns_list_key m \<and> v = Doc (enc_Namespace m) \<and> ns_at C s' m"
    if k: "under FileNsListIndex k" and v: "get_object C s' k = Some v" for k v
  proof (cases "k = ns_list_key ns")
    case True
    with k v show ?thesis by (intro exI[of _ ns]) (simp add: ix ls ns_at_def)
  next
    case False
    with k v have "get_object C s k = Some v" by (simp add: ls)
    from ns_invD(2)[OF inv k this] obtain m where m: "k = ns_list_key m" "v = Doc (enc_Namespace m)"
      "ns_at C s m" by blast
    with same[OF m(3)] False have "\<not> (ns_Owner m = ns_Owner ns \<and> ns_Name m = ns_Name ns)" by auto
    with m show ?thesis by (intro exI[of _ m]) (auto simp: ns_at_def ix)
  qed
  show ?thesis unfolding ns_inv_def using 1 2 by blast
qed

section \<open>Effects\<close>

definition counted_ns :: "Namespace \<Rightarrow> File \<Rightarrow> Namespace" where
  "counted_ns ns f = ns\<lparr>ns_FileTotalNum := ns_FileTotalNum ns + 1, ns_UpdateTime := f_PublishTime f\<rparr>"

lemma counted_ns_simps [simp]:
  "ns_Owner (counted_ns ns f) = ns_Owner ns" "ns_Name (counted_ns ns f) = ns_Name ns"
  "ns_CreateTime (counted_ns ns f) = ns_CreateTime ns"
  by (simp_all add: counted_ns_def)

lemma file_key_names:
  "file_key FilenameIndex f = packFileNameIndex (f_Owner f) (f_Namespace f) (f_Name f)"
  "file_key FileListByOwnerIndex f =
     packFileListByOwnerIndex (f_Owner f) (f_Namespace f) (f_Name f) (f_PublishTime f)"
  "file_key FileListByNsIndex f =
     packFileListByNsIndex (f_Owner f) (f_Namespace f) (f_Name f) (f_PublishTime f)"
  by (simp_all add: file_key_def)

context chain begin

lemma fun_upd_put: "put_object C s k v = Some s' \<Longrightarrow> get_object C s' = (get_object C s)(k \<mapsto> v)"
  by (auto simp: fun_eq_iff get_put)

lemma PublishFile_effect:
  assumes "PublishFile C E a s = (Inr r, s')"
  obtains opt f b ns where "a = Got opt" and "f = pfo_File opt"
    and "signed_by E (pfo_Signature opt) (f_Owner f) (enc_PublishFileOptions opt)"
    and "f_Slices f \<noteq> []" and "get_object C s (f_ID f) = None"
    and "get_object C s (packFileNsIndex (f_Owner f) (f_Namespace f)) = Some b"
    and "unmarshal E dec_Namespace b = Some ns"
    and "check_name_free C E (file_key FilenameIndex f) (f_PublishTime f) s = (Inr (), s)"
    and "\<forall>k. \<not> in_index {NodeFileSlice} k \<longrightarrow> get_object C s' k =
      ((get_object C s)(f_ID f \<mapsto> Doc (enc_File f), file_key FilenameIndex f \<mapsto> Raw (f_ID f),
        file_key FileListByOwnerIndex f \<mapsto> Raw (f_ID f), file_key FileListByNsIndex f \<mapsto> Raw (f_ID f),
        packFileNsIndex (f_Owner f) (f_Namespace f) \<mapsto> Doc (enc_Namespace (counted_ns ns f)),
        ns_list_key ns \<mapsto> Doc (enc_Namespace (counted_ns ns f)))) k"
proof -
  from assms obtain opt b ns s0 s1 s2 s3 s4 s5 s6 where a: "a = Got opt"
    and sg: "signed_by E (pfo_Signature opt) (f_Owner (pfo_File opt)) (enc_PublishFileOptions opt)"
    and sl: "f_Slices (pfo_File opt) \<noteq> []" and new: "get_object C s (f_ID (pfo_File opt)) = None"
    and b: "get_object C s (packFileNsIndex (f_Owner (pfo_File opt)) (f_Namespace (pfo_File opt))) = Some b"
    and ns: "unmarshal E dec_Namespace b = Some ns"
    and free: "check_name_free C E (file_key FilenameIndex (pfo_File opt))
          (f_PublishTime (pfo_File opt)) s = (Inr (), s0)"
    and puts: "put_object C s0 (f_ID (pfo_File opt)) (Doc (enc_File (pfo_File opt))) = Some s1"
      "put_object C s1 (file_key FilenameIndex (pfo_File opt)) (Raw (f_ID (pfo_File opt))) = Some s2"
      "put_object C s2 (file_key FileListByOwnerIndex (pfo_File opt)) (Raw (f_ID (pfo_File opt))) = Some s3"
      "put_object C s3 (file_key FileListByNsIndex (pfo_File opt)) (Raw (f_ID (pfo_File opt))) = Some s4"
      "put_object C s4 (packFileNsIndex (f_Owner (pfo_File opt)) (f_Namespace (pfo_File opt)))
         (Doc (enc_Namespace (counted_ns ns (pfo_File opt)))) = Some s5"
      "put_object C s5 (ns_list_key ns) (Doc (enc_Namespace (counted_ns ns (pfo_File opt)))) = Some s6"
    and rest: "put_all C (node_slice_writes (pfo_File opt)) s6 = (Inr (), s')"
    by (auto simp: PublishFile_def Let_def act_ok counted_ns_def file_key_names ns_list_key_def)
  have s0: "s0 = s" using keeps_stateD[OF keeps_check_name_free free] .
  have "writes C (in_index {NodeFileSlice}) (put_all C (node_slice_writes (pfo_File opt)))"
    by (rule writes_put_all) (auto simp: node_slice_writes_def pack_defs)
  from writesD[OF this rest]
  have "\<forall>k. \<not> in_index {NodeFileSlice} k \<longrightarrow> get_object C s' k = get_object C s6 k" by blast
  with puts[THEN fun_upd_put] show thesis
    by (intro that[OF a refl sg sl new b ns free[unfolded s0]]) (simp only: s0)
qed

lemma UpdateFilePublicSliceMeta_effect:
  assumes "UpdateFilePublicSliceMeta C E a s = (Inr r, s')"
  obtains opt b f where "a = Got opt"
    and "signed_by E (ufo_Signature opt) (ufo_Owner opt) (enc_UpdateFilePSMOptions opt)"
    and "get_object C s (ufo_FileID opt) = Some b" and "unmarshal E dec_File b = Some f"
    and "f_Owner f = ufo_Owner opt"
    and "get_object C s' = (get_object C s)(f_ID f \<mapsto> Doc (enc_File (f\<lparr>f_Slices := ufo_Slices opt\<rparr>)))"
  using assms
  by (auto simp: UpdateFilePublicSliceMeta_def Let_def act_ok intro!: that dest!: fun_upd_put)

lemma UpdateFileExpireTime_effect:
  assumes "UpdateFileExpireTime C E a s = (Inr r, s')"
  obtains opt b f where "a = Got opt"
    and "get_object C s (ueo_FileID opt) = Some b" and "unmarshal E dec_File b = Some f"
    and "signed_by E (ueo_Signature opt) (f_Owner f) (enc_UpdateExptimeOptions opt)"
    and "\<not> f_ExpireTime f + FileRetainPeriod \<le>s ueo_CurrentTime opt"
    and "f_ExpireTime f <s ueo_NewExpireTime opt" and "ueo_CurrentTime opt <s ueo_NewExpireTime opt"
    and "r = Doc (enc_File (f\<lparr>f_ExpireTime := ueo_NewExpireTime opt\<rparr>))"
    and "get_object C s' = (get_object C s)(f_ID f \<mapsto>
          Doc (enc_File (f\<lparr>f_ExpireTime := ueo_NewExpireTime opt\<rparr>)))"
  using assms
  by (auto simp: UpdateFileExpireTime_def getFileByID_def Let_def act_ok sless_le intro!: that
      dest!: fun_upd_put)

lemma AddFileNs_effect:
  assumes "AddFileNs C E a s = (Inr r, s')"
  obtains opt ns where "a = Got opt" and "ns = aso_Namespace opt"
    and "signed_by E (aso_Signature opt) (ns_Owner ns) (enc_AddNsOptions opt)"
    and "get_object C s (packFileNsIndex (ns_Owner ns) (ns_Name ns)) = None"
    and "get_object C s' = (get_object C s)(packFileNsIndex (ns_Owner ns) (ns_Name ns) \<mapsto>
      Doc (enc_Namespace ns), ns_list_key ns \<mapsto> Doc (enc_Namespace ns))"
  using assms
  by (auto simp: AddFileNs_def Let_def act_ok ns_list_key_def intro!: that dest!: fun_upd_put)

lemma UpdateNsReplica_effect:
  assumes "UpdateNsReplica C E a s = (Inr r, s')"
  obtains opt b n m where "a = Got opt"
    and "signed_by E (uno_Signature opt) (uno_Owner opt) (enc_UpdateNsReplicaOptions opt)"
    and "get_object C s (packFileNsIndex (uno_Owner opt) (uno_Name opt)) = Some b"
    and "unmarshal E dec_Namespace b = Some n" and "ns_Replica n <s uno_Replica opt"
    and "m = n\<lparr>ns_Replica := uno_Replica opt, ns_UpdateTime := uno_CurrentTime opt\<rparr>"
    and "get_object C s' = (get_object C s)(packFileNsIndex (uno_Owner opt) (uno_Name opt) \<mapsto>
      Doc (enc_Namespace m), ns_list_key m \<mapsto> Doc (enc_Namespace m))"
  using assms
  by (auto simp: UpdateNsReplica_def Let_def act_ok ns_list_key_def sless_le intro!: that
      dest!: fun_upd_put)

lemma not_slice_key:
  "plain_id k \<Longrightarrow> \<not> in_index {NodeFileSlice} k"
  "x \<in> file_lists \<Longrightarrow> under x k \<Longrightarrow> \<not> in_index {NodeFileSlice} k"
  "under FileNsListIndex k \<Longrightarrow> \<not> in_index {NodeFileSlice} k"
  "\<not> in_index {NodeFileSlice} (packFileNsIndex w n)"
  using under_other[of x k "{NodeFileSlice}"] under_other[of FileNsListIndex k "{NodeFileSlice}"]
  by (auto simp: file_lists_def pack_defs)

lemma not_ns_keys [simp]:
  "plain_id k \<Longrightarrow> k \<noteq> ns_list_key ns" "plain_id k \<Longrightarrow> k \<noteq> packFileNsIndex w n"
  "x \<in> file_lists \<Longrightarrow> under x k \<Longrightarrow> k \<noteq> ns_list_key ns"
  "x \<in> file_lists \<Longrightarrow> under x k \<Longrightarrow> k \<noteq> packFileNsIndex w n"
  "x \<in> file_lists \<Longrightarrow> plain_id k \<Longrightarrow> k \<noteq> file_key x f"
  by (auto simp: pack_defs ns_list_key_def file_lists_def file_key_def)

lemma file_lists_mem [simp]:
  "FilenameIndex \<in> file_lists" "FileListByOwnerIndex \<in> file_lists" "FileListByNsIndex \<in> file_lists"
  by (simp_all add: file_lists_def)

lemma PublishFile_keeps_files:
  assumes inv: "file_inv C s" and "PublishFile C E a s = (Inr r, s')"
    and named: "\<And>opt. a = Got opt \<Longrightarrow> plain_id (f_ID (pfo_File opt))"
  shows "file_inv C s'"
  using assms(2)
proof (rule PublishFile_effect)
  fix opt :: PublishFileOptions and f ns
  let ?n = "Doc (enc_Namespace (counted_ns ns f))"
  assume a: "a = Got opt" and f: "f = pfo_File opt" and new: "get_object C s (f_ID f) = None"
    and get: "\<forall>k. \<not> in_index {NodeFileSlice} k \<longrightarrow> get_object C s' k =
      ((get_object C s)(f_ID f \<mapsto> Doc (enc_File f), file_key FilenameIndex f \<mapsto> Raw (f_ID f),
        file_key FileListByOwnerIndex f \<mapsto> Raw (f_ID f), file_key FileListByNsIndex f \<mapsto> Raw (f_ID f),
        packFileNsIndex (f_Owner f) (f_Namespace f) \<mapsto> ?n, ns_list_key ns \<mapsto> ?n)) k"
  have id: "plain_id (f_ID f)" using named[OF a] f by simp
  show ?thesis
  proof (rule file_inv_store[OF inv id])
    show "get_object C s' k = (if k = f_ID f then Some (Doc (enc_File f)) else get_object C s k)"
      if "plain_id k" for k
      using that get[rule_format, OF not_slice_key(1)[OF that]] by simp
    show "get_object C s' k = get_object C s k \<or>
        (k = file_key x f \<and> get_object C s' k = Some (Raw (f_ID f)))"
      if x: "x \<in> file_lists" and k: "under x k" for x k
    proof -
      have "k \<noteq> f_ID f" using k id by auto
      moreover have "k = file_key y f \<Longrightarrow> y \<in> file_lists \<Longrightarrow> y = x" for y
        using under_file_key[OF x, of y f] k by auto
      ultimately show ?thesis
        using get[rule_format, OF not_slice_key(2)[OF x k]] x k by (auto split: if_splits)
    qed
    show "file_key x g = file_key x f" if "file_at C s g" "f_ID g = f_ID f" for g x
      using that new by (simp add: file_at_def)
  qed
qed

lemma file_of_id:
  assumes "file_inv C s" and "plain_id i" and "get_object C s i = Some b"
    and "unmarshal E dec_File b = Some f"
  shows "f_ID f = i" and "file_at C s f"
  using file_invD(1)[OF assms(1-3)] assms(2-) by (auto simp: file_at_def)

lemma update_keeps_files:
  assumes inv: "file_inv C s" and at: "file_at C s f" and f': "f_ID f' = f_ID f"
    and key: "\<And>x. file_key x f' = file_key x f"
    and get: "get_object C s' = (get_object C s)(f_ID f \<mapsto> Doc (enc_File f'))"
  shows "file_inv C s'"
proof (rule file_inv_store[OF inv, where f = f'])
  show id: "plain_id (f_ID f')" using at f' by (simp add: file_at_def)
  show "get_object C s' k = get_object C s k \<or>
      (k = file_key x f' \<and> get_object C s' k = Some (Raw (f_ID f')))"
    if "x \<in> file_lists" "under x k" for x k
    using that id f' by (auto simp: get)
  show "file_key x g = file_key x f'" if "file_at C s g" "f_ID g = f_ID f'" for g x
    using that at by (simp add: file_at_def f' key)
qed (auto simp: get f')

lemma UpdateFilePublicSliceMeta_keeps_files:
  assumes inv: "file_inv C s" and "UpdateFilePublicSliceMeta C E a s = (Inr r, s')"
    and named: "\<And>opt. a = Got opt \<Longrightarrow> plain_id (ufo_FileID opt)"
  shows "file_inv C s'"
  using assms(2)
proof (rule UpdateFilePublicSliceMeta_effect)
  fix opt b and f :: File
  assume a: "a = Got opt" and b: "get_object C s (ufo_FileID opt) = Some b"
    and f: "unmarshal E dec_File b = Some f"
    and get: "get_object C s' = (get_object C s)(f_ID f \<mapsto> Doc (enc_File (f\<lparr>f_Slices := ufo_Slices opt\<rparr>)))"
  show ?thesis
    by (rule update_keeps_files[OF inv file_of_id(2)[OF inv named[OF a] b f] _ _ get])
      (auto intro: file_key_cong)
qed

lemma UpdateFileExpireTime_keeps_files:
  assumes inv: "file_inv C s" and "UpdateFileExpireTime C E a s = (Inr r, s')"
    and named: "\<And>opt. a = Got opt \<Longrightarrow> plain_id (ueo_FileID opt)"
  shows "file_inv C s'"
  using assms(2)
proof (rule UpdateFileExpireTime_effect)
  fix opt b and f :: File
  assume a: "a = Got opt" and b: "get_object C s (ueo_FileID opt) = Some b"
    and f: "unmarshal E dec_File b = Some f"
    and get: "get_object C s' = (get_object C s)(f_ID f \<mapsto>
          Doc (enc_File (f\<lparr>f_ExpireTime := ueo_NewExpireTime opt\<rparr>)))"
  show ?thesis
    by (rule update_keeps_files[OF inv file_of_id(2)[OF inv named[OF a] b f] _ _ get])
      (auto intro: file_key_cong)
qed

text \<open>Namespaces.\<close>

lemma ns_of_key:
  assumes "ns_inv C s" and "get_object C s (packFileNsIndex w n) = Some b"
    and "unmarshal E dec_Namespace b = Some ns"
  shows "ns_Owner ns = w" and "ns_Name ns = n" and "ns_at C s ns"
  using ns_invD(1)[OF assms(1,2)] assms(2,3) by (auto simp: ns_at_def)

lemma ns_at_unique: "ns_at C s m \<Longrightarrow> ns_at C s n \<Longrightarrow> ns_Owner m = ns_Owner n \<Longrightarrow>
    ns_Name m = ns_Name n \<Longrightarrow> m = n"
  by (simp add: ns_at_def)

lemma PublishFile_keeps_ns:
  assumes inv: "ns_inv C s" and "PublishFile C E a s = (Inr r, s')"
    and named: "\<And>opt. a = Got opt \<Longrightarrow> plain_id (f_ID (pfo_File opt))"
  shows "ns_inv C s'"
  using assms(2)
proof (rule PublishFile_effect)
  fix opt :: PublishFileOptions and f b ns
  let ?n = "counted_ns ns f"
  assume a: "a = Got opt" and f: "f = pfo_File opt"
    and b: "get_object C s (packFileNsIndex (f_Owner f) (f_Namespace f)) = Some b"
    and ns: "unmarshal E dec_Namespace b = Some ns"
    and get: "\<forall>k. \<not> in_index {NodeFileSlice} k \<longrightarrow> get_object C s' k =
      ((get_object C s)(f_ID f \<mapsto> Doc (enc_File f), file_key FilenameIndex f \<mapsto> Raw (f_ID f),
        file_key FileListByOwnerIndex f \<mapsto> Raw (f_ID f), file_key FileListByNsIndex f \<mapsto> Raw (f_ID f),
        packFileNsIndex (f_Owner f) (f_Namespace f) \<mapsto> Doc (enc_Namespace ?n),
        ns_list_key ns \<mapsto> Doc (enc_Namespace ?n))) k"
  have id: "plain_id (f_ID f)" using named[OF a] f by simp
  note ns = ns_of_key[OF inv b ns]
  have lk: "ns_list_key ?n = ns_list_key ns" by simp
  show ?thesis
  proof (rule ns_inv_store[OF inv, where ns = ?n])
    show "get_object C s' (packFileNsIndex w n) = (if w = ns_Owner ?n \<and> n = ns_Name ?n
        then Some (Doc (enc_Namespace ?n)) else get_object C s (packFileNsIndex w n))" for w n
    proof -
      have "packFileNsIndex w n \<noteq> f_ID f" using id not_ns_keys(2) by metis
      moreover have "packFileNsIndex w n \<noteq> file_key x f" if "x \<in> file_lists" for x
        using that by (auto simp: file_lists_def file_key_def pack_defs)
      ultimately show ?thesis
        using get[rule_format, OF not_slice_key(4)[of w n]] ns(1,2) by simp
    qed
    show "get_object C s' k = (if k = ns_list_key ?n then Some (Doc (enc_Namespace ?n))
        else get_object C s k)" if k: "under FileNsListIndex k" for k
    proof -
      have "k \<noteq> f_ID f" "k \<noteq> packFileNsIndex w n" for w n using k id by auto
      moreover have "k \<noteq> file_key x f" if "x \<in> file_lists" for x
        using that k by (auto simp: file_lists_def file_key_def pack_defs)
      ultimately show ?thesis
        using get[rule_format, OF not_slice_key(3)[OF k]] lk by simp
    qed
    show "ns_CreateTime m = ns_CreateTime ?n"
      if "ns_at C s m" "ns_Owner m = ns_Owner ?n" "ns_Name m = ns_Name ?n" for m
      using ns_at_unique[OF that(1) ns(3)] that(2,3) by simp
  qed
qed

lemma AddFileNs_keeps_ns:
  assumes inv: "ns_inv C s" and "AddFileNs C E a s = (Inr r, s')"
  shows "ns_inv C s'"
  using assms(2)
proof (rule AddFileNs_effect)
  fix opt :: AddNsOptions and ns
  assume new: "get_object C s (packFileNsIndex (ns_Owner ns) (ns_Name ns)) = None"
    and get: "get_object C s' = (get_object C s)(packFileNsIndex (ns_Owner ns) (ns_Name ns) \<mapsto>
      Doc (enc_Namespace ns), ns_list_key ns \<mapsto> Doc (enc_Namespace ns))"
  show ?thesis
    by (rule ns_inv_store[OF inv, where ns = ns]) (use new in \<open>auto simp: get ns_at_def\<close>)
qed

lemma UpdateNsReplica_keeps_ns:
  assumes inv: "ns_inv C s" and "UpdateNsReplica C E a s = (Inr r, s')"
  shows "ns_inv C s'"
  using assms(2)
proof (rule UpdateNsReplica_effect)
  fix opt :: UpdateNsReplicaOptions and b n and m :: Namespace
  assume b: "get_object C s (packFileNsIndex (uno_Owner opt) (uno_Name opt)) = Some b"
    and n: "unmarshal E dec_Namespace b = Some n"
    and m: "m = n\<lparr>ns_Replica := uno_Replica opt, ns_UpdateTime := uno_CurrentTime opt\<rparr>"
    and get: "get_object C s' = (get_object C s)(packFileNsIndex (uno_Owner opt) (uno_Name opt) \<mapsto>
      Doc (enc_Namespace m), ns_list_key m \<mapsto> Doc (enc_Namespace m))"
  note n = ns_of_key[OF inv b n]
  have keys: "ns_Owner m = uno_Owner opt" "ns_Name m = uno_Name opt" "ns_CreateTime m = ns_CreateTime n"
    using n(1,2) by (simp_all add: m)
  show ?thesis
  proof (rule ns_inv_store[OF inv, where ns = m])
    show "ns_CreateTime x = ns_CreateTime m"
      if "ns_at C s x" "ns_Owner x = ns_Owner m" "ns_Name x = ns_Name m" for x
      using ns_at_unique[OF that(1) n(3)] that(2,3) keys n(1,2) by simp
  qed (auto simp: get keys)
qed

end

section \<open>Listing\<close>

text \<open>
  A file is listed when its index entry names it. It is not when a later file of the same owner,
  namespace and name was published with the same publish time, which takes the entry over.
\<close>

definition listed :: "'s chain_ops \<Rightarrow> 's \<Rightarrow> index \<Rightarrow> File \<Rightarrow> bool" where
  "listed C s x f \<longleftrightarrow> file_at C s f \<and> get_object C s (file_key x f) = Some (Raw (f_ID f))"

definition file_index :: "bytes \<Rightarrow> string \<Rightarrow> index" where
  "file_index owner ns = (if owner = [] \<and> ns \<noteq> [] then FileListByNsIndex else FileListByOwnerIndex)"

definition unexpired_keep :: "ListFileOptions \<Rightarrow> File \<Rightarrow> bool" where
  "unexpired_keep opt f \<longleftrightarrow> lfo_TimeStart opt \<le>s f_PublishTime f \<and>
     (0 <s lfo_TimeEnd opt \<longrightarrow> f_PublishTime f \<le>s lfo_TimeEnd opt) \<and>
     lfo_CurrentTime opt <s f_ExpireTime f"

definition expired_keep :: "ListFileOptions \<Rightarrow> File \<Rightarrow> bool" where
  "expired_keep opt f \<longleftrightarrow> lfo_TimeStart opt \<le>s f_PublishTime f \<and>
     (0 <s lfo_TimeEnd opt \<longrightarrow> f_PublishTime f \<le>s lfo_TimeEnd opt) \<and>
     lfo_CurrentTime opt - FileRetainPeriod \<le>s f_ExpireTime f \<and>
     f_ExpireTime f \<le>s lfo_CurrentTime opt"

lemma file_index_lists [simp]: "file_index w n \<in> file_lists"
  by (simp add: file_index_def)

lemma file_filter_under: "prefix (packFileNameFilter w n) k \<Longrightarrow> under (file_index w n) k"
  by (auto simp: packFileNameFilter_def file_index_def Let_def split: if_splits dest!: under_prefix)

text \<open>What the prefix of a query selects, as long as namespaces hold no slash.\<close>

lemma file_filter_prefix:
  assumes "CHR ''/'' \<notin> set n" and "CHR ''/'' \<notin> set (f_Namespace f)"
  shows "prefix (packFileNameFilter w n) (file_key (file_index w n) f) \<longleftrightarrow>
     (w \<noteq> [] \<longrightarrow> f_Owner f = w) \<and> (n \<noteq> [] \<longrightarrow> f_Namespace f = n)"
  using assms
  by (auto simp: packFileNameFilter_def file_key_def file_index_def pack_defs Let_def prefix_sep
      Join.simps(3))

context chain begin

lemma file_listing:
  assumes inv: "file_inv C s"
  obtains fs where
    "for_iter (list_files_body C E s lim skip) (prefix_scan C s (packFileNameFilter w n)) [] =
      Inr (limited lim (filter (\<lambda>f. \<not> skip f) fs))"
    and "set fs = {f. listed C s (file_index w n) f \<and>
      prefix (packFileNameFilter w n) (file_key (file_index w n) f)}"
    and "distinct fs" and "sorted_wrt (<) (map (file_key (file_index w n)) fs)"
proof -
  let ?p = "packFileNameFilter w n" and ?i = "file_index w n"
  have entry: "\<exists>f. listed C s ?i f \<and> k = file_key ?i f \<and> v = Raw (f_ID f)"
    if "prefix ?p k" "get_object C s k = Some v" for k v
    using file_invD(2)[OF inv _ file_filter_under[OF that(1)] that(2)] that(2)
    by (auto simp: listed_def)
  have stored: "get_object C s (file_key ?i f) = Some (Raw (f_ID f))" if "listed C s ?i f" for f
    using that by (simp add: listed_def)
  have inj: "f = g" if "listed C s ?i f" "listed C s ?i g" "file_key ?i f = file_key ?i g" for f g
    using that by (simp add: listed_def file_at_def)
  have body: "list_files_body C E s lim skip acc (file_key ?i f, Raw (f_ID f)) =
      (if limit_reached lim acc then Inr Break
       else if \<not> skip f then Inr (Append f) else Inr Continue)" if at: "listed C s ?i f" for acc f
  proof -
    have "fst (getFileByID C E (f_ID f) s) = Inr f"
      using at by (simp add: getFileByID_def listed_def file_at_def act_defs)
    then show ?thesis by (simp add: list_files_body_def)
  qed
  show thesis by (rule listing[OF entry stored inj body that])
qed

lemma ListFiles_lists:
  assumes inv: "file_inv C s"
  shows "\<exists>fs. ListFiles C E (Got opt) s =
        (Inr (limited (lfo_Limit opt) (filter (unexpired_keep opt) fs)), s) \<and> distinct fs \<and>
      set fs = {f. listed C s (file_index (lfo_Owner opt) (lfo_Namespace opt)) f \<and>
        prefix (packFileNameFilter (lfo_Owner opt) (lfo_Namespace opt))
          (file_key (file_index (lfo_Owner opt) (lfo_Namespace opt)) f)} \<and>
      sorted_wrt (<) (map (file_key (file_index (lfo_Owner opt) (lfo_Namespace opt))) fs)"
proof -
  let ?skip = "\<lambda>f. outside_window opt (f_PublishTime f) \<or> f_ExpireTime f \<le>s lfo_CurrentTime opt"
  have keep: "(\<lambda>f. \<not> ?skip f) = unexpired_keep opt"
    by (auto simp: unexpired_keep_def outside_window_def sless_le)
  show ?thesis
    unfolding ListFiles_def bnd_got reads_def
    by (rule file_listing[OF inv, of E "lfo_Limit opt" ?skip "lfo_Owner opt" "lfo_Namespace opt"])
      (unfold keep, blast)
qed

lemma ListExpiredFiles_lists:
  assumes inv: "file_inv C s"
  shows "\<exists>fs. ListExpiredFiles C E (Got opt) s =
        (Inr (limited (lfo_Limit opt) (filter (expired_keep opt) fs)), s) \<and> distinct fs \<and>
      set fs = {f. listed C s (file_index (lfo_Owner opt) (lfo_Namespace opt)) f \<and>
        prefix (packFileNameFilter (lfo_Owner opt) (lfo_Namespace opt))
          (file_key (file_index (lfo_Owner opt) (lfo_Namespace opt)) f)} \<and>
      sorted_wrt (<) (map (file_key (file_index (lfo_Owner opt) (lfo_Namespace opt))) fs)"
proof -
  let ?skip = "\<lambda>f. outside_window opt (f_PublishTime f) \<or>
          f_ExpireTime f <s lfo_CurrentTime opt - FileRetainPeriod \<or>
          lfo_CurrentTime opt <s f_ExpireTime f"
  have keep: "(\<lambda>f. \<not> ?skip f) = expired_keep opt"
    by (auto simp: expired_keep_def outside_window_def sless_le)
  show ?thesis
    unfolding ListExpiredFiles_def bnd_got reads_def
    by (rule file_listing[OF inv, of E "lfo_Limit opt" ?skip "lfo_Owner opt" "lfo_Namespace opt"])
      (unfold keep, blast)
qed

lemma ListFileNs_lists:
  assumes inv: "ns_inv C s"
  shows "\<exists>nss. ListFileNs C E (Got opt) s =
        (Inr (limited (lfo_Limit opt) (filter (\<lambda>ns. \<not> outside_window opt (ns_CreateTime ns)) nss)), s) \<and>
      distinct nss \<and> set nss = {ns. ns_at C s ns \<and> (lfo_Owner opt \<noteq> [] \<longrightarrow> ns_Owner ns = lfo_Owner opt)} \<and>
      sorted_wrt (<) (map ns_list_key nss)"
proof -
  let ?p = "packFileNsListFilter (lfo_Owner opt)"
  have pre: "under FileNsListIndex k" if "prefix ?p k" for k
    using that by (auto simp: packFileNsListFilter_def split: if_splits dest!: under_prefix)
  have sel: "prefix ?p (ns_list_key ns) \<longleftrightarrow> (lfo_Owner opt \<noteq> [] \<longrightarrow> ns_Owner ns = lfo_Owner opt)" for ns
    by (auto simp: packFileNsListFilter_def ns_list_key_def pack_defs prefix_sep Join.simps(3))
  have entry: "\<exists>ns. ns_at C s ns \<and> k = ns_list_key ns \<and> v = Doc (enc_Namespace ns)"
    if "prefix ?p k" "get_object C s k = Some v" for k v
    using ns_invD(2)[OF inv pre[OF that(1)] that(2)] by blast
  have stored: "get_object C s (ns_list_key ns) = Some (Doc (enc_Namespace ns))" if "ns_at C s ns" for ns
    using ns_invD(1)[OF inv that[unfolded ns_at_def]] by auto
  have inj: "m = n" if "ns_at C s m" "ns_at C s n" "ns_list_key m = ns_list_key n" for m n
    using ns_at_unique[OF that(1,2)] that(3) by simp
  have body: "ListFileNs_body E opt acc (ns_list_key ns, Doc (enc_Namespace ns)) =
      (if limit_reached (lfo_Limit opt) acc then Inr Break
       else if \<not> outside_window opt (ns_CreateTime ns) then Inr (Append ns) else Inr Continue)"
    if "ns_at C s ns" for acc ns
    by (simp add: ListFileNs_body_def)
  obtain nss where "for_iter (ListFileNs_body E opt) (prefix_scan C s ?p) [] =
      Inr (limited (lfo_Limit opt) (filter (\<lambda>ns. \<not> outside_window opt (ns_CreateTime ns)) nss))"
    and "set nss = {ns. ns_at C s ns \<and> prefix ?p (ns_list_key ns)}" and "distinct nss"
    and "sorted_wrt (<) (map ns_list_key nss)"
    by (rule listing[OF entry stored inj body])
  then show ?thesis unfolding ListFileNs_def bnd_got reads_def sel by blast
qed

lemma GetFileByName_finds:
  assumes inv: "file_inv C s"
    and run: "GetFileByName C E (Some w) (Some n) (Some nm) (Some t) s = (Inr b, s')"
  shows "\<exists>f ct. b = Doc (enc_File f) \<and> file_at C s f \<and> ParseInt t = Some ct \<and>
      file_key FilenameIndex f = packFileNameIndex w n nm \<and> ct \<le>s f_ExpireTime f \<and> s' = s"
proof -
  from run obtain ct i b' f where ct: "ParseInt t = Some ct"
    and i: "get_object C s (packFileNameIndex w n nm) = Some i"
    and b: "get_object C s (blob_text i) = Some b" and f: "unmarshal E dec_File b = Some f"
    and ex: "\<not> f_ExpireTime f <s ct" and s': "s' = s"
    by (auto simp: GetFileByName_def getCtxTime_def act_ok)
  have "under FilenameIndex (packFileNameIndex w n nm)" by (simp add: pack_defs)
  from file_invD(2)[OF inv _ this i] obtain g where g: "file_at C s g"
    "packFileNameIndex w n nm = file_key FilenameIndex g" "i = Raw (f_ID g)" by auto
  with b f have "b = Doc (enc_File g)" "f = g" by (simp_all add: file_at_def)
  with g ct ex s' show ?thesis by (auto simp: sless_le)
qed

lemma PublishFile_stores:
  assumes "PublishFile C E (Got opt) s = (Inr r, s')" and id: "plain_id (f_ID (pfo_File opt))"
  shows "file_at C s' (pfo_File opt)" and "x \<in> file_lists \<Longrightarrow> listed C s' x (pfo_File opt)"
proof -
  have "file_at C s' (pfo_File opt) \<and> (\<forall>x \<in> file_lists. listed C s' x (pfo_File opt))"
    using assms(1)
  proof (rule PublishFile_effect)
    fix opt' f and b and ns :: Namespace
    let ?n = "Doc (enc_Namespace (counted_ns ns f))"
    assume "Got opt = Got opt'" and "f = pfo_File opt'"
      and get: "\<forall>k. \<not> in_index {NodeFileSlice} k \<longrightarrow> get_object C s' k =
      ((get_object C s)(f_ID f \<mapsto> Doc (enc_File f), file_key FilenameIndex f \<mapsto> Raw (f_ID f),
        file_key FileListByOwnerIndex f \<mapsto> Raw (f_ID f), file_key FileListByNsIndex f \<mapsto> Raw (f_ID f),
        packFileNsIndex (f_Owner f) (f_Namespace f) \<mapsto> ?n, ns_list_key ns \<mapsto> ?n)) k"
    then have f: "pfo_File opt = f" and id: "plain_id (f_ID f)" using id by auto
    have at: "file_at C s' f"
      using get[rule_format, OF not_slice_key(1)[OF id]] id by (simp add: file_at_def)
    have "get_object C s' (file_key x f) = Some (Raw (f_ID f))" if x: "x \<in> file_lists" for x
    proof -
      have "file_key x f \<noteq> packFileNsIndex w n" "file_key x f \<noteq> ns_list_key m" for w n m
        using x by (auto simp: file_lists_def file_key_def pack_defs ns_list_key_def)
      with get[rule_format, OF not_slice_key(2)[OF x file_key_simps(1)[OF x, of f]]] x
      show ?thesis by (auto simp: file_lists_def)
    qed
    with at f show ?thesis by (simp add: listed_def)
  qed
  then show "file_at C s' (pfo_File opt)" and "x \<in> file_lists \<Longrightarrow> listed C s' x (pfo_File opt)"
    by blast+
qed

end

end
