(* ===== verification/XdbNodes.thy ===== *)
theory XdbNodes
  imports XdbFiles
begin

text \<open>
  Storage nodes of the XuperDB contract (\<^verbatim>\<open>xdb/blockchain/xchain/contract/core/nodes.go\<close>):
  registration, going online and offline, heartbeats, and the queries. Every node is stored twice,
  under its index key and under its list key; the methods keep the two copies equal.
\<close>

section \<open>Registration and lookup\<close>

definition AddNode :: "'s chain_ops \<Rightarrow> env \<Rightarrow> AddNodeOptions arg \<Rightarrow> ('s, string) act" where
  "AddNode C E a =
     bnd (get_arg ErrCodeInternal a) (\<lambda>opt.
     let node = ano_Node opt; s = Doc (enc_Node node) in
     bnd (need (Errx ErrCodeInternal) (hexDecode (nd_ID node))) (\<lambda>npk.
     bnd (checkSigned E (ano_Signature opt) npk (enc_AddNodeOptions opt)) (\<lambda>_.
     bnd (absent C ErrCodeAlreadyExists (packNodeIndex (nd_ID node))) (\<lambda>_.
     bnd (put_obj C (packNodeIndex (nd_ID node)) s) (\<lambda>_.
     bnd (put_obj C (packNodeListIndex node) s) (\<lambda>_.
     ret ''added''))))))"

definition ListNodes_body :: "env \<Rightarrow> Node list \<Rightarrow> string \<times> blob \<Rightarrow> Node iter result" where
  "ListNodes_body E nodes kv =
     (case unmarshal E dec_Node (snd kv) of None \<Rightarrow> Inl (Errx ErrCodeInternal)
      | Some node \<Rightarrow> Inr (Append node))"

definition ListNodes :: "'s chain_ops \<Rightarrow> env \<Rightarrow> ('s, Node list) act" where
  "ListNodes C E = reads (\<lambda>s.
     for_iter (ListNodes_body E) (prefix_scan C s (prefix_of NodeListIndex)) [])"

definition GetNode :: "'s chain_ops \<Rightarrow> bytes option \<Rightarrow> ('s, blob) act" where
  "GetNode C id' =
     bnd (need (Errx ErrCodeParam) id') (\<lambda>nodeID.
     get_obj C ErrCodeNotFound (packNodeIndex nodeID))"

section \<open>Online status\<close>

definition checkAndSetNonce :: "'s chain_ops \<Rightarrow> bytes \<Rightarrow> int64 \<Rightarrow> ('s, unit) act" where
  "checkAndSetNonce C nodeID nonce =
     bnd (absent C ErrCodeAlreadyExists (packNonceIndex nodeID nonce)) (\<lambda>_.
     put_obj C (packNonceIndex nodeID nonce) (Raw (FormatInt nonce)))"

definition setNodeOnlineStatus ::
    "'s chain_ops \<Rightarrow> env \<Rightarrow> NodeOperateOptions arg \<Rightarrow> bool \<Rightarrow> ('s, string) act" where
  "setNodeOnlineStatus C E a online =
     bnd (get_arg ErrCodeInternal a) (\<lambda>opt.
     bnd (rewrap ErrCodeInternal (checkAndSetNonce C (noo_NodeID opt) (noo_Nonce opt))) (\<lambda>_.
     bnd (need (Errx ErrCodeInternal) (hexDecode (noo_NodeID opt))) (\<lambda>npk.
     bnd (checkSigned E (noo_Signature opt) npk (enc_NodeOperateOptions opt)) (\<lambda>_.
     bnd (get_obj C ErrCodeNotFound (packNodeIndex (noo_NodeID opt))) (\<lambda>oldn.
     bnd (need (Errx ErrCodeInternal) (unmarshal E dec_Node oldn)) (\<lambda>node.
     if nd_Online node \<noteq> online then
       let node = node\<lparr>nd_Online := online\<rparr>; newn = Doc (enc_Node node) in
       bnd (put_obj C (packNodeIndex (noo_NodeID opt)) newn) (\<lambda>_.
       bnd (put_obj C (packNodeListIndex node) newn) (\<lambda>_.
       ret ''OK''))
     else ret ''OK''))))))"

definition NodeOffline ::
    "'s chain_ops \<Rightarrow> env \<Rightarrow> NodeOperateOptions arg \<Rightarrow> ('s, string) act" where
  "NodeOffline C E a = setNodeOnlineStatus C E a False"

definition NodeOnline ::
    "'s chain_ops \<Rightarrow> env \<Rightarrow> NodeOperateOptions arg \<Rightarrow> ('s, string) act" where
  "NodeOnline C E a = setNodeOnlineStatus C E a True"

section \<open>Heartbeats\<close>

text \<open>
  The list to store: a repeated time is reported by wrapping the variable \<open>err\<close>, which is nil
  at that place, so the call \<open>err.Error()\<close> inside \<^verbatim>\<open>errorx.NewCode\<close> panics.
\<close>

definition next_heartbeats :: "env \<Rightarrow> blob option \<Rightarrow> int64 \<Rightarrow> int64 list result" where
  "next_heartbeats E hl now =
     (case hl of None \<Rightarrow> Inr [now]
      | Some b \<Rightarrow> (case unmarshal E dec_times b of None \<Rightarrow> Inl (Errx ErrCodeInternal)
          | Some hb \<Rightarrow> (if now \<in> set hb then Inl Panicked else Inr (hb @ [now]))))"

definition Heartbeat ::
    "'s chain_ops \<Rightarrow> env \<Rightarrow> NodeHeartBeatOptions arg \<Rightarrow> ('s, unit) act" where
  "Heartbeat C E a =
     bnd (get_arg ErrCodeInternal a) (\<lambda>opt.
     bnd (need (Errx ErrCodeInternal) (hexDecode (hbo_NodeID opt))) (\<lambda>nodePK.
     bnd (checkSigned E (hbo_Signature opt) nodePK (enc_NodeHeartBeatOptions opt)) (\<lambda>_.
     let hindex = packNodeHeartBeatIndex (hbo_NodeID opt) (hbo_BeginningTime opt) in
     bnd (reads (\<lambda>s. next_heartbeats E (get_object C s hindex) (hbo_CurrentTime opt))) (\<lambda>hb.
     bnd (put_obj C hindex (Doc (enc_times hb))) (\<lambda>_.
     bnd (get_obj C ErrCodeNotFound (packNodeIndex (hbo_NodeID opt))) (\<lambda>oldn.
     bnd (need (Errx ErrCodeInternal) (unmarshal E dec_Node oldn)) (\<lambda>node.
     let node = node\<lparr>nd_UpdateAt := hbo_CurrentTime opt\<rparr>; newn = Doc (enc_Node node) in
     bnd (put_obj C (packNodeIndex (hbo_NodeID opt)) newn) (\<lambda>_.
     put_obj C (packNodeListIndex node) newn))))))))"

definition GetHeartbeatNum ::
    "'s chain_ops \<Rightarrow> env \<Rightarrow> bytes option \<Rightarrow> string option \<Rightarrow> ('s, string) act" where
  "GetHeartbeatNum C E id' currentTime =
     bnd (need (Errx ErrCodeParam) id') (\<lambda>nodeID.
     bnd (need (Errx ErrCodeParam) currentTime) (\<lambda>c.
     bnd (need (Errx ErrCodeInternal) (ParseInt c)) (\<lambda>ctime.
     bnd (get_obj C ErrCodeNotFound (packNodeHeartBeatIndex nodeID ctime)) (\<lambda>n.
     bnd (need (Errx ErrCodeInternal) (unmarshal E dec_times n)) (\<lambda>hb.
     ret (dec_nat (length hb)))))))"

section \<open>Slices of a node\<close>

definition bad_slice_query :: "ListNodeSliceOptions \<Rightarrow> bytes \<Rightarrow> bool" where
  "bad_slice_query opt pubkey \<longleftrightarrow>
     length pubkey \<noteq> PublicKeyLength \<or> lno_StartTime opt <s 0 \<or> lno_EndTime opt \<le>s 0 \<or>
     lno_EndTime opt \<le>s lno_StartTime opt"

definition ListNodesExpireSlice_body ::
    "ListNodeSliceOptions \<Rightarrow> string list \<Rightarrow> string \<times> blob \<Rightarrow> string iter result" where
  "ListNodesExpireSlice_body opt sl kv =
     (case getNodeSliceFileID (fst kv) of None \<Rightarrow> Inl Panicked
      | Some (_, expireTime) \<Rightarrow>
          if limit_reached (lno_Limit opt) sl \<or> expireTime = 0 then Inr Break
          else if expireTime <s lno_StartTime opt \<or> lno_EndTime opt <s expireTime then Inr Continue
          else Inr (Append (blob_text (snd kv))))"

definition ListNodesExpireSlice ::
    "'s chain_ops \<Rightarrow> ListNodeSliceOptions arg \<Rightarrow> ('s, string list) act" where
  "ListNodesExpireSlice C a =
     bnd (get_arg ErrCodeInternal a) (\<lambda>opt.
     bnd (need (Errx ErrCodeParam) (hexDecode (lno_Target opt))) (\<lambda>pubkey.
     bnd (require (Errx ErrCodeParam) (\<not> bad_slice_query opt pubkey)) (\<lambda>_.
     reads (\<lambda>s. for_iter (ListNodesExpireSlice_body opt)
       (prefix_scan C s (packNodeSliceFilter (lno_Target opt))) []))))"

text \<open>
  A migration record is read into a map: \<open>null\<close> leaves the map nil, and the assignment of
  \<open>ctime\<close> then panics.
\<close>

type_synonym migrate_record = "(string \<times> json) list"

definition with_ctime :: "int64 \<Rightarrow> migrate_record \<Rightarrow> migrate_record" where
  "with_ctime t mr = filter (\<lambda>kv. fst kv \<noteq> ''ctime'') mr @ [(''ctime'', enc_int t)]"

definition dec_record :: "json \<Rightarrow> migrate_record option option" where
  "dec_record j = (case j of JNull \<Rightarrow> Some None | JObj kvs \<Rightarrow> Some (Some kvs) | _ \<Rightarrow> None)"

definition GetSliceMigrateRecords_body ::
    "env \<Rightarrow> NodeSliceMigrateOptions \<Rightarrow> migrate_record list \<Rightarrow> string \<times> blob \<Rightarrow>
     migrate_record iter result" where
  "GetSliceMigrateRecords_body E opt sl kv =
     (case getNodeSliceMigrateTime (fst kv) of None \<Rightarrow> Inl Panicked
      | Some mTime \<Rightarrow>
          if limit_reached (lno_Limit opt) sl \<or> mTime = 0 then Inr Break
          else if mTime <s lno_StartTime opt \<or> lno_EndTime opt <s mTime then Inr Continue
          else case unmarshal E dec_record (snd kv) of
              None \<Rightarrow> Inl (Errx ErrCodeInternal)
            | Some None \<Rightarrow> Inl Panicked
            | Some (Some mr) \<Rightarrow> Inr (Append (with_ctime mTime mr)))"

definition GetSliceMigrateRecords ::
    "'s chain_ops \<Rightarrow> env \<Rightarrow> NodeSliceMigrateOptions arg \<Rightarrow> ('s, migrate_record list) act" where
  "GetSliceMigrateRecords C E a =
     bnd (get_arg ErrCodeInternal a) (\<lambda>opt.
     bnd (need (Errx ErrCodeParam) (hexDecode (lno_Target opt))) (\<lambda>pubkey.
     bnd (require (Errx ErrCodeParam) (\<not> bad_slice_query opt pubkey)) (\<lambda>_.
     reads (\<lambda>s. for_iter (GetSliceMigrateRecords_body E opt)
       (prefix_scan C s (packNodeSliceMigrateFilter (lno_Target opt))) []))))"

section \<open>The registry\<close>

text \<open>
  What the methods keep: every record under an index key is a node of that identifier and stands
  under its list key too, and whatever an iteration over the list index meets is such a copy.
\<close>

definition node_at :: "'s chain_ops \<Rightarrow> 's \<Rightarrow> Node \<Rightarrow> bool" where
  "node_at C s n \<longleftrightarrow> get_object C s (packNodeIndex (nd_ID n)) = Some (Doc (enc_Node n))"

definition node_inv :: "'s chain_ops \<Rightarrow> 's \<Rightarrow> bool" where
  "node_inv C s \<longleftrightarrow>
     (\<forall>i v. get_object C s (packNodeIndex i) = Some v \<longrightarrow>
        (\<exists>n. v = Doc (enc_Node n) \<and> nd_ID n = i \<and>
           get_object C s (packNodeListIndex n) = Some v)) \<and>
     (\<forall>k v. prefix (prefix_of NodeListIndex) k \<longrightarrow> get_object C s k = Some v \<longrightarrow>
        (\<exists>n. k = packNodeListIndex n \<and> v = Doc (enc_Node n) \<and> node_at C s n))"

lemma enc_Node_inj [simp]: "enc_Node m = enc_Node n \<longleftrightarrow> m = n"
  by (metis dec_enc_Node option.inject)

lemma prefix_key_iff [simp]: "prefix ''index_node_list'' (key i ps) \<longleftrightarrow> i = NodeListIndex"
  by (cases i) (simp_all add: key_def)

lemma prefix_packNodeListIndex [simp]: "prefix ''index_node_list'' (packNodeListIndex n)"
  by (simp add: packNodeListIndex_def)

lemma pack_list_neq [simp]: "packNodeListIndex n \<noteq> packNodeIndex i"
    "packNodeIndex i \<noteq> packNodeListIndex n"
    "\<not> prefix ''index_node_list'' (packNodeIndex i)"
  by (simp_all add: pack_defs)

text \<open>The invariant depends on the node keys only.\<close>

lemma node_inv_frame:
  assumes "node_inv C s"
    and "\<And>i. get_object C s' (packNodeIndex i) = get_object C s (packNodeIndex i)"
    and "\<And>k. prefix (prefix_of NodeListIndex) k \<Longrightarrow> get_object C s' k = get_object C s k"
  shows "node_inv C s'"
  using assms(1) by (simp add: node_inv_def node_at_def assms(2,3))

text \<open>Storing a node under both keys keeps the invariant, as long as its list key is the old one.\<close>

lemma node_inv_store:
  assumes inv: "node_inv C s"
    and new: "\<And>i. get_object C s' (packNodeIndex i) =
        (if i = nd_ID n then Some (Doc (enc_Node n)) else get_object C s (packNodeIndex i))"
    and lst: "\<And>k. prefix (prefix_of NodeListIndex) k \<Longrightarrow> get_object C s' k =
        (if k = packNodeListIndex n then Some (Doc (enc_Node n)) else get_object C s k)"
    and same: "\<And>m. node_at C s m \<Longrightarrow> nd_ID m = nd_ID n \<Longrightarrow> nd_RegTime m = nd_RegTime n"
  shows "node_inv C s'"
  unfolding node_inv_def
proof (intro conjI allI impI)
  fix i v
  assume v: "get_object C s' (packNodeIndex i) = Some v"
  show "\<exists>n. v = Doc (enc_Node n) \<and> nd_ID n = i \<and> get_object C s' (packNodeListIndex n) = Some v"
  proof (cases "i = nd_ID n")
    case True
    with v new lst show ?thesis by auto
  next
    case False
    with v new inv obtain m where "v = Doc (enc_Node m)" "nd_ID m = i"
        "get_object C s (packNodeListIndex m) = Some v"
      unfolding node_inv_def by metis
    with False lst[of "packNodeListIndex m"] show ?thesis by auto
  qed
next
  fix k v
  assume k: "prefix (prefix_of NodeListIndex) k" and v: "get_object C s' k = Some v"
  show "\<exists>n. k = packNodeListIndex n \<and> v = Doc (enc_Node n) \<and> node_at C s' n"
  proof (cases "k = packNodeListIndex n")
    case True
    with k v lst new show ?thesis by (auto simp: node_at_def)
  next
    case False
    with k v lst inv obtain m where m: "k = packNodeListIndex m" "v = Doc (enc_Node m)"
        "node_at C s m"
      unfolding node_inv_def by metis
    moreover have "nd_ID m \<noteq> nd_ID n" using same[OF m(3)] False m(1) by auto
    ultimately show ?thesis using new by (auto simp: node_at_def)
  qed
qed

context chain begin

lemma AddNode_writes: "writes C (in_index {NodeIndex, NodeListIndex}) (AddNode C E a)"
  unfolding AddNode_def Let_def by (intro writesI writes_put_obj) (simp_all add: pack_defs)

lemma setNodeOnlineStatus_writes:
  "writes C (in_index {NodeNonceIndex, NodeIndex, NodeListIndex}) (setNodeOnlineStatus C E a on)"
  unfolding setNodeOnlineStatus_def checkAndSetNonce_def Let_def
  by (intro writesI writes_put_obj) (simp_all add: pack_defs)

lemma Heartbeat_writes:
  "writes C (in_index {NodeHeartbeatIndex, NodeIndex, NodeListIndex}) (Heartbeat C E a)"
  unfolding Heartbeat_def Let_def by (intro writesI writes_put_obj) (simp_all add: pack_defs)

lemma AddNode_effect:
  assumes "AddNode C E a s = (Inr r, s')"
  obtains opt pk where "a = Got opt" and "hexDecode (nd_ID (ano_Node opt)) = Some pk"
    and "signed_by E (ano_Signature opt) pk (enc_AddNodeOptions opt)"
    and "get_object C s (packNodeIndex (nd_ID (ano_Node opt))) = None"
    and "get_object C s' = (\<lambda>k.
      (if k = packNodeListIndex (ano_Node opt) \<or> k = packNodeIndex (nd_ID (ano_Node opt))
       then Some (Doc (enc_Node (ano_Node opt))) else get_object C s k))"
  using assms by (auto simp: AddNode_def Let_def act_ok get_put fun_eq_iff)

lemma setNodeOnlineStatus_effect:
  assumes "setNodeOnlineStatus C E a online s = (Inr r, s')"
  obtains opt pk b n where "a = Got opt" and "hexDecode (noo_NodeID opt) = Some pk"
    and "signed_by E (noo_Signature opt) pk (enc_NodeOperateOptions opt)"
    and "get_object C s (packNonceIndex (noo_NodeID opt) (noo_Nonce opt)) = None"
    and "get_object C s (packNodeIndex (noo_NodeID opt)) = Some b"
    and "unmarshal E dec_Node b = Some n"
    and "get_object C s' = (\<lambda>k.
      (if k = packNonceIndex (noo_NodeID opt) (noo_Nonce opt)
       then Some (Raw (FormatInt (noo_Nonce opt)))
       else if nd_Online n \<noteq> online \<and>
            (k = packNodeIndex (noo_NodeID opt) \<or> k = packNodeListIndex (n\<lparr>nd_Online := online\<rparr>))
       then Some (Doc (enc_Node (n\<lparr>nd_Online := online\<rparr>))) else get_object C s k))"
proof -
  have neq: "packNonceIndex x y \<noteq> packNodeIndex z" "packNonceIndex x y \<noteq> packNodeListIndex m"
    for x y z m by (simp_all add: pack_defs)
  show thesis
    using assms
    by (auto simp: setNodeOnlineStatus_def checkAndSetNonce_def Let_def act_ok get_put neq
        neq[symmetric] intro!: that ext split: if_splits)
qed

lemma Heartbeat_effect:
  assumes "Heartbeat C E a s = (Inr r, s')"
  obtains opt pk hb b n where "a = Got opt" and "hexDecode (hbo_NodeID opt) = Some pk"
    and "signed_by E (hbo_Signature opt) pk (enc_NodeHeartBeatOptions opt)"
    and "next_heartbeats E (get_object C s
           (packNodeHeartBeatIndex (hbo_NodeID opt) (hbo_BeginningTime opt))) (hbo_CurrentTime opt)
         = Inr hb"
    and "get_object C s (packNodeIndex (hbo_NodeID opt)) = Some b"
    and "unmarshal E dec_Node b = Some n"
    and "get_object C s' = (\<lambda>k.
      (if k = packNodeHeartBeatIndex (hbo_NodeID opt) (hbo_BeginningTime opt)
       then Some (Doc (enc_times hb))
       else if k = packNodeIndex (hbo_NodeID opt) \<or>
            k = packNodeListIndex (n\<lparr>nd_UpdateAt := hbo_CurrentTime opt\<rparr>)
       then Some (Doc (enc_Node (n\<lparr>nd_UpdateAt := hbo_CurrentTime opt\<rparr>))) else get_object C s k))"
proof -
  have neq: "packNodeHeartBeatIndex x y \<noteq> packNodeIndex z"
    "packNodeHeartBeatIndex x y \<noteq> packNodeListIndex m"
    for x y z m by (simp_all add: pack_defs)
  show thesis
    using assms
    by (auto simp: Heartbeat_def Let_def act_ok get_put neq neq[symmetric] intro!: that ext)
qed

lemma AddNode_keeps: "node_inv C s \<Longrightarrow> AddNode C E a s = (Inr r, s') \<Longrightarrow> node_inv C s'"
  by (erule AddNode_effect, erule node_inv_store) (auto simp: node_at_def)

lemma node_of_id:
  assumes "node_inv C s" and "get_object C s (packNodeIndex i) = Some b"
    and "unmarshal E dec_Node b = Some n"
  shows "nd_ID n = i" and "node_at C s n"
  using assms unfolding node_inv_def node_at_def by fastforce+

lemma setNodeOnlineStatus_keeps:
  assumes inv: "node_inv C s" and run: "setNodeOnlineStatus C E a online s = (Inr r, s')"
  shows "node_inv C s'"
proof -
  have nonce: "packNodeIndex i \<noteq> packNonceIndex x y" "packNodeListIndex m \<noteq> packNonceIndex x y"
    "prefix ''index_node_list'' k \<Longrightarrow> k \<noteq> packNonceIndex x y" for i x y m k
    by (auto simp: pack_defs)
  from run obtain opt :: NodeOperateOptions and b n
    where b: "get_object C s (packNodeIndex (noo_NodeID opt)) = Some b"
    and n: "unmarshal E dec_Node b = Some n"
    and get: "get_object C s' = (\<lambda>k.
      (if k = packNonceIndex (noo_NodeID opt) (noo_Nonce opt)
       then Some (Raw (FormatInt (noo_Nonce opt)))
       else if nd_Online n \<noteq> online \<and>
            (k = packNodeIndex (noo_NodeID opt) \<or> k = packNodeListIndex (n\<lparr>nd_Online := online\<rparr>))
       then Some (Doc (enc_Node (n\<lparr>nd_Online := online\<rparr>))) else get_object C s k))"
    by (rule setNodeOnlineStatus_effect) (rule that)
  note n = node_of_id[OF inv b n]
  show ?thesis
  proof (cases "nd_Online n = online")
    case True
    with inv nonce get show ?thesis by (intro node_inv_frame[of C s s']) auto
  next
    case False
    with inv nonce get n show ?thesis
      by (intro node_inv_store[of C s s' "n\<lparr>nd_Online := online\<rparr>"]) (auto simp: node_at_def)
  qed
qed

lemma Heartbeat_keeps:
  assumes inv: "node_inv C s" and run: "Heartbeat C E a s = (Inr r, s')"
  shows "node_inv C s'"
proof -
  have neq: "packNodeIndex i \<noteq> packNodeHeartBeatIndex x y"
    "prefix ''index_node_list'' k \<Longrightarrow> k \<noteq> packNodeHeartBeatIndex x y" for i x y k
    by (auto simp: pack_defs)
  from run obtain opt :: NodeHeartBeatOptions and hb b n
    where b: "get_object C s (packNodeIndex (hbo_NodeID opt)) = Some b"
    and n: "unmarshal E dec_Node b = Some n"
    and get: "get_object C s' = (\<lambda>k.
      (if k = packNodeHeartBeatIndex (hbo_NodeID opt) (hbo_BeginningTime opt)
       then Some (Doc (enc_times hb))
       else if k = packNodeIndex (hbo_NodeID opt) \<or>
            k = packNodeListIndex (n\<lparr>nd_UpdateAt := hbo_CurrentTime opt\<rparr>)
       then Some (Doc (enc_Node (n\<lparr>nd_UpdateAt := hbo_CurrentTime opt\<rparr>))) else get_object C s k))"
    by (rule Heartbeat_effect) (rule that)
  note n = node_of_id[OF inv b n]
  show ?thesis
    using inv neq get n
    by (intro node_inv_store[of C s s' "n\<lparr>nd_UpdateAt := hbo_CurrentTime opt\<rparr>"])
      (auto simp: node_at_def)
qed

lemma node_inv_list:
  assumes "node_inv C s" and "prefix (prefix_of NodeListIndex) k" and "get_object C s k = Some v"
  obtains n where "k = packNodeListIndex n" and "v = Doc (enc_Node n)" and "node_at C s n"
  using assms unfolding node_inv_def by blast

lemma ListNodes_entry:
  assumes inv: "node_inv C s" and kv: "kv \<in> set (prefix_scan C s ''index_node_list'')"
  obtains n where "kv = (packNodeListIndex n, Doc (enc_Node n))" and "node_at C s n"
proof -
  obtain k v where kv': "kv = (k, v)" by fastforce
  with kv have k: "prefix (prefix_of NodeListIndex) k" and v: "get_object C s k = Some v"
    by (simp_all add: scan_iff)
  show thesis by (rule node_inv_list[OF inv k v]) (simp add: kv' that)
qed

lemma node_listed:
  assumes "node_inv C s" and n: "node_at C s n"
  shows "(packNodeListIndex n, Doc (enc_Node n)) \<in> set (prefix_scan C s ''index_node_list'')"
proof -
  from assms(1) n[unfolded node_at_def] obtain m where "Doc (enc_Node n) = Doc (enc_Node m)"
      "get_object C s (packNodeListIndex m) = Some (Doc (enc_Node n))"
    unfolding node_inv_def by blast
  then show ?thesis by (simp add: scan_iff)
qed

lemma ListNodes_lists:
  assumes inv: "node_inv C s"
  shows "\<exists>ns. ListNodes C E s = (Inr ns, s) \<and> set ns = {n. node_at C s n} \<and>
           distinct (map nd_ID ns)"
proof -
  define it where "it = prefix_scan C s ''index_node_list''"
  define h where "h = (\<lambda>kv :: string \<times> blob. the (unmarshal E dec_Node (snd kv)))"
  note entry = ListNodes_entry[OF inv, folded it_def]
  have body: "ListNodes_body E acc kv = Inr (Append (h kv))" if "kv \<in> set it" for acc kv
    by (rule entry[OF that]) (simp add: ListNodes_body_def h_def)
  have run: "ListNodes C E s = (Inr (map h it), s)"
    using for_iter_all[of it "ListNodes_body E" h "[]", OF body]
    by (simp add: ListNodes_def reads_def flip: it_def)
  have listed: "set (map h it) = {n. node_at C s n}"
  proof (intro equalityI subsetI)
    fix n assume "n \<in> set (map h it)"
    then obtain kv where kv: "kv \<in> set it" and n: "n = h kv" by auto
    show "n \<in> {n. node_at C s n}" by (rule entry[OF kv]) (simp add: n h_def)
  next
    fix n assume "n \<in> {n. node_at C s n}"
    then have "(packNodeListIndex n, Doc (enc_Node n)) \<in> set it"
      using node_listed[OF inv] by (simp add: it_def)
    then have "h (packNodeListIndex n, Doc (enc_Node n)) \<in> set (map h it)"
      unfolding set_map by (rule imageI)
    then show "n \<in> set (map h it)" by (simp add: h_def)
  qed
  have keys: "map fst it = map packNodeListIndex (map h it)"
    unfolding map_map
  proof (rule map_cong[OF refl])
    fix kv assume kv: "kv \<in> set it"
    show "fst kv = (packNodeListIndex \<circ> h) kv" by (rule entry[OF kv]) (simp add: h_def)
  qed
  have "distinct (map packNodeListIndex (map h it))"
    using scan_distinct[of s "''index_node_list''"] by (simp only: it_def[symmetric] keys)
  then have "distinct (map h it)" by (simp add: distinct_map del: map_map)
  moreover have "inj_on nd_ID (set (map h it))"
    unfolding listed by (intro inj_onI) (simp add: node_at_def)
  ultimately have "distinct (map nd_ID (map h it))" by (simp only: distinct_map)
  with run listed show ?thesis by blast
qed
end

end
