(* ===== verification/MerkleTree.thy ===== *)
theory MerkleTree
  imports Chain
begin

text \<open>
  The Merkle tree of \<^verbatim>\<open>crypto/core/pdp/merkle/merkle.go\<close>: the linear array that the loop
  of \<^verbatim>\<open>BuildMerkleTreeStore\<close> fills, and the root that \<^verbatim>\<open>GetMerkleRoot\<close> reads off it.
  An array entry is \<open>None\<close> when the Go slice is nil. The array is compared with the tree that
  halves its leaves: the loop computes that tree's root, and the root determines the leaves unless
  the hash collides.
\<close>

section \<open>The code\<close>

type_synonym mnode = "bytes option"

definition DoubleHashH :: "env \<Rightarrow> bytes \<Rightarrow> bytes" where
  "DoubleHashH E b = (let first = sha256 E b in sha256 E first)"

definition HashMerkleBranches :: "env \<Rightarrow> bytes \<Rightarrow> bytes \<Rightarrow> bytes" where
  "HashMerkleBranches E left right = (let h = left @ right in DoubleHashH E h)"

fun log2_floor :: "nat \<Rightarrow> nat" where
  "log2_floor n = (if n < 2 then 0 else Suc (log2_floor (n div 2)))"

declare log2_floor.simps [simp del]

text \<open>
  \<open>n AND (n - 1)\<close> is taken on integers, as in the code, where \<open>n = 0\<close> gives 0. The code takes the
  logarithm in floating point, which is exact in its integer part for every length that fits in
  memory.
\<close>

definition nextPowerOfTwo :: "nat \<Rightarrow> nat" where
  "nextPowerOfTwo n =
     (if and (int n) (int n - 1) = 0 then n
      else (let exponent = log2_floor n + 1 in 2 ^ exponent))"

definition merkle_parent :: "env \<Rightarrow> mnode \<Rightarrow> mnode \<Rightarrow> mnode" where
  "merkle_parent E l r = (case l of None \<Rightarrow> None
     | Some a \<Rightarrow> (case r of None \<Rightarrow> Some (HashMerkleBranches E a a)
         | Some b \<Rightarrow> Some (HashMerkleBranches E a b)))"

text \<open>The loop \<^verbatim>\<open>for i := 0; i < arraySize-1; i += 2\<close>.\<close>

function merkle_loop :: "env \<Rightarrow> nat \<Rightarrow> mnode list \<Rightarrow> nat \<Rightarrow> mnode list" where
  "merkle_loop E i merkles offset =
     (if i + 1 < length merkles
      then merkle_loop E (i + 2)
             (merkles[offset := merkle_parent E (merkles ! i) (merkles ! (i + 1))]) (offset + 1)
      else merkles)"
  by pat_completeness auto
termination by (relation "measure (\<lambda>(E, i, m, off). length m - i)") auto

declare merkle_loop.simps [simp del]

text \<open>Without objects the array size is \<open>-1\<close> and \<open>make\<close> panics.\<close>

definition BuildMerkleTreeStore :: "env \<Rightarrow> mnode list \<Rightarrow> mnode list result" where
  "BuildMerkleTreeStore E objects =
     (let nextPoT = nextPowerOfTwo (length objects) in
      if nextPoT = 0 then Inl Panicked
      else let arraySize = nextPoT * 2 - 1;
               merkles = objects @ replicate (arraySize - length objects) None
           in Inr (merkle_loop E 0 merkles nextPoT))"

definition GetMerkleRoot :: "env \<Rightarrow> mnode list \<Rightarrow> mnode result" where
  "GetMerkleRoot E objects =
     (case BuildMerkleTreeStore E objects of Inl e \<Rightarrow> Inl e
      | Inr tree \<Rightarrow> Inr (tree ! (length tree - 1)))"

section \<open>The size of the array\<close>

lemma log2_floor_bounds: "0 < n \<Longrightarrow> 2 ^ log2_floor n \<le> n \<and> n < 2 ^ Suc (log2_floor n)"
proof (induction n rule: log2_floor.induct)
  case (1 n)
  show ?case
  proof (cases "n < 2")
    case True
    with 1 show ?thesis by (simp add: log2_floor.simps[of n])
  next
    case False
    with 1 have "2 ^ log2_floor (n div 2) \<le> n div 2" "n div 2 < 2 ^ Suc (log2_floor (n div 2))"
      by simp_all
    then have "2 * 2 ^ log2_floor (n div 2) \<le> n" "n < 2 * 2 ^ Suc (log2_floor (n div 2))"
      by linarith+
    with False show ?thesis by (simp add: log2_floor.simps[of n])
  qed
qed

text \<open>
  A positive number is its own bitwise conjunction with its predecessor only at a power of two.
\<close>

lemma and_pred_int:
  "0 < (n :: int) \<Longrightarrow> and n (n - 1) = 0 \<Longrightarrow> \<exists>k. n = 2 ^ k"
proof (induction "nat n" arbitrary: n rule: less_induct)
  case less
  show ?case
  proof (cases "even n")
    case True
    then obtain m where m: "n = 2 * m" by (auto elim: evenE)
    with less.prems have pos: "0 < m" by simp
    have "(2 * m - 1) div 2 = m - 1" by simp
    with m have "and n (n - 1) = 2 * and m (m - 1)"
      by (simp add: and_int_rec[of "2 * m" "2 * m - 1"])
    with less.prems have "and m (m - 1) = 0" by simp
    with less.hyps[of m] pos m obtain k where "m = 2 ^ k" by auto
    with m show ?thesis by (intro exI[of _ "Suc k"]) simp
  next
    case False
    then obtain m where m: "n = 2 * m + 1" by (auto elim: oddE)
    with less.prems have "m = 0" by (simp add: and_int_rec[of "2 * m + 1" "2 * m"])
    with m show ?thesis by (intro exI[of _ 0]) simp
  qed
qed

lemma nextPowerOfTwo_0 [simp]: "nextPowerOfTwo 0 = 0"
  by (simp add: nextPowerOfTwo_def)

lemma nextPowerOfTwo_bounds:
  assumes "0 < n"
  shows "\<exists>k. nextPowerOfTwo n = 2 ^ k \<and> n \<le> 2 ^ k \<and> 2 ^ k < 2 * n"
proof (cases "and (int n) (int n - 1) = 0")
  case True
  with and_pred_int[of "int n"] assms obtain k where "int n = 2 ^ k" by auto
  then have "n = 2 ^ k" by (metis of_nat_eq_iff of_nat_numeral of_nat_power)
  with True assms show ?thesis by (auto simp: nextPowerOfTwo_def)
next
  case False
  have "2 ^ log2_floor n \<noteq> n"
  proof
    assume n: "2 ^ log2_floor n = n"
    have "and (2 ^ k :: int) (2 ^ k - 1) = 0" for k
      using take_bit_eq_mask[of k "2 ^ k :: int"]
      by (simp add: mask_eq_exp_minus_1 take_bit_eq_mod)
    with n False show False by (metis of_nat_numeral of_nat_power)
  qed
  with log2_floor_bounds[OF assms] False show ?thesis
    by (intro exI[of _ "Suc (log2_floor n)"]) (auto simp: nextPowerOfTwo_def)
qed


lemma log2_floor_unique:
  assumes "2 ^ k \<le> n" and "n < 2 ^ Suc k"
  shows "log2_floor n = k"
proof -
  have "0 < n" using assms(1) by (rule order_less_le_trans[rotated]) simp
  note b = log2_floor_bounds[OF this]
  have "k < Suc (log2_floor n)" "log2_floor n < Suc k"
    using b assms by (meson nat_power_less_imp_less order_le_less_trans zero_less_numeral)+
  then show ?thesis by simp
qed

text \<open>The depth of the tree over a number of leaves.\<close>

definition depth :: "nat \<Rightarrow> nat" where
  "depth n = log2_floor (nextPowerOfTwo n)"

lemma depth_pow: "0 < n \<Longrightarrow> nextPowerOfTwo n = 2 ^ depth n \<and> n \<le> 2 ^ depth n \<and> 2 ^ depth n < 2 * n"
proof -
  assume "0 < n"
  then obtain k where k: "nextPowerOfTwo n = 2 ^ k" "n \<le> 2 ^ k" "2 ^ k < 2 * n"
    using nextPowerOfTwo_bounds by blast
  moreover have "depth n = k" unfolding depth_def k(1) by (rule log2_floor_unique) simp_all
  ultimately show ?thesis by simp
qed

lemma depth_unique:
  assumes "0 < n" and "n \<le> 2 ^ k" and "2 ^ k < 2 * n"
  shows "depth n = k"
proof -
  note d = depth_pow[OF assms(1)]
  have "(2::nat) ^ depth n < 2 ^ Suc k" "(2::nat) ^ k < 2 ^ Suc (depth n)"
    using d assms by auto
  then show ?thesis by (metis le_antisym less_Suc_eq_le nat_power_less_imp_less zero_less_numeral)
qed

section \<open>The loop computes the tree\<close>

text \<open>
  Between the read index and the write offset the array is a queue: a turn of the loop takes two
  entries from its front and puts their parent at its back.
\<close>

function queue_root :: "env \<Rightarrow> mnode list \<Rightarrow> mnode" where
  "queue_root E [] = None"
| "queue_root E [x] = x"
| "queue_root E (a # b # r) = queue_root E (r @ [merkle_parent E a b])"
  by pat_completeness auto
termination by (relation "measure (\<lambda>(E, q). length q)") auto

lemma length_merkle_loop [simp]: "length (merkle_loop E i m off) = length m"
  by (induction E i m off rule: merkle_loop.induct) (subst merkle_loop.simps, simp)

lemma merkle_loop_queue:
  assumes "2 * offset = length m + 1 + i" and "i < length m"
  shows "merkle_loop E i m offset ! (length m - 1) =
    queue_root E (take (offset - i) (drop i m))"
  using assms
proof (induction E i m offset rule: merkle_loop.induct)
  case (1 E i m offset)
  show ?case
  proof (cases "i + 1 < length m")
    case False
    with 1 have i: "i = length m - 1" and off: "offset - i = 1" by linarith+
    have "i < length m" by fact
    from Cons_nth_drop_Suc[OF this, symmetric] have "take (offset - i) (drop i m) = [m ! i]"
      unfolding off by simp
    with i False show ?thesis by (subst merkle_loop.simps) simp
  next
    case True
    define x where "x = merkle_parent E (m ! i) (m ! (i + 1))"
    have off: "offset < length m" "i + 2 \<le> offset" "i + 2 < length m"
      using 1 True by presburger+
    have "drop i m = m ! i # m ! (i + 1) # drop (i + 2) m"
      using True by (metis Cons_nth_drop_Suc Suc_eq_plus1 Suc_lessD add_2_eq_Suc')
    moreover from off(2) obtain d where d: "offset = i + 2 + d" by (auto simp: le_iff_add)
    ultimately have q: "take (offset - i) (drop i m) =
        m ! i # m ! (i + 1) # take d (drop (i + 2) m)" by simp
    have upd: "length (m[offset := x]) = length m" by simp
    have "take (Suc d) (drop (i + 2) (m[offset := x])) = take d (drop (i + 2) m) @ [x]"
      using off d by (simp add: take_Suc_conv_app_nth drop_update_swap)
    then have tk: "take (offset + 1 - (i + 2)) (drop (i + 2) (m[offset := x])) =
        take d (drop (i + 2) m) @ [x]" by (simp add: d)
    have "merkle_loop E (i + 2) (m[offset := x]) (offset + 1) ! (length m - 1) =
        queue_root E (take d (drop (i + 2) m) @ [x])"
      using 1(1)[OF True, folded x_def] 1(2) off(3) unfolding upd tk by simp
    with True q show ?thesis by (subst merkle_loop.simps) (simp add: x_def)
  qed
qed

fun level :: "env \<Rightarrow> mnode list \<Rightarrow> mnode list" where
  "level E (a # b # r) = merkle_parent E a b # level E r"
| "level E _ = []"

lemma queue_level:
  "even (length xs) \<Longrightarrow> queue_root E (xs @ acc) = queue_root E (acc @ level E xs)"
  by (induction E xs arbitrary: acc rule: level.induct) auto

lemma length_level [simp]: "length (level E xs) = length xs div 2"
  by (induction E xs rule: level.induct) auto

lemma level_append: "even (length xs) \<Longrightarrow> level E (xs @ ys) = level E xs @ level E ys"
  by (induction E xs rule: level.induct) auto

text \<open>The tree that halves its leaves.\<close>

fun tree_root :: "env \<Rightarrow> nat \<Rightarrow> mnode list \<Rightarrow> mnode" where
  "tree_root E 0 xs = hd xs"
| "tree_root E (Suc k) xs =
     merkle_parent E (tree_root E k (take (2 ^ k) xs)) (tree_root E k (drop (2 ^ k) xs))"

lemma tree_root_level:
  "length xs = 2 ^ Suc k \<Longrightarrow> tree_root E (Suc k) xs = tree_root E k (level E xs)"
proof (induction k arbitrary: xs)
  case 0
  then obtain a b where "xs = [a, b]" by (auto simp: numeral_2_eq_2 length_Suc_conv)
  then show ?case by simp
next
  case (Suc k)
  define l r where "l = take (2 ^ Suc k) xs" and "r = drop (2 ^ Suc k) xs"
  have xs: "xs = l @ r" and len: "length l = 2 ^ Suc k" "length r = 2 ^ Suc k"
    using Suc.prems by (simp_all add: l_def r_def)
  have "tree_root E (Suc (Suc k)) xs = merkle_parent E (tree_root E (Suc k) l) (tree_root E (Suc k) r)"
    by (simp only: tree_root.simps(2)[of E "Suc k"] l_def r_def)
  also have "\<dots> = merkle_parent E (tree_root E k (level E l)) (tree_root E k (level E r))"
    by (simp only: Suc.IH[OF len(1)] Suc.IH[OF len(2)])
  also have "\<dots> = tree_root E (Suc k) (level E xs)"
    using len by (simp add: xs level_append)
  finally show ?case .
qed

lemma queue_tree: "length xs = 2 ^ k \<Longrightarrow> queue_root E xs = tree_root E k xs"
proof (induction k arbitrary: xs)
  case 0
  then obtain a where "xs = [a]" by (auto simp: length_Suc_conv)
  then show ?case by simp
next
  case (Suc k)
  then have "queue_root E xs = queue_root E (level E xs)"
    using queue_level[of xs E "[]"] by simp
  with Suc tree_root_level[of xs k E] show ?case by simp
qed

definition padded :: "nat \<Rightarrow> mnode list \<Rightarrow> mnode list" where
  "padded k xs = xs @ replicate (2 ^ k - length xs) None"

lemma length_padded [simp]: "length xs \<le> 2 ^ k \<Longrightarrow> length (padded k xs) = 2 ^ k"
  by (simp add: padded_def)

lemma GetMerkleRoot_queue:
  assumes "objects \<noteq> []"
  shows "GetMerkleRoot E objects = Inr (queue_root E (padded (depth (length objects)) objects))"
proof -
  define p where "p = nextPowerOfTwo (length objects)"
  define m where "m = objects @ replicate (p * 2 - 1 - length objects) None"
  have p: "p = 2 ^ depth (length objects)" "length objects \<le> p" "0 < p"
    using depth_pow[of "length objects"] assms by (simp_all add: p_def)
  have len: "length m = p * 2 - 1" using p by (simp add: m_def)
  have "take p m = padded (depth (length objects)) objects"
    using p by (simp add: m_def padded_def)
  with merkle_loop_queue[of p m 0 E] len p(3)
  have "merkle_loop E 0 m p ! (length (merkle_loop E 0 m p) - 1) =
      queue_root E (padded (depth (length objects)) objects)" by simp
  moreover have "BuildMerkleTreeStore E objects = Inr (merkle_loop E 0 m p)"
    using p(3) unfolding BuildMerkleTreeStore_def Let_def p_def[symmetric] m_def[symmetric] by simp
  ultimately show ?thesis by (simp add: GetMerkleRoot_def)
qed

lemma GetMerkleRoot_tree:
  "objects \<noteq> [] \<Longrightarrow> GetMerkleRoot E objects =
     Inr (tree_root E (depth (length objects)) (padded (depth (length objects)) objects))"
  by (simp add: GetMerkleRoot_queue queue_tree depth_pow)

declare tree_root.simps(2) [simp del]

section \<open>What the root fixes\<close>

lemma even_pow: "0 < k \<Longrightarrow> even ((2::nat) ^ k)"
  by simp

text \<open>A tree over an odd number of leaves does not change when its last leaf is repeated.\<close>

lemma repeated_leaf:
  assumes "even (length xs)" and "xs \<noteq> []"
  shows "GetMerkleRoot E (xs @ [Some x]) = GetMerkleRoot E (xs @ [Some x, Some x])"
proof -
  define n where "n = length xs"
  define k where "k = depth (Suc n)"
  have n: "even n" "0 < n" using assms by (simp_all add: n_def)
  have k: "Suc n \<le> 2 ^ k" "2 ^ k < 2 * Suc n" using depth_pow[of "Suc n"] by (simp_all add: k_def)
  have "0 < k" using k n by (cases k) auto
  with even_pow[of k] n k(1) have room: "Suc (Suc n) \<le> 2 ^ k"
    by (metis Suc_leI even_Suc le_neq_implies_less)
  with k have same: "depth (Suc (Suc n)) = k" by (intro depth_unique) auto
  define m where "m = 2 ^ k - Suc (Suc n)"
  have room': "2 ^ k - Suc n = Suc m" using room by (simp add: m_def)
  have "even m" using even_pow[of k] \<open>0 < k\<close> n room by (simp add: m_def)
  have one: "padded k (xs @ [Some x]) = (xs @ [Some x, None]) @ replicate m None"
    by (simp add: padded_def room' flip: n_def)
  have two: "padded k (xs @ [Some x, Some x]) = (xs @ [Some x, Some x]) @ replicate m None"
    by (simp add: padded_def m_def flip: n_def)
  have "level E (padded k (xs @ [Some x])) = level E (padded k (xs @ [Some x, Some x]))"
    using n by (simp only: one two append_assoc level_append flip: n_def)
      (simp add: merkle_parent_def)
  then have "queue_root E (padded k (xs @ [Some x])) = queue_root E (padded k (xs @ [Some x, Some x]))"
    using queue_level[of "padded k (xs @ [Some x])" E "[]"]
      queue_level[of "padded k (xs @ [Some x, Some x])" E "[]"] n \<open>even m\<close>
    by (simp add: one two flip: n_def)
  moreover have "GetMerkleRoot E (xs @ [Some x]) = Inr (queue_root E (padded k (xs @ [Some x])))"
    using GetMerkleRoot_queue[of "xs @ [Some x]" E] by (simp add: k_def n_def)
  moreover have "GetMerkleRoot E (xs @ [Some x, Some x]) =
      Inr (queue_root E (padded k (xs @ [Some x, Some x])))"
    using GetMerkleRoot_queue[of "xs @ [Some x, Some x]" E] same by (simp add: n_def)
  ultimately show ?thesis by simp
qed








section \<open>Properties\<close>

text \<open>
  C6: The array loop computes the Merkle root of the balanced tree over the objects, padded with
  absent leaves up to the next power of two, where an absent right child repeats the left one; on
  an empty list of objects the code panics.
\<close>
theorem merkle_root_is_tree_root:
  "GetMerkleRoot E objects =
     (if objects = [] then Inl Panicked
      else Inr (tree_root E (depth (length objects)) (padded (depth (length objects)) objects)))"
  by (simp add: GetMerkleRoot_tree) (simp add: GetMerkleRoot_def BuildMerkleTreeStore_def)



text \<open>
  The root does not fix the number of leaves: repeating the last of an odd number of leaves
  (at least three) gives the same root.
\<close>
lemma merkle_root_repeats_last_leaf:
  assumes "even (length xs)" and "xs \<noteq> []"
  shows "GetMerkleRoot E (xs @ [Some x]) = GetMerkleRoot E (xs @ [Some x, Some x])"
  using assms by (rule repeated_leaf)

lemma merkle_root_repeats_last_leaf_witness:
  "GetMerkleRoot mem_env [Some ''a'', Some ''b'', Some ''c''] =
     GetMerkleRoot mem_env [Some ''a'', Some ''b'', Some ''c'', Some ''c'']"
  using merkle_root_repeats_last_leaf[of "[Some ''a'', Some ''b'']" mem_env "''c''"] by simp

end
