(* ===== verification/XdbChallenge.thy ===== *)
theory XdbChallenge
  imports XdbFiles MerkleTree
begin

text \<open>
  Storage challenges of the XuperDB contract
  (\<^verbatim>\<open>xdb/blockchain/xchain/contract/core/challenging.go\<close>). A data owner puts a challenge to a
  storage node on the ledger; the node answers once, and the contract settles the challenge as
  proved or failed. A Merkle challenge commits to the hash of the expected answer; a pairing
  challenge is settled by the pairing check, which is a primitive of the model.
\<close>

section \<open>Requests\<close>

definition MerkleChallengeAlgorithm :: string where
  "MerkleChallengeAlgorithm = ''Merkle''"

definition PairingChallengeAlgorithm :: string where
  "PairingChallengeAlgorithm = ''Pairing''"

text \<open>The challenge that a request makes; \<open>None\<close> for an unknown algorithm.\<close>

definition make_challenge :: "ChallengeRequestOptions \<Rightarrow> Challenge option" where
  "make_challenge opt =
     (let c = \<lparr>ch_ID = cro_ChallengeID opt, ch_FileOwner = cro_FileOwner opt,
          ch_TargetNode = cro_TargetNode opt, ch_FileID = cro_FileID opt,
          ch_ChallengeAlgorithm = cro_ChallengeAlgorithm opt, ch_SliceIDs = [],
          ch_SliceStorIndexes = [], ch_Indices = [], ch_Vs = [], ch_Round = 0,
          ch_RandThisRound = [], ch_SliceID = [], ch_SliceStorIndex = [], ch_Ranges = [],
          ch_HashOfProof = [], ch_Status = ChallengeToProve,
          ch_ChallengeTime = cro_ChallengeTime opt, ch_AnswerTime = 0\<rparr>
      in if cro_ChallengeAlgorithm opt = PairingChallengeAlgorithm
         then Some (c\<lparr>ch_SliceIDs := cro_SliceIDs opt, ch_SliceStorIndexes := cro_SliceStorIndexes opt,
                ch_Indices := cro_Indices opt, ch_Round := cro_Round opt,
                ch_RandThisRound := cro_RandThisRound opt, ch_Vs := cro_Vs opt\<rparr>)
         else if cro_ChallengeAlgorithm opt = MerkleChallengeAlgorithm
         then Some (c\<lparr>ch_SliceID := cro_SliceID opt, ch_SliceStorIndex := cro_SliceStorIndex opt,
                ch_Ranges := cro_Ranges opt, ch_HashOfProof := cro_HashOfProof opt\<rparr>)
         else None)"

definition ChallengeRequest ::
    "'s chain_ops \<Rightarrow> env \<Rightarrow> ChallengeRequestOptions arg \<Rightarrow> ('s, string) act" where
  "ChallengeRequest C E a =
     bnd (get_arg ErrCodeInternal a) (\<lambda>opt.
     let index = packChallengeIndex (cro_ChallengeID opt) in
     bnd (absent C ErrCodeAlreadyExists index) (\<lambda>_.
     bnd (checkSigned E (cro_Signature opt) (cro_FileOwner opt) (enc_ChallengeRequestOptions opt)) (\<lambda>_.
     bnd (need (Errx ErrCodeParam) (make_challenge opt)) (\<lambda>c.
     bnd (put_obj C index (Doc (enc_Challenge c))) (\<lambda>_.
     bnd (put_obj C (packChallengeIndex4Owner c) (Raw (ch_ID c))) (\<lambda>_.
     bnd (put_obj C (packChallengeIndex4Target c) (Raw (ch_ID c))) (\<lambda>_.
     ret ''requested'')))))))"

section \<open>Answers\<close>

text \<open>
  The answer to a Merkle challenge (\<^verbatim>\<open>xdb/engine/challenger/merkle/types/internal.go\<close>). A JSON
  \<open>null\<close> among the hashes is a nil slice, which the Merkle tree treats as absent.
\<close>

record AnswerCalculateOptions =
  aco_RangeHashes :: "mnode list"
  aco_Timestamp :: int64

definition dec_mnode :: "json \<Rightarrow> mnode option" where
  "dec_mnode j = (case j of JNull \<Rightarrow> Some None | _ \<Rightarrow> map_option Some (dec_bytes j))"

definition dec_AnswerCalculateOptions :: "json \<Rightarrow> AnswerCalculateOptions option" where
  "dec_AnswerCalculateOptions = dec_struct (\<lambda>kvs.
     Option.bind (fld (dec_list dec_mnode) [] ''RangeHashes'' kvs) (\<lambda>v0.
     Option.bind (fld dec_int_json 0 ''Timestamp'' kvs) (\<lambda>v1.
     Some \<lparr>aco_RangeHashes = v0, aco_Timestamp = v1\<rparr>)))"

text \<open>\<^verbatim>\<open>Calculate\<close> of \<^verbatim>\<open>xdb/engine/monitor/challenging/internal.go\<close>.\<close>

definition Calculate :: "env \<Rightarrow> mnode \<Rightarrow> int64 \<Rightarrow> bytes" where
  "Calculate E rangeHash timestamp =
     (let ts = FormatInt timestamp;
          data = (case rangeHash of None \<Rightarrow> [] | Some h \<Rightarrow> h) @ ts
      in sha256 E data)"

text \<open>Whether an answer proves its challenge.\<close>

definition verify_answer :: "env \<Rightarrow> ChallengeAnswerOptions \<Rightarrow> Challenge \<Rightarrow> File \<Rightarrow> bool result" where
  "verify_answer E opt c file =
     (if ch_ChallengeAlgorithm c = PairingChallengeAlgorithm
      then Inr (pairing_ok E (cao_Sigma opt) (cao_Mu opt) (f_RandV file) (f_RandU file)
                  (f_PdpPubkey file) (ch_Indices c) (ch_Vs c))
      else if ch_ChallengeAlgorithm c = MerkleChallengeAlgorithm
      then (case unmarshal E dec_AnswerCalculateOptions (Raw (cao_Proof opt)) of
              None \<Rightarrow> Inl (Errx ErrCodeInternal)
            | Some aopt \<Rightarrow> (case GetMerkleRoot E (aco_RangeHashes aopt) of
                  Inl e \<Rightarrow> Inl e
                | Inr eh \<Rightarrow>
                    (let proof' = Calculate E eh (aco_Timestamp aopt);
                         hashOfProof = sha256 E proof'
                     in Inr (hashOfProof = ch_HashOfProof c))))
      else Inl (Errx ErrCodeParam))"

text \<open>The message of a failed verification, \<^verbatim>\<open>verifyErr.Error()\<close>, is not modelled.\<close>

definition ChallengeAnswer ::
    "'s chain_ops \<Rightarrow> env \<Rightarrow> ChallengeAnswerOptions arg \<Rightarrow> ('s, string) act" where
  "ChallengeAnswer C E a =
     bnd (get_arg ErrCodeInternal a) (\<lambda>opt.
     let index = packChallengeIndex (cao_ChallengeID opt) in
     bnd (get_obj C ErrCodeNotFound index) (\<lambda>s.
     bnd (need (Errx ErrCodeInternal) (unmarshal E dec_Challenge s)) (\<lambda>c.
     bnd (require (Errx ErrCodeAlreadyExists)
            (\<not> (ch_Status c = ChallengeProved \<or> ch_Status c = ChallengeFailed))) (\<lambda>_.
     bnd (need (Errx ErrCodeInternal) (GetSigMessage (enc_ChallengeAnswerOptions opt))) (\<lambda>msg.
     bnd (need (Errx ErrCodeParam) (hexDecode (ch_TargetNode c))) (\<lambda>targetNode.
     bnd (checkSign E (cao_Signature opt) targetNode msg) (\<lambda>_.
     bnd (get_obj C ErrCodeNotFound (ch_FileID c)) (\<lambda>f.
     bnd (need (Errx ErrCodeInternal) (unmarshal E dec_File f)) (\<lambda>file.
     bnd (lift (verify_answer E opt c file)) (\<lambda>ok.
     let c = c\<lparr>ch_AnswerTime := cao_AnswerTime opt,
               ch_Status := (if ok then ChallengeProved else ChallengeFailed)\<rparr> in
     bnd (put_obj C index (Doc (enc_Challenge c))) (\<lambda>_.
     ret (if ch_Status c = ChallengeProved then ''answered'' else ''verification failed''))))))))))))"

section \<open>Queries\<close>

definition challenge_of_entry ::
    "'s chain_ops \<Rightarrow> env \<Rightarrow> 's \<Rightarrow> string \<times> blob \<Rightarrow> Challenge result" where
  "challenge_of_entry C E s kv =
     (case get_object C s (packChallengeIndex (blob_text (snd kv))) of
        None \<Rightarrow> Inl (Errx ErrCodeNotFound)
      | Some b \<Rightarrow> (case unmarshal E dec_Challenge b of
            None \<Rightarrow> Inl (Errx ErrCodeInternal) | Some c \<Rightarrow> Inr c))"

definition ListChallengeRequests_body ::
    "'s chain_ops \<Rightarrow> env \<Rightarrow> 's \<Rightarrow> ListChallengeOptions \<Rightarrow> Challenge list \<Rightarrow> string \<times> blob \<Rightarrow>
     Challenge iter result" where
  "ListChallengeRequests_body C E s opt cs kv =
     (if limit_reached (lco_Limit opt) cs then Inr Break
      else case challenge_of_entry C E s kv of
          Inl e \<Rightarrow> Inl e
        | Inr c \<Rightarrow>
            if ch_Status c \<noteq> lco_Status opt \<or> ch_ChallengeTime c <s lco_TimeStart opt \<or>
               lco_TimeEnd opt <s ch_ChallengeTime c then Inr Continue
            else if lco_FileID opt \<noteq> [] \<and> ch_FileID c \<noteq> lco_FileID opt then Inr Continue
            else Inr (Append c))"

definition ListChallengeRequests ::
    "'s chain_ops \<Rightarrow> env \<Rightarrow> ListChallengeOptions arg \<Rightarrow> ('s, Challenge list) act" where
  "ListChallengeRequests C E a =
     bnd (get_arg ErrCodeInternal a) (\<lambda>opt.
     reads (\<lambda>s. for_iter (ListChallengeRequests_body C E s opt)
       (prefix_scan C s (packChallengeFilter (lco_FileOwner opt) (lco_TargetNode opt))) []))"

definition GetChallengeByID :: "'s chain_ops \<Rightarrow> string option \<Rightarrow> ('s, blob) act" where
  "GetChallengeByID C id' =
     bnd (need (Errx ErrCodeParam) id') (\<lambda>i.
     get_obj C ErrCodeNotFound (packChallengeIndex i))"

text \<open>The count \<open>total += 1\<close> is the length of the list of counted challenges.\<close>

definition GetChallengeNum_body ::
    "'s chain_ops \<Rightarrow> env \<Rightarrow> 's \<Rightarrow> GetChallengeNumOptions \<Rightarrow> Challenge list \<Rightarrow> string \<times> blob \<Rightarrow>
     Challenge iter result" where
  "GetChallengeNum_body C E s opt counted kv =
     (case challenge_of_entry C E s kv of
        Inl e \<Rightarrow> Inl e
      | Inr c \<Rightarrow>
          if ch_ChallengeTime c <s gco_TimeStart opt \<or> gco_TimeEnd opt <s ch_ChallengeTime c
          then Inr Continue
          else if gco_Status opt \<noteq> [] \<and> ch_Status c \<noteq> gco_Status opt then Inr Continue
          else Inr (Append c))"

definition GetChallengeNum ::
    "'s chain_ops \<Rightarrow> env \<Rightarrow> GetChallengeNumOptions arg \<Rightarrow> ('s, string) act" where
  "GetChallengeNum C E a =
     bnd (get_arg ErrCodeInternal a) (\<lambda>opt.
     bnd (reads (\<lambda>s. for_iter (GetChallengeNum_body C E s opt)
       (prefix_scan C s (packChallengeFilter [] (gco_TargetNode opt))) [])) (\<lambda>counted.
     ret (dec_nat (length counted))))"

section \<open>Footprints\<close>

context chain begin

lemma ChallengeRequest_writes:
  "writes C (in_index {ChallengeIndex, ChallengeIndex4Owner, ChallengeIndex4Target})
     (ChallengeRequest C E a)"
  unfolding ChallengeRequest_def Let_def by (intro writesI writes_put_obj) (simp_all add: pack_defs)

lemma ChallengeAnswer_writes: "writes C (in_index {ChallengeIndex}) (ChallengeAnswer C E a)"
  unfolding ChallengeAnswer_def Let_def by (intro writesI writes_put_obj) (simp_all add: pack_defs)

end

section \<open>The challenge book\<close>

text \<open>
  What the methods keep: a record under a challenge key is a challenge of that identifier in one of
  the three states, both of its list keys lead back to it, and every list entry belongs to one.
\<close>

definition challenge_at :: "'s chain_ops \<Rightarrow> 's \<Rightarrow> Challenge \<Rightarrow> bool" where
  "challenge_at C s c \<longleftrightarrow>
     get_object C s (packChallengeIndex (ch_ID c)) = Some (Doc (enc_Challenge c))"

definition challenge_states :: "string set" where
  "challenge_states = {ChallengeToProve, ChallengeProved, ChallengeFailed}"

definition challenge_inv :: "'s chain_ops \<Rightarrow> 's \<Rightarrow> bool" where
  "challenge_inv C s \<longleftrightarrow>
     (\<forall>i v. get_object C s (packChallengeIndex i) = Some v \<longrightarrow>
        (\<exists>c. v = Doc (enc_Challenge c) \<and> ch_ID c = i \<and> ch_Status c \<in> challenge_states \<and>
           get_object C s (packChallengeIndex4Owner c) = Some (Raw i) \<and>
           get_object C s (packChallengeIndex4Target c) = Some (Raw i))) \<and>
     (\<forall>k v. under ChallengeIndex4Owner k \<longrightarrow> get_object C s k = Some v \<longrightarrow>
        (\<exists>c. challenge_at C s c \<and> k = packChallengeIndex4Owner c \<and> v = Raw (ch_ID c))) \<and>
     (\<forall>k v. under ChallengeIndex4Target k \<longrightarrow> get_object C s k = Some v \<longrightarrow>
        (\<exists>c. challenge_at C s c \<and> k = packChallengeIndex4Target c \<and> v = Raw (ch_ID c)))"

lemma enc_Challenge_inj [simp]: "enc_Challenge a = enc_Challenge b \<longleftrightarrow> a = b"
  by (metis dec_enc_Challenge option.inject)

lemma pack_challenge_simps [simp]:
  "packChallengeIndex i = packChallengeIndex j \<longleftrightarrow> i = j"
  "packChallengeIndex4Owner c = packChallengeIndex4Owner d \<longleftrightarrow>
     ch_FileOwner c = ch_FileOwner d \<and> ch_TargetNode c = ch_TargetNode d \<and>
     ch_ChallengeTime c = ch_ChallengeTime d \<and> ch_ID c = ch_ID d"
  "packChallengeIndex4Target c = packChallengeIndex4Target d \<longleftrightarrow>
     ch_TargetNode c = ch_TargetNode d \<and> ch_ChallengeTime c = ch_ChallengeTime d \<and> ch_ID c = ch_ID d"
  "packChallengeIndex i \<noteq> packChallengeIndex4Owner c" "packChallengeIndex i \<noteq> packChallengeIndex4Target c"
  "packChallengeIndex4Owner c \<noteq> packChallengeIndex i" "packChallengeIndex4Target c \<noteq> packChallengeIndex i"
  "packChallengeIndex4Owner c \<noteq> packChallengeIndex4Target d"
  "packChallengeIndex4Target c \<noteq> packChallengeIndex4Owner d"
  "under ChallengeIndex4Owner (packChallengeIndex4Owner c)"
  "under ChallengeIndex4Target (packChallengeIndex4Target c)"
  "\<not> under ChallengeIndex4Owner (packChallengeIndex i)" "\<not> under ChallengeIndex4Target (packChallengeIndex i)"
  "\<not> under ChallengeIndex4Owner (packChallengeIndex4Target c)"
  "\<not> under ChallengeIndex4Target (packChallengeIndex4Owner c)"
  by (auto simp: pack_defs)

lemma challenge_invD:
  assumes "challenge_inv C s"
  shows "get_object C s (packChallengeIndex i) = Some v \<Longrightarrow>
      \<exists>c. v = Doc (enc_Challenge c) \<and> ch_ID c = i \<and> ch_Status c \<in> challenge_states \<and>
         get_object C s (packChallengeIndex4Owner c) = Some (Raw i) \<and>
         get_object C s (packChallengeIndex4Target c) = Some (Raw i)"
    and "under ChallengeIndex4Owner k \<Longrightarrow> get_object C s k = Some v \<Longrightarrow>
      \<exists>c. challenge_at C s c \<and> k = packChallengeIndex4Owner c \<and> v = Raw (ch_ID c)"
    and "under ChallengeIndex4Target k \<Longrightarrow> get_object C s k = Some v \<Longrightarrow>
      \<exists>c. challenge_at C s c \<and> k = packChallengeIndex4Target c \<and> v = Raw (ch_ID c)"
  using assms unfolding challenge_inv_def by blast+

lemma challenge_at_indexed:
  assumes "challenge_inv C s" and "challenge_at C s c"
  shows "ch_Status c \<in> challenge_states"
    and "get_object C s (packChallengeIndex4Owner c) = Some (Raw (ch_ID c))"
    and "get_object C s (packChallengeIndex4Target c) = Some (Raw (ch_ID c))"
  using challenge_invD(1)[OF assms(1) assms(2)[unfolded challenge_at_def]] by auto

lemma challenge_inv_frame:
  assumes inv: "challenge_inv C s"
    and "\<And>i. get_object C s' (packChallengeIndex i) = get_object C s (packChallengeIndex i)"
    and "\<And>k. under ChallengeIndex4Owner k \<or> under ChallengeIndex4Target k \<Longrightarrow>
      get_object C s' k = get_object C s k"
  shows "challenge_inv C s'"
  using inv by (simp add: challenge_inv_def challenge_at_def assms(2,3))

lemma challenge_inv_store:
  assumes inv: "challenge_inv C s"
    and get: "get_object C s' = (\<lambda>k. if k = packChallengeIndex (ch_ID c) then Some (Doc (enc_Challenge c))
        else if k = packChallengeIndex4Owner c \<or> k = packChallengeIndex4Target c
        then Some (Raw (ch_ID c)) else get_object C s k)"
    and st: "ch_Status c \<in> challenge_states"
    and same: "\<And>m. challenge_at C s m \<Longrightarrow> ch_ID m = ch_ID c \<Longrightarrow>
        ch_FileOwner m = ch_FileOwner c \<and> ch_TargetNode m = ch_TargetNode c \<and>
        ch_ChallengeTime m = ch_ChallengeTime c"
  shows "challenge_inv C s'"
proof -
  have at: "challenge_at C s' d" if "challenge_at C s d" "ch_ID d \<noteq> ch_ID c" for d
    using that by (simp add: challenge_at_def get)
  have atc: "challenge_at C s' c" by (simp add: challenge_at_def get)
  have 1: "\<exists>d. v = Doc (enc_Challenge d) \<and> ch_ID d = i \<and> ch_Status d \<in> challenge_states \<and>
         get_object C s' (packChallengeIndex4Owner d) = Some (Raw i) \<and>
         get_object C s' (packChallengeIndex4Target d) = Some (Raw i)"
    if v: "get_object C s' (packChallengeIndex i) = Some v" for i v
  proof (cases "i = ch_ID c")
    case True
    with v st show ?thesis by (intro exI[of _ c]) (simp add: get)
  next
    case False
    with v have "get_object C s (packChallengeIndex i) = Some v" by (simp add: get)
    from challenge_invD(1)[OF inv this] False show ?thesis by (auto simp: get)
  qed
  have 2: "\<exists>d. challenge_at C s' d \<and> k = packChallengeIndex4Owner d \<and> v = Raw (ch_ID d)"
    if k: "under ChallengeIndex4Owner k" and v: "get_object C s' k = Some v" for k v
  proof (cases "k = packChallengeIndex4Owner c")
    case True
    with v atc show ?thesis by (intro exI[of _ c]) (simp add: get)
  next
    case False
    with k v have "get_object C s k = Some v" by (auto simp: get split: if_splits)
    from challenge_invD(2)[OF inv k this] same at False show ?thesis by fastforce
  qed
  have 3: "\<exists>d. challenge_at C s' d \<and> k = packChallengeIndex4Target d \<and> v = Raw (ch_ID d)"
    if k: "under ChallengeIndex4Target k" and v: "get_object C s' k = Some v" for k v
  proof (cases "k = packChallengeIndex4Target c")
    case True
    with v atc show ?thesis by (intro exI[of _ c]) (simp add: get)
  next
    case False
    with k v have "get_object C s k = Some v" by (auto simp: get split: if_splits)
    from challenge_invD(3)[OF inv k this] same at False show ?thesis by fastforce
  qed
  show ?thesis unfolding challenge_inv_def using 1 2 3 by blast
qed

lemma make_challenge_fields:
  "make_challenge opt = Some c \<Longrightarrow> ch_ID c = cro_ChallengeID opt \<and> ch_FileOwner c = cro_FileOwner opt \<and>
     ch_TargetNode c = cro_TargetNode opt \<and> ch_FileID c = cro_FileID opt \<and>
     ch_Status c = ChallengeToProve \<and> ch_ChallengeTime c = cro_ChallengeTime opt \<and> ch_AnswerTime c = 0"
  by (auto simp: make_challenge_def Let_def split: if_splits)

context chain begin

lemma ChallengeRequest_effect:
  assumes "ChallengeRequest C E a s = (Inr r, s')"
  obtains opt c where "a = Got opt" and "make_challenge opt = Some c"
    and "signed_by E (cro_Signature opt) (cro_FileOwner opt) (enc_ChallengeRequestOptions opt)"
    and "get_object C s (packChallengeIndex (ch_ID c)) = None"
    and "get_object C s' = (\<lambda>k. if k = packChallengeIndex (ch_ID c) then Some (Doc (enc_Challenge c))
        else if k = packChallengeIndex4Owner c \<or> k = packChallengeIndex4Target c
        then Some (Raw (ch_ID c)) else get_object C s k)"
proof -
  from assms obtain opt c s1 s2 where a: "a = Got opt" and c: "make_challenge opt = Some c"
    and sg: "signed_by E (cro_Signature opt) (cro_FileOwner opt) (enc_ChallengeRequestOptions opt)"
    and new: "get_object C s (packChallengeIndex (cro_ChallengeID opt)) = None"
    and puts: "put_object C s (packChallengeIndex (cro_ChallengeID opt)) (Doc (enc_Challenge c)) = Some s1"
      "put_object C s1 (packChallengeIndex4Owner c) (Raw (ch_ID c)) = Some s2"
      "put_object C s2 (packChallengeIndex4Target c) (Raw (ch_ID c)) = Some s'"
    by (auto simp: ChallengeRequest_def Let_def act_ok)
  from make_challenge_fields[OF c] new puts show thesis
    by (intro that[OF a c sg]) (auto simp: get_put fun_eq_iff)
qed

lemma ChallengeAnswer_effect:
  assumes "ChallengeAnswer C E a s = (Inr r, s')"
  obtains opt b c pk fb fl ok where "a = Got opt"
    and "get_object C s (packChallengeIndex (cao_ChallengeID opt)) = Some b"
    and "unmarshal E dec_Challenge b = Some c"
    and "ch_Status c \<noteq> ChallengeProved" and "ch_Status c \<noteq> ChallengeFailed"
    and "hexDecode (ch_TargetNode c) = Some pk"
    and "signed_by E (cao_Signature opt) pk (enc_ChallengeAnswerOptions opt)"
    and "get_object C s (ch_FileID c) = Some fb" and "unmarshal E dec_File fb = Some fl"
    and "verify_answer E opt c fl = Inr ok"
    and "get_object C s' = (get_object C s)(packChallengeIndex (cao_ChallengeID opt) \<mapsto>
          Doc (enc_Challenge (c\<lparr>ch_AnswerTime := cao_AnswerTime opt,
               ch_Status := (if ok then ChallengeProved else ChallengeFailed)\<rparr>)))"
    and "r = (if ok then ''answered'' else ''verification failed'')"
  using assms
  by (auto simp: ChallengeAnswer_def Let_def act_ok get_put fun_eq_iff signed_by_def
      intro!: that split: if_splits)

lemma challenge_of_id:
  assumes "challenge_inv C s" and "get_object C s (packChallengeIndex i) = Some b"
    and "unmarshal E dec_Challenge b = Some c"
  shows "ch_ID c = i" and "challenge_at C s c"
  using challenge_invD(1)[OF assms(1,2)] assms(2,3) by (auto simp: challenge_at_def)

lemma ChallengeRequest_keeps:
  assumes "challenge_inv C s" and "ChallengeRequest C E a s = (Inr r, s')"
  shows "challenge_inv C s'"
  using assms(2)
proof (rule ChallengeRequest_effect)
  fix opt c
  assume c: "make_challenge opt = Some c" and new: "get_object C s (packChallengeIndex (ch_ID c)) = None"
    and get: "get_object C s' = (\<lambda>k. if k = packChallengeIndex (ch_ID c) then Some (Doc (enc_Challenge c))
        else if k = packChallengeIndex4Owner c \<or> k = packChallengeIndex4Target c
        then Some (Raw (ch_ID c)) else get_object C s k)"
  show ?thesis
    by (rule challenge_inv_store[OF assms(1) get])
      (use make_challenge_fields[OF c] new in \<open>auto simp: challenge_states_def challenge_at_def\<close>)
qed

lemma ChallengeAnswer_keeps:
  assumes inv: "challenge_inv C s" and "ChallengeAnswer C E a s = (Inr r, s')"
  shows "challenge_inv C s'"
  using assms(2)
proof (rule ChallengeAnswer_effect)
  fix opt b fl and c :: Challenge and ok :: bool
  let ?c = "c\<lparr>ch_AnswerTime := cao_AnswerTime opt,
               ch_Status := (if ok then ChallengeProved else ChallengeFailed)\<rparr>"
  assume b: "get_object C s (packChallengeIndex (cao_ChallengeID opt)) = Some b"
    and c: "unmarshal E dec_Challenge b = Some c"
    and get: "get_object C s' =
      (get_object C s)(packChallengeIndex (cao_ChallengeID opt) \<mapsto> Doc (enc_Challenge ?c))"
  note c = challenge_of_id[OF inv b c]
  have own: "packChallengeIndex4Owner ?c = packChallengeIndex4Owner c"
    and tgt: "packChallengeIndex4Target ?c = packChallengeIndex4Target c" by simp_all
  have "get_object C s' = (\<lambda>k. if k = packChallengeIndex (ch_ID ?c) then Some (Doc (enc_Challenge ?c))
        else if k = packChallengeIndex4Owner ?c \<or> k = packChallengeIndex4Target ?c
        then Some (Raw (ch_ID ?c)) else get_object C s k)"
    unfolding own tgt get using challenge_at_indexed(2,3)[OF inv c(2)] c(1) by (auto simp: fun_eq_iff)
  from challenge_inv_store[OF inv this] c(2) show ?thesis
    by (auto simp: challenge_states_def challenge_at_def)
qed

end

section \<open>Listing\<close>

definition challenge_keep :: "ListChallengeOptions \<Rightarrow> Challenge \<Rightarrow> bool" where
  "challenge_keep opt c \<longleftrightarrow> ch_Status c = lco_Status opt \<and>
     lco_TimeStart opt \<le>s ch_ChallengeTime c \<and> ch_ChallengeTime c \<le>s lco_TimeEnd opt \<and>
     (lco_FileID opt \<noteq> [] \<longrightarrow> ch_FileID c = lco_FileID opt)"

text \<open>The index that a query goes through, and what the query's prefix selects there.\<close>

definition by_target :: "bytes \<Rightarrow> bytes \<Rightarrow> bool" where
  "by_target owner target \<longleftrightarrow> owner = [] \<and> target \<noteq> []"

definition challenge_key :: "bytes \<Rightarrow> bytes \<Rightarrow> Challenge \<Rightarrow> string" where
  "challenge_key owner target =
     (if by_target owner target then packChallengeIndex4Target else packChallengeIndex4Owner)"

lemma challenge_key_prefix:
  "prefix (packChallengeFilter owner target) (challenge_key owner target c) \<longleftrightarrow>
     (owner \<noteq> [] \<longrightarrow> ch_FileOwner c = owner) \<and> (target \<noteq> [] \<longrightarrow> ch_TargetNode c = target)"
  by (auto simp: packChallengeFilter_def challenge_key_def by_target_def pack_defs Let_def prefix_sep
      Join.simps(3))

lemma challenge_key_under:
  "prefix (packChallengeFilter owner target) k \<Longrightarrow>
     under (if by_target owner target then ChallengeIndex4Target else ChallengeIndex4Owner) k"
  by (auto simp: packChallengeFilter_def by_target_def Let_def split: if_splits dest!: under_prefix)

context chain begin

lemma challenge_listing:
  assumes inv: "challenge_inv C s"
    and body: "\<And>acc c. challenge_at C s c \<Longrightarrow> body acc (challenge_key owner target c, Raw (ch_ID c)) =
      (if limit_reached lim acc then Inr Break else if keep c then Inr (Append c) else Inr Continue)"
  obtains cs where "for_iter body (prefix_scan C s (packChallengeFilter owner target)) [] =
      Inr (limited lim (filter keep cs))"
    and "set cs = {c. challenge_at C s c \<and> (owner \<noteq> [] \<longrightarrow> ch_FileOwner c = owner) \<and>
      (target \<noteq> [] \<longrightarrow> ch_TargetNode c = target)}"
    and "distinct cs" and "sorted_wrt (<) (map (challenge_key owner target) cs)"
proof (rule listing[of "packChallengeFilter owner target" s "challenge_at C s"
      "challenge_key owner target" "\<lambda>c. Raw (ch_ID c)" body lim keep])
  fix k v
  assume k: "prefix (packChallengeFilter owner target) k" and v: "get_object C s k = Some v"
  show "\<exists>c. challenge_at C s c \<and> k = challenge_key owner target c \<and> v = Raw (ch_ID c)"
    using challenge_key_under[OF k] challenge_invD(2,3)[OF inv _ v]
    by (simp add: challenge_key_def split: if_splits)
next
  fix c assume "challenge_at C s c"
  then show "get_object C s (challenge_key owner target c) = Some (Raw (ch_ID c))"
    using challenge_at_indexed(2,3)[OF inv] by (simp add: challenge_key_def)
next
  fix c c' assume at: "challenge_at C s c" "challenge_at C s c'"
    and "challenge_key owner target c = challenge_key owner target c'"
  then have "ch_ID c = ch_ID c'" by (simp add: challenge_key_def split: if_splits)
  with at show "c = c'" by (simp add: challenge_at_def)
qed (use body that challenge_key_prefix in \<open>auto simp: challenge_key_prefix\<close>)

lemma challenge_entry:
  "challenge_at C s c \<Longrightarrow> challenge_of_entry C E s (k, Raw (ch_ID c)) = Inr c"
  by (simp add: challenge_of_entry_def challenge_at_def)

lemma ListChallengeRequests_lists:
  assumes inv: "challenge_inv C s"
  shows "\<exists>cs. ListChallengeRequests C E (Got opt) s =
        (Inr (limited (lco_Limit opt) (filter (challenge_keep opt) cs)), s) \<and> distinct cs \<and>
      set cs = {c. challenge_at C s c \<and> (lco_FileOwner opt \<noteq> [] \<longrightarrow> ch_FileOwner c = lco_FileOwner opt) \<and>
        (lco_TargetNode opt \<noteq> [] \<longrightarrow> ch_TargetNode c = lco_TargetNode opt)} \<and>
      sorted_wrt (<) (map (challenge_key (lco_FileOwner opt) (lco_TargetNode opt)) cs)"
proof -
  let ?o = "lco_FileOwner opt" and ?t = "lco_TargetNode opt"
  have body: "ListChallengeRequests_body C E s opt acc (challenge_key ?o ?t c, Raw (ch_ID c)) =
      (if limit_reached (lco_Limit opt) acc then Inr Break
       else if challenge_keep opt c then Inr (Append c) else Inr Continue)"
    if "challenge_at C s c" for acc c
    by (simp add: ListChallengeRequests_body_def challenge_entry[OF that] challenge_keep_def sless_le)
  obtain cs where run: "for_iter (ListChallengeRequests_body C E s opt)
      (prefix_scan C s (packChallengeFilter ?o ?t)) [] =
      Inr (limited (lco_Limit opt) (filter (challenge_keep opt) cs))"
    and cs: "set cs = {c. challenge_at C s c \<and> (?o \<noteq> [] \<longrightarrow> ch_FileOwner c = ?o) \<and>
      (?t \<noteq> [] \<longrightarrow> ch_TargetNode c = ?t)}"
    and d: "distinct cs" and srt: "sorted_wrt (<) (map (challenge_key ?o ?t) cs)"
    by (rule challenge_listing[OF inv body])
  have "ListChallengeRequests C E (Got opt) s =
      (Inr (limited (lco_Limit opt) (filter (challenge_keep opt) cs)), s)"
    unfolding ListChallengeRequests_def bnd_got reads_def run ..
  with cs d srt show ?thesis by blast
qed

lemma GetChallengeNum_counts:
  assumes inv: "challenge_inv C s"
  shows "\<exists>cs. GetChallengeNum C E (Got opt) s = (Inr (dec_nat (length cs)), s) \<and> distinct cs \<and>
      set cs = {c. challenge_at C s c \<and> (gco_TargetNode opt \<noteq> [] \<longrightarrow> ch_TargetNode c = gco_TargetNode opt) \<and>
        gco_TimeStart opt \<le>s ch_ChallengeTime c \<and> ch_ChallengeTime c \<le>s gco_TimeEnd opt \<and>
        (gco_Status opt \<noteq> [] \<longrightarrow> ch_Status c = gco_Status opt)}"
proof -
  define keep where "keep = (\<lambda>c :: Challenge. gco_TimeStart opt \<le>s ch_ChallengeTime c \<and>
    ch_ChallengeTime c \<le>s gco_TimeEnd opt \<and> (gco_Status opt \<noteq> [] \<longrightarrow> ch_Status c = gco_Status opt))"
  have body: "GetChallengeNum_body C E s opt acc (challenge_key [] (gco_TargetNode opt) c, Raw (ch_ID c)) =
      (if limit_reached 0 acc then Inr Break else if keep c then Inr (Append c) else Inr Continue)"
    if "challenge_at C s c" for acc c
    by (simp add: GetChallengeNum_body_def challenge_entry[OF that] keep_def sless_le
        limit_reached_def word_sless_alt)
  obtain cs where run: "for_iter (GetChallengeNum_body C E s opt)
        (prefix_scan C s (packChallengeFilter [] (gco_TargetNode opt))) [] =
        Inr (limited 0 (filter keep cs))"
    and cs: "set cs = {c. challenge_at C s c \<and> ([] \<noteq> ([] :: bytes) \<longrightarrow> ch_FileOwner c = []) \<and>
      (gco_TargetNode opt \<noteq> [] \<longrightarrow> ch_TargetNode c = gco_TargetNode opt)}" and d: "distinct cs"
    by (rule challenge_listing[OF inv body])
  have "GetChallengeNum C E (Got opt) s = (Inr (dec_nat (length (filter keep cs))), s)"
    unfolding GetChallengeNum_def bnd_got
    by (simp add: bnd_def reads_def run ret_def limited_def word_sless_alt)
  moreover have "set (filter keep cs) = {c. challenge_at C s c \<and>
      (gco_TargetNode opt \<noteq> [] \<longrightarrow> ch_TargetNode c = gco_TargetNode opt) \<and>
      gco_TimeStart opt \<le>s ch_ChallengeTime c \<and> ch_ChallengeTime c \<le>s gco_TimeEnd opt \<and>
      (gco_Status opt \<noteq> [] \<longrightarrow> ch_Status c = gco_Status opt)}"
    by (auto simp: cs keep_def)
  moreover have "distinct (filter keep cs)" using d by simp
  ultimately show ?thesis by blast
qed

end

end
