(* ===== verification/XdbFileAuth.thy ===== *)
theory XdbFileAuth
  imports XdbFiles
begin

text \<open>
  File authorizations of the XuperDB contract
  (\<^verbatim>\<open>xdb/blockchain/xchain/contract/core/fileauth.go\<close>). An applier asks for the use of a file,
  and the named authorizer approves or rejects the application, once.
\<close>

section \<open>Applications\<close>

definition PublishFileAuthApplication ::
    "'s chain_ops \<Rightarrow> env \<Rightarrow> PublishFileAuthOptions arg \<Rightarrow> ('s, string) act" where
  "PublishFileAuthApplication C E a =
     bnd (get_arg ErrCodeInternal a) (\<lambda>opt.
     let fa = pao_FileAuthApplication opt in
     bnd (checkSigned E (pao_Signature opt) (fa_Applier fa) (enc_PublishFileAuthOptions opt)) (\<lambda>_.
     let fa = fa\<lparr>fa_Status := FileAuthUnapproved\<rparr>;
         s = Doc (enc_FileAuthApplication fa);
         fileAuthIndex = packFileAuthIndex (fa_ID fa) in
     bnd (absent C ErrCodeAlreadyExists fileAuthIndex) (\<lambda>_.
     bnd (put_obj C fileAuthIndex s) (\<lambda>_.
     bnd (put_obj C (packFileAuthApplierIndex (fa_Applier fa) (fa_ID fa) (fa_CreateTime fa))
            (Raw (fa_ID fa))) (\<lambda>_.
     bnd (put_obj C (packFileAuthAuthorizerIndex (fa_Authorizer fa) (fa_ID fa) (fa_CreateTime fa))
            (Raw (fa_ID fa))) (\<lambda>_.
     bnd (put_obj C (packApplierAndAuthorizerIndex (fa_Applier fa) (fa_Authorizer fa) (fa_ID fa)
            (fa_CreateTime fa)) (Raw (fa_ID fa))) (\<lambda>_.
     ret ''OK'')))))))"

definition getFileAuthByID :: "'s chain_ops \<Rightarrow> env \<Rightarrow> string \<Rightarrow> ('s, FileAuthApplication) act" where
  "getFileAuthByID C E authID =
     bnd (get_obj C ErrCodeNotFound (packFileAuthIndex authID)) (\<lambda>s.
     need (Errx ErrCodeInternal) (unmarshal E dec_FileAuthApplication s))"

section \<open>The decision\<close>

definition setFileAuthConfirmStatus ::
    "'s chain_ops \<Rightarrow> env \<Rightarrow> ConfirmFileAuthOptions arg \<Rightarrow> bool \<Rightarrow> ('s, string) act" where
  "setFileAuthConfirmStatus C E a isConfirm =
     bnd (get_arg ErrCodeInternal a) (\<lambda>opt.
     bnd (getFileAuthByID C E (cfo_ID opt)) (\<lambda>fa.
     bnd (checkSigned E (cfo_Signature opt) (fa_Authorizer fa) (enc_ConfirmFileAuthOptions opt)) (\<lambda>_.
     bnd (require (Errx ErrCodeParam) (fa_Status fa = FileAuthUnapproved)) (\<lambda>_.
     let fa = fa\<lparr>fa_ApprovalTime := cfo_CurrentTime opt\<rparr>;
         fa = (if isConfirm
               then fa\<lparr>fa_Status := FileAuthApproved, fa_ExpireTime := cfo_ExpireTime opt,
                       fa_AuthKey := cfo_AuthKey opt\<rparr>
               else fa\<lparr>fa_Status := FileAuthRejected, fa_RejectReason := cfo_RejectReason opt\<rparr>) in
     bnd (put_obj C (packFileAuthIndex (fa_ID fa)) (Doc (enc_FileAuthApplication fa))) (\<lambda>_.
     ret ''OK'')))))"

definition ConfirmFileAuthApplication ::
    "'s chain_ops \<Rightarrow> env \<Rightarrow> ConfirmFileAuthOptions arg \<Rightarrow> ('s, string) act" where
  "ConfirmFileAuthApplication C E a = setFileAuthConfirmStatus C E a True"

definition RejectFileAuthApplication ::
    "'s chain_ops \<Rightarrow> env \<Rightarrow> ConfirmFileAuthOptions arg \<Rightarrow> ('s, string) act" where
  "RejectFileAuthApplication C E a = setFileAuthConfirmStatus C E a False"

section \<open>Queries\<close>

definition ListFileAuthApplications_body ::
    "'s chain_ops \<Rightarrow> env \<Rightarrow> 's \<Rightarrow> ListFileAuthOptions \<Rightarrow> FileAuthApplication list \<Rightarrow>
     string \<times> blob \<Rightarrow> FileAuthApplication iter result" where
  "ListFileAuthApplications_body C E s opt fas kv =
     (if limit_reached (lao_Limit opt) fas then Inr Break
      else case fst (getFileAuthByID C E (blob_text (snd kv)) s) of
          Inl e \<Rightarrow> Inl e
        | Inr fa \<Rightarrow>
            if fa_CreateTime fa <s lao_TimeStart opt \<or> lao_TimeEnd opt <s fa_CreateTime fa
            then Inr Continue
            else if lao_FileID opt \<noteq> [] \<and> lao_FileID opt \<noteq> fa_FileID fa then Inr Continue
            else if lao_Status opt \<noteq> [] \<and> lao_Status opt \<noteq> fa_Status fa then Inr Continue
            else Inr (Append fa))"

definition ListFileAuthApplications ::
    "'s chain_ops \<Rightarrow> env \<Rightarrow> ListFileAuthOptions arg \<Rightarrow> ('s, FileAuthApplication list) act" where
  "ListFileAuthApplications C E a =
     bnd (get_arg ErrCodeInternal a) (\<lambda>opt.
     reads (\<lambda>s. for_iter (ListFileAuthApplications_body C E s opt)
       (prefix_scan C s (packFileAuthFilter (lao_Applier opt) (lao_Authorizer opt))) []))"

definition GetAuthApplicationByID :: "'s chain_ops \<Rightarrow> string option \<Rightarrow> ('s, blob) act" where
  "GetAuthApplicationByID C id' =
     bnd (need (Errx ErrCodeParam) id') (\<lambda>fileAuthID.
     get_obj C ErrCodeNotFound (packFileAuthIndex fileAuthID))"

section \<open>Footprints\<close>

lemma keeps_getFileAuthByID [quietI]: "keeps_state (getFileAuthByID C E i)"
  unfolding getFileAuthByID_def by (intro quietI)

lemmas writes_auth_reads [writesI] = writes_keeps[OF keeps_getFileAuthByID]

context chain begin

lemma PublishFileAuthApplication_writes:
  "writes C (in_index {FileAuthIndex, FileAuthApplierIndex, FileAuthAuthorizerIndex, FileAuthListIndex})
     (PublishFileAuthApplication C E a)"
  unfolding PublishFileAuthApplication_def Let_def
  by (intro writesI writes_put_obj) (simp_all add: pack_defs)

lemma setFileAuthConfirmStatus_writes:
  "writes C (in_index {FileAuthIndex}) (setFileAuthConfirmStatus C E a isConfirm)"
  unfolding setFileAuthConfirmStatus_def Let_def
  by (intro writesI writes_put_obj) (simp_all add: pack_defs)

end

section \<open>The book of applications\<close>

text \<open>
  A record under an authorization key is an application of that identifier in one of three states,
  its three list keys lead back to it, and every list entry belongs to an application.
\<close>

definition auth_at :: "'s chain_ops \<Rightarrow> 's \<Rightarrow> FileAuthApplication \<Rightarrow> bool" where
  "auth_at C s fa \<longleftrightarrow>
     get_object C s (packFileAuthIndex (fa_ID fa)) = Some (Doc (enc_FileAuthApplication fa))"

definition auth_states :: "string set" where
  "auth_states = {FileAuthUnapproved, FileAuthApproved, FileAuthRejected}"

definition auth_lists :: "index set" where
  "auth_lists = {FileAuthApplierIndex, FileAuthAuthorizerIndex, FileAuthListIndex}"

definition auth_key :: "index \<Rightarrow> FileAuthApplication \<Rightarrow> string" where
  "auth_key i fa =
     (if i = FileAuthApplierIndex
      then packFileAuthApplierIndex (fa_Applier fa) (fa_ID fa) (fa_CreateTime fa)
      else if i = FileAuthAuthorizerIndex
      then packFileAuthAuthorizerIndex (fa_Authorizer fa) (fa_ID fa) (fa_CreateTime fa)
      else packApplierAndAuthorizerIndex (fa_Applier fa) (fa_Authorizer fa) (fa_ID fa)
             (fa_CreateTime fa))"

definition auth_inv :: "'s chain_ops \<Rightarrow> 's \<Rightarrow> bool" where
  "auth_inv C s \<longleftrightarrow>
     (\<forall>i v. get_object C s (packFileAuthIndex i) = Some v \<longrightarrow>
        (\<exists>fa. v = Doc (enc_FileAuthApplication fa) \<and> fa_ID fa = i \<and> fa_Status fa \<in> auth_states \<and>
           (\<forall>x \<in> auth_lists. get_object C s (auth_key x fa) = Some (Raw i)))) \<and>
     (\<forall>x \<in> auth_lists. \<forall>k v. under x k \<longrightarrow> get_object C s k = Some v \<longrightarrow>
        (\<exists>fa. auth_at C s fa \<and> k = auth_key x fa \<and> v = Raw (fa_ID fa)))"

lemma enc_FileAuthApplication_inj [simp]:
  "enc_FileAuthApplication a = enc_FileAuthApplication b \<longleftrightarrow> a = b"
  by (metis dec_enc_FileAuthApplication option.inject)

lemma auth_key_simps [simp]:
  assumes "x \<in> auth_lists"
  shows "packFileAuthIndex i \<noteq> auth_key x fa" and "auth_key x fa \<noteq> packFileAuthIndex i"
    and "under x (auth_key x fa)" and "\<not> under x (packFileAuthIndex i)"
  using assms by (auto simp: auth_lists_def auth_key_def pack_defs)

lemma auth_key_eq:
  assumes "x \<in> auth_lists" and "y \<in> auth_lists" and "auth_key x fa = auth_key y fb"
  shows "x = y" and "fa_ID fa = fa_ID fb"
  using assms by (auto simp: auth_lists_def auth_key_def pack_defs split: if_splits)

lemma auth_key_cong:
  "fa_Applier fa = fa_Applier fb \<Longrightarrow> fa_Authorizer fa = fa_Authorizer fb \<Longrightarrow> fa_ID fa = fa_ID fb \<Longrightarrow>
     fa_CreateTime fa = fa_CreateTime fb \<Longrightarrow> auth_key x fa = auth_key x fb"
  by (simp add: auth_key_def)

lemma under_auth_key:
  "x \<in> auth_lists \<Longrightarrow> y \<in> auth_lists \<Longrightarrow> under x (auth_key y fa) \<longleftrightarrow> x = y"
  by (auto simp: auth_lists_def auth_key_def pack_defs)

lemma auth_invD:
  assumes "auth_inv C s"
  shows "get_object C s (packFileAuthIndex i) = Some v \<Longrightarrow>
      \<exists>fa. v = Doc (enc_FileAuthApplication fa) \<and> fa_ID fa = i \<and> fa_Status fa \<in> auth_states \<and>
         (\<forall>x \<in> auth_lists. get_object C s (auth_key x fa) = Some (Raw i))"
    and "x \<in> auth_lists \<Longrightarrow> under x k \<Longrightarrow> get_object C s k = Some v \<Longrightarrow>
      \<exists>fa. auth_at C s fa \<and> k = auth_key x fa \<and> v = Raw (fa_ID fa)"
  using assms unfolding auth_inv_def by blast+

lemma auth_at_indexed:
  assumes "auth_inv C s" and "auth_at C s fa"
  shows "fa_Status fa \<in> auth_states"
    and "x \<in> auth_lists \<Longrightarrow> get_object C s (auth_key x fa) = Some (Raw (fa_ID fa))"
  using auth_invD(1)[OF assms(1) assms(2)[unfolded auth_at_def]] by auto

lemma auth_inv_frame:
  assumes inv: "auth_inv C s"
    and ix: "\<And>i. get_object C s' (packFileAuthIndex i) = get_object C s (packFileAuthIndex i)"
    and ls: "\<And>x k. x \<in> auth_lists \<Longrightarrow> under x k \<Longrightarrow> get_object C s' k = get_object C s k"
  shows "auth_inv C s'"
proof -
  have at: "auth_at C s' fa \<longleftrightarrow> auth_at C s fa" for fa by (simp add: auth_at_def ix)
  have key: "get_object C s' (auth_key x fa) = get_object C s (auth_key x fa)"
    if "x \<in> auth_lists" for x fa using ls[OF that auth_key_simps(3)[OF that]] .
  show ?thesis
    using inv ls by (simp add: auth_inv_def ix at key)
qed

lemma auth_inv_store:
  assumes inv: "auth_inv C s"
    and ix: "\<And>i. get_object C s' (packFileAuthIndex i) =
        (if i = fa_ID fa then Some (Doc (enc_FileAuthApplication fa))
         else get_object C s (packFileAuthIndex i))"
    and ls: "\<And>x k. x \<in> auth_lists \<Longrightarrow> under x k \<Longrightarrow> get_object C s' k =
        (if k = auth_key x fa then Some (Raw (fa_ID fa)) else get_object C s k)"
    and st: "fa_Status fa \<in> auth_states"
    and same: "\<And>fb x. auth_at C s fb \<Longrightarrow> fa_ID fb = fa_ID fa \<Longrightarrow> auth_key x fb = auth_key x fa"
  shows "auth_inv C s'"
proof -
  have at: "auth_at C s' fb" if "auth_at C s fb" "fa_ID fb \<noteq> fa_ID fa" for fb
    using that by (simp add: auth_at_def ix)
  have ata: "auth_at C s' fa" by (simp add: auth_at_def ix)
  have 1: "\<exists>fb. v = Doc (enc_FileAuthApplication fb) \<and> fa_ID fb = i \<and> fa_Status fb \<in> auth_states \<and>
         (\<forall>x \<in> auth_lists. get_object C s' (auth_key x fb) = Some (Raw i))"
    if v: "get_object C s' (packFileAuthIndex i) = Some v" for i v
  proof (cases "i = fa_ID fa")
    case True
    with v st show ?thesis by (intro exI[of _ fa]) (simp add: ix ls)
  next
    case False
    with v have "get_object C s (packFileAuthIndex i) = Some v" by (simp add: ix)
    from auth_invD(1)[OF inv this] obtain fb where fb: "v = Doc (enc_FileAuthApplication fb)"
      "fa_ID fb = i" "fa_Status fb \<in> auth_states"
      "\<And>x. x \<in> auth_lists \<Longrightarrow> get_object C s (auth_key x fb) = Some (Raw i)" by blast
    have "get_object C s' (auth_key x fb) = Some (Raw i)" if x: "x \<in> auth_lists" for x
      using auth_key_eq(2)[OF x x, of fb fa] False fb(2) fb(4)[OF x] ls[OF x auth_key_simps(3)[OF x]]
      by auto
    with fb show ?thesis by blast
  qed
  have 2: "\<exists>fb. auth_at C s' fb \<and> k = auth_key x fb \<and> v = Raw (fa_ID fb)"
    if x: "x \<in> auth_lists" and k: "under x k" and v: "get_object C s' k = Some v" for x k v
  proof (cases "k = auth_key x fa")
    case True
    with v ata ls[OF x k] show ?thesis by (intro exI[of _ fa]) simp
  next
    case False
    with v ls[OF x k] have "get_object C s k = Some v" by simp
    from auth_invD(2)[OF inv x k this] obtain fb where fb: "auth_at C s fb" "k = auth_key x fb"
      "v = Raw (fa_ID fb)" by blast
    have "fa_ID fb \<noteq> fa_ID fa" using same[OF fb(1), of x] fb(2) False by auto
    with at[OF fb(1)] fb show ?thesis by blast
  qed
  show ?thesis unfolding auth_inv_def using 1 2 by blast
qed

context chain begin

lemma PublishFileAuthApplication_effect:
  assumes "PublishFileAuthApplication C E a s = (Inr r, s')"
  obtains opt fa where "a = Got opt"
    and "fa = (pao_FileAuthApplication opt)\<lparr>fa_Status := FileAuthUnapproved\<rparr>"
    and "signed_by E (pao_Signature opt) (fa_Applier fa) (enc_PublishFileAuthOptions opt)"
    and "get_object C s (packFileAuthIndex (fa_ID fa)) = None"
    and "get_object C s' = (\<lambda>k. if k \<in> (\<lambda>x. auth_key x fa) ` auth_lists then Some (Raw (fa_ID fa))
        else if k = packFileAuthIndex (fa_ID fa) then Some (Doc (enc_FileAuthApplication fa))
        else get_object C s k)"
proof -
  from assms obtain opt s1 s2 s3 where a: "a = Got opt"
    and sg: "signed_by E (pao_Signature opt) (fa_Applier (pao_FileAuthApplication opt))
          (enc_PublishFileAuthOptions opt)"
    and new: "get_object C s (packFileAuthIndex (fa_ID (pao_FileAuthApplication opt))) = None"
    and puts: "put_object C s (packFileAuthIndex (fa_ID (pao_FileAuthApplication opt)))
        (Doc (enc_FileAuthApplication ((pao_FileAuthApplication opt)\<lparr>fa_Status := FileAuthUnapproved\<rparr>)))
        = Some s1"
      "put_object C s1 (auth_key FileAuthApplierIndex (pao_FileAuthApplication opt))
        (Raw (fa_ID (pao_FileAuthApplication opt))) = Some s2"
      "put_object C s2 (auth_key FileAuthAuthorizerIndex (pao_FileAuthApplication opt))
        (Raw (fa_ID (pao_FileAuthApplication opt))) = Some s3"
      "put_object C s3 (auth_key FileAuthListIndex (pao_FileAuthApplication opt))
        (Raw (fa_ID (pao_FileAuthApplication opt))) = Some s'"
    by (auto simp: PublishFileAuthApplication_def Let_def act_ok auth_key_def)
  define fa where "fa = (pao_FileAuthApplication opt)\<lparr>fa_Status := FileAuthUnapproved\<rparr>"
  have key: "auth_key x (pao_FileAuthApplication opt) = auth_key x fa" for x
    by (rule auth_key_cong) (simp_all add: fa_def)
  have fid: "fa_ID (pao_FileAuthApplication opt) = fa_ID fa" by (simp add: fa_def)
  show thesis
    by (rule that[OF a fa_def])
      (use sg new puts[folded fa_def, unfolded key fid, THEN get_put] in
        \<open>auto simp: fa_def[symmetric] fun_eq_iff auth_lists_def fid, auto simp: fa_def\<close>)
qed

lemma setFileAuthConfirmStatus_effect:
  assumes "setFileAuthConfirmStatus C E a isConfirm s = (Inr r, s')"
  obtains opt b fa fb where "a = Got opt"
    and "get_object C s (packFileAuthIndex (cfo_ID opt)) = Some b"
    and "unmarshal E dec_FileAuthApplication b = Some fa"
    and "signed_by E (cfo_Signature opt) (fa_Authorizer fa) (enc_ConfirmFileAuthOptions opt)"
    and "fa_Status fa = FileAuthUnapproved"
    and "fb = (if isConfirm
          then fa\<lparr>fa_ApprovalTime := cfo_CurrentTime opt, fa_Status := FileAuthApproved,
                  fa_ExpireTime := cfo_ExpireTime opt, fa_AuthKey := cfo_AuthKey opt\<rparr>
          else fa\<lparr>fa_ApprovalTime := cfo_CurrentTime opt, fa_Status := FileAuthRejected,
                  fa_RejectReason := cfo_RejectReason opt\<rparr>)"
    and "get_object C s' =
          (get_object C s)(packFileAuthIndex (fa_ID fa) \<mapsto> Doc (enc_FileAuthApplication fb))"
  using assms
  by (auto simp: setFileAuthConfirmStatus_def getFileAuthByID_def Let_def act_ok get_put fun_eq_iff
      intro!: that)

lemma PublishFileAuthApplication_keeps:
  assumes "auth_inv C s" and "PublishFileAuthApplication C E a s = (Inr r, s')"
  shows "auth_inv C s'"
  using assms(2)
proof (rule PublishFileAuthApplication_effect)
  fix opt :: PublishFileAuthOptions and fa
  assume fa: "fa = (pao_FileAuthApplication opt)\<lparr>fa_Status := FileAuthUnapproved\<rparr>"
    and new: "get_object C s (packFileAuthIndex (fa_ID fa)) = None"
    and get: "get_object C s' = (\<lambda>k. if k \<in> (\<lambda>x. auth_key x fa) ` auth_lists
        then Some (Raw (fa_ID fa))
        else if k = packFileAuthIndex (fa_ID fa) then Some (Doc (enc_FileAuthApplication fa))
        else get_object C s k)"
  show ?thesis
  proof (rule auth_inv_store[OF assms(1), where fa = fa])
    show "get_object C s' (packFileAuthIndex i) = (if i = fa_ID fa
        then Some (Doc (enc_FileAuthApplication fa)) else get_object C s (packFileAuthIndex i))" for i
      by (auto simp: get)
    show "get_object C s' k = (if k = auth_key x fa then Some (Raw (fa_ID fa)) else get_object C s k)"
      if "x \<in> auth_lists" "under x k" for x k
      using that by (auto simp: get under_auth_key)
    show "fa_Status fa \<in> auth_states" by (simp add: fa auth_states_def)
    show "auth_key x fb = auth_key x fa" if "auth_at C s fb" "fa_ID fb = fa_ID fa" for fb x
      using that new by (simp add: auth_at_def)
  qed
qed

lemma auth_of_id:
  assumes "auth_inv C s" and "get_object C s (packFileAuthIndex i) = Some b"
    and "unmarshal E dec_FileAuthApplication b = Some fa"
  shows "fa_ID fa = i" and "auth_at C s fa"
  using auth_invD(1)[OF assms(1,2)] assms(2,3) by (auto simp: auth_at_def)

lemma setFileAuthConfirmStatus_keeps:
  assumes inv: "auth_inv C s" and "setFileAuthConfirmStatus C E a isConfirm s = (Inr r, s')"
  shows "auth_inv C s'"
  using assms(2)
proof (rule setFileAuthConfirmStatus_effect)
  fix opt b and fa fb :: FileAuthApplication
  assume b: "get_object C s (packFileAuthIndex (cfo_ID opt)) = Some b"
    and fa: "unmarshal E dec_FileAuthApplication b = Some fa"
    and fb: "fb = (if isConfirm
          then fa\<lparr>fa_ApprovalTime := cfo_CurrentTime opt, fa_Status := FileAuthApproved,
                  fa_ExpireTime := cfo_ExpireTime opt, fa_AuthKey := cfo_AuthKey opt\<rparr>
          else fa\<lparr>fa_ApprovalTime := cfo_CurrentTime opt, fa_Status := FileAuthRejected,
                  fa_RejectReason := cfo_RejectReason opt\<rparr>)"
    and get: "get_object C s' =
          (get_object C s)(packFileAuthIndex (fa_ID fa) \<mapsto> Doc (enc_FileAuthApplication fb))"
  note fa = auth_of_id[OF inv b fa]
  have ids: "fa_ID fb = fa_ID fa" by (simp add: fb)
  have key: "auth_key x fb = auth_key x fa" for x
    by (rule auth_key_cong) (simp_all add: fb)
  show ?thesis
  proof (rule auth_inv_store[OF inv, where fa = fb])
    show "get_object C s' (packFileAuthIndex i) = (if i = fa_ID fb
        then Some (Doc (enc_FileAuthApplication fb)) else get_object C s (packFileAuthIndex i))" for i
      by (simp add: get ids)
    show "get_object C s' k = (if k = auth_key x fb then Some (Raw (fa_ID fb)) else get_object C s k)"
      if x: "x \<in> auth_lists" and k: "under x k" for x k
      using auth_at_indexed(2)[OF inv fa(2) x] x k by (auto simp: get key ids)
    show "fa_Status fb \<in> auth_states" by (simp add: fb auth_states_def)
    show "auth_key x fc = auth_key x fb" if "auth_at C s fc" "fa_ID fc = fa_ID fb" for fc x
      using that fa(2) by (simp add: auth_at_def ids key)
  qed
qed

end

section \<open>Listing\<close>

definition auth_index :: "bytes \<Rightarrow> bytes \<Rightarrow> index" where
  "auth_index applier authorizer =
     (if applier \<noteq> [] \<and> authorizer \<noteq> [] then FileAuthListIndex
      else if applier \<noteq> [] then FileAuthApplierIndex else FileAuthAuthorizerIndex)"

definition auth_selected :: "bytes \<Rightarrow> bytes \<Rightarrow> FileAuthApplication \<Rightarrow> bool" where
  "auth_selected applier authorizer fa \<longleftrightarrow>
     (applier \<noteq> [] \<longrightarrow> fa_Applier fa = applier) \<and>
     (applier = [] \<or> authorizer \<noteq> [] \<longrightarrow> fa_Authorizer fa = authorizer)"

definition auth_keep :: "ListFileAuthOptions \<Rightarrow> FileAuthApplication \<Rightarrow> bool" where
  "auth_keep opt fa \<longleftrightarrow> lao_TimeStart opt \<le>s fa_CreateTime fa \<and> fa_CreateTime fa \<le>s lao_TimeEnd opt \<and>
     (lao_FileID opt \<noteq> [] \<longrightarrow> fa_FileID fa = lao_FileID opt) \<and>
     (lao_Status opt \<noteq> [] \<longrightarrow> fa_Status fa = lao_Status opt)"

lemma auth_index_lists [simp]: "auth_index a b \<in> auth_lists"
  by (simp add: auth_index_def auth_lists_def)

lemma Nil_eq_hex [simp]: "[] = hex bs \<longleftrightarrow> bs = []"
  by (metis hex_Nil_iff)

lemma auth_filter_prefix:
  "prefix (packFileAuthFilter a b) (auth_key (auth_index a b) fa) \<longleftrightarrow> auth_selected a b fa"
  using prefix_sep[of "CHR ''/''" "hex []" "hex (fa_Authorizer fa)" "[]"]
  by (auto simp: packFileAuthFilter_def auth_key_def auth_index_def auth_selected_def pack_defs
      prefix_sep Join.simps(3))

lemma auth_filter_under: "prefix (packFileAuthFilter a b) k \<Longrightarrow> under (auth_index a b) k"
  by (auto simp: packFileAuthFilter_def auth_index_def split: if_splits dest!: under_prefix)

context chain begin

lemma ListFileAuthApplications_lists:
  assumes inv: "auth_inv C s"
  shows "\<exists>fas. ListFileAuthApplications C E (Got opt) s =
        (Inr (limited (lao_Limit opt) (filter (auth_keep opt) fas)), s) \<and> distinct fas \<and>
      set fas = {fa. auth_at C s fa \<and> auth_selected (lao_Applier opt) (lao_Authorizer opt) fa} \<and>
      sorted_wrt (<) (map (auth_key (auth_index (lao_Applier opt) (lao_Authorizer opt))) fas)"
proof -
  let ?p = "packFileAuthFilter (lao_Applier opt) (lao_Authorizer opt)"
  let ?i = "auth_index (lao_Applier opt) (lao_Authorizer opt)"
  have entry: "\<exists>fa. auth_at C s fa \<and> k = auth_key ?i fa \<and> v = Raw (fa_ID fa)"
    if "prefix ?p k" "get_object C s k = Some v" for k v
    using auth_invD(2)[OF inv _ auth_filter_under[OF that(1)] that(2)] by simp
  have stored: "get_object C s (auth_key ?i fa) = Some (Raw (fa_ID fa))" if "auth_at C s fa" for fa
    using auth_at_indexed(2)[OF inv that] by simp
  have inj: "fa = fb" if at: "auth_at C s fa" "auth_at C s fb" and "auth_key ?i fa = auth_key ?i fb"
    for fa fb
    using at auth_key_eq(2)[OF _ _ that(3)] by (simp add: auth_at_def)
  have body: "ListFileAuthApplications_body C E s opt acc (auth_key ?i fa, Raw (fa_ID fa)) =
      (if limit_reached (lao_Limit opt) acc then Inr Break
       else if auth_keep opt fa then Inr (Append fa) else Inr Continue)"
    if at: "auth_at C s fa" for acc fa
  proof -
    have "fst (getFileAuthByID C E (fa_ID fa) s) = Inr fa"
      using at by (simp add: getFileAuthByID_def auth_at_def act_defs)
    then show ?thesis
      by (auto simp: ListFileAuthApplications_body_def auth_keep_def sless_le)
  qed
  obtain fas where run: "for_iter (ListFileAuthApplications_body C E s opt) (prefix_scan C s ?p) [] =
      Inr (limited (lao_Limit opt) (filter (auth_keep opt) fas))"
    and "set fas = {fa. auth_at C s fa \<and> prefix ?p (auth_key ?i fa)}" and "distinct fas"
    and "sorted_wrt (<) (map (auth_key ?i) fas)"
    by (rule listing[OF entry stored inj body])
  moreover have "ListFileAuthApplications C E (Got opt) s =
      (Inr (limited (lao_Limit opt) (filter (auth_keep opt) fas)), s)"
    unfolding ListFileAuthApplications_def bnd_got reads_def run ..
  ultimately show ?thesis unfolding auth_filter_prefix by blast
qed

end

end
