(* ===== verification/XdbContract.thy ===== *)
theory XdbContract
  imports XdbNodes XdbChallenge XdbFileAuth
begin

text \<open>
  The XuperDB contract as a whole (type \<^verbatim>\<open>Xdata\<close> of
  \<^verbatim>\<open>xdb/blockchain/xchain/contract/core\<close>): its calls, the ledger states they reach from
  an empty ledger, the invariant of those states, and what can happen to one stored object over time.

  A call that returns an error changes nothing: the platform drops the writes of a failed
  transaction. Files are called by plain identifiers, as the engine generates them (a UUID); the
  contract itself does not check that, and the last section shows what happens otherwise.
\<close>

section \<open>Calls\<close>

datatype call =
    CAddNode "AddNodeOptions arg" | CNodeOffline "NodeOperateOptions arg"
  | CNodeOnline "NodeOperateOptions arg" | CHeartbeat "NodeHeartBeatOptions arg"
  | CPublishFile "PublishFileOptions arg" | CAddFileNs "AddNsOptions arg"
  | CUpdateNsReplica "UpdateNsReplicaOptions arg"
  | CUpdateFilePublicSliceMeta "UpdateFilePSMOptions arg"
  | CUpdateFileExpireTime "UpdateExptimeOptions arg" | CSliceMigrateRecord "SliceMigrateOptions arg"
  | CChallengeRequest "ChallengeRequestOptions arg" | CChallengeAnswer "ChallengeAnswerOptions arg"
  | CPublishFileAuth "PublishFileAuthOptions arg" | CConfirmFileAuth "ConfirmFileAuthOptions arg"
  | CRejectFileAuth "ConfirmFileAuthOptions arg"

definition commit :: "('s, 'a) act \<Rightarrow> 's \<Rightarrow> 's option" where
  "commit m s = (case m s of (Inl e, _) \<Rightarrow> None | (Inr x, s') \<Rightarrow> Some s')"

fun exec :: "'s chain_ops \<Rightarrow> env \<Rightarrow> call \<Rightarrow> 's \<Rightarrow> 's option" where
  "exec C E (CAddNode a) s = commit (AddNode C E a) s"
| "exec C E (CNodeOffline a) s = commit (NodeOffline C E a) s"
| "exec C E (CNodeOnline a) s = commit (NodeOnline C E a) s"
| "exec C E (CHeartbeat a) s = commit (Heartbeat C E a) s"
| "exec C E (CPublishFile a) s = commit (PublishFile C E a) s"
| "exec C E (CAddFileNs a) s = commit (AddFileNs C E a) s"
| "exec C E (CUpdateNsReplica a) s = commit (UpdateNsReplica C E a) s"
| "exec C E (CUpdateFilePublicSliceMeta a) s = commit (UpdateFilePublicSliceMeta C E a) s"
| "exec C E (CUpdateFileExpireTime a) s = commit (UpdateFileExpireTime C E a) s"
| "exec C E (CSliceMigrateRecord a) s = commit (SliceMigrateRecord C E a) s"
| "exec C E (CChallengeRequest a) s = commit (ChallengeRequest C E a) s"
| "exec C E (CChallengeAnswer a) s = commit (ChallengeAnswer C E a) s"
| "exec C E (CPublishFileAuth a) s = commit (PublishFileAuthApplication C E a) s"
| "exec C E (CConfirmFileAuth a) s = commit (ConfirmFileAuthApplication C E a) s"
| "exec C E (CRejectFileAuth a) s = commit (RejectFileAuthApplication C E a) s"

text \<open>The file a call names, when it writes one.\<close>

fun named_file :: "call \<Rightarrow> string option" where
  "named_file (CPublishFile (Got opt)) = Some (f_ID (pfo_File opt))"
| "named_file (CUpdateFilePublicSliceMeta (Got opt)) = Some (ufo_FileID opt)"
| "named_file (CUpdateFileExpireTime (Got opt)) = Some (ueo_FileID opt)"
| "named_file _ = None"

definition well_named :: "call \<Rightarrow> bool" where
  "well_named c \<longleftrightarrow> (case named_file c of None \<Rightarrow> True | Some i \<Rightarrow> plain_id i)"

inductive tx :: "'s chain_ops \<Rightarrow> env \<Rightarrow> 's \<Rightarrow> call \<Rightarrow> 's \<Rightarrow> bool" for C E where
  tx: "exec C E c s = Some s' \<Longrightarrow> well_named c \<Longrightarrow> tx C E s c s'"

inductive reachable :: "'s chain_ops \<Rightarrow> env \<Rightarrow> 's \<Rightarrow> bool" for C E where
  start: "(\<And>k. get_object C s k = None) \<Longrightarrow> reachable C E s"
| step: "reachable C E s \<Longrightarrow> tx C E s c s' \<Longrightarrow> reachable C E s'"

text \<open>Later states.\<close>

inductive later :: "'s chain_ops \<Rightarrow> env \<Rightarrow> 's \<Rightarrow> 's \<Rightarrow> bool" for C E where
  now: "later C E s s"
| next_tx: "later C E s s' \<Longrightarrow> tx C E s' c s'' \<Longrightarrow> later C E s s''"

lemma commit_Some: "commit m s = Some s' \<longleftrightarrow> (\<exists>r. m s = (Inr r, s'))"
  by (auto simp: commit_def split: prod.splits sum.splits)

inductive_cases txE: "tx C E s c s'"

section \<open>Footprints of the calls\<close>

fun touched :: "call \<Rightarrow> index set" where
  "touched (CAddNode _) = {NodeIndex, NodeListIndex}"
| "touched (CNodeOffline _) = {NodeNonceIndex, NodeIndex, NodeListIndex}"
| "touched (CNodeOnline _) = {NodeNonceIndex, NodeIndex, NodeListIndex}"
| "touched (CHeartbeat _) = {NodeHeartbeatIndex, NodeIndex, NodeListIndex}"
| "touched (CPublishFile _) = file_indexes"
| "touched (CAddFileNs _) = {FileNsIndex, FileNsListIndex}"
| "touched (CUpdateNsReplica _) = {FileNsIndex, FileNsListIndex}"
| "touched (CUpdateFilePublicSliceMeta _) = {}"
| "touched (CUpdateFileExpireTime _) = {}"
| "touched (CSliceMigrateRecord _) = {NodeSliceMigrateIndex}"
| "touched (CChallengeRequest _) = {ChallengeIndex, ChallengeIndex4Owner, ChallengeIndex4Target}"
| "touched (CChallengeAnswer _) = {ChallengeIndex}"
| "touched (CPublishFileAuth _) =
     {FileAuthIndex, FileAuthApplierIndex, FileAuthAuthorizerIndex, FileAuthListIndex}"
| "touched (CConfirmFileAuth _) = {FileAuthIndex}"
| "touched (CRejectFileAuth _) = {FileAuthIndex}"

context chain begin

lemma exec_frame:
  assumes inv: "file_inv C s" and step: "tx C E s c s'" and k: "\<not> in_index (touched c) k"
    and f: "named_file c \<noteq> Some k"
  shows "get_object C s' k = get_object C s k"
proof -
  from step obtain run: "exec C E c s = Some s'" and named: "well_named c" by (rule txE)
  show ?thesis
  proof (cases c)
    case (CAddNode a)
    with run k show ?thesis by (auto simp: commit_Some dest: writesD[OF AddNode_writes])
  next
    case (CNodeOffline a)
    with run k show ?thesis
      by (auto simp: commit_Some NodeOffline_def dest: writesD[OF setNodeOnlineStatus_writes])
  next
    case (CNodeOnline a)
    with run k show ?thesis
      by (auto simp: commit_Some NodeOnline_def dest: writesD[OF setNodeOnlineStatus_writes])
  next
    case (CHeartbeat a)
    with run k show ?thesis by (auto simp: commit_Some dest: writesD[OF Heartbeat_writes])
  next
    case (CPublishFile a)
    with run obtain r where r: "PublishFile C E a s = (Inr r, s')" by (auto simp: commit_Some)
    then obtain opt where a: "a = Got opt" by (rule PublishFile_effect)
    with CPublishFile f have "k \<noteq> f_ID (pfo_File opt)" by simp
    with writesD[OF PublishFile_writes r[unfolded a], of k] k CPublishFile show ?thesis by auto
  next
    case (CAddFileNs a)
    with run k show ?thesis by (auto simp: commit_Some dest: writesD[OF AddFileNs_writes])
  next
    case (CUpdateNsReplica a)
    with run k show ?thesis by (auto simp: commit_Some dest: writesD[OF UpdateNsReplica_writes])
  next
    case (CUpdateFilePublicSliceMeta a)
    with run obtain r where "UpdateFilePublicSliceMeta C E a s = (Inr r, s')" by (auto simp: commit_Some)
    then show ?thesis
    proof (rule UpdateFilePublicSliceMeta_effect)
      fix opt b and fl :: File
      assume a: "a = Got opt" and b: "get_object C s (ufo_FileID opt) = Some b"
        "unmarshal E dec_File b = Some fl"
        and get: "get_object C s' =
          (get_object C s)(f_ID fl \<mapsto> Doc (enc_File (fl\<lparr>f_Slices := ufo_Slices opt\<rparr>)))"
      have "plain_id (ufo_FileID opt)" using named CUpdateFilePublicSliceMeta a by (simp add: well_named_def)
      from file_of_id(1)[OF inv this b] f CUpdateFilePublicSliceMeta a show ?thesis by (simp add: get)
    qed
  next
    case (CUpdateFileExpireTime a)
    with run obtain r where "UpdateFileExpireTime C E a s = (Inr r, s')" by (auto simp: commit_Some)
    then show ?thesis
    proof (rule UpdateFileExpireTime_effect)
      fix opt b and fl :: File
      assume a: "a = Got opt" and b: "get_object C s (ueo_FileID opt) = Some b"
        "unmarshal E dec_File b = Some fl"
        and get: "get_object C s' = (get_object C s)(f_ID fl \<mapsto>
          Doc (enc_File (fl\<lparr>f_ExpireTime := ueo_NewExpireTime opt\<rparr>)))"
      have "plain_id (ueo_FileID opt)" using named CUpdateFileExpireTime a by (simp add: well_named_def)
      from file_of_id(1)[OF inv this b] f CUpdateFileExpireTime a show ?thesis by (simp add: get)
    qed
  next
    case (CSliceMigrateRecord a)
    with run k show ?thesis by (auto simp: commit_Some dest: writesD[OF SliceMigrateRecord_writes])
  next
    case (CChallengeRequest a)
    with run k show ?thesis by (auto simp: commit_Some dest: writesD[OF ChallengeRequest_writes])
  next
    case (CChallengeAnswer a)
    with run k show ?thesis by (auto simp: commit_Some dest: writesD[OF ChallengeAnswer_writes])
  next
    case (CPublishFileAuth a)
    with run k show ?thesis
      by (auto simp: commit_Some dest: writesD[OF PublishFileAuthApplication_writes])
  next
    case (CConfirmFileAuth a)
    with run k show ?thesis
      by (auto simp: commit_Some ConfirmFileAuthApplication_def
          dest: writesD[OF setFileAuthConfirmStatus_writes])
  next
    case (CRejectFileAuth a)
    with run k show ?thesis
      by (auto simp: commit_Some RejectFileAuthApplication_def
          dest: writesD[OF setFileAuthConfirmStatus_writes])
  qed
qed

text \<open>Keys of an index, and keys under one, change only by calls that touch it.\<close>

lemma named_plain: "tx C E s c s' \<Longrightarrow> named_file c = Some k \<Longrightarrow> plain_id k"
  by (auto elim!: txE simp: well_named_def)

lemma frame_key:
  assumes "file_inv C s" and "tx C E s c s'" and "i \<notin> touched c"
  shows "get_object C s' (key i ps) = get_object C s (key i ps)"
  using exec_frame[OF assms(1,2), of "key i ps"] assms(3) named_plain[OF assms(2), of "key i ps"]
  by auto

lemma frame_under:
  assumes "file_inv C s" and "tx C E s c s'" and "i \<notin> touched c" and "under i k"
  shows "get_object C s' k = get_object C s k"
  using exec_frame[OF assms(1,2)] under_other[OF assms(4,3)] named_plain[OF assms(2)] assms(4)
    under_not_plain by blast

lemma frame_plain:
  assumes "file_inv C s" and "tx C E s c s'" and "named_file c \<noteq> Some k" and "plain_id k"
  shows "get_object C s' k = get_object C s k"
  using exec_frame[OF assms(1,2) _ assms(3)] assms(4) by simp

lemma frame_node_list:
  assumes inv: "file_inv C s" and step: "tx C E s c s'" and "NodeListIndex \<notin> touched c"
    and k: "prefix (prefix_of NodeListIndex) k"
  shows "get_object C s' k = get_object C s k"
proof (rule exec_frame[OF inv step])
  show "\<not> in_index (touched c) k" using assms(3) k by (auto simp: in_index_def)
  have "\<not> plain_id k" using k plain_no_prefix[of k NodeListIndex] by auto
  then show "named_file c \<noteq> Some k" using named_plain[OF step] by blast
qed

end

section \<open>The invariant\<close>

definition xdb_inv :: "'s chain_ops \<Rightarrow> 's \<Rightarrow> bool" where
  "xdb_inv C s \<longleftrightarrow> node_inv C s \<and> file_inv C s \<and> ns_inv C s \<and> challenge_inv C s \<and> auth_inv C s"

lemma xdb_inv_start: "(\<And>k. get_object C s k = None) \<Longrightarrow> xdb_inv C s"
  by (simp add: xdb_inv_def node_inv_def file_inv_def ns_inv_def challenge_inv_def auth_inv_def)

context chain begin

lemma node_inv_step:
  assumes inv: "xdb_inv C s" and step: "tx C E s c s'"
  shows "node_inv C s'"
proof (cases "NodeIndex \<in> touched c")
  case False
  then have "NodeListIndex \<notin> touched c" by (cases c) auto
  with False inv step show ?thesis
    by (intro node_inv_frame[of C s s'])
      (auto simp: xdb_inv_def packNodeIndex_def intro: frame_key frame_node_list)
next
  case True
  from step have run: "exec C E c s = Some s'" by (rule txE)
  with True inv show ?thesis
    by (cases c) (auto simp: xdb_inv_def commit_Some NodeOffline_def NodeOnline_def
        intro: AddNode_keeps setNodeOnlineStatus_keeps Heartbeat_keeps)
qed

lemma challenge_inv_step:
  assumes inv: "xdb_inv C s" and step: "tx C E s c s'"
  shows "challenge_inv C s'"
proof (cases "ChallengeIndex \<in> touched c")
  case False
  then have "ChallengeIndex4Owner \<notin> touched c" "ChallengeIndex4Target \<notin> touched c"
    by (cases c; simp)+
  with False inv step show ?thesis
    by (intro challenge_inv_frame[of C s s'])
      (auto simp: xdb_inv_def packChallengeIndex_def intro: frame_key frame_under)
next
  case True
  from step have run: "exec C E c s = Some s'" by (rule txE)
  with True inv show ?thesis
    by (cases c) (auto simp: xdb_inv_def commit_Some intro: ChallengeRequest_keeps ChallengeAnswer_keeps)
qed

lemma auth_inv_step:
  assumes inv: "xdb_inv C s" and step: "tx C E s c s'"
  shows "auth_inv C s'"
proof (cases "FileAuthIndex \<in> touched c")
  case False
  then have "x \<notin> touched c" if "x \<in> auth_lists" for x
    using that by (cases c) (auto simp: auth_lists_def)
  with False inv step show ?thesis
    by (intro auth_inv_frame[of C s s'])
      (auto simp: xdb_inv_def packFileAuthIndex_def intro: frame_key frame_under)
next
  case True
  from step have run: "exec C E c s = Some s'" by (rule txE)
  with True inv show ?thesis
    by (cases c) (auto simp: xdb_inv_def commit_Some ConfirmFileAuthApplication_def
        RejectFileAuthApplication_def
        intro: PublishFileAuthApplication_keeps setFileAuthConfirmStatus_keeps)
qed

lemma ns_inv_step:
  assumes inv: "xdb_inv C s" and step: "tx C E s c s'"
  shows "ns_inv C s'"
proof (cases "FileNsIndex \<in> touched c")
  case False
  then have "FileNsListIndex \<notin> touched c" by (cases c) auto
  with False inv step show ?thesis
    by (intro ns_inv_frame[of C s s'])
      (auto simp: xdb_inv_def packFileNsIndex_def intro: frame_key frame_under)
next
  case True
  from step obtain run: "exec C E c s = Some s'" and "well_named c" by (rule txE)
  with True inv show ?thesis
    by (cases c) (auto simp: xdb_inv_def commit_Some well_named_def
        intro: AddFileNs_keeps_ns UpdateNsReplica_keeps_ns PublishFile_keeps_ns)
qed

lemma file_inv_step:
  assumes inv: "xdb_inv C s" and step: "tx C E s c s'"
  shows "file_inv C s'"
proof (cases "(\<exists>a. c = CPublishFile a) \<or> named_file c \<noteq> None")
  case False
  then have "x \<notin> touched c" if "x \<in> file_lists" for x
    using that by (cases c) (auto simp: file_lists_def)
  with False inv step show ?thesis
    by (intro file_inv_frame[of C s s']) (auto simp: xdb_inv_def intro: frame_plain frame_under)
next
  case True
  from step obtain run: "exec C E c s = Some s'" and named: "well_named c" by (rule txE)
  from inv have fi: "file_inv C s" by (simp add: xdb_inv_def)
  show ?thesis
  proof (cases c)
    case (CPublishFile a)
    with run obtain r where "PublishFile C E a s = (Inr r, s')" by (auto simp: commit_Some)
    with fi show ?thesis
      by (rule PublishFile_keeps_files) (use named CPublishFile in \<open>simp add: well_named_def\<close>)
  next
    case (CUpdateFilePublicSliceMeta a)
    with run obtain r where "UpdateFilePublicSliceMeta C E a s = (Inr r, s')" by (auto simp: commit_Some)
    with fi show ?thesis
      by (rule UpdateFilePublicSliceMeta_keeps_files)
        (use named CUpdateFilePublicSliceMeta in \<open>simp add: well_named_def\<close>)
  next
    case (CUpdateFileExpireTime a)
    with run obtain r where "UpdateFileExpireTime C E a s = (Inr r, s')" by (auto simp: commit_Some)
    with fi show ?thesis
      by (rule UpdateFileExpireTime_keeps_files)
        (use named CUpdateFileExpireTime in \<open>simp add: well_named_def\<close>)
  qed (use True in auto)
qed

lemma xdb_inv_step: "xdb_inv C s \<Longrightarrow> tx C E s c s' \<Longrightarrow> xdb_inv C s'"
  unfolding xdb_inv_def[of C s']
  using node_inv_step file_inv_step ns_inv_step challenge_inv_step auth_inv_step by blast

lemma reachable_inv: "reachable C E s \<Longrightarrow> xdb_inv C s"
  by (induction rule: reachable.induct) (auto intro: xdb_inv_start xdb_inv_step)

lemma later_inv: "later C E s s' \<Longrightarrow> xdb_inv C s \<Longrightarrow> xdb_inv C s'"
  by (induction rule: later.induct) (auto intro: xdb_inv_step)

end

section \<open>Life of the stored objects\<close>

definition challenge_evolves :: "Challenge \<Rightarrow> Challenge \<Rightarrow> bool" where
  "challenge_evolves x y \<longleftrightarrow> y = x \<or>
     (ch_Status x = ChallengeToProve \<and>
      (\<exists>t st. st \<in> {ChallengeProved, ChallengeFailed} \<and> y = x\<lparr>ch_AnswerTime := t, ch_Status := st\<rparr>))"

definition auth_evolves :: "FileAuthApplication \<Rightarrow> FileAuthApplication \<Rightarrow> bool" where
  "auth_evolves x y \<longleftrightarrow> y = x \<or>
     (fa_Status x = FileAuthUnapproved \<and>
      ((\<exists>t e k. y = x\<lparr>fa_ApprovalTime := t, fa_Status := FileAuthApproved, fa_ExpireTime := e,
          fa_AuthKey := k\<rparr>) \<or>
       (\<exists>t w. y = x\<lparr>fa_ApprovalTime := t, fa_Status := FileAuthRejected, fa_RejectReason := w\<rparr>)))"

text \<open>The call that an owner signs to change a file.\<close>

definition owner_call :: "env \<Rightarrow> call \<Rightarrow> File \<Rightarrow> File \<Rightarrow> bool" where
  "owner_call E c f g \<longleftrightarrow>
     (\<exists>opt. c = CUpdateFilePublicSliceMeta (Got opt) \<and> ufo_FileID opt = f_ID f \<and>
        signed_by E (ufo_Signature opt) (f_Owner f) (enc_UpdateFilePSMOptions opt) \<and>
        g = f\<lparr>f_Slices := ufo_Slices opt\<rparr>) \<or>
     (\<exists>opt. c = CUpdateFileExpireTime (Got opt) \<and> ueo_FileID opt = f_ID f \<and>
        signed_by E (ueo_Signature opt) (f_Owner f) (enc_UpdateExptimeOptions opt) \<and>
        f_ExpireTime f <s ueo_NewExpireTime opt \<and>
        \<not> f_ExpireTime f + FileRetainPeriod \<le>s ueo_CurrentTime opt \<and>
        g = f\<lparr>f_ExpireTime := ueo_NewExpireTime opt\<rparr>)"

context chain begin

lemma challenge_life:
  assumes inv: "xdb_inv C s" and step: "tx C E s c s'" and at: "challenge_at C s x"
  shows "\<exists>y. challenge_at C s' y \<and> challenge_evolves x y"
proof (cases "ChallengeIndex \<in> touched c")
  case False
  from inv have "file_inv C s" by (simp add: xdb_inv_def)
  from frame_key[OF this step False] at have "challenge_at C s' x"
    by (simp add: challenge_at_def packChallengeIndex_def)
  then show ?thesis by (auto simp: challenge_evolves_def)
next
  case True
  from inv have ci: "challenge_inv C s" by (simp add: xdb_inv_def)
  from step have run: "exec C E c s = Some s'" by (rule txE)
  from True consider (req) a r where "ChallengeRequest C E a s = (Inr r, s')"
    | (ans) a r where "ChallengeAnswer C E a s = (Inr r, s')"
    using run by (cases c) (auto simp: commit_Some)
  then show ?thesis
  proof cases
    case req
    then show ?thesis
    proof (rule ChallengeRequest_effect)
      fix opt :: ChallengeRequestOptions and d :: Challenge
      assume new: "get_object C s (packChallengeIndex (ch_ID d)) = None"
        and get: "get_object C s' = (\<lambda>k. if k = packChallengeIndex (ch_ID d)
            then Some (Doc (enc_Challenge d))
            else if k = packChallengeIndex4Owner d \<or> k = packChallengeIndex4Target d
            then Some (Raw (ch_ID d)) else get_object C s k)"
      have "ch_ID x \<noteq> ch_ID d" using at new by (auto simp: challenge_at_def)
      with at have "challenge_at C s' x" by (simp add: challenge_at_def get)
      then show ?thesis by (auto simp: challenge_evolves_def)
    qed
  next
    case ans
    then show ?thesis
    proof (rule ChallengeAnswer_effect)
      fix opt b fl and d :: Challenge and ok :: bool
      let ?y = "d\<lparr>ch_AnswerTime := cao_AnswerTime opt,
               ch_Status := (if ok then ChallengeProved else ChallengeFailed)\<rparr>"
      assume b: "get_object C s (packChallengeIndex (cao_ChallengeID opt)) = Some b"
        "unmarshal E dec_Challenge b = Some d"
        and st: "ch_Status d \<noteq> ChallengeProved" "ch_Status d \<noteq> ChallengeFailed"
        and get: "get_object C s' =
          (get_object C s)(packChallengeIndex (cao_ChallengeID opt) \<mapsto> Doc (enc_Challenge ?y))"
      note d = challenge_of_id[OF ci b]
      show ?thesis
      proof (cases "ch_ID x = cao_ChallengeID opt")
        case True
        with at d have "x = d" by (simp add: challenge_at_def)
        moreover have "ch_Status d = ChallengeToProve"
          using challenge_at_indexed(1)[OF ci d(2)] st by (auto simp: challenge_states_def)
        moreover have "challenge_at C s' ?y" using d(1) by (simp add: challenge_at_def get)
        ultimately show ?thesis unfolding challenge_evolves_def by fastforce
      next
        case False
        with at have "challenge_at C s' x" by (simp add: challenge_at_def get)
        then show ?thesis by (auto simp: challenge_evolves_def)
      qed
    qed
  qed
qed

lemma auth_life:
  assumes inv: "xdb_inv C s" and step: "tx C E s c s'" and at: "auth_at C s x"
  shows "\<exists>y. auth_at C s' y \<and> fa_ID y = fa_ID x \<and> auth_evolves x y"
proof (cases "FileAuthIndex \<in> touched c")
  case False
  from inv have "file_inv C s" by (simp add: xdb_inv_def)
  from frame_key[OF this step False] at have "auth_at C s' x"
    by (simp add: auth_at_def packFileAuthIndex_def)
  then show ?thesis by (auto simp: auth_evolves_def)
next
  case True
  from inv have ai: "auth_inv C s" by (simp add: xdb_inv_def)
  from step have run: "exec C E c s = Some s'" by (rule txE)
  from True consider (pub) a r where "PublishFileAuthApplication C E a s = (Inr r, s')"
    | (set) a b r where "setFileAuthConfirmStatus C E a b s = (Inr r, s')"
    using run by (cases c)
      (auto simp: commit_Some ConfirmFileAuthApplication_def RejectFileAuthApplication_def)
  then show ?thesis
  proof cases
    case pub
    then show ?thesis
    proof (rule PublishFileAuthApplication_effect)
      fix fa :: FileAuthApplication
      assume new: "get_object C s (packFileAuthIndex (fa_ID fa)) = None"
        and get: "get_object C s' = (\<lambda>k. if k \<in> (\<lambda>x. auth_key x fa) ` auth_lists
            then Some (Raw (fa_ID fa))
            else if k = packFileAuthIndex (fa_ID fa) then Some (Doc (enc_FileAuthApplication fa))
            else get_object C s k)"
      have "fa_ID x \<noteq> fa_ID fa" using at new by (auto simp: auth_at_def)
      moreover have "packFileAuthIndex (fa_ID x) \<notin> (\<lambda>x. auth_key x fa) ` auth_lists" by auto
      ultimately have "auth_at C s' x" using at by (simp add: auth_at_def get)
      then show ?thesis by (auto simp: auth_evolves_def)
    qed
  next
    case set
    then show ?thesis
    proof (rule setFileAuthConfirmStatus_effect)
      fix opt v and fa fb :: FileAuthApplication
      assume v: "get_object C s (packFileAuthIndex (cfo_ID opt)) = Some v"
          "unmarshal E dec_FileAuthApplication v = Some fa"
        and st: "fa_Status fa = FileAuthUnapproved"
        and fb: "fb = (if b
          then fa\<lparr>fa_ApprovalTime := cfo_CurrentTime opt, fa_Status := FileAuthApproved,
                  fa_ExpireTime := cfo_ExpireTime opt, fa_AuthKey := cfo_AuthKey opt\<rparr>
          else fa\<lparr>fa_ApprovalTime := cfo_CurrentTime opt, fa_Status := FileAuthRejected,
                  fa_RejectReason := cfo_RejectReason opt\<rparr>)"
        and get: "get_object C s' =
          (get_object C s)(packFileAuthIndex (fa_ID fa) \<mapsto> Doc (enc_FileAuthApplication fb))"
      note fa = auth_of_id[OF ai v]
      show ?thesis
      proof (cases "fa_ID x = fa_ID fa")
        case True
        with at fa have x: "x = fa" by (simp add: auth_at_def)
        have "auth_at C s' fb" by (simp add: auth_at_def get fb)
        moreover have "fa_ID fb = fa_ID x" by (simp add: x fb)
        moreover have "auth_evolves x fb"
        proof (cases b)
          case True
          then have "fb = x\<lparr>fa_ApprovalTime := cfo_CurrentTime opt, fa_Status := FileAuthApproved,
              fa_ExpireTime := cfo_ExpireTime opt, fa_AuthKey := cfo_AuthKey opt\<rparr>"
            by (simp add: x fb)
          with st x show ?thesis unfolding auth_evolves_def by blast
        next
          case False
          then have "fb = x\<lparr>fa_ApprovalTime := cfo_CurrentTime opt, fa_Status := FileAuthRejected,
              fa_RejectReason := cfo_RejectReason opt\<rparr>" by (simp add: x fb)
          with st x show ?thesis unfolding auth_evolves_def by blast
        qed
        ultimately show ?thesis by blast
      next
        case False
        with at have "auth_at C s' x" by (simp add: auth_at_def get)
        then show ?thesis by (auto simp: auth_evolves_def)
      qed
    qed
  qed
qed

lemma file_life:
  assumes inv: "xdb_inv C s" and step: "tx C E s c s'" and at: "file_at C s f"
  shows "file_at C s' f \<or> (\<exists>g. file_at C s' g \<and> owner_call E c f g)"
proof (cases "named_file c = Some (f_ID f)")
  case False
  with inv step at show ?thesis by (auto simp: file_at_def xdb_inv_def frame_plain)
next
  case True
  from inv have fi: "file_inv C s" by (simp add: xdb_inv_def)
  from at have id: "plain_id (f_ID f)" and stored: "get_object C s (f_ID f) = Some (Doc (enc_File f))"
    by (simp_all add: file_at_def)
  from step have run: "exec C E c s = Some s'" by (rule txE)
  from True consider (pub) opt r where "c = CPublishFile (Got opt)" "f_ID (pfo_File opt) = f_ID f"
      "PublishFile C E (Got opt) s = (Inr r, s')"
    | (psm) opt r where "c = CUpdateFilePublicSliceMeta (Got opt)" "ufo_FileID opt = f_ID f"
      "UpdateFilePublicSliceMeta C E (Got opt) s = (Inr r, s')"
    | (exp) opt r where "c = CUpdateFileExpireTime (Got opt)" "ueo_FileID opt = f_ID f"
      "UpdateFileExpireTime C E (Got opt) s = (Inr r, s')"
    using run by (cases c rule: named_file.cases) (auto simp: commit_Some)
  then show ?thesis
  proof cases
    case pub
    from pub(3) have False by (rule PublishFile_effect) (use stored pub(2) in auto)
    then show ?thesis ..
  next
    case psm
    from psm(3) show ?thesis
      by (rule UpdateFilePublicSliceMeta_effect)
        (use psm(1,2) stored id in \<open>auto simp: file_at_def owner_call_def\<close>)
  next
    case exp
    from exp(3) show ?thesis
      by (rule UpdateFileExpireTime_effect)
        (use exp(1,2) stored id in \<open>auto simp: file_at_def owner_call_def\<close>)
  qed
qed

lemma nonce_stays:
  assumes inv: "xdb_inv C s" and step: "tx C E s c s'"
    and used: "get_object C s (packNonceIndex i n) \<noteq> None"
  shows "get_object C s' (packNonceIndex i n) \<noteq> None"
proof (cases "NodeNonceIndex \<in> touched c")
  case False
  from inv have "file_inv C s" by (simp add: xdb_inv_def)
  from frame_key[OF this step False] used show ?thesis by (simp add: packNonceIndex_def)
next
  case True
  from step have run: "exec C E c s = Some s'" by (rule txE)
  with True obtain a on r where "setNodeOnlineStatus C E a on s = (Inr r, s')"
    by (cases c) (auto simp: commit_Some NodeOffline_def NodeOnline_def)
  then show ?thesis
    by (rule setNodeOnlineStatus_effect) (use used in \<open>auto simp: pack_defs\<close>)
qed

end

section \<open>Later states\<close>

lemma challenge_evolves_trans:
  "challenge_evolves x y \<Longrightarrow> challenge_evolves y z \<Longrightarrow> challenge_evolves x z"
  unfolding challenge_evolves_def by auto

lemma auth_evolves_trans: "auth_evolves x y \<Longrightarrow> auth_evolves y z \<Longrightarrow> auth_evolves x z"
  unfolding auth_evolves_def by (elim disjE conjE exE) auto

text \<open>The fields of a file that no call changes.\<close>

definition same_file :: "File \<Rightarrow> File \<Rightarrow> bool" where
  "same_file f g \<longleftrightarrow> g = f\<lparr>f_Slices := f_Slices g, f_ExpireTime := f_ExpireTime g\<rparr> \<and>
     f_ExpireTime f \<le>s f_ExpireTime g"

lemma same_file_trans: "same_file f g \<Longrightarrow> same_file g h \<Longrightarrow> same_file f h"
  unfolding same_file_def by (cases f; cases g; cases h) (auto simp: word_sle_eq)

lemma owner_call_same: "owner_call E c f g \<Longrightarrow> same_file f g"
  unfolding owner_call_def same_file_def by (auto simp: word_sle_eq word_sless_alt)

context chain begin

lemma challenge_later:
  assumes "later C E s s'" and "xdb_inv C s" and "challenge_at C s x"
  shows "\<exists>y. challenge_at C s' y \<and> challenge_evolves x y"
  using assms
proof (induction rule: later.induct)
  case (now s)
  then show ?case by (auto simp: challenge_evolves_def)
next
  case (next_tx s s' c s'')
  then obtain y where y: "challenge_at C s' y" "challenge_evolves x y" by blast
  from challenge_life[OF later_inv[OF next_tx.hyps(1) next_tx.prems(1)] next_tx.hyps(2) y(1)]
    challenge_evolves_trans[OF y(2)] show ?case by blast
qed

lemma auth_later:
  assumes "later C E s s'" and "xdb_inv C s" and "auth_at C s x"
  shows "\<exists>y. auth_at C s' y \<and> fa_ID y = fa_ID x \<and> auth_evolves x y"
  using assms
proof (induction rule: later.induct)
  case (now s)
  then show ?case by (auto simp: auth_evolves_def)
next
  case (next_tx s s' c s'')
  then obtain y where y: "auth_at C s' y" "fa_ID y = fa_ID x" "auth_evolves x y" by blast
  from auth_life[OF later_inv[OF next_tx.hyps(1) next_tx.prems(1)] next_tx.hyps(2) y(1)]
    auth_evolves_trans[OF y(3)] y(2) show ?case by metis
qed

lemma file_later:
  assumes "later C E s s'" and "xdb_inv C s" and "file_at C s f"
  shows "\<exists>g. file_at C s' g \<and> same_file f g"
  using assms
proof (induction rule: later.induct)
  case (now s)
  then show ?case by (auto simp: same_file_def word_sle_eq)
next
  case (next_tx s s' c s'')
  then obtain g where g: "file_at C s' g" "same_file f g" by blast
  from file_life[OF later_inv[OF next_tx.hyps(1) next_tx.prems(1)] next_tx.hyps(2) g(1)]
  show ?case using g(2) owner_call_same same_file_trans by blast
qed

lemma nonce_later:
  assumes "later C E s s'" and "xdb_inv C s" and "get_object C s (packNonceIndex i n) \<noteq> None"
  shows "get_object C s' (packNonceIndex i n) \<noteq> None"
  using assms
proof (induction rule: later.induct)
  case (next_tx s s' c s'')
  then show ?case using nonce_stays[OF later_inv] by blast
qed

lemma replay_refused:
  assumes "setNodeOnlineStatus C E (Got opt) on s = (Inr r, s1)" and "xdb_inv C s1"
    and "later C E s1 s2" and "noo_NodeID opt' = noo_NodeID opt" and "noo_Nonce opt' = noo_Nonce opt"
  shows "setNodeOnlineStatus C E (Got opt') on' s2 = (Inl (Errx ErrCodeInternal), s2)"
proof -
  have "get_object C s1 (packNonceIndex (noo_NodeID opt) (noo_Nonce opt)) \<noteq> None"
    by (rule setNodeOnlineStatus_effect[OF assms(1)]) simp
  from nonce_later[OF assms(3,2) this] obtain v where
    "get_object C s2 (packNonceIndex (noo_NodeID opt) (noo_Nonce opt)) = Some v" by blast
  then show ?thesis
    by (simp add: setNodeOnlineStatus_def checkAndSetNonce_def bnd_got assms(4,5))
      (simp add: bnd_def rewrap_def absent_def)
qed

end

end
