(* ===== verification/XdbProperties.thy ===== *)
theory XdbProperties
  imports XdbContract
begin

text \<open>
  What the XuperDB contract promises, over any ledger that satisfies the laws of the locale
  \<open>chain\<close>. Each property is followed by a run of the contract on the reference ledger to which it
  applies.
\<close>

section \<open>Sample calls\<close>

definition demo_key :: bytes where
  "demo_key = replicate 64 CHR ''k''"

definition demo_node :: Node where
  "demo_node = \<lparr>nd_ID = hex demo_key, nd_Name = ''n1'', nd_Address = ''a:1'', nd_Online = True,
     nd_RegTime = 5, nd_UpdateAt = 5\<rparr>"

definition demo_add :: AddNodeOptions where
  "demo_add = \<lparr>ano_Node = demo_node, ano_Signature = demo_key\<rparr>"

definition demo_ns :: Namespace where
  "demo_ns = \<lparr>ns_Name = ''ns'', ns_Description = [], ns_Owner = demo_key, ns_Replica = 1,
     ns_FileTotalNum = 0, ns_CreateTime = 1, ns_UpdateTime = 1\<rparr>"

definition demo_file :: File where
  "demo_file = \<lparr>f_ID = ''f1'', f_Name = ''n'', f_Description = [], f_Namespace = ''ns'',
     f_Owner = demo_key, f_Length = 1, f_MerkleRoot = [],
     f_Slices = [\<lparr>sm_ID = ''s1'', sm_CipherHash = [], sm_Length = 1, sm_NodeID = hex demo_key,
        sm_StorIndex = ''x'', sm_SliceIdx = 0\<rparr>],
     f_Structure = [], f_PublishTime = 10, f_ExpireTime = 20, f_PdpPubkey = [], f_RandU = [],
     f_RandV = [], f_Ext = []\<rparr>"

definition demo_publish :: PublishFileOptions where
  "demo_publish = \<lparr>pfo_File = demo_file, pfo_Signature = demo_key\<rparr>"

definition demo_request :: ChallengeRequestOptions where
  "demo_request = \<lparr>cro_ChallengeID = ''c1'', cro_FileOwner = demo_key, cro_TargetNode = hex demo_key,
     cro_FileID = ''f1'', cro_SliceIDs = [], cro_SliceStorIndexes = [], cro_ChallengeTime = 30,
     cro_ChallengeAlgorithm = ''Pairing'', cro_Indices = [], cro_Vs = [], cro_Round = 0,
     cro_RandThisRound = [], cro_SliceID = [], cro_SliceStorIndex = [], cro_Ranges = [],
     cro_HashOfProof = [], cro_Signature = demo_key\<rparr>"

definition demo_answer :: ChallengeAnswerOptions where
  "demo_answer = \<lparr>cao_ChallengeID = ''c1'', cao_Sigma = [], cao_Mu = [], cao_AnswerTime = 40,
     cao_Proof = [], cao_Signature = demo_key\<rparr>"

definition demo_apply :: PublishFileAuthOptions where
  "demo_apply = \<lparr>pao_FileAuthApplication = \<lparr>fa_ID = ''a1'', fa_FileID = ''f1'', fa_Name = [],
     fa_Description = [], fa_Applier = demo_key, fa_Authorizer = demo_key, fa_AuthKey = [],
     fa_Status = [], fa_RejectReason = [], fa_CreateTime = 1, fa_ApprovalTime = 0, fa_ExpireTime = 0,
     fa_Ext = []\<rparr>, pao_Signature = demo_key\<rparr>"

definition demo_offline :: NodeOperateOptions where
  "demo_offline = \<lparr>noo_NodeID = hex demo_key, noo_Nonce = 7, noo_Signature = demo_key\<rparr>"

lemma length_demo_key [simp]: "length demo_key = 64"
  by (simp add: demo_key_def)

lemma signed_by_mem [simp]: "signed_by mem_env sg pk (JObj kvs) \<longleftrightarrow> length pk = 64 \<and> length sg = 64"
  by (simp add: signed_by_def GetSigMessage_def)

text \<open>Running a method step by step on the reference ledger.\<close>

lemma run_get_arg [simp]: "bnd (get_arg e (Got x)) f s = f x s"
  by (simp add: act_defs)

lemma run_need [simp]: "bnd (need e (Some y)) f s = f y s"
  by (simp add: act_defs)

lemma run_require [simp]: "bnd (require e b) f s = (if b then f () s else (Inl e, s))"
  by (simp add: act_defs)

lemma run_absent [simp]: "get_object C s k = None \<Longrightarrow> bnd (absent C e k) f s = f () s"
  by (simp add: act_defs)

lemma run_get_obj [simp]: "get_object C s k = Some v \<Longrightarrow> bnd (get_obj C e k) f s = f v s"
  by (simp add: act_defs)

lemma run_put_obj [simp]: "bnd (put_obj mem_chain k v) f s = f () (store_put s k v)"
  by (simp add: act_defs)

lemma run_put_last [simp]: "put_obj mem_chain k v s = (Inr (), store_put s k v)"
  by (simp add: act_defs)

lemma run_lift [simp]: "bnd (lift (Inr x)) f s = f x s"
  by (simp add: act_defs)

lemma run_checkSign [simp]:
  "length pk = 64 \<Longrightarrow> length sg = 64 \<Longrightarrow> bnd (checkSign mem_env sg pk m) f s = f () s"
  by (simp add: checkSign_def PublicKeyLength_def SignatureLength_def act_defs)

lemma run_checkSigned [simp]:
  "length pk = 64 \<Longrightarrow> length sg = 64 \<Longrightarrow> bnd (checkSigned mem_env sg pk (JObj kvs)) f s = f () s"
  by (simp add: checkSigned_def GetSigMessage_def checkSign_def PublicKeyLength_def
      SignatureLength_def act_defs)

lemma run_rewrap [simp]: "m s = (Inr x, s') \<Longrightarrow> rewrap e m s = (Inr x, s')"
  by (simp add: rewrap_def)

lemma run_bnd_rewrap [simp]: "m s = (Inr x, s') \<Longrightarrow> bnd (rewrap e m) f s = f x s'"
  by (simp add: rewrap_def bnd_def)

lemma run_ret [simp]: "ret x s = (Inr x, s)"
  by (simp add: ret_def)

lemma commit_Inr: "m s = (Inr r, s') \<Longrightarrow> commit m s = Some s'"
  by (simp add: commit_def)

section \<open>A run of the contract\<close>

lemma demo_fields [simp]:
  "nd_ID demo_node = hex demo_key" "ano_Node demo_add = demo_node" "ano_Signature demo_add = demo_key"
  "f_ID demo_file = ''f1''" "f_Owner demo_file = demo_key" "f_Namespace demo_file = ''ns''"
  "f_Name demo_file = ''n''" "f_PublishTime demo_file = 10" "f_ExpireTime demo_file = 20"
  "f_Slices demo_file \<noteq> []" "pfo_File demo_publish = demo_file" "pfo_Signature demo_publish = demo_key"
  "ns_Owner demo_ns = demo_key" "ns_Name demo_ns = ''ns''"
  by (simp_all add: demo_node_def demo_add_def demo_file_def demo_publish_def demo_ns_def)

lemma plain_f1 [simp]: "plain_id ''f1''"
  by (simp add: plain_id_def)

text \<open>A node is registered, a namespace and a file are added, and a challenge is put and answered.\<close>

definition demo1 :: store where
  "demo1 = store_put (store_put empty_store (packNodeIndex (hex demo_key)) (Doc (enc_Node demo_node)))
     (packNodeListIndex demo_node) (Doc (enc_Node demo_node))"

lemma demo1: "AddNode mem_chain mem_env (Got demo_add) empty_store = (Inr ''added'', demo1)"
  by (simp add: AddNode_def enc_AddNodeOptions_def Let_def demo1_def)

definition demo_addns :: AddNsOptions where
  "demo_addns = \<lparr>aso_Namespace = demo_ns, aso_Signature = demo_key\<rparr>"

definition demo2 :: store where
  "demo2 = store_put (store_put demo1 (packFileNsIndex demo_key ''ns'') (Doc (enc_Namespace demo_ns)))
     (ns_list_key demo_ns) (Doc (enc_Namespace demo_ns))"

lemma demo1_get [simp]:
  "store_get demo1 k = (if k = packNodeListIndex demo_node \<or> k = packNodeIndex (hex demo_key)
     then Some (Doc (enc_Node demo_node)) else None)"
  by (simp add: demo1_def)

lemma demo2: "AddFileNs mem_chain mem_env (Got demo_addns) demo1 = (Inr ''OK'', demo2)"
  by (simp add: AddFileNs_def enc_AddNsOptions_def Let_def demo2_def demo_addns_def
      ns_list_key_def) (simp add: pack_defs)

lemma demo2_get [simp]:
  "store_get demo2 k = (if k = ns_list_key demo_ns \<or> k = packFileNsIndex demo_key ''ns''
     then Some (Doc (enc_Namespace demo_ns)) else store_get demo1 k)"
  by (simp add: demo2_def)

lemma demo3_ex: "\<exists>s. PublishFile mem_chain mem_env (Got demo_publish) demo2 = (Inr ''Published'', s)"
proof -
  have "\<exists>s'. put_all mem_chain kvs s = (Inr (), s')" for kvs s by (rule mem.put_all_total)
  then obtain g where g: "\<And>kvs s. put_all mem_chain kvs s = (Inr (), g kvs s)" by metis
  have free: "check_name_free mem_chain mem_env (packFileNameIndex demo_key ''ns'' ''n'') t demo2 =
      (Inr (), demo2)" for t
    by (simp add: check_name_free_def pack_defs ns_list_key_def)
  have run: "bnd (check_name_free mem_chain mem_env (packFileNameIndex demo_key ''ns'' ''n'') t) f demo2 =
      f () demo2" for t and f :: "unit \<Rightarrow> (store, string) act"
    by (simp add: bnd_def free)
  have "bnd (put_all mem_chain kvs) f s = f () (g kvs s)" for kvs and f :: "unit \<Rightarrow> (store, string) act" and s
    by (simp add: bnd_def g)
  with run show ?thesis
    by (simp add: PublishFile_def enc_PublishFileOptions_def Let_def pack_defs ns_list_key_def)
qed

definition demo3 :: store where
  "demo3 = snd (PublishFile mem_chain mem_env (Got demo_publish) demo2)"

lemma demo3: "PublishFile mem_chain mem_env (Got demo_publish) demo2 = (Inr ''Published'', demo3)"
  using demo3_ex by (auto simp: demo3_def)

lemma demo3_file [simp]: "store_get demo3 ''f1'' = Some (Doc (enc_File demo_file))"
  using mem.PublishFile_stores(1)[OF demo3] by (simp add: file_at_def)

lemma exec_reach: "reachable C E s \<Longrightarrow> exec C E c s = Some s' \<Longrightarrow> well_named c \<Longrightarrow> reachable C E s'"
  by (rule reachable.step) (auto intro: tx.intros)

lemma reach0: "reachable mem_chain mem_env empty_store"
  by (rule reachable.start) simp

lemma tx1: "tx mem_chain mem_env empty_store (CAddNode (Got demo_add)) demo1"
  by (rule tx.intros) (simp_all add: commit_def demo1 well_named_def)

lemma tx2: "tx mem_chain mem_env demo1 (CAddFileNs (Got demo_addns)) demo2"
  by (rule tx.intros) (simp_all add: commit_def demo2 well_named_def)

lemma tx3: "tx mem_chain mem_env demo2 (CPublishFile (Got demo_publish)) demo3"
  by (rule tx.intros) (simp_all add: commit_def demo3 well_named_def)

lemmas reach3 = reach0 [THEN reachable.step, OF tx1, THEN reachable.step, OF tx2,
    THEN reachable.step, OF tx3]

definition demo4 :: store where
  "demo4 = snd (ChallengeRequest mem_chain mem_env (Got demo_request) demo3)"

lemma demo3_none [simp]: "store_get demo3 (packChallengeIndex i) = None"
proof -
  have "file_inv mem_chain demo2"
    using mem.reachable_inv[OF reach0[THEN reachable.step, OF tx1, THEN reachable.step, OF tx2]]
    by (simp add: xdb_inv_def)
  from mem.frame_key[OF this tx3, of ChallengeIndex "[i]"] show ?thesis
    by (simp add: packChallengeIndex_def) (simp add: pack_defs ns_list_key_def)
qed

lemma demo4: "ChallengeRequest mem_chain mem_env (Got demo_request) demo3 = (Inr ''requested'', demo4)"
proof -
  have "\<exists>c. make_challenge demo_request = Some c"
    by (simp add: make_challenge_def demo_request_def PairingChallengeAlgorithm_def)
  then show ?thesis
    by (auto simp: demo4_def ChallengeRequest_def demo3_none Let_def demo_request_def
        enc_ChallengeRequestOptions_def)
qed

definition demo_challenge :: Challenge where
  "demo_challenge = the (make_challenge demo_request)"

lemma tx4: "tx mem_chain mem_env demo3 (CChallengeRequest (Got demo_request)) demo4"
  by (rule tx.intros) (simp_all add: commit_def demo4 well_named_def)

lemmas reach4 = reach3 [THEN reachable.step, OF tx4]

lemma demo4_challenge: "challenge_at mem_chain demo4 demo_challenge"
  using demo4
proof (rule mem.ChallengeRequest_effect)
  fix opt :: ChallengeRequestOptions and c :: Challenge
  assume "Got demo_request = Got opt" "make_challenge opt = Some c"
    and "get_object mem_chain demo4 = (\<lambda>k. if k = packChallengeIndex (ch_ID c) then Some (Doc (enc_Challenge c))
        else if k = packChallengeIndex4Owner c \<or> k = packChallengeIndex4Target c
        then Some (Raw (ch_ID c)) else get_object mem_chain demo3 k)"
  then show ?thesis by (auto simp: challenge_at_def demo_challenge_def fun_eq_iff)
qed

lemma demo_challenge_fields [simp]:
  "ch_ID demo_challenge = ''c1''" "ch_Status demo_challenge = ''ToProve''"
  "ch_TargetNode demo_challenge = hex demo_key" "ch_FileID demo_challenge = ''f1''"
  "ch_ChallengeAlgorithm demo_challenge = PairingChallengeAlgorithm"
  by (simp_all add: demo_challenge_def make_challenge_def demo_request_def PairingChallengeAlgorithm_def)

definition demo5 :: store where
  "demo5 = snd (ChallengeAnswer mem_chain mem_env (Got demo_answer) demo4)"

lemma demo4_file: "store_get demo4 ''f1'' = Some (Doc (enc_File demo_file))"
proof -
  have "file_inv mem_chain demo3" using mem.reachable_inv[OF reach3] by (simp add: xdb_inv_def)
  from mem.frame_plain[OF this tx4, of "''f1''"] show ?thesis by simp
qed

lemma demo5: "ChallengeAnswer mem_chain mem_env (Got demo_answer) demo4 = (Inr ''answered'', demo5)"
proof -
  have "store_get demo4 (packChallengeIndex ''c1'') = Some (Doc (enc_Challenge demo_challenge))"
    using demo4_challenge by (simp add: challenge_at_def)
  then show ?thesis
    by (simp add: demo5_def ChallengeAnswer_def Let_def demo_answer_def enc_ChallengeAnswerOptions_def
        GetSigMessage_def demo4_file verify_answer_def)
qed

lemma tx5: "tx mem_chain mem_env demo4 (CChallengeAnswer (Got demo_answer)) demo5"
  by (rule tx.intros) (simp_all add: commit_def demo5 well_named_def)

lemmas reach5 = reach4 [THEN reachable.step, OF tx5]

text \<open>A second file of the same name, published after the first one's retention period.\<close>

definition demo_republish :: PublishFileOptions where
  "demo_republish = \<lparr>pfo_File = demo_file\<lparr>f_ID := ''f2'', f_PublishTime := 20 + FileRetainPeriod\<rparr>,
     pfo_Signature = demo_key\<rparr>"

lemma demo_republish: "\<exists>r s. PublishFile mem_chain mem_env (Got demo_republish) demo3 = (Inr r, s)"
proof -
  have fi: "file_inv mem_chain demo2"
    using mem.reachable_inv[OF reach0[THEN reachable.step, OF tx1, THEN reachable.step, OF tx2]]
    by (simp add: xdb_inv_def)
  have new: "store_get demo3 ''f2'' = None"
    using mem.frame_plain[OF fi tx3, of "''f2''"] by (simp add: plain_id_def pack_defs ns_list_key_def key_def)
  have name: "store_get demo3 (packFileNameIndex demo_key ''ns'' ''n'') = Some (Raw ''f1'')"
    using mem.PublishFile_stores(2)[OF demo3, of FilenameIndex] by (simp add: listed_def file_key_def)
  have "ns_inv mem_chain demo3" using mem.reachable_inv[OF reach3] by (simp add: xdb_inv_def)
  moreover obtain v where ns: "store_get demo3 (packFileNsIndex demo_key ''ns'') = Some v"
    by (rule mem.PublishFile_effect[OF demo3]) (use mem.not_slice_key(4) in \<open>auto dest: spec\<close>)
  ultimately obtain n where n: "v = Doc (enc_Namespace n)"
    using ns_invD(1)[of mem_chain demo3 demo_key "''ns''" v] by auto
  have free: "bnd (check_name_free mem_chain mem_env (packFileNameIndex demo_key ''ns'' ''n'')
      (20 + FileRetainPeriod)) f demo3 = f () demo3" for f :: "unit \<Rightarrow> (store, string) act"
    by (simp add: check_name_free_def name getFileByID_def act_defs word_sless_alt)
  obtain g where g: "\<And>kvs s. put_all mem_chain kvs s = (Inr (), g kvs s)"
    using mem.put_all_total by metis
  have "bnd (put_all mem_chain kvs) f s = f () (g kvs s)" for kvs and f :: "unit \<Rightarrow> (store, string) act" and s
    by (simp add: bnd_def g)
  with new ns n free show ?thesis
    by (simp add: PublishFile_def enc_PublishFileOptions_def Let_def demo_republish_def)
qed

text \<open>An application and its approval; a node taken offline.\<close>

definition demo_fa :: FileAuthApplication where
  "demo_fa = (pao_FileAuthApplication demo_apply)\<lparr>fa_Status := FileAuthUnapproved\<rparr>"

definition demo_confirm :: ConfirmFileAuthOptions where
  "demo_confirm = \<lparr>cfo_ID = ''a1'', cfo_AuthKey = [], cfo_RejectReason = [], cfo_CurrentTime = 3,
     cfo_ExpireTime = 9, cfo_Signature = demo_key\<rparr>"

definition demo6 :: store where
  "demo6 = snd (PublishFileAuthApplication mem_chain mem_env (Got demo_apply) empty_store)"

lemma demo6: "PublishFileAuthApplication mem_chain mem_env (Got demo_apply) empty_store = (Inr ''OK'', demo6)"
  by (simp add: demo6_def PublishFileAuthApplication_def demo_apply_def enc_PublishFileAuthOptions_def
      Let_def)

lemma demo6_auth: "auth_at mem_chain demo6 demo_fa"
  using demo6
proof (rule mem.PublishFileAuthApplication_effect)
  fix opt :: PublishFileAuthOptions and fa
  assume "Got demo_apply = Got opt"
    and "fa = (pao_FileAuthApplication opt)\<lparr>fa_Status := FileAuthUnapproved\<rparr>"
    and get: "get_object mem_chain demo6 = (\<lambda>k. if k \<in> (\<lambda>x. auth_key x fa) ` auth_lists
        then Some (Raw (fa_ID fa))
        else if k = packFileAuthIndex (fa_ID fa) then Some (Doc (enc_FileAuthApplication fa))
        else get_object mem_chain empty_store k)"
  then have fa: "fa = demo_fa" by (simp add: demo_fa_def)
  have "packFileAuthIndex (fa_ID fa) \<notin> (\<lambda>x. auth_key x fa) ` auth_lists" by auto
  then show ?thesis using fun_cong[OF get, of "packFileAuthIndex (fa_ID fa)"]
    by (simp add: auth_at_def fa)
qed

lemma demo_fa_fields [simp]: "fa_ID demo_fa = ''a1''" "fa_Authorizer demo_fa = demo_key"
  "fa_Status demo_fa = ''Unapproved''"
  by (simp_all add: demo_fa_def demo_apply_def)

definition demo7 :: store where
  "demo7 = snd (ConfirmFileAuthApplication mem_chain mem_env (Got demo_confirm) demo6)"

lemma demo7: "ConfirmFileAuthApplication mem_chain mem_env (Got demo_confirm) demo6 = (Inr ''OK'', demo7)"
proof -
  have "store_get demo6 (packFileAuthIndex ''a1'') = Some (Doc (enc_FileAuthApplication demo_fa))"
    using demo6_auth by (simp add: auth_at_def)
  then have "bnd (getFileAuthByID mem_chain mem_env ''a1'') f demo6 = f demo_fa demo6"
    for f :: "FileAuthApplication \<Rightarrow> (store, string) act"
    by (simp add: getFileAuthByID_def act_defs)
  then show ?thesis
    by (simp add: demo7_def ConfirmFileAuthApplication_def setFileAuthConfirmStatus_def demo_confirm_def
        enc_ConfirmFileAuthOptions_def Let_def)
qed

lemma tx6: "tx mem_chain mem_env empty_store (CPublishFileAuth (Got demo_apply)) demo6"
  by (rule tx.intros) (simp_all add: commit_def demo6 well_named_def)

lemma tx7: "tx mem_chain mem_env demo6 (CConfirmFileAuth (Got demo_confirm)) demo7"
  by (rule tx.intros) (simp_all add: commit_def demo7 well_named_def)

definition demo8 :: store where
  "demo8 = snd (NodeOffline mem_chain mem_env (Got demo_offline) demo1)"

lemma demo8: "NodeOffline mem_chain mem_env (Got demo_offline) demo1 = (Inr ''OK'', demo8)"
proof -
  have "store_get demo1 (packNonceIndex i n) = None" for i n by (simp add: pack_defs)
  then have "checkAndSetNonce mem_chain i n demo1 =
      (Inr (), store_put demo1 (packNonceIndex i n) (Raw (FormatInt n)))" for i n
    by (simp add: checkAndSetNonce_def)
  then show ?thesis
    by (simp add: demo8_def NodeOffline_def setNodeOnlineStatus_def demo_offline_def
        enc_NodeOperateOptions_def Let_def) (simp add: pack_defs Let_def)
qed

lemma tx8: "tx mem_chain mem_env demo1 (CNodeOffline (Got demo_offline)) demo8"
  by (rule tx.intros) (simp_all add: commit_def demo8 well_named_def)

text \<open>An environment that reads every proof as an answer with one empty range hash.\<close>

definition demo_env :: env where
  "demo_env = mem_env\<lparr>parse_json := (\<lambda>_. Some (JObj [(''RangeHashes'', JArr [JStr []]), (''Timestamp'', JNum 0)]))\<rparr>"

definition demo_merkle :: Challenge where
  "demo_merkle = demo_challenge\<lparr>ch_ChallengeAlgorithm := MerkleChallengeAlgorithm,
     ch_HashOfProof := sha256 mem_env (FormatInt 0)\<rparr>"

definition demo9 :: store where
  "demo9 = store_put (store_put empty_store ''f1'' (Doc (enc_File demo_file))) (packChallengeIndex ''c1'')
     (Doc (enc_Challenge demo_merkle))"

section \<open>Properties of the contract\<close>







text \<open>
  C4: A challenge is proved by the right answer only. When a call settles a Merkle challenge as
  proved, the challenge was still open, the answer is signed with the key that the challenge's
  target node stands for, and SHA-256 of the value calculated from the Merkle root of the answer's
  range hashes and its timestamp is the hash that the challenge committed to.
\<close>
theorem merkle_challenge_proved_by_answer:
  assumes "chain C" and "ChallengeAnswer C E (Got opt) s = (Inr ''answered'', s')"
    and "get_object C s (packChallengeIndex (cao_ChallengeID opt)) = Some (Doc (enc_Challenge c))"
    and "ch_ChallengeAlgorithm c = MerkleChallengeAlgorithm"
  shows "ch_Status c \<noteq> ChallengeProved \<and> ch_Status c \<noteq> ChallengeFailed \<and>
    (\<exists>pk. hexDecode (ch_TargetNode c) = Some pk \<and>
       signed_by E (cao_Signature opt) pk (enc_ChallengeAnswerOptions opt)) \<and>
    (\<exists>aopt root. unmarshal E dec_AnswerCalculateOptions (Raw (cao_Proof opt)) = Some aopt \<and>
       GetMerkleRoot E (aco_RangeHashes aopt) = Inr root \<and>
       sha256 E (Calculate E root (aco_Timestamp aopt)) = ch_HashOfProof c) \<and>
    get_object C s' (packChallengeIndex (cao_ChallengeID opt)) =
      Some (Doc (enc_Challenge (c\<lparr>ch_AnswerTime := cao_AnswerTime opt, ch_Status := ChallengeProved\<rparr>)))"
proof (rule chain.ChallengeAnswer_effect[OF assms(1,2)])
  fix opt' :: ChallengeAnswerOptions and b pk fb fl and d :: Challenge and ok
  assume a: "Got opt = Got opt'"
    and b: "get_object C s (packChallengeIndex (cao_ChallengeID opt')) = Some b"
      "unmarshal E dec_Challenge b = Some d"
    and st: "ch_Status d \<noteq> ChallengeProved" "ch_Status d \<noteq> ChallengeFailed"
    and pk: "hexDecode (ch_TargetNode d) = Some pk"
      "signed_by E (cao_Signature opt') pk (enc_ChallengeAnswerOptions opt')"
    and v: "verify_answer E opt' d fl = Inr ok"
    and get: "get_object C s' = (get_object C s)(packChallengeIndex (cao_ChallengeID opt') \<mapsto>
          Doc (enc_Challenge (d\<lparr>ch_AnswerTime := cao_AnswerTime opt',
               ch_Status := (if ok then ChallengeProved else ChallengeFailed)\<rparr>)))"
    and r: "''answered'' = (if ok then ''answered'' else ''verification failed'')"
  have d: "opt' = opt" "d = c" and ok: "ok" using a b r assms(3) by (auto split: if_splits)
  with v assms(4) obtain aopt root where
    "unmarshal E dec_AnswerCalculateOptions (Raw (cao_Proof opt)) = Some aopt"
    "GetMerkleRoot E (aco_RangeHashes aopt) = Inr root"
    "sha256 E (Calculate E root (aco_Timestamp aopt)) = ch_HashOfProof c"
    by (auto simp: verify_answer_def MerkleChallengeAlgorithm_def PairingChallengeAlgorithm_def Let_def
        split: option.splits sum.splits)
  with st pk get ok show ?thesis unfolding d by simp
qed

lemma merkle_challenge_proved_by_answer_witness:
  "\<exists>s'. get_object mem_chain s' (packChallengeIndex ''c1'') =
     Some (Doc (enc_Challenge (demo_merkle\<lparr>ch_AnswerTime := 40, ch_Status := ChallengeProved\<rparr>)))"
proof -
  have get: "store_get demo9 (packChallengeIndex ''c1'') = Some (Doc (enc_Challenge demo_merkle))"
    "store_get demo9 ''f1'' = Some (Doc (enc_File demo_file))"
    by (simp_all add: demo9_def pack_defs key_def)
  have fields: "ch_Status demo_merkle = ''ToProve''" "ch_TargetNode demo_merkle = hex demo_key"
    "ch_FileID demo_merkle = ''f1''" "ch_ChallengeAlgorithm demo_merkle = MerkleChallengeAlgorithm"
    "ch_HashOfProof demo_merkle = sha256 mem_env (FormatInt 0)"
    by (simp_all add: demo_merkle_def)
  have aopt: "unmarshal demo_env dec_AnswerCalculateOptions b =
      Some \<lparr>aco_RangeHashes = [Some []], aco_Timestamp = 0\<rparr>" if "b = Raw []" for b
    by (simp add: that unmarshal_def demo_env_def dec_AnswerCalculateOptions_def dec_struct_def fld_def
        dec_mnode_def in_int64_def)
  have root: "GetMerkleRoot demo_env [Some []] = Inr (Some [])"
    by (simp add: GetMerkleRoot_tree) (simp add: depth_def nextPowerOfTwo_def log2_floor.simps padded_def)
  have sign: "bnd (checkSign demo_env demo_key demo_key m) f s = f () s"
    for m and f :: "unit \<Rightarrow> (store, string) act" and s
    by (simp add: checkSign_def PublicKeyLength_def SignatureLength_def act_defs demo_env_def mem_env_def)
  have v: "verify_answer demo_env demo_answer demo_merkle demo_file = Inr True"
    by (simp add: verify_answer_def fields PairingChallengeAlgorithm_def MerkleChallengeAlgorithm_def
        demo_answer_def aopt root Calculate_def Let_def)
      (simp add: demo_env_def mem_env_def)
  obtain s' where "ChallengeAnswer mem_chain demo_env (Got demo_answer) demo9 = (Inr ''answered'', s')"
    using v by (simp add: ChallengeAnswer_def Let_def demo_answer_def get fields sign
        enc_ChallengeAnswerOptions_def GetSigMessage_def)
  from merkle_challenge_proved_by_answer[OF mem.chain_axioms this, of demo_merkle] show ?thesis
    using get(1) fields(4) by (auto simp: demo_answer_def)
qed

text \<open>
  A file authorization is decided once. In every later state the application is stored under
  its identifier with the applicant, authorizer and file it was made with; it has changed at most
  once, from \<open>Unapproved\<close> to \<open>Approved\<close> (with approval time, expiry time and key) or to
  \<open>Rejected\<close> (with approval time and reason).
\<close>
lemma authorization_decided_once:
  assumes "chain C" and "reachable C E s" and "later C E s s'" and "auth_at C s x"
  shows "\<exists>y. auth_at C s' y \<and> fa_ID y = fa_ID x \<and> auth_evolves x y"
  by (rule chain.auth_later[OF assms(1,3) chain.reachable_inv[OF assms(1,2)] assms(4)])

lemma authorization_decided_once_witness:
  "\<exists>y. auth_at mem_chain demo7 y \<and> fa_ID y = ''a1'' \<and> auth_evolves demo_fa y"
  using authorization_decided_once[OF mem.chain_axioms reach0[THEN reachable.step, OF tx6]
      later.next_tx[OF later.now tx7] demo6_auth] by simp

text \<open>
  Only the named authorizer decides an application: a committed decision was made on an
  application that was still unapproved, and carries the signature of that application's
  authorizer over the whole decision.
\<close>
lemma authorization_decided_by_authorizer:
  assumes "chain C" and "setFileAuthConfirmStatus C E (Got opt) isConfirm s = (Inr r, s')"
  shows "\<exists>b fa. get_object C s (packFileAuthIndex (cfo_ID opt)) = Some b \<and>
     unmarshal E dec_FileAuthApplication b = Some fa \<and> fa_Status fa = FileAuthUnapproved \<and>
     signed_by E (cfo_Signature opt) (fa_Authorizer fa) (enc_ConfirmFileAuthOptions opt)"
  by (rule chain.setFileAuthConfirmStatus_effect[OF assms]) auto

lemma authorization_decided_by_authorizer_witness:
  "\<exists>b fa. get_object mem_chain demo6 (packFileAuthIndex ''a1'') = Some b \<and>
     unmarshal mem_env dec_FileAuthApplication b = Some fa \<and> fa_Status fa = FileAuthUnapproved \<and>
     signed_by mem_env demo_key (fa_Authorizer fa) (enc_ConfirmFileAuthOptions demo_confirm)"
  using authorization_decided_by_authorizer[OF mem.chain_axioms
      demo7[unfolded ConfirmFileAuthApplication_def]]
  by (simp add: demo_confirm_def)

text \<open>
  C5: A signed status change cannot be replayed. After a call that took a node offline or online
  has been committed, every call with the same node and nonce, in either direction and in every
  later state, is refused and changes nothing.
\<close>
theorem node_status_replay_refused:
  assumes "chain C" and "reachable C E s" and "tx C E s (CNodeOffline (Got opt)) s1"
    and "later C E s1 s2" and "noo_NodeID opt' = noo_NodeID opt" and "noo_Nonce opt' = noo_Nonce opt"
  shows "NodeOffline C E (Got opt') s2 = (Inl (Errx ErrCodeInternal), s2) \<and>
    NodeOnline C E (Got opt') s2 = (Inl (Errx ErrCodeInternal), s2)"
proof -
  have inv: "xdb_inv C s1"
    by (rule chain.xdb_inv_step[OF assms(1) chain.reachable_inv[OF assms(1,2)] assms(3)])
  from assms(3) obtain r where "setNodeOnlineStatus C E (Got opt) False s = (Inr r, s1)"
    by (auto elim!: txE simp: commit_Some NodeOffline_def)
  from chain.replay_refused[OF assms(1) this inv assms(4-6)] show ?thesis
    by (simp add: NodeOffline_def NodeOnline_def)
qed


lemma node_status_replay_refused_witness:
  "NodeOnline mem_chain mem_env (Got demo_offline) demo8 = (Inl (Errx ErrCodeInternal), demo8)"
  using node_status_replay_refused[OF mem.chain_axioms reach0[THEN reachable.step, OF tx1] tx8 later.now
      refl refl] by simp
section \<open>Properties of the queries\<close>

text \<open>
  Listing the storage nodes returns, in every reachable state, each registered node exactly
  once, with the record that its identifier leads to; it never fails and changes nothing.
\<close>
lemma nodes_listed_exactly:
  assumes "chain C" and "reachable C E s"
  shows "\<exists>ns. ListNodes C E s = (Inr ns, s) \<and> set ns = {n. node_at C s n} \<and>
     distinct (map nd_ID ns)"
  using chain.ListNodes_lists[OF assms(1)] chain.reachable_inv[OF assms] by (simp add: xdb_inv_def)

lemma nodes_listed_exactly_witness:
  "\<exists>ns. ListNodes mem_chain mem_env demo1 = (Inr ns, demo1) \<and> demo_node \<in> set ns"
proof -
  have "node_at mem_chain demo1 demo_node" by (simp add: node_at_def)
  with nodes_listed_exactly[OF mem.chain_axioms reach0[THEN reachable.step, OF tx1]]
  show ?thesis by blast
qed

text \<open>
  Listing files returns, in order of the index (latest publication first for one owner and
  namespace) and up to the limit, exactly the indexed files of the given owner and namespace that
  were published in the window and expire after the current time, each once; the listing of expired
  files returns those that expired within the retention period. An empty owner or namespace selects
  all. Namespaces are assumed to hold no slash.
\<close>
lemma files_listed_exactly:
  assumes "chain C" and "reachable C E s" and "CHR ''/'' \<notin> set (lfo_Namespace opt)"
    and "\<And>f. file_at C s f \<Longrightarrow> CHR ''/'' \<notin> set (f_Namespace f)"
  shows "\<exists>fs. set fs = {f. listed C s (file_index (lfo_Owner opt) (lfo_Namespace opt)) f \<and>
        (lfo_Owner opt \<noteq> [] \<longrightarrow> f_Owner f = lfo_Owner opt) \<and>
        (lfo_Namespace opt \<noteq> [] \<longrightarrow> f_Namespace f = lfo_Namespace opt)} \<and> distinct fs \<and>
      sorted_wrt (<) (map (file_key (file_index (lfo_Owner opt) (lfo_Namespace opt))) fs) \<and>
      ListFiles C E (Got opt) s =
        (Inr (limited (lfo_Limit opt) (filter (unexpired_keep opt) fs)), s) \<and>
      ListExpiredFiles C E (Got opt) s =
        (Inr (limited (lfo_Limit opt) (filter (expired_keep opt) fs)), s)"
proof -
  let ?i = "file_index (lfo_Owner opt) (lfo_Namespace opt)"
  have inv: "file_inv C s" using chain.reachable_inv[OF assms(1,2)] by (simp add: xdb_inv_def)
  obtain fs where fs: "ListFiles C E (Got opt) s =
        (Inr (limited (lfo_Limit opt) (filter (unexpired_keep opt) fs)), s)" "distinct fs"
    and set1: "set fs = {f. listed C s ?i f \<and>
        prefix (packFileNameFilter (lfo_Owner opt) (lfo_Namespace opt)) (file_key ?i f)}"
    and srt: "sorted_wrt (<) (map (file_key ?i) fs)"
    using chain.ListFiles_lists[OF assms(1) inv] by blast
  obtain gs where gs: "ListExpiredFiles C E (Got opt) s =
        (Inr (limited (lfo_Limit opt) (filter (expired_keep opt) gs)), s)"
    and "set gs = set fs" and "sorted_wrt (<) (map (file_key ?i) gs)"
    using chain.ListExpiredFiles_lists[OF assms(1) inv] unfolding set1 by blast
  with srt have "map (file_key ?i) gs = map (file_key ?i) fs"
    by (intro sorted_distinct_set_unique) (auto simp: strict_sorted_iff)
  moreover have "inj_on (file_key ?i) (set gs \<union> set fs)"
    using srt \<open>set gs = set fs\<close> by (simp add: strict_sorted_iff distinct_map)
  ultimately have "gs = fs" by (simp add: inj_on_map_eq_map)
  moreover have "set fs = {f. listed C s ?i f \<and>
        (lfo_Owner opt \<noteq> [] \<longrightarrow> f_Owner f = lfo_Owner opt) \<and>
        (lfo_Namespace opt \<noteq> [] \<longrightarrow> f_Namespace f = lfo_Namespace opt)}"
    unfolding set1 using file_filter_prefix[OF assms(3) assms(4)] by (auto simp: listed_def)
  ultimately show ?thesis using fs gs srt by blast
qed

lemma files_listed_exactly_witness:
  "\<exists>fs. set fs = {f. listed mem_chain demo3 FileListByOwnerIndex f \<and> f_Owner f = demo_key} \<and>
     fst (ListFiles mem_chain mem_env (Got \<lparr>lfo_Owner = demo_key, lfo_Namespace = [], lfo_TimeStart = 0,
       lfo_TimeEnd = 0, lfo_CurrentTime = 15, lfo_Limit = 0\<rparr>) demo3) =
     Inr (limited 0 (filter (unexpired_keep \<lparr>lfo_Owner = demo_key, lfo_Namespace = [], lfo_TimeStart = 0,
       lfo_TimeEnd = 0, lfo_CurrentTime = 15, lfo_Limit = 0\<rparr>) fs)) \<and> demo_file \<in> set fs"
proof -
  let ?opt = "\<lparr>lfo_Owner = demo_key, lfo_Namespace = [], lfo_TimeStart = 0,
       lfo_TimeEnd = 0, lfo_CurrentTime = 15, lfo_Limit = 0\<rparr> :: ListFileOptions"
  have "file_inv mem_chain demo2"
    using mem.reachable_inv[OF reach0[THEN reachable.step, OF tx1, THEN reachable.step, OF tx2]]
    by (simp add: xdb_inv_def)
  note frame = mem.frame_plain[OF this tx3]
  have only: "f = demo_file" if "file_at mem_chain demo3 f" for f
  proof (cases "f_ID f = ''f1''")
    case True
    with that show ?thesis by (simp add: file_at_def)
  next
    case False
    with that frame[of "f_ID f"] show ?thesis by (auto simp: file_at_def ns_list_key_def pack_defs)
  qed
  have nonempty: "demo_key \<noteq> []" by (simp add: demo_key_def)
  have ix: "file_index demo_key [] = FileListByOwnerIndex" by (simp add: file_index_def)
  have "listed mem_chain demo3 FileListByOwnerIndex demo_file"
    using mem.PublishFile_stores(2)[OF demo3] by simp
  with files_listed_exactly[OF mem.chain_axioms reach3, of ?opt] only nonempty
  show ?thesis by (fastforce simp: ix)
qed

text \<open>
  A published file is found. Right after the publication of a file its identifier and its
  owner, namespace and name lead to it, for every query time up to its expiry, and the answer is
  the record that was published.
\<close>
lemma published_file_found:
  assumes "chain C" and "PublishFile C E (Got opt) s = (Inr r, s')"
    and "plain_id (f_ID (pfo_File opt))" and "ParseInt t = Some now"
    and "now \<le>s f_ExpireTime (pfo_File opt)"
  shows "GetFileByID C E (Some (f_ID (pfo_File opt))) (Some t) s' =
      (Inr (Doc (enc_File (pfo_File opt))), s') \<and>
    GetFileByName C E (Some (f_Owner (pfo_File opt))) (Some (f_Namespace (pfo_File opt)))
      (Some (f_Name (pfo_File opt))) (Some t) s' = (Inr (Doc (enc_File (pfo_File opt))), s')"
proof -
  note at = chain.PublishFile_stores(1)[OF assms(1-3)]
  have name: "get_object C s' (packFileNameIndex (f_Owner (pfo_File opt)) (f_Namespace (pfo_File opt))
      (f_Name (pfo_File opt))) = Some (Raw (f_ID (pfo_File opt)))"
    using chain.PublishFile_stores(2)[OF assms(1-3), of FilenameIndex]
    by (simp add: listed_def file_key_names)
  obtain v where ns: "get_object C s'
      (packFileNsIndex (f_Owner (pfo_File opt)) (f_Namespace (pfo_File opt))) = Some v"
  proof (rule chain.PublishFile_effect[OF assms(1,2)])
    fix opt' f and ns :: Namespace
    let ?n = "Doc (enc_Namespace (counted_ns ns f))"
    assume "Got opt = Got opt'" and "f = pfo_File opt'" and "\<forall>k. \<not> in_index {NodeFileSlice} k \<longrightarrow>
      get_object C s' k =
      ((get_object C s)(f_ID f \<mapsto> Doc (enc_File f), file_key FilenameIndex f \<mapsto> Raw (f_ID f),
        file_key FileListByOwnerIndex f \<mapsto> Raw (f_ID f), file_key FileListByNsIndex f \<mapsto> Raw (f_ID f),
        packFileNsIndex (f_Owner f) (f_Namespace f) \<mapsto> ?n, ns_list_key ns \<mapsto> ?n)) k"
    with that chain.not_slice_key(4)[OF assms(1)] show thesis by simp
  qed
  show ?thesis
    using at assms(4,5)
    by (simp add: GetFileByID_def GetFileByName_def getCtxTime_def act_defs file_at_def name ns sless_le)
qed

lemma published_file_found_witness:
  "GetFileByName mem_chain mem_env (Some demo_key) (Some ''ns'') (Some ''n'') (Some (FormatInt 20)) demo3 =
     (Inr (Doc (enc_File demo_file)), demo3)"
  using published_file_found[OF mem.chain_axioms demo3, of "FormatInt 20" 20] by simp

text \<open>
  A file name is not taken over while its file is kept. When a file is published under a name
  that leads to another file, that file's expiry time plus the retention period (a sum in 64-bit
  arithmetic) is not after the new file's publish time.
\<close>
lemma kept_name_not_reused:
  assumes "chain C" and "PublishFile C E (Got opt) s = (Inr r, s')"
    and "listed C s FilenameIndex f"
    and "file_key FilenameIndex f = file_key FilenameIndex (pfo_File opt)"
  shows "f_ExpireTime f + FileRetainPeriod \<le>s f_PublishTime (pfo_File opt)"
proof (rule chain.PublishFile_effect[OF assms(1,2)])
  fix opt' g
  assume "Got opt = Got opt'" "g = pfo_File opt'"
    and "check_name_free C E (file_key FilenameIndex g) (f_PublishTime g) s = (Inr (), s)"
  with assms(3,4) show ?thesis
    by (simp add: check_name_free_def listed_def file_at_def getFileByID_def act_defs sless_le
        split: if_splits)
qed

lemma kept_name_not_reused_witness:
  "\<exists>r s'. PublishFile mem_chain mem_env (Got demo_republish) demo3 = (Inr r, s') \<and>
     (20 + FileRetainPeriod :: int64) \<le>s f_PublishTime (pfo_File demo_republish)"
proof -
  have l: "listed mem_chain demo3 FilenameIndex demo_file"
    using mem.PublishFile_stores(2)[OF demo3] by simp
  obtain r s' where run: "PublishFile mem_chain mem_env (Got demo_republish) demo3 = (Inr r, s')"
    using demo_republish by blast
  from kept_name_not_reused[OF mem.chain_axioms run l] run show ?thesis
    by (auto simp: demo_republish_def file_key_def)
qed

text \<open>
  Listing challenges returns, in index order and up to the limit, exactly the stored challenges
  of the given file owner and target node (either may be left open) that have the given status and
  file and were made in the window, each once; counting them returns the number of the challenges
  of a target node in the window.
\<close>
lemma challenges_listed_exactly:
  assumes "chain C" and "reachable C E s"
  shows "(\<exists>cs. ListChallengeRequests C E (Got opt) s =
        (Inr (limited (lco_Limit opt) (filter (challenge_keep opt) cs)), s) \<and> distinct cs \<and>
      set cs = {c. challenge_at C s c \<and> (lco_FileOwner opt \<noteq> [] \<longrightarrow> ch_FileOwner c = lco_FileOwner opt) \<and>
        (lco_TargetNode opt \<noteq> [] \<longrightarrow> ch_TargetNode c = lco_TargetNode opt)} \<and>
      sorted_wrt (<) (map (challenge_key (lco_FileOwner opt) (lco_TargetNode opt)) cs)) \<and>
    (\<exists>cs. GetChallengeNum C E (Got q) s = (Inr (dec_nat (length cs)), s) \<and> distinct cs \<and>
      set cs = {c. challenge_at C s c \<and> (gco_TargetNode q \<noteq> [] \<longrightarrow> ch_TargetNode c = gco_TargetNode q) \<and>
        gco_TimeStart q \<le>s ch_ChallengeTime c \<and> ch_ChallengeTime c \<le>s gco_TimeEnd q \<and>
        (gco_Status q \<noteq> [] \<longrightarrow> ch_Status c = gco_Status q)})"
proof -
  have inv: "challenge_inv C s" using chain.reachable_inv[OF assms] by (simp add: xdb_inv_def)
  show ?thesis
    using chain.ListChallengeRequests_lists[OF assms(1) inv, of E opt]
      chain.GetChallengeNum_counts[OF assms(1) inv, of E q] by blast
qed

lemma challenges_listed_exactly_witness:
  "\<exists>cs. GetChallengeNum mem_chain mem_env (Got \<lparr>gco_TargetNode = [], gco_Status = [], gco_TimeStart = 0,
       gco_TimeEnd = 100\<rparr>) demo4 = (Inr (dec_nat (length cs)), demo4) \<and> demo_challenge \<in> set cs"
proof -
  let ?q = "\<lparr>gco_TargetNode = [], gco_Status = [], gco_TimeStart = 0, gco_TimeEnd = 100\<rparr>
      :: GetChallengeNumOptions"
  let ?l = "\<lparr>lco_FileOwner = [], lco_TargetNode = [], lco_FileID = [], lco_Status = [],
      lco_TimeStart = 0, lco_TimeEnd = 0, lco_Limit = 0\<rparr> :: ListChallengeOptions"
  have t: "ch_ChallengeTime demo_challenge = 30"
    by (simp add: demo_challenge_def make_challenge_def demo_request_def PairingChallengeAlgorithm_def)
  from challenges_listed_exactly[OF mem.chain_axioms reach4, of ?l ?q]
  obtain cs where run: "GetChallengeNum mem_chain mem_env (Got ?q) demo4 =
      (Inr (dec_nat (length cs)), demo4)"
    and cs: "set cs = {c. challenge_at mem_chain demo4 c \<and> 0 \<le>s ch_ChallengeTime c \<and>
      ch_ChallengeTime c \<le>s 100}" by auto
  have "demo_challenge \<in> set cs" using demo4_challenge t by (simp add: cs word_sle_eq)
  with run show ?thesis by blast
qed

text \<open>
  Listing file authorizations returns, in index order and up to the limit, exactly the stored
  applications of the given applicant and authorizer (with no applicant, of the given authorizer)
  that have the given status and file and were made in the window, each once.
\<close>
lemma authorizations_listed_exactly:
  assumes "chain C" and "reachable C E s"
  shows "\<exists>fas. ListFileAuthApplications C E (Got opt) s =
        (Inr (limited (lao_Limit opt) (filter (auth_keep opt) fas)), s) \<and> distinct fas \<and>
      set fas = {fa. auth_at C s fa \<and> auth_selected (lao_Applier opt) (lao_Authorizer opt) fa} \<and>
      sorted_wrt (<) (map (auth_key (auth_index (lao_Applier opt) (lao_Authorizer opt))) fas)"
  using chain.ListFileAuthApplications_lists[OF assms(1)] chain.reachable_inv[OF assms]
  by (simp add: xdb_inv_def)

lemma authorizations_listed_exactly_witness:
  "\<exists>fas. fst (ListFileAuthApplications mem_chain mem_env (Got \<lparr>lao_Applier = [], lao_Authorizer = demo_key,
       lao_FileID = [], lao_Status = [], lao_TimeStart = 0, lao_TimeEnd = 9, lao_Limit = 0\<rparr>) demo6) =
     Inr (limited 0 (filter (auth_keep \<lparr>lao_Applier = [], lao_Authorizer = demo_key,
       lao_FileID = [], lao_Status = [], lao_TimeStart = 0, lao_TimeEnd = 9, lao_Limit = 0\<rparr>) fas)) \<and>
     demo_fa \<in> set fas"
proof -
  let ?opt = "\<lparr>lao_Applier = [], lao_Authorizer = demo_key, lao_FileID = [], lao_Status = [],
      lao_TimeStart = 0, lao_TimeEnd = 9, lao_Limit = 0\<rparr> :: ListFileAuthOptions"
  from authorizations_listed_exactly[OF mem.chain_axioms reach0[THEN reachable.step, OF tx6], of ?opt]
  obtain fas where "fst (ListFileAuthApplications mem_chain mem_env (Got ?opt) demo6) =
      Inr (limited 0 (filter (auth_keep ?opt) fas))"
    and "set fas = {fa. auth_at mem_chain demo6 fa \<and> auth_selected [] demo_key fa}" by auto
  with demo6_auth show ?thesis by (auto simp: auth_selected_def)
qed

section \<open>Where the contract differs from what it promises\<close>

lemma file_is_no_node:
  "f_ID f = ''index_node_list'' @ x \<Longrightarrow> dec_Node (enc_File f) = None"
  by (simp add: dec_Node_def enc_File_def dec_struct_def fld_def b64val_def Let_def)

lemma listing_fails:
  assumes "chain C" and "get_object C s k = Some (Doc (enc_File f))"
    and "k = ''index_node_list'' @ x" and "f_ID f = k"
  shows "\<exists>e. ListNodes C E s = (Inl e, s)"
proof -
  have "(k, Doc (enc_File f)) \<in> set (prefix_scan C s ''index_node_list'')"
    using assms(2,3) by (simp add: chain.scan_iff[OF assms(1)])
  moreover have "ListNodes_body E acc (k, Doc (enc_File f)) = Inl (Errx ErrCodeInternal)" for acc
    using file_is_no_node assms(3,4) by (simp add: ListNodes_body_def)
  moreover have "ListNodes_body E acc kv \<noteq> Inr Break" for acc kv
    by (simp add: ListNodes_body_def split: option.splits)
  ultimately show ?thesis
    unfolding ListNodes_def reads_def
    using for_iter_fault[of "(k, Doc (enc_File f))" _ "ListNodes_body E" "Errx ErrCodeInternal" "[]"]
    by auto
qed

context chain begin
lemma publish_stores_anywhere:
  assumes "PublishFile C E (Got opt) s = (Inr r, s')"
    and "f_ID (pfo_File opt) = ''index_node_list'' @ x"
  shows "get_object C s' (f_ID (pfo_File opt)) = Some (Doc (enc_File (pfo_File opt)))"
proof (rule PublishFile_effect[OF assms(1)])
  fix opt' f b and ns :: Namespace
  let ?n = "Doc (enc_Namespace (counted_ns ns f))"
  assume "Got opt = Got opt'" and "f = pfo_File opt'"
    and get: "\<forall>k. \<not> in_index {NodeFileSlice} k \<longrightarrow> get_object C s' k =
      ((get_object C s)(f_ID f \<mapsto> Doc (enc_File f), file_key FilenameIndex f \<mapsto> Raw (f_ID f),
        file_key FileListByOwnerIndex f \<mapsto> Raw (f_ID f), file_key FileListByNsIndex f \<mapsto> Raw (f_ID f),
        packFileNsIndex (f_Owner f) (f_Namespace f) \<mapsto> ?n, ns_list_key ns \<mapsto> ?n)) k"
  then have f: "pfo_File opt = f" by simp
  have p: "prefix ''index_node_list'' (f_ID f)" using assms(2) by (simp add: f)
  have k: "f_ID f \<noteq> key i ps" if "i \<noteq> NodeListIndex" for i ps
    using p prefix_key_iff[of i ps] that by metis
  from get[rule_format, of "f_ID f"] show ?thesis
    by (simp add: f in_index_def k file_key_def ns_list_key_def pack_defs)
qed
end

lemma sort_confirm:
  "sort_key fst [(''id'', a), (''authKey'', b), (''rejectReason'', c), (''currentTime'', d),
     (''expireTime'', e), (''signature'', f)] =
   [(''authKey'', b), (''currentTime'', d), (''expireTime'', e), (''id'', a), (''rejectReason'', c),
     (''signature'', f)]"
  by (simp add: less_char_def List_Lexorder.list_less_def)

lemma scan_same:
  assumes "chain C" and "\<And>k. prefix p k \<Longrightarrow> get_object C s' k = get_object C s k"
  shows "prefix_scan C s' p = prefix_scan C s p"
  by (rule chain.scan_unique[OF assms(1)])
    (auto simp: chain.scan_set[OF assms(1)] assms(2) chain.scan_sorted[OF assms(1)])

text \<open>
  A heartbeat that repeats a time already recorded for its day does not get the error it is
  meant to get: the contract panics, because the error message is built from a nil error. No state
  is changed.
\<close>
lemma repeated_heartbeat_panics:
  assumes "hexDecode (hbo_NodeID opt) = Some pk"
    and "signed_by E (hbo_Signature opt) pk (enc_NodeHeartBeatOptions opt)"
    and "get_object C s (packNodeHeartBeatIndex (hbo_NodeID opt) (hbo_BeginningTime opt)) =
      Some (Doc (enc_times ts))"
    and "hbo_CurrentTime opt \<in> set ts"
  shows "Heartbeat C E (Got opt) s = (Inl Panicked, s)"
proof -
  have "checkSigned E (hbo_Signature opt) pk (enc_NodeHeartBeatOptions opt) s = (Inr (), s)"
    using assms(2) by (simp add: checkSigned_ok)
  with assms(1,3,4) show ?thesis
    by (simp add: Heartbeat_def bnd_got need_def ret_def) (simp add: bnd_def reads_def next_heartbeats_def Let_def)
qed

lemma repeated_heartbeat_panics_witness:
  "Heartbeat mem_chain mem_env (Got \<lparr>hbo_NodeID = hex demo_key, hbo_CurrentTime = 5,
       hbo_BeginningTime = 0, hbo_Signature = demo_key\<rparr>)
     (store_put empty_store (packNodeHeartBeatIndex (hex demo_key) 0) (Doc (enc_times [5]))) =
   (Inl Panicked, store_put empty_store (packNodeHeartBeatIndex (hex demo_key) 0) (Doc (enc_times [5])))"
  by (rule repeated_heartbeat_panics[where pk = demo_key and ts = "[5]"])
    (simp_all add: enc_NodeHeartBeatOptions_def)

text \<open>
  Files share the key space of the indexes. A file that anyone publishes under an identifier
  that starts with the name of the node list is met by every later listing of the nodes, which then
  fails as a whole.
\<close>
lemma file_id_breaks_node_listing:
  assumes "chain C" and "PublishFile C E (Got opt) s = (Inr r, s')"
    and "f_ID (pfo_File opt) = ''index_node_list'' @ x"
  shows "\<exists>e. ListNodes C E s' = (Inl e, s')"
  using listing_fails[OF assms(1) chain.publish_stores_anywhere[OF assms] assms(3)] by simp

lemma file_id_breaks_node_listing_witness:
  "\<exists>s e. ListNodes mem_chain mem_env s = (Inl e, s)"
proof -
  let ?opt = "\<lparr>pfo_File = demo_file\<lparr>f_ID := ''index_node_list''\<rparr>, pfo_Signature = demo_key\<rparr>"
  have free: "bnd (check_name_free mem_chain mem_env (packFileNameIndex demo_key ''ns'' ''n'') t) f demo2 =
      f () demo2" for t and f :: "unit \<Rightarrow> (store, string) act"
    by (simp add: bnd_def check_name_free_def pack_defs ns_list_key_def)
  obtain g where g: "\<And>kvs s. put_all mem_chain kvs s = (Inr (), g kvs s)"
    using mem.put_all_total by metis
  have "bnd (put_all mem_chain kvs) f s = f () (g kvs s)" for kvs and f :: "unit \<Rightarrow> (store, string) act" and s
    by (simp add: bnd_def g)
  with free obtain r s' where "PublishFile mem_chain mem_env (Got ?opt) demo2 = (Inr r, s')"
    by (simp add: PublishFile_def enc_PublishFileOptions_def Let_def pack_defs ns_list_key_def key_def)
  from file_id_breaks_node_listing[OF mem.chain_axioms this, of "[]"] show ?thesis by auto
qed

text \<open>
  The signed message does not determine what was signed. Field values are neither quoted nor
  escaped, so the decision on one application with one reason and the decision on another
  application with another reason have the same message, and with it the same signature.
\<close>
lemma signed_message_ambiguous:
  "GetSigMessage (enc_ConfirmFileAuthOptions (opt\<lparr>cfo_ID := a @ ''&rejectReason='' @ b,
       cfo_RejectReason := c\<rparr>)) =
   GetSigMessage (enc_ConfirmFileAuthOptions (opt\<lparr>cfo_ID := a,
       cfo_RejectReason := b @ ''&rejectReason='' @ c\<rparr>))"
  by (simp add: GetSigMessage_def enc_ConfirmFileAuthOptions_def sort_confirm sig_part_def sig_value_def)

text \<open>
  Extending a file does not extend its slices. After the owner has set a later expiry time,
  every node's list of expiring slices is what it was before, in every time window: the slices are
  still listed under the old expiry time, on which the storage nodes delete them.
\<close>
lemma extended_file_slices_still_expire:
  assumes "chain C" and "reachable C E s"
    and "tx C E s (CUpdateFileExpireTime (Got opt)) s'"
  shows "fst (ListNodesExpireSlice C a s') = fst (ListNodesExpireSlice C a s)"
proof -
  have inv: "file_inv C s" using chain.reachable_inv[OF assms(1,2)] by (simp add: xdb_inv_def)
  have "prefix_scan C s' (packNodeSliceFilter t) = prefix_scan C s (packNodeSliceFilter t)" for t
  proof (rule scan_same[OF assms(1)])
    fix k assume "prefix (packNodeSliceFilter t) k"
    then have "under NodeFileSlice k" unfolding packNodeSliceFilter_def by (rule under_prefix)
    from chain.frame_under[OF assms(1) inv assms(3) _ this]
    show "get_object C s' k = get_object C s k" by simp
  qed
  then show ?thesis
    by (simp add: ListNodesExpireSlice_def bnd_def get_arg_def need_def require_def reads_def ret_def
        fail_def split: arg.splits option.splits)
qed

definition demo_extend :: UpdateExptimeOptions where
  "demo_extend = \<lparr>ueo_FileID = ''f1'', ueo_NewExpireTime = 90, ueo_CurrentTime = 15,
     ueo_Signature = demo_key\<rparr>"

lemma extended_file_slices_still_expire_witness:
  "\<exists>s'. tx mem_chain mem_env demo3 (CUpdateFileExpireTime (Got demo_extend)) s' \<and>
     (\<forall>a. fst (ListNodesExpireSlice mem_chain a s') = fst (ListNodesExpireSlice mem_chain a demo3))"
proof -
  have "bnd (getFileByID mem_chain mem_env ''f1'') f demo3 = f demo_file demo3"
    for f :: "File \<Rightarrow> (store, blob) act"
    by (simp add: getFileByID_def act_defs)
  then obtain r s' where "UpdateFileExpireTime mem_chain mem_env (Got demo_extend) demo3 = (Inr r, s')"
    by (simp add: UpdateFileExpireTime_def demo_extend_def enc_UpdateExptimeOptions_def Let_def
        word_sle_eq FileRetainPeriod_def)
  then have "tx mem_chain mem_env demo3 (CUpdateFileExpireTime (Got demo_extend)) s'"
    by (intro tx.intros) (simp_all add: commit_def well_named_def demo_extend_def)
  from this extended_file_slices_still_expire[OF mem.chain_axioms reach3 this]
  show ?thesis by blast
qed

end
