(* ===== verification/DaiTypes.thy ===== *)
theory DaiTypes
  imports XdbSign
begin

text \<open>
  The data of the computation network: tasks and executor nodes
  (\<^verbatim>\<open>dai/protos/task/task.pb.go\<close>, \<^verbatim>\<open>dai/blockchain/blockchain.go\<close>) and the ledger
  keys of its contract (\<^verbatim>\<open>dai/blockchain/xchain/contract/internal.go\<close>). The message structs are
  generated from protocol buffers and leave out zero fields when they are written as JSON. The
  algorithm parameters of a task are kept as a JSON value that the contract does not look into.
\<close>

section \<open>Tasks\<close>

abbreviation "TaskConfirming \<equiv> ''Confirming''"
abbreviation "TaskReady \<equiv> ''Ready''"
abbreviation "TaskToProcess \<equiv> ''ToProcess''"
abbreviation "TaskProcessing \<equiv> ''Processing''"
abbreviation "TaskFinished \<equiv> ''Finished''"
abbreviation "TaskFailed \<equiv> ''Failed''"
abbreviation "TaskRejected \<equiv> ''Rejected''"

record DataForTask =
  dt_Owner :: bytes
  dt_Executor :: bytes
  dt_DataID :: string
  dt_PsiLabel :: string
  dt_ConfirmedAt :: int64
  dt_RejectedAt :: int64
  dt_Address :: string
  dt_IsTagPart :: bool

definition enc_DataForTask :: "DataForTask \<Rightarrow> json" where
  "enc_DataForTask d = JObj
    (omit_bytes ''owner'' (dt_Owner d) @ omit_bytes ''executor'' (dt_Executor d) @
     omit_str ''dataID'' (dt_DataID d) @ omit_str ''psiLabel'' (dt_PsiLabel d) @
     omit_int ''confirmedAt'' (dt_ConfirmedAt d) @ omit_int ''rejectedAt'' (dt_RejectedAt d) @
     omit_str ''address'' (dt_Address d) @ omit_bool ''isTagPart'' (dt_IsTagPart d) @ [])"

definition dec_DataForTask :: "json \<Rightarrow> DataForTask option" where
  "dec_DataForTask = dec_struct (\<lambda>kvs.
    Option.bind (fld dec_bytes [] ''owner'' kvs) (\<lambda>v0.
    Option.bind (fld dec_bytes [] ''executor'' kvs) (\<lambda>v1.
    Option.bind (fld dec_str [] ''dataID'' kvs) (\<lambda>v2.
    Option.bind (fld dec_str [] ''psiLabel'' kvs) (\<lambda>v3.
    Option.bind (fld dec_int_json 0 ''confirmedAt'' kvs) (\<lambda>v4.
    Option.bind (fld dec_int_json 0 ''rejectedAt'' kvs) (\<lambda>v5.
    Option.bind (fld dec_str [] ''address'' kvs) (\<lambda>v6.
    Option.bind (fld dec_bool False ''isTagPart'' kvs) (\<lambda>v7.
    Some \<lparr>dt_Owner = v0, dt_Executor = v1, dt_DataID = v2, dt_PsiLabel = v3, dt_ConfirmedAt = v4,
      dt_RejectedAt = v5, dt_Address = v6, dt_IsTagPart = v7\<rparr>)))))))))"

text \<open>A pointer to a struct: \<^verbatim>\<open>null\<close> is the nil pointer.\<close>

definition enc_ptr :: "('a \<Rightarrow> json) \<Rightarrow> 'a option \<Rightarrow> json" where
  "enc_ptr f p = (case p of None \<Rightarrow> JNull | Some x \<Rightarrow> f x)"

definition dec_ptr :: "(json \<Rightarrow> 'a option) \<Rightarrow> json \<Rightarrow> 'a option option" where
  "dec_ptr d j = (if j = JNull then Some None else map_option Some (d j))"

record FLTask =
  tk_TaskID :: string
  tk_Name :: string
  tk_Description :: string
  tk_Requester :: bytes
  tk_DataSets :: "DataForTask option list"
  tk_AlgoParam :: json
  tk_Status :: string
  tk_ErrMessage :: string
  tk_Result :: string
  tk_PublishTime :: int64
  tk_StartTime :: int64
  tk_EndTime :: int64

definition enc_FLTask :: "FLTask \<Rightarrow> json" where
  "enc_FLTask t = JObj
    (omit_str ''taskID'' (tk_TaskID t) @ omit_str ''name'' (tk_Name t) @
     omit_str ''description'' (tk_Description t) @ omit_bytes ''requester'' (tk_Requester t) @
     omit_list (enc_ptr enc_DataForTask) ''dataSets'' (tk_DataSets t) @
     omit_json ''algoParam'' (tk_AlgoParam t) @ omit_str ''status'' (tk_Status t) @
     omit_str ''errMessage'' (tk_ErrMessage t) @ omit_str ''result'' (tk_Result t) @
     omit_int ''publishTime'' (tk_PublishTime t) @ omit_int ''startTime'' (tk_StartTime t) @
     omit_int ''endTime'' (tk_EndTime t) @ [])"

definition dec_FLTask :: "json \<Rightarrow> FLTask option" where
  "dec_FLTask = dec_struct (\<lambda>kvs.
    Option.bind (fld dec_str [] ''taskID'' kvs) (\<lambda>v0.
    Option.bind (fld dec_str [] ''name'' kvs) (\<lambda>v1.
    Option.bind (fld dec_str [] ''description'' kvs) (\<lambda>v2.
    Option.bind (fld dec_bytes [] ''requester'' kvs) (\<lambda>v3.
    Option.bind (fld (dec_list (dec_ptr dec_DataForTask)) [] ''dataSets'' kvs) (\<lambda>v4.
    Option.bind (fld Some JNull ''algoParam'' kvs) (\<lambda>v5.
    Option.bind (fld dec_str [] ''status'' kvs) (\<lambda>v6.
    Option.bind (fld dec_str [] ''errMessage'' kvs) (\<lambda>v7.
    Option.bind (fld dec_str [] ''result'' kvs) (\<lambda>v8.
    Option.bind (fld dec_int_json 0 ''publishTime'' kvs) (\<lambda>v9.
    Option.bind (fld dec_int_json 0 ''startTime'' kvs) (\<lambda>v10.
    Option.bind (fld dec_int_json 0 ''endTime'' kvs) (\<lambda>v11.
    Some \<lparr>tk_TaskID = v0, tk_Name = v1, tk_Description = v2, tk_Requester = v3, tk_DataSets = v4,
      tk_AlgoParam = v5, tk_Status = v6, tk_ErrMessage = v7, tk_Result = v8, tk_PublishTime = v9,
      tk_StartTime = v10, tk_EndTime = v11\<rparr>)))))))))))))"

lemma dec_enc_DataForTask [simp]: "dec_DataForTask (enc_DataForTask d) = Some d"
  by (simp add: dec_DataForTask_def enc_DataForTask_def dec_struct_def json_rt image_Un
      del: append_Nil2 append.right_neutral)

lemma dec_enc_ptr: "(\<And>x. d (f x) = Some x) \<Longrightarrow> (\<And>x. f x \<noteq> JNull) \<Longrightarrow> dec_ptr d (enc_ptr f p) = Some p"
  by (cases p) (simp_all add: dec_ptr_def enc_ptr_def)

lemma dec_enc_sets [simp]:
  "dec_ptr dec_DataForTask (enc_ptr enc_DataForTask p) = Some p"
  by (rule dec_enc_ptr[OF dec_enc_DataForTask]) (simp add: enc_DataForTask_def)

lemma dec_enc_FLTask [simp]: "dec_FLTask (enc_FLTask t) = Some t"
  by (simp add: dec_FLTask_def enc_FLTask_def dec_struct_def json_rt image_Un
      del: append_Nil2 append.right_neutral)

lemma enc_FLTask_inj [simp]: "enc_FLTask a = enc_FLTask b \<longleftrightarrow> a = b"
  by (metis dec_enc_FLTask option.inject)

lemma enc_FLTask_neq_null [simp]: "enc_FLTask t \<noteq> JNull"
  by (simp add: enc_FLTask_def)

section \<open>Executor nodes\<close>

record ExecutorNode =
  en_ID :: bytes
  en_Name :: string
  en_Address :: string
  en_HttpAddress :: string
  en_PaddleFLAddress :: string
  en_PaddleFLRole :: int64
  en_RegTime :: int64

definition enc_ExecutorNode :: "ExecutorNode \<Rightarrow> json" where
  "enc_ExecutorNode n = JObj
    [(''id'', enc_bytes (en_ID n)), (''name'', JStr (en_Name n)), (''address'', JStr (en_Address n)),
     (''httpAddress'', JStr (en_HttpAddress n)), (''paddleFLAddress'', JStr (en_PaddleFLAddress n)),
     (''paddleFLRole'', enc_int (en_PaddleFLRole n)), (''regTime'', enc_int (en_RegTime n))]"

definition dec_ExecutorNode :: "json \<Rightarrow> ExecutorNode option" where
  "dec_ExecutorNode = dec_struct (\<lambda>kvs.
    Option.bind (fld dec_bytes [] ''id'' kvs) (\<lambda>v0.
    Option.bind (fld dec_str [] ''name'' kvs) (\<lambda>v1.
    Option.bind (fld dec_str [] ''address'' kvs) (\<lambda>v2.
    Option.bind (fld dec_str [] ''httpAddress'' kvs) (\<lambda>v3.
    Option.bind (fld dec_str [] ''paddleFLAddress'' kvs) (\<lambda>v4.
    Option.bind (fld dec_int_json 0 ''paddleFLRole'' kvs) (\<lambda>v5.
    Option.bind (fld dec_int_json 0 ''regTime'' kvs) (\<lambda>v6.
    Some \<lparr>en_ID = v0, en_Name = v1, en_Address = v2, en_HttpAddress = v3, en_PaddleFLAddress = v4,
      en_PaddleFLRole = v5, en_RegTime = v6\<rparr>))))))))"

lemma dec_enc_ExecutorNode [simp]: "dec_ExecutorNode (enc_ExecutorNode n) = Some n"
  by (cases n) (simp add: dec_ExecutorNode_def enc_ExecutorNode_def dec_struct_def fld_def json_rt)

lemma enc_ExecutorNode_inj [simp]: "enc_ExecutorNode a = enc_ExecutorNode b \<longleftrightarrow> a = b"
  by (metis dec_enc_ExecutorNode option.inject)

section \<open>Method arguments\<close>

record PublishFLTaskOptions =
  pto_FLTask :: "FLTask option"
  pto_Signature :: bytes

record StartFLTaskOptions =
  sto_TaskID :: string
  sto_Signature :: bytes

definition enc_StartFLTaskOptions :: "StartFLTaskOptions \<Rightarrow> json" where
  "enc_StartFLTaskOptions opt = JObj
    [(''taskID'', JStr (sto_TaskID opt)), (''signature'', enc_bytes (sto_Signature opt))]"

record ListFLTaskOptions =
  lto_PubKey :: bytes
  lto_ExecPubKey :: bytes
  lto_Status :: string
  lto_TimeStart :: int64
  lto_TimeEnd :: int64
  lto_Limit :: int64

record FLTaskConfirmOptions =
  tco_Pubkey :: bytes
  tco_TaskID :: string
  tco_RejectReason :: string
  tco_CurrentTime :: int64
  tco_Signature :: bytes

definition enc_FLTaskConfirmOptions :: "FLTaskConfirmOptions \<Rightarrow> json" where
  "enc_FLTaskConfirmOptions opt = JObj
    [(''pubkey'', enc_bytes (tco_Pubkey opt)), (''taskID'', JStr (tco_TaskID opt)),
     (''rejectReason'', JStr (tco_RejectReason opt)), (''currentTime'', enc_int (tco_CurrentTime opt)),
     (''signature'', enc_bytes (tco_Signature opt))]"

record FLTaskExeStatusOptions =
  teo_Executor :: bytes
  teo_TaskID :: string
  teo_CurrentTime :: int64
  teo_Signature :: bytes
  teo_ErrMessage :: string
  teo_Result :: string

definition enc_FLTaskExeStatusOptions :: "FLTaskExeStatusOptions \<Rightarrow> json" where
  "enc_FLTaskExeStatusOptions opt = JObj
    [(''executor'', enc_bytes (teo_Executor opt)), (''taskID'', JStr (teo_TaskID opt)),
     (''currentTime'', enc_int (teo_CurrentTime opt)), (''signature'', enc_bytes (teo_Signature opt)),
     (''errMessage'', JStr (teo_ErrMessage opt)), (''result'', JStr (teo_Result opt))]"

record AddExecutorOptions =
  aeo_Node :: ExecutorNode
  aeo_Signature :: bytes

definition enc_AddExecutorOptions :: "AddExecutorOptions \<Rightarrow> json" where
  "enc_AddExecutorOptions opt = JObj
    [(''node'', enc_ExecutorNode (aeo_Node opt)), (''signature'', enc_bytes (aeo_Signature opt))]"

section \<open>Ledger keys\<close>

definition packFlTaskIndex :: "string \<Rightarrow> string" where
  "packFlTaskIndex taskID = key FlTaskIndex [taskID]"

definition packFlTaskListIndex :: "FLTask \<Rightarrow> string" where
  "packFlTaskListIndex task = key FlTaskListIndex
     [hex (tk_Requester task), FormatInt (subByInt64Max (tk_PublishTime task)), tk_TaskID task]"

definition packExecutorTaskListIndex :: "bytes \<Rightarrow> FLTask \<Rightarrow> string" where
  "packExecutorTaskListIndex executor task = key FlTaskListIndex
     [hex executor, FormatInt (subByInt64Max (tk_PublishTime task)), tk_TaskID task]"

definition packRequesterExecutorTaskIndex :: "bytes \<Rightarrow> FLTask \<Rightarrow> string" where
  "packRequesterExecutorTaskIndex executor task = key REFlTaskListIndex
     [hex (tk_Requester task), hex executor, FormatInt (subByInt64Max (tk_PublishTime task)),
      tk_TaskID task]"

text \<open>With both keys given the filter ends without a slash.\<close>

definition packFlTaskFilter :: "bytes \<Rightarrow> bytes \<Rightarrow> string" where
  "packFlTaskFilter rPubkey ePubkey =
     (if rPubkey \<noteq> [] \<and> ePubkey \<noteq> [] then key REFlTaskListIndex [hex rPubkey, hex ePubkey]
      else if rPubkey \<noteq> [] then key FlTaskListIndex [hex rPubkey, '''']
      else key FlTaskListIndex [hex ePubkey, ''''])"

definition packExecutorIndex :: "bytes \<Rightarrow> string" where
  "packExecutorIndex nodeID = key ExecutorNodeIndex [hex nodeID]"

definition packNodeStringIndex :: "string \<Rightarrow> string" where
  "packNodeStringIndex nodeID = key ExecutorNodeIndex [nodeID]"

definition packNodeNameIndex :: "string \<Rightarrow> string" where
  "packNodeNameIndex name = key ExecutorNameIndex [name]"

definition packExecutorListIndex :: "ExecutorNode \<Rightarrow> string" where
  "packExecutorListIndex node =
     key ExecutorListIndex [FormatInt (subByInt64Max (en_RegTime node)), hex (en_ID node)]"

lemmas dai_pack_defs = packFlTaskIndex_def packFlTaskListIndex_def packExecutorTaskListIndex_def
  packRequesterExecutorTaskIndex_def packExecutorIndex_def packNodeStringIndex_def
  packNodeNameIndex_def packExecutorListIndex_def

end
