(* ===== verification/DaiContract.thy ===== *)
theory DaiContract
  imports DaiTypes XdbContract
begin

text \<open>
  The contract of the computation network (\<^verbatim>\<open>dai/blockchain/xchain/contract\<close>, files
  \<^verbatim>\<open>task.go\<close> and \<^verbatim>\<open>executorNodes.go\<close>): federated learning tasks from publication
  through confirmation by the executors to their result, and the register of executor nodes.
\<close>

section \<open>Signatures\<close>

text \<open>
  Only the length of the signature is checked here; \<^verbatim>\<open>copy\<close> cuts or pads the key to 64 bytes.
\<close>

definition checkTaskSign :: "env \<Rightarrow> bytes \<Rightarrow> bytes \<Rightarrow> bytes \<Rightarrow> ('s, unit) act" where
  "checkTaskSign E sign owner mes =
     (if length sign \<noteq> SignatureLength then fail (Errx ErrCodeParam)
      else let pubkey = take PublicKeyLength (owner @ replicate PublicKeyLength (CHR 0x00)) in
        if \<not> ecdsa_verify E pubkey (sha256 E mes) sign then fail (Errx ErrCodeBadSignature)
        else ret ())"

definition checkTaskSigned :: "env \<Rightarrow> bytes \<Rightarrow> bytes \<Rightarrow> json \<Rightarrow> ('s, unit) act" where
  "checkTaskSigned E sign owner j =
     bnd (need (Errx ErrCodeInternal) (GetSigMessage j)) (\<lambda>msg. checkTaskSign E sign owner msg)"

definition task_signed :: "env \<Rightarrow> bytes \<Rightarrow> bytes \<Rightarrow> json \<Rightarrow> bool" where
  "task_signed E sign owner j \<longleftrightarrow> length sign = 64 \<and>
     (\<exists>msg. GetSigMessage j = Some msg \<and>
        ecdsa_verify E (take 64 (owner @ replicate 64 (CHR 0x00))) (sha256 E msg) sign)"

lemma checkTaskSigned_ok [act_ok]:
  "checkTaskSigned E sign owner j s = (Inr u, s') \<longleftrightarrow> task_signed E sign owner j \<and> s' = s"
  by (auto simp: checkTaskSigned_def checkTaskSign_def task_signed_def PublicKeyLength_def
      SignatureLength_def Let_def act_ok)

lemma keeps_checkTaskSigned [quietI]: "keeps_state (checkTaskSigned E sign owner j)"
  unfolding checkTaskSigned_def
  by (intro quietI) (auto simp: checkTaskSign_def Let_def keeps_state_def act_defs)

lemmas writes_task_sign [writesI] = writes_keeps[OF keeps_checkTaskSigned]

section \<open>Publishing and reading tasks\<close>

fun publish_lists :: "'s chain_ops \<Rightarrow> FLTask \<Rightarrow> DataForTask option list \<Rightarrow> ('s, unit) act" where
  "publish_lists C t [] = ret ()"
| "publish_lists C t (None # dss) = fail Panicked"
| "publish_lists C t (Some ds # dss) =
     bnd (put_obj C (packExecutorTaskListIndex (dt_Executor ds) t) (Raw (tk_TaskID t))) (\<lambda>_.
     bnd (put_obj C (packRequesterExecutorTaskIndex (dt_Executor ds) t) (Raw (tk_TaskID t))) (\<lambda>_.
     publish_lists C t dss))"

text \<open>A missing task is a nil pointer; its message is empty, and reading its requester panics.\<close>

definition PublishTask :: "'s chain_ops \<Rightarrow> env \<Rightarrow> PublishFLTaskOptions arg \<Rightarrow> ('s, string) act" where
  "PublishTask C E a =
     bnd (get_arg ErrCodeInternal a) (\<lambda>opt.
     bnd (need Panicked (pto_FLTask opt)) (\<lambda>t.
     bnd (checkTaskSigned E (pto_Signature opt) (tk_Requester t) (enc_FLTask t)) (\<lambda>_.
     let t = t\<lparr>tk_Status := TaskConfirming\<rparr>; s = Doc (enc_FLTask t); index = packFlTaskIndex (tk_TaskID t) in
     bnd (absent C ErrCodeAlreadyExists index) (\<lambda>_.
     bnd (put_obj C index s) (\<lambda>_.
     bnd (put_obj C (packFlTaskListIndex t) (Raw (tk_TaskID t))) (\<lambda>_.
     bnd (publish_lists C t (tk_DataSets t)) (\<lambda>_.
     ret ''added'')))))))"

definition getTaskById :: "'s chain_ops \<Rightarrow> env \<Rightarrow> string \<Rightarrow> ('s, FLTask option) act" where
  "getTaskById C E taskID =
     bnd (get_obj C ErrCodeNotFound (packFlTaskIndex taskID)) (\<lambda>s.
     need (Errx ErrCodeInternal) (unmarshal E (dec_ptr dec_FLTask) s))"

definition GetTaskById :: "'s chain_ops \<Rightarrow> string option \<Rightarrow> ('s, blob) act" where
  "GetTaskById C id' =
     bnd (need (Errx ErrCodeParam) id') (\<lambda>taskID.
     get_obj C ErrCodeNotFound (packFlTaskIndex taskID))"

definition ListTask_body ::
    "'s chain_ops \<Rightarrow> env \<Rightarrow> 's \<Rightarrow> ListFLTaskOptions \<Rightarrow> FLTask list \<Rightarrow> string \<times> blob \<Rightarrow>
     FLTask iter result" where
  "ListTask_body C E s opt tasks kv =
     (if limit_reached (lto_Limit opt) tasks then Inr Break
      else case fst (getTaskById C E (blob_text (snd kv)) s) of
          Inl e \<Rightarrow> Inl e
        | Inr None \<Rightarrow> Inl Panicked
        | Inr (Some t) \<Rightarrow>
            if tk_PublishTime t <s lto_TimeStart opt \<or>
               (0 <s lto_TimeEnd opt \<and> lto_TimeEnd opt <s tk_PublishTime t) \<or>
               (lto_Status opt \<noteq> [] \<and> tk_Status t \<noteq> lto_Status opt)
            then Inr Continue else Inr (Append t))"

definition ListTask :: "'s chain_ops \<Rightarrow> env \<Rightarrow> ListFLTaskOptions arg \<Rightarrow> ('s, FLTask list) act" where
  "ListTask C E a =
     bnd (get_arg ErrCodeInternal a) (\<lambda>opt.
     reads (\<lambda>s. for_iter (ListTask_body C E s opt)
       (prefix_scan C s (packFlTaskFilter (lto_PubKey opt) (lto_ExecPubKey opt))) []))"

section \<open>Confirmation\<close>

fun checkExecutor :: "bytes \<Rightarrow> DataForTask option list \<Rightarrow> bool result" where
  "checkExecutor executor [] = Inr False"
| "checkExecutor executor (None # dss) = Inl Panicked"
| "checkExecutor executor (Some ds # dss) =
     (if dt_Executor ds = executor then Inr True else checkExecutor executor dss)"

text \<open>
  The loop over the data sets: the sets of the calling executor get its decision, and the flag
  tells whether all the other sets are confirmed.
\<close>

fun confirm_sets ::
    "'s chain_ops \<Rightarrow> 's \<Rightarrow> FLTaskConfirmOptions \<Rightarrow> bool \<Rightarrow> DataForTask option list \<Rightarrow>
     (DataForTask option list \<times> bool) result" where
  "confirm_sets C s opt isConfirm [] = Inr ([], True)"
| "confirm_sets C s opt isConfirm (None # dss) = Inl Panicked"
| "confirm_sets C s opt isConfirm (Some ds # dss) =
     (if dt_Executor ds = tco_Pubkey opt
      then if get_object C s (dt_DataID ds) = None then Inl (Errx ErrCodeParam)
           else if 0 <s dt_ConfirmedAt ds \<or> 0 <s dt_RejectedAt ds then Inl (Errx ErrCodeAlreadyUpdate)
           else (let ds' = (if isConfirm then ds\<lparr>dt_ConfirmedAt := tco_CurrentTime opt\<rparr>
                            else ds\<lparr>dt_RejectedAt := tco_CurrentTime opt\<rparr>)
                 in case confirm_sets C s opt isConfirm dss of Inl e \<Rightarrow> Inl e
                    | Inr (r, allc) \<Rightarrow> Inr (Some ds' # r, allc))
      else case confirm_sets C s opt isConfirm dss of Inl e \<Rightarrow> Inl e
           | Inr (r, allc) \<Rightarrow> Inr (Some ds # r, allc \<and> dt_ConfirmedAt ds \<noteq> 0))"

definition setTaskConfirmStatus ::
    "'s chain_ops \<Rightarrow> env \<Rightarrow> FLTaskConfirmOptions arg \<Rightarrow> bool \<Rightarrow> ('s, string) act" where
  "setTaskConfirmStatus C E a isConfirm =
     bnd (get_arg ErrCodeInternal a) (\<lambda>opt.
     bnd (getTaskById C E (tco_TaskID opt)) (\<lambda>tp.
     bnd (need Panicked tp) (\<lambda>t.
     bnd (lift (checkExecutor (tco_Pubkey opt) (tk_DataSets t))) (\<lambda>ok.
     bnd (require (Errx ErrCodeParam) ok) (\<lambda>_.
     bnd (checkTaskSigned E (tco_Signature opt) (tco_Pubkey opt) (enc_FLTaskConfirmOptions opt)) (\<lambda>_.
     bnd (require (Errx ErrCodeParam) (tk_Status t = TaskConfirming)) (\<lambda>_.
     bnd (reads (\<lambda>s. confirm_sets C s opt isConfirm (tk_DataSets t))) (\<lambda>(dss, isAllConfirm).
     let t = t\<lparr>tk_DataSets := dss\<rparr>;
         t = (if isAllConfirm then t\<lparr>tk_Status := TaskReady\<rparr> else t);
         t = (if \<not> isConfirm
              then t\<lparr>tk_Status := TaskRejected, tk_ErrMessage := tco_RejectReason opt\<rparr> else t) in
     bnd (put_obj C (packFlTaskIndex (tk_TaskID t)) (Doc (enc_FLTask t))) (\<lambda>_.
     ret ''OK'')))))))))"

definition ConfirmTask ::
    "'s chain_ops \<Rightarrow> env \<Rightarrow> FLTaskConfirmOptions arg \<Rightarrow> ('s, string) act" where
  "ConfirmTask C E a = setTaskConfirmStatus C E a True"

definition RejectTask ::
    "'s chain_ops \<Rightarrow> env \<Rightarrow> FLTaskConfirmOptions arg \<Rightarrow> ('s, string) act" where
  "RejectTask C E a = setTaskConfirmStatus C E a False"

section \<open>Execution\<close>

definition StartTask :: "'s chain_ops \<Rightarrow> env \<Rightarrow> StartFLTaskOptions arg \<Rightarrow> ('s, string) act" where
  "StartTask C E a =
     bnd (get_arg ErrCodeInternal a) (\<lambda>opt.
     bnd (getTaskById C E (sto_TaskID opt)) (\<lambda>tp.
     bnd (need (Errx ErrCodeInternal) (GetSigMessage (enc_StartFLTaskOptions opt))) (\<lambda>msg.
     bnd (need Panicked tp) (\<lambda>t.
     bnd (checkTaskSigned E (sto_Signature opt) (tk_Requester t) (enc_StartFLTaskOptions opt)) (\<lambda>_.
     bnd (require (Errx ErrCodeParam)
            (\<not> (tk_Status t \<noteq> TaskReady \<and> tk_Status t \<noteq> TaskFailed))) (\<lambda>_.
     let t = t\<lparr>tk_Status := TaskToProcess\<rparr> in
     bnd (put_obj C (packFlTaskIndex (tk_TaskID t)) (Doc (enc_FLTask t))) (\<lambda>_.
     ret ''OK'')))))))"

text \<open>The new task of an execution step; \<open>None\<close> when its status does not allow the step.\<close>

definition execute_step :: "FLTaskExeStatusOptions \<Rightarrow> bool \<Rightarrow> FLTask \<Rightarrow> FLTask option" where
  "execute_step opt isFinish t =
     (if isFinish
      then if tk_Status t \<noteq> TaskProcessing then None
           else (let t = t\<lparr>tk_Status := TaskFinished, tk_EndTime := teo_CurrentTime opt,
                          tk_Result := teo_Result opt\<rparr>
                 in if teo_ErrMessage opt \<noteq> []
                    then Some (t\<lparr>tk_Status := TaskFailed, tk_ErrMessage := teo_ErrMessage opt\<rparr>)
                    else Some t)
      else if tk_Status t \<noteq> TaskToProcess then None
           else Some (t\<lparr>tk_Status := TaskProcessing, tk_StartTime := teo_CurrentTime opt\<rparr>))"

definition setTaskExecuteStatus ::
    "'s chain_ops \<Rightarrow> env \<Rightarrow> FLTaskExeStatusOptions arg \<Rightarrow> bool \<Rightarrow> ('s, string) act" where
  "setTaskExecuteStatus C E a isFinish =
     bnd (get_arg ErrCodeInternal a) (\<lambda>opt.
     bnd (getTaskById C E (teo_TaskID opt)) (\<lambda>tp.
     bnd (need Panicked tp) (\<lambda>t.
     bnd (lift (checkExecutor (teo_Executor opt) (tk_DataSets t))) (\<lambda>ok.
     bnd (require (Errx ErrCodeParam) ok) (\<lambda>_.
     bnd (checkTaskSigned E (teo_Signature opt) (teo_Executor opt) (enc_FLTaskExeStatusOptions opt)) (\<lambda>_.
     bnd (need (Errx ErrCodeParam) (execute_step opt isFinish t)) (\<lambda>t.
     bnd (put_obj C (packFlTaskIndex (tk_TaskID t)) (Doc (enc_FLTask t))) (\<lambda>_.
     ret ''OK''))))))))"

definition ExecuteTask ::
    "'s chain_ops \<Rightarrow> env \<Rightarrow> FLTaskExeStatusOptions arg \<Rightarrow> ('s, string) act" where
  "ExecuteTask C E a = setTaskExecuteStatus C E a False"

definition FinishTask ::
    "'s chain_ops \<Rightarrow> env \<Rightarrow> FLTaskExeStatusOptions arg \<Rightarrow> ('s, string) act" where
  "FinishTask C E a = setTaskExecuteStatus C E a True"

section \<open>Executor nodes\<close>

text \<open>
  The regular expression \<open>^[a-z0-9]{4,16}\<close> is not anchored at the end: it holds of every name that
  starts with four lower-case letters or digits.
\<close>

definition name_char :: "char \<Rightarrow> bool" where
  "name_char c \<longleftrightarrow> (CHR ''a'' \<le> c \<and> c \<le> CHR ''z'') \<or> (CHR ''0'' \<le> c \<and> c \<le> CHR ''9'')"

definition name_ok :: "string \<Rightarrow> bool" where
  "name_ok name \<longleftrightarrow> (\<exists>n \<in> {4..16}. n \<le> length name \<and> list_all name_char (take n name))"

definition RegisterExecutorNode ::
    "'s chain_ops \<Rightarrow> env \<Rightarrow> AddExecutorOptions arg \<Rightarrow> ('s, string) act" where
  "RegisterExecutorNode C E a =
     bnd (get_arg ErrCodeInternal a) (\<lambda>opt.
     let node = aeo_Node opt; s = Doc (enc_ExecutorNode node) in
     bnd (require (Errx ErrCodeParam) (name_ok (en_Name node))) (\<lambda>_.
     bnd (checkTaskSigned E (aeo_Signature opt) (en_ID node) (enc_AddExecutorOptions opt)) (\<lambda>_.
     bnd (absent C ErrCodeAlreadyExists (packExecutorIndex (en_ID node))) (\<lambda>_.
     bnd (put_obj C (packExecutorIndex (en_ID node)) s) (\<lambda>_.
     bnd (absent C ErrCodeAlreadyExists (packNodeNameIndex (en_Name node))) (\<lambda>_.
     bnd (put_obj C (packNodeNameIndex (en_Name node)) s) (\<lambda>_.
     bnd (put_obj C (packExecutorListIndex node) s) (\<lambda>_.
     ret ''added''))))))))"

definition ListExecutorNodes_body ::
    "env \<Rightarrow> ExecutorNode list \<Rightarrow> string \<times> blob \<Rightarrow> ExecutorNode iter result" where
  "ListExecutorNodes_body E nodes kv =
     (case unmarshal E dec_ExecutorNode (snd kv) of None \<Rightarrow> Inl (Errx ErrCodeInternal)
      | Some node \<Rightarrow> Inr (Append node))"

definition ListExecutorNodes :: "'s chain_ops \<Rightarrow> env \<Rightarrow> ('s, ExecutorNode list) act" where
  "ListExecutorNodes C E = reads (\<lambda>s.
     for_iter (ListExecutorNodes_body E) (prefix_scan C s (prefix_of ExecutorListIndex)) [])"

definition GetExecutorNodeByID :: "'s chain_ops \<Rightarrow> string option \<Rightarrow> ('s, blob) act" where
  "GetExecutorNodeByID C id' =
     bnd (need (Errx ErrCodeParam) id') (\<lambda>nodeID.
     get_obj C ErrCodeNotFound (packNodeStringIndex nodeID))"

definition GetExecutorNodeByName :: "'s chain_ops \<Rightarrow> string option \<Rightarrow> ('s, blob) act" where
  "GetExecutorNodeByName C name =
     bnd (need (Errx ErrCodeParam) name) (\<lambda>nodeName.
     get_obj C ErrCodeNotFound (packNodeNameIndex nodeName))"

section \<open>Footprints\<close>

lemma keeps_getTaskById [quietI]: "keeps_state (getTaskById C E i)"
  unfolding getTaskById_def by (intro quietI)

lemmas writes_task_reads [writesI] = writes_keeps[OF keeps_getTaskById]

context chain begin

lemma publish_lists_writes:
  "writes C (in_index {FlTaskListIndex, REFlTaskListIndex}) (publish_lists C t dss)"
proof (induction dss)
  case Nil
  then show ?case by (auto intro: writesI)
next
  case (Cons d dss)
  then show ?case by (cases d) (auto intro!: writesI writes_put_obj simp: dai_pack_defs)
qed

lemma PublishTask_writes:
  "writes C (in_index {FlTaskIndex, FlTaskListIndex, REFlTaskListIndex}) (PublishTask C E a)"
proof -
  have "writes C (in_index {FlTaskIndex, FlTaskListIndex, REFlTaskListIndex}) (publish_lists C t dss)" for t dss
    using publish_lists_writes[of t dss] by (auto simp: writes_def in_index_def)
  then show ?thesis
    unfolding PublishTask_def Let_def by (intro writesI writes_put_obj) (simp_all add: dai_pack_defs)
qed

lemma setTaskConfirmStatus_writes: "writes C (in_index {FlTaskIndex}) (setTaskConfirmStatus C E a b)"
  unfolding setTaskConfirmStatus_def Let_def case_prod_beta
  by (intro writesI writes_put_obj) (simp_all add: dai_pack_defs)

lemma StartTask_writes: "writes C (in_index {FlTaskIndex}) (StartTask C E a)"
  unfolding StartTask_def Let_def by (intro writesI writes_put_obj) (simp_all add: dai_pack_defs)

lemma setTaskExecuteStatus_writes: "writes C (in_index {FlTaskIndex}) (setTaskExecuteStatus C E a b)"
  unfolding setTaskExecuteStatus_def Let_def by (intro writesI writes_put_obj) (simp_all add: dai_pack_defs)

lemma RegisterExecutorNode_writes:
  "writes C (in_index {ExecutorNodeIndex, ExecutorNameIndex, ExecutorListIndex}) (RegisterExecutorNode C E a)"
  unfolding RegisterExecutorNode_def Let_def
  by (intro writesI writes_put_obj) (simp_all add: dai_pack_defs)

end

section \<open>The book of tasks\<close>

definition executors :: "DataForTask option list \<Rightarrow> bytes set" where
  "executors dss = {dt_Executor ds | ds. Some ds \<in> set dss}"

definition task_at :: "'s chain_ops \<Rightarrow> 's \<Rightarrow> FLTask \<Rightarrow> bool" where
  "task_at C s t \<longleftrightarrow> get_object C s (packFlTaskIndex (tk_TaskID t)) = Some (Doc (enc_FLTask t))"

definition task_states :: "string set" where
  "task_states = {TaskConfirming, TaskReady, TaskToProcess, TaskProcessing, TaskFinished, TaskFailed,
     TaskRejected}"

text \<open>The parties under whose key a task is listed.\<close>

definition parties :: "FLTask \<Rightarrow> bytes set" where
  "parties t = insert (tk_Requester t) (executors (tk_DataSets t))"

definition task_inv :: "'s chain_ops \<Rightarrow> 's \<Rightarrow> bool" where
  "task_inv C s \<longleftrightarrow>
     (\<forall>i v. get_object C s (packFlTaskIndex i) = Some v \<longrightarrow>
        (\<exists>t. v = Doc (enc_FLTask t) \<and> tk_TaskID t = i \<and> tk_Status t \<in> task_states \<and>
           None \<notin> set (tk_DataSets t) \<and>
           (\<forall>pk \<in> parties t. get_object C s (packExecutorTaskListIndex pk t) = Some (Raw i)) \<and>
           (\<forall>pk \<in> executors (tk_DataSets t).
              get_object C s (packRequesterExecutorTaskIndex pk t) = Some (Raw i)))) \<and>
     (\<forall>k v. under FlTaskListIndex k \<longrightarrow> get_object C s k = Some v \<longrightarrow>
        (\<exists>t pk. task_at C s t \<and> pk \<in> parties t \<and> k = packExecutorTaskListIndex pk t \<and>
           v = Raw (tk_TaskID t))) \<and>
     (\<forall>k v. under REFlTaskListIndex k \<longrightarrow> get_object C s k = Some v \<longrightarrow>
        (\<exists>t pk. task_at C s t \<and> pk \<in> executors (tk_DataSets t) \<and>
           k = packRequesterExecutorTaskIndex pk t \<and> v = Raw (tk_TaskID t)))"

lemma packFlTaskListIndex_requester: "packFlTaskListIndex t = packExecutorTaskListIndex (tk_Requester t) t"
  by (simp add: dai_pack_defs)

lemma task_key_simps [simp]:
  "packFlTaskIndex i = packFlTaskIndex j \<longleftrightarrow> i = j"
  "packExecutorTaskListIndex p t = packExecutorTaskListIndex q u \<longleftrightarrow>
     p = q \<and> tk_PublishTime t = tk_PublishTime u \<and> tk_TaskID t = tk_TaskID u"
  "packRequesterExecutorTaskIndex p t = packRequesterExecutorTaskIndex q u \<longleftrightarrow>
     tk_Requester t = tk_Requester u \<and> p = q \<and> tk_PublishTime t = tk_PublishTime u \<and>
     tk_TaskID t = tk_TaskID u"
  "packFlTaskIndex i \<noteq> packExecutorTaskListIndex p t" "packExecutorTaskListIndex p t \<noteq> packFlTaskIndex i"
  "packFlTaskIndex i \<noteq> packRequesterExecutorTaskIndex p t"
  "packRequesterExecutorTaskIndex p t \<noteq> packFlTaskIndex i"
  "packExecutorTaskListIndex p t \<noteq> packRequesterExecutorTaskIndex q u"
  "packRequesterExecutorTaskIndex q u \<noteq> packExecutorTaskListIndex p t"
  "under FlTaskListIndex (packExecutorTaskListIndex p t)"
  "under REFlTaskListIndex (packRequesterExecutorTaskIndex p t)"
  "\<not> under FlTaskListIndex (packFlTaskIndex i)" "\<not> under REFlTaskListIndex (packFlTaskIndex i)"
  "\<not> under FlTaskListIndex (packRequesterExecutorTaskIndex p t)"
  "\<not> under REFlTaskListIndex (packExecutorTaskListIndex p t)"
  by (auto simp: dai_pack_defs)

lemma task_invD:
  assumes "task_inv C s"
  shows "get_object C s (packFlTaskIndex i) = Some v \<Longrightarrow>
        \<exists>t. v = Doc (enc_FLTask t) \<and> tk_TaskID t = i \<and> tk_Status t \<in> task_states \<and>
           None \<notin> set (tk_DataSets t) \<and>
           (\<forall>pk \<in> parties t. get_object C s (packExecutorTaskListIndex pk t) = Some (Raw i)) \<and>
           (\<forall>pk \<in> executors (tk_DataSets t).
              get_object C s (packRequesterExecutorTaskIndex pk t) = Some (Raw i))"
    and "under FlTaskListIndex k \<Longrightarrow> get_object C s k = Some v \<Longrightarrow>
        \<exists>t pk. task_at C s t \<and> pk \<in> parties t \<and> k = packExecutorTaskListIndex pk t \<and>
           v = Raw (tk_TaskID t)"
    and "under REFlTaskListIndex k \<Longrightarrow> get_object C s k = Some v \<Longrightarrow>
        \<exists>t pk. task_at C s t \<and> pk \<in> executors (tk_DataSets t) \<and>
           k = packRequesterExecutorTaskIndex pk t \<and> v = Raw (tk_TaskID t)"
  using assms unfolding task_inv_def by blast+

lemma task_at_facts:
  assumes "task_inv C s" and "task_at C s t"
  shows "tk_Status t \<in> task_states" and "None \<notin> set (tk_DataSets t)"
    and "pk \<in> parties t \<Longrightarrow> get_object C s (packExecutorTaskListIndex pk t) = Some (Raw (tk_TaskID t))"
    and "pk \<in> executors (tk_DataSets t) \<Longrightarrow>
      get_object C s (packRequesterExecutorTaskIndex pk t) = Some (Raw (tk_TaskID t))"
  using task_invD(1)[OF assms(1) assms(2)[unfolded task_at_def]] by auto

lemma task_inv_frame:
  assumes inv: "task_inv C s"
    and "\<And>i. get_object C s' (packFlTaskIndex i) = get_object C s (packFlTaskIndex i)"
    and "\<And>k. under FlTaskListIndex k \<or> under REFlTaskListIndex k \<Longrightarrow>
      get_object C s' k = get_object C s k"
  shows "task_inv C s'"
  using inv by (simp add: task_inv_def task_at_def assms(2,3))

text \<open>
  One lemma for publication and update: the record of a task is stored, and its list entries are
  there, as long as a task of that identifier is listed under the same keys.
\<close>

lemma task_inv_store:
  assumes inv: "task_inv C s"
    and ix: "\<And>i. get_object C s' (packFlTaskIndex i) =
        (if i = tk_TaskID t then Some (Doc (enc_FLTask t)) else get_object C s (packFlTaskIndex i))"
    and l1: "\<And>k. under FlTaskListIndex k \<Longrightarrow> get_object C s' k =
        (if \<exists>pk \<in> parties t. k = packExecutorTaskListIndex pk t then Some (Raw (tk_TaskID t))
         else get_object C s k)"
    and l2: "\<And>k. under REFlTaskListIndex k \<Longrightarrow> get_object C s' k =
        (if \<exists>pk \<in> executors (tk_DataSets t). k = packRequesterExecutorTaskIndex pk t
         then Some (Raw (tk_TaskID t)) else get_object C s k)"
    and st: "tk_Status t \<in> task_states" and nn: "None \<notin> set (tk_DataSets t)"
    and same: "\<And>u. task_at C s u \<Longrightarrow> tk_TaskID u = tk_TaskID t \<Longrightarrow>
        tk_Requester u = tk_Requester t \<and> tk_PublishTime u = tk_PublishTime t \<and>
        executors (tk_DataSets u) = executors (tk_DataSets t)"
  shows "task_inv C s'"
proof -
  have at: "task_at C s' u" if "task_at C s u" "tk_TaskID u \<noteq> tk_TaskID t" for u
    using that by (simp add: task_at_def ix)
  have att: "task_at C s' t" by (simp add: task_at_def ix)
  have m1: "get_object C s' (packExecutorTaskListIndex pk t) = Some (Raw (tk_TaskID t))"
    if "pk \<in> parties t" for pk using that by (subst l1) auto
  have m2: "get_object C s' (packRequesterExecutorTaskIndex pk t) = Some (Raw (tk_TaskID t))"
    if "pk \<in> executors (tk_DataSets t)" for pk using that by (subst l2) auto
  have o1: "get_object C s' (packExecutorTaskListIndex pk u) =
      get_object C s (packExecutorTaskListIndex pk u)" if "tk_TaskID u \<noteq> tk_TaskID t" for pk u
    using that by (subst l1) auto
  have o2: "get_object C s' (packRequesterExecutorTaskIndex pk u) =
      get_object C s (packRequesterExecutorTaskIndex pk u)" if "tk_TaskID u \<noteq> tk_TaskID t" for pk u
    using that by (subst l2) auto
  have 1: "\<exists>u. v = Doc (enc_FLTask u) \<and> tk_TaskID u = i \<and> tk_Status u \<in> task_states \<and>
           None \<notin> set (tk_DataSets u) \<and>
           (\<forall>pk \<in> parties u. get_object C s' (packExecutorTaskListIndex pk u) = Some (Raw i)) \<and>
           (\<forall>pk \<in> executors (tk_DataSets u).
              get_object C s' (packRequesterExecutorTaskIndex pk u) = Some (Raw i))"
    if v: "get_object C s' (packFlTaskIndex i) = Some v" for i v
  proof (cases "i = tk_TaskID t")
    case True
    with v st nn m1 m2 show ?thesis by (intro exI[of _ t]) (simp add: ix)
  next
    case False
    with v have "get_object C s (packFlTaskIndex i) = Some v" by (simp add: ix)
    from task_invD(1)[OF inv this] obtain u where u: "v = Doc (enc_FLTask u)" "tk_TaskID u = i"
      "tk_Status u \<in> task_states" "None \<notin> set (tk_DataSets u)"
      "\<forall>pk \<in> parties u. get_object C s (packExecutorTaskListIndex pk u) = Some (Raw i)"
      "\<forall>pk \<in> executors (tk_DataSets u).
              get_object C s (packRequesterExecutorTaskIndex pk u) = Some (Raw i)" by blast
    with o1[of u] o2[of u] False show ?thesis by (intro exI[of _ u]) simp
  qed
  have 2: "\<exists>u pk. task_at C s' u \<and> pk \<in> parties u \<and> k = packExecutorTaskListIndex pk u \<and>
      v = Raw (tk_TaskID u)"
    if k: "under FlTaskListIndex k" and v: "get_object C s' k = Some v" for k v
  proof (cases "\<exists>pk \<in> parties t. k = packExecutorTaskListIndex pk t")
    case True
    with v att m1 show ?thesis by auto
  next
    case False
    with v l1[OF k] have "get_object C s k = Some v" by simp
    from task_invD(2)[OF inv k this] obtain u pk where u: "task_at C s u" "pk \<in> parties u"
      "k = packExecutorTaskListIndex pk u" "v = Raw (tk_TaskID u)" by blast
    have "tk_TaskID u \<noteq> tk_TaskID t" using same[OF u(1)] u(2,3) False by (auto simp: parties_def)
    with at[OF u(1)] u show ?thesis by blast
  qed
  have 3: "\<exists>u pk. task_at C s' u \<and> pk \<in> executors (tk_DataSets u) \<and>
      k = packRequesterExecutorTaskIndex pk u \<and> v = Raw (tk_TaskID u)"
    if k: "under REFlTaskListIndex k" and v: "get_object C s' k = Some v" for k v
  proof (cases "\<exists>pk \<in> executors (tk_DataSets t). k = packRequesterExecutorTaskIndex pk t")
    case True
    with v att m2 show ?thesis by auto
  next
    case False
    with v l2[OF k] have "get_object C s k = Some v" by simp
    from task_invD(3)[OF inv k this] obtain u pk where u: "task_at C s u"
      "pk \<in> executors (tk_DataSets u)" "k = packRequesterExecutorTaskIndex pk u"
      "v = Raw (tk_TaskID u)" by blast
    have "tk_TaskID u \<noteq> tk_TaskID t" using same[OF u(1)] u(2,3) False by auto
    with at[OF u(1)] u show ?thesis by blast
  qed
  show ?thesis unfolding task_inv_def using 1 2 3 by blast
qed

lemma task_of_id:
  assumes "task_inv C s" and "get_object C s (packFlTaskIndex i) = Some b"
    and "unmarshal E (dec_ptr dec_FLTask) b = Some (Some t)"
  shows "tk_TaskID t = i" and "task_at C s t"
  using task_invD(1)[OF assms(1,2)] assms(2,3) by (auto simp: task_at_def dec_ptr_def)

section \<open>Effects\<close>

text \<open>The decision of an executor, on the sets that are his.\<close>

definition decide :: "FLTaskConfirmOptions \<Rightarrow> bool \<Rightarrow> DataForTask \<Rightarrow> DataForTask" where
  "decide opt isConfirm ds =
     (if dt_Executor ds = tco_Pubkey opt
      then if isConfirm then ds\<lparr>dt_ConfirmedAt := tco_CurrentTime opt\<rparr>
           else ds\<lparr>dt_RejectedAt := tco_CurrentTime opt\<rparr>
      else ds)"

definition others_confirmed :: "FLTaskConfirmOptions \<Rightarrow> DataForTask option list \<Rightarrow> bool" where
  "others_confirmed opt dss \<longleftrightarrow>
     (\<forall>ds. Some ds \<in> set dss \<longrightarrow> dt_Executor ds = tco_Pubkey opt \<or> dt_ConfirmedAt ds \<noteq> 0)"

lemma executors_Cons:
  "executors (Some ds # dss) = insert (dt_Executor ds) (executors dss)" "executors [] = {}"
  "executors (None # dss) = executors dss"
  by (auto simp: executors_def)

lemma checkExecutor_ok: "checkExecutor pk dss = Inr True \<Longrightarrow> pk \<in> executors dss"
  by (induction pk dss rule: checkExecutor.induct) (auto simp: executors_Cons split: if_splits)

lemma confirm_sets_ok:
  assumes "confirm_sets C s opt b dss = Inr (dss', allc)"
  shows "dss' = map (map_option (decide opt b)) dss" and "None \<notin> set dss"
    and "allc \<longleftrightarrow> others_confirmed opt dss"
    and "Some ds \<in> set dss \<Longrightarrow> dt_Executor ds = tco_Pubkey opt \<Longrightarrow>
      get_object C s (dt_DataID ds) \<noteq> None \<and> \<not> 0 <s dt_ConfirmedAt ds \<and> \<not> 0 <s dt_RejectedAt ds"
proof -
  have "dss' = map (map_option (decide opt b)) dss \<and> None \<notin> set dss \<and>
    (allc \<longleftrightarrow> others_confirmed opt dss) \<and>
    (Some ds \<in> set dss \<longrightarrow> dt_Executor ds = tco_Pubkey opt \<longrightarrow>
      get_object C s (dt_DataID ds) \<noteq> None \<and> \<not> 0 <s dt_ConfirmedAt ds \<and> \<not> 0 <s dt_RejectedAt ds)"
    using assms
  proof (induction C s opt b dss arbitrary: dss' allc rule: confirm_sets.induct)
    case (3 C s opt b d dss)
    obtain r c where r: "confirm_sets C s opt b dss = Inr (r, c)"
      using "3.prems" by (auto simp: Let_def split: if_splits sum.splits)
    show ?case
    proof (cases "dt_Executor d = tco_Pubkey opt")
      case True
      with "3.prems" r have u: "get_object C s (dt_DataID d) \<noteq> None" "\<not> 0 <s dt_ConfirmedAt d"
        "\<not> 0 <s dt_RejectedAt d" by (auto split: if_splits)
      with "3.prems" r True have "dss' = Some (decide opt b d) # r \<and> allc = c"
        by (auto simp: Let_def decide_def)
      with "3.IH"(1)[OF True _ _ refl r] u True show ?thesis by (auto simp: others_confirmed_def)
    next
      case False
      with "3.prems" r have "dss' = Some (decide opt b d) # r \<and> (allc \<longleftrightarrow> c \<and> dt_ConfirmedAt d \<noteq> 0)"
        by (auto simp: decide_def)
      with "3.IH"(2)[OF False r] False show ?thesis by (auto simp: others_confirmed_def)
    qed
  qed (auto simp: others_confirmed_def)
  then show "dss' = map (map_option (decide opt b)) dss" and "None \<notin> set dss"
    and "allc \<longleftrightarrow> others_confirmed opt dss"
    and "Some ds \<in> set dss \<Longrightarrow> dt_Executor ds = tco_Pubkey opt \<Longrightarrow>
      get_object C s (dt_DataID ds) \<noteq> None \<and> \<not> 0 <s dt_ConfirmedAt ds \<and> \<not> 0 <s dt_RejectedAt ds"
    by auto
qed

lemma decide_executor [simp]: "dt_Executor (decide opt b ds) = dt_Executor ds"
  by (simp add: decide_def)

lemma executors_decide [simp]: "executors (map (map_option (decide opt b)) dss) = executors dss"
proof (induction dss)
  case (Cons d dss)
  then show ?case by (cases d) (simp_all add: executors_Cons)
qed simp

text \<open>The task after a decision.\<close>

definition decided :: "FLTaskConfirmOptions \<Rightarrow> bool \<Rightarrow> FLTask \<Rightarrow> FLTask" where
  "decided opt isConfirm t =
     (let t1 = t\<lparr>tk_DataSets := map (map_option (decide opt isConfirm)) (tk_DataSets t)\<rparr> in
      if \<not> isConfirm then t1\<lparr>tk_Status := TaskRejected, tk_ErrMessage := tco_RejectReason opt\<rparr>
      else if others_confirmed opt (tk_DataSets t) then t1\<lparr>tk_Status := TaskReady\<rparr> else t1)"

context chain begin

lemma publish_lists_effect:
  assumes "publish_lists C t dss s = (Inr u, s')"
  shows "None \<notin> set dss" and "get_object C s' k =
    (if \<exists>pk \<in> executors dss. k = packExecutorTaskListIndex pk t \<or> k = packRequesterExecutorTaskIndex pk t
     then Some (Raw (tk_TaskID t)) else get_object C s k)"
proof -
  have "None \<notin> set dss \<and> get_object C s' k =
    (if \<exists>pk \<in> executors dss. k = packExecutorTaskListIndex pk t \<or> k = packRequesterExecutorTaskIndex pk t
     then Some (Raw (tk_TaskID t)) else get_object C s k)"
    using assms
  proof (induction dss arbitrary: s)
    case Nil
    then show ?case by (simp add: act_ok executors_Cons)
  next
    case (Cons d dss)
    show ?case
    proof (cases d)
      case None
      with Cons.prems show ?thesis by (simp add: act_ok)
    next
      case (Some ds)
      from Cons.prems obtain s1 s2 where
        p: "put_object C s (packExecutorTaskListIndex (dt_Executor ds) t) (Raw (tk_TaskID t)) = Some s1"
          "put_object C s1 (packRequesterExecutorTaskIndex (dt_Executor ds) t) (Raw (tk_TaskID t)) = Some s2"
        and rest: "publish_lists C t dss s2 = (Inr u, s')"
        by (auto simp: Some act_ok)
      from Cons.IH[OF rest] p[THEN get_put, of k] show ?thesis
        unfolding Some executors_Cons bex_simps by (simp split: if_splits)
    qed
  qed
  then show "None \<notin> set dss" and "get_object C s' k =
    (if \<exists>pk \<in> executors dss. k = packExecutorTaskListIndex pk t \<or> k = packRequesterExecutorTaskIndex pk t
     then Some (Raw (tk_TaskID t)) else get_object C s k)" by auto
qed

lemma PublishTask_effect:
  assumes "PublishTask C E a s = (Inr r, s')"
  obtains opt :: PublishFLTaskOptions and t0 t :: FLTask where "a = Got opt" and "pto_FLTask opt = Some t0"
    and "t = t0\<lparr>tk_Status := TaskConfirming\<rparr>"
    and "task_signed E (pto_Signature opt) (tk_Requester t0) (enc_FLTask t0)"
    and "get_object C s (packFlTaskIndex (tk_TaskID t)) = None"
    and "None \<notin> set (tk_DataSets t)"
    and "\<And>k. get_object C s' k =
      (if (\<exists>pk \<in> parties t. k = packExecutorTaskListIndex pk t) \<or>
          (\<exists>pk \<in> executors (tk_DataSets t). k = packRequesterExecutorTaskIndex pk t)
       then Some (Raw (tk_TaskID t))
       else if k = packFlTaskIndex (tk_TaskID t) then Some (Doc (enc_FLTask t)) else get_object C s k)"
proof -
  from assms obtain opt :: PublishFLTaskOptions and t0 :: FLTask where a: "a = Got opt"
    and t0: "pto_FLTask opt = Some t0"
    and sg: "task_signed E (pto_Signature opt) (tk_Requester t0) (enc_FLTask t0)"
    and new: "get_object C s (packFlTaskIndex (tk_TaskID t0)) = None"
    by (auto simp: PublishTask_def Let_def act_ok)
  define t where "t = t0\<lparr>tk_Status := TaskConfirming\<rparr>"
  from assms a t0 obtain s1 s2 where
    p: "put_object C s (packFlTaskIndex (tk_TaskID t)) (Doc (enc_FLTask t)) = Some s1"
      "put_object C s1 (packFlTaskListIndex t) (Raw (tk_TaskID t)) = Some s2"
    and ls: "publish_lists C t (tk_DataSets t) s2 = (Inr (), s')"
    by (auto simp: PublishTask_def Let_def act_ok t_def)
  show thesis
  proof (rule that[OF a t0 t_def sg])
    show "get_object C s (packFlTaskIndex (tk_TaskID t)) = None" using new by (simp add: t_def)
    show "None \<notin> set (tk_DataSets t)" by (rule publish_lists_effect(1)[OF ls])
    show "get_object C s' k = (if (\<exists>pk \<in> parties t. k = packExecutorTaskListIndex pk t) \<or>
          (\<exists>pk \<in> executors (tk_DataSets t). k = packRequesterExecutorTaskIndex pk t)
       then Some (Raw (tk_TaskID t))
       else if k = packFlTaskIndex (tk_TaskID t) then Some (Doc (enc_FLTask t)) else get_object C s k)" for k
      using publish_lists_effect(2)[OF ls, of k] p[THEN get_put, of k]
      by (auto simp: parties_def packFlTaskListIndex_requester)
  qed
qed

lemma setTaskConfirmStatus_effect:
  assumes "setTaskConfirmStatus C E a isConfirm s = (Inr r, s')"
  obtains opt :: FLTaskConfirmOptions and b and t :: FLTask where "a = Got opt"
    and "get_object C s (packFlTaskIndex (tco_TaskID opt)) = Some b"
    and "unmarshal E (dec_ptr dec_FLTask) b = Some (Some t)"
    and "tco_Pubkey opt \<in> executors (tk_DataSets t)"
    and "task_signed E (tco_Signature opt) (tco_Pubkey opt) (enc_FLTaskConfirmOptions opt)"
    and "tk_Status t = TaskConfirming" and "None \<notin> set (tk_DataSets t)"
    and "\<And>ds. Some ds \<in> set (tk_DataSets t) \<Longrightarrow> dt_Executor ds = tco_Pubkey opt \<Longrightarrow>
      get_object C s (dt_DataID ds) \<noteq> None \<and> \<not> 0 <s dt_ConfirmedAt ds \<and> \<not> 0 <s dt_RejectedAt ds"
    and "get_object C s' =
      (get_object C s)(packFlTaskIndex (tk_TaskID t) \<mapsto> Doc (enc_FLTask (decided opt isConfirm t)))"
proof -
  from assms obtain opt :: FLTaskConfirmOptions and b dss allc and t :: FLTask where a: "a = Got opt"
    and b: "get_object C s (packFlTaskIndex (tco_TaskID opt)) = Some b"
      "unmarshal E (dec_ptr dec_FLTask) b = Some (Some t)"
    and ex: "checkExecutor (tco_Pubkey opt) (tk_DataSets t) = Inr True"
    and sg: "task_signed E (tco_Signature opt) (tco_Pubkey opt) (enc_FLTaskConfirmOptions opt)"
    and st: "tk_Status t = TaskConfirming"
    and cs: "confirm_sets C s opt isConfirm (tk_DataSets t) = Inr (dss, allc)"
    and run: "bnd (put_obj C (packFlTaskIndex (tk_TaskID t)) (Doc (enc_FLTask
        (let t = t\<lparr>tk_DataSets := dss\<rparr>; t = (if allc then t\<lparr>tk_Status := TaskReady\<rparr> else t) in
         if \<not> isConfirm then t\<lparr>tk_Status := TaskRejected, tk_ErrMessage := tco_RejectReason opt\<rparr>
         else t)))) (\<lambda>_. ret ''OK'') s = (Inr r, s')"
    by (auto simp: setTaskConfirmStatus_def getTaskById_def Let_def act_ok split: if_splits)
  note ok = confirm_sets_ok[OF cs]
  have "decided opt isConfirm t = (let t = t\<lparr>tk_DataSets := dss\<rparr>;
         t = (if allc then t\<lparr>tk_Status := TaskReady\<rparr> else t) in
         if \<not> isConfirm then t\<lparr>tk_Status := TaskRejected, tk_ErrMessage := tco_RejectReason opt\<rparr> else t)"
    using ok(1,3) by (simp add: decided_def Let_def)
  with run have "get_object C s' =
      (get_object C s)(packFlTaskIndex (tk_TaskID t) \<mapsto> Doc (enc_FLTask (decided opt isConfirm t)))"
    by (auto simp: act_ok get_put fun_eq_iff)
  with a b checkExecutor_ok[OF ex] sg st ok(2) ok(4) show thesis by (rule that)
qed

lemma StartTask_effect:
  assumes "StartTask C E a s = (Inr r, s')"
  obtains opt b and t :: FLTask where "a = Got opt"
    and "get_object C s (packFlTaskIndex (sto_TaskID opt)) = Some b"
    and "unmarshal E (dec_ptr dec_FLTask) b = Some (Some t)"
    and "task_signed E (sto_Signature opt) (tk_Requester t) (enc_StartFLTaskOptions opt)"
    and "tk_Status t = TaskReady \<or> tk_Status t = TaskFailed"
    and "get_object C s' = (get_object C s)(packFlTaskIndex (tk_TaskID t) \<mapsto>
      Doc (enc_FLTask (t\<lparr>tk_Status := TaskToProcess\<rparr>)))"
  using assms
  by (auto simp: StartTask_def getTaskById_def Let_def act_ok get_put fun_eq_iff intro!: that)

lemma setTaskExecuteStatus_effect:
  assumes "setTaskExecuteStatus C E a isFinish s = (Inr r, s')"
  obtains opt b and t u :: FLTask where "a = Got opt"
    and "get_object C s (packFlTaskIndex (teo_TaskID opt)) = Some b"
    and "unmarshal E (dec_ptr dec_FLTask) b = Some (Some t)"
    and "teo_Executor opt \<in> executors (tk_DataSets t)"
    and "task_signed E (teo_Signature opt) (teo_Executor opt) (enc_FLTaskExeStatusOptions opt)"
    and "execute_step opt isFinish t = Some u"
    and "get_object C s' = (get_object C s)(packFlTaskIndex (tk_TaskID u) \<mapsto> Doc (enc_FLTask u))"
  using assms
  by (auto simp: setTaskExecuteStatus_def getTaskById_def Let_def act_ok get_put fun_eq_iff
      intro!: that dest: checkExecutor_ok)

end

end
