(* ===== verification/DaiSystem.thy ===== *)
theory DaiSystem
  imports DaiContract
begin

text \<open>
  The contract of the computation network as a whole (\<^verbatim>\<open>dai/blockchain/xchain/contract\<close>): it
  embeds the XuperDB contract, so one ledger holds the files, nodes, challenges and authorisations
  of the storage network and the tasks and executor nodes of the computation network. The calls of
  both, the ledger states they reach, the invariant of these states, and the life of a task.
\<close>

section \<open>Tasks are kept\<close>

context chain begin

lemma PublishTask_keeps:
  assumes "task_inv C s" and "PublishTask C E a s = (Inr r, s')"
  shows "task_inv C s'"
  using assms(2)
proof (rule PublishTask_effect)
  fix t0 t :: FLTask
  assume t: "t = t0\<lparr>tk_Status := TaskConfirming\<rparr>" and nn: "None \<notin> set (tk_DataSets t)"
    and new: "get_object C s (packFlTaskIndex (tk_TaskID t)) = None"
    and get: "\<And>k. get_object C s' k =
      (if (\<exists>pk \<in> parties t. k = packExecutorTaskListIndex pk t) \<or>
          (\<exists>pk \<in> executors (tk_DataSets t). k = packRequesterExecutorTaskIndex pk t)
       then Some (Raw (tk_TaskID t))
       else if k = packFlTaskIndex (tk_TaskID t) then Some (Doc (enc_FLTask t)) else get_object C s k)"
  show ?thesis
  proof (rule task_inv_store[OF assms(1), where t = t])
    show "get_object C s' (packFlTaskIndex i) =
        (if i = tk_TaskID t then Some (Doc (enc_FLTask t)) else get_object C s (packFlTaskIndex i))" for i
      by (subst get) simp
    show "get_object C s' k =
        (if \<exists>pk \<in> parties t. k = packExecutorTaskListIndex pk t then Some (Raw (tk_TaskID t))
         else get_object C s k)" if "under FlTaskListIndex k" for k
    proof -
      have "k \<noteq> packFlTaskIndex i" "k \<noteq> packRequesterExecutorTaskIndex pk t" for i pk using that by auto
      then show ?thesis by (subst get) simp
    qed
    show "get_object C s' k =
        (if \<exists>pk \<in> executors (tk_DataSets t). k = packRequesterExecutorTaskIndex pk t
         then Some (Raw (tk_TaskID t)) else get_object C s k)" if "under REFlTaskListIndex k" for k
    proof -
      have "k \<noteq> packFlTaskIndex i" "k \<noteq> packExecutorTaskListIndex pk t" for i pk using that by auto
      then show ?thesis by (subst get) simp
    qed
    show "tk_Status t \<in> task_states" by (simp add: t task_states_def)
    show "tk_Requester u = tk_Requester t \<and> tk_PublishTime u = tk_PublishTime t \<and>
        executors (tk_DataSets u) = executors (tk_DataSets t)"
      if "task_at C s u" "tk_TaskID u = tk_TaskID t" for u
      using that new by (simp add: task_at_def)
  qed (rule nn)
qed

text \<open>An update stores the task again, with the same identifier, parties and publication time.\<close>

lemma task_inv_update:
  assumes inv: "task_inv C s" and at: "task_at C s t" and id: "tk_TaskID u = tk_TaskID t"
    and get: "get_object C s' = (get_object C s)(packFlTaskIndex (tk_TaskID t) \<mapsto> Doc (enc_FLTask u))"
    and st: "tk_Status u \<in> task_states" and nn: "None \<notin> set (tk_DataSets u)"
    and same: "tk_Requester u = tk_Requester t" "tk_PublishTime u = tk_PublishTime t"
      "executors (tk_DataSets u) = executors (tk_DataSets t)"
  shows "task_inv C s'"
proof (rule task_inv_store[OF inv, where t = u])
  have keys: "packExecutorTaskListIndex pk u = packExecutorTaskListIndex pk t"
    "packRequesterExecutorTaskIndex pk u = packRequesterExecutorTaskIndex pk t" for pk
    by (simp_all add: id same)
  show "get_object C s' (packFlTaskIndex i) =
      (if i = tk_TaskID u then Some (Doc (enc_FLTask u)) else get_object C s (packFlTaskIndex i))" for i
    by (simp add: get id)
  show "get_object C s' k =
      (if \<exists>pk \<in> parties u. k = packExecutorTaskListIndex pk u then Some (Raw (tk_TaskID u))
       else get_object C s k)" if "under FlTaskListIndex k" for k
  proof -
    have "k \<noteq> packFlTaskIndex i" for i using that by auto
    then have g: "get_object C s' k = get_object C s k" by (simp add: get)
    show ?thesis
    proof (cases "\<exists>pk \<in> parties u. k = packExecutorTaskListIndex pk u")
      case True
      then obtain pk where pk: "pk \<in> parties t" "k = packExecutorTaskListIndex pk t"
        unfolding keys parties_def same by blast
      have "get_object C s k = Some (Raw (tk_TaskID t))"
        using task_at_facts(3)[OF inv at pk(1)] pk(2) by simp
      with True show ?thesis by (simp only: g id if_True)
    qed (simp add: g)
  qed
  show "get_object C s' k =
      (if \<exists>pk \<in> executors (tk_DataSets u). k = packRequesterExecutorTaskIndex pk u
       then Some (Raw (tk_TaskID u)) else get_object C s k)" if "under REFlTaskListIndex k" for k
  proof -
    have "k \<noteq> packFlTaskIndex i" for i using that by auto
    then have g: "get_object C s' k = get_object C s k" by (simp add: get)
    show ?thesis
    proof (cases "\<exists>pk \<in> executors (tk_DataSets u). k = packRequesterExecutorTaskIndex pk u")
      case True
      then obtain pk where pk: "pk \<in> executors (tk_DataSets t)" "k = packRequesterExecutorTaskIndex pk t"
        unfolding keys same by blast
      have "get_object C s k = Some (Raw (tk_TaskID t))"
        using task_at_facts(4)[OF inv at pk(1)] pk(2) by simp
      with True show ?thesis by (simp only: g id if_True)
    qed (simp add: g)
  qed
  show "tk_Requester v = tk_Requester u \<and> tk_PublishTime v = tk_PublishTime u \<and>
      executors (tk_DataSets v) = executors (tk_DataSets u)"
    if "task_at C s v" "tk_TaskID v = tk_TaskID u" for v
  proof -
    from that at have "v = t" by (simp add: task_at_def id)
    with same show ?thesis by simp
  qed
qed (use st nn in simp_all)

end

section \<open>Steps of a task\<close>

definition status_step :: "(string \<times> string) set" where
  "status_step = {(TaskConfirming, TaskConfirming), (TaskConfirming, TaskReady),
     (TaskConfirming, TaskRejected), (TaskReady, TaskToProcess), (TaskFailed, TaskToProcess),
     (TaskToProcess, TaskProcessing), (TaskProcessing, TaskFinished), (TaskProcessing, TaskFailed)}"

text \<open>What no call changes in a task once it is published.\<close>

definition set_core :: "DataForTask \<Rightarrow> bytes \<times> bytes \<times> string \<times> string \<times> string \<times> bool" where
  "set_core ds = (dt_Owner ds, dt_Executor ds, dt_DataID ds, dt_PsiLabel ds, dt_Address ds, dt_IsTagPart ds)"

definition same_task :: "FLTask \<Rightarrow> FLTask \<Rightarrow> bool" where
  "same_task t u \<longleftrightarrow> tk_TaskID u = tk_TaskID t \<and> tk_Name u = tk_Name t \<and>
     tk_Description u = tk_Description t \<and> tk_Requester u = tk_Requester t \<and>
     tk_AlgoParam u = tk_AlgoParam t \<and> tk_PublishTime u = tk_PublishTime t \<and>
     map (map_option set_core) (tk_DataSets u) = map (map_option set_core) (tk_DataSets t)"

lemma same_task_refl: "same_task t t"
  and same_task_trans: "same_task t u \<Longrightarrow> same_task u v \<Longrightarrow> same_task t v"
  by (simp_all add: same_task_def)

lemma same_sets:
  assumes "map (map_option set_core) ds = map (map_option set_core) es"
  shows "executors ds = executors es" and "None \<in> set ds \<longleftrightarrow> None \<in> set es"
proof -
  have "executors ds = executors es \<and> (None \<in> set ds \<longleftrightarrow> None \<in> set es)"
    using assms
  proof (induction ds arbitrary: es)
    case (Cons d ds)
    then obtain e es' where es: "es = e # es'" by (cases es) auto
    from Cons.prems have "executors ds = executors es'" "None \<in> set ds \<longleftrightarrow> None \<in> set es'"
      using Cons.IH[of es'] by (simp_all add: es)
    with Cons.prems show ?case
      by (cases d; cases e) (simp_all add: es executors_Cons set_core_def)
  qed simp
  then show "executors ds = executors es" and "None \<in> set ds \<longleftrightarrow> None \<in> set es" by auto
qed

lemma same_task_decided: "same_task t (decided opt b t)"
proof -
  have "map_option set_core (map_option (decide opt b) x) = map_option set_core x" for b x
    by (cases x) (simp_all add: set_core_def decide_def)
  then show ?thesis by (simp add: same_task_def decided_def Let_def)
qed

lemma execute_step_Some:
  assumes "execute_step opt fin t = Some u"
  shows "same_task t u" and "(tk_Status t, tk_Status u) \<in> status_step" and "tk_TaskID u = tk_TaskID t"
    and "tk_DataSets u = tk_DataSets t"
  using assms by (auto simp: execute_step_def Let_def same_task_def status_step_def split: if_splits)

lemma decided_step:
  "tk_Status t = TaskConfirming \<Longrightarrow> (tk_Status t, tk_Status (decided opt b t)) \<in> status_step"
  by (simp add: decided_def Let_def status_step_def)

lemma status_step_states: "(x, y) \<in> status_step \<Longrightarrow> y \<in> task_states"
  by (auto simp: status_step_def task_states_def)

context chain begin

lemma task_inv_evolve:
  assumes "task_inv C s" and "task_at C s t" and "same_task t u"
    and "(tk_Status t, tk_Status u) \<in> status_step"
    and "get_object C s' = (get_object C s)(packFlTaskIndex (tk_TaskID t) \<mapsto> Doc (enc_FLTask u))"
  shows "task_inv C s'"
proof (rule task_inv_update[OF assms(1,2) _ assms(5)])
  from assms(3) have m: "map (map_option set_core) (tk_DataSets u) = map (map_option set_core) (tk_DataSets t)"
    by (simp add: same_task_def)
  show "None \<notin> set (tk_DataSets u)" using same_sets(2)[OF m] task_at_facts(2)[OF assms(1,2)] by simp
  show "executors (tk_DataSets u) = executors (tk_DataSets t)" by (rule same_sets(1)[OF m])
  show "tk_Status u \<in> task_states" by (rule status_step_states[OF assms(4)])
qed (use assms(3) in \<open>simp_all add: same_task_def\<close>)

end

section \<open>Executor nodes\<close>

definition exec_keys :: "ExecutorNode \<Rightarrow> string set" where
  "exec_keys n = {packExecutorIndex (en_ID n), packNodeNameIndex (en_Name n), packExecutorListIndex n}"

definition executor_key :: "string \<Rightarrow> bool" where
  "executor_key k \<longleftrightarrow> under ExecutorNodeIndex k \<or> under ExecutorNameIndex k \<or>
     prefix (prefix_of ExecutorListIndex) k"

text \<open>A node is stored three times: by identifier, by name and in the list.\<close>

definition executor_at :: "'s chain_ops \<Rightarrow> 's \<Rightarrow> ExecutorNode \<Rightarrow> bool" where
  "executor_at C s n \<longleftrightarrow> name_ok (en_Name n) \<and>
     (\<forall>k \<in> exec_keys n. get_object C s k = Some (Doc (enc_ExecutorNode n)))"

definition executor_inv :: "'s chain_ops \<Rightarrow> 's \<Rightarrow> bool" where
  "executor_inv C s \<longleftrightarrow> (\<forall>k v. executor_key k \<longrightarrow> get_object C s k = Some v \<longrightarrow>
     (\<exists>n. executor_at C s n \<and> k \<in> exec_keys n \<and> v = Doc (enc_ExecutorNode n)))"

lemma executor_key_pack:
  "k \<in> exec_keys n \<Longrightarrow> executor_key k"
proof -
  have "prefix (prefix_of i) (key i ps)" for i ps by (simp add: key_def)
  then show "k \<in> exec_keys n \<Longrightarrow> executor_key k"
    by (auto simp: exec_keys_def executor_key_def dai_pack_defs simp del: prefix_of.simps)
qed

lemma exec_keys_meet:
  "k \<in> exec_keys m \<Longrightarrow> k \<in> exec_keys n \<Longrightarrow> en_ID m = en_ID n \<or> en_Name m = en_Name n"
  by (auto simp: exec_keys_def dai_pack_defs)

lemma executor_inv_frame:
  assumes inv: "executor_inv C s"
    and k: "\<And>k. executor_key k \<Longrightarrow> get_object C s' k = get_object C s k"
  shows "executor_inv C s'"
proof -
  have "executor_at C s' n \<longleftrightarrow> executor_at C s n" for n
    by (simp add: executor_at_def k executor_key_pack)
  with inv k show ?thesis by (simp add: executor_inv_def)
qed

context chain begin

lemma RegisterExecutorNode_effect:
  assumes "RegisterExecutorNode C E a s = (Inr r, s')"
  obtains opt :: AddExecutorOptions and n :: ExecutorNode where "a = Got opt" and "n = aeo_Node opt"
    and "name_ok (en_Name n)"
    and "task_signed E (aeo_Signature opt) (en_ID n) (enc_AddExecutorOptions opt)"
    and "get_object C s (packExecutorIndex (en_ID n)) = None"
    and "get_object C s (packNodeNameIndex (en_Name n)) = None"
    and "\<And>k. get_object C s' k =
      (if k \<in> exec_keys n then Some (Doc (enc_ExecutorNode n)) else get_object C s k)"
proof -
  from assms obtain opt :: AddExecutorOptions and s1 s2 where a: "a = Got opt"
    and ok: "name_ok (en_Name (aeo_Node opt))"
    and sg: "task_signed E (aeo_Signature opt) (en_ID (aeo_Node opt)) (enc_AddExecutorOptions opt)"
    and new: "get_object C s (packExecutorIndex (en_ID (aeo_Node opt))) = None"
    and p1: "put_object C s (packExecutorIndex (en_ID (aeo_Node opt)))
      (Doc (enc_ExecutorNode (aeo_Node opt))) = Some s1"
    and nm: "get_object C s1 (packNodeNameIndex (en_Name (aeo_Node opt))) = None"
    and p2: "put_object C s1 (packNodeNameIndex (en_Name (aeo_Node opt)))
      (Doc (enc_ExecutorNode (aeo_Node opt))) = Some s2"
    and p3: "put_object C s2 (packExecutorListIndex (aeo_Node opt))
      (Doc (enc_ExecutorNode (aeo_Node opt))) = Some s'"
    by (auto simp: RegisterExecutorNode_def Let_def act_ok)
  show thesis
  proof (rule that[OF a refl ok sg new])
    show "get_object C s (packNodeNameIndex (en_Name (aeo_Node opt))) = None"
      using nm p1[THEN get_put, of "packNodeNameIndex (en_Name (aeo_Node opt))"]
      by (simp split: if_splits)
    show "get_object C s' k = (if k \<in> exec_keys (aeo_Node opt)
        then Some (Doc (enc_ExecutorNode (aeo_Node opt))) else get_object C s k)" for k
      using p1[THEN get_put, of k] p2[THEN get_put, of k] p3[THEN get_put, of k]
      by (auto simp: exec_keys_def)
  qed
qed

lemma RegisterExecutorNode_keeps:
  assumes inv: "executor_inv C s" and run: "RegisterExecutorNode C E a s = (Inr r, s')"
  shows "executor_inv C s'"
  using run
proof (rule RegisterExecutorNode_effect)
  fix n :: ExecutorNode
  assume ok: "name_ok (en_Name n)"
    and new: "get_object C s (packExecutorIndex (en_ID n)) = None"
      "get_object C s (packNodeNameIndex (en_Name n)) = None"
    and get: "\<And>k. get_object C s' k =
      (if k \<in> exec_keys n then Some (Doc (enc_ExecutorNode n)) else get_object C s k)"
  have old: "executor_at C s' m" if m: "executor_at C s m" for m
  proof -
    have "packExecutorIndex (en_ID m) \<in> exec_keys m" "packNodeNameIndex (en_Name m) \<in> exec_keys m"
      by (simp_all add: exec_keys_def)
    with m new have "en_ID m \<noteq> en_ID n" "en_Name m \<noteq> en_Name n" by (auto simp: executor_at_def)
    then have "k \<notin> exec_keys n" if "k \<in> exec_keys m" for k using that exec_keys_meet by metis
    with m show ?thesis by (simp add: executor_at_def get)
  qed
  have "executor_at C s' n" using ok by (simp add: executor_at_def get)
  show ?thesis unfolding executor_inv_def
  proof (intro allI impI)
    fix k v assume k: "executor_key k" and v: "get_object C s' k = Some v"
    show "\<exists>n. executor_at C s' n \<and> k \<in> exec_keys n \<and> v = Doc (enc_ExecutorNode n)"
    proof (cases "k \<in> exec_keys n")
      case True
      with v \<open>executor_at C s' n\<close> show ?thesis by (auto simp: get)
    next
      case False
      with v inv k old show ?thesis unfolding executor_inv_def get by fastforce
    qed
  qed
qed

end

section \<open>The two contracts on one ledger\<close>

datatype dai_call =
    XCall call | DPublishTask "PublishFLTaskOptions arg" | DConfirmTask "FLTaskConfirmOptions arg"
  | DRejectTask "FLTaskConfirmOptions arg" | DStartTask "StartFLTaskOptions arg"
  | DExecuteTask "FLTaskExeStatusOptions arg" | DFinishTask "FLTaskExeStatusOptions arg"
  | DRegister "AddExecutorOptions arg"

fun dai_exec :: "'s chain_ops \<Rightarrow> env \<Rightarrow> dai_call \<Rightarrow> 's \<Rightarrow> 's option" where
  "dai_exec C E (XCall c) s = exec C E c s"
| "dai_exec C E (DPublishTask a) s = commit (PublishTask C E a) s"
| "dai_exec C E (DConfirmTask a) s = commit (ConfirmTask C E a) s"
| "dai_exec C E (DRejectTask a) s = commit (RejectTask C E a) s"
| "dai_exec C E (DStartTask a) s = commit (StartTask C E a) s"
| "dai_exec C E (DExecuteTask a) s = commit (ExecuteTask C E a) s"
| "dai_exec C E (DFinishTask a) s = commit (FinishTask C E a) s"
| "dai_exec C E (DRegister a) s = commit (RegisterExecutorNode C E a) s"

fun dai_named :: "dai_call \<Rightarrow> bool" where
  "dai_named (XCall c) = well_named c"
| "dai_named _ = True"

inductive dai_tx :: "'s chain_ops \<Rightarrow> env \<Rightarrow> 's \<Rightarrow> dai_call \<Rightarrow> 's \<Rightarrow> bool" for C E where
  dai_tx: "dai_exec C E c s = Some s' \<Longrightarrow> dai_named c \<Longrightarrow> dai_tx C E s c s'"

inductive dai_reachable :: "'s chain_ops \<Rightarrow> env \<Rightarrow> 's \<Rightarrow> bool" for C E where
  dai_start: "(\<And>k. get_object C s k = None) \<Longrightarrow> dai_reachable C E s"
| dai_step: "dai_reachable C E s \<Longrightarrow> dai_tx C E s c s' \<Longrightarrow> dai_reachable C E s'"

inductive dai_later :: "'s chain_ops \<Rightarrow> env \<Rightarrow> 's \<Rightarrow> 's \<Rightarrow> bool" for C E where
  dai_now: "dai_later C E s s"
| dai_next: "dai_later C E s s' \<Longrightarrow> dai_tx C E s' c s'' \<Longrightarrow> dai_later C E s s''"

inductive_cases dai_txE: "dai_tx C E s c s'"

text \<open>The indexes of the computation network.\<close>

definition dai_indexes :: "index set" where
  "dai_indexes = {FlTaskIndex, FlTaskListIndex, REFlTaskListIndex, ExecutorNodeIndex, ExecutorNameIndex,
     ExecutorListIndex}"

definition dai_inv :: "'s chain_ops \<Rightarrow> 's \<Rightarrow> bool" where
  "dai_inv C s \<longleftrightarrow> xdb_inv C s \<and> task_inv C s \<and> executor_inv C s"

lemma dai_inv_start: "(\<And>k. get_object C s k = None) \<Longrightarrow> dai_inv C s"
  by (simp add: dai_inv_def xdb_inv_start task_inv_def executor_inv_def)

lemma in_index_mono: "I \<subseteq> J \<Longrightarrow> in_index I k \<Longrightarrow> in_index J k"
  by (auto simp: in_index_def)

lemma writes_mono: "writes C P m \<Longrightarrow> (\<And>k. P k \<Longrightarrow> Q k) \<Longrightarrow> writes C Q m"
  unfolding writes_def by blast

lemma not_dai_key [simp]:
  "plain_id k \<Longrightarrow> \<not> in_index dai_indexes k" "i \<notin> dai_indexes \<Longrightarrow> under i k \<Longrightarrow> \<not> in_index dai_indexes k"
  by (auto simp: under_other)

lemma node_list_not_dai:
  assumes "prefix (prefix_of NodeListIndex) k" shows "\<not> in_index dai_indexes k"
proof
  assume "in_index dai_indexes k"
  then obtain i ps where i: "i \<in> dai_indexes" "k = key i ps" by (auto simp: in_index_def)
  with assms have "prefix (prefix_of NodeListIndex) (prefix_of i @ CHR ''/'' # Join ps ''/'')"
    by (simp add: key_def)
  with i(1) show False by (auto simp: dai_indexes_def)
qed

context chain begin

lemma dai_frame:
  assumes "dai_exec C E c s = Some s'" and "\<And>x. c \<noteq> XCall x" and "\<not> in_index dai_indexes k"
  shows "get_object C s' k = get_object C s k"
proof -
  have sub: "\<not> in_index I k" if "I \<subseteq> dai_indexes" for I using assms(3) in_index_mono[OF that] by blast
  show ?thesis
    by (cases c)
      (use assms(1,2) in \<open>auto simp: commit_Some ConfirmTask_def RejectTask_def ExecuteTask_def FinishTask_def
        dest!: writesD[OF PublishTask_writes _ sub] writesD[OF setTaskConfirmStatus_writes _ sub]
          writesD[OF StartTask_writes _ sub] writesD[OF setTaskExecuteStatus_writes _ sub]
          writesD[OF RegisterExecutorNode_writes _ sub] simp: dai_indexes_def\<close>)
qed

lemma xdb_inv_frame:
  assumes inv: "xdb_inv C s"
    and k: "\<And>k. \<not> in_index dai_indexes k \<Longrightarrow> get_object C s' k = get_object C s k"
  shows "xdb_inv C s'"
proof -
  have key: "get_object C s' (key i ps) = get_object C s (key i ps)" if "i \<notin> dai_indexes" for i ps
    using that by (intro k) simp
  have und: "get_object C s' x = get_object C s x" if "under i x" "i \<notin> dai_indexes" for i x
    using that by (intro k) simp
  have pl: "get_object C s' x = get_object C s x" if "plain_id x" for x
    using that by (intro k) simp
  have nl: "get_object C s' x = get_object C s x" if "prefix (prefix_of NodeListIndex) x" for x
    using that by (intro k node_list_not_dai)
  have "node_inv C s'"
    using inv by (intro node_inv_frame[of C s s'])
      (auto simp: xdb_inv_def packNodeIndex_def dai_indexes_def simp del: prefix_of.simps intro: key nl)
  moreover have "challenge_inv C s'"
    using inv by (intro challenge_inv_frame[of C s s'])
      (auto simp: xdb_inv_def packChallengeIndex_def dai_indexes_def intro: key und)
  moreover have "auth_inv C s'"
    using inv by (intro auth_inv_frame[of C s s'])
      (auto simp: xdb_inv_def packFileAuthIndex_def dai_indexes_def auth_lists_def intro: key und)
  moreover have "ns_inv C s'"
    using inv by (intro ns_inv_frame[of C s s'])
      (auto simp: xdb_inv_def packFileNsIndex_def dai_indexes_def intro: key und)
  moreover have "file_inv C s'"
    using inv by (intro file_inv_frame[of C s s'])
      (auto simp: xdb_inv_def dai_indexes_def file_lists_def intro: pl und)
  ultimately show ?thesis by (simp add: xdb_inv_def)
qed

lemma touched_not_dai: "touched c \<inter> dai_indexes = {}"
  by (cases c) (auto simp: dai_indexes_def)

lemma xcall_key:
  assumes "dai_inv C s" and "tx C E s c s'" and "i \<in> dai_indexes"
  shows "get_object C s' (key i ps) = get_object C s (key i ps)"
  using frame_key[OF _ assms(2)] assms(1,3) touched_not_dai[of c] by (auto simp: dai_inv_def xdb_inv_def)

lemma xcall_under:
  assumes "dai_inv C s" and "tx C E s c s'" and "i \<in> dai_indexes" and "under i k"
  shows "get_object C s' k = get_object C s k"
  using frame_under[OF _ assms(2) _ assms(4)] assms(1,3) touched_not_dai[of c]
  by (auto simp: dai_inv_def xdb_inv_def)

lemma executor_list_not_xdb:
  assumes "prefix (prefix_of ExecutorListIndex) k" shows "\<not> in_index (touched c) k"
proof
  assume "in_index (touched c) k"
  then obtain i ps where i: "i \<in> touched c" "k = key i ps" by (auto simp: in_index_def)
  with assms have "prefix (prefix_of ExecutorListIndex) (prefix_of i @ CHR ''/'' # Join ps ''/'')"
    by (simp add: key_def)
  moreover from i(1) have "i \<notin> dai_indexes" using touched_not_dai[of c] by blast
  ultimately show False by (cases i) (auto simp: dai_indexes_def)
qed

lemma xcall_executor:
  assumes inv: "dai_inv C s" and tx: "tx C E s c s'" and k: "executor_key k"
  shows "get_object C s' k = get_object C s k"
proof (cases "prefix (prefix_of ExecutorListIndex) k")
  case True
  then have "\<not> plain_id k" using plain_no_prefix[of k ExecutorListIndex] by auto
  then have "named_file c \<noteq> Some k" using named_plain[OF tx] by blast
  with exec_frame[OF _ tx executor_list_not_xdb[OF True]] inv show ?thesis
    by (simp add: dai_inv_def xdb_inv_def)
next
  case False
  with k obtain i where "i \<in> dai_indexes" "under i k" by (auto simp: executor_key_def dai_indexes_def)
  with xcall_under[OF inv tx] show ?thesis by blast
qed

section \<open>The invariant\<close>

lemma task_inv_step:
  assumes inv: "dai_inv C s" and step: "dai_tx C E s c s'"
  shows "task_inv C s'"
proof -
  from inv have ti: "task_inv C s" by (simp add: dai_inv_def)
  from step obtain run: "dai_exec C E c s = Some s'" and named: "dai_named c" by (rule dai_txE)
  show ?thesis
  proof (cases c)
    case (XCall x)
    with run named have tx: "tx C E s x s'" by (auto intro: tx.intros)
    show ?thesis
      by (rule task_inv_frame[OF ti])
        (auto simp: packFlTaskIndex_def dai_indexes_def intro: xcall_key[OF inv tx] xcall_under[OF inv tx])
  next
    case (DPublishTask a)
    with run ti show ?thesis by (auto simp: commit_Some intro: PublishTask_keeps)
  next
    case (DConfirmTask a)
    with run obtain r where "setTaskConfirmStatus C E a True s = (Inr r, s')"
      by (auto simp: commit_Some ConfirmTask_def)
    then show ?thesis
      by (rule setTaskConfirmStatus_effect)
        (metis task_inv_evolve[OF ti] task_of_id[OF ti] same_task_decided decided_step)
  next
    case (DRejectTask a)
    with run obtain r where "setTaskConfirmStatus C E a False s = (Inr r, s')"
      by (auto simp: commit_Some RejectTask_def)
    then show ?thesis
      by (rule setTaskConfirmStatus_effect)
        (metis task_inv_evolve[OF ti] task_of_id[OF ti] same_task_decided decided_step)
  next
    case (DStartTask a)
    with run obtain r where "StartTask C E a s = (Inr r, s')" by (auto simp: commit_Some)
    then show ?thesis
    proof (rule StartTask_effect)
      fix opt b and t :: FLTask
      assume b: "get_object C s (packFlTaskIndex (sto_TaskID opt)) = Some b"
          "unmarshal E (dec_ptr dec_FLTask) b = Some (Some t)"
        and st: "tk_Status t = TaskReady \<or> tk_Status t = TaskFailed"
        and get: "get_object C s' = (get_object C s)(packFlTaskIndex (tk_TaskID t) \<mapsto>
          Doc (enc_FLTask (t\<lparr>tk_Status := TaskToProcess\<rparr>)))"
      show ?thesis
        by (rule task_inv_evolve[OF ti task_of_id(2)[OF ti b] _ _ get])
          (use st in \<open>auto simp: same_task_def status_step_def\<close>)
    qed
  next
    case (DExecuteTask a)
    with run obtain r where "setTaskExecuteStatus C E a False s = (Inr r, s')"
      by (auto simp: commit_Some ExecuteTask_def)
    then show ?thesis
      by (rule setTaskExecuteStatus_effect) (metis task_inv_evolve[OF ti] task_of_id[OF ti] execute_step_Some(1,2,3))
  next
    case (DFinishTask a)
    with run obtain r where "setTaskExecuteStatus C E a True s = (Inr r, s')"
      by (auto simp: commit_Some FinishTask_def)
    then show ?thesis
      by (rule setTaskExecuteStatus_effect) (metis task_inv_evolve[OF ti] task_of_id[OF ti] execute_step_Some(1,2,3))
  next
    case (DRegister a)
    with run obtain r where r: "RegisterExecutorNode C E a s = (Inr r, s')" by (auto simp: commit_Some)
    have "get_object C s' k = get_object C s k"
      if "\<not> in_index {ExecutorNodeIndex, ExecutorNameIndex, ExecutorListIndex} k" for k
      using writesD[OF RegisterExecutorNode_writes r that] .
    then show ?thesis
      by (intro task_inv_frame[OF ti]) (auto simp: packFlTaskIndex_def under_other)
  qed
qed

lemma executor_inv_step:
  assumes inv: "dai_inv C s" and step: "dai_tx C E s c s'"
  shows "executor_inv C s'"
proof -
  from inv have ei: "executor_inv C s" by (simp add: dai_inv_def)
  from step obtain run: "dai_exec C E c s = Some s'" and named: "dai_named c" by (rule dai_txE)
  have tasks: "executor_inv C s'"
    if "\<And>k. \<not> in_index {FlTaskIndex, FlTaskListIndex, REFlTaskListIndex} k \<Longrightarrow>
      get_object C s' k = get_object C s k"
  proof (rule executor_inv_frame[OF ei])
    fix k assume k: "executor_key k"
    have "\<not> in_index {FlTaskIndex, FlTaskListIndex, REFlTaskListIndex} k"
      using k by (auto simp: executor_key_def in_index_def) (auto simp: key_def)
    then show "get_object C s' k = get_object C s k" by (rule that)
  qed
  have one: "\<not> in_index {FlTaskIndex} k"
    if "\<not> in_index {FlTaskIndex, FlTaskListIndex, REFlTaskListIndex} k" for k
    using that by (auto simp: in_index_def)
  show ?thesis
  proof (cases c)
    case (XCall x)
    with run named have tx: "tx C E s x s'" by (auto intro: tx.intros)
    show ?thesis by (rule executor_inv_frame[OF ei xcall_executor[OF inv tx]])
  next
    case (DPublishTask a)
    with run show ?thesis by (intro tasks) (auto simp: commit_Some dest: writesD[OF PublishTask_writes])
  next
    case (DConfirmTask a)
    with run show ?thesis
      by (intro tasks) (auto simp: commit_Some ConfirmTask_def
          dest!: one dest: writesD[OF setTaskConfirmStatus_writes])
  next
    case (DRejectTask a)
    with run show ?thesis
      by (intro tasks) (auto simp: commit_Some RejectTask_def
          dest!: one dest: writesD[OF setTaskConfirmStatus_writes])
  next
    case (DStartTask a)
    with run show ?thesis
      by (intro tasks) (auto simp: commit_Some dest!: one dest: writesD[OF StartTask_writes])
  next
    case (DExecuteTask a)
    with run show ?thesis
      by (intro tasks) (auto simp: commit_Some ExecuteTask_def
          dest!: one dest: writesD[OF setTaskExecuteStatus_writes])
  next
    case (DFinishTask a)
    with run show ?thesis
      by (intro tasks) (auto simp: commit_Some FinishTask_def
          dest!: one dest: writesD[OF setTaskExecuteStatus_writes])
  next
    case (DRegister a)
    with run ei show ?thesis by (auto simp: commit_Some intro: RegisterExecutorNode_keeps)
  qed
qed

lemma dai_inv_step:
  assumes inv: "dai_inv C s" and step: "dai_tx C E s c s'"
  shows "dai_inv C s'"
proof -
  from step obtain run: "dai_exec C E c s = Some s'" and named: "dai_named c" by (rule dai_txE)
  have "xdb_inv C s'"
  proof (cases "\<exists>x. c = XCall x")
    case True
    then obtain x where x: "c = XCall x" by blast
    with run named have "tx C E s x s'" by (auto intro: tx.intros)
    with inv show ?thesis by (auto simp: dai_inv_def intro: xdb_inv_step)
  next
    case False
    with inv dai_frame[OF run] show ?thesis by (auto simp: dai_inv_def intro: xdb_inv_frame)
  qed
  with task_inv_step[OF inv step] executor_inv_step[OF inv step] show ?thesis by (simp add: dai_inv_def)
qed

lemma dai_reachable_inv: "dai_reachable C E s \<Longrightarrow> dai_inv C s"
  by (induction rule: dai_reachable.induct) (auto intro: dai_inv_start dai_inv_step)

lemma dai_later_inv: "dai_later C E s s' \<Longrightarrow> dai_inv C s \<Longrightarrow> dai_inv C s'"
  by (induction rule: dai_later.induct) (auto intro: dai_inv_step)

end

end
