(* ===== verification/DaiLife.thy ===== *)
theory DaiLife
  imports DaiSystem
begin

text \<open>
  What can happen to one task over time, who can make it happen, and what the list query of tasks
  returns.
\<close>

section \<open>Who moves a task\<close>

text \<open>The call that moves a task from one value to another, with the signature it needs.\<close>

definition confirm_call :: "env \<Rightarrow> dai_call \<Rightarrow> FLTask \<Rightarrow> FLTask \<Rightarrow> bool" where
  "confirm_call E c t u \<longleftrightarrow> (\<exists>opt b. c = (if b then DConfirmTask (Got opt) else DRejectTask (Got opt)) \<and>
     tco_TaskID opt = tk_TaskID t \<and> tco_Pubkey opt \<in> executors (tk_DataSets t) \<and>
     task_signed E (tco_Signature opt) (tco_Pubkey opt) (enc_FLTaskConfirmOptions opt) \<and>
     tk_Status t = TaskConfirming \<and>
     (\<forall>ds. Some ds \<in> set (tk_DataSets t) \<longrightarrow> dt_Executor ds = tco_Pubkey opt \<longrightarrow>
        \<not> 0 <s dt_ConfirmedAt ds \<and> \<not> 0 <s dt_RejectedAt ds) \<and>
     u = decided opt b t)"

definition start_call :: "env \<Rightarrow> dai_call \<Rightarrow> FLTask \<Rightarrow> FLTask \<Rightarrow> bool" where
  "start_call E c t u \<longleftrightarrow> (\<exists>opt. c = DStartTask (Got opt) \<and> sto_TaskID opt = tk_TaskID t \<and>
     task_signed E (sto_Signature opt) (tk_Requester t) (enc_StartFLTaskOptions opt) \<and>
     (tk_Status t = TaskReady \<or> tk_Status t = TaskFailed) \<and> u = t\<lparr>tk_Status := TaskToProcess\<rparr>)"

definition execute_call :: "env \<Rightarrow> dai_call \<Rightarrow> FLTask \<Rightarrow> FLTask \<Rightarrow> bool" where
  "execute_call E c t u \<longleftrightarrow> (\<exists>opt fin. c = (if fin then DFinishTask (Got opt) else DExecuteTask (Got opt)) \<and>
     teo_TaskID opt = tk_TaskID t \<and> teo_Executor opt \<in> executors (tk_DataSets t) \<and>
     task_signed E (teo_Signature opt) (teo_Executor opt) (enc_FLTaskExeStatusOptions opt) \<and>
     execute_step opt fin t = Some u)"

definition task_call :: "env \<Rightarrow> dai_call \<Rightarrow> FLTask \<Rightarrow> FLTask \<Rightarrow> bool" where
  "task_call E c t u \<longleftrightarrow> confirm_call E c t u \<or> start_call E c t u \<or> execute_call E c t u"

text \<open>A decision that an executor has made on a set stays.\<close>

definition set_kept :: "DataForTask option \<Rightarrow> DataForTask option \<Rightarrow> bool" where
  "set_kept x y \<longleftrightarrow> (\<forall>d. x = Some d \<longrightarrow> 0 <s dt_ConfirmedAt d \<or> 0 <s dt_RejectedAt d \<longrightarrow> y = x)"

definition decisions_kept :: "FLTask \<Rightarrow> FLTask \<Rightarrow> bool" where
  "decisions_kept t u \<longleftrightarrow> list_all2 set_kept (tk_DataSets t) (tk_DataSets u)"

lemma decisions_kept_same: "tk_DataSets u = tk_DataSets t \<Longrightarrow> decisions_kept t u"
  by (simp add: decisions_kept_def list.rel_refl set_kept_def)

lemma decisions_kept_trans: "decisions_kept t u \<Longrightarrow> decisions_kept u v \<Longrightarrow> decisions_kept t v"
  unfolding decisions_kept_def by (rule list_all2_trans) (auto simp: set_kept_def)

lemma task_call_step:
  assumes "task_call E c t u"
  shows "same_task t u" and "(tk_Status t, tk_Status u) \<in> status_step" and "decisions_kept t u"
proof -
  from assms consider (co) "confirm_call E c t u" | (st) "start_call E c t u" | (ex) "execute_call E c t u"
    unfolding task_call_def by blast
  then have "same_task t u \<and> (tk_Status t, tk_Status u) \<in> status_step \<and> decisions_kept t u"
  proof cases
    case co
    then obtain opt b where st: "tk_Status t = TaskConfirming" and u: "u = decided opt b t"
      and free: "\<forall>ds. Some ds \<in> set (tk_DataSets t) \<longrightarrow> dt_Executor ds = tco_Pubkey opt \<longrightarrow>
        \<not> 0 <s dt_ConfirmedAt ds \<and> \<not> 0 <s dt_RejectedAt ds"
      unfolding confirm_call_def by blast
    have ds: "tk_DataSets u = map (map_option (decide opt b)) (tk_DataSets t)"
      by (simp add: u decided_def Let_def)
    have "set_kept x (map_option (decide opt b) x)" if "x \<in> set (tk_DataSets t)" for x
      using that free by (cases x) (auto simp: set_kept_def decide_def)
    then have "decisions_kept t u" by (simp add: decisions_kept_def ds list_all2_map2 list.rel_refl_strong)
    then show ?thesis using same_task_decided decided_step[OF st] by (simp add: u)
  next
    case st
    then obtain "tk_Status t = TaskReady \<or> tk_Status t = TaskFailed" and u: "u = t\<lparr>tk_Status := TaskToProcess\<rparr>"
      unfolding start_call_def by blast
    then show ?thesis by (auto simp: same_task_def status_step_def intro: decisions_kept_same)
  next
    case ex
    then obtain opt fin where "execute_step opt fin t = Some u" unfolding execute_call_def by blast
    from execute_step_Some[OF this] show ?thesis by (simp add: decisions_kept_same)
  qed
  then show "same_task t u" "(tk_Status t, tk_Status u) \<in> status_step" "decisions_kept t u" by auto
qed

section \<open>The life of a task\<close>

context chain begin

text \<open>One lemma for the three updates: the task in hand moves, every other task stays.\<close>

lemma task_life_update:
  assumes inv: "task_inv C s" and at: "task_at C s x"
    and b: "get_object C s (packFlTaskIndex i) = Some b"
      "unmarshal E (dec_ptr dec_FLTask) b = Some (Some t)"
    and get: "get_object C s' = (get_object C s)(packFlTaskIndex (tk_TaskID t) \<mapsto> Doc (enc_FLTask u))"
    and id: "tk_TaskID u = tk_TaskID t" and call: "i = tk_TaskID t \<Longrightarrow> task_call E c t u"
  shows "task_at C s' x \<or> (\<exists>u. task_at C s' u \<and> task_call E c x u)"
proof (cases "tk_TaskID x = tk_TaskID t")
  case True
  note t = task_of_id[OF inv b]
  with at True have "x = t" by (simp add: task_at_def)
  moreover have "task_at C s' u" by (simp add: task_at_def get id)
  ultimately show ?thesis using call t(1) by blast
next
  case False
  with at show ?thesis by (simp add: task_at_def get)
qed

lemma task_life:
  assumes inv: "dai_inv C s" and step: "dai_tx C E s c s'" and at: "task_at C s x"
  shows "task_at C s' x \<or> (\<exists>u. task_at C s' u \<and> task_call E c x u)"
proof -
  from inv have ti: "task_inv C s" by (simp add: dai_inv_def)
  from step obtain run: "dai_exec C E c s = Some s'" and named: "dai_named c" by (rule dai_txE)
  have dec: ?thesis if "setTaskConfirmStatus C E a b s = (Inr r, s')"
    and c: "c = (if b then DConfirmTask a else DRejectTask a)" for a b r
    using that(1)
  proof (rule setTaskConfirmStatus_effect)
    fix opt :: FLTaskConfirmOptions and v and t :: FLTask
    assume *: "a = Got opt" "tco_Pubkey opt \<in> executors (tk_DataSets t)"
      "task_signed E (tco_Signature opt) (tco_Pubkey opt) (enc_FLTaskConfirmOptions opt)"
      "tk_Status t = TaskConfirming"
      "\<And>ds. Some ds \<in> set (tk_DataSets t) \<Longrightarrow> dt_Executor ds = tco_Pubkey opt \<Longrightarrow>
        get_object C s (dt_DataID ds) \<noteq> None \<and> \<not> 0 <s dt_ConfirmedAt ds \<and> \<not> 0 <s dt_RejectedAt ds"
      and v: "get_object C s (packFlTaskIndex (tco_TaskID opt)) = Some v"
        "unmarshal E (dec_ptr dec_FLTask) v = Some (Some t)"
      and get: "get_object C s' = (get_object C s)(packFlTaskIndex (tk_TaskID t) \<mapsto>
        Doc (enc_FLTask (decided opt b t)))"
    have id: "tk_TaskID (decided opt b t) = tk_TaskID t" using same_task_decided[of t opt b] by (simp add: same_task_def)
    have "confirm_call E c t (decided opt b t)" if i: "tco_TaskID opt = tk_TaskID t"
      unfolding confirm_call_def using * i c by (intro exI[of _ opt] exI[of _ b]) auto
    then show ?thesis by (intro task_life_update[OF ti at v get id]) (simp add: task_call_def)
  qed
  have exe: ?thesis if "setTaskExecuteStatus C E a fin s = (Inr r, s')"
    and c: "c = (if fin then DFinishTask a else DExecuteTask a)" for a fin r
    using that(1)
  proof (rule setTaskExecuteStatus_effect)
    fix opt v and t u :: FLTask
    assume *: "a = Got opt" "teo_Executor opt \<in> executors (tk_DataSets t)"
      "task_signed E (teo_Signature opt) (teo_Executor opt) (enc_FLTaskExeStatusOptions opt)"
      "execute_step opt fin t = Some u"
      and v: "get_object C s (packFlTaskIndex (teo_TaskID opt)) = Some v"
        "unmarshal E (dec_ptr dec_FLTask) v = Some (Some t)"
      and get: "get_object C s' = (get_object C s)(packFlTaskIndex (tk_TaskID u) \<mapsto> Doc (enc_FLTask u))"
    note id = execute_step_Some(3)[OF *(4)]
    have "execute_call E c t u" if "teo_TaskID opt = tk_TaskID t"
      unfolding execute_call_def using * that c by (intro exI[of _ opt] exI[of _ fin]) auto
    then show ?thesis by (intro task_life_update[OF ti at v get[unfolded id] id]) (simp add: task_call_def)
  qed
  have frame: ?thesis if "\<And>i. get_object C s' (packFlTaskIndex i) = get_object C s (packFlTaskIndex i)"
    using at that by (simp add: task_at_def)
  show ?thesis
  proof (cases c)
    case (XCall y)
    with run named have "tx C E s y s'" by (auto intro: tx.intros)
    from xcall_key[OF inv this, of FlTaskIndex] show ?thesis
      by (intro frame) (simp add: packFlTaskIndex_def dai_indexes_def)
  next
    case (DPublishTask a)
    with run obtain r where "PublishTask C E a s = (Inr r, s')" by (auto simp: commit_Some)
    then show ?thesis
    proof (rule PublishTask_effect)
      fix t :: FLTask
      assume new: "get_object C s (packFlTaskIndex (tk_TaskID t)) = None"
        and get: "\<And>k. get_object C s' k =
          (if (\<exists>pk \<in> parties t. k = packExecutorTaskListIndex pk t) \<or>
              (\<exists>pk \<in> executors (tk_DataSets t). k = packRequesterExecutorTaskIndex pk t)
           then Some (Raw (tk_TaskID t))
           else if k = packFlTaskIndex (tk_TaskID t) then Some (Doc (enc_FLTask t)) else get_object C s k)"
      have "tk_TaskID x \<noteq> tk_TaskID t" using at new by (auto simp: task_at_def)
      then have "task_at C s' x" using at by (simp add: task_at_def get)
      then show ?thesis ..
    qed
  next
    case (DConfirmTask a)
    with run dec[of a True] show ?thesis by (auto simp: commit_Some ConfirmTask_def)
  next
    case (DRejectTask a)
    with run dec[of a False] show ?thesis by (auto simp: commit_Some RejectTask_def)
  next
    case (DStartTask a)
    with run obtain r where "StartTask C E a s = (Inr r, s')" by (auto simp: commit_Some)
    then show ?thesis
    proof (rule StartTask_effect)
      fix opt v and t :: FLTask
      assume *: "a = Got opt"
        "task_signed E (sto_Signature opt) (tk_Requester t) (enc_StartFLTaskOptions opt)"
        "tk_Status t = TaskReady \<or> tk_Status t = TaskFailed"
        and v: "get_object C s (packFlTaskIndex (sto_TaskID opt)) = Some v"
          "unmarshal E (dec_ptr dec_FLTask) v = Some (Some t)"
        and get: "get_object C s' = (get_object C s)(packFlTaskIndex (tk_TaskID t) \<mapsto>
          Doc (enc_FLTask (t\<lparr>tk_Status := TaskToProcess\<rparr>)))"
      have "start_call E c t (t\<lparr>tk_Status := TaskToProcess\<rparr>)" if "sto_TaskID opt = tk_TaskID t"
        unfolding start_call_def using * that DStartTask by (intro exI[of _ opt]) auto
      then show ?thesis by (intro task_life_update[OF ti at v get]) (simp_all add: task_call_def)
    qed
  next
    case (DExecuteTask a)
    with run exe[of a False] show ?thesis by (auto simp: commit_Some ExecuteTask_def)
  next
    case (DFinishTask a)
    with run exe[of a True] show ?thesis by (auto simp: commit_Some FinishTask_def)
  next
    case (DRegister a)
    with run obtain r where r: "RegisterExecutorNode C E a s = (Inr r, s')" by (auto simp: commit_Some)
    show ?thesis
      by (rule frame) (use writesD[OF RegisterExecutorNode_writes r] in \<open>auto simp: packFlTaskIndex_def\<close>)
  qed
qed

lemma task_later:
  assumes "dai_later C E s s'" and "dai_inv C s" and "task_at C s t"
  shows "\<exists>u. task_at C s' u \<and> same_task t u \<and> (tk_Status t, tk_Status u) \<in> status_step\<^sup>* \<and> decisions_kept t u"
  using assms
proof (induction rule: dai_later.induct)
  case (dai_now s)
  then show ?case using same_task_refl decisions_kept_same by blast
next
  case (dai_next s s' c s'')
  then obtain u where u: "task_at C s' u" "same_task t u" "(tk_Status t, tk_Status u) \<in> status_step\<^sup>*"
    "decisions_kept t u" by blast
  from task_life[OF dai_later_inv[OF dai_next.hyps(1) dai_next.prems(1)] dai_next.hyps(2) u(1)]
  show ?case
  proof
    assume "task_at C s'' u"
    with u show ?thesis by blast
  next
    assume "\<exists>v. task_at C s'' v \<and> task_call E c u v"
    then obtain v where v: "task_at C s'' v" "task_call E c u v" by blast
    note st = task_call_step[OF v(2)]
    show ?thesis
      using v(1) same_task_trans[OF u(2) st(1)] rtrancl_into_rtrancl[OF u(3) st(2)]
        decisions_kept_trans[OF u(4) st(3)] by blast
  qed
qed

lemma task_final:
  assumes "dai_later C E s s'" and "dai_inv C s" and "task_at C s t"
    and "tk_Status t = TaskFinished \<or> tk_Status t = TaskRejected"
  shows "task_at C s' t"
  using assms
proof (induction rule: dai_later.induct)
  case (dai_next s s' c s'')
  then have "task_at C s' t" by blast
  from task_life[OF dai_later_inv[OF dai_next.hyps(1) dai_next.prems(1)] dai_next.hyps(2) this]
    task_call_step(2) dai_next.prems(3) show ?case by (fastforce simp: status_step_def)
qed

end

section \<open>Listing tasks\<close>

lemma task_at_unique: "task_at C s t \<Longrightarrow> task_at C s u \<Longrightarrow> tk_TaskID t = tk_TaskID u \<Longrightarrow> t = u"
  unfolding task_at_def by (metis blob.inject(2) enc_FLTask_inj option.inject)

definition task_keep :: "ListFLTaskOptions \<Rightarrow> FLTask \<Rightarrow> bool" where
  "task_keep opt t \<longleftrightarrow> lto_TimeStart opt \<le>s tk_PublishTime t \<and>
     (0 <s lto_TimeEnd opt \<longrightarrow> tk_PublishTime t \<le>s lto_TimeEnd opt) \<and>
     (lto_Status opt \<noteq> [] \<longrightarrow> tk_Status t = lto_Status opt)"

text \<open>
  The key of the query's index for a party, and the parties that the query selects. With a
  requester and an executor the filter has no closing slash, so it also meets executors whose key
  begins with the given bytes; with an executor only, or a requester only, all tasks of that party
  are met, in either role.
\<close>

definition one_key :: "bytes \<Rightarrow> bytes \<Rightarrow> bytes" where
  "one_key r e = (if r \<noteq> [] then r else e)"

lemma filter_one: "\<not> (r \<noteq> [] \<and> e \<noteq> []) \<Longrightarrow> packFlTaskFilter r e = key FlTaskListIndex [hex (one_key r e), '''']"
  by (auto simp: packFlTaskFilter_def one_key_def)

lemma filter_one_prefix:
  "prefix (key FlTaskListIndex [hex pk, '''']) (packExecutorTaskListIndex q t) \<longleftrightarrow> pk = q"
  by (simp add: dai_pack_defs Join_Cons2 prefix_sep)

context chain begin

lemma ListTask_body_run:
  assumes "task_at C s t"
  shows "ListTask_body C E s opt acc (k, Raw (tk_TaskID t)) =
    (if limit_reached (lto_Limit opt) acc then Inr Break
     else if task_keep opt t then Inr (Append t) else Inr Continue)"
proof -
  have "fst (getTaskById C E (tk_TaskID t) s) = Inr (Some t)"
    using assms by (simp add: getTaskById_def task_at_def act_defs dec_ptr_def)
  then show ?thesis by (auto simp: ListTask_body_def task_keep_def sless_le)
qed

lemma ListTask_lists:
  assumes inv: "task_inv C s" and one: "\<not> (lto_PubKey opt \<noteq> [] \<and> lto_ExecPubKey opt \<noteq> [])"
  shows "\<exists>ts. ListTask C E (Got opt) s = (Inr (limited (lto_Limit opt) (filter (task_keep opt) ts)), s) \<and>
      distinct ts \<and>
      set ts = {t. task_at C s t \<and> one_key (lto_PubKey opt) (lto_ExecPubKey opt) \<in> parties t} \<and>
      sorted_wrt (<) (map (packExecutorTaskListIndex (one_key (lto_PubKey opt) (lto_ExecPubKey opt))) ts)"
proof -
  let ?k = "one_key (lto_PubKey opt) (lto_ExecPubKey opt)"
  let ?p = "key FlTaskListIndex [hex ?k, '''']"
  define lat where "lat = (\<lambda>t. task_at C s t \<and> ?k \<in> parties t)"
  have entry: "\<exists>t. lat t \<and> k = packExecutorTaskListIndex ?k t \<and> v = Raw (tk_TaskID t)"
    if p: "prefix ?p k" and v: "get_object C s k = Some v" for k v
  proof -
    obtain t q where t: "task_at C s t" "q \<in> parties t" "k = packExecutorTaskListIndex q t"
      "v = Raw (tk_TaskID t)" using task_invD(2)[OF inv under_prefix[OF p] v] by blast
    with p have "q = ?k" by (simp add: filter_one_prefix)
    with t show ?thesis unfolding lat_def by blast
  qed
  have stored: "get_object C s (packExecutorTaskListIndex ?k t) = Some (Raw (tk_TaskID t))" if "lat t" for t
    using that task_at_facts(3)[OF inv] unfolding lat_def by blast
  have inj: "t = u" if "lat t" "lat u" "packExecutorTaskListIndex ?k t = packExecutorTaskListIndex ?k u" for t u
    using that task_at_unique[of C s t u] unfolding lat_def task_key_simps by blast
  have body: "ListTask_body C E s opt acc (packExecutorTaskListIndex ?k t, Raw (tk_TaskID t)) =
    (if limit_reached (lto_Limit opt) acc then Inr Break
     else if task_keep opt t then Inr (Append t) else Inr Continue)" if "lat t" for acc t
    using that unfolding lat_def by (intro ListTask_body_run) blast
  obtain ts where run: "for_iter (ListTask_body C E s opt) (prefix_scan C s ?p) [] =
      Inr (limited (lto_Limit opt) (filter (task_keep opt) ts))"
    and ts: "set ts = {t. lat t \<and> prefix ?p (packExecutorTaskListIndex ?k t)}" "distinct ts"
      "sorted_wrt (<) (map (packExecutorTaskListIndex ?k) ts)"
    by (rule listing[where at = lat and p = ?p and s = s and kf = "packExecutorTaskListIndex ?k"
          and vf = "\<lambda>t. Raw (tk_TaskID t)" and keep = "task_keep opt" and lim = "lto_Limit opt",
        OF entry stored inj body])
  have "ListTask C E (Got opt) s = (Inr (limited (lto_Limit opt) (filter (task_keep opt) ts)), s)"
    unfolding ListTask_def bnd_got reads_def filter_one[OF one] run ..
  with ts show ?thesis unfolding filter_one_prefix lat_def by (intro exI[of _ ts]) simp
qed

end

section \<open>Looking up executor nodes\<close>

lemma executor_unique:
  assumes "executor_at C s m" and "executor_at C s n" and "en_ID m = en_ID n \<or> en_Name m = en_Name n"
  shows "m = n"
  using assms unfolding executor_at_def exec_keys_def
  by (metis blob.inject(2) enc_ExecutorNode_inj insertI1 insertI2 option.inject)

lemma executor_list_key:
  assumes "prefix (prefix_of ExecutorListIndex) k" and "k \<in> exec_keys n"
  shows "k = packExecutorListIndex n"
  using assms by (auto simp: exec_keys_def dai_pack_defs) (auto simp: key_def)

context chain begin

lemma ListExecutorNodes_lists:
  assumes inv: "executor_inv C s"
  shows "\<exists>ns. ListExecutorNodes C E s = (Inr ns, s) \<and> distinct ns \<and> set ns = {n. executor_at C s n} \<and>
    sorted_wrt (<) (map packExecutorListIndex ns)"
proof -
  let ?p = "prefix_of ExecutorListIndex"
  have keys: "packExecutorListIndex n \<in> exec_keys n" for n by (simp add: exec_keys_def)
  have pre: "prefix ?p (packExecutorListIndex n)" for n
    by (simp add: packExecutorListIndex_def key_def del: prefix_of.simps)
  have entry: "\<exists>n. executor_at C s n \<and> k = packExecutorListIndex n \<and> v = Doc (enc_ExecutorNode n)"
    if "prefix ?p k" "get_object C s k = Some v" for k v
  proof -
    have "executor_key k" using that(1) by (simp add: executor_key_def)
    with inv that(2) obtain n where "executor_at C s n" "k \<in> exec_keys n" "v = Doc (enc_ExecutorNode n)"
      unfolding executor_inv_def by blast
    with executor_list_key[OF that(1)] show ?thesis by blast
  qed
  have stored: "get_object C s (packExecutorListIndex n) = Some (Doc (enc_ExecutorNode n))"
    if "executor_at C s n" for n using that keys by (simp add: executor_at_def)
  have inj: "m = n" if "executor_at C s m" "executor_at C s n"
    "packExecutorListIndex m = packExecutorListIndex n" for m n
    using executor_unique[OF that(1,2)] that(3) by (simp add: packExecutorListIndex_def)
  have body: "ListExecutorNodes_body E acc (packExecutorListIndex n, Doc (enc_ExecutorNode n)) =
    (if limit_reached 0 acc then Inr Break else if True then Inr (Append n) else Inr Continue)"
    if "executor_at C s n" for acc n
    by (simp add: ListExecutorNodes_body_def limit_reached_def)
  obtain ns where "for_iter (ListExecutorNodes_body E) (prefix_scan C s ?p) [] =
      Inr (limited 0 (filter (\<lambda>_. True) ns))"
    and "set ns = {n. executor_at C s n \<and> prefix ?p (packExecutorListIndex n)}" and "distinct ns"
    and "sorted_wrt (<) (map packExecutorListIndex ns)"
    by (rule listing[where at = "executor_at C s" and p = ?p and s = s and kf = packExecutorListIndex
          and vf = "\<lambda>n. Doc (enc_ExecutorNode n)" and keep = "\<lambda>_. True" and lim = 0,
        OF entry stored inj body])
  then show ?thesis using pre
    by (intro exI[of _ ns]) (simp add: ListExecutorNodes_def reads_def limited_def del: prefix_of.simps)
qed

lemma executor_found:
  assumes "executor_at C s n"
  shows "GetExecutorNodeByID C (Some (hex (en_ID n))) s = (Inr (Doc (enc_ExecutorNode n)), s)"
    and "GetExecutorNodeByName C (Some (en_Name n)) s = (Inr (Doc (enc_ExecutorNode n)), s)"
  using assms
  by (simp_all add: GetExecutorNodeByID_def GetExecutorNodeByName_def executor_at_def exec_keys_def
      act_defs packNodeStringIndex_def packExecutorIndex_def)

lemma executor_registered_once:
  assumes "executor_at C s m" and "RegisterExecutorNode C E (Got opt) s = (Inr r, s')"
  shows "en_ID m \<noteq> en_ID (aeo_Node opt)" and "en_Name m \<noteq> en_Name (aeo_Node opt)"
    and "executor_at C s' (aeo_Node opt)"
proof -
  have "en_ID m \<noteq> en_ID (aeo_Node opt) \<and> en_Name m \<noteq> en_Name (aeo_Node opt) \<and> executor_at C s' (aeo_Node opt)"
    using assms(2)
  proof (rule RegisterExecutorNode_effect)
    fix opt' :: AddExecutorOptions and n :: ExecutorNode
    assume n: "Got opt = Got opt'" "n = aeo_Node opt'" and "name_ok (en_Name n)"
      and "get_object C s (packExecutorIndex (en_ID n)) = None"
        "get_object C s (packNodeNameIndex (en_Name n)) = None"
      and "\<And>k. get_object C s' k =
        (if k \<in> exec_keys n then Some (Doc (enc_ExecutorNode n)) else get_object C s k)"
    with assms(1) show ?thesis by (auto simp: executor_at_def exec_keys_def)
  qed
  then show "en_ID m \<noteq> en_ID (aeo_Node opt)" "en_Name m \<noteq> en_Name (aeo_Node opt)"
    "executor_at C s' (aeo_Node opt)" by auto
qed

end

lemma reachable_dai: "reachable C E s \<Longrightarrow> dai_reachable C E s"
proof (induction rule: reachable.induct)
  case (start s)
  then show ?case by (rule dai_start)
next
  case (step s c s')
  from step.hyps(2) have "dai_tx C E s (XCall c) s'" by (auto elim!: txE intro: dai_tx.intros)
  with step.IH show ?case by (rule dai_step)
qed

end
