(* ===== verification/DaiProperties.thy ===== *)
theory DaiProperties
  imports DaiLife XdbProperties
begin

text \<open>
  What the contract of the computation network promises, over any ledger that satisfies the laws
  of the locale \<open>chain\<close>, with a run on the reference ledger to which each property applies.
\<close>

section \<open>A run of a task\<close>

text \<open>
  The task uses the file of the storage run as the data of two executors. The record of the second
  executor arrives with a confirmation time already set.
\<close>

definition other_key :: bytes where
  "other_key = replicate 64 CHR ''o''"

definition demo_set :: "bytes \<Rightarrow> int64 \<Rightarrow> DataForTask" where
  "demo_set pk at = \<lparr>dt_Owner = pk, dt_Executor = pk, dt_DataID = ''f1'', dt_PsiLabel = ''id'',
     dt_ConfirmedAt = at, dt_RejectedAt = 0, dt_Address = ''h:1'', dt_IsTagPart = False\<rparr>"

definition demo_task :: "string \<Rightarrow> int64 \<Rightarrow> FLTask" where
  "demo_task st at = \<lparr>tk_TaskID = ''t1'', tk_Name = ''n'', tk_Description = [], tk_Requester = demo_key,
     tk_DataSets = [Some (demo_set demo_key at), Some (demo_set other_key 1)], tk_AlgoParam = JNull,
     tk_Status = st, tk_ErrMessage = [], tk_Result = [], tk_PublishTime = 5, tk_StartTime = 0,
     tk_EndTime = 0\<rparr>"

definition demo_tpub :: PublishFLTaskOptions where
  "demo_tpub = \<lparr>pto_FLTask = Some (demo_task [] 0), pto_Signature = demo_key\<rparr>"

definition demo_tconf :: FLTaskConfirmOptions where
  "demo_tconf = \<lparr>tco_Pubkey = demo_key, tco_TaskID = ''t1'', tco_RejectReason = [], tco_CurrentTime = 7,
     tco_Signature = demo_key\<rparr>"

definition demo_exec :: AddExecutorOptions where
  "demo_exec = \<lparr>aeo_Node = \<lparr>en_ID = demo_key, en_Name = ''node1'', en_Address = ''h:1'', en_HttpAddress = [],
     en_PaddleFLAddress = [], en_PaddleFLRole = 0, en_RegTime = 3\<rparr>, aeo_Signature = demo_key\<rparr>"

lemma task_signed_mem [simp]: "task_signed mem_env sg pk (JObj kvs) \<longleftrightarrow> length sg = 64"
  by (simp add: task_signed_def GetSigMessage_def)

lemma run_checkTaskSigned [simp]:
  "length sg = 64 \<Longrightarrow> bnd (checkTaskSigned mem_env sg pk (JObj kvs)) f s = f () s"
  by (simp add: checkTaskSigned_def GetSigMessage_def checkTaskSign_def SignatureLength_def Let_def act_defs)

lemma run_publish_lists [simp]:
  "bnd (publish_lists mem_chain t [Some d, Some e]) f s =
     f () (store_put (store_put (store_put (store_put s
       (packExecutorTaskListIndex (dt_Executor d) t) (Raw (tk_TaskID t)))
       (packRequesterExecutorTaskIndex (dt_Executor d) t) (Raw (tk_TaskID t)))
       (packExecutorTaskListIndex (dt_Executor e) t) (Raw (tk_TaskID t)))
       (packRequesterExecutorTaskIndex (dt_Executor e) t) (Raw (tk_TaskID t)))"
  by (simp add: act_defs)

lemma demo_task_simps [simp]:
  "tk_TaskID (demo_task st a) = ''t1''" "tk_Requester (demo_task st a) = demo_key"
  "tk_Status (demo_task st a) = st" "tk_PublishTime (demo_task st a) = 5"
  "tk_DataSets (demo_task st a) = [Some (demo_set demo_key a), Some (demo_set other_key 1)]"
  "(demo_task st a)\<lparr>tk_Status := st'\<rparr> = demo_task st' a"
  "(demo_task st a)\<lparr>tk_DataSets := [Some (demo_set demo_key b), Some (demo_set other_key 1)]\<rparr> = demo_task st b"
  by (simp_all add: demo_task_def)

lemma demo_set_simps [simp]:
  "dt_Executor (demo_set pk a) = pk" "dt_DataID (demo_set pk a) = ''f1''"
  "dt_ConfirmedAt (demo_set pk a) = a" "dt_RejectedAt (demo_set pk a) = 0"
  "(demo_set pk a)\<lparr>dt_ConfirmedAt := b\<rparr> = demo_set pk b"
  by (simp_all add: demo_set_def)

lemma demo_opt_simps [simp]:
  "pto_FLTask demo_tpub = Some (demo_task [] 0)" "pto_Signature demo_tpub = demo_key"
  "tco_Pubkey demo_tconf = demo_key" "tco_TaskID demo_tconf = ''t1''" "tco_CurrentTime demo_tconf = 7"
  "tco_Signature demo_tconf = demo_key"
  by (simp_all add: demo_tpub_def demo_tconf_def)

lemma run_checkTaskSigned_task [simp]:
  "length sg = 64 \<Longrightarrow> bnd (checkTaskSigned mem_env sg pk (enc_FLTask t)) f s = f () s"
  unfolding enc_FLTask_def by (rule run_checkTaskSigned)

lemma reach3_dai: "dai_reachable mem_chain mem_env demo3"
  by (rule reachable_dai[OF reach3])

definition tdemo1 :: store where
  "tdemo1 = snd (PublishTask mem_chain mem_env (Got demo_tpub) demo3)"

lemma demo3_no_task: "store_get demo3 (packFlTaskIndex i) = None"
proof -
  have "file_inv mem_chain demo2"
    using mem.reachable_inv[OF reach0[THEN reachable.step, OF tx1, THEN reachable.step, OF tx2]]
    by (simp add: xdb_inv_def)
  from mem.frame_key[OF this tx3, of FlTaskIndex "[i]"] show ?thesis
    by (simp add: packFlTaskIndex_def) (simp add: pack_defs ns_list_key_def)
qed

lemma tdemo1: "PublishTask mem_chain mem_env (Got demo_tpub) demo3 = (Inr ''added'', tdemo1)"
  by (simp add: tdemo1_def PublishTask_def Let_def demo3_no_task del: publish_lists.simps)

lemma ttx1: "dai_tx mem_chain mem_env demo3 (DPublishTask (Got demo_tpub)) tdemo1"
  by (rule dai_tx.intros) (simp_all add: commit_def tdemo1)

lemma tdemo1_task: "task_at mem_chain tdemo1 (demo_task ''Confirming'' 0)"
  using tdemo1
proof (rule mem.PublishTask_effect)
  fix opt :: PublishFLTaskOptions and t0 t :: FLTask
  assume *: "Got demo_tpub = Got opt" "pto_FLTask opt = Some t0" "t = t0\<lparr>tk_Status := TaskConfirming\<rparr>"
    and get: "\<And>k. get_object mem_chain tdemo1 k =
      (if (\<exists>pk \<in> parties t. k = packExecutorTaskListIndex pk t) \<or>
          (\<exists>pk \<in> executors (tk_DataSets t). k = packRequesterExecutorTaskIndex pk t)
       then Some (Raw (tk_TaskID t))
       else if k = packFlTaskIndex (tk_TaskID t) then Some (Doc (enc_FLTask t))
       else get_object mem_chain demo3 k)"
  from * have t: "t = demo_task ''Confirming'' 0" by auto
  show ?thesis unfolding task_at_def t[symmetric] by (subst get) simp
qed

lemma tdemo1_file: "store_get tdemo1 ''f1'' = Some (Doc (enc_File demo_file))"
proof -
  have "\<not> in_index I ''f1''" for I by simp
  then have "\<not> in_index {FlTaskIndex, FlTaskListIndex, REFlTaskListIndex} ''f1''" .
  from writesD[OF mem.PublishTask_writes tdemo1 this] show ?thesis by simp
qed

definition tdemo2 :: store where
  "tdemo2 = snd (ConfirmTask mem_chain mem_env (Got demo_tconf) tdemo1)"

lemma other_neq [simp]: "other_key \<noteq> demo_key" "demo_key \<noteq> other_key"
proof -
  have "hd other_key = CHR ''o''" "hd demo_key = CHR ''k''"
    by (simp_all add: other_key_def demo_key_def numeral_nat)
  then show "other_key \<noteq> demo_key" "demo_key \<noteq> other_key" by auto
qed

lemma demo_confirm_sets: "confirm_sets mem_chain tdemo1 demo_tconf True
    [Some (demo_set demo_key 0), Some (demo_set other_key 1)] =
  Inr ([Some (demo_set demo_key 7), Some (demo_set other_key 1)], True)"
  by (simp add: tdemo1_file)

lemma run_reads [simp]: "g s = Inr x \<Longrightarrow> bnd (reads g) f s = f x s"
  by (simp add: act_defs)

lemma tdemo2: "ConfirmTask mem_chain mem_env (Got demo_tconf) tdemo1 = (Inr ''OK'', tdemo2)"
proof -
  have "bnd (getTaskById mem_chain mem_env ''t1'') f tdemo1 = f (Some (demo_task ''Confirming'' 0)) tdemo1"
    for f :: "FLTask option \<Rightarrow> (store, string) act"
    using tdemo1_task by (simp add: getTaskById_def task_at_def act_defs dec_ptr_def)
  then show ?thesis
    by (simp add: tdemo2_def ConfirmTask_def setTaskConfirmStatus_def enc_FLTaskConfirmOptions_def
        Let_def demo_confirm_sets del: confirm_sets.simps)
qed

lemma ttx2: "dai_tx mem_chain mem_env tdemo1 (DConfirmTask (Got demo_tconf)) tdemo2"
  by (rule dai_tx.intros) (simp_all add: commit_def tdemo2)

lemma treach1: "dai_reachable mem_chain mem_env tdemo1"
  by (rule dai_step[OF reach3_dai ttx1])

lemma treach2: "dai_reachable mem_chain mem_env tdemo2"
  by (rule dai_step[OF treach1 ttx2])

lemma tdemo2_task: "task_at mem_chain tdemo2 (demo_task ''Ready'' 7)"
  using tdemo2[unfolded ConfirmTask_def]
proof (rule mem.setTaskConfirmStatus_effect)
  fix opt :: FLTaskConfirmOptions and b and t :: FLTask
  assume opt: "Got demo_tconf = Got opt"
    and b: "get_object mem_chain tdemo1 (packFlTaskIndex (tco_TaskID opt)) = Some b"
      "unmarshal mem_env (dec_ptr dec_FLTask) b = Some (Some t)"
    and get: "get_object mem_chain tdemo2 = (get_object mem_chain tdemo1)(packFlTaskIndex (tk_TaskID t) \<mapsto>
      Doc (enc_FLTask (decided opt True t)))"
  have "b = Doc (enc_FLTask (demo_task ''Confirming'' 0))" using b(1) opt tdemo1_task by (auto simp: task_at_def)
  with b(2) have t: "t = demo_task ''Confirming'' 0" by (simp add: dec_ptr_def)
  have "decided demo_tconf True t = demo_task ''Ready'' 7"
    by (simp add: decided_def t Let_def decide_def others_confirmed_def)
  with opt get t show ?thesis by (simp add: task_at_def)
qed

definition ttdemo :: store where
  "ttdemo = snd (RegisterExecutorNode mem_chain mem_env (Got demo_exec) empty_store)"

lemma ttdemo: "RegisterExecutorNode mem_chain mem_env (Got demo_exec) empty_store = (Inr ''added'', ttdemo)"
proof -
  have "name_ok ''node1''" unfolding name_ok_def
    by (rule bexI[of _ 4]) (auto simp: name_char_def less_eq_char_def numeral_nat)
  then show ?thesis
    by (simp add: ttdemo_def RegisterExecutorNode_def demo_exec_def enc_AddExecutorOptions_def Let_def
        dai_pack_defs)
qed

section \<open>Properties of the contract\<close>







text \<open>
  A finished or rejected task is final: in every later state it is stored exactly as it is,
  with its result or the reason it was rejected for.
\<close>
lemma finished_task_final:
  assumes "chain C" and "dai_reachable C E s" and "dai_later C E s s'" and "task_at C s t"
    and "tk_Status t = TaskFinished \<or> tk_Status t = TaskRejected"
  shows "task_at C s' t"
  by (rule chain.task_final[OF assms(1,3) chain.dai_reachable_inv[OF assms(1,2)] assms(4,5)])

definition demo_treject :: FLTaskConfirmOptions where
  "demo_treject = demo_tconf\<lparr>tco_RejectReason := ''no''\<rparr>"

lemma tdemo_rejected:
  "\<exists>s t. dai_tx mem_chain mem_env tdemo1 (DRejectTask (Got demo_treject)) s \<and> task_at mem_chain s t \<and>
     tk_Status t = ''Rejected''"
proof -
  have "bnd (getTaskById mem_chain mem_env ''t1'') f tdemo1 = f (Some (demo_task ''Confirming'' 0)) tdemo1"
    for f :: "FLTask option \<Rightarrow> (store, string) act"
    using tdemo1_task by (simp add: getTaskById_def task_at_def act_defs dec_ptr_def)
  moreover obtain ds allc where "confirm_sets mem_chain tdemo1 demo_treject False
      [Some (demo_set demo_key 0), Some (demo_set other_key 1)] = Inr (ds, allc)"
    by (simp add: tdemo1_file demo_treject_def Let_def)
  ultimately have "\<exists>s. RejectTask mem_chain mem_env (Got demo_treject) tdemo1 = (Inr ''OK'', s)"
    by (simp add: RejectTask_def setTaskConfirmStatus_def enc_FLTaskConfirmOptions_def Let_def
        demo_treject_def del: confirm_sets.simps)
  then obtain s where run: "RejectTask mem_chain mem_env (Got demo_treject) tdemo1 = (Inr ''OK'', s)" ..
  then have tx: "dai_tx mem_chain mem_env tdemo1 (DRejectTask (Got demo_treject)) s"
    by (intro dai_tx.intros) (simp_all add: commit_def)
  from run[unfolded RejectTask_def] have "\<exists>t. task_at mem_chain s t \<and> tk_Status t = ''Rejected''"
  proof (rule mem.setTaskConfirmStatus_effect)
    fix opt :: FLTaskConfirmOptions and t :: FLTask
    assume "get_object mem_chain s = (get_object mem_chain tdemo1)(packFlTaskIndex (tk_TaskID t) \<mapsto>
      Doc (enc_FLTask (decided opt False t)))"
    then have "task_at mem_chain s (decided opt False t)" by (simp add: task_at_def decided_def)
    moreover have "tk_Status (decided opt False t) = ''Rejected''" by (simp add: decided_def)
    ultimately show ?thesis by blast
  qed
  with tx show ?thesis by blast
qed

lemma finished_task_final_witness:
  "\<exists>s t. dai_reachable mem_chain mem_env s \<and> tk_Status t = ''Rejected'' \<and> task_at mem_chain s t"
proof -
  obtain s t where st: "dai_tx mem_chain mem_env tdemo1 (DRejectTask (Got demo_treject)) s"
    "task_at mem_chain s t" "tk_Status t = ''Rejected''" using tdemo_rejected by blast
  have "task_at mem_chain s t"
    by (rule finished_task_final[OF mem.chain_axioms dai_step[OF treach1 st(1)] dai_now st(2)])
      (simp add: st(3))
  with dai_step[OF treach1 st(1)] st(3) show ?thesis by blast
qed

text \<open>
  C11: A task becomes ready only when every executor has confirmed. When a confirmation makes a
  task ready, it is signed by one of its executors, all of whose data sets name data that is on
  the ledger and were undecided; and every data set of another executor carries a confirmation.
\<close>
theorem ready_after_all_confirmed:
  assumes "chain C" and "dai_reachable C E s" and "ConfirmTask C E (Got opt) s = (Inr r, s')"
    and "task_at C s' u" and "tk_TaskID u = tco_TaskID opt" and "tk_Status u = TaskReady"
    and "Some d \<in> set (tk_DataSets u)"
  shows "if dt_Executor d = tco_Pubkey opt
    then dt_ConfirmedAt d = tco_CurrentTime opt \<and> get_object C s (dt_DataID d) \<noteq> None \<and>
      task_signed E (tco_Signature opt) (tco_Pubkey opt) (enc_FLTaskConfirmOptions opt)
    else dt_ConfirmedAt d \<noteq> 0"
proof (rule chain.setTaskConfirmStatus_effect[OF assms(1) assms(3)[unfolded ConfirmTask_def]])
  fix opt' :: FLTaskConfirmOptions and b and t :: FLTask
  assume o: "Got opt = Got opt'"
    and b: "get_object C s (packFlTaskIndex (tco_TaskID opt')) = Some b"
      "unmarshal E (dec_ptr dec_FLTask) b = Some (Some t)"
    and sg: "task_signed E (tco_Signature opt') (tco_Pubkey opt') (enc_FLTaskConfirmOptions opt')"
    and st: "tk_Status t = TaskConfirming"
    and free: "\<And>ds. Some ds \<in> set (tk_DataSets t) \<Longrightarrow> dt_Executor ds = tco_Pubkey opt' \<Longrightarrow>
      get_object C s (dt_DataID ds) \<noteq> None \<and> \<not> 0 <s dt_ConfirmedAt ds \<and> \<not> 0 <s dt_RejectedAt ds"
    and get: "get_object C s' = (get_object C s)(packFlTaskIndex (tk_TaskID t) \<mapsto>
      Doc (enc_FLTask (decided opt' True t)))"
  have "task_inv C s" using chain.dai_reachable_inv[OF assms(1,2)] by (simp add: dai_inv_def)
  note t = task_of_id[OF this b]
  have "u = decided opt' True t" using assms(4,5) get t(1) o by (simp add: task_at_def)
  with assms(6,7) st have oc: "others_confirmed opt' (tk_DataSets t)"
    and d: "Some d \<in> set (map (map_option (decide opt' True)) (tk_DataSets t))"
    by (auto simp: decided_def Let_def split: if_splits)
  from d obtain e where e: "Some e \<in> set (tk_DataSets t)" "d = decide opt' True e"
    by (auto simp: image_iff) (metis option.exhaust option.simps(8,9) option.inject option.distinct(1))
  with oc sg free[OF e(1)] o show ?thesis by (auto simp: decide_def others_confirmed_def)
qed

lemma ready_after_all_confirmed_witness:
  "dt_ConfirmedAt (demo_set other_key 1) \<noteq> 0 \<and> tk_Status (demo_task ''Ready'' 7) = ''Ready''"
  using ready_after_all_confirmed[OF mem.chain_axioms treach1 tdemo2 tdemo2_task, of "demo_set other_key 1"]
  by simp

text \<open>
  The confirmation times in a published task count. When all the data sets of other executors
  come with a confirmation time in the publication itself, the confirmation of one executor makes
  the task ready, although the others have signed nothing.
\<close>
lemma preset_confirmation_counts:
  assumes "chain C" and "PublishTask C E (Got popt) s = (Inr r, s1)" and "pto_FLTask popt = Some t"
    and "\<forall>ds. Some ds \<in> set (tk_DataSets t) \<longrightarrow> dt_Executor ds = tco_Pubkey opt \<or> dt_ConfirmedAt ds \<noteq> 0"
    and "tco_TaskID opt = tk_TaskID t" and "ConfirmTask C E (Got opt) s1 = (Inr r', s2)"
  shows "\<exists>u. task_at C s2 u \<and> tk_TaskID u = tk_TaskID t \<and> tk_Status u = TaskReady"
proof (rule chain.PublishTask_effect[OF assms(1,2)])
  fix popt' :: PublishFLTaskOptions and t0 t1 :: FLTask
  assume p: "Got popt = Got popt'" "pto_FLTask popt' = Some t0" "t1 = t0\<lparr>tk_Status := TaskConfirming\<rparr>"
    and get1: "\<And>k. get_object C s1 k =
      (if (\<exists>pk \<in> parties t1. k = packExecutorTaskListIndex pk t1) \<or>
          (\<exists>pk \<in> executors (tk_DataSets t1). k = packRequesterExecutorTaskIndex pk t1)
       then Some (Raw (tk_TaskID t1))
       else if k = packFlTaskIndex (tk_TaskID t1) then Some (Doc (enc_FLTask t1)) else get_object C s k)"
  from p assms(3) have t1: "t1 = t\<lparr>tk_Status := TaskConfirming\<rparr>" by simp
  have stored: "get_object C s1 (packFlTaskIndex (tk_TaskID t)) = Some (Doc (enc_FLTask t1))"
    by (subst get1) (simp add: t1)
  show ?thesis
  proof (rule chain.setTaskConfirmStatus_effect[OF assms(1) assms(6)[unfolded ConfirmTask_def]])
    fix opt' :: FLTaskConfirmOptions and b and t2 :: FLTask
    assume o: "Got opt = Got opt'" "get_object C s1 (packFlTaskIndex (tco_TaskID opt')) = Some b"
        "unmarshal E (dec_ptr dec_FLTask) b = Some (Some t2)"
      and get: "get_object C s2 = (get_object C s1)(packFlTaskIndex (tk_TaskID t2) \<mapsto>
        Doc (enc_FLTask (decided opt' True t2)))"
    have "b = Doc (enc_FLTask t1)" using o(1,2) stored assms(5) by simp
    with o(3) have t2: "t2 = t1" by (simp add: dec_ptr_def)
    have "others_confirmed opt' (tk_DataSets t2)" using assms(4) o(1) by (simp add: t2 t1 others_confirmed_def)
    then have "tk_Status (decided opt' True t2) = TaskReady" "tk_TaskID (decided opt' True t2) = tk_TaskID t"
      by (simp_all add: decided_def Let_def t2 t1)
    moreover have "task_at C s2 (decided opt' True t2)"
      using calculation(2) by (simp add: task_at_def get t2 t1)
    ultimately show ?thesis by blast
  qed
qed

lemma preset_confirmation_counts_witness:
  "\<exists>u. task_at mem_chain tdemo2 u \<and> tk_TaskID u = ''t1'' \<and> tk_Status u = ''Ready''"
  using preset_confirmation_counts[OF mem.chain_axioms tdemo1, of "demo_task [] 0" demo_tconf, OF _ _ _ tdemo2]
  by auto

text \<open>
  The list query of tasks for one party returns exactly the stored tasks in which this party
  is requester or executor, published in the asked period and in the asked status, each once, in
  the order of the list keys, and the first ones up to the limit. It changes nothing.
\<close>
lemma task_list_exact:
  assumes "chain C" and "dai_reachable C E s" and "lto_PubKey opt = [] \<or> lto_ExecPubKey opt = []"
  shows "\<exists>ts. ListTask C E (Got opt) s = (Inr (limited (lto_Limit opt) (filter (task_keep opt) ts)), s) \<and>
      distinct ts \<and>
      set ts = {t. task_at C s t \<and> one_key (lto_PubKey opt) (lto_ExecPubKey opt) \<in> parties t} \<and>
      sorted_wrt (<) (map (packExecutorTaskListIndex (one_key (lto_PubKey opt) (lto_ExecPubKey opt))) ts)"
  using chain.ListTask_lists[OF assms(1), of s opt E] chain.dai_reachable_inv[OF assms(1,2)] assms(3)
  by (simp add: dai_inv_def)

definition demo_tlist :: ListFLTaskOptions where
  "demo_tlist = \<lparr>lto_PubKey = demo_key, lto_ExecPubKey = [], lto_Status = ''Ready'', lto_TimeStart = 0,
     lto_TimeEnd = 0, lto_Limit = 0\<rparr>"

lemma task_list_exact_witness:
  "\<exists>ts. ListTask mem_chain mem_env (Got demo_tlist) tdemo2 = (Inr ts, tdemo2) \<and>
     demo_task ''Ready'' 7 \<in> set ts"
proof -
  have keep: "task_keep demo_tlist (demo_task ''Ready'' 7)"
    by (simp add: task_keep_def demo_tlist_def word_sle_eq)
  have key: "one_key (lto_PubKey demo_tlist) (lto_ExecPubKey demo_tlist) = demo_key"
    by (simp add: demo_tlist_def one_key_def demo_key_def)
  from task_list_exact[OF mem.chain_axioms treach2, of demo_tlist] obtain ts where
    ts: "ListTask mem_chain mem_env (Got demo_tlist) tdemo2 =
        (Inr (limited (lto_Limit demo_tlist) (filter (task_keep demo_tlist) ts)), tdemo2)"
      "set ts = {t. task_at mem_chain tdemo2 t \<and> demo_key \<in> parties t}"
    unfolding key by (auto simp: demo_tlist_def)
  have "demo_task ''Ready'' 7 \<in> set ts" using tdemo2_task by (simp add: ts(2) parties_def)
  with keep ts(1) show ?thesis by (simp add: limited_def demo_tlist_def[THEN arg_cong[where f = lto_Limit]])
qed

text \<open>
  Executor nodes keep their names apart: two stored nodes with the same identifier or the same
  name are the same node, a registration succeeds only for an identifier and a name that no stored
  node has, and the node is then found by either. The list query returns every stored node once.
\<close>
lemma executor_nodes_exact:
  assumes "chain C" and "dai_reachable C E s" and "executor_at C s m"
  shows "(\<forall>n. executor_at C s n \<longrightarrow> en_ID m = en_ID n \<or> en_Name m = en_Name n \<longrightarrow> m = n) \<and>
    GetExecutorNodeByID C (Some (hex (en_ID m))) s = (Inr (Doc (enc_ExecutorNode m)), s) \<and>
    GetExecutorNodeByName C (Some (en_Name m)) s = (Inr (Doc (enc_ExecutorNode m)), s) \<and>
    (\<forall>opt r s'. RegisterExecutorNode C E (Got opt) s = (Inr r, s') \<longrightarrow>
       en_ID (aeo_Node opt) \<noteq> en_ID m \<and> en_Name (aeo_Node opt) \<noteq> en_Name m \<and>
       executor_at C s' (aeo_Node opt)) \<and>
    (\<exists>ns. ListExecutorNodes C E s = (Inr ns, s) \<and> distinct ns \<and> set ns = {n. executor_at C s n})"
proof -
  have inv: "executor_inv C s" using chain.dai_reachable_inv[OF assms(1,2)] by (simp add: dai_inv_def)
  show ?thesis
    using executor_unique[OF assms(3)] chain.executor_found[OF assms(1,3)]
      chain.executor_registered_once[OF assms(1,3)] chain.ListExecutorNodes_lists[OF assms(1) inv]
    by metis
qed

lemma executor_nodes_exact_witness:
  "\<exists>ns. ListExecutorNodes mem_chain mem_env ttdemo = (Inr ns, ttdemo) \<and> aeo_Node demo_exec \<in> set ns"
proof -
  have "dai_tx mem_chain mem_env empty_store (DRegister (Got demo_exec)) ttdemo"
    by (rule dai_tx.intros) (simp_all add: commit_def ttdemo)
  then have r: "dai_reachable mem_chain mem_env ttdemo" by (intro dai_step[OF dai_start]) auto
  have at: "executor_at mem_chain ttdemo (aeo_Node demo_exec)"
    by (rule mem.RegisterExecutorNode_effect[OF ttdemo]) (simp add: executor_at_def)
  from executor_nodes_exact[OF mem.chain_axioms r at] at show ?thesis by blast
qed

text \<open>
  A task identifier is used once: publishing a task under the identifier of a stored task is
  refused and changes nothing, whoever signs it.
\<close>
lemma task_published_once:
  assumes "task_at C s t" and "pto_FLTask opt = Some u" and "tk_TaskID u = tk_TaskID t"
  shows "\<exists>e. PublishTask C E (Got opt) s = (Inl e, s)"
proof -
  have "bnd (absent C ErrCodeAlreadyExists (packFlTaskIndex (tk_TaskID t))) f s =
      (Inl (Errx ErrCodeAlreadyExists), s)" for f :: "unit \<Rightarrow> ('a, string) act"
    using assms(1) by (simp add: task_at_def act_defs)
  moreover obtain q where q: "checkTaskSigned E (pto_Signature opt) (tk_Requester u) (enc_FLTask u) s = (q, s)"
    using keeps_stateD[OF keeps_checkTaskSigned] by (metis prod.exhaust)
  ultimately show ?thesis
    by (cases q) (simp_all add: PublishTask_def bnd_def[of "checkTaskSigned _ _ _ _"] Let_def assms(2,3))
qed

lemma task_published_once_witness:
  "\<exists>e. PublishTask mem_chain mem_env (Got demo_tpub) tdemo1 = (Inl e, tdemo1)"
  using task_published_once[OF tdemo1_task, of demo_tpub] by simp

text \<open>
  The check of an executor's name looks at its beginning only: what follows four characters
  that it accepts is not looked at, so a name it accepts stays accepted with anything appended.
\<close>
lemma name_check_ignores_rest:
  assumes "name_ok p"
  shows "name_ok (p @ rest)"
proof -
  from assms obtain n where "n \<in> {4..16}" "n \<le> length p" "list_all name_char (take n p)"
    unfolding name_ok_def by blast
  then show ?thesis unfolding name_ok_def by (intro bexI[of _ n]) auto
qed

lemma name_check_ignores_rest_witness: "name_ok (''node'' @ ''/../ANY THING'')"
proof -
  have "name_ok ''node''" unfolding name_ok_def
    by (rule bexI[of _ 4]) (auto simp: name_char_def less_eq_char_def numeral_nat)
  then show ?thesis by (rule name_check_ignores_rest)
qed

end
