(* ===== verification/BigPolynomial.thy ===== *)
theory BigPolynomial
  imports Golang
begin

text \<open>
  Polynomials over a prime field (\<^verbatim>\<open>crypto/common/math/big_polynomial/polynomial.go\<close>) and the
  random generator their coefficients come from (\<^verbatim>\<open>crypto/common/math/rand/number.go\<close>).
  A \<^verbatim>\<open>*big.Int\<close> is an integer, or \<open>None\<close> for a nil pointer where the code can meet one.
  The arithmetic of the client works in place; where that shows in a result it is modelled.
  \<open>Evaluate\<close> takes the constant term first, the interpolation keeps the highest power first.
\<close>

section \<open>Faults and integers\<close>

datatype crypto_fault =
    ErrInvalidEntropyLength | ErrStrengthNotSupported | ErrEntropy
  | InvalidTotalShareNumberError | InvalidShareNumberError | ErrPrimePEqualsQ | ErrMsgOutOfRange
  | ErrConcat | ErrInvalidChallenge | ErrPointBytes | Panic

type_synonym 'a cres = "crypto_fault + 'a"

definition cbind :: "'a cres \<Rightarrow> ('a \<Rightarrow> 'b cres) \<Rightarrow> 'b cres" where
  "cbind r f = (case r of Inl e \<Rightarrow> Inl e | Inr x \<Rightarrow> f x)"

lemma cbind_simps [simp]: "cbind (Inl e) f = Inl e" "cbind (Inr x) f = f x"
  by (simp_all add: cbind_def)

lemma cbind_ok: "cbind r f = Inr y \<longleftrightarrow> (\<exists>x. r = Inr x \<and> f x = Inr y)"
  by (auto simp: cbind_def split: sum.splits)

text \<open>\<^verbatim>\<open>big.Int.SetBytes\<close> and \<^verbatim>\<open>big.Int.Bytes\<close>: big-endian, without leading zero bytes.\<close>

definition SetBytes :: "bytes \<Rightarrow> int" where
  "SetBytes bs = int (foldl (\<lambda>n b. 256 * n + of_char b) 0 bs)"

fun nat_bytes :: "nat \<Rightarrow> bytes" where
  "nat_bytes n = (if n = 0 then [] else nat_bytes (n div 256) @ [char_of (n mod 256)])"

declare nat_bytes.simps [simp del]

definition Bytes :: "int \<Rightarrow> bytes" where
  "Bytes i = nat_bytes (nat \<bar>i\<bar>)"

lemma nat_bytes_0 [simp]: "nat_bytes 0 = []"
  by (simp add: nat_bytes.simps)

lemma nat_bytes_pos: "n \<noteq> 0 \<Longrightarrow> nat_bytes n = nat_bytes (n div 256) @ [char_of (n mod 256)]"
  by (subst nat_bytes.simps) simp

lemma foldl_bytes_zero: "(foldl (\<lambda>n b. 256 * n + of_char b) 0 (CHR 0x00 # bs) :: nat) =
    foldl (\<lambda>n b. 256 * n + of_char b) 0 bs"
  by simp

lemma nat_bytes_foldl:
  "m \<noteq> 0 \<or> (bs \<noteq> [] \<longrightarrow> hd bs \<noteq> CHR 0x00) \<Longrightarrow>
    nat_bytes (foldl (\<lambda>n b. 256 * n + of_char b) m bs) = nat_bytes m @ bs"
proof (induction bs rule: rev_induct)
  case (snoc b bs)
  let ?n = "foldl (\<lambda>n b. 256 * n + of_char b) m bs :: nat"
  have IH: "nat_bytes ?n = nat_bytes m @ bs" using snoc by (cases bs) auto
  have b: "(of_char b :: nat) < 256" by (metis of_char_mod_256 mod_less_divisor zero_less_numeral)
  have "256 * ?n + of_char b \<noteq> 0"
  proof (cases "bs = [] \<and> m = 0")
    case True
    with snoc.prems have "b \<noteq> CHR 0x00" by simp
    then have "(of_char b :: nat) \<noteq> of_char (CHR 0x00)" by (metis char_of_char)
    then show ?thesis by simp
  next
    case False
    then have "nat_bytes ?n \<noteq> []" unfolding IH by (cases "m = 0") (auto simp: nat_bytes_pos)
    then show ?thesis by (cases "?n = 0") simp_all
  qed
  then show ?case using IH b by (simp add: nat_bytes_pos)
qed simp

lemma Bytes_SetBytes: "Bytes (SetBytes bs) = dropWhile (\<lambda>b. b = CHR 0x00) bs"
proof (induction bs)
  case Nil
  then show ?case by (simp add: SetBytes_def Bytes_def)
next
  case (Cons b bs)
  show ?case
  proof (cases "b = CHR 0x00")
    case True
    with Cons foldl_bytes_zero[of bs] show ?thesis by (simp add: SetBytes_def)
  next
    case False
    with nat_bytes_foldl[of 0 "b # bs"] show ?thesis by (simp add: SetBytes_def Bytes_def)
  qed
qed

lemma SetBytes_nonneg [simp]: "0 \<le> SetBytes bs"
  by (simp add: SetBytes_def)

text \<open>\<^verbatim>\<open>big.Int.ModInverse(g, n)\<close>: nil when \<open>g\<close> and \<open>n\<close> have a common factor.\<close>

definition ModInverse :: "int \<Rightarrow> int \<Rightarrow> int option" where
  "ModInverse g n = (let m = \<bar>n\<bar>; h = g mod m in
     if gcd h m \<noteq> 1 then None else Some (fst (bezw (nat h) (nat m)) mod m))"

lemma ModInverse_Some:
  assumes n: "0 < n" and c: "coprime g n"
  obtains k where "ModInverse g n = Some k" and "(g * k) mod n = 1 mod n"
proof -
  let ?h = "g mod n"
  have g1: "gcd ?h n = 1" using c by (metis coprime_iff_gcd_eq_1 gcd_red_int gcd.commute)
  let ?b = "bezw (nat ?h) (nat n)"
  have h0: "0 \<le> ?h" using n by simp
  have "fst ?b * int (nat ?h) + snd ?b * int (nat n) = int (gcd (nat ?h) (nat n))" by (rule bezw_aux[symmetric])
  moreover have "int (gcd (nat ?h) (nat n)) = gcd ?h n"
    using h0 n by (simp add: gcd_int_def)
  ultimately have e: "fst ?b * ?h + snd ?b * n = 1" using h0 n g1 by simp
  have "(g * (fst ?b mod n)) mod n = (fst ?b * ?h) mod n"
    by (metis mod_mult_left_eq mod_mult_right_eq mult.commute)
  also have "\<dots> = (fst ?b * ?h + snd ?b * n) mod n" by simp
  finally have "(g * (fst ?b mod n)) mod n = 1 mod n" unfolding e .
  with that[of "fst ?b mod n"] n g1 show thesis by (simp add: ModInverse_def Let_def)
qed

section \<open>Primes\<close>

definition is_prime :: "int \<Rightarrow> bool" where
  "is_prime p \<longleftrightarrow> 1 < p \<and> (\<forall>d \<in> {2..<p}. \<not> d dvd p)"

lemma prime_coprime: "is_prime p \<Longrightarrow> \<not> p dvd a \<Longrightarrow> coprime a p"
proof -
  assume p: "is_prime p" and a: "\<not> p dvd a"
  have g: "gcd a p dvd p" "0 < gcd a p" using p by (auto simp: is_prime_def)
  have "gcd a p \<le> p" using g p by (simp add: is_prime_def zdvd_imp_le)
  moreover have "gcd a p \<noteq> p" using a by (metis gcd_dvd1)
  ultimately have "gcd a p < p" by simp
  then have "gcd a p < 2" using g(1) p unfolding is_prime_def by (metis atLeastLessThan_iff linorder_not_less)
  with g have "gcd a p = 1" by linarith
  then show ?thesis by (simp add: coprime_iff_gcd_eq_1)
qed

lemma prime_mult: "is_prime p \<Longrightarrow> p dvd a * b \<Longrightarrow> p dvd a \<or> p dvd b"
  using prime_coprime coprime_dvd_mult_right_iff coprime_commute by metis

lemma prime_prod_list: "is_prime p \<Longrightarrow> p dvd prod_list as \<Longrightarrow> \<exists>a \<in> set as. p dvd a"
proof (induction as)
  case Nil
  then show ?case by (auto simp: is_prime_def dest: zdvd_imp_le)
next
  case (Cons a as)
  then show ?case using prime_mult[of p a "prod_list as"] by auto
qed

section \<open>The random generator\<close>

text \<open>
  The system's entropy (by number of the call and length; \<open>None\<close> when it fails) and PBKDF2 with
  SHA-512 are primitives. What the code relies on is that a derived key is as long as asked for.
\<close>

record rng =
  read_entropy :: "nat \<Rightarrow> nat \<Rightarrow> bytes option"
  pbkdf2 :: "bytes \<Rightarrow> bytes \<Rightarrow> nat \<Rightarrow> nat \<Rightarrow> bytes"

definition kdf_length_ok :: "rng \<Rightarrow> bool" where
  "kdf_length_ok R \<longleftrightarrow> (\<forall>pw salt n len. length (pbkdf2 R pw salt n len) = len)"

definition validateEntropyBitSize :: "nat \<Rightarrow> unit cres" where
  "validateEntropyBitSize bitSize =
     (if bitSize mod 32 \<noteq> 0 \<or> bitSize < 128 \<or> bitSize > 256 then Inl ErrInvalidEntropyLength else Inr ())"

definition GenerateEntropy :: "rng \<Rightarrow> nat \<Rightarrow> nat \<Rightarrow> bytes cres" where
  "GenerateEntropy R call bitSize =
     cbind (validateEntropyBitSize bitSize) (\<lambda>_.
     case read_entropy R call (bitSize div 8) of None \<Rightarrow> Inl ErrEntropy | Some e \<Rightarrow> Inr e)"

definition generateSeedWithRandomPassword :: "rng \<Rightarrow> bytes \<Rightarrow> nat \<Rightarrow> bytes" where
  "generateSeedWithRandomPassword R randomPassword keyLen =
     pbkdf2 R randomPassword ''jingbo is handsome.'' 2048 keyLen"

definition GenerateSeedWithStrengthAndKeyLen :: "rng \<Rightarrow> nat \<Rightarrow> nat \<Rightarrow> nat \<Rightarrow> bytes cres" where
  "GenerateSeedWithStrengthAndKeyLen R call strength keyLength =
     (let entropyBitLength = (if strength = 0 then 128 else if strength = 1 then 192
                              else if strength = 2 then 256 else 0) in
      if entropyBitLength = 0 then Inl ErrStrengthNotSupported
      else cbind (GenerateEntropy R call entropyBitLength) (\<lambda>entropyByte.
           Inr (generateSeedWithRandomPassword R entropyByte keyLength)))"

lemma seed_length:
  "kdf_length_ok R \<Longrightarrow> GenerateSeedWithStrengthAndKeyLen R c st len = Inr bs \<Longrightarrow> length bs = len"
  by (auto simp: GenerateSeedWithStrengthAndKeyLen_def generateSeedWithRandomPassword_def kdf_length_ok_def
      cbind_ok Let_def split: if_splits)

section \<open>Random polynomials\<close>

text \<open>The middle coefficients, one for every 32 bytes, written from \<open>index + 1\<close> on.\<close>

function fill_coeffs :: "nat \<Rightarrow> bytes \<Rightarrow> int option list \<Rightarrow> int option list cres" where
  "fill_coeffs index bs res =
     (if bs = [] then Inr res
      else if length bs < 32 \<or> length res \<le> index + 1 then Inl Panic
      else fill_coeffs (index + 1) (drop 32 bs) (res[index + 1 := Some (SetBytes (take 32 bs))]))"
  by pat_completeness auto
termination by (relation "measure (\<lambda>(i, bs, r). length bs)") auto

declare fill_coeffs.simps [simp del]

text \<open>
  The loop for the highest coefficient compares two pointers, which are never equal: it takes the
  first number it draws, a zero as well.
\<close>

definition RandomGenerate :: "rng \<Rightarrow> int \<Rightarrow> bytes \<Rightarrow> int option list cres" where
  "RandomGenerate R degree secret =
     (let intercept = SetBytes secret in
      if degree < 0 then Inl Panic
      else let result = (replicate (nat (degree + 1)) None)[0 := Some intercept] in
        cbind (if 1 < degree
               then cbind (GenerateSeedWithStrengthAndKeyLen R 0 2 (32 * nat (degree - 1)))
                      (\<lambda>randomBytes. fill_coeffs 0 randomBytes result)
               else Inr result) (\<lambda>result.
        cbind (GenerateSeedWithStrengthAndKeyLen R 1 2 32) (\<lambda>randomBytes.
        Inr (result[nat degree := Some (SetBytes randomBytes)]))))"

lemma fill_coeffs_ok:
  assumes "fill_coeffs i bs res = Inr out" and "length bs = 32 * m"
  shows "length out = length res" and "j \<le> i \<Longrightarrow> out ! j = res ! j"
    and "i < j \<Longrightarrow> j \<le> i + m \<Longrightarrow> j < length res \<and> out ! j \<noteq> None"
proof -
  have "length out = length res \<and> (j \<le> i \<longrightarrow> out ! j = res ! j) \<and>
    (i < j \<longrightarrow> j \<le> i + m \<longrightarrow> j < length res \<and> out ! j \<noteq> None)" for j
    using assms
  proof (induction i bs res arbitrary: m j rule: fill_coeffs.induct)
    case (1 i bs res)
    show ?case
    proof (cases "bs = []")
      case True
      with "1.prems" show ?thesis by (simp add: fill_coeffs.simps)
    next
      case False
      with "1.prems"(1) have g: "\<not> (length bs < 32 \<or> length res \<le> i + 1)"
        and r: "fill_coeffs (i + 1) (drop 32 bs) (res[i + 1 := Some (SetBytes (take 32 bs))]) = Inr out"
        by (auto simp: fill_coeffs.simps[of i bs res] split: if_splits)
      have "length (drop 32 bs) = 32 * (m - 1)" using "1.prems"(2) g by simp
      note IH = "1.IH"[OF False g r this]
      have "m \<noteq> 0" using "1.prems"(2) False by (cases m) auto
      show ?thesis using IH[of j] g \<open>m \<noteq> 0\<close> by (cases "j = i + 1") auto
    qed
  qed
  then show "length out = length res" "j \<le> i \<Longrightarrow> out ! j = res ! j"
    "i < j \<Longrightarrow> j \<le> i + m \<Longrightarrow> j < length res \<and> out ! j \<noteq> None" by auto
qed

text \<open>With a degree of at least one the secret is the constant term and every coefficient is there.\<close>

lemma RandomGenerate_ok:
  assumes "RandomGenerate R degree secret = Inr out" and "kdf_length_ok R" and "1 \<le> degree"
  obtains cs where "out = map Some cs" and "length cs = nat degree + 1" and "cs ! 0 = SetBytes secret"
proof -
  let ?n = "nat degree"
  let ?r = "(replicate (nat (degree + 1)) None)[0 := Some (SetBytes secret)]"
  obtain res bs where bs: "out = res[?n := Some (SetBytes bs)]"
    and res: "res = ?r \<and> degree = 1 \<or> (\<exists>rb. GenerateSeedWithStrengthAndKeyLen R 0 2 (32 * nat (degree - 1)) = Inr rb \<and>
      fill_coeffs 0 rb ?r = Inr res)"
    using assms(1,3) by (auto simp: RandomGenerate_def Let_def cbind_ok split: if_splits)
  have len: "length ?r = ?n + 1" and zero: "?r ! 0 = Some (SetBytes secret)" using assms(3) by auto
  have ok: "length res = ?n + 1 \<and> res ! 0 = Some (SetBytes secret) \<and> (\<forall>j < ?n. res ! j \<noteq> None)"
    using res
  proof
    assume "res = ?r \<and> degree = 1"
    with len zero show ?thesis by auto
  next
    assume "\<exists>rb. GenerateSeedWithStrengthAndKeyLen R 0 2 (32 * nat (degree - 1)) = Inr rb \<and>
      fill_coeffs 0 rb ?r = Inr res"
    then obtain rb where rb: "GenerateSeedWithStrengthAndKeyLen R 0 2 (32 * nat (degree - 1)) = Inr rb"
      "fill_coeffs 0 rb ?r = Inr res" by blast
    note f = fill_coeffs_ok[OF rb(2) seed_length[OF assms(2) rb(1)]]
    have "res ! j \<noteq> None" if "j < ?n" for j
      using that f(2)[of 0] f(3)[of j] zero by (cases "j = 0") auto
    with f(1) f(2)[of 0] len zero show ?thesis by simp
  qed
  have all: "\<forall>j < ?n + 1. out ! j \<noteq> None"
    using ok by (auto simp: bs nth_list_update less_Suc_eq)
  define cs where "cs = map the out"
  have "out = map Some cs"
  proof (rule nth_equalityI)
    show "length out = length (map Some cs)" by (simp add: cs_def)
    show "out ! i = map Some cs ! i" if "i < length out" for i
    proof -
      have "i < ?n + 1" using that ok by (simp add: bs)
      with all have "out ! i \<noteq> None" by blast
      with that show ?thesis by (simp add: cs_def)
    qed
  qed
  moreover have "length cs = ?n + 1" using ok by (simp add: cs_def bs)
  moreover have "cs ! 0 = SetBytes secret" using ok assms(3) by (simp add: cs_def bs nth_list_update)
  ultimately show thesis by (rule that)
qed

end
