(* ===== verification/Interpolation.thy ===== *)
theory Interpolation
  imports BigPolynomial
begin

text \<open>
  The polynomial arithmetic of the client (\<^verbatim>\<open>big_polynomial/polynomial.go\<close>: \<^verbatim>\<open>Evaluate\<close>,
  \<^verbatim>\<open>Add\<close>, \<^verbatim>\<open>Multiply\<close>, \<^verbatim>\<open>Scale\<close>) and the Lagrange interpolation built from it, with the
  fact that carries secret sharing: over a prime field the interpolation through enough points of
  a polynomial gives its coefficients back.
\<close>

section \<open>The operations\<close>

text \<open>Constant term first; an empty list is an index out of range, a nil coefficient a nil dereference.\<close>

fun horner :: "int \<Rightarrow> int option list \<Rightarrow> int \<Rightarrow> int cres" where
  "horner x [] r = Inr r"
| "horner x (None # cs) r = Inl Panic"
| "horner x (Some c # cs) r = horner x cs (r * x + c)"

definition Evaluate :: "int option list \<Rightarrow> int \<Rightarrow> int cres" where
  "Evaluate coeffs x = (case rev coeffs of [] \<Rightarrow> Inl Panic | None # cs \<Rightarrow> Inl Panic
     | Some c # cs \<Rightarrow> horner x cs c)"

definition Add :: "int \<Rightarrow> int list \<Rightarrow> int list \<Rightarrow> int list cres" where
  "Add prime a b = (if length b < length a then Inl Panic
     else Inr (map2 (\<lambda>x y. (x + y) mod prime) a b))"

text \<open>
  The products are formed in place: \<^verbatim>\<open>a[i]\<close> is multiplied by each coefficient of the other
  polynomial in turn and keeps the product so far.
\<close>

fun mul_row :: "int \<Rightarrow> int list \<Rightarrow> int list" where
  "mul_row x [] = []"
| "mul_row x (y # ys) = x * y # mul_row (x * y) ys"

definition add_at :: "nat \<Rightarrow> int list \<Rightarrow> int list \<Rightarrow> int list" where
  "add_at i row res = map (\<lambda>k. res ! k + (if i \<le> k \<and> k < i + length row then row ! (k - i) else 0))
     [0..<length res]"

definition Multiply :: "int list \<Rightarrow> int list \<Rightarrow> int list cres" where
  "Multiply a b = (if a = [] \<and> b = [] then Inl Panic
     else Inr (fold (\<lambda>i. add_at i (mul_row (a ! i) b)) [0..<length a]
       (replicate (length a + length b - 1) 0)))"

definition Scale :: "int \<Rightarrow> int list \<Rightarrow> int option \<Rightarrow> int list cres" where
  "Scale prime a k = (case k of Some c \<Rightarrow> Inr (map (\<lambda>x. (x * c) mod prime) a)
     | None \<Rightarrow> if a = [] then Inr [] else Inl Panic)"

fun lagrange_loop :: "int list \<Rightarrow> nat \<Rightarrow> nat list \<Rightarrow> int list \<Rightarrow> int \<Rightarrow> (int list \<times> int) cres" where
  "lagrange_loop xs xpos [] poly denominator = Inr (poly, denominator)"
| "lagrange_loop xs xpos (i # is) poly denominator =
     (if i \<noteq> xpos
      then cbind (Multiply poly [1, 0 - xs ! i]) (\<lambda>poly.
           lagrange_loop xs xpos is poly (denominator * (xs ! xpos - xs ! i)))
      else lagrange_loop xs xpos is poly denominator)"

definition GetLagrangeBasePolynomial :: "int \<Rightarrow> int list \<Rightarrow> nat \<Rightarrow> int list cres" where
  "GetLagrangeBasePolynomial prime xs xpos =
     cbind (lagrange_loop xs xpos [0..<length xs] [1] 1) (\<lambda>(poly, denominator).
     Scale prime poly (ModInverse denominator prime))"

text \<open>
  A Go map is iterated in any order: the points are a list of the map's entries in that order. The
  first loop computes all the base polynomials before the second one adds them up.
\<close>

fun base_polynomials :: "int \<Rightarrow> int list \<Rightarrow> nat list \<Rightarrow> int list list cres" where
  "base_polynomials prime xs [] = Inr []"
| "base_polynomials prime xs (i # is) =
     cbind (GetLagrangeBasePolynomial prime xs i) (\<lambda>b.
     cbind (base_polynomials prime xs is) (\<lambda>bs. Inr (b # bs)))"

fun add_bases :: "int \<Rightarrow> (int list \<times> int) list \<Rightarrow> int list \<Rightarrow> int list cres" where
  "add_bases prime [] result = Inr result"
| "add_bases prime ((b, y) # bys) result =
     cbind (Scale prime b (Some y)) (\<lambda>t. cbind (Add prime result t) (\<lambda>result.
     add_bases prime bys result))"

definition GetPolynomialByPoints :: "int \<Rightarrow> (int \<times> int) list \<Rightarrow> int list cres" where
  "GetPolynomialByPoints prime points =
     (let xs = map fst points; ys = map snd points in
      cbind (base_polynomials prime xs [0..<length points]) (\<lambda>bases.
      add_bases prime (zip bases ys) (replicate (length points) 0)))"

section \<open>Values of polynomials\<close>

fun peval :: "int list \<Rightarrow> int \<Rightarrow> int" where
  "peval [] x = 0"
| "peval (c # cs) x = c + x * peval cs x"

definition deval :: "int list \<Rightarrow> int \<Rightarrow> int" where
  "deval cs x = foldl (\<lambda>r c. r * x + c) 0 cs"

lemma peval_append: "peval (as @ bs) x = peval as x + x ^ length as * peval bs x"
  by (induction as) (simp_all add: algebra_simps)

lemma deval_rev: "deval (rev cs) x = peval cs x"
  by (induction cs) (simp_all add: deval_def algebra_simps)

lemma deval_snoc: "deval (cs @ [c]) x = deval cs x * x + c"
  by (simp add: deval_def)

lemma horner_map: "horner x (map Some cs) r = Inr (foldl (\<lambda>r c. r * x + c) r cs)"
  by (induction cs arbitrary: r) simp_all

lemma Evaluate_map: "cs \<noteq> [] \<Longrightarrow> Evaluate (map Some cs) x = Inr (peval cs x)"
proof -
  assume "cs \<noteq> []"
  then obtain c ds where r: "rev cs = c # ds" by (cases "rev cs") auto
  have "peval cs x = deval (rev cs) x" by (simp add: deval_rev)
  then show ?thesis by (simp add: Evaluate_def rev_map r horner_map deval_def)
qed

subsection \<open>Multiplication by a linear factor\<close>

fun mstep :: "int \<Rightarrow> int \<Rightarrow> int list \<Rightarrow> int list" where
  "mstep c prev [] = [- c * prev]"
| "mstep c prev (a # as) = (a - c * prev) # mstep c a as"

lemma length_mstep [simp]: "length (mstep c p as) = length as + 1"
  by (induction c p as rule: mstep.induct) simp_all

lemma mstep_nth:
  "k \<le> length as \<Longrightarrow> mstep c p as ! k =
     (if k < length as then as ! k else 0) - c * (if k = 0 then p else as ! (k - 1))"
proof (induction c p as arbitrary: k rule: mstep.induct)
  case (2 c prev a as)
  then show ?case by (cases k) (auto simp: nth_Cons')
qed simp

lemma add_at_nth:
  "length (add_at i row res) = length res"
  "k < length res \<Longrightarrow> add_at i row res ! k =
     res ! k + (if i \<le> k \<and> k < i + length row then row ! (k - i) else 0)"
  by (simp_all add: add_at_def)

lemma fold_add_at:
  "length (fold (\<lambda>i. add_at i (f i)) [0..<n] z) = length z"
  "k < length z \<Longrightarrow> fold (\<lambda>i. add_at i (f i)) [0..<n] z ! k =
     z ! k + (\<Sum>i<n. if i \<le> k \<and> k < i + length (f i) then f i ! (k - i) else 0)"
proof (induction n)
  case (Suc n)
  { case 1 show ?case using Suc by (simp add: add_at_nth) }
  { case 2 then show ?case using Suc by (simp add: add_at_nth) }
qed simp_all

lemma two_terms:
  fixes g :: "nat \<Rightarrow> nat \<Rightarrow> int"
  shows "(\<Sum>i<n. if i \<le> k \<and> k < i + 2 then g i (k - i) else 0) =
    (if k < n then g k 0 else 0) + (if 0 < k \<and> k - 1 < n then g (k - 1) 1 else 0)"
proof (induction n)
  case (Suc n)
  consider "k = n" | "k = n + 1" | "k \<noteq> n \<and> k \<noteq> n + 1" by blast
  then show ?case
  proof cases
    case 1
    then show ?thesis using Suc by (cases k) auto
  next
    case 2
    then show ?thesis using Suc by auto
  next
    case 3
    then have z: "\<not> (n \<le> k \<and> k < n + 2)" by linarith
    have "k < Suc n \<longleftrightarrow> k < n" "(0 < k \<and> k - 1 < Suc n) \<longleftrightarrow> (0 < k \<and> k - 1 < n)" using 3 by linarith+
    then show ?thesis using Suc z by auto
  qed
qed simp

lemma Multiply_linear:
  assumes "p \<noteq> []"
  shows "Multiply p [1, 0 - c] = Inr (mstep c 0 p)"
proof -
  let ?f = "\<lambda>i. mul_row (p ! i) [1, 0 - c]"
  let ?z = "replicate (length p + 1) (0 :: int)"
  have row: "?f i = [p ! i, - c * (p ! i)]" for i by (simp add: mult.commute)
  have "fold (\<lambda>i. add_at i (?f i)) [0..<length p] ?z = mstep c 0 p"
  proof (rule nth_equalityI)
    show "length (fold (\<lambda>i. add_at i (?f i)) [0..<length p] ?z) = length (mstep c 0 p)"
      by (simp only: fold_add_at(1)) simp
    fix k assume "k < length (fold (\<lambda>i. add_at i (?f i)) [0..<length p] ?z)"
    then have k: "k < length ?z" by (simp only: fold_add_at(1))
    have "fold (\<lambda>i. add_at i (?f i)) [0..<length p] ?z ! k =
        (\<Sum>i<length p. if i \<le> k \<and> k < i + 2 then ?f i ! (k - i) else 0)"
      by (subst fold_add_at(2)[OF k]) (use k in \<open>simp del: replicate.simps\<close>)
    also have "\<dots> = (if k < length p then ?f k ! 0 else 0) +
        (if 0 < k \<and> k - 1 < length p then ?f (k - 1) ! 1 else 0)"
      by (rule two_terms)
    also have "\<dots> = mstep c 0 p ! k"
      using k by (subst mstep_nth) (auto simp: row)
    finally show "fold (\<lambda>i. add_at i (?f i)) [0..<length p] ?z ! k = mstep c 0 p ! k" .
  qed
  with assms show ?thesis by (simp add: Multiply_def)
qed

lemma mstep_deval_gen:
  assumes "r * x - c * prev = (x - c) * s"
  shows "foldl (\<lambda>r a. r * x + a) r (mstep c prev p) = (x - c) * foldl (\<lambda>r a. r * x + a) s p"
  using assms
proof (induction p arbitrary: r s prev)
  case (Cons a p)
  have "(r * x + (a - c * prev)) * x - c * a = (x - c) * (s * x + a)"
    using Cons.prems by (simp add: algebra_simps) (metis (no_types, opaque_lifting) distrib_left mult.commute mult.left_commute right_diff_distrib')
  from Cons.IH[OF this] show ?case by simp
qed simp

lemma mstep_deval: "deval (mstep c 0 p) x = (x - c) * deval p x"
  unfolding deval_def by (rule mstep_deval_gen) simp


subsection \<open>The base polynomials\<close>

lemma lagrange_loop_ok:
  assumes "poly \<noteq> []" and "\<And>i. i \<in> set ks \<Longrightarrow> i < length xs"
  shows "\<exists>p d. lagrange_loop xs xpos ks poly den = Inr (p, d) \<and>
    length p = length poly + length (filter (\<lambda>i. i \<noteq> xpos) ks) \<and>
    (\<forall>x. deval p x = deval poly x * (\<Prod>i \<leftarrow> filter (\<lambda>i. i \<noteq> xpos) ks. x - xs ! i)) \<and>
    d = den * (\<Prod>i \<leftarrow> filter (\<lambda>i. i \<noteq> xpos) ks. xs ! xpos - xs ! i)"
  using assms
proof (induction ks arbitrary: poly den)
  case (Cons i ks)
  show ?case
  proof (cases "i = xpos")
    case True
    with Cons show ?thesis by simp
  next
    case False
    let ?q = "mstep (xs ! i) 0 poly"
    have "?q \<noteq> []" by (metis length_mstep add_is_0 list.size(3) one_neq_zero)
    from Cons.IH[OF this, of "den * (xs ! xpos - xs ! i)"] Cons.prems(2) obtain p d where
      "lagrange_loop xs xpos ks ?q (den * (xs ! xpos - xs ! i)) = Inr (p, d)"
      "length p = length ?q + length (filter (\<lambda>i. i \<noteq> xpos) ks)"
      "\<forall>x. deval p x = deval ?q x * (\<Prod>i \<leftarrow> filter (\<lambda>i. i \<noteq> xpos) ks. x - xs ! i)"
      "d = den * (xs ! xpos - xs ! i) * (\<Prod>i \<leftarrow> filter (\<lambda>i. i \<noteq> xpos) ks. xs ! xpos - xs ! i)"
      by auto
    with False Multiply_linear[OF Cons.prems(1), of "xs ! i"] show ?thesis
      by (intro exI[of _ p] exI[of _ d]) (simp add: mstep_deval mult_ac)
  qed
qed simp

lemma mod_horner: "(a * x + b mod p) mod p = ((a mod p) * x + b) mod (p :: int)"
  by (metis mod_add_eq mod_add_left_eq mod_mult_left_eq mod_mod_trivial)

lemma mod_horner2: "(((u mod p) * x) + v) mod p = (u * x + v) mod (p :: int)"
  by (metis mod_add_left_eq mod_mult_left_eq)

lemma deval_scale: "deval (map (\<lambda>x. (x * c) mod p) cs) x mod p = (deval cs x * c) mod p"
proof (induction cs rule: rev_induct)
  case (snoc a cs)
  have "deval (map (\<lambda>x. (x * c) mod p) (cs @ [a])) x mod p =
      ((deval (map (\<lambda>x. (x * c) mod p) cs) x mod p) * x + (a * c)) mod p"
    by (simp add: deval_snoc mod_horner)
  also have "\<dots> = (deval (cs @ [a]) x * c) mod p"
    unfolding snoc mod_horner2 by (simp add: deval_snoc algebra_simps)
  finally show ?case .
qed (simp add: deval_def)

lemma deval_add: "length a = length b \<Longrightarrow>
    deval (map2 (\<lambda>x y. (x + y) mod p) a b) x mod p = (deval a x + deval b x) mod p"
proof (induction a arbitrary: b rule: rev_induct)
  case (snoc u a)
  then obtain b' v where b: "b = b' @ [v]" by (cases b rule: rev_cases) auto
  with snoc have len: "length a = length b'" by simp
  have "deval (map2 (\<lambda>x y. (x + y) mod p) (a @ [u]) b) x mod p =
      ((deval (map2 (\<lambda>x y. (x + y) mod p) a b') x mod p) * x + (u + v)) mod p"
    using len by (simp add: b deval_snoc mod_horner)
  also have "\<dots> = (deval (a @ [u]) x + deval b x) mod p"
    unfolding snoc.IH[OF len] mod_horner2 by (simp add: b deval_snoc algebra_simps)
  finally show ?case .
qed (simp add: deval_def)

text \<open>Points that are different modulo the prime.\<close>

definition apart :: "int \<Rightarrow> int list \<Rightarrow> bool" where
  "apart p xs \<longleftrightarrow> (\<forall>i < length xs. \<forall>j < length xs. i \<noteq> j \<longrightarrow> \<not> p dvd xs ! i - xs ! j)"

lemma base_ok:
  assumes p: "is_prime p" and xs: "apart p xs" and pos: "pos < length xs"
  obtains b where "GetLagrangeBasePolynomial p xs pos = Inr b" and "length b = length xs"
    and "\<And>j. j < length xs \<Longrightarrow> deval b (xs ! j) mod p = (if j = pos then 1 else 0)"
proof -
  let ?is = "filter (\<lambda>i. i \<noteq> pos) [0..<length xs]"
  from lagrange_loop_ok[of "[1]" "[0..<length xs]" xs pos 1] obtain q d where
    q: "lagrange_loop xs pos [0..<length xs] [1] 1 = Inr (q, d)" "length q = 1 + length ?is"
      "\<And>x. deval q x = (\<Prod>i \<leftarrow> ?is. x - xs ! i)" and d: "d = (\<Prod>i \<leftarrow> ?is. xs ! pos - xs ! i)"
    by (auto simp: deval_def)
  have "length [0..<length xs] = length ?is + length (filter (\<lambda>i. i = pos) [0..<length xs])"
    using sum_length_filter_compl[of "\<lambda>i. i \<noteq> pos" "[0..<length xs]"] by simp
  moreover have "filter (\<lambda>i. i = pos) [0..<length xs] = [pos]"
    using pos by (induction xs rule: rev_induct) (auto simp: filter_empty_conv)
  ultimately have len: "length q = length xs" using q(2) by simp
  have "\<not> p dvd d"
  proof
    assume "p dvd d"
    then obtain a where "a \<in> set (map (\<lambda>i. xs ! pos - xs ! i) ?is)" "p dvd a"
      unfolding d using prime_prod_list[OF p] by blast
    with xs pos show False by (auto simp: apart_def)
  qed
  then obtain k where k: "ModInverse d p = Some k" "(d * k) mod p = 1 mod p"
    using ModInverse_Some[of p d] prime_coprime[OF p] p by (auto simp: is_prime_def)
  let ?b = "map (\<lambda>x. (x * k) mod p) q"
  have b: "GetLagrangeBasePolynomial p xs pos = Inr ?b"
    by (simp add: GetLagrangeBasePolynomial_def q(1) k(1) Scale_def)
  have "deval ?b (xs ! j) mod p = (if j = pos then 1 else 0)" if j: "j < length xs" for j
  proof (cases "j = pos")
    case True
    then show ?thesis using k(2) p by (simp add: deval_scale q(3) d is_prime_def)
  next
    case False
    with j have "0 \<in> set (map (\<lambda>i. xs ! j - xs ! i) ?is)" by force
    then have "deval q (xs ! j) = 0" by (simp only: q(3) prod_list_zero_iff)
    with False show ?thesis by (simp add: deval_scale)
  qed
  with b len show thesis by (intro that[of ?b]) simp_all
qed


subsection \<open>The interpolating polynomial\<close>

lemma base_polynomials_ok:
  assumes p: "is_prime p" and xs: "apart p xs" and "\<forall>i \<in> set ks. i < length xs"
  shows "\<exists>bs. base_polynomials p xs ks = Inr bs \<and> length bs = length ks \<and>
    (\<forall>k < length ks. length (bs ! k) = length xs \<and>
      (\<forall>j < length xs. deval (bs ! k) (xs ! j) mod p = (if j = ks ! k then 1 else 0)))"
  using assms(3)
proof (induction ks)
  case (Cons i ks)
  then obtain bs where bs: "base_polynomials p xs ks = Inr bs" "length bs = length ks"
    "\<forall>k < length ks. length (bs ! k) = length xs \<and>
      (\<forall>j < length xs. deval (bs ! k) (xs ! j) mod p = (if j = ks ! k then 1 else 0))" by auto
  obtain b where "GetLagrangeBasePolynomial p xs i = Inr b" "length b = length xs"
    "\<And>j. j < length xs \<Longrightarrow> deval b (xs ! j) mod p = (if j = i then 1 else 0)"
    by (rule base_ok[OF p xs]) (use Cons.prems in auto)
  with bs show ?case by (intro exI[of _ "b # bs"]) (auto simp: nth_Cons split: nat.splits)
qed simp

lemma add_bases_ok:
  assumes "\<forall>b \<in> set bys. length (fst b) = length r"
  shows "\<exists>out. add_bases p bys r = Inr out \<and> length out = length r \<and>
    (\<forall>x. deval out x mod p = (deval r x + (\<Sum>(b, y) \<leftarrow> bys. deval b x * y)) mod p) \<and>
    (bys \<noteq> [] \<longrightarrow> (\<forall>c \<in> set out. c mod p = c))"
  using assms
proof (induction bys arbitrary: r)
  case (Cons by' bys)
  obtain b y where e: "by' = (b, y)" by fastforce
  let ?t = "map (\<lambda>x. (x * y) mod p) b"
  let ?r = "map2 (\<lambda>x y. (x + y) mod p) r ?t"
  have len: "length b = length r" using Cons.prems e by auto
  have l: "\<forall>c \<in> set bys. length (fst c) = length ?r" using Cons.prems len by auto
  from Cons.IH[of ?r, OF l] obtain out where out: "add_bases p bys ?r = Inr out" "length out = length ?r"
    "\<And>x. deval out x mod p = (deval ?r x + (\<Sum>(b, y) \<leftarrow> bys. deval b x * y)) mod p"
    "bys \<noteq> [] \<longrightarrow> (\<forall>c \<in> set out. c mod p = c)" by blast
  have run: "add_bases p (by' # bys) r = Inr out"
    using out(1) len by (simp add: e Scale_def Add_def)
  have "deval out x mod p = (deval r x + (\<Sum>(b, y) \<leftarrow> by' # bys. deval b x * y)) mod p" for x
  proof -
    have "deval ?r x mod p = (deval r x + deval b x * y) mod p"
      using deval_add[of r ?t p x] deval_scale[of y p b x] len by (metis length_map mod_add_right_eq)
    then show ?thesis unfolding out(3) by (simp add: e) (metis (no_types, lifting) add.assoc mod_add_left_eq)
  qed
  moreover have "\<forall>c \<in> set out. c mod p = c"
  proof (cases "bys = []")
    case True
    then have "out = ?r" using out(1) by simp
    then show ?thesis by (auto simp: set_zip)
  next
    case False
    with out(4) show ?thesis by simp
  qed
  ultimately show ?case using run out(2) len by simp
qed simp

lemma sum_list_pick:
  assumes "j < length bs" and "length ys = length bs"
    and "\<And>k. k < length bs \<Longrightarrow> deval (bs ! k) x mod p = (if k = j then 1 else 0)"
  shows "(\<Sum>(b, y) \<leftarrow> zip bs ys. deval b x * y) mod p = (ys ! j) mod p"
proof -
  have "(\<Sum>(b, y) \<leftarrow> zip bs ys. deval b x * y) = (\<Sum>k<length bs. deval (bs ! k) x * ys ! k)"
    using assms(2) by (simp add: sum_list_sum_nth atLeast0LessThan)
  also have "\<dots> mod p = (\<Sum>k<length bs. (deval (bs ! k) x * ys ! k) mod p) mod p"
    by (rule mod_sum_eq[symmetric])
  also have "(\<Sum>k<length bs. (deval (bs ! k) x * ys ! k) mod p) =
      (\<Sum>k<length bs. if k = j then (ys ! j) mod p else 0)"
  proof (rule sum.cong[OF refl])
    fix k assume "k \<in> {..<length bs}"
    then have "deval (bs ! k) x mod p = (if k = j then 1 else 0)" using assms(3) by simp
    then have "(deval (bs ! k) x * ys ! k) mod p = ((if k = j then 1 else 0) * ys ! k) mod p"
      using mod_mult_left_eq[of "deval (bs ! k) x" p "ys ! k"] by simp
    then show "(deval (bs ! k) x * ys ! k) mod p = (if k = j then (ys ! j) mod p else 0)" by auto
  qed
  also have "\<dots> = (ys ! j) mod p" using assms(1) by simp
  finally show ?thesis by simp
qed

lemma GetPolynomialByPoints_ok:
  assumes p: "is_prime p" and xs: "apart p (map fst pts)" and ne: "pts \<noteq> []"
  obtains out where "GetPolynomialByPoints p pts = Inr out" and "length out = length pts"
    and "\<And>j. j < length pts \<Longrightarrow> deval out (fst (pts ! j)) mod p = snd (pts ! j) mod p"
    and "\<And>c. c \<in> set out \<Longrightarrow> c mod p = c"
proof -
  let ?xs = "map fst pts" and ?ys = "map snd pts" and ?z = "replicate (length pts) (0 :: int)"
  have "\<forall>i \<in> set [0..<length pts]. i < length ?xs" by simp
  from base_polynomials_ok[OF p xs this] obtain bs where
    bs: "base_polynomials p ?xs [0..<length pts] = Inr bs" "length bs = length pts" and
    raw: "\<forall>k < length [0..<length pts]. length (bs ! k) = length ?xs \<and>
      (\<forall>j < length ?xs. deval (bs ! k) (?xs ! j) mod p = (if j = [0..<length pts] ! k then 1 else 0))"
    by auto
  have bs3: "length (bs ! k) = length pts" if "k < length pts" for k using raw that by simp
  have bs4: "deval (bs ! k) (?xs ! j) mod p = (if k = j then 1 else 0)"
    if "k < length pts" "j < length pts" for k j
    using spec[OF raw, of k] that by (simp add: eq_commute[of j k])
  have len: "\<forall>b \<in> set (zip bs ?ys). length (fst b) = length ?z"
    using bs(2) bs3 by (auto simp: set_zip)
  from add_bases_ok[where p = p, OF len] obtain out where
    out: "add_bases p (zip bs ?ys) ?z = Inr out" "length out = length pts"
      "\<And>x. deval out x mod p = (deval ?z x + (\<Sum>(b, y) \<leftarrow> zip bs ?ys. deval b x * y)) mod p"
      "zip bs ?ys \<noteq> [] \<longrightarrow> (\<forall>c \<in> set out. c mod p = c)" by auto
  have z: "deval (replicate n 0) x = 0" for n x
    by (induction n) (simp_all add: deval_def)
  show thesis
  proof (rule that)
    show "GetPolynomialByPoints p pts = Inr out" by (simp add: GetPolynomialByPoints_def Let_def bs(1) out(1))
    show "deval out (fst (pts ! j)) mod p = snd (pts ! j) mod p" if j: "j < length pts" for j
      unfolding out(3) z using sum_list_pick[of j bs ?ys "fst (pts ! j)" p] j bs(2) bs4[of _ j] by simp
    have "zip bs ?ys \<noteq> []" using ne bs(2) by (cases bs; cases pts) auto
    with out(4) show "c mod p = c" if "c \<in> set out" for c using that by blast
  qed (rule out(2))
qed

section \<open>A polynomial is fixed by enough values\<close>

fun pquot :: "int \<Rightarrow> int list \<Rightarrow> int list" where
  "pquot r [] = []"
| "pquot r (c # cs) = (if cs = [] then [] else peval cs r # pquot r cs)"

lemma pquot_eval: "peval cs x - peval cs r = (x - r) * peval (pquot r cs) x"
proof (induction cs)
  case (Cons c cs)
  have "peval (c # cs) x - peval (c # cs) r = (x - r) * peval cs r + x * (peval cs x - peval cs r)"
    by (simp add: algebra_simps)
  also have "\<dots> = (x - r) * (peval cs r + x * peval (pquot r cs) x)"
    unfolding Cons by (simp add: algebra_simps)
  finally show ?case by (cases cs) auto
qed simp

lemma length_pquot: "length (pquot r cs) = length cs - 1"
  by (induction cs) auto

lemma pquot_zero:
  assumes "\<forall>q \<in> set (pquot r cs). p dvd q" and "p dvd peval cs r"
  shows "\<forall>c \<in> set cs. p dvd c"
  using assms
proof (induction cs)
  case (Cons c cs)
  show ?case
  proof (cases "cs = []")
    case True
    with Cons.prems show ?thesis by simp
  next
    case False
    with Cons.prems have q: "p dvd peval cs r" "\<forall>q \<in> set (pquot r cs). p dvd q" by auto
    then have "p dvd c" using Cons.prems(2) by (metis dvd_add_left_iff dvd_mult peval.simps(2))
    with Cons.IH q show ?thesis by simp
  qed
qed simp

lemma roots_zero:
  assumes "is_prime p" and "apart p xs" and "length cs \<le> length xs"
    and "\<And>x. x \<in> set xs \<Longrightarrow> p dvd peval cs x"
  shows "\<forall>c \<in> set cs. p dvd c"
  using assms(2-)
proof (induction xs arbitrary: cs)
  case (Cons r xs)
  have ap: "apart p xs" unfolding apart_def
  proof (intro allI impI)
    fix i j assume "i < length xs" "j < length xs" "i \<noteq> j"
    with Cons.prems(1) show "\<not> p dvd xs ! i - xs ! j"
      unfolding apart_def by (metis Suc_less_eq length_Cons nth_Cons_Suc old.nat.inject)
  qed
  have r: "p dvd peval cs r" using Cons.prems(3) by simp
  have "p dvd peval (pquot r cs) x" if x: "x \<in> set xs" for x
  proof -
    obtain i where "i < length xs" "xs ! i = x" using x by (auto simp: in_set_conv_nth)
    with Cons.prems(1) have "\<not> p dvd x - r" unfolding apart_def
      by (metis Suc_less_eq length_Cons nat.distinct(1) nth_Cons_0 nth_Cons_Suc zero_less_Suc)
    moreover have "p dvd peval cs x - peval cs r" using Cons.prems(3)[of x] r x by simp
    ultimately show ?thesis using prime_mult[OF assms(1)] unfolding pquot_eval by blast
  qed
  moreover have "length (pquot r cs) \<le> length xs" using Cons.prems(2) by (simp add: length_pquot)
  ultimately have "\<forall>q \<in> set (pquot r cs). p dvd q" by (intro Cons.IH[OF ap])
  then show ?case using pquot_zero r by blast
qed simp

lemma peval_diff: "length as = length bs \<Longrightarrow> peval (map2 (-) as bs) x = peval as x - peval bs x"
proof (induction as bs rule: list_induct2)
  case (Cons a as b bs)
  then show ?case by (simp add: right_diff_distrib)
qed simp

text \<open>The interpolation through as many points as a polynomial has coefficients gives them back.\<close>

lemma interpolation_unique:
  assumes p: "is_prime p" and ap: "apart p (map fst pts)" and len: "length cs \<le> length pts" and ne: "cs \<noteq> []"
    and pts: "\<And>x y. (x, y) \<in> set pts \<Longrightarrow> y mod p = peval cs x mod p"
  obtains out where "GetPolynomialByPoints p pts = Inr out" and "out \<noteq> []" and "last out = cs ! 0 mod p"
proof -
  have "pts \<noteq> []" using len ne by auto
  from GetPolynomialByPoints_ok[OF p ap this] obtain out where
    out: "GetPolynomialByPoints p pts = Inr out" "length out = length pts"
      "\<And>j. j < length pts \<Longrightarrow> deval out (fst (pts ! j)) mod p = snd (pts ! j) mod p"
      "\<And>c. c \<in> set out \<Longrightarrow> c mod p = c" by blast
  define ds where "ds = cs @ replicate (length pts - length cs) 0"
  have z: "peval (replicate n 0) x = 0" for n x by (induction n) simp_all
  have ds: "length ds = length pts" "\<And>x. peval ds x = peval cs x"
    using len by (simp_all add: ds_def peval_append z)
  have "\<forall>c \<in> set (map2 (-) (rev out) ds). p dvd c"
  proof (rule roots_zero[OF p ap])
    show "length (map2 (-) (rev out) ds) \<le> length (map fst pts)" using ds out(2) by simp
    fix x assume "x \<in> set (map fst pts)"
    then obtain j where j: "j < length pts" "x = fst (pts ! j)" by (auto simp: in_set_conv_nth)
    then have "snd (pts ! j) mod p = peval cs x mod p" using pts[of x "snd (pts ! j)"] by (metis nth_mem prod.collapse)
    moreover have "peval (rev out) x = deval out x" using deval_rev[of "rev out" x] by simp
    ultimately have "peval (rev out) x mod p = peval ds x mod p" using out(3)[OF j(1)] j(2) ds(2) by simp
    then show "p dvd peval (map2 (-) (rev out) ds) x"
      using ds out(2) by (simp add: peval_diff mod_eq_dvd_iff)
  qed
  moreover have one: "out \<noteq> []" "ds \<noteq> []" using \<open>pts \<noteq> []\<close> out(2) ds(1) by auto
  ultimately have "p dvd hd (rev out) - hd ds"
    by (cases "rev out"; cases ds) auto
  then have "last out mod p = hd ds mod p" using one by (simp add: mod_eq_dvd_iff hd_rev)
  moreover have "last out mod p = last out" using out(4) one by simp
  moreover have "hd ds = cs ! 0" using ne by (simp add: ds_def hd_conv_nth nth_append)
  ultimately show thesis using that out(1) one(1) by metis
qed

end
