(* ===== verification/SecretShare.thy ===== *)
theory SecretShare
  imports Interpolation
begin

text \<open>
  Shamir's secret sharing (\<^verbatim>\<open>crypto/core/secret_share/complex_secret_share\<close>): a secret becomes
  the constant term of a random polynomial, its values at \<open>1, 2, \<dots>\<close> are the shares, and enough of
  them give the secret back by interpolation over the order of an elliptic curve. Of a curve the code
  uses its order, its point test, and the multiplication of P-256's base point by a scalar.
\<close>

section \<open>Curves and points\<close>

record curve =
  order_N :: int
  is_on_curve :: "int \<Rightarrow> int \<Rightarrow> bool"

record Point =
  pt_X :: int
  pt_Y :: int

text \<open>\<open>None\<close>: the coordinates are not on the curve.\<close>

definition NewPoint :: "curve \<Rightarrow> int \<Rightarrow> int \<Rightarrow> Point option" where
  "NewPoint c x y = (if is_on_curve c x y then Some \<lparr>pt_X = x, pt_Y = y\<rparr> else None)"

section \<open>Splitting\<close>

definition ComplexSecretToPolynomial ::
    "rng \<Rightarrow> int \<Rightarrow> int \<Rightarrow> bytes \<Rightarrow> int option list cres" where
  "ComplexSecretToPolynomial R totalShareNumber minimumShareNumber secret =
     (if totalShareNumber < 2 then Inl InvalidTotalShareNumberError
      else if minimumShareNumber > totalShareNumber then Inl InvalidShareNumberError
      else RandomGenerate R (minimumShareNumber - 1) secret)"

text \<open>The shares are a Go map from the numbers \<open>1, \<dots>, n\<close>, here a list of its entries.\<close>

fun make_shares :: "int option list \<Rightarrow> int list \<Rightarrow> (int \<times> int) list cres" where
  "make_shares poly [] = Inr []"
| "make_shares poly (x # xs) =
     cbind (Evaluate poly x) (\<lambda>y. cbind (make_shares poly xs) (\<lambda>shares. Inr ((x, y) # shares)))"

definition ComplexSecretSplit :: "rng \<Rightarrow> int \<Rightarrow> int \<Rightarrow> bytes \<Rightarrow> (int \<times> int) list cres" where
  "ComplexSecretSplit R totalShareNumber minimumShareNumber secret =
     cbind (ComplexSecretToPolynomial R totalShareNumber minimumShareNumber secret) (\<lambda>poly.
     make_shares poly [1..totalShareNumber])"

text \<open>
  A point per coefficient, on P-256 whatever curve is given. The error of a point is returned as
  it is; \<open>None\<close> stands for it.
\<close>

fun verify_points ::
    "(bytes \<Rightarrow> int \<times> int) \<Rightarrow> curve \<Rightarrow> int option list \<Rightarrow> Point list option cres" where
  "verify_points base_mult c [] = Inr (Some [])"
| "verify_points base_mult c (None # cs) = Inl Panic"
| "verify_points base_mult c (Some k # cs) =
     (let (x, y) = base_mult (Bytes k) in
      case NewPoint c x y of None \<Rightarrow> Inr None
      | Some p \<Rightarrow> cbind (verify_points base_mult c cs) (\<lambda>ps. Inr (map_option ((#) p) ps)))"

definition ComplexSecretSplitWithVerifyPoints ::
    "(bytes \<Rightarrow> int \<times> int) \<Rightarrow> curve \<Rightarrow> rng \<Rightarrow> int \<Rightarrow> int \<Rightarrow> bytes \<Rightarrow>
     ((int \<times> int) list \<times> Point list) option cres" where
  "ComplexSecretSplitWithVerifyPoints base_mult c R totalShareNumber minimumShareNumber secret =
     cbind (ComplexSecretToPolynomial R totalShareNumber minimumShareNumber secret) (\<lambda>poly.
     cbind (verify_points base_mult c poly) (\<lambda>points.
     case points of None \<Rightarrow> Inr None
     | Some points \<Rightarrow> cbind (make_shares poly [1..totalShareNumber]) (\<lambda>shares.
         Inr (Some (shares, points)))))"

definition GetVerifyPointByPolynomial ::
    "(bytes \<Rightarrow> int \<times> int) \<Rightarrow> curve \<Rightarrow> int option list \<Rightarrow> Point option cres" where
  "GetVerifyPointByPolynomial base_mult c poly =
     (case poly of Some k # cs \<Rightarrow> let (x, y) = base_mult (Bytes k) in Inr (NewPoint c x y)
      | _ \<Rightarrow> Inl Panic)"

definition GetSpecifiedSecretShareByPolynomial :: "int option list \<Rightarrow> int \<Rightarrow> int cres" where
  "GetSpecifiedSecretShareByPolynomial poly index = Evaluate poly index"

section \<open>Retrieving\<close>



section \<open>Facts about the shares\<close>

lemma make_shares_map:
  "cs \<noteq> [] \<Longrightarrow> make_shares (map Some cs) xs = Inr (map (\<lambda>x. (x, peval cs x)) xs)"
  by (induction xs) (simp_all add: Evaluate_map)

lemma split_ok:
  assumes "ComplexSecretSplit R tot minimum secret = Inr shares" and "kdf_length_ok R" and "2 \<le> minimum"
  obtains cs where "length cs = nat minimum" and "cs ! 0 = SetBytes secret"
    and "shares = map (\<lambda>x. (x, peval cs x)) [1..tot]" and "2 \<le> tot" and "minimum \<le> tot"
proof -
  from assms(1) obtain poly where g: "RandomGenerate R (minimum - 1) secret = Inr poly" "2 \<le> tot"
    "minimum \<le> tot" and s: "make_shares poly [1..tot] = Inr shares"
    by (auto simp: ComplexSecretSplit_def ComplexSecretToPolynomial_def cbind_ok split: if_splits)
  obtain cs where cs: "poly = map Some cs" "length cs = nat (minimum - 1) + 1" "cs ! 0 = SetBytes secret"
    by (rule RandomGenerate_ok[OF g(1) assms(2)]) (use assms(3) in auto)
  then have "cs \<noteq> []" by auto
  with s have "shares = map (\<lambda>x. (x, peval cs x)) [1..tot]" by (simp add: cs(1) make_shares_map)
  moreover have "length cs = nat minimum" using cs(2) assms(3) by simp
  ultimately show thesis using that cs(3) g(2,3) by blast
qed


lemma peval_mod: "peval cs x mod x = (if cs = [] then 0 else cs ! 0) mod x"
  by (cases cs) simp_all

section \<open>Properties\<close>


definition demo_rng :: rng where
  "demo_rng = \<lparr>read_entropy = (\<lambda>c n. Some (replicate n CHR ''e'')), pbkdf2 = (\<lambda>pw salt n len. replicate len CHR 0x01)\<rparr>"


lemma demo_kdf: "kdf_length_ok demo_rng"
  by (simp add: kdf_length_ok_def demo_rng_def)


lemma demo_split: "\<exists>cs. ComplexSecretSplit demo_rng 3 2 secret = Inr (map (\<lambda>x. (x, peval cs x)) [1..3])"
proof -
  have g: "GenerateSeedWithStrengthAndKeyLen demo_rng k 2 n = Inr (replicate n CHR 0x01)" for k n
    by (simp add: GenerateSeedWithStrengthAndKeyLen_def GenerateEntropy_def validateEntropyBitSize_def
        generateSeedWithRandomPassword_def demo_rng_def)
  have "\<exists>k. RandomGenerate demo_rng 1 secret = Inr (map Some [SetBytes secret, k])"
    by (simp add: RandomGenerate_def g[unfolded numeral_2_eq_2 One_nat_def] g numeral_2_eq_2)
  then obtain k where k: "RandomGenerate demo_rng 1 secret = Inr (map Some [SetBytes secret, k])" ..
  have "make_shares (map Some [SetBytes secret, k]) [1..3] =
      Inr (map (\<lambda>x. (x, peval [SetBytes secret, k] x)) [1..3])"
    by (rule make_shares_map) simp
  with k show ?thesis
    by (intro exI[of _ "[SetBytes secret, k]"])
      (simp add: ComplexSecretSplit_def ComplexSecretToPolynomial_def del: list.map peval.simps)
qed


text \<open>
  A threshold of one loses the secret: its place is taken by the random highest coefficient, so
  the shares of any two secrets are the same.
\<close>
lemma threshold_one_loses_secret:
  "ComplexSecretSplit R tot 1 secret = ComplexSecretSplit R tot 1 secret'"
  by (simp add: ComplexSecretSplit_def ComplexSecretToPolynomial_def RandomGenerate_def Let_def)

text \<open>
  A single share tells the secret's remainder. The polynomial is evaluated over the integers,
  not modulo the order of the curve, so the share with number \<open>x\<close> is congruent to the secret
  modulo \<open>x\<close>: the holder of share two knows whether the secret is even.
\<close>
lemma share_leaks_remainder:
  assumes "kdf_length_ok R" and "ComplexSecretSplit R tot minimum secret = Inr shares"
    and "2 \<le> minimum" and "(x, y) \<in> set shares"
  shows "y mod x = SetBytes secret mod x"
proof -
  obtain cs where cs: "length cs = nat minimum" "cs ! 0 = SetBytes secret"
    "shares = map (\<lambda>x. (x, peval cs x)) [1..tot]" by (rule split_ok[OF assms(2,1,3)])
  with assms(3) have "cs \<noteq> []" by auto
  moreover have "y = peval cs x" using assms(4) cs(3) by auto
  ultimately show ?thesis using cs(2) by (simp add: peval_mod)
qed

lemma share_leaks_remainder_witness:
  "\<exists>y. y mod 2 = (SetBytes ''A'' mod 2 :: int)"
proof -
  obtain cs where sh: "ComplexSecretSplit demo_rng 3 2 ''A'' = Inr (map (\<lambda>x. (x, peval cs x)) [1..3])"
    using demo_split by blast
  have "(2, peval cs 2) \<in> set (map (\<lambda>x. (x, peval cs x)) [1..3])" by auto
  from share_leaks_remainder[OF demo_kdf sh _ this] show ?thesis by auto
qed

end
