(* ===== verification/Paillier.thy ===== *)
theory Paillier
  imports Complex_Main BigPolynomial
begin

text \<open>
  The additively homomorphic cryptosystem of the vertical learning protocols
  (\<^verbatim>\<open>crypto/common/math/homomorphism/paillier/paillier.go\<close>), and why decryption undoes
  encryption and follows the operations on ciphers.
\<close>

section \<open>Keys\<close>

text \<open>\<^verbatim>\<open>big.Int.Exp\<close> with a positive modulus; nil for a negative power without an inverse.\<close>

definition BigExp :: "int \<Rightarrow> int \<Rightarrow> int \<Rightarrow> int option" where
  "BigExp x y m = (if y < 0 then map_option (\<lambda>i. i ^ nat (- y) mod m) (ModInverse x m)
     else Some (x ^ nat y mod m))"

record PublicKey =
  pk_N :: int
  pk_G :: int

record PrivateKey =
  sk_PublicKey :: PublicKey
  sk_Lambda :: int
  sk_Mu :: "int option"

text \<open>The two primes are drawn by the system; a failed draw is \<open>None\<close>.\<close>

definition GeneratePrivateKey :: "int option \<Rightarrow> int option \<Rightarrow> PrivateKey cres" where
  "GeneratePrivateKey p q = (case q of None \<Rightarrow> Inl ErrEntropy | Some q \<Rightarrow>
     (case p of None \<Rightarrow> Inl ErrEntropy | Some p \<Rightarrow>
        if p = q then Inl ErrPrimePEqualsQ
        else let n = p * q; g = n + 1; lambda = (p - 1) * (q - 1) in
          Inr \<lparr>sk_PublicKey = \<lparr>pk_N = n, pk_G = g\<rparr>, sk_Lambda = lambda, sk_Mu = ModInverse lambda n\<rparr>))"

section \<open>Encryption\<close>

text \<open>
  The loop that draws \<open>r\<close>, over the results of the draws: \<open>None\<close> when they are used up and the
  loop goes on, an error of a draw, or the first suitable number.
\<close>

fun draw_r :: "int \<Rightarrow> int option list \<Rightarrow> int cres option" where
  "draw_r N [] = None"
| "draw_r N (None # ds) = Some (Inl ErrEntropy)"
| "draw_r N (Some r # ds) = (if r \<noteq> 0 \<and> gcd r N = 1 then Some (Inr r) else draw_r N ds)"

definition cipher_of :: "PublicKey \<Rightarrow> int \<Rightarrow> int \<Rightarrow> int cres" where
  "cipher_of pk m r = (let nSquare = pk_N pk * pk_N pk in
     case BigExp (pk_G pk) m nSquare of None \<Rightarrow> Inl Panic
     | Some gExpM \<Rightarrow> (case BigExp r (pk_N pk) nSquare of None \<Rightarrow> Inl Panic
        | Some rExpN \<Rightarrow> Inr ((gExpM * rExpN) mod nSquare)))"

definition Encrypt :: "PublicKey \<Rightarrow> int option list \<Rightarrow> int \<Rightarrow> int cres option" where
  "Encrypt pk draws m = map_option (\<lambda>d. cbind d (\<lambda>r.
     if 0 > m \<or> \<not> m < pk_N pk then Inl ErrMsgOutOfRange else cipher_of pk m r)) (draw_r (pk_N pk) draws)"

definition EncryptSupNegNum :: "PublicKey \<Rightarrow> int option list \<Rightarrow> int \<Rightarrow> int cres option" where
  "EncryptSupNegNum pk draws m = map_option (\<lambda>d. cbind d (\<lambda>r.
     if \<not> m < pk_N pk then Inl ErrMsgOutOfRange else cipher_of pk (m mod pk_N pk) r))
     (draw_r (pk_N pk) draws)"

section \<open>Operations on ciphers\<close>

definition CyphersAdd :: "PublicKey \<Rightarrow> int list \<Rightarrow> int" where
  "CyphersAdd pk cyphers = (let nSquare = pk_N pk * pk_N pk in
     foldl (\<lambda>result cypher. (result * cypher) mod nSquare) 1 cyphers)"

definition CypherPlainAdd :: "PublicKey \<Rightarrow> int \<Rightarrow> int \<Rightarrow> int cres" where
  "CypherPlainAdd pk cypher plain = (let nSquare = pk_N pk * pk_N pk in
     case BigExp (pk_G pk) plain nSquare of None \<Rightarrow> Inl Panic
     | Some gExpM \<Rightarrow> Inr ((cypher * gExpM) mod nSquare))"

fun CypherPlainsAdd :: "PublicKey \<Rightarrow> int \<Rightarrow> int list \<Rightarrow> int cres" where
  "CypherPlainsAdd pk result [] = Inr result"
| "CypherPlainsAdd pk result (plain # plains) =
     (let nSquare = pk_N pk * pk_N pk in
      case BigExp (pk_G pk) plain nSquare of None \<Rightarrow> Inl Panic
      | Some gExpM \<Rightarrow> CypherPlainsAdd pk ((result * gExpM) mod nSquare) plains)"

text \<open>\<open>None\<close> is the nil pointer.\<close>

definition CypherPlainMultiply :: "PublicKey \<Rightarrow> int \<Rightarrow> int \<Rightarrow> int option" where
  "CypherPlainMultiply pk cypher plain = BigExp cypher plain (pk_N pk * pk_N pk)"

section \<open>Decryption\<close>

definition Decrypt :: "PrivateKey \<Rightarrow> int \<Rightarrow> int cres" where
  "Decrypt sk cypher =
     (let N = pk_N (sk_PublicKey sk); nSquare = N * N in
      case BigExp cypher (sk_Lambda sk) nSquare of None \<Rightarrow> Inl Panic
      | Some cExpLambda \<Rightarrow>
          let numerator = cExpLambda + -1; lx = numerator div N in
          (case sk_Mu sk of None \<Rightarrow> Inl Panic | Some mu \<Rightarrow> Inr ((lx * mu) mod N)))"

definition DecryptSupNegNum :: "PrivateKey \<Rightarrow> int \<Rightarrow> int cres" where
  "DecryptSupNegNum sk cypher =
     (let N = pk_N (sk_PublicKey sk); nSquare = N * N in
      case BigExp cypher (sk_Lambda sk) nSquare of None \<Rightarrow> Inl Panic
      | Some cExpLambda \<Rightarrow>
          let numerator = cExpLambda + -1; lx = numerator div N in
          (case sk_Mu sk of None \<Rightarrow> Inl Panic
           | Some mu \<Rightarrow>
              let result = (lx * mu) mod N; tmpN = N div 2; result = (result + tmpN) mod N;
                  minusN = tmpN * -1 in Inr (result + minusN)))"

section \<open>Fermat's little theorem\<close>

lemma prime_fact: "is_prime p \<Longrightarrow> int k < p \<Longrightarrow> \<not> p dvd fact k"
proof (induction k)
  case 0
  then show ?case by (auto simp: is_prime_def dest: zdvd_imp_le)
next
  case (Suc k)
  have "\<not> p dvd int (Suc k)" using Suc.prems(2) zdvd_imp_le[of p "int (Suc k)"] by auto
  with Suc prime_mult[of p "int (Suc k)" "fact k"] show ?case by (auto simp: fact_Suc)
qed

lemma prime_choose:
  assumes "is_prime p" and "0 < k" and "k < nat p"
  shows "p dvd int (nat p choose k)"
proof -
  let ?n = "nat p"
  have n: "int ?n = p" "0 < ?n" using assms(1) by (auto simp: is_prime_def)
  have "int (fact k * fact (?n - k) * (?n choose k)) = int (fact ?n)"
    using binomial_fact_lemma[of k ?n] assms(3) by simp
  then have e: "fact k * (fact (?n - k) * int (?n choose k)) = (fact ?n :: int)" by (simp add: mult.assoc)
  have "p dvd (fact ?n :: int)" using n by (metis dvd_triv_left fact_num_eq_if int_nat_eq nat_less_iff neq0_conv of_nat_fact of_nat_mult)
  then have "p dvd fact k * (fact (?n - k) * int (?n choose k))" using e by simp
  moreover have "int k < p" "int (?n - k) < p" using assms(2,3) n by linarith+
  then have "\<not> p dvd fact k" "\<not> p dvd fact (?n - k)" using prime_fact[OF assms(1)] by blast+
  ultimately show ?thesis using prime_mult[OF assms(1)] by blast
qed

lemma binomial_mod:
  assumes p: "is_prime p"
  shows "((a + 1) ^ nat p) mod p = (a ^ nat p + 1) mod (p :: int)"
proof -
  let ?n = "nat p"
  have n: "0 < ?n" using p by (auto simp: is_prime_def)
  have "(a + 1) ^ ?n = (\<Sum>k\<le>?n. int (?n choose k) * a ^ k)"
    using binomial_ring[of a 1 ?n] by simp
  also have "{..?n} = {0, ?n} \<union> {0<..<?n}" using n by auto
  also have "(\<Sum>k\<in>{0, ?n} \<union> {0<..<?n}. int (?n choose k) * a ^ k) =
      (1 + a ^ ?n) + (\<Sum>k\<in>{0<..<?n}. int (?n choose k) * a ^ k)"
    using n by (subst sum.union_disjoint) auto
  finally have "(a + 1) ^ ?n = (1 + a ^ ?n) + (\<Sum>k\<in>{0<..<?n}. int (?n choose k) * a ^ k)" .
  moreover have "p dvd (\<Sum>k\<in>{0<..<?n}. int (?n choose k) * a ^ k)"
    using prime_choose[OF p] by (intro dvd_sum) auto
  ultimately show ?thesis by (simp add: mod_eq_dvd_iff)
qed

lemma fermat_nat: "is_prime p \<Longrightarrow> (int a ^ nat p) mod p = int a mod p"
proof (induction a)
  case 0
  then have "nat p \<noteq> 0" by (auto simp: is_prime_def)
  then show ?case by (simp add: power_0_left)
next
  case (Suc a)
  have "(int (Suc a) ^ nat p) mod p = (int a ^ nat p + 1) mod p"
    using binomial_mod[OF Suc.prems, of "int a"] by (simp add: add.commute)
  also have "\<dots> = int (Suc a) mod p" using Suc by (metis mod_add_left_eq of_nat_Suc add.commute)
  finally show ?case .
qed

lemma fermat:
  assumes p: "is_prime p" and a: "\<not> p dvd a"
  shows "(a ^ nat (p - 1)) mod p = 1"
proof -
  let ?b = "a mod p"
  have b: "int (nat ?b) = ?b" using p by (simp add: is_prime_def)
  have "(a ^ nat p) mod p = (?b ^ nat p) mod p" by (simp add: power_mod)
  also have "\<dots> = a mod p" using fermat_nat[OF p, of "nat ?b"] b by simp
  finally have "p dvd a ^ nat p - a" by (simp add: mod_eq_dvd_iff)
  moreover have "nat p = Suc (nat (p - 1))" using p by (auto simp: is_prime_def)
  ultimately have "p dvd a * (a ^ nat (p - 1) - 1)" by (simp add: right_diff_distrib)
  with prime_mult[OF p] a have "p dvd a ^ nat (p - 1) - 1" by blast
  then have "(a ^ nat (p - 1)) mod p = 1 mod p" by (simp add: mod_eq_dvd_iff)
  with p show ?thesis by (simp add: is_prime_def)
qed

section \<open>Powers modulo the square\<close>

lemma mod_pow_one: "a mod n = 1 mod n \<Longrightarrow> a ^ k mod n = 1 mod (n :: int)"
  by (metis power_mod power_one)

lemma two_primes_dvd: "is_prime p \<Longrightarrow> is_prime q \<Longrightarrow> p \<noteq> q \<Longrightarrow> p dvd x \<Longrightarrow> q dvd x \<Longrightarrow> p * q dvd x"
proof -
  assume p: "is_prime p" and q: "is_prime q" and ne: "p \<noteq> q" and d: "p dvd x" "q dvd x"
  have "\<not> q dvd p"
  proof
    assume "q dvd p"
    then have "q \<le> p" using p by (auto simp: is_prime_def intro: zdvd_imp_le)
    with ne have "q \<in> {2..<p}" using q by (auto simp: is_prime_def)
    with p \<open>q dvd p\<close> show False by (auto simp: is_prime_def)
  qed
  then have "coprime p q" using prime_coprime[OF q] by simp
  with d show ?thesis by (simp add: divides_mult)
qed

lemma euler_two_primes:
  assumes p: "is_prime p" and q: "is_prime q" and ne: "p \<noteq> q" and r: "coprime r (p * q)"
  shows "r ^ nat ((p - 1) * (q - 1)) mod (p * q) = 1 mod (p * q)"
proof -
  have pos: "0 \<le> p - 1" "0 \<le> q - 1" using p q by (auto simp: is_prime_def)
  have "\<not> p dvd r" "\<not> q dvd r"
    using r p q by (auto simp: is_prime_def dest!: coprime_common_divisor_int)
  from fermat[OF p this(1)] fermat[OF q this(2)]
  have f: "r ^ nat (p - 1) mod p = 1 mod p" "r ^ nat (q - 1) mod q = 1 mod q"
    using p q by (simp_all add: is_prime_def)
  have "r ^ nat ((p - 1) * (q - 1)) = (r ^ nat (p - 1)) ^ nat (q - 1)"
    "r ^ nat ((p - 1) * (q - 1)) = (r ^ nat (q - 1)) ^ nat (p - 1)"
    using pos by (simp_all add: nat_mult_distrib power_mult mult.commute flip: power_mult)
  then have "r ^ nat ((p - 1) * (q - 1)) mod p = 1 mod p" "r ^ nat ((p - 1) * (q - 1)) mod q = 1 mod q"
    using mod_pow_one[OF f(1)] mod_pow_one[OF f(2)] by metis+
  then show ?thesis using two_primes_dvd[OF p q ne] by (simp add: mod_eq_dvd_iff)
qed

lemma one_plus_pow: "(1 + k * N) ^ m mod (N * N) = (1 + int m * k * N) mod (N * N :: int)"
proof (induction m)
  case (Suc m)
  have "(1 + k * N) ^ Suc m mod (N * N) = ((1 + k * N) * ((1 + k * N) ^ m mod (N * N))) mod (N * N)"
    by (simp add: mod_mult_right_eq)
  also have "\<dots> = ((1 + k * N) * (1 + int m * k * N)) mod (N * N)"
    unfolding Suc by (simp add: mod_mult_right_eq)
  also have "(1 + k * N) * (1 + int m * k * N) = (1 + int (Suc m) * k * N) + (k * int m * k) * (N * N)"
    by (simp add: algebra_simps)
  also have "\<dots> mod (N * N) = (1 + int (Suc m) * k * N) mod (N * N)" by simp
  finally show ?case .
qed simp

lemma lift_one:
  assumes "x mod N = 1 mod N" and "0 < N"
  shows "x ^ nat N mod (N * N) = 1 mod (N * N)"
proof -
  obtain k where "x = 1 + k * N" using assms(1) by (metis add.commute diff_add_cancel dvd_def mod_eq_dvd_iff mult.commute)
  then have "x ^ nat N mod (N * N) = (1 + int (nat N) * k * N) mod (N * N)" by (simp only: one_plus_pow)
  also have "\<dots> = (1 + k * (N * N)) mod (N * N)" using assms(2) by (simp add: algebra_simps)
  finally show ?thesis by simp
qed

section \<open>What a cipher stands for\<close>

text \<open>\<open>stands_for N m c\<close>: modulo the square, \<open>c\<close> is an encryption of \<open>m\<close>.\<close>

definition stands_for :: "int \<Rightarrow> nat \<Rightarrow> int \<Rightarrow> bool" where
  "stands_for N m c \<longleftrightarrow> (\<exists>r. coprime r N \<and> c mod (N * N) = ((N + 1) ^ m * r ^ nat N) mod (N * N))"

lemma stands_for_mult:
  assumes "stands_for N m c" and "stands_for N k d"
  shows "stands_for N (m + k) ((c * d) mod (N * N))"
proof -
  obtain r t where r: "coprime r N" "c mod (N * N) = ((N + 1) ^ m * r ^ nat N) mod (N * N)"
    and t: "coprime t N" "d mod (N * N) = ((N + 1) ^ k * t ^ nat N) mod (N * N)"
    using assms by (auto simp: stands_for_def)
  have "(c * d) mod (N * N) = (((N + 1) ^ m * r ^ nat N) * ((N + 1) ^ k * t ^ nat N)) mod (N * N)"
    using r(2) t(2) by (metis mod_mult_eq)
  also have "((N + 1) ^ m * r ^ nat N) * ((N + 1) ^ k * t ^ nat N) = (N + 1) ^ (m + k) * (r * t) ^ nat N"
    by (simp add: power_add power_mult_distrib mult_ac)
  finally show ?thesis using r(1) t(1) unfolding stands_for_def
    by (intro exI[of _ "r * t"]) simp
qed

lemma stands_for_pow: "stands_for N m c \<Longrightarrow> stands_for N (m * k) (c ^ k mod (N * N))"
proof (induction k)
  case 0
  then show ?case unfolding stands_for_def by (intro exI[of _ 1]) simp
next
  case (Suc k)
  from stands_for_mult[OF Suc.prems Suc.IH[OF Suc.prems]] show ?case
    by (simp add: mod_mult_right_eq)
qed

lemma stands_for_g: "stands_for N k ((N + 1) ^ k)"
  unfolding stands_for_def by (intro exI[of _ 1]) simp

lemma stands_for_cong: "stands_for N m c \<Longrightarrow> c mod (N * N) = d mod (N * N) \<Longrightarrow> stands_for N m d"
  by (simp add: stands_for_def)

lemma stands_for_coprime:
  assumes "stands_for N m c" and "0 < N"
  shows "coprime c (N * N)"
proof -
  obtain r where r: "coprime r N" "c mod (N * N) = ((N + 1) ^ m * r ^ nat N) mod (N * N)"
    using assms by (auto simp: stands_for_def)
  have "coprime (N + 1) N" by (metis add.commute coprime_add_one_left)
  then have "coprime ((N + 1) ^ m * r ^ nat N) (N * N)" using r(1) by simp
  then show ?thesis using r(2) assms(2)
    by (metis coprime_mod_left_iff less_irrefl mult_pos_pos)
qed

text \<open>The inverse of a cipher stands for the opposite.\<close>

lemma stands_for_inverse:
  assumes c: "stands_for N m c" and N: "1 < N" and inv: "(c * i) mod (N * N) = 1 mod (N * N)"
  shows "stands_for N (m * nat (N - 1)) i"
proof -
  obtain r where r: "coprime r N" "c mod (N * N) = ((N + 1) ^ m * r ^ nat N) mod (N * N)"
    using c by (auto simp: stands_for_def)
  from ModInverse_Some[of N r] r(1) N obtain t where t: "(r * t) mod N = 1 mod N" by auto
  have ct: "coprime t N"
    using t N by (metis coprime_1_left coprime_mod_left_iff coprime_mult_left_iff not_one_less_zero)
  let ?d = "(N + 1) ^ (m * nat (N - 1)) * t ^ nat N"
  have g: "(N + 1) ^ nat N mod (N * N) = 1 mod (N * N)" using N by (intro lift_one) auto
  have "(c * ?d) mod (N * N) = (((N + 1) ^ m * r ^ nat N) * ?d) mod (N * N)" by (metis r(2) mod_mult_left_eq)
  also have "((N + 1) ^ m * r ^ nat N) * ?d = ((N + 1) ^ nat N) ^ m * (r * t) ^ nat N"
  proof -
    have "nat N = Suc (nat (N - 1))" using N by simp
    then have "m + m * nat (N - 1) = nat N * m" by simp
    then show ?thesis by (simp add: power_mult_distrib mult_ac flip: power_mult power_add)
  qed
  also have "\<dots> mod (N * N) = 1 mod (N * N)"
    using mod_pow_one[OF g] lift_one[OF t] N by (metis mod_mult_eq mult_1 zero_less_one order.strict_trans)
  finally have d: "(c * ?d) mod (N * N) = 1 mod (N * N)" .
  have "i mod (N * N) = (i * (c * ?d)) mod (N * N)" using d by (metis mod_mult_right_eq mult.right_neutral)
  also have "\<dots> = ((c * i) * ?d) mod (N * N)" by (simp add: mult_ac)
  also have "\<dots> = ?d mod (N * N)" using inv by (metis mod_mult_left_eq mult_1)
  finally show ?thesis using ct unfolding stands_for_def by blast
qed

text \<open>A key made from two different primes whose product is coprime to \<open>\<lambda>\<close>.\<close>

definition key_from :: "int \<Rightarrow> int \<Rightarrow> PrivateKey \<Rightarrow> bool" where
  "key_from p q sk \<longleftrightarrow> is_prime p \<and> is_prime q \<and> coprime (p * q) ((p - 1) * (q - 1)) \<and>
     GeneratePrivateKey (Some p) (Some q) = Inr sk"

lemma key_fromD:
  assumes "key_from p q sk"
  obtains mu where "pk_N (sk_PublicKey sk) = p * q" and "pk_G (sk_PublicKey sk) = p * q + 1" and "p \<noteq> q"
    and "sk_Lambda sk = (p - 1) * (q - 1)" and "sk_Mu sk = Some mu"
    and "((p - 1) * (q - 1) * mu) mod (p * q) = 1" and "1 < p * q" and "0 \<le> (p - 1) * (q - 1)"
proof -
  from assms have pq: "is_prime p" "is_prime q" "coprime ((p - 1) * (q - 1)) (p * q)"
    and ne: "p \<noteq> q" and sk: "sk = \<lparr>sk_PublicKey = \<lparr>pk_N = p * q, pk_G = p * q + 1\<rparr>,
      sk_Lambda = (p - 1) * (q - 1), sk_Mu = ModInverse ((p - 1) * (q - 1)) (p * q)\<rparr>"
    by (auto simp: key_from_def GeneratePrivateKey_def Let_def coprime_commute split: if_splits)
  have N: "1 < p * q" using pq by (simp add: is_prime_def less_1_mult)
  then obtain mu where mu: "ModInverse ((p - 1) * (q - 1)) (p * q) = Some mu"
    "((p - 1) * (q - 1) * mu) mod (p * q) = 1 mod (p * q)"
    using ModInverse_Some[of "p * q" "(p - 1) * (q - 1)"] pq(3) by auto
  have "0 \<le> (p - 1) * (q - 1)" using pq by (simp add: is_prime_def)
  with N ne mu show thesis by (intro that[of mu]) (simp_all add: sk)
qed

lemma one_plus_div:
  assumes "1 < (N :: int)"
  shows "((1 + x * N) mod (N * N) + -1) div N = x mod N"
proof -
  have "(1 + x * N) mod (N * N) = (1 + (x mod N) * N) mod (N * N)"
  proof -
    have "x * N = (x mod N) * N + (x div N) * (N * N)"
      by (metis div_mult_mod_eq add.commute distrib_right mult.assoc)
    then have "1 + x * N = (1 + (x mod N) * N) + (x div N) * (N * N)" by simp
    then show ?thesis by (metis mod_mult_self1)
  qed
  also have "\<dots> = 1 + (x mod N) * N"
  proof (rule mod_pos_pos_trivial)
    show "0 \<le> 1 + (x mod N) * N" using assms by simp
    have "x mod N \<le> N - 1" using assms by (simp add: zle_diff1_eq)
    then have "(x mod N) * N \<le> (N - 1) * N" using assms by (intro mult_right_mono) auto
    also have "(N - 1) * N = N * N - N" by (simp add: algebra_simps)
    finally show "1 + (x mod N) * N < N * N" using assms by linarith
  qed
  finally show ?thesis using assms by simp
qed

lemma BigExp_nonneg: "0 \<le> y \<Longrightarrow> BigExp x y m = Some (x ^ nat y mod m)"
  by (simp add: BigExp_def)

text \<open>The core of both decryptions.\<close>

lemma decrypt_core:
  assumes key: "key_from p q sk" and N: "N = pk_N (sk_PublicKey sk)" and c: "stands_for N m c"
  obtains e mu where "BigExp c (sk_Lambda sk) (N * N) = Some e" and "sk_Mu sk = Some mu"
    and "((e + -1) div N * mu) mod N = int m mod N"
proof -
  obtain mu where k: "N = p * q" "p \<noteq> q" "sk_Lambda sk = (p - 1) * (q - 1)"
    "sk_Mu sk = Some mu" "((p - 1) * (q - 1) * mu) mod N = 1" "1 < N" "0 \<le> (p - 1) * (q - 1)"
    using key_fromD[OF key] unfolding N by metis
  let ?l = "(p - 1) * (q - 1)"
  obtain r where r: "coprime r N" "c mod (N * N) = ((N + 1) ^ m * r ^ nat N) mod (N * N)"
    using c by (auto simp: stands_for_def)
  have "r ^ nat ?l mod N = 1 mod N"
    using euler_two_primes[of p q r] key r(1) k(1,2) by (simp add: key_from_def)
  from lift_one[OF this] k(6) have one: "(r ^ nat ?l) ^ nat N mod (N * N) = 1 mod (N * N)" by simp
  have "c ^ nat ?l mod (N * N) = ((N + 1) ^ m * r ^ nat N) ^ nat ?l mod (N * N)"
    by (metis r(2) power_mod)
  also have "((N + 1) ^ m * r ^ nat N) ^ nat ?l = (1 + 1 * N) ^ (m * nat ?l) * (r ^ nat ?l) ^ nat N"
    by (simp add: power_mult_distrib mult.commute add.commute flip: power_mult)
  also have "\<dots> mod (N * N) = (1 + 1 * N) ^ (m * nat ?l) mod (N * N)"
    using one by (metis mod_mult_right_eq mult.right_neutral)
  also have "\<dots> = (1 + int (m * nat ?l) * 1 * N) mod (N * N)" by (rule one_plus_pow)
  finally have e: "c ^ nat ?l mod (N * N) = (1 + (int m * ?l) * N) mod (N * N)" using k(7) by simp
  have "((c ^ nat ?l mod (N * N) + -1) div N * mu) mod N = ((int m * ?l) mod N * mu) mod N"
    unfolding e one_plus_div[OF k(6)] ..
  also have "\<dots> = (int m * (?l * mu mod N)) mod N" by (simp add: mod_mult_left_eq mod_mult_right_eq mult.assoc)
  also have "\<dots> = int m mod N" by (simp add: k(5))
  finally show thesis
    using that[of "c ^ nat ?l mod (N * N)" mu] k(3,4,7) by (simp add: BigExp_nonneg)
qed

lemma Decrypt_stands_for:
  assumes "key_from p q sk" and "stands_for (pk_N (sk_PublicKey sk)) m c"
  shows "Decrypt sk c = Inr (int m mod pk_N (sk_PublicKey sk))"
  by (rule decrypt_core[OF assms(1) refl assms(2)]) (simp add: Decrypt_def Let_def)

lemma signed_mod:
  assumes "- (N div 2) \<le> z" and "z < N - N div 2" and "y mod N = z mod (N :: int)"
  shows "((y mod N + N div 2) mod N) + (N div 2) * -1 = z"
proof -
  have "(y mod N + N div 2) mod N = (z + N div 2) mod N" using assms(3) by (metis mod_add_left_eq)
  also have "\<dots> = z + N div 2" using assms(1,2) by (intro mod_pos_pos_trivial) auto
  finally show ?thesis by simp
qed

lemma DecryptSupNegNum_stands_for:
  assumes key: "key_from p q sk" and N: "N = pk_N (sk_PublicKey sk)" and c: "stands_for N m c"
    and z: "int m mod N = z mod N" "- (N div 2) \<le> z" "z < N - N div 2"
  shows "DecryptSupNegNum sk c = Inr z"
proof (rule decrypt_core[OF key N c])
  fix e mu
  assume e: "BigExp c (sk_Lambda sk) (N * N) = Some e" "sk_Mu sk = Some mu"
    "((e + -1) div N * mu) mod N = int m mod N"
  have "DecryptSupNegNum sk c = Inr ((((e + -1) div N * mu) mod N + N div 2) mod N + N div 2 * -1)"
    unfolding DecryptSupNegNum_def Let_def N[symmetric] e(1,2) option.case ..
  also have "\<dots> = Inr z" using signed_mod[OF z(2,3) z(1)] e(3) by simp
  finally show ?thesis .
qed

text \<open>Encryptions, and the operations on ciphers, in terms of what they stand for.\<close>

lemma draw_r_ok: "draw_r N ds = Some (Inr r) \<Longrightarrow> coprime r N"
  by (induction N ds rule: draw_r.induct) (auto simp: coprime_iff_gcd_eq_1 split: if_splits)

lemma cipher_of_stands_for:
  assumes "cipher_of pk m r = Inr c" and "pk_G pk = pk_N pk + 1" and "1 < pk_N pk" and "0 \<le> m"
    and "coprime r (pk_N pk)"
  shows "stands_for (pk_N pk) (nat m) c"
  using assms unfolding stands_for_def cipher_of_def Let_def
  by (intro exI[of _ r]) (auto simp: BigExp_nonneg mod_mult_eq)

lemma Encrypt_stands_for:
  assumes "Encrypt pk ds m = Some (Inr c)" and "pk_G pk = pk_N pk + 1" and "1 < pk_N pk"
  shows "stands_for (pk_N pk) (nat m) c" and "0 \<le> m" and "m < pk_N pk"
  using assms cipher_of_stands_for[OF _ assms(2,3)] draw_r_ok
  by (auto simp: Encrypt_def cbind_ok split: if_splits)

lemma EncryptSupNegNum_stands_for:
  assumes "EncryptSupNegNum pk ds m = Some (Inr c)" and "pk_G pk = pk_N pk + 1" and "1 < pk_N pk"
  shows "stands_for (pk_N pk) (nat (m mod pk_N pk)) c"
  using assms cipher_of_stands_for[OF _ assms(2,3)] draw_r_ok
  by (auto simp: EncryptSupNegNum_def cbind_ok split: if_splits)

lemma CyphersAdd_stands_for:
  assumes "list_all2 (stands_for (pk_N pk)) ms cs"
  shows "stands_for (pk_N pk) (sum_list ms) (CyphersAdd pk cs)"
proof -
  have "stands_for (pk_N pk) (m + sum_list ms)
      (foldl (\<lambda>result cypher. (result * cypher) mod (pk_N pk * pk_N pk)) c cs)"
    if "stands_for (pk_N pk) m c" for m c
    using assms that
  proof (induction ms cs arbitrary: m c rule: list_all2_induct)
    case (Cons k ms d cs)
    from Cons.IH[OF stands_for_mult[OF Cons.prems Cons.hyps(1)]] show ?case by (simp add: add.assoc)
  qed simp
  moreover have "stands_for (pk_N pk) 0 1" using stands_for_g[of "pk_N pk" 0] by simp
  ultimately show ?thesis unfolding CyphersAdd_def Let_def by fastforce
qed

text \<open>A power with any integer exponent multiplies what the cipher stands for, modulo \<open>N\<close>.\<close>

lemma BigExp_stands_for:
  assumes c: "stands_for N m c" and N: "1 < N"
  obtains d k where "BigExp c y (N * N) = Some d" and "stands_for N k d" and "int k mod N = (y * int m) mod N"
proof (cases "y < 0")
  case False
  then have "BigExp c y (N * N) = Some (c ^ nat y mod (N * N))" by (simp add: BigExp_nonneg)
  with that stands_for_pow[OF c, of "nat y"] False show thesis by (simp add: mult.commute)
next
  case True
  have "0 < N * N" using N by simp
  with ModInverse_Some stands_for_coprime[OF c] N obtain i where
    i: "ModInverse c (N * N) = Some i" "(c * i) mod (N * N) = 1 mod (N * N)"
    by (metis order.strict_trans zero_less_one)
  let ?k = "m * nat (N - 1) * nat (- y)"
  have "int ?k = (int m * (N - 1)) * (- y)" using N True by simp
  also have "\<dots> = y * int m + (- y * int m) * N" by (simp add: algebra_simps)
  finally have "int ?k mod N = (y * int m) mod N" by (metis mod_mult_self1)
  moreover have "stands_for N ?k (i ^ nat (- y) mod (N * N))"
    by (rule stands_for_pow[OF stands_for_inverse[OF c N i(2)]])
  ultimately show thesis using that i(1) True by (simp add: BigExp_def)
qed

lemma CypherPlainAdd_stands_for:
  assumes "stands_for (pk_N pk) m c" and "pk_G pk = pk_N pk + 1" and "1 < pk_N pk"
  obtains d k where "CypherPlainAdd pk c plain = Inr d" and "stands_for (pk_N pk) k d"
    and "int k mod pk_N pk = (int m + plain) mod pk_N pk"
proof -
  have "stands_for (pk_N pk) 1 (pk_G pk)" using stands_for_g[of "pk_N pk" 1] assms(2) by simp
  from BigExp_stands_for[OF this assms(3)] obtain e j where
    e: "BigExp (pk_G pk) plain (pk_N pk * pk_N pk) = Some e" "stands_for (pk_N pk) j e"
      "int j mod pk_N pk = plain mod pk_N pk" by (metis mult.right_neutral of_nat_1)
  have "int (m + j) mod pk_N pk = (int m + plain) mod pk_N pk" using e(3) by (metis mod_add_right_eq of_nat_add)
  with stands_for_mult[OF assms(1) e(2)] e(1) that show thesis by (simp add: CypherPlainAdd_def Let_def)
qed

section \<open>Properties\<close>

definition demo_sk :: PrivateKey where
  "demo_sk = \<lparr>sk_PublicKey = \<lparr>pk_N = 35, pk_G = 36\<rparr>, sk_Lambda = 24, sk_Mu = ModInverse 24 35\<rparr>"

lemma demo_sk: "key_from 5 7 demo_sk"
proof -
  have "{2..<5 :: int} = {2, 3, 4}" "{2..<7 :: int} = {2, 3, 4, 5, 6}" by auto
  moreover have "gcd (35 :: int) 24 = 1" by code_simp
  ultimately show ?thesis
    by (simp add: key_from_def is_prime_def GeneratePrivateKey_def demo_sk_def coprime_iff_gcd_eq_1 Let_def)
qed

lemma demo_cipher: "Encrypt (sk_PublicKey demo_sk) [Some 35, Some 2] 3 = Some (Inr (36 ^ 3 * 2 ^ 35 mod 1225))"
  by (simp add: Encrypt_def demo_sk_def cipher_of_def BigExp_def)

lemma demo_negative: "EncryptSupNegNum (sk_PublicKey demo_sk) [Some 2] (-2) = Some (Inr (36 ^ 33 * 2 ^ 35 mod 1225))"
  by (simp add: EncryptSupNegNum_def demo_sk_def cipher_of_def BigExp_def)

text \<open>
  Decryption undoes encryption: with a key made from two different primes, every number that
  encryption accepts, whatever random number it drew, is decrypted to itself.
\<close>
lemma decrypt_encrypt:
  assumes "key_from p q sk" and "Encrypt (sk_PublicKey sk) draws m = Some (Inr c)"
  shows "Decrypt sk c = Inr m"
proof (rule key_fromD[OF assms(1)])
  fix mu assume k: "pk_N (sk_PublicKey sk) = p * q" "pk_G (sk_PublicKey sk) = p * q + 1" "1 < p * q"
  note e = Encrypt_stands_for[OF assms(2)]
  from Decrypt_stands_for[OF assms(1) e(1)] k e(2,3) show ?thesis by simp
qed

lemma decrypt_encrypt_witness: "Decrypt demo_sk (36 ^ 3 * 2 ^ 35 mod 1225) = Inr 3"
  by (rule decrypt_encrypt[OF demo_sk demo_cipher])

text \<open>
  C13: The cipher operations compute on what is encrypted. The cipher sum of encrypted numbers
  decrypts to their sum, adding a plain number of either sign to a cipher adds it, and multiplying
  a cipher by a plain number of either sign multiplies it, all modulo \<open>N\<close>.
\<close>
theorem cipher_operations_homomorphic:
  assumes "key_from p q sk" and "N = pk_N (sk_PublicKey sk)"
    and "\<And>i. i < length ms \<Longrightarrow> \<exists>ds. Encrypt (sk_PublicKey sk) ds (ms ! i) = Some (Inr (cs ! i))"
    and "length cs = length ms" and "Encrypt (sk_PublicKey sk) draws m = Some (Inr c)"
  shows "Decrypt sk (CyphersAdd (sk_PublicKey sk) cs) = Inr (sum_list ms mod N) \<and>
    (\<exists>d. CypherPlainAdd (sk_PublicKey sk) c plain = Inr d \<and> Decrypt sk d = Inr ((m + plain) mod N)) \<and>
    (\<exists>d. CypherPlainMultiply (sk_PublicKey sk) c plain = Some d \<and> Decrypt sk d = Inr ((plain * m) mod N))"
proof (rule key_fromD[OF assms(1)])
  fix mu assume k: "pk_N (sk_PublicKey sk) = p * q" "pk_G (sk_PublicKey sk) = p * q + 1" "1 < p * q"
  have pk: "pk_G (sk_PublicKey sk) = pk_N (sk_PublicKey sk) + 1" "1 < pk_N (sk_PublicKey sk)" using k by simp_all
  note dec = Decrypt_stands_for[OF assms(1)]
  have el: "stands_for (pk_N (sk_PublicKey sk)) (nat (ms ! i)) (cs ! i) \<and> 0 \<le> ms ! i" if "i < length ms" for i
    using assms(3)[OF that] Encrypt_stands_for[OF _ pk] by blast
  have "list_all2 (stands_for (pk_N (sk_PublicKey sk))) (map nat ms) cs"
    using el assms(4) by (simp add: list_all2_conv_all_nth)
  from dec[OF CyphersAdd_stands_for[OF this]]
  have "Decrypt sk (CyphersAdd (sk_PublicKey sk) cs) = Inr (int (sum_list (map nat ms)) mod N)" by (simp add: assms(2))
  moreover have "int (sum_list (map nat ms)) = sum_list ms"
  proof -
    have "\<forall>x \<in> set ms. 0 \<le> x" using el by (auto simp: in_set_conv_nth)
    then show ?thesis by (induction ms) auto
  qed
  moreover note m = Encrypt_stands_for[OF assms(5) pk]
  have "\<exists>d. CypherPlainAdd (sk_PublicKey sk) c plain = Inr d \<and> Decrypt sk d = Inr ((m + plain) mod N)"
    by (rule CypherPlainAdd_stands_for[OF m(1) pk, of plain]) (use dec m(2) assms(2) in auto)
  moreover have "\<exists>d. CypherPlainMultiply (sk_PublicKey sk) c plain = Some d \<and> Decrypt sk d = Inr ((plain * m) mod N)"
    by (rule BigExp_stands_for[OF m(1) pk(2), of plain])
      (use dec m(2) assms(2) in \<open>auto simp: CypherPlainMultiply_def\<close>)
  ultimately show ?thesis by simp
qed

lemma cipher_operations_homomorphic_witness:
  "\<exists>c d. CypherPlainMultiply (sk_PublicKey demo_sk) c (-4) = Some d \<and> Decrypt demo_sk d = Inr ((-4 * 3) mod 35)"
proof -
  have "pk_N (sk_PublicKey demo_sk) = 35" by (simp add: demo_sk_def)
  with cipher_operations_homomorphic[OF demo_sk refl, of "[]" "[]", OF _ _ demo_cipher, of "-4"] show ?thesis
    by auto
qed

text \<open>
  Signed numbers come back signed. A number of either sign that lies in the half-open window of
  length \<open>N\<close> around zero is encrypted and decrypted to itself, and so is the sum of two such numbers
  when it lies in the window; encryption accepts numbers below the window too, which do not.
\<close>
lemma signed_decrypt_encrypt:
  assumes "key_from p q sk" and "N = pk_N (sk_PublicKey sk)"
    and "EncryptSupNegNum (sk_PublicKey sk) ds a = Some (Inr c)"
    and "EncryptSupNegNum (sk_PublicKey sk) es b = Some (Inr d)"
    and "- (N div 2) \<le> a + b" and "a + b < N - N div 2"
  shows "DecryptSupNegNum sk (CyphersAdd (sk_PublicKey sk) [c, d]) = Inr (a + b) \<and>
    (- (N div 2) \<le> a \<and> a < N - N div 2 \<longrightarrow> DecryptSupNegNum sk c = Inr a)"
proof (rule key_fromD[OF assms(1)])
  fix mu assume k: "pk_N (sk_PublicKey sk) = p * q" "pk_G (sk_PublicKey sk) = p * q + 1" "1 < p * q"
  have pk: "pk_G (sk_PublicKey sk) = pk_N (sk_PublicKey sk) + 1" "1 < pk_N (sk_PublicKey sk)" using k by simp_all
  note c = EncryptSupNegNum_stands_for[OF assms(3) pk, folded assms(2)]
    and d = EncryptSupNegNum_stands_for[OF assms(4) pk, folded assms(2)]
  have N: "1 < N" using k by (simp add: assms(2))
  have "stands_for N (nat (a mod N) + nat (b mod N)) (CyphersAdd (sk_PublicKey sk) [c, d])"
    using CyphersAdd_stands_for[of "sk_PublicKey sk" "[nat (a mod N), nat (b mod N)]" "[c, d]"] c d
    by (simp add: assms(2))
  moreover have "int (nat (a mod N) + nat (b mod N)) mod N = (a + b) mod N"
    using N by (simp add: mod_add_eq)
  ultimately have "DecryptSupNegNum sk (CyphersAdd (sk_PublicKey sk) [c, d]) = Inr (a + b)"
    using DecryptSupNegNum_stands_for[OF assms(1,2)] assms(5,6) by blast
  moreover have "DecryptSupNegNum sk c = Inr a" if "- (N div 2) \<le> a" "a < N - N div 2"
    using DecryptSupNegNum_stands_for[OF assms(1,2) c _ that] N by simp
  ultimately show ?thesis by blast
qed

lemma signed_decrypt_encrypt_witness: "DecryptSupNegNum demo_sk (36 ^ 33 * 2 ^ 35 mod 1225) = Inr (-2)"
proof -
  have "pk_N (sk_PublicKey demo_sk) = 35" by (simp add: demo_sk_def)
  with signed_decrypt_encrypt[OF demo_sk refl demo_negative demo_negative] show ?thesis by simp
qed

end
