(* ===== verification/Psi.thy ===== *)
theory Psi
  imports Chain "HOL-Library.AList" "HOL-Library.Multiset"
begin

text \<open>
  Private set intersection of the vertical learning protocols: the encryption of sample identifiers
  and the intersection (\<^verbatim>\<open>mpc_vertical/psi.go\<close> of the crypto library), the byte form of encrypted
  sets, and the rows of the sample files (\<^verbatim>\<open>dai/crypto/vl/common/psi.go\<close>, \<^verbatim>\<open>convert.go\<close>,
  \<^verbatim>\<open>csv/csv.go\<close>). The two protocols over these operations are in \<open>PsiProtocol\<close>.
\<close>

section \<open>The platform\<close>

text \<open>
  The elliptic curve is a parameter: scalar multiplication, the byte form of a point and its inverse
  (\<^verbatim>\<open>elliptic.Marshal\<close>, \<^verbatim>\<open>elliptic.Unmarshal\<close>), and the base point; so is the reader of CSV files,
  \<open>None\<close> for an error.
\<close>

record 'p psi_env =
  base :: env
  ScalarMult :: "'p \<Rightarrow> bytes \<Rightarrow> 'p"
  Marshal :: "'p \<Rightarrow> bytes"
  Unmarshal :: "bytes \<Rightarrow> 'p option"
  base_point :: 'p
  csv_ReadAll :: "bytes \<Rightarrow> bytes list list option"

record 'p psi_key =
  key_D :: bytes
  key_Pub :: 'p

definition psi_key_pair :: "'p psi_env \<Rightarrow> bytes \<Rightarrow> 'p psi_key" where
  "psi_key_pair E d = \<lparr>key_D = d, key_Pub = ScalarMult E (base_point E) d\<rparr>"

text \<open>
  Errors with a code of \<^verbatim>\<open>dai/errcodes\<close>, errors without one, and panics. The codes
  \<open>ErrCodePSIIntersectParts\<close> and \<open>ErrCodePSIRearrangeFile\<close> have the same value.
\<close>

datatype psi_fault = Coded string | Uncoded | PsiPanic

definition ErrCodePSISamplesFile :: string where "ErrCodePSISamplesFile = ''PX0013''"
definition ErrCodePSIEncryptSampleIDSet :: string where "ErrCodePSIEncryptSampleIDSet = ''PX0014''"
definition ErrCodePSIReEncryptIDSet :: string where "ErrCodePSIReEncryptIDSet = ''PX0015''"
definition ErrCodePSIIntersectParts :: string where "ErrCodePSIIntersectParts = ''PX0016''"
definition ErrCodePSIRearrangeFile :: string where "ErrCodePSIRearrangeFile = ''PX0016''"
definition ErrCodeDaiParam :: string where "ErrCodeDaiParam = ''PX0002''"
definition ErrCodeDaiInternal :: string where "ErrCodeDaiInternal = ''PX0001''"

type_synonym 'a psi_res = "psi_fault + 'a"

definition pbind :: "'a psi_res \<Rightarrow> ('a \<Rightarrow> 'b psi_res) \<Rightarrow> 'b psi_res" where
  "pbind r f = (case r of Inl e \<Rightarrow> Inl e | Inr x \<Rightarrow> f x)"

text \<open>An error of a callee is reported with a code; a panic is not an error value.\<close>

definition coded :: "string \<Rightarrow> 'a psi_res \<Rightarrow> 'a psi_res" where
  "coded c r = (case r of Inl PsiPanic \<Rightarrow> Inl PsiPanic | Inl _ \<Rightarrow> Inl (Coded c) | Inr x \<Rightarrow> Inr x)"

lemma pbind_simps [simp]: "pbind (Inl e) f = Inl e" "pbind (Inr x) f = f x"
  by (simp_all add: pbind_def)

lemma coded_Inr [simp]: "coded c (Inr x) = Inr x"
  by (simp add: coded_def)

section \<open>Encrypted sets\<close>

text \<open>
  A set of encrypted identifiers is a Go map from the byte form of a point to an index, here an
  association list. The order in which \<^verbatim>\<open>range\<close> visits a map is not determined; an operation
  that ranges over maps takes a function that arranges their entries.
\<close>

type_synonym enc_set = "(bytes \<times> int) list"
type_synonym map_order = "enc_set \<Rightarrow> enc_set"

text \<open>Assigning the indices of a list one after the other.\<close>

fun put_indexed :: "int \<Rightarrow> bytes list \<Rightarrow> enc_set \<Rightarrow> enc_set" where
  "put_indexed i [] m = m"
| "put_indexed i (k # ks) m = put_indexed (i + 1) ks (AList.update k i m)"

fun put_entries :: "enc_set \<Rightarrow> enc_set \<Rightarrow> enc_set" where
  "put_entries [] m = m"
| "put_entries ((k, v) # r) m = put_entries r (AList.update k v m)"

definition enc_id :: "'p psi_env \<Rightarrow> 'p \<Rightarrow> bytes \<Rightarrow> bytes" where
  "enc_id E pub i = Marshal E (ScalarMult E pub (sha256 (base E) i))"

definition PSIEncryptSampleIDSet :: "'p psi_env \<Rightarrow> bytes list \<Rightarrow> 'p \<Rightarrow> enc_set" where
  "PSIEncryptSampleIDSet E sampleID pub = put_indexed 0 (map (enc_id E pub) sampleID) []"

fun reencrypt_loop :: "'p psi_env \<Rightarrow> bytes \<Rightarrow> enc_set \<Rightarrow> enc_set \<Rightarrow> enc_set psi_res" where
  "reencrypt_loop E d [] m = Inr m"
| "reencrypt_loop E d ((idstr, v) # r) m = (case Unmarshal E idstr of None \<Rightarrow> Inl PsiPanic
     | Some x \<Rightarrow> reencrypt_loop E d r (AList.update (Marshal E (ScalarMult E x d)) v m))"

definition PSIReEncryptIDSet :: "'p psi_env \<Rightarrow> map_order \<Rightarrow> enc_set \<Rightarrow> 'p psi_key \<Rightarrow> enc_set psi_res" where
  "PSIReEncryptIDSet E rng encSet key = reencrypt_loop E (key_D key) (rng encSet) []"

fun in_all :: "bytes \<Rightarrow> enc_set list \<Rightarrow> bool \<Rightarrow> bool" where
  "in_all i [] isExist = isExist"
| "in_all i (other # others) isExist = (if map_of other i = None then False else in_all i others True)"

fun intersect_loop :: "bytes list \<Rightarrow> enc_set list \<Rightarrow> enc_set \<Rightarrow> bytes list \<Rightarrow> bytes list psi_res" where
  "intersect_loop sampleID others [] acc = Inr acc"
| "intersect_loop sampleID others ((i, v) # r) acc =
     (if in_all i others False
      then if 0 \<le> v \<and> v < int (length sampleID)
           then intersect_loop sampleID others r (acc @ [sampleID ! nat v])
           else Inl PsiPanic
      else intersect_loop sampleID others r acc)"

definition Intersect :: "map_order \<Rightarrow> bytes list \<Rightarrow> enc_set \<Rightarrow> enc_set list \<Rightarrow> bytes list psi_res" where
  "Intersect rng sampleID local others = intersect_loop sampleID others (rng local) []"

section \<open>The byte form of an encrypted set\<close>

definition PSIEncSetToBytes :: "map_order \<Rightarrow> enc_set \<Rightarrow> blob" where
  "PSIEncSetToBytes rng m = Doc (JObj (map (\<lambda>(k, v). (k, JNum v))
     (sort_key fst (put_entries (map (\<lambda>(k, v). (hex k, v)) (rng m)) []))))"

text \<open>
  \<^verbatim>\<open>json.Unmarshal\<close> into a map of integers: a later entry replaces an earlier one of the same key,
  \<^verbatim>\<open>null\<close> is zero.
\<close>

fun dec_entries :: "(string \<times> json) list \<Rightarrow> enc_set \<Rightarrow> enc_set option" where
  "dec_entries [] m = Some m"
| "dec_entries ((k, j) # r) m = (case dec_int_json j of None \<Rightarrow> None
     | Some v \<Rightarrow> dec_entries r (AList.update k (sint v) m))"

fun dec_int_map :: "json \<Rightarrow> enc_set option" where
  "dec_int_map JNull = Some []"
| "dec_int_map (JObj kvs) = dec_entries kvs []"
| "dec_int_map _ = None"

fun unhex_keys :: "enc_set \<Rightarrow> enc_set \<Rightarrow> enc_set psi_res" where
  "unhex_keys [] m = Inr m"
| "unhex_keys ((k, v) # r) m = (case hexDecode k of None \<Rightarrow> Inl Uncoded
     | Some k' \<Rightarrow> unhex_keys r (AList.update k' v m))"

definition PSIEncSetFromBytes :: "'p psi_env \<Rightarrow> map_order \<Rightarrow> blob \<Rightarrow> enc_set psi_res" where
  "PSIEncSetFromBytes E rng b = (case unmarshal (base E) dec_int_map b of None \<Rightarrow> Inl Uncoded
     | Some m \<Rightarrow> unhex_keys (rng m) [])"

definition EncryptSampleIDSet :: "'p psi_env \<Rightarrow> map_order \<Rightarrow> bytes list \<Rightarrow> 'p \<Rightarrow> blob psi_res" where
  "EncryptSampleIDSet E rng ids pub = Inr (PSIEncSetToBytes rng (PSIEncryptSampleIDSet E ids pub))"

definition ReEncryptIDSet :: "'p psi_env \<Rightarrow> map_order \<Rightarrow> blob \<Rightarrow> 'p psi_key \<Rightarrow> blob psi_res" where
  "ReEncryptIDSet E rng encSet key =
     pbind (PSIEncSetFromBytes E rng encSet) (\<lambda>m.
     pbind (PSIReEncryptIDSet E rng m key) (\<lambda>ids. Inr (PSIEncSetToBytes rng ids)))"

definition IntersectTwoParts :: "'p psi_env \<Rightarrow> map_order \<Rightarrow> bytes list \<Rightarrow> blob \<Rightarrow> blob \<Rightarrow> bytes list psi_res" where
  "IntersectTwoParts E rng sampleID reEncSetLocal reEncSetOthers =
     pbind (PSIEncSetFromBytes E rng reEncSetLocal) (\<lambda>localSet.
     pbind (PSIEncSetFromBytes E rng reEncSetOthers) (\<lambda>otherSet.
     Intersect rng sampleID localSet [otherSet]))"

section \<open>Rows of a sample file\<close>

text \<open>The column of the identifiers: the last one with the name. A file without rows is nil.\<close>

fun feature_loop :: "bytes \<Rightarrow> bytes list \<Rightarrow> nat \<Rightarrow> nat option \<Rightarrow> nat option" where
  "feature_loop idName [] i featureIndex = featureIndex"
| "feature_loop idName (c # cs) i featureIndex =
     feature_loop idName cs (i + 1) (if c = idName then Some i else featureIndex)"

fun column_loop :: "nat \<Rightarrow> bytes list list \<Rightarrow> bytes list \<Rightarrow> bytes list psi_res" where
  "column_loop k [] ids = Inr ids"
| "column_loop k (row # rows) ids =
     (if k < length row then column_loop k rows (ids @ [row ! k]) else Inl PsiPanic)"

definition RetrieveIDsFromFile :: "bytes list list \<Rightarrow> bytes \<Rightarrow> bytes list psi_res" where
  "RetrieveIDsFromFile fileRows idName =
     (if fileRows = [] then Inl Uncoded
      else case feature_loop idName (hd fileRows) 0 None of None \<Rightarrow> Inl Uncoded
        | Some k \<Rightarrow> column_loop k (tl fileRows) [])"

definition reOrderIDSet :: "bytes list \<Rightarrow> enc_set" where
  "reOrderIDSet ids = put_indexed 0 (sort ids) []"

definition drop_column :: "nat \<Rightarrow> bytes list \<Rightarrow> bytes list" where
  "drop_column k row = take k row @ drop (k + 1) row"

fun place_loop :: "enc_set \<Rightarrow> nat \<Rightarrow> bytes list list \<Rightarrow> bytes list list \<Rightarrow> bytes list list psi_res" where
  "place_loop reOrderedIDs k [] intersectRows = Inr intersectRows"
| "place_loop reOrderedIDs k (row # rows) intersectRows =
     (if k < length row
      then place_loop reOrderedIDs k rows
        (case map_of reOrderedIDs (row ! k) of None \<Rightarrow> intersectRows
         | Some idx \<Rightarrow> intersectRows[nat idx + 1 := drop_column k row])
      else Inl PsiPanic)"

text \<open>The list of identifiers is sorted in place, which its owner sees; it is a second result.\<close>

definition RearrangeFileWithIntersectIDs ::
    "bytes list list \<Rightarrow> bytes \<Rightarrow> bytes list \<Rightarrow> (bytes list list \<times> bytes list) psi_res" where
  "RearrangeFileWithIntersectIDs fileRows idName ids =
     (if fileRows = [] then Inl Uncoded
      else if ids = [] then Inl Uncoded
      else let reOrderedIDs = reOrderIDSet ids; intersectRows = replicate (length ids + 1) [] in
        case feature_loop idName (hd fileRows) 0 None of None \<Rightarrow> Inl Uncoded
        | Some k \<Rightarrow>
            pbind (place_loop reOrderedIDs k (tl fileRows) (intersectRows[0 := drop_column k (hd fileRows)]))
              (\<lambda>rows. Inr (rows, sort ids)))"

definition ReadRowsFromFile :: "'p psi_env \<Rightarrow> bytes \<Rightarrow> bytes list list psi_res" where
  "ReadRowsFromFile E content = (case csv_ReadAll E content of None \<Rightarrow> Inl Uncoded | Some rows \<Rightarrow> Inr rows)"

definition ReadIDsFromFileRows :: "'p psi_env \<Rightarrow> bytes \<Rightarrow> bytes \<Rightarrow> (bytes list list \<times> bytes list) psi_res" where
  "ReadIDsFromFileRows E content idName =
     pbind (ReadRowsFromFile E content) (\<lambda>rows.
     pbind (RetrieveIDsFromFile rows idName) (\<lambda>ids. Inr (rows, ids)))"

section \<open>Encrypted sets label identifiers\<close>

text \<open>The order of \<^verbatim>\<open>range\<close> is some arrangement of the entries.\<close>

definition arranges :: "('a list \<Rightarrow> 'a list) \<Rightarrow> bool" where
  "arranges rng \<longleftrightarrow> (\<forall>m. mset (rng m) = mset m)"

text \<open>The entries of a set are the labels of the identifiers with an index of the identifier.\<close>

definition labels :: "(bytes \<Rightarrow> bytes) \<Rightarrow> bytes list \<Rightarrow> enc_set \<Rightarrow> bool" where
  "labels f ids m \<longleftrightarrow> distinct (map fst m) \<and> fst ` set m = f ` set ids \<and>
     (\<forall>(k, v) \<in> set m. 0 \<le> v \<and> v < int (length ids) \<and> f (ids ! nat v) = k)"

lemma arranges_set: "arranges rng \<Longrightarrow> set (rng m) = set m"
  by (metis arranges_def set_mset_mset)

lemma arranges_keys: "arranges rng \<Longrightarrow> distinct (map fst (rng m)) = distinct (map fst m)"
  by (metis arranges_def mset_map mset_eq_imp_distinct_iff)

lemma labels_arranged: "arranges rng \<Longrightarrow> labels f ids (rng m) = labels f ids m"
  by (simp add: labels_def arranges_set arranges_keys)

lemma update_mem: "(k, v) \<in> set (AList.update a i m) \<Longrightarrow> (k, v) \<in> set m \<or> k = a \<and> v = i"
  by (induction m) (auto split: if_splits)

lemma update_keys: "fst ` set (AList.update a i m) = insert a (fst ` set m)"
  by (induction m) (auto split: if_splits)

lemma put_indexed_facts:
  "distinct (map fst m) \<Longrightarrow> distinct (map fst (put_indexed i ks m)) \<and>
   fst ` set (put_indexed i ks m) = set ks \<union> fst ` set m \<and>
   (\<forall>(k, v) \<in> set (put_indexed i ks m). (k, v) \<in> set m \<or>
      i \<le> v \<and> v < i + int (length ks) \<and> ks ! nat (v - i) = k)"
proof (induction ks arbitrary: i m)
  case (Cons a ks)
  have d: "distinct (map fst (AList.update a i m))" by (simp add: Cons.prems distinct_update)
  note IH = Cons.IH[OF d, of "i + 1"]
  have shift: "(a # ks) ! nat (v - i) = ks ! nat (v - (i + 1))" if "i + 1 \<le> v" for v
  proof -
    have "nat (v - i) = Suc (nat (v - (i + 1)))" using that by simp
    then show ?thesis by simp
  qed
  have "(k, v) \<in> set m \<or> i \<le> v \<and> v < i + int (length (a # ks)) \<and> (a # ks) ! nat (v - i) = k"
    if "(k, v) \<in> set (put_indexed i (a # ks) m)" for k v
  proof -
    from IH that have "(k, v) \<in> set (AList.update a i m) \<or>
        i + 1 \<le> v \<and> v < i + 1 + int (length ks) \<and> ks ! nat (v - (i + 1)) = k" by auto
    then show ?thesis
    proof
      assume "(k, v) \<in> set (AList.update a i m)"
      with update_mem show ?thesis by force
    qed (use shift[of v] in simp)
  qed
  with IH update_keys[of a i m] show ?case by auto
qed auto

lemma put_entries_facts:
  "distinct (map fst m) \<Longrightarrow> distinct (map fst r) \<Longrightarrow> fst ` set r \<inter> fst ` set m = {} \<Longrightarrow>
   distinct (map fst (put_entries r m)) \<and> set (put_entries r m) = set r \<union> set m"
proof (induction r m rule: put_entries.induct)
  case (2 k v r m)
  have new: "k \<notin> fst ` set m" using "2.prems" by auto
  then have u: "AList.update k v m = m @ [(k, v)]" by (induction m) auto
  have "distinct (map fst (m @ [(k, v)]))" using "2.prems"(1) new by simp
  moreover have "fst ` set r \<inter> fst ` set (m @ [(k, v)]) = {}" using "2.prems" by auto
  ultimately show ?case using "2.IH" "2.prems" by (simp add: u insert_commute)
qed simp

lemma labels_same: "distinct (map fst m') \<Longrightarrow> set m' = set m \<Longrightarrow> labels f ids m \<Longrightarrow> labels f ids m'"
  by (simp add: labels_def)

lemma labels_encrypt: "labels (enc_id E pub) ids (PSIEncryptSampleIDSet E ids pub)"
  using put_indexed_facts[of "[]" 0 "map (enc_id E pub) ids"]
  by (fastforce simp: labels_def PSIEncryptSampleIDSet_def)

lemma dec_entries_map:
  "\<forall>(k, v) \<in> set r. in_int64 v \<Longrightarrow> dec_entries (map (\<lambda>(k, v). (k, JNum v)) r) m = Some (put_entries r m)"
  by (induction r m rule: put_entries.induct) (auto simp: sint_word_int64)

lemma unhex_keys_map: "unhex_keys (map (\<lambda>(k, v). (hex k, v)) r) m = Inr (put_entries r m)"
  by (induction r m rule: put_entries.induct) auto

lemma encset_bytes:
  assumes m: "distinct (map fst m)" and v: "\<forall>(k, v) \<in> set m. in_int64 v"
    and r: "arranges r1" "arranges r2"
  shows "\<exists>m'. PSIEncSetFromBytes E r2 (PSIEncSetToBytes r1 m) = Inr m' \<and>
    distinct (map fst m') \<and> set m' = set m"
proof -
  let ?h = "map (\<lambda>(k, v). (hex k, v)) :: enc_set \<Rightarrow> enc_set"
  have hex: "distinct (map fst (?h xs)) = distinct (map fst xs)" for xs
  proof -
    have "map fst (?h xs) = map hex (map fst xs)" by (induction xs) auto
    then show ?thesis by (simp only: distinct_map) (auto simp: inj_on_def)
  qed
  have "distinct (map fst (?h (r1 m)))" using m r(1) by (simp only: hex arranges_keys)
  from put_entries_facts[OF _ this] have
    s: "distinct (map fst (put_entries (?h (r1 m)) []))" "set (put_entries (?h (r1 m)) []) = set (?h (r1 m))"
    by auto
  define t where "t = sort_key fst (put_entries (?h (r1 m)) [])"
  have t: "distinct (map fst t)" "set t = set (?h m)"
    using s arranges_set[OF r(1)] unfolding t_def by (auto simp: distinct_map inj_on_def)
  have "\<forall>(k, v) \<in> set t. in_int64 v" using v t(2) by auto
  from dec_entries_map[OF this, of "[]"] have
    d: "dec_int_map (JObj (map (\<lambda>(k, v). (k, JNum v)) t)) = Some (put_entries t [])" by simp
  from put_entries_facts[OF _ t(1), of "[]"] t(2) have
    u: "distinct (map fst (put_entries t []))" "set (put_entries t []) = set (?h m)" by auto
  have "\<forall>x \<in> set (r2 (put_entries t [])). \<exists>k v. x = (hex k, v)"
    using u(2) arranges_set[OF r(2)] by auto
  then obtain w where w: "r2 (put_entries t []) = ?h w"
  proof (induction "r2 (put_entries t [])" arbitrary: thesis)
    case Nil
    then show ?case by (metis list.simps(8))
  qed (metis (mono_tags, lifting) ex_map_conv case_prod_conv)
  have wd: "distinct (map fst w)" using u(1) r(2) arranges_keys hex w by metis
  have "?h w = r2 (put_entries t [])" using w by simp
  then have "set (?h w) = set (?h m)" using u(2) arranges_set[OF r(2)] by simp
  moreover have "inj (\<lambda>(k, v :: int). (hex k, v))" by (auto simp: inj_def)
  ultimately have ws: "set w = set m" by (simp add: inj_image_eq_iff)
  from put_entries_facts[OF _ wd, of "[]"] have
    "distinct (map fst (put_entries w []))" "set (put_entries w []) = set w" by auto
  then show ?thesis
    using d w unhex_keys_map[of w "[]"] ws
    by (simp add: PSIEncSetFromBytes_def PSIEncSetToBytes_def t_def)
qed

lemma reencrypt_loop_facts:
  assumes "\<forall>(k, v) \<in> set r. \<exists>x. Unmarshal E k = Some x \<and> Marshal E (ScalarMult E x d) = h k"
    and "distinct (map fst m)"
  shows "\<exists>m'. reencrypt_loop E d r m = Inr m' \<and> distinct (map fst m') \<and>
    fst ` set m' = h ` fst ` set r \<union> fst ` set m \<and>
    (\<forall>(k, v) \<in> set m'. (k, v) \<in> set m \<or> (\<exists>k'. (k', v) \<in> set r \<and> k = h k'))"
  using assms
proof (induction r arbitrary: m)
  case (Cons e r)
  obtain k v where e: "e = (k, v)" by fastforce
  obtain x where x: "Unmarshal E k = Some x" "Marshal E (ScalarMult E x d) = h k" using Cons.prems(1) e by auto
  have "distinct (map fst (AList.update (h k) v m))" by (simp add: Cons.prems(2) distinct_update)
  with Cons obtain m' where m': "reencrypt_loop E d r (AList.update (h k) v m) = Inr m'"
    "distinct (map fst m')" "fst ` set m' = h ` fst ` set r \<union> fst ` set (AList.update (h k) v m)"
    "\<forall>(k', v') \<in> set m'. (k', v') \<in> set (AList.update (h k) v m) \<or> (\<exists>k''. (k'', v') \<in> set r \<and> k' = h k'')"
    by (meson list.set_intros(2))
  have "(k', v') \<in> set m \<or> (\<exists>k''. (k'', v') \<in> set (e # r) \<and> k' = h k'')" if "(k', v') \<in> set m'" for k' v'
  proof -
    from m'(4) that have "(k', v') \<in> set (AList.update (h k) v m) \<or> (\<exists>k''. (k'', v') \<in> set r \<and> k' = h k'')"
      by auto
    then show ?thesis using update_mem[of k' v' "h k" v m] e by auto
  qed
  with m' x show ?case by (auto simp: e update_keys)
qed auto

text \<open>Encrypting the labels again relabels the identifiers.\<close>

lemma labels_reencrypt:
  assumes l: "labels f ids m" and r: "arranges rng"
    and fg: "\<forall>i \<in> set ids. \<exists>x. Unmarshal E (f i) = Some x \<and> Marshal E (ScalarMult E x (key_D key)) = g i"
  shows "\<exists>m'. PSIReEncryptIDSet E rng m key = Inr m' \<and> labels g ids m'"
proof -
  define h where "h k = Marshal E (ScalarMult E (the (Unmarshal E k)) (key_D key))" for k
  have hg: "h (f i) = g i" if "i \<in> set ids" for i using fg that by (auto simp: h_def)
  have keys: "fst ` set m = f ` set ids" using l by (simp add: labels_def)
  have "\<forall>(k, v) \<in> set (rng m). \<exists>x. Unmarshal E k = Some x \<and> Marshal E (ScalarMult E x (key_D key)) = h k"
  proof (safe)
    fix k v
    assume "(k, v) \<in> set (rng m)"
    then have "k \<in> f ` set ids" unfolding keys[symmetric] arranges_set[OF r] by force
    then obtain i where "i \<in> set ids" "k = f i" by auto
    with fg hg show "\<exists>x. Unmarshal E k = Some x \<and> Marshal E (ScalarMult E x (key_D key)) = h k" by metis
  qed
  from reencrypt_loop_facts[OF this, of "[]"] obtain m' where
    m': "PSIReEncryptIDSet E rng m key = Inr m'" "distinct (map fst m')" "fst ` set m' = h ` fst ` set m"
      "\<forall>(k, v) \<in> set m'. \<exists>k'. (k', v) \<in> set m \<and> k = h k'"
    by (auto simp: PSIReEncryptIDSet_def arranges_set[OF r])
  have "h ` fst ` set m = g ` set ids" unfolding keys using hg by force
  moreover have "0 \<le> v \<and> v < int (length ids) \<and> g (ids ! nat v) = k" if kv: "(k, v) \<in> set m'" for k v
  proof -
    from m'(4) kv obtain k' where k': "(k', v) \<in> set m" "k = h k'" by auto
    with l have b: "0 \<le> v" "v < int (length ids)" "f (ids ! nat v) = k'" by (auto simp: labels_def)
    then have "ids ! nat v \<in> set ids" by simp
    with hg b k' show ?thesis by metis
  qed
  ultimately show ?thesis using m' by (auto simp: labels_def)
qed

section \<open>The intersection\<close>

lemma in_all_iff: "in_all i others e \<longleftrightarrow> (if others = [] then e else \<forall>m \<in> set others. i \<in> fst ` set m)"
  by (induction others arbitrary: e) (auto simp: map_of_eq_None_iff)

lemma intersect_loop_facts:
  assumes "\<forall>(k, v) \<in> set r. 0 \<le> v \<and> v < int (length ids) \<and> f (ids ! nat v) = k"
    and "distinct (map fst r)" and "distinct acc" and "f ` set acc \<inter> fst ` set r = {}"
    and "inj_on f (set ids)" and "set acc \<subseteq> set ids"
  shows "\<exists>out. intersect_loop ids others r acc = Inr out \<and> distinct out \<and>
    set out = set acc \<union> {i \<in> set ids. f i \<in> fst ` set r \<and> in_all (f i) others False}"
  using assms(1-4,6)
proof (induction r arbitrary: acc)
  case (Cons e r)
  obtain k v where e: "e = (k, v)" by fastforce
  define i where "i = ids ! nat v"
  from Cons.prems(1) e have v: "0 \<le> v" "v < int (length ids)" "f i = k" by (auto simp: i_def)
  then have i: "i \<in> set ids" by (simp add: i_def)
  have only: "j = i" if "j \<in> set ids" "f j = k" for j using assms(5) i v(3) that by (metis inj_onD)
  have k: "k \<notin> fst ` set r" "distinct (map fst r)" using Cons.prems(2) e by simp_all
  have "\<forall>(k, v) \<in> set r. 0 \<le> v \<and> v < int (length ids) \<and> f (ids ! nat v) = k" using Cons.prems(1) by simp
  note IH = Cons.IH[OF this k(2)]
  show ?case
  proof (cases "in_all k others False")
    case True
    have new: "i \<notin> set acc" using Cons.prems(4) e v(3) by auto
    have "f ` set (acc @ [i]) \<inter> fst ` set r = {}" using Cons.prems(4) e v(3) k(1) by auto
    moreover have "distinct (acc @ [i])" "set (acc @ [i]) \<subseteq> set ids" using Cons.prems(3,5) new i by simp_all
    ultimately obtain out where
      "intersect_loop ids others r (acc @ [i]) = Inr out" "distinct out"
      "set out = set (acc @ [i]) \<union> {j \<in> set ids. f j \<in> fst ` set r \<and> in_all (f j) others False}"
      using IH by blast
    moreover have "j \<in> set ids \<and> f j \<in> fst ` set (e # r) \<and> in_all (f j) others False \<longleftrightarrow>
        j = i \<or> j \<in> set ids \<and> f j \<in> fst ` set r \<and> in_all (f j) others False" for j
    proof (cases "j = i")
      case False
      then have "j \<in> set ids \<Longrightarrow> f j \<noteq> k" using only by blast
      with False show ?thesis by (auto simp: e)
    qed (use i v(3) True in \<open>simp add: e\<close>)
    then have "set (acc @ [i]) \<union> {j \<in> set ids. f j \<in> fst ` set r \<and> in_all (f j) others False} =
        set acc \<union> {j \<in> set ids. f j \<in> fst ` set (e # r) \<and> in_all (f j) others False}"
      by auto
    moreover have "intersect_loop ids others (e # r) acc = intersect_loop ids others r (acc @ [i])"
      using True v by (simp add: e i_def)
    ultimately show ?thesis by simp
  next
    case False
    have "f ` set acc \<inter> fst ` set r = {}" using Cons.prems(4) e by auto
    with IH Cons.prems(3,5) obtain out where
      "intersect_loop ids others r acc = Inr out" "distinct out"
      "set out = set acc \<union> {j \<in> set ids. f j \<in> fst ` set r \<and> in_all (f j) others False}"
      by blast
    moreover have "intersect_loop ids others (e # r) acc = intersect_loop ids others r acc" using False by (simp add: e)
    moreover have "{j \<in> set ids. f j \<in> fst ` set r \<and> in_all (f j) others False} =
        {j \<in> set ids. f j \<in> fst ` set (e # r) \<and> in_all (f j) others False}" using False by (auto simp: e)
    ultimately show ?thesis by simp
  qed
qed auto

lemma Intersect_labels:
  assumes a: "labels f ids m" and b: "labels f ids' m'" and r: "arranges rng"
    and inj: "inj_on f (set ids \<union> set ids')"
  shows "\<exists>out. Intersect rng ids m [m'] = Inr out \<and> distinct out \<and> set out = set ids \<inter> set ids'"
proof -
  have a': "labels f ids (rng m)" using a r by (simp add: labels_arranged)
  have keys: "fst ` set (rng m) = f ` set ids" "fst ` set m' = f ` set ids'"
    using a' b by (simp_all add: labels_def)
  from intersect_loop_facts[of "rng m" ids f "[]" "[m']"] a' inj obtain out where
    "Intersect rng ids m [m'] = Inr out" "distinct out"
    "set out = {i \<in> set ids. f i \<in> fst ` set (rng m) \<and> in_all (f i) [m'] False}"
    by (auto simp: labels_def Intersect_def inj_on_Un)
  moreover have "{i \<in> set ids. f i \<in> f ` set ids \<and> f i \<in> f ` set ids'} = set ids \<inter> set ids'"
    using inj by (auto simp: inj_on_def)
  ultimately show ?thesis by (auto simp: keys in_all_iff)
qed

text \<open>Both sets pass through their byte forms.\<close>

lemma labels_in_int64: "labels f ids m \<Longrightarrow> length ids < 2 ^ 63 \<Longrightarrow> \<forall>(k, v) \<in> set m. in_int64 v"
  by (fastforce simp: labels_def in_int64_def)

lemma labels_bytes:
  assumes "labels f ids m" and "length ids < 2 ^ 63" and "arranges r1" and "arranges r2"
  shows "\<exists>m'. PSIEncSetFromBytes E r2 (PSIEncSetToBytes r1 m) = Inr m' \<and> labels f ids m'"
proof -
  have "distinct (map fst m)" using assms(1) by (simp add: labels_def)
  from encset_bytes[OF this labels_in_int64[OF assms(1,2)] assms(3,4)] labels_same assms(1) show ?thesis by blast
qed

section \<open>Rows in the order of the intersection\<close>

lemma reOrderIDSet_facts:
  assumes "distinct ids"
  shows "map_of (reOrderIDSet ids) i = Some v \<longleftrightarrow> 0 \<le> v \<and> v < int (length ids) \<and> sort ids ! nat v = i"
proof -
  note f = put_indexed_facts[of "[]" 0 "sort ids", simplified, folded reOrderIDSet_def]
  have v: "0 \<le> v \<and> v < int (length ids) \<and> sort ids ! nat v = i" if "map_of (reOrderIDSet ids) i = Some v" for v
    using f map_of_SomeD[OF that] by auto
  show ?thesis
  proof
    assume a: "0 \<le> v \<and> v < int (length ids) \<and> sort ids ! nat v = i"
    then have "nat v < length (sort ids)" by (simp add: nat_less_iff)
    then have "i \<in> set (sort ids)" using a nth_mem by blast
    then have "map_of (reOrderIDSet ids) i \<noteq> None" using f by (simp add: map_of_eq_None_iff)
    then obtain w where w: "map_of (reOrderIDSet ids) i = Some w" by auto
    from v[OF w] a have "sort ids ! nat w = sort ids ! nat v" "nat w < length (sort ids)"
      by (simp_all add: nat_less_iff)
    then have "nat w = nat v" using assms \<open>nat v < length (sort ids)\<close> by (simp add: nth_eq_iff_index_eq)
    with w v[OF w] a show "map_of (reOrderIDSet ids) i = Some v" by (simp add: eq_nat_nat_iff)
  qed (rule v)
qed

text \<open>The sample of an identifier: its last row, without the column of the identifiers.\<close>

definition sample_of :: "nat \<Rightarrow> bytes list list \<Rightarrow> bytes \<Rightarrow> bytes list" where
  "sample_of k rows i = drop_column k (last (filter (\<lambda>row. row ! k = i) rows))"

lemma place_loop_facts:
  assumes "\<forall>row \<in> set rows. k < length row" and "distinct ids" and "length acc = length ids + 1"
  shows "\<exists>out. place_loop (reOrderIDSet ids) k rows acc = Inr out \<and> length out = length ids + 1 \<and> hd out = hd acc \<and>
    (\<forall>j < length ids. out ! Suc j = (if \<exists>row \<in> set rows. row ! k = sort ids ! j
        then sample_of k rows (sort ids ! j) else acc ! Suc j))"
  using assms(1,3)
proof (induction rows arbitrary: acc)
  case (Cons row rows)
  define acc' where "acc' = (case map_of (reOrderIDSet ids) (row ! k) of None \<Rightarrow> acc
     | Some idx \<Rightarrow> acc[nat idx + 1 := drop_column k row])"
  have len: "length acc' = length ids + 1" and hd': "hd acc' = hd acc"
    using Cons.prems(2) by (cases acc; auto simp: acc'_def split: option.split)+
  have at: "acc' ! Suc j = (if row ! k = sort ids ! j then drop_column k row else acc ! Suc j)"
    if j: "j < length ids" for j
  proof (cases "row ! k = sort ids ! j")
    case True
    then have "map_of (reOrderIDSet ids) (row ! k) = Some (int j)"
      using reOrderIDSet_facts[OF assms(2)] j by simp
    with True j Cons.prems(2) show ?thesis by (simp add: acc'_def)
  next
    case False
    have "nat v \<noteq> j" if "map_of (reOrderIDSet ids) (row ! k) = Some v" for v
      using reOrderIDSet_facts[OF assms(2)] that False by auto
    with False show ?thesis by (auto simp: acc'_def split: option.split)
  qed
  from Cons.IH[OF _ len] Cons.prems(1) obtain out where
    out: "place_loop (reOrderIDSet ids) k rows acc' = Inr out" "length out = length ids + 1" "hd out = hd acc'"
      "\<forall>j < length ids. out ! Suc j = (if \<exists>row \<in> set rows. row ! k = sort ids ! j
        then sample_of k rows (sort ids ! j) else acc' ! Suc j)" by auto
  have "out ! Suc j = (if \<exists>r \<in> set (row # rows). r ! k = sort ids ! j
        then sample_of k (row # rows) (sort ids ! j) else acc ! Suc j)" if j: "j < length ids" for j
  proof (cases "\<exists>r \<in> set rows. r ! k = sort ids ! j")
    case True
    then have "filter (\<lambda>r. r ! k = sort ids ! j) rows \<noteq> []" by (auto simp: filter_empty_conv)
    with True out(4) j show ?thesis by (auto simp: sample_of_def)
  next
    case False
    then have "filter (\<lambda>r. r ! k = sort ids ! j) rows = []" by (auto simp: filter_empty_conv)
    with False out(4) j at[OF j] show ?thesis by (auto simp: sample_of_def)
  qed
  with out hd' Cons.prems(1) show ?case by (auto simp: acc'_def)
qed auto

text \<open>
  What a party is to get for the common identifiers: the header, then one sample for every
  identifier in ascending order.
\<close>

definition aligned_rows :: "nat \<Rightarrow> bytes list list \<Rightarrow> bytes list \<Rightarrow> bytes list list" where
  "aligned_rows k rows ids = drop_column k (hd rows) # map (sample_of k (tl rows)) ids"

lemma Rearrange_aligned:
  assumes f: "feature_loop idName (hd rows) 0 None = Some k" and rows: "rows \<noteq> []"
    and len: "\<forall>row \<in> set (tl rows). k < length row" and ids: "distinct ids" "ids \<noteq> []"
    and sub: "set ids \<subseteq> (\<lambda>row. row ! k) ` set (tl rows)"
  shows "RearrangeFileWithIntersectIDs rows idName ids = Inr (aligned_rows k rows (sort ids), sort ids)"
proof -
  let ?acc = "(replicate (length ids + 1) [])[0 := drop_column k (hd rows)]"
  from place_loop_facts[OF len ids(1), of ?acc] obtain out where
    out: "place_loop (reOrderIDSet ids) k (tl rows) ?acc = Inr out" "length out = length ids + 1"
      "hd out = hd ?acc"
      "\<forall>j < length ids. out ! Suc j = (if \<exists>row \<in> set (tl rows). row ! k = sort ids ! j
        then sample_of k (tl rows) (sort ids ! j) else ?acc ! Suc j)" by auto
  have "out ! Suc j = sample_of k (tl rows) (sort ids ! j)" if j: "j < length ids" for j
  proof -
    have "sort ids ! j \<in> set (sort ids)" using j by (intro nth_mem) simp
    then have "\<exists>row \<in> set (tl rows). row ! k = sort ids ! j" using sub by force
    with out(4) j show ?thesis by simp
  qed
  moreover have "out ! 0 = drop_column k (hd rows)" using out(2,3) by (cases out) auto
  ultimately have "out = aligned_rows k rows (sort ids)"
    using out(2) by (intro nth_equalityI) (auto simp: aligned_rows_def nth_Cons split: nat.split)
  with out(1) f rows ids(2) show ?thesis by (simp add: RearrangeFileWithIntersectIDs_def Let_def)
qed

lemma column_loop_map: "\<forall>row \<in> set rows. k < length row \<Longrightarrow> column_loop k rows acc = Inr (acc @ map (\<lambda>row. row ! k) rows)"
  by (induction rows arbitrary: acc) auto

lemma RetrieveIDs_map:
  assumes "feature_loop idName (hd rows) 0 None = Some k" and "rows \<noteq> []" and "\<forall>row \<in> set (tl rows). k < length row"
  shows "RetrieveIDsFromFile rows idName = Inr (map (\<lambda>row. row ! k) (tl rows))"
  using assms by (simp add: RetrieveIDsFromFile_def column_loop_map)

end
