(* ===== verification/PsiProtocol.thy ===== *)
theory PsiProtocol
  imports Psi
begin

text \<open>
  The two protocols of private set intersection (\<^verbatim>\<open>dai/mpc/psi/psi.go\<close> for two parties and
  \<^verbatim>\<open>dai/mpc/psi/psi_bypairs.go\<close> for many), as state machines of one party, and what the parties
  end up with.
\<close>

section \<open>The state of a party\<close>

text \<open>
  The fields that both implementations have; a \<^verbatim>\<open>sync.Map\<close> is an association list. The parties are
  the keys of a map, so a loop over them takes a function that arranges them.
\<close>

record 'p psi_party =
  vp_name :: string
  vp_privkey :: "'p psi_key"
  vp_samplesFile :: bytes
  vp_samplesIdName :: bytes
  vp_parties :: "string list"
  vp_ids :: "bytes list"
  vp_rows :: "bytes list list"
  vp_encIDs :: blob
  vp_reEncryptIDSetsFromOthers :: "(string \<times> blob) list"
  vp_finalReEncryptIDSetsOfOthers :: "(string \<times> blob) list"
  vp_done :: bool
  vp_newRows :: "bytes list list"
  vp_intersect :: "bytes list"

record 'p vlTwoPartsPsi = "'p psi_party" +
  vp_finalReEncIDs :: blob

record 'p vlPsiByPairs = "'p psi_party" +
  vp_middleIntersect :: "(string \<times> bytes list) list"

type_synonym party_order = "string list \<Rightarrow> string list"

definition LoadOrStore :: "'k \<Rightarrow> 'v \<Rightarrow> ('k \<times> 'v) list \<Rightarrow> ('k \<times> 'v) list" where
  "LoadOrStore k v m = (if map_of m k = None then m @ [(k, v)] else m)"

section \<open>Two parties\<close>

text \<open>
  \<^verbatim>\<open>NewVLTwoPartsPSI\<close>, with the private number that the system draws, \<open>None\<close> for an error. Only
  the first party is kept.
\<close>

definition NewVLTwoPartsPSI ::
    "'p psi_env \<Rightarrow> bytes option \<Rightarrow> string \<Rightarrow> bytes \<Rightarrow> bytes \<Rightarrow> string list \<Rightarrow> 'p vlTwoPartsPsi psi_res" where
  "NewVLTwoPartsPSI E drawn name samplesFile samplesIdName parties =
     (if length parties \<le> 0 then Inl (Coded ErrCodeDaiParam)
      else case drawn of None \<Rightarrow> Inl (Coded ErrCodeDaiInternal)
        | Some d \<Rightarrow> Inr \<lparr>vp_name = name, vp_privkey = psi_key_pair E d, vp_samplesFile = samplesFile,
            vp_samplesIdName = samplesIdName, vp_parties = [parties ! 0], vp_ids = [], vp_rows = [],
            vp_encIDs = Raw [], vp_reEncryptIDSetsFromOthers = [], vp_finalReEncryptIDSetsOfOthers = [],
            vp_done = False, vp_newRows = [], vp_intersect = [], vp_finalReEncIDs = Raw []\<rparr>)"

definition readSamples :: "'p psi_env \<Rightarrow> ('p, 'z) psi_party_scheme \<Rightarrow> ('p, 'z) psi_party_scheme psi_res" where
  "readSamples E vp = pbind (ReadIDsFromFileRows E (vp_samplesFile vp) (vp_samplesIdName vp))
     (\<lambda>(rows, ids). Inr (vp\<lparr>vp_ids := ids, vp_rows := rows\<rparr>))"

definition vp_EncryptSampleIDSet ::
    "'p psi_env \<Rightarrow> map_order \<Rightarrow> ('p, 'z) psi_party_scheme \<Rightarrow> (blob \<times> ('p, 'z) psi_party_scheme) psi_res" where
  "vp_EncryptSampleIDSet E rng vp =
     pbind (coded ErrCodePSISamplesFile (readSamples E vp)) (\<lambda>vp.
     pbind (coded ErrCodePSIEncryptSampleIDSet (EncryptSampleIDSet E rng (vp_ids vp) (key_Pub (vp_privkey vp))))
       (\<lambda>encIDs. Inr (encIDs, vp\<lparr>vp_encIDs := encIDs\<rparr>)))"

definition TwoParts_SetReEncryptIDSet :: "'p vlTwoPartsPsi \<Rightarrow> string \<Rightarrow> blob \<Rightarrow> bool \<times> 'p vlTwoPartsPsi" where
  "TwoParts_SetReEncryptIDSet vp party reEncIDs =
     (if party \<notin> set (vp_parties vp) then (False, vp)
      else (True, vp\<lparr>vp_reEncryptIDSetsFromOthers := LoadOrStore party reEncIDs (vp_reEncryptIDSetsFromOthers vp),
                     vp_finalReEncIDs := reEncIDs\<rparr>))"

definition vp_ReEncryptIDSet ::
    "'p psi_env \<Rightarrow> map_order \<Rightarrow> ('p, 'z) psi_party_scheme \<Rightarrow> string \<Rightarrow> blob \<Rightarrow> blob psi_res" where
  "vp_ReEncryptIDSet E rng vp party encIDs =
     (let r = ReEncryptIDSet E rng encIDs (vp_privkey vp) in
      if party \<notin> set (vp_parties vp)
      then (case r of Inl PsiPanic \<Rightarrow> Inl PsiPanic | Inl e \<Rightarrow> Inr (Raw []) | Inr reEncIDs \<Rightarrow> Inr reEncIDs)
      else coded ErrCodePSIReEncryptIDSet r)"

definition vp_SetOtherFinalReEncryptIDSet ::
    "('p, 'z) psi_party_scheme \<Rightarrow> string \<Rightarrow> blob \<Rightarrow> ('p, 'z) psi_party_scheme" where
  "vp_SetOtherFinalReEncryptIDSet vp party reEncIDs =
     (if party \<notin> set (vp_parties vp) then vp
      else vp\<lparr>vp_finalReEncryptIDSetsOfOthers := LoadOrStore party reEncIDs (vp_finalReEncryptIDSetsOfOthers vp)\<rparr>)"

text \<open>
  The answer is whether the intersection is done, the rows and the identifiers. The second loop
  looks at the first party it meets only.
\<close>

definition TwoParts_IntersectParts ::
    "'p psi_env \<Rightarrow> map_order \<Rightarrow> party_order \<Rightarrow> 'p vlTwoPartsPsi \<Rightarrow>
     (bool \<times> bytes list list \<times> bytes list) psi_res \<times> 'p vlTwoPartsPsi" where
  "TwoParts_IntersectParts E rng prng vp =
     (if vp_done vp then (Inr (True, vp_newRows vp, vp_intersect vp), vp)
      else if \<exists>party \<in> set (prng (vp_parties vp)). map_of (vp_reEncryptIDSetsFromOthers vp) party = None
        then (Inr (False, [], []), vp)
      else case (case prng (vp_parties vp) of [] \<Rightarrow> Some (Raw [])
                 | party # _ \<Rightarrow> map_of (vp_finalReEncryptIDSetsOfOthers vp) party) of
        None \<Rightarrow> (Inr (False, [], []), vp)
      | Some finalReEncIDsOfOther \<Rightarrow>
          (case coded ErrCodePSIIntersectParts
                  (IntersectTwoParts E rng (vp_ids vp) (vp_finalReEncIDs vp) finalReEncIDsOfOther) of
             Inl e \<Rightarrow> (Inl e, vp)
           | Inr intersect \<Rightarrow>
               (case coded ErrCodePSIRearrangeFile
                       (RearrangeFileWithIntersectIDs (vp_rows vp) (vp_samplesIdName vp) intersect) of
                  Inl e \<Rightarrow> (Inl e, vp)
                | Inr (newRows, intersect) \<Rightarrow>
                    (Inr (True, newRows, intersect),
                     vp\<lparr>vp_newRows := newRows, vp_intersect := intersect, vp_done := True\<rparr>))))"

section \<open>Many parties, by pairs\<close>

definition NewVLPSIByPairs ::
    "'p psi_env \<Rightarrow> bytes option \<Rightarrow> string \<Rightarrow> bytes \<Rightarrow> bytes \<Rightarrow> string list \<Rightarrow> 'p vlPsiByPairs psi_res" where
  "NewVLPSIByPairs E drawn name samplesFile samplesIdName parties =
     (if length parties \<le> 0 then Inl (Coded ErrCodeDaiParam)
      else case drawn of None \<Rightarrow> Inl (Coded ErrCodeDaiInternal)
        | Some d \<Rightarrow> Inr \<lparr>vp_name = name, vp_privkey = psi_key_pair E d, vp_samplesFile = samplesFile,
            vp_samplesIdName = samplesIdName, vp_parties = remdups parties, vp_ids = [], vp_rows = [],
            vp_encIDs = Raw [], vp_reEncryptIDSetsFromOthers = [], vp_finalReEncryptIDSetsOfOthers = [],
            vp_done = False, vp_newRows = [], vp_intersect = [], vp_middleIntersect = []\<rparr>)"

text \<open>These methods have the text of their counterparts for two parties.\<close>

definition ByPairs_readSamples :: "'p psi_env \<Rightarrow> 'p vlPsiByPairs \<Rightarrow> 'p vlPsiByPairs psi_res" where
  "ByPairs_readSamples E vp = readSamples E vp"

definition ByPairs_EncryptSampleIDSet ::
    "'p psi_env \<Rightarrow> map_order \<Rightarrow> 'p vlPsiByPairs \<Rightarrow> (blob \<times> 'p vlPsiByPairs) psi_res" where
  "ByPairs_EncryptSampleIDSet E rng vp =
     pbind (coded ErrCodePSISamplesFile (ByPairs_readSamples E vp)) (\<lambda>vp.
     pbind (coded ErrCodePSIEncryptSampleIDSet (EncryptSampleIDSet E rng (vp_ids vp) (key_Pub (vp_privkey vp))))
       (\<lambda>encIDs. Inr (encIDs, vp\<lparr>vp_encIDs := encIDs\<rparr>)))"

definition ByPairs_SetReEncryptIDSet :: "'p vlPsiByPairs \<Rightarrow> string \<Rightarrow> blob \<Rightarrow> bool \<times> 'p vlPsiByPairs" where
  "ByPairs_SetReEncryptIDSet vp party reEncIDs =
     (if party \<notin> set (vp_parties vp) then (False, vp)
      else (True, vp\<lparr>vp_reEncryptIDSetsFromOthers := LoadOrStore party reEncIDs (vp_reEncryptIDSetsFromOthers vp)\<rparr>))"

definition ByPairs_ReEncryptIDSet ::
    "'p psi_env \<Rightarrow> map_order \<Rightarrow> 'p vlPsiByPairs \<Rightarrow> string \<Rightarrow> blob \<Rightarrow> blob psi_res" where
  "ByPairs_ReEncryptIDSet E rng vp party encIDs = vp_ReEncryptIDSet E rng vp party encIDs"

definition ByPairs_SetOtherFinalReEncryptIDSet :: "'p vlPsiByPairs \<Rightarrow> string \<Rightarrow> blob \<Rightarrow> 'p vlPsiByPairs" where
  "ByPairs_SetOtherFinalReEncryptIDSet vp party reEncIDs = vp_SetOtherFinalReEncryptIDSet vp party reEncIDs"

text \<open>
  The first loop intersects with every party whose sets are there; \<open>False\<close> says that a set is
  missing. What it has stored stays stored when it returns early.
\<close>

fun pairs_loop :: "'p psi_env \<Rightarrow> map_order \<Rightarrow> 'p vlPsiByPairs \<Rightarrow> string list \<Rightarrow> (string \<times> bytes list) list \<Rightarrow>
    bool psi_res \<times> (string \<times> bytes list) list" where
  "pairs_loop E rng vp [] mid = (Inr True, mid)"
| "pairs_loop E rng vp (party # ps) mid =
     (case map_of (vp_reEncryptIDSetsFromOthers vp) party of None \<Rightarrow> (Inr False, mid)
      | Some bySelf \<Rightarrow>
          (case map_of (vp_finalReEncryptIDSetsOfOthers vp) party of None \<Rightarrow> (Inr False, mid)
           | Some byOther \<Rightarrow>
               (case coded ErrCodePSIIntersectParts (IntersectTwoParts E rng (vp_ids vp) bySelf byOther) of
                  Inl e \<Rightarrow> (Inl e, mid)
                | Inr intersect \<Rightarrow> pairs_loop E rng vp ps (LoadOrStore party intersect mid))))"

definition getIntersection :: "bytes list \<Rightarrow> bytes list \<Rightarrow> bytes list" where
  "getIntersection a b = filter (\<lambda>v. v \<in> set b) a"

fun combine_loop :: "(string \<times> bytes list) list \<Rightarrow> string list \<Rightarrow> bool \<Rightarrow> bytes list \<Rightarrow> bytes list option" where
  "combine_loop mid [] firstParty intersect = Some intersect"
| "combine_loop mid (party # ps) firstParty intersect =
     (case map_of mid party of None \<Rightarrow> None
      | Some x \<Rightarrow> combine_loop mid ps False (if firstParty then x else getIntersection intersect x))"

text \<open>
  With one other party the list that is sorted in place is the one in \<^verbatim>\<open>middleIntersect\<close>, which
  is not read again after a success.
\<close>

definition ByPairs_IntersectParts ::
    "'p psi_env \<Rightarrow> map_order \<Rightarrow> party_order \<Rightarrow> party_order \<Rightarrow> 'p vlPsiByPairs \<Rightarrow>
     (bool \<times> bytes list list \<times> bytes list) psi_res \<times> 'p vlPsiByPairs" where
  "ByPairs_IntersectParts E rng prng prng' vp =
     (if vp_done vp then (Inr (True, vp_newRows vp, vp_intersect vp), vp)
      else case pairs_loop E rng vp (prng (vp_parties vp)) (vp_middleIntersect vp) of
        (Inl e, mid) \<Rightarrow> (Inl e, vp\<lparr>vp_middleIntersect := mid\<rparr>)
      | (Inr False, mid) \<Rightarrow> (Inr (False, [], []), vp\<lparr>vp_middleIntersect := mid\<rparr>)
      | (Inr True, mid) \<Rightarrow>
          let vp = vp\<lparr>vp_middleIntersect := mid\<rparr> in
          (case combine_loop mid (prng' (vp_parties vp)) True [] of
             None \<Rightarrow> (Inr (False, [], []), vp)
           | Some intersect \<Rightarrow>
               (case coded ErrCodePSIRearrangeFile
                       (RearrangeFileWithIntersectIDs (vp_rows vp) (vp_samplesIdName vp) intersect) of
                  Inl e \<Rightarrow> (Inl e, vp\<lparr>vp_intersect := intersect\<rparr>)
                | Inr (newRows, sortedIDs) \<Rightarrow>
                    (Inr (True, newRows, sortedIDs),
                     vp\<lparr>vp_intersect := sortedIDs, vp_newRows := newRows, vp_done := True\<rparr>))))"

section \<open>Doubly encrypted sets\<close>

text \<open>Scalar multiplications commute and points survive their byte form.\<close>

definition curve_laws :: "'p psi_env \<Rightarrow> bool" where
  "curve_laws E \<longleftrightarrow> (\<forall>P a b. ScalarMult E (ScalarMult E P a) b = ScalarMult E (ScalarMult E P b) a) \<and>
     (\<forall>P. Unmarshal E (Marshal E P) = Some P)"

text \<open>The label that an identifier has after both parties have encrypted it.\<close>

definition double_label :: "'p psi_env \<Rightarrow> bytes \<Rightarrow> bytes \<Rightarrow> bytes \<Rightarrow> bytes" where
  "double_label E d d' i =
     Marshal E (ScalarMult E (ScalarMult E (ScalarMult E (base_point E) d) (sha256 (base E) i)) d')"

lemma double_label_commute: "curve_laws E \<Longrightarrow> double_label E d d' = double_label E d' d"
  unfolding double_label_def curve_laws_def by (rule ext) metis

text \<open>The byte form of a set that one party has encrypted and another one again.\<close>

definition doubly :: "'p psi_env \<Rightarrow> bytes list \<Rightarrow> 'p psi_key \<Rightarrow> 'p psi_key \<Rightarrow> blob \<Rightarrow> bool" where
  "doubly E ids key key' b \<longleftrightarrow> (\<exists>r1 r2 enc. arranges r1 \<and> arranges r2 \<and>
     EncryptSampleIDSet E r1 ids (key_Pub key) = Inr enc \<and> ReEncryptIDSet E r2 enc key' = Inr b)"

lemma ReEncrypt_labels:
  assumes E: "curve_laws E" and len: "length ids < 2 ^ 63" and r: "arranges r1" "arranges r2"
    and enc: "EncryptSampleIDSet E r1 ids (key_Pub (psi_key_pair E d)) = Inr enc"
  shows "\<exists>m. ReEncryptIDSet E r2 enc (psi_key_pair E d') = Inr (PSIEncSetToBytes r2 m) \<and>
    labels (double_label E d d') ids m"
proof -
  let ?f = "enc_id E (key_Pub (psi_key_pair E d))"
  have l: "labels ?f ids (PSIEncryptSampleIDSet E ids (key_Pub (psi_key_pair E d)))" by (rule labels_encrypt)
  from labels_bytes[OF l len r] enc obtain m where
    m: "PSIEncSetFromBytes E r2 enc = Inr m" "labels ?f ids m" by (auto simp: EncryptSampleIDSet_def)
  have "\<forall>i \<in> set ids. \<exists>x. Unmarshal E (?f i) = Some x \<and>
      Marshal E (ScalarMult E x (key_D (psi_key_pair E d'))) = double_label E d d' i"
    using E by (simp add: curve_laws_def enc_id_def psi_key_pair_def double_label_def)
  from labels_reencrypt[OF m(2) r(2) this] m(1) show ?thesis by (auto simp: ReEncryptIDSet_def)
qed

lemma doubly_labels:
  assumes E: "curve_laws E" and len: "length ids < 2 ^ 63" and r: "arranges r"
    and b: "doubly E ids (psi_key_pair E d) (psi_key_pair E d') b"
  shows "\<exists>m. PSIEncSetFromBytes E r b = Inr m \<and> labels (double_label E d d') ids m"
proof -
  from b obtain r1 r2 enc where
    r': "arranges r1" "arranges r2" and enc: "EncryptSampleIDSet E r1 ids (key_Pub (psi_key_pair E d)) = Inr enc"
    and re: "ReEncryptIDSet E r2 enc (psi_key_pair E d') = Inr b" unfolding doubly_def by blast
  from ReEncrypt_labels[OF E len r' enc, of d'] re obtain m where
    m: "b = PSIEncSetToBytes r2 m" "labels (double_label E d d') ids m" by auto
  from labels_bytes[OF m(2) len r'(2) r] m(1) show ?thesis by simp
qed

text \<open>Two parties find the identifiers they have in common.\<close>

lemma IntersectTwoParts_common:
  assumes E: "curve_laws E" and len: "length ids < 2 ^ 63" "length ids' < 2 ^ 63" and r: "arranges r"
    and b: "doubly E ids (psi_key_pair E d) (psi_key_pair E d') b"
    and b': "doubly E ids' (psi_key_pair E d') (psi_key_pair E d) b'"
    and inj: "inj_on (double_label E d d') (set ids \<union> set ids')"
  shows "\<exists>out. IntersectTwoParts E r ids b b' = Inr out \<and> distinct out \<and> set out = set ids \<inter> set ids'"
proof -
  from doubly_labels[OF E len(1) r b] obtain m where
    m: "PSIEncSetFromBytes E r b = Inr m" "labels (double_label E d d') ids m" by auto
  from doubly_labels[OF E len(2) r b'] obtain m' where
    m': "PSIEncSetFromBytes E r b' = Inr m'" "labels (double_label E d d') ids' m'"
    by (auto simp: double_label_commute[OF E, of d'])
  from Intersect_labels[OF m(2) m'(2) r inj] m(1) m'(1) show ?thesis by (simp add: IntersectTwoParts_def)
qed

section \<open>Sample files\<close>

text \<open>A file that the reader accepts: it has a column of identifiers and every row reaches it.\<close>

definition sample_file :: "'p psi_env \<Rightarrow> bytes \<Rightarrow> bytes \<Rightarrow> nat \<Rightarrow> bytes list list \<Rightarrow> bytes list \<Rightarrow> bool" where
  "sample_file E content idName k rows ids \<longleftrightarrow> csv_ReadAll E content = Some rows \<and> rows \<noteq> [] \<and>
     feature_loop idName (hd rows) 0 None = Some k \<and> (\<forall>row \<in> set (tl rows). k < length row) \<and>
     ids = map (\<lambda>row. row ! k) (tl rows) \<and> length ids < 2 ^ 63"

lemma sample_file_length: "sample_file E content idName k rows ids \<Longrightarrow> length ids < 2 ^ 63"
  unfolding sample_file_def by (elim conjE)

lemma readSamples_ok:
  assumes "sample_file E (vp_samplesFile vp) (vp_samplesIdName vp) k rows ids"
  shows "readSamples E vp = Inr (vp\<lparr>vp_ids := ids, vp_rows := rows\<rparr>)"
  using assms RetrieveIDs_map[of "vp_samplesIdName vp" rows k]
  by (simp add: readSamples_def ReadIDsFromFileRows_def ReadRowsFromFile_def sample_file_def)

lemma rearrange_common:
  assumes f: "sample_file E content idName k rows ids" and out: "distinct out" "set out = set ids \<inter> common"
    and ne: "set ids \<inter> common \<noteq> {}"
  shows "RearrangeFileWithIntersectIDs rows idName out =
    Inr (aligned_rows k rows (sorted_list_of_set (set ids \<inter> common)), sorted_list_of_set (set ids \<inter> common))"
proof -
  have "sort out = sorted_list_of_set (set ids \<inter> common)"
    using out by (metis distinct_remdups_id sorted_list_of_set_sort_remdups)
  moreover have nonempty: "out \<noteq> []" using out(2) ne by auto
  moreover have "set out \<subseteq> (\<lambda>row. row ! k) ` set (tl rows)" using f out(2) by (auto simp: sample_file_def)
  ultimately show ?thesis
    using Rearrange_aligned[of idName rows k out] f out(1) nonempty by (simp add: sample_file_def)
qed

lemma arranges_single: "arranges rng \<Longrightarrow> rng [x] = [x]"
  by (metis arranges_def mset.simps(1,2) add_mset_eq_singleton_iff mset_single_iff)

section \<open>The exchange of two parties\<close>

text \<open>
  One party asks the other: it sends its encrypted set, the other one encrypts it again, keeps it and
  sends it back. This is what the learners do with the messages of the protocol.
\<close>

definition psi_request :: "'p psi_env \<Rightarrow> map_order \<Rightarrow> map_order \<Rightarrow> 'p vlTwoPartsPsi \<Rightarrow> 'p vlTwoPartsPsi \<Rightarrow>
    ('p vlTwoPartsPsi \<times> 'p vlTwoPartsPsi) psi_res" where
  "psi_request E r r' me other =
     pbind (vp_EncryptSampleIDSet E r me) (\<lambda>(encIDs, me).
     pbind (vp_ReEncryptIDSet E r' other (vp_name me) encIDs) (\<lambda>reEncIDs.
     Inr (snd (TwoParts_SetReEncryptIDSet me (vp_name other) reEncIDs),
          vp_SetOtherFinalReEncryptIDSet other (vp_name me) reEncIDs)))"

definition psi_exchange :: "'p psi_env \<Rightarrow> map_order \<Rightarrow> map_order \<Rightarrow> map_order \<Rightarrow> map_order \<Rightarrow>
    'p vlTwoPartsPsi \<Rightarrow> 'p vlTwoPartsPsi \<Rightarrow> ('p vlTwoPartsPsi \<times> 'p vlTwoPartsPsi) psi_res" where
  "psi_exchange E r1 r2 r3 r4 a b =
     pbind (psi_request E r1 r2 a b) (\<lambda>(a, b). pbind (psi_request E r3 r4 b a) (\<lambda>(b, a). Inr (a, b)))"

lemma psi_request_ok:
  fixes me other :: "'p vlTwoPartsPsi"
  assumes E: "curve_laws E" and r: "arranges r" "arranges r'"
    and f: "sample_file E (vp_samplesFile me) (vp_samplesIdName me) k rows ids"
    and key: "vp_privkey me = psi_key_pair E d" "vp_privkey other = psi_key_pair E d'"
    and ps: "vp_parties me = [vp_name other]" "vp_parties other = [vp_name me]"
  shows "\<exists>enc b. doubly E ids (psi_key_pair E d) (psi_key_pair E d') b \<and>
    psi_request E r r' me other = Inr (me\<lparr>vp_ids := ids, vp_rows := rows, vp_encIDs := enc,
        vp_reEncryptIDSetsFromOthers := LoadOrStore (vp_name other) b (vp_reEncryptIDSetsFromOthers me),
        vp_finalReEncIDs := b\<rparr>,
      other\<lparr>vp_finalReEncryptIDSetsOfOthers := LoadOrStore (vp_name me) b (vp_finalReEncryptIDSetsOfOthers other)\<rparr>)"
proof -
  define enc where "enc = PSIEncSetToBytes r (PSIEncryptSampleIDSet E ids (key_Pub (psi_key_pair E d)))"
  have e: "EncryptSampleIDSet E r ids (key_Pub (psi_key_pair E d)) = Inr enc" by (simp add: EncryptSampleIDSet_def enc_def)
  have len: "length ids < 2 ^ 63" by (rule sample_file_length[OF f])
  from ReEncrypt_labels[OF E len r e] obtain b where b: "ReEncryptIDSet E r' enc (psi_key_pair E d') = Inr b" by blast
  with e r have "doubly E ids (psi_key_pair E d) (psi_key_pair E d') b" unfolding doubly_def by blast
  with b e show ?thesis
    by (intro exI[of _ enc] exI[of _ b])
      (simp add: psi_request_def vp_EncryptSampleIDSet_def readSamples_ok[OF f] key ps
        vp_ReEncryptIDSet_def TwoParts_SetReEncryptIDSet_def vp_SetOtherFinalReEncryptIDSet_def)
qed

lemma intersect_parts_ok:
  fixes vp :: "'p vlTwoPartsPsi"
  assumes E: "curve_laws E" and r: "arranges r" "arranges prng" and len: "length ids' < 2 ^ 63"
    and f: "sample_file E content (vp_samplesIdName vp) k (vp_rows vp) (vp_ids vp)"
    and ps: "vp_parties vp = [p]" "\<not> vp_done vp"
    and b: "doubly E (vp_ids vp) (psi_key_pair E d) (psi_key_pair E d') (vp_finalReEncIDs vp)"
      "map_of (vp_reEncryptIDSetsFromOthers vp) p \<noteq> None"
    and b': "doubly E ids' (psi_key_pair E d') (psi_key_pair E d) b'"
      "map_of (vp_finalReEncryptIDSetsOfOthers vp) p = Some b'"
    and inj: "inj_on (double_label E d d') (set (vp_ids vp) \<union> set ids')"
    and common: "common = sorted_list_of_set (set (vp_ids vp) \<inter> set ids')"
  shows "fst (TwoParts_IntersectParts E r prng vp) =
    (if common = [] then Inl (Coded ErrCodePSIRearrangeFile)
     else Inr (True, aligned_rows k (vp_rows vp) common, common))"
proof -
  have "prng [p] = [p]" using r(2) by (metis arranges_single)
  moreover have "length (vp_ids vp) < 2 ^ 63" by (rule sample_file_length[OF f])
  from IntersectTwoParts_common[OF E this len r(1) b(1) b'(1) inj] obtain out where
    out: "IntersectTwoParts E r (vp_ids vp) (vp_finalReEncIDs vp) b' = Inr out"
      "distinct out" "set out = set (vp_ids vp) \<inter> set ids'" by blast
  moreover have "out = [] \<longleftrightarrow> common = []"
    using out(3) common by (metis List.finite_set set_empty sorted_list_of_set.set_sorted_key_list_of_set finite_Int)
  moreover have "RearrangeFileWithIntersectIDs (vp_rows vp) (vp_samplesIdName vp) [] = Inl Uncoded"
    by (simp add: RearrangeFileWithIntersectIDs_def)
  moreover note rearrange_common[OF f out(2,3)]
  ultimately show ?thesis
    using ps b(2) b'(2) common by (auto simp: TwoParts_IntersectParts_def coded_def)
qed

section \<open>The exchanges of many parties\<close>

text \<open>
  A family of parties, by their names; party \<open>p\<close> asks party \<open>q\<close>. A run is a list of such requests,
  each with the orders in which its maps are visited.
\<close>

definition pairs_request :: "'p psi_env \<Rightarrow> string \<Rightarrow> string \<Rightarrow> map_order \<Rightarrow> map_order \<Rightarrow>
    (string \<Rightarrow> 'p vlPsiByPairs) \<Rightarrow> (string \<Rightarrow> 'p vlPsiByPairs) psi_res" where
  "pairs_request E p q r r' st =
     pbind (ByPairs_EncryptSampleIDSet E r (st p)) (\<lambda>(encIDs, me).
     pbind (ByPairs_ReEncryptIDSet E r' (st q) p encIDs) (\<lambda>reEncIDs.
     let st = st(p := snd (ByPairs_SetReEncryptIDSet me q reEncIDs))
     in Inr (st(q := ByPairs_SetOtherFinalReEncryptIDSet (st q) p reEncIDs))))"

fun pairs_run :: "'p psi_env \<Rightarrow> (string \<times> string \<times> map_order \<times> map_order) list \<Rightarrow>
    (string \<Rightarrow> 'p vlPsiByPairs) \<Rightarrow> (string \<Rightarrow> 'p vlPsiByPairs) psi_res" where
  "pairs_run E [] st = Inr st"
| "pairs_run E ((p, q, r, r') # rs) st = pbind (pairs_request E p q r r' st) (pairs_run E rs)"

definition asked :: "string \<times> string \<times> map_order \<times> map_order \<Rightarrow> string \<times> string" where
  "asked x = (fst x, fst (snd x))"

text \<open>What a party holds when the requests in \<open>D\<close> are done.\<close>

definition holds_sets :: "'p psi_env \<Rightarrow> (string \<Rightarrow> bytes) \<Rightarrow> (string \<Rightarrow> bytes list) \<Rightarrow> string \<Rightarrow>
    (string \<times> string) set \<Rightarrow> 'p vlPsiByPairs \<Rightarrow> bool" where
  "holds_sets E d ids p D vp \<longleftrightarrow>
     (\<forall>q b. map_of (vp_reEncryptIDSetsFromOthers vp) q = Some b \<longrightarrow>
        doubly E (ids p) (psi_key_pair E (d p)) (psi_key_pair E (d q)) b) \<and>
     (\<forall>q b. map_of (vp_finalReEncryptIDSetsOfOthers vp) q = Some b \<longrightarrow>
        doubly E (ids q) (psi_key_pair E (d q)) (psi_key_pair E (d p)) b) \<and>
     (\<forall>q. (p, q) \<in> D \<longrightarrow> map_of (vp_reEncryptIDSetsFromOthers vp) q \<noteq> None) \<and>
     (\<forall>q. (q, p) \<in> D \<longrightarrow> map_of (vp_finalReEncryptIDSetsOfOthers vp) q \<noteq> None)"

definition party_ready :: "'p psi_env \<Rightarrow> (string \<Rightarrow> bytes) \<Rightarrow> (string \<Rightarrow> bytes) \<Rightarrow> (string \<Rightarrow> bytes) \<Rightarrow> string list \<Rightarrow>
    string \<Rightarrow> 'p vlPsiByPairs \<Rightarrow> bool" where
  "party_ready E d file idName ps p vp \<longleftrightarrow> vp_privkey vp = psi_key_pair E (d p) \<and> vp_samplesFile vp = file p \<and>
     vp_samplesIdName vp = idName p \<and> vp_parties vp = filter (\<lambda>q. q \<noteq> p) ps \<and>
     \<not> vp_done vp \<and> vp_middleIntersect vp = []"

definition pairs_inv :: "'p psi_env \<Rightarrow> (string \<Rightarrow> bytes) \<Rightarrow> (string \<Rightarrow> bytes) \<Rightarrow> (string \<Rightarrow> bytes) \<Rightarrow>
    (string \<Rightarrow> bytes list list) \<Rightarrow> (string \<Rightarrow> bytes list) \<Rightarrow> string list \<Rightarrow> (string \<times> string) set \<Rightarrow>
    (string \<Rightarrow> 'p vlPsiByPairs) \<Rightarrow> bool" where
  "pairs_inv E d file idName rows ids ps D st \<longleftrightarrow>
     (\<forall>p \<in> set ps. party_ready E d file idName ps p (st p) \<and> holds_sets E d ids p D (st p) \<and>
        ((\<exists>q. (p, q) \<in> D) \<longrightarrow> vp_rows (st p) = rows p \<and> vp_ids (st p) = ids p))"

lemma map_of_LoadOrStore:
  "map_of (LoadOrStore k v m) k' = (if k' = k \<and> map_of m k = None then Some v else map_of m k')"
  by (auto simp: LoadOrStore_def map_add_def split: option.split)

lemma pairs_request_ok:
  assumes E: "curve_laws E" and inv: "pairs_inv E d file idName rows ids ps D st"
    and f: "\<forall>p \<in> set ps. sample_file E (file p) (idName p) (k p) (rows p) (ids p)"
    and pq: "p \<in> set ps" "q \<in> set ps" "p \<noteq> q" and r: "arranges r" "arranges r'"
  shows "\<exists>st'. pairs_request E p q r r' st = Inr st' \<and> pairs_inv E d file idName rows ids ps (insert (p, q) D) st'"
proof -
  from inv pq have p: "party_ready E d file idName ps p (st p)" and q: "party_ready E d file idName ps q (st q)"
    by (simp_all add: pairs_inv_def)
  from f pq p have fp: "sample_file E (vp_samplesFile (st p)) (vp_samplesIdName (st p)) (k p) (rows p) (ids p)"
    by (simp add: party_ready_def)
  define enc where "enc = PSIEncSetToBytes r (PSIEncryptSampleIDSet E (ids p) (key_Pub (psi_key_pair E (d p))))"
  have e: "EncryptSampleIDSet E r (ids p) (key_Pub (psi_key_pair E (d p))) = Inr enc"
    by (simp add: EncryptSampleIDSet_def enc_def)
  from ReEncrypt_labels[OF E sample_file_length[OF fp] r e, of "d q"] obtain b where
    b: "ReEncryptIDSet E r' enc (psi_key_pair E (d q)) = Inr b" by blast
  with e r have db: "doubly E (ids p) (psi_key_pair E (d p)) (psi_key_pair E (d q)) b" unfolding doubly_def by blast
  define vp where "vp = (st p)\<lparr>vp_ids := ids p, vp_rows := rows p, vp_encIDs := enc,
    vp_reEncryptIDSetsFromOthers := LoadOrStore q b (vp_reEncryptIDSetsFromOthers (st p))\<rparr>"
  define vq where "vq = (st q)\<lparr>vp_finalReEncryptIDSetsOfOthers := LoadOrStore p b (vp_finalReEncryptIDSetsOfOthers (st q))\<rparr>"
  have run: "pairs_request E p q r r' st = Inr (st(p := vp, q := vq))"
    using p q pq b e
    by (simp add: pairs_request_def ByPairs_EncryptSampleIDSet_def ByPairs_readSamples_def readSamples_ok[OF fp]
        ByPairs_ReEncryptIDSet_def vp_ReEncryptIDSet_def ByPairs_SetReEncryptIDSet_def vp_def vq_def party_ready_def
        ByPairs_SetOtherFinalReEncryptIDSet_def vp_SetOtherFinalReEncryptIDSet_def)
  have old: "holds_sets E d ids x D (st x)" "party_ready E d file idName ps x (st x)"
    "(\<exists>y. (x, y) \<in> D) \<longrightarrow> vp_rows (st x) = rows x \<and> vp_ids (st x) = ids x" if "x \<in> set ps" for x
    using inv that by (simp_all add: pairs_inv_def)
  have "holds_sets E d ids p (insert (p, q) D) vp" "holds_sets E d ids q (insert (p, q) D) vq"
    using old(1)[OF pq(1)] old(1)[OF pq(2)] db pq(3)
    by (auto simp: holds_sets_def vp_def vq_def map_of_LoadOrStore split: if_splits)
  moreover have "holds_sets E d ids x (insert (p, q) D) (st x)" if "x \<in> set ps" "x \<noteq> p" "x \<noteq> q" for x
    using old(1)[OF that(1)] that by (simp add: holds_sets_def)
  moreover have "party_ready E d file idName ps p vp" "party_ready E d file idName ps q vq"
    using p q by (simp_all add: party_ready_def vp_def vq_def)
  moreover have "vp_rows vp = rows p" "vp_ids vp = ids p" "vp_rows vq = vp_rows (st q)" "vp_ids vq = vp_ids (st q)"
    by (simp_all add: vp_def vq_def)
  ultimately have "pairs_inv E d file idName rows ids ps (insert (p, q) D) (st(p := vp, q := vq))"
    using old(2,3) pq by (auto simp: pairs_inv_def)
  with run show ?thesis by blast
qed

lemma pairs_run_ok:
  assumes E: "curve_laws E" and f: "\<forall>p \<in> set ps. sample_file E (file p) (idName p) (k p) (rows p) (ids p)"
    and rs: "\<forall>(p, q, r, r') \<in> set rs. p \<in> set ps \<and> q \<in> set ps \<and> p \<noteq> q \<and> arranges r \<and> arranges r'"
    and inv: "pairs_inv E d file idName rows ids ps D st"
  shows "\<exists>st'. pairs_run E rs st = Inr st' \<and>
    pairs_inv E d file idName rows ids ps (asked ` set rs \<union> D) st'"
  using rs inv
proof (induction rs arbitrary: D st)
  case (Cons x rs)
  obtain p q r r' where x: "x = (p, q, r, r')" by (metis prod_cases4)
  from Cons.prems(1) x have pq: "p \<in> set ps" "q \<in> set ps" "p \<noteq> q" and r: "arranges r" "arranges r'" by auto
  from pairs_request_ok[OF E Cons.prems(2) f pq r] obtain st1 where
    s: "pairs_request E p q r r' st = Inr st1" "pairs_inv E d file idName rows ids ps (insert (p, q) D) st1" by blast
  have "\<forall>(p, q, r, r') \<in> set rs. p \<in> set ps \<and> q \<in> set ps \<and> p \<noteq> q \<and> arranges r \<and> arranges r'"
    using Cons.prems(1) by simp
  from Cons.IH[OF this s(2)] obtain st' where "pairs_run E rs st1 = Inr st'"
    "pairs_inv E d file idName rows ids ps (asked ` set rs \<union> insert (p, q) D) st'" by blast
  with s(1) show ?case by (simp add: x asked_def)
qed auto

text \<open>What the intersection with one other party needs.\<close>

definition pair_known :: "'p psi_env \<Rightarrow> bytes \<Rightarrow> (string \<Rightarrow> bytes) \<Rightarrow> (string \<Rightarrow> bytes list) \<Rightarrow> 'p vlPsiByPairs \<Rightarrow> string \<Rightarrow> bool" where
  "pair_known E d dq ids vp q \<longleftrightarrow> length (ids q) < 2 ^ 63 \<and>
     inj_on (double_label E d (dq q)) (set (vp_ids vp) \<union> set (ids q)) \<and>
     (\<exists>b b'. map_of (vp_reEncryptIDSetsFromOthers vp) q = Some b \<and> map_of (vp_finalReEncryptIDSetsOfOthers vp) q = Some b' \<and>
        doubly E (vp_ids vp) (psi_key_pair E d) (psi_key_pair E (dq q)) b \<and>
        doubly E (ids q) (psi_key_pair E (dq q)) (psi_key_pair E d) b')"

lemma pairs_loop_ok:
  fixes vp :: "'p vlPsiByPairs"
  assumes E: "curve_laws E" and r: "arranges r" and len: "length (vp_ids vp) < 2 ^ 63"
    and key: "\<forall>q \<in> set qs. pair_known E d dq ids vp q"
    and qs: "distinct qs" "\<forall>q \<in> set qs. map_of mid q = None"
  shows "\<exists>mid'. pairs_loop E r vp qs mid = (Inr True, mid') \<and> (\<forall>q. q \<notin> set qs \<longrightarrow> map_of mid' q = map_of mid q) \<and>
    (\<forall>q \<in> set qs. \<exists>out. map_of mid' q = Some out \<and> distinct out \<and> set out = set (vp_ids vp) \<inter> set (ids q))"
  using key qs
proof (induction qs arbitrary: mid)
  case (Cons q qs)
  from Cons.prems(1) obtain b b' where
    b: "map_of (vp_reEncryptIDSetsFromOthers vp) q = Some b" "map_of (vp_finalReEncryptIDSetsOfOthers vp) q = Some b'"
      "doubly E (vp_ids vp) (psi_key_pair E d) (psi_key_pair E (dq q)) b"
      "doubly E (ids q) (psi_key_pair E (dq q)) (psi_key_pair E d) b'"
    and q: "length (ids q) < 2 ^ 63" "inj_on (double_label E d (dq q)) (set (vp_ids vp) \<union> set (ids q))"
    unfolding pair_known_def by auto
  from IntersectTwoParts_common[OF E len q(1) r b(3,4) q(2)] obtain out where
    out: "IntersectTwoParts E r (vp_ids vp) b b' = Inr out" "distinct out" "set out = set (vp_ids vp) \<inter> set (ids q)" by blast
  have "distinct qs" "\<forall>x \<in> set qs. map_of (LoadOrStore q out mid) x = None"
    using Cons.prems(2,3) by (auto simp: map_of_LoadOrStore)
  moreover have "\<forall>x \<in> set qs. pair_known E d dq ids vp x" using Cons.prems(1) by simp
  ultimately obtain mid' where
    mid': "pairs_loop E r vp qs (LoadOrStore q out mid) = (Inr True, mid')"
      "\<forall>x. x \<notin> set qs \<longrightarrow> map_of mid' x = map_of (LoadOrStore q out mid) x"
      "\<forall>x \<in> set qs. \<exists>out. map_of mid' x = Some out \<and> distinct out \<and> set out = set (vp_ids vp) \<inter> set (ids x)"
    using Cons.IH by blast
  have "map_of mid' q = Some out" using mid'(2) Cons.prems(2,3) by (simp add: map_of_LoadOrStore)
  moreover have "\<forall>x. x \<notin> set (q # qs) \<longrightarrow> map_of mid' x = map_of mid x" using mid'(2) by (simp add: map_of_LoadOrStore)
  ultimately show ?case using mid'(1,3) out b by simp
qed simp

lemma combine_loop_ok:
  assumes "\<forall>q \<in> set qs. \<exists>out. map_of mid q = Some out \<and> distinct out \<and> set out = A \<inter> S q" and "distinct it"
  shows "\<exists>out. combine_loop mid qs first it = Some out \<and> distinct out \<and>
    set out = (if first \<and> qs \<noteq> [] then A else set it) \<inter> {x. \<forall>q \<in> set qs. x \<in> A \<inter> S q}"
  using assms
proof (induction qs arbitrary: first it)
  case (Cons q qs)
  from Cons.prems(1) obtain x where x: "map_of mid q = Some x" "distinct x" "set x = A \<inter> S q" by auto
  have "distinct (if first then x else getIntersection it x)" using x(2) Cons.prems(2) by (simp add: getIntersection_def)
  moreover have "\<forall>q \<in> set qs. \<exists>out. map_of mid q = Some out \<and> distinct out \<and> set out = A \<inter> S q"
    using Cons.prems(1) by simp
  ultimately obtain out where
    "combine_loop mid qs False (if first then x else getIntersection it x) = Some out" "distinct out"
    "set out = set (if first then x else getIntersection it x) \<inter> {x. \<forall>q \<in> set qs. x \<in> A \<inter> S q}"
    using Cons.IH[of "if first then x else getIntersection it x" False] by auto
  with x show ?case by (auto simp: getIntersection_def)
qed simp

lemma pairs_intersect_ok:
  fixes vp :: "'p vlPsiByPairs"
  assumes E: "curve_laws E" and r: "arranges r" "arranges prng" "arranges prng'"
    and f: "sample_file E content (vp_samplesIdName vp) k (vp_rows vp) (vp_ids vp)"
    and key: "\<forall>q \<in> set (vp_parties vp). pair_known E d dq ids vp q"
    and ps: "distinct (vp_parties vp)" "vp_parties vp \<noteq> []" "\<not> vp_done vp" "vp_middleIntersect vp = []"
    and common: "common = sorted_list_of_set (set (vp_ids vp) \<inter> (\<Inter>q \<in> set (vp_parties vp). set (ids q)))"
  shows "fst (ByPairs_IntersectParts E r prng prng' vp) =
    (if common = [] then Inl (Coded ErrCodePSIRearrangeFile)
     else Inr (True, aligned_rows k (vp_rows vp) common, common))"
proof -
  note set = arranges_set[OF r(2), of "vp_parties vp"] arranges_set[OF r(3), of "vp_parties vp"]
  have d: "distinct (prng (vp_parties vp))" using ps(1) r(2) unfolding arranges_def by (metis mset_eq_imp_distinct_iff)
  have "\<forall>q \<in> set (prng (vp_parties vp)). pair_known E d dq ids vp q" using key set(1) by simp
  from pairs_loop_ok[OF E r(1) sample_file_length[OF f] this d, of "[]"] set(1) obtain mid where
    mid: "pairs_loop E r vp (prng (vp_parties vp)) [] = (Inr True, mid)"
      "\<forall>q \<in> set (vp_parties vp). \<exists>out. map_of mid q = Some out \<and> distinct out \<and> set out = set (vp_ids vp) \<inter> set (ids q)"
    by auto
  have "prng' (vp_parties vp) \<noteq> []" using set(2) ps(2) by (metis set_empty)
  with combine_loop_ok[of "prng' (vp_parties vp)" mid "set (vp_ids vp)" "\<lambda>q. set (ids q)" "[]" True] mid(2) set(2) obtain out where
    out: "combine_loop mid (prng' (vp_parties vp)) True [] = Some out" "distinct out"
      "set out = set (vp_ids vp) \<inter> {x. \<forall>q \<in> set (vp_parties vp). x \<in> set (vp_ids vp) \<inter> set (ids q)}" by auto
  then have o: "set out = set (vp_ids vp) \<inter> (\<Inter>q \<in> set (vp_parties vp). set (ids q))" by auto
  then have ne: "out = [] \<longleftrightarrow> common = []"
    using common by (metis List.finite_set set_empty sorted_list_of_set.set_sorted_key_list_of_set)
  have "RearrangeFileWithIntersectIDs (vp_rows vp) (vp_samplesIdName vp) [] = Inl Uncoded"
    by (simp add: RearrangeFileWithIntersectIDs_def)
  with rearrange_common[OF f out(2) o] ne mid(1) out(1) ps(3,4) common o show ?thesis
    by (auto simp: ByPairs_IntersectParts_def coded_def Let_def)
qed

section \<open>Properties\<close>

text \<open>Three small sample files and a curve on which the witnesses run: points are numbers.\<close>

definition demo_csv :: "bytes \<Rightarrow> bytes list list option" where
  "demo_csv s =
     (if s = ''A'' then Some [[''id'', ''x''], [''k'', ''1''], [''m'', ''2'']]
      else if s = ''B'' then Some [[''y'', ''id''], [''7'', ''m''], [''8'', ''n'']]
      else if s = ''C'' then Some [[''id''], [''n''], [''m'']] else None)"

definition demo_curve :: "nat psi_env" where
  "demo_curve = \<lparr>base = mem_env\<lparr>sha256 := \<lambda>x. x\<rparr>, ScalarMult = (\<lambda>P a. P + (\<Sum>c\<leftarrow>a. of_char c)),
     Marshal = (\<lambda>P. replicate P CHR ''.''), Unmarshal = (\<lambda>s. Some (length s)), base_point = 0, csv_ReadAll = demo_csv\<rparr>"

lemma demo_curve_laws: "curve_laws demo_curve"
  by (simp add: curve_laws_def demo_curve_def)

lemma demo_labels: "inj_on (double_label demo_curve d d') {''k'', ''m'', ''n''}"
  by (auto simp: inj_on_def double_label_def demo_curve_def dest!: arg_cong[where f = length])

lemma demo_files:
  "sample_file demo_curve ''A'' ''id'' 0 [[''id'', ''x''], [''k'', ''1''], [''m'', ''2'']] [''k'', ''m'']"
  "sample_file demo_curve ''B'' ''id'' 1 [[''y'', ''id''], [''7'', ''m''], [''8'', ''n'']] [''m'', ''n'']"
  "sample_file demo_curve ''C'' ''id'' 0 [[''id''], [''n''], [''m'']] [''n'', ''m'']"
  by (simp_all add: sample_file_def demo_curve_def demo_csv_def)

text \<open>
  C14: Two parties that run the whole protocol, with freshly made instances and messages in byte form,
  both end up with the identifiers that their files have in common, in the same ascending order, and
  with their own samples in that order, whatever order the maps are visited in. When there is no
  common identifier both get an error. It is assumed that no two identifiers have the same label.
\<close>
theorem psi_two_parties_agree:
  assumes "curve_laws E" and "arranges r1" "arranges r2" "arranges r3" "arranges r4" "arranges r" "arranges prng"
    and a: "NewVLTwoPartsPSI E (Some d) name content idName [name'] = Inr a"
    and b: "NewVLTwoPartsPSI E (Some d') name' content' idName' [name] = Inr b"
    and fa: "sample_file E content idName k rows ids" and fb: "sample_file E content' idName' k' rows' ids'"
    and inj: "inj_on (double_label E d d') (set ids \<union> set ids')"
    and common: "common = sorted_list_of_set (set ids \<inter> set ids')"
  shows "\<exists>a' b'. psi_exchange E r1 r2 r3 r4 a b = Inr (a', b') \<and>
    fst (TwoParts_IntersectParts E r prng a') = (if common = [] then Inl (Coded ErrCodePSIRearrangeFile)
      else Inr (True, aligned_rows k rows common, common)) \<and>
    fst (TwoParts_IntersectParts E r prng b') = (if common = [] then Inl (Coded ErrCodePSIRearrangeFile)
      else Inr (True, aligned_rows k' rows' common, common))"
proof -
  have fields: "vp_name a = name" "vp_privkey a = psi_key_pair E d" "vp_parties a = [name']" "vp_samplesFile a = content"
      "vp_samplesIdName a = idName" "\<not> vp_done a" "vp_reEncryptIDSetsFromOthers a = []" "vp_finalReEncryptIDSetsOfOthers a = []"
      "vp_name b = name'" "vp_privkey b = psi_key_pair E d'" "vp_parties b = [name]" "vp_samplesFile b = content'"
      "vp_samplesIdName b = idName'" "\<not> vp_done b" "vp_reEncryptIDSetsFromOthers b = []" "vp_finalReEncryptIDSetsOfOthers b = []"
    using a b by (auto simp: NewVLTwoPartsPSI_def)
  from psi_request_ok[OF assms(1-3), of a k rows ids d b d'] fa fields obtain encA bA where
    A: "doubly E ids (psi_key_pair E d) (psi_key_pair E d') bA"
      "psi_request E r1 r2 a b = Inr (a\<lparr>vp_ids := ids, vp_rows := rows, vp_encIDs := encA,
        vp_reEncryptIDSetsFromOthers := [(name', bA)], vp_finalReEncIDs := bA\<rparr>,
        b\<lparr>vp_finalReEncryptIDSetsOfOthers := [(name, bA)]\<rparr>)" by (auto simp: LoadOrStore_def)
  let ?a = "a\<lparr>vp_ids := ids, vp_rows := rows, vp_encIDs := encA,
    vp_reEncryptIDSetsFromOthers := [(name', bA)], vp_finalReEncIDs := bA\<rparr>"
  from psi_request_ok[OF assms(1,4,5), of "b\<lparr>vp_finalReEncryptIDSetsOfOthers := [(name, bA)]\<rparr>" k' rows' ids' d' ?a d] fb fields
  obtain encB bB where
    B: "doubly E ids' (psi_key_pair E d') (psi_key_pair E d) bB"
      "psi_request E r3 r4 (b\<lparr>vp_finalReEncryptIDSetsOfOthers := [(name, bA)]\<rparr>) ?a =
       Inr (b\<lparr>vp_finalReEncryptIDSetsOfOthers := [(name, bA)], vp_ids := ids', vp_rows := rows', vp_encIDs := encB,
        vp_reEncryptIDSetsFromOthers := [(name, bB)], vp_finalReEncIDs := bB\<rparr>,
        ?a\<lparr>vp_finalReEncryptIDSetsOfOthers := [(name', bB)]\<rparr>)" by (auto simp: LoadOrStore_def)
  let ?a' = "?a\<lparr>vp_finalReEncryptIDSetsOfOthers := [(name', bB)]\<rparr>"
  let ?b' = "b\<lparr>vp_finalReEncryptIDSetsOfOthers := [(name, bA)], vp_ids := ids', vp_rows := rows', vp_encIDs := encB,
        vp_reEncryptIDSetsFromOthers := [(name, bB)], vp_finalReEncIDs := bB\<rparr>"
  have "psi_exchange E r1 r2 r3 r4 a b = Inr (?a', ?b')" using A(2) B(2) by (simp add: psi_exchange_def)
  moreover have "fst (TwoParts_IntersectParts E r prng ?a') = (if common = [] then Inl (Coded ErrCodePSIRearrangeFile)
      else Inr (True, aligned_rows k rows common, common))"
    using intersect_parts_ok[OF assms(1,6,7) sample_file_length[OF fb], of content ?a' k name' d d' bB common]
      fa fields A(1) B(1) inj common by simp
  moreover have "inj_on (double_label E d' d) (set ids' \<union> set ids)"
    using inj by (simp add: double_label_commute[OF assms(1), of d'] Un_commute)
  then have "fst (TwoParts_IntersectParts E r prng ?b') = (if common = [] then Inl (Coded ErrCodePSIRearrangeFile)
      else Inr (True, aligned_rows k' rows' common, common))"
    using intersect_parts_ok[OF assms(1,6,7) sample_file_length[OF fa], of content' ?b' k' name d' d bA common]
      fb fields A(1) B(1) common by (simp add: Int_commute)
  ultimately show ?thesis by blast
qed

lemma demo_orders: "arranges (rev :: 'a list \<Rightarrow> 'a list)" "arranges (\<lambda>x :: 'a list. x)"
  by (simp_all add: arranges_def)

lemma psi_two_parties_agree_witness:
  "\<exists>a b a' b'. NewVLTwoPartsPSI demo_curve (Some ''p'') ''alice'' ''A'' ''id'' [''bob''] = Inr a \<and>
     NewVLTwoPartsPSI demo_curve (Some ''q'') ''bob'' ''B'' ''id'' [''alice''] = Inr b \<and>
     psi_exchange demo_curve rev (\<lambda>x. x) rev rev a b = Inr (a', b') \<and>
     fst (TwoParts_IntersectParts demo_curve rev (\<lambda>x. x) a') = Inr (True, [[''x''], [''2'']], [''m'']) \<and>
     fst (TwoParts_IntersectParts demo_curve rev (\<lambda>x. x) b') = Inr (True, [[''y''], [''7'']], [''m''])"
proof -
  obtain a b where ab: "NewVLTwoPartsPSI demo_curve (Some ''p'') ''alice'' ''A'' ''id'' [''bob''] = Inr a"
    "NewVLTwoPartsPSI demo_curve (Some ''q'') ''bob'' ''B'' ''id'' [''alice''] = Inr b"
    by (simp add: NewVLTwoPartsPSI_def)
  have inj: "inj_on (double_label demo_curve ''p'' ''q'') (set [''k'', ''m''] \<union> set [''m'', ''n''])"
    by (rule inj_on_subset[OF demo_labels]) auto
  have "set [''k'', ''m''] \<inter> set [''m'', ''n''] = {''m''}" by auto
  then have c: "[''m''] = sorted_list_of_set (set [''k'', ''m''] \<inter> set [''m'', ''n''])" by simp
  from psi_two_parties_agree[OF demo_curve_laws demo_orders(1,2,1,1,1,2) ab demo_files(1,2) inj c] ab
  show ?thesis by (auto simp: aligned_rows_def drop_column_def sample_of_def)
qed

text \<open>
  C15: Many parties that intersect by pairs all end up with the identifiers that all their files have
  in common, in ascending order, with their own samples in that order. The pairs may exchange their
  sets in any order, and more than once, as long as every party has asked every other one. When there
  is no identifier in all files everybody gets an error.
\<close>
theorem psi_by_pairs_agree:
  assumes E: "curve_laws E" and ps: "distinct ps" "2 \<le> length ps"
    and new: "\<And>p. p \<in> set ps \<Longrightarrow>
      NewVLPSIByPairs E (Some (d p)) p (content p) (idName p) (filter (\<lambda>q. q \<noteq> p) ps) = Inr (st p)"
    and f: "\<And>p. p \<in> set ps \<Longrightarrow> sample_file E (content p) (idName p) (k p) (rows p) (ids p)"
    and inj: "\<And>p q. p \<in> set ps \<Longrightarrow> q \<in> set ps \<Longrightarrow> inj_on (double_label E (d p) (d q)) (set (ids p) \<union> set (ids q))"
    and rs: "asked ` set rs = {(p, q). p \<in> set ps \<and> q \<in> set ps \<and> p \<noteq> q}"
      "\<forall>(p, q, r, r') \<in> set rs. arranges r \<and> arranges r'"
    and orders: "arranges r" "arranges prng" "arranges prng'"
    and common: "common = sorted_list_of_set (\<Inter>p \<in> set ps. set (ids p))"
  shows "\<exists>st'. pairs_run E rs st = Inr st' \<and> (\<forall>p \<in> set ps. fst (ByPairs_IntersectParts E r prng prng' (st' p)) =
    (if common = [] then Inl (Coded ErrCodePSIRearrangeFile)
     else Inr (True, aligned_rows (k p) (rows p) common, common)))"
proof -
  obtain x y zs where xy: "ps = x # y # zs" using ps(2) by (cases ps; cases "tl ps") auto
  then have other: "\<exists>q \<in> set ps. q \<noteq> p" for p using ps(1) by (cases "p = x") auto
  have "party_ready E d content idName ps p (st p) \<and> holds_sets E d ids p {} (st p)" if p: "p \<in> set ps" for p
  proof -
    have "filter (\<lambda>q. q \<noteq> p) ps \<noteq> []" using other by (auto simp: filter_empty_conv)
    then have "party_ready E d content idName ps p vp \<and> holds_sets E d ids p {} vp"
      if "NewVLPSIByPairs E (Some (d p)) p (content p) (idName p) (filter (\<lambda>q. q \<noteq> p) ps) = Inr vp" for vp
      using that ps(1) by (auto simp: NewVLPSIByPairs_def party_ready_def holds_sets_def)
    from this[OF new[OF p]] show ?thesis .
  qed
  then have "pairs_inv E d content idName rows ids ps {} st" by (simp add: pairs_inv_def)
  moreover have "\<forall>(p, q, r, r') \<in> set rs. p \<in> set ps \<and> q \<in> set ps \<and> p \<noteq> q \<and> arranges r \<and> arranges r'"
  proof (clarify)
    fix p q r r'
    assume m: "(p, q, r, r') \<in> set rs"
    from imageI[OF m, of asked] have "p \<in> set ps" "q \<in> set ps" "p \<noteq> q" unfolding rs(1) by (simp_all add: asked_def)
    with bspec[OF rs(2) m] show "p \<in> set ps \<and> q \<in> set ps \<and> p \<noteq> q \<and> arranges r \<and> arranges r'" by simp
  qed
  moreover have "\<forall>p \<in> set ps. sample_file E (content p) (idName p) (k p) (rows p) (ids p)" using f by blast
  ultimately obtain st' where run: "pairs_run E rs st = Inr st'"
    and inv: "pairs_inv E d content idName rows ids ps (asked ` set rs) st'"
    using pairs_run_ok[OF E, of ps content idName k rows ids rs d "{}" st] by auto
  have "fst (ByPairs_IntersectParts E r prng prng' (st' p)) =
      (if common = [] then Inl (Coded ErrCodePSIRearrangeFile)
       else Inr (True, aligned_rows (k p) (rows p) common, common))" if p: "p \<in> set ps" for p
  proof -
    have ready: "party_ready E d content idName ps p (st' p)" and sets: "holds_sets E d ids p (asked ` set rs) (st' p)"
      and own: "vp_rows (st' p) = rows p" "vp_ids (st' p) = ids p"
      using inv p other[of p] by (auto simp: pairs_inv_def rs(1))
    have "pair_known E (d p) d ids (st' p) q" if "q \<in> set (vp_parties (st' p))" for q
    proof -
      from that ready have q: "q \<in> set ps" "q \<noteq> p" by (auto simp: party_ready_def)
      with sets p have "map_of (vp_reEncryptIDSetsFromOthers (st' p)) q \<noteq> None"
        "map_of (vp_finalReEncryptIDSetsOfOthers (st' p)) q \<noteq> None" by (auto simp: holds_sets_def rs(1))
      with sets q p inj sample_file_length[OF f[OF q(1)]] show ?thesis
        unfolding pair_known_def holds_sets_def own by blast
    qed
    moreover have "set (ids p) \<inter> (\<Inter>q \<in> set (vp_parties (st' p)). set (ids q)) = (\<Inter>p \<in> set ps. set (ids p))"
      using p ready by (auto simp: party_ready_def)
    moreover have "vp_parties (st' p) \<noteq> []" "distinct (vp_parties (st' p))" "\<not> vp_done (st' p)"
      "vp_middleIntersect (st' p) = []" "vp_samplesIdName (st' p) = idName p"
      using ready ps(1) other[of p] by (auto simp: party_ready_def filter_empty_conv)
    ultimately show ?thesis
      using pairs_intersect_ok[OF E orders, of "content p" "st' p" "k p" "d p" d ids common] f[OF p] common own by simp
  qed
  with run show ?thesis by blast
qed

lemma psi_by_pairs_agree_witness:
  "\<exists>st'. fst (ByPairs_IntersectParts demo_curve rev rev (\<lambda>x. x) (st' ''C'')) = Inr (True, [[], []], [''m''])"
proof -
  define content :: "string \<Rightarrow> bytes" where "content p = p" for p
  define k :: "string \<Rightarrow> nat" where "k p = (if p = ''B'' then 1 else 0)" for p
  define rows where "rows p = the (demo_csv p)" for p
  define ids where "ids p = map (\<lambda>row. row ! k p) (tl (rows p))" for p
  define st where "st p = projr (NewVLPSIByPairs demo_curve (Some p) p p ''id'' (filter (\<lambda>q. q \<noteq> p) [''A'', ''B'', ''C'']))" for p
  define rs :: "(string \<times> string \<times> map_order \<times> map_order) list"
    where "rs = map (\<lambda>(p, q). (p, q, rev, rev)) [(''A'', ''B''), (''C'', ''A''), (''B'', ''C''), (''B'', ''A''), (''A'', ''C''), (''C'', ''B'')]"
  have ids_val: "ids ''A'' = [''k'', ''m'']" "ids ''B'' = [''m'', ''n'']" "ids ''C'' = [''n'', ''m'']"
    by (simp_all add: ids_def rows_def k_def demo_csv_def)
  have new: "NewVLPSIByPairs demo_curve (Some p) p (content p) ''id'' (filter (\<lambda>q. q \<noteq> p) [''A'', ''B'', ''C'']) = Inr (st p)"
    if "p \<in> set [''A'', ''B'', ''C'']" for p
    using that by (auto simp: st_def NewVLPSIByPairs_def content_def)
  have files: "sample_file demo_curve (content p) ''id'' (k p) (rows p) (ids p)" if "p \<in> set [''A'', ''B'', ''C'']" for p
    using that demo_files by (auto simp: content_def k_def rows_def ids_val demo_csv_def)
  have inj: "inj_on (double_label demo_curve p q) (set (ids p) \<union> set (ids q))"
    if "p \<in> set [''A'', ''B'', ''C'']" "q \<in> set [''A'', ''B'', ''C'']" for p q
    by (rule inj_on_subset[OF demo_labels]) (use that in \<open>auto simp: ids_val\<close>)
  have asked: "asked ` set rs = {(p, q). p \<in> set [''A'', ''B'', ''C''] \<and> q \<in> set [''A'', ''B'', ''C''] \<and> p \<noteq> q}"
    by (auto simp: rs_def asked_def)
  have orders: "\<forall>(p, q, r, r') \<in> set rs. arranges r \<and> arranges r'"
    by (auto simp: rs_def demo_orders)
  have "(\<Inter>p \<in> set [''A'', ''B'', ''C'']. set (ids p)) = {''m''}" by (auto simp: ids_val)
  then have common: "[''m''] = sorted_list_of_set (\<Inter>p \<in> set [''A'', ''B'', ''C'']. set (ids p))" by simp
  from psi_by_pairs_agree[OF demo_curve_laws _ _ new files inj asked orders demo_orders(1,1,2) common] obtain st' where
    "fst (ByPairs_IntersectParts demo_curve rev rev (\<lambda>x. x) (st' ''C'')) = Inr (True, aligned_rows (k ''C'') (rows ''C'') [''m''], [''m''])"
    by auto
  moreover have "aligned_rows (k ''C'') (rows ''C'') [''m''] = [[], []]"
    by (simp add: aligned_rows_def drop_column_def sample_of_def k_def rows_def demo_csv_def)
  ultimately show ?thesis by auto
qed

end
