(* ===== verification/EngCrypt.thy ===== *)
theory EngCrypt
  imports XdbSign
begin

text \<open>
  How the storage network encrypts and cuts files: AES-GCM (\<^verbatim>\<open>crypto/core/aes/aes.go\<close>), the
  encryptor with derived keys (\<^verbatim>\<open>xdb/engine/encryptor/soft\<close>) and the slicer
  (\<^verbatim>\<open>xdb/engine/slicer/simple/slicer.go\<close>).
\<close>

section \<open>Results\<close>

text \<open>An error without a code counts as an internal error, as \<^verbatim>\<open>errorx.Parse\<close> has it.\<close>

definition recode :: "errcode \<Rightarrow> 'a result \<Rightarrow> 'a result" where
  "recode c r = (case r of Inl (Errx _) \<Rightarrow> Inl (Errx c) | _ \<Rightarrow> r)"

lemma rbind_ok: "rbind r f = Inr y \<longleftrightarrow> (\<exists>x. r = Inr x \<and> f x = Inr y)"
  by (simp add: rbind_def split: sum.splits)

lemma recode_ok [simp]: "recode c r = Inr y \<longleftrightarrow> r = Inr y" "recode c (Inr y) = Inr y"
  by (auto simp: recode_def split: sum.splits fault.splits)

section \<open>AES-GCM\<close>

text \<open>
  The ciphers are parameters: sealing and opening (key, nonce, data, additional data), and the key
  derivation HKDF with SHA-256 (secret, salt) to 32 bytes.
\<close>

record crypt =
  cr_env :: env
  hkdf :: "bytes \<Rightarrow> bytes \<Rightarrow> bytes"
  gcm_Seal :: "bytes \<Rightarrow> bytes \<Rightarrow> bytes \<Rightarrow> bytes \<Rightarrow> bytes"
  gcm_Open :: "bytes \<Rightarrow> bytes \<Rightarrow> bytes \<Rightarrow> bytes \<Rightarrow> bytes option"

record AESKey =
  ak_Key :: bytes
  ak_Nonce :: bytes
  ak_AD :: bytes

definition EncryptUsingAESGCM :: "crypt \<Rightarrow> AESKey \<Rightarrow> bytes \<Rightarrow> bytes result" where
  "EncryptUsingAESGCM K aesKey plaintext =
     (if length (ak_Key aesKey) \<notin> {16, 24, 32} then Inl (Errx ErrCodeInternal)
      else if length (ak_Nonce aesKey) \<noteq> 12 then Inl Panicked
      else Inr (gcm_Seal K (ak_Key aesKey) (ak_Nonce aesKey) plaintext (ak_AD aesKey)))"

definition DecryptUsingAESGCM :: "crypt \<Rightarrow> AESKey \<Rightarrow> bytes \<Rightarrow> bytes result" where
  "DecryptUsingAESGCM K aesKey ciphertext =
     (if length (ak_Key aesKey) \<notin> {16, 24, 32} then Inl (Errx ErrCodeInternal)
      else if length (ak_Nonce aesKey) \<noteq> 12 then Inl Panicked
      else case gcm_Open K (ak_Key aesKey) (ak_Nonce aesKey) ciphertext (ak_AD aesKey) of
          None \<Rightarrow> Inl (Errx ErrCodeInternal) | Some raw \<Rightarrow> Inr raw)"

section \<open>The encryptor\<close>

record SoftEncryptor =
  se_password :: string

definition NewSoftEncryptor :: "string \<Rightarrow> SoftEncryptor result" where
  "NewSoftEncryptor password =
     (if length password = 0 then Inl (Errx ErrCodeConfig) else Inr \<lparr>se_password = password\<rparr>)"

record EncryptOptions =
  eo_FileID :: string
  eo_SliceID :: string
  eo_NodeID :: bytes

record EncryptedSlice =
  es_SliceID :: string
  es_NodeID :: bytes
  es_CipherHash :: bytes
  es_Length :: "64 word"
  es_CipherText :: bytes

definition getKey :: "crypt \<Rightarrow> SoftEncryptor \<Rightarrow> string \<Rightarrow> string \<Rightarrow> bytes \<Rightarrow> bytes" where
  "getKey K se fileID sliceID nodeID = hkdf K (se_password se) (fileID @ sliceID @ nodeID)"

definition GetKey :: "crypt \<Rightarrow> SoftEncryptor \<Rightarrow> string \<Rightarrow> string \<Rightarrow> bytes \<Rightarrow> AESKey" where
  "GetKey K se fileID sliceID nodeID =
     \<lparr>ak_Key = getKey K se fileID sliceID nodeID,
      ak_Nonce = take 12 (sha256 (cr_env K) (fileID @ sliceID @ nodeID)), ak_AD = []\<rparr>"

definition SoftEncrypt :: "crypt \<Rightarrow> SoftEncryptor \<Rightarrow> bytes \<Rightarrow> EncryptOptions \<Rightarrow> EncryptedSlice result" where
  "SoftEncrypt K se plaintext opt =
     rbind (EncryptUsingAESGCM K (GetKey K se (eo_FileID opt) (eo_SliceID opt) (eo_NodeID opt)) plaintext)
       (\<lambda>ciphertext. Inr \<lparr>es_SliceID = eo_SliceID opt, es_NodeID = eo_NodeID opt,
          es_CipherHash = sha256 (cr_env K) ciphertext, es_Length = of_nat (length ciphertext),
          es_CipherText = ciphertext\<rparr>)"

text \<open>The options of the recovery are the three fields of the options of the encryption.\<close>

definition Recover :: "crypt \<Rightarrow> SoftEncryptor \<Rightarrow> bytes \<Rightarrow> EncryptOptions \<Rightarrow> bytes result" where
  "Recover K se ciphertext opt =
     DecryptUsingAESGCM K (GetKey K se (eo_FileID opt) (eo_SliceID opt) (eo_NodeID opt)) ciphertext"

text \<open>
  What is used of the ciphers: the sizes of digests and derived keys, that sealing adds a tag of 16
  bytes, and that exactly the sealed texts open, to what was sealed.
\<close>

definition crypt_laws :: "crypt \<Rightarrow> bool" where
  "crypt_laws K \<longleftrightarrow> (\<forall>b. length (sha256 (cr_env K) b) = 32) \<and> (\<forall>s t. length (hkdf K s t) = 32) \<and>
     (\<forall>k n p a. length (gcm_Seal K k n p a) = length p + 16) \<and>
     (\<forall>k n c a p. gcm_Open K k n c a = Some p \<longleftrightarrow> c = gcm_Seal K k n p a)"

definition sealed :: "crypt \<Rightarrow> SoftEncryptor \<Rightarrow> EncryptOptions \<Rightarrow> bytes \<Rightarrow> bytes" where
  "sealed K se opt p = (let k = GetKey K se (eo_FileID opt) (eo_SliceID opt) (eo_NodeID opt)
     in gcm_Seal K (ak_Key k) (ak_Nonce k) p (ak_AD k))"

lemma key_sizes: "crypt_laws K \<Longrightarrow> length (ak_Key (GetKey K se f s n)) = 32"
  "crypt_laws K \<Longrightarrow> length (ak_Nonce (GetKey K se f s n)) = 12"
  by (simp_all add: crypt_laws_def GetKey_def getKey_def)

lemma length_sealed: "crypt_laws K \<Longrightarrow> length (sealed K se opt p) = length p + 16"
  by (simp add: sealed_def crypt_laws_def Let_def)

lemma SoftEncrypt_sealed:
  "crypt_laws K \<Longrightarrow> SoftEncrypt K se p opt = Inr \<lparr>es_SliceID = eo_SliceID opt, es_NodeID = eo_NodeID opt,
     es_CipherHash = sha256 (cr_env K) (sealed K se opt p), es_Length = of_nat (length (sealed K se opt p)),
     es_CipherText = sealed K se opt p\<rparr>"
  by (simp add: SoftEncrypt_def EncryptUsingAESGCM_def key_sizes sealed_def Let_def)

lemma Recover_sealed: "crypt_laws K \<Longrightarrow> Recover K se c opt = Inr p \<longleftrightarrow> c = sealed K se opt p"
proof -
  assume K: "crypt_laws K"
  then have o: "gcm_Open K k n c a = Some p \<longleftrightarrow> c = gcm_Seal K k n p a" for k n a by (simp add: crypt_laws_def)
  have "(case x of None \<Rightarrow> Inl (Errx ErrCodeInternal) | Some raw \<Rightarrow> Inr raw) = Inr p \<longleftrightarrow> x = Some p" for x
    by (simp split: option.split)
  with K show ?thesis by (simp add: Recover_def DecryptUsingAESGCM_def key_sizes sealed_def Let_def o)
qed

section \<open>The slicer\<close>

record SimpleSlicer =
  ss_blockSize :: "32 word"
  ss_queueSize :: "32 word"

definition NewSimpleSlicer :: "int64 \<Rightarrow> int64 \<Rightarrow> SimpleSlicer" where
  "NewSimpleSlicer confBlockSize confQueueSize =
     (let blockSize = ucast confBlockSize :: 32 word; blockSize = (if blockSize = 0 then 4 * 1024 * 1024 else blockSize);
          queueSize = ucast confQueueSize :: 32 word; queueSize = (if queueSize = 0 then 4 else queueSize)
      in \<lparr>ss_blockSize = blockSize, ss_queueSize = queueSize\<rparr>)"

record SliceMeta =
  sl_ID :: string
  sl_Hash :: bytes
  sl_Length :: "64 word"

record Slice = SliceMeta +
  sl_Data :: bytes

definition makeSlice :: "env \<Rightarrow> string \<Rightarrow> bytes \<Rightarrow> Slice" where
  "makeSlice E uuid bs = \<lparr>sl_ID = uuid, sl_Hash = sha256 E bs, sl_Length = of_nat (length bs), sl_Data = bs\<rparr>"

text \<open>
  The reading loop on what is left of the text: a full block, the rest of the text in a block that is
  zero behind it, or the end. The identifiers are drawn by the system. With blocks of size zero the
  loop does not end, which is \<open>None\<close>.
\<close>

partial_function (option) Slice_loop :: "env \<Rightarrow> nat \<Rightarrow> (nat \<Rightarrow> string) \<Rightarrow> nat \<Rightarrow> bytes \<Rightarrow> Slice list option" where
  "Slice_loop E bs uuid i r =
     (if bs \<le> length r
      then Option.bind (Slice_loop E bs uuid (i + 1) (drop bs r)) (\<lambda>ss. Some (makeSlice E (uuid i) (take bs r) # ss))
      else if r \<noteq> [] then Some [makeSlice E (uuid i) (r @ replicate (bs - length r) (CHR 0x00))]
      else Some [])"

declare Slice_loop.simps [code]

definition SimpleSlice :: "env \<Rightarrow> SimpleSlicer \<Rightarrow> (nat \<Rightarrow> string) \<Rightarrow> bytes \<Rightarrow> Slice list option" where
  "SimpleSlice E ss uuid r = Slice_loop E (unat (ss_blockSize ss)) uuid 0 r"

lemma slicer_block_size: "0 < unat (ss_blockSize (NewSimpleSlicer b q))"
  by (auto simp: NewSimpleSlicer_def Let_def unat_gt_0)

text \<open>Cutting: blocks of the size but for the last one.\<close>

fun chunks :: "nat \<Rightarrow> 'a list \<Rightarrow> 'a list list" where
  "chunks bs r = (if r = [] \<or> bs = 0 then [] else take bs r # chunks bs (drop bs r))"

declare chunks.simps [simp del]

definition pad_block :: "nat \<Rightarrow> bytes \<Rightarrow> bytes" where
  "pad_block bs c = c @ replicate (bs - length c) (CHR 0x00)"

lemma chunks_Nil [simp]: "chunks bs [] = []"
  by (simp add: chunks.simps)

lemma concat_chunks: "0 < bs \<Longrightarrow> concat (chunks bs r) = r"
proof (induction bs r rule: chunks.induct)
  case (1 bs r)
  then show ?case by (cases "r = []") (simp_all add: chunks.simps[of bs r])
qed

lemma chunks_short: "r \<noteq> [] \<Longrightarrow> length r \<le> bs \<Longrightarrow> chunks bs r = [r]"
  by (subst chunks.simps) (cases bs; simp)

text \<open>The slicer ends for every block size it is made with, and its slices are the padded blocks.\<close>

lemma Slice_loop_chunks:
  "0 < bs \<Longrightarrow> \<exists>ss. Slice_loop E bs uuid i r = Some ss \<and> map sl_Data ss = map (pad_block bs) (chunks bs r) \<and>
     map sl_ID ss = map uuid [i ..< i + length ss] \<and> (\<forall>s \<in> set ss. sl_Hash s = sha256 E (sl_Data s))"
proof (induction "length r" arbitrary: r i rule: less_induct)
  case less
  consider "r = []" | "r \<noteq> []" "length r < bs" | "bs \<le> length r" "r \<noteq> []" using less.prems by fastforce
  then show ?case
  proof cases
    case 1
    then show ?thesis using less.prems by (subst Slice_loop.simps) simp
  next
    case 2
    then show ?thesis
      by (subst Slice_loop.simps) (simp add: chunks_short makeSlice_def pad_block_def)
  next
    case 3
    with less.prems have "length (drop bs r) < length r" by simp
    from less.hyps[OF this less.prems, of "i + 1"] obtain ss where
      ss: "Slice_loop E bs uuid (i + 1) (drop bs r) = Some ss" "map sl_Data ss = map (pad_block bs) (chunks bs (drop bs r))"
        "map sl_ID ss = map uuid [i + 1 ..< i + 1 + length ss]" "\<forall>s \<in> set ss. sl_Hash s = sha256 E (sl_Data s)" by blast
    have "chunks bs r = take bs r # chunks bs (drop bs r)" using 3 less.prems by (subst chunks.simps) simp
    moreover have "[i ..< i + Suc (length ss)] = i # [i + 1 ..< i + 1 + length ss]" by (simp add: upt_rec)
    moreover have "Slice_loop E bs uuid i r = Some (makeSlice E (uuid i) (take bs r) # ss)"
      using 3 ss(1) by (subst Slice_loop.simps) simp
    ultimately show ?thesis using ss 3 by (simp add: makeSlice_def pad_block_def)
  qed
qed

end
