(* ===== verification/EngStore.thy ===== *)
theory EngStore
  imports EngCrypt MerkleTree
begin

text \<open>
  What is published of a file (\<^verbatim>\<open>xdb/engine/internal.go\<close>), how it is read back by its owner
  (\<^verbatim>\<open>xdb/engine/handler_read.go\<close>, \<^verbatim>\<open>token.go\<close>) and by an executor that has been authorized
  (\<^verbatim>\<open>dai/executor/handler/file.go\<close>).
\<close>

section \<open>The engine and what it reaches\<close>

text \<open>
  The ciphers, the encryptor, the public key of the node; whether the file of an authorized client
  key exists, and whether 64 bytes are a point of the curve.
\<close>

record engine =
  en_K :: crypt
  en_soft :: SoftEncryptor
  en_pubkey :: bytes
  en_key_file :: "string \<Rightarrow> bool"
  en_on_curve :: "bytes \<Rightarrow> bool"

text \<open>The queries of the chain that reading makes, and pulling a slice from a node.\<close>

record chain_reads =
  cr_ListNodes :: "Node list result"
  cr_GetFileByID :: "string \<Rightarrow> File result"
  cr_GetFileByName :: "bytes \<Rightarrow> string \<Rightarrow> string \<Rightarrow> File result"

text \<open>Node, slice identifier, storage index, file identifier; \<open>None\<close> when the pull fails.\<close>

type_synonym net_pull = "Node \<Rightarrow> string \<Rightarrow> string \<Rightarrow> string \<Rightarrow> bytes option"

abbreviation "en_E en \<equiv> cr_env (en_K en)"

definition ToNodesMap :: "Node list \<Rightarrow> bytes \<Rightarrow> Node option" where
  "ToNodesMap nodes = fold (\<lambda>n m. if nd_Online n then m(nd_ID n \<mapsto> n) else m) nodes Map.empty"

section \<open>The structure of a file\<close>

record PrivateSliceMeta =
  pm_SliceID :: string
  pm_PlainHash :: bytes

definition enc_PrivateSliceMeta :: "PrivateSliceMeta \<Rightarrow> json" where
  "enc_PrivateSliceMeta p = JObj [(''sliceID'', JStr (pm_SliceID p)), (''plainHash'', enc_bytes (pm_PlainHash p))]"

definition dec_PrivateSliceMeta :: "json \<Rightarrow> PrivateSliceMeta option" where
  "dec_PrivateSliceMeta = dec_struct (\<lambda>kvs.
     Option.bind (fld dec_str [] ''sliceID'' kvs) (\<lambda>v0.
     Option.bind (fld dec_bytes [] ''plainHash'' kvs) (\<lambda>v1.
     Some \<lparr>pm_SliceID = v0, pm_PlainHash = v1\<rparr>)))"

lemma dec_enc_PrivateSliceMeta [json_rt, simp]: "dec_PrivateSliceMeta (enc_PrivateSliceMeta p) = Some p"
  by (cases p) (simp add: dec_PrivateSliceMeta_def enc_PrivateSliceMeta_def dec_struct_def fld_def json_rt)

text \<open>\<^verbatim>\<open>FileStructure.Marshal\<close> of a list that was made, so never null, and \<^verbatim>\<open>Parse\<close>.\<close>

definition FileStructure_Marshal :: "PrivateSliceMeta list \<Rightarrow> bytes" where
  "FileStructure_Marshal f = json_text (JArr (map enc_PrivateSliceMeta f))"

definition FileStructure_Parse :: "env \<Rightarrow> bytes \<Rightarrow> PrivateSliceMeta list option" where
  "FileStructure_Parse E bs = Option.bind (parse_json E bs) (dec_list dec_PrivateSliceMeta)"

definition file_opts :: "string \<Rightarrow> EncryptOptions" where
  "file_opts fileID = \<lparr>eo_FileID = fileID, eo_SliceID = [], eo_NodeID = []\<rparr>"

definition packChainFileStructure :: "engine \<Rightarrow> ('z SliceMeta_scheme) list \<Rightarrow> string \<Rightarrow> bytes result" where
  "packChainFileStructure en originalSlices fileID =
     (let raw = FileStructure_Marshal (map (\<lambda>s. \<lparr>pm_SliceID = sl_ID s, pm_PlainHash = sl_Hash s\<rparr>) originalSlices) in
      rbind (SoftEncrypt (en_K en) (en_soft en) raw (file_opts fileID)) (\<lambda>es. Inr (es_CipherText es)))"

definition recoverChainFileStructure :: "engine \<Rightarrow> bytes \<Rightarrow> string \<Rightarrow> PrivateSliceMeta list result" where
  "recoverChainFileStructure en bs fileID =
     rbind (Recover (en_K en) (en_soft en) bs (file_opts fileID)) (\<lambda>decStruct.
     case FileStructure_Parse (en_E en) decStruct of None \<Rightarrow> Inl (Errx ErrCodeInternal) | Some fs \<Rightarrow> Inr fs)"

section \<open>What is published\<close>

definition swap_at :: "nat \<Rightarrow> nat \<Rightarrow> 'a list \<Rightarrow> 'a list" where
  "swap_at j k xs = xs[j := xs ! k, k := xs ! j]"

text \<open>One swap for every slice, of two positions that the system draws (below the number of slices).\<close>

fun rearrange_loop :: "(nat \<times> nat) list \<Rightarrow> EncryptedSlice list \<Rightarrow> string list \<Rightarrow> EncryptedSlice list \<times> string list" where
  "rearrange_loop [] encryptedSlices storeIndexes = (encryptedSlices, storeIndexes)"
| "rearrange_loop ((j, k) # draws) encryptedSlices storeIndexes =
     (let num = length encryptedSlices in
      rearrange_loop draws (swap_at (j mod num) (k mod num) encryptedSlices) (swap_at (j mod num) (k mod num) storeIndexes))"

definition rearrangeEncSlices :: "(nat \<times> nat) list \<Rightarrow> EncryptedSlice list \<Rightarrow> string list \<Rightarrow> EncryptedSlice list \<times> string list" where
  "rearrangeEncSlices draws encryptedSlices storeIndexes =
     rearrange_loop (take (length encryptedSlices) draws) encryptedSlices storeIndexes"

record PairingChallengeConf =
  pc_Privkey :: bytes
  pc_Pubkey :: bytes
  pc_RandU :: bytes
  pc_RandV :: bytes

text \<open>The list of slices on the chain; with pairing challenges the slices of a node are numbered.\<close>

fun chain_slices :: "bool \<Rightarrow> (bytes \<Rightarrow> int64 option) \<Rightarrow> (EncryptedSlice \<times> string) list \<Rightarrow> PublicSliceMeta list" where
  "chain_slices pairing sliceIdxMap [] = []"
| "chain_slices pairing sliceIdxMap ((s, storIndex) # r) =
     (let idx = (case sliceIdxMap (es_NodeID s) of None \<Rightarrow> 1 | Some i \<Rightarrow> i + 1);
          sliceIdxMap = (if pairing then sliceIdxMap(es_NodeID s \<mapsto> idx) else sliceIdxMap) in
      \<lparr>sm_ID = es_SliceID s, sm_CipherHash = es_CipherHash s, sm_Length = es_Length s, sm_NodeID = es_NodeID s,
       sm_StorIndex = storIndex, sm_SliceIdx = (if pairing then idx else 0)\<rparr> # chain_slices pairing sliceIdxMap r)"

definition calculateMerkleRoot :: "env \<Rightarrow> ('z SliceMeta_scheme) list \<Rightarrow> bytes result" where
  "calculateMerkleRoot E slices =
     rbind (GetMerkleRoot E (map (\<lambda>s. Some (sl_Hash s)) slices)) (\<lambda>root. case root of None \<Rightarrow> Inr [] | Some h \<Rightarrow> Inr h)"

record WriteOptions =
  wo_User :: string
  wo_Namespace :: string
  wo_FileName :: string
  wo_ExpireTime :: int64
  wo_Description :: string
  wo_Extra :: string
  wo_Token :: string

definition owner_bytes :: "string \<Rightarrow> bytes" where
  "owner_bytes user = (case hexDecode user of Some b \<Rightarrow> b | None \<Rightarrow> [])"

definition packChainFile :: "engine \<Rightarrow> (nat \<times> nat) list \<Rightarrow> int64 \<Rightarrow> string \<Rightarrow> string \<Rightarrow> WriteOptions \<Rightarrow>
    ('z SliceMeta_scheme) list \<Rightarrow> nat \<Rightarrow> EncryptedSlice list \<Rightarrow> string list \<Rightarrow> PairingChallengeConf \<Rightarrow> File result" where
  "packChainFile en draws now fileID challengeAlgorithm opt originalSlices originalLen encryptedSlices storIndexes pairingConf =
     (let (randEncSlices, randStorIndexes) = rearrangeEncSlices draws encryptedSlices storIndexes;
          pairing = (challengeAlgorithm = ''Pairing'');
          chainSlices = chain_slices pairing Map.empty (zip randEncSlices randStorIndexes) in
      rbind (packChainFileStructure en originalSlices fileID) (\<lambda>structure.
      rbind (calculateMerkleRoot (en_E en) originalSlices) (\<lambda>merkleRoot.
      Inr \<lparr>f_ID = fileID, f_Name = wo_FileName opt, f_Description = wo_Description opt, f_Namespace = wo_Namespace opt,
           f_Owner = owner_bytes (wo_User opt), f_Length = of_nat originalLen, f_MerkleRoot = merkleRoot,
           f_Slices = chainSlices, f_Structure = structure, f_PublishTime = now, f_ExpireTime = wo_ExpireTime opt,
           f_PdpPubkey = (if pairing then pc_Pubkey pairingConf else []),
           f_RandU = (if pairing then pc_RandU pairingConf else []),
           f_RandV = (if pairing then pc_RandV pairingConf else []), f_Ext = wo_Extra opt\<rparr>)))"

section \<open>Who may read\<close>

definition verifyUserToken :: "engine \<Rightarrow> string \<Rightarrow> string \<Rightarrow> bytes \<Rightarrow> unit result" where
  "verifyUserToken en userID token digest =
     (case hexDecode userID of None \<Rightarrow> Inl (Errx ErrCodeParam)
      | Some pubkey \<Rightarrow>
          if length pubkey \<noteq> 64 \<or> \<not> en_on_curve en pubkey then Inl (Errx ErrCodeParam)
          else case hexDecode token of None \<Rightarrow> Inl (Errx ErrCodeParam)
            | Some sig \<Rightarrow>
                if length sig \<noteq> 64 then Inl (Errx ErrCodeParam)
                else if \<not> ecdsa_verify (en_E en) pubkey digest sig then Inl (Errx ErrCodeBadSignature)
                else Inr ())"

definition verifyUserIDIsLocalNodeID :: "engine \<Rightarrow> string \<Rightarrow> unit result" where
  "verifyUserIDIsLocalNodeID en userID =
     (if userID \<noteq> hex (en_pubkey en) then Inl (Errx ErrCodeNotAuthorized) else Inr ())"

definition verifyUserID :: "engine \<Rightarrow> string \<Rightarrow> unit result" where
  "verifyUserID en userID =
     (if en_key_file en (hex (sha256 (en_E en) userID)) then Inr () else verifyUserIDIsLocalNodeID en userID)"

record ReadOptions =
  ro_User :: string
  ro_Timestamp :: int64
  ro_Namespace :: string
  ro_FileName :: string
  ro_FileID :: string
  ro_Token :: string

definition enc_ReadOptions :: "ReadOptions \<Rightarrow> json" where
  "enc_ReadOptions o' = JObj
     [(''user'', JStr (ro_User o')), (''timestamp'', enc_int (ro_Timestamp o')), (''ns'', JStr (ro_Namespace o')),
      (''name'', JStr (ro_FileName o')), (''file_id'', JStr (ro_FileID o'))]"

text \<open>A request may be five minutes old.\<close>

definition verifyReadToken :: "engine \<Rightarrow> int64 \<Rightarrow> ReadOptions \<Rightarrow> unit result" where
  "verifyReadToken en now opt =
     (if ro_Timestamp opt <s now - 300000000000 then Inl (Errx ErrCodeParam)
      else case GetSigMessage (enc_ReadOptions opt) of None \<Rightarrow> Inl (Errx ErrCodeInternal)
        | Some msg \<Rightarrow> verifyUserToken en (ro_User opt) (ro_Token opt) (sha256 (en_E en) msg))"

section \<open>Pulling slices\<close>

definition makeSlicesPool4Read :: "PublicSliceMeta list \<Rightarrow> string \<Rightarrow> PublicSliceMeta list option" where
  "makeSlicesPool4Read srs = (\<lambda>i. if \<exists>s \<in> set srs. sm_ID s = i then Some (filter (\<lambda>s. sm_ID s = i) srs) else None)"

text \<open>
  The targets of a slice in turn, up to the first one that is online, answers, has the length and the
  hash of the record and decrypts; \<open>open_slice\<close> decrypts what a target has sent.
\<close>

fun pull_targets :: "env \<Rightarrow> (bytes \<Rightarrow> Node option) \<Rightarrow> net_pull \<Rightarrow> string \<Rightarrow> (PublicSliceMeta \<Rightarrow> Node \<Rightarrow> bytes \<Rightarrow> bytes result) \<Rightarrow>
    PublicSliceMeta list \<Rightarrow> bytes option result" where
  "pull_targets E nodesMap pull fileID open_slice [] = Inr None"
| "pull_targets E nodesMap pull fileID open_slice (target # targetPool) =
     (let continue = pull_targets E nodesMap pull fileID open_slice targetPool in
      case nodesMap (sm_NodeID target) of None \<Rightarrow> continue
      | Some node \<Rightarrow>
          if \<not> nd_Online node then continue
          else (case pull node (sm_ID target) (sm_StorIndex target) fileID of None \<Rightarrow> continue
            | Some cipherText \<Rightarrow>
                if int (length cipherText) \<noteq> sint (sm_Length target) then continue
                else if sha256 E cipherText \<noteq> sm_CipherHash target then continue
                else (case open_slice target node cipherText of
                    Inl Panicked \<Rightarrow> Inl Panicked
                  | Inl (Errx e) \<Rightarrow> continue
                  | Inr plainText \<Rightarrow> Inr (Some plainText))))"

text \<open>
  The tasks of the sliding window and the writing of their data, in order: \<open>trim\<close> is what is cut off
  the data of the slice with the index, counted from the end.
\<close>

fun read_slices :: "(string \<Rightarrow> PublicSliceMeta list option) \<Rightarrow> (PublicSliceMeta list \<Rightarrow> bytes option result) \<Rightarrow>
    (nat \<Rightarrow> bytes \<Rightarrow> bytes) \<Rightarrow> PrivateSliceMeta list \<Rightarrow> bytes result" where
  "read_slices slicesPool pull_slice trim [] = Inr []"
| "read_slices slicesPool pull_slice trim (s # fs) =
     (case slicesPool (pm_SliceID s) of None \<Rightarrow> Inl (Errx ErrCodeInternal)
      | Some targetPool \<Rightarrow>
          rbind (pull_slice targetPool) (\<lambda>data. case data of None \<Rightarrow> Inl (Errx ErrCodeNotFound)
            | Some d \<Rightarrow> rbind (read_slices slicesPool pull_slice trim fs) (\<lambda>r. Inr (trim (length fs) d @ r))))"

section \<open>Reading by the owner\<close>

definition getBlockchainFile4Read :: "engine \<Rightarrow> chain_reads \<Rightarrow> ReadOptions \<Rightarrow> File result" where
  "getBlockchainFile4Read en C opt =
     (if length (ro_FileID opt) > 0 then cr_GetFileByID C (ro_FileID opt)
      else cr_GetFileByName C (owner_bytes (ro_User opt)) (ro_Namespace opt) (ro_FileName opt))"

text \<open>
  \<^verbatim>\<open>fileCiphertext[:n]\<close>: within its capacity a slice can be extended beyond its length; the spare
  bytes of the buffer are zero.
\<close>

definition cut_to :: "nat \<Rightarrow> 64 word \<Rightarrow> bytes \<Rightarrow> bytes result" where
  "cut_to spare n c =
     (if unat n \<le> length c then Inr (take (unat n) c)
      else if unat n \<le> length c + spare then Inr (c @ replicate (unat n - length c) (CHR 0x00))
      else Inl Panicked)"

text \<open>
  \<open>None\<close> when the call does not return: with an empty structure nothing closes the pipe.
\<close>

definition Read :: "engine \<Rightarrow> chain_reads \<Rightarrow> net_pull \<Rightarrow> int64 \<Rightarrow> nat \<Rightarrow> ReadOptions \<Rightarrow> bytes result option" where
  "Read en C pull now spare opt =
     (case rbind (verifyUserID en (ro_User opt)) (\<lambda>_.
           rbind (verifyReadToken en now opt) (\<lambda>_.
           rbind (cr_ListNodes C) (\<lambda>allNodes.
           let nodes = filter nd_Online allNodes; opt = opt\<lparr>ro_User := hex (en_pubkey en)\<rparr> in
           if nodes = [] then Inl (Errx ErrCodeInternal)
           else rbind (getBlockchainFile4Read en C opt) (\<lambda>f.
             if ro_User opt \<noteq> hex (f_Owner f) then Inl (Errx ErrCodeNotAuthorized)
             else rbind (recoverChainFileStructure en (f_Structure f) (f_ID f)) (\<lambda>fs. Inr (ToNodesMap nodes, f, fs))))))
      of Inl e \<Rightarrow> Some (Inl e)
      | Inr (nodesMap, f, fs) \<Rightarrow>
          if fs = [] then None
          else Some (
            rbind (recode ErrCodeInternal (read_slices (makeSlicesPool4Read (f_Slices f))
                (pull_targets (en_E en) nodesMap pull (f_ID f) (\<lambda>target node c.
                   Recover (en_K en) (en_soft en) c \<lparr>eo_FileID = f_ID f, eo_SliceID = sm_ID target, eo_NodeID = sm_NodeID target\<rparr>))
                (\<lambda>_ d. TrimRight d (CHR 0x00)) fs)) (\<lambda>fileCiphertext.
            rbind (cut_to spare (f_Length f + 16) fileCiphertext) (\<lambda>c.
            recode ErrCodeCrypto (Recover (en_K en) (en_soft en) c (file_opts (f_ID f)))))))"

section \<open>Reading by an authorized executor\<close>

type_synonym slice_keys = "string \<Rightarrow> (bytes \<Rightarrow> AESKey option) option"

text \<open>
  The keys that the owner hands out with an authorization: the key of the file and of its structure,
  and the keys of the slices on their nodes.
\<close>

definition getAuthKey :: "engine \<Rightarrow> chain_reads \<Rightarrow> string \<Rightarrow> int64 \<Rightarrow> (AESKey \<times> slice_keys) result" where
  "getAuthKey en C fileID expireTime =
     rbind (cr_GetFileByID C fileID) (\<lambda>f.
     if f_ExpireTime f <s expireTime then Inl (Errx ErrCodeParam)
     else let firstEncSecret = GetKey (en_K en) (en_soft en) fileID [] [];
              slicesPool = makeSlicesPool4Read (f_Slices f);
              secondEncSecret = (\<lambda>sliceID. map_option (\<lambda>targetPools. \<lambda>nodeID.
                if \<exists>s \<in> set targetPools. sm_NodeID s = nodeID
                then Some (GetKey (en_K en) (en_soft en) fileID sliceID nodeID) else None) (slicesPool sliceID))
          in Inr (firstEncSecret, secondEncSecret))"

text \<open>A key that is not in the map is the zero key.\<close>

definition slice_key :: "slice_keys \<Rightarrow> string \<Rightarrow> bytes \<Rightarrow> AESKey" where
  "slice_key secKey sliceID nodeID =
     (case secKey sliceID of None \<Rightarrow> \<lparr>ak_Key = [], ak_Nonce = [], ak_AD = []\<rparr>
      | Some m \<Rightarrow> (case m nodeID of None \<Rightarrow> \<lparr>ak_Key = [], ak_Nonce = [], ak_AD = []\<rparr> | Some k \<Rightarrow> k))"

definition recover_GCM :: "crypt \<Rightarrow> AESKey \<Rightarrow> bytes \<Rightarrow> bytes result" where
  "recover_GCM K aesKey ciphertext = recode ErrCodeInternal (DecryptUsingAESGCM K aesKey ciphertext)"

definition exec_recoverChainFileStructure :: "crypt \<Rightarrow> AESKey \<Rightarrow> bytes \<Rightarrow> PrivateSliceMeta list result" where
  "exec_recoverChainFileStructure K aesKey structure =
     rbind (recode ErrCodeInternal (DecryptUsingAESGCM K aesKey structure)) (\<lambda>decStruct.
     case FileStructure_Parse (cr_env K) decStruct of None \<Rightarrow> Inl (Errx ErrCodeInternal) | Some fs \<Rightarrow> Inr fs)"

text \<open>Zeros are cut off the last slice only.\<close>

definition recoverFile :: "crypt \<Rightarrow> chain_reads \<Rightarrow> net_pull \<Rightarrow> File \<Rightarrow> AESKey \<Rightarrow> slice_keys \<Rightarrow> bytes result option" where
  "recoverFile K C pull f firstKey secKey =
     (case rbind (cr_ListNodes C) (\<lambda>allNodes.
           let nodes = filter nd_Online allNodes in
           if nodes = [] then Inl (Errx ErrCodeInternal)
           else rbind (exec_recoverChainFileStructure K firstKey (f_Structure f)) (\<lambda>fs. Inr (ToNodesMap nodes, fs)))
      of Inl e \<Rightarrow> Some (Inl e)
      | Inr (nodesMap, fs) \<Rightarrow>
          if fs = [] then None
          else Some (
            rbind (recode ErrCodeInternal (read_slices (makeSlicesPool4Read (f_Slices f))
                (pull_targets (cr_env K) nodesMap pull (f_ID f) (\<lambda>target node c.
                   recover_GCM K (slice_key secKey (sm_ID target) (nd_ID node)) c))
                (\<lambda>left d. if left \<noteq> 0 then d else TrimRight d (CHR 0x00)) fs)) (\<lambda>fileCipherText.
            recode ErrCodeCrypto (recover_GCM K firstKey fileCipherText))))"

end
