(* ===== verification/EngStorage.thy ===== *)
theory EngStorage
  imports EngStore
begin

text \<open>
  The storage node: its slice storage on the local disk (\<^verbatim>\<open>xdb/storage/local/local.go\<close>), the
  handlers that take and serve slices (\<^verbatim>\<open>xdb/engine/handler.go\<close>), and the calls that reach
  them over the network (\<^verbatim>\<open>xdb/engine/copier/random/copier.go\<close>).
\<close>

section \<open>The disk\<close>

text \<open>
  The files below the root path of a storage by their names. What the operating system makes of one
  call is drawn: whether the file can be examined, opened or removed, and after how many bytes
  copying to it breaks off.
\<close>

type_synonym files = "string \<Rightarrow> bytes option"

record disk =
  dk_stat :: bool
  dk_open :: bool
  dk_broken :: "nat option"

definition fine :: disk where
  "fine = \<lparr>dk_stat = True, dk_open = True, dk_broken = None\<rparr>"

definition io_Copy :: "disk \<Rightarrow> string \<Rightarrow> bytes \<Rightarrow> files \<Rightarrow> unit result \<times> files" where
  "io_Copy d k v fs =
     (case dk_broken d of None \<Rightarrow> (Inr (), fs(k \<mapsto> v))
      | Some n \<Rightarrow> (Inl (Errx ErrCodeInternal), fs(k \<mapsto> take n v)))"

text \<open>\<open>valid\<close> is \<^verbatim>\<open>uuid.Parse\<close>, which names without a path separator pass.\<close>

definition local_Exist :: "(string \<Rightarrow> bool) \<Rightarrow> disk \<Rightarrow> string \<Rightarrow> files \<Rightarrow> bool result" where
  "local_Exist valid d k fs =
     (if \<not> valid k then Inl (Errx ErrCodeParam)
      else if \<not> dk_stat d then Inl (Errx ErrCodeInternal) else Inr (fs k \<noteq> None))"

definition local_Save :: "(string \<Rightarrow> bool) \<Rightarrow> disk \<Rightarrow> string \<Rightarrow> bytes \<Rightarrow> files \<Rightarrow> unit result \<times> files" where
  "local_Save valid d k v fs =
     (if \<not> valid k then (Inl (Errx ErrCodeParam), fs)
      else case local_Exist valid d k fs of Inl e \<Rightarrow> (Inl e, fs)
        | Inr exist \<Rightarrow>
            if exist then (Inl (Errx ErrCodeAlreadyExists), fs)
            else if \<not> dk_open d then (Inl (Errx ErrCodeInternal), fs)
            else io_Copy d k v fs)"

definition local_Load :: "(string \<Rightarrow> bool) \<Rightarrow> disk \<Rightarrow> string \<Rightarrow> files \<Rightarrow> bytes result" where
  "local_Load valid d k fs =
     (if \<not> valid k then Inl (Errx ErrCodeParam)
      else rbind (local_Exist valid d k fs) (\<lambda>exist.
        if \<not> exist then Inl (Errx ErrCodeNotFound)
        else if \<not> dk_open d then Inl (Errx ErrCodeInternal)
        else case fs k of None \<Rightarrow> Inl (Errx ErrCodeInternal) | Some v \<Rightarrow> Inr v))"

definition local_Delete :: "(string \<Rightarrow> bool) \<Rightarrow> disk \<Rightarrow> string \<Rightarrow> files \<Rightarrow> bool result \<times> files" where
  "local_Delete valid d k fs =
     (if \<not> valid k then (Inl (Errx ErrCodeParam), fs)
      else if \<not> dk_open d \<or> fs k = None then (Inl (Errx ErrCodeInternal), fs)
      else (Inr True, fs(k := None)))"

definition local_SaveAndUpdate :: "(string \<Rightarrow> bool) \<Rightarrow> disk \<Rightarrow> string \<Rightarrow> bytes \<Rightarrow> files \<Rightarrow> unit result \<times> files" where
  "local_SaveAndUpdate valid d k v fs =
     (if \<not> valid k then (Inl (Errx ErrCodeParam), fs)
      else if \<not> dk_open d then (Inl (Errx ErrCodeInternal), fs)
      else io_Copy d k v fs)"

section \<open>The storage of slices\<close>

text \<open>\<^verbatim>\<open>storageV2\<close>: the index of a slice is its key.\<close>

definition v2_Save :: "(string \<Rightarrow> bool) \<Rightarrow> disk \<Rightarrow> string \<Rightarrow> bytes \<Rightarrow> files \<Rightarrow> string result \<times> files" where
  "v2_Save valid d k v fs =
     (case local_Save valid d k v fs of (Inl e, fs') \<Rightarrow> (Inl e, fs') | (Inr _, fs') \<Rightarrow> (Inr k, fs'))"

definition v2_Load :: "(string \<Rightarrow> bool) \<Rightarrow> disk \<Rightarrow> string \<Rightarrow> string \<Rightarrow> files \<Rightarrow> bytes result" where
  "v2_Load valid d k index fs =
     (if k \<noteq> index then Inl (Errx ErrCodeParam) else local_Load valid d k fs)"

definition v2_Exist :: "(string \<Rightarrow> bool) \<Rightarrow> disk \<Rightarrow> string \<Rightarrow> string \<Rightarrow> files \<Rightarrow> bool result" where
  "v2_Exist valid d k index fs =
     (if k \<noteq> index then Inl (Errx ErrCodeParam) else local_Exist valid d k fs)"

definition v2_Delete :: "(string \<Rightarrow> bool) \<Rightarrow> disk \<Rightarrow> string \<Rightarrow> string \<Rightarrow> files \<Rightarrow> unit result \<times> files" where
  "v2_Delete valid d k index fs =
     (if k \<noteq> index then (Inl (Errx ErrCodeParam), fs)
      else case local_Delete valid d k fs of (r, fs') \<Rightarrow> (rbind r (\<lambda>_. Inr ()), fs'))"

definition v2_Update :: "(string \<Rightarrow> bool) \<Rightarrow> disk \<Rightarrow> string \<Rightarrow> string \<Rightarrow> bytes \<Rightarrow> files \<Rightarrow> string result \<times> files" where
  "v2_Update valid d k index v fs =
     (if k \<noteq> index then (Inl (Errx ErrCodeParam), fs)
      else case local_SaveAndUpdate valid d k v fs of (r, fs') \<Rightarrow> (rbind r (\<lambda>_. Inr index), fs'))"

text \<open>What a storage of slices is to the handlers of the node: saving and loading.\<close>

record 's slice_store =
  st_Save :: "disk \<Rightarrow> string \<Rightarrow> bytes \<Rightarrow> 's \<Rightarrow> string result \<times> 's"
  st_Load :: "disk \<Rightarrow> string \<Rightarrow> string \<Rightarrow> 's \<Rightarrow> bytes result"

definition local_v2 :: "(string \<Rightarrow> bool) \<Rightarrow> files slice_store" where
  "local_v2 valid = \<lparr>st_Save = v2_Save valid, st_Load = v2_Load valid\<rparr>"

text \<open>
  The contract: what is saved can be loaded by its index, it is never rewritten, and a key that has
  nothing under it can be told from one that has.
\<close>

locale slice_storage =
  fixes S :: "'s slice_store"
  assumes saved: "st_Save S d k v s = (Inr i, s') \<Longrightarrow> st_Load S fine k i s' = Inr v"
    and kept: "st_Save S d k v s = (r, s') \<Longrightarrow> st_Load S d' k' i s = Inr w \<Longrightarrow> st_Load S d' k' i s' = Inr w"
    and apart: "st_Save S d k v s = (r, s') \<Longrightarrow> k' \<noteq> k \<Longrightarrow> st_Load S d' k' i s' = st_Load S d' k' i s"
    and taken: "st_Save S d k v s = (Inl (Errx ErrCodeAlreadyExists), s') \<Longrightarrow> \<exists>w. st_Load S fine k k s = Inr w"
begin

text \<open>Whatever is saved later, what was saved first is what is loaded.\<close>

lemma saved_kept: "st_Save S d k v s = (Inr i, s') \<Longrightarrow> st_Save S d' k' v' s' = (r, s'') \<Longrightarrow> st_Load S fine k i s'' = Inr v"
  using kept[of d' k' v' s' r s'' fine k i v] saved[of d k v s i s'] by simp

end

text \<open>A storage that takes every slice with a good key when its disk works.\<close>

locale working_storage = slice_storage +
  fixes good_key :: "string \<Rightarrow> bool"
  assumes works: "good_key k \<Longrightarrow> st_Save S fine k v s = (Inl e, s') \<Longrightarrow> e = Errx ErrCodeAlreadyExists"
begin

lemma fresh_saved:
  assumes "good_key k" and "\<forall>w. st_Load S fine k k s \<noteq> Inr w"
  shows "\<exists>i s'. st_Save S fine k v s = (Inr i, s')"
proof -
  obtain r s' where r: "st_Save S fine k v s = (r, s')" by fastforce
  show ?thesis
  proof (cases r)
    case (Inl e)
    with r works[OF assms(1)] have "st_Save S fine k v s = (Inl (Errx ErrCodeAlreadyExists), s')" by blast
    from taken[OF this] assms(2) show ?thesis by blast
  qed (use r in blast)
qed

end

lemma local_Save_cases:
  "local_Save valid d k v fs = (r, fs') \<Longrightarrow>
     (fs' = fs \<and> r \<noteq> Inr ()) \<or> (valid k \<and> fs k = None \<and> (\<exists>n. fs' = fs(k \<mapsto> take n v)) \<and> (r = Inr () \<longrightarrow> fs' = fs(k \<mapsto> v)))"
  by (auto simp: local_Save_def local_Exist_def io_Copy_def split: if_splits sum.splits option.splits intro: exI[of _ "length v"])

interpretation local_store: working_storage "local_v2 valid" valid
proof
  fix d k v i d' k' w and s s' :: files and r
  show "st_Load (local_v2 valid) fine k i s' = Inr v" if "st_Save (local_v2 valid) d k v s = (Inr i, s')"
  proof -
    from that have "local_Save valid d k v s = (Inr (), s')" and i: "i = k"
      by (auto simp: local_v2_def v2_Save_def split: prod.splits sum.splits)
    from local_Save_cases[OF this(1)] show ?thesis
      by (auto simp: i local_v2_def v2_Load_def local_Load_def local_Exist_def fine_def)
  qed
  assume "st_Save (local_v2 valid) d k v s = (r, s')"
  then obtain r' where r': "local_Save valid d k v s = (r', s')"
    by (auto simp: local_v2_def v2_Save_def split: prod.splits sum.splits)
  show "st_Load (local_v2 valid) d' k' i s' = Inr w" if "st_Load (local_v2 valid) d' k' i s = Inr w"
    using that local_Save_cases[OF r']
    by (auto simp: local_v2_def v2_Load_def local_Load_def local_Exist_def split: if_splits option.splits)
  show "st_Load (local_v2 valid) d' k' i s' = st_Load (local_v2 valid) d' k' i s" if "k' \<noteq> k"
    using that local_Save_cases[OF r'] by (auto simp: local_v2_def v2_Load_def local_Load_def local_Exist_def)
next
  fix d k v and s s' :: files
  assume "st_Save (local_v2 valid) d k v s = (Inl (Errx ErrCodeAlreadyExists), s')"
  then have "valid k \<and> s k \<noteq> None"
    by (auto simp: local_v2_def v2_Save_def local_Save_def local_Exist_def io_Copy_def
        split: prod.splits sum.splits if_splits option.splits)
  then show "\<exists>w. st_Load (local_v2 valid) fine k k s = Inr w"
    by (auto simp: local_v2_def v2_Load_def local_Load_def local_Exist_def fine_def)
next
  fix k v e and s s' :: files
  assume "valid k" and "st_Save (local_v2 valid) fine k v s = (Inl e, s')"
  then show "e = Errx ErrCodeAlreadyExists"
    by (auto simp: local_v2_def v2_Save_def local_Save_def local_Exist_def io_Copy_def fine_def
        split: prod.splits sum.splits if_splits option.splits)
qed

section \<open>The handlers of the node\<close>

text \<open>The slices and the other contents that the node keeps.\<close>

record 's node_state =
  ns_slices :: 's
  ns_proofs :: files

record PushOptions =
  po_SliceID :: string
  po_SourceID :: string
  po_NotASlice :: bool

definition engine_Push :: "'s slice_store \<Rightarrow> (string \<Rightarrow> bool) \<Rightarrow> disk \<Rightarrow> PushOptions \<Rightarrow> bytes \<Rightarrow> 's node_state \<Rightarrow>
    string result \<times> 's node_state" where
  "engine_Push S valid d opt r s =
     (if po_NotASlice opt
      then (case local_SaveAndUpdate valid d (po_SliceID opt) r (ns_proofs s) of
          (Inl e, p) \<Rightarrow> (Inl e, s\<lparr>ns_proofs := p\<rparr>)
        | (Inr _, p) \<Rightarrow> (Inr (po_SliceID opt), s\<lparr>ns_proofs := p\<rparr>))
      else (case st_Save S d (po_SliceID opt) r (ns_slices s) of
          (Inr storIndex, q) \<Rightarrow> (Inr storIndex, s\<lparr>ns_slices := q\<rparr>)
        | (Inl e, q) \<Rightarrow>
            (if e = Errx ErrCodeAlreadyExists then Inr (po_SliceID opt) else Inl e, s\<lparr>ns_slices := q\<rparr>)))"

record PullOptions =
  pl_Pubkey :: bytes
  pl_SliceID :: string
  pl_StorIndex :: string
  pl_FileID :: string
  pl_Timestamp :: int64
  pl_NotASlice :: bool
  pl_Signature :: string

definition enc_PullOptions :: "PullOptions \<Rightarrow> json" where
  "enc_PullOptions o' = JObj
     [(''pubkey'', enc_bytes (pl_Pubkey o')), (''slice_id'', JStr (pl_SliceID o')),
      (''slice_stor_index'', JStr (pl_StorIndex o')), (''file_id'', JStr (pl_FileID o')),
      (''timestamp'', enc_int (pl_Timestamp o')), (''notASlice'', JBool (pl_NotASlice o')),
      (''signature'', JStr (pl_Signature o'))]"

text \<open>What the node asks the chain; the newest approved authorization comes first.\<close>

record node_reads =
  nr_GetFileByID :: "string \<Rightarrow> File result"
  nr_ListFileAuthApplications :: "ListFileAuthOptions \<Rightarrow> FileAuthApplication list result"

definition checkApplierFileAuth :: "node_reads \<Rightarrow> int64 \<Rightarrow> bytes \<Rightarrow> bytes \<Rightarrow> string \<Rightarrow> unit result" where
  "checkApplierFileAuth C now applier authorizer fileID =
     rbind (nr_ListFileAuthApplications C \<lparr>lao_Applier = applier, lao_Authorizer = authorizer, lao_FileID = fileID,
        lao_Status = FileAuthApproved, lao_TimeStart = 0, lao_TimeEnd = now, lao_Limit = 1\<rparr>) (\<lambda>fileAuths.
     case fileAuths of [] \<Rightarrow> Inl (Errx ErrCodeNotFound)
     | a # _ \<Rightarrow> if fa_ExpireTime a <s now then Inl (Errx ErrCodeExpired) else Inr ())"

definition engine_Pull :: "'s slice_store \<Rightarrow> (string \<Rightarrow> bool) \<Rightarrow> disk \<Rightarrow> engine \<Rightarrow> node_reads \<Rightarrow> int64 \<Rightarrow> PullOptions \<Rightarrow>
    's node_state \<Rightarrow> bytes result" where
  "engine_Pull S valid d en C now opt s =
     (if pl_Timestamp opt <s now - 300000000000 then Inl (Errx ErrCodeParam)
      else rbind (nr_GetFileByID C (pl_FileID opt)) (\<lambda>f.
        rbind (if pl_Pubkey opt = [] \<or> pl_Pubkey opt = f_Owner f then Inr (hex (f_Owner f))
               else rbind (checkApplierFileAuth C now (pl_Pubkey opt) (f_Owner f) (pl_FileID opt))
                 (\<lambda>_. Inr (hex (pl_Pubkey opt)))) (\<lambda>verifyPubkey.
        case GetSigMessage (enc_PullOptions opt) of None \<Rightarrow> Inl (Errx ErrCodeInternal)
        | Some msg \<Rightarrow>
            rbind (verifyUserToken en verifyPubkey (pl_Signature opt) (sha256 (en_E en) msg)) (\<lambda>_.
            if pl_NotASlice opt then local_Load valid d (pl_SliceID opt) (ns_proofs s)
            else st_Load S d (pl_SliceID opt) (pl_StorIndex opt) (ns_slices s)))))"

end
