(* ===== verification/EngHealth.thy ===== *)
theory EngHealth
  imports EngStore
begin

text \<open>
  The health of nodes, slices, files, namespaces and of the whole system, and the nodes that a slice
  can be put on (\<^verbatim>\<open>xdb/engine/common/health.go\<close>, \<^verbatim>\<open>xdb/engine/common/nodes.go\<close>).
\<close>

section \<open>Nodes\<close>

record NodeH =
  nh_Node :: Node
  nh_Health :: string

text \<open>The queries of the chain that the computation of health makes.\<close>

record health_reads =
  hr_ListNodes :: "Node list result"
  hr_GetNodeHealth :: "bytes \<Rightarrow> string result"
  hr_ListFiles :: "ListFileOptions \<Rightarrow> File list result"

definition health_of :: "health_reads \<Rightarrow> Node \<Rightarrow> NodeH list" where
  "health_of C n =
     (if \<not> nd_Online n then []
      else case hr_GetNodeHealth C (nd_ID n) of Inl _ \<Rightarrow> []
        | Inr health \<Rightarrow> if NodeHealthBad = health then [] else [\<lparr>nh_Node = n, nh_Health = health\<rparr>])"

definition GetHealthNodes :: "health_reads \<Rightarrow> NodeH list result" where
  "GetHealthNodes C =
     rbind (hr_ListNodes C) (\<lambda>allNodes.
     let nodes = concat (map (health_of C) allNodes) in
     if length nodes = 0 then Inl (Errx ErrCodeInternal) else Inr nodes)"

definition ToNodeHsMap :: "NodeH list \<Rightarrow> bytes \<Rightarrow> Node option" where
  "ToNodeHsMap nodes = fold (\<lambda>n m. if nd_Online (nh_Node n) then m(nd_ID (nh_Node n) \<mapsto> nh_Node n) else m) nodes Map.empty"

fun strInSet :: "string list \<Rightarrow> string \<Rightarrow> bool" where
  "strInSet [] str = False"
| "strInSet (s # set') str = (if s = str then True else strInSet set' str)"

lemma strInSet_iff [simp]: "strInSet xs s \<longleftrightarrow> s \<in> set xs"
  by (induction xs) auto

text \<open>As many swaps as there are nodes, of positions that the system draws.\<close>

definition rearrangeNodes :: "(nat \<times> nat) list \<Rightarrow> Node list \<Rightarrow> Node list" where
  "rearrangeNodes draws nodes =
     fold (\<lambda>(j, k) ns. swap_at (j mod length nodes) (k mod length nodes) ns) (take (length nodes) draws) nodes"

definition FindNewNodes :: "(nat \<times> nat) list \<Rightarrow> (nat \<times> nat) list \<Rightarrow> NodeH list \<Rightarrow> string list \<Rightarrow> Node list result" where
  "FindNewNodes greenDraws yellowDraws healthNodes selected =
     (let free = filter (\<lambda>n. \<not> strInSet selected (nd_ID (nh_Node n))) healthNodes;
          greenNodeList = map nh_Node (filter (\<lambda>n. nh_Health n = NodeHealthGood) free);
          yellowNodeList = map nh_Node (filter (\<lambda>n. nh_Health n = NodeHealthMedium) free);
          newNodes = rearrangeNodes greenDraws greenNodeList @ rearrangeNodes yellowDraws yellowNodeList
      in if length newNodes = 0 then Inl (Errx ErrCodeNotFound) else Inr newNodes)"

definition GetSliceNodes :: "PublicSliceMeta list \<Rightarrow> (bytes \<Rightarrow> Node option) \<Rightarrow> string \<Rightarrow> Node list option" where
  "GetSliceNodes ss nodesMap = fold (\<lambda>slice sl.
     case nodesMap (sm_NodeID slice) of None \<Rightarrow> sl
     | Some n \<Rightarrow> sl(sm_ID slice \<mapsto> (case sl (sm_ID slice) of None \<Rightarrow> [] | Some ns \<Rightarrow> ns) @ [n])) ss Map.empty"

section \<open>Slices and files\<close>

fun slice_healths :: "(string \<Rightarrow> string option) \<Rightarrow> string list \<Rightarrow> string list option" where
  "slice_healths fhns [] = Some []"
| "slice_healths fhns (node # nodes) =
     (case fhns node of None \<Rightarrow> None | Some h \<Rightarrow> map_option (Cons h) (slice_healths fhns nodes))"

definition GetSliceAvgHealth :: "string list \<Rightarrow> (string \<Rightarrow> string option) \<Rightarrow> string result" where
  "GetSliceAvgHealth nodes fhns =
     (case slice_healths fhns nodes of None \<Rightarrow> Inl (Errx ErrCodeInternal)
      | Some nhlist \<Rightarrow>
          let greenNl = length (filter (\<lambda>h. h = NodeHealthGood) nhlist);
              redNl = length (filter (\<lambda>h. h = NodeHealthBad) nhlist) in
          Inr (if redNl = length nhlist then NodeHealthBad
               else if greenNl > 1 \<and> greenNl = length nhlist then NodeHealthGood
               else NodeHealthMedium))"

text \<open>The nodes are asked concurrently; the error that is reported is one of those that occurred.\<close>

fun getFileNodesHealth :: "health_reads \<Rightarrow> string list \<Rightarrow> (string \<Rightarrow> string option) \<Rightarrow> (string \<Rightarrow> string option) result" where
  "getFileNodesHealth C [] nhlist = Inr nhlist"
| "getFileNodesHealth C (node # nodes) nhlist =
     (case hr_GetNodeHealth C node of Inl e \<Rightarrow> Inl e
      | Inr enh \<Rightarrow> getFileNodesHealth C nodes (nhlist(node \<mapsto> enh)))"

text \<open>The slices of a file with their nodes, and the nodes of the file, each once.\<close>

definition slice_list :: "PublicSliceMeta list \<Rightarrow> (string \<times> string list) list" where
  "slice_list slices = map (\<lambda>i. (i, map sm_NodeID (filter (\<lambda>s. sm_ID s = i) slices))) (remdups (map sm_ID slices))"

definition file_nodes :: "PublicSliceMeta list \<Rightarrow> string list" where
  "file_nodes slices = remdups (map sm_NodeID slices)"

text \<open>The healths of the slices come in an order of their own; no result depends on it.\<close>

fun avg_healths :: "(string \<Rightarrow> string option) \<Rightarrow> (string \<times> string list) list \<Rightarrow> string list" where
  "avg_healths fhns [] = []"
| "avg_healths fhns ((i, nodes) # r) =
     (case GetSliceAvgHealth nodes fhns of Inl _ \<Rightarrow> avg_healths fhns r | Inr h \<Rightarrow> h # avg_healths fhns r)"

definition GetFileHealth :: "health_reads \<Rightarrow> File \<Rightarrow> int64 \<Rightarrow> string result" where
  "GetFileHealth C f replica =
     (if length (f_Slices f) = 0 then Inl (Errx ErrCodeInternal)
      else rbind (getFileNodesHealth C (file_nodes (f_Slices f)) Map.empty) (\<lambda>fileHealthNodes.
        let sliceList = slice_list (f_Slices f); sliceH = avg_healths fileHealthNodes sliceList in
        if length sliceH \<noteq> length sliceList then Inl (Errx ErrCodeInternal)
        else if NodeHealthBad \<in> set sliceH then Inr NodeHealthBad
        else if 1 <s replica \<and> of_nat (length (f_Slices f)) = of_nat (length sliceList) * replica \<and>
                length (filter (\<lambda>h. h = NodeHealthGood) sliceH) = length sliceH
             then Inr NodeHealthGood else Inr NodeHealthMedium))"

section \<open>Namespaces and the system\<close>

record NamespaceH =
  nsh_Namespace :: Namespace
  nsh_FileNormalNum :: int64
  nsh_FileExpiredNum :: int64
  nsh_GreenFileNum :: int64
  nsh_YellowFileNum :: int64
  nsh_RedFileNum :: int64

fun results :: "'a result list \<Rightarrow> 'a list result" where
  "results [] = Inr []"
| "results (r # rs) = rbind r (\<lambda>x. rbind (results rs) (\<lambda>xs. Inr (x # xs)))"

definition tally :: "string \<Rightarrow> string list \<Rightarrow> int64" where
  "tally h hs = of_nat (length (filter (\<lambda>x. x = h) hs))"

definition GetNsFilesHealth :: "health_reads \<Rightarrow> int64 \<Rightarrow> Namespace \<Rightarrow> NamespaceH result" where
  "GetNsFilesHealth C now ns =
     rbind (hr_ListFiles C \<lparr>lfo_Owner = ns_Owner ns, lfo_Namespace = ns_Name ns, lfo_TimeStart = ns_CreateTime ns,
         lfo_TimeEnd = now, lfo_CurrentTime = now, lfo_Limit = 0\<rparr>) (\<lambda>files.
     case results (map (\<lambda>f. GetFileHealth C f (ns_Replica ns)) files) of
       Inl _ \<Rightarrow> Inl (Errx ErrCodeInternal)
     | Inr fhlist \<Rightarrow>
         let fGreenN = tally NodeHealthGood fhlist; fYellowN = tally NodeHealthMedium fhlist in
         Inr \<lparr>nsh_Namespace = ns, nsh_FileNormalNum = of_nat (length fhlist),
              nsh_FileExpiredNum = ns_FileTotalNum ns - of_nat (length fhlist),
              nsh_GreenFileNum = fGreenN, nsh_YellowFileNum = fYellowN,
              nsh_RedFileNum = of_nat (length fhlist) - fYellowN - fGreenN\<rparr>)"

text \<open>The two rates of the system are quotients of the counts in floating point and are left out.\<close>

record FileSysHealth =
  fsh_FileNum :: int64
  fsh_FileExpiredNum :: int64
  fsh_NsNum :: int64
  fsh_GreenFileNum :: int64
  fsh_YellowFileNum :: int64
  fsh_RedFileNum :: int64
  fsh_SysHealth :: string
  fsh_NodeNum :: int64
  fsh_GreenNodeNum :: int64
  fsh_YellowNodeNum :: int64
  fsh_RedNodeNum :: int64

definition GetFileSysHealth :: "health_reads \<Rightarrow> int64 \<Rightarrow> Namespace list \<Rightarrow> Node list \<Rightarrow> FileSysHealth result" where
  "GetFileSysHealth C now nss nodes =
     rbind (results (map (GetNsFilesHealth C now) nss)) (\<lambda>cnsh.
     rbind (results (map (\<lambda>n. hr_GetNodeHealth C (nd_ID n)) nodes)) (\<lambda>cnh.
     let fileNum = sum_list (map nsh_FileNormalNum cnsh); green = sum_list (map nsh_GreenFileNum cnsh);
         red = sum_list (map nsh_RedFileNum cnsh) in
     Inr \<lparr>fsh_FileNum = fileNum, fsh_FileExpiredNum = sum_list (map nsh_FileExpiredNum cnsh),
          fsh_NsNum = of_nat (length nss), fsh_GreenFileNum = green,
          fsh_YellowFileNum = sum_list (map nsh_YellowFileNum cnsh), fsh_RedFileNum = red,
          fsh_SysHealth = (if fileNum = green then NodeHealthGood
            else if \<not> red <s 1 then NodeHealthBad else NodeHealthMedium),
          fsh_NodeNum = of_nat (length nodes), fsh_GreenNodeNum = tally NodeHealthGood cnh,
          fsh_YellowNodeNum = tally NodeHealthMedium cnh, fsh_RedNodeNum = tally NodeHealthBad cnh\<rparr>))"

section \<open>What the colour of a file says\<close>

lemma slice_healths_known: "\<forall>n \<in> set ns. fhns n = Some (col n) \<Longrightarrow> slice_healths fhns ns = Some (map col ns)"
  by (induction ns) auto

lemma getFileNodesHealth_ok:
  "getFileNodesHealth C ns m = Inr m' \<Longrightarrow> (\<forall>n \<in> set ns. \<exists>h. hr_GetNodeHealth C n = Inr h \<and> m' n = Some h) \<and>
     (\<forall>n. n \<notin> set ns \<longrightarrow> m' n = m n)"
proof (induction C ns m rule: getFileNodesHealth.induct)
  case (2 C node nodes nhlist)
  then obtain enh where e: "hr_GetNodeHealth C node = Inr enh" "getFileNodesHealth C nodes (nhlist(node \<mapsto> enh)) = Inr m'"
    by (auto split: sum.splits)
  from "2.IH"[OF e] e(1) show ?case by (cases "node \<in> set nodes") auto
qed simp

lemma getFileNodesHealth_total:
  "\<forall>n \<in> set ns. \<exists>h. hr_GetNodeHealth C n = Inr h \<Longrightarrow> \<exists>m'. getFileNodesHealth C ns m = Inr m'"
  by (induction ns arbitrary: m) auto

text \<open>The colour of a slice by the colours of its nodes.\<close>

definition slice_colour :: "(string \<Rightarrow> string) \<Rightarrow> string list \<Rightarrow> string" where
  "slice_colour col ns = (if \<forall>n \<in> set ns. col n = NodeHealthBad then NodeHealthBad
     else if 1 < length ns \<and> (\<forall>n \<in> set ns. col n = NodeHealthGood) then NodeHealthGood else NodeHealthMedium)"

lemma length_filter_all: "length (filter P xs) = length xs \<longleftrightarrow> (\<forall>x \<in> set xs. P x)"
proof
  assume "length (filter P xs) = length xs"
  moreover have "length (filter P xs) + length (filter (\<lambda>x. \<not> P x) xs) = length xs" by (rule sum_length_filter_compl)
  ultimately show "\<forall>x \<in> set xs. P x" by (simp add: filter_empty_conv)
qed simp

lemma GetSliceAvgHealth_colour:
  assumes "\<forall>n \<in> set ns. fhns n = Some (col n)"
  shows "GetSliceAvgHealth ns fhns = Inr (slice_colour col ns)"
proof -
  have a: "length (filter (\<lambda>h. h = c) (map col ns)) = length (map col ns) \<longleftrightarrow> (\<forall>n \<in> set ns. col n = c)" for c
    unfolding length_filter_all by simp
  show ?thesis
    unfolding GetSliceAvgHealth_def slice_healths_known[OF assms] option.case Let_def slice_colour_def a
    by (cases "\<forall>n \<in> set ns. col n = NodeHealthGood") (auto simp: a[unfolded length_map] filter_id_conv)
qed

lemma avg_healths_colours:
  "\<forall>(i, ns) \<in> set sl. \<forall>n \<in> set ns. fhns n = Some (col n) \<Longrightarrow> avg_healths fhns sl = map (slice_colour col \<circ> snd) sl"
proof (induction sl)
  case (Cons x sl)
  obtain i ns where x: "x = (i, ns)" by (cases x)
  with Cons.prems have "GetSliceAvgHealth ns fhns = Inr (slice_colour col ns)" by (intro GetSliceAvgHealth_colour) simp
  with Cons x show ?case by simp
qed simp

text \<open>
  The colour of a file: red when some slice is on red nodes only; green when more than one replica is
  asked for, there are exactly that many on average, every slice has two and every node is green.
\<close>

definition replicas :: "PublicSliceMeta list \<Rightarrow> string \<Rightarrow> PublicSliceMeta list" where
  "replicas slices i = filter (\<lambda>s. sm_ID s = i) slices"

definition file_colour :: "(string \<Rightarrow> string) \<Rightarrow> PublicSliceMeta list \<Rightarrow> int64 \<Rightarrow> string" where
  "file_colour col slices r =
     (if \<exists>s \<in> set slices. \<forall>t \<in> set (replicas slices (sm_ID s)). col (sm_NodeID t) = NodeHealthBad then NodeHealthBad
      else if 1 <s r \<and> of_nat (length slices) = of_nat (card (sm_ID ` set slices)) * r \<and>
        (\<forall>s \<in> set slices. col (sm_NodeID s) = NodeHealthGood \<and> 1 < length (replicas slices (sm_ID s)))
      then NodeHealthGood else NodeHealthMedium)"

definition node_colour :: "health_reads \<Rightarrow> string \<Rightarrow> string" where
  "node_colour C n = (case hr_GetNodeHealth C n of Inr h \<Rightarrow> h | Inl _ \<Rightarrow> [])"

lemma slice_list_snd: "(slice_colour col \<circ> snd) ` set (slice_list slices) =
    (\<lambda>s. slice_colour col (map sm_NodeID (replicas slices (sm_ID s)))) ` set slices"
  by (auto simp: slice_list_def replicas_def image_iff)

lemma replicas_self: "s \<in> set slices \<Longrightarrow> s \<in> set (replicas slices (sm_ID s))"
  by (simp add: replicas_def)

lemma GetFileHealth_colour:
  assumes "f_Slices f \<noteq> []" and "\<forall>s \<in> set (f_Slices f). \<exists>h. hr_GetNodeHealth C (sm_NodeID s) = Inr h"
  shows "GetFileHealth C f r = Inr (file_colour (node_colour C) (f_Slices f) r)"
proof -
  let ?S = "f_Slices f" and ?c = "node_colour C"
  let ?k = "\<lambda>s. slice_colour ?c (map sm_NodeID (replicas ?S (sm_ID s)))"
  have "\<forall>n \<in> set (file_nodes ?S). \<exists>h. hr_GetNodeHealth C n = Inr h" using assms(2) by (auto simp: file_nodes_def)
  from getFileNodesHealth_total[OF this] obtain m where m: "getFileNodesHealth C (file_nodes ?S) Map.empty = Inr m" by blast
  have known: "m (sm_NodeID s) = Some (?c (sm_NodeID s))" if "s \<in> set ?S" for s
    using that getFileNodesHealth_ok[OF m] by (fastforce simp: file_nodes_def node_colour_def)
  then have "\<forall>(i, ns) \<in> set (slice_list ?S). \<forall>n \<in> set ns. m n = Some (?c n)" by (auto simp: slice_list_def)
  then have av: "avg_healths m (slice_list ?S) = map (slice_colour ?c \<circ> snd) (slice_list ?S)" by (rule avg_healths_colours)
  have bad: "NodeHealthBad \<in> set (avg_healths m (slice_list ?S)) \<longleftrightarrow> (\<exists>s \<in> set ?S. ?k s = NodeHealthBad)"
    unfolding av set_map slice_list_snd by (simp add: image_iff eq_commute[of NodeHealthBad])
  have good: "length (filter (\<lambda>h. h = NodeHealthGood) (avg_healths m (slice_list ?S))) = length (avg_healths m (slice_list ?S)) \<longleftrightarrow>
      (\<forall>s \<in> set ?S. ?k s = NodeHealthGood)"
    unfolding length_filter_all av set_map slice_list_snd by (rule ball_simps(9))
  have n: "length (slice_list ?S) = card (sm_ID ` set ?S)"
    by (simp add: slice_list_def length_remdups_card_conv)
  have kb: "?k s = NodeHealthBad \<longleftrightarrow> (\<forall>t \<in> set (replicas ?S (sm_ID s)). ?c (sm_NodeID t) = NodeHealthBad)" for s
    by (auto simp: slice_colour_def)
  have kg: "(\<forall>s \<in> set ?S. ?k s = NodeHealthGood) \<longleftrightarrow> (\<forall>s \<in> set ?S. ?c (sm_NodeID s) = NodeHealthGood \<and> 1 < length (replicas ?S (sm_ID s)))"
    (is "?L \<longleftrightarrow> ?R")
  proof
    assume ?L
    then show ?R using replicas_self by (fastforce simp: slice_colour_def split: if_splits)
  next
    assume R: ?R
    show ?L
    proof
      fix s assume s: "s \<in> set ?S"
      have "\<forall>t \<in> set (replicas ?S (sm_ID s)). ?c (sm_NodeID t) = NodeHealthGood" using R by (simp add: replicas_def)
      with s R replicas_self[OF s] show "?k s = NodeHealthGood" by (auto simp: slice_colour_def)
    qed
  qed
  have l: "(length (avg_healths m (slice_list ?S)) \<noteq> length (slice_list ?S)) = False" by (simp add: av)
  show ?thesis
    unfolding GetFileHealth_def m rbind_simps Let_def good bad l if_False kb kg
    unfolding n file_colour_def using assms(1) by simp
qed

lemma GetFileHealth_error:
  assumes "f_Slices f = [] \<or> (\<exists>s \<in> set (f_Slices f). \<forall>h. hr_GetNodeHealth C (sm_NodeID s) \<noteq> Inr h)"
  shows "\<exists>e. GetFileHealth C f r = Inl e"
proof (cases "f_Slices f = []")
  case False
  with assms obtain s where s: "s \<in> set (f_Slices f)" "\<forall>h. hr_GetNodeHealth C (sm_NodeID s) \<noteq> Inr h" by blast
  have "getFileNodesHealth C (file_nodes (f_Slices f)) Map.empty \<noteq> Inr m" for m
    using s by (auto simp: file_nodes_def dest!: getFileNodesHealth_ok)
  then obtain e where "getFileNodesHealth C (file_nodes (f_Slices f)) Map.empty = Inl e"
    by (cases "getFileNodesHealth C (file_nodes (f_Slices f)) Map.empty") auto
  with False show ?thesis by (simp add: GetFileHealth_def)
qed (simp add: GetFileHealth_def)

section \<open>New nodes\<close>

lemma set_swap_at: "j < length xs \<Longrightarrow> k < length xs \<Longrightarrow> set (swap_at j k xs) = set xs"
  unfolding swap_at_def by (rule set_swap)

lemma rearrangeNodes_set: "set (rearrangeNodes draws nodes) = set nodes"
proof -
  let ?m = "length nodes"
  have "set (fold (\<lambda>(j, k) ns. swap_at (j mod ?m) (k mod ?m) ns) ds xs) = set xs" if "length xs = ?m" "?m \<noteq> 0" for ds xs
    using that
  proof (induction ds arbitrary: xs)
    case (Cons d ds)
    obtain j k where d: "d = (j, k)" by (cases d)
    have jk: "j mod ?m < length xs" "k mod ?m < length xs" using Cons.prems by simp_all
    have "length (swap_at (j mod ?m) (k mod ?m) xs) = ?m" using Cons.prems by (simp add: swap_at_def)
    from Cons.IH[OF this Cons.prems(2)] show ?case by (simp add: d set_swap_at[OF jk])
  qed simp
  from this[OF refl] show ?thesis by (cases "nodes = []") (simp_all add: rearrangeNodes_def)
qed

text \<open>New nodes are healthy nodes that have not been selected yet; there are some unless none is left.\<close>

lemma FindNewNodes_set:
  "FindNewNodes g y hs sel = Inr ns \<Longrightarrow> set ns = nh_Node ` {n \<in> set hs. nd_ID (nh_Node n) \<notin> set sel \<and>
     nh_Health n \<in> {NodeHealthGood, NodeHealthMedium}} \<and> ns \<noteq> []"
  by (auto simp: FindNewNodes_def Let_def rearrangeNodes_set split: if_splits)

end
