(* ===== verification/EngCopier.thy ===== *)
theory EngCopier
  imports EngStorage EngHealth
begin

text \<open>
  Choosing nodes for slices, pushing slices to them, pulling slices from them and making further
  replicas (\<^verbatim>\<open>xdb/engine/copier/random\<close>, \<^verbatim>\<open>xdb/engine/common/migrate.go\<close>), with the
  requests of the server that carry the calls (\<^verbatim>\<open>xdb/server/controllers.go\<close>,
  \<^verbatim>\<open>xdb/pkgs/http\<close>).
\<close>

section \<open>Choosing nodes\<close>

text \<open>
  The random numbers are lists of draws, each taken modulo the number of candidates; \<open>None\<close> when they
  run out, so a loop that goes on drawing has no result.
\<close>

fun yellow_loop :: "nat \<Rightarrow> Node list \<Rightarrow> nat list \<Rightarrow> bytes list \<Rightarrow> Node list \<Rightarrow> Node list option" where
  "yellow_loop syNodes yellow [] ymn nodes = None"
| "yellow_loop syNodes yellow (d # draws) ymn nodes =
     (let n = yellow ! (d mod length yellow) in
      if length ymn = syNodes then Some nodes
      else if nd_ID n \<in> set ymn then yellow_loop syNodes yellow draws ymn nodes
      else yellow_loop syNodes yellow draws (nd_ID n # ymn) (nodes @ [n]))"

definition with_health :: "string \<Rightarrow> NodeH list \<Rightarrow> Node list" where
  "with_health h nodeHs = map nh_Node (filter (\<lambda>n. nh_Health n = h) nodeHs)"

definition getSliceOptimalNodes :: "nat list \<Rightarrow> NodeH list \<Rightarrow> nat \<Rightarrow> Node list option" where
  "getSliceOptimalNodes draws nodeHs replica =
     (let nodes = with_health NodeHealthGood nodeHs; yellowNodeList = with_health NodeHealthMedium nodeHs in
      if replica \<le> length nodes then Some nodes
      else if length nodes = 0 \<or> length nodes + length yellowNodeList \<le> replica then Some (nodes @ yellowNodeList)
      else yellow_loop (replica - length nodes) yellowNodeList draws [] nodes)"

fun select_loop :: "nat \<Rightarrow> Node list \<Rightarrow> nat list \<Rightarrow> nat list \<Rightarrow> Node list \<Rightarrow> Node list option" where
  "select_loop targetReplica nodesList [] used selected =
     (if length selected = targetReplica \<or> length selected = length nodesList then Some selected else None)"
| "select_loop targetReplica nodesList (d # draws) used selected =
     (if length selected = targetReplica \<or> length selected = length nodesList then Some selected
      else let index = d mod length nodesList in
           if index \<in> set used then select_loop targetReplica nodesList draws used selected
           else select_loop targetReplica nodesList draws (index # used) (selected @ [nodesList ! index]))"

text \<open>The replica is an unsigned number of 32 bits; the slice goes with the nodes.\<close>

definition Select :: "nat list \<Rightarrow> nat list \<Rightarrow> NodeH list \<Rightarrow> 32 word \<Rightarrow> Node list result option" where
  "Select yellowDraws draws nodes replica =
     (let targetReplica = unat replica in
      if length nodes = 0 then Some (Inl (Errx ErrCodeInternal))
      else if targetReplica = 0 then Some (Inl (Errx ErrCodeInternal))
      else Option.bind (getSliceOptimalNodes yellowDraws nodes targetReplica) (\<lambda>nodesList.
        map_option Inr (select_loop targetReplica nodesList draws [] [])))"

section \<open>The requests\<close>

abbreviation "ChallengeFileSuffix \<equiv> ''_sigmas''"

definition TrimSuffix :: "string \<Rightarrow> string \<Rightarrow> string" where
  "TrimSuffix s x = (if suffix x s then take (length s - length x) s else s)"

definition server_push :: "'s slice_store \<Rightarrow> (string \<Rightarrow> bool) \<Rightarrow> disk \<Rightarrow> string \<Rightarrow> string \<Rightarrow> bytes \<Rightarrow> 's node_state \<Rightarrow>
    string result \<times> 's node_state" where
  "server_push S valid d slice_id source_id body =
     (let sID = TrimSuffix slice_id ChallengeFileSuffix in
      engine_Push S valid d \<lparr>po_SliceID = sID, po_SourceID = source_id, po_NotASlice = (sID \<noteq> slice_id)\<rparr> body)"

text \<open>The query of a pull; the public key is empty in the query of the owner.\<close>

record pull_query =
  pq_slice_id :: string
  pq_slice_stor_index :: string
  pq_file_id :: string
  pq_timestamp :: int64
  pq_signature :: string
  pq_pubkey :: string

definition server_pull :: "'s slice_store \<Rightarrow> (string \<Rightarrow> bool) \<Rightarrow> disk \<Rightarrow> engine \<Rightarrow> node_reads \<Rightarrow> int64 \<Rightarrow> pull_query \<Rightarrow>
    's node_state \<Rightarrow> bytes result" where
  "server_pull S valid d en C now q s =
     (let sID = TrimSuffix (pq_slice_id q) ChallengeFileSuffix;
          opt = \<lparr>pl_Pubkey = [], pl_SliceID = sID, pl_StorIndex = pq_slice_stor_index q, pl_FileID = pq_file_id q,
                 pl_Timestamp = pq_timestamp q, pl_NotASlice = (sID \<noteq> pq_slice_id q), pl_Signature = pq_signature q\<rparr> in
      if pq_pubkey q = [] then engine_Pull S valid d en C now opt s
      else (case hexDecode (pq_pubkey q) of None \<Rightarrow> Inl (Errx ErrCodeInternal)
        | Some pk \<Rightarrow> if length pk \<noteq> 64 \<or> \<not> en_on_curve en pk then Inl (Errx ErrCodeInternal)
            else engine_Pull S valid d en C now (opt\<lparr>pl_Pubkey := pk\<rparr>) s))"

text \<open>An answer whose text is the JSON of an error with a code is an error: slices are sent bare.\<close>

definition is_error_text :: "env \<Rightarrow> bytes \<Rightarrow> bool" where
  "is_error_text E bs =
     (case Option.bind (parse_json E bs) (dec_struct (fld dec_str [] ''code'')) of
        None \<Rightarrow> False | Some code \<Rightarrow> code \<noteq> ''0'')"

section \<open>The network\<close>

text \<open>
  The storage nodes by their addresses, and what stays as it is during the calls: their storage and
  engines, the chain that they ask, the time. The owner signs with its private key.
\<close>

type_synonym 's network = "string \<Rightarrow> 's node_state"

record 's net_env =
  ne_S :: "'s slice_store"
  ne_valid :: "string \<Rightarrow> bool"
  ne_engine :: engine
  ne_C :: node_reads
  ne_now :: int64
  ne_sign :: "bytes \<Rightarrow> bytes"

text \<open>
  What becomes of one push: whether the request reaches the node and how much of the body has been
  read when it does not, what the disk of the node does, and whether the answer gets back.
\<close>

record attempt =
  at_reached :: bool
  at_read :: nat
  at_disk :: disk
  at_answered :: bool

text \<open>The result, what is left of the reader of the body, and the network.\<close>

definition copier_Push :: "'s net_env \<Rightarrow> attempt \<Rightarrow> string \<Rightarrow> string \<Rightarrow> bytes \<Rightarrow> Node \<Rightarrow> 's network \<Rightarrow>
    string result \<times> bytes \<times> 's network" where
  "copier_Push NE a sliceID sourceID body node net =
     (if \<not> at_reached a then (Inl (Errx ErrCodeInternal), drop (at_read a) body, net)
      else (case server_push (ne_S NE) (ne_valid NE) (at_disk a) sliceID sourceID body (net (nd_Address node)) of
          (r, s) \<Rightarrow> (if at_answered a then r else Inl (Errx ErrCodeInternal), [], net(nd_Address node := s))))"

text \<open>The pull of the owner; \<open>up\<close> are the addresses that answer, with their disks.\<close>

definition copier_Pull :: "'s net_env \<Rightarrow> (string \<Rightarrow> disk option) \<Rightarrow> 's network \<Rightarrow> net_pull" where
  "copier_Pull NE up net node sliceID storIndex fileID =
     (case GetSigMessage (enc_PullOptions \<lparr>pl_Pubkey = [], pl_SliceID = sliceID, pl_StorIndex = storIndex,
          pl_FileID = fileID, pl_Timestamp = ne_now NE, pl_NotASlice = False, pl_Signature = []\<rparr>) of None \<Rightarrow> None
      | Some msg \<Rightarrow>
          (case up (nd_Address node) of None \<Rightarrow> None
           | Some d \<Rightarrow>
               (case server_pull (ne_S NE) (ne_valid NE) d (ne_engine NE) (ne_C NE) (ne_now NE)
                   \<lparr>pq_slice_id = sliceID, pq_slice_stor_index = storIndex, pq_file_id = fileID,
                    pq_timestamp = ne_now NE, pq_signature = hex (ne_sign NE (sha256 (en_E (ne_engine NE)) msg)),
                    pq_pubkey = []\<rparr> (net (nd_Address node)) of
                  Inl _ \<Rightarrow> None
                | Inr bs \<Rightarrow> if is_error_text (en_E (ne_engine NE)) bs then None else Some bs)))"

section \<open>Moving slices\<close>

definition slice_opts :: "string \<Rightarrow> string \<Rightarrow> bytes \<Rightarrow> EncryptOptions" where
  "slice_opts fileID sliceID nodeID = \<lparr>eo_FileID = fileID, eo_SliceID = sliceID, eo_NodeID = nodeID\<rparr>"

definition PullAndDec :: "engine \<Rightarrow> net_pull \<Rightarrow> PublicSliceMeta \<Rightarrow> Node \<Rightarrow> string \<Rightarrow> bytes result" where
  "PullAndDec en pull sl node fileID =
     (case pull node (sm_ID sl) (sm_StorIndex sl) fileID of None \<Rightarrow> Inl (Errx ErrCodeInternal)
      | Some cipherText \<Rightarrow>
          if int (length cipherText) \<noteq> sint (sm_Length sl) then Inl (Errx ErrCodeCrypto)
          else if sha256 (en_E en) cipherText \<noteq> sm_CipherHash sl then Inl (Errx ErrCodeCrypto)
          else Recover (en_K en) (en_soft en) cipherText (slice_opts fileID (sm_ID sl) (nd_ID node)))"

definition EncAndPush :: "engine \<Rightarrow> 's net_env \<Rightarrow> attempt \<Rightarrow> bytes \<Rightarrow> string \<Rightarrow> string \<Rightarrow> string \<Rightarrow> Node \<Rightarrow> 's network \<Rightarrow>
    (EncryptedSlice \<times> string) result \<times> 's network" where
  "EncAndPush en NE a plaintext sliceID sourceID fileID node net =
     (case SoftEncrypt (en_K en) (en_soft en) plaintext (slice_opts fileID sliceID (nd_ID node)) of
        Inl e \<Rightarrow> (Inl e, net)
      | Inr es \<Rightarrow> (case copier_Push NE a (es_SliceID es) sourceID (es_CipherText es) node net of
          (r, _, net') \<Rightarrow> (rbind r (\<lambda>storIndex. Inr (es, storIndex)), net')))"

fun getSliceMetaByID :: "PublicSliceMeta list \<Rightarrow> string \<Rightarrow> bytes \<Rightarrow> PublicSliceMeta" where
  "getSliceMetaByID [] sliceID nodeID =
     \<lparr>sm_ID = [], sm_CipherHash = [], sm_Length = 0, sm_NodeID = [], sm_StorIndex = [], sm_SliceIdx = 0\<rparr>"
| "getSliceMetaByID (sl # sliceMetas) sliceID nodeID =
     (if sm_ID sl = sliceID \<and> sm_NodeID sl = nodeID then sl else getSliceMetaByID sliceMetas sliceID nodeID)"

text \<open>The next free number of the slices of a node.\<close>

definition getNodeSliceIdx :: "PublicSliceMeta list \<Rightarrow> bytes \<Rightarrow> int64" where
  "getNodeSliceIdx sliceMetas nodeID =
     (case fold (\<lambda>s m. if sm_NodeID s = nodeID
        then (case m of None \<Rightarrow> Some (sm_SliceIdx s) | Some i \<Rightarrow> Some (if i <s sm_SliceIdx s then sm_SliceIdx s else i))
        else m) sliceMetas None of None \<Rightarrow> 1 | Some i \<Rightarrow> i + 1)"

definition getOptionalNode :: "(nat \<times> nat) list \<Rightarrow> (nat \<times> nat) list \<Rightarrow> Node list \<Rightarrow> NodeH list \<Rightarrow> Node list result" where
  "getOptionalNode g y selectedNodes allNodes = FindNewNodes g y allNodes (map nd_ID selectedNodes)"

fun pullSlice :: "engine \<Rightarrow> net_pull \<Rightarrow> Node list \<Rightarrow> PublicSliceMeta list \<Rightarrow> string \<Rightarrow> string \<Rightarrow> bytes" where
  "pullSlice en pull [] sliceMetas sliceID fileID = []"
| "pullSlice en pull (n # selectedNodes) sliceMetas sliceID fileID =
     (case PullAndDec en pull (getSliceMetaByID sliceMetas sliceID (nd_ID n)) n fileID of
        Inl _ \<Rightarrow> pullSlice en pull selectedNodes sliceMetas sliceID fileID
      | Inr plainText \<Rightarrow> plainText)"

text \<open>
  The candidates in turn until one has taken the slice; each try has its attempt. The result is the
  node with what was stored on it.
\<close>

fun push_first :: "engine \<Rightarrow> 's net_env \<Rightarrow> (nat \<Rightarrow> attempt) \<Rightarrow> bytes \<Rightarrow> string \<Rightarrow> string \<Rightarrow> string \<Rightarrow> Node list \<Rightarrow> 's network \<Rightarrow>
    (Node \<times> EncryptedSlice \<times> string) option \<times> 's network" where
  "push_first en NE atts plain sliceID sourceID fileID [] net = (None, net)"
| "push_first en NE atts plain sliceID sourceID fileID (n # nNodes) net =
     (case EncAndPush en NE (atts 0) plain sliceID sourceID fileID n net of
        (Inr (es, storIndex), net') \<Rightarrow> (Some (n, es, storIndex), net')
      | (Inl _, net') \<Rightarrow> push_first en NE (\<lambda>i. atts (i + 1)) plain sliceID sourceID fileID nNodes net')"

text \<open>The draws and the attempts of one round of the expansion.\<close>

record expansion_round =
  er_green :: "(nat \<times> nat) list"
  er_yellow :: "(nat \<times> nat) list"
  er_attempts :: "nat \<Rightarrow> attempt"

definition new_meta :: "bool \<Rightarrow> PublicSliceMeta list \<Rightarrow> EncryptedSlice \<Rightarrow> string \<Rightarrow> PublicSliceMeta" where
  "new_meta pairing sliceMetas es storIndex =
     \<lparr>sm_ID = es_SliceID es, sm_CipherHash = es_CipherHash es, sm_Length = es_Length es, sm_NodeID = es_NodeID es,
      sm_StorIndex = storIndex, sm_SliceIdx = (if pairing then getNodeSliceIdx sliceMetas (es_NodeID es) else 0)\<rparr>"

text \<open>
  One round for every replica that is missing; the rounds that have succeeded are returned with an
  error of a later one.
\<close>

fun expansion_rounds :: "engine \<Rightarrow> 's net_env \<Rightarrow> bytes \<Rightarrow> string \<Rightarrow> string \<Rightarrow> string \<Rightarrow> bool \<Rightarrow> NodeH list \<Rightarrow>
    expansion_round list \<Rightarrow> Node list \<Rightarrow> PublicSliceMeta list \<Rightarrow> 's network \<Rightarrow>
    (PublicSliceMeta list \<times> EncryptedSlice list \<times> fault option) \<times> 's network" where
  "expansion_rounds en NE plain sliceID sourceID fileID pairing hs [] selectedNodes sliceMetas net = (([], [], None), net)"
| "expansion_rounds en NE plain sliceID sourceID fileID pairing hs (r # rounds) selectedNodes sliceMetas net =
     (case getOptionalNode (er_green r) (er_yellow r) selectedNodes hs of
        Inl e \<Rightarrow> (([], [], Some e), net)
      | Inr nNodes \<Rightarrow>
          (case push_first en NE (er_attempts r) plain sliceID sourceID fileID nNodes net of
             (None, net') \<Rightarrow> (([], [], Some (Errx ErrCodeInternal)), net')
           | (Some (n, es, storIndex), net') \<Rightarrow>
               let newSp = new_meta pairing sliceMetas es storIndex in
               (case expansion_rounds en NE plain sliceID sourceID fileID pairing hs rounds (selectedNodes @ [n])
                    (sliceMetas @ [newSp]) net' of
                  ((nSlice, eSlices, err), net'') \<Rightarrow> ((newSp # nSlice, es # eSlices, err), net''))))"

record ReplicaExpOptions =
  re_SliceID :: string
  re_SelectedNodes :: "Node list"
  re_NewReplica :: nat
  re_NodesList :: "NodeH list"
  re_SliceMetas :: "PublicSliceMeta list"

text \<open>The first choice of nodes comes before the slice is pulled, the others between the rounds.\<close>

definition ReplicaExpansion :: "engine \<Rightarrow> 's net_env \<Rightarrow> net_pull \<Rightarrow> (nat \<Rightarrow> expansion_round) \<Rightarrow> ReplicaExpOptions \<Rightarrow>
    string \<Rightarrow> string \<Rightarrow> string \<Rightarrow> 's network \<Rightarrow>
    (PublicSliceMeta list \<times> EncryptedSlice list \<times> fault option) \<times> 's network" where
  "ReplicaExpansion en NE pull rounds opt challengeAlgorithm sourceID fileID net =
     (case getOptionalNode (er_green (rounds 0)) (er_yellow (rounds 0)) (re_SelectedNodes opt) (re_NodesList opt) of
        Inl _ \<Rightarrow> (([], [], Some (Errx ErrCodeInternal)), net)
      | Inr _ \<Rightarrow>
          let plainText = pullSlice en pull (re_SelectedNodes opt) (re_SliceMetas opt) (re_SliceID opt) fileID in
          if length plainText = 0 then (([], [], Some (Errx ErrCodeInternal)), net)
          else expansion_rounds en NE plainText (re_SliceID opt) sourceID fileID (challengeAlgorithm = ''Pairing'')
            (re_NodesList opt) (map rounds [0 ..< re_NewReplica opt - length (re_SelectedNodes opt)])
            (re_SelectedNodes opt) (re_SliceMetas opt) net)"

section \<open>What is chosen\<close>

lemma yellow_loop_facts:
  assumes "yellow_loop sy yellow draws ymn nodes = Some ns" and "length ymn \<le> sy" and "yellow \<noteq> []"
  shows "\<exists>ex. ns = nodes @ ex \<and> length ex = sy - length ymn \<and> set ex \<subseteq> set yellow \<and> distinct (map nd_ID ex) \<and>
    nd_ID ` set ex \<inter> set ymn = {}"
  using assms
proof (induction sy yellow draws ymn nodes rule: yellow_loop.induct)
  case (2 sy yellow d draws ymn nodes)
  let ?n = "yellow ! (d mod length yellow)"
  have n: "?n \<in> set yellow" using "2.prems"(3) by simp
  consider "length ymn = sy" | "length ymn < sy" "nd_ID ?n \<in> set ymn" | "length ymn < sy" "nd_ID ?n \<notin> set ymn"
    using "2.prems"(2) by linarith
  then show ?case
  proof cases
    case 2
    with "2.prems" "2.IH"(1)[OF refl] show ?thesis by (simp add: Let_def)
  next
    case 3
    with "2.prems" have "yellow_loop sy yellow draws (nd_ID ?n # ymn) (nodes @ [?n]) = Some ns" by (simp add: Let_def)
    from "2.IH"(2)[OF refl _ _ this] 3 "2.prems"(3) obtain ex where
      ex: "ns = (nodes @ [?n]) @ ex" "length ex = sy - length (nd_ID ?n # ymn)" "set ex \<subseteq> set yellow"
        "distinct (map nd_ID ex)" "nd_ID ` set ex \<inter> set (nd_ID ?n # ymn) = {}" by auto
    with 3 n show ?thesis by (intro exI[of _ "?n # ex"]) auto
  qed (use "2.prems" in auto)
qed simp

lemma select_loop_facts:
  assumes "select_loop t ns draws used sel = Some res" and "sel = map ((!) ns) (rev used)"
    and "distinct used" and "\<forall>i \<in> set used. i < length ns" and "length used \<le> min t (length ns)"
  shows "\<exists>is'. res = map ((!) ns) is' \<and> distinct is' \<and> (\<forall>i \<in> set is'. i < length ns) \<and> length is' = min t (length ns)"
  using assms
proof (induction t ns draws used sel rule: select_loop.induct)
  case (1 t ns used sel)
  then show ?case by (intro exI[of _ "rev used"]) (auto split: if_splits)
next
  case (2 t ns d draws used sel)
  let ?i = "d mod length ns"
  show ?case
  proof (cases "length sel = t \<or> length sel = length ns")
    case True
    with "2.prems" show ?thesis by (intro exI[of _ "rev used"]) auto
  next
    case False
    with "2.prems"(2,5) have lt: "length used < t" "length used < length ns" by auto
    have i: "?i < length ns" by (rule mod_less_divisor) (use lt(2) in linarith)
    show ?thesis
    proof (cases "?i \<in> set used")
      case True
      with False "2.prems" show ?thesis by (intro "2.IH"(1)[OF _ refl True]) (auto simp: Let_def)
    next
      case new: False
      with False "2.prems" lt i show ?thesis by (intro "2.IH"(2)[OF False refl new]) (auto simp: Let_def)
    qed
  qed
qed

lemma select_loop_returns:
  assumes "\<forall>i < length ns. i \<in> set used \<or> i \<in> (\<lambda>d. d mod length ns) ` set draws" and "length sel = length used"
    and "distinct used" and "\<forall>i \<in> set used. i < length ns"
  shows "select_loop t ns draws used sel \<noteq> None"
  using assms
proof (induction t ns draws used sel rule: select_loop.induct)
  case (1 t ns used sel)
  then have "set used = {..<length ns}" by auto
  with 1 have "length used = length ns" by (metis card_lessThan distinct_card)
  with 1 show ?case by simp
next
  case (2 t ns d draws used sel)
  let ?i = "d mod length ns"
  show ?case
  proof (cases "length sel = t \<or> length sel = length ns")
    case False
    then have i: "?i < length ns" using "2.prems" by (cases "ns = []") auto
    show ?thesis
    proof (cases "?i \<in> set used")
      case True
      have "select_loop t ns draws used sel \<noteq> None"
        using True "2.prems" by (intro "2.IH"(1)[OF False refl True]) auto
      with False True show ?thesis by (auto simp: Let_def)
    next
      case new: False
      have "select_loop t ns draws (?i # used) (sel @ [ns ! ?i]) \<noteq> None"
        using new i "2.prems" by (intro "2.IH"(2)[OF False refl new]) auto
      with False new show ?thesis by (auto simp: Let_def)
    qed
  qed auto
qed

lemma yellow_loop_returns:
  assumes "sy \<le> card (nd_ID ` set yellow)" and "length ymn \<le> sy" and "distinct ymn" and "set ymn \<subseteq> nd_ID ` set yellow"
    and "\<forall>i < length yellow. nd_ID (yellow ! i) \<in> set ymn \<or> i \<in> (\<lambda>d. d mod length yellow) ` set draws"
  shows "yellow_loop sy yellow (draws @ [d]) ymn nodes \<noteq> None"
  using assms
proof (induction draws arbitrary: ymn nodes)
  case Nil
  then have "nd_ID ` set yellow \<subseteq> set ymn" by (auto simp: in_set_conv_nth)
  with Nil.prems(4) have "card (nd_ID ` set yellow) = length ymn" using distinct_card[OF Nil.prems(3)] by (metis subset_antisym)
  with Nil.prems show ?case by simp
next
  case (Cons e draws)
  let ?n = "yellow ! (e mod length yellow)"
  consider "length ymn = sy" | "length ymn < sy" "nd_ID ?n \<in> set ymn" | "length ymn < sy" "nd_ID ?n \<notin> set ymn"
    using Cons.prems(2) by linarith
  then show ?case
  proof cases
    case 2
    have "yellow_loop sy yellow (draws @ [d]) ymn nodes \<noteq> None" using Cons.prems 2 by (intro Cons.IH) auto
    with 2 show ?thesis by simp
  next
    case 3
    then have "yellow \<noteq> []" using Cons.prems(1) by auto
    then have "?n \<in> set yellow" by simp
    then have "yellow_loop sy yellow (draws @ [d]) (nd_ID ?n # ymn) (nodes @ [?n]) \<noteq> None"
      using Cons.prems 3 by (intro Cons.IH) auto
    with 3 show ?thesis by (simp add: Let_def)
  qed simp
qed

text \<open>Distinct nodes, as many as there can be, and a yellow one only with all the green ones.\<close>

lemma with_health_ids: "distinct (map (nd_ID \<circ> nh_Node) hs) \<Longrightarrow>
    distinct (map nd_ID (with_health NodeHealthGood hs @ with_health NodeHealthMedium hs))"
proof -
  assume d: "distinct (map (nd_ID \<circ> nh_Node) hs)"
  have f: "distinct (map nd_ID (with_health h hs))" for h
    using distinct_map_filter[OF d, of "\<lambda>n. nh_Health n = h"] by (simp add: with_health_def)
  have "x \<notin> nd_ID ` set (with_health NodeHealthMedium hs)" if g: "x \<in> nd_ID ` set (with_health NodeHealthGood hs)" for x
  proof
    assume "x \<in> nd_ID ` set (with_health NodeHealthMedium hs)"
    then obtain n where n: "n \<in> set hs" "nh_Health n = NodeHealthMedium" "x = nd_ID (nh_Node n)"
      by (auto simp: with_health_def)
    from g obtain m where m: "m \<in> set hs" "nh_Health m = NodeHealthGood" "x = nd_ID (nh_Node m)"
      by (auto simp: with_health_def)
    have "m = n" using d m n by (simp add: distinct_map inj_on_def)
    with m n show False by simp
  qed
  with f show ?thesis by auto
qed

lemma getSliceOptimalNodes_facts:
  assumes "getSliceOptimalNodes yd hs r = Some ns" and "distinct (map (nd_ID \<circ> nh_Node) hs)"
  defines "G \<equiv> with_health NodeHealthGood hs" and "Y \<equiv> with_health NodeHealthMedium hs"
  shows "distinct (map nd_ID ns) \<and> set ns \<subseteq> set G \<union> set Y \<and> min r (length ns) = min r (length G + length Y) \<and>
    (ns = G \<or> (set G \<subseteq> set ns \<and> (length ns \<le> r \<or> G = [])))"
proof -
  have d: "distinct (map nd_ID (G @ Y))" unfolding G_def Y_def by (rule with_health_ids[OF assms(2)])
  consider "r \<le> length G" "ns = G" | "length G < r" "G = [] \<or> length G + length Y \<le> r" "ns = G @ Y"
    | "length G < r" "r < length G + length Y" "yellow_loop (r - length G) Y yd [] G = Some ns"
    using assms(1) by (auto simp: getSliceOptimalNodes_def Let_def G_def Y_def split: if_splits)
  then show ?thesis
  proof cases
    case 3
    then have "Y \<noteq> []" by auto
    from yellow_loop_facts[OF 3(3) _ this] obtain ex where
      "ns = G @ ex" "length ex = r - length G" "set ex \<subseteq> set Y" "distinct (map nd_ID ex)" by auto
    with 3 d show ?thesis by auto
  qed (use d in auto)
qed

lemma map_nth_distinct: "distinct (map f ns) \<Longrightarrow> distinct is' \<Longrightarrow> \<forall>i \<in> set is'. i < length ns \<Longrightarrow>
    distinct (map f (map ((!) ns) is'))"
  by (auto simp: distinct_map inj_on_def nth_eq_iff_index_eq distinct_conv_nth) 

lemma Select_facts:
  assumes "Select yd draws hs r = Some (Inr sel)" and "distinct (map (nd_ID \<circ> nh_Node) hs)"
  defines "G \<equiv> with_health NodeHealthGood hs" and "Y \<equiv> with_health NodeHealthMedium hs"
  shows "distinct (map nd_ID sel) \<and> set sel \<subseteq> set G \<union> set Y \<and> length sel = min (unat r) (length G + length Y) \<and>
    (set sel \<subseteq> set G \<or> set G \<subseteq> set sel)"
proof -
  from assms(1) obtain ns where o: "getSliceOptimalNodes yd hs (unat r) = Some ns" and
    s: "select_loop (unat r) ns draws [] [] = Some sel"
    by (auto simp: Select_def Let_def split: if_splits bind_splits)
  note f = getSliceOptimalNodes_facts[OF o assms(2), folded G_def Y_def]
  from select_loop_facts[OF s] obtain is' where
    i: "sel = map ((!) ns) is'" "distinct is'" "\<forall>i \<in> set is'. i < length ns" "length is' = min (unat r) (length ns)" by auto
  have sub: "set sel \<subseteq> set ns" using i by auto
  have "distinct (map nd_ID sel)" unfolding i(1) by (rule map_nth_distinct[OF _ i(2,3)]) (use f in blast)
  moreover have "set sel \<subseteq> set G \<or> set G \<subseteq> set sel"
  proof (cases "ns = G \<or> G = []")
    case False
    with f have "set G \<subseteq> set ns" "length ns \<le> unat r" by auto
    moreover from this i have "set is' = {..<length ns}"
      by (intro card_subset_eq) (auto simp: distinct_card)
    then have "set ns \<subseteq> set sel" by (auto simp: i(1) in_set_conv_nth)
    ultimately show ?thesis by blast
  qed (use sub in auto)
  ultimately show ?thesis using f sub i(1,4) by auto
qed

end
