(* ===== verification/EngWrite.thy ===== *)
theory EngWrite
  imports EngCopier XdbContract
begin

text \<open>
  Writing a file (\<^verbatim>\<open>xdb/engine/handler_write.go\<close>) over the network of storage nodes and the
  ledger of the contract, which is called through \<^verbatim>\<open>xdb/blockchain/xchain/files.go\<close>.
\<close>

section \<open>The client of the chain\<close>

text \<open>
  A call that fails leaves the ledger as it is. Arguments and results travel as the JSON that the
  contract takes and returns.
\<close>

definition InvokeContract :: "('l, 'a) act \<Rightarrow> 'l \<Rightarrow> 'a result \<times> 'l" where
  "InvokeContract m l = (case m l of (Inl e, _) \<Rightarrow> (Inl e, l) | (Inr x, l') \<Rightarrow> (Inr x, l'))"

definition QueryContract :: "env \<Rightarrow> (json \<Rightarrow> 'a option) \<Rightarrow> ('l, blob) act \<Rightarrow> 'l \<Rightarrow> 'a result" where
  "QueryContract E d m l =
     rbind (fst (m l)) (\<lambda>b. case unmarshal E d b of None \<Rightarrow> Inl (Errx ErrCodeInternal) | Some x \<Rightarrow> Inr x)"

definition xchain_PublishFile :: "'l chain_ops \<Rightarrow> env \<Rightarrow> PublishFileOptions \<Rightarrow> 'l \<Rightarrow> unit result \<times> 'l" where
  "xchain_PublishFile C E opt l =
     (case InvokeContract (PublishFile C E (Got opt)) l of (r, l') \<Rightarrow> (rbind r (\<lambda>_. Inr ()), l'))"

definition xchain_GetFileByID :: "'l chain_ops \<Rightarrow> env \<Rightarrow> int64 \<Rightarrow> 'l \<Rightarrow> string \<Rightarrow> File result" where
  "xchain_GetFileByID C E now l i = QueryContract E dec_File (GetFileByID C E (Some i) (Some (FormatInt now))) l"

definition xchain_GetFileByName :: "'l chain_ops \<Rightarrow> env \<Rightarrow> int64 \<Rightarrow> 'l \<Rightarrow> bytes \<Rightarrow> string \<Rightarrow> string \<Rightarrow> File result" where
  "xchain_GetFileByName C E now l owner ns name =
     QueryContract E dec_File (GetFileByName C E (Some owner) (Some ns) (Some name) (Some (FormatInt now))) l"

definition xchain_GetNsByName :: "'l chain_ops \<Rightarrow> env \<Rightarrow> 'l \<Rightarrow> bytes \<Rightarrow> string \<Rightarrow> Namespace result" where
  "xchain_GetNsByName C E l owner name = QueryContract E dec_Namespace (GetNsByName C (Some owner) (Some name)) l"

definition xchain_ListNodes :: "'l chain_ops \<Rightarrow> env \<Rightarrow> 'l \<Rightarrow> Node list result" where
  "xchain_ListNodes C E l = fst (ListNodes C E l)"

text \<open>The queries that reading makes, on a state of the ledger.\<close>

definition ledger_reads :: "'l chain_ops \<Rightarrow> env \<Rightarrow> int64 \<Rightarrow> 'l \<Rightarrow> chain_reads" where
  "ledger_reads C E now l =
     \<lparr>cr_ListNodes = xchain_ListNodes C E l, cr_GetFileByID = xchain_GetFileByID C E now l,
      cr_GetFileByName = xchain_GetFileByName C E now l\<rparr>"

text \<open>What the engine relies on: a published file is there until it expires.\<close>

locale file_ledger =
  fixes publish :: "PublishFileOptions \<Rightarrow> 'l \<Rightarrow> unit result \<times> 'l"
    and get_file :: "int64 \<Rightarrow> 'l \<Rightarrow> string \<Rightarrow> File result"
    and good_id :: "string \<Rightarrow> bool"
  assumes published: "publish opt l = (Inr u, l') \<Longrightarrow> good_id (f_ID (pfo_File opt)) \<Longrightarrow>
      now \<le>s f_ExpireTime (pfo_File opt) \<Longrightarrow> get_file now l' (f_ID (pfo_File opt)) = Inr (pfo_File opt)"
    and refused: "publish opt l = (Inl e, l') \<Longrightarrow> l' = l"
begin

lemma published_or_unchanged: "publish opt l = (r, l') \<Longrightarrow> good_id (f_ID (pfo_File opt)) \<Longrightarrow>
    now \<le>s f_ExpireTime (pfo_File opt) \<Longrightarrow> l' = l \<or> get_file now l' (f_ID (pfo_File opt)) = Inr (pfo_File opt)"
  by (cases r) (auto dest: refused published)

end

lemma xchain_PublishFile_ok: "xchain_PublishFile C E opt l = (Inr u, l') \<longleftrightarrow>
    (\<exists>r. PublishFile C E (Got opt) l = (Inr r, l'))"
  by (auto simp: xchain_PublishFile_def InvokeContract_def rbind_ok split: prod.splits sum.splits)

interpretation ledger: file_ledger "xchain_PublishFile mem_chain E" "xchain_GetFileByID mem_chain E" plain_id
proof
  fix opt :: PublishFileOptions and l l' :: store and u now
  assume "xchain_PublishFile mem_chain E opt l = (Inr u, l')" and id: "plain_id (f_ID (pfo_File opt))"
    and t: "now \<le>s f_ExpireTime (pfo_File opt)"
  then obtain r where "PublishFile mem_chain E (Got opt) l = (Inr r, l')" by (auto simp: xchain_PublishFile_ok)
  from mem.PublishFile_stores(1)[OF this id] t
  show "xchain_GetFileByID mem_chain E now l' (f_ID (pfo_File opt)) = Inr (pfo_File opt)"
    by (simp add: xchain_GetFileByID_def QueryContract_def GetFileByID_def getCtxTime_def act_defs file_at_def sless_le)
next
  fix opt :: PublishFileOptions and l l' :: store and e
  assume "xchain_PublishFile mem_chain E opt l = (Inl e, l')"
  then show "l' = l"
    by (auto simp: xchain_PublishFile_def InvokeContract_def split: prod.splits sum.splits)
qed

section \<open>Locating and encrypting\<close>

text \<open>
  The routines of the pipeline run concurrently; an error stops the routine in which it occurs and
  the slices before it go on. \<open>None\<close> when a choice of nodes does not end.
\<close>

fun locate_slices :: "(nat \<Rightarrow> nat list \<times> nat list) \<Rightarrow> NodeH list \<Rightarrow> 32 word \<Rightarrow> nat \<Rightarrow> Slice list \<Rightarrow>
    ((Slice \<times> Node list) list \<times> fault option) option" where
  "locate_slices draws nodes replica i [] = Some ([], None)"
| "locate_slices draws nodes replica i (s # ss) =
     (case Select (fst (draws i)) (snd (draws i)) nodes replica of
        None \<Rightarrow> None
      | Some (Inl e) \<Rightarrow> Some ([], Some e)
      | Some (Inr ns) \<Rightarrow> map_option (\<lambda>(l, e). ((s, ns) # l, e)) (locate_slices draws nodes replica (i + 1) ss))"

definition slice_node_pairs :: "(Slice \<times> Node list) list \<Rightarrow> (Slice \<times> Node) list" where
  "slice_node_pairs located = concat (map (\<lambda>(s, ns). map (Pair s) ns) located)"

fun encrypt_slices :: "engine \<Rightarrow> string \<Rightarrow> (Slice \<times> Node) list \<Rightarrow> EncryptedSlice list \<times> fault option" where
  "encrypt_slices en fileID [] = ([], None)"
| "encrypt_slices en fileID ((s, n) # r) =
     (case SoftEncrypt (en_K en) (en_soft en) (sl_Data s) (slice_opts fileID (sl_ID s) (nd_ID n)) of
        Inl e \<Rightarrow> ([], Some e)
      | Inr es \<Rightarrow> (case encrypt_slices en fileID r of (l, e) \<Rightarrow> (es # l, e)))"

section \<open>Distributing\<close>

definition zero_Node :: Node where
  "zero_Node = \<lparr>nd_ID = [], nd_Name = [], nd_Address = [], nd_Online = False, nd_RegTime = 0, nd_UpdateAt = 0\<rparr>"

definition node_or_zero :: "(bytes \<Rightarrow> Node option) \<Rightarrow> bytes \<Rightarrow> Node" where
  "node_or_zero nodes nodeID = (case nodes nodeID of None \<Rightarrow> zero_Node | Some n \<Rightarrow> n)"

text \<open>The slices that were taken, with their storage indexes, and those that were not.\<close>

fun distribute :: "'s net_env \<Rightarrow> string \<Rightarrow> (bytes \<Rightarrow> Node option) \<Rightarrow> (nat \<Rightarrow> attempt) \<Rightarrow> nat \<Rightarrow> EncryptedSlice list \<Rightarrow>
    's network \<Rightarrow> (EncryptedSlice \<times> string) list \<times> EncryptedSlice list \<times> 's network" where
  "distribute NE owner nodes atts i [] net = ([], [], net)"
| "distribute NE owner nodes atts i (es # r) net =
     (case copier_Push NE (atts i) (es_SliceID es) owner (es_CipherText es) (node_or_zero nodes (es_NodeID es)) net of
        (Inl _, _, net') \<Rightarrow> (case distribute NE owner nodes atts (i + 1) r net' of (fin, failed, net'') \<Rightarrow> (fin, es # failed, net''))
      | (Inr sIdx, _, net') \<Rightarrow>
          (case distribute NE owner nodes atts (i + 1) r net' of (fin, failed, net'') \<Rightarrow> ((es, sIdx) # fin, failed, net'')))"

text \<open>The tries of one slice, as many as the clock allows; all of them read the same reader.\<close>

fun retry_push :: "'s net_env \<Rightarrow> string \<Rightarrow> string \<Rightarrow> Node \<Rightarrow> attempt list \<Rightarrow> bytes \<Rightarrow> 's network \<Rightarrow> string option \<times> 's network" where
  "retry_push NE owner sliceID node [] dataReader net = (None, net)"
| "retry_push NE owner sliceID node (a # atts) dataReader net =
     (case copier_Push NE a sliceID owner dataReader node net of
        (Inr sIdx, _, net') \<Rightarrow> (Some sIdx, net')
      | (Inl _, rest, net') \<Rightarrow> retry_push NE owner sliceID node atts rest net')"

fun retryRoutine :: "'s net_env \<Rightarrow> string \<Rightarrow> (bytes \<Rightarrow> Node option) \<Rightarrow> (nat \<Rightarrow> attempt list) \<Rightarrow> nat \<Rightarrow> EncryptedSlice list \<Rightarrow>
    's network \<Rightarrow> (EncryptedSlice \<times> string) list \<times> EncryptedSlice list \<times> 's network" where
  "retryRoutine NE owner nodes atts i [] net = ([], [], net)"
| "retryRoutine NE owner nodes atts i (es # r) net =
     (case retry_push NE owner (es_SliceID es) (node_or_zero nodes (es_NodeID es)) (atts i) (es_CipherText es) net of
        (None, net') \<Rightarrow> (case retryRoutine NE owner nodes atts (i + 1) r net' of (fin, failed, net'') \<Rightarrow> (fin, es # failed, net''))
      | (Some sIdx, net') \<Rightarrow>
          (case retryRoutine NE owner nodes atts (i + 1) r net' of (fin, failed, net'') \<Rightarrow> ((es, sIdx) # fin, failed, net'')))"

text \<open>
  The candidates in turn: the slice is decrypted, encrypted for the candidate and pushed to it. The
  result names the nodes that were tried; no candidate taking it is an error.
\<close>

fun push_to_one :: "engine \<Rightarrow> 's net_env \<Rightarrow> string \<Rightarrow> string \<Rightarrow> EncryptedSlice \<Rightarrow> (nat \<Rightarrow> attempt) \<Rightarrow> Node list \<Rightarrow> 's network \<Rightarrow>
    ((EncryptedSlice \<times> string) \<times> bytes list) result \<times> 's network" where
  "push_to_one en NE owner fileID sl atts [] net = (Inl (Errx ErrCodeInternal), net)"
| "push_to_one en NE owner fileID sl atts (node # nodeList) net =
     (case rbind (Recover (en_K en) (en_soft en) (es_CipherText sl) (slice_opts fileID (es_SliceID sl) (es_NodeID sl)))
         (\<lambda>plain. SoftEncrypt (en_K en) (en_soft en) plain (slice_opts fileID (es_SliceID sl) (nd_ID node))) of
        Inl e \<Rightarrow> (Inl e, net)
      | Inr es \<Rightarrow>
          (case copier_Push NE (atts 0) (es_SliceID es) owner (es_CipherText es) node net of
             (Inr sIdx, _, net') \<Rightarrow> (Inr ((es, sIdx), [nd_ID node]), net')
           | (Inl _, _, net') \<Rightarrow>
               (case push_to_one en NE owner fileID sl (\<lambda>i. atts (i + 1)) nodeList net' of
                  (r, net'') \<Rightarrow> (rbind r (\<lambda>(x, tried). Inr (x, nd_ID node # tried)), net''))))"

definition add_selected :: "(string \<Rightarrow> bytes list) \<Rightarrow> string \<Rightarrow> bytes list \<Rightarrow> string \<Rightarrow> bytes list" where
  "add_selected m i ns = m(i := m i @ ns)"

record other_round =
  or_green :: "(nat \<times> nat) list"
  or_yellow :: "(nat \<times> nat) list"
  or_attempts :: "nat \<Rightarrow> attempt"

fun others_loop :: "engine \<Rightarrow> 's net_env \<Rightarrow> string \<Rightarrow> string \<Rightarrow> NodeH list \<Rightarrow> (nat \<Rightarrow> other_round) \<Rightarrow> nat \<Rightarrow>
    EncryptedSlice list \<Rightarrow> (string \<Rightarrow> bytes list) \<Rightarrow> 's network \<Rightarrow> (EncryptedSlice \<times> string) list result \<times> 's network" where
  "others_loop en NE owner fileID nodes rounds i [] alreadySelected net = (Inr [], net)"
| "others_loop en NE owner fileID nodes rounds i (sl # failedSlices) alreadySelected net =
     (let alreadySelected = add_selected alreadySelected (es_SliceID sl) [es_NodeID sl] in
      case FindNewNodes (or_green (rounds i)) (or_yellow (rounds i)) nodes (alreadySelected (es_SliceID sl)) of
        Inl e \<Rightarrow> (Inl e, net)
      | Inr nodeList \<Rightarrow>
          (case push_to_one en NE owner fileID sl (or_attempts (rounds i)) nodeList net of
             (Inl e, net') \<Rightarrow> (Inl e, net')
           | (Inr (x, tried), net') \<Rightarrow>
               (case others_loop en NE owner fileID nodes rounds (i + 1) failedSlices
                    (add_selected alreadySelected (es_SliceID sl) tried) net' of
                  (r, net'') \<Rightarrow> (rbind r (\<lambda>xs. Inr (x # xs)), net''))))"

definition pushToOtherNode :: "engine \<Rightarrow> 's net_env \<Rightarrow> string \<Rightarrow> string \<Rightarrow> EncryptedSlice list \<Rightarrow> EncryptedSlice list \<Rightarrow>
    NodeH list \<Rightarrow> (nat \<Rightarrow> other_round) \<Rightarrow> 's network \<Rightarrow> (EncryptedSlice \<times> string) list result \<times> 's network" where
  "pushToOtherNode en NE owner fileID failedSlices finishedEncSlices nodes rounds net =
     others_loop en NE owner fileID nodes rounds 0 failedSlices
       (fold (\<lambda>s m. add_selected m (es_SliceID s) [es_NodeID s]) finishedEncSlices (\<lambda>_. [])) net"

section \<open>Writing\<close>

definition enc_WriteOptions :: "WriteOptions \<Rightarrow> json" where
  "enc_WriteOptions o' = JObj
     [(''user'', JStr (wo_User o')), (''ns'', JStr (wo_Namespace o')), (''name'', JStr (wo_FileName o')),
      (''expireTime'', enc_int (wo_ExpireTime o')), (''desc'', JStr (wo_Description o')), (''ext'', JStr (wo_Extra o'))]"

text \<open>
  What is drawn during one write: the identifiers, the choices of nodes, the order in which the
  encrypted slices get through the queue, what becomes of the pushes, and the mixing of the list that
  is published. The configuration: the slicer, the challenges, and the challenge material for what
  was stored, of which only failing matters here.
\<close>

record write_env =
  we_now :: int64
  we_fileID :: string
  we_uuid :: "nat \<Rightarrow> string"
  we_select :: "nat \<Rightarrow> nat list \<times> nat list"
  we_queue :: "EncryptedSlice list \<Rightarrow> EncryptedSlice list"
  we_push :: "nat \<Rightarrow> attempt"
  we_retry :: "nat \<Rightarrow> attempt list"
  we_other :: "nat \<Rightarrow> other_round"
  we_mix :: "(nat \<times> nat) list"
  we_slicer :: SimpleSlicer
  we_algorithm :: string
  we_pairing :: PairingChallengeConf
  we_material :: "(EncryptedSlice \<times> string) list \<Rightarrow> unit result"

record ('l, 's) system =
  sys_ledger :: 'l
  sys_net :: "'s network"

text \<open>The checks before anything is written: the namespace, the nodes and the ciphertext.\<close>

definition write_checks :: "'l chain_ops \<Rightarrow> engine \<Rightarrow> health_reads \<Rightarrow> write_env \<Rightarrow> WriteOptions \<Rightarrow> bytes \<Rightarrow> 'l \<Rightarrow>
    (Namespace \<times> NodeH list \<times> EncryptedSlice) result" where
  "write_checks C en H we opt r l =
     rbind (verifyUserID en (wo_User opt)) (\<lambda>_.
     rbind (case GetSigMessage (enc_WriteOptions opt) of None \<Rightarrow> Inl (Errx ErrCodeInternal) | Some msg \<Rightarrow> Inr msg) (\<lambda>msg.
     rbind (verifyUserToken en (wo_User opt) (wo_Token opt) (sha256 (en_E en) msg)) (\<lambda>_.
     rbind (case xchain_GetFileByName C (en_E en) (we_now we) l (en_pubkey en) (wo_Namespace opt) (wo_FileName opt) of
         Inr _ \<Rightarrow> Inl (Errx ErrCodeAlreadyExists)
       | Inl e \<Rightarrow> if e = Errx ErrCodeNotFound then Inr () else Inl e) (\<lambda>_.
     rbind (xchain_GetNsByName C (en_E en) l (en_pubkey en) (wo_Namespace opt)) (\<lambda>ns.
     rbind (GetHealthNodes H) (\<lambda>nodes.
     if of_nat (length nodes) <s ns_Replica ns then Inl (Errx ErrCodeInternal)
     else rbind (recode ErrCodeCrypto (SoftEncrypt (en_K en) (en_soft en) r (file_opts (we_fileID we)))) (\<lambda>cipher.
       Inr (ns, nodes, cipher))))))))"

definition sign_publish :: "engine \<Rightarrow> 's net_env \<Rightarrow> File \<Rightarrow> PublishFileOptions result" where
  "sign_publish en NE f =
     (let opt = \<lparr>pfo_File = f, pfo_Signature = []\<rparr> in
      case GetSigMessage (enc_PublishFileOptions opt) of None \<Rightarrow> Inl (Errx ErrCodeInternal)
      | Some msg \<Rightarrow> Inr (opt\<lparr>pfo_Signature := ne_sign NE (sha256 (en_E en) msg)\<rparr>))"

text \<open>The end of a write: what has been stored goes into a file that is signed and published.\<close>

definition write_publish :: "'l chain_ops \<Rightarrow> engine \<Rightarrow> 's net_env \<Rightarrow> write_env \<Rightarrow> WriteOptions \<Rightarrow> Slice list \<Rightarrow> nat \<Rightarrow>
    (EncryptedSlice \<times> string) list \<Rightarrow> 'l \<Rightarrow> string result \<times> 'l" where
  "write_publish C en NE we opt slices originalLen finished l =
     (case rbind (we_material we finished) (\<lambda>_.
           rbind (packChainFile en (we_mix we) (we_now we) (we_fileID we) (we_algorithm we) opt slices originalLen
             (map fst finished) (map snd finished) (we_pairing we)) (sign_publish en NE)) of
        Inl e \<Rightarrow> (Inl e, l)
      | Inr opts \<Rightarrow> (case xchain_PublishFile C (en_E en) opts l of
          (r, l') \<Rightarrow> (rbind r (\<lambda>_. Inr (we_fileID we)), l')))"

text \<open>
  The queue of failed pushes holds ten slices and is emptied only after the distribution has ended,
  so with more failures the distribution blocks on it and the write does not return.
\<close>

definition failed_queue_size :: nat where
  "failed_queue_size = 10"

definition Write :: "'l chain_ops \<Rightarrow> engine \<Rightarrow> 's net_env \<Rightarrow> health_reads \<Rightarrow> write_env \<Rightarrow> WriteOptions \<Rightarrow> bytes \<Rightarrow>
    ('l, 's) system \<Rightarrow> (string result \<times> ('l, 's) system) option" where
  "Write C en NE H we opt r sys =
     (case write_checks C en H we opt r (sys_ledger sys) of
        Inl e \<Rightarrow> Some (Inl e, sys)
      | Inr (ns, nodes, cipher) \<Rightarrow>
          let opt = opt\<lparr>wo_User := hex (en_pubkey en)\<rparr>; nodesMap = ToNodeHsMap nodes; fileID = we_fileID we in
          Option.bind (SimpleSlice (en_E en) (we_slicer we) (we_uuid we) (es_CipherText cipher)) (\<lambda>slices.
          Option.bind (locate_slices (we_select we) nodes (ucast (ns_Replica ns)) 0 slices) (\<lambda>(located, err1).
          case encrypt_slices en fileID (slice_node_pairs located) of (encs, err2) \<Rightarrow>
          case distribute NE (wo_User opt) nodesMap (we_push we) 0 (we_queue we encs) (sys_net sys) of (fin1, failed, net1) \<Rightarrow>
          if failed_queue_size < length failed then None
          else case retryRoutine NE (wo_User opt) nodesMap (we_retry we) 0 failed net1 of (fin2, failedTwice, net2) \<Rightarrow>
          case pushToOtherNode en NE (wo_User opt) fileID failedTwice (map fst (fin1 @ fin2)) nodes (we_other we) net2 of
            (r3, net3) \<Rightarrow>
          (case (err1, err2, r3) of
             (None, None, Inr fin3) \<Rightarrow>
               (case write_publish C en NE we opt slices (length (es_CipherText cipher) - 16) (fin1 @ fin2 @ fin3) (sys_ledger sys) of
                  (res, l) \<Rightarrow> Some (res, \<lparr>sys_ledger = l, sys_net = net3\<rparr>))
           | (_, _, Inl e) \<Rightarrow> Some (Inl e, sys\<lparr>sys_net := net3\<rparr>)
           | (_, Some e, _) \<Rightarrow> Some (Inl e, sys\<lparr>sys_net := net3\<rparr>)
           | (Some e, _, _) \<Rightarrow> Some (Inl e, sys\<lparr>sys_net := net3\<rparr>)))))"

end
