(* ===== verification/EngRoundtrip.thy ===== *)
theory EngRoundtrip
  imports EngWrite "HOL-Library.Multiset"
begin

text \<open>
  Reading a stored file: what the owner and an authorized executor get back of a file that was cut,
  encrypted, spread over nodes and published.
\<close>

section \<open>Cutting and trimming\<close>

abbreviation "zero \<equiv> CHR 0x00"

lemma TrimRight_append: "TrimRight (a @ b) c = (if TrimRight b c = [] then TrimRight a c else a @ TrimRight b c)"
proof -
  have "dropWhile (\<lambda>x. x = c) (rev b @ rev a) =
      (if \<forall>x \<in> set b. x = c then dropWhile (\<lambda>x. x = c) (rev a) else dropWhile (\<lambda>x. x = c) (rev b) @ rev a)"
    by (simp add: dropWhile_append)
  then show ?thesis by (auto simp: TrimRight_def)
qed

lemma TrimRight_replicate: "TrimRight (s @ replicate k c) c = TrimRight s c"
  by (induction k) (simp_all add: replicate_append_same[symmetric] flip: append_assoc)

lemma TrimRight_split: "s = TrimRight s c @ replicate (length s - length (TrimRight s c)) c"
proof (induction s rule: rev_induct)
  case (snoc x s)
  show ?case
  proof (cases "x = c")
    case True
    have l: "length (TrimRight s c) \<le> length s" using length_dropWhile_le[of "\<lambda>x. x = c" "rev s"] by (simp add: TrimRight_def)
    have e: "s @ [c] = TrimRight s c @ replicate (Suc (length s - length (TrimRight s c))) c"
      using arg_cong[OF snoc, of "\<lambda>u. u @ [c]"] by (simp add: replicate_append_same)
    have "TrimRight (s @ [c]) c = TrimRight s c" by simp
    have k: "length (s @ [c]) - length (TrimRight s c) = Suc (length s - length (TrimRight s c))" using l by simp
    show ?thesis unfolding True \<open>TrimRight (s @ [c]) c = TrimRight s c\<close> k by (rule e)
  next
    case False
    then show ?thesis by (simp add: TrimRight_id)
  qed
qed (simp add: TrimRight_def)

lemma TrimRight_eq: "TrimRight s c = s \<longleftrightarrow> s = [] \<or> last s \<noteq> c"
proof
  assume e: "TrimRight s c = s"
  show "s = [] \<or> last s \<noteq> c"
  proof (rule ccontr)
    assume "\<not> (s = [] \<or> last s \<noteq> c)"
    then obtain t where t: "s = t @ [c]" by (metis append_butlast_last_id)
    have "length (TrimRight s c) \<le> length t"
      using length_dropWhile_le[of "\<lambda>x. x = c" "rev t"] by (simp add: t TrimRight_def)
    with e t show False by simp
  qed
qed (rule TrimRight_id)

lemma chunks_sizes: "0 < bs \<Longrightarrow> c \<in> set (chunks bs r) \<Longrightarrow> c \<noteq> [] \<and> length c \<le> bs"
proof (induction bs r rule: chunks.induct)
  case (1 bs r)
  then have ne: "r \<noteq> []" by auto
  with 1 have "c = take bs r \<or> c \<in> set (chunks bs (drop bs r))" by (simp add: chunks.simps[of bs r])
  with 1 ne show ?case by auto
qed

lemma chunks_full: "0 < bs \<Longrightarrow> c \<in> set (butlast (chunks bs r)) \<Longrightarrow> length c = bs"
proof (induction bs r rule: chunks.induct)
  case (1 bs r)
  then have ne: "r \<noteq> []" by auto
  have e: "chunks bs r = take bs r # chunks bs (drop bs r)" using 1(2) ne by (simp add: chunks.simps[of bs r])
  show ?case
  proof (cases "chunks bs (drop bs r) = []")
    case False
    then have "bs < length r" using concat_chunks[OF 1(2), of "drop bs r"] 1(2) by (cases "drop bs r = []") auto
    with 1 ne e False show ?thesis by auto
  qed (use 1 e in simp)
qed

lemma chunks_nonempty: "0 < bs \<Longrightarrow> r \<noteq> [] \<Longrightarrow> chunks bs r \<noteq> []"
  by (simp add: chunks.simps[of bs r])

text \<open>What the readers write for the data of the slices: the index counts from the end.\<close>

fun joined :: "(nat \<Rightarrow> bytes \<Rightarrow> bytes) \<Rightarrow> bytes list \<Rightarrow> bytes" where
  "joined trim [] = []"
| "joined trim (d # ds) = trim (length ds) d @ joined trim ds"

lemma joined_all: "joined (\<lambda>_ d. g d) ds = concat (map g ds)"
  by (induction ds) simp_all

lemma joined_last: "ds \<noteq> [] \<Longrightarrow> joined (\<lambda>left d. if left \<noteq> 0 then d else g d) ds = concat (butlast ds) @ g (last ds)"
  by (induction ds) auto

lemma concat_trimmed:
  assumes "\<forall>c \<in> set (butlast cs). c \<noteq> [] \<and> last c \<noteq> z" and "cs \<noteq> []"
  shows "concat (map (\<lambda>c. TrimRight c z) cs) = TrimRight (concat cs) z"
proof -
  obtain bs l where cs: "cs = bs @ [l]" using assms(2) by (metis append_butlast_last_id)
  have "map (\<lambda>c. TrimRight c z) bs = bs" using assms(1) by (intro map_idI) (auto simp: cs intro: TrimRight_id)
  moreover have "TrimRight (concat bs) z = concat bs"
  proof (cases "bs = []")
    case False
    then have l': "last bs \<noteq> [] \<and> last (last bs) \<noteq> z" using assms(1) cs by simp
    have "concat bs = concat (butlast bs) @ last bs"
      using False by (subst append_butlast_last_id[symmetric, OF False], subst concat_append) simp
    then have "last (concat bs) = last (last bs)" using l' by simp
    with l' show ?thesis by (simp add: TrimRight_eq)
  qed (simp add: TrimRight_def)
  ultimately show ?thesis by (simp add: cs TrimRight_append)
qed

section \<open>What is on the chain\<close>

definition entry_of :: "PublicSliceMeta \<Rightarrow> EncryptedSlice \<times> string \<Rightarrow> bool" where
  "entry_of t x \<longleftrightarrow> sm_ID t = es_SliceID (fst x) \<and> sm_CipherHash t = es_CipherHash (fst x) \<and>
     sm_Length t = es_Length (fst x) \<and> sm_NodeID t = es_NodeID (fst x) \<and> sm_StorIndex t = snd x"

lemma list_all2_sets: "list_all2 P xs ys \<Longrightarrow> (\<forall>x \<in> set xs. \<exists>y \<in> set ys. P x y) \<and> (\<forall>y \<in> set ys. \<exists>x \<in> set xs. P x y)"
  by (induction xs ys rule: list_all2_induct) auto

lemma chain_slices_entries: "list_all2 entry_of (chain_slices p m zs) zs"
  by (induction p m zs rule: chain_slices.induct) (auto simp: entry_of_def Let_def)

lemma zip_swap: "length xs = length ys \<Longrightarrow> j < length xs \<Longrightarrow> k < length xs \<Longrightarrow>
    zip (swap_at j k xs) (swap_at j k ys) = swap_at j k (zip xs ys)"
  by (simp add: swap_at_def zip_update)

lemma mset_swap_at: "j < length xs \<Longrightarrow> k < length xs \<Longrightarrow> mset (swap_at j k xs) = mset xs"
  unfolding swap_at_def by (rule mset_swap)

lemma rearrange_loop_mset:
  assumes "length es = length st" and "es \<noteq> []" and "rearrange_loop ds es st = (es', st')"
  shows "mset (zip es' st') = mset (zip es st) \<and> length es' = length st' \<and> length es' = length es"
  using assms
proof (induction ds es st rule: rearrange_loop.induct)
  case (2 j k ds es st)
  define j' k' where jk: "j' = j mod length es" "k' = k mod length es"
  have lt: "j' < length es" "k' < length es" using "2.prems"(2) by (simp_all add: jk)
  have "rearrange_loop ds (swap_at j' k' es) (swap_at j' k' st) = (es', st')" using "2.prems"(3) by (simp add: jk Let_def)
  then have "mset (zip es' st') = mset (zip (swap_at j' k' es) (swap_at j' k' st)) \<and> length es' = length st' \<and>
      length es' = length (swap_at j' k' es)"
    unfolding jk by (intro "2.IH"[OF refl]) (use "2.prems" in \<open>simp_all add: swap_at_def\<close>)
  moreover have "mset (zip (swap_at j' k' es) (swap_at j' k' st)) = mset (zip es st)"
    using lt "2.prems"(1) by (simp add: zip_swap mset_swap_at)
  ultimately show ?case by (simp add: swap_at_def)
qed simp

lemma rearrangeEncSlices_mset:
  "length es = length st \<Longrightarrow> rearrangeEncSlices ds es st = (es', st') \<Longrightarrow> mset (zip es' st') = mset (zip es st)"
  by (cases "es = []") (auto simp: rearrangeEncSlices_def dest: rearrange_loop_mset)

definition structure_of :: "('z SliceMeta_scheme) list \<Rightarrow> PrivateSliceMeta list" where
  "structure_of ss = map (\<lambda>s. \<lparr>pm_SliceID = sl_ID s, pm_PlainHash = sl_Hash s\<rparr>) ss"

lemma packChainFile_facts:
  assumes "packChainFile en draws now fileID alg opt ss len fin stor conf = Inr f" and "crypt_laws (en_K en)"
    and "length fin = length stor"
  shows "f_ID f = fileID \<and> f_Owner f = owner_bytes (wo_User opt) \<and> f_Length f = of_nat len \<and> f_ExpireTime f = wo_ExpireTime opt \<and>
    f_Structure f = sealed (en_K en) (en_soft en) (file_opts fileID) (FileStructure_Marshal (structure_of ss))"
    and "\<exists>xs. mset xs = mset (zip fin stor) \<and> list_all2 entry_of (f_Slices f) xs"
proof -
  obtain es' st' where r: "rearrangeEncSlices draws fin stor = (es', st')" by fastforce
  from assms(1) r have f: "f_Slices f = chain_slices (alg = ''Pairing'') Map.empty (zip es' st')" "f_ID f = fileID"
    "f_Owner f = owner_bytes (wo_User opt)" "f_Length f = of_nat len" "f_ExpireTime f = wo_ExpireTime opt"
    "packChainFileStructure en ss fileID = Inr (f_Structure f)"
    by (auto simp: packChainFile_def rbind_ok Let_def)
  have "f_Structure f = sealed (en_K en) (en_soft en) (file_opts fileID) (FileStructure_Marshal (structure_of ss))"
    using f(6) SoftEncrypt_sealed[OF assms(2)] by (simp add: packChainFileStructure_def structure_of_def Let_def)
  with f show "f_ID f = fileID \<and> f_Owner f = owner_bytes (wo_User opt) \<and> f_Length f = of_nat len \<and> f_ExpireTime f = wo_ExpireTime opt \<and>
    f_Structure f = sealed (en_K en) (en_soft en) (file_opts fileID) (FileStructure_Marshal (structure_of ss))" by simp
  show "\<exists>xs. mset xs = mset (zip fin stor) \<and> list_all2 entry_of (f_Slices f) xs"
    unfolding f(1) using rearrangeEncSlices_mset[OF assms(3) r] chain_slices_entries by blast
qed

section \<open>Pulling the slices of a file\<close>

text \<open>The encrypted copy of a slice for a node.\<close>

definition copy_of :: "engine \<Rightarrow> string \<Rightarrow> Slice \<Rightarrow> bytes \<Rightarrow> EncryptedSlice" where
  "copy_of en fileID s n = (let c = sealed (en_K en) (en_soft en) (slice_opts fileID (sl_ID s) n) (sl_Data s) in
     \<lparr>es_SliceID = sl_ID s, es_NodeID = n, es_CipherHash = sha256 (en_E en) c, es_Length = of_nat (length c), es_CipherText = c\<rparr>)"

lemma copy_of_simps [simp]: "es_SliceID (copy_of en fileID s n) = sl_ID s" "es_NodeID (copy_of en fileID s n) = n"
  "es_CipherHash (copy_of en fileID s n) = sha256 (en_E en) (es_CipherText (copy_of en fileID s n))"
  "es_Length (copy_of en fileID s n) = of_nat (length (es_CipherText (copy_of en fileID s n)))"
  by (simp_all add: copy_of_def Let_def)

lemma SoftEncrypt_copy: "crypt_laws (en_K en) \<Longrightarrow>
    SoftEncrypt (en_K en) (en_soft en) (sl_Data s) (slice_opts fileID (sl_ID s) n) = Inr (copy_of en fileID s n)"
  by (simp add: SoftEncrypt_sealed copy_of_def slice_opts_def Let_def)

lemma Recover_copy: "crypt_laws (en_K en) \<Longrightarrow>
    Recover (en_K en) (en_soft en) (es_CipherText (copy_of en fileID s n)) (slice_opts fileID (sl_ID s) n) = Inr (sl_Data s)"
  by (simp add: Recover_sealed copy_of_def Let_def)

lemma pull_targets_ok:
  assumes "\<forall>t \<in> set ts. \<forall>n c. nodesMap (sm_NodeID t) = Some n \<and> pull n (sm_ID t) (sm_StorIndex t) fileID = Some c \<and>
      sha256 E c = sm_CipherHash t \<longrightarrow> open_slice t n c = Inr d"
    and "\<exists>t \<in> set ts. \<exists>n c. nodesMap (sm_NodeID t) = Some n \<and> nd_Online n \<and> pull n (sm_ID t) (sm_StorIndex t) fileID = Some c \<and>
      int (length c) = sint (sm_Length t) \<and> sha256 E c = sm_CipherHash t"
  shows "pull_targets E nodesMap pull fileID open_slice ts = Inr (Some d)"
  using assms
proof (induction ts)
  case (Cons t ts)
  let ?go = "\<lambda>n c. nodesMap (sm_NodeID t) = Some n \<and> nd_Online n \<and> pull n (sm_ID t) (sm_StorIndex t) fileID = Some c \<and>
      int (length c) = sint (sm_Length t) \<and> sha256 E c = sm_CipherHash t"
  show ?case
  proof (cases "\<exists>n c. ?go n c")
    case True
    then obtain n c where g: "?go n c" by blast
    with Cons.prems(1) have "open_slice t n c = Inr d" by simp
    with g show ?thesis by (simp add: Let_def)
  next
    case False
    have "pull_targets E nodesMap pull fileID open_slice ts = Inr (Some d)"
      using Cons.prems False by (intro Cons.IH) auto
    moreover have "open_slice t n c = Inr d" if "nodesMap (sm_NodeID t) = Some n" "pull n (sm_ID t) (sm_StorIndex t) fileID = Some c"
      "sha256 E c = sm_CipherHash t" for n c using Cons.prems(1) that by simp
    ultimately show ?thesis using False
      by (auto simp: Let_def split: option.splits)
  qed
qed simp

lemma read_slices_joined:
  assumes "list_all2 (\<lambda>s d. \<exists>ts. pool (pm_SliceID s) = Some ts \<and> pull_slice ts = Inr (Some d)) fs ds"
  shows "read_slices pool pull_slice trim fs = Inr (joined trim ds)"
  using assms
proof (induction fs ds rule: list_all2_induct)
  case (Cons s fs d ds)
  have "length fs = length ds" using Cons.hyps(2) by (rule list_all2_lengthD)
  with Cons show ?case by auto
qed simp

text \<open>What is known of a published file: its entries are copies of the slices.\<close>

definition entries_of :: "engine \<Rightarrow> Slice list \<Rightarrow> File \<Rightarrow> bool" where
  "entries_of en slices f \<longleftrightarrow> (\<forall>t \<in> set (f_Slices f). \<exists>s \<in> set slices. sm_ID t = sl_ID s \<and>
     sm_CipherHash t = es_CipherHash (copy_of en (f_ID f) s (sm_NodeID t)) \<and>
     sm_Length t = es_Length (copy_of en (f_ID f) s (sm_NodeID t)))"

text \<open>
  For each slice some replica answers with bytes of the published hash, and bytes of a published hash
  are the copy.
\<close>

definition replica_answers :: "engine \<Rightarrow> (bytes \<Rightarrow> Node option) \<Rightarrow> net_pull \<Rightarrow> File \<Rightarrow> PublicSliceMeta \<Rightarrow> bool" where
  "replica_answers en nodesMap pull f t \<longleftrightarrow> (\<exists>n c. nodesMap (sm_NodeID t) = Some n \<and> nd_Online n \<and>
     pull n (sm_ID t) (sm_StorIndex t) (f_ID f) = Some c \<and> sha256 (en_E en) c = sm_CipherHash t)"

definition answers_intact :: "engine \<Rightarrow> (bytes \<Rightarrow> Node option) \<Rightarrow> net_pull \<Rightarrow> Slice list \<Rightarrow> File \<Rightarrow> bool" where
  "answers_intact en nodesMap pull slices f \<longleftrightarrow> (\<forall>t \<in> set (f_Slices f). \<forall>s \<in> set slices. \<forall>n c.
     sm_ID t = sl_ID s \<and> nodesMap (sm_NodeID t) = Some n \<and> pull n (sm_ID t) (sm_StorIndex t) (f_ID f) = Some c \<and>
     sha256 (en_E en) c = sm_CipherHash t \<longrightarrow> c = es_CipherText (copy_of en (f_ID f) s (sm_NodeID t)))"

lemma ToNodesMap_id: "ToNodesMap nodes i = Some n \<Longrightarrow> nd_ID n = i \<and> n \<in> set nodes \<and> nd_Online n"
proof -
  have "fold (\<lambda>n m. if nd_Online n then m(nd_ID n \<mapsto> n) else m) nodes m i = Some n \<Longrightarrow>
      m i = Some n \<or> (nd_ID n = i \<and> n \<in> set nodes \<and> nd_Online n)" for m
    by (induction nodes arbitrary: m) (fastforce split: if_splits)+
  from this[of Map.empty] show "ToNodesMap nodes i = Some n \<Longrightarrow> ?thesis" by (simp add: ToNodesMap_def)
qed

lemma sint_of_length: "n < 2 ^ 63 \<Longrightarrow> sint (of_nat n :: int64) = int n"
  by (simp add: signed_of_nat signed_take_bit_int_eq_self)

lemma pulled_slices:
  assumes en: "entries_of en slices f" and ids: "distinct (map sl_ID slices)"
    and short: "\<forall>s \<in> set slices. \<forall>n. length (es_CipherText (copy_of en (f_ID f) s n)) < 2 ^ 63"
    and intact: "answers_intact en nodesMap pull slices f"
    and avail: "\<forall>s \<in> set slices. \<exists>t \<in> set (f_Slices f). sm_ID t = sl_ID s \<and> replica_answers en nodesMap pull f t"
    and op: "\<And>t n s. t \<in> set (f_Slices f) \<Longrightarrow> s \<in> set slices \<Longrightarrow> sm_ID t = sl_ID s \<Longrightarrow> nodesMap (sm_NodeID t) = Some n \<Longrightarrow>
      open_slice t n (es_CipherText (copy_of en (f_ID f) s (sm_NodeID t))) = Inr (sl_Data s)"
  shows "read_slices (makeSlicesPool4Read (f_Slices f)) (pull_targets (en_E en) nodesMap pull (f_ID f) open_slice) trim
      (structure_of slices) = Inr (joined trim (map sl_Data slices))"
proof (rule read_slices_joined)
  have one: "\<exists>ts. makeSlicesPool4Read (f_Slices f) (sl_ID s) = Some ts \<and>
      pull_targets (en_E en) nodesMap pull (f_ID f) open_slice ts = Inr (Some (sl_Data s))" if s: "s \<in> set slices" for s
  proof -
    let ?ts = "filter (\<lambda>t. sm_ID t = sl_ID s) (f_Slices f)"
    obtain t n c where t: "t \<in> set (f_Slices f)" "sm_ID t = sl_ID s" and n: "nodesMap (sm_NodeID t) = Some n" "nd_Online n"
      "pull n (sm_ID t) (sm_StorIndex t) (f_ID f) = Some c" "sha256 (en_E en) c = sm_CipherHash t"
      using avail s by (auto simp: replica_answers_def)
    have entry: "sm_CipherHash u = es_CipherHash (copy_of en (f_ID f) s (sm_NodeID u)) \<and>
        sm_Length u = es_Length (copy_of en (f_ID f) s (sm_NodeID u))" if u: "u \<in> set (f_Slices f)" "sm_ID u = sl_ID s" for u
    proof -
      obtain s' where s': "s' \<in> set slices" "sm_ID u = sl_ID s'" "sm_CipherHash u = es_CipherHash (copy_of en (f_ID f) s' (sm_NodeID u))"
        "sm_Length u = es_Length (copy_of en (f_ID f) s' (sm_NodeID u))" using en u(1) by (auto simp: entries_of_def)
      have "s' = s" using ids s s'(1,2) u(2) by (simp add: distinct_map inj_on_def)
      with s' show ?thesis by simp
    qed
    have same: "c' = es_CipherText (copy_of en (f_ID f) s (sm_NodeID u))"
      if "u \<in> set (f_Slices f)" "sm_ID u = sl_ID s" "nodesMap (sm_NodeID u) = Some m"
        "pull m (sm_ID u) (sm_StorIndex u) (f_ID f) = Some c'" "sha256 (en_E en) c' = sm_CipherHash u" for u m c'
      using intact s that by (auto simp: answers_intact_def)
    have "pull_targets (en_E en) nodesMap pull (f_ID f) open_slice ?ts = Inr (Some (sl_Data s))"
    proof (rule pull_targets_ok)
      show "\<forall>u \<in> set ?ts. \<forall>m c'. nodesMap (sm_NodeID u) = Some m \<and> pull m (sm_ID u) (sm_StorIndex u) (f_ID f) = Some c' \<and>
          sha256 (en_E en) c' = sm_CipherHash u \<longrightarrow> open_slice u m c' = Inr (sl_Data s)"
      proof (intro ballI allI impI, elim conjE)
        fix u m c' assume u: "u \<in> set ?ts" "nodesMap (sm_NodeID u) = Some m"
          "pull m (sm_ID u) (sm_StorIndex u) (f_ID f) = Some c'" "sha256 (en_E en) c' = sm_CipherHash u"
        then have m: "u \<in> set (f_Slices f)" "sm_ID u = sl_ID s" by auto
        show "open_slice u m c' = Inr (sl_Data s)" unfolding same[OF m u(2-4)] by (rule op[OF m(1) s m(2) u(2)])
      qed
      have c: "c = es_CipherText (copy_of en (f_ID f) s (sm_NodeID t))" using same t n by blast
      have "int (length c) = sint (sm_Length t)"
        using entry[OF t] short s unfolding c by (simp add: sint_of_length)
      with t n show "\<exists>u \<in> set ?ts. \<exists>m c'. nodesMap (sm_NodeID u) = Some m \<and> nd_Online m \<and>
          pull m (sm_ID u) (sm_StorIndex u) (f_ID f) = Some c' \<and> int (length c') = sint (sm_Length u) \<and>
          sha256 (en_E en) c' = sm_CipherHash u" by auto
    qed
    with t show ?thesis by (auto simp: makeSlicesPool4Read_def)
  qed
  show "list_all2 (\<lambda>s d. \<exists>ts. makeSlicesPool4Read (f_Slices f) (pm_SliceID s) = Some ts \<and>
      pull_targets (en_E en) nodesMap pull (f_ID f) open_slice ts = Inr (Some d)) (structure_of slices) (map sl_Data slices)"
    unfolding structure_of_def list_all2_map1 list_all2_map2 using one by (auto simp: list_all2_same)
qed

section \<open>The file that is read\<close>

lemma TrimRight_pad: "TrimRight (pad_block bs c) zero = TrimRight c zero"
  by (simp add: pad_block_def TrimRight_replicate)

lemma trimmed_blocks: "concat (map (\<lambda>d. TrimRight d zero) (map (pad_block bs) cs)) = concat (map (\<lambda>c. TrimRight c zero) cs)"
  by (simp add: TrimRight_pad comp_def)

text \<open>No block but the last one ends in a zero byte.\<close>

definition no_inner_zero :: "nat \<Rightarrow> bytes \<Rightarrow> bool" where
  "no_inner_zero bs c \<longleftrightarrow> (\<forall>b \<in> set (butlast (chunks bs c)). last b \<noteq> zero)"

definition trailing_zeros :: "bytes \<Rightarrow> nat" where
  "trailing_zeros c = length c - length (TrimRight c zero)"

lemma length_TrimRight: "length (TrimRight s c) \<le> length s"
  using length_dropWhile_le[of "\<lambda>x. x = c" "rev s"] by (simp add: TrimRight_def)

lemma cut_trimmed:
  assumes "length c < 2 ^ 64"
  shows "cut_to spare (of_nat (length c)) (TrimRight c zero) = (if trailing_zeros c \<le> spare then Inr c else Inl Panicked)"
proof -
  have u: "unat (of_nat (length c) :: 64 word) = length c" using assms by (intro of_nat_inverse) simp_all
  show ?thesis
  proof (cases "length (TrimRight c zero) = length c")
    case True
    then have "TrimRight c zero = c" using TrimRight_split[of c zero] by simp
    then show ?thesis by (simp add: cut_to_def u trailing_zeros_def)
  next
    case False
    then have "length (TrimRight c zero) < length c" using length_TrimRight[of c zero] by simp
    then show ?thesis using TrimRight_split[of c zero] by (auto simp: cut_to_def u trailing_zeros_def)
  qed
qed

lemma chunks_inner: "0 < bs \<Longrightarrow> no_inner_zero bs c \<Longrightarrow> c \<noteq> [] \<Longrightarrow>
    concat (map (\<lambda>b. TrimRight b zero) (chunks bs c)) = TrimRight c zero"
  using concat_trimmed[of "chunks bs c" zero] chunks_sizes[of bs _ c] chunks_nonempty[of bs c] concat_chunks[of bs c]
  by (auto simp: no_inner_zero_def dest: in_set_butlastD)

text \<open>With an inner block that ends in a zero byte the bytes of the file are not those of the ciphertext.\<close>

lemma length_concat_trimmed: "length (concat (map (\<lambda>b. TrimRight b z) cs)) \<le> length (concat cs)"
  by (induction cs) (auto intro: add_mono length_TrimRight)

lemma length_concat_less:
  assumes "b \<in> set cs" and "length (TrimRight b z) < length b"
  shows "length (concat (map (\<lambda>b. TrimRight b z) cs)) < length (concat cs)"
  using assms
proof (induction cs)
  case (Cons a cs)
  show ?case
  proof (cases "b = a")
    case True
    with Cons.prems length_concat_trimmed[of z cs] show ?thesis by simp
  next
    case False
    with Cons have "length (concat (map (\<lambda>b. TrimRight b z) cs)) < length (concat cs)" by simp
    with length_TrimRight[of a z] show ?thesis by (simp add: add_le_less_mono)
  qed
qed simp

lemma TrimRight_shorter: "b \<noteq> [] \<Longrightarrow> last b = z \<Longrightarrow> length (TrimRight b z) < length b"
  using TrimRight_eq[of b z] TrimRight_split[of b z] length_TrimRight[of b z] by (metis append_Nil2 diff_is_0_eq' le_neq_implies_less replicate_0 order_refl)

lemma cut_inner_zero:
  assumes "0 < bs" and "\<not> no_inner_zero bs c" and "last c \<noteq> zero" and "length c < 2 ^ 64"
  shows "cut_to spare (of_nat (length c)) (concat (map (\<lambda>b. TrimRight b zero) (chunks bs c))) \<noteq> Inr c"
proof -
  let ?d = "concat (map (\<lambda>b. TrimRight b zero) (chunks bs c))"
  have u: "unat (of_nat (length c) :: 64 word) = length c" using assms(4) by (intro of_nat_inverse) simp_all
  from assms(2) obtain b where b: "b \<in> set (butlast (chunks bs c))" "last b = zero" by (auto simp: no_inner_zero_def)
  then have b': "b \<in> set (chunks bs c)" by (auto dest: in_set_butlastD)
  then have "b \<noteq> []" using chunks_sizes[OF assms(1)] by blast
  then have lt: "length ?d < length c"
    using length_concat_less[OF b' TrimRight_shorter[of b zero]] b(2) concat_chunks[OF assms(1), of c] by simp
  then have "last (?d @ replicate (length c - length ?d) zero) = zero" by simp
  then have "?d @ replicate (length c - length ?d) zero \<noteq> c" using assms(3) by metis
  with lt show ?thesis by (simp add: cut_to_def u)
qed

text \<open>The requests that the owner's engine lets through.\<close>

definition read_granted :: "engine \<Rightarrow> chain_reads \<Rightarrow> int64 \<Rightarrow> ReadOptions \<Rightarrow> Node list \<Rightarrow> File \<Rightarrow> bool" where
  "read_granted en C now opt nodes f \<longleftrightarrow> verifyUserID en (ro_User opt) = Inr () \<and> verifyReadToken en now opt = Inr () \<and>
     cr_ListNodes C = Inr nodes \<and> filter nd_Online nodes \<noteq> [] \<and> ro_FileID opt = f_ID f \<and> f_ID f \<noteq> [] \<and>
     cr_GetFileByID C (f_ID f) = Inr f \<and> f_Owner f = en_pubkey en"

definition readable_json :: "env \<Rightarrow> Slice list \<Rightarrow> bool" where
  "readable_json E slices \<longleftrightarrow>
     parse_json E (FileStructure_Marshal (structure_of slices)) = Some (JArr (map enc_PrivateSliceMeta (structure_of slices)))"

lemma FileStructure_back: "readable_json E slices \<Longrightarrow> FileStructure_Parse E (FileStructure_Marshal (structure_of slices)) = Some (structure_of slices)"
  by (simp add: readable_json_def FileStructure_Parse_def dec_all_map)

lemma Read_value:
  assumes K: "crypt_laws (en_K en)" and g: "read_granted en C now opt nodes f"
    and st: "f_Structure f = sealed (en_K en) (en_soft en) (file_opts (f_ID f)) (FileStructure_Marshal (structure_of slices))"
    and js: "readable_json (en_E en) slices" and ne: "slices \<noteq> []"
    and parts: "entries_of en slices f" "distinct (map sl_ID slices)"
      "\<forall>s \<in> set slices. \<forall>n. length (es_CipherText (copy_of en (f_ID f) s n)) < 2 ^ 63"
      "answers_intact en (ToNodesMap (filter nd_Online nodes)) pull slices f"
      "\<forall>s \<in> set slices. \<exists>t \<in> set (f_Slices f). sm_ID t = sl_ID s \<and> replica_answers en (ToNodesMap (filter nd_Online nodes)) pull f t"
  shows "Read en C pull now spare opt = Some (rbind (cut_to spare (f_Length f + 16)
      (concat (map (\<lambda>d. TrimRight d zero) (map sl_Data slices)))) (\<lambda>c.
      recode ErrCodeCrypto (Recover (en_K en) (en_soft en) c (file_opts (f_ID f)))))"
proof -
  let ?m = "ToNodesMap (filter nd_Online nodes)"
  have ps: "read_slices (makeSlicesPool4Read (f_Slices f)) (pull_targets (en_E en) ?m pull (f_ID f)
      (\<lambda>target node c. Recover (en_K en) (en_soft en) c \<lparr>eo_FileID = f_ID f, eo_SliceID = sm_ID target, eo_NodeID = sm_NodeID target\<rparr>))
      (\<lambda>_ d. TrimRight d zero) (structure_of slices) = Inr (joined (\<lambda>_ d. TrimRight d zero) (map sl_Data slices))"
    by (rule pulled_slices[OF parts]) (use Recover_copy[OF K] in \<open>simp add: slice_opts_def\<close>)
  have "structure_of slices \<noteq> []" using ne by (simp add: structure_of_def)
  with g ps show ?thesis
    by (simp add: Read_def read_granted_def Let_def getBlockchainFile4Read_def recoverChainFileStructure_def st
        Recover_sealed[OF K, THEN iffD2, OF refl] FileStructure_back[OF js] joined_all)
qed

end
