(* ===== verification/EngSpread.thy ===== *)
theory EngSpread
  imports EngRoundtrip
begin

text \<open>
  What a write stores: which copies of the slices are made, on which nodes they end up, and that what
  the nodes acknowledged in the first round can be pulled.
\<close>

section \<open>Copies and nodes\<close>

text \<open>The nodes that hold a slice, by a list of stored copies.\<close>

definition nodes_of :: "string \<Rightarrow> EncryptedSlice list \<Rightarrow> bytes list" where
  "nodes_of i ess = map es_NodeID (filter (\<lambda>e. es_SliceID e = i) ess)"

lemma nodes_of_simps [simp]: "nodes_of i [] = []" "nodes_of i (xs @ ys) = nodes_of i xs @ nodes_of i ys"
  "nodes_of i (e # es) = (if es_SliceID e = i then es_NodeID e # nodes_of i es else nodes_of i es)"
  by (simp_all add: nodes_of_def)

lemma nodes_of_mset: "mset xs = mset ys \<Longrightarrow> mset (nodes_of i xs) = mset (nodes_of i ys)"
  by (simp add: nodes_of_def mset_filter)

definition are_copies :: "engine \<Rightarrow> string \<Rightarrow> Slice list \<Rightarrow> EncryptedSlice list \<Rightarrow> bool" where
  "are_copies en fileID slices ess \<longleftrightarrow> (\<forall>e \<in> set ess. \<exists>s \<in> set slices. e = copy_of en fileID s (es_NodeID e))"

lemma are_copiesD: "are_copies en fileID ss ess \<Longrightarrow> e \<in> set ess \<Longrightarrow> \<exists>s \<in> set ss. e = copy_of en fileID s (es_NodeID e) \<and>
    es_SliceID e = sl_ID s \<and> es_CipherHash e = sha256 (en_E en) (es_CipherText e) \<and> es_Length e = of_nat (length (es_CipherText e))"
  unfolding are_copies_def by (metis copy_of_simps)

lemma are_copies_append [simp]: "are_copies en fileID ss (xs @ ys) \<longleftrightarrow> are_copies en fileID ss xs \<and> are_copies en fileID ss ys"
  by (auto simp: are_copies_def)

lemma are_copies_mset: "mset xs = mset ys \<Longrightarrow> are_copies en fileID ss xs \<longleftrightarrow> are_copies en fileID ss ys"
  by (auto simp: are_copies_def dest: mset_eq_setD)

section \<open>Locating and encrypting\<close>

lemma locate_slices_facts:
  "locate_slices draws nodes replica i ss = Some (located, None) \<Longrightarrow> map fst located = ss \<and>
     (\<forall>(s, ns) \<in> set located. \<exists>yd ds. Select yd ds nodes replica = Some (Inr ns))"
proof (induction draws nodes replica i ss arbitrary: located rule: locate_slices.induct)
  case (2 draws nodes replica i s ss)
  then obtain ns l where "Select (fst (draws i)) (snd (draws i)) nodes replica = Some (Inr ns)"
    "locate_slices draws nodes replica (i + 1) ss = Some (l, None)" "located = (s, ns) # l"
    by (auto split: option.splits sum.splits)
  with "2.IH" show ?case by auto
qed auto

lemma encrypt_slices_copies:
  "crypt_laws (en_K en) \<Longrightarrow> encrypt_slices en fileID ps = (map (\<lambda>(s, n). copy_of en fileID s (nd_ID n)) ps, None)"
  by (induction en fileID ps rule: encrypt_slices.induct) (simp_all add: SoftEncrypt_copy)

definition planned :: "engine \<Rightarrow> string \<Rightarrow> (Slice \<times> Node list) list \<Rightarrow> EncryptedSlice list" where
  "planned en fileID located = map (\<lambda>(s, n). copy_of en fileID s (nd_ID n)) (slice_node_pairs located)"

lemma planned_Cons [simp]: "planned en fileID [] = []"
  "planned en fileID ((s, ns) # located) = map (\<lambda>n. copy_of en fileID s (nd_ID n)) ns @ planned en fileID located"
  by (simp_all add: planned_def slice_node_pairs_def)

lemma planned_copies: "are_copies en fileID (map fst located) (planned en fileID located)"
  unfolding are_copies_def planned_def slice_node_pairs_def by force

lemma nodes_of_copies: "nodes_of i (map (\<lambda>n. copy_of en fileID s (nd_ID n)) ns) = (if sl_ID s = i then map nd_ID ns else [])"
  by (simp add: nodes_of_def comp_def)

lemma nodes_of_planned:
  "distinct (map (sl_ID \<circ> fst) located) \<Longrightarrow> (s, ns) \<in> set located \<Longrightarrow> nodes_of (sl_ID s) (planned en fileID located) = map nd_ID ns"
proof (induction located)
  case (Cons x located)
  obtain s' ns' where x: "x = (s', ns')" by (cases x)
  have none: "nodes_of i (planned en fileID l) = []" if "i \<notin> sl_ID ` fst ` set l" for i l
    using that by (induction l) (auto simp: nodes_of_copies)
  show ?case
  proof (cases "sl_ID s' = sl_ID s")
    case True
    with Cons.prems x have "(s, ns) = (s', ns')" by (force simp: image_iff)
    moreover have "sl_ID s \<notin> sl_ID ` fst ` set located" using Cons.prems x True by (auto simp: image_comp)
    ultimately show ?thesis by (simp add: x nodes_of_copies none)
  next
    case False
    with Cons x show ?thesis by (auto simp: nodes_of_copies)
  qed
qed simp

section \<open>Distributing\<close>

lemma distribute_mset:
  "distribute NE owner nodes atts i ess net = (fin, failed, net') \<Longrightarrow> mset (map fst fin @ failed) = mset ess"
  by (induction NE owner nodes atts i ess net arbitrary: fin failed net' rule: distribute.induct)
    (force split: prod.splits sum.splits)+

lemma retryRoutine_mset:
  "retryRoutine NE owner nodes atts i ess net = (fin, failed, net') \<Longrightarrow> mset (map fst fin @ failed) = mset ess"
  by (induction NE owner nodes atts i ess net arbitrary: fin failed net' rule: retryRoutine.induct)
    (force split: prod.splits option.splits)+

lemma push_to_one_facts:
  assumes "crypt_laws (en_K en)"
  shows "push_to_one en NE owner fileID (copy_of en fileID s n) atts nodeList net = (Inr (x, tried), net') \<Longrightarrow>
    \<exists>node \<in> set nodeList. fst x = copy_of en fileID s (nd_ID node) \<and> nd_ID node \<in> set tried"
proof (induction nodeList arbitrary: atts net x tried net')
  case (Cons node nodeList)
  have c: "Recover (en_K en) (en_soft en) (es_CipherText (copy_of en fileID s n)) (slice_opts fileID (sl_ID s) n) = Inr (sl_Data s)"
    by (rule Recover_copy[OF assms])
  from Cons.prems SoftEncrypt_copy[OF assms, of s fileID "nd_ID node"] show ?case
    by (auto simp: c rbind_ok dest!: Cons.IH split: prod.splits sum.splits)
qed simp

text \<open>Slices go to nodes that had not been selected for them.\<close>

lemma others_loop_facts:
  assumes "crypt_laws (en_K en)"
  shows "others_loop en NE owner fileID nodes rounds i failed m net = (Inr fin, net') \<Longrightarrow> are_copies en fileID slices failed \<Longrightarrow>
    are_copies en fileID slices (map fst fin) \<and> map es_SliceID (map fst fin) = map es_SliceID failed \<and>
    (\<forall>e \<in> fst ` set fin. \<exists>h \<in> set nodes. nd_ID (nh_Node h) = es_NodeID e) \<and>
    (\<forall>j. distinct (nodes_of j (map fst fin)) \<and> set (nodes_of j (map fst fin)) \<inter> set (m j) = {})"
proof (induction failed arbitrary: i m net fin net')
  case (Cons sl failed)
  let ?m = "add_selected m (es_SliceID sl) [es_NodeID sl]"
  obtain nodeList x tried net1 xs where
    l: "FindNewNodes (or_green (rounds i)) (or_yellow (rounds i)) nodes (?m (es_SliceID sl)) = Inr nodeList" and
    p: "push_to_one en NE owner fileID sl (or_attempts (rounds i)) nodeList net = (Inr (x, tried), net1)" and
    r: "others_loop en NE owner fileID nodes rounds (i + 1) failed (add_selected ?m (es_SliceID sl) tried) net1 = (Inr xs, net')" and
    fin: "fin = x # xs"
    using Cons.prems(1) by (auto simp: Let_def rbind_ok split: sum.splits prod.splits)
  obtain s n where s: "s \<in> set slices" "sl = copy_of en fileID s n" using Cons.prems(2) by (auto simp: are_copies_def)
  from push_to_one_facts[OF assms p[unfolded s(2)]] obtain node where
    node: "node \<in> set nodeList" "fst x = copy_of en fileID s (nd_ID node)" "nd_ID node \<in> set tried" by blast
  from FindNewNodes_set[OF l] node(1) obtain h where
    h: "h \<in> set nodes" "nh_Node h = node" "nd_ID node \<notin> set (?m (es_SliceID sl))" by auto
  note IH = Cons.IH[OF r] Cons.prems(2)
  have IH: "are_copies en fileID slices (map fst xs)" "map es_SliceID (map fst xs) = map es_SliceID failed"
    "\<forall>e \<in> fst ` set xs. \<exists>h \<in> set nodes. nd_ID (nh_Node h) = es_NodeID e"
    "\<And>j. distinct (nodes_of j (map fst xs))"
    "\<And>j. set (nodes_of j (map fst xs)) \<inter> set (add_selected ?m (es_SliceID sl) tried j) = {}"
    using IH by (simp_all add: are_copies_def)
  have "are_copies en fileID slices (map fst fin)" using IH(1) s(1) node(2) by (auto simp: fin are_copies_def)
  moreover have "map es_SliceID (map fst fin) = map es_SliceID (sl # failed)" using IH(2) s(2) node(2) by (simp add: fin)
  moreover have "\<forall>e \<in> fst ` set fin. \<exists>h \<in> set nodes. nd_ID (nh_Node h) = es_NodeID e"
    using IH(3) h(1,2) node(2) by (auto simp: fin)
  moreover have "distinct (nodes_of j (map fst fin)) \<and> set (nodes_of j (map fst fin)) \<inter> set (m j) = {}" for j
    using IH(4,5)[of j] h(3) node(2,3) s(2) by (auto simp: fin add_selected_def)
  ultimately show ?case by blast
qed (simp add: are_copies_def)

lemma add_selected_fold:
  "set (fold (\<lambda>s m. add_selected m (es_SliceID s) [es_NodeID s]) ess m j) = set (m j) \<union> set (nodes_of j ess)"
  by (induction ess arbitrary: m) (auto simp: add_selected_def)

lemma length_nodes_of: "map es_SliceID xs = map es_SliceID ys \<Longrightarrow> length (nodes_of j xs) = length (nodes_of j ys)"
proof (induction xs arbitrary: ys)
  case (Cons x xs)
  then show ?case by (cases ys) auto
qed simp

text \<open>The three rounds together: each planned copy is there, some on another node.\<close>

lemma pushToOtherNode_facts:
  assumes "crypt_laws (en_K en)" and "pushToOtherNode en NE owner fileID failed done nodes rounds net = (Inr fin, net')"
    and "are_copies en fileID slices failed" and "\<And>j. distinct (nodes_of j done)"
  shows "are_copies en fileID slices (map fst fin) \<and> length (nodes_of j (map fst fin)) = length (nodes_of j failed) \<and>
    (\<forall>e \<in> fst ` set fin. \<exists>h \<in> set nodes. nd_ID (nh_Node h) = es_NodeID e) \<and> distinct (nodes_of j (done @ map fst fin))"
  using others_loop_facts[OF assms(1) assms(2)[unfolded pushToOtherNode_def] assms(3)] assms(4)[of j]
    length_nodes_of[of "map fst fin" failed j] unfolding add_selected_fold by auto

section \<open>What the nodes hold\<close>

text \<open>Loading a slice at an address, by its identifier and index, when the disk works.\<close>

definition holds :: "'s net_env \<Rightarrow> 's network \<Rightarrow> string \<Rightarrow> string \<Rightarrow> string \<Rightarrow> bytes result" where
  "holds NE net address sliceID i = st_Load (ne_S NE) fine sliceID i (ns_slices (net address))"

definition slice_id_ok :: "string \<Rightarrow> bool" where
  "slice_id_ok k \<longleftrightarrow> \<not> suffix ChallengeFileSuffix k"

lemma TrimSuffix_ok: "slice_id_ok k \<Longrightarrow> TrimSuffix k ChallengeFileSuffix = k"
  by (simp add: slice_id_ok_def TrimSuffix_def)

context slice_storage begin

lemma server_push_keeps:
  assumes "server_push S valid d k src body s = (r, s')" and "st_Load S d' k' i (ns_slices s) = Inr w"
  shows "st_Load S d' k' i (ns_slices s') = Inr w"
  using assms by (auto simp: server_push_def engine_Push_def Let_def dest: kept split: if_splits prod.splits sum.splits)

lemma server_push_apart:
  assumes "server_push S valid d k src body s = (r, s')" and "slice_id_ok k" and "k' \<noteq> k"
  shows "st_Load S d' k' i (ns_slices s') = st_Load S d' k' i (ns_slices s)"
  using assms by (auto simp: server_push_def engine_Push_def TrimSuffix_ok Let_def dest: apart split: prod.splits sum.splits)

lemma server_push_stored:
  assumes "server_push S valid d k src body s = (Inr i, s')" and "slice_id_ok k"
    and "\<forall>w. st_Load S fine k k (ns_slices s) \<noteq> Inr w"
  shows "st_Load S fine k i (ns_slices s') = Inr body"
proof -
  obtain r q where q: "st_Save S d k body (ns_slices s) = (r, q)" by fastforce
  have "r = Inr i \<and> q = ns_slices s'"
  proof (cases r)
    case (Inl e)
    with q assms(3) taken have "e \<noteq> Errx ErrCodeAlreadyExists" by blast
    with q Inl assms(1,2) show ?thesis by (simp add: server_push_def engine_Push_def TrimSuffix_ok Let_def)
  next
    case (Inr j)
    with q assms(1,2) show ?thesis by (auto simp: server_push_def engine_Push_def TrimSuffix_ok Let_def)
  qed
  with q saved show ?thesis by blast
qed

lemma push_keeps:
  assumes "ne_S NE = S" and "copier_Push NE a k src body node net = (r, rest, net')" and "holds NE net address k' i = Inr w"
  shows "holds NE net' address k' i = Inr w"
  using assms server_push_keeps by (fastforce simp: copier_Push_def holds_def split: if_splits prod.splits)

lemma push_apart:
  assumes "ne_S NE = S" and "copier_Push NE a k src body node net = (r, rest, net')" and "slice_id_ok k"
    and "(k', address) \<noteq> (k, nd_Address node)"
  shows "holds NE net' address k' i = holds NE net address k' i"
proof (cases "at_reached a")
  case True
  obtain r' s' where p: "server_push S (ne_valid NE) (at_disk a) k src body (net (nd_Address node)) = (r', s')" by fastforce
  with True assms(1,2) have "net' = net(nd_Address node := s')" by (auto simp: copier_Push_def)
  with server_push_apart[OF p assms(3)] assms(1,4) show ?thesis by (auto simp: holds_def)
qed (use assms in \<open>auto simp: copier_Push_def\<close>)

lemma push_stored:
  assumes "ne_S NE = S" and "copier_Push NE a k src body node net = (Inr i, rest, net')" and "slice_id_ok k"
    and "\<forall>w. holds NE net (nd_Address node) k k \<noteq> Inr w"
  shows "holds NE net' (nd_Address node) k i = Inr body"
proof -
  obtain r' s' where p: "server_push S (ne_valid NE) (at_disk a) k src body (net (nd_Address node)) = (r', s')" by fastforce
  have "at_reached a" "r' = Inr i" "net' = net(nd_Address node := s')"
    using assms(1,2) p by (auto simp: copier_Push_def split: if_splits)
  with server_push_stored[OF _ assms(3)] p assms(1,4) show ?thesis by (auto simp: holds_def)
qed

lemma distribute_keeps:
  assumes "ne_S NE = S"
  shows "distribute NE owner nodes atts j ess net = (fin, failed, net') \<Longrightarrow> holds NE net address k i = Inr w \<Longrightarrow>
    holds NE net' address k i = Inr w"
proof (induction ess arbitrary: j net fin failed)
  case (Cons es ess)
  obtain r rest net1 where p: "copier_Push NE (atts j) (es_SliceID es) owner (es_CipherText es)
      (node_or_zero nodes (es_NodeID es)) net = (r, rest, net1)" by (metis prod_cases3)
  obtain f1 f2 where "distribute NE owner nodes atts (j + 1) ess net1 = (f1, f2, net')"
    using Cons.prems(1) p by (auto split: sum.splits prod.splits)
  from Cons.IH[OF this push_keeps[OF assms p Cons.prems(2)]] show ?case .
qed simp

text \<open>What was acknowledged in the first round is what the node holds.\<close>

lemma distribute_stored:
  assumes S: "ne_S NE = S"
  shows "distribute NE owner nodes atts j ess net = (fin, failed, net') \<Longrightarrow>
    distinct (map (\<lambda>e. (es_SliceID e, nd_Address (node_or_zero nodes (es_NodeID e)))) ess) \<Longrightarrow>
    \<forall>e \<in> set ess. slice_id_ok (es_SliceID e) \<and>
      (\<forall>w. holds NE net (nd_Address (node_or_zero nodes (es_NodeID e))) (es_SliceID e) (es_SliceID e) \<noteq> Inr w) \<Longrightarrow>
    \<forall>(e, i) \<in> set fin. holds NE net' (nd_Address (node_or_zero nodes (es_NodeID e))) (es_SliceID e) i = Inr (es_CipherText e)"
proof (induction ess arbitrary: j net fin failed)
  case (Cons es ess)
  let ?a = "\<lambda>e. nd_Address (node_or_zero nodes (es_NodeID e))"
  obtain r rest net1 where p: "copier_Push NE (atts j) (es_SliceID es) owner (es_CipherText es)
      (node_or_zero nodes (es_NodeID es)) net = (r, rest, net1)" by (metis prod_cases3)
  obtain f1 f2 where d: "distribute NE owner nodes atts (j + 1) ess net1 = (f1, f2, net')"
    using Cons.prems(1) p by (auto split: sum.splits prod.splits)
  have ok: "slice_id_ok (es_SliceID es)" using Cons.prems(3) by simp
  have "\<forall>e \<in> set ess. slice_id_ok (es_SliceID e) \<and> (\<forall>w. holds NE net1 (?a e) (es_SliceID e) (es_SliceID e) \<noteq> Inr w)"
  proof (intro ballI conjI)
    fix e assume e: "e \<in> set ess"
    then show "slice_id_ok (es_SliceID e)" using Cons.prems(3) by simp
    have "(es_SliceID e, ?a e) \<noteq> (es_SliceID es, ?a es)" using Cons.prems(2) e by (auto simp: image_iff)
    from push_apart[OF S p ok this] show "\<forall>w. holds NE net1 (?a e) (es_SliceID e) (es_SliceID e) \<noteq> Inr w"
      using Cons.prems(3) e by simp
  qed
  from Cons.IH[OF d _ this] Cons.prems(2)
  have rest: "\<forall>(e, i) \<in> set f1. holds NE net' (?a e) (es_SliceID e) i = Inr (es_CipherText e)" by simp
  show ?case
  proof (cases r)
    case (Inr i)
    then have "holds NE net1 (?a es) (es_SliceID es) i = Inr (es_CipherText es)"
      using push_stored[OF S p[unfolded Inr] ok] Cons.prems(3) by simp
    from distribute_keeps[OF S d this] rest Cons.prems(1) p d Inr show ?thesis by auto
  qed (use rest Cons.prems(1) p d in auto)
qed simp

end

text \<open>With pushes that all get through to disks that work no push fails.\<close>

definition smooth :: "attempt \<Rightarrow> bool" where
  "smooth a \<longleftrightarrow> at_reached a \<and> at_answered a \<and> at_disk a = fine"

context working_storage begin

lemma smooth_push:
  assumes "ne_S NE = S" and "smooth a" and "good_key k" and "slice_id_ok k"
  shows "\<exists>i rest net'. copier_Push NE a k src body node net = (Inr i, rest, net')"
proof -
  obtain r q where q: "st_Save S fine k body (ns_slices (net (nd_Address node))) = (r, q)" by fastforce
  show ?thesis
  proof (cases r)
    case (Inl e)
    with q works[OF assms(3)] have "e = Errx ErrCodeAlreadyExists" by blast
    with q Inl assms show ?thesis
      by (simp add: copier_Push_def smooth_def server_push_def engine_Push_def TrimSuffix_ok Let_def)
  next
    case (Inr i)
    with q assms show ?thesis
      by (simp add: copier_Push_def smooth_def server_push_def engine_Push_def TrimSuffix_ok Let_def)
  qed
qed

lemma smooth_distribute:
  assumes "ne_S NE = S" and "\<forall>i. smooth (atts i)"
  shows "distribute NE owner nodes atts j ess net = (fin, failed, net') \<Longrightarrow>
    \<forall>e \<in> set ess. good_key (es_SliceID e) \<and> slice_id_ok (es_SliceID e) \<Longrightarrow> failed = []"
proof (induction ess arbitrary: j net fin failed)
  case (Cons es ess)
  then obtain i rest net1 where "copier_Push NE (atts j) (es_SliceID es) owner (es_CipherText es)
      (node_or_zero nodes (es_NodeID es)) net = (Inr i, rest, net1)"
    using smooth_push[OF assms(1), of "atts j" "es_SliceID es"] assms(2) by (meson list.set_intros(1))
  moreover obtain f1 f2 where "distribute NE owner nodes atts (j + 1) ess net1 = (f1, f2, net')"
    using Cons.prems(1) calculation by (auto split: prod.splits)
  ultimately show ?case using Cons.IH[of "j + 1" net1 f1 f2] Cons.prems by auto
qed simp

end

end
