(* ===== verification/EngWritten.thy ===== *)
theory EngWritten
  imports EngSpread
begin

text \<open>A write that succeeded, step by step, and what it has published and stored.\<close>

section \<open>The steps of a write\<close>

text \<open>
  The results of the steps: the namespace, the healthy nodes, the slices with their nodes, and the
  copies acknowledged in the three rounds.
\<close>

record 's written =
  wr_ns :: Namespace
  wr_nodes :: "NodeH list"
  wr_slices :: "Slice list"
  wr_located :: "(Slice \<times> Node list) list"
  wr_fin1 :: "(EncryptedSlice \<times> string) list"
  wr_failed1 :: "EncryptedSlice list"
  wr_net1 :: "'s network"
  wr_fin2 :: "(EncryptedSlice \<times> string) list"
  wr_failed2 :: "EncryptedSlice list"
  wr_net2 :: "'s network"
  wr_fin3 :: "(EncryptedSlice \<times> string) list"
  wr_file :: File

abbreviation "file_cipher en fileID content \<equiv> sealed (en_K en) (en_soft en) (file_opts fileID) content"

definition written_by :: "'l chain_ops \<Rightarrow> engine \<Rightarrow> 's net_env \<Rightarrow> health_reads \<Rightarrow> write_env \<Rightarrow> WriteOptions \<Rightarrow> bytes \<Rightarrow>
    ('l, 's) system \<Rightarrow> ('l, 's) system \<Rightarrow> 's written \<Rightarrow> bool" where
  "written_by C en NE H we opt content sys sys' w \<longleftrightarrow>
     xchain_GetNsByName C (en_E en) (sys_ledger sys) (en_pubkey en) (wo_Namespace opt) = Inr (wr_ns w) \<and>
     GetHealthNodes H = Inr (wr_nodes w) \<and>
     SimpleSlice (en_E en) (we_slicer we) (we_uuid we) (file_cipher en (we_fileID we) content) = Some (wr_slices w) \<and>
     locate_slices (we_select we) (wr_nodes w) (ucast (ns_Replica (wr_ns w))) 0 (wr_slices w) = Some (wr_located w, None) \<and>
     distribute NE (hex (en_pubkey en)) (ToNodeHsMap (wr_nodes w)) (we_push we) 0
       (we_queue we (planned en (we_fileID we) (wr_located w))) (sys_net sys) = (wr_fin1 w, wr_failed1 w, wr_net1 w) \<and>
     retryRoutine NE (hex (en_pubkey en)) (ToNodeHsMap (wr_nodes w)) (we_retry we) 0 (wr_failed1 w) (wr_net1 w) =
       (wr_fin2 w, wr_failed2 w, wr_net2 w) \<and>
     pushToOtherNode en NE (hex (en_pubkey en)) (we_fileID we) (wr_failed2 w) (map fst (wr_fin1 w @ wr_fin2 w)) (wr_nodes w)
       (we_other we) (wr_net2 w) = (Inr (wr_fin3 w), sys_net sys') \<and>
     packChainFile en (we_mix we) (we_now we) (we_fileID we) (we_algorithm we) (opt\<lparr>wo_User := hex (en_pubkey en)\<rparr>)
       (wr_slices w) (length content) (map fst (wr_fin1 w @ wr_fin2 w @ wr_fin3 w))
       (map snd (wr_fin1 w @ wr_fin2 w @ wr_fin3 w)) (we_pairing we) = Inr (wr_file w) \<and>
     (\<exists>sig. xchain_PublishFile C (en_E en) \<lparr>pfo_File = wr_file w, pfo_Signature = sig\<rparr> (sys_ledger sys) = (Inr (), sys_ledger sys'))"

lemma write_checks_ok:
  assumes "write_checks C en H we opt r l = Inr (ns, nodes, cipher)" and "crypt_laws (en_K en)"
  shows "xchain_GetNsByName C (en_E en) l (en_pubkey en) (wo_Namespace opt) = Inr ns \<and> GetHealthNodes H = Inr nodes \<and>
    es_CipherText cipher = file_cipher en (we_fileID we) r"
  using assms SoftEncrypt_sealed[OF assms(2)] by (auto simp: write_checks_def rbind_ok split: if_splits)

lemma write_publish_ok:
  assumes "write_publish C en NE we opt slices len finished l = (Inr fid, l')"
  shows "fid = we_fileID we \<and> (\<exists>f sig. packChainFile en (we_mix we) (we_now we) (we_fileID we) (we_algorithm we) opt slices len
      (map fst finished) (map snd finished) (we_pairing we) = Inr f \<and>
    xchain_PublishFile C (en_E en) \<lparr>pfo_File = f, pfo_Signature = sig\<rparr> l = (Inr (), l'))"
  using assms by (auto simp: write_publish_def rbind_ok sign_publish_def Let_def split: sum.splits prod.splits option.splits)

lemma Write_written:
  assumes "Write C en NE H we opt content sys = Some (Inr fid, sys')" and "crypt_laws (en_K en)"
  shows "fid = we_fileID we \<and> (\<exists>w. written_by C en NE H we opt content sys sys' w)"
proof -
  obtain ns nodes cipher where ch: "write_checks C en H we opt content (sys_ledger sys) = Inr (ns, nodes, cipher)"
    using assms(1) by (cases "write_checks C en H we opt content (sys_ledger sys)") (auto simp: Write_def)
  note c = write_checks_ok[OF ch assms(2)]
  let ?u = "hex (en_pubkey en)" and ?m = "ToNodeHsMap nodes" and ?c = "file_cipher en (we_fileID we) content"
  obtain slices where sl: "SimpleSlice (en_E en) (we_slicer we) (we_uuid we) ?c = Some slices"
    using assms(1) c by (auto simp: Write_def ch Let_def bind_eq_Some_conv)
  obtain located err1 where lo: "locate_slices (we_select we) nodes (ucast (ns_Replica ns)) 0 slices = Some (located, err1)"
    using assms(1) c sl by (auto simp: Write_def ch Let_def bind_eq_Some_conv)
  note en = encrypt_slices_copies[OF assms(2), of "we_fileID we" "slice_node_pairs located", folded planned_def]
  obtain fin1 failed1 net1 where di: "distribute NE ?u ?m (we_push we) 0 (we_queue we (planned en (we_fileID we) located))
      (sys_net sys) = (fin1, failed1, net1)" by (metis prod_cases3)
  obtain fin2 failed2 net2 where re: "retryRoutine NE ?u ?m (we_retry we) 0 failed1 net1 = (fin2, failed2, net2)" by (metis prod_cases3)
  obtain r3 net3 where pu: "pushToOtherNode en NE ?u (we_fileID we) failed2 (map fst (fin1 @ fin2)) nodes (we_other we) net2 = (r3, net3)"
    by fastforce
  have "err1 = None \<and> (\<exists>fin3. r3 = Inr fin3 \<and> write_publish C en NE we (opt\<lparr>wo_User := ?u\<rparr>) slices (length content)
      (fin1 @ fin2 @ fin3) (sys_ledger sys) = (Inr fid, sys_ledger sys')) \<and> net3 = sys_net sys'"
    using assms(1) c sl lo di re pu
    by (auto simp: Write_def ch Let_def en length_sealed[OF assms(2)] split: if_splits option.splits sum.splits prod.splits)
  then obtain fin3 where e: "err1 = None" "r3 = Inr fin3" "net3 = sys_net sys'" and
    wp: "write_publish C en NE we (opt\<lparr>wo_User := ?u\<rparr>) slices (length content) (fin1 @ fin2 @ fin3) (sys_ledger sys) =
      (Inr fid, sys_ledger sys')" by blast
  from write_publish_ok[OF wp] obtain f sig where f: "fid = we_fileID we" "packChainFile en (we_mix we) (we_now we) (we_fileID we)
      (we_algorithm we) (opt\<lparr>wo_User := ?u\<rparr>) slices (length content) (map fst (fin1 @ fin2 @ fin3)) (map snd (fin1 @ fin2 @ fin3))
      (we_pairing we) = Inr f"
    "xchain_PublishFile C (en_E en) \<lparr>pfo_File = f, pfo_Signature = sig\<rparr> (sys_ledger sys) = (Inr (), sys_ledger sys')" by blast
  let ?w = "\<lparr>wr_ns = ns, wr_nodes = nodes, wr_slices = slices, wr_located = located, wr_fin1 = fin1, wr_failed1 = failed1,
    wr_net1 = net1, wr_fin2 = fin2, wr_failed2 = failed2, wr_net2 = net2, wr_fin3 = fin3, wr_file = f\<rparr>"
  have "written_by C en NE H we opt content sys sys' ?w"
    using c sl lo di re pu e f by (auto simp: written_by_def)
  with f(1) show ?thesis by blast
qed

section \<open>What is published\<close>

abbreviation wr_stored :: "'s written \<Rightarrow> (EncryptedSlice \<times> string) list" where
  "wr_stored w \<equiv> wr_fin1 w @ wr_fin2 w @ wr_fin3 w"

lemma written_file:
  assumes "written_by C en NE H we opt content sys sys' w" and "crypt_laws (en_K en)"
  shows "f_ID (wr_file w) = we_fileID we \<and> f_Owner (wr_file w) = en_pubkey en \<and> f_Length (wr_file w) = of_nat (length content) \<and>
    f_ExpireTime (wr_file w) = wo_ExpireTime opt \<and>
    f_Structure (wr_file w) = file_cipher en (we_fileID we) (FileStructure_Marshal (structure_of (wr_slices w)))"
    and "\<exists>xs. mset xs = mset (wr_stored w) \<and> list_all2 entry_of (f_Slices (wr_file w)) xs"
proof -
  have p: "packChainFile en (we_mix we) (we_now we) (we_fileID we) (we_algorithm we) (opt\<lparr>wo_User := hex (en_pubkey en)\<rparr>)
      (wr_slices w) (length content) (map fst (wr_stored w)) (map snd (wr_stored w)) (we_pairing we) = Inr (wr_file w)"
    using assms(1) by (simp add: written_by_def)
  note facts = packChainFile_facts[OF p assms(2)]
  show "f_ID (wr_file w) = we_fileID we \<and> f_Owner (wr_file w) = en_pubkey en \<and> f_Length (wr_file w) = of_nat (length content) \<and>
    f_ExpireTime (wr_file w) = wo_ExpireTime opt \<and>
    f_Structure (wr_file w) = file_cipher en (we_fileID we) (FileStructure_Marshal (structure_of (wr_slices w)))"
    using facts(1) by (simp add: owner_bytes_def)
  show "\<exists>xs. mset xs = mset (wr_stored w) \<and> list_all2 entry_of (f_Slices (wr_file w)) xs"
    using facts(2) by (simp add: zip_map_fst_snd del: map_append)
qed

text \<open>Every slice has been given its nodes, and it ends up on as many.\<close>

definition queue_ok :: "write_env \<Rightarrow> bool" where
  "queue_ok we \<longleftrightarrow> (\<forall>es. mset (we_queue we es) = mset es)"

definition healthy_ids :: "NodeH list \<Rightarrow> bool" where
  "healthy_ids nodes \<longleftrightarrow> distinct (map (nd_ID \<circ> nh_Node) nodes)"

lemma slices_ids:
  assumes "SimpleSlice E (NewSimpleSlicer b q) uuid r = Some ss" and "inj uuid"
  shows "distinct (map sl_ID ss) \<and> set (map sl_ID ss) \<subseteq> range uuid \<and>
    map sl_Data ss = map (pad_block (unat (ss_blockSize (NewSimpleSlicer b q)))) (chunks (unat (ss_blockSize (NewSimpleSlicer b q))) r)"
proof -
  from Slice_loop_chunks[OF slicer_block_size, where E = E and uuid = uuid and i = 0 and r = r] obtain ss' where
    "Slice_loop E (unat (ss_blockSize (NewSimpleSlicer b q))) uuid 0 r = Some ss'"
    "map sl_Data ss' = map (pad_block (unat (ss_blockSize (NewSimpleSlicer b q)))) (chunks (unat (ss_blockSize (NewSimpleSlicer b q))) r)"
    "map sl_ID ss' = map uuid [0 ..< 0 + length ss']" by blast
  with assms show ?thesis by (auto simp: SimpleSlice_def distinct_map intro: inj_on_subset)
qed

lemma queue_copies:
  assumes "written_by C en NE H we opt content sys sys' w" and "queue_ok we"
  shows "are_copies en (we_fileID we) (wr_slices w) (we_queue we (planned en (we_fileID we) (wr_located w)))"
proof -
  have "locate_slices (we_select we) (wr_nodes w) (ucast (ns_Replica (wr_ns w))) 0 (wr_slices w) = Some (wr_located w, None)"
    using assms(1) by (simp add: written_by_def)
  from locate_slices_facts[OF this] have "map fst (wr_located w) = wr_slices w" by simp
  moreover have "mset (we_queue we (planned en (we_fileID we) (wr_located w))) = mset (planned en (we_fileID we) (wr_located w))"
    using assms(2) by (simp add: queue_ok_def)
  ultimately show ?thesis using planned_copies[of en "we_fileID we" "wr_located w"] are_copies_mset by metis
qed

lemma written_stored:
  assumes w: "written_by C en NE H we opt content sys sys' w" and K: "crypt_laws (en_K en)" and q: "queue_ok we"
    and ids: "distinct (map sl_ID (wr_slices w))" and nd: "healthy_ids (wr_nodes w)"
  shows "are_copies en (we_fileID we) (wr_slices w) (map fst (wr_stored w)) \<and>
    (\<forall>s \<in> set (wr_slices w). distinct (nodes_of (sl_ID s) (map fst (wr_stored w))) \<and>
      length (nodes_of (sl_ID s) (map fst (wr_stored w))) =
        min (unat (ucast (ns_Replica (wr_ns w)) :: 32 word))
          (length (with_health NodeHealthGood (wr_nodes w)) + length (with_health NodeHealthMedium (wr_nodes w))) \<and>
      set (nodes_of (sl_ID s) (map fst (wr_stored w))) \<subseteq> (nd_ID \<circ> nh_Node) ` set (wr_nodes w))"
proof -
  let ?G = "with_health NodeHealthGood (wr_nodes w)" and ?Y = "with_health NodeHealthMedium (wr_nodes w)"
  let ?fid = "we_fileID we" and ?p = "planned en (we_fileID we) (wr_located w)"
  have wl: "locate_slices (we_select we) (wr_nodes w) (ucast (ns_Replica (wr_ns w))) 0 (wr_slices w) = Some (wr_located w, None)"
    and wd: "distribute NE (hex (en_pubkey en)) (ToNodeHsMap (wr_nodes w)) (we_push we) 0 (we_queue we ?p) (sys_net sys) =
      (wr_fin1 w, wr_failed1 w, wr_net1 w)"
    and wr: "retryRoutine NE (hex (en_pubkey en)) (ToNodeHsMap (wr_nodes w)) (we_retry we) 0 (wr_failed1 w) (wr_net1 w) =
      (wr_fin2 w, wr_failed2 w, wr_net2 w)"
    using w by (simp_all add: written_by_def)
  have lo: "map fst (wr_located w) = wr_slices w" "\<forall>(s, ns) \<in> set (wr_located w). \<exists>yd ds.
      Select yd ds (wr_nodes w) (ucast (ns_Replica (wr_ns w))) = Some (Inr ns)"
    using locate_slices_facts[OF wl] by simp_all
  have m1: "mset (map fst (wr_fin1 w) @ wr_failed1 w) = mset ?p"
    using distribute_mset[OF wd] q by (simp add: queue_ok_def)
  have m2: "mset (map fst (wr_fin2 w) @ wr_failed2 w) = mset (wr_failed1 w)"
    by (rule retryRoutine_mset[OF wr])
  have m: "mset (map fst (wr_fin1 w @ wr_fin2 w) @ wr_failed2 w) = mset ?p" using m1 m2 by simp
  have cp: "are_copies en ?fid (wr_slices w) (map fst (wr_fin1 w @ wr_fin2 w) @ wr_failed2 w)"
    using planned_copies[of en ?fid "wr_located w"] are_copies_mset[OF m] lo(1) by simp
  have pl: "nodes_of (sl_ID s) ?p = map nd_ID ns" if "(s, ns) \<in> set (wr_located w)" for s ns
    by (rule nodes_of_planned[OF _ that]) (use ids lo(1) in \<open>simp flip: map_map\<close>)
  have dj: "distinct (nodes_of j (map fst (wr_fin1 w @ wr_fin2 w) @ wr_failed2 w)) \<and>
      set (nodes_of j (map fst (wr_fin1 w @ wr_fin2 w) @ wr_failed2 w)) \<subseteq> (nd_ID \<circ> nh_Node) ` set (wr_nodes w) \<and>
      (j \<in> sl_ID ` set (wr_slices w) \<longrightarrow>
       length (nodes_of j (map fst (wr_fin1 w @ wr_fin2 w) @ wr_failed2 w)) = min (unat (ucast (ns_Replica (wr_ns w)) :: 32 word)) (length ?G + length ?Y))" for j
  proof (cases "j \<in> sl_ID ` set (wr_slices w)")
    case True
    then obtain s ns where s: "(s, ns) \<in> set (wr_located w)" "sl_ID s = j" using lo(1) by (metis (no_types, opaque_lifting) fst_conv imageE list.set_map prod.collapse)
    from lo(2) s(1) obtain yd ds where "Select yd ds (wr_nodes w) (ucast (ns_Replica (wr_ns w))) = Some (Inr ns)" by blast
    from Select_facts[OF this nd[unfolded healthy_ids_def]] have sel: "distinct (map nd_ID ns)" "set ns \<subseteq> set ?G \<union> set ?Y"
      "length ns = min (unat (ucast (ns_Replica (wr_ns w)) :: 32 word)) (length ?G + length ?Y)" by auto
    define X where "X = nodes_of j (map fst (wr_fin1 w @ wr_fin2 w) @ wr_failed2 w)"
    have mx: "mset X = mset (map nd_ID ns)"
      using nodes_of_mset[OF m, of j] pl[OF s(1)] s(2) unfolding X_def by simp
    have "set ns \<subseteq> nh_Node ` set (wr_nodes w)" using sel(2) by (auto simp: with_health_def)
    then have "set (map nd_ID ns) \<subseteq> (nd_ID \<circ> nh_Node) ` set (wr_nodes w)" by auto
    with mset_eq_setD[OF mx] mset_eq_length[OF mx] mset_eq_imp_distinct_iff[OF mx] sel(1,3) show ?thesis
      unfolding X_def[symmetric] by simp
  next
    case False
    have "es_SliceID e \<noteq> j" if "e \<in> set (map fst (wr_fin1 w @ wr_fin2 w) @ wr_failed2 w)" for e
      using cp[unfolded are_copies_def, rule_format, OF that] False by (metis copy_of_simps(1) imageI)
    then have "nodes_of j (map fst (wr_fin1 w @ wr_fin2 w) @ wr_failed2 w) = []" by (simp add: nodes_of_def filter_empty_conv)
    with False show ?thesis by simp
  qed
  have push: "pushToOtherNode en NE (hex (en_pubkey en)) ?fid (wr_failed2 w) (map fst (wr_fin1 w @ wr_fin2 w)) (wr_nodes w)
      (we_other we) (wr_net2 w) = (Inr (wr_fin3 w), sys_net sys')" using w by (simp add: written_by_def)
  have dd: "distinct (nodes_of j (map fst (wr_fin1 w @ wr_fin2 w)))" for j
    using conjunct1[OF dj[of j]] unfolding nodes_of_simps(2) distinct_append by (elim conjE)
  have p3: "are_copies en ?fid (wr_slices w) (map fst (wr_fin3 w)) \<and>
      length (nodes_of j (map fst (wr_fin3 w))) = length (nodes_of j (wr_failed2 w)) \<and>
      (\<forall>e \<in> fst ` set (wr_fin3 w). \<exists>h \<in> set (wr_nodes w). nd_ID (nh_Node h) = es_NodeID e) \<and>
      distinct (nodes_of j (map fst (wr_fin1 w @ wr_fin2 w) @ map fst (wr_fin3 w)))" for j
    by (rule pushToOtherNode_facts[OF K push _ dd]) (use cp in simp)
  have sub: "set (nodes_of j (map fst (wr_fin3 w))) \<subseteq> (nd_ID \<circ> nh_Node) ` set (wr_nodes w)" for j
  proof
    fix x assume "x \<in> set (nodes_of j (map fst (wr_fin3 w)))"
    then obtain e where e: "e \<in> fst ` set (wr_fin3 w)" "x = es_NodeID e" by (auto simp: nodes_of_def)
    from p3[of j] e(1) obtain h where "h \<in> set (wr_nodes w)" "nd_ID (nh_Node h) = es_NodeID e" by blast
    with e(2) show "x \<in> (nd_ID \<circ> nh_Node) ` set (wr_nodes w)" by (intro image_eqI[of _ _ h]) simp_all
  qed
  have all: "nodes_of j (map fst (wr_stored w)) = nodes_of j (map fst (wr_fin1 w @ wr_fin2 w)) @ nodes_of j (map fst (wr_fin3 w))" for j
    by simp
  show ?thesis
  proof (intro conjI ballI)
    show "are_copies en ?fid (wr_slices w) (map fst (wr_stored w))" using p3 cp by simp
    fix s assume s: "s \<in> set (wr_slices w)"
    let ?j = "sl_ID s"
    show "distinct (nodes_of ?j (map fst (wr_stored w)))" using p3[of ?j] by simp
    show "length (nodes_of ?j (map fst (wr_stored w))) = min (unat (ucast (ns_Replica (wr_ns w)) :: 32 word)) (length ?G + length ?Y)"
      using p3[of ?j] dj[of ?j] s unfolding all by simp
    show "set (nodes_of ?j (map fst (wr_stored w))) \<subseteq> (nd_ID \<circ> nh_Node) ` set (wr_nodes w)"
      using sub[of ?j] dj[of ?j] unfolding all by simp
  qed
qed

lemma written_copies:
  assumes w: "written_by C en NE H we opt content sys sys' w" and K: "crypt_laws (en_K en)" and q: "queue_ok we"
  shows "are_copies en (we_fileID we) (wr_slices w) (map fst (wr_stored w))"
proof -
  have "mset (map fst (wr_fin1 w) @ wr_failed1 w) = mset (we_queue we (planned en (we_fileID we) (wr_located w)))"
    "mset (map fst (wr_fin2 w) @ wr_failed2 w) = mset (wr_failed1 w)"
    using w by (auto simp: written_by_def dest: distribute_mset retryRoutine_mset)
  then have m: "are_copies en (we_fileID we) (wr_slices w) (map fst (wr_fin1 w) @ wr_failed1 w)"
    "are_copies en (we_fileID we) (wr_slices w) (map fst (wr_fin2 w) @ wr_failed2 w) \<longleftrightarrow>
     are_copies en (we_fileID we) (wr_slices w) (wr_failed1 w)"
    using queue_copies[OF w q] are_copies_mset by metis+
  have "others_loop en NE (hex (en_pubkey en)) (we_fileID we) (wr_nodes w) (we_other we) 0 (wr_failed2 w)
      (fold (\<lambda>s m. add_selected m (es_SliceID s) [es_NodeID s]) (map fst (wr_fin1 w @ wr_fin2 w)) (\<lambda>_. [])) (wr_net2 w) =
      (Inr (wr_fin3 w), sys_net sys')" using w by (simp add: written_by_def pushToOtherNode_def)
  from others_loop_facts[OF K this] m show ?thesis by simp
qed

end
