(* ===== verification/EngRun.thy ===== *)
theory EngRun
  imports EngWritten XdbProperties
begin

text \<open>
  A run of the storage engine: a file of any content is written over two healthy nodes with a cipher
  that appends a tag. The witnesses of the engine's properties are taken from it.
\<close>

section \<open>Publishing in the run\<close>

lemma run_checkSigned_any:
  "length pk = 64 \<Longrightarrow> length sg = 64 \<Longrightarrow> (\<And>a b c. ecdsa_verify E a b c) \<Longrightarrow> bnd (checkSigned E sg pk (JObj kvs)) f s = f () s"
  by (simp add: checkSigned_def GetSigMessage_def checkSign_def PublicKeyLength_def SignatureLength_def act_defs)

lemma publish_accepts:
  assumes "\<And>a b c. ecdsa_verify E a b c" and "length (f_Owner f) = 64" and "length sg = 64" and "f_Slices f \<noteq> []"
    and "store_get l (f_ID f) = None" and "store_get l (packFileNsIndex (f_Owner f) (f_Namespace f)) = Some (Doc (enc_Namespace n))"
    and "store_get l (packFileNameIndex (f_Owner f) (f_Namespace f) (f_Name f)) = None"
  shows "\<exists>l'. xchain_PublishFile mem_chain E \<lparr>pfo_File = f, pfo_Signature = sg\<rparr> l = (Inr (), l')"
proof -
  have "\<exists>s'. put_all mem_chain kvs s = (Inr (), s')" for kvs s by (rule mem.put_all_total)
  then obtain g where g: "\<And>kvs s. put_all mem_chain kvs s = (Inr (), g kvs s)" by metis
  have puts: "bnd (put_all mem_chain kvs) h s = h () (g kvs s)" for kvs and h :: "unit \<Rightarrow> (store, string) act" and s
    by (simp add: bnd_def g)
  have free: "bnd (check_name_free mem_chain E (packFileNameIndex (f_Owner f) (f_Namespace f) (f_Name f)) t) h l = h () l"
    for t and h :: "unit \<Rightarrow> (store, string) act"
    using assms(7) by (simp add: check_name_free_def bnd_def ret_def)
  have "\<exists>s. PublishFile mem_chain E (Got \<lparr>pfo_File = f, pfo_Signature = sg\<rparr>) l = (Inr ''Published'', s)"
    using assms by (simp add: PublishFile_def enc_PublishFileOptions_def run_checkSigned_any Let_def puts free)
  then show ?thesis by (auto simp: xchain_PublishFile_ok)
qed

section \<open>The setting\<close>

definition tag :: bytes where
  "tag = replicate 16 CHR ''T''"

definition run_slicer :: SimpleSlicer where
  "run_slicer = NewSimpleSlicer 16 4"

definition run_uuid :: "nat \<Rightarrow> string" where
  "run_uuid i = replicate i CHR ''s''"

text \<open>The slices that a content is cut into, and the environment that reads the structure of them.\<close>

definition run_slices :: "bytes \<Rightarrow> Slice list" where
  "run_slices content = (case SimpleSlice mem_env run_slicer run_uuid (content @ tag) of None \<Rightarrow> [] | Some ss \<Rightarrow> ss)"

definition run_env :: "bytes \<Rightarrow> env" where
  "run_env content = mem_env\<lparr>parse_json := (\<lambda>b. if b = FileStructure_Marshal (structure_of (run_slices content))
     then Some (JArr (map enc_PrivateSliceMeta (structure_of (run_slices content)))) else None)\<rparr>"

definition run_crypt :: "bytes \<Rightarrow> crypt" where
  "run_crypt content = \<lparr>cr_env = run_env content, hkdf = (\<lambda>_ _. replicate 32 CHR ''k''), gcm_Seal = (\<lambda>_ _ p _. p @ tag),
     gcm_Open = (\<lambda>_ _ c _. if suffix tag c then Some (take (length c - 16) c) else None)\<rparr>"

definition run_engine :: "bytes \<Rightarrow> engine" where
  "run_engine content = \<lparr>en_K = run_crypt content, en_soft = \<lparr>se_password = ''pw''\<rparr>, en_pubkey = demo_key,
     en_key_file = (\<lambda>_. True), en_on_curve = (\<lambda>_. True)\<rparr>"

definition run_node :: "string \<Rightarrow> Node" where
  "run_node a = \<lparr>nd_ID = a, nd_Name = a, nd_Address = a, nd_Online = True, nd_RegTime = 1, nd_UpdateAt = 1\<rparr>"

definition run_nodes :: "Node list" where
  "run_nodes = [run_node ''a'', run_node ''b'']"

definition run_health :: health_reads where
  "run_health = \<lparr>hr_ListNodes = Inr run_nodes, hr_GetNodeHealth = (\<lambda>_. Inr NodeHealthGood), hr_ListFiles = (\<lambda>_. Inr [])\<rparr>"

definition run_net_env :: "bytes \<Rightarrow> files net_env" where
  "run_net_env content = \<lparr>ne_S = local_v2 (\<lambda>_. True), ne_valid = (\<lambda>_. True), ne_engine = run_engine content,
     ne_C = \<lparr>nr_GetFileByID = (\<lambda>_. Inl (Errx ErrCodeNotFound)), nr_ListFileAuthApplications = (\<lambda>_. Inr [])\<rparr>,
     ne_now = 0, ne_sign = (\<lambda>_. demo_key)\<rparr>"

definition run_attempt :: attempt where
  "run_attempt = \<lparr>at_reached = True, at_read = 0, at_disk = fine, at_answered = True\<rparr>"

definition run_write :: write_env where
  "run_write = \<lparr>we_now = 5, we_fileID = ''f1'', we_uuid = run_uuid, we_select = (\<lambda>_. ([], [1, 0])), we_queue = rev,
     we_push = (\<lambda>_. run_attempt), we_retry = (\<lambda>_. []),
     we_other = (\<lambda>_. \<lparr>or_green = [], or_yellow = [], or_attempts = (\<lambda>_. run_attempt)\<rparr>), we_mix = [(0, 1)],
     we_slicer = run_slicer, we_algorithm = ''Merkle'',
     we_pairing = \<lparr>pc_Privkey = [], pc_Pubkey = [], pc_RandU = [], pc_RandV = []\<rparr>, we_material = (\<lambda>_. Inr ())\<rparr>"

definition run_opt :: WriteOptions where
  "run_opt = \<lparr>wo_User = hex demo_key, wo_Namespace = ''ns'', wo_FileName = ''n'', wo_ExpireTime = 20, wo_Description = [],
     wo_Extra = [], wo_Token = hex demo_key\<rparr>"

definition run_ns :: Namespace where
  "run_ns = demo_ns\<lparr>ns_Replica := 2\<rparr>"

definition run_system :: "(store, files) system" where
  "run_system = \<lparr>sys_ledger = store_put empty_store (packFileNsIndex demo_key ''ns'') (Doc (enc_Namespace run_ns)),
     sys_net = (\<lambda>_. \<lparr>ns_slices = Map.empty, ns_proofs = Map.empty\<rparr>)\<rparr>"

lemma run_simps [simp]: "en_K (run_engine c) = run_crypt c" "cr_env (run_crypt c) = run_env c"
  "en_pubkey (run_engine c) = demo_key" "we_uuid run_write = run_uuid" "we_fileID run_write = ''f1''"
  "we_slicer run_write = run_slicer" "wo_ExpireTime run_opt = 20" "length demo_key = 64" "sha256 (run_env c) = sha256 mem_env"
  "ecdsa_verify (run_env c) x y z" "wo_Namespace run_opt = ''ns''"
  by (simp_all add: run_engine_def run_crypt_def run_write_def run_opt_def demo_key_def run_env_def mem_env_def)

lemma run_laws: "crypt_laws (run_crypt c)"
proof -
  have "suffix tag b \<longleftrightarrow> (\<exists>p. b = p @ tag)" for b by (auto simp: suffix_def)
  then have "(if suffix tag b then Some (take (length b - 16) b) else None) = Some p \<longleftrightarrow> b = p @ tag" for b p
    by (auto simp: tag_def)
  then show ?thesis by (simp add: crypt_laws_def run_crypt_def run_env_def) (simp add: tag_def min_def)
qed

lemma run_seal [simp]: "sealed (run_crypt c) se opt p = p @ tag"
  by (simp add: sealed_def run_crypt_def Let_def)

lemma run_slicer_size: "unat (ss_blockSize run_slicer) = 16"
  by (simp add: run_slicer_def NewSimpleSlicer_def Let_def)

lemma run_uuid_inj: "inj run_uuid"
  by (auto simp: inj_def run_uuid_def dest: arg_cong[of _ _ length])

lemma run_uuid_ok: "slice_id_ok (run_uuid i)"
proof -
  have "set ChallengeFileSuffix \<subseteq> {CHR ''s''}" if "suffix ChallengeFileSuffix (run_uuid i)"
    using set_mono_suffix[OF that] by (auto simp: run_uuid_def split: if_splits)
  then show ?thesis by (auto simp: slice_id_ok_def)
qed

lemma Slice_loop_sha: "sha256 E = sha256 E' \<Longrightarrow> Slice_loop E bs u i r = Slice_loop E' bs u i r \<or> bs = 0"
proof (induction "length r" arbitrary: r i rule: less_induct)
  case less
  then have "bs = 0 \<or> length r < bs \<or> Slice_loop E bs u (i + 1) (drop bs r) = Slice_loop E' bs u (i + 1) (drop bs r)"
    by (cases "bs = 0 \<or> length r < bs") auto
  then show ?case
    using less.prems by (subst Slice_loop.simps, subst (2) Slice_loop.simps) (auto simp: makeSlice_def)
qed

lemma run_slices: "SimpleSlice (run_env c) run_slicer run_uuid (c @ tag) = Some (run_slices c)"
proof -
  have "SimpleSlice (run_env c) run_slicer run_uuid (c @ tag) = SimpleSlice mem_env run_slicer run_uuid (c @ tag)"
    using Slice_loop_sha[of "run_env c" mem_env 16] by (simp add: SimpleSlice_def run_slicer_size)
  moreover have "SimpleSlice mem_env run_slicer run_uuid (c @ tag) \<noteq> None"
    using Slice_loop_chunks[OF slicer_block_size[of 16 4], where E = mem_env and uuid = run_uuid and i = 0 and r = "c @ tag"]
    unfolding SimpleSlice_def run_slicer_def by auto
  ultimately show ?thesis by (auto simp: run_slices_def)
qed

section \<open>The write\<close>

definition run_healthy :: "NodeH list" where
  "run_healthy = map (\<lambda>n. \<lparr>nh_Node = n, nh_Health = NodeHealthGood\<rparr>) run_nodes"

lemma run_GetHealthNodes: "GetHealthNodes run_health = Inr run_healthy"
  by (simp add: GetHealthNodes_def run_health_def run_healthy_def run_nodes_def run_node_def health_of_def)

lemma run_GetNs: "xchain_GetNsByName mem_chain E (sys_ledger run_system) demo_key ''ns'' = Inr run_ns"
  by (simp add: xchain_GetNsByName_def QueryContract_def GetNsByName_def run_system_def act_defs)

lemma run_checks: "\<exists>cipher. write_checks mem_chain (run_engine c) run_health run_write run_opt c (sys_ledger run_system) =
    Inr (run_ns, run_healthy, cipher) \<and> es_CipherText cipher = c @ tag"
proof -
  have "verifyUserID (run_engine c) (wo_User run_opt) = Inr ()" by (simp add: verifyUserID_def run_engine_def)
  moreover obtain msg where "GetSigMessage (enc_WriteOptions run_opt) = Some msg" by (simp add: GetSigMessage_def enc_WriteOptions_def)
  moreover have "verifyUserToken (run_engine c) (wo_User run_opt) (wo_Token run_opt) d = Inr ()" for d
    by (simp add: verifyUserToken_def run_opt_def) (simp add: run_engine_def)
  moreover have "xchain_GetFileByName mem_chain (run_env c) 5 (sys_ledger run_system) demo_key ''ns'' ''n'' = Inl (Errx ErrCodeNotFound)"
    by (simp add: xchain_GetFileByName_def QueryContract_def GetFileByName_def getCtxTime_def run_system_def act_defs pack_defs)
  moreover have "we_now run_write = 5" "wo_FileName run_opt = ''n''" by (simp_all add: run_write_def run_opt_def)
  moreover have "\<not> of_nat (length run_healthy) <s ns_Replica run_ns"
    by (simp add: run_healthy_def run_nodes_def run_ns_def)
  moreover have "crypt_laws (en_K (run_engine c))" by (simp add: run_laws)
  from SoftEncrypt_sealed[OF this] obtain cipher where
    "SoftEncrypt (run_crypt c) (en_soft (run_engine c)) c (file_opts ''f1'') = Inr cipher" "es_CipherText cipher = c @ tag" by simp
  ultimately show ?thesis
    by (simp add: write_checks_def run_GetHealthNodes run_GetNs)
qed

lemma run_Select: "Select [] [1, 0] run_healthy 2 = Some (Inr [run_node ''b'', run_node ''a''])"
  by (simp add: Select_def run_healthy_def run_nodes_def getSliceOptimalNodes_def with_health_def run_node_def)

lemma run_locate: "locate_slices (we_select run_write) run_healthy (ucast (ns_Replica run_ns)) i ss =
    Some (map (\<lambda>s. (s, [run_node ''b'', run_node ''a''])) ss, None)"
proof -
  have "ucast (ns_Replica run_ns) = (2 :: 32 word)" by (simp add: run_ns_def)
  then show ?thesis by (induction ss arbitrary: i) (simp_all add: run_write_def run_Select[simplified])
qed

lemma run_pack:
  assumes "ss \<noteq> []" and "fin \<noteq> []"
  shows "\<exists>f. packChainFile (run_engine c) (we_mix run_write) (we_now run_write) ''f1'' (we_algorithm run_write)
      (run_opt\<lparr>wo_User := hex demo_key\<rparr>) ss len (map fst fin) (map snd fin) (we_pairing run_write) = Inr f \<and>
    f_ID f = ''f1'' \<and> f_Owner f = demo_key \<and> f_Namespace f = ''ns'' \<and> f_Name f = ''n'' \<and> f_Slices f \<noteq> []"
proof -
  obtain es st where r: "rearrangeEncSlices (we_mix run_write) (map fst fin) (map snd fin) = (es, st)" by fastforce
  have "length (zip es st) = length fin"
    using mset_eq_length[OF rearrangeEncSlices_mset[OF _ r]] by simp
  then have "zip es st \<noteq> []" using assms(2) by auto
  then have ne: "chain_slices p m (zip es st) \<noteq> []" for p m by (cases "zip es st") (auto simp: Let_def)
  have "crypt_laws (en_K (run_engine c))" by (simp add: run_laws)
  then have st': "packChainFileStructure (run_engine c) ss ''f1'' = Inr x" if "x = FileStructure_Marshal (structure_of ss) @ tag" for x
    using SoftEncrypt_sealed[of "run_crypt c"] that by (simp add: packChainFileStructure_def structure_of_def Let_def)
  have "\<exists>root. calculateMerkleRoot (run_env c) ss = Inr root"
    using assms(1) by (simp add: calculateMerkleRoot_def GetMerkleRoot_tree split: option.split)
  then obtain root where mr: "calculateMerkleRoot (run_env c) ss = Inr root" by blast
  show ?thesis
    by (simp add: packChainFile_def r st'[OF refl] mr ne owner_bytes_def run_opt_def Let_def)
qed

text \<open>The write succeeds for every content.\<close>

lemma run_Write: "\<exists>sys'. Write mem_chain (run_engine c) (run_net_env c) run_health run_write run_opt c run_system =
    Some (Inr ''f1'', sys')"
proof -
  obtain cipher where ch: "write_checks mem_chain (run_engine c) run_health run_write run_opt c (sys_ledger run_system) =
    Inr (run_ns, run_healthy, cipher)" "es_CipherText cipher = c @ tag" using run_checks by blast
  let ?loc = "map (\<lambda>s. (s, [run_node ''b'', run_node ''a''])) (run_slices c)"
  let ?q = "we_queue run_write (planned (run_engine c) ''f1'' ?loc)"
  have K: "crypt_laws (en_K (run_engine c))" by (simp add: run_laws)
  obtain fin failed net where di: "distribute (run_net_env c) (hex demo_key) (ToNodeHsMap run_healthy) (we_push run_write) 0 ?q
      (sys_net run_system) = (fin, failed, net)" by (metis prod_cases3)
  have ids: "es_SliceID e \<in> range run_uuid" if "e \<in> set ?q" for e
  proof -
    have "set (map sl_ID (run_slices c)) \<subseteq> range run_uuid"
      using slices_ids[OF run_slices[unfolded run_slicer_def] run_uuid_inj] by blast
    with that show ?thesis by (auto simp: run_write_def planned_def slice_node_pairs_def)
  qed
  have "failed = []"
  proof (rule local_store.smooth_distribute[OF _ _ di])
    show "ne_S (run_net_env c) = local_v2 (\<lambda>_. True)" by (simp add: run_net_env_def)
    show "\<forall>i. smooth (we_push run_write i)" by (simp add: run_write_def run_attempt_def smooth_def)
    show "\<forall>e \<in> set ?q. True \<and> slice_id_ok (es_SliceID e)" using ids run_uuid_ok by (metis rangeE)
  qed
  then have m: "mset (map fst fin) = mset ?q" using distribute_mset[OF di] by simp
  have ne: "run_slices c \<noteq> []"
    using slices_ids[OF run_slices[of c, unfolded run_slicer_def] run_uuid_inj]
      chunks_nonempty[of 16 "c @ tag"] run_slicer_size by (auto simp: run_slicer_def tag_def)
  then have "?q \<noteq> []" by (cases "run_slices c") (simp_all add: run_write_def)
  then have "fin \<noteq> []" using m by auto
  from run_pack[OF ne this, of c "length c"] obtain f where f: "packChainFile (run_engine c) (we_mix run_write) (we_now run_write) ''f1''
      (we_algorithm run_write) (run_opt\<lparr>wo_User := hex demo_key\<rparr>) (run_slices c) (length c) (map fst fin) (map snd fin)
      (we_pairing run_write) = Inr f" "f_ID f = ''f1''" "f_Owner f = demo_key" "f_Namespace f = ''ns''" "f_Name f = ''n''"
    "f_Slices f \<noteq> []" by blast
  have "\<exists>sg. sign_publish (run_engine c) (run_net_env c) f = Inr \<lparr>pfo_File = f, pfo_Signature = sg\<rparr> \<and> length sg = 64"
    by (simp add: sign_publish_def GetSigMessage_def enc_PublishFileOptions_def run_net_env_def Let_def)
  then obtain sg where sg: "sign_publish (run_engine c) (run_net_env c) f = Inr \<lparr>pfo_File = f, pfo_Signature = sg\<rparr>" "length sg = 64" by blast
  have "\<exists>l'. xchain_PublishFile mem_chain (run_env c) \<lparr>pfo_File = f, pfo_Signature = sg\<rparr> (sys_ledger run_system) = (Inr (), l')"
    by (rule publish_accepts[where n = run_ns]) (simp_all add: f sg run_system_def pack_defs)
  then obtain l' where pub: "xchain_PublishFile mem_chain (run_env c) \<lparr>pfo_File = f, pfo_Signature = sg\<rparr> (sys_ledger run_system) = (Inr (), l')" by blast
  have mat: "we_material run_write x = Inr ()" for x by (simp add: run_write_def)
  have len: "length (c @ tag) - 16 = length c" by (simp add: tag_def)
  show ?thesis
    unfolding Write_def ch(1)
    by (simp add: ch(2) Let_def run_slices run_locate encrypt_slices_copies[OF K] di[unfolded planned_def] \<open>failed = []\<close>
        failed_queue_size_def pushToOtherNode_def write_publish_def mat f(1) sg(1) pub len[simplified])
qed

end
