(* ===== verification/EngProperties.thy ===== *)
theory EngProperties
  imports EngRun
begin

text \<open>
  The properties of the storage engine: where the slices of a written file are and what the nodes
  hold, when a file can be read back, who is served slices, and the health of files.
\<close>

section \<open>Where a written file is\<close>

lemma entries_nodes: "list_all2 entry_of ts xs \<Longrightarrow> map sm_NodeID (replicas ts i) = nodes_of i (map fst xs)"
  by (induction ts xs rule: list_all2_induct) (auto simp: replicas_def entry_of_def)

lemma written_ledger:
  assumes "written_by mem_chain en NE H we opt content sys sys' w" and "crypt_laws (en_K en)"
    and "plain_id (we_fileID we)" and "now \<le>s wo_ExpireTime opt"
  shows "xchain_GetFileByID mem_chain (en_E en) now (sys_ledger sys') (we_fileID we) = Inr (wr_file w)"
proof -
  obtain sg where p: "xchain_PublishFile mem_chain (en_E en) \<lparr>pfo_File = wr_file w, pfo_Signature = sg\<rparr> (sys_ledger sys) =
      (Inr (), sys_ledger sys')" using assms(1) by (auto simp: written_by_def)
  have f: "f_ID (wr_file w) = we_fileID we" "f_ExpireTime (wr_file w) = wo_ExpireTime opt"
    using written_file(1)[OF assms(1,2)] by simp_all
  from ledger.published[OF p, of now] show ?thesis using assms(3,4) by (simp add: f)
qed

lemma written_spread:
  assumes w: "written_by mem_chain en NE H we opt content sys sys' w" and K: "crypt_laws (en_K en)" and q: "queue_ok we"
    and u: "inj (we_uuid we)" and sl: "we_slicer we = NewSimpleSlicer b q'" and h: "healthy_ids (wr_nodes w)"
    and s: "s \<in> set (wr_slices w)"
  shows "distinct (map sm_NodeID (replicas (f_Slices (wr_file w)) (sl_ID s))) \<and>
      length (replicas (f_Slices (wr_file w)) (sl_ID s)) = min (unat (ucast (ns_Replica (wr_ns w)) :: 32 word))
        (length (with_health NodeHealthGood (wr_nodes w)) + length (with_health NodeHealthMedium (wr_nodes w))) \<and>
      sm_NodeID ` set (replicas (f_Slices (wr_file w)) (sl_ID s)) \<subseteq> (nd_ID \<circ> nh_Node) ` set (wr_nodes w)"
proof -
  have "SimpleSlice (en_E en) (NewSimpleSlicer b q') (we_uuid we) (file_cipher en (we_fileID we) content) = Some (wr_slices w)"
    using w sl by (simp add: written_by_def)
  then have ids: "distinct (map sl_ID (wr_slices w))" using slices_ids[OF _ u] by blast
  obtain xs where xs: "mset xs = mset (wr_stored w)" "list_all2 entry_of (f_Slices (wr_file w)) xs"
    using written_file(2)[OF w K] by blast
  have m: "mset (map sm_NodeID (replicas (f_Slices (wr_file w)) i)) = mset (nodes_of i (map fst (wr_stored w)))" for i
    unfolding entries_nodes[OF xs(2)] using xs(1) by (intro nodes_of_mset) (metis mset_map)
  note st = written_stored[OF w K q ids h]
  show ?thesis
    using st s mset_eq_setD[OF m[of "sl_ID s"]] mset_eq_length[OF m[of "sl_ID s"]] mset_eq_imp_distinct_iff[OF m[of "sl_ID s"]]
    by (simp del: map_append)
qed


section \<open>What the nodes of a written file hold\<close>

text \<open>The pulls of the owner that a node lets through, and bytes that are not the text of an error.\<close>

definition owner_may_pull :: "'s net_env \<Rightarrow> engine \<Rightarrow> string \<Rightarrow> bool" where
  "owner_may_pull NE en fid \<longleftrightarrow> (\<exists>f. nr_GetFileByID (ne_C NE) fid = Inr f \<and> f_Owner f = en_pubkey en) \<and>
     \<not> ne_now NE <s ne_now NE - 300000000000 \<and> en_E (ne_engine NE) = en_E en \<and>
     (\<forall>d. verifyUserToken (ne_engine NE) (hex (en_pubkey en)) (hex (ne_sign NE d)) d = Inr ())"

lemma pull_message: "GetSigMessage (enc_PullOptions (opt\<lparr>pl_Signature := x\<rparr>)) = GetSigMessage (enc_PullOptions (opt\<lparr>pl_Signature := y\<rparr>))"
  by (cases opt) (simp add: GetSigMessage_def enc_PullOptions_def sig_part_def)

lemma owner_pull:
  assumes "slice_id_ok k" and "holds NE net (nd_Address node) k i = Inr c" and "up (nd_Address node) = Some fine"
    and "owner_may_pull NE en fid" and "\<not> is_error_text (en_E en) c"
  shows "copier_Pull NE up net node k i fid = Some c"
proof -
  define opt where "opt = \<lparr>pl_Pubkey = [], pl_SliceID = k, pl_StorIndex = i, pl_FileID = fid, pl_Timestamp = ne_now NE,
    pl_NotASlice = False, pl_Signature = []\<rparr>"
  obtain msg where msg: "GetSigMessage (enc_PullOptions opt) = Some msg" by (simp add: GetSigMessage_def enc_PullOptions_def)
  have "GetSigMessage (enc_PullOptions (opt\<lparr>pl_Signature := sg\<rparr>)) = Some msg" for sg
    using pull_message[of sg opt "[]"] msg by (simp add: opt_def)
  with assms msg show ?thesis
    by (auto simp: copier_Pull_def server_pull_def engine_Pull_def TrimSuffix_ok owner_may_pull_def holds_def opt_def Let_def)
qed

lemma GetHealthNodes_online: "GetHealthNodes H = Inr nodes \<Longrightarrow> h \<in> set nodes \<Longrightarrow> nd_Online (nh_Node h)"
  by (auto simp: GetHealthNodes_def rbind_ok health_of_def Let_def split: if_splits sum.splits)

lemma ToNodeHsMap_in:
  assumes "healthy_ids nodes" and "h \<in> set nodes" and "nd_Online (nh_Node h)"
  shows "ToNodeHsMap nodes (nd_ID (nh_Node h)) = Some (nh_Node h)"
proof -
  have "fold (\<lambda>n m. if nd_Online (nh_Node n) then m(nd_ID (nh_Node n) \<mapsto> nh_Node n) else m) ns m (nd_ID (nh_Node h)) = Some (nh_Node h)"
    if "\<forall>n \<in> set ns. nd_ID (nh_Node n) = nd_ID (nh_Node h) \<longrightarrow> n = h"
      "h \<in> set ns \<or> m (nd_ID (nh_Node h)) = Some (nh_Node h)" for ns m
    using that assms(3) by (induction ns arbitrary: m) auto
  moreover have "\<forall>n \<in> set nodes. nd_ID (nh_Node n) = nd_ID (nh_Node h) \<longrightarrow> n = h"
    using assms(1,2) by (auto simp: healthy_ids_def distinct_map inj_on_def)
  ultimately show ?thesis using assms(2) by (simp add: ToNodeHsMap_def)
qed

text \<open>A network that has not seen the identifiers of the new slices, with nodes at addresses of their own.\<close>

definition fresh_network :: "files net_env \<Rightarrow> write_env \<Rightarrow> files network \<Rightarrow> NodeH list \<Rightarrow> bool" where
  "fresh_network NE we net nodes \<longleftrightarrow> ne_S NE = local_v2 (ne_valid NE) \<and>
     (\<forall>i. ne_valid NE (we_uuid we i) \<and> slice_id_ok (we_uuid we i) \<and> (\<forall>a. ns_slices (net a) (we_uuid we i) = None)) \<and>
     healthy_ids nodes \<and> distinct (map (nd_Address \<circ> nh_Node) nodes)"

lemma copies_distinct:
  assumes "are_copies en fid slices ess" and "distinct (map sl_ID slices)"
    and "\<And>s. s \<in> set slices \<Longrightarrow> distinct (nodes_of (sl_ID s) ess)"
  shows "distinct (map (\<lambda>e. (es_SliceID e, es_NodeID e)) ess)"
  using assms
proof (induction ess)
  case (Cons e ess)
  have "are_copies en fid slices ess" using Cons.prems(1) by (simp add: are_copies_def)
  moreover have "distinct (nodes_of (sl_ID s) ess)" if "s \<in> set slices" for s
    using Cons.prems(3)[OF that] by (simp split: if_splits)
  ultimately have d: "distinct (map (\<lambda>e. (es_SliceID e, es_NodeID e)) ess)" using Cons.IH Cons.prems(2) by blast
  obtain s where s: "s \<in> set slices" "es_SliceID e = sl_ID s" using are_copiesD[OF Cons.prems(1), of e] by auto
  have "es_NodeID e \<notin> set (nodes_of (sl_ID s) ess)" using Cons.prems(3)[OF s(1)] s(2) by simp
  then have "(es_SliceID e, es_NodeID e) \<notin> (\<lambda>e. (es_SliceID e, es_NodeID e)) ` set ess" by (auto simp: nodes_of_def s(2))
  with d show ?case by simp
qed simp

lemma addresses_distinct:
  assumes hq: "\<And>x. x \<in> set q \<Longrightarrow> \<exists>h \<in> set nodes. es_NodeID x = nd_ID (nh_Node h)"
    and on: "\<And>h. h \<in> set nodes \<Longrightarrow> ToNodeHsMap nodes (nd_ID (nh_Node h)) = Some (nh_Node h)"
    and ad: "distinct (map (nd_Address \<circ> nh_Node) nodes)" and dp: "distinct (map (\<lambda>x. (es_SliceID x, es_NodeID x)) q)"
  shows "distinct (map (\<lambda>x. (es_SliceID x, nd_Address (node_or_zero (ToNodeHsMap nodes) (es_NodeID x)))) q)"
proof -
  let ?n = "\<lambda>e. node_or_zero (ToNodeHsMap nodes) (es_NodeID e)"
  have same: "(es_SliceID x, es_NodeID x) = (es_SliceID y, es_NodeID y)" if xy: "x \<in> set q" "y \<in> set q"
    "(es_SliceID x, nd_Address (?n x)) = (es_SliceID y, nd_Address (?n y))" for x y
  proof -
    obtain h k where hk: "h \<in> set nodes" "es_NodeID x = nd_ID (nh_Node h)" "k \<in> set nodes" "es_NodeID y = nd_ID (nh_Node k)"
      using hq xy(1,2) by meson
    then have "nd_Address (nh_Node h) = nd_Address (nh_Node k)" using xy(3) on by (simp add: node_or_zero_def)
    then have "h = k" using ad hk(1,3) by (auto simp: distinct_map inj_on_def)
    with hk xy(3) show ?thesis by simp
  qed
  have inj: "inj_on (\<lambda>x. (es_SliceID x, es_NodeID x)) (set q)" "distinct q" using dp by (simp_all only: distinct_map)
  have "inj_on (\<lambda>x. (es_SliceID x, nd_Address (?n x))) (set q)"
  proof (rule inj_onI)
    fix x y assume "x \<in> set q" "y \<in> set q" "(es_SliceID x, nd_Address (?n x)) = (es_SliceID y, nd_Address (?n y))"
    from inj_onD[OF inj(1) same[OF this] this(1,2)] show "x = y" .
  qed
  with inj(2) show ?thesis by (simp only: distinct_map)
qed

text \<open>When no push fails, the nodes hold what the queue says, and there is only one round of pushes.\<close>

lemma smooth_written:
  assumes w: "written_by mem_chain en NE H we opt content sys sys' w" and "crypt_laws (en_K en)"
    and "queue_ok we" and "inj (we_uuid we)" and "we_slicer we = NewSimpleSlicer b q"
    and "GetHealthNodes H = Inr nodes" and net: "fresh_network NE we (sys_net sys) nodes" and "\<forall>i. smooth (we_push we i)"
  shows "wr_failed1 w = []" and "wr_fin2 w = []" and "wr_fin3 w = []" and "wr_net1 w = sys_net sys'"
    and "(x, i) \<in> set (wr_fin1 w) \<Longrightarrow> \<exists>h \<in> set nodes. es_NodeID x = nd_ID (nh_Node h) \<and>
      holds NE (sys_net sys') (nd_Address (nh_Node h)) (es_SliceID x) i = Inr (es_CipherText x) \<and> slice_id_ok (es_SliceID x) \<and>
      es_CipherHash x = sha256 (en_E en) (es_CipherText x) \<and> es_Length x = of_nat (length (es_CipherText x))"
proof -
  have nodes: "wr_nodes w = nodes" and
    sl: "SimpleSlice (en_E en) (we_slicer we) (we_uuid we) (file_cipher en (we_fileID we) content) = Some (wr_slices w)" and
    di: "distribute NE (hex (en_pubkey en)) (ToNodeHsMap (wr_nodes w)) (we_push we) 0
      (we_queue we (planned en (we_fileID we) (wr_located w))) (sys_net sys) = (wr_fin1 w, wr_failed1 w, wr_net1 w)"
    using w assms(6) by (simp_all add: written_by_def)
  note ids = slices_ids[OF sl[unfolded assms(5)] assms(4)]
  have S: "ne_S NE = local_v2 (ne_valid NE)" and hid: "healthy_ids nodes" and ad: "distinct (map (nd_Address \<circ> nh_Node) nodes)"
    and uu: "\<And>i. ne_valid NE (we_uuid we i)" "\<And>i. slice_id_ok (we_uuid we i)" "\<And>i a. ns_slices (sys_net sys a) (we_uuid we i) = None"
    using net by (simp_all add: fresh_network_def)
  note st = written_stored[OF w assms(2,3) conjunct1[OF ids], unfolded nodes, OF hid]
  let ?q = "we_queue we (planned en (we_fileID we) (wr_located w))"
  let ?n = "\<lambda>e. node_or_zero (ToNodeHsMap nodes) (es_NodeID e)"
  note copies = queue_copies[OF w assms(3)]
  have uid: "\<exists>i. es_SliceID e = we_uuid we i" if "e \<in> set ?q" for e
  proof -
    from are_copiesD[OF copies that] obtain s where "s \<in> set (wr_slices w)" "es_SliceID e = sl_ID s" by blast
    with ids have "es_SliceID e \<in> range (we_uuid we)" by (metis image_eqI list.set_map subsetD)
    then show ?thesis by blast
  qed
  have qok: "\<forall>e \<in> set ?q. (ne_valid NE (es_SliceID e) \<and> slice_id_ok (es_SliceID e)) \<and>
      (\<forall>a. ns_slices (sys_net sys a) (es_SliceID e) = None)"
  proof
    fix e assume "e \<in> set ?q"
    from uid[OF this] uu show "(ne_valid NE (es_SliceID e) \<and> slice_id_ok (es_SliceID e)) \<and>
      (\<forall>a. ns_slices (sys_net sys a) (es_SliceID e) = None)" by auto
  qed
  have "wr_failed1 w = []"
    by (rule local_store.smooth_distribute[OF S assms(8) di]) (use qok in blast)
  then have e: "wr_failed1 w = []" "wr_fin2 w = []" "wr_fin3 w = []" "wr_net1 w = sys_net sys'"
    using w by (auto simp: written_by_def pushToOtherNode_def)
  have mq: "mset (map fst (wr_fin1 w)) = mset ?q" using distribute_mset[OF di] e(1) by simp
  have on: "ToNodeHsMap nodes (nd_ID (nh_Node h)) = Some (nh_Node h)" if "h \<in> set nodes" for h
    by (rule ToNodeHsMap_in[OF hid that GetHealthNodes_online[OF assms(6) that]])
  have nq: "mset (nodes_of i ?q) = mset (nodes_of i (map fst (wr_fin1 w)))" for i using nodes_of_mset[OF mq] by simp
  have hq: "\<exists>h \<in> set nodes. es_NodeID x = nd_ID (nh_Node h)" if "x \<in> set ?q" for x
  proof -
    from are_copiesD[OF copies that] obtain s where s: "s \<in> set (wr_slices w)" "es_SliceID x = sl_ID s" by blast
    then have "es_NodeID x \<in> set (nodes_of (sl_ID s) ?q)" using that by (auto simp: nodes_of_def)
    then have "es_NodeID x \<in> set (nodes_of (sl_ID s) (map fst (wr_stored w)))" using e mset_eq_setD[OF nq] by simp
    then have "es_NodeID x \<in> (nd_ID \<circ> nh_Node) ` set nodes" using st s(1) by blast
    then show ?thesis by auto
  qed
  have dp: "distinct (map (\<lambda>x. (es_SliceID x, es_NodeID x)) ?q)"
    by (rule copies_distinct[OF copies conjunct1[OF ids]]) (use st e mset_eq_imp_distinct_iff[OF nq] in simp)
  have held: "\<forall>(x, i) \<in> set (wr_fin1 w). holds NE (wr_net1 w) (nd_Address (?n x)) (es_SliceID x) i = Inr (es_CipherText x)"
  proof (rule local_store.distribute_stored[OF S di[unfolded nodes] addresses_distinct[OF hq on ad dp]])
    show "\<forall>x \<in> set ?q. slice_id_ok (es_SliceID x) \<and>
        (\<forall>v. holds NE (sys_net sys) (nd_Address (?n x)) (es_SliceID x) (es_SliceID x) \<noteq> Inr v)"
      using qok by (simp add: holds_def S local_v2_def v2_Load_def local_Load_def local_Exist_def fine_def)
  qed
  show "wr_failed1 w = []" "wr_fin2 w = []" "wr_fin3 w = []" "wr_net1 w = sys_net sys'" by (rule e)+
  assume x: "(x, i) \<in> set (wr_fin1 w)"
  then have xq: "x \<in> set ?q" using mset_eq_setD[OF mq] by force
  with hq obtain h where h: "h \<in> set nodes" "es_NodeID x = nd_ID (nh_Node h)" by blast
  have "?n x = nh_Node h" using on[OF h(1)] h(2) by (simp add: node_or_zero_def)
  then have "holds NE (sys_net sys') (nd_Address (nh_Node h)) (es_SliceID x) i = Inr (es_CipherText x)" using held x e(4) by auto
  moreover have "slice_id_ok (es_SliceID x)" using uid[OF xq] uu(2) by auto
  ultimately show "\<exists>h \<in> set nodes. es_NodeID x = nd_ID (nh_Node h) \<and>
      holds NE (sys_net sys') (nd_Address (nh_Node h)) (es_SliceID x) i = Inr (es_CipherText x) \<and> slice_id_ok (es_SliceID x) \<and>
      es_CipherHash x = sha256 (en_E en) (es_CipherText x) \<and> es_Length x = of_nat (length (es_CipherText x))"
    using h are_copiesD[OF copies xq] by blast
qed

text \<open>
  C17: When no push of a write fails, every replica that is published can be pulled from its node by
  the owner: the node answers with the encrypted slice whose hash and length the chain holds.
\<close>

theorem stored_replicas_pulled:
  assumes "Write mem_chain en NE H we opt content sys = Some (Inr fid, sys')" and "crypt_laws (en_K en)"
    and "queue_ok we" and "inj (we_uuid we)" and "we_slicer we = NewSimpleSlicer b q"
    and "GetHealthNodes H = Inr nodes" and "fresh_network NE we (sys_net sys) nodes" and "\<forall>i. smooth (we_push we i)"
    and "plain_id fid" and "now \<le>s wo_ExpireTime opt" and "owner_may_pull (NE\<lparr>ne_C := C', ne_now := t\<rparr>) en fid"
    and "xchain_GetFileByID mem_chain (en_E en) now (sys_ledger sys') fid = Inr f" and "m \<in> set (f_Slices f)"
  shows "\<exists>h \<in> nh_Node ` set nodes. \<exists>c. nd_ID h = sm_NodeID m \<and> sha256 (en_E en) c = sm_CipherHash m \<and>
    of_nat (length c) = sm_Length m \<and> (up (nd_Address h) = Some fine \<longrightarrow> is_error_text (en_E en) c \<or>
    copier_Pull (NE\<lparr>ne_C := C', ne_now := t\<rparr>) up (sys_net sys') h (sm_ID m) (sm_StorIndex m) fid = Some c)"
proof -
  from Write_written[OF assms(1,2)] obtain w where fid: "fid = we_fileID we" and
    w: "written_by mem_chain en NE H we opt content sys sys' w" by blast
  have f: "f = wr_file w" using written_ledger[OF w assms(2)] assms(9,10,12) fid by simp
  note sm = smooth_written[OF w assms(2-8)]
  obtain xs where xs: "mset xs = mset (wr_fin1 w)" "list_all2 entry_of (f_Slices f) xs"
    using written_file(2)[OF w assms(2)] sm(1-3) f by auto
  then obtain x i where x: "(x, i) \<in> set (wr_fin1 w)" "entry_of m (x, i)"
    using list_all2_sets[OF xs(2)] assms(13) mset_eq_setD[OF xs(1)] by (metis surj_pair)
  from sm(5)[OF x(1)] obtain h where h: "h \<in> set nodes" "es_NodeID x = nd_ID (nh_Node h)"
    "holds NE (sys_net sys') (nd_Address (nh_Node h)) (es_SliceID x) i = Inr (es_CipherText x)" "slice_id_ok (es_SliceID x)"
    "es_CipherHash x = sha256 (en_E en) (es_CipherText x)" "es_Length x = of_nat (length (es_CipherText x))" by blast
  have "holds (NE\<lparr>ne_C := C', ne_now := t\<rparr>) (sys_net sys') (nd_Address (nh_Node h)) (es_SliceID x) i = Inr (es_CipherText x)"
    using h(3) by (simp add: holds_def)
  from owner_pull[OF h(4) this _ assms(11)] have "up (nd_Address (nh_Node h)) = Some fine \<longrightarrow> is_error_text (en_E en) (es_CipherText x) \<or>
      copier_Pull (NE\<lparr>ne_C := C', ne_now := t\<rparr>) up (sys_net sys') (nh_Node h) (es_SliceID x) i fid = Some (es_CipherText x)"
    by blast
  with x(2) h show ?thesis by (auto simp: entry_of_def)
qed

section \<open>Reading a written file\<close>

text \<open>A write that succeeded, the slices it made and the file that the chain then gives.\<close>

definition after_write :: "engine \<Rightarrow> 's net_env \<Rightarrow> health_reads \<Rightarrow> write_env \<Rightarrow> WriteOptions \<Rightarrow> bytes \<Rightarrow>
    (store, 's) system \<Rightarrow> (store, 's) system \<Rightarrow> nat \<Rightarrow> Slice list \<Rightarrow> int64 \<Rightarrow> File \<Rightarrow> bool" where
  "after_write en NE H we opt content sys sys' bs slices now f \<longleftrightarrow>
     Write mem_chain en NE H we opt content sys = Some (Inr (we_fileID we), sys') \<and> crypt_laws (en_K en) \<and>
     queue_ok we \<and> inj (we_uuid we) \<and> (\<exists>b q. we_slicer we = NewSimpleSlicer b q \<and> bs = unat (ss_blockSize (we_slicer we))) \<and>
     SimpleSlice (en_E en) (we_slicer we) (we_uuid we) (file_cipher en (we_fileID we) content) = Some slices \<and>
     readable_json (en_E en) slices \<and> length content + 16 < 2 ^ 63 \<and>
     plain_id (we_fileID we) \<and> now \<le>s wo_ExpireTime opt \<and>
     xchain_GetFileByID mem_chain (en_E en) now (sys_ledger sys') (we_fileID we) = Inr f"

lemma after_write_facts:
  assumes "after_write en NE H we opt content sys sys' bs slices now f"
  defines "c \<equiv> file_cipher en (we_fileID we) content"
  shows "crypt_laws (en_K en)" and "readable_json (en_E en) slices"
    and "f_ID f = we_fileID we" and "f_Owner f = en_pubkey en" and "f_Length f + 16 = of_nat (length c)"
    and "f_Structure f = file_cipher en (we_fileID we) (FileStructure_Marshal (structure_of slices))"
    and "0 < bs" and "map sl_Data slices = map (pad_block bs) (chunks bs c)" and "distinct (map sl_ID slices)"
    and "slices \<noteq> []" and "c \<noteq> []" and "length c < 2 ^ 63" and "entries_of en slices f"
    and "\<forall>s \<in> set slices. \<forall>n. length (es_CipherText (copy_of en (f_ID f) s n)) < 2 ^ 63"
proof -
  note a = assms(1)[unfolded after_write_def]
  show K: "crypt_laws (en_K en)" and "readable_json (en_E en) slices" using a by blast+
  obtain w where w: "written_by mem_chain en NE H we opt content sys sys' w" using Write_written[OF _ K] a by blast
  have sw: "wr_slices w = slices" using w a by (simp add: written_by_def)
  have fw: "f = wr_file w" using written_ledger[OF w K, of now] a by simp
  note facts = written_file(1)[OF w K, folded fw, unfolded sw]
  show "f_ID f = we_fileID we" "f_Owner f = en_pubkey en"
    "f_Structure f = file_cipher en (we_fileID we) (FileStructure_Marshal (structure_of slices))" using facts by blast+
  have lc: "length c = length content + 16" unfolding c_def by (rule length_sealed[OF K])
  show "f_Length f + 16 = of_nat (length c)" using facts unfolding lc by simp
  show "c \<noteq> []" "length c < 2 ^ 63" using lc a by auto
  obtain b q where bq: "we_slicer we = NewSimpleSlicer b q" "bs = unat (ss_blockSize (NewSimpleSlicer b q))" using a by auto
  show bs: "0 < bs" unfolding bq(2) by (rule slicer_block_size)
  have "SimpleSlice (en_E en) (NewSimpleSlicer b q) (we_uuid we) c = Some slices" using a bq(1) unfolding c_def by simp
  note ids = slices_ids[OF this, folded bq(2)]
  show d: "map sl_Data slices = map (pad_block bs) (chunks bs c)" and di: "distinct (map sl_ID slices)" using ids a by blast+
  show "slices \<noteq> []" using d chunks_nonempty[OF bs \<open>c \<noteq> []\<close>] by auto
  have st: "are_copies en (we_fileID we) slices (map fst (wr_stored w))"
  proof -
    have q: "queue_ok we" using a by blast
    note cq = queue_copies[OF w q]
    show ?thesis using written_copies[OF w K q] sw by simp
  qed
  obtain xs where xs: "mset xs = mset (wr_stored w)" "list_all2 entry_of (f_Slices f) xs"
    using written_file(2)[OF w K] fw by auto
  show "entries_of en slices f"
    unfolding entries_of_def
  proof
    fix t assume "t \<in> set (f_Slices f)"
    then obtain x where x: "x \<in> set xs" "entry_of t x" using list_all2_sets[OF xs(2)] by blast
    then have "fst x \<in> set (map fst (wr_stored w))" using mset_eq_setD[OF xs(1)] by (metis image_eqI list.set_map)
    from are_copiesD[OF st this] obtain s where s: "s \<in> set slices" "fst x = copy_of en (we_fileID we) s (es_NodeID (fst x))" by blast
    have e: "sm_ID t = es_SliceID (fst x)" "sm_CipherHash t = es_CipherHash (fst x)" "sm_Length t = es_Length (fst x)"
      "sm_NodeID t = es_NodeID (fst x)" using x(2) by (simp_all add: entry_of_def)
    have cx: "copy_of en (f_ID f) s (sm_NodeID t) = fst x" using s(2) e(4) facts by simp
    have "sm_ID t = sl_ID s" using e(1) s(2) by (metis copy_of_simps(1))
    then have "sm_ID t = sl_ID s \<and> sm_CipherHash t = es_CipherHash (copy_of en (f_ID f) s (sm_NodeID t)) \<and>
        sm_Length t = es_Length (copy_of en (f_ID f) s (sm_NodeID t))" unfolding cx using e(2,3) by blast
    with s(1) show "\<exists>s \<in> set slices. sm_ID t = sl_ID s \<and> sm_CipherHash t = es_CipherHash (copy_of en (f_ID f) s (sm_NodeID t)) \<and>
        sm_Length t = es_Length (copy_of en (f_ID f) s (sm_NodeID t))" by blast
  qed
  show "\<forall>s \<in> set slices. \<forall>n. length (es_CipherText (copy_of en (f_ID f) s n)) < 2 ^ 63"
  proof (intro ballI allI)
    fix s n assume "s \<in> set slices"
    then have "sl_Data s \<in> set (map (pad_block bs) (chunks bs c))" unfolding d[symmetric] by simp
    then obtain k where k: "k \<in> set (chunks bs c)" "sl_Data s = pad_block bs k" by auto
    then have "length (sl_Data s) = bs" using chunks_sizes[OF bs k(1)] by (simp add: pad_block_def)
    moreover have "unat (ss_blockSize (NewSimpleSlicer b q)) < 2 ^ LENGTH(32)" by (rule unsigned_less)
    then have "bs < 2 ^ 32" unfolding bq(2) by simp
    ultimately show "length (es_CipherText (copy_of en (f_ID f) s n)) < 2 ^ 63"
      using length_sealed[OF K] by (simp add: copy_of_def Let_def)
  qed
qed

text \<open>Every slice has a replica that answers, and answers with a published hash are the copies.\<close>

definition replicas_answer :: "engine \<Rightarrow> Node list \<Rightarrow> net_pull \<Rightarrow> Slice list \<Rightarrow> File \<Rightarrow> bool" where
  "replicas_answer en nodes pull slices f \<longleftrightarrow> (let m = ToNodesMap (filter nd_Online nodes) in
     answers_intact en m pull slices f \<and>
     (\<forall>s \<in> set slices. \<exists>t \<in> set (f_Slices f). sm_ID t = sl_ID s \<and> replica_answers en m pull f t))"

lemma Read_after_write:
  assumes a: "after_write en NE H we opt content sys sys' bs slices now f"
    and g: "read_granted en C now ropt nodes f" and r: "replicas_answer en nodes pull slices f"
  defines "c \<equiv> file_cipher en (we_fileID we) content"
  shows "Read en C pull now spare ropt = Some (rbind (cut_to spare (of_nat (length c))
      (concat (map (\<lambda>b. TrimRight b zero) (chunks bs c)))) (\<lambda>c. recode ErrCodeCrypto (Recover (en_K en) (en_soft en) c (file_opts (we_fileID we)))))"
proof -
  note f = after_write_facts[OF a, folded c_def]
  have "Read en C pull now spare ropt = Some (rbind (cut_to spare (f_Length f + 16)
      (concat (map (\<lambda>d. TrimRight d zero) (map sl_Data slices)))) (\<lambda>c.
      recode ErrCodeCrypto (Recover (en_K en) (en_soft en) c (file_opts (f_ID f)))))"
    by (rule Read_value[OF f(1) g _ f(2) f(10) f(13) f(9) f(14)])
      (use r f(3,6) in \<open>simp_all add: replicas_answer_def Let_def\<close>)
  then show ?thesis unfolding f(5) f(3) f(8) trimmed_blocks .
qed

text \<open>
  C18: A written file is read back. When every slice has a replica that answers, and no block but the
  last of the encrypted file ends in a zero byte, the owner gets the content that was written; only
  when the encrypted file ends in more zero bytes than the buffer has to spare does the read panic.
\<close>

theorem written_file_read_back:
  assumes "after_write en NE H we opt content sys sys' bs slices now f"
    and "read_granted en C now ropt nodes f" and "replicas_answer en nodes pull slices f"
    and "no_inner_zero bs (file_cipher en (we_fileID we) content)"
  shows "Read en C pull now spare ropt =
    Some (if trailing_zeros (file_cipher en (we_fileID we) content) \<le> spare then Inr content else Inl Panicked)"
proof -
  note f = after_write_facts[OF assms(1)]
  let ?c = "file_cipher en (we_fileID we) content"
  have lt: "length ?c < 2 ^ 64" using f(12) by simp
  show ?thesis
    unfolding Read_after_write[OF assms(1-3)] chunks_inner[OF f(7) assms(4) f(11)] cut_trimmed[OF lt]
    by (simp add: Recover_sealed[OF f(1), THEN iffD2, OF refl] recode_def)
qed

text \<open>
  A block inside the encrypted file that ends in a zero byte loses the file. The zeros are cut off
  every slice that is read, so when an inner block ends in one and the file does not, the owner does
  not get the content back, although every replica is intact.
\<close>

lemma inner_zero_unreadable:
  assumes "after_write en NE H we opt content sys sys' bs slices now f"
    and "read_granted en C now ropt nodes f" and "replicas_answer en nodes pull slices f"
    and "\<not> no_inner_zero bs (file_cipher en (we_fileID we) content)"
    and "last (file_cipher en (we_fileID we) content) \<noteq> CHR 0x00"
  shows "Read en C pull now spare ropt \<noteq> Some (Inr content)"
proof -
  note f = after_write_facts[OF assms(1)]
  have "length (file_cipher en (we_fileID we) content) < 2 ^ 64" using f(12) by simp
  from cut_inner_zero[OF f(7) assms(4,5) this] show ?thesis
    unfolding Read_after_write[OF assms(1-3)] by (auto simp: rbind_ok Recover_sealed[OF f(1)])
qed

section \<open>Reading by an authorized executor\<close>

lemma recover_GCM_Recover: "recover_GCM (en_K en) (GetKey (en_K en) (en_soft en) fid sid n) c =
    recode ErrCodeInternal (Recover (en_K en) (en_soft en) c (slice_opts fid sid n))"
  by (simp add: recover_GCM_def Recover_def slice_opts_def)

lemma slice_opts_file: "slice_opts fid [] [] = file_opts fid"
  by (simp add: slice_opts_def file_opts_def)

text \<open>
  C19: An executor that the owner has authorized recovers the content of a written file exactly when
  its ciphertext does not end in a zero byte: the zeros that fill up the last slice are cut off with
  those of the ciphertext.
\<close>

theorem executor_recovers_unless_zero:
  assumes "after_write en NE H we opt content sys sys' bs slices now f"
    and "getAuthKey en C (f_ID f) expireTime = Inr (firstKey, secKey)" and "cr_GetFileByID C (f_ID f) = Inr f"
    and "cr_ListNodes C = Inr nodes" and "replicas_answer en nodes pull slices f" and "filter nd_Online nodes \<noteq> []"
  shows "recoverFile (en_K en) C pull f firstKey secKey = Some (Inr content) \<longleftrightarrow>
    last (file_cipher en (we_fileID we) content) \<noteq> CHR 0x00"
proof -
  note f = after_write_facts[OF assms(1)]
  let ?c = "file_cipher en (we_fileID we) content" and ?m = "ToNodesMap (filter nd_Online nodes)"
  let ?t = "\<lambda>left d. if left \<noteq> (0::nat) then d else TrimRight d zero"
  have k1: "firstKey = GetKey (en_K en) (en_soft en) (f_ID f) [] []"
    using assms(2,3) by (auto simp: getAuthKey_def Let_def split: if_splits)
  have k2: "slice_key secKey (sm_ID t) (sm_NodeID t) = GetKey (en_K en) (en_soft en) (f_ID f) (sm_ID t) (sm_NodeID t)"
    if "t \<in> set (f_Slices f)" for t
    using assms(2,3) that by (auto simp: getAuthKey_def Let_def slice_key_def makeSlicesPool4Read_def split: if_splits)
  have ps: "read_slices (makeSlicesPool4Read (f_Slices f)) (pull_targets (en_E en) ?m pull (f_ID f)
      (\<lambda>target node c. recover_GCM (en_K en) (slice_key secKey (sm_ID target) (nd_ID node)) c)) ?t (structure_of slices) =
      Inr (joined ?t (map sl_Data slices))"
  proof (rule pulled_slices[OF f(13,9,14)])
    show "answers_intact en ?m pull slices f"
      "\<forall>s \<in> set slices. \<exists>t \<in> set (f_Slices f). sm_ID t = sl_ID s \<and> replica_answers en ?m pull f t"
      using assms(5) by (simp_all add: replicas_answer_def Let_def)
    fix t n s assume t: "t \<in> set (f_Slices f)" "s \<in> set slices" "sm_ID t = sl_ID s" "?m (sm_NodeID t) = Some n"
    have "nd_ID n = sm_NodeID t" using ToNodesMap_id[OF t(4)] by simp
    then show "recover_GCM (en_K en) (slice_key secKey (sm_ID t) (nd_ID n)) (es_CipherText (copy_of en (f_ID f) s (sm_NodeID t))) = Inr (sl_Data s)"
      using k2[OF t(1)] Recover_copy[OF f(1), of "f_ID f" s "sm_NodeID t"] t(3) by (simp add: recover_GCM_Recover)
  qed
  have ne: "chunks bs ?c \<noteq> []" by (rule chunks_nonempty[OF f(7) f(11)])
  have full: "map (pad_block bs) (butlast (chunks bs ?c)) = butlast (chunks bs ?c)"
    by (intro map_idI) (use chunks_full[OF f(7)] in \<open>auto simp: pad_block_def\<close>)
  have j: "joined ?t (map sl_Data slices) = concat (butlast (chunks bs ?c)) @ TrimRight (last (chunks bs ?c)) zero"
    unfolding f(8) using ne full by (subst joined_last) (simp_all add: last_map TrimRight_pad flip: map_butlast)
  have split: "concat (butlast (chunks bs ?c)) @ last (chunks bs ?c) = ?c"
    using arg_cong[OF append_butlast_last_id[OF ne], of concat] concat_chunks[OF f(7), of ?c] by simp
  have lne: "last (chunks bs ?c) \<noteq> []" using chunks_sizes[OF f(7) last_in_set[OF ne]] by blast
  then have lc: "last ?c = last (last (chunks bs ?c))"
    using last_appendR[of "last (chunks bs ?c)" "concat (butlast (chunks bs ?c))"] unfolding split by blast
  have "joined ?t (map sl_Data slices) = ?c \<longleftrightarrow> TrimRight (last (chunks bs ?c)) zero = last (chunks bs ?c)"
    using same_append_eq[of "concat (butlast (chunks bs ?c))" "TrimRight (last (chunks bs ?c)) zero" "last (chunks bs ?c)"]
    unfolding split j .
  then have same: "joined ?t (map sl_Data slices) = ?c \<longleftrightarrow> last ?c \<noteq> zero"
    using lne unfolding TrimRight_eq lc by blast
  have st: "exec_recoverChainFileStructure (en_K en) firstKey (f_Structure f) = Inr (structure_of slices)"
  proof -
    have "Recover (en_K en) (en_soft en) (f_Structure f) (file_opts (f_ID f)) = Inr (FileStructure_Marshal (structure_of slices))"
      unfolding Recover_sealed[OF f(1)] f(3,6) ..
    then have "DecryptUsingAESGCM (en_K en) firstKey (f_Structure f) = Inr (FileStructure_Marshal (structure_of slices))"
      by (simp add: Recover_def file_opts_def k1)
    then show ?thesis by (simp add: exec_recoverChainFileStructure_def FileStructure_back[OF f(2)])
  qed
  have "structure_of slices \<noteq> []" using f(10) by (simp add: structure_of_def)
  then have "recoverFile (en_K en) C pull f firstKey secKey =
      Some (recode ErrCodeCrypto (recover_GCM (en_K en) firstKey (joined ?t (map sl_Data slices))))"
    using assms(4,6) by (simp add: recoverFile_def Let_def st ps del: neq0_conv)
  also have "\<dots> = Some (Inr content) \<longleftrightarrow> joined ?t (map sl_Data slices) = ?c"
    unfolding k1 recover_GCM_Recover slice_opts_file using f(3) by (simp add: Recover_sealed[OF f(1)])
  finally show ?thesis unfolding same .
qed

section \<open>Cutting and choosing\<close>

text \<open>
  Cutting a file ends, whatever the configuration says about the size, and its slices are blocks
  of one size that together are the file, filled up with fewer zeros than a block has.
\<close>

lemma slices_cover_file:
  "\<exists>ss. SimpleSlice E (NewSimpleSlicer b q) uuid r = Some ss \<and>
     set (map (length \<circ> sl_Data) ss) \<subseteq> {unat (ss_blockSize (NewSimpleSlicer b q))} \<and>
     (\<exists>k < unat (ss_blockSize (NewSimpleSlicer b q)). concat (map sl_Data ss) = r @ replicate k (CHR 0x00))"
proof -
  let ?bs = "unat (ss_blockSize (NewSimpleSlicer b q))"
  note bs = slicer_block_size[of b q]
  obtain ss where ss: "SimpleSlice E (NewSimpleSlicer b q) uuid r = Some ss" "map sl_Data ss = map (pad_block ?bs) (chunks ?bs r)"
    using Slice_loop_chunks[OF bs, where E = E and uuid = uuid and i = 0 and r = r] by (auto simp: SimpleSlice_def)
  have "set (map length (map sl_Data ss)) \<subseteq> {?bs}"
    unfolding ss(2) using chunks_sizes[OF bs, of _ r] by (fastforce simp: pad_block_def)
  moreover have "\<exists>k < ?bs. concat (map sl_Data ss) = r @ replicate k zero"
  proof (cases "r = []")
    case True
    with bs show ?thesis by (auto simp: ss(2))
  next
    case False
    then have ne: "chunks ?bs r \<noteq> []" by (rule chunks_nonempty[OF bs])
    have full: "map (pad_block ?bs) (butlast (chunks ?bs r)) = butlast (chunks ?bs r)"
      by (rule map_idI) (simp add: pad_block_def chunks_full[OF bs, of _ r])
    have "map (pad_block ?bs) (chunks ?bs r) = butlast (chunks ?bs r) @ [pad_block ?bs (last (chunks ?bs r))]"
      using arg_cong[OF append_butlast_last_id[OF ne], of "map (pad_block ?bs)"] full by simp
    then have "concat (map sl_Data ss) = concat (butlast (chunks ?bs r)) @ pad_block ?bs (last (chunks ?bs r))"
      by (simp add: ss(2))
    also have "\<dots> = r @ replicate (?bs - length (last (chunks ?bs r))) zero"
      using arg_cong[OF append_butlast_last_id[OF ne], of concat] concat_chunks[OF bs, of r] by (simp add: pad_block_def)
    finally have "concat (map sl_Data ss) = r @ replicate (?bs - length (last (chunks ?bs r))) zero" .
    moreover have "0 < length (last (chunks ?bs r))" using chunks_sizes[OF bs last_in_set[OF ne]] by simp
    ultimately show ?thesis using bs by (intro exI[of _ "?bs - length (last (chunks ?bs r))"]) simp
  qed
  ultimately show ?thesis using ss(1) by (intro exI[of _ ss]) simp
qed

text \<open>
  C20: Choosing the nodes of a slice ends once the random numbers have hit every index, and one more
  has been drawn for the yellow nodes.
\<close>

theorem node_selection_ends:
  assumes "distinct (map (nd_ID \<circ> nh_Node) hs)" and "{..<length hs} \<subseteq> set yd" and "{..<length hs} \<subseteq> set ds"
  shows "Select (yd @ [d]) ds hs r \<noteq> None"
proof -
  let ?G = "with_health NodeHealthGood hs" and ?Y = "with_health NodeHealthMedium hs" and ?r = "unat r"
  have hit: "\<forall>i < n. i \<in> (\<lambda>d. d mod n) ` set xs" if "n \<le> length hs" "{..<length hs} \<subseteq> set xs" for n xs
  proof (intro allI impI)
    fix i assume i: "i < n"
    then have "i \<in> set xs" using that by auto
    with i show "i \<in> (\<lambda>d. d mod n) ` set xs" by (intro image_eqI[of _ _ i]) simp_all
  qed
  have ids: "distinct (map nd_ID (?G @ ?Y))" by (rule with_health_ids[OF assms(1)])
  have len: "length ?G + length ?Y \<le> length hs"
  proof -
    have "set ?G \<union> set ?Y \<subseteq> nh_Node ` set hs" by (auto simp: with_health_def)
    then have "card (set (?G @ ?Y)) \<le> card (nh_Node ` set hs)" by (intro card_mono) auto
    moreover have "card (nh_Node ` set hs) \<le> length hs" using card_image_le[of "set hs" nh_Node] card_length[of hs] by simp
    moreover have "distinct (?G @ ?Y)" using ids unfolding distinct_map by blast
    then have "card (set (?G @ ?Y)) = length ?G + length ?Y" using distinct_card[of "?G @ ?Y"] by simp
    ultimately show ?thesis by linarith
  qed
  have some: "getSliceOptimalNodes (yd @ [d]) hs ?r \<noteq> None"
  proof (cases "?r \<le> length ?G \<or> length ?G = 0 \<or> length ?G + length ?Y \<le> ?r")
    case True
    then show ?thesis by (auto simp: getSliceOptimalNodes_def Let_def)
  next
    case False
    have dy: "distinct (map nd_ID ?Y)" using ids by simp
    then have "card (nd_ID ` set ?Y) = length ?Y" using distinct_card[OF dy] by simp
    then have "yellow_loop (?r - length ?G) ?Y (yd @ [d]) [] ?G \<noteq> None"
      by (intro yellow_loop_returns) (use False hit[OF _ assms(2), of "length ?Y"] len in auto)
    with False show ?thesis by (simp add: getSliceOptimalNodes_def Let_def)
  qed
  show ?thesis
  proof (cases "length hs = 0 \<or> ?r = 0")
    case False
    obtain ns where n: "getSliceOptimalNodes (yd @ [d]) hs ?r = Some ns" using some by blast
    have "distinct (map nd_ID ns)" "set ns \<subseteq> set ?G \<union> set ?Y" using getSliceOptimalNodes_facts[OF n assms(1)] by auto
    then have "distinct ns" "card (set ns) \<le> card (set (?G @ ?Y))" by (auto simp: distinct_map intro: card_mono)
    then have "length ns \<le> card (set (?G @ ?Y))" by (simp add: distinct_card)
    then have "length ns \<le> length hs" using card_length[of "?G @ ?Y"] len by simp
    then have "select_loop ?r ns ds [] [] \<noteq> None"
      by (intro select_loop_returns) (use hit[OF _ assms(3)] in auto)
    with False n show ?thesis by (auto simp: Select_def Let_def)
  qed (auto simp: Select_def Let_def)
qed


section \<open>Serving slices\<close>

lemma if_Inl_ok: "(if c then Inl e else x) = Inr b \<longleftrightarrow> \<not> c \<and> x = Inr b"
  by simp

lemma rbind_unit_ok: "rbind (r :: unit result) g = Inr y \<longleftrightarrow> r = Inr () \<and> g () = Inr y"
  by (auto simp: rbind_ok)


lemma option_Inl_ok: "(case x of None \<Rightarrow> Inl e | Some m \<Rightarrow> g m) = Inr b \<longleftrightarrow> (\<exists>m. x = Some m \<and> g m = Inr b)"
  by (simp split: option.split)



section \<open>Pulling challenge material\<close>

text \<open>The message of a pull, spelled out.\<close>

lemma dec_int_last: "last (dec_int i) \<noteq> CHR ''&''"
proof -
  have "last (dec_nat n) \<noteq> CHR ''&''" for n
  proof
    assume e: "last (dec_nat n) = CHR ''&''"
    obtain d where d: "d < 10" "last (dec_nat n) = digit d" using dec_nat_chars[of "last (dec_nat n)" n] by auto
    have "(of_char (digit d) :: nat) = 48 + d" using d(1) by (simp add: digit_def)
    moreover have "(of_char (digit d) :: nat) = 38" unfolding d(2)[symmetric] e by simp
    ultimately show False by simp
  qed
  then show ?thesis by (auto simp: dec_int_def)
qed

definition pull_text :: "bool \<Rightarrow> PullOptions \<Rightarrow> string" where
  "pull_text b opt = (if b then ''true'' else ''false'') @ ''&slice_id='' @ pl_SliceID opt @ ''&slice_stor_index='' @
     pl_StorIndex opt @ ''&timestamp='' @ dec_int (sint (pl_Timestamp opt))"

lemma pull_message_text:
  assumes "pl_Pubkey opt = []"
  shows "GetSigMessage (enc_PullOptions opt) = Some (''file_id='' @ pl_FileID opt @ ''&notASlice='' @ pull_text (pl_NotASlice opt) opt)"
proof -
  let ?m = "''file_id='' @ pl_FileID opt @ ''&notASlice='' @ pull_text (pl_NotASlice opt) opt"
  have ne: "dec_int (sint (pl_Timestamp opt)) \<noteq> []" by (simp add: dec_int_def)
  have "?m \<noteq> []" "last ?m \<noteq> CHR ''&''" using dec_int_last[of "sint (pl_Timestamp opt)"] ne by (simp_all add: pull_text_def)
  then have "TrimRight (?m @ ''&'') (CHR ''&'') = ?m" using TrimRight_last[of ?m "CHR ''&''"] TrimRight_id by simp
  moreover have "GetSigMessage (enc_PullOptions opt) = Some (TrimRight (?m @ ''&'') (CHR ''&''))"
    using assms by (simp add: GetSigMessage_def enc_PullOptions_def sig_part_def enc_bytes_def enc_int_def sig_value_def pull_text_def)
  ultimately show ?thesis by simp
qed

text \<open>
  Challenge material cannot be pulled. The owner asks for it under the slice identifier with the
  suffix and signs that request; the node cuts the suffix off, marks the request as one for challenge
  material and checks the signature of a message that the owner has not signed. So when signatures and
  digests tell messages apart, the pull of any identifier with the suffix fails.
\<close>

lemma sigmas_never_pulled:
  assumes "\<And>d d' pk. verifyUserToken (ne_engine NE) pk (hex (ne_sign NE d)) d' = Inr () \<Longrightarrow> d = d'"
    and "inj (sha256 (en_E (ne_engine NE)))"
  shows "copier_Pull NE up net node (k @ ChallengeFileSuffix) i fid = None"
proof -
  have sx: "TrimSuffix (k @ ChallengeFileSuffix) ChallengeFileSuffix = k" by (simp add: TrimSuffix_def suffix_def)
  define opt where "opt = \<lparr>pl_Pubkey = [], pl_SliceID = k @ ChallengeFileSuffix, pl_StorIndex = i, pl_FileID = fid,
    pl_Timestamp = ne_now NE, pl_NotASlice = False, pl_Signature = []\<rparr>"
  define got where "got = (\<lambda>sg. opt\<lparr>pl_SliceID := k, pl_NotASlice := True, pl_Signature := sg\<rparr>)"
  obtain msg msg' where m: "GetSigMessage (enc_PullOptions opt) = Some msg"
    "\<And>sg. GetSigMessage (enc_PullOptions (got sg)) = Some msg'" "msg \<noteq> msg'"
    by (simp add: pull_message_text opt_def got_def pull_text_def)
  have bad: "engine_Pull (ne_S NE) (ne_valid NE) d (ne_engine NE) (ne_C NE) (ne_now NE)
      (got (hex (ne_sign NE (sha256 (en_E (ne_engine NE)) msg)))) s \<noteq> Inr bs" for d s bs
  proof
    assume "engine_Pull (ne_S NE) (ne_valid NE) d (ne_engine NE) (ne_C NE) (ne_now NE)
      (got (hex (ne_sign NE (sha256 (en_E (ne_engine NE)) msg)))) s = Inr bs"
    then obtain pk where "verifyUserToken (ne_engine NE) pk (hex (ne_sign NE (sha256 (en_E (ne_engine NE)) msg)))
        (sha256 (en_E (ne_engine NE)) msg') = Inr ()"
      unfolding engine_Pull_def if_Inl_ok rbind_unit_ok rbind_ok option_Inl_ok m(2) by (auto simp: got_def)
    from assms(1)[OF this] m(3) injD[OF assms(2)] show False by blast
  qed
  have "server_pull (ne_S NE) (ne_valid NE) d (ne_engine NE) (ne_C NE) (ne_now NE)
      \<lparr>pq_slice_id = k @ ChallengeFileSuffix, pq_slice_stor_index = i, pq_file_id = fid, pq_timestamp = ne_now NE,
       pq_signature = hex (ne_sign NE (sha256 (en_E (ne_engine NE)) msg)), pq_pubkey = []\<rparr> s \<noteq> Inr bs" for d s bs
    using bad[of d s bs] by (simp add: server_pull_def sx Let_def got_def opt_def)
  then have "case server_pull (ne_S NE) (ne_valid NE) d (ne_engine NE) (ne_C NE) (ne_now NE)
      \<lparr>pq_slice_id = k @ ChallengeFileSuffix, pq_slice_stor_index = i, pq_file_id = fid, pq_timestamp = ne_now NE,
       pq_signature = hex (ne_sign NE (sha256 (en_E (ne_engine NE)) msg)), pq_pubkey = []\<rparr> s of
      Inl _ \<Rightarrow> True | Inr _ \<Rightarrow> False" for d s by (simp split: sum.split)
  then show ?thesis
    unfolding copier_Pull_def m(1)[unfolded opt_def] option.case
    by (auto split: option.split sum.split) (metis sum.case(2))
qed

section \<open>Failing pushes\<close>

text \<open>
  A try that reaches the node uses up the reader, so when its answer is an error the next try stores
  the empty text and is acknowledged.
\<close>

lemma retried_push_stores_nothing:
  assumes "ne_S NE = local_v2 (ne_valid NE)" and "ne_valid NE k" and "slice_id_ok k"
    and "ns_slices (net (nd_Address node)) k = None" and "at_reached a" and "\<not> dk_open (at_disk a)" and "dk_stat (at_disk a)"
  shows "\<exists>net'. retry_push NE owner k node [a, \<lparr>at_reached = True, at_read = 0, at_disk = fine, at_answered = True\<rparr>] body net =
    (Some k, net') \<and> holds NE net' (nd_Address node) k k = Inr []"
  using assms
  by (auto simp: copier_Push_def server_push_def engine_Push_def TrimSuffix_ok Let_def local_v2_def v2_Save_def local_Save_def
      local_Exist_def io_Copy_def fine_def holds_def v2_Load_def local_Load_def)

text \<open>With more than ten failures in the first round the write does not return.\<close>

lemma unreached_distribute:
  assumes "\<forall>i. \<not> at_reached (atts i)"
  shows "distribute NE owner nodes atts i ess net = ([], ess, net)"
  using assms by (induction ess arbitrary: i) (simp_all add: copier_Push_def)

lemma failed_pushes_hang:
  assumes "write_checks C en H we opt content (sys_ledger sys) = Inr (ns, nodes, cipher)" and "crypt_laws (en_K en)"
    and "queue_ok we" and "\<forall>i. \<not> at_reached (we_push we i)"
    and "\<And>slices located e. SimpleSlice (en_E en) (we_slicer we) (we_uuid we) (es_CipherText cipher) = Some slices \<Longrightarrow>
      locate_slices (we_select we) nodes (ucast (ns_Replica ns)) 0 slices = Some (located, e) \<Longrightarrow>
      10 < length (slice_node_pairs located)"
  shows "Write C en NE H we opt content sys = None"
proof -
  have q: "length (we_queue we es) = length es" for es using assms(3) by (metis mset_eq_length queue_ok_def)
  show ?thesis
  proof (cases "SimpleSlice (en_E en) (we_slicer we) (we_uuid we) (es_CipherText cipher)")
    case (Some slices)
    show ?thesis
    proof (cases "locate_slices (we_select we) nodes (ucast (ns_Replica ns)) 0 slices")
      case lo: (Some x)
      obtain located e where x: "x = (located, e)" by (cases x)
      from assms(5)[OF Some lo[unfolded x]] show ?thesis
        by (simp add: Write_def assms(1) Some lo x Let_def encrypt_slices_copies[OF assms(2)] unreached_distribute[OF assms(4)]
            failed_queue_size_def q)
    qed (simp add: Write_def assms(1) Some Let_def)
  qed (simp add: Write_def assms(1) Let_def)
qed

section \<open>The run\<close>

definition run_after :: "bytes \<Rightarrow> (store, files) system" where
  "run_after c = (case Write mem_chain (run_engine c) (run_net_env c) run_health run_write run_opt c run_system of
     Some (_, sys') \<Rightarrow> sys' | None \<Rightarrow> run_system)"

definition run_file :: "bytes \<Rightarrow> File" where
  "run_file c = (case xchain_GetFileByID mem_chain (run_env c) 10 (sys_ledger (run_after c)) ''f1'' of Inr f \<Rightarrow> f | Inl _ \<Rightarrow> demo_file)"

lemma run_after: "Write mem_chain (run_engine c) (run_net_env c) run_health run_write run_opt c run_system = Some (Inr ''f1'', run_after c)"
  using run_Write[of c] by (auto simp: run_after_def)

lemma run_queue: "queue_ok run_write"
  by (simp add: queue_ok_def run_write_def)

lemma run_ids: "healthy_ids run_healthy"
  by (simp add: healthy_ids_def run_healthy_def run_nodes_def run_node_def)

lemma run_K: "crypt_laws (en_K (run_engine c))"
  by (simp add: run_laws)

lemma run_counts: "length (with_health NodeHealthGood run_healthy) + length (with_health NodeHealthMedium run_healthy) = 2"
  "unat (ucast (ns_Replica run_ns) :: 32 word) = 2"
  by (simp_all add: with_health_def run_healthy_def run_nodes_def run_ns_def)

lemma run_file: "xchain_GetFileByID mem_chain (run_env c) 10 (sys_ledger (run_after c)) ''f1'' = Inr (run_file c)"
proof -
  from Write_written[OF run_after run_K] obtain w where
    w: "written_by mem_chain (run_engine c) (run_net_env c) run_health run_write run_opt c run_system (run_after c) w" by blast
  from written_ledger[OF w run_K, of 10] show ?thesis by (simp add: run_file_def)
qed

lemma run_replicas:
  assumes "s \<in> set (run_slices c)"
  shows "length (replicas (f_Slices (run_file c)) (sl_ID s)) = 2"
    and "sm_NodeID ` set (replicas (f_Slices (run_file c)) (sl_ID s)) \<subseteq> {''a'', ''b''}"
proof -
  from Write_written[OF run_after run_K] obtain w where
    w: "written_by mem_chain (run_engine c) (run_net_env c) run_health run_write run_opt c run_system (run_after c) w" by blast
  have e: "wr_nodes w = run_healthy" "wr_ns w = run_ns" "wr_slices w = run_slices c"
    using w by (simp_all add: written_by_def run_GetHealthNodes run_GetNs run_slices)
  have f: "wr_file w = run_file c" using written_ledger[OF w run_K, of 10] run_file[of c] by simp
  have u: "inj (we_uuid run_write)" and sl: "we_slicer run_write = NewSimpleSlicer 16 4"
    by (simp_all add: run_uuid_inj run_slicer_def)
  note sp = written_spread[OF w run_K run_queue u sl, unfolded e f, OF run_ids assms]
  then show "length (replicas (f_Slices (run_file c)) (sl_ID s)) = 2" by (simp add: run_counts)
  have "(nd_ID \<circ> nh_Node) ` set run_healthy = {''a'', ''b''}" by (simp add: run_healthy_def run_nodes_def run_node_def)
  with sp show "sm_NodeID ` set (replicas (f_Slices (run_file c)) (sl_ID s)) \<subseteq> {''a'', ''b''}" by simp
qed

lemma run_after_write:
  assumes "length c + 16 < 2 ^ 63"
  shows "after_write (run_engine c) (run_net_env c) run_health run_write run_opt c run_system (run_after c) 16 (run_slices c) 10 (run_file c)"
proof -
  have "\<exists>b q. we_slicer run_write = NewSimpleSlicer b q \<and> 16 = unat (ss_blockSize (we_slicer run_write))"
    using run_slicer_size run_slicer_def by auto
  moreover have "readable_json (run_env c) (run_slices c)" by (simp add: readable_json_def run_env_def)
  ultimately show ?thesis
    using assms run_after[of c] run_laws[of c] run_queue run_uuid_inj run_slices[of c] run_file[of c] by (simp add: after_write_def)
qed

definition run_pull :: "bytes \<Rightarrow> net_pull" where
  "run_pull c n sid i fid = map_option (\<lambda>s. es_CipherText (copy_of (run_engine c) fid s (nd_ID n))) (find (\<lambda>s. sl_ID s = sid) (run_slices c))"

lemma find_distinct: "distinct (map f xs) \<Longrightarrow> x \<in> set xs \<Longrightarrow> find (\<lambda>y. f y = f x) xs = Some x"
  by (induction xs) (auto simp: image_iff)

lemma run_answers:
  assumes "length c + 16 < 2 ^ 63"
  shows "replicas_answer (run_engine c) run_nodes (run_pull c) (run_slices c) (run_file c)"
proof -
  note f = after_write_facts[OF run_after_write[OF assms]]
  have on: "filter nd_Online run_nodes = run_nodes" by (simp add: run_nodes_def run_node_def)
  have m: "ToNodesMap run_nodes i = Some (run_node i)" if "i \<in> {''a'', ''b''}" for i
    using that by (auto simp: ToNodesMap_def run_nodes_def run_node_def)
  have p: "run_pull c n (sl_ID s) i fid = Some (es_CipherText (copy_of (run_engine c) fid s (nd_ID n)))" if "s \<in> set (run_slices c)" for n s i fid
    using find_distinct[OF f(9) that] by (simp add: run_pull_def)
  have "answers_intact (run_engine c) (ToNodesMap run_nodes) (run_pull c) (run_slices c) (run_file c)"
    by (auto simp: answers_intact_def p dest!: ToNodesMap_id)
  moreover have "\<exists>t \<in> set (f_Slices (run_file c)). sm_ID t = sl_ID s \<and> replica_answers (run_engine c) (ToNodesMap run_nodes) (run_pull c) (run_file c) t"
    if s: "s \<in> set (run_slices c)" for s
  proof -
    from run_replicas(1)[OF s] obtain t where "t \<in> set (replicas (f_Slices (run_file c)) (sl_ID s))"
      by (cases "replicas (f_Slices (run_file c)) (sl_ID s)") auto
    then have t: "t \<in> set (f_Slices (run_file c))" "sm_ID t = sl_ID s" "sm_NodeID t \<in> {''a'', ''b''}"
      using run_replicas(2)[OF s] by (auto simp: replicas_def)
    obtain s' where s': "s' \<in> set (run_slices c)" "sm_ID t = sl_ID s'"
      "sm_CipherHash t = es_CipherHash (copy_of (run_engine c) (f_ID (run_file c)) s' (sm_NodeID t))"
      using f(13) t(1) unfolding entries_of_def by blast
    have "s' = s" using f(9) s s'(1,2) t(2) by (simp add: distinct_map inj_on_def)
    with s'(3) t m[OF t(3)] p[OF s] have "replica_answers (run_engine c) (ToNodesMap run_nodes) (run_pull c) (run_file c) t"
      by (simp add: replica_answers_def run_node_def)
    with t(1,2) show ?thesis by blast
  qed
  ultimately show ?thesis by (simp add: replicas_answer_def on Let_def)
qed

definition run_reads :: "bytes \<Rightarrow> chain_reads" where
  "run_reads c = \<lparr>cr_ListNodes = Inr run_nodes, cr_GetFileByID = (\<lambda>_. Inr (run_file c)), cr_GetFileByName = (\<lambda>_ _ _. Inr (run_file c))\<rparr>"

definition run_ropt :: ReadOptions where
  "run_ropt = \<lparr>ro_User = hex demo_key, ro_Timestamp = 10, ro_Namespace = [], ro_FileName = [], ro_FileID = ''f1'', ro_Token = hex demo_key\<rparr>"

lemma run_granted:
  assumes "length c + 16 < 2 ^ 63"
  shows "read_granted (run_engine c) (run_reads c) 10 run_ropt run_nodes (run_file c)"
proof -
  note f = after_write_facts[OF run_after_write[OF assms]]
  have "verifyReadToken (run_engine c) 10 run_ropt = Inr ()"
    by (simp add: verifyReadToken_def verifyUserToken_def run_ropt_def enc_ReadOptions_def GetSigMessage_def) (simp add: run_engine_def)
  then show ?thesis
    using f(3,4) by (simp add: read_granted_def verifyUserID_def run_reads_def run_nodes_def run_node_def run_ropt_def)
      (simp add: run_engine_def)
qed

section \<open>Witnesses\<close>


lemma run_no_error: "\<not> is_error_text (run_env c) b"
  by (simp add: is_error_text_def run_env_def dec_struct_def)

definition run_node_reads :: "bytes \<Rightarrow> node_reads" where
  "run_node_reads c = \<lparr>nr_GetFileByID = (\<lambda>_. Inr (run_file c)), nr_ListFileAuthApplications = (\<lambda>_. Inr [])\<rparr>"

lemma run_fresh: "fresh_network (run_net_env c) run_write (sys_net run_system) run_healthy"
  using run_uuid_ok run_ids
  by (simp add: fresh_network_def run_net_env_def run_system_def) (simp add: run_healthy_def run_nodes_def run_node_def)

lemma stored_replicas_pulled_witness:
  "\<exists>m n c. m \<in> set (f_Slices (run_file ''hi'')) \<and> sha256 (run_env ''hi'') c = sm_CipherHash m \<and>
     copier_Pull (run_net_env ''hi''\<lparr>ne_C := run_node_reads ''hi'', ne_now := 10\<rparr>) (\<lambda>_. Some fine) (sys_net (run_after ''hi''))
       n (sm_ID m) (sm_StorIndex m) ''f1'' = Some c"
proof -
  have u: "inj (we_uuid run_write)" and sl: "we_slicer run_write = NewSimpleSlicer 16 4"
    and t: "(10 :: int64) \<le>s wo_ExpireTime run_opt" and sm: "\<forall>i. smooth (we_push run_write i)"
    by (simp_all add: run_uuid_inj run_slicer_def run_write_def run_attempt_def smooth_def)
  note af = after_write_facts[OF run_after_write[of "''hi''"]]
  have mp: "owner_may_pull (run_net_env ''hi''\<lparr>ne_C := run_node_reads ''hi'', ne_now := 10\<rparr>) (run_engine ''hi'') ''f1''"
    using af(4) by (simp add: owner_may_pull_def run_node_reads_def run_net_env_def verifyUserToken_def) (simp add: run_engine_def)
  have "run_slices ''hi'' \<noteq> []" using af(10) by simp
  from run_replicas(1)[OF hd_in_set[OF this]] have "replicas (f_Slices (run_file ''hi'')) (sl_ID (hd (run_slices ''hi''))) \<noteq> []"
    by auto
  then have "f_Slices (run_file ''hi'') \<noteq> []" by (auto simp: replicas_def)
  from hd_in_set[OF this] obtain m where m: "m \<in> set (f_Slices (run_file ''hi''))" by blast
  have g: "xchain_GetFileByID mem_chain (en_E (run_engine ''hi'')) 10 (sys_ledger (run_after ''hi'')) ''f1'' = Inr (run_file ''hi'')"
    by (simp add: run_file)
  from stored_replicas_pulled[OF run_after run_K run_queue u sl run_GetHealthNodes run_fresh sm plain_f1 t mp g m, of "\<lambda>_. Some fine"]
  show ?thesis using m run_no_error by fastforce
qed

lemma run_chunks: "length c = 16 \<Longrightarrow> chunks 16 (c @ tag) = [c, tag]"
  by (simp add: chunks.simps[of 16 "c @ tag"] chunks.simps[of 16 tag]) (simp add: tag_def)

lemma run_last: "last (c @ tag) = CHR ''T''"
  by (simp add: tag_def)

lemma written_file_read_back_witness:
  "Read (run_engine (replicate 16 CHR ''x'')) (run_reads (replicate 16 CHR ''x'')) (run_pull (replicate 16 CHR ''x'')) 10 0 run_ropt =
     Some (Inr (replicate 16 CHR ''x''))"
proof -
  let ?c = "replicate 16 CHR ''x''"
  have l: "length ?c + 16 < 2 ^ 63" by simp
  have z: "no_inner_zero 16 (file_cipher (run_engine ?c) (we_fileID run_write) ?c)"
    using run_chunks[of ?c] by (simp add: no_inner_zero_def)
  have "TrimRight (?c @ tag) zero = ?c @ tag" by (rule TrimRight_id) (simp only: run_last, simp)
  then have "trailing_zeros (file_cipher (run_engine ?c) (we_fileID run_write) ?c) = 0" by (simp add: trailing_zeros_def)
  with written_file_read_back[OF run_after_write[OF l] run_granted[OF l] run_answers[OF l] z, of 0] show ?thesis by simp
qed

lemma inner_zero_unreadable_witness:
  "Read (run_engine (replicate 15 CHR ''x'' @ [CHR 0x00])) (run_reads (replicate 15 CHR ''x'' @ [CHR 0x00]))
     (run_pull (replicate 15 CHR ''x'' @ [CHR 0x00])) 10 99 run_ropt \<noteq> Some (Inr (replicate 15 CHR ''x'' @ [CHR 0x00]))"
proof -
  let ?c = "replicate 15 CHR ''x'' @ [CHR 0x00]"
  have l: "length ?c + 16 < 2 ^ 63" by simp
  have "\<not> no_inner_zero 16 (?c @ tag)" using run_chunks[of ?c] by (simp add: no_inner_zero_def)
  then have z: "\<not> no_inner_zero 16 (file_cipher (run_engine ?c) (we_fileID run_write) ?c)" by simp
  have "last (?c @ tag) \<noteq> CHR 0x00" unfolding run_last by simp
  then have t: "last (file_cipher (run_engine ?c) (we_fileID run_write) ?c) \<noteq> CHR 0x00" by simp
  show ?thesis by (rule inner_zero_unreadable[OF run_after_write[OF l] run_granted[OF l] run_answers[OF l] z t])
qed

lemma executor_recovers_unless_zero_witness:
  "\<exists>firstKey secKey. getAuthKey (run_engine ''hi'') (run_reads ''hi'') ''f1'' 20 = Inr (firstKey, secKey) \<and>
     recoverFile (run_crypt ''hi'') (run_reads ''hi'') (run_pull ''hi'') (run_file ''hi'') firstKey secKey = Some (Inr ''hi'')"
proof -
  have l: "length ''hi'' + 16 < 2 ^ 63" by simp
  note af = after_write_facts[OF run_after_write[OF l]]
  obtain w where w: "written_by mem_chain (run_engine ''hi'') (run_net_env ''hi'') run_health run_write run_opt ''hi'' run_system
      (run_after ''hi'') w" using Write_written[OF run_after run_K] by blast
  have "f_ExpireTime (run_file ''hi'') = 20"
    using written_file(1)[OF w run_K] written_ledger[OF w run_K, of 10] run_file[of "''hi''"] by simp
  then obtain k1 k2 where k: "getAuthKey (run_engine ''hi'') (run_reads ''hi'') ''f1'' 20 = Inr (k1, k2)"
    by (simp add: getAuthKey_def run_reads_def Let_def)
  have on: "cr_ListNodes (run_reads ''hi'') = Inr run_nodes" "filter nd_Online run_nodes \<noteq> []"
    "cr_GetFileByID (run_reads ''hi'') (f_ID (run_file ''hi'')) = Inr (run_file ''hi'')"
    by (simp_all add: run_reads_def run_nodes_def run_node_def)
  have k': "getAuthKey (run_engine ''hi'') (run_reads ''hi'') (f_ID (run_file ''hi'')) 20 = Inr (k1, k2)" using k af(3) by simp
  have "last (file_cipher (run_engine ''hi'') (we_fileID run_write) ''hi'') \<noteq> CHR 0x00"
    using run_last[of "''hi''"] by simp
  with executor_recovers_unless_zero[OF run_after_write[OF l] k' on(3,1) run_answers[OF l] on(2)] k show ?thesis by simp
qed

lemma node_selection_ends_witness: "Select [0, 1, 0] [0, 1] run_healthy 1 \<noteq> None"
  using node_selection_ends[of run_healthy "[0, 1]" "[0, 1]" 0 1] by (simp add: run_healthy_def run_nodes_def run_node_def lessThan_Suc numeral_2_eq_2)



text \<open>Digests that are the messages, and signatures that are the digests, of 64 bytes.\<close>

definition plain_net_env :: "files net_env" where
  "plain_net_env = (run_net_env [])\<lparr>ne_sign := (\<lambda>d. d),
     ne_engine := (run_engine [])\<lparr>en_K := (run_crypt [])\<lparr>cr_env := mem_env\<lparr>sha256 := (\<lambda>d. d), ecdsa_verify := (\<lambda>_ d sig. sig = d)\<rparr>\<rparr>\<rparr>\<rparr>"

lemma sigmas_never_pulled_witness:
  "copier_Pull plain_net_env (\<lambda>_. Some fine) (\<lambda>_. \<lparr>ns_slices = Map.empty, ns_proofs = [''s'' \<mapsto> ''data'']\<rparr>)
     (run_node ''a'') (''s'' @ ChallengeFileSuffix) ''s'' ''f1'' = None"
proof -
  have v: "d = d'" if "verifyUserToken (ne_engine plain_net_env) pk (hex (ne_sign plain_net_env d)) d' = Inr ()" for d d' pk
    using that by (simp add: plain_net_env_def verifyUserToken_def split: option.splits if_splits)
  have i: "inj (sha256 (en_E (ne_engine plain_net_env)))" by (simp add: plain_net_env_def)
  show ?thesis by (rule sigmas_never_pulled[OF v i])
qed

end
