(* ===== verification/Float64.thy ===== *)
theory Float64
  imports Golang "HOL-Library.Log_Nat"
begin

text \<open>
  Floating point numbers of the engine. The values that occur are zero or far inside the range of
  normal numbers, so a \<^verbatim>\<open>float64\<close> is the rational number it stands for and an operation is the
  exact one followed by rounding to 53 significant bits, to nearest and ties to even.
\<close>

section \<open>Rounding\<close>

definition round_even :: "rat \<Rightarrow> int" where
  "round_even x = (let n = \<lfloor>x\<rfloor>; d = x - of_int n in if d < 1 / 2 \<or> d = 1 / 2 \<and> even n then n else n + 1)"

text \<open>The exponent of the leading bit.\<close>

definition binexp :: "rat \<Rightarrow> int" where
  "binexp x = (case quotient_of \<bar>x\<bar> of (a, b) \<Rightarrow>
     let k = int (floorlog 2 (nat a)) - int (floorlog 2 (nat b)) in if 2 powi k \<le> \<bar>x\<bar> then k else k - 1)"

definition f64 :: "rat \<Rightarrow> rat" where
  "f64 x = (if x = 0 then 0 else let u = 2 powi (binexp x - 52) in of_int (round_even (x / u)) * u)"

definition f64_of_int :: "int \<Rightarrow> rat" where
  "f64_of_int i = f64 (of_int i)"

definition f64_div :: "rat \<Rightarrow> rat \<Rightarrow> rat" where
  "f64_div x y = f64 (x / y)"

definition f64_mul :: "rat \<Rightarrow> rat \<Rightarrow> rat" where
  "f64_mul x y = f64 (x * y)"

definition f64_add :: "rat \<Rightarrow> rat \<Rightarrow> rat" where
  "f64_add x y = f64 (x + y)"

section \<open>Rounding to an integer\<close>

lemma round_even_of_int [simp]: "round_even (of_int n) = n"
  by (simp add: round_even_def)

lemma round_even_bounds: "of_int (round_even x) \<le> x + 1 / 2" "x - 1 / 2 \<le> of_int (round_even x)"
  using of_int_floor_le[of x] floor_correct[of x] by (simp_all add: round_even_def Let_def) linarith+

lemma round_even_mono:
  assumes "x \<le> y"
  shows "round_even x \<le> round_even y"
proof (cases "\<lfloor>x\<rfloor> = \<lfloor>y\<rfloor>")
  case True
  with assms show ?thesis by (auto simp: round_even_def Let_def)
next
  case False
  with floor_mono[OF assms] have "\<lfloor>x\<rfloor> + 1 \<le> \<lfloor>y\<rfloor>" by linarith
  moreover have "round_even x \<le> \<lfloor>x\<rfloor> + 1" "\<lfloor>y\<rfloor> \<le> round_even y" by (auto simp: round_even_def Let_def)
  ultimately show ?thesis by linarith
qed

lemma round_even_le: "x \<le> of_int n \<Longrightarrow> round_even x \<le> n"
  using round_even_mono[of x "of_int n"] by simp

lemma round_even_ge: "of_int n \<le> x \<Longrightarrow> n \<le> round_even x"
  using round_even_mono[of "of_int n" x] by simp

section \<open>The leading bit\<close>

lemma floorlog_bounds:
  assumes "0 < n"
  shows "(2 :: rat) powi (int (floorlog 2 n) - 1) \<le> of_nat n" and "(of_nat n :: rat) < 2 powi int (floorlog 2 n)"
proof -
  from floorlog_bounds[of n 2] assms have b: "2 ^ (floorlog 2 n - 1) \<le> n" "n < 2 ^ floorlog 2 n" by auto
  from assms have "0 < floorlog 2 n" by (simp add: floorlog_def)
  then have "int (floorlog 2 n) - 1 = int (floorlog 2 n - 1)" by simp
  with b(1) show "(2 :: rat) powi (int (floorlog 2 n) - 1) \<le> of_nat n"
    by (metis of_nat_le_iff of_nat_numeral of_nat_power power_int_of_nat)
  from b(2) show "(of_nat n :: rat) < 2 powi int (floorlog 2 n)"
    by (metis of_nat_less_iff of_nat_numeral of_nat_power power_int_of_nat)
qed

lemma powi_quotient:
  assumes "(2 :: rat) powi (p - 1) \<le> a" "a < 2 powi p" "2 powi (q - 1) \<le> b" "b < 2 powi q"
  shows "2 powi (p - q - 1) \<le> a / b" and "a / b < 2 powi (p - q + 1)"
proof -
  have b: "0 < b" using assms(3) by (rule less_le_trans[rotated]) simp
  have "2 powi (p - q - 1) * b \<le> 2 powi (p - q - 1) * 2 powi q" using assms(4) by (intro mult_left_mono) simp_all
  also have "\<dots> = 2 powi (p - 1)" by (simp flip: power_int_add)
  also note assms(1)
  finally show "2 powi (p - q - 1) \<le> a / b" using b by (simp add: le_divide_eq)
  have "a < 2 powi p" by (rule assms(2))
  also have "\<dots> = 2 powi (p - q + 1) * 2 powi (q - 1)" by (simp flip: power_int_add)
  also have "\<dots> \<le> 2 powi (p - q + 1) * b" using assms(3) by (intro mult_left_mono) simp_all
  finally show "a / b < 2 powi (p - q + 1)" using b by (simp add: divide_less_eq)
qed

lemma binexp_bounds:
  assumes "x \<noteq> 0"
  shows "2 powi binexp x \<le> \<bar>x\<bar>" and "\<bar>x\<bar> < 2 powi (binexp x + 1)"
proof -
  obtain a b where q: "quotient_of \<bar>x\<bar> = (a, b)" by fastforce
  have b: "0 < b" by (rule quotient_of_denom_pos[OF q])
  have x: "\<bar>x\<bar> = of_int a / of_int b" by (rule quotient_of_div[OF q])
  have a: "0 < a" using assms b x by (metis zero_less_abs_iff zero_less_divide_iff of_int_0_less_iff order_less_asym)
  define p where "p = int (floorlog 2 (nat a))"
  define r where "r = int (floorlog 2 (nat b))"
  note fa = floorlog_bounds[of "nat a"] note fb = floorlog_bounds[of "nat b"]
  have "2 powi (p - r - 1) \<le> \<bar>x\<bar>" "\<bar>x\<bar> < 2 powi (p - r + 1)"
    unfolding x using fa fb a b by (auto intro!: powi_quotient simp: p_def r_def)
  then show "2 powi binexp x \<le> \<bar>x\<bar>" "\<bar>x\<bar> < 2 powi (binexp x + 1)"
    unfolding binexp_def q by (auto simp: p_def[symmetric] r_def[symmetric] Let_def not_le)
qed

lemma powi_less: "(2 :: rat) powi a < 2 powi b \<longleftrightarrow> a < b"
  by (metis linorder_not_less one_less_numeral_iff order_less_imp_le power_int_increasing
      power_int_strict_increasing semiring_norm(76))

lemma binexp_unique:
  assumes "2 powi e \<le> \<bar>x\<bar>" and "\<bar>x\<bar> < 2 powi (e + 1)"
  shows "binexp x = e"
proof -
  have "x \<noteq> 0" using assms(1) by (metis abs_zero linorder_not_less zero_less_numeral zero_less_power_int)
  note b = binexp_bounds[OF this]
  from le_less_trans[OF assms(1) b(2)] le_less_trans[OF b(1) assms(2)] show ?thesis by (simp add: powi_less)
qed

lemma binexp_mono:
  assumes "0 < x" and "x \<le> y"
  shows "binexp x \<le> binexp y"
proof -
  have "2 powi binexp x \<le> x" using binexp_bounds(1)[of x] assms by simp
  also note assms(2)
  also have "y < 2 powi (binexp y + 1)" using binexp_bounds(2)[of y] assms by simp
  finally show ?thesis by (simp add: powi_less)
qed

section \<open>Rounding to a floating point number\<close>

text \<open>A number scaled to its last place lies between two powers of two.\<close>

definition ulp :: "rat \<Rightarrow> rat" where
  "ulp x = 2 powi (binexp x - 52)"

lemma ulp_pos [simp]: "0 < ulp x" "ulp x \<noteq> 0"
  by (simp_all add: ulp_def)

lemma f64_ulp: "x \<noteq> 0 \<Longrightarrow> f64 x = of_int (round_even (x / ulp x)) * ulp x"
  by (simp add: f64_def ulp_def Let_def)

lemma f64_0 [simp]: "f64 0 = 0"
  by (simp add: f64_def)

lemma scaled:
  assumes "0 < x"
  shows "2 ^ 52 \<le> x / ulp x" and "x / ulp x < 2 ^ 53" and "2 ^ 52 * ulp x = 2 powi binexp x"
    and "2 ^ 53 * ulp x = 2 powi (binexp x + 1)"
proof -
  have u: "2 ^ 52 * ulp x = 2 powi binexp x" "2 ^ 53 * ulp x = 2 powi (binexp x + 1)"
    unfolding ulp_def by (simp_all add: add.commute flip: power_int_add power_int_numeral)
  then show "2 ^ 52 * ulp x = 2 powi binexp x" "2 ^ 53 * ulp x = 2 powi (binexp x + 1)" .
  have b: "2 powi binexp x \<le> x" "x < 2 powi (binexp x + 1)" using binexp_bounds[of x] assms by simp_all
  show "2 ^ 52 \<le> x / ulp x" by (subst pos_le_divide_eq[OF ulp_pos(1)]) (simp only: u b)
  show "x / ulp x < 2 ^ 53" by (subst pos_divide_less_eq[OF ulp_pos(1)]) (simp only: u b)
qed

lemma f64_mono:
  assumes "0 \<le> x" and "x \<le> y"
  shows "f64 x \<le> f64 y"
proof (cases "x = 0")
  case True
  have "0 \<le> round_even (y / ulp y)" using assms by (intro round_even_ge) (simp add: less_imp_le)
  with True assms show ?thesis by (cases "y = 0") (simp_all add: f64_ulp less_imp_le)
next
  case False
  with assms have x: "0 < x" and y: "0 < y" by simp_all
  show ?thesis
  proof (cases "binexp x = binexp y")
    case True
    then have "ulp x = ulp y" by (simp add: ulp_def)
    moreover have "round_even (x / ulp y) \<le> round_even (y / ulp y)"
      using assms by (intro round_even_mono divide_right_mono) (simp_all add: less_imp_le)
    ultimately show ?thesis using x y by (simp add: f64_ulp mult_right_mono less_imp_le)
  next
    case False
    with binexp_mono[OF x assms(2)] have e: "binexp x + 1 \<le> binexp y" by simp
    have "round_even (x / ulp x) \<le> 2 ^ 53" using scaled(2)[OF x] by (intro round_even_le) simp
    then have "f64 x \<le> of_int (2 ^ 53) * ulp x"
      using x by (simp only: f64_ulp) (intro mult_right_mono; simp add: less_imp_le flip: of_int_le_iff)
    also have "\<dots> = 2 powi (binexp x + 1)" using scaled(4)[OF x] by simp
    also have "\<dots> \<le> 2 powi binexp y" using e by (intro power_int_increasing) simp_all
    also have "\<dots> = of_int (2 ^ 52) * ulp y" using scaled(3)[OF y] by simp
    also have "\<dots> \<le> f64 y"
    proof -
      have "2 ^ 52 \<le> round_even (y / ulp y)" using scaled(1)[OF y] by (intro round_even_ge) simp
      then show ?thesis using y by (simp only: f64_ulp) (intro mult_right_mono; simp add: less_imp_le flip: of_int_le_iff)
    qed
    finally show ?thesis .
  qed
qed

text \<open>A number of at most 53 bits is not changed, and the error is at most half of the last place.\<close>

lemma f64_grid:
  assumes "x = of_int m * 2 powi e" and "m \<noteq> 0" and "binexp x - 52 \<le> e"
  shows "f64 x = x"
proof -
  have u: "2 powi e = 2 ^ nat (e - (binexp x - 52)) * ulp x"
    using assms(3) by (simp add: ulp_def flip: power_int_of_nat power_int_add)
  have "x / ulp x = of_int (m * 2 ^ nat (e - (binexp x - 52)))"
    by (subst assms(1)) (simp add: u mult.assoc)
  then have "x = of_int (round_even (x / ulp x)) * ulp x" by (metis nonzero_eq_divide_eq round_even_of_int ulp_pos(2))
  moreover have "x \<noteq> 0" using assms by simp
  ultimately show ?thesis by (simp add: f64_ulp)
qed

lemma f64_exact:
  assumes "\<bar>m\<bar> \<le> 2 ^ 53"
  shows "f64 (of_int m * 2 powi e) = of_int m * 2 powi e"
proof -
  define x :: rat where "x = of_int m * 2 powi e"
  consider "m = 0" | "m \<noteq> 0" "\<bar>m\<bar> < 2 ^ 53" | "\<bar>m\<bar> = 2 ^ 53" using assms by linarith
  then have "f64 x = x"
  proof cases
    case 2
    then have "x \<noteq> 0" by (simp add: x_def)
    have "\<bar>x\<bar> = of_int \<bar>m\<bar> * 2 powi e" by (simp add: x_def abs_mult)
    also have "\<dots> < of_int (2 ^ 53) * 2 powi e" using 2 by (intro mult_strict_right_mono) (simp_all only: of_int_less_iff, simp)
    also have "\<dots> = 2 powi (e + 53)" by (simp add: power_int_add)
    finally have "2 powi binexp x < (2 :: rat) powi (e + 53)"
      using binexp_bounds(1)[OF \<open>x \<noteq> 0\<close>] by (rule le_less_trans[rotated])
    then show ?thesis using 2 by (intro f64_grid[OF x_def]) (simp_all add: powi_less)
  next
    case 3
    then have x: "x = of_int (sgn m) * 2 powi (e + 53)"
      by (simp add: x_def power_int_add abs_if sgn_if split: if_splits)
    from 3 have m: "m \<noteq> 0" by (cases "m = 0") simp_all
    then have "\<bar>x\<bar> = 2 powi (e + 53)" by (simp add: x abs_mult sgn_if)
    then have "binexp x = e + 53" by (intro binexp_unique) (simp_all add: powi_less)
    with m show ?thesis by (intro f64_grid[OF x]) (simp_all add: sgn_0_0)
  qed (simp add: x_def)
  then show ?thesis by (simp add: x_def)
qed

lemma f64_of_int_exact: "\<bar>i\<bar> \<le> 2 ^ 53 \<Longrightarrow> f64_of_int i = of_int i"
  using f64_exact[of i 0] by (simp add: f64_of_int_def)

lemma f64_error:
  assumes "0 \<le> x"
  shows "\<bar>f64 x - x\<bar> * 2 ^ 53 \<le> x"
proof (cases "x = 0")
  case False
  with assms have x: "0 < x" by simp
  have "\<bar>of_int (round_even (x / ulp x)) - x / ulp x\<bar> \<le> 1 / 2"
    using round_even_bounds[of "x / ulp x"] by linarith
  then have "\<bar>of_int (round_even (x / ulp x)) - x / ulp x\<bar> * ulp x * 2 ^ 53 \<le> 1 / 2 * ulp x * 2 ^ 53"
    by (intro mult_right_mono) (simp_all add: less_imp_le)
  moreover have "\<bar>of_int (round_even (x / ulp x)) - x / ulp x\<bar> * ulp x = \<bar>f64 x - x\<bar>"
  proof -
    have "f64 x - x = (of_int (round_even (x / ulp x)) - x / ulp x) * ulp x"
      using False by (simp add: f64_ulp left_diff_distrib)
    then show ?thesis by (simp add: abs_mult ulp_def)
  qed
  moreover have "1 / 2 * ulp x * 2 ^ 53 \<le> x"
    using scaled(1)[OF x] by (simp add: le_divide_eq mult.commute)
  ultimately show ?thesis by simp
qed simp

text \<open>Evaluation of a rounding: the exponent is found by two comparisons.\<close>

lemma f64_eval:
  assumes "2 powi e \<le> \<bar>x\<bar>" and "\<bar>x\<bar> < 2 powi (e + 1)"
  shows "f64 x = of_int (round_even (x / 2 powi (e - 52))) * 2 powi (e - 52)"
proof -
  have "x \<noteq> 0" using assms(1) by (metis abs_zero linorder_not_less zero_less_numeral zero_less_power_int)
  with binexp_unique[OF assms] show ?thesis by (simp add: f64_def Let_def)
qed

text \<open>
  The ceiling of a quotient of integers below \<open>2 ^ 53\<close> is the exact one: the rounded quotient does not
  fall to the integer below.
\<close>

lemma f64_div_ceiling:
  assumes "0 \<le> a" and "a < 2 ^ 53" and "0 < b" and "b < 2 ^ 53"
  shows "\<lceil>f64_div (f64_of_int a) (f64_of_int b)\<rceil> = (a + b - 1) div b"
proof -
  define x :: rat where "x = of_int a / of_int b"
  have x: "0 \<le> x" using assms by (simp add: x_def)
  have fx: "f64_div (f64_of_int a) (f64_of_int b) = f64 x"
    using assms by (simp add: f64_div_def f64_of_int_exact x_def)
  define n where "n = (a + b - 1) div b"
  have nb: "a \<le> n * b" "(n - 1) * b < a"
  proof -
    have "(a + b - 1) = n * b + (a + b - 1) mod b" unfolding n_def by simp
    moreover have "0 \<le> (a + b - 1) mod b" "(a + b - 1) mod b < b" using assms by simp_all
    ultimately show "a \<le> n * b" "(n - 1) * b < a" by (simp_all add: left_diff_distrib)
  qed
  have n53: "\<bar>n\<bar> \<le> 2 ^ 53"
  proof -
    have "0 \<le> n" unfolding n_def using assms by (intro pos_imp_zdiv_nonneg_iff[THEN iffD2]) simp_all
    moreover have "n \<le> a"
    proof (cases "n \<le> 1")
      case True
      with nb assms show ?thesis by (cases "a = 0") (auto simp: n_def)
    next
      case False
      have "(n - 1) * 1 \<le> (n - 1) * b" using False assms by (intro mult_left_mono) simp_all
      with nb(2) show ?thesis by simp
    qed
    ultimately show ?thesis using assms by simp
  qed
  have up: "f64 x \<le> of_int n"
  proof -
    have "of_int a \<le> (of_int (n * b) :: rat)" using nb(1) by (simp only: of_int_le_iff)
    then have "x \<le> of_int n" using assms by (simp add: x_def pos_divide_le_eq)
    from f64_mono[OF x this] f64_of_int_exact[OF n53] show ?thesis by (simp add: f64_of_int_def)
  qed
  have low: "of_int (n - 1) < f64 x"
  proof -
    have "of_int ((n - 1) * b + 1) \<le> (of_int a :: rat)" using nb(2) by (subst of_int_le_iff) simp
    then have "of_int ((n - 1) * b + 1) / of_int b \<le> x" unfolding x_def using assms by (intro divide_right_mono) simp_all
    then have "of_int (n - 1) + 1 / of_int b \<le> x" using assms by (simp add: add_divide_distrib)
    moreover have "x / 2 ^ 53 < 1 / of_int b"
    proof -
      have "(of_int a :: rat) < of_int (2 ^ 53)" using assms(2) by (simp only: of_int_less_iff)
      then show ?thesis using assms by (simp add: x_def field_simps)
    qed
    moreover have "x - x / 2 ^ 53 \<le> f64 x" using f64_error[OF x] x by (cases "x \<le> f64 x") (simp_all add: field_simps abs_if)
    ultimately show ?thesis by linarith
  qed
  have "\<lceil>f64 x\<rceil> = n" using up low by (simp add: ceiling_eq_iff)
  then show ?thesis by (simp add: fx n_def)
qed

end
