(* ===== verification/EngMaterial.thy ===== *)
theory EngMaterial
  imports EngWrite Float64 "HOL-Library.Signed_Division" "HOL-Library.Multiset"
begin

text \<open>
  The material of Merkle challenges: drawing ranges of a slice
  (\<^verbatim>\<open>xdb/engine/challenger/merkle/range.go\<close>), keeping them in a LevelDB
  (\<^verbatim>\<open>ldbstorage/leveldb.go\<close>), and making them for the slices of a file
  (\<^verbatim>\<open>xdb/engine/common/challenge.go\<close>, \<^verbatim>\<open>handler_write.go\<close>).
\<close>

section \<open>Data\<close>

record MaterialRange =
  mr_Start :: "64 word"
  mr_End :: "64 word"

record RangeHash =
  rh_Ranges :: "MaterialRange list"
  rh_Hash :: bytes
  rh_Used :: bool

record Material =
  mt_FileID :: string
  mt_SliceID :: string
  mt_NodeID :: bytes
  mt_Ranges :: "RangeHash list"

definition enc_MaterialRange :: "MaterialRange \<Rightarrow> json" where
  "enc_MaterialRange r = JObj [(''Start'', enc_uint (mr_Start r)), (''End'', enc_uint (mr_End r))]"

definition dec_MaterialRange :: "json \<Rightarrow> MaterialRange option" where
  "dec_MaterialRange = dec_struct (\<lambda>kvs.
     Option.bind (fld dec_uint_json 0 ''Start'' kvs) (\<lambda>v0.
     Option.bind (fld dec_uint_json 0 ''End'' kvs) (\<lambda>v1.
     Some \<lparr>mr_Start = v0, mr_End = v1\<rparr>)))"

definition enc_RangeHash :: "RangeHash \<Rightarrow> json" where
  "enc_RangeHash r = JObj [(''Ranges'', enc_list enc_MaterialRange (rh_Ranges r)), (''Hash'', enc_bytes (rh_Hash r)),
     (''Used'', JBool (rh_Used r))]"

definition dec_RangeHash :: "json \<Rightarrow> RangeHash option" where
  "dec_RangeHash = dec_struct (\<lambda>kvs.
     Option.bind (fld (dec_list dec_MaterialRange) [] ''Ranges'' kvs) (\<lambda>v0.
     Option.bind (fld dec_bytes [] ''Hash'' kvs) (\<lambda>v1.
     Option.bind (fld dec_bool False ''Used'' kvs) (\<lambda>v2.
     Some \<lparr>rh_Ranges = v0, rh_Hash = v1, rh_Used = v2\<rparr>))))"

lemma dec_enc_MaterialRange [json_rt]: "dec_MaterialRange (enc_MaterialRange r) = Some r"
  by (simp add: enc_MaterialRange_def dec_MaterialRange_def dec_struct_def fld_def json_rt)

lemma dec_enc_RangeHash [json_rt]: "dec_RangeHash (enc_RangeHash r) = Some r"
  by (simp add: enc_RangeHash_def dec_RangeHash_def dec_struct_def fld_def json_rt)

lemma dec_enc_RangeHashes [simp]: "dec_list dec_RangeHash (enc_list enc_RangeHash rs) = Some rs"
  by (simp add: json_rt)

section \<open>Drawing ranges\<close>

record RandChallenger =
  rc_shrinkSize :: "64 word"
  rc_segmentSize :: "64 word"

text \<open>Sizes that are not configured have defaults; opening the database is left out.\<close>

definition NewRandChallenger :: "int64 \<Rightarrow> int64 \<Rightarrow> RandChallenger" where
  "NewRandChallenger confShrinkSize confSegmentSize =
     \<lparr>rc_shrinkSize = (if confShrinkSize = 0 then 500 else confShrinkSize),
      rc_segmentSize = (if confSegmentSize = 0 then 5 else confSegmentSize)\<rparr>"

definition MerkleChallengeSetUpRange :: int where
  "MerkleChallengeSetUpRange = 20000"

definition shrink :: "RandChallenger \<Rightarrow> int \<Rightarrow> int \<Rightarrow> int \<times> int" where
  "shrink m start end' =
     (let end' = (if sint (rc_shrinkSize m) < end' - start then start + end' smod sint (rc_shrinkSize m) else end')
      in (start, end'))"

text \<open>
  A range comes from two numbers drawn; a range that was drawn before is skipped. The numbers are an
  argument, and there is no result when they are used up. Minimum and maximum are taken in
  floating point.
\<close>

definition draw_range :: "RandChallenger \<Rightarrow> int \<Rightarrow> int \<times> int \<Rightarrow> int \<times> int" where
  "draw_range m len d =
     (let first = fst d mod len; second = snd d mod len;
          start = \<lfloor>min (f64_of_int first) (f64_of_int second)\<rfloor>;
          end' = \<lfloor>max (f64_of_int first) (f64_of_int second)\<rfloor>
      in shrink m start end')"

definition selectKey :: "int \<times> int \<Rightarrow> string" where
  "selectKey r = dec_int (fst r) @ ''/'' @ dec_int (snd r)"

fun take_ranges :: "RandChallenger \<Rightarrow> int \<Rightarrow> nat \<Rightarrow> (int \<times> int) list \<Rightarrow> string list \<Rightarrow>
    ((int \<times> int) list \<times> (int \<times> int) list \<times> string list) option" where
  "take_ranges m len 0 draws selected = Some ([], draws, selected)"
| "take_ranges m len (Suc n) [] selected = None"
| "take_ranges m len (Suc n) (d # draws) selected =
     (let r = draw_range m len d in
      if selectKey r \<in> set selected then take_ranges m len (Suc n) draws selected
      else map_option (\<lambda>(sr, rest). (r # sr, rest)) (take_ranges m len n draws (selectKey r # selected)))"

definition slice_part :: "bytes \<Rightarrow> int \<times> int \<Rightarrow> bytes" where
  "slice_part sliceData r = take (nat (snd r - fst r)) (drop (nat (fst r)) sliceData)"

definition to_range :: "int \<times> int \<Rightarrow> MaterialRange" where
  "to_range r = \<lparr>mr_Start = word_of_int (fst r), mr_End = word_of_int (snd r)\<rparr>"

definition bytes_of :: "mnode \<Rightarrow> bytes" where
  "bytes_of h = (case h of None \<Rightarrow> [] | Some b \<Rightarrow> b)"

fun merkle_ranges :: "env \<Rightarrow> RandChallenger \<Rightarrow> bytes \<Rightarrow> nat \<Rightarrow> (int \<times> int) list \<Rightarrow> string list \<Rightarrow>
    RangeHash list result option" where
  "merkle_ranges E m sliceData 0 draws selected = Some (Inr [])"
| "merkle_ranges E m sliceData (Suc k) draws selected =
     (case take_ranges m (int (length sliceData)) (nat (sint (rc_segmentSize m))) draws selected of
        None \<Rightarrow> None
      | Some (sr, draws, selected) \<Rightarrow>
          (case GetMerkleRoot E (map (\<lambda>r. Some (sha256 E (slice_part sliceData r))) sr) of
             Inl e \<Rightarrow> Some (Inl e)
           | Inr h \<Rightarrow> map_option (\<lambda>rest. rbind rest (\<lambda>l.
               Inr (\<lparr>rh_Ranges = map to_range sr, rh_Hash = bytes_of h, rh_Used = False\<rparr> # l)))
             (merkle_ranges E m sliceData k draws selected)))"

text \<open>A remainder by the length of an empty slice and a negative capacity panic.\<close>

definition generateMerkleRanges :: "env \<Rightarrow> RandChallenger \<Rightarrow> bytes \<Rightarrow> int \<Rightarrow> (int \<times> int) list \<Rightarrow>
    RangeHash list result option" where
  "generateMerkleRanges E m sliceData rangeAmount draws =
     (if rangeAmount < 0 \<or> 0 < rangeAmount \<and> (sint (rc_segmentSize m) < 0 \<or> sliceData = [] \<and> 0 < sint (rc_segmentSize m))
      then Some (Inl Panicked)
      else merkle_ranges E m sliceData (nat rangeAmount) draws [])"

section \<open>Setting up the material of a slice\<close>

text \<open>
  The ranges are made in parts by concurrent routines, each with its own draws; the parts are put
  together in the order in which the routines finish.
\<close>

definition setup_parts :: "int \<Rightarrow> int" where
  "setup_parts rangeAmount = \<lceil>f64_div (f64_of_int rangeAmount) (f64_of_int MerkleChallengeSetUpRange)\<rceil>"

definition part_amount :: "int \<Rightarrow> int \<Rightarrow> int" where
  "part_amount rangeAmount i =
     (if rangeAmount \<le> MerkleChallengeSetUpRange then rangeAmount
      else if rangeAmount < i * MerkleChallengeSetUpRange then rangeAmount - (i - 1) * MerkleChallengeSetUpRange
      else MerkleChallengeSetUpRange)"

fun all_parts :: "'a list result option list \<Rightarrow> 'a list result option" where
  "all_parts [] = Some (Inr [])"
| "all_parts (p # ps) = (case p of None \<Rightarrow> None | Some r \<Rightarrow>
     map_option (\<lambda>rs. rbind r (\<lambda>x. rbind rs (\<lambda>l. Inr (x @ l)))) (all_parts ps))"

definition Setup :: "env \<Rightarrow> RandChallenger \<Rightarrow> bytes \<Rightarrow> int \<Rightarrow> (int \<Rightarrow> (int \<times> int) list) \<Rightarrow> int list \<Rightarrow>
    RangeHash list result option" where
  "Setup E m sliceData rangeAmount draws finished =
     (if setup_parts rangeAmount < 0 then Some (Inl Panicked)
      else all_parts (map (\<lambda>i. generateMerkleRanges E m sliceData (part_amount rangeAmount i) (draws i)) finished))"

definition GetMCRange :: "env \<Rightarrow> RandChallenger \<Rightarrow> string \<Rightarrow> EncryptedSlice \<Rightarrow> int64 \<Rightarrow> int64 \<Rightarrow> int64 \<Rightarrow>
    (int \<Rightarrow> (int \<times> int) list) \<Rightarrow> int list \<Rightarrow> Material result option" where
  "GetMCRange E m fileID es expireTime startTime interval draws finished =
     (let rangeAmount = \<lceil>f64_div (f64_of_int (sint (expireTime - startTime))) (f64_of_int (sint interval))\<rceil>
      in map_option (\<lambda>r. rbind r (\<lambda>mRangeList.
           Inr \<lparr>mt_FileID = fileID, mt_SliceID = es_SliceID es, mt_NodeID = es_NodeID es, mt_Ranges = mRangeList\<rparr>))
         (Setup E m (es_CipherText es) rangeAmount draws finished))"

section \<open>The database\<close>

text \<open>
  LevelDB is a parameter: reading a key, writing a batch, and the keys that walking over a prefix
  leaves behind. The code keeps the slices that the iterator hands out after the iterator has moved
  on, when their content may have changed; so nothing is known of the keys that are left. A batch is
  written as a whole.
\<close>

record 'd leveldb =
  db_Get :: "'d \<Rightarrow> bytes \<Rightarrow> blob option"
  db_Write :: "(bytes \<times> blob) list \<Rightarrow> 'd \<Rightarrow> 'd option"
  db_Keys :: "'d \<Rightarrow> bytes \<Rightarrow> bytes list option"

definition makeMaterialKey :: "string \<Rightarrow> string \<Rightarrow> bytes \<Rightarrow> int64 \<Rightarrow> bytes" where
  "makeMaterialKey fileID sliceID nodeID ctime =
     fileID @ '':'' @ sliceID @ '':'' @ hex nodeID @ '':'' @ FormatInt ctime"

definition ldb_Save :: "'d leveldb \<Rightarrow> int64 \<Rightarrow> Material list \<Rightarrow> 'd \<Rightarrow> unit result \<times> 'd" where
  "ldb_Save D ctime cms d =
     (let batch = map (\<lambda>m. (makeMaterialKey (mt_FileID m) (mt_SliceID m) (mt_NodeID m) ctime,
            Doc (enc_list enc_RangeHash (mt_Ranges m)))) cms
      in case db_Write D batch d of None \<Rightarrow> (Inl (Errx ErrCodeInternal), d) | Some d' \<Rightarrow> (Inr (), d'))"

definition ldb_Update :: "'d leveldb \<Rightarrow> Material \<Rightarrow> bytes \<Rightarrow> 'd \<Rightarrow> unit result \<times> 'd" where
  "ldb_Update D m k d =
     (case db_Write D [(k, Doc (enc_list enc_RangeHash (mt_Ranges m)))] d of
        None \<Rightarrow> (Inl (Errx ErrCodeInternal), d) | Some d' \<Rightarrow> (Inr (), d'))"

definition ldb_NewIterator :: "'d leveldb \<Rightarrow> bytes \<Rightarrow> 'd \<Rightarrow> bytes list result" where
  "ldb_NewIterator D p d = (case db_Keys D d p of None \<Rightarrow> Inl (Errx ErrCodeInternal) | Some ks \<Rightarrow> Inr ks)"

definition ldb_Load :: "'d leveldb \<Rightarrow> env \<Rightarrow> bytes \<Rightarrow> 'd \<Rightarrow> Material result" where
  "ldb_Load D E k d =
     (case db_Get D d k of None \<Rightarrow> Inl (Errx ErrCodeInternal)
      | Some v \<Rightarrow> (case unmarshal E (dec_list dec_RangeHash) v of None \<Rightarrow> Inl (Errx ErrCodeInternal)
          | Some rs \<Rightarrow> Inr \<lparr>mt_FileID = [], mt_SliceID = [], mt_NodeID = [], mt_Ranges = rs\<rparr>))"

section \<open>Saving and taking\<close>

definition challenger_Save :: "'d leveldb \<Rightarrow> int64 \<Rightarrow> Material list \<Rightarrow> 'd \<Rightarrow> unit result \<times> 'd" where
  "challenger_Save D ctime cms d = ldb_Save D ctime cms d"

text \<open>The first range that is not used, marked as used, and the list from it on.\<close>

fun first_unused :: "RangeHash list \<Rightarrow> (RangeHash \<times> RangeHash list) option" where
  "first_unused [] = None"
| "first_unused (r # rs) =
     (if \<not> rh_Used r then (let r = r\<lparr>rh_Used := True\<rparr> in Some (r, r # rs)) else first_unused rs)"

fun take_from :: "'d leveldb \<Rightarrow> env \<Rightarrow> bytes list \<Rightarrow> 'd \<Rightarrow> RangeHash result \<times> 'd" where
  "take_from D E [] d = (Inl (Errx ErrCodeNotFound), d)"
| "take_from D E (k # keyList) d =
     (case ldb_Load D E k d of Inl _ \<Rightarrow> take_from D E keyList d
      | Inr cm \<Rightarrow> (case first_unused (mt_Ranges cm) of None \<Rightarrow> take_from D E keyList d
          | Some (rh, rs) \<Rightarrow>
              (case ldb_Update D \<lparr>mt_FileID = [], mt_SliceID = [], mt_NodeID = [], mt_Ranges = rs\<rparr> k d of
                 (Inl _, d) \<Rightarrow> take_from D E keyList d | (Inr _, d) \<Rightarrow> (Inr rh, d))))"

definition material_prefix :: "string \<Rightarrow> string \<Rightarrow> bytes \<Rightarrow> bytes" where
  "material_prefix fileID sliceID nodeID = fileID @ '':'' @ sliceID @ '':'' @ hex nodeID"

definition Take :: "'d leveldb \<Rightarrow> env \<Rightarrow> string \<Rightarrow> string \<Rightarrow> bytes \<Rightarrow> 'd \<Rightarrow> RangeHash result \<times> 'd" where
  "Take D E fileID sliceID nodeID d =
     (case ldb_NewIterator D (material_prefix fileID sliceID nodeID) d of
        Inl _ \<Rightarrow> (Inl (Errx ErrCodeNotFound), d)
      | Inr keyList \<Rightarrow> take_from D E keyList d)"

section \<open>The material of a file\<close>

definition SaveMerkleChallenger :: "'d leveldb \<Rightarrow> int64 \<Rightarrow> Material list \<Rightarrow> 'd \<Rightarrow> unit result \<times> 'd" where
  "SaveMerkleChallenger D ctime challengingMaterial d = challenger_Save D ctime challengingMaterial d"

text \<open>
  What is drawn for one slice: the numbers of every part, the order in which the parts finish, and
  the times at which making and saving its material read the clock.
\<close>

record setup_run =
  sr_draws :: "int \<Rightarrow> (int \<times> int) list"
  sr_finished :: "int list"
  sr_start :: int64
  sr_ctime :: int64

fun slices_material :: "env \<Rightarrow> RandChallenger \<Rightarrow> string \<Rightarrow> int64 \<Rightarrow> int64 \<Rightarrow> (nat \<Rightarrow> setup_run) \<Rightarrow> nat \<Rightarrow>
    EncryptedSlice list \<Rightarrow> Material list result option" where
  "slices_material E m fileID expireTime interval runs i [] = Some (Inr [])"
| "slices_material E m fileID expireTime interval runs i (es # r) =
     (case GetMCRange E m fileID es expireTime (sr_start (runs i)) interval (sr_draws (runs i)) (sr_finished (runs i)) of
        None \<Rightarrow> None | Some (Inl e) \<Rightarrow> Some (Inl e)
      | Some (Inr mt) \<Rightarrow> map_option (\<lambda>ms. rbind ms (\<lambda>ms. Inr (mt # ms)))
          (slices_material E m fileID expireTime interval runs (i + 1) r))"

definition AddSlicesNewMerkleChallenge :: "'d leveldb \<Rightarrow> env \<Rightarrow> RandChallenger \<Rightarrow> File \<Rightarrow> EncryptedSlice list \<Rightarrow> int64 \<Rightarrow>
    (nat \<Rightarrow> setup_run) \<Rightarrow> int64 \<Rightarrow> 'd \<Rightarrow> (unit result \<times> 'd) option" where
  "AddSlicesNewMerkleChallenge D E m file expandSlices interval runs ctime d =
     (if expandSlices = [] then Some (Inr (), d)
      else if f_Slices file = [] then Some (Inl (Errx ErrCodeInternal), d)
      else map_option (\<lambda>r. case r of Inl e \<Rightarrow> (Inl e, d)
        | Inr ms \<Rightarrow> if length expandSlices \<noteq> length ms then (Inl (Errx ErrCodeInternal), d)
                    else SaveMerkleChallenger D ctime ms d)
        (slices_material E m (f_ID file) (f_ExpireTime file) interval runs 0 expandSlices))"

text \<open>
  The material of the slices of a written file is made and saved by one routine for each slice, in
  the order in which they save; an error of one does not keep the others from saving, and the last
  error is the result. An empty list of ranges is an error.
\<close>

fun save_loop :: "'d leveldb \<Rightarrow> env \<Rightarrow> RandChallenger \<Rightarrow> string \<Rightarrow> int64 \<Rightarrow> int64 \<Rightarrow> (setup_run \<times> EncryptedSlice) list \<Rightarrow>
    fault option \<Rightarrow> 'd \<Rightarrow> (unit result \<times> 'd) option" where
  "save_loop D E m fileID expireTime interval [] isSaveErr d =
     Some (case isSaveErr of None \<Rightarrow> Inr () | Some e \<Rightarrow> Inl e, d)"
| "save_loop D E m fileID expireTime interval ((run, es) # r) isSaveErr d =
     (case GetMCRange E m fileID es expireTime (sr_start run) interval (sr_draws run) (sr_finished run) of
        None \<Rightarrow> None | Some (Inl e) \<Rightarrow> Some (Inl e, d)
      | Some (Inr mt) \<Rightarrow>
          if mt_Ranges mt = [] then save_loop D E m fileID expireTime interval r (Some (Errx ErrCodeInternal)) d
          else (case SaveMerkleChallenger D (sr_ctime run) [mt] d of
              (Inl e, d) \<Rightarrow> save_loop D E m fileID expireTime interval r (Some e) d
            | (Inr _, d) \<Rightarrow> save_loop D E m fileID expireTime interval r isSaveErr d))"

definition generateAndSaveMerkle :: "'d leveldb \<Rightarrow> env \<Rightarrow> RandChallenger \<Rightarrow> int64 \<Rightarrow> (setup_run \<times> EncryptedSlice) list \<Rightarrow>
    string \<Rightarrow> int64 \<Rightarrow> 'd \<Rightarrow> (unit result \<times> 'd) option" where
  "generateAndSaveMerkle D E m timeInterval finishedEncSlices fileID expireTime d =
     save_loop D E m fileID expireTime timeInterval finishedEncSlices None d"

section \<open>What is drawn\<close>

text \<open>A challenger with positive sizes, and a slice whose length a floating point number holds exactly.\<close>

definition sizes_ok :: "RandChallenger \<Rightarrow> bool" where
  "sizes_ok m \<longleftrightarrow> 0 < sint (rc_shrinkSize m) \<and> 0 < sint (rc_segmentSize m)"

lemma NewRandChallenger_sizes: "0 \<le> sint a \<Longrightarrow> 0 \<le> sint b \<Longrightarrow> sizes_ok (NewRandChallenger a b)"
  by (auto simp: sizes_ok_def NewRandChallenger_def order_le_less signed_eq_0_iff)

definition range_in :: "int \<Rightarrow> int \<times> int \<Rightarrow> bool" where
  "range_in len r \<longleftrightarrow> 0 \<le> fst r \<and> fst r \<le> snd r \<and> snd r < len"

lemma draw_range_in:
  assumes "sizes_ok m" and "0 < len" and "len \<le> 2 ^ 53"
  shows "range_in len (draw_range m len d)"
proof -
  define a where "a = fst d mod len"
  define b where "b = snd d mod len"
  have ab: "0 \<le> a" "a < len" "0 \<le> b" "b < len" using assms(2) by (simp_all add: a_def b_def)
  then have "f64_of_int a = of_int a" "f64_of_int b = of_int b" using assms(3) by (simp_all add: f64_of_int_exact)
  then have d: "draw_range m len d = shrink m (min a b) (max a b)"
    by (simp add: draw_range_def a_def[symmetric] b_def[symmetric] Let_def of_int_min of_int_max flip: of_int_min of_int_max)
  define t where "t = sint (rc_shrinkSize m)"
  have "0 < t" using assms(1) by (simp add: sizes_ok_def t_def)
  then have "0 \<le> max a b smod t" "max a b smod t < t"
    using ab by (auto simp: signed_modulo_int_def sgn_if)
  with ab show ?thesis by (auto simp: d shrink_def range_in_def t_def[symmetric] Let_def)
qed

lemma selectKey_inj [simp]: "selectKey r = selectKey r' \<longleftrightarrow> r = r'"
  by (cases r; cases r') (simp add: selectKey_def sep_eq)

lemma take_ranges_inv:
  assumes "take_ranges m len n draws selected = Some (sr, rest, sel)"
  shows "length sr = n \<and> sel = rev (map selectKey sr) @ selected \<and> distinct sr \<and>
    set (map selectKey sr) \<inter> set selected = {} \<and> set sr \<subseteq> range (draw_range m len)"
  using assms
proof (induction m len n draws selected arbitrary: sr rule: take_ranges.induct)
  case (3 m len n d draws selected)
  define r where "r = draw_range m len d"
  show ?case
  proof (cases "selectKey r \<in> set selected")
    case True
    with "3.prems" have "take_ranges m len (Suc n) draws selected = Some (sr, rest, sel)" by (simp add: r_def[symmetric])
    from "3.IH"(1)[OF r_def True this] show ?thesis .
  next
    case False
    with "3.prems" obtain sr' where sr: "sr = r # sr'"
      and t: "take_ranges m len n draws (selectKey r # selected) = Some (sr', rest, sel)"
      by (auto simp: r_def[symmetric])
    from "3.IH"(2)[OF r_def False t] False show ?thesis by (auto simp: sr r_def)
  qed
qed simp_all

lemmas take_ranges_ok = take_ranges_inv[THEN conjunct1] take_ranges_inv[THEN conjunct2, THEN conjunct1]
  take_ranges_inv[THEN conjunct2, THEN conjunct2, THEN conjunct1]
  take_ranges_inv[THEN conjunct2, THEN conjunct2, THEN conjunct2, THEN conjunct1]
  take_ranges_inv[THEN conjunct2, THEN conjunct2, THEN conjunct2, THEN conjunct2]

lemma take_ranges_in:
  assumes "take_ranges m (int (length sliceData)) n draws selected = Some (sr, rest, sel)"
    and "sizes_ok m" and "sliceData \<noteq> []" and "length sliceData \<le> 2 ^ 53"
  shows "\<forall>r \<in> set sr. range_in (int (length sliceData)) r"
proof
  fix r assume "r \<in> set sr"
  with take_ranges_ok(5)[OF assms(1)] obtain d where "r = draw_range m (int (length sliceData)) d" by blast
  moreover have "int (length sliceData) \<le> 2 ^ 53" using assms(4) by (metis of_nat_le_iff of_nat_numeral of_nat_power)
  ultimately show "range_in (int (length sliceData)) r" using assms(2,3) by (simp add: draw_range_in)
qed

text \<open>
  The material of a slice: as many ranges as the segment size, all inside of the slice, under the root
  of the tree over the digests of the parts they cut out, and not used.
\<close>

definition part_hash :: "env \<Rightarrow> bytes \<Rightarrow> MaterialRange \<Rightarrow> bytes" where
  "part_hash E sliceData r = sha256 E (slice_part sliceData (uint (mr_Start r), uint (mr_End r)))"

definition material_of :: "env \<Rightarrow> RandChallenger \<Rightarrow> bytes \<Rightarrow> RangeHash \<Rightarrow> bool" where
  "material_of E m sliceData rh \<longleftrightarrow> length (rh_Ranges rh) = nat (sint (rc_segmentSize m)) \<and> \<not> rh_Used rh \<and>
     (\<forall>r \<in> set (rh_Ranges rh). mr_Start r \<le> mr_End r \<and> uint (mr_End r) < int (length sliceData)) \<and>
     (\<exists>h. GetMerkleRoot E (map (\<lambda>r. Some (part_hash E sliceData r)) (rh_Ranges rh)) = Inr h \<and> rh_Hash rh = bytes_of h)"

lemma to_range_uint:
  assumes "range_in (int len) r" and "len \<le> 2 ^ 53"
  shows "uint (mr_Start (to_range r)) = fst r" and "uint (mr_End (to_range r)) = snd r"
proof -
  have "int len \<le> 2 ^ 53" using assms(2) by (metis of_nat_le_iff of_nat_numeral of_nat_power)
  with assms(1) have "0 \<le> fst r" "fst r < 2 ^ 64" "0 \<le> snd r" "snd r < 2 ^ 64" by (auto simp: range_in_def)
  then show "uint (mr_Start (to_range r)) = fst r" "uint (mr_End (to_range r)) = snd r"
    by (simp_all add: to_range_def uint_word_of_int)
qed

lemma merkle_ranges_material:
  assumes "merkle_ranges E m sliceData k draws selected = Some (Inr l)"
    and "sizes_ok m" and "sliceData \<noteq> []" and "length sliceData \<le> 2 ^ 53"
  shows "length l = k" and "\<forall>rh \<in> set l. material_of E m sliceData rh"
proof -
  have "length l = k \<and> (\<forall>rh \<in> set l. material_of E m sliceData rh)"
    using assms(1)
  proof (induction k arbitrary: draws selected l)
    case 0
    then show ?case by simp
  next
    case (Suc k)
    from Suc.prems obtain sr ds sel h l' where
      t: "take_ranges m (int (length sliceData)) (nat (sint (rc_segmentSize m))) draws selected = Some (sr, ds, sel)"
      and h: "GetMerkleRoot E (map (\<lambda>r. Some (sha256 E (slice_part sliceData r))) sr) = Inr h"
      and l': "merkle_ranges E m sliceData k ds sel = Some (Inr l')"
      and l: "l = \<lparr>rh_Ranges = map to_range sr, rh_Hash = bytes_of h, rh_Used = False\<rparr> # l'"
      by (auto simp: rbind_ok split: option.splits sum.splits)
    note into = take_ranges_in[OF t assms(2-4)]
    have u: "uint (mr_Start (to_range r)) = fst r" "uint (mr_End (to_range r)) = snd r" if "r \<in> set sr" for r
      using to_range_uint[OF into[rule_format, OF that] assms(4)] by simp_all
    have eq: "map (\<lambda>r. Some (part_hash E sliceData r)) (map to_range sr) = map (\<lambda>r. Some (sha256 E (slice_part sliceData r))) sr"
      by (simp add: part_hash_def u)
    have "GetMerkleRoot E (map (\<lambda>r. Some (part_hash E sliceData r)) (map to_range sr)) = Inr h"
      unfolding eq by (rule h)
    with into have "material_of E m sliceData (hd l)"
      using take_ranges_ok(1)[OF t] by (auto simp: l material_of_def u range_in_def word_le_def simp del: map_map)
    with Suc.IH[OF l'] show ?case by (simp add: l)
  qed
  then show "length l = k" "\<forall>rh \<in> set l. material_of E m sliceData rh" by simp_all
qed

section \<open>How many ranges there are\<close>

lemma all_parts_ok: "all_parts ps = Some (Inr l) \<longleftrightarrow> (\<exists>ls. ps = map (\<lambda>x. Some (Inr x)) ls \<and> l = concat ls)"
proof (induction ps arbitrary: l)
  case (Cons p ps)
  have step: "all_parts (p # ps) = Some (Inr l) \<longleftrightarrow> (\<exists>x l'. p = Some (Inr x) \<and> all_parts ps = Some (Inr l') \<and> l = x @ l')"
    by (auto simp: rbind_ok split: option.splits)
  show ?case
  proof
    assume "all_parts (p # ps) = Some (Inr l)"
    then obtain x ls where "p = Some (Inr x)" "ps = map (\<lambda>x. Some (Inr x)) ls" "l = x @ concat ls"
      unfolding step Cons.IH by blast
    then show "\<exists>ls. p # ps = map (\<lambda>x. Some (Inr x)) ls \<and> l = concat ls" by (intro exI[of _ "x # ls"]) simp
  next
    assume "\<exists>ls. p # ps = map (\<lambda>x. Some (Inr x)) ls \<and> l = concat ls"
    then obtain x ls where "p = Some (Inr x)" "ps = map (\<lambda>x. Some (Inr x)) ls" "l = x @ concat ls"
      by (auto simp: Cons_eq_map_conv)
    then show "all_parts (p # ps) = Some (Inr l)" unfolding step Cons.IH by blast
  qed
qed auto

text \<open>The parts add up to the amount that was asked for.\<close>

lemma part_amount_sum:
  assumes "0 \<le> n" and "p = (n + 20000 - 1) div 20000"
  shows "(\<Sum>i \<leftarrow> [1..p]. part_amount n i) = n" and "\<forall>i \<in> {1..p}. 0 \<le> part_amount n i"
proof -
  have p: "n \<le> p * 20000" "(p - 1) * 20000 < n" "0 \<le> p" if "0 < n" using that assms(2) by auto
  have "(\<Sum>i \<leftarrow> [1..p]. part_amount n i) = n"
  proof (cases "n \<le> 20000")
    case True
    then have "p = (if n = 0 then 0 else 1)" using assms by auto
    with True show ?thesis by (simp add: part_amount_def MerkleChallengeSetUpRange_def)
  next
    case False
    then have n: "0 < n" by simp
    have full: "(\<Sum>i \<leftarrow> [1..q]. part_amount n i) = q * 20000" if "0 \<le> q" "q < p" for q
      using that
    proof (induction q rule: int_ge_induct[where k = 0])
      case base
      then show ?case by simp
    next
      case (step q)
      have "[1..q + 1] = [1..q] @ [q + 1]" using step(1) by (simp add: upto_rec2)
      moreover have "part_amount n (q + 1) = 20000"
        using step(3) p(2)[OF n] False by (auto simp: part_amount_def MerkleChallengeSetUpRange_def)
      ultimately show ?case using step by simp
    qed
    have "[1..p] = [1..p - 1] @ [p]" using p[OF n] n by (simp add: upto_rec2)
    moreover have "part_amount n p = n - (p - 1) * 20000"
      using p(1)[OF n] False by (auto simp: part_amount_def MerkleChallengeSetUpRange_def)
    moreover have "0 \<le> p - 1" using p(1)[OF n] n by (cases "p = 0") (use p(3)[OF n] in auto)
    ultimately show ?thesis using full[of "p - 1"] by simp
  qed
  then show "(\<Sum>i \<leftarrow> [1..p]. part_amount n i) = n" .
  show "\<forall>i \<in> {1..p}. 0 \<le> part_amount n i"
    using assms(1) p(2) by (auto simp: part_amount_def MerkleChallengeSetUpRange_def)
qed

lemma int_length_concat: "int (length (concat ls)) = sum_list (map (\<lambda>x. int (length x)) ls)"
  by (induction ls) simp_all

lemma Setup_material:
  assumes run: "Setup E m sliceData n draws finished = Some (Inr l)"
    and n: "0 \<le> n" "n < 2 ^ 53" and perm: "mset finished = mset [1..setup_parts n]"
    and ok: "sizes_ok m" "sliceData \<noteq> []" "length sliceData \<le> 2 ^ 53"
  shows "int (length l) = n" and "\<forall>rh \<in> set l. material_of E m sliceData rh"
proof -
  have p: "setup_parts n = (n + 20000 - 1) div 20000"
    using n by (simp add: setup_parts_def MerkleChallengeSetUpRange_def f64_div_ceiling)
  note sum = part_amount_sum[OF n(1) p]
  have set: "set finished = {1..setup_parts n}" using mset_eq_setD[OF perm] by simp
  from run obtain ls where ls: "map (\<lambda>i. generateMerkleRanges E m sliceData (part_amount n i) (draws i)) finished =
      map (\<lambda>x. Some (Inr x)) ls" and l: "l = concat ls"
    by (auto simp: Setup_def all_parts_ok split: if_splits)
  have each: "int (length x) = part_amount n i \<and> (\<forall>rh \<in> set x. material_of E m sliceData rh)"
    if "i \<in> set finished" "generateMerkleRanges E m sliceData (part_amount n i) (draws i) = Some (Inr x)" for i x
  proof -
    from that(2) have "merkle_ranges E m sliceData (nat (part_amount n i)) (draws i) [] = Some (Inr x)"
      by (auto simp: generateMerkleRanges_def split: if_splits)
    from merkle_ranges_material[OF this ok] sum(2) that(1) show ?thesis by (auto simp: set)
  qed
  have len: "length ls = length finished" using ls by (metis length_map)
  have nth: "generateMerkleRanges E m sliceData (part_amount n (finished ! j)) (draws (finished ! j)) = Some (Inr (ls ! j))"
    if "j < length ls" for j
    using arg_cong[OF ls, of "\<lambda>l. l ! j"] that len by simp
  have "map (\<lambda>x. int (length x)) ls = map (part_amount n) finished"
  proof (rule nth_equalityI)
    fix j assume "j < length (map (\<lambda>x. int (length x)) ls)"
    then have j: "j < length ls" by simp
    with each[OF _ nth[OF j]] len show "map (\<lambda>x. int (length x)) ls ! j = map (part_amount n) finished ! j" by simp
  qed (simp add: len)
  then have "int (length l) = sum_list (map (part_amount n) finished)"
    by (simp add: l int_length_concat)
  also have "\<dots> = sum_list (map (part_amount n) [1..setup_parts n])"
    by (simp add: perm flip: sum_mset_sum_list)
  finally show "int (length l) = n" using sum(1) by simp
  show "\<forall>rh \<in> set l. material_of E m sliceData rh"
  proof
    fix rh assume "rh \<in> set l"
    then obtain x where "x \<in> set ls" "rh \<in> set x" by (auto simp: l)
    then obtain j where j: "j < length ls" "rh \<in> set (ls ! j)" by (auto simp: in_set_conv_nth)
    with each[OF _ nth[OF j(1)]] len show "material_of E m sliceData rh" by simp
  qed
qed

lemma GetMCRange_material:
  assumes run: "GetMCRange E m fileID es expireTime startTime interval draws finished = Some (Inr mt)"
    and t: "0 \<le> sint (expireTime - startTime)" "sint (expireTime - startTime) < 2 ^ 53" "0 < sint interval" "sint interval < 2 ^ 53"
    and n: "n = (sint (expireTime - startTime) + sint interval - 1) div sint interval"
    and perm: "mset finished = mset [1..setup_parts n]"
    and ok: "sizes_ok m" "es_CipherText es \<noteq> []" "length (es_CipherText es) \<le> 2 ^ 53"
  shows "int (length (mt_Ranges mt)) = n" and "\<forall>rh \<in> set (mt_Ranges mt). material_of E m (es_CipherText es) rh"
proof -
  have n0: "0 \<le> n" "n < 2 ^ 53"
  proof -
    show "0 \<le> n" unfolding n using t by (intro pos_imp_zdiv_nonneg_iff[THEN iffD2]) simp_all
    show "n < 2 ^ 53"
    proof (rule ccontr)
      assume "\<not> n < 2 ^ 53"
      then have "2 ^ 53 * sint interval \<le> n * sint interval" using t(3) by (intro mult_right_mono) simp_all
      moreover have "n * sint interval \<le> sint (expireTime - startTime) + sint interval - 1"
        using div_mult_mod_eq[of "sint (expireTime - startTime) + sint interval - 1" "sint interval"]
          pos_mod_sign[OF t(3), of "sint (expireTime - startTime) + sint interval - 1"] unfolding n by linarith
      moreover have e: "(2 :: int) ^ 53 = 9007199254740992" by simp
      ultimately show False using t unfolding e by linarith
    qed
  qed
  from run obtain l where l: "Setup E m (es_CipherText es) n draws finished = Some (Inr l)" and mt: "mt_Ranges mt = l"
    by (auto simp: GetMCRange_def Let_def rbind_ok n f64_div_ceiling[OF t])
  from Setup_material[OF l n0 perm ok]
  show "int (length (mt_Ranges mt)) = n" "\<forall>rh \<in> set (mt_Ranges mt). material_of E m (es_CipherText es) rh"
    by (simp_all add: mt)
qed

section \<open>Slices that are too short\<close>

text \<open>
  A slice has no more ranges than pairs of positions. When more are asked for, no draws at all bring
  the loop to its end.
\<close>

lemma ranges_bounded:
  assumes "sizes_ok m" and "sliceData \<noteq> []" and "length sliceData \<le> 2 ^ 53"
    and "set selected \<subseteq> selectKey ` {r. range_in (int (length sliceData)) r}" and "distinct selected"
    and "length sliceData ^ 2 < length selected + k * nat (sint (rc_segmentSize m))"
  shows "merkle_ranges E m sliceData k draws selected = None"
  using assms(4-6)
proof (induction k arbitrary: draws selected)
  case 0
  define n where "n = length sliceData"
  have sub: "{r. range_in (int n) r} \<subseteq> {0..<int n} \<times> {0..<int n}" by (auto simp: range_in_def)
  have fin: "finite ({0..<int n} \<times> {0..<int n})" by simp
  have "length selected = card (set selected)" using 0 by (simp add: distinct_card)
  also have "\<dots> \<le> card (selectKey ` {r. range_in (int n) r})"
    using 0 finite_subset[OF sub fin] by (intro card_mono) (simp_all add: n_def)
  also have "\<dots> \<le> card {r. range_in (int n) r}" using finite_subset[OF sub fin] by (rule card_image_le)
  also have "\<dots> \<le> card ({0..<int n} \<times> {0..<int n})" using fin sub by (rule card_mono)
  also have "\<dots> = n ^ 2" by (simp add: card_cartesian_product power2_eq_square)
  finally show ?case using 0 by (simp add: n_def)
next
  case (Suc k)
  show ?case
  proof (cases "take_ranges m (int (length sliceData)) (nat (sint (rc_segmentSize m))) draws selected")
    case (Some a)
    then obtain sr ds sel where
      t: "take_ranges m (int (length sliceData)) (nat (sint (rc_segmentSize m))) draws selected = Some (sr, ds, sel)"
      by (cases a) auto
    note ok = take_ranges_ok[OF t]
    have "set sel \<subseteq> selectKey ` {r. range_in (int (length sliceData)) r}"
      using ok(2) Suc.prems(1) take_ranges_in[OF t assms(1-3)] by auto
    moreover have "distinct sel" using ok Suc.prems(2) by (auto simp: distinct_map inj_on_def)
    moreover have "length sliceData ^ 2 < length sel + k * nat (sint (rc_segmentSize m))"
      using Suc.prems(3) ok(1,2) by simp
    ultimately have "merkle_ranges E m sliceData k ds sel = None" by (rule Suc.IH)
    moreover have "sr \<noteq> []" using ok(1) assms(1) by (auto simp: sizes_ok_def)
    ultimately show ?thesis by (simp add: t GetMerkleRoot_queue)
  qed simp
qed

section \<open>Taking material\<close>

definition unused :: "'d leveldb \<Rightarrow> env \<Rightarrow> 'd \<Rightarrow> bytes \<Rightarrow> RangeHash list" where
  "unused D E d k = (case ldb_Load D E k d of Inl _ \<Rightarrow> [] | Inr m \<Rightarrow> filter (\<lambda>r. \<not> rh_Used r) (mt_Ranges m))"

lemma first_unused_None: "first_unused rs = None \<longleftrightarrow> filter (\<lambda>r. \<not> rh_Used r) rs = []"
  by (induction rs) (auto simp: Let_def)

lemma first_unused_Some: "first_unused rs = Some (rh, rs') \<Longrightarrow> filter (\<lambda>r. \<not> rh_Used r) rs =
    rh\<lparr>rh_Used := False\<rparr> # filter (\<lambda>r. \<not> rh_Used r) rs' \<and> rh_Used rh"
  by (induction rs) (auto simp: Let_def split: if_splits)

text \<open>
  What the engine relies on: a batch is written as a whole and never refused, and walking over a prefix
  that has a single key gives this key.
\<close>

locale level_db =
  fixes D :: "'d leveldb"
  assumes written: "db_Write D kvs d = Some d' \<Longrightarrow>
      db_Get D d' k = (case map_of (rev kvs) k of Some v \<Rightarrow> Some v | None \<Rightarrow> db_Get D d k)"
    and not_refused: "db_Write D kvs d \<noteq> None"
    and single_key: "prefix p k \<Longrightarrow> db_Get D d k \<noteq> None \<Longrightarrow> (\<And>k'. prefix p k' \<Longrightarrow> db_Get D d k' \<noteq> None \<Longrightarrow> k' = k) \<Longrightarrow>
      db_Keys D d p = Some [k]"
begin

lemma ldb_Update_ok: "\<exists>d'. ldb_Update D m k d = (Inr (), d') \<and>
    (\<forall>k'. db_Get D d' k' = (if k' = k then Some (Doc (enc_list enc_RangeHash (mt_Ranges m))) else db_Get D d k'))"
proof -
  obtain d' where w: "db_Write D [(k, Doc (enc_list enc_RangeHash (mt_Ranges m)))] d = Some d'"
    using not_refused[of "[(k, Doc (enc_list enc_RangeHash (mt_Ranges m)))]" d] by blast
  show ?thesis by (intro exI[of _ d']) (simp add: ldb_Update_def w written[OF w])
qed

text \<open>Taking gives the first unused range of the first key that has one, and only uses this range up.\<close>

lemma take_from_step:
  assumes "unused D E d k = r # rest"
  shows "\<exists>d'. take_from D E (k # ks) d = (Inr (r\<lparr>rh_Used := True\<rparr>), d') \<and> unused D E d' k = rest \<and>
    db_Get D d' k \<noteq> None \<and> (\<forall>k'. k' \<noteq> k \<longrightarrow> db_Get D d' k' = db_Get D d k')"
proof -
  obtain cm where cm: "ldb_Load D E k d = Inr cm" "filter (\<lambda>r. \<not> rh_Used r) (mt_Ranges cm) = r # rest"
    using assms by (auto simp: unused_def split: sum.splits)
  then obtain rh rs where f: "first_unused (mt_Ranges cm) = Some (rh, rs)"
    using first_unused_None[of "mt_Ranges cm"] by fastforce
  note rh = first_unused_Some[OF f, unfolded cm(2)]
  obtain d' where d': "ldb_Update D \<lparr>mt_FileID = [], mt_SliceID = [], mt_NodeID = [], mt_Ranges = rs\<rparr> k d = (Inr (), d')"
    "\<forall>k'. db_Get D d' k' = (if k' = k then Some (Doc (enc_list enc_RangeHash rs)) else db_Get D d k')"
    using ldb_Update_ok[of "\<lparr>mt_FileID = [], mt_SliceID = [], mt_NodeID = [], mt_Ranges = rs\<rparr>" k d] by auto
  have "unused D E d' k = rest" using d'(2) rh by (simp add: unused_def ldb_Load_def)
  moreover have "r\<lparr>rh_Used := True\<rparr> = rh" using rh by simp
  ultimately show ?thesis using cm(1) f d' by simp
qed

lemma take_from_nothing: "\<forall>k \<in> set ks. unused D E d k = [] \<Longrightarrow> take_from D E ks d = (Inl (Errx ErrCodeNotFound), d)"
proof (induction ks)
  case (Cons k ks)
  show ?case
  proof (cases "ldb_Load D E k d")
    case (Inr m)
    with Cons.prems have "first_unused (mt_Ranges m) = None" by (simp add: unused_def first_unused_None)
    with Cons Inr show ?thesis by simp
  qed (use Cons in simp)
qed simp

end

text \<open>Taking again and again for one slice on one node, until nothing is left.\<close>

fun take_many :: "'d leveldb \<Rightarrow> env \<Rightarrow> string \<Rightarrow> string \<Rightarrow> bytes \<Rightarrow> nat \<Rightarrow> 'd \<Rightarrow> RangeHash list" where
  "take_many D E fileID sliceID nodeID 0 d = []"
| "take_many D E fileID sliceID nodeID (Suc n) d =
     (case Take D E fileID sliceID nodeID d of (Inl _, _) \<Rightarrow> []
      | (Inr rh, d') \<Rightarrow> rh # take_many D E fileID sliceID nodeID n d')"

definition only_key :: "'d leveldb \<Rightarrow> 'd \<Rightarrow> bytes \<Rightarrow> bytes \<Rightarrow> bool" where
  "only_key D d p k \<longleftrightarrow> prefix p k \<and> db_Get D d k \<noteq> None \<and> (\<forall>k'. prefix p k' \<longrightarrow> k' \<noteq> k \<longrightarrow> db_Get D d k' = None)"

context level_db begin

lemma only_key_keys: "only_key D d p k \<Longrightarrow> db_Keys D d p = Some [k]"
proof -
  assume a: "only_key D d p k"
  have "k' = k" if "prefix p k'" "db_Get D d k' \<noteq> None" for k'
  proof (rule ccontr)
    assume "k' \<noteq> k"
    with a that(1) have "db_Get D d k' = None" unfolding only_key_def by blast
    with that(2) show False by contradiction
  qed
  then show ?thesis by (rule single_key[OF a[unfolded only_key_def, THEN conjunct1] a[unfolded only_key_def, THEN conjunct2, THEN conjunct1]])
qed

lemma take_many_in_order:
  assumes "only_key D d (material_prefix f i n) k"
  shows "take_many D E f i n c d = map (rh_Used_update (\<lambda>_. True)) (take c (unused D E d k))"
  using assms
proof (induction c arbitrary: d)
  case (Suc c)
  have keys: "ldb_NewIterator D (material_prefix f i n) d = Inr [k]"
    by (simp add: ldb_NewIterator_def only_key_keys[OF Suc.prems])
  show ?case
  proof (cases "unused D E d k")
    case Nil
    then show ?thesis using take_from_nothing[of "[k]" E d] keys by (simp add: Take_def)
  next
    case (Cons r rest)
    from take_from_step[OF Cons, of "[]"] obtain d' where
      d': "take_from D E [k] d = (Inr (r\<lparr>rh_Used := True\<rparr>), d')" "unused D E d' k = rest" "db_Get D d' k \<noteq> None"
        "\<forall>k'. k' \<noteq> k \<longrightarrow> db_Get D d' k' = db_Get D d k'" by blast
    then have "only_key D d' (material_prefix f i n) k" using Suc.prems by (simp add: only_key_def)
    from Suc.IH[OF this] d' keys show ?thesis by (simp add: Take_def Cons del: take_from.simps)
  qed
qed simp

lemma Save_only_key:
  assumes "challenger_Save D ctime [mt] d = (Inr u, d')"
    and "\<forall>k. prefix (material_prefix (mt_FileID mt) (mt_SliceID mt) (mt_NodeID mt)) k \<longrightarrow> db_Get D d k = None"
  defines "k \<equiv> makeMaterialKey (mt_FileID mt) (mt_SliceID mt) (mt_NodeID mt) ctime"
  shows "only_key D d' (material_prefix (mt_FileID mt) (mt_SliceID mt) (mt_NodeID mt)) k"
    and "unused D E d' k = filter (\<lambda>r. \<not> rh_Used r) (mt_Ranges mt)"
proof -
  have get: "db_Get D d' k' = (if k' = k then Some (Doc (enc_list enc_RangeHash (mt_Ranges mt))) else db_Get D d k')" for k'
    using assms(1) written[of "[(k, Doc (enc_list enc_RangeHash (mt_Ranges mt)))]" d d' k']
    by (auto simp: challenger_Save_def ldb_Save_def k_def split: option.splits)
  have "prefix (material_prefix (mt_FileID mt) (mt_SliceID mt) (mt_NodeID mt)) k"
    by (simp add: k_def makeMaterialKey_def material_prefix_def prefix_def)
  with get assms(2) show "only_key D d' (material_prefix (mt_FileID mt) (mt_SliceID mt) (mt_NodeID mt)) k"
    by (simp add: only_key_def)
  show "unused D E d' k = filter (\<lambda>r. \<not> rh_Used r) (mt_Ranges mt)" by (simp add: unused_def ldb_Load_def get)
qed

text \<open>The material that was saved for a slice is handed out range by range, each one once.\<close>

lemma saved_handed_out:
  assumes "challenger_Save D ctime [mt] d = (Inr u, d')"
    and "\<forall>k. prefix (material_prefix (mt_FileID mt) (mt_SliceID mt) (mt_NodeID mt)) k \<longrightarrow> db_Get D d k = None"
    and "\<forall>r \<in> set (mt_Ranges mt). \<not> rh_Used r"
  shows "take_many D E (mt_FileID mt) (mt_SliceID mt) (mt_NodeID mt) c d' =
    map (rh_Used_update (\<lambda>_. True)) (take c (mt_Ranges mt))"
proof -
  have "filter (\<lambda>r. \<not> rh_Used r) (mt_Ranges mt) = mt_Ranges mt" using assms(3) by simp
  then show ?thesis
    using take_many_in_order[OF Save_only_key(1)[OF assms(1,2)]] Save_only_key(2)[OF assms(1,2)] by simp
qed

end

text \<open>The reference database: the ordered store of the ledger with batches.\<close>

definition mem_leveldb :: "store leveldb" where
  "mem_leveldb = \<lparr>db_Get = store_get, db_Write = (\<lambda>kvs s. Some (fold (\<lambda>(k, v) s. store_put s k v) kvs s)),
     db_Keys = (\<lambda>s p. Some (map fst (store_scan s p)))\<rparr>"

lemma fold_store_put: "store_get (fold (\<lambda>(k, v) s. store_put s k v) kvs s) k =
    (case map_of (rev kvs) k of Some v \<Rightarrow> Some v | None \<Rightarrow> store_get s k)"
  by (induction kvs arbitrary: s) (auto simp: map_add_def split: option.splits)

lemma sorted_singleton: "sorted_wrt (<) xs \<Longrightarrow> set xs = {k :: 'a :: linorder} \<Longrightarrow> xs = [k]"
proof (cases xs)
  case (Cons a as)
  assume "sorted_wrt (<) xs" and k: "set xs = {k}"
  then have "\<forall>x \<in> set as. a < x" by (simp add: Cons)
  moreover have "a = k" "\<forall>x \<in> set as. x = k" using k by (auto simp: Cons)
  ultimately show ?thesis by (cases as) (simp_all add: Cons)
qed simp

lemma store_scan_keys: "set (map fst (store_scan s p)) = {k. prefix p k \<and> store_get s k \<noteq> None}"
  by (force simp: store_scan_set)

interpretation mem_db: level_db mem_leveldb
proof
  fix p k :: bytes and d :: store
  assume k: "prefix p k" "db_Get mem_leveldb d k \<noteq> None"
    and only: "\<And>k'. prefix p k' \<Longrightarrow> db_Get mem_leveldb d k' \<noteq> None \<Longrightarrow> k' = k"
  have "{k. prefix p k \<and> store_get d k \<noteq> None} = {k}"
  proof (intro equalityI subsetI)
    fix x assume "x \<in> {k. prefix p k \<and> store_get d k \<noteq> None}"
    then show "x \<in> {k}" using only[of x] by (simp add: mem_leveldb_def)
  next
    fix x assume "x \<in> {k}"
    then show "x \<in> {k. prefix p k \<and> store_get d k \<noteq> None}" using k by (simp add: mem_leveldb_def)
  qed
  then have "set (map fst (store_scan d p)) = {k}" by (simp only: store_scan_keys)
  moreover have "sorted_wrt (<) (map fst (store_scan d p))" by (rule store_scan_sorted)
  ultimately have "map fst (store_scan d p) = [k]" by (rule sorted_singleton[rotated])
  then show "db_Keys mem_leveldb d p = Some [k]" by (simp add: mem_leveldb_def)
qed (auto simp add: mem_leveldb_def fold_store_put split: option.splits)

end
