(* ===== verification/PairingProof.thy ===== *)
theory PairingProof
  imports BigPolynomial
begin

text \<open>
  The proof of data possession over a bilinear pairing (\<^verbatim>\<open>crypto/core/pdp/pairing\<close>). The curve
  BLS12-381 comes from a third-party library and is a parameter: its operations, and the laws of a
  group of prime order with a bilinear map. SHA-256 is a parameter as well.
\<close>

section \<open>The curve\<close>

record ('g1, 'g2, 'gt) pairing_curve =
  order :: int
  g1Gen :: 'g1
  g2Gen :: 'g2
  g1_zero :: 'g1
  g1_add :: "'g1 \<Rightarrow> 'g1 \<Rightarrow> 'g1"
  g1_mul :: "'g1 \<Rightarrow> int \<Rightarrow> 'g1"
  g2_mul :: "'g2 \<Rightarrow> int \<Rightarrow> 'g2"
  Pair :: "'g1 \<Rightarrow> 'g2 \<Rightarrow> 'gt"
  g1_xy :: "'g1 \<Rightarrow> string"
  G1ToByte :: "'g1 \<Rightarrow> bytes"
  G1FromByte :: "bytes \<Rightarrow> 'g1 option"
  G2ToByte :: "'g2 \<Rightarrow> bytes"
  G2FromByte :: "bytes \<Rightarrow> 'g2 option"
  sha :: "bytes \<Rightarrow> bytes"

definition group_laws :: "('g1, 'g2, 'gt) pairing_curve \<Rightarrow> bool" where
  "group_laws P \<longleftrightarrow> is_prime (order P) \<and>
     (\<forall>x y z. g1_add P (g1_add P x y) z = g1_add P x (g1_add P y z)) \<and> (\<forall>x y. g1_add P x y = g1_add P y x) \<and>
     (\<forall>x. g1_add P (g1_zero P) x = x) \<and> (\<forall>x. g1_mul P x 1 = x) \<and> (\<forall>x. g1_mul P x (order P) = g1_zero P) \<and>
     (\<forall>x a b. g1_mul P x (a + b) = g1_add P (g1_mul P x a) (g1_mul P x b)) \<and>
     (\<forall>x a b. g1_mul P x (a * b) = g1_mul P (g1_mul P x a) b) \<and>
     (\<forall>x y a. g1_mul P (g1_add P x y) a = g1_add P (g1_mul P x a) (g1_mul P y a))"

definition pairing_laws :: "('g1, 'g2, 'gt) pairing_curve \<Rightarrow> bool" where
  "pairing_laws P \<longleftrightarrow> group_laws P \<and> (\<forall>x y a. Pair P (g1_mul P x a) y = Pair P x (g2_mul P y a))"

definition point_codes :: "('g1, 'g2, 'gt) pairing_curve \<Rightarrow> bool" where
  "point_codes P \<longleftrightarrow> (\<forall>x. G1FromByte P (G1ToByte P x) = Some x) \<and> (\<forall>y. G2FromByte P (G2ToByte P y) = Some y)"

section \<open>Keys and hashes\<close>

record PairingPrivateKey =
  psk_X :: int

record 'g2 PairingPublicKey =
  ppk_P :: 'g2

definition PrivateKeyToByte :: "PairingPrivateKey \<Rightarrow> bytes" where
  "PrivateKeyToByte sk = Bytes (psk_X sk)"

definition PrivateKeyFromByte :: "bytes \<Rightarrow> PairingPrivateKey" where
  "PrivateKeyFromByte bs = \<lparr>psk_X = SetBytes bs\<rparr>"

definition PublicKeyToByte :: "('g1, 'g2, 'gt) pairing_curve \<Rightarrow> 'g2 PairingPublicKey \<Rightarrow> bytes" where
  "PublicKeyToByte P pk = G2ToByte P (ppk_P pk)"

definition PublicKeyFromByte :: "('g1, 'g2, 'gt) pairing_curve \<Rightarrow> bytes \<Rightarrow> 'g2 PairingPublicKey cres" where
  "PublicKeyFromByte P bs = (case G2FromByte P bs of None \<Rightarrow> Inl ErrPointBytes | Some p \<Rightarrow> Inr \<lparr>ppk_P = p\<rparr>)"

text \<open>The random number below the order is drawn by the system.\<close>

definition GenKeyPair :: "('g1, 'g2, 'gt) pairing_curve \<Rightarrow> int \<Rightarrow> PairingPrivateKey \<times> 'g2 PairingPublicKey" where
  "GenKeyPair P sk = (\<lparr>psk_X = sk\<rparr>, \<lparr>ppk_P = g2_mul P (g2Gen P) sk\<rparr>)"

definition hashToG1 :: "('g1, 'g2, 'gt) pairing_curve \<Rightarrow> int \<Rightarrow> 'g1" where
  "hashToG1 P data = g1_mul P (g1Gen P) (SetBytes (sha P (Bytes data)))"

text \<open>The decimal texts are put together and read back, modulo the order.\<close>

fun concat_loop :: "int \<Rightarrow> int list \<Rightarrow> int \<Rightarrow> int cres" where
  "concat_loop modulus [] acc = Inr acc"
| "concat_loop modulus (n # l) acc = (case dec_val 0 (dec_int acc @ dec_int n) of None \<Rightarrow> Inl ErrConcat
     | Some c \<Rightarrow> concat_loop modulus l (int c mod modulus))"

definition concatBigInt :: "int list \<Rightarrow> int \<Rightarrow> int cres" where
  "concatBigInt l modulus = concat_loop modulus l 0"

definition hashG1toBigInt :: "('g1, 'g2, 'gt) pairing_curve \<Rightarrow> 'g1 \<Rightarrow> int" where
  "hashG1toBigInt P p = SetBytes (sha P (g1_xy P p)) mod order P"

definition genRandNumByRound :: "('g1, 'g2, 'gt) pairing_curve \<Rightarrow> int64 \<Rightarrow> int \<Rightarrow> bytes" where
  "genRandNumByRound P round sk = Bytes (hashG1toBigInt P (g1_mul P (g1Gen P) (sint round * sk)))"

section \<open>The material\<close>

record CalculateSigmaIParams =
  cs_Content :: bytes
  cs_Index :: int
  cs_RandomV :: int
  cs_RandomU :: int
  cs_Privkey :: PairingPrivateKey
  cs_Round :: int64

definition CalculateSigmaIParamsFromBytes :: "bytes \<Rightarrow> bytes \<Rightarrow> bytes \<Rightarrow> bytes \<Rightarrow> bytes \<Rightarrow> int64 \<Rightarrow> CalculateSigmaIParams" where
  "CalculateSigmaIParamsFromBytes content index randomV randomU privkey round =
     \<lparr>cs_Content = content, cs_Index = SetBytes index, cs_RandomV = SetBytes randomV, cs_RandomU = SetBytes randomU,
      cs_Privkey = PrivateKeyFromByte privkey, cs_Round = round\<rparr>"

definition CalculateSigmaI :: "('g1, 'g2, 'gt) pairing_curve \<Rightarrow> CalculateSigmaIParams \<Rightarrow> 'g1 cres" where
  "CalculateSigmaI P p =
     cbind (concatBigInt [cs_RandomV p, cs_Index p] (order P)) (\<lambda>vi.
       let hvi = hashToG1 P vi;
           rj = genRandNumByRound P (cs_Round p) (psk_X (cs_Privkey p));
           hashMi = sha P (cs_Content p @ rj);
           mig1 = g1_mul P (g1Gen P) (SetBytes hashMi);
           miug1 = g1_mul P mig1 (cs_RandomU p)
       in Inr (g1_mul P (g1_add P hvi miug1) (psk_X (cs_Privkey p))))"

section \<open>Challenges and proofs\<close>

text \<open>The numbers drawn for the challenge are an argument, one for each index.\<close>

definition GenerateChallenge :: "('g1, 'g2, 'gt) pairing_curve \<Rightarrow> (nat \<Rightarrow> int) \<Rightarrow> int64 list \<Rightarrow> int64 \<Rightarrow> PairingPrivateKey \<Rightarrow>
    int list \<times> int list \<times> bytes" where
  "GenerateChallenge P draw indexList round privkey =
     (map sint indexList, map draw [0 ..< length indexList], genRandNumByRound P round (psk_X privkey))"

record 'g1 ProofParams =
  pr_Content :: "bytes list"
  pr_Indices :: "int list"
  pr_RandomVs :: "int list"
  pr_Sigmas :: "'g1 list"
  pr_RandThisRound :: bytes

text \<open>
  The sum of points starts with the first one. The content, the numbers and the points of the proof
  are gone through together; a missing point is an index out of range.
\<close>

definition add_point :: "('g1, 'g2, 'gt) pairing_curve \<Rightarrow> 'g1 option \<Rightarrow> 'g1 \<Rightarrow> 'g1 option" where
  "add_point P acc x = (case acc of None \<Rightarrow> Some x | Some s \<Rightarrow> Some (g1_add P s x))"

fun prove_loop :: "('g1, 'g2, 'gt) pairing_curve \<Rightarrow> bytes \<Rightarrow> bytes list \<Rightarrow> int list \<Rightarrow> 'g1 list \<Rightarrow> 'g1 option \<Rightarrow> int \<Rightarrow>
    ('g1 option \<times> int) cres" where
  "prove_loop P rnd (c # cs) (v # vs) [] sigma vm = Inl Panic"
| "prove_loop P rnd (c # cs) (v # vs) (s # ss) sigma vm =
     (let sigma = add_point P sigma (g1_mul P s v);
          hashMiInt = SetBytes (sha P (c @ rnd)) mod order P;
          vmi = (v * hashMiInt) mod order P
      in prove_loop P rnd cs vs ss sigma ((vm + vmi) mod order P))"
| "prove_loop P rnd _ _ _ sigma vm = Inr (sigma, vm)"

definition Prove :: "('g1, 'g2, 'gt) pairing_curve \<Rightarrow> 'g1 ProofParams \<Rightarrow> ('g1 \<times> 'g1) cres" where
  "Prove P p =
     (if length (pr_Indices p) \<noteq> length (pr_RandomVs p) \<or> length (pr_Content p) \<noteq> length (pr_Indices p) \<or>
         length (pr_Indices p) = 0 then Inl ErrInvalidChallenge
      else cbind (prove_loop P (pr_RandThisRound p) (pr_Content p) (pr_RandomVs p) (pr_Sigmas p) None 0) (\<lambda>(sigma, vm).
        let mu = g1_mul P (g1Gen P) vm in
        Inr (case sigma of None \<Rightarrow> g1_zero P | Some s \<Rightarrow> s, mu)))"

record ('g1, 'g2) VerifyParams =
  vf_Sigma :: 'g1
  vf_Mu :: 'g1
  vf_RandomV :: int
  vf_RandomU :: int
  vf_Indices :: "int list"
  vf_RandomVs :: "int list"
  vf_Pubkey :: "'g2 PairingPublicKey"

fun verify_loop :: "('g1, 'g2, 'gt) pairing_curve \<Rightarrow> int \<Rightarrow> int list \<Rightarrow> int list \<Rightarrow> 'g1 option \<Rightarrow> 'g1 option cres" where
  "verify_loop P v [] vs vh = Inr vh"
| "verify_loop P v (i # is) vs vh =
     cbind (concatBigInt [v, i] (order P)) (\<lambda>vi.
       case vs of [] \<Rightarrow> Inl Panic
       | x # vs \<Rightarrow> verify_loop P v is vs (add_point P vh (g1_mul P (hashToG1 P vi) x)))"

definition pairing_Verify :: "('g1, 'g2, 'gt) pairing_curve \<Rightarrow> ('g1, 'g2) VerifyParams \<Rightarrow> bool cres" where
  "pairing_Verify P p =
     (let left = Pair P (vf_Sigma p) (g2Gen P) in
      cbind (verify_loop P (vf_RandomV p) (vf_Indices p) (vf_RandomVs p) None) (\<lambda>vh.
        let vh = (case vh of None \<Rightarrow> g1_zero P | Some s \<Rightarrow> s);
            umu = g1_mul P (vf_Mu p) (vf_RandomU p);
            right = Pair P (g1_add P vh umu) (ppk_P (vf_Pubkey p))
        in Inr (left = right)))"

section \<open>The client\<close>

text \<open>
  The same on bytes (\<^verbatim>\<open>crypto/client/service/xchain/xchain_crypto_client.go\<close>). When no proof is made
  the client encodes a nil point, which panics.
\<close>

definition IntListToBytes :: "int list \<Rightarrow> bytes list" where
  "IntListToBytes intList = map Bytes intList"

definition IntListFromBytes :: "bytes list \<Rightarrow> int list" where
  "IntListFromBytes intList = map SetBytes intList"

fun G1sFromBytes :: "('g1, 'g2, 'gt) pairing_curve \<Rightarrow> bytes list \<Rightarrow> 'g1 list cres" where
  "G1sFromBytes P [] = Inr []"
| "G1sFromBytes P (g # gs) = (case G1FromByte P g of None \<Rightarrow> Inl ErrPointBytes
     | Some x \<Rightarrow> cbind (G1sFromBytes P gs) (\<lambda>l. Inr (x # l)))"

definition GenPairingKeyPair :: "('g1, 'g2, 'gt) pairing_curve \<Rightarrow> int \<Rightarrow> bytes \<times> bytes" where
  "GenPairingKeyPair P sk = (case GenKeyPair P sk of (privkey, pubkey) \<Rightarrow> (PrivateKeyToByte privkey, PublicKeyToByte P pubkey))"

definition client_CalculateSigmaI :: "('g1, 'g2, 'gt) pairing_curve \<Rightarrow> bytes \<Rightarrow> bytes \<Rightarrow> bytes \<Rightarrow> bytes \<Rightarrow> bytes \<Rightarrow> int64 \<Rightarrow>
    bytes cres" where
  "client_CalculateSigmaI P content index randomV randomU privkey round =
     cbind (CalculateSigmaI P (CalculateSigmaIParamsFromBytes content index randomV randomU privkey round))
       (\<lambda>sigma. Inr (G1ToByte P sigma))"

definition GenPairingChallenge :: "('g1, 'g2, 'gt) pairing_curve \<Rightarrow> (nat \<Rightarrow> int) \<Rightarrow> int64 list \<Rightarrow> int64 \<Rightarrow> bytes \<Rightarrow>
    bytes list \<times> bytes list \<times> bytes" where
  "GenPairingChallenge P draw indexList round privkey =
     (case GenerateChallenge P draw indexList round (PrivateKeyFromByte privkey) of
        (idx, vs, randNum) \<Rightarrow> (IntListToBytes idx, IntListToBytes vs, randNum))"

definition ProofParamsFromBytes :: "('g1, 'g2, 'gt) pairing_curve \<Rightarrow> bytes list \<Rightarrow> bytes list \<Rightarrow> bytes list \<Rightarrow> bytes list \<Rightarrow>
    bytes \<Rightarrow> 'g1 ProofParams cres" where
  "ProofParamsFromBytes P content indices randVs sigmas rnd =
     cbind (G1sFromBytes P sigmas) (\<lambda>s.
       Inr \<lparr>pr_Content = content, pr_Indices = IntListFromBytes indices, pr_RandomVs = IntListFromBytes randVs,
             pr_Sigmas = s, pr_RandThisRound = rnd\<rparr>)"

definition VerifyParamsFromBytes :: "('g1, 'g2, 'gt) pairing_curve \<Rightarrow> bytes \<Rightarrow> bytes \<Rightarrow> bytes \<Rightarrow> bytes \<Rightarrow> bytes \<Rightarrow> bytes list \<Rightarrow>
    bytes list \<Rightarrow> ('g1, 'g2) VerifyParams cres" where
  "VerifyParamsFromBytes P sigma mu randV randU pubkey indices randVs =
     (case G1FromByte P sigma of None \<Rightarrow> Inl ErrPointBytes | Some s \<Rightarrow>
      case G1FromByte P mu of None \<Rightarrow> Inl ErrPointBytes | Some m \<Rightarrow>
      cbind (PublicKeyFromByte P pubkey) (\<lambda>pub.
        Inr \<lparr>vf_Sigma = s, vf_Mu = m, vf_RandomV = SetBytes randV, vf_RandomU = SetBytes randU,
          vf_Indices = IntListFromBytes indices, vf_RandomVs = IntListFromBytes randVs, vf_Pubkey = pub\<rparr>))"

definition ProvePairingChallenge :: "('g1, 'g2, 'gt) pairing_curve \<Rightarrow> bytes list \<Rightarrow> bytes list \<Rightarrow> bytes list \<Rightarrow> bytes list \<Rightarrow>
    bytes \<Rightarrow> (bytes \<times> bytes) cres" where
  "ProvePairingChallenge P content indices randVs sigmas rnd =
     cbind (ProofParamsFromBytes P content indices randVs sigmas rnd) (\<lambda>param.
       case Prove P param of
         Inl _ \<Rightarrow> Inl Panic
       | Inr (sigma, mu) \<Rightarrow> Inr (G1ToByte P sigma, G1ToByte P mu))"

definition VerifyPairingProof :: "('g1, 'g2, 'gt) pairing_curve \<Rightarrow> bytes \<Rightarrow> bytes \<Rightarrow> bytes \<Rightarrow> bytes \<Rightarrow> bytes \<Rightarrow> bytes list \<Rightarrow>
    bytes list \<Rightarrow> bool cres" where
  "VerifyPairingProof P sigma mu randV randU pubkey indices randVs =
     cbind (VerifyParamsFromBytes P sigma mu randV randU pubkey indices randVs) (\<lambda>param. pairing_Verify P param)"

section \<open>Multiples of the generator\<close>

abbreviation "gen P a \<equiv> g1_mul P (g1Gen P) a"

definition point_of :: "('g1, 'g2, 'gt) pairing_curve \<Rightarrow> 'g1 option \<Rightarrow> 'g1" where
  "point_of P acc = (case acc of None \<Rightarrow> g1_zero P | Some s \<Rightarrow> s)"

definition hash_at :: "('g1, 'g2, 'gt) pairing_curve \<Rightarrow> int \<Rightarrow> int \<Rightarrow> int" where
  "hash_at P v i = (case concatBigInt [v, i] (order P) of Inl _ \<Rightarrow> 0 | Inr vi \<Rightarrow> SetBytes (sha P (Bytes vi)))"

definition hash_sum :: "('g1, 'g2, 'gt) pairing_curve \<Rightarrow> int \<Rightarrow> int list \<Rightarrow> int list \<Rightarrow> int" where
  "hash_sum P v is vs = (\<Sum>(i, x) \<leftarrow> zip is vs. hash_at P v i * x)"

definition block_at :: "('g1, 'g2, 'gt) pairing_curve \<Rightarrow> bytes \<Rightarrow> bytes \<Rightarrow> int" where
  "block_at P rnd c = SetBytes (sha P (c @ rnd))"

lemma SetBytes_Bytes: "0 \<le> n \<Longrightarrow> SetBytes (Bytes n) = n"
proof -
  have "foldl (\<lambda>n b. 256 * n + of_char b) 0 (nat_bytes k) = k" for k
  proof (induction k rule: nat_bytes.induct)
    case (1 k)
    then show ?case by (cases "k = 0") (simp_all add: nat_bytes_pos)
  qed
  then show "0 \<le> n \<Longrightarrow> SetBytes (Bytes n) = n" by (simp add: SetBytes_def Bytes_def)
qed

lemma group_simps:
  assumes "group_laws P"
  shows "g1_add P (g1_zero P) x = x" and "g1_add P x (g1_zero P) = x"
    and "g1_add P (gen P a) (gen P b) = gen P (a + b)" and "g1_mul P (gen P a) b = gen P (a * b)"
    and "g1_add P (g1_add P x y) z = g1_add P x (g1_add P y z)"
  using assms unfolding group_laws_def by metis+

lemma group_comm: "group_laws P \<Longrightarrow> g1_add P x y = g1_add P y x"
  by (simp add: group_laws_def)

lemma group_mul_add: "group_laws P \<Longrightarrow> g1_mul P (g1_add P x y) a = g1_add P (g1_mul P x a) (g1_mul P y a)"
  by (simp add: group_laws_def)

lemma order_pos: "group_laws P \<Longrightarrow> 0 < order P"
  by (simp add: group_laws_def is_prime_def)

lemma gen_order:
  assumes "group_laws P"
  shows "gen P (a + k * order P) = gen P a"
proof -
  have "g1_mul P (gen P k) (order P) = g1_zero P" using assms by (simp add: group_laws_def)
  then have "gen P (k * order P) = g1_zero P" using group_simps(4)[OF assms] by simp
  then show ?thesis using group_simps(2,3)[OF assms] by metis
qed

lemma gen_mod: "group_laws P \<Longrightarrow> gen P (a mod order P) = gen P a"
  using gen_order[of P "a mod order P" "a div order P"] by (simp add: add.commute)

lemma gen_zero: "group_laws P \<Longrightarrow> gen P 0 = g1_zero P"
  using gen_order[of P "- order P" 1] group_simps(4)[of P "-1" "order P"]
  by (simp add: group_laws_def) metis

lemma gen_cong: "group_laws P \<Longrightarrow> a mod order P = b mod order P \<Longrightarrow> gen P a = gen P b"
  using gen_mod by metis

lemma point_of_add: "group_laws P \<Longrightarrow> point_of P (add_point P acc x) = g1_add P (point_of P acc) x"
  by (simp add: point_of_def add_point_def group_simps split: option.split)

lemma dec_val_digits: "\<exists>k. dec_val a (dec_nat n) = Some k"
proof (induction n arbitrary: a rule: dec_nat.induct)
  case (1 n)
  show ?case
  proof (cases "n < 10")
    case False
    with 1 obtain k where "dec_val a (dec_nat (n div 10)) = Some k" by blast
    then show ?thesis using False by (subst dec_nat.simps) (simp add: dec_val_append)
  qed (subst dec_nat.simps, simp)
qed

lemma concat_ok:
  assumes "0 \<le> v" and "0 \<le> i" and "0 < m"
  shows "\<exists>c. concatBigInt [v, i] m = Inr c"
proof -
  obtain k where "dec_val (nat (v mod m)) (dec_nat (nat i)) = Some k" using dec_val_digits by blast
  moreover have "\<not> v mod m < 0" using assms(3) by (simp add: not_less)
  moreover have "dec_nat 0 = [digit 0]" by (simp add: dec_nat.simps)
  ultimately show ?thesis
    using assms by (simp add: concatBigInt_def dec_int_def dec_val_append dec_val_dec_nat)
qed

lemma verify_loop_ok:
  assumes "group_laws P" and "0 \<le> v" and "\<forall>i \<in> set is. 0 \<le> i" and "length is \<le> length vs"
  shows "\<exists>vh'. verify_loop P v is vs vh = Inr vh' \<and> point_of P vh' = g1_add P (point_of P vh) (gen P (hash_sum P v is vs))"
  using assms(3,4)
proof (induction "is" arbitrary: vs vh)
  case Nil
  then show ?case by (simp add: hash_sum_def gen_zero[OF assms(1)] group_simps[OF assms(1)])
next
  case (Cons i "is")
  then obtain x r where vs: "vs = x # r" by (cases vs) auto
  obtain c where c: "concatBigInt [v, i] (order P) = Inr c" 
    using concat_ok[OF assms(2) _ order_pos[OF assms(1)], of i] Cons.prems(1) by auto
  let ?vh = "add_point P vh (g1_mul P (hashToG1 P c) x)"
  from Cons.IH[of r ?vh] Cons.prems vs obtain vh' where
    "verify_loop P v is r ?vh = Inr vh'" "point_of P vh' = g1_add P (point_of P ?vh) (gen P (hash_sum P v is r))" by auto
  then show ?case
    by (simp add: vs c point_of_add[OF assms(1)] hashToG1_def group_simps[OF assms(1)] hash_sum_def hash_at_def)
qed

lemma prove_loop_ok:
  assumes "group_laws P" and "length cs = length vs" and "length ss = length vs"
  shows "\<exists>sigma' vm'. prove_loop P rnd cs vs (map (gen P) ss) sigma vm = Inr (sigma', vm') \<and>
    point_of P sigma' = g1_add P (point_of P sigma) (gen P (\<Sum>(s, v) \<leftarrow> zip ss vs. s * v)) \<and>
    vm' mod order P = (vm + (\<Sum>(c, v) \<leftarrow> zip cs vs. v * block_at P rnd c)) mod order P"
  using assms(2,3)
proof (induction vs arbitrary: cs ss sigma vm)
  case Nil
  then show ?case by (simp add: gen_zero[OF assms(1)] group_simps[OF assms(1)])
next
  case (Cons v vs)
  then obtain c cs' s ss' where e: "cs = c # cs'" "ss = s # ss'" "length cs' = length vs" "length ss' = length vs"
    by (cases cs; cases ss) auto
  let ?sigma = "add_point P sigma (g1_mul P (gen P s) v)"
  let ?vm = "(vm + (v * (SetBytes (sha P (c @ rnd)) mod order P)) mod order P) mod order P"
  from Cons.IH[OF e(3,4), of ?sigma ?vm] obtain sigma' vm' where
    "prove_loop P rnd cs' vs (map (gen P) ss') ?sigma ?vm = Inr (sigma', vm')"
    "point_of P sigma' = g1_add P (point_of P ?sigma) (gen P (\<Sum>(s, v) \<leftarrow> zip ss' vs. s * v))"
    "vm' mod order P = (?vm + (\<Sum>(c, v) \<leftarrow> zip cs' vs. v * block_at P rnd c)) mod order P" by blast
  note r = this
  have "prove_loop P rnd cs (v # vs) (map (gen P) ss) sigma vm = Inr (sigma', vm')"
    using r(1) by (simp only: e list.map prove_loop.simps Let_def)
  moreover have "vm' mod order P = (vm + (\<Sum>(c, v) \<leftarrow> zip cs (v # vs). v * block_at P rnd c)) mod order P"
    using r(3) by (simp add: e block_at_def mod_simps add.assoc)
  moreover have "point_of P sigma' = g1_add P (point_of P sigma) (gen P (\<Sum>(s, v) \<leftarrow> zip ss (v # vs). s * v))"
    using r(2) by (simp add: e point_of_add[OF assms(1)] group_simps[OF assms(1)])
  ultimately show ?case by blast
qed

section \<open>Honest proofs\<close>

lemma sigma_value:
  assumes "group_laws P" and "0 \<le> sk" and "0 \<le> i"
  shows "client_CalculateSigmaI P c (Bytes i) randV randU (Bytes sk) round =
    Inr (G1ToByte P (gen P (sk * (hash_at P (SetBytes randV) i + SetBytes randU * block_at P (genRandNumByRound P round sk) c))))"
proof -
  obtain vi where "concatBigInt [SetBytes randV, i] (order P) = Inr vi"
    using concat_ok[OF _ assms(3) order_pos[OF assms(1)]] by fastforce
  then show ?thesis
    using assms(2,3) by (simp add: client_CalculateSigmaI_def CalculateSigmaI_def CalculateSigmaIParamsFromBytes_def
        PrivateKeyFromByte_def SetBytes_Bytes hash_at_def block_at_def hashToG1_def group_simps[OF assms(1)] Let_def algebra_simps)
qed

lemma G1sFromBytes_map: "point_codes P \<Longrightarrow> G1sFromBytes P (map (G1ToByte P) xs) = Inr xs"
  by (induction xs) (simp_all add: point_codes_def)

lemma proof_exponents:
  assumes "length cs = length is" and "length vs = length is"
  shows "(\<Sum>(s, v) \<leftarrow> zip (map2 (\<lambda>c i. sk * (h i + u * m c)) cs is) vs. s * v) =
    sk * ((\<Sum>(i, x) \<leftarrow> zip is vs. h i * x) + u * (\<Sum>(c, v) \<leftarrow> zip cs vs. v * m c) :: int)"
  using assms
proof (induction "is" arbitrary: cs vs)
  case (Cons i "is")
  then obtain c cs' v vs' where "cs = c # cs'" "vs = v # vs'" "length cs' = length is" "length vs' = length is"
    by (cases cs; cases vs) auto
  with Cons.IH[of cs' vs'] show ?case by (simp add: algebra_simps)
qed simp

lemma Prove_value:
  assumes "group_laws P" and "length cs = length is" and "length vs = length is" and "is \<noteq> []"
    and "ss = map2 (\<lambda>c i. sk * (hash_at P v i + u * block_at P rnd c)) cs is"
  shows "\<exists>vm. Prove P \<lparr>pr_Content = cs, pr_Indices = is, pr_RandomVs = vs, pr_Sigmas = map (gen P) ss, pr_RandThisRound = rnd\<rparr> =
      Inr (gen P (sk * (hash_sum P v is vs + u * vm)), gen P vm)"
proof -
  have l: "length cs = length vs" "length ss = length vs" using assms(2,3,5) by simp_all
  obtain sigma vm where p: "prove_loop P rnd cs vs (map (gen P) ss) None 0 = Inr (sigma, vm)"
    "point_of P sigma = gen P (\<Sum>(s, v) \<leftarrow> zip ss vs. s * v)"
    "vm mod order P = (\<Sum>(c, v) \<leftarrow> zip cs vs. v * block_at P rnd c) mod order P"
    using prove_loop_ok[OF assms(1) l, of rnd None 0] by (auto simp: point_of_def group_simps(1)[OF assms(1)])
  let ?m = "\<Sum>(c, v) \<leftarrow> zip cs vs. v * block_at P rnd c"
  have "point_of P sigma = gen P (sk * (hash_sum P v is vs + u * ?m))"
    using p(2) proof_exponents[OF assms(2,3)] by (simp add: assms(5) hash_sum_def)
  also have "\<dots> = gen P (sk * (hash_sum P v is vs + u * vm))"
    by (rule gen_cong[OF assms(1)]) (use p(3) in \<open>metis mod_add_right_eq mod_mult_right_eq\<close>)
  finally show ?thesis
    using p(1) assms(2-4) by (auto simp: Prove_def point_of_def Let_def intro!: exI[of _ vm])
qed

lemma Verify_value:
  assumes "pairing_laws P" and "0 \<le> v" and "\<forall>i \<in> set is. 0 \<le> i" and "length is \<le> length vs"
  shows "pairing_Verify P \<lparr>vf_Sigma = s, vf_Mu = m, vf_RandomV = v, vf_RandomU = u, vf_Indices = is, vf_RandomVs = vs,
      vf_Pubkey = \<lparr>ppk_P = q\<rparr>\<rparr> =
    Inr (Pair P s (g2Gen P) = Pair P (g1_add P (gen P (hash_sum P v is vs)) (g1_mul P m u)) q)"
proof -
  have g: "group_laws P" using assms(1) by (simp add: pairing_laws_def)
  from verify_loop_ok[OF g assms(2-4), of None] obtain vh where
    "verify_loop P v is vs None = Inr vh" "point_of P vh = gen P (hash_sum P v is vs)"
    by (auto simp: point_of_def group_simps(1)[OF g])
  then show ?thesis by (simp add: pairing_Verify_def Let_def point_of_def)
qed

lemma honest_proof:
  assumes "pairing_laws P" and "point_codes P" and "0 \<le> sk" and "GenPairingKeyPair P sk = (priv, pub)"
    and "\<And>k. 0 \<le> draw k" and "GenPairingChallenge P draw idxs round priv = (is, vs, rnd)"
    and "idxs \<noteq> []" and "\<forall>i \<in> set idxs. 0 \<le> sint i" and "length cs = length idxs"
    and "list_all2 (\<lambda>(c, i) s. client_CalculateSigmaI P c (Bytes (sint i)) randV randU priv round = Inr s) (zip cs idxs) sigmas"
  shows "\<exists>sigma mu. ProvePairingChallenge P cs is vs sigmas rnd = Inr (sigma, mu) \<and>
    VerifyPairingProof P sigma mu randV randU pub is vs = Inr True"
proof -
  have g: "group_laws P" using assms(1) by (simp add: pairing_laws_def)
  let ?js = "map sint idxs" and ?v = "SetBytes randV" and ?u = "SetBytes randU" and ?xs = "map draw [0 ..< length idxs]"
  have k: "priv = Bytes sk" "pub = G2ToByte P (g2_mul P (g2Gen P) sk)"
    using assms(4) by (simp_all add: GenPairingKeyPair_def GenKeyPair_def PrivateKeyToByte_def PublicKeyToByte_def)
  have ch: "is = map Bytes ?js" "vs = map Bytes ?xs" "rnd = genRandNumByRound P round sk"
    using assms(3,6) by (auto simp: GenPairingChallenge_def GenerateChallenge_def PrivateKeyFromByte_def IntListToBytes_def k SetBytes_Bytes)
  have js: "IntListFromBytes is = ?js" and xs: "IntListFromBytes vs = ?xs"
    using assms(5,8) by (simp_all add: ch IntListFromBytes_def SetBytes_Bytes o_def map_idI)
  define ss where "ss = map2 (\<lambda>c i. sk * (hash_at P ?v i + ?u * block_at P rnd c)) cs ?js"
  have "sigmas = map (G1ToByte P) (map (gen P) ss)"
  proof (rule nth_equalityI)
    show l: "length sigmas = length (map (G1ToByte P) (map (gen P) ss))"
      using list_all2_lengthD[OF assms(10)] assms(9) by (simp add: ss_def)
    fix n
    assume n: "n < length sigmas"
    then have m: "n < length cs" "n < length idxs" using list_all2_lengthD[OF assms(10)] assms(9) by simp_all
    have "client_CalculateSigmaI P (cs ! n) (Bytes (sint (idxs ! n))) randV randU priv round = Inr (sigmas ! n)"
      using list_all2_nthD2[OF assms(10) n] m by simp
    moreover have "0 \<le> sint (idxs ! n)" using assms(8) m(2) by simp
    ultimately show "sigmas ! n = map (G1ToByte P) (map (gen P) ss) ! n"
      using sigma_value[OF g assms(3), of "sint (idxs ! n)" "cs ! n" randV randU round] m by (simp add: k ch ss_def)
  qed
  moreover from Prove_value[OF g, of cs ?js ?xs ss sk ?v ?u rnd] assms(7,9) obtain vm where
    "Prove P \<lparr>pr_Content = cs, pr_Indices = ?js, pr_RandomVs = ?xs, pr_Sigmas = map (gen P) ss, pr_RandThisRound = rnd\<rparr> =
      Inr (gen P (sk * (hash_sum P ?v ?js ?xs + ?u * vm)), gen P vm)" by (auto simp: ss_def)
  ultimately have "ProvePairingChallenge P cs is vs sigmas rnd =
      Inr (G1ToByte P (gen P (sk * (hash_sum P ?v ?js ?xs + ?u * vm))), G1ToByte P (gen P vm))"
    by (simp add: ProvePairingChallenge_def ProofParamsFromBytes_def js xs G1sFromBytes_map[OF assms(2), of "map (gen P) ss", simplified])
  moreover have "Pair P (gen P (sk * (hash_sum P ?v ?js ?xs + ?u * vm))) (g2Gen P) =
      Pair P (g1_add P (gen P (hash_sum P ?v ?js ?xs)) (g1_mul P (gen P vm) ?u)) (g2_mul P (g2Gen P) sk)"
  proof -
    have e: "gen P (sk * (hash_sum P ?v ?js ?xs + ?u * vm)) = g1_mul P (gen P (hash_sum P ?v ?js ?xs + vm * ?u)) sk"
      by (simp add: group_simps[OF g] algebra_simps)
    have bil: "Pair P (g1_mul P x sk) (g2Gen P) = Pair P x (g2_mul P (g2Gen P) sk)" for x
      using assms(1) by (simp add: pairing_laws_def)
    show ?thesis unfolding e unfolding bil unfolding group_simps(4,3)[OF g] ..
  qed
  ultimately show ?thesis
    using assms(2,8) Verify_value[OF assms(1) SetBytes_nonneg, of ?js ?xs]
    by (auto simp: VerifyPairingProof_def VerifyParamsFromBytes_def point_codes_def PublicKeyFromByte_def k(2) js xs)
qed

text \<open>
  C23: An honest proof of possession is accepted. Whatever blocks are challenged, in whatever round and
  with whatever numbers, when the node still has the blocks and the points that the owner calculated
  for that round, it makes a proof, and the verifier accepts it.
\<close>

theorem pairing_proof_accepted:
  assumes "pairing_laws P" and "point_codes P" and "0 \<le> sk" and "GenPairingKeyPair P sk = (priv, pub)"
    and "\<And>k. 0 \<le> draw k" and "GenPairingChallenge P draw idxs round priv = (is, vs, rnd)"
    and "idxs \<noteq> []" and "\<forall>i \<in> set idxs. 0 \<le> sint i" and "length cs = length idxs"
    and "list_all2 (\<lambda>(c, i) s. client_CalculateSigmaI P c (Bytes (sint i)) randV randU priv round = Inr s) (zip cs idxs) sigmas"
  shows "\<exists>sigma mu. ProvePairingChallenge P cs is vs sigmas rnd = Inr (sigma, mu) \<and>
    VerifyPairingProof P sigma mu randV randU pub is vs = Inr True"
  using assms by (rule honest_proof)

section \<open>Proofs made of other proofs\<close>

text \<open>
  The new second point is made of the old one and of numbers that are public: the two random numbers
  of the file and the two challenges.
\<close>

definition reuse_mu :: "('g1, 'g2, 'gt) pairing_curve \<Rightarrow> bytes \<Rightarrow> bytes \<Rightarrow> bytes \<Rightarrow> bytes list \<Rightarrow> bytes list \<Rightarrow> bytes list \<Rightarrow>
    bytes list \<Rightarrow> bytes" where
  "reuse_mu P mu randV randU is vs is' vs' =
     (let h = (\<lambda>is vs. hash_sum P (SetBytes randV) (IntListFromBytes is) (IntListFromBytes vs));
          k = (case ModInverse (SetBytes randU) (order P) of None \<Rightarrow> 0 | Some k \<Rightarrow> k) in
      case G1FromByte P mu of None \<Rightarrow> []
      | Some m \<Rightarrow> G1ToByte P (g1_add P m (gen P (k * (h is vs - h is' vs')))))"

text \<open>
  C24: One accepted proof answers every challenge. From a proof that was accepted for a file, anyone
  makes a proof for any other challenge of that file, in any round, with the numbers that are on the
  ledger and without a block, a point or a key, and the verifier accepts it.
\<close>

theorem pairing_proof_reused:
  assumes "pairing_laws P" and "point_codes P" and "\<not> order P dvd SetBytes randU"
    and "VerifyPairingProof P sigma mu randV randU pub is vs = Inr True" and "length is \<le> length vs"
    and "length is' \<le> length vs'"
  shows "VerifyPairingProof P sigma (reuse_mu P mu randV randU is vs is' vs') randV randU pub is' vs' = Inr True"
proof -
  have g: "group_laws P" using assms(1) by (simp add: pairing_laws_def)
  let ?u = "SetBytes randU" and ?v = "SetBytes randV"
  let ?h = "\<lambda>is vs. hash_sum P ?v (IntListFromBytes is) (IntListFromBytes vs)"
  have nn: "\<forall>i \<in> set (IntListFromBytes js). 0 \<le> i" for js by (auto simp: IntListFromBytes_def)
  have len: "length is \<le> length vs \<Longrightarrow> length (IntListFromBytes is) \<le> length (IntListFromBytes vs)" for "is" vs
    by (simp add: IntListFromBytes_def)
  obtain s m q where d: "G1FromByte P sigma = Some s" "G1FromByte P mu = Some m" "G2FromByte P pub = Some q"
    using assms(4) by (auto simp: VerifyPairingProof_def VerifyParamsFromBytes_def PublicKeyFromByte_def split: option.splits)
  note V = Verify_value[OF assms(1) SetBytes_nonneg nn len]
  have e: "Pair P s (g2Gen P) = Pair P (g1_add P (gen P (?h is vs)) (g1_mul P m ?u)) q"
    using assms(4) V[OF assms(5)] by (simp add: VerifyPairingProof_def VerifyParamsFromBytes_def PublicKeyFromByte_def d)
  have "coprime ?u (order P)" using g assms(3) by (intro prime_coprime) (simp_all add: group_laws_def)
  from ModInverse_Some[OF order_pos[OF g] this] obtain k where
    k: "ModInverse ?u (order P) = Some k" "(?u * k) mod order P = 1 mod order P" .
  let ?m = "g1_add P m (gen P (k * (?h is vs - ?h is' vs')))"
  define d1 where "d1 = ?h is vs - ?h is' vs'"
  have "g1_mul P ?m ?u = g1_add P (g1_mul P m ?u) (gen P (k * d1 * ?u))"
    unfolding group_mul_add[OF g] group_simps(4)[OF g] d1_def ..
  also have "gen P (k * d1 * ?u) = gen P d1"
  proof (rule gen_cong[OF g])
    have "(k * d1 * ?u) mod order P = ((?u * k) mod order P * d1) mod order P" by (simp add: mod_simps ac_simps)
    then show "(k * d1 * ?u) mod order P = d1 mod order P" by (simp add: k(2) mod_simps)
  qed
  finally have "g1_add P (gen P (?h is' vs')) (g1_mul P ?m ?u) =
      g1_add P (g1_add P (gen P (?h is' vs')) (gen P d1)) (g1_mul P m ?u)"
    using group_comm[OF g, of "g1_mul P m ?u" "gen P d1"] by (simp only: group_simps(5)[OF g])
  also have "g1_add P (gen P (?h is' vs')) (gen P d1) = gen P (?h is vs)"
    unfolding group_simps(3)[OF g] by (simp add: d1_def)
  finally have "g1_add P (gen P (?h is' vs')) (g1_mul P ?m ?u) = g1_add P (gen P (?h is vs)) (g1_mul P m ?u)" .
  with e V[OF assms(6)] show ?thesis
    using assms(2) by (simp add: VerifyPairingProof_def VerifyParamsFromBytes_def PublicKeyFromByte_def d reuse_mu_def k(1) point_codes_def)
qed

section \<open>Witnesses\<close>

text \<open>The group of two elements.\<close>

definition demo_pairing :: "(bool, bool, bool) pairing_curve" where
  "demo_pairing = \<lparr>order = 2, g1Gen = True, g2Gen = True, g1_zero = False, g1_add = (\<lambda>x y. x \<noteq> y),
     g1_mul = (\<lambda>x a. x \<and> odd a), g2_mul = (\<lambda>x a. x \<and> odd a), Pair = (\<lambda>x y. x \<and> y),
     g1_xy = (\<lambda>x. if x then ''1'' else ''0''), G1ToByte = (\<lambda>x. if x then ''1'' else ''0''),
     G1FromByte = (\<lambda>b. if b = ''1'' then Some True else if b = ''0'' then Some False else None),
     G2ToByte = (\<lambda>x. if x then ''1'' else ''0''),
     G2FromByte = (\<lambda>b. if b = ''1'' then Some True else if b = ''0'' then Some False else None), sha = (\<lambda>b. b)\<rparr>"

lemma demo_pairing_laws: "pairing_laws demo_pairing"
  by (auto simp: pairing_laws_def group_laws_def demo_pairing_def is_prime_def)

lemma demo_point_codes: "point_codes demo_pairing"
  by (simp add: point_codes_def demo_pairing_def)

lemma pairing_proof_accepted_witness:
  "\<exists>s sigma mu. ProvePairingChallenge demo_pairing [''block''] (fst (GenPairingChallenge demo_pairing (\<lambda>_. 1) [1] 7 (Bytes 1)))
      (fst (snd (GenPairingChallenge demo_pairing (\<lambda>_. 1) [1] 7 (Bytes 1)))) [s]
      (snd (snd (GenPairingChallenge demo_pairing (\<lambda>_. 1) [1] 7 (Bytes 1)))) = Inr (sigma, mu) \<and>
    VerifyPairingProof demo_pairing sigma mu ''v'' ''u'' (snd (GenPairingKeyPair demo_pairing 1))
      (fst (GenPairingChallenge demo_pairing (\<lambda>_. 1) [1] 7 (Bytes 1)))
      (fst (snd (GenPairingChallenge demo_pairing (\<lambda>_. 1) [1] 7 (Bytes 1)))) = Inr True"
proof -
  have k: "GenPairingKeyPair demo_pairing 1 = (Bytes 1, snd (GenPairingKeyPair demo_pairing 1))"
    by (simp add: GenPairingKeyPair_def GenKeyPair_def PrivateKeyToByte_def)
  obtain "is" vs rnd where c: "GenPairingChallenge demo_pairing (\<lambda>_. 1) [1] 7 (Bytes 1) = (is, vs, rnd)"
    by (metis prod_cases3)
  obtain s where s: "client_CalculateSigmaI demo_pairing ''block'' (Bytes (sint (1 :: int64))) ''v'' ''u'' (Bytes 1) 7 = Inr s"
    using sigma_value[of demo_pairing 1 "sint (1 :: int64)" "''block''" "''v''" "''u''" 7] demo_pairing_laws
    by (simp add: pairing_laws_def)
  have a: "list_all2 (\<lambda>(c, i) s. client_CalculateSigmaI demo_pairing c (Bytes (sint i)) ''v'' ''u'' (Bytes 1) 7 = Inr s)
      (zip [''block''] [1 :: int64]) [s]" using s by simp
  have n: "(0 :: int) \<le> 1" "[1 :: int64] \<noteq> []" "\<forall>i \<in> set [1 :: int64]. 0 \<le> sint i" "length [''block''] = length [1 :: int64]" by simp_all
  from pairing_proof_accepted[OF demo_pairing_laws demo_point_codes n(1) k n(1) c n(2-4) a] show ?thesis
    unfolding c fst_conv snd_conv by blast
qed

lemma pairing_proof_reused_witness:
  "VerifyPairingProof demo_pairing ''1'' (reuse_mu demo_pairing ''0'' ''v'' ''u'' [''A''] [''A''] [''B'', ''C''] [''A'', ''B''])
     ''v'' ''u'' ''1'' [''B'', ''C''] [''A'', ''B''] = Inr True"
proof -
  have u: "\<not> order demo_pairing dvd SetBytes ''u''" by (simp add: demo_pairing_def SetBytes_def)
  have v: "VerifyPairingProof demo_pairing ''1'' ''0'' ''v'' ''u'' ''1'' [''A''] [''A''] = Inr True" by code_simp
  show ?thesis by (rule pairing_proof_reused[OF demo_pairing_laws demo_point_codes u v]) simp_all
qed

end
