(* ===== verification/EngChallenge.thy ===== *)
theory EngChallenge
  imports EngMaterial PairingProof
begin

text \<open>
  The life of a storage challenge between the data owner, the ledger and the storage node:
  publishing (\<^verbatim>\<open>xdb/engine/monitor/challenging/request.go\<close>), answering (\<^verbatim>\<open>answer.go\<close>),
  drawing what a pairing challenge asks for (\<^verbatim>\<open>xdb/engine/challenger/pairing/random.go\<close>), and the
  material of pairing challenges (\<^verbatim>\<open>xdb/engine/common/challenge.go\<close>). Numbers drawn, times and
  identifiers are arguments; logging and the timers of the loops are left out.
\<close>

section \<open>The client of the chain\<close>

text \<open>Methods of \<^verbatim>\<open>xdb/blockchain/xchain/challenging.go\<close> and \<^verbatim>\<open>files.go\<close>.\<close>

definition xchain_ChallengeRequest :: "'l chain_ops \<Rightarrow> env \<Rightarrow> ChallengeRequestOptions \<Rightarrow> 'l \<Rightarrow> unit result \<times> 'l" where
  "xchain_ChallengeRequest C E opt l =
     (case InvokeContract (ChallengeRequest C E (Got opt)) l of (r, l') \<Rightarrow> (rbind r (\<lambda>_. Inr ()), l'))"

definition xchain_ChallengeAnswer :: "'l chain_ops \<Rightarrow> env \<Rightarrow> ChallengeAnswerOptions \<Rightarrow> 'l \<Rightarrow> string result \<times> 'l" where
  "xchain_ChallengeAnswer C E opt l = InvokeContract (ChallengeAnswer C E (Got opt)) l"

definition xchain_ListChallengeRequests :: "'l chain_ops \<Rightarrow> env \<Rightarrow> ListChallengeOptions \<Rightarrow> 'l \<Rightarrow> Challenge list result" where
  "xchain_ListChallengeRequests C E opt l = fst (ListChallengeRequests C E (Got opt) l)"

definition xchain_GetChallengeByID :: "'l chain_ops \<Rightarrow> env \<Rightarrow> string \<Rightarrow> 'l \<Rightarrow> Challenge result" where
  "xchain_GetChallengeByID C E i l = QueryContract E dec_Challenge (GetChallengeByID C (Some i)) l"

text \<open>The number is parsed as one of 64 bits.\<close>

definition ParseUint :: "string \<Rightarrow> 64 word option" where
  "ParseUint s = (if s = [] then None else case dec_val 0 s of None \<Rightarrow> None
     | Some n \<Rightarrow> if n < 2 ^ 64 then Some (of_nat n) else None)"

definition xchain_GetChallengeNum :: "'l chain_ops \<Rightarrow> env \<Rightarrow> GetChallengeNumOptions \<Rightarrow> 'l \<Rightarrow> 64 word result" where
  "xchain_GetChallengeNum C E opt l =
     rbind (fst (GetChallengeNum C E (Got opt) l)) (\<lambda>s.
       case ParseUint s of None \<Rightarrow> Inl (Errx ErrCodeInternal) | Some n \<Rightarrow> Inr n)"

definition xchain_ListFiles :: "'l chain_ops \<Rightarrow> env \<Rightarrow> ListFileOptions \<Rightarrow> 'l \<Rightarrow> File list result" where
  "xchain_ListFiles C E opt l = fst (ListFiles C E (Got opt) l)"

definition xchain_ListFileNs :: "'l chain_ops \<Rightarrow> env \<Rightarrow> ListNsOptions \<Rightarrow> 'l \<Rightarrow> Namespace list result" where
  "xchain_ListFileNs C E opt l = fst (ListFileNs C E (Got opt) l)"

section \<open>Requests\<close>

text \<open>The owner of the files: its engine, its signatures, and what one request draws and reads from the clock.\<close>

record request_run =
  rr_file :: nat
  rr_slice :: nat
  rr_time :: int64
  rr_uuid :: string

definition zero_request :: ChallengeRequestOptions where
  "zero_request = \<lparr>cro_ChallengeID = [], cro_FileOwner = [], cro_TargetNode = [], cro_FileID = [], cro_SliceIDs = [],
     cro_SliceStorIndexes = [], cro_ChallengeTime = 0, cro_ChallengeAlgorithm = [], cro_Indices = [], cro_Vs = [],
     cro_Round = 0, cro_RandThisRound = [], cro_SliceID = [], cro_SliceStorIndex = [], cro_Ranges = [],
     cro_HashOfProof = [], cro_Signature = []\<rparr>"

text \<open>Signing and publishing a request.\<close>

definition sign_request :: "'l chain_ops \<Rightarrow> engine \<Rightarrow> (bytes \<Rightarrow> bytes) \<Rightarrow> ChallengeRequestOptions \<Rightarrow> 'l \<Rightarrow> unit result \<times> 'l" where
  "sign_request C en sign requestOpt l =
     (case GetSigMessage (enc_ChallengeRequestOptions requestOpt) of None \<Rightarrow> (Inl (Errx ErrCodeInternal), l)
      | Some msg \<Rightarrow> xchain_ChallengeRequest C (en_E en) (requestOpt\<lparr>cro_Signature := sign (sha256 (en_E en) msg)\<rparr>) l)"

text \<open>A remainder by the length of an empty list panics.\<close>

definition pick_rand :: "nat \<Rightarrow> 'a list \<Rightarrow> 'a result" where
  "pick_rand r xs = (if xs = [] then Inl Panicked else Inr (xs ! (r mod length xs)))"

lemma pick_rand_ok: "pick_rand r xs = Inr x \<longleftrightarrow> xs \<noteq> [] \<and> x = xs ! (r mod length xs)"
  by (auto simp: pick_rand_def)

definition doMerkleChallengeRequest :: "'l chain_ops \<Rightarrow> engine \<Rightarrow> (bytes \<Rightarrow> bytes) \<Rightarrow> 'd leveldb \<Rightarrow> request_run \<Rightarrow> string \<Rightarrow>
    File list \<Rightarrow> 'd \<Rightarrow> 'l \<Rightarrow> unit result \<times> 'd \<times> 'l" where
  "doMerkleChallengeRequest C en sign D run challengeAlgorithm files d l =
     (case rbind (pick_rand (rr_file run) files) (\<lambda>f. rbind (pick_rand (rr_slice run) (f_Slices f)) (\<lambda>s. Inr (f, s))) of
        Inl e \<Rightarrow> (Inl e, d, l)
      | Inr (fileSelected, sliceSelected) \<Rightarrow>
          (case Take D (en_E en) (f_ID fileSelected) (sm_ID sliceSelected) (sm_NodeID sliceSelected) d of
             (Inl e, d) \<Rightarrow> (Inl e, d, l)
           | (Inr rangeSelected, d) \<Rightarrow>
               let timestamp = rr_time run;
                   proof' = Calculate (en_E en) (Some (rh_Hash rangeSelected)) timestamp;
                   hashOfProof = sha256 (en_E en) proof';
                   branges = map (\<lambda>v. \<lparr>rg_Start = mr_Start v, rg_End = mr_End v\<rparr>) (rh_Ranges rangeSelected);
                   requestOpt = zero_request\<lparr>cro_ChallengeID := rr_uuid run, cro_FileOwner := en_pubkey en,
                     cro_TargetNode := sm_NodeID sliceSelected, cro_FileID := f_ID fileSelected,
                     cro_SliceID := sm_ID sliceSelected, cro_SliceStorIndex := sm_StorIndex sliceSelected,
                     cro_Ranges := branges, cro_ChallengeTime := timestamp, cro_HashOfProof := hashOfProof,
                     cro_ChallengeAlgorithm := challengeAlgorithm\<rparr>
               in (case sign_request C en sign requestOpt l of (r, l) \<Rightarrow> (r, d, l))))"

section \<open>Pairing challenges\<close>

text \<open>
  The integer part of the square root, which is what the rounded root gives for every number of slices.
\<close>

fun isqrt :: "nat \<Rightarrow> nat" where
  "isqrt 0 = 0"
| "isqrt (Suc n) = (let r = isqrt n in if (r + 1) ^ 2 \<le> Suc n then r + 1 else r)"

text \<open>
  As many different positions of the list as are asked for; positions are drawn below its length.
  There is no result when the draws are used up.
\<close>

fun draw_indexes :: "int64 list \<Rightarrow> nat \<Rightarrow> nat list \<Rightarrow> nat list \<Rightarrow> int64 list option" where
  "draw_indexes sliceIdxList 0 draws selected = Some []"
| "draw_indexes sliceIdxList (Suc n) [] selected = None"
| "draw_indexes sliceIdxList (Suc n) (r # draws) selected =
     (let idx = r mod length sliceIdxList in
      if idx \<in> set selected then draw_indexes sliceIdxList (Suc n) draws selected
      else map_option (\<lambda>l. sliceIdxList ! idx # l) (draw_indexes sliceIdxList n draws (idx # selected)))"

definition GetPairingChallengeRound :: "int64 \<Rightarrow> int64 \<Rightarrow> int64" where
  "GetPairingChallengeRound now interval = word_of_int (sint now sdiv sint interval)"

definition pairing_GenerateChallenge :: "('g1, 'g2, 'gt) pairing_curve \<Rightarrow> nat \<Rightarrow> PairingChallengeConf \<Rightarrow> nat list \<Rightarrow> (nat \<Rightarrow> int) \<Rightarrow>
    int64 \<Rightarrow> int64 list \<Rightarrow> int64 \<Rightarrow> (bytes list \<times> bytes list \<times> int64 \<times> bytes) option" where
  "pairing_GenerateChallenge P maxIndexNum conf draws vdraw now sliceIdxList interval =
     (let idxNum = length sliceIdxList;
          selectNum = isqrt (idxNum - 1) + 1;
          selectNum = (if maxIndexNum < selectNum then maxIndexNum else selectNum)
      in map_option (\<lambda>selectedIdx.
           let round = GetPairingChallengeRound now interval in
           (case GenPairingChallenge P vdraw selectedIdx round (pc_Privkey conf) of
              (indices, vs, randNum) \<Rightarrow> (indices, vs, round, randNum)))
         (draw_indexes sliceIdxList selectNum draws []))"

definition zero_meta :: PublicSliceMeta where
  "zero_meta = \<lparr>sm_ID = [], sm_CipherHash = [], sm_Length = 0, sm_NodeID = [], sm_StorIndex = [], sm_SliceIdx = 0\<rparr>"

text \<open>The slices of the node by their numbers; a later one replaces an earlier one.\<close>

definition slice_numbered :: "PublicSliceMeta list \<Rightarrow> int64 \<Rightarrow> PublicSliceMeta" where
  "slice_numbered slices i = (case map_of (rev (map (\<lambda>s. (sm_SliceIdx s, s)) slices)) i of None \<Rightarrow> zero_meta | Some s \<Rightarrow> s)"

definition doPairingChallengeRequest :: "('g1, 'g2, 'gt) pairing_curve \<Rightarrow> nat \<Rightarrow> PairingChallengeConf \<Rightarrow> 'l chain_ops \<Rightarrow> engine \<Rightarrow>
    (bytes \<Rightarrow> bytes) \<Rightarrow> request_run \<Rightarrow> nat list \<Rightarrow> (nat \<Rightarrow> int) \<Rightarrow> int64 \<Rightarrow> string \<Rightarrow> File list \<Rightarrow> 'l \<Rightarrow>
    (unit result \<times> 'l) option" where
  "doPairingChallengeRequest P maxIndexNum conf C en sign run draws vdraw interval challengeAlgorithm files l =
     (case rbind (pick_rand (rr_file run) files) (\<lambda>f. rbind (pick_rand (rr_slice run) (f_Slices f)) (\<lambda>s. Inr (f, s))) of
        Inl e \<Rightarrow> Some (Inl e, l)
      | Inr (fileSelected, sliceSelected) \<Rightarrow>
          let nodeSelected = sm_NodeID sliceSelected;
              slices = filter (\<lambda>s. sm_NodeID s = nodeSelected) (f_Slices fileSelected)
          in map_option (\<lambda>(indices, vs, round, randNum).
               let chosen = map (\<lambda>idx. slice_numbered slices (word_of_int (SetBytes idx))) indices;
                   requestOpt = zero_request\<lparr>cro_ChallengeID := rr_uuid run, cro_FileOwner := en_pubkey en,
                     cro_TargetNode := sm_NodeID sliceSelected, cro_FileID := f_ID fileSelected,
                     cro_SliceIDs := map sm_ID chosen, cro_SliceStorIndexes := map sm_StorIndex chosen,
                     cro_ChallengeTime := rr_time run, cro_Indices := indices, cro_Vs := vs, cro_Round := round,
                     cro_RandThisRound := randNum, cro_ChallengeAlgorithm := challengeAlgorithm\<rparr>
               in if chosen = [] then (Inl (Errx ErrCodeInternal), l) else sign_request C en sign requestOpt l)
             (pairing_GenerateChallenge P maxIndexNum conf draws vdraw (rr_time run) (map sm_SliceIdx slices) interval))"

section \<open>Answers\<close>

text \<open>
  The proof of a Merkle challenge: the digests of the parts of the slice that the node has, and the
  time of the challenge.
\<close>

definition enc_AnswerCalculateOptions :: "bytes list \<Rightarrow> int64 \<Rightarrow> json" where
  "enc_AnswerCalculateOptions hs timestamp = JObj [(''RangeHashes'', enc_list enc_bytes hs), (''Timestamp'', enc_int timestamp)]"

fun range_hashes :: "env \<Rightarrow> bytes \<Rightarrow> Range list \<Rightarrow> bytes list result" where
  "range_hashes E data [] = Inr []"
| "range_hashes E data (rr # r) =
     (if rg_End rr < rg_Start rr then Inl (Errx ErrCodeParam)
      else if of_nat (length data) \<le> rg_End rr then Inl (Errx ErrCodeParam)
      else rbind (range_hashes E data r) (\<lambda>hs. Inr (sha256 E (slice_part data (uint (rg_Start rr), uint (rg_End rr))) # hs)))"

definition doMerkleCalculation :: "'s slice_store \<Rightarrow> disk \<Rightarrow> env \<Rightarrow> Challenge \<Rightarrow> 's \<Rightarrow> bytes result" where
  "doMerkleCalculation S dk E req s =
     rbind (st_Load S dk (ch_SliceID req) (ch_SliceStorIndex req) s) (\<lambda>data.
     rbind (range_hashes E data (ch_Ranges req)) (\<lambda>hs.
     Inr (json_text (enc_AnswerCalculateOptions hs (ch_ChallengeTime req)))))"

text \<open>Signing and publishing an answer; what the contract says of the proof is only logged.\<close>

definition sign_answer :: "'l chain_ops \<Rightarrow> env \<Rightarrow> (bytes \<Rightarrow> bytes) \<Rightarrow> ChallengeAnswerOptions \<Rightarrow> 'l \<Rightarrow> unit result \<times> 'l" where
  "sign_answer C E sign answerOpt l =
     (case GetSigMessage (enc_ChallengeAnswerOptions answerOpt) of None \<Rightarrow> (Inl (Errx ErrCodeInternal), l)
      | Some msg \<Rightarrow> (case xchain_ChallengeAnswer C E (answerOpt\<lparr>cao_Signature := sign (sha256 E msg)\<rparr>) l of
          (r, l) \<Rightarrow> (rbind r (\<lambda>_. Inr ()), l)))"

definition doMerkleChallengeAnswer :: "'l chain_ops \<Rightarrow> env \<Rightarrow> (bytes \<Rightarrow> bytes) \<Rightarrow> 's slice_store \<Rightarrow> disk \<Rightarrow> int64 \<Rightarrow> Challenge \<Rightarrow>
    's \<Rightarrow> 'l \<Rightarrow> unit result \<times> 'l" where
  "doMerkleChallengeAnswer C E sign S dk now r s l =
     (case doMerkleCalculation S dk E r s of Inl e \<Rightarrow> (Inl e, l)
      | Inr proof' \<Rightarrow> sign_answer C E sign \<lparr>cao_ChallengeID = ch_ID r, cao_Sigma = [], cao_Mu = [], cao_AnswerTime = now,
          cao_Proof = proof', cao_Signature = []\<rparr> l)"

text \<open>The points of a slice by rounds, as they are kept in a file.\<close>

type_synonym sigmas = "(int64 \<times> bytes) list"

definition set_sigma :: "int64 \<Rightarrow> bytes \<Rightarrow> sigmas \<Rightarrow> sigmas" where
  "set_sigma i v sigmas = (i, v) # filter (\<lambda>kv. fst kv \<noteq> i) sigmas"

definition SigmasToBytes :: "sigmas \<Rightarrow> bytes" where
  "SigmasToBytes sigmas = json_text (JObj (sort_key fst (map (\<lambda>(k, v). (FormatInt k, enc_bytes v)) sigmas)))"

fun dec_sigmas :: "(string \<times> json) list \<Rightarrow> sigmas option" where
  "dec_sigmas [] = Some []"
| "dec_sigmas ((k, v) # r) =
     Option.bind (ParseInt k) (\<lambda>i. Option.bind (dec_bytes v) (\<lambda>b. map_option (\<lambda>l. l @ [(i, b)]) (dec_sigmas r)))"

definition SigmasFromBytes :: "env \<Rightarrow> bytes \<Rightarrow> sigmas option" where
  "SigmasFromBytes E sigmasBytes = Option.bind (parse_json E sigmasBytes) (\<lambda>j.
     case j of JNull \<Rightarrow> Some [] | JObj kvs \<Rightarrow> dec_sigmas kvs | _ \<Rightarrow> None)"

definition sigma_of :: "sigmas \<Rightarrow> int64 \<Rightarrow> bytes" where
  "sigma_of sigmas j = (case map_of sigmas j of None \<Rightarrow> [] | Some b \<Rightarrow> b)"

text \<open>
  The slices that are asked for and their points are read in turn; a missing storage index is an index
  out of range. Each read of the disk has its own draw.
\<close>

fun load_contents :: "'s slice_store \<Rightarrow> (string \<Rightarrow> bool) \<Rightarrow> (nat \<Rightarrow> disk \<times> disk) \<Rightarrow> nat \<Rightarrow> string list \<Rightarrow> string list \<Rightarrow>
    's node_state \<Rightarrow> (bytes \<times> bytes) list result" where
  "load_contents S valid dk i [] idx s = Inr []"
| "load_contents S valid dk i (sliceID # r) idx s =
     (case idx of [] \<Rightarrow> Inl Panicked
      | storIndex # idx \<Rightarrow>
          rbind (st_Load S (fst (dk i)) sliceID storIndex (ns_slices s)) (\<lambda>data.
          rbind (local_Load valid (snd (dk i)) sliceID (ns_proofs s)) (\<lambda>sigmas.
          rbind (load_contents S valid dk (i + 1) r idx s) (\<lambda>l. Inr ((data, sigmas) # l)))))"

fun round_sigmas :: "env \<Rightarrow> int64 \<Rightarrow> bytes list \<Rightarrow> bytes list result" where
  "round_sigmas E j [] = Inr []"
| "round_sigmas E j (sigma # r) =
     (case SigmasFromBytes E sigma of None \<Rightarrow> Inl (Errx ErrCodeInternal)
      | Some sigmaMap \<Rightarrow>
          if sigma_of sigmaMap j = [] then Inl (Errx ErrCodeInternal)
          else rbind (round_sigmas E j r) (\<lambda>l. Inr (sigma_of sigmaMap j # l)))"

text \<open>When no proof is made, its points are nil, which panics when they are encoded.\<close>

definition AnswerPairingChallenge :: "('g1, 'g2, 'gt) pairing_curve \<Rightarrow> bytes list \<Rightarrow> bytes list \<Rightarrow> bytes list \<Rightarrow> bytes list \<Rightarrow>
    bytes \<Rightarrow> (bytes \<times> bytes) result" where
  "AnswerPairingChallenge P content indices randVs sigmas rnd =
     (case ProvePairingChallenge P content indices randVs sigmas rnd of
        Inl Panic \<Rightarrow> Inl Panicked | Inl _ \<Rightarrow> Inl (Errx ErrCodeInternal) | Inr p \<Rightarrow> Inr p)"

definition doPairingCalculateProof :: "('g1, 'g2, 'gt) pairing_curve \<Rightarrow> 's slice_store \<Rightarrow> (string \<Rightarrow> bool) \<Rightarrow>
    (nat \<Rightarrow> disk \<times> disk) \<Rightarrow> env \<Rightarrow> Challenge \<Rightarrow> 's node_state \<Rightarrow> (bytes \<times> bytes) result" where
  "doPairingCalculateProof P S valid dk E req s =
     rbind (load_contents S valid dk 0 (ch_SliceIDs req) (ch_SliceStorIndexes req) s) (\<lambda>l.
     if ch_Indices req = [] \<or> ch_Vs req = [] then Inl (Errx ErrCodeInternal)
     else rbind (round_sigmas E (ch_Round req) (map snd l)) (\<lambda>sigmas.
       recode ErrCodeInternal
         (AnswerPairingChallenge P (map fst l) (ch_Indices req) (ch_Vs req) sigmas (ch_RandThisRound req))))"

definition doPairingChallengeAnswer :: "('g1, 'g2, 'gt) pairing_curve \<Rightarrow> 'l chain_ops \<Rightarrow> env \<Rightarrow> (bytes \<Rightarrow> bytes) \<Rightarrow> 's slice_store \<Rightarrow>
    (string \<Rightarrow> bool) \<Rightarrow> (nat \<Rightarrow> disk \<times> disk) \<Rightarrow> int64 \<Rightarrow> Challenge \<Rightarrow> 's node_state \<Rightarrow> 'l \<Rightarrow> unit result \<times> 'l" where
  "doPairingChallengeAnswer P C E sign S valid dk now r s l =
     (case doPairingCalculateProof P S valid dk E r s of Inl e \<Rightarrow> (Inl e, l)
      | Inr (sigma, mu) \<Rightarrow> sign_answer C E sign \<lparr>cao_ChallengeID = ch_ID r, cao_Sigma = sigma, cao_Mu = mu, cao_AnswerTime = now,
          cao_Proof = [], cao_Signature = []\<rparr> l)"

section \<open>The rounds of the loops\<close>

text \<open>
  One round of the answer loop: the open requests to the node are answered in turn, and an error of one
  leaves the others; a panic ends the node.
\<close>

record answer_run =
  ar_disk :: "nat \<Rightarrow> disk \<times> disk"
  ar_time :: int64

fun answer_all :: "('g1, 'g2, 'gt) pairing_curve \<Rightarrow> 'l chain_ops \<Rightarrow> env \<Rightarrow> (bytes \<Rightarrow> bytes) \<Rightarrow> 's slice_store \<Rightarrow>
    (string \<Rightarrow> bool) \<Rightarrow> (nat \<Rightarrow> answer_run) \<Rightarrow> nat \<Rightarrow> Challenge list \<Rightarrow> 's node_state \<Rightarrow> 'l \<Rightarrow> unit result \<times> 'l" where
  "answer_all P C E sign S valid runs i [] s l = (Inr (), l)"
| "answer_all P C E sign S valid runs i (r # rs) s l =
     (case (if ch_ChallengeAlgorithm r = PairingChallengeAlgorithm
            then doPairingChallengeAnswer P C E sign S valid (ar_disk (runs i)) (ar_time (runs i)) r s l
            else if ch_ChallengeAlgorithm r = MerkleChallengeAlgorithm
            then doMerkleChallengeAnswer C E sign S (fst (ar_disk (runs i) 0)) (ar_time (runs i)) r (ns_slices s) l
            else (Inr (), l)) of
        (Inl Panicked, l) \<Rightarrow> (Inl Panicked, l)
      | (_, l) \<Rightarrow> answer_all P C E sign S valid runs (i + 1) rs s l)"

definition answer_round :: "('g1, 'g2, 'gt) pairing_curve \<Rightarrow> 'l chain_ops \<Rightarrow> env \<Rightarrow> (bytes \<Rightarrow> bytes) \<Rightarrow> 's slice_store \<Rightarrow>
    (string \<Rightarrow> bool) \<Rightarrow> (nat \<Rightarrow> answer_run) \<Rightarrow> bytes \<Rightarrow> int64 \<Rightarrow> 's node_state \<Rightarrow> 'l \<Rightarrow> unit result \<times> 'l" where
  "answer_round P C E sign S valid runs nodeID now s l =
     (case xchain_ListChallengeRequests C E \<lparr>lco_FileOwner = [], lco_TargetNode = nodeID, lco_FileID = [],
          lco_Status = ChallengeToProve, lco_TimeStart = 0, lco_TimeEnd = now, lco_Limit = 0\<rparr> l of
        Inl _ \<Rightarrow> (Inr (), l)
      | Inr requests \<Rightarrow> answer_all P C E sign S valid runs 0 requests s l)"

text \<open>
  One round of the request loop first finds a namespace that has files: namespaces are drawn, each one
  once, until one has files, and the last one is taken whatever it has. \<open>None\<close> when the draws are
  used up.
\<close>

fun draw_new :: "nat \<Rightarrow> nat list \<Rightarrow> nat list \<Rightarrow> (nat \<times> nat list) option" where
  "draw_new n [] selected = None"
| "draw_new n (r # draws) selected =
     (if r mod n \<in> set selected then draw_new n draws selected else Some (r mod n, draws))"

fun select_files :: "(Namespace \<Rightarrow> File list result) \<Rightarrow> Namespace list \<Rightarrow> nat \<Rightarrow> nat list \<Rightarrow> nat list \<Rightarrow>
    File list result option" where
  "select_files list_files nss 0 draws selected = Some (Inr [])"
| "select_files list_files nss (Suc left) draws selected =
     (case draw_new (length nss) draws selected of None \<Rightarrow> None
      | Some (nsSelected, draws) \<Rightarrow>
          (case list_files (nss ! nsSelected) of Inl e \<Rightarrow> Some (Inl e)
           | Inr files \<Rightarrow> if files \<noteq> [] \<or> left = 0 then Some (Inr files)
                          else select_files list_files nss left draws (nsSelected # selected)))"

definition request_files :: "'l chain_ops \<Rightarrow> engine \<Rightarrow> int64 \<Rightarrow> nat list \<Rightarrow> 'l \<Rightarrow> File list result option" where
  "request_files C en now draws l =
     (case xchain_ListFileNs C (en_E en) \<lparr>lfo_Owner = en_pubkey en, lfo_Namespace = [], lfo_TimeStart = 0, lfo_TimeEnd = now,
          lfo_CurrentTime = now, lfo_Limit = 0\<rparr> l of
        Inl e \<Rightarrow> Some (Inl e)
      | Inr nss \<Rightarrow> select_files (\<lambda>ns. xchain_ListFiles C (en_E en) \<lparr>lfo_Owner = en_pubkey en, lfo_Namespace = ns_Name ns,
            lfo_TimeStart = 0, lfo_TimeEnd = now, lfo_CurrentTime = now, lfo_Limit = 0\<rparr> l) nss (length nss) draws [])"

text \<open>A round of a challenger of Merkle challenges.\<close>

definition merkle_request_round :: "'l chain_ops \<Rightarrow> engine \<Rightarrow> (bytes \<Rightarrow> bytes) \<Rightarrow> 'd leveldb \<Rightarrow> request_run \<Rightarrow> nat list \<Rightarrow>
    'd \<Rightarrow> 'l \<Rightarrow> (unit result \<times> 'd \<times> 'l) option" where
  "merkle_request_round C en sign D run draws d l =
     map_option (\<lambda>r. case r of Inl e \<Rightarrow> (Inr (), d, l)
       | Inr files \<Rightarrow> if files = [] then (Inr (), d, l)
                      else doMerkleChallengeRequest C en sign D run MerkleChallengeAlgorithm files d l)
     (request_files C en (rr_time run) draws l)"

section \<open>The material of pairing challenges\<close>

definition pairingChallSegmentSize :: int64 where
  "pairingChallSegmentSize = 100"

definition ChallengeRound :: "int64 \<Rightarrow> int64 \<Rightarrow> int64" where
  "ChallengeRound t interval = word_of_int (sint t sdiv sint interval)"

text \<open>The rounds of one segment; the last segment takes in the last round.\<close>

definition segment_rounds :: "int64 \<Rightarrow> int64 \<Rightarrow> int64 \<Rightarrow> int64 list" where
  "segment_rounds roundStart roundEnd k =
     (let startRoundThisSegment = roundStart + k * pairingChallSegmentSize;
          endRoundThisSegment = startRoundThisSegment + pairingChallSegmentSize;
          endRoundThisSegment = (if roundEnd <s endRoundThisSegment then roundEnd + 1 else endRoundThisSegment)
      in map word_of_int [sint startRoundThisSegment .. sint endRoundThisSegment - 1])"

definition all_rounds :: "int64 \<Rightarrow> int64 \<Rightarrow> int64 list" where
  "all_rounds roundStart roundEnd =
     (let segments = (word_of_int (sint (roundEnd - roundStart) sdiv sint pairingChallSegmentSize) :: int64)
      in concat (map (\<lambda>k. segment_rounds roundStart roundEnd (word_of_int k)) [0 .. sint segments]))"

definition getSlicesIdxMap :: "File \<Rightarrow> string \<Rightarrow> bytes option" where
  "getSlicesIdxMap file = map_of (rev (map (\<lambda>s. (sm_ID s @ sm_NodeID s, Bytes (sint (sm_SliceIdx s)))) (f_Slices file)))"

definition GetSliceSigmasID :: "string \<Rightarrow> string" where
  "GetSliceSigmasID sliceID = sliceID @ ChallengeFileSuffix"

text \<open>
  The points of the rounds are added to those there are. The rounds are worked on concurrently and have
  different entries, so the order is that of the rounds.
\<close>

fun add_sigmas :: "('g1, 'g2, 'gt) pairing_curve \<Rightarrow> PairingChallengeConf \<Rightarrow> bytes \<Rightarrow> bytes \<Rightarrow> int64 list \<Rightarrow> sigmas \<Rightarrow>
    sigmas result" where
  "add_sigmas P conf cipherText idx [] sigmas = Inr sigmas"
| "add_sigmas P conf cipherText idx (i # is) sigmas =
     (case client_CalculateSigmaI P cipherText idx (pc_RandV conf) (pc_RandU conf) (pc_Privkey conf) i of
        Inl Panic \<Rightarrow> Inl Panicked | Inl _ \<Rightarrow> Inl (Errx ErrCodeInternal)
      | Inr sigmaI \<Rightarrow> add_sigmas P conf cipherText idx is (set_sigma i sigmaI sigmas))"

text \<open>What is pushed for a slice and to whom.\<close>

definition slice_sigmas :: "('g1, 'g2, 'gt) pairing_curve \<Rightarrow> PairingChallengeConf \<Rightarrow> (bytes \<Rightarrow> Node option) \<Rightarrow> File \<Rightarrow>
    int64 list \<Rightarrow> EncryptedSlice \<Rightarrow> sigmas \<Rightarrow> (Node \<times> bytes) result" where
  "slice_sigmas P conf nodesMap file rounds sl existSigmas =
     (case nodesMap (es_NodeID sl) of None \<Rightarrow> Inl (Errx ErrCodeInternal)
      | Some node \<Rightarrow>
          (case getSlicesIdxMap file (es_SliceID sl @ es_NodeID sl) of None \<Rightarrow> Inl (Errx ErrCodeInternal)
           | Some idxInSlice \<Rightarrow>
               rbind (add_sigmas P conf (es_CipherText sl) idxInSlice rounds existSigmas) (\<lambda>sigmas.
               Inr (node, SigmasToBytes sigmas))))"

text \<open>
  The slices are worked on concurrently; here one after the other, in the order given. After an error
  nothing more is pushed, and the last error is the result.
\<close>

fun push_sigmas :: "('g1, 'g2, 'gt) pairing_curve \<Rightarrow> PairingChallengeConf \<Rightarrow> 's net_env \<Rightarrow> (bytes \<Rightarrow> Node option) \<Rightarrow> File \<Rightarrow>
    int64 list \<Rightarrow> string \<Rightarrow> (attempt \<times> EncryptedSlice \<times> sigmas) list \<Rightarrow> fault option \<Rightarrow> 's network \<Rightarrow>
    unit result \<times> 's network" where
  "push_sigmas P conf NE nodesMap file rounds sourceID [] pushErr net = (case pushErr of None \<Rightarrow> Inr () | Some e \<Rightarrow> Inl e, net)"
| "push_sigmas P conf NE nodesMap file rounds sourceID ((a, sl, existSigmas) # r) pushErr net =
     (case slice_sigmas P conf nodesMap file rounds sl existSigmas of
        Inl Panicked \<Rightarrow> (Inl Panicked, net)
      | Inl e \<Rightarrow> push_sigmas P conf NE nodesMap file rounds sourceID r (Some e) net
      | Inr (node, sigmasBytes) \<Rightarrow>
          if pushErr \<noteq> None then push_sigmas P conf NE nodesMap file rounds sourceID r pushErr net
          else (case copier_Push NE a (GetSliceSigmasID (es_SliceID sl)) sourceID sigmasBytes node net of
              (Inl e, _, net) \<Rightarrow> push_sigmas P conf NE nodesMap file rounds sourceID r (Some e) net
            | (Inr _, _, net) \<Rightarrow> push_sigmas P conf NE nodesMap file rounds sourceID r None net))"

definition AddSlicesNewPairingChallenge :: "('g1, 'g2, 'gt) pairing_curve \<Rightarrow> PairingChallengeConf \<Rightarrow> 's net_env \<Rightarrow>
    Node list result \<Rightarrow> File \<Rightarrow> string \<Rightarrow> int64 \<Rightarrow> int64 \<Rightarrow> int64 \<Rightarrow> (attempt \<times> EncryptedSlice \<times> sigmas) list \<Rightarrow> 's network \<Rightarrow>
    unit result \<times> 's network" where
  "AddSlicesNewPairingChallenge P conf NE nodes file sourceID interval start end' slices net =
     (case nodes of Inl e \<Rightarrow> (Inl e, net)
      | Inr allNodes \<Rightarrow> push_sigmas P conf NE (ToNodesMap allNodes) file
          (all_rounds (ChallengeRound start interval) (ChallengeRound end' interval)) sourceID slices None net)"

text \<open>
  When the life of a file is extended, the points of the new rounds are added to those that are pulled
  from the node of every slice.
\<close>

definition extend_sigmas :: "('g1, 'g2, 'gt) pairing_curve \<Rightarrow> PairingChallengeConf \<Rightarrow> 's net_env \<Rightarrow> (string \<Rightarrow> disk option) \<Rightarrow>
    attempt \<Rightarrow> Node list \<Rightarrow> File \<Rightarrow> string \<Rightarrow> int64 \<Rightarrow> int64 \<Rightarrow> PublicSliceMeta \<Rightarrow> 's network \<Rightarrow> unit result \<times> 's network" where
  "extend_sigmas P conf NE up a nodes file sourceID oldExp interval target net =
     (case ToNodesMap nodes (sm_NodeID target) of None \<Rightarrow> (Inl (Errx ErrCodeNotFound), net)
      | Some node \<Rightarrow>
          (case copier_Pull NE up net node (sm_ID target) (sm_StorIndex target) (f_ID file) of
             None \<Rightarrow> (Inl (Errx ErrCodeInternal), net)
           | Some cipherText \<Rightarrow>
               (case copier_Pull NE up net node (GetSliceSigmasID (sm_ID target)) (sm_ID target) (f_ID file) of
                  None \<Rightarrow> (Inl (Errx ErrCodeInternal), net)
                | Some sigmas \<Rightarrow>
                    (case SigmasFromBytes (en_E (ne_engine NE)) sigmas of None \<Rightarrow> (Inl (Errx ErrCodeInternal), net)
                     | Some sigmasMap \<Rightarrow>
                         let es = \<lparr>es_SliceID = sm_ID target, es_NodeID = sm_NodeID target, es_CipherHash = sm_CipherHash target,
                               es_Length = sm_Length target, es_CipherText = cipherText\<rparr>
                         in (case AddSlicesNewPairingChallenge P conf NE (Inr nodes) file sourceID interval oldExp
                               (f_ExpireTime file) [(a, es, sigmasMap)] net of
                             (Inl Panicked, net) \<Rightarrow> (Inl Panicked, net)
                           | (Inl _, net) \<Rightarrow> (Inl (Errx ErrCodeInternal), net)
                           | (Inr _, net) \<Rightarrow> (Inr (), net))))))"

fun extend_all :: "('g1, 'g2, 'gt) pairing_curve \<Rightarrow> PairingChallengeConf \<Rightarrow> 's net_env \<Rightarrow> (string \<Rightarrow> disk option) \<Rightarrow>
    Node list \<Rightarrow> File \<Rightarrow> string \<Rightarrow> int64 \<Rightarrow> int64 \<Rightarrow> (attempt \<times> PublicSliceMeta) list \<Rightarrow> fault option \<Rightarrow> 's network \<Rightarrow>
    unit result \<times> 's network" where
  "extend_all P conf NE up nodes file sourceID oldExp interval [] addErr net = (case addErr of None \<Rightarrow> Inr () | Some e \<Rightarrow> Inl e, net)"
| "extend_all P conf NE up nodes file sourceID oldExp interval ((a, target) # r) addErr net =
     (case extend_sigmas P conf NE up a nodes file sourceID oldExp interval target net of
        (Inl Panicked, net) \<Rightarrow> (Inl Panicked, net)
      | (Inl e, net) \<Rightarrow> extend_all P conf NE up nodes file sourceID oldExp interval r (Some e) net
      | (Inr _, net) \<Rightarrow> extend_all P conf NE up nodes file sourceID oldExp interval r addErr net)"

definition AddFilePairingChallenges :: "('g1, 'g2, 'gt) pairing_curve \<Rightarrow> PairingChallengeConf \<Rightarrow> 's net_env \<Rightarrow>
    (string \<Rightarrow> disk option) \<Rightarrow> Node list result \<Rightarrow> File \<Rightarrow> string \<Rightarrow> int64 \<Rightarrow> int64 \<Rightarrow> (attempt \<times> PublicSliceMeta) list \<Rightarrow>
    's network \<Rightarrow> unit result \<times> 's network" where
  "AddFilePairingChallenges P conf NE up nodes file sourceID oldExp interval targets net =
     (case nodes of Inl e \<Rightarrow> (Inl e, net)
      | Inr nodes \<Rightarrow> extend_all P conf NE up nodes file sourceID oldExp interval targets None net)"

section \<open>The material of Merkle challenges when a file lives longer\<close>

text \<open>
  A slice is pulled from its own node or, when that fails, from the other healthy nodes that have it,
  decrypted and encrypted again for its own node. \<open>None\<close> for a slice that no node gives.
\<close>

fun recover_elsewhere :: "engine \<Rightarrow> net_pull \<Rightarrow> (bytes \<Rightarrow> Node option) \<Rightarrow> File \<Rightarrow> PublicSliceMeta \<Rightarrow> bytes list \<Rightarrow>
    EncryptedSlice option" where
  "recover_elsewhere en pull nodesMap file target [] = None"
| "recover_elsewhere en pull nodesMap file target (n # ns) =
     (case nodesMap n of None \<Rightarrow> recover_elsewhere en pull nodesMap file target ns
      | Some newNode \<Rightarrow>
          (case pull newNode (sm_ID target) (sm_StorIndex target) (f_ID file) of
             None \<Rightarrow> recover_elsewhere en pull nodesMap file target ns
           | Some r \<Rightarrow>
               (case rbind (Recover (en_K en) (en_soft en) r (slice_opts (f_ID file) (sm_ID target) (nd_ID newNode)))
                   (\<lambda>plain. SoftEncrypt (en_K en) (en_soft en) plain (slice_opts (f_ID file) (sm_ID target) (sm_NodeID target))) of
                  Inl _ \<Rightarrow> recover_elsewhere en pull nodesMap file target ns
                | Inr cipher \<Rightarrow> Some cipher)))"

definition slice_for_challenge :: "engine \<Rightarrow> net_pull \<Rightarrow> (bytes \<Rightarrow> Node option) \<Rightarrow> File \<Rightarrow> PublicSliceMeta \<Rightarrow>
    EncryptedSlice option" where
  "slice_for_challenge en pull nodesMap file target =
     (let selectedNodes = map sm_NodeID (filter (\<lambda>s. sm_ID s = sm_ID target) (f_Slices file));
          elsewhere = recover_elsewhere en pull nodesMap file target selectedNodes
      in case nodesMap (sm_NodeID target) of None \<Rightarrow> elsewhere
         | Some node \<Rightarrow>
             (case pull node (sm_ID target) (sm_StorIndex target) (f_ID file) of None \<Rightarrow> elsewhere
              | Some cipherText \<Rightarrow> Some \<lparr>es_SliceID = sm_ID target, es_NodeID = sm_NodeID target,
                  es_CipherHash = sm_CipherHash target, es_Length = sm_Length target, es_CipherText = cipherText\<rparr>))"

definition AddFileNewMerkleChallenge :: "'d leveldb \<Rightarrow> engine \<Rightarrow> RandChallenger \<Rightarrow> net_pull \<Rightarrow> NodeH list result \<Rightarrow> File \<Rightarrow> int64 \<Rightarrow>
    int64 \<Rightarrow> (nat \<Rightarrow> setup_run) \<Rightarrow> int64 \<Rightarrow> 'd \<Rightarrow> (unit result \<times> 'd) option" where
  "AddFileNewMerkleChallenge D en m pull healthNodes file startTime interval runs ctime d =
     (case healthNodes of Inl e \<Rightarrow> Some (Inl e, d)
      | Inr nodes \<Rightarrow>
          (let nodesMap = ToNodeHsMap nodes;
               slices = List.map_filter (slice_for_challenge en pull nodesMap file) (f_Slices file)
           in map_option (\<lambda>r. case r of Inl e \<Rightarrow> (Inl e, d)
                | Inr ms \<Rightarrow> if length (f_Slices file) \<noteq> length ms then (Inl (Errx ErrCodeInternal), d)
                            else SaveMerkleChallenger D ctime ms d)
              (slices_material (en_E en) m (f_ID file) (f_ExpireTime file) interval
                 (\<lambda>i. (runs i)\<lparr>sr_start := startTime\<rparr>) 0 slices)))"

section \<open>The signature of a message\<close>

text \<open>The message to sign does not contain the signature, so signing does not change it.\<close>

definition unsigned :: "string \<times> json \<Rightarrow> string \<times> json" where
  "unsigned kv = (if fst kv = ''signature'' then (fst kv, JNull) else kv)"

lemma unsigned_simps [simp]: "fst (unsigned kv) = fst kv" "sig_part (unsigned kv) = sig_part kv"
  by (simp_all add: unsigned_def sig_part_def)

lemma sort_unsigned: "sort_key fst (map unsigned kvs) = map unsigned (sort_key fst kvs)"
proof -
  have ins: "insort_key fst (unsigned kv) (map unsigned l) = map unsigned (insort_key fst kv l)" for kv l
    by (induction l) simp_all
  show ?thesis by (induction kvs) (simp_all add: ins)
qed

lemma GetSigMessage_unsigned: "GetSigMessage (JObj (map unsigned kvs)) = GetSigMessage (JObj kvs)"
  by (simp add: GetSigMessage_def sort_unsigned o_def)

lemma signed_message:
  "GetSigMessage (enc_ChallengeAnswerOptions (o1\<lparr>cao_Signature := sg\<rparr>)) = GetSigMessage (enc_ChallengeAnswerOptions o1)"
  "GetSigMessage (enc_ChallengeRequestOptions (o2\<lparr>cro_Signature := sg\<rparr>)) = GetSigMessage (enc_ChallengeRequestOptions o2)"
proof -
  have 1: "enc_ChallengeAnswerOptions o1 = JObj (kvs1 @ [(''signature'', enc_bytes (cao_Signature o1))]) \<Longrightarrow>
      enc_ChallengeAnswerOptions (o1\<lparr>cao_Signature := sg\<rparr>) = JObj (kvs1 @ [(''signature'', enc_bytes sg)]) \<Longrightarrow>
      GetSigMessage (enc_ChallengeAnswerOptions (o1\<lparr>cao_Signature := sg\<rparr>)) = GetSigMessage (enc_ChallengeAnswerOptions o1)" for kvs1
    using GetSigMessage_unsigned[of "kvs1 @ [(''signature'', enc_bytes sg)]"]
      GetSigMessage_unsigned[of "kvs1 @ [(''signature'', enc_bytes (cao_Signature o1))]"]
    by (simp add: unsigned_def)
  show "GetSigMessage (enc_ChallengeAnswerOptions (o1\<lparr>cao_Signature := sg\<rparr>)) = GetSigMessage (enc_ChallengeAnswerOptions o1)"
    by (rule 1[of "butlast (case enc_ChallengeAnswerOptions o1 of JObj k \<Rightarrow> k | _ \<Rightarrow> [])"])
      (simp_all add: enc_ChallengeAnswerOptions_def)
  have 2: "enc_ChallengeRequestOptions o2 = JObj (kvs1 @ [(''signature'', enc_bytes (cro_Signature o2))]) \<Longrightarrow>
      enc_ChallengeRequestOptions (o2\<lparr>cro_Signature := sg\<rparr>) = JObj (kvs1 @ [(''signature'', enc_bytes sg)]) \<Longrightarrow>
      GetSigMessage (enc_ChallengeRequestOptions (o2\<lparr>cro_Signature := sg\<rparr>)) = GetSigMessage (enc_ChallengeRequestOptions o2)" for kvs1
    using GetSigMessage_unsigned[of "kvs1 @ [(''signature'', enc_bytes sg)]"]
      GetSigMessage_unsigned[of "kvs1 @ [(''signature'', enc_bytes (cro_Signature o2))]"]
    by (simp add: unsigned_def)
  show "GetSigMessage (enc_ChallengeRequestOptions (o2\<lparr>cro_Signature := sg\<rparr>)) = GetSigMessage (enc_ChallengeRequestOptions o2)"
    by (rule 2[of "butlast (case enc_ChallengeRequestOptions o2 of JObj k \<Rightarrow> k | _ \<Rightarrow> [])"])
      (simp_all add: enc_ChallengeRequestOptions_def)
qed

section \<open>An answer on the ledger\<close>

text \<open>A node whose key checks every signature it makes.\<close>

definition signs :: "env \<Rightarrow> bytes \<Rightarrow> (bytes \<Rightarrow> bytes) \<Rightarrow> bool" where
  "signs E pk sign \<longleftrightarrow> length pk = 64 \<and> (\<forall>dg. length (sign dg) = 64 \<and> ecdsa_verify E pk dg (sign dg))"

lemma message_exists: "\<exists>msg. GetSigMessage (enc_ChallengeAnswerOptions opt) = Some msg"
  by (simp add: enc_ChallengeAnswerOptions_def GetSigMessage_def)

context durable_chain begin

lemma ChallengeAnswer_run:
  assumes "get_object C s (packChallengeIndex (cao_ChallengeID opt)) = Some (Doc (enc_Challenge c))"
    and "ch_Status c \<noteq> ChallengeProved" "ch_Status c \<noteq> ChallengeFailed"
    and "hexDecode (ch_TargetNode c) = Some pk" and "signed_by E (cao_Signature opt) pk (enc_ChallengeAnswerOptions opt)"
    and "get_object C s (ch_FileID c) = Some (Doc (enc_File f))" and "verify_answer E opt c f = Inr ok"
  shows "\<exists>s'. ChallengeAnswer C E (Got opt) s = (Inr (if ok then ''answered'' else ''verification failed''), s') \<and>
    get_object C s' (packChallengeIndex (cao_ChallengeID opt)) = Some (Doc (enc_Challenge
      (c\<lparr>ch_AnswerTime := cao_AnswerTime opt, ch_Status := (if ok then ChallengeProved else ChallengeFailed)\<rparr>)))"
proof -
  let ?k = "packChallengeIndex (cao_ChallengeID opt)"
  let ?c = "c\<lparr>ch_AnswerTime := cao_AnswerTime opt, ch_Status := (if ok then ChallengeProved else ChallengeFailed)\<rparr>"
  obtain s' where p: "put_object C s ?k (Doc (enc_Challenge ?c)) = Some s'" using put_total by blast
  have "ChallengeAnswer C E (Got opt) s = (Inr (if ok then ''answered'' else ''verification failed''), s')"
    using assms(5) unfolding ChallengeAnswer_def Let_def signed_by_def
    by (auto simp: act_ok assms(1-4,6,7) p)
  then show ?thesis using get_put_same[OF p] by blast
qed

lemma sign_answer_run:
  assumes "get_object C l (packChallengeIndex (cao_ChallengeID opt)) = Some (Doc (enc_Challenge c))"
    and "ch_Status c \<noteq> ChallengeProved" "ch_Status c \<noteq> ChallengeFailed"
    and "hexDecode (ch_TargetNode c) = Some pk" and "signs E pk sign"
    and "get_object C l (ch_FileID c) = Some (Doc (enc_File f))"
    and "\<And>sg. verify_answer E (opt\<lparr>cao_Signature := sg\<rparr>) c f = Inr True"
  shows "\<exists>l'. sign_answer C E sign opt l = (Inr (), l') \<and>
    xchain_GetChallengeByID C E (cao_ChallengeID opt) l' =
      Inr (c\<lparr>ch_AnswerTime := cao_AnswerTime opt, ch_Status := ChallengeProved\<rparr>)"
proof -
  obtain msg where m: "GetSigMessage (enc_ChallengeAnswerOptions opt) = Some msg" using message_exists by blast
  define o' where "o' = opt\<lparr>cao_Signature := sign (sha256 E msg)\<rparr>"
  have sg: "signed_by E (cao_Signature o') pk (enc_ChallengeAnswerOptions o')"
    using assms(5) by (simp add: o'_def signed_by_def signed_message m signs_def)
  have id: "cao_ChallengeID o' = cao_ChallengeID opt" "cao_AnswerTime o' = cao_AnswerTime opt" by (simp_all add: o'_def)
  have k: "get_object C l (packChallengeIndex (cao_ChallengeID o')) = Some (Doc (enc_Challenge c))"
    using assms(1) by (simp add: id)
  have v: "verify_answer E o' c f = Inr True" using assms(7) by (simp add: o'_def)
  from ChallengeAnswer_run[OF k assms(2-4) sg assms(6) v] obtain l' where
    l': "ChallengeAnswer C E (Got o') l = (Inr ''answered'', l')"
      "get_object C l' (packChallengeIndex (cao_ChallengeID opt)) =
        Some (Doc (enc_Challenge (c\<lparr>ch_AnswerTime := cao_AnswerTime opt, ch_Status := ChallengeProved\<rparr>)))"
    unfolding id by auto
  have "sign_answer C E sign opt l = (Inr (), l')"
    by (simp add: sign_answer_def m xchain_ChallengeAnswer_def InvokeContract_def l'(1) flip: o'_def)
  moreover have "xchain_GetChallengeByID C E (cao_ChallengeID opt) l' =
      Inr (c\<lparr>ch_AnswerTime := cao_AnswerTime opt, ch_Status := ChallengeProved\<rparr>)"
    by (simp add: xchain_GetChallengeByID_def QueryContract_def GetChallengeByID_def act_defs l'(2))
  ultimately show ?thesis by blast
qed

end

section \<open>The honest answer to a Merkle challenge\<close>

lemma range_hashes_ok:
  assumes "\<forall>r \<in> set rs. mr_Start r \<le> mr_End r \<and> uint (mr_End r) < int (length data)" and "length data \<le> 2 ^ 53"
  shows "range_hashes E data (map (\<lambda>v. \<lparr>rg_Start = mr_Start v, rg_End = mr_End v\<rparr>) rs) = Inr (map (part_hash E data) rs)"
  using assms(1)
proof (induction rs)
  case (Cons r rs)
  have "uint (of_nat (length data) :: 64 word) = int (length data)"
    using assms(2) by (simp add: unsigned_of_nat take_bit_nat_eq_self_iff)
  with Cons show ?case by (simp add: part_hash_def word_le_def word_less_def)
qed simp

lemma dec_answer: "\<forall>h \<in> set hs. h \<noteq> [] \<Longrightarrow>
    dec_AnswerCalculateOptions (enc_AnswerCalculateOptions hs t) = Some \<lparr>aco_RangeHashes = map Some hs, aco_Timestamp = t\<rparr>"
proof -
  assume h: "\<forall>h \<in> set hs. h \<noteq> []"
  have one: "dec_mnode (enc_bytes h) = Some (Some h)" if "h \<noteq> []" for h
    using that by (simp add: dec_mnode_def enc_bytes_def)
  have "dec_all dec_mnode (map enc_bytes hs) = Some (map Some hs)"
    using h by (induction hs) (simp_all add: one)
  then have "dec_list dec_mnode (enc_list enc_bytes hs) = Some (map Some hs)" by (simp add: enc_list_def)
  then show ?thesis
    by (simp add: dec_AnswerCalculateOptions_def enc_AnswerCalculateOptions_def dec_struct_def fld_def)
qed

text \<open>What the chain of trust between challenge and answer needs of the environment.\<close>

definition answer_readable :: "env \<Rightarrow> bytes list \<Rightarrow> int64 \<Rightarrow> bool" where
  "answer_readable E hs t \<longleftrightarrow>
     parse_json E (json_text (enc_AnswerCalculateOptions hs t)) = Some (enc_AnswerCalculateOptions hs t)"

text \<open>The challenge that a request for a range puts on the ledger.\<close>

definition merkle_challenge :: "engine \<Rightarrow> request_run \<Rightarrow> File \<Rightarrow> PublicSliceMeta \<Rightarrow> RangeHash \<Rightarrow> Challenge" where
  "merkle_challenge en run f sl rh =
     \<lparr>ch_ID = rr_uuid run, ch_FileOwner = en_pubkey en, ch_TargetNode = sm_NodeID sl, ch_FileID = f_ID f,
      ch_ChallengeAlgorithm = MerkleChallengeAlgorithm, ch_SliceIDs = [], ch_SliceStorIndexes = [], ch_Indices = [],
      ch_Vs = [], ch_Round = 0, ch_RandThisRound = [], ch_SliceID = sm_ID sl, ch_SliceStorIndex = sm_StorIndex sl,
      ch_Ranges = map (\<lambda>v. \<lparr>rg_Start = mr_Start v, rg_End = mr_End v\<rparr>) (rh_Ranges rh),
      ch_HashOfProof = sha256 (en_E en) (Calculate (en_E en) (Some (rh_Hash rh)) (rr_time run)),
      ch_Status = ChallengeToProve, ch_ChallengeTime = rr_time run, ch_AnswerTime = 0\<rparr>"

lemma honest_calculation:
  assumes "material_of E m data (rh\<lparr>rh_Used := False\<rparr>)" and "length data \<le> 2 ^ 53" and "\<forall>b. sha256 E b \<noteq> []"
    and "E = en_E en" and "st_Load S dk (sm_ID sl) (sm_StorIndex sl) s = Inr data"
    and "answer_readable E (map (part_hash E data) (rh_Ranges rh)) (rr_time run)"
  shows "\<exists>pf. doMerkleCalculation S dk E (merkle_challenge en run f sl rh) s = Inr pf \<and>
    (\<forall>opt. cao_Proof opt = pf \<longrightarrow> verify_answer E opt (merkle_challenge en run f sl rh) fl = Inr True)"
proof -
  let ?hs = "map (part_hash E data) (rh_Ranges rh)"
  let ?pf = "json_text (enc_AnswerCalculateOptions ?hs (rr_time run))"
  from assms(1) obtain h where rg: "\<forall>r \<in> set (rh_Ranges rh). mr_Start r \<le> mr_End r \<and> uint (mr_End r) < int (length data)"
    and h: "GetMerkleRoot E (map (\<lambda>r. Some (part_hash E data r)) (rh_Ranges rh)) = Inr h" "rh_Hash rh = bytes_of h"
    by (auto simp: material_of_def)
  have "doMerkleCalculation S dk E (merkle_challenge en run f sl rh) s = Inr ?pf"
    by (simp add: doMerkleCalculation_def merkle_challenge_def assms(5) range_hashes_ok[OF rg assms(2)])
  moreover have "verify_answer E opt (merkle_challenge en run f sl rh) fl = Inr True" if "cao_Proof opt = ?pf" for opt
  proof -
    have "unmarshal E dec_AnswerCalculateOptions (Raw ?pf) = Some \<lparr>aco_RangeHashes = map Some ?hs, aco_Timestamp = rr_time run\<rparr>"
      using assms(3,6) by (simp add: unmarshal_def answer_readable_def dec_answer part_hash_def)
    moreover have "GetMerkleRoot E (map Some ?hs) = Inr h" using h(1) by (simp add: o_def)
    moreover have "Calculate E h t = Calculate E (Some (bytes_of h)) t" for t
      by (simp add: Calculate_def bytes_of_def split: option.splits)
    ultimately show ?thesis
      by (simp add: verify_answer_def that merkle_challenge_def MerkleChallengeAlgorithm_def PairingChallengeAlgorithm_def
          h(2) assms(4) Let_def)
  qed
  ultimately show ?thesis by blast
qed

context chain begin

text \<open>A request that succeeds has put its challenge on the ledger and left the files as they are.\<close>

lemma make_challenge_signature: "make_challenge (opt\<lparr>cro_Signature := sg\<rparr>) = make_challenge opt"
  by (simp add: make_challenge_def Let_def)

lemma sign_request_effect:
  assumes "sign_request C en sign opt l = (Inr u, l')"
  obtains c where "make_challenge opt = Some c"
    and "get_object C l' (packChallengeIndex (ch_ID c)) = Some (Doc (enc_Challenge c))"
    and "\<And>k. plain_id k \<Longrightarrow> get_object C l' k = get_object C l k"
proof -
  from assms obtain msg r where
    r: "ChallengeRequest C (en_E en) (Got (opt\<lparr>cro_Signature := sign (sha256 (en_E en) msg)\<rparr>)) l = (Inr r, l')"
    by (auto simp: sign_request_def xchain_ChallengeRequest_def InvokeContract_def rbind_ok split: option.splits prod.splits sum.splits)
  note w = writesD[OF ChallengeRequest_writes r]
  from r show ?thesis
  proof (rule ChallengeRequest_effect)
    fix opt' c
    assume "Got (opt\<lparr>cro_Signature := sign (sha256 (en_E en) msg)\<rparr>) = Got opt'" "make_challenge opt' = Some c"
      and g: "get_object C l' = (\<lambda>k. if k = packChallengeIndex (ch_ID c) then Some (Doc (enc_Challenge c))
        else if k = packChallengeIndex4Owner c \<or> k = packChallengeIndex4Target c then Some (Raw (ch_ID c)) else get_object C l k)"
    then have "make_challenge opt = Some c" by (auto simp: make_challenge_signature)
    moreover have "get_object C l' (packChallengeIndex (ch_ID c)) = Some (Doc (enc_Challenge c))" by (simp add: g)
    moreover have "get_object C l' k = get_object C l k" if "plain_id k" for k
      using w[of k] that by (auto simp: plain_id_def)
    ultimately show thesis by (rule that)
  qed
qed

lemma merkle_request_effect:
  assumes "doMerkleChallengeRequest C en sign D run MerkleChallengeAlgorithm files d l = (Inr u, d', l')"
    and "f = files ! (rr_file run mod length files)" and "sl = f_Slices f ! (rr_slice run mod length (f_Slices f))"
  obtains rh where "Take D (en_E en) (f_ID f) (sm_ID sl) (sm_NodeID sl) d = (Inr rh, d')"
    and "get_object C l' (packChallengeIndex (rr_uuid run)) = Some (Doc (enc_Challenge (merkle_challenge en run f sl rh)))"
    and "\<And>k. plain_id k \<Longrightarrow> get_object C l' k = get_object C l k"
proof -
  from assms(1) obtain rh opt where
    t: "Take D (en_E en) (f_ID f) (sm_ID sl) (sm_NodeID sl) d = (Inr rh, d')"
    and opt: "opt = zero_request\<lparr>cro_ChallengeID := rr_uuid run, cro_FileOwner := en_pubkey en,
                     cro_TargetNode := sm_NodeID sl, cro_FileID := f_ID f,
                     cro_SliceID := sm_ID sl, cro_SliceStorIndex := sm_StorIndex sl,
                     cro_Ranges := map (\<lambda>v. \<lparr>rg_Start = mr_Start v, rg_End = mr_End v\<rparr>) (rh_Ranges rh),
                     cro_ChallengeTime := rr_time run,
                     cro_HashOfProof := sha256 (en_E en) (Calculate (en_E en) (Some (rh_Hash rh)) (rr_time run)),
                     cro_ChallengeAlgorithm := MerkleChallengeAlgorithm\<rparr>"
    and r: "sign_request C en sign opt l = (Inr u, l')"
    by (auto simp: doMerkleChallengeRequest_def pick_rand_def Let_def rbind_ok assms(2,3) split: sum.splits prod.splits if_splits)
  from r show ?thesis
  proof (rule sign_request_effect)
    fix c
    assume "make_challenge opt = Some c" and g: "get_object C l' (packChallengeIndex (ch_ID c)) = Some (Doc (enc_Challenge c))"
      and keep: "\<And>k. plain_id k \<Longrightarrow> get_object C l' k = get_object C l k"
    then have "c = merkle_challenge en run f sl rh"
      by (simp add: make_challenge_def Let_def opt zero_request_def merkle_challenge_def MerkleChallengeAlgorithm_def
          PairingChallengeAlgorithm_def)
    with g have "get_object C l' (packChallengeIndex (rr_uuid run)) = Some (Doc (enc_Challenge (merkle_challenge en run f sl rh)))"
      by (simp add: merkle_challenge_def)
    then show thesis by (rule that[OF t _ keep])
  qed
qed

end

context durable_chain begin

text \<open>A request with a good signature and a new identifier succeeds.\<close>

lemma ChallengeRequest_run:
  assumes "get_object C s (packChallengeIndex (cro_ChallengeID opt)) = None"
    and "signed_by E (cro_Signature opt) (cro_FileOwner opt) (enc_ChallengeRequestOptions opt)"
    and "make_challenge opt = Some c"
  shows "\<exists>s'. ChallengeRequest C E (Got opt) s = (Inr ''requested'', s')"
proof -
  obtain s1 where 1: "put_object C s (packChallengeIndex (cro_ChallengeID opt)) (Doc (enc_Challenge c)) = Some s1"
    using put_total by blast
  obtain s2 where 2: "put_object C s1 (packChallengeIndex4Owner c) (Raw (ch_ID c)) = Some s2" using put_total by blast
  obtain s3 where 3: "put_object C s2 (packChallengeIndex4Target c) (Raw (ch_ID c)) = Some s3" using put_total by blast
  show ?thesis
    by (intro exI[of _ s3]) (auto simp: ChallengeRequest_def Let_def act_ok assms 1 2 3)
qed

lemma sign_request_run:
  assumes "get_object C l (packChallengeIndex (cro_ChallengeID opt)) = None" and "signs E (cro_FileOwner opt) sign"
    and "E = en_E en" and "\<And>sg. make_challenge (opt\<lparr>cro_Signature := sg\<rparr>) \<noteq> None"
  shows "\<exists>l'. sign_request C en sign opt l = (Inr (), l')"
proof -
  obtain msg where m: "GetSigMessage (enc_ChallengeRequestOptions opt) = Some msg"
    by (simp add: enc_ChallengeRequestOptions_def GetSigMessage_def)
  let ?o = "opt\<lparr>cro_Signature := sign (sha256 E msg)\<rparr>"
  have "signed_by E (cro_Signature ?o) (cro_FileOwner ?o) (enc_ChallengeRequestOptions ?o)"
    using assms(2) by (simp add: signed_by_def signed_message m signs_def)
  with assms(1,4) ChallengeRequest_run[of l ?o E] obtain l' where
    "ChallengeRequest C E (Got ?o) l = (Inr ''requested'', l')" by fastforce
  then show ?thesis
    by (simp add: sign_request_def m xchain_ChallengeRequest_def InvokeContract_def flip: assms(3))
qed

end

section \<open>The honest answer to a pairing challenge\<close>

text \<open>
  A node that has a slice and the point that the owner calculated for the round: it can read both, and
  the point is not empty.
\<close>

definition holds_slice :: "('g1, 'g2, 'gt) pairing_curve \<Rightarrow> env \<Rightarrow> PairingChallengeConf \<Rightarrow> 's slice_store \<Rightarrow> (string \<Rightarrow> bool) \<Rightarrow>
    int64 \<Rightarrow> 's node_state \<Rightarrow> PublicSliceMeta \<Rightarrow> bytes \<Rightarrow> bytes \<Rightarrow> bool" where
  "holds_slice P E conf S valid j s sl data sigma \<longleftrightarrow>
     st_Load S fine (sm_ID sl) (sm_StorIndex sl) (ns_slices s) = Inr data \<and>
     (\<exists>sg m. local_Load valid fine (sm_ID sl) (ns_proofs s) = Inr sg \<and> SigmasFromBytes E sg = Some m \<and>
        sigma_of m j = sigma \<and> sigma \<noteq> []) \<and>
     client_CalculateSigmaI P data (Bytes (sint (sm_SliceIdx sl))) (pc_RandV conf) (pc_RandU conf) (pc_Privkey conf) j = Inr sigma"

lemma load_contents_held:
  assumes "\<forall>sl \<in> set chosen. \<exists>data sigma. holds_slice P E conf S valid j s sl data sigma"
  shows "\<exists>l sigmas. load_contents S valid (\<lambda>_. (fine, fine)) i (map sm_ID chosen) (map sm_StorIndex chosen) s = Inr l \<and>
    round_sigmas E j (map snd l) = Inr sigmas \<and> length l = length chosen \<and>
    list_all2 (\<lambda>(c, sl) sg. client_CalculateSigmaI P c (Bytes (sint (sm_SliceIdx sl))) (pc_RandV conf) (pc_RandU conf) (pc_Privkey conf) j = Inr sg)
      (zip (map fst l) chosen) sigmas"
  using assms
proof (induction chosen arbitrary: i)
  case (Cons sl chosen)
  from Cons.prems obtain data sigma where h: "holds_slice P E conf S valid j s sl data sigma" by auto
  then obtain sg m where sg: "local_Load valid fine (sm_ID sl) (ns_proofs s) = Inr sg" "SigmasFromBytes E sg = Some m"
      "sigma_of m j = sigma" "sigma \<noteq> []"
    and st: "st_Load S fine (sm_ID sl) (sm_StorIndex sl) (ns_slices s) = Inr data"
    and c: "client_CalculateSigmaI P data (Bytes (sint (sm_SliceIdx sl))) (pc_RandV conf) (pc_RandU conf) (pc_Privkey conf) j = Inr sigma"
    by (auto simp: holds_slice_def)
  from Cons.prems have "\<forall>sl \<in> set chosen. \<exists>data sigma. holds_slice P E conf S valid j s sl data sigma" by simp
  from Cons.IH[OF this, of "i + 1"] obtain l sigmas where
    "load_contents S valid (\<lambda>_. (fine, fine)) (i + 1) (map sm_ID chosen) (map sm_StorIndex chosen) s = Inr l"
    "round_sigmas E j (map snd l) = Inr sigmas" "length l = length chosen"
    "list_all2 (\<lambda>(c, sl) sg. client_CalculateSigmaI P c (Bytes (sint (sm_SliceIdx sl))) (pc_RandV conf) (pc_RandU conf) (pc_Privkey conf) j = Inr sg)
      (zip (map fst l) chosen) sigmas" by blast
  then show ?case
    by (intro exI[of _ "(data, sg) # l"] exI[of _ "sigma # sigmas"]) (simp add: sg st c)
qed simp

lemma draw_indexes_in: "draw_indexes idxs n draws selected = Some l \<Longrightarrow> idxs \<noteq> [] \<Longrightarrow> set l \<subseteq> set idxs"
proof (induction idxs n draws selected arbitrary: l rule: draw_indexes.induct)
  case (3 idxs n r draws selected)
  have r: "idxs ! (r mod length idxs) \<in> set idxs" using "3.prems"(2) by simp
  show ?case
  proof (cases "r mod length idxs \<in> set selected")
    case True
    with "3.prems" "3.IH"(1)[OF refl True] show ?thesis by simp
  next
    case False
    with "3.prems"(1) obtain l' where "draw_indexes idxs n draws (r mod length idxs # selected) = Some l'"
      "l = idxs ! (r mod length idxs) # l'" by (auto simp: Let_def)
    with "3.IH"(2)[OF refl False] "3.prems"(2) r show ?thesis by auto
  qed
qed simp_all

lemma slice_numbered_own:
  assumes "distinct (map sm_SliceIdx slices)" and "sl \<in> set slices"
  shows "slice_numbered slices (sm_SliceIdx sl) = sl"
proof -
  have "distinct (map fst (rev (map (\<lambda>s. (sm_SliceIdx s, s)) slices)))"
  proof -
    have "map fst (rev (map (\<lambda>s. (sm_SliceIdx s, s)) slices)) = rev (map sm_SliceIdx slices)" by (simp add: rev_map o_def)
    with assms(1) show ?thesis by simp
  qed
  moreover have "(sm_SliceIdx sl, sl) \<in> set (rev (map (\<lambda>s. (sm_SliceIdx s, s)) slices))" using assms(2) by auto
  ultimately have "map_of (rev (map (\<lambda>s. (sm_SliceIdx s, s)) slices)) (sm_SliceIdx sl) = Some sl" by (rule map_of_is_SomeI)
  then show ?thesis by (simp add: slice_numbered_def)
qed

text \<open>The challenge that a request for some slices of a node puts on the ledger.\<close>

definition pairing_challenge :: "engine \<Rightarrow> request_run \<Rightarrow> File \<Rightarrow> bytes \<Rightarrow> PublicSliceMeta list \<Rightarrow> bytes list \<Rightarrow> bytes list \<Rightarrow> int64 \<Rightarrow>
    bytes \<Rightarrow> Challenge" where
  "pairing_challenge en run f node chosen indices vs j rnd =
     \<lparr>ch_ID = rr_uuid run, ch_FileOwner = en_pubkey en, ch_TargetNode = node, ch_FileID = f_ID f,
      ch_ChallengeAlgorithm = PairingChallengeAlgorithm, ch_SliceIDs = map sm_ID chosen,
      ch_SliceStorIndexes = map sm_StorIndex chosen, ch_Indices = indices, ch_Vs = vs, ch_Round = j,
      ch_RandThisRound = rnd, ch_SliceID = [], ch_SliceStorIndex = [], ch_Ranges = [], ch_HashOfProof = [],
      ch_Status = ChallengeToProve, ch_ChallengeTime = rr_time run, ch_AnswerTime = 0\<rparr>"

lemma pairing_GenerateChallenge_ok:
  assumes "pairing_GenerateChallenge P maxIdx conf draws vdraw now idxList interval = Some (indices, vs, j, rnd)"
  shows "j = GetPairingChallengeRound now interval \<and> (\<exists>idxs.
    draw_indexes idxList (let n = isqrt (length idxList - 1) + 1 in if maxIdx < n then maxIdx else n) draws [] = Some idxs \<and>
    GenPairingChallenge P vdraw idxs j (pc_Privkey conf) = (indices, vs, rnd))"
proof -
  from assms obtain idxs where
    "draw_indexes idxList (let n = isqrt (length idxList - 1) + 1 in if maxIdx < n then maxIdx else n) draws [] = Some idxs"
    "(case GenPairingChallenge P vdraw idxs (GetPairingChallengeRound now interval) (pc_Privkey conf) of
       (is, vs, rnd) \<Rightarrow> (is, vs, GetPairingChallengeRound now interval, rnd)) = (indices, vs, j, rnd)"
    by (auto simp: pairing_GenerateChallenge_def Let_def)
  then show ?thesis
    by (cases "GenPairingChallenge P vdraw idxs (GetPairingChallengeRound now interval) (pc_Privkey conf)") simp
qed

context chain begin

lemma pairing_request_effect:
  assumes "doPairingChallengeRequest P maxIdx conf C en sign run draws vdraw interval PairingChallengeAlgorithm files l = Some (Inr u, l')"
    and "f = files ! (rr_file run mod length files)" and "sl = f_Slices f ! (rr_slice run mod length (f_Slices f))"
    and "slices = filter (\<lambda>s. sm_NodeID s = sm_NodeID sl) (f_Slices f)"
    and "distinct (map sm_SliceIdx slices)" and "\<forall>s \<in> set slices. 0 \<le> sint (sm_SliceIdx s)"
    and "j = GetPairingChallengeRound (rr_time run) interval"
  obtains chosen indices vs rnd where "GenPairingChallenge P vdraw (map sm_SliceIdx chosen) j (pc_Privkey conf) = (indices, vs, rnd)"
    and "chosen \<noteq> []" and "set chosen \<subseteq> set slices"
    and "get_object C l' (packChallengeIndex (rr_uuid run)) =
      Some (Doc (enc_Challenge (pairing_challenge en run f (sm_NodeID sl) chosen indices vs j rnd)))"
    and "\<And>k. plain_id k \<Longrightarrow> get_object C l' k = get_object C l k"
proof -
  obtain p where p: "rbind (pick_rand (rr_file run) files) (\<lambda>f. rbind (pick_rand (rr_slice run) (f_Slices f)) (\<lambda>s. Inr (f, s))) = Inr p"
    using assms(1) unfolding doPairingChallengeRequest_def
    by (cases "rbind (pick_rand (rr_file run) files) (\<lambda>f. rbind (pick_rand (rr_slice run) (f_Slices f)) (\<lambda>s. Inr (f, s)))") simp_all
  then have pick: "p = (f, sl)" and fl: "f_Slices f \<noteq> []" by (auto simp: rbind_ok pick_rand_ok assms(2,3))
  from assms(1)[unfolded doPairingChallengeRequest_def p pick sum.case prod.case Let_def, folded assms(4)] obtain indices vs j' rnd where
    gc: "pairing_GenerateChallenge P maxIdx conf draws vdraw (rr_time run) (map sm_SliceIdx slices) interval = Some (indices, vs, j', rnd)"
    and r': "(let chosen = map (\<lambda>idx. slice_numbered slices (word_of_int (SetBytes idx))) indices;
         requestOpt = zero_request\<lparr>cro_ChallengeID := rr_uuid run, cro_FileOwner := en_pubkey en,
           cro_TargetNode := sm_NodeID sl, cro_FileID := f_ID f, cro_SliceIDs := map sm_ID chosen,
           cro_SliceStorIndexes := map sm_StorIndex chosen, cro_ChallengeTime := rr_time run, cro_Indices := indices,
           cro_Vs := vs, cro_Round := j', cro_RandThisRound := rnd, cro_ChallengeAlgorithm := PairingChallengeAlgorithm\<rparr>
       in if chosen = [] then (Inl (Errx ErrCodeInternal), l) else sign_request C en sign requestOpt l) = (Inr u, l')"
    by (auto simp: Let_def simp del: map_map)
  from pairing_GenerateChallenge_ok[OF gc] obtain idxs where j: "j' = j" and
    idxs: "draw_indexes (map sm_SliceIdx slices) (let n = isqrt (length (map sm_SliceIdx slices) - 1) + 1 in if maxIdx < n then maxIdx else n) draws [] = Some idxs"
    and g: "GenPairingChallenge P vdraw idxs j (pc_Privkey conf) = (indices, vs, rnd)" by (auto simp: assms(7))
  note r = r'[unfolded j]
  from fl have "sl \<in> set slices" by (simp add: assms(3,4))
  then have sub: "set idxs \<subseteq> sm_SliceIdx ` set slices" using draw_indexes_in[OF idxs] by fastforce
  have ind: "indices = map Bytes (map sint idxs)"
    using g by (auto simp: GenPairingChallenge_def GenerateChallenge_def IntListToBytes_def)
  define chosen where "chosen = map (slice_numbered slices) idxs"
  have own: "sm_SliceIdx (slice_numbered slices i) = i \<and> slice_numbered slices i \<in> set slices \<and> 0 \<le> sint i" if "i \<in> set idxs" for i
    using that sub slice_numbered_own[OF assms(5)] assms(6) by auto
  then have idx: "map sm_SliceIdx chosen = idxs" and cs: "set chosen \<subseteq> set slices"
    by (auto simp: chosen_def intro!: map_idI)
  have "map (\<lambda>idx. slice_numbered slices (word_of_int (SetBytes idx))) indices = chosen"
    using own by (simp add: ind chosen_def SetBytes_Bytes)
  with r have ne: "chosen \<noteq> []" and r: "sign_request C en sign (zero_request\<lparr>cro_ChallengeID := rr_uuid run, cro_FileOwner := en_pubkey en,
           cro_TargetNode := sm_NodeID sl, cro_FileID := f_ID f, cro_SliceIDs := map sm_ID chosen,
           cro_SliceStorIndexes := map sm_StorIndex chosen, cro_ChallengeTime := rr_time run, cro_Indices := indices,
           cro_Vs := vs, cro_Round := j, cro_RandThisRound := rnd, cro_ChallengeAlgorithm := PairingChallengeAlgorithm\<rparr>) l = (Inr u, l')"
    by (auto simp: Let_def split: if_splits)
  from r show thesis
  proof (rule sign_request_effect)
    fix c
    assume "make_challenge (zero_request\<lparr>cro_ChallengeID := rr_uuid run, cro_FileOwner := en_pubkey en,
           cro_TargetNode := sm_NodeID sl, cro_FileID := f_ID f, cro_SliceIDs := map sm_ID chosen,
           cro_SliceStorIndexes := map sm_StorIndex chosen, cro_ChallengeTime := rr_time run, cro_Indices := indices,
           cro_Vs := vs, cro_Round := j, cro_RandThisRound := rnd, cro_ChallengeAlgorithm := PairingChallengeAlgorithm\<rparr>) = Some c"
      and g': "get_object C l' (packChallengeIndex (ch_ID c)) = Some (Doc (enc_Challenge c))"
      and keep: "\<And>k. plain_id k \<Longrightarrow> get_object C l' k = get_object C l k"
    then have "c = pairing_challenge en run f (sm_NodeID sl) chosen indices vs j rnd"
      by (simp add: make_challenge_def Let_def zero_request_def pairing_challenge_def PairingChallengeAlgorithm_def)
    with g' have "get_object C l' (packChallengeIndex (rr_uuid run)) =
      Some (Doc (enc_Challenge (pairing_challenge en run f (sm_NodeID sl) chosen indices vs j rnd)))"
      by (simp add: pairing_challenge_def)
    from that[OF _ ne cs this keep] g show thesis by (simp add: idx)
  qed
qed

end

end
