(* ===== verification/ChallengeProperties.thy ===== *)
theory ChallengeProperties
  imports EngChallenge EngRun
begin

text \<open>
  Properties of the life of a challenge: the material that owners make and take, and the answers of
  honest nodes, with runs on concrete inputs.
\<close>

section \<open>Merkle challenges\<close>

text \<open>
  C25: An honest node passes every Merkle challenge. The owner makes a request for a range of the
  material of a slice; the node that has the slice calculates its answer, signs and publishes it. Then
  the ledger has the challenge as proved, at the time of the answer. The node's signatures are those of
  its key, digests are not empty, and the answer is read back as the JSON that it is.
\<close>

theorem honest_merkle_answer_proved:
  assumes "durable_chain C" and "E = en_E en"
    and "doMerkleChallengeRequest C en osign D run MerkleChallengeAlgorithm files d l = (Inr u, d', l')"
    and "f = files ! (rr_file run mod length files)" and "sl = f_Slices f ! (rr_slice run mod length (f_Slices f))"
    and "plain_id (f_ID f)" and "get_object C l (f_ID f) = Some (Doc (enc_File f))"
    and "\<And>rh. Take D E (f_ID f) (sm_ID sl) (sm_NodeID sl) d = (Inr rh, d') \<Longrightarrow>
        material_of E m data (rh\<lparr>rh_Used := False\<rparr>) \<and> answer_readable E (map (part_hash E data) (rh_Ranges rh)) (rr_time run)"
    and "st_Load S dk (sm_ID sl) (sm_StorIndex sl) s = Inr data" and "length data \<le> 2 ^ 53"
    and "hexDecode (sm_NodeID sl) = Some pk" and "signs E pk sign" and "\<forall>b. sha256 E b \<noteq> []"
  shows "\<exists>c l''. xchain_GetChallengeByID C E (rr_uuid run) l' = Inr c \<and> ch_Status c = ChallengeToProve \<and>
    doMerkleChallengeAnswer C E sign S dk now c s l' = (Inr (), l'') \<and>
    xchain_GetChallengeByID C E (rr_uuid run) l'' = Inr (c\<lparr>ch_AnswerTime := now, ch_Status := ChallengeProved\<rparr>)"
proof (rule chain.merkle_request_effect[OF durable_chain.axioms(1)[OF assms(1)] assms(3-5)])
  fix rh
  assume t: "Take D (en_E en) (f_ID f) (sm_ID sl) (sm_NodeID sl) d = (Inr rh, d')"
    and c: "get_object C l' (packChallengeIndex (rr_uuid run)) = Some (Doc (enc_Challenge (merkle_challenge en run f sl rh)))"
    and keep: "\<And>k. plain_id k \<Longrightarrow> get_object C l' k = get_object C l k"
  let ?c = "merkle_challenge en run f sl rh"
  note m = assms(8)[unfolded assms(2), OF t, folded assms(2)]
  obtain pf where pf: "doMerkleCalculation S dk E ?c s = Inr pf"
      "\<forall>opt. cao_Proof opt = pf \<longrightarrow> verify_answer E opt ?c f = Inr True"
    using honest_calculation[OF m[THEN conjunct1] assms(10,13,2,9) m[THEN conjunct2]] by blast
  let ?opt = "\<lparr>cao_ChallengeID = ch_ID ?c, cao_Sigma = [], cao_Mu = [], cao_AnswerTime = now, cao_Proof = pf, cao_Signature = []\<rparr>"
  have id: "ch_ID ?c = rr_uuid run" "ch_Status ?c = ChallengeToProve" "ch_TargetNode ?c = sm_NodeID sl" "ch_FileID ?c = f_ID f"
    by (simp_all add: merkle_challenge_def)
  obtain l'' where l'': "sign_answer C E sign ?opt l' = (Inr (), l'')"
      "xchain_GetChallengeByID C E (cao_ChallengeID ?opt) l'' = Inr (?c\<lparr>ch_AnswerTime := cao_AnswerTime ?opt, ch_Status := ChallengeProved\<rparr>)"
    using durable_chain.sign_answer_run[OF assms(1), of l' ?opt ?c pk E sign f] c keep[OF assms(6)] assms(7,11,12) pf(2)
    by (auto simp: id)
  have "xchain_GetChallengeByID C E (rr_uuid run) l' = Inr ?c"
    by (simp add: xchain_GetChallengeByID_def QueryContract_def GetChallengeByID_def act_defs c)
  moreover have "doMerkleChallengeAnswer C E sign S dk now ?c s l' = (Inr (), l'')"
    by (simp add: doMerkleChallengeAnswer_def pf(1) l''(1))
  ultimately show ?thesis using l''(2) by (intro exI[of _ ?c] exI[of _ l'']) (simp add: id)
qed

definition wit_range :: MaterialRange where
  "wit_range = \<lparr>mr_Start = 0, mr_End = 1\<rparr>"

definition wit_hash :: bytes where
  "wit_hash = part_hash mem_env ''abc'' wit_range"

definition wit_material :: RangeHash where
  "wit_material = \<lparr>rh_Ranges = [wit_range], rh_Hash = wit_hash, rh_Used = False\<rparr>"

definition wit_engine :: engine where
  "wit_engine = (run_engine [])\<lparr>en_K := (run_crypt [])\<lparr>cr_env :=
     mem_env\<lparr>parse_json := (\<lambda>_. Some (enc_AnswerCalculateOptions [wit_hash] 30))\<rparr>\<rparr>\<rparr>"

definition wit_slice :: PublicSliceMeta where
  "wit_slice = \<lparr>sm_ID = ''s1'', sm_CipherHash = [], sm_Length = 3, sm_NodeID = hex demo_key, sm_StorIndex = ''s1'', sm_SliceIdx = 0\<rparr>"

definition wit_file :: File where
  "wit_file = demo_file\<lparr>f_Slices := [wit_slice]\<rparr>"

definition wit_saved :: Material where
  "wit_saved = \<lparr>mt_FileID = ''f1'', mt_SliceID = ''s1'', mt_NodeID = hex demo_key, mt_Ranges = [wit_material]\<rparr>"

definition wit_db :: store where
  "wit_db = snd (challenger_Save mem_leveldb 5 [wit_saved] empty_store)"

lemma wit_env: "part_hash (en_E wit_engine) d r = part_hash mem_env d r" "sha256 (en_E wit_engine) = sha256 mem_env"
  by (simp_all add: wit_engine_def part_hash_def fun_eq_iff)

lemma wit_material_ok: "material_of (en_E wit_engine) (NewRandChallenger 0 1) ''abc'' wit_material"
proof -
  have "GetMerkleRoot (en_E wit_engine) [Some wit_hash] = Inr (Some wit_hash)"
    by (simp add: GetMerkleRoot_tree) (simp add: depth_def nextPowerOfTwo_def log2_floor.simps padded_def)
  then show ?thesis
    by (simp add: material_of_def wit_material_def wit_range_def NewRandChallenger_def wit_env flip: wit_hash_def)
      (simp add: wit_hash_def wit_range_def bytes_of_def)
qed

lemma wit_take: "\<exists>d'. Take mem_leveldb E ''f1'' ''s1'' (hex demo_key) wit_db = (Inr (wit_material\<lparr>rh_Used := True\<rparr>), d')"
proof -
  let ?p = "material_prefix ''f1'' ''s1'' (hex demo_key)" and ?k = "makeMaterialKey ''f1'' ''s1'' (hex demo_key) 5"
  have s: "challenger_Save mem_leveldb 5 [wit_saved] empty_store = (Inr (), wit_db)"
    by (simp add: wit_db_def challenger_Save_def ldb_Save_def mem_leveldb_def)
  have e: "\<forall>k. prefix (material_prefix (mt_FileID wit_saved) (mt_SliceID wit_saved) (mt_NodeID wit_saved)) k \<longrightarrow>
      db_Get mem_leveldb empty_store k = None" by (simp add: mem_leveldb_def)
  have o: "only_key mem_leveldb wit_db ?p ?k" "unused mem_leveldb E wit_db ?k = [wit_material]"
    using mem_db.Save_only_key[OF s e] by (simp_all add: wit_saved_def wit_material_def)
  from mem_db.take_from_step[OF o(2), of "[]"] mem_db.only_key_keys[OF o(1)] show ?thesis
    by (auto simp: Take_def ldb_NewIterator_def)
qed

lemma honest_merkle_answer_proved_witness:
  "\<exists>l' l'' c. xchain_GetChallengeByID mem_chain (en_E wit_engine) ''c1'' l' = Inr c \<and> ch_Status c = ChallengeToProve \<and>
     doMerkleChallengeAnswer mem_chain (en_E wit_engine) (\<lambda>_. demo_key) (local_v2 (\<lambda>_. True)) fine 40 c [''s1'' \<mapsto> ''abc''] l' = (Inr (), l'') \<and>
     xchain_GetChallengeByID mem_chain (en_E wit_engine) ''c1'' l'' = Inr (c\<lparr>ch_AnswerTime := 40, ch_Status := ChallengeProved\<rparr>)"
proof -
  let ?E = "en_E wit_engine" and ?run = "\<lparr>rr_file = 0, rr_slice = 0, rr_time = 30, rr_uuid = ''c1''\<rparr>"
  let ?l = "store_put empty_store ''f1'' (Doc (enc_File wit_file))" and ?sl = wit_slice
  have sg: "signs ?E demo_key (\<lambda>_. demo_key)" by (simp add: signs_def wit_engine_def mem_env_def)
  obtain d' where t: "Take mem_leveldb ?E ''f1'' ''s1'' (hex demo_key) wit_db = (Inr (wit_material\<lparr>rh_Used := True\<rparr>), d')"
    using wit_take by blast
  have f: "f_ID wit_file = ''f1''" "f_Slices wit_file = [?sl]" "sm_ID ?sl = ''s1''" "sm_NodeID ?sl = hex demo_key" "sm_StorIndex ?sl = ''s1''"
    by (simp_all add: wit_file_def wit_slice_def demo_file_def)
  have pk: "en_pubkey wit_engine = demo_key" by (simp add: wit_engine_def run_engine_def)
  obtain l' where r: "doMerkleChallengeRequest mem_chain wit_engine (\<lambda>_. demo_key) mem_leveldb ?run MerkleChallengeAlgorithm [wit_file] wit_db ?l =
      (Inr (), d', l')"
  proof -
    have "\<exists>l'. sign_request mem_chain wit_engine (\<lambda>_. demo_key) (zero_request\<lparr>cro_ChallengeID := ''c1'', cro_FileOwner := demo_key,
        cro_TargetNode := hex demo_key, cro_FileID := ''f1'', cro_SliceID := ''s1'', cro_SliceStorIndex := ''s1'',
        cro_Ranges := [\<lparr>rg_Start = 0, rg_End = 1\<rparr>], cro_ChallengeTime := 30,
        cro_HashOfProof := sha256 ?E (Calculate ?E (Some wit_hash) 30), cro_ChallengeAlgorithm := MerkleChallengeAlgorithm\<rparr>) ?l = (Inr (), l')"
      by (rule mem.sign_request_run[OF _ _ refl])
        (simp_all add: sg make_challenge_def Let_def MerkleChallengeAlgorithm_def PairingChallengeAlgorithm_def pack_defs key_def)
    then show thesis
      using that by (auto simp: doMerkleChallengeRequest_def pick_rand_def f t pk Let_def wit_material_def wit_range_def)
  qed
  have rd: "answer_readable ?E [wit_hash] 30" by (simp add: answer_readable_def wit_engine_def)
  have "\<exists>c l''. xchain_GetChallengeByID mem_chain ?E (rr_uuid ?run) l' = Inr c \<and> ch_Status c = ChallengeToProve \<and>
    doMerkleChallengeAnswer mem_chain ?E (\<lambda>_. demo_key) (local_v2 (\<lambda>_. True)) fine 40 c [''s1'' \<mapsto> ''abc''] l' = (Inr (), l'') \<and>
    xchain_GetChallengeByID mem_chain ?E (rr_uuid ?run) l'' = Inr (c\<lparr>ch_AnswerTime := 40, ch_Status := ChallengeProved\<rparr>)"
  proof (rule honest_merkle_answer_proved[OF mem.durable_chain_axioms refl r, where f = wit_file and sl = ?sl and data = "''abc''"
        and pk = demo_key and m = "NewRandChallenger 0 1"])
    fix rh
    assume "Take mem_leveldb ?E (f_ID wit_file) (sm_ID ?sl) (sm_NodeID ?sl) wit_db = (Inr rh, d')"
    then have "rh = wit_material\<lparr>rh_Used := True\<rparr>" using t by (simp add: f)
    then show "material_of ?E (NewRandChallenger 0 1) ''abc'' (rh\<lparr>rh_Used := False\<rparr>) \<and>
        answer_readable ?E (map (part_hash ?E ''abc'') (rh_Ranges rh)) (rr_time ?run)"
      using wit_material_ok rd by (simp add: wit_material_def wit_env flip: wit_hash_def)
  next
    show "plain_id (f_ID wit_file)" by (simp add: f plain_id_def)
    show "get_object mem_chain ?l (f_ID wit_file) = Some (Doc (enc_File wit_file))" by (simp add: f)
    show "st_Load (local_v2 (\<lambda>_. True)) fine (sm_ID ?sl) (sm_StorIndex ?sl) [''s1'' \<mapsto> ''abc''] = Inr ''abc''"
      by (simp add: f local_v2_def v2_Load_def local_Load_def local_Exist_def fine_def)
    show "hexDecode (sm_NodeID ?sl) = Some demo_key" by (simp add: f)
    show "signs ?E demo_key (\<lambda>_. demo_key)" by (rule sg)
    show "\<forall>b. sha256 ?E b \<noteq> []" by (simp add: wit_env)
  qed (simp_all add: f)
  then show ?thesis by auto
qed

section \<open>The material of a slice\<close>






text \<open>
  Short slices hang the owner. A slice of \<open>n\<close> bytes has at most \<open>n\<^sup>2\<close> ranges, and ranges that
  were drawn are drawn again until there are enough new ones. When more are asked for, whatever numbers
  are drawn, the material is never ready.
\<close>

lemma short_slice_never_ready:
  assumes "sizes_ok m" and "sliceData \<noteq> []" and "length sliceData \<le> 2 ^ 53"
    and "length sliceData ^ 2 < nat rangeAmount * nat (sint (rc_segmentSize m))"
  shows "generateMerkleRanges E m sliceData rangeAmount draws = None"
proof -
  from assms(4) have "0 < rangeAmount" by (cases "0 < rangeAmount") simp_all
  moreover have "merkle_ranges E m sliceData (nat rangeAmount) draws [] = None"
    by (rule ranges_bounded[OF assms(1-3)]) (use assms(4) in simp_all)
  ultimately show ?thesis using assms(1,2) by (simp add: generateMerkleRanges_def sizes_ok_def)
qed

lemma short_slice_never_ready_witness:
  "generateMerkleRanges mem_env (NewRandChallenger 0 0) ''ab'' 1 [(0, 1), (1, 0), (1, 1), (0, 0), (0, 1)] = None"
  by (rule short_slice_never_ready) (simp_all add: NewRandChallenger_sizes, simp add: NewRandChallenger_def power2_eq_square)

section \<open>Pairing challenges\<close>

lemma honest_pairing_proof:
  assumes "pairing_laws P" and "point_codes P" and "0 \<le> sk" and "GenPairingKeyPair P sk = (pc_Privkey conf, pub)"
    and "\<And>k. 0 \<le> vdraw k"
    and "GenPairingChallenge P vdraw (map sm_SliceIdx chosen) j (pc_Privkey conf) = (indices, vs, rnd)"
    and "chosen \<noteq> []" and "\<forall>s \<in> set chosen. 0 \<le> sint (sm_SliceIdx s)"
    and "\<forall>sl \<in> set chosen. \<exists>data sigma. holds_slice P E conf S valid j s sl data sigma"
  shows "\<exists>sigma mu. doPairingCalculateProof P S valid (\<lambda>_. (fine, fine)) E (pairing_challenge en run f node chosen indices vs j rnd) s =
      Inr (sigma, mu) \<and> VerifyPairingProof P sigma mu (pc_RandV conf) (pc_RandU conf) pub indices vs = Inr True"
proof -
  obtain l sigmas where l: "load_contents S valid (\<lambda>_. (fine, fine)) 0 (map sm_ID chosen) (map sm_StorIndex chosen) s = Inr l"
      "round_sigmas E j (map snd l) = Inr sigmas" "length l = length chosen"
    and sg: "list_all2 (\<lambda>(c, sl) sg. client_CalculateSigmaI P c (Bytes (sint (sm_SliceIdx sl))) (pc_RandV conf) (pc_RandU conf) (pc_Privkey conf) j = Inr sg)
      (zip (map fst l) chosen) sigmas"
    using load_contents_held[OF assms(9), of 0] by blast
  have "list_all2 (\<lambda>(c, i) sg. client_CalculateSigmaI P c (Bytes (sint i)) (pc_RandV conf) (pc_RandU conf) (pc_Privkey conf) j = Inr sg)
      (zip (map fst l) (map sm_SliceIdx chosen)) sigmas"
    using sg l(3) by (simp add: list_all2_conv_all_nth split_beta)
  then obtain sigma mu where p: "ProvePairingChallenge P (map fst l) indices vs sigmas rnd = Inr (sigma, mu)"
      "VerifyPairingProof P sigma mu (pc_RandV conf) (pc_RandU conf) pub indices vs = Inr True"
    using honest_proof[OF assms(1-6), of "map fst l" "pc_RandV conf" "pc_RandU conf" sigmas] assms(7,8) l(3) by auto
  have ne: "indices \<noteq> []" "vs \<noteq> []"
    using assms(6,7) by (auto simp: GenPairingChallenge_def GenerateChallenge_def IntListToBytes_def)
  have "doPairingCalculateProof P S valid (\<lambda>_. (fine, fine)) E (pairing_challenge en run f node chosen indices vs j rnd) s = Inr (sigma, mu)"
    using l ne p(1) by (simp add: doPairingCalculateProof_def pairing_challenge_def AnswerPairingChallenge_def)
  with p(2) show ?thesis by blast
qed

text \<open>
  C26: An honest node passes every pairing challenge. The file is on the ledger with the public numbers of
  its owner, the contract checks proofs by the pairing, and the slices of a node have different numbers.
  The owner makes a request for some slices of a node; when the node has these slices and the points
  that the owner calculated for the round, its answer settles the challenge as proved.
\<close>

theorem honest_pairing_answer_proved:
  assumes "durable_chain C" and "E = en_E en"
    and "pairing_ok E = (\<lambda>sigma mu v u pk is vs. VerifyPairingProof P sigma mu v u pk is vs = Inr True)"
    and "pairing_laws P" and "point_codes P" and "0 \<le> sk" and "GenPairingKeyPair P sk = (pc_Privkey conf, f_PdpPubkey f)"
    and "pc_RandV conf = f_RandV f" and "pc_RandU conf = f_RandU f" and "\<And>k. 0 \<le> vdraw k"
    and "doPairingChallengeRequest P maxIdx conf C en osign run draws vdraw interval PairingChallengeAlgorithm files l = Some (Inr u, l')"
    and "f = files ! (rr_file run mod length files)" and "sl = f_Slices f ! (rr_slice run mod length (f_Slices f))"
    and "slices = filter (\<lambda>s. sm_NodeID s = sm_NodeID sl) (f_Slices f)"
    and "distinct (map sm_SliceIdx slices)" and "\<forall>s \<in> set slices. 0 \<le> sint (sm_SliceIdx s)"
    and "plain_id (f_ID f)" and "get_object C l (f_ID f) = Some (Doc (enc_File f))"
    and "\<forall>sl \<in> set slices. \<exists>data sigma. holds_slice P E conf S valid (GetPairingChallengeRound (rr_time run) interval) s sl data sigma"
    and "hexDecode (sm_NodeID sl) = Some pk" and "signs E pk sign"
  shows "\<exists>c l''. xchain_GetChallengeByID C E (rr_uuid run) l' = Inr c \<and> ch_Status c = ChallengeToProve \<and>
    doPairingChallengeAnswer P C E sign S valid (\<lambda>_. (fine, fine)) now c s l' = (Inr (), l'') \<and>
    xchain_GetChallengeByID C E (rr_uuid run) l'' = Inr (c\<lparr>ch_AnswerTime := now, ch_Status := ChallengeProved\<rparr>)"
proof (rule chain.pairing_request_effect[OF durable_chain.axioms(1)[OF assms(1)] assms(11-16) refl])
  let ?j = "GetPairingChallengeRound (rr_time run) interval"
  fix chosen indices vs rnd
  assume g: "GenPairingChallenge P vdraw (map sm_SliceIdx chosen) ?j (pc_Privkey conf) = (indices, vs, rnd)"
    and ne: "chosen \<noteq> []" and sub: "set chosen \<subseteq> set slices"
    and c: "get_object C l' (packChallengeIndex (rr_uuid run)) =
      Some (Doc (enc_Challenge (pairing_challenge en run f (sm_NodeID sl) chosen indices vs ?j rnd)))"
    and keep: "\<And>k. plain_id k \<Longrightarrow> get_object C l' k = get_object C l k"
  let ?c = "pairing_challenge en run f (sm_NodeID sl) chosen indices vs ?j rnd"
  have held: "\<forall>sl \<in> set chosen. \<exists>data sigma. holds_slice P E conf S valid ?j s sl data sigma"
    "\<forall>s \<in> set chosen. 0 \<le> sint (sm_SliceIdx s)" using assms(16,19) sub by blast+
  obtain sigma mu where p: "doPairingCalculateProof P S valid (\<lambda>_. (fine, fine)) E ?c s = Inr (sigma, mu)"
      "VerifyPairingProof P sigma mu (pc_RandV conf) (pc_RandU conf) (f_PdpPubkey f) indices vs = Inr True"
    using honest_pairing_proof[OF assms(4-7,10) g ne held(2,1)] by blast
  let ?opt = "\<lparr>cao_ChallengeID = ch_ID ?c, cao_Sigma = sigma, cao_Mu = mu, cao_AnswerTime = now, cao_Proof = [], cao_Signature = []\<rparr>"
  have id: "ch_ID ?c = rr_uuid run" "ch_Status ?c = ChallengeToProve" "ch_TargetNode ?c = sm_NodeID sl" "ch_FileID ?c = f_ID f"
    by (simp_all add: pairing_challenge_def)
  have v: "verify_answer E (?opt\<lparr>cao_Signature := sg\<rparr>) ?c f = Inr True" for sg
    using p(2) by (simp add: verify_answer_def pairing_challenge_def assms(3,8,9))
  obtain l'' where l'': "sign_answer C E sign ?opt l' = (Inr (), l'')"
      "xchain_GetChallengeByID C E (cao_ChallengeID ?opt) l'' = Inr (?c\<lparr>ch_AnswerTime := cao_AnswerTime ?opt, ch_Status := ChallengeProved\<rparr>)"
    using durable_chain.sign_answer_run[OF assms(1), of l' ?opt ?c pk E sign f] c keep[OF assms(17)] assms(18,20,21) v
    by (auto simp: id)
  have "xchain_GetChallengeByID C E (rr_uuid run) l' = Inr ?c"
    by (simp add: xchain_GetChallengeByID_def QueryContract_def GetChallengeByID_def act_defs c)
  moreover have "doPairingChallengeAnswer P C E sign S valid (\<lambda>_. (fine, fine)) now ?c s l' = (Inr (), l'')"
    by (simp add: doPairingChallengeAnswer_def p(1) l''(1))
  ultimately show ?thesis using l''(2) by (intro exI[of _ ?c] exI[of _ l'']) (simp add: id)
qed

text \<open>A run over the small curve: one slice, the point of round 3.\<close>

definition wit_conf :: PairingChallengeConf where
  "wit_conf = \<lparr>pc_Privkey = Bytes 1, pc_Pubkey = snd (GenPairingKeyPair demo_pairing 1), pc_RandU = ''u'', pc_RandV = ''v''\<rparr>"

definition wit_sigma :: bytes where
  "wit_sigma = (case client_CalculateSigmaI demo_pairing ''abc'' (Bytes 1) ''v'' ''u'' (Bytes 1) 3 of Inl _ \<Rightarrow> [] | Inr s \<Rightarrow> s)"

lemma wit_sigma: "client_CalculateSigmaI demo_pairing ''abc'' (Bytes 1) ''v'' ''u'' (Bytes 1) 3 = Inr wit_sigma" "wit_sigma \<noteq> []"
proof -
  obtain x where "client_CalculateSigmaI demo_pairing ''abc'' (Bytes 1) ''v'' ''u'' (Bytes 1) 3 = Inr (G1ToByte demo_pairing x)"
    using sigma_value[of demo_pairing 1 1 "''abc''" "''v''" "''u''" 3] demo_pairing_laws by (auto simp: pairing_laws_def)
  then show "client_CalculateSigmaI demo_pairing ''abc'' (Bytes 1) ''v'' ''u'' (Bytes 1) 3 = Inr wit_sigma" "wit_sigma \<noteq> []"
    by (simp_all add: wit_sigma_def demo_pairing_def)
qed

definition pair_engine :: engine where
  "pair_engine = (run_engine [])\<lparr>en_K := (run_crypt [])\<lparr>cr_env :=
     mem_env\<lparr>parse_json := (\<lambda>_. Some (JObj [(FormatInt 3, enc_bytes wit_sigma)])),
       pairing_ok := (\<lambda>sigma mu v u pk is vs. VerifyPairingProof demo_pairing sigma mu v u pk is vs = Inr True)\<rparr>\<rparr>\<rparr>"

definition pair_slice :: PublicSliceMeta where
  "pair_slice = wit_slice\<lparr>sm_SliceIdx := 1\<rparr>"

definition pair_file :: File where
  "pair_file = demo_file\<lparr>f_Slices := [pair_slice], f_PdpPubkey := snd (GenPairingKeyPair demo_pairing 1), f_RandU := ''u'', f_RandV := ''v''\<rparr>"

definition pair_state :: "files node_state" where
  "pair_state = \<lparr>ns_slices = [''s1'' \<mapsto> ''abc''], ns_proofs = [''s1'' \<mapsto> ''sigmas'']\<rparr>"

lemma pair_simps: "f_ID pair_file = ''f1''" "f_Slices pair_file = [pair_slice]" "f_RandU pair_file = ''u''" "f_RandV pair_file = ''v''"
  "f_PdpPubkey pair_file = snd (GenPairingKeyPair demo_pairing 1)" "sm_ID pair_slice = ''s1''" "sm_StorIndex pair_slice = ''s1''"
  "sm_NodeID pair_slice = hex demo_key" "sm_SliceIdx pair_slice = 1" "en_pubkey pair_engine = demo_key"
  by (simp_all add: pair_file_def pair_slice_def wit_slice_def demo_file_def pair_engine_def run_engine_def)

lemma pair_signs: "signs (en_E pair_engine) demo_key (\<lambda>_. demo_key)"
  by (simp add: signs_def pair_engine_def mem_env_def)

lemma pair_holds: "holds_slice demo_pairing (en_E pair_engine) wit_conf (local_v2 (\<lambda>_. True)) (\<lambda>_. True) 3 pair_state pair_slice ''abc'' wit_sigma"
proof -
  have "SigmasFromBytes (en_E pair_engine) b = Some [(3, wit_sigma)]" for b
    by (simp add: SigmasFromBytes_def pair_engine_def)
  then show ?thesis
    using wit_sigma
    by (simp add: holds_slice_def pair_simps pair_state_def local_v2_def v2_Load_def local_Load_def local_Exist_def fine_def
        sigma_of_def wit_conf_def)
qed

lemma pair_request: "\<exists>l'. doPairingChallengeRequest demo_pairing 5 wit_conf mem_chain pair_engine (\<lambda>_. demo_key)
    \<lparr>rr_file = 0, rr_slice = 0, rr_time = 30, rr_uuid = ''c1''\<rparr> [0] (\<lambda>_. 1) 10 PairingChallengeAlgorithm [pair_file]
    (store_put empty_store ''f1'' (Doc (enc_File pair_file))) = Some (Inr (), l')"
proof -
  let ?g = "GenPairingChallenge demo_pairing (\<lambda>_. 1) [1] 3 (Bytes 1)" and ?l = "store_put empty_store ''f1'' (Doc (enc_File pair_file))"
  obtain "is" vs rnd where g: "?g = (is, vs, rnd)" by (metis prod_cases3)
  have is1: "is = [Bytes 1]" using g by (simp add: GenPairingChallenge_def GenerateChallenge_def IntListToBytes_def)
  have gc: "pairing_GenerateChallenge demo_pairing 5 wit_conf [0] (\<lambda>_. 1) 30 [1] 10 = Some (is, vs, 3, rnd)"
    by (simp add: pairing_GenerateChallenge_def GetPairingChallengeRound_def signed_divide_int_def wit_conf_def g)
  have n: "slice_numbered [pair_slice] (word_of_int (SetBytes (Bytes 1))) = pair_slice"
    by (simp add: slice_numbered_def SetBytes_Bytes pair_simps)
  let ?o = "zero_request\<lparr>cro_ChallengeID := ''c1'', cro_FileOwner := demo_key, cro_TargetNode := hex demo_key,
      cro_FileID := ''f1'', cro_SliceIDs := [''s1''], cro_SliceStorIndexes := [''s1''], cro_ChallengeTime := 30,
      cro_Indices := is, cro_Vs := vs, cro_Round := 3, cro_RandThisRound := rnd, cro_ChallengeAlgorithm := PairingChallengeAlgorithm\<rparr>"
  have "\<exists>l'. sign_request mem_chain pair_engine (\<lambda>_. demo_key) ?o ?l = (Inr (), l')"
    by (rule mem.sign_request_run[OF _ _ refl])
      (simp_all add: pair_signs make_challenge_def Let_def PairingChallengeAlgorithm_def pack_defs key_def)
  then show ?thesis
    by (auto simp: doPairingChallengeRequest_def pick_rand_def pair_simps Let_def gc is1 n)
qed

lemma honest_pairing_answer_proved_witness:
  "\<exists>l' l'' c. xchain_GetChallengeByID mem_chain (en_E pair_engine) ''c1'' l' = Inr c \<and> ch_Status c = ChallengeToProve \<and>
    doPairingChallengeAnswer demo_pairing mem_chain (en_E pair_engine) (\<lambda>_. demo_key) (local_v2 (\<lambda>_. True)) (\<lambda>_. True)
      (\<lambda>_. (fine, fine)) 40 c pair_state l' = (Inr (), l'') \<and>
    xchain_GetChallengeByID mem_chain (en_E pair_engine) ''c1'' l'' = Inr (c\<lparr>ch_AnswerTime := 40, ch_Status := ChallengeProved\<rparr>)"
proof -
  let ?E = "en_E pair_engine" and ?run = "\<lparr>rr_file = 0, rr_slice = 0, rr_time = 30, rr_uuid = ''c1''\<rparr>"
  obtain l' where r: "doPairingChallengeRequest demo_pairing 5 wit_conf mem_chain pair_engine (\<lambda>_. demo_key) ?run [0] (\<lambda>_. 1) 10
      PairingChallengeAlgorithm [pair_file] (store_put empty_store ''f1'' (Doc (enc_File pair_file))) = Some (Inr (), l')"
    using pair_request by blast
  have j: "GetPairingChallengeRound 30 10 = 3" by (simp add: GetPairingChallengeRound_def signed_divide_int_def)
  have "\<exists>c l''. xchain_GetChallengeByID mem_chain ?E (rr_uuid ?run) l' = Inr c \<and> ch_Status c = ChallengeToProve \<and>
    doPairingChallengeAnswer demo_pairing mem_chain ?E (\<lambda>_. demo_key) (local_v2 (\<lambda>_. True)) (\<lambda>_. True) (\<lambda>_. (fine, fine)) 40 c pair_state l' = (Inr (), l'') \<and>
    xchain_GetChallengeByID mem_chain ?E (rr_uuid ?run) l'' = Inr (c\<lparr>ch_AnswerTime := 40, ch_Status := ChallengeProved\<rparr>)"
  proof (rule honest_pairing_answer_proved[OF mem.durable_chain_axioms refl _ demo_pairing_laws demo_point_codes _ _ _ _ _ r,
        where f = pair_file and sl = pair_slice and slices = "[pair_slice]" and sk = 1 and pk = demo_key])
    show "pairing_ok ?E = (\<lambda>sigma mu v u pk is vs. VerifyPairingProof demo_pairing sigma mu v u pk is vs = Inr True)"
      by (simp add: pair_engine_def)
    show "GenPairingKeyPair demo_pairing 1 = (pc_Privkey wit_conf, f_PdpPubkey pair_file)"
      by (simp add: wit_conf_def pair_simps GenPairingKeyPair_def GenKeyPair_def PrivateKeyToByte_def)
    show "\<forall>sl \<in> set [pair_slice]. \<exists>data sigma. holds_slice demo_pairing ?E wit_conf (local_v2 (\<lambda>_. True)) (\<lambda>_. True)
        (GetPairingChallengeRound (rr_time ?run) 10) pair_state sl data sigma"
      using pair_holds by (auto simp: j)
    show "plain_id (f_ID pair_file)" by (simp add: pair_simps plain_id_def)
    show "signs ?E demo_key (\<lambda>_. demo_key)" by (rule pair_signs)
  qed (simp_all add: pair_simps wit_conf_def)
  then show ?thesis by auto
qed

end
