(* ===== verification/FabLedger.thy ===== *)
theory FabLedger
  imports XdbContract
begin

text \<open>
  The ledger of a Fabric chaincode and the keys of the storage chaincode
  (\<^verbatim>\<open>xdb/blockchain/fabric/chaincode/core/init.go\<close> and \<^verbatim>\<open>internal.go\<close>). The interface
  \<^verbatim>\<open>shim.ChaincodeStubInterface\<close> is not part of the repository: the model takes the operations
  that the chaincode uses as a record of functions, and the locale \<open>fabric\<close> states what the
  chaincode relies on. A transaction reads what earlier transactions have committed; its own writes
  show only after it is committed.
\<close>

section \<open>The stub\<close>

text \<open>
  \<open>GetState\<close> gives an empty value for a key that is not on the ledger, and may fail;
  \<open>PutState\<close> may be refused; \<open>commitTx\<close> makes the writes of the transaction visible.
\<close>

record 'l fabric_stub =
  GetState :: "'l \<Rightarrow> string \<Rightarrow> blob option"
  PutState :: "'l \<Rightarrow> string \<Rightarrow> blob \<Rightarrow> 'l option"
  GetStateByPartialCompositeKey :: "'l \<Rightarrow> string \<Rightarrow> string list \<Rightarrow> (string \<times> blob) list option"
  commitTx :: "'l \<Rightarrow> 'l"

abbreviation nul :: char where
  "nul \<equiv> CHR 0x00"

definition createCompositeKey :: "string \<Rightarrow> string list \<Rightarrow> string" where
  "createCompositeKey objectType attributes =
     nul # objectType @ nul # concat (map (\<lambda>att. att @ [nul]) attributes)"

text \<open>
  The platform lists the keys that extend a composite key, in their order, and refuses attributes
  that contain the separator. The value of a key is what its last write in the transaction gives it.
\<close>

locale fabric =
  fixes F :: "'l fabric_stub"
  assumes read_ok: "\<exists>v. GetState F t k = Some v"
    and put_some: "k \<noteq> [] \<Longrightarrow> \<exists>t'. PutState F t k v = Some t'"
    and put_keeps: "PutState F t k v = Some t' \<Longrightarrow> GetState F t' k' = GetState F t k'"
    and put_pending: "PutState F t k v = Some t' \<Longrightarrow>
      GetState F (commitTx F t') k' = (if k' = k then Some v else GetState F (commitTx F t) k')"
    and commit_done: "GetState F (commitTx F (commitTx F t)) k = GetState F (commitTx F t) k"
    and list_set: "nul \<notin> set obj \<Longrightarrow> \<forall>a \<in> set attrs. nul \<notin> set a \<Longrightarrow>
      \<exists>kvs. GetStateByPartialCompositeKey F t obj attrs = Some kvs \<and> sorted_wrt (<) (map fst kvs) \<and>
        set kvs = {(k, v). prefix (createCompositeKey obj attrs) k \<and> GetState F t k = Some v \<and> v \<noteq> Raw []}"

section \<open>Access in a method\<close>

text \<open>
  \<open>GetValue\<close> and \<open>SetValue\<close> of the chaincode, which are methods anyone can call, too: the response
  is a payload or an error whose text has no code, which clients read as an internal error. An index
  into too short arguments panics.
\<close>

definition GetValue :: "'l fabric_stub \<Rightarrow> string list \<Rightarrow> ('l, blob) act" where
  "GetValue F args = reads (\<lambda>t. case args of [] \<Rightarrow> Inl Panicked
     | k # _ \<Rightarrow> (case GetState F t k of None \<Rightarrow> Inl (Errx ErrCodeInternal) | Some result \<Rightarrow> Inr result))"

definition SetValue :: "'l fabric_stub \<Rightarrow> (string \<times> blob) option \<Rightarrow> ('l, unit) act" where
  "SetValue F args = (\<lambda>t. case args of None \<Rightarrow> (Inl Panicked, t)
     | Some (k, v) \<Rightarrow> (case PutState F t k v of None \<Rightarrow> (Inl (Errx ErrCodeInternal), t) | Some t' \<Rightarrow> (Inr (), t')))"

text \<open>The payload of a response; a failed read has none.\<close>

definition payload :: "'l fabric_stub \<Rightarrow> string \<Rightarrow> 'l \<Rightarrow> blob" where
  "payload F k t = (case fst (GetValue F [k] t) of Inl e \<Rightarrow> Raw [] | Inr v \<Rightarrow> v)"

definition found :: "'l fabric_stub \<Rightarrow> fault \<Rightarrow> string \<Rightarrow> ('l, blob) act" where
  "found F e k = reads (\<lambda>t. if payload F k t = Raw [] then Inl e else Inr (payload F k t))"

definition vacant :: "'l fabric_stub \<Rightarrow> fault \<Rightarrow> string \<Rightarrow> ('l, unit) act" where
  "vacant F e k = reads (\<lambda>t. if payload F k t \<noteq> Raw [] then Inl e else Inr ())"

definition set_value :: "'l fabric_stub \<Rightarrow> string \<Rightarrow> blob \<Rightarrow> ('l, unit) act" where
  "set_value F k v = rewrap ErrCodeWriteBlockchain (SetValue F (Some (k, v)))"

fun set_values :: "'l fabric_stub \<Rightarrow> (string \<times> blob) list \<Rightarrow> ('l, unit) act" where
  "set_values F [] = ret ()"
| "set_values F ((k, v) # kvs) = bnd (set_value F k v) (\<lambda>_. set_values F kvs)"

text \<open>The first argument of a method, a JSON text; errors without a code are read as internal.\<close>

definition fab_arg :: "'a arg \<Rightarrow> ('l, 'a) act" where
  "fab_arg a = (case a of Missing \<Rightarrow> fail (Errx ErrCodeInternal) | Malformed \<Rightarrow> fail (Errx ErrCodeInternal) | Got x \<Rightarrow> ret x)"

text \<open>Going through the entries under a partial key.\<close>

definition iterate :: "'l fabric_stub \<Rightarrow> string \<times> string list \<Rightarrow>
    ('l \<Rightarrow> 'x list \<Rightarrow> string \<times> blob \<Rightarrow> 'x iter result) \<Rightarrow> ('l, 'x list) act" where
  "iterate F q body = reads (\<lambda>t.
     case GetStateByPartialCompositeKey F t (fst q) (snd q) of None \<Rightarrow> Inl (Errx ErrCodeInternal)
     | Some it \<Rightarrow> for_iter (body t) it [])"

section \<open>Keys\<close>

definition fab_key :: "index \<Rightarrow> string list \<Rightarrow> string" where
  "fab_key i attributes = createCompositeKey (prefix_of i) attributes"

definition fab_packNodeIndex :: "bytes \<Rightarrow> string" where
  "fab_packNodeIndex nodeID = fab_key NodeIndex [hex nodeID]"

definition fab_packNodeListIndex :: "Node \<Rightarrow> string" where
  "fab_packNodeListIndex n = fab_key NodeListIndex [FormatInt (subByInt64Max (nd_RegTime n)), hex (nd_ID n)]"

definition fab_packHeartBeatIndex :: "bytes \<Rightarrow> int64 \<Rightarrow> string" where
  "fab_packHeartBeatIndex nodeID ctime = fab_key NodeHeartbeatIndex [hex nodeID, FormatInt ctime]"

definition fab_packNonceIndex :: "bytes \<Rightarrow> int64 \<Rightarrow> string" where
  "fab_packNonceIndex nd nonce = fab_key NodeNonceIndex [hex nd, FormatInt nonce]"

definition fab_packNodeSliceIndex :: "string \<Rightarrow> File \<Rightarrow> string" where
  "fab_packNodeSliceIndex nd f = fab_key NodeFileSlice [nd, FormatInt (f_ExpireTime f), f_ID f]"

definition fab_packNodeSliceFilter :: "string \<Rightarrow> string \<times> string list" where
  "fab_packNodeSliceFilter target = (prefix_of NodeFileSlice, [target])"

text \<open>\<open>strArr[3]\<close> panics when the key has fewer than four components, which is \<open>None\<close>.\<close>

definition fab_getNodeSliceFileID :: "string \<Rightarrow> int64 option" where
  "fab_getNodeSliceFileID k = (let strArr = Split k nul in
     if length strArr \<le> 3 then None
     else Some (case ParseInt (strArr ! 3) of None \<Rightarrow> 0 | Some expireTime \<Rightarrow> expireTime))"

definition fab_packNodeSliceMigrateIndex :: "string \<Rightarrow> int64 \<Rightarrow> string" where
  "fab_packNodeSliceMigrateIndex target ctime =
     fab_key NodeSliceMigrateIndex [target, FormatInt (subByInt64Max ctime)]"

definition fab_packNodeSliceMigrateFilter :: "string \<Rightarrow> string \<times> string list" where
  "fab_packNodeSliceMigrateFilter nodeID = (prefix_of NodeSliceMigrateIndex, [nodeID])"

definition fab_getNodeSliceMigrateTime :: "string \<Rightarrow> int64 option" where
  "fab_getNodeSliceMigrateTime k = (let strArr = Split k nul in
     if length strArr \<le> 3 then None
     else Some (case ParseInt (strArr ! 3) of None \<Rightarrow> 0 | Some expireTime \<Rightarrow> subByInt64Max expireTime))"

definition fab_packFileNameIndex :: "bytes \<Rightarrow> string \<Rightarrow> string \<Rightarrow> string" where
  "fab_packFileNameIndex owner ns name = fab_key FilenameIndex [hex owner, ns, name]"

definition fab_packFileListByOwnerIndex :: "bytes \<Rightarrow> string \<Rightarrow> string \<Rightarrow> int64 \<Rightarrow> string" where
  "fab_packFileListByOwnerIndex owner ns name pubTime =
     fab_key FileListByOwnerIndex [hex owner, ns, FormatInt (subByInt64Max pubTime), name]"

definition fab_packFileListByNsIndex :: "bytes \<Rightarrow> string \<Rightarrow> string \<Rightarrow> int64 \<Rightarrow> string" where
  "fab_packFileListByNsIndex owner ns name pubTime =
     fab_key FileListByNsIndex [ns, hex owner, FormatInt (subByInt64Max pubTime), name]"

definition fab_packFileNsIndex :: "bytes \<Rightarrow> string \<Rightarrow> string" where
  "fab_packFileNsIndex owner ns = fab_key FileNsIndex [hex owner, ns]"

definition fab_packFileNsListIndex :: "bytes \<Rightarrow> string \<Rightarrow> int64 \<Rightarrow> string" where
  "fab_packFileNsListIndex owner ns createTime =
     fab_key FileNsListIndex [hex owner, FormatInt (subByInt64Max createTime), ns]"

definition fab_packFileNsListFilter :: "bytes \<Rightarrow> string \<times> string list" where
  "fab_packFileNsListFilter owner = (prefix_of FileNsListIndex, if owner \<noteq> [] then [hex owner] else [])"

definition fab_packFileNameFilter :: "bytes \<Rightarrow> string \<Rightarrow> string \<times> string list" where
  "fab_packFileNameFilter owner ns =
     (prefix_of (if owner = [] \<and> ns \<noteq> [] then FileListByNsIndex else FileListByOwnerIndex),
      (if owner \<noteq> [] then [hex owner] else []) @ (if ns \<noteq> [] then [ns] else []))"

definition fab_packFileAuthIndex :: "string \<Rightarrow> string" where
  "fab_packFileAuthIndex id' = fab_key FileAuthIndex [id']"

definition fab_packFileAuthApplierIndex :: "bytes \<Rightarrow> string \<Rightarrow> int64 \<Rightarrow> string" where
  "fab_packFileAuthApplierIndex applier authID createTime =
     fab_key FileAuthApplierIndex [hex applier, FormatInt (subByInt64Max createTime), authID]"

definition fab_packFileAuthAuthorizerIndex :: "bytes \<Rightarrow> string \<Rightarrow> int64 \<Rightarrow> string" where
  "fab_packFileAuthAuthorizerIndex authorizer authID createTime =
     fab_key FileAuthAuthorizerIndex [hex authorizer, FormatInt (subByInt64Max createTime), authID]"

definition fab_packApplierAndAuthorizerIndex :: "bytes \<Rightarrow> bytes \<Rightarrow> string \<Rightarrow> int64 \<Rightarrow> string" where
  "fab_packApplierAndAuthorizerIndex applier authorizer authID createTime =
     fab_key FileAuthListIndex [hex applier, hex authorizer, FormatInt (subByInt64Max createTime), authID]"

definition fab_packFileAuthFilter :: "bytes \<Rightarrow> bytes \<Rightarrow> string \<times> string list" where
  "fab_packFileAuthFilter applier authorizer =
     (if applier \<noteq> [] \<and> authorizer \<noteq> [] then (prefix_of FileAuthListIndex, [hex applier, hex authorizer])
      else if applier \<noteq> [] then (prefix_of FileAuthApplierIndex, [hex applier])
      else (prefix_of FileAuthAuthorizerIndex, [hex authorizer]))"

definition fab_packChallengeIndex :: "string \<Rightarrow> string" where
  "fab_packChallengeIndex id' = fab_key ChallengeIndex [id']"

definition fab_packChallengeIndex4Owner :: "Challenge \<Rightarrow> string" where
  "fab_packChallengeIndex4Owner c = fab_key ChallengeIndex4Owner
     [hex (ch_FileOwner c), hex (ch_TargetNode c), FormatInt (subByInt64Max (ch_ChallengeTime c)), ch_ID c]"

definition fab_packChallengeIndex4Target :: "Challenge \<Rightarrow> string" where
  "fab_packChallengeIndex4Target c = fab_key ChallengeIndex4Target
     [hex (ch_TargetNode c), FormatInt (subByInt64Max (ch_ChallengeTime c)), ch_ID c]"

definition fab_packChallengeFilter :: "bytes \<Rightarrow> bytes \<Rightarrow> string \<times> string list" where
  "fab_packChallengeFilter owner target =
     (prefix_of (if owner = [] \<and> target \<noteq> [] then ChallengeIndex4Target else ChallengeIndex4Owner),
      (if owner \<noteq> [] then [hex owner] else []) @ (if target \<noteq> [] then [hex target] else []))"

lemmas fab_pack_defs =
  fab_packNodeIndex_def fab_packNodeListIndex_def fab_packHeartBeatIndex_def fab_packNonceIndex_def
  fab_packNodeSliceIndex_def fab_packNodeSliceMigrateIndex_def fab_packFileNameIndex_def
  fab_packFileListByOwnerIndex_def fab_packFileListByNsIndex_def fab_packFileNsIndex_def
  fab_packFileNsListIndex_def fab_packFileAuthIndex_def fab_packFileAuthApplierIndex_def
  fab_packFileAuthAuthorizerIndex_def fab_packApplierAndAuthorizerIndex_def fab_packChallengeIndex_def
  fab_packChallengeIndex4Owner_def fab_packChallengeIndex4Target_def

end
