(* ===== verification/FabContract.thy ===== *)
theory FabContract
  imports FabLedger
begin

text \<open>
  The methods of the storage chaincode (\<^verbatim>\<open>nodes.go\<close>, \<^verbatim>\<open>files.go\<close>, \<^verbatim>\<open>challenging.go\<close> and
  \<^verbatim>\<open>fileauth.go\<close> of \<^verbatim>\<open>xdb/blockchain/fabric/chaincode/core\<close>). The data, the signed messages and the
  checks of signatures are those of the storage contract. Where the code wraps a nil error, it panics.
\<close>

section \<open>Nodes\<close>

definition fab_AddNode :: "'l fabric_stub \<Rightarrow> env \<Rightarrow> AddNodeOptions arg \<Rightarrow> ('l, string) act" where
  "fab_AddNode F E a =
     bnd (fab_arg a) (\<lambda>opt.
     let n = ano_Node opt; s = Doc (enc_Node n) in
     bnd (need (Errx ErrCodeParam) (hexDecode (nd_ID n))) (\<lambda>npk.
     bnd (checkSigned E (ano_Signature opt) npk (enc_AddNodeOptions opt)) (\<lambda>_.
     bnd (vacant F (Errx ErrCodeAlreadyExists) (fab_packNodeIndex (nd_ID n))) (\<lambda>_.
     bnd (set_value F (fab_packNodeIndex (nd_ID n)) s) (\<lambda>_.
     bnd (set_value F (fab_packNodeListIndex n) s) (\<lambda>_.
     ret []))))))"

definition fab_ListNodes :: "'l fabric_stub \<Rightarrow> env \<Rightarrow> ('l, Node list) act" where
  "fab_ListNodes F E = iterate F (prefix_of NodeListIndex, []) (\<lambda>t nodes kv.
     case unmarshal E dec_Node (snd kv) of None \<Rightarrow> Inl (Errx ErrCodeInternal)
     | Some node \<Rightarrow> Inr (Append node))"

definition fab_GetNode :: "'l fabric_stub \<Rightarrow> string list \<Rightarrow> ('l, blob) act" where
  "fab_GetNode F args =
     (case args of [] \<Rightarrow> fail (Errx ErrCodeInternal)
      | nodeID # _ \<Rightarrow> found F (Errx ErrCodeNotFound) (fab_packNodeIndex nodeID))"

definition fab_checkAndSetNonce :: "'l fabric_stub \<Rightarrow> bytes \<Rightarrow> int64 \<Rightarrow> ('l, unit) act" where
  "fab_checkAndSetNonce F nodeID nonce =
     bnd (vacant F (Errx ErrCodeAlreadyExists) (fab_packNonceIndex nodeID nonce)) (\<lambda>_.
     set_value F (fab_packNonceIndex nodeID nonce) (Raw (FormatInt nonce)))"

definition fab_setNodeOnlineStatus ::
    "'l fabric_stub \<Rightarrow> env \<Rightarrow> NodeOperateOptions arg \<Rightarrow> bool \<Rightarrow> ('l, string) act" where
  "fab_setNodeOnlineStatus F E a online =
     bnd (fab_arg a) (\<lambda>opt.
     bnd (fab_checkAndSetNonce F (noo_NodeID opt) (noo_Nonce opt)) (\<lambda>_.
     bnd (need (Errx ErrCodeInternal) (hexDecode (noo_NodeID opt))) (\<lambda>npk.
     bnd (checkSigned E (noo_Signature opt) npk (enc_NodeOperateOptions opt)) (\<lambda>_.
     let index = fab_packNodeIndex (noo_NodeID opt) in
     bnd (found F (Errx ErrCodeNotFound) index) (\<lambda>oldn.
     bnd (need (Errx ErrCodeInternal) (unmarshal E dec_Node oldn)) (\<lambda>node.
     if nd_Online node \<noteq> online then
       let node = node\<lparr>nd_Online := online\<rparr>; newn = Doc (enc_Node node) in
       bnd (set_value F index newn) (\<lambda>_.
       bnd (set_value F (fab_packNodeListIndex node) newn) (\<lambda>_.
       ret ''OK''))
     else ret ''OK''))))))"

definition fab_NodeOffline :: "'l fabric_stub \<Rightarrow> env \<Rightarrow> NodeOperateOptions arg \<Rightarrow> ('l, string) act" where
  "fab_NodeOffline F E a = fab_setNodeOnlineStatus F E a False"

definition fab_NodeOnline :: "'l fabric_stub \<Rightarrow> env \<Rightarrow> NodeOperateOptions arg \<Rightarrow> ('l, string) act" where
  "fab_NodeOnline F E a = fab_setNodeOnlineStatus F E a True"

definition fab_next_heartbeats :: "env \<Rightarrow> blob \<Rightarrow> int64 \<Rightarrow> int64 list result" where
  "fab_next_heartbeats E hl now =
     (if hl = Raw [] then Inr [now]
      else case unmarshal E dec_times hl of None \<Rightarrow> Inl (Errx ErrCodeInternal)
        | Some hb \<Rightarrow> (if now \<in> set hb then Inl Panicked else Inr (hb @ [now])))"

definition fab_Heartbeat :: "'l fabric_stub \<Rightarrow> env \<Rightarrow> NodeHeartBeatOptions arg \<Rightarrow> ('l, string) act" where
  "fab_Heartbeat F E a =
     bnd (fab_arg a) (\<lambda>opt.
     bnd (need (Errx ErrCodeInternal) (hexDecode (hbo_NodeID opt))) (\<lambda>nodePK.
     bnd (checkSigned E (hbo_Signature opt) nodePK (enc_NodeHeartBeatOptions opt)) (\<lambda>_.
     let hindex = fab_packHeartBeatIndex (hbo_NodeID opt) (hbo_BeginningTime opt);
         index = fab_packNodeIndex (hbo_NodeID opt) in
     bnd (reads (\<lambda>t. fab_next_heartbeats E (payload F hindex t) (hbo_CurrentTime opt))) (\<lambda>hb.
     bnd (set_value F hindex (Doc (enc_times hb))) (\<lambda>_.
     bnd (found F (Errx ErrCodeNotFound) index) (\<lambda>oldn.
     bnd (need (Errx ErrCodeInternal) (unmarshal E dec_Node oldn)) (\<lambda>node.
     let node = node\<lparr>nd_UpdateAt := hbo_CurrentTime opt\<rparr>; newNode = Doc (enc_Node node) in
     bnd (set_value F index newNode) (\<lambda>_.
     bnd (set_value F (fab_packNodeListIndex node) newNode) (\<lambda>_.
     ret [])))))))))"

definition fab_GetHeartbeatNum :: "'l fabric_stub \<Rightarrow> env \<Rightarrow> string list \<Rightarrow> ('l, string) act" where
  "fab_GetHeartbeatNum F E args =
     (case args of nodeID # t # _ \<Rightarrow>
        bnd (need (Errx ErrCodeInternal) (ParseInt t)) (\<lambda>ctime.
        bnd (found F (Errx ErrCodeNotFound) (fab_packHeartBeatIndex nodeID ctime)) (\<lambda>n.
        bnd (need (Errx ErrCodeInternal) (unmarshal E dec_times n)) (\<lambda>hb.
        ret (dec_nat (length hb)))))
      | _ \<Rightarrow> fail (Errx ErrCodeInternal))"

definition fab_ListNodesExpireSlice :: "'l fabric_stub \<Rightarrow> ListNodeSliceOptions arg \<Rightarrow> ('l, string list) act" where
  "fab_ListNodesExpireSlice F a =
     bnd (fab_arg a) (\<lambda>opt.
     bnd (need (Errx ErrCodeInternal) (hexDecode (lno_Target opt))) (\<lambda>pubkey.
     bnd (require (Errx ErrCodeParam) (\<not> bad_slice_query opt pubkey)) (\<lambda>_.
     iterate F (fab_packNodeSliceFilter (lno_Target opt)) (\<lambda>t sl kv.
       case fab_getNodeSliceFileID (fst kv) of None \<Rightarrow> Inl Panicked
       | Some expireTime \<Rightarrow>
           if limit_reached (lno_Limit opt) sl \<or> expireTime = 0 then Inr Break
           else if expireTime <s lno_StartTime opt \<or> lno_EndTime opt <s expireTime then Inr Continue
           else Inr (Append (blob_text (snd kv)))))))"

definition fab_GetSliceMigrateRecords ::
    "'l fabric_stub \<Rightarrow> env \<Rightarrow> NodeSliceMigrateOptions arg \<Rightarrow> ('l, migrate_record list) act" where
  "fab_GetSliceMigrateRecords F E a =
     bnd (fab_arg a) (\<lambda>opt.
     bnd (need (Errx ErrCodeInternal) (hexDecode (lno_Target opt))) (\<lambda>pubkey.
     bnd (require (Errx ErrCodeParam) (\<not> bad_slice_query opt pubkey)) (\<lambda>_.
     iterate F (fab_packNodeSliceMigrateFilter (lno_Target opt)) (\<lambda>t sl kv.
       case fab_getNodeSliceMigrateTime (fst kv) of None \<Rightarrow> Inl Panicked
       | Some mTime \<Rightarrow>
           if limit_reached (lno_Limit opt) sl \<or> mTime = 0 then Inr Break
           else if mTime <s lno_StartTime opt \<or> lno_EndTime opt <s mTime then Inr Continue
           else case unmarshal E dec_record (snd kv) of
               None \<Rightarrow> Inl (Errx ErrCodeInternal)
             | Some None \<Rightarrow> Inl Panicked
             | Some (Some mr) \<Rightarrow> Inr (Append (with_ctime mTime mr))))))"

section \<open>Files and namespaces\<close>

text \<open>A file that is not found is reported by wrapping a nil error.\<close>

definition fab_getFileByID :: "'l fabric_stub \<Rightarrow> env \<Rightarrow> string \<Rightarrow> ('l, File) act" where
  "fab_getFileByID F E fileID =
     bnd (found F Panicked fileID) (\<lambda>s.
     need (Errx ErrCodeInternal) (unmarshal E dec_File s))"

definition fab_check_name_free :: "'l fabric_stub \<Rightarrow> env \<Rightarrow> string \<Rightarrow> int64 \<Rightarrow> ('l, unit) act" where
  "fab_check_name_free F E filenameIndex publishTime =
     (\<lambda>t. if payload F filenameIndex t \<noteq> Raw []
        then bnd (fab_getFileByID F E (blob_text (payload F filenameIndex t))) (\<lambda>fc.
          if publishTime <s f_ExpireTime fc + FileRetainPeriod
          then fail (Errx ErrCodeAlreadyExists) else ret ()) t
        else ret () t)"

definition fab_node_slice_writes :: "File \<Rightarrow> (string \<times> blob) list" where
  "fab_node_slice_writes f =
     map (\<lambda>(nd, sls). (fab_packNodeSliceIndex nd f, Raw (Join sls '',''))) (node_slices (f_Slices f))"

definition fab_PublishFile :: "'l fabric_stub \<Rightarrow> env \<Rightarrow> PublishFileOptions arg \<Rightarrow> ('l, string) act" where
  "fab_PublishFile F E a =
     bnd (fab_arg a) (\<lambda>opt.
     let f = pfo_File opt in
     bnd (checkSigned E (pfo_Signature opt) (f_Owner f) (enc_PublishFileOptions opt)) (\<lambda>_.
     bnd (require (Errx ErrCodeParam) (f_Slices f \<noteq> [])) (\<lambda>_.
     bnd (vacant F (Errx ErrCodeAlreadyExists) (f_ID f)) (\<lambda>_.
     let fileNsIndex = fab_packFileNsIndex (f_Owner f) (f_Namespace f) in
     bnd (found F (Errx ErrCodeNotFound) fileNsIndex) (\<lambda>nsr.
     bnd (need (Errx ErrCodeInternal) (unmarshal E dec_Namespace nsr)) (\<lambda>ns.
     let filenameIndex = fab_packFileNameIndex (f_Owner f) (f_Namespace f) (f_Name f) in
     bnd (fab_check_name_free F E filenameIndex (f_PublishTime f)) (\<lambda>_.
     bnd (set_value F (f_ID f) (Doc (enc_File f))) (\<lambda>_.
     bnd (set_value F filenameIndex (Raw (f_ID f))) (\<lambda>_.
     bnd (set_value F (fab_packFileListByOwnerIndex (f_Owner f) (f_Namespace f) (f_Name f) (f_PublishTime f))
            (Raw (f_ID f))) (\<lambda>_.
     bnd (set_value F (fab_packFileListByNsIndex (f_Owner f) (f_Namespace f) (f_Name f) (f_PublishTime f))
            (Raw (f_ID f))) (\<lambda>_.
     let ns = ns\<lparr>ns_FileTotalNum := ns_FileTotalNum ns + 1, ns_UpdateTime := f_PublishTime f\<rparr>;
         nsf = Doc (enc_Namespace ns) in
     bnd (set_value F fileNsIndex nsf) (\<lambda>_.
     bnd (set_value F (fab_packFileNsListIndex (ns_Owner ns) (ns_Name ns) (ns_CreateTime ns)) nsf) (\<lambda>_.
     bnd (set_values F (fab_node_slice_writes f)) (\<lambda>_.
     ret ''Published''))))))))))))))"

definition fab_AddFileNs :: "'l fabric_stub \<Rightarrow> env \<Rightarrow> AddNsOptions arg \<Rightarrow> ('l, string) act" where
  "fab_AddFileNs F E a =
     bnd (fab_arg a) (\<lambda>opt.
     let ns = aso_Namespace opt; s = Doc (enc_Namespace ns) in
     bnd (checkSigned E (aso_Signature opt) (ns_Owner ns) (enc_AddNsOptions opt)) (\<lambda>_.
     let fileNsIndex = fab_packFileNsIndex (ns_Owner ns) (ns_Name ns) in
     bnd (vacant F (Errx ErrCodeAlreadyExists) fileNsIndex) (\<lambda>_.
     bnd (set_value F fileNsIndex s) (\<lambda>_.
     bnd (set_value F (fab_packFileNsListIndex (ns_Owner ns) (ns_Name ns) (ns_CreateTime ns)) s) (\<lambda>_.
     ret ''OK'')))))"

definition fab_UpdateNsReplica :: "'l fabric_stub \<Rightarrow> env \<Rightarrow> UpdateNsReplicaOptions arg \<Rightarrow> ('l, string) act" where
  "fab_UpdateNsReplica F E a =
     bnd (fab_arg a) (\<lambda>opt.
     bnd (checkSigned E (uno_Signature opt) (uno_Owner opt) (enc_UpdateNsReplicaOptions opt)) (\<lambda>_.
     let fileNsIndex = fab_packFileNsIndex (uno_Owner opt) (uno_Name opt) in
     bnd (found F (Errx ErrCodeNotFound) fileNsIndex) (\<lambda>nsr.
     bnd (need (Errx ErrCodeInternal) (unmarshal E dec_Namespace nsr)) (\<lambda>n.
     bnd (require (Errx ErrCodeParam) (\<not> uno_Replica opt \<le>s ns_Replica n)) (\<lambda>_.
     let n = n\<lparr>ns_Replica := uno_Replica opt, ns_UpdateTime := uno_CurrentTime opt\<rparr>;
         s = Doc (enc_Namespace n) in
     bnd (set_value F fileNsIndex s) (\<lambda>_.
     bnd (set_value F (fab_packFileNsListIndex (ns_Owner n) (ns_Name n) (ns_CreateTime n)) s) (\<lambda>_.
     ret ''OK'')))))))"

definition fab_UpdateFilePublicSliceMeta ::
    "'l fabric_stub \<Rightarrow> env \<Rightarrow> UpdateFilePSMOptions arg \<Rightarrow> ('l, string) act" where
  "fab_UpdateFilePublicSliceMeta F E a =
     bnd (fab_arg a) (\<lambda>opt.
     bnd (checkSigned E (ufo_Signature opt) (ufo_Owner opt) (enc_UpdateFilePSMOptions opt)) (\<lambda>_.
     bnd (found F (Errx ErrCodeNotFound) (ufo_FileID opt)) (\<lambda>fs.
     bnd (need (Errx ErrCodeInternal) (unmarshal E dec_File fs)) (\<lambda>f.
     bnd (require (Errx ErrCodeNotAuthorized) (f_Owner f = ufo_Owner opt)) (\<lambda>_.
     let f = f\<lparr>f_Slices := ufo_Slices opt\<rparr> in
     bnd (set_value F (f_ID f) (Doc (enc_File f))) (\<lambda>_.
     ret ''OK''))))))"

definition fab_GetFileByName :: "'l fabric_stub \<Rightarrow> env \<Rightarrow> string list \<Rightarrow> ('l, blob) act" where
  "fab_GetFileByName F E args =
     (case args of owner # ns # name # t # _ \<Rightarrow>
        bnd (need (Errx ErrCodeInternal) (ParseInt t)) (\<lambda>ctime.
        bnd (found F (Errx ErrCodeParam) (fab_packFileNsIndex owner ns)) (\<lambda>_.
        bnd (found F (Errx ErrCodeNotFound) (fab_packFileNameIndex owner ns name)) (\<lambda>i.
        bnd (found F (Errx ErrCodeNotFound) (blob_text i)) (\<lambda>s.
        bnd (need (Errx ErrCodeInternal) (unmarshal E dec_File s)) (\<lambda>f.
        bnd (require (Errx ErrCodeNotFound) (\<not> f_ExpireTime f <s ctime)) (\<lambda>_.
        ret s))))))
      | _ \<Rightarrow> fail (Errx ErrCodeInternal))"

definition fab_GetFileByID :: "'l fabric_stub \<Rightarrow> env \<Rightarrow> string list \<Rightarrow> ('l, blob) act" where
  "fab_GetFileByID F E args =
     (case args of i # t # _ \<Rightarrow>
        bnd (need (Errx ErrCodeInternal) (ParseInt t)) (\<lambda>ctime.
        bnd (found F (Errx ErrCodeNotFound) i) (\<lambda>fs.
        bnd (need (Errx ErrCodeInternal) (unmarshal E dec_File fs)) (\<lambda>f.
        bnd (require (Errx ErrCodeExpired) (\<not> f_ExpireTime f <s ctime)) (\<lambda>_.
        ret fs))))
      | _ \<Rightarrow> fail (Errx ErrCodeInternal))"

definition fab_UpdateFileExpireTime ::
    "'l fabric_stub \<Rightarrow> env \<Rightarrow> UpdateExptimeOptions arg \<Rightarrow> ('l, blob) act" where
  "fab_UpdateFileExpireTime F E a =
     bnd (fab_arg a) (\<lambda>opt.
     bnd (fab_getFileByID F E (ueo_FileID opt)) (\<lambda>f.
     bnd (require (Errx ErrCodeParam) (\<not> f_ExpireTime f + FileRetainPeriod \<le>s ueo_CurrentTime opt)) (\<lambda>_.
     bnd (require (Errx ErrCodeParam)
            (\<not> (ueo_NewExpireTime opt \<le>s f_ExpireTime f \<or> ueo_NewExpireTime opt \<le>s ueo_CurrentTime opt))) (\<lambda>_.
     bnd (checkSigned E (ueo_Signature opt) (f_Owner f) (enc_UpdateExptimeOptions opt)) (\<lambda>_.
     let f = f\<lparr>f_ExpireTime := ueo_NewExpireTime opt\<rparr>; nf = Doc (enc_File f) in
     bnd (set_value F (f_ID f) nf) (\<lambda>_.
     ret nf))))))"

definition fab_SliceMigrateRecord :: "'l fabric_stub \<Rightarrow> env \<Rightarrow> SliceMigrateOptions arg \<Rightarrow> ('l, string) act" where
  "fab_SliceMigrateRecord F E a =
     bnd (fab_arg a) (\<lambda>opt.
     bnd (fab_getFileByID F E (smo_FileID opt)) (\<lambda>f.
     bnd (checkSigned E (smo_Signature opt) (f_Owner f) (enc_SliceMigrateOptions opt)) (\<lambda>_.
     let hindex = fab_packNodeSliceMigrateIndex (smo_NodeID opt) (smo_CurrentTime opt);
         fs = JObj [(''fileID'', JStr (smo_FileID opt)), (''sliceID'', JStr (smo_SliceID opt))] in
     bnd (set_value F hindex (Doc fs)) (\<lambda>_.
     ret ''ok''))))"

definition fab_list_files_body ::
    "'l fabric_stub \<Rightarrow> env \<Rightarrow> int64 \<Rightarrow> (File \<Rightarrow> bool) \<Rightarrow> 'l \<Rightarrow> File list \<Rightarrow> string \<times> blob \<Rightarrow> File iter result" where
  "fab_list_files_body F E limit skip t fs kv =
     (if limit_reached limit fs then Inr Break
      else case fst (fab_getFileByID F E (blob_text (snd kv)) t) of
          Inl e \<Rightarrow> Inl e
        | Inr f \<Rightarrow> if skip f then Inr Continue else Inr (Append f))"

definition fab_ListFiles :: "'l fabric_stub \<Rightarrow> env \<Rightarrow> ListFileOptions arg \<Rightarrow> ('l, File list) act" where
  "fab_ListFiles F E a =
     bnd (fab_arg a) (\<lambda>opt.
     iterate F (fab_packFileNameFilter (lfo_Owner opt) (lfo_Namespace opt))
       (fab_list_files_body F E (lfo_Limit opt) (\<lambda>f.
          outside_window opt (f_PublishTime f) \<or> f_ExpireTime f \<le>s lfo_CurrentTime opt)))"

definition fab_ListExpiredFiles :: "'l fabric_stub \<Rightarrow> env \<Rightarrow> ListFileOptions arg \<Rightarrow> ('l, File list) act" where
  "fab_ListExpiredFiles F E a =
     bnd (fab_arg a) (\<lambda>opt.
     iterate F (fab_packFileNameFilter (lfo_Owner opt) (lfo_Namespace opt))
       (fab_list_files_body F E (lfo_Limit opt) (\<lambda>f.
          outside_window opt (f_PublishTime f) \<or>
          f_ExpireTime f <s lfo_CurrentTime opt - FileRetainPeriod \<or> lfo_CurrentTime opt <s f_ExpireTime f)))"

definition fab_ListFileNs :: "'l fabric_stub \<Rightarrow> env \<Rightarrow> ListNsOptions arg \<Rightarrow> ('l, Namespace list) act" where
  "fab_ListFileNs F E a =
     bnd (fab_arg a) (\<lambda>opt.
     iterate F (fab_packFileNsListFilter (lfo_Owner opt)) (\<lambda>t nss kv.
       if limit_reached (lfo_Limit opt) nss then Inr Break
       else case unmarshal E dec_Namespace (snd kv) of
           None \<Rightarrow> Inl (Errx ErrCodeInternal)
         | Some ns \<Rightarrow> if outside_window opt (ns_CreateTime ns) then Inr Continue else Inr (Append ns)))"

definition fab_GetNsByName :: "'l fabric_stub \<Rightarrow> string list \<Rightarrow> ('l, blob) act" where
  "fab_GetNsByName F args =
     (case args of owner # ns # _ \<Rightarrow> found F (Errx ErrCodeNotFound) (fab_packFileNsIndex owner ns)
      | _ \<Rightarrow> fail (Errx ErrCodeInternal))"

section \<open>Challenges\<close>

definition fab_ChallengeRequest :: "'l fabric_stub \<Rightarrow> env \<Rightarrow> ChallengeRequestOptions arg \<Rightarrow> ('l, string) act" where
  "fab_ChallengeRequest F E a =
     bnd (fab_arg a) (\<lambda>opt.
     let index = fab_packChallengeIndex (cro_ChallengeID opt) in
     bnd (vacant F (Errx ErrCodeAlreadyExists) index) (\<lambda>_.
     bnd (checkSigned E (cro_Signature opt) (cro_FileOwner opt) (enc_ChallengeRequestOptions opt)) (\<lambda>_.
     bnd (need (Errx ErrCodeParam) (make_challenge opt)) (\<lambda>c.
     bnd (set_value F index (Doc (enc_Challenge c))) (\<lambda>_.
     bnd (set_value F (fab_packChallengeIndex4Owner c) (Raw (ch_ID c))) (\<lambda>_.
     bnd (set_value F (fab_packChallengeIndex4Target c) (Raw (ch_ID c))) (\<lambda>_.
     ret ''requested'')))))))"

definition fab_ChallengeAnswer :: "'l fabric_stub \<Rightarrow> env \<Rightarrow> ChallengeAnswerOptions arg \<Rightarrow> ('l, string) act" where
  "fab_ChallengeAnswer F E a =
     bnd (fab_arg a) (\<lambda>opt.
     let index = fab_packChallengeIndex (cao_ChallengeID opt) in
     bnd (found F (Errx ErrCodeNotFound) index) (\<lambda>s.
     bnd (need (Errx ErrCodeInternal) (unmarshal E dec_Challenge s)) (\<lambda>c.
     bnd (require (Errx ErrCodeAlreadyExists)
            (\<not> (ch_Status c = ChallengeProved \<or> ch_Status c = ChallengeFailed))) (\<lambda>_.
     bnd (need (Errx ErrCodeInternal) (GetSigMessage (enc_ChallengeAnswerOptions opt))) (\<lambda>msg.
     bnd (need (Errx ErrCodeParam) (hexDecode (ch_TargetNode c))) (\<lambda>targetNode.
     bnd (checkSign E (cao_Signature opt) targetNode msg) (\<lambda>_.
     bnd (found F (Errx ErrCodeNotFound) (ch_FileID c)) (\<lambda>f.
     bnd (need (Errx ErrCodeInternal) (unmarshal E dec_File f)) (\<lambda>file.
     bnd (lift (verify_answer E opt c file)) (\<lambda>ok.
     let c = c\<lparr>ch_AnswerTime := cao_AnswerTime opt,
               ch_Status := (if ok then ChallengeProved else ChallengeFailed)\<rparr> in
     bnd (set_value F index (Doc (enc_Challenge c))) (\<lambda>_.
     ret (if ch_Status c = ChallengeProved then ''answered'' else ''verification failed''))))))))))))"

definition fab_challenge_of_entry ::
    "'l fabric_stub \<Rightarrow> env \<Rightarrow> fault \<Rightarrow> 'l \<Rightarrow> string \<times> blob \<Rightarrow> Challenge result" where
  "fab_challenge_of_entry F E missing t kv =
     fst (bnd (found F missing (fab_packChallengeIndex (blob_text (snd kv)))) (\<lambda>b.
          need (Errx ErrCodeInternal) (unmarshal E dec_Challenge b)) t)"

definition fab_ListChallengeRequests ::
    "'l fabric_stub \<Rightarrow> env \<Rightarrow> ListChallengeOptions arg \<Rightarrow> ('l, Challenge list) act" where
  "fab_ListChallengeRequests F E a =
     bnd (fab_arg a) (\<lambda>opt.
     iterate F (fab_packChallengeFilter (lco_FileOwner opt) (lco_TargetNode opt)) (\<lambda>t cs kv.
       if limit_reached (lco_Limit opt) cs then Inr Break
       else case fab_challenge_of_entry F E (Errx ErrCodeNotFound) t kv of
           Inl e \<Rightarrow> Inl e
         | Inr c \<Rightarrow>
             if ch_Status c \<noteq> lco_Status opt \<or> ch_ChallengeTime c <s lco_TimeStart opt \<or>
                lco_TimeEnd opt <s ch_ChallengeTime c then Inr Continue
             else if lco_FileID opt \<noteq> [] \<and> ch_FileID c \<noteq> lco_FileID opt then Inr Continue
             else Inr (Append c)))"

definition fab_GetChallengeByID :: "'l fabric_stub \<Rightarrow> string list \<Rightarrow> ('l, blob) act" where
  "fab_GetChallengeByID F args =
     (case args of [] \<Rightarrow> fail (Errx ErrCodeInternal)
      | i # _ \<Rightarrow> found F (Errx ErrCodeNotFound) (fab_packChallengeIndex i))"

text \<open>A challenge that is not found is reported here by wrapping a nil error.\<close>

definition fab_GetChallengeNum :: "'l fabric_stub \<Rightarrow> env \<Rightarrow> GetChallengeNumOptions arg \<Rightarrow> ('l, string) act" where
  "fab_GetChallengeNum F E a =
     bnd (fab_arg a) (\<lambda>opt.
     bnd (iterate F (fab_packChallengeFilter [] (gco_TargetNode opt)) (\<lambda>t counted kv.
       case fab_challenge_of_entry F E Panicked t kv of
         Inl e \<Rightarrow> Inl e
       | Inr c \<Rightarrow>
           if ch_ChallengeTime c <s gco_TimeStart opt \<or> gco_TimeEnd opt <s ch_ChallengeTime c
           then Inr Continue
           else if gco_Status opt \<noteq> [] \<and> ch_Status c \<noteq> gco_Status opt then Inr Continue
           else Inr (Append c))) (\<lambda>counted.
     ret (dec_nat (length counted))))"

section \<open>File authorizations\<close>

text \<open>The signature is checked twice.\<close>

definition fab_PublishFileAuthApplication ::
    "'l fabric_stub \<Rightarrow> env \<Rightarrow> PublishFileAuthOptions arg \<Rightarrow> ('l, string) act" where
  "fab_PublishFileAuthApplication F E a =
     bnd (fab_arg a) (\<lambda>opt.
     let fa = pao_FileAuthApplication opt in
     bnd (need (Errx ErrCodeInternal) (GetSigMessage (enc_PublishFileAuthOptions opt))) (\<lambda>msg.
     bnd (checkSign E (pao_Signature opt) (fa_Applier fa) msg) (\<lambda>_.
     bnd (checkSign E (pao_Signature opt) (fa_Applier fa) msg) (\<lambda>_.
     let fa = fa\<lparr>fa_Status := FileAuthUnapproved\<rparr>;
         s = Doc (enc_FileAuthApplication fa);
         fileAuthIndex = fab_packFileAuthIndex (fa_ID fa) in
     bnd (vacant F (Errx ErrCodeAlreadyExists) fileAuthIndex) (\<lambda>_.
     bnd (set_value F fileAuthIndex s) (\<lambda>_.
     bnd (set_value F (fab_packFileAuthApplierIndex (fa_Applier fa) (fa_ID fa) (fa_CreateTime fa))
            (Raw (fa_ID fa))) (\<lambda>_.
     bnd (set_value F (fab_packFileAuthAuthorizerIndex (fa_Authorizer fa) (fa_ID fa) (fa_CreateTime fa))
            (Raw (fa_ID fa))) (\<lambda>_.
     bnd (set_value F (fab_packApplierAndAuthorizerIndex (fa_Applier fa) (fa_Authorizer fa) (fa_ID fa)
            (fa_CreateTime fa)) (Raw (fa_ID fa))) (\<lambda>_.
     ret ''OK'')))))))))"

definition fab_getFileAuthByID :: "'l fabric_stub \<Rightarrow> env \<Rightarrow> string \<Rightarrow> ('l, FileAuthApplication) act" where
  "fab_getFileAuthByID F E authID =
     bnd (found F (Errx ErrCodeNotFound) (fab_packFileAuthIndex authID)) (\<lambda>s.
     need (Errx ErrCodeInternal) (unmarshal E dec_FileAuthApplication s))"

definition fab_setFileAuthConfirmStatus ::
    "'l fabric_stub \<Rightarrow> env \<Rightarrow> ConfirmFileAuthOptions arg \<Rightarrow> bool \<Rightarrow> ('l, string) act" where
  "fab_setFileAuthConfirmStatus F E a isConfirm =
     bnd (fab_arg a) (\<lambda>opt.
     bnd (fab_getFileAuthByID F E (cfo_ID opt)) (\<lambda>fa.
     bnd (checkSigned E (cfo_Signature opt) (fa_Authorizer fa) (enc_ConfirmFileAuthOptions opt)) (\<lambda>_.
     bnd (require (Errx ErrCodeParam) (fa_Status fa = FileAuthUnapproved)) (\<lambda>_.
     let fa = fa\<lparr>fa_ApprovalTime := cfo_CurrentTime opt\<rparr>;
         fa = (if isConfirm
               then fa\<lparr>fa_Status := FileAuthApproved, fa_ExpireTime := cfo_ExpireTime opt,
                       fa_AuthKey := cfo_AuthKey opt\<rparr>
               else fa\<lparr>fa_Status := FileAuthRejected, fa_RejectReason := cfo_RejectReason opt\<rparr>) in
     bnd (set_value F (fab_packFileAuthIndex (fa_ID fa)) (Doc (enc_FileAuthApplication fa))) (\<lambda>_.
     ret ''OK'')))))"

definition fab_ConfirmFileAuthApplication ::
    "'l fabric_stub \<Rightarrow> env \<Rightarrow> ConfirmFileAuthOptions arg \<Rightarrow> ('l, string) act" where
  "fab_ConfirmFileAuthApplication F E a = fab_setFileAuthConfirmStatus F E a True"

definition fab_RejectFileAuthApplication ::
    "'l fabric_stub \<Rightarrow> env \<Rightarrow> ConfirmFileAuthOptions arg \<Rightarrow> ('l, string) act" where
  "fab_RejectFileAuthApplication F E a = fab_setFileAuthConfirmStatus F E a False"

definition fab_ListFileAuthApplications ::
    "'l fabric_stub \<Rightarrow> env \<Rightarrow> ListFileAuthOptions arg \<Rightarrow> ('l, FileAuthApplication list) act" where
  "fab_ListFileAuthApplications F E a =
     bnd (fab_arg a) (\<lambda>opt.
     iterate F (fab_packFileAuthFilter (lao_Applier opt) (lao_Authorizer opt)) (\<lambda>t fas kv.
       if limit_reached (lao_Limit opt) fas then Inr Break
       else case fst (fab_getFileAuthByID F E (blob_text (snd kv)) t) of
           Inl e \<Rightarrow> Inl e
         | Inr fa \<Rightarrow>
             if fa_CreateTime fa <s lao_TimeStart opt \<or> lao_TimeEnd opt <s fa_CreateTime fa
             then Inr Continue
             else if lao_FileID opt \<noteq> [] \<and> lao_FileID opt \<noteq> fa_FileID fa then Inr Continue
             else if lao_Status opt \<noteq> [] \<and> lao_Status opt \<noteq> fa_Status fa then Inr Continue
             else Inr (Append fa)))"

definition fab_GetAuthApplicationByID :: "'l fabric_stub \<Rightarrow> string list \<Rightarrow> ('l, blob) act" where
  "fab_GetAuthApplicationByID F args =
     (case args of [] \<Rightarrow> fail (Errx ErrCodeInternal)
      | i # _ \<Rightarrow> found F (Errx ErrCodeNotFound) (fab_packFileAuthIndex i))"

end
