(* ===== verification/FabRefine.thy ===== *)
theory FabRefine
  imports FabContract
begin

text \<open>
  The storage chaincode behaves as the storage contract. The keys of both name the same objects when
  identifiers and names contain neither separator; ledgers mirror each other when they hold the same
  values under such keys. Every call then commits on both ledgers or on none and leaves them mirrored,
  although the chaincode does not see its own writes.
\<close>

section \<open>Keys of the same object\<close>

definition clean_part :: "string \<Rightarrow> bool" where
  "clean_part p \<longleftrightarrow> CHR ''/'' \<notin> set p \<and> nul \<notin> set p"

definition clean_id :: "string \<Rightarrow> bool" where
  "clean_id k \<longleftrightarrow> plain_id k \<and> nul \<notin> set k \<and> k \<noteq> []"

definition twin :: "string \<Rightarrow> string \<Rightarrow> bool" where
  "twin x k \<longleftrightarrow> (\<exists>i ps. x = key i ps \<and> k = fab_key i ps \<and> ps \<noteq> [] \<and> list_all clean_part ps) \<or>
     (x = k \<and> clean_id x)"

lemma dec_nat_no_nul [simp]: "nul \<notin> set (dec_nat n)"
proof
  assume "nul \<in> set (dec_nat n)"
  then obtain d where d: "d < 10" "nul = digit d" using dec_nat_chars by blast
  then have "(of_char nul :: nat) = of_char (digit d)" by simp
  then show False using of_char_digit[OF d(1)] by simp
qed

lemma FormatInt_no_nul [simp]: "nul \<notin> set (FormatInt n)"
  by (simp add: FormatInt_def dec_int_def)

lemma hexdigit_neq_nul [simp]:
  assumes "n < 16"
  shows "hexdigit n \<noteq> nul"
proof
  note n = assms
  assume "hexdigit n = nul"
  note n = n this
  from n(1) have "hexval (hexdigit n) = Some n" by simp
  moreover have "hexval nul = None" by (simp add: hexval_def)
  ultimately show False using n(2) by simp
qed

lemma hex_no_nul [simp]: "nul \<notin> set (hex bs)"
  by (induction bs) (auto simp: eq_commute[of nul])

lemma clean_parts [simp]: "clean_part (FormatInt n)" "clean_part (hex bs)"
  by (simp_all add: clean_part_def)

lemma clean_id_part [simp]: "clean_id k \<Longrightarrow> clean_part k"
  by (simp add: clean_part_def clean_id_def plain_id_def)

lemma clean_id_plain: "clean_id k \<Longrightarrow> plain_id k" "clean_id k \<Longrightarrow> k \<noteq> []"
  by (simp_all add: clean_id_def)

lemma Join_inj:
  assumes "ps \<noteq> []" "qs \<noteq> []" "list_all clean_part ps" "list_all clean_part qs"
  shows "Join ps ''/'' = Join qs ''/'' \<longleftrightarrow> ps = qs"
  using assms
proof (induction ps arbitrary: qs)
  case (Cons p ps)
  obtain q qs' where qs: "qs = q # qs'" using Cons.prems(2) by (cases qs) simp_all
  have no: "CHR ''/'' \<notin> set p" "CHR ''/'' \<notin> set q" using Cons.prems by (simp_all add: qs clean_part_def)
  show ?case
  proof (cases "ps = [] \<or> qs' = []")
    case True
    then show ?thesis using no
      by (cases ps; cases qs') (auto simp: qs Join.simps(3))
  next
    case False
    then obtain p' ps' q' qs'' where e: "ps = p' # ps'" "qs' = q' # qs''" by (meson neq_Nil_conv)
    from Cons.IH[of qs'] Cons.prems False show ?thesis
      by (simp add: qs e Join_plain[OF no])
  qed
qed simp

lemma concat_inj:
  assumes "\<forall>p \<in> set ps. c \<notin> set p" "\<forall>q \<in> set qs. c \<notin> set q"
  shows "concat (map (\<lambda>a. a @ [c]) ps) = concat (map (\<lambda>a. a @ [c]) qs) \<longleftrightarrow> ps = qs"
  using assms
proof (induction ps arbitrary: qs)
  case Nil
  then show ?case by (cases qs) simp_all
next
  case (Cons p ps)
  show ?case
  proof (cases qs)
    case (Cons q qs')
    with Cons.prems have "c \<notin> set p" "c \<notin> set q" by simp_all
    then have "p @ c # x = q @ c # y \<longleftrightarrow> p = q \<and> x = y" for x y by (rule sep_eq)
    with Cons.IH[of qs'] Cons.prems Cons show ?thesis by simp
  qed simp
qed

lemma prefix_of_no_nul [simp]: "nul \<notin> set (prefix_of i)"
  by (cases i) simp_all

lemma fab_key_eq:
  assumes "list_all clean_part ps" "list_all clean_part qs"
  shows "fab_key i ps = fab_key j qs \<longleftrightarrow> i = j \<and> ps = qs"
proof -
  have "fab_key i ps = fab_key j qs \<longleftrightarrow> prefix_of i = prefix_of j \<and>
      concat (map (\<lambda>a. a @ [nul]) ps) = concat (map (\<lambda>a. a @ [nul]) qs)"
    by (simp add: fab_key_def createCompositeKey_def sep_eq)
  also have "\<dots> \<longleftrightarrow> i = j \<and> ps = qs"
    using assms concat_inj[of ps nul qs] by (simp add: list_all_iff clean_part_def)
  finally show ?thesis .
qed

lemma nul_in_fab_key: "nul \<in> set (fab_key i ps)"
  by (simp add: fab_key_def createCompositeKey_def)

lemma not_clean_key [simp]: "\<not> clean_id (key i ps)" "\<not> clean_id (fab_key i ps)"
  using nul_in_fab_key[of i ps] by (simp_all add: clean_id_def)

lemma twin_cases:
  assumes "twin x k"
  obtains i ps where "x = key i ps" "k = fab_key i ps" "ps \<noteq> []" "list_all clean_part ps"
  | "x = k" "clean_id k"
  using assms by (auto simp: twin_def)

lemma twin_eq:
  assumes "twin x k" and "twin y l"
  shows "x = y \<longleftrightarrow> k = l"
  using assms(1)
proof (cases rule: twin_cases)
  case (1 i ps)
  from assms(2) show ?thesis
    by (cases rule: twin_cases) (use 1 in \<open>auto simp: fab_key_eq Join_inj\<close>)
next
  case 2
  from assms(2) show ?thesis
    by (cases rule: twin_cases) (use 2 in auto)
qed

lemma twin_nonempty: "twin x k \<Longrightarrow> k \<noteq> []"
  by (cases rule: twin_cases) (auto simp: fab_key_def createCompositeKey_def clean_id_def)

lemma twin_key: "ps \<noteq> [] \<Longrightarrow> list_all clean_part ps \<Longrightarrow> twin (key i ps) (fab_key i ps)"
  unfolding twin_def by blast

lemma twin_id [simp]: "clean_id k \<Longrightarrow> twin k k"
  by (simp add: twin_def)

lemma twin_packs [simp]:
  "twin (packNodeIndex n) (fab_packNodeIndex n)"
  "twin (packNodeListIndex nd) (fab_packNodeListIndex nd)"
  "twin (packNodeHeartBeatIndex n t) (fab_packHeartBeatIndex n t)"
  "twin (packNonceIndex n t) (fab_packNonceIndex n t)"
  "clean_part m \<Longrightarrow> clean_part (f_ID f) \<Longrightarrow> twin (packNodeSliceIndex m f) (fab_packNodeSliceIndex m f)"
  "clean_part m \<Longrightarrow> twin (packNodeSliceMigrateIndex m t) (fab_packNodeSliceMigrateIndex m t)"
  "clean_part ns \<Longrightarrow> clean_part nm \<Longrightarrow> twin (packFileNameIndex n ns nm) (fab_packFileNameIndex n ns nm)"
  "clean_part ns \<Longrightarrow> clean_part nm \<Longrightarrow> twin (packFileListByOwnerIndex n ns nm t) (fab_packFileListByOwnerIndex n ns nm t)"
  "clean_part ns \<Longrightarrow> clean_part nm \<Longrightarrow> twin (packFileListByNsIndex n ns nm t) (fab_packFileListByNsIndex n ns nm t)"
  "clean_part ns \<Longrightarrow> twin (packFileNsIndex n ns) (fab_packFileNsIndex n ns)"
  "clean_part ns \<Longrightarrow> twin (packFileNsListIndex n ns t) (fab_packFileNsListIndex n ns t)"
  "clean_part i \<Longrightarrow> twin (packFileAuthIndex i) (fab_packFileAuthIndex i)"
  "clean_part i \<Longrightarrow> twin (packFileAuthApplierIndex n i t) (fab_packFileAuthApplierIndex n i t)"
  "clean_part i \<Longrightarrow> twin (packFileAuthAuthorizerIndex n i t) (fab_packFileAuthAuthorizerIndex n i t)"
  "clean_part i \<Longrightarrow> twin (packApplierAndAuthorizerIndex n m' i t) (fab_packApplierAndAuthorizerIndex n m' i t)"
  "clean_part i \<Longrightarrow> twin (packChallengeIndex i) (fab_packChallengeIndex i)"
  "clean_part (ch_ID c) \<Longrightarrow> twin (packChallengeIndex4Owner c) (fab_packChallengeIndex4Owner c)"
  "clean_part (ch_ID c) \<Longrightarrow> twin (packChallengeIndex4Target c) (fab_packChallengeIndex4Target c)"
  unfolding pack_defs fab_pack_defs by (rule twin_key; simp)+

section \<open>Mirrored ledgers\<close>

definition value_of :: "blob option \<Rightarrow> blob" where
  "value_of v = (case v of None \<Rightarrow> Raw [] | Some b \<Rightarrow> b)"

lemma value_of_simps [simp]: "value_of (Some v) = v" "value_of None = Raw []"
  by (simp_all add: value_of_def)

text \<open>What the chaincode ledger holds once the writes of the transaction are committed.\<close>

definition mirrors :: "'s chain_ops \<Rightarrow> 'l fabric_stub \<Rightarrow> 's \<Rightarrow> 'l \<Rightarrow> bool" where
  "mirrors C F s t \<longleftrightarrow> (\<forall>x k. twin x k \<longrightarrow> get_object C s x \<noteq> Some (Raw []) \<and>
     GetState F (commitTx F t) k = Some (value_of (get_object C s x)))"

definition settled :: "'l fabric_stub \<Rightarrow> 'l \<Rightarrow> bool" where
  "settled F t \<longleftrightarrow> (\<forall>k. GetState F t k = GetState F (commitTx F t) k)"

text \<open>
  In the middle of a call that began at the ledger \<open>s0\<close> and has written the keys \<open>W\<close>: the ledgers
  mirror each other, and the chaincode reads the other keys as they are.
\<close>

definition tracks :: "'s chain_ops \<Rightarrow> 'l fabric_stub \<Rightarrow> 's \<Rightarrow> string set \<Rightarrow> 's \<Rightarrow> 'l \<Rightarrow> bool" where
  "tracks C F s0 W s t \<longleftrightarrow> mirrors C F s t \<and>
     (\<forall>x k. twin x k \<longrightarrow> k \<notin> W \<longrightarrow>
        GetState F t k = GetState F (commitTx F t) k \<and> get_object C s x = get_object C s0 x)"

text \<open>Both computations fail, or both return and leave mirrored ledgers.\<close>

definition agree :: "'s chain_ops \<Rightarrow> 'l fabric_stub \<Rightarrow> 's option \<Rightarrow> 'l option \<Rightarrow> bool" where
  "agree C F p q \<longleftrightarrow> (case p of None \<Rightarrow> q = None | Some s' \<Rightarrow> \<exists>t'. q = Some t' \<and> mirrors C F s' t')"

definition sim :: "'s chain_ops \<Rightarrow> 'l fabric_stub \<Rightarrow> 's \<Rightarrow> string set \<Rightarrow> ('s, 'a) act \<Rightarrow> ('l, 'b) act \<Rightarrow> bool" where
  "sim C F s0 W m n \<longleftrightarrow> (\<forall>s t. tracks C F s0 W s t \<longrightarrow> agree C F (commit m s) (commit n t))"

lemma agree_simps [simp]:
  "agree C F None None" "agree C F (Some s) (Some t) \<longleftrightarrow> mirrors C F s t"
  by (simp_all add: agree_def)

named_theorems simI \<open>rules of the simulation\<close>

lemma commit_bnd: "commit (bnd m f) s = (case m s of (Inl e, s') \<Rightarrow> None | (Inr x, s') \<Rightarrow> commit (f x) s')"
  by (simp add: commit_def bnd_def split: prod.splits sum.splits)

lemma commit_simps [simp]:
  "commit (ret x) s = Some s" "commit (fail e) s = None"
  "commit (bnd (ret x) f) s = commit (f x) s" "commit (bnd (fail e) f) s = None"
  by (simp_all add: commit_def act_defs)

lemma sim_ret [simI]: "sim C F s0 W (ret x) (ret y)"
  by (simp add: sim_def tracks_def)

lemma sim_fail [simI]: "sim C F s0 W (fail x) (fail y)"
  by (simp add: sim_def)

lemma sim_get_arg [simI]:
  assumes "\<And>x. a = Got x \<Longrightarrow> sim C F s0 W (f x) (g x)"
  shows "sim C F s0 W (bnd (get_arg e a) f) (bnd (fab_arg a) g)"
  using assms by (cases a) (simp_all add: get_arg_def fab_arg_def sim_def)

lemma bnd_fab_got: "bnd (fab_arg (Got x)) f = f x"
  by (simp add: bnd_def fab_arg_def ret_def)

lemma sim_require [simI]:
  assumes "b \<Longrightarrow> sim C F s0 W (f ()) (g ())"
  shows "sim C F s0 W (bnd (require e b) f) (bnd (require e' b) g)"
  using assms by (cases b) (simp_all add: require_def sim_def)

lemma sim_need [simI]:
  assumes "\<And>x. v = Some x \<Longrightarrow> sim C F s0 W (f x) (g x)"
  shows "sim C F s0 W (bnd (need e v) f) (bnd (need e' v) g)"
  using assms by (cases v) (simp_all add: need_def sim_def)

lemma sim_lift [simI]:
  assumes "\<And>x. r = Inr x \<Longrightarrow> sim C F s0 W (f x) (g x)"
  shows "sim C F s0 W (bnd (lift r) f) (bnd (lift r) g)"
  using assms by (cases r) (simp_all add: lift_def sim_def commit_bnd)

lemma sim_checkSign [simI]:
  assumes "sim C F s0 W (f ()) (g ())"
  shows "sim C F s0 W (bnd (checkSign E sg ow m) f) (bnd (checkSign E sg ow m) g)"
  using assms by (simp add: checkSign_def sim_def)

lemma bnd_assoc: "bnd (bnd m f) g = bnd m (\<lambda>x. bnd (f x) g)"
  by (rule ext) (simp add: bnd_def split: prod.splits sum.splits)

lemma sim_checkSigned [simI]:
  assumes "sim C F s0 W (f ()) (g ())"
  shows "sim C F s0 W (bnd (checkSigned E sg ow j) f) (bnd (checkSigned E sg ow j) g)"
  unfolding checkSigned_def bnd_assoc by (intro simI assms)

lemma sim_if [simI]:
  assumes "b \<Longrightarrow> sim C F s0 W m n" and "\<not> b \<Longrightarrow> sim C F s0 W m' n'"
  shows "sim C F s0 W (if b then m else m') (if b then n else n')"
  using assms by simp

locale both_ledgers = durable_chain C + fabric F for C :: "'s chain_ops" and F :: "'l fabric_stub"
begin

lemma payload_tracks:
  assumes "tracks C F s0 W s t" and "twin x k" and "k \<notin> W"
  shows "payload F k t = value_of (get_object C s0 x)"
    and "get_object C s x = get_object C s0 x" and "get_object C s0 x \<noteq> Some (Raw [])"
proof -
  from assms(1,2) have "get_object C s x \<noteq> Some (Raw [])"
      "GetState F (commitTx F t) k = Some (value_of (get_object C s x))"
    unfolding tracks_def mirrors_def by blast+
  moreover from assms have "GetState F t k = GetState F (commitTx F t) k" "get_object C s x = get_object C s0 x"
    unfolding tracks_def by blast+
  ultimately show "payload F k t = value_of (get_object C s0 x)" "get_object C s x = get_object C s0 x"
      "get_object C s0 x \<noteq> Some (Raw [])"
    by (simp_all add: payload_def GetValue_def reads_def)
qed

lemma sim_get [simI]:
  assumes "twin x k" and "k \<notin> W" and "\<And>v. get_object C s0 x = Some v \<Longrightarrow> sim C F s0 W (f v) (g v)"
  shows "sim C F s0 W (bnd (get_obj C e x) f) (bnd (found F e' k) g)"
  unfolding sim_def
proof (intro allI impI)
  fix s t assume t: "tracks C F s0 W s t"
  note p = payload_tracks[OF t assms(1,2)]
  show "agree C F (commit (bnd (get_obj C e x) f) s) (commit (bnd (found F e' k) g) t)"
  proof (cases "get_object C s0 x")
    case None
    then show ?thesis by (simp add: commit_bnd get_obj_def found_def reads_def p)
  next
    case (Some v)
    from assms(3)[OF Some] t p(3) show ?thesis
      by (simp add: commit_bnd get_obj_def found_def reads_def p Some sim_def)
  qed
qed

lemma sim_absent [simI]:
  assumes "twin x k" and "k \<notin> W" and "sim C F s0 W (f ()) (g ())"
  shows "sim C F s0 W (bnd (absent C e x) f) (bnd (vacant F e' k) g)"
  unfolding sim_def
proof (intro allI impI)
  fix s t assume t: "tracks C F s0 W s t"
  note p = payload_tracks[OF t assms(1,2)]
  show "agree C F (commit (bnd (absent C e x) f) s) (commit (bnd (vacant F e' k) g) t)"
    using assms(3) t p(3)
    by (cases "get_object C s0 x") (simp_all add: commit_bnd absent_def vacant_def reads_def p sim_def)
qed

lemma tracks_put:
  assumes t: "tracks C F s0 W s t" and k: "twin x k" and v: "v \<noteq> Raw []"
  obtains s' t' where "put_obj C x v s = (Inr (), s')" and "set_value F k v t = (Inr (), t')"
    and "tracks C F s0 (insert k W) s' t'"
proof -
  obtain s' where s': "put_object C s x v = Some s'" using put_total by blast
  obtain t' where t': "PutState F t k v = Some t'" using put_some twin_nonempty[OF k] by blast
  have "tracks C F s0 (insert k W) s' t'"
    unfolding tracks_def mirrors_def
  proof (intro conjI allI impI)
    fix y l assume l: "twin y l"
    have e: "y = x \<longleftrightarrow> l = k" using twin_eq[OF l k] .
    show "get_object C s' y \<noteq> Some (Raw [])" "GetState F (commitTx F t') l = Some (value_of (get_object C s' y))"
      using t l v by (auto simp: tracks_def mirrors_def get_put[OF s'] put_pending[OF t'] e)
    assume "l \<notin> insert k W"
    then show "GetState F t' l = GetState F (commitTx F t') l" "get_object C s' y = get_object C s0 y"
      using t l e by (auto simp: tracks_def get_put[OF s'] put_pending[OF t'] put_keeps[OF t'])
  qed
  moreover have "put_obj C x v s = (Inr (), s')" by (simp add: put_obj_def s')
  moreover have "set_value F k v t = (Inr (), t')" by (simp add: set_value_def SetValue_def rewrap_def t')
  ultimately show thesis by (rule that[rotated 2])
qed

lemma sim_put [simI]:
  assumes "twin x k" and "v \<noteq> Raw []" and "sim C F s0 (insert k W) (f ()) (g ())"
  shows "sim C F s0 W (bnd (put_obj C x v) f) (bnd (set_value F k v) g)"
  unfolding sim_def
proof (intro allI impI)
  fix s t assume "tracks C F s0 W s t"
  then obtain s' t' where p: "put_obj C x v s = (Inr (), s')" "set_value F k v t = (Inr (), t')"
      "tracks C F s0 (insert k W) s' t'"
    by (rule tracks_put[OF _ assms(1,2)])
  from assms(3) p(3) show "agree C F (commit (bnd (put_obj C x v) f) s) (commit (bnd (set_value F k v) g) t)"
    by (simp add: commit_bnd p sim_def)
qed

lemma sim_put_all [simI]:
  assumes "list_all2 (\<lambda>(x, v) (k, w). twin x k \<and> v \<noteq> Raw [] \<and> w = v) xs ks"
    and "\<And>W'. W \<subseteq> W' \<Longrightarrow> sim C F s0 W' (f ()) (g ())"
  shows "sim C F s0 W (bnd (put_all C xs) f) (bnd (set_values F ks) g)"
  using assms
proof (induction xs ks arbitrary: W rule: list_all2_induct)
  case Nil
  from Nil.prems[of W] show ?case by (simp add: sim_def)
next
  case (Cons xv xs kw ks)
  obtain x v k where e: "xv = (x, v)" "kw = (k, v)" "twin x k" "v \<noteq> Raw []" using Cons.hyps(1) by auto
  have "sim C F s0 (insert k W) (bnd (put_all C xs) f) (bnd (set_values F ks) g)"
    by (rule Cons.IH) (use Cons.prems in blast)
  with e show ?case by (simp add: bnd_assoc sim_put)
qed

end

section \<open>The methods\<close>

text \<open>The conditions on identifiers and names under which a call is simulated.\<close>

fun clean_call :: "call \<Rightarrow> bool" where
  "clean_call (CPublishFile (Got opt)) \<longleftrightarrow> (let f = pfo_File opt in
     clean_id (f_ID f) \<and> clean_part (f_Namespace f) \<and> clean_part (f_Name f) \<and>
     (\<forall>sl \<in> set (f_Slices f). clean_part (sm_NodeID sl)))"
| "clean_call (CAddFileNs (Got opt)) \<longleftrightarrow> clean_part (ns_Name (aso_Namespace opt))"
| "clean_call (CUpdateNsReplica (Got opt)) \<longleftrightarrow> clean_part (uno_Name opt)"
| "clean_call (CUpdateFilePublicSliceMeta (Got opt)) \<longleftrightarrow> clean_id (ufo_FileID opt)"
| "clean_call (CUpdateFileExpireTime (Got opt)) \<longleftrightarrow> clean_id (ueo_FileID opt)"
| "clean_call (CSliceMigrateRecord (Got opt)) \<longleftrightarrow> clean_id (smo_FileID opt) \<and> clean_part (smo_NodeID opt)"
| "clean_call (CChallengeRequest (Got opt)) \<longleftrightarrow>
     clean_part (cro_ChallengeID opt) \<and> cro_ChallengeID opt \<noteq> [] \<and> clean_id (cro_FileID opt)"
| "clean_call (CChallengeAnswer (Got opt)) \<longleftrightarrow> clean_part (cao_ChallengeID opt)"
| "clean_call (CPublishFileAuth (Got opt)) \<longleftrightarrow>
     clean_part (fa_ID (pao_FileAuthApplication opt)) \<and> fa_ID (pao_FileAuthApplication opt) \<noteq> []"
| "clean_call (CConfirmFileAuth (Got opt)) \<longleftrightarrow> clean_part (cfo_ID opt)"
| "clean_call (CRejectFileAuth (Got opt)) \<longleftrightarrow> clean_part (cfo_ID opt)"
| "clean_call _ \<longleftrightarrow> True"

text \<open>The file identifiers that stored objects refer to.\<close>

definition clean_refs :: "'s chain_ops \<Rightarrow> 's \<Rightarrow> bool" where
  "clean_refs C s \<longleftrightarrow>
     (\<forall>i c. get_object C s (packChallengeIndex i) = Some (Doc (enc_Challenge c)) \<longrightarrow> clean_id (ch_FileID c)) \<and>
     (\<forall>k i. under FilenameIndex k \<longrightarrow> get_object C s k = Some (Raw i) \<longrightarrow> clean_id i)"

lemma FormatInt_nonempty [simp]: "FormatInt n \<noteq> []"
  by (simp add: FormatInt_def)

lemma fab_key_neq: "i \<noteq> j \<Longrightarrow> list_all clean_part ps \<Longrightarrow> list_all clean_part qs \<Longrightarrow> fab_key i ps \<noteq> fab_key j qs"
  by (simp add: fab_key_eq)

context both_ledgers begin

lemma AddNode_sim: "sim C F s {} (AddNode C E a) (fab_AddNode F E a)"
  unfolding AddNode_def fab_AddNode_def Let_def by (intro simI twin_packs) simp_all

lemma sim_nonce:
  assumes "fab_packNonceIndex n t \<notin> W" and "sim C F s0 (insert (fab_packNonceIndex n t) W) (f ()) (g ())"
  shows "sim C F s0 W (bnd (rewrap e (checkAndSetNonce C n t)) f) (bnd (fab_checkAndSetNonce F n t) g)"
proof -
  have 1: "commit (bnd (rewrap e m) f) s = commit (bnd m f) s" for m :: "('s, unit) act" and s
    by (auto simp: commit_bnd rewrap_def split: prod.splits sum.splits fault.splits)
  have "sim C F s0 W (bnd (checkAndSetNonce C n t) f) (bnd (fab_checkAndSetNonce F n t) g)"
    unfolding checkAndSetNonce_def fab_checkAndSetNonce_def bnd_assoc
    by (intro simI twin_packs assms) simp_all
  then show ?thesis by (simp add: sim_def 1)
qed

lemma setNodeOnlineStatus_sim: "sim C F s {} (setNodeOnlineStatus C E a b) (fab_setNodeOnlineStatus F E a b)"
  unfolding setNodeOnlineStatus_def fab_setNodeOnlineStatus_def Let_def
  by (intro simI sim_nonce twin_packs) (simp_all add: fab_pack_defs fab_key_neq)

lemma Heartbeat_sim: "sim C F s {} (Heartbeat C E a) (fab_Heartbeat F E a)"
proof -
  have hb: "sim C F s W (bnd (reads (\<lambda>s. next_heartbeats E (get_object C s x) now)) f)
      (bnd (reads (\<lambda>t. fab_next_heartbeats E (payload F k t) now)) g)"
    if "twin x k" "k \<notin> W" "\<And>hb. sim C F s W (f hb) (g hb)" for x k W now f g
    unfolding sim_def
  proof (intro allI impI)
    fix s' t assume t: "tracks C F s W s' t"
    note p = payload_tracks[OF t that(1,2)]
    have "fab_next_heartbeats E (payload F k t) now = next_heartbeats E (get_object C s' x) now"
      using p by (cases "get_object C s x") (simp_all add: fab_next_heartbeats_def next_heartbeats_def)
    with that(3) t show "agree C F (commit (bnd (reads (\<lambda>s. next_heartbeats E (get_object C s x) now)) f) s')
        (commit (bnd (reads (\<lambda>t. fab_next_heartbeats E (payload F k t) now)) g) t)"
      by (cases "next_heartbeats E (get_object C s' x) now") (simp_all add: commit_bnd reads_def sim_def)
  qed
  have last: "put_obj C x v = bnd (put_obj C x v) ret" for x v
    by (rule ext) (simp add: bnd_def ret_def split: prod.splits sum.splits)
  show ?thesis
    unfolding Heartbeat_def fab_Heartbeat_def Let_def
    by (subst last, intro simI hb twin_packs) (simp_all add: fab_pack_defs fab_key_neq)
qed

lemma sim_check_name_free:
  assumes "twin x k" and "k \<notin> W" and "\<And>i. get_object C s0 x = Some i \<Longrightarrow> twin (blob_text i) (blob_text i) \<and> blob_text i \<notin> W"
    and "sim C F s0 W (f ()) (g ())"
  shows "sim C F s0 W (bnd (check_name_free C E x t) f) (bnd (fab_check_name_free F E k t) g)"
  unfolding sim_def
proof (intro allI impI)
  fix s l assume l: "tracks C F s0 W s l"
  note p = payload_tracks[OF l assms(1,2)]
  show "agree C F (commit (bnd (check_name_free C E x t) f) s) (commit (bnd (fab_check_name_free F E k t) g) l)"
  proof (cases "get_object C s0 x")
    case None
    with assms(4) l show ?thesis
      by (simp add: check_name_free_def fab_check_name_free_def p commit_bnd ret_def sim_def)
  next
    case (Some i)
    have "sim C F s0 W (bnd (bnd (getFileByID C E (blob_text i)) (\<lambda>fc. if t <s f_ExpireTime fc + FileRetainPeriod
          then fail (Errx ErrCodeAlreadyExists) else ret ())) f)
        (bnd (bnd (fab_getFileByID F E (blob_text i)) (\<lambda>fc. if t <s f_ExpireTime fc + FileRetainPeriod
          then fail (Errx ErrCodeAlreadyExists) else ret ())) g)"
      unfolding getFileByID_def fab_getFileByID_def bnd_assoc
      by (intro simI) (use assms(3,4) Some in \<open>simp_all add: sim_def\<close>)
    with l p(3) show ?thesis
      by (simp add: check_name_free_def fab_check_name_free_def p Some sim_def commit_bnd)
  qed
qed

lemma node_slices_nodes: "fst ` set (append_slice m n v) \<subseteq> insert n (fst ` set m)"
  by (induction m n v rule: append_slice.induct) auto

lemma node_slices_clean:
  assumes "\<forall>sl \<in> set sls. clean_part (sm_NodeID sl)"
  shows "\<forall>nd \<in> fst ` set (node_slices sls). clean_part nd"
proof -
  have "\<forall>nd \<in> fst ` set (foldl (\<lambda>m sl. append_slice m (sm_NodeID sl) (slice_entry sl)) m sls). clean_part nd"
    if "\<forall>nd \<in> fst ` set m. clean_part nd" for m
    using assms that
  proof (induction sls arbitrary: m)
    case (Cons sl sls)
    have "\<forall>nd \<in> fst ` set (append_slice m (sm_NodeID sl) (slice_entry sl)). clean_part nd"
      using node_slices_nodes[of m "sm_NodeID sl" "slice_entry sl"] Cons.prems by fastforce
    with Cons show ?case by simp
  qed simp
  from this[of "[]"] show ?thesis by (simp add: node_slices_def)
qed


lemma AddFileNs_sim: "clean_call (CAddFileNs a) \<Longrightarrow> sim C F s {} (AddFileNs C E a) (fab_AddFileNs F E a)"
  unfolding AddFileNs_def fab_AddFileNs_def Let_def by (intro simI twin_packs) simp_all

lemma UpdateNsReplica_sim:
  assumes "clean_call (CUpdateNsReplica a)" and "xdb_inv C s"
  shows "sim C F s {} (UpdateNsReplica C E a) (fab_UpdateNsReplica F E a)"
proof -
  have ns: "ns_Name n = m" if "get_object C s (packFileNsIndex w m) = Some v" "unmarshal E dec_Namespace v = Some n" for w m v n
    using ns_invD(1)[OF _ that(1)] assms(2) that(2) by (auto simp: xdb_inv_def)
  show ?thesis
    unfolding UpdateNsReplica_def fab_UpdateNsReplica_def Let_def
    by (intro simI twin_packs) (use assms(1) ns in auto)
qed

lemma stored_file_id:
  assumes "xdb_inv C s" and "get_object C s k = Some v" and "unmarshal E dec_File v = Some f" and "plain_id k"
  shows "f_ID f = k"
  using file_invD(1)[OF _ assms(4,2)] assms by (auto simp: xdb_inv_def)

lemma UpdateFilePublicSliceMeta_sim:
  assumes "clean_call (CUpdateFilePublicSliceMeta a)" and "xdb_inv C s"
  shows "sim C F s {} (UpdateFilePublicSliceMeta C E a) (fab_UpdateFilePublicSliceMeta F E a)"
  unfolding UpdateFilePublicSliceMeta_def fab_UpdateFilePublicSliceMeta_def Let_def
  by (intro simI twin_id) (use assms stored_file_id[OF assms(2)] in \<open>auto simp: clean_id_plain\<close>)

lemma UpdateFileExpireTime_sim:
  assumes "clean_call (CUpdateFileExpireTime a)" and "xdb_inv C s"
  shows "sim C F s {} (UpdateFileExpireTime C E a) (fab_UpdateFileExpireTime F E a)"
  unfolding UpdateFileExpireTime_def fab_UpdateFileExpireTime_def getFileByID_def fab_getFileByID_def Let_def bnd_assoc
  by (intro simI twin_id) (use assms stored_file_id[OF assms(2)] in \<open>auto simp: clean_id_plain\<close>)

lemma SliceMigrateRecord_sim:
  "clean_call (CSliceMigrateRecord a) \<Longrightarrow> sim C F s {} (SliceMigrateRecord C E a) (fab_SliceMigrateRecord F E a)"
  unfolding SliceMigrateRecord_def fab_SliceMigrateRecord_def getFileByID_def fab_getFileByID_def Let_def bnd_assoc
  by (intro simI twin_id twin_packs) simp_all

lemma ChallengeRequest_sim:
  assumes "clean_call (CChallengeRequest a)"
  shows "sim C F s {} (ChallengeRequest C E a) (fab_ChallengeRequest F E a)"
  unfolding ChallengeRequest_def fab_ChallengeRequest_def Let_def
  by (intro simI twin_packs) (use assms in \<open>auto dest: make_challenge_fields\<close>)

lemma stored_challenge:
  assumes "xdb_inv C s" and "get_object C s (packChallengeIndex i) = Some v" and "unmarshal E dec_Challenge v = Some c"
  shows "get_object C s (packChallengeIndex i) = Some (Doc (enc_Challenge c))"
  using challenge_invD(1)[OF _ assms(2)] assms by (auto simp: xdb_inv_def)

lemma ChallengeAnswer_sim:
  assumes "clean_call (CChallengeAnswer a)" and "xdb_inv C s" and "clean_refs C s"
  shows "sim C F s {} (ChallengeAnswer C E a) (fab_ChallengeAnswer F E a)"
proof -
  have "twin (ch_FileID c) (ch_FileID c)"
    if "get_object C s (packChallengeIndex i) = Some v" "unmarshal E dec_Challenge v = Some c" for i v c
    using stored_challenge[OF assms(2) that] assms(3) by (auto simp: clean_refs_def)
  then show ?thesis
    unfolding ChallengeAnswer_def fab_ChallengeAnswer_def Let_def
    by (intro simI twin_packs) (use assms(1) in auto)
qed

lemma PublishFileAuth_sim:
  "clean_call (CPublishFileAuth a) \<Longrightarrow>
    sim C F s {} (PublishFileAuthApplication C E a) (fab_PublishFileAuthApplication F E a)"
proof -
  have twice: "bnd (checkSign E sg ow m) (\<lambda>_. bnd (checkSign E sg ow m) f) = bnd (checkSign E sg ow m) f"
    for sg ow m and f :: "unit \<Rightarrow> ('l, 'b) act"
    by (rule ext) (simp add: checkSign_def bnd_def act_defs)
  assume "clean_call (CPublishFileAuth a)"
  then show ?thesis
    unfolding PublishFileAuthApplication_def fab_PublishFileAuthApplication_def Let_def twice checkSigned_def bnd_assoc
    by (intro simI twin_packs) simp_all
qed

lemma setFileAuthConfirmStatus_sim:
  assumes "\<forall>opt. a = Got opt \<longrightarrow> clean_part (cfo_ID opt)" and "xdb_inv C s"
  shows "sim C F s {} (setFileAuthConfirmStatus C E a b) (fab_setFileAuthConfirmStatus F E a b)"
proof -
  have id: "fa_ID fa = i" if "get_object C s (packFileAuthIndex i) = Some v" "unmarshal E dec_FileAuthApplication v = Some fa" for i v fa
    using auth_invD(1)[OF _ that(1)] assms(2) that(2) by (auto simp: xdb_inv_def)
  show ?thesis
    unfolding setFileAuthConfirmStatus_def fab_setFileAuthConfirmStatus_def getFileAuthByID_def fab_getFileAuthByID_def Let_def bnd_assoc
    by (cases b; simp only: if_True if_False; intro simI twin_packs) (use assms(1) in \<open>simp_all add: id\<close>)
qed

lemma node_slice_writes_twins:
  assumes "clean_part (f_ID f)" and "\<forall>sl \<in> set (f_Slices f). clean_part (sm_NodeID sl)"
  shows "list_all2 (\<lambda>(x, v) (k, w). twin x k \<and> v \<noteq> Raw [] \<and> w = v) (node_slice_writes f) (fab_node_slice_writes f)"
proof -
  have join: "Join xs '','' \<noteq> []" if "xs \<noteq> []" "[] \<notin> set xs" for xs
    using that by (induction xs "'',''" rule: Join.induct) (simp_all add: Join.simps(3))
  have grow: "snd e \<noteq> [] \<and> [] \<notin> set (snd e)"
    if "e \<in> set (append_slice m n v)" "v \<noteq> []" "\<forall>e \<in> set m. snd e \<noteq> [] \<and> [] \<notin> set (snd e)" for e m n v
    using that by (induction m n v rule: append_slice.induct) (auto split: if_splits)
  have "\<forall>e \<in> set (foldl (\<lambda>m sl. append_slice m (sm_NodeID sl) (slice_entry sl)) m sls). snd e \<noteq> [] \<and> [] \<notin> set (snd e)"
    if "\<forall>e \<in> set m. snd e \<noteq> [] \<and> [] \<notin> set (snd e)" for m sls
    using that
  proof (induction sls arbitrary: m)
    case (Cons sl sls)
    have "\<forall>e \<in> set (append_slice m (sm_NodeID sl) (slice_entry sl)). snd e \<noteq> [] \<and> [] \<notin> set (snd e)"
      using grow[of _ m "sm_NodeID sl" "slice_entry sl"] Cons.prems by (simp add: slice_entry_def)
    from Cons.IH[OF this] show ?case by simp
  qed simp
  from this[of "[]" "f_Slices f"] have "\<forall>e \<in> set (node_slices (f_Slices f)). Join (snd e) '','' \<noteq> []"
    unfolding node_slices_def by (intro ballI join) simp_all
  moreover have "\<forall>e \<in> set (node_slices (f_Slices f)). clean_part (fst e)"
    using node_slices_clean[OF assms(2)] by simp
  ultimately show ?thesis
    unfolding node_slice_writes_def fab_node_slice_writes_def list_all2_map1 list_all2_map2 list_all2_same
    using assms(1) by (simp add: case_prod_beta twin_packs(5))
qed

lemma PublishFile_sim:
  assumes "clean_call (CPublishFile a)" and inv: "xdb_inv C s" and "clean_refs C s"
  shows "sim C F s {} (PublishFile C E a) (fab_PublishFile F E a)"
proof (cases a)
  case (Got opt)
  let ?f = "pfo_File opt"
  from assms(1) have cl: "clean_id (f_ID ?f)" "clean_part (f_ID ?f)" "f_ID ?f \<noteq> []" "clean_part (f_Namespace ?f)"
      "clean_part (f_Name ?f)" "\<forall>sl \<in> set (f_Slices ?f). clean_part (sm_NodeID sl)"
    by (simp_all add: Got Let_def clean_id_plain)
  have ns: "ns_Name n = m" if "get_object C s (packFileNsIndex w m) = Some v" "unmarshal E dec_Namespace v = Some n" for w m v n
    using ns_invD(1)[OF _ that(1)] inv that(2) by (auto simp: xdb_inv_def)
  have id: "twin (blob_text i) (blob_text i)"
    if i: "get_object C s (packFileNameIndex w m x) = Some i" for w m x i
  proof -
    have u: "under FilenameIndex (packFileNameIndex w m x)" by (simp add: packFileNameIndex_def)
    have "file_inv C s" using inv by (simp add: xdb_inv_def)
    from file_invD(2)[OF this _ u i] obtain g :: File where "i = Raw (f_ID g)" by (auto simp: file_lists_def)
    with assms(3) u i show ?thesis by (auto simp: clean_refs_def)
  qed
  note tw = node_slice_writes_twins[OF cl(2,6)]
  show ?thesis
    unfolding PublishFile_def fab_PublishFile_def Let_def Got bnd_got bnd_fab_got
    by (intro simI sim_check_name_free twin_packs tw) (use cl ns id in simp_all)
qed (simp_all add: PublishFile_def fab_PublishFile_def get_arg_def fab_arg_def sim_def)

section \<open>Calls\<close>

text \<open>References stay clean.\<close>

lemma clean_named: "clean_call c \<Longrightarrow> well_named c"
  by (cases c rule: clean_call.cases) (simp_all add: well_named_def clean_id_plain Let_def)

lemma challenge_refs_step:
  assumes inv: "xdb_inv C s" and refs: "clean_refs C s" and step: "tx C E s c s'" and cl: "clean_call c"
    and g: "get_object C s' (packChallengeIndex i) = Some (Doc (enc_Challenge ca))"
  shows "clean_id (ch_FileID ca)"
proof (cases "get_object C s (packChallengeIndex i) = Some (Doc (enc_Challenge ca))")
  case True
  with refs show ?thesis by (simp add: clean_refs_def)
next
  case new: False
  have fi: "file_inv C s" using inv by (simp add: xdb_inv_def)
  from step have run: "exec C E c s = Some s'" by (rule txE)
  have "ChallengeIndex \<in> touched c"
    using new g frame_key[OF fi step, of ChallengeIndex "[i]"] by (auto simp: packChallengeIndex_def)
  then consider a where "c = CChallengeRequest a" | a where "c = CChallengeAnswer a" by (cases c) auto
  then show ?thesis
  proof cases
    case (1 a)
    with run obtain r where "ChallengeRequest C E a s = (Inr r, s')" by (auto simp: commit_Some)
    then show ?thesis
    proof (rule ChallengeRequest_effect)
      fix opt c' assume a: "a = Got opt" "make_challenge opt = Some c'"
        and eff: "get_object C s' = (\<lambda>k. if k = packChallengeIndex (ch_ID c') then Some (Doc (enc_Challenge c'))
          else if k = packChallengeIndex4Owner c' \<or> k = packChallengeIndex4Target c'
          then Some (Raw (ch_ID c')) else get_object C s k)"
      from new g have "ca = c'" unfolding eff by (simp split: if_splits)
      with a cl 1 show ?thesis by (simp add: make_challenge_fields)
    qed
  next
    case (2 a)
    with run obtain r where "ChallengeAnswer C E a s = (Inr r, s')" by (auto simp: commit_Some)
    then show ?thesis
    proof (rule ChallengeAnswer_effect)
      fix opt b c' ok
      assume b: "get_object C s (packChallengeIndex (cao_ChallengeID opt)) = Some b" "unmarshal E dec_Challenge b = Some c'"
        and eff: "get_object C s' = (get_object C s)(packChallengeIndex (cao_ChallengeID opt) \<mapsto>
          Doc (enc_Challenge (c'\<lparr>ch_AnswerTime := cao_AnswerTime opt,
             ch_Status := (if ok then ChallengeProved else ChallengeFailed)\<rparr>)))"
      from stored_challenge[OF inv b] refs have c': "clean_id (ch_FileID c')" by (simp add: clean_refs_def)
      from new g have "ch_FileID ca = ch_FileID c'" unfolding eff by (auto split: if_splits)
      with c' show ?thesis by simp
    qed
  qed
qed

lemma name_refs_step:
  assumes inv: "xdb_inv C s" and refs: "clean_refs C s" and step: "tx C E s c s'" and cl: "clean_call c"
    and u: "under FilenameIndex k" and g: "get_object C s' k = Some (Raw i)"
  shows "clean_id i"
proof (cases "get_object C s k = Some (Raw i)")
  case True
  with refs u show ?thesis by (simp add: clean_refs_def)
next
  case new: False
  have fi: "file_inv C s" using inv by (simp add: xdb_inv_def)
  from step have run: "exec C E c s = Some s'" by (rule txE)
  have "FilenameIndex \<in> touched c" using new g frame_under[OF fi step _ u] by fastforce
  then obtain a where c: "c = CPublishFile a" by (cases c) auto
  with run obtain r where "PublishFile C E a s = (Inr r, s')" by (auto simp: commit_Some)
  then show ?thesis
  proof (rule PublishFile_effect)
    fix opt f b ns assume a: "a = Got opt" "f = pfo_File opt"
      and eff: "\<forall>k. \<not> in_index {NodeFileSlice} k \<longrightarrow> get_object C s' k =
        ((get_object C s)(f_ID f \<mapsto> Doc (enc_File f), file_key FilenameIndex f \<mapsto> Raw (f_ID f),
          file_key FileListByOwnerIndex f \<mapsto> Raw (f_ID f), file_key FileListByNsIndex f \<mapsto> Raw (f_ID f),
          packFileNsIndex (f_Owner f) (f_Namespace f) \<mapsto> Doc (enc_Namespace (counted_ns ns f)),
          ns_list_key ns \<mapsto> Doc (enc_Namespace (counted_ns ns f)))) k"
    have "\<not> in_index {NodeFileSlice} k" using under_other[OF u] by simp
    from eff[rule_format, OF this] g new have "i = f_ID f" by (simp add: fun_upd_def split: if_splits)
    with cl show ?thesis by (simp add: c a Let_def)
  qed
qed

lemma clean_refs_step:
  assumes "xdb_inv C s" and "clean_refs C s" and "exec C E c s = Some s'" and "clean_call c"
  shows "clean_refs C s'"
proof -
  have step: "tx C E s c s'" using assms(3) clean_named[OF assms(4)] by (rule tx.intros)
  show ?thesis
    using challenge_refs_step[OF assms(1,2) step assms(4)] name_refs_step[OF assms(1,2) step assms(4)]
    unfolding clean_refs_def[of C s'] by blast
qed

end

text \<open>The calls of the chaincode; a transaction that fails changes nothing.\<close>

fun fab_exec :: "'l fabric_stub \<Rightarrow> env \<Rightarrow> call \<Rightarrow> 'l \<Rightarrow> 'l option" where
  "fab_exec F E (CAddNode a) t = map_option (commitTx F) (commit (fab_AddNode F E a) t)"
| "fab_exec F E (CNodeOffline a) t = map_option (commitTx F) (commit (fab_NodeOffline F E a) t)"
| "fab_exec F E (CNodeOnline a) t = map_option (commitTx F) (commit (fab_NodeOnline F E a) t)"
| "fab_exec F E (CHeartbeat a) t = map_option (commitTx F) (commit (fab_Heartbeat F E a) t)"
| "fab_exec F E (CPublishFile a) t = map_option (commitTx F) (commit (fab_PublishFile F E a) t)"
| "fab_exec F E (CAddFileNs a) t = map_option (commitTx F) (commit (fab_AddFileNs F E a) t)"
| "fab_exec F E (CUpdateNsReplica a) t = map_option (commitTx F) (commit (fab_UpdateNsReplica F E a) t)"
| "fab_exec F E (CUpdateFilePublicSliceMeta a) t = map_option (commitTx F) (commit (fab_UpdateFilePublicSliceMeta F E a) t)"
| "fab_exec F E (CUpdateFileExpireTime a) t = map_option (commitTx F) (commit (fab_UpdateFileExpireTime F E a) t)"
| "fab_exec F E (CSliceMigrateRecord a) t = map_option (commitTx F) (commit (fab_SliceMigrateRecord F E a) t)"
| "fab_exec F E (CChallengeRequest a) t = map_option (commitTx F) (commit (fab_ChallengeRequest F E a) t)"
| "fab_exec F E (CChallengeAnswer a) t = map_option (commitTx F) (commit (fab_ChallengeAnswer F E a) t)"
| "fab_exec F E (CPublishFileAuth a) t = map_option (commitTx F) (commit (fab_PublishFileAuthApplication F E a) t)"
| "fab_exec F E (CConfirmFileAuth a) t = map_option (commitTx F) (commit (fab_ConfirmFileAuthApplication F E a) t)"
| "fab_exec F E (CRejectFileAuth a) t = map_option (commitTx F) (commit (fab_RejectFileAuthApplication F E a) t)"

text \<open>A ledger after a call, whether it commits or not.\<close>

definition perform :: "('c \<Rightarrow> 'x \<Rightarrow> 'x option) \<Rightarrow> 'x \<Rightarrow> 'c \<Rightarrow> 'x" where
  "perform ex s c = (case ex c s of None \<Rightarrow> s | Some s' \<Rightarrow> s')"

context both_ledgers begin

lemma sim_call:
  assumes "sim C F s {} m n" and "mirrors C F s t" and "settled F t"
  shows "agree C F (commit m s) (map_option (commitTx F) (commit n t)) \<and>
    (\<forall>t'. map_option (commitTx F) (commit n t) = Some t' \<longrightarrow> settled F t')"
proof -
  have "tracks C F s {} s t" using assms(2,3) by (simp add: tracks_def settled_def)
  with assms(1) have "agree C F (commit m s) (commit n t)" by (simp add: sim_def)
  moreover have "mirrors C F s' (commitTx F t') \<longleftrightarrow> mirrors C F s' t'" for s' t'
    by (simp add: mirrors_def commit_done)
  ultimately show ?thesis
    by (cases "commit m s"; cases "commit n t") (auto simp: agree_def settled_def commit_done)
qed

lemma call_sim:
  assumes m: "mirrors C F s t" and st: "settled F t" and inv: "xdb_inv C s" and refs: "clean_refs C s" and cl: "clean_call c"
  shows "agree C F (exec C E c s) (fab_exec F E c t) \<and> (\<forall>t'. fab_exec F E c t = Some t' \<longrightarrow> settled F t')"
proof (cases c)
  case (CAddNode a)
  with sim_call[OF AddNode_sim m st] show ?thesis by simp
next
  case (CNodeOffline a)
  with sim_call[OF setNodeOnlineStatus_sim m st] show ?thesis by (simp add: NodeOffline_def fab_NodeOffline_def)
next
  case (CNodeOnline a)
  with sim_call[OF setNodeOnlineStatus_sim m st] show ?thesis by (simp add: NodeOnline_def fab_NodeOnline_def)
next
  case (CHeartbeat a)
  with sim_call[OF Heartbeat_sim m st] show ?thesis by simp
next
  case (CPublishFile a)
  with sim_call[OF PublishFile_sim[OF _ inv refs] m st] cl show ?thesis by simp
next
  case (CAddFileNs a)
  with sim_call[OF AddFileNs_sim m st] cl show ?thesis by simp
next
  case (CUpdateNsReplica a)
  with sim_call[OF UpdateNsReplica_sim[OF _ inv] m st] cl show ?thesis by simp
next
  case (CUpdateFilePublicSliceMeta a)
  with sim_call[OF UpdateFilePublicSliceMeta_sim[OF _ inv] m st] cl show ?thesis by simp
next
  case (CUpdateFileExpireTime a)
  with sim_call[OF UpdateFileExpireTime_sim[OF _ inv] m st] cl show ?thesis by simp
next
  case (CSliceMigrateRecord a)
  with sim_call[OF SliceMigrateRecord_sim m st] cl show ?thesis by simp
next
  case (CChallengeRequest a)
  with sim_call[OF ChallengeRequest_sim m st] cl show ?thesis by simp
next
  case (CChallengeAnswer a)
  with sim_call[OF ChallengeAnswer_sim[OF _ inv refs] m st] cl show ?thesis by simp
next
  case (CPublishFileAuth a)
  with sim_call[OF PublishFileAuth_sim m st] cl show ?thesis by simp
next
  case (CConfirmFileAuth a)
  with cl have "\<forall>opt. a = Got opt \<longrightarrow> clean_part (cfo_ID opt)" by auto
  from sim_call[OF setFileAuthConfirmStatus_sim[OF this inv] m st] CConfirmFileAuth show ?thesis
    by (simp add: ConfirmFileAuthApplication_def fab_ConfirmFileAuthApplication_def)
next
  case (CRejectFileAuth a)
  with cl have "\<forall>opt. a = Got opt \<longrightarrow> clean_part (cfo_ID opt)" by auto
  from sim_call[OF setFileAuthConfirmStatus_sim[OF this inv] m st] CRejectFileAuth show ?thesis
    by (simp add: RejectFileAuthApplication_def fab_RejectFileAuthApplication_def)
qed

end

end
