(* ===== verification/DaiFab.thy ===== *)
theory DaiFab
  imports FabRefine DaiLife
begin

text \<open>
  The Fabric chaincode of the computing network (\<^verbatim>\<open>dai/blockchain/fabric/chaincode\<close>): it embeds
  the storage chaincode and adds the methods of \<^verbatim>\<open>task.go\<close> and \<^verbatim>\<open>executorNodes.go\<close>. The data, the
  signed messages, the check of an executor and the steps of a task are those of the task contract.
\<close>

section \<open>Keys\<close>

definition fab_packFlTaskIndex :: "string \<Rightarrow> string" where
  "fab_packFlTaskIndex taskID = fab_key FlTaskIndex [taskID]"

definition fab_packFlTaskListIndex :: "FLTask \<Rightarrow> string" where
  "fab_packFlTaskListIndex task = fab_key FlTaskListIndex
     [hex (tk_Requester task), FormatInt (subByInt64Max (tk_PublishTime task)), tk_TaskID task]"

definition fab_packExecutorTaskListIndex :: "bytes \<Rightarrow> FLTask \<Rightarrow> string" where
  "fab_packExecutorTaskListIndex executor task = fab_key FlTaskListIndex
     [hex executor, FormatInt (subByInt64Max (tk_PublishTime task)), tk_TaskID task]"

definition fab_packRequesterExecutorTaskIndex :: "bytes \<Rightarrow> FLTask \<Rightarrow> string" where
  "fab_packRequesterExecutorTaskIndex executor task = fab_key REFlTaskListIndex
     [hex (tk_Requester task), hex executor, FormatInt (subByInt64Max (tk_PublishTime task)), tk_TaskID task]"

definition fab_packFlTaskFilter :: "bytes \<Rightarrow> bytes \<Rightarrow> string \<times> string list" where
  "fab_packFlTaskFilter rPubkey ePubkey =
     (if rPubkey \<noteq> [] \<and> ePubkey \<noteq> [] then (prefix_of REFlTaskListIndex, [hex rPubkey, hex ePubkey])
      else if rPubkey \<noteq> [] then (prefix_of FlTaskListIndex, [hex rPubkey])
      else (prefix_of FlTaskListIndex, [hex ePubkey]))"

definition fab_packExecutorIndex :: "bytes \<Rightarrow> string" where
  "fab_packExecutorIndex nodeID = fab_key ExecutorNodeIndex [hex nodeID]"

definition fab_packNodeStringIndex :: "string \<Rightarrow> string" where
  "fab_packNodeStringIndex nodeID = fab_key ExecutorNodeIndex [nodeID]"

definition fab_packNodeNameIndex :: "string \<Rightarrow> string" where
  "fab_packNodeNameIndex name = fab_key ExecutorNameIndex [name]"

definition fab_packExecutorListIndex :: "ExecutorNode \<Rightarrow> string" where
  "fab_packExecutorListIndex node =
     fab_key ExecutorListIndex [FormatInt (subByInt64Max (en_RegTime node)), hex (en_ID node)]"

lemmas fab_dai_pack_defs = fab_packFlTaskIndex_def fab_packFlTaskListIndex_def
  fab_packExecutorTaskListIndex_def fab_packRequesterExecutorTaskIndex_def fab_packExecutorIndex_def
  fab_packNodeStringIndex_def fab_packNodeNameIndex_def fab_packExecutorListIndex_def

section \<open>Tasks\<close>

fun fab_publish_lists :: "'l fabric_stub \<Rightarrow> FLTask \<Rightarrow> DataForTask option list \<Rightarrow> ('l, unit) act" where
  "fab_publish_lists F t [] = ret ()"
| "fab_publish_lists F t (None # dss) = fail Panicked"
| "fab_publish_lists F t (Some ds # dss) =
     bnd (set_value F (fab_packExecutorTaskListIndex (dt_Executor ds) t) (Raw (tk_TaskID t))) (\<lambda>_.
     bnd (set_value F (fab_packRequesterExecutorTaskIndex (dt_Executor ds) t) (Raw (tk_TaskID t))) (\<lambda>_.
     fab_publish_lists F t dss))"

definition fab_PublishTask :: "'l fabric_stub \<Rightarrow> env \<Rightarrow> PublishFLTaskOptions arg \<Rightarrow> ('l, string) act" where
  "fab_PublishTask F E a =
     bnd (fab_arg a) (\<lambda>opt.
     bnd (need Panicked (pto_FLTask opt)) (\<lambda>t.
     bnd (checkTaskSigned E (pto_Signature opt) (tk_Requester t) (enc_FLTask t)) (\<lambda>_.
     let t = t\<lparr>tk_Status := TaskConfirming\<rparr>; s = Doc (enc_FLTask t); index = fab_packFlTaskIndex (tk_TaskID t) in
     bnd (vacant F (Errx ErrCodeAlreadyExists) index) (\<lambda>_.
     bnd (set_value F index s) (\<lambda>_.
     bnd (set_value F (fab_packFlTaskListIndex t) (Raw (tk_TaskID t))) (\<lambda>_.
     bnd (fab_publish_lists F t (tk_DataSets t)) (\<lambda>_.
     ret ''added'')))))))"

definition fab_getTaskById :: "'l fabric_stub \<Rightarrow> env \<Rightarrow> string \<Rightarrow> ('l, FLTask option) act" where
  "fab_getTaskById F E taskID =
     bnd (found F (Errx ErrCodeNotFound) (fab_packFlTaskIndex taskID)) (\<lambda>s.
     need (Errx ErrCodeInternal) (unmarshal E (dec_ptr dec_FLTask) s))"

definition fab_GetTaskById :: "'l fabric_stub \<Rightarrow> string list \<Rightarrow> ('l, blob) act" where
  "fab_GetTaskById F args =
     (case args of [] \<Rightarrow> fail (Errx ErrCodeInternal)
      | i # _ \<Rightarrow> found F (Errx ErrCodeNotFound) (fab_packFlTaskIndex i))"

text \<open>An error of the lookup is wrapped, which drops its code.\<close>

definition fab_ListTask :: "'l fabric_stub \<Rightarrow> env \<Rightarrow> ListFLTaskOptions arg \<Rightarrow> ('l, FLTask list) act" where
  "fab_ListTask F E a =
     bnd (fab_arg a) (\<lambda>opt.
     iterate F (fab_packFlTaskFilter (lto_PubKey opt) (lto_ExecPubKey opt)) (\<lambda>l tasks kv.
       if limit_reached (lto_Limit opt) tasks then Inr Break
       else case fst (rewrap ErrCodeInternal (fab_getTaskById F E (blob_text (snd kv))) l) of
           Inl e \<Rightarrow> Inl e
         | Inr None \<Rightarrow> Inl Panicked
         | Inr (Some t) \<Rightarrow>
             if tk_PublishTime t <s lto_TimeStart opt \<or>
                (0 <s lto_TimeEnd opt \<and> lto_TimeEnd opt <s tk_PublishTime t) \<or>
                (lto_Status opt \<noteq> [] \<and> tk_Status t \<noteq> lto_Status opt)
             then Inr Continue else Inr (Append t)))"

fun fab_confirm_sets ::
    "'l fabric_stub \<Rightarrow> 'l \<Rightarrow> FLTaskConfirmOptions \<Rightarrow> bool \<Rightarrow> DataForTask option list \<Rightarrow>
     (DataForTask option list \<times> bool) result" where
  "fab_confirm_sets F l opt isConfirm [] = Inr ([], True)"
| "fab_confirm_sets F l opt isConfirm (None # dss) = Inl Panicked"
| "fab_confirm_sets F l opt isConfirm (Some ds # dss) =
     (if dt_Executor ds = tco_Pubkey opt
      then if payload F (dt_DataID ds) l = Raw [] then Inl (Errx ErrCodeParam)
           else if 0 <s dt_ConfirmedAt ds \<or> 0 <s dt_RejectedAt ds then Inl (Errx ErrCodeAlreadyExists)
           else (let ds' = (if isConfirm then ds\<lparr>dt_ConfirmedAt := tco_CurrentTime opt\<rparr>
                            else ds\<lparr>dt_RejectedAt := tco_CurrentTime opt\<rparr>)
                 in case fab_confirm_sets F l opt isConfirm dss of Inl e \<Rightarrow> Inl e
                    | Inr (r, allc) \<Rightarrow> Inr (Some ds' # r, allc))
      else case fab_confirm_sets F l opt isConfirm dss of Inl e \<Rightarrow> Inl e
           | Inr (r, allc) \<Rightarrow> Inr (Some ds # r, allc \<and> dt_ConfirmedAt ds \<noteq> 0))"

definition fab_setTaskConfirmStatus ::
    "'l fabric_stub \<Rightarrow> env \<Rightarrow> FLTaskConfirmOptions arg \<Rightarrow> bool \<Rightarrow> ('l, string) act" where
  "fab_setTaskConfirmStatus F E a isConfirm =
     bnd (fab_arg a) (\<lambda>opt.
     bnd (fab_getTaskById F E (tco_TaskID opt)) (\<lambda>tp.
     bnd (need Panicked tp) (\<lambda>t.
     bnd (lift (checkExecutor (tco_Pubkey opt) (tk_DataSets t))) (\<lambda>ok.
     bnd (require (Errx ErrCodeParam) ok) (\<lambda>_.
     bnd (checkTaskSigned E (tco_Signature opt) (tco_Pubkey opt) (enc_FLTaskConfirmOptions opt)) (\<lambda>_.
     bnd (require (Errx ErrCodeParam) (tk_Status t = TaskConfirming)) (\<lambda>_.
     bnd (reads (\<lambda>l. fab_confirm_sets F l opt isConfirm (tk_DataSets t))) (\<lambda>(dss, isAllConfirm).
     let t = t\<lparr>tk_DataSets := dss\<rparr>;
         t = (if isAllConfirm then t\<lparr>tk_Status := TaskReady\<rparr> else t);
         t = (if \<not> isConfirm
              then t\<lparr>tk_Status := TaskRejected, tk_ErrMessage := tco_RejectReason opt\<rparr> else t) in
     bnd (set_value F (fab_packFlTaskIndex (tk_TaskID t)) (Doc (enc_FLTask t))) (\<lambda>_.
     ret ''OK'')))))))))"

definition fab_ConfirmTask :: "'l fabric_stub \<Rightarrow> env \<Rightarrow> FLTaskConfirmOptions arg \<Rightarrow> ('l, string) act" where
  "fab_ConfirmTask F E a = fab_setTaskConfirmStatus F E a True"

definition fab_RejectTask :: "'l fabric_stub \<Rightarrow> env \<Rightarrow> FLTaskConfirmOptions arg \<Rightarrow> ('l, string) act" where
  "fab_RejectTask F E a = fab_setTaskConfirmStatus F E a False"

definition fab_StartTask :: "'l fabric_stub \<Rightarrow> env \<Rightarrow> StartFLTaskOptions arg \<Rightarrow> ('l, string) act" where
  "fab_StartTask F E a =
     bnd (fab_arg a) (\<lambda>opt.
     bnd (fab_getTaskById F E (sto_TaskID opt)) (\<lambda>tp.
     bnd (need (Errx ErrCodeInternal) (GetSigMessage (enc_StartFLTaskOptions opt))) (\<lambda>msg.
     bnd (need Panicked tp) (\<lambda>t.
     bnd (checkTaskSigned E (sto_Signature opt) (tk_Requester t) (enc_StartFLTaskOptions opt)) (\<lambda>_.
     bnd (require (Errx ErrCodeParam)
            (\<not> (tk_Status t \<noteq> TaskReady \<and> tk_Status t \<noteq> TaskFailed))) (\<lambda>_.
     let t = t\<lparr>tk_Status := TaskToProcess\<rparr> in
     bnd (set_value F (fab_packFlTaskIndex (tk_TaskID t)) (Doc (enc_FLTask t))) (\<lambda>_.
     ret ''OK'')))))))"

definition fab_setTaskExecuteStatus ::
    "'l fabric_stub \<Rightarrow> env \<Rightarrow> FLTaskExeStatusOptions arg \<Rightarrow> bool \<Rightarrow> ('l, string) act" where
  "fab_setTaskExecuteStatus F E a isFinish =
     bnd (fab_arg a) (\<lambda>opt.
     bnd (fab_getTaskById F E (teo_TaskID opt)) (\<lambda>tp.
     bnd (need Panicked tp) (\<lambda>t.
     bnd (lift (checkExecutor (teo_Executor opt) (tk_DataSets t))) (\<lambda>ok.
     bnd (require (Errx ErrCodeParam) ok) (\<lambda>_.
     bnd (checkTaskSigned E (teo_Signature opt) (teo_Executor opt) (enc_FLTaskExeStatusOptions opt)) (\<lambda>_.
     bnd (need (Errx ErrCodeParam) (execute_step opt isFinish t)) (\<lambda>t.
     bnd (set_value F (fab_packFlTaskIndex (tk_TaskID t)) (Doc (enc_FLTask t))) (\<lambda>_.
     ret ''OK''))))))))"

definition fab_ExecuteTask :: "'l fabric_stub \<Rightarrow> env \<Rightarrow> FLTaskExeStatusOptions arg \<Rightarrow> ('l, string) act" where
  "fab_ExecuteTask F E a = fab_setTaskExecuteStatus F E a False"

definition fab_FinishTask :: "'l fabric_stub \<Rightarrow> env \<Rightarrow> FLTaskExeStatusOptions arg \<Rightarrow> ('l, string) act" where
  "fab_FinishTask F E a = fab_setTaskExecuteStatus F E a True"

section \<open>Executor nodes\<close>

definition fab_RegisterExecutorNode :: "'l fabric_stub \<Rightarrow> env \<Rightarrow> AddExecutorOptions arg \<Rightarrow> ('l, string) act" where
  "fab_RegisterExecutorNode F E a =
     bnd (fab_arg a) (\<lambda>opt.
     let node = aeo_Node opt; s = Doc (enc_ExecutorNode node) in
     bnd (require (Errx ErrCodeParam) (name_ok (en_Name node))) (\<lambda>_.
     bnd (checkTaskSigned E (aeo_Signature opt) (en_ID node) (enc_AddExecutorOptions opt)) (\<lambda>_.
     bnd (vacant F (Errx ErrCodeAlreadyExists) (fab_packExecutorIndex (en_ID node))) (\<lambda>_.
     bnd (set_value F (fab_packExecutorIndex (en_ID node)) s) (\<lambda>_.
     bnd (vacant F (Errx ErrCodeAlreadyExists) (fab_packNodeNameIndex (en_Name node))) (\<lambda>_.
     bnd (set_value F (fab_packNodeNameIndex (en_Name node)) s) (\<lambda>_.
     bnd (set_value F (fab_packExecutorListIndex node) s) (\<lambda>_.
     ret []))))))))"

definition fab_ListExecutorNodes :: "'l fabric_stub \<Rightarrow> env \<Rightarrow> ('l, ExecutorNode list) act" where
  "fab_ListExecutorNodes F E = iterate F (prefix_of ExecutorListIndex, []) (\<lambda>l nodes kv.
     case unmarshal E dec_ExecutorNode (snd kv) of None \<Rightarrow> Inl (Errx ErrCodeInternal)
     | Some node \<Rightarrow> Inr (Append node))"

definition fab_GetExecutorNodeByID :: "'l fabric_stub \<Rightarrow> string list \<Rightarrow> ('l, blob) act" where
  "fab_GetExecutorNodeByID F args =
     (case args of [] \<Rightarrow> fail (Errx ErrCodeInternal)
      | i # _ \<Rightarrow> found F (Errx ErrCodeNotFound) (fab_packNodeStringIndex i))"

definition fab_GetExecutorNodeByName :: "'l fabric_stub \<Rightarrow> string list \<Rightarrow> ('l, blob) act" where
  "fab_GetExecutorNodeByName F args =
     (case args of [] \<Rightarrow> fail (Errx ErrCodeInternal)
      | n # _ \<Rightarrow> found F (Errx ErrCodeNotFound) (fab_packNodeNameIndex n))"

section \<open>The calls of both networks\<close>

fun fab_dai_exec :: "'l fabric_stub \<Rightarrow> env \<Rightarrow> dai_call \<Rightarrow> 'l \<Rightarrow> 'l option" where
  "fab_dai_exec F E (XCall c) l = fab_exec F E c l"
| "fab_dai_exec F E (DPublishTask a) l = map_option (commitTx F) (commit (fab_PublishTask F E a) l)"
| "fab_dai_exec F E (DConfirmTask a) l = map_option (commitTx F) (commit (fab_ConfirmTask F E a) l)"
| "fab_dai_exec F E (DRejectTask a) l = map_option (commitTx F) (commit (fab_RejectTask F E a) l)"
| "fab_dai_exec F E (DStartTask a) l = map_option (commitTx F) (commit (fab_StartTask F E a) l)"
| "fab_dai_exec F E (DExecuteTask a) l = map_option (commitTx F) (commit (fab_ExecuteTask F E a) l)"
| "fab_dai_exec F E (DFinishTask a) l = map_option (commitTx F) (commit (fab_FinishTask F E a) l)"
| "fab_dai_exec F E (DRegister a) l = map_option (commitTx F) (commit (fab_RegisterExecutorNode F E a) l)"

end
