(* ===== verification/DaiFabRefine.thy ===== *)
theory DaiFabRefine
  imports DaiFab
begin

text \<open>
  The methods of the task contract and of its chaincode, and the calls of both networks: what the
  storage methods keep of two mirrored ledgers, these keep as well.
\<close>

section \<open>Keys and references\<close>

lemma twin_dai_packs [simp]:
  "clean_part i \<Longrightarrow> twin (packFlTaskIndex i) (fab_packFlTaskIndex i)"
  "clean_part (tk_TaskID t) \<Longrightarrow> twin (packFlTaskListIndex t) (fab_packFlTaskListIndex t)"
  "clean_part (tk_TaskID t) \<Longrightarrow> twin (packExecutorTaskListIndex pk t) (fab_packExecutorTaskListIndex pk t)"
  "clean_part (tk_TaskID t) \<Longrightarrow>
    twin (packRequesterExecutorTaskIndex pk t) (fab_packRequesterExecutorTaskIndex pk t)"
  "twin (packExecutorIndex pk) (fab_packExecutorIndex pk)"
  "clean_part n \<Longrightarrow> twin (packNodeNameIndex n) (fab_packNodeNameIndex n)"
  "twin (packExecutorListIndex nd) (fab_packExecutorListIndex nd)"
  unfolding dai_pack_defs fab_dai_pack_defs by (rule twin_key; simp)+

text \<open>The data that a task names are files.\<close>

definition data_clean :: "FLTask \<Rightarrow> bool" where
  "data_clean t \<longleftrightarrow> (\<forall>ds. Some ds \<in> set (tk_DataSets t) \<longrightarrow> clean_id (dt_DataID ds))"

definition dai_refs :: "'s chain_ops \<Rightarrow> 's \<Rightarrow> bool" where
  "dai_refs C s \<longleftrightarrow> (\<forall>t. task_at C s t \<longrightarrow> data_clean t)"

fun dai_clean :: "dai_call \<Rightarrow> bool" where
  "dai_clean (XCall c) \<longleftrightarrow> clean_call c"
| "dai_clean (DPublishTask (Got opt)) \<longleftrightarrow> (\<forall>t. pto_FLTask opt = Some t \<longrightarrow>
     clean_part (tk_TaskID t) \<and> tk_TaskID t \<noteq> [] \<and> data_clean t)"
| "dai_clean (DConfirmTask (Got opt)) \<longleftrightarrow> clean_part (tco_TaskID opt)"
| "dai_clean (DRejectTask (Got opt)) \<longleftrightarrow> clean_part (tco_TaskID opt)"
| "dai_clean (DStartTask (Got opt)) \<longleftrightarrow> clean_part (sto_TaskID opt)"
| "dai_clean (DExecuteTask (Got opt)) \<longleftrightarrow> clean_part (teo_TaskID opt)"
| "dai_clean (DFinishTask (Got opt)) \<longleftrightarrow> clean_part (teo_TaskID opt)"
| "dai_clean (DRegister (Got opt)) \<longleftrightarrow> clean_part (en_Name (aeo_Node opt))"
| "dai_clean _ \<longleftrightarrow> True"

lemma data_clean_same: "same_task t u \<Longrightarrow> data_clean t \<Longrightarrow> data_clean u"
proof -
  assume s: "same_task t u" and c: "data_clean t"
  have m: "map (map_option dt_DataID) dss = map (map_option (fst \<circ> snd \<circ> snd)) (map (map_option set_core) dss)" for dss
    by (simp add: set_core_def option.map_comp comp_def)
  have e: "map (map_option dt_DataID) (tk_DataSets u) = map (map_option dt_DataID) (tk_DataSets t)"
    unfolding m using s by (simp only: same_task_def)
  show "data_clean u"
    unfolding data_clean_def
  proof (intro allI impI)
    fix ds assume "Some ds \<in> set (tk_DataSets u)"
    then have "Some (dt_DataID ds) \<in> set (map (map_option dt_DataID) (tk_DataSets u))" by force
    then obtain x where "x \<in> set (tk_DataSets t)" "map_option dt_DataID x = Some (dt_DataID ds)"
      unfolding e set_map by (metis imageE)
    then obtain d where "Some d \<in> set (tk_DataSets t)" "dt_DataID d = dt_DataID ds" by (auto simp: map_option_eq_Some)
    with c show "clean_id (dt_DataID ds)" unfolding data_clean_def by metis
  qed
qed

section \<open>The methods\<close>

lemma sim_checkTaskSigned [simI]:
  assumes "sim C F s0 W (f ()) (g ())"
  shows "sim C F s0 W (bnd (checkTaskSigned E sg ow j) f) (bnd (checkTaskSigned E sg ow j) g)"
proof -
  have "sim C F s0 W (bnd (checkTaskSign E sg ow m) f) (bnd (checkTaskSign E sg ow m) g)" for m
    using assms by (simp add: checkTaskSign_def Let_def sim_def)
  then show ?thesis unfolding checkTaskSigned_def bnd_assoc by (intro simI)
qed

context both_ledgers begin

lemma dai_clean_named: "dai_clean c \<Longrightarrow> dai_named c"
  by (cases c) (simp_all add: clean_named)

lemma sim_publish_lists [simI]:
  assumes "clean_part (tk_TaskID t)" "tk_TaskID t \<noteq> []" and "\<And>W'. sim C F s0 W' (f ()) (g ())"
  shows "sim C F s0 W (bnd (publish_lists C t dss) f) (bnd (fab_publish_lists F t dss) g)"
proof (induction dss arbitrary: W)
  case Nil
  from assms(3)[of W] show ?case by (simp add: sim_def)
next
  case (Cons d dss)
  show ?case
  proof (cases d)
    case (Some ds)
    with Cons assms show ?thesis by (simp add: bnd_assoc sim_put)
  qed (simp add: sim_def)
qed

lemma PublishTask_sim:
  "dai_clean (DPublishTask a) \<Longrightarrow> sim C F s {} (PublishTask C E a) (fab_PublishTask F E a)"
  unfolding PublishTask_def fab_PublishTask_def Let_def by (intro simI twin_dai_packs) simp_all

lemma RegisterExecutorNode_sim:
  "dai_clean (DRegister a) \<Longrightarrow> sim C F s {} (RegisterExecutorNode C E a) (fab_RegisterExecutorNode F E a)"
  unfolding RegisterExecutorNode_def fab_RegisterExecutorNode_def Let_def
  by (intro simI twin_dai_packs) (auto simp: fab_dai_pack_defs fab_key_neq)

lemma stored_task:
  assumes "dai_inv C s" and "get_object C s (packFlTaskIndex i) = Some v"
    and "unmarshal E (dec_ptr dec_FLTask) v = Some (Some t)"
  shows "tk_TaskID t = i" and "task_at C s t"
  using task_of_id[OF _ assms(2,3)] assms(1) by (simp_all add: dai_inv_def)

lemma StartTask_sim:
  assumes "dai_clean (DStartTask a)" and "dai_inv C s"
  shows "sim C F s {} (StartTask C E a) (fab_StartTask F E a)"
  unfolding StartTask_def fab_StartTask_def getTaskById_def fab_getTaskById_def Let_def bnd_assoc
  by (intro simI twin_dai_packs) (use assms stored_task[OF assms(2)] in auto)

lemma execute_step_id: "execute_step opt b t = Some u \<Longrightarrow> tk_TaskID u = tk_TaskID t"
  by (rule execute_step_Some)

lemma setTaskExecuteStatus_sim:
  assumes "\<forall>opt. a = Got opt \<longrightarrow> clean_part (teo_TaskID opt)" and "dai_inv C s"
  shows "sim C F s {} (setTaskExecuteStatus C E a b) (fab_setTaskExecuteStatus F E a b)"
  unfolding setTaskExecuteStatus_def fab_setTaskExecuteStatus_def getTaskById_def fab_getTaskById_def Let_def bnd_assoc
  by (intro simI twin_dai_packs) (use assms stored_task[OF assms(2)] in \<open>auto simp: execute_step_id\<close>)

text \<open>The loop over the data sets decides alike, but for the error it reports.\<close>

lemma confirm_sets_alike:
  assumes t: "tracks C F s0 {} s l" and d: "\<forall>ds. Some ds \<in> set dss \<longrightarrow> clean_id (dt_DataID ds)"
  shows "(\<exists>e. confirm_sets C s opt b dss = Inl e) \<and> (\<exists>e. fab_confirm_sets F l opt b dss = Inl e) \<or>
    confirm_sets C s opt b dss = fab_confirm_sets F l opt b dss"
  using d
proof (induction dss)
  case (Cons x dss)
  show ?case
  proof (cases x)
    case (Some ds)
    with Cons.prems have "twin (dt_DataID ds) (dt_DataID ds)" by simp
    note p = payload_tracks[OF t this]
    have e: "payload F (dt_DataID ds) l = Raw [] \<longleftrightarrow> get_object C s (dt_DataID ds) = None"
      using p by (cases "get_object C s0 (dt_DataID ds)") (auto simp: p(2))
    from Cons.prems have "\<forall>ds. Some ds \<in> set dss \<longrightarrow> clean_id (dt_DataID ds)" by simp
    from Cons.IH[OF this] show ?thesis
    proof
      assume "(\<exists>e. confirm_sets C s opt b dss = Inl e) \<and> (\<exists>e. fab_confirm_sets F l opt b dss = Inl e)"
      then obtain e1 e2 where "confirm_sets C s opt b dss = Inl e1" "fab_confirm_sets F l opt b dss = Inl e2"
        by blast
      then show ?thesis by (simp add: Some e Let_def)
    next
      assume "confirm_sets C s opt b dss = fab_confirm_sets F l opt b dss"
      then show ?thesis by (simp add: Some e Let_def)
    qed
  qed simp
qed simp

lemma sim_confirm_sets:
  assumes "\<forall>ds. Some ds \<in> set dss \<longrightarrow> clean_id (dt_DataID ds)" and "\<And>x. sim C F s0 {} (f x) (g x)"
  shows "sim C F s0 {} (bnd (reads (\<lambda>s. confirm_sets C s opt b dss)) f) (bnd (reads (\<lambda>l. fab_confirm_sets F l opt b dss)) g)"
  unfolding sim_def
proof (intro allI impI)
  fix s l assume t: "tracks C F s0 {} s l"
  from confirm_sets_alike[OF t assms(1), of opt b] show "agree C F
      (commit (bnd (reads (\<lambda>s. confirm_sets C s opt b dss)) f) s)
      (commit (bnd (reads (\<lambda>l. fab_confirm_sets F l opt b dss)) g) l)"
  proof
    assume "confirm_sets C s opt b dss = fab_confirm_sets F l opt b dss"
    with assms(2) t show ?thesis
      by (cases "fab_confirm_sets F l opt b dss") (simp_all add: commit_bnd reads_def sim_def)
  qed (auto simp: commit_bnd reads_def)
qed

lemma setTaskConfirmStatus_sim:
  assumes "\<forall>opt. a = Got opt \<longrightarrow> clean_part (tco_TaskID opt)" and "dai_inv C s" and "dai_refs C s"
  shows "sim C F s {} (setTaskConfirmStatus C E a b) (fab_setTaskConfirmStatus F E a b)"
proof -
  have "\<forall>ds. Some ds \<in> set (tk_DataSets t) \<longrightarrow> clean_id (dt_DataID ds)"
    if "get_object C s (packFlTaskIndex i) = Some v" "unmarshal E (dec_ptr dec_FLTask) v = Some (Some t)" for i v t
    using stored_task[OF assms(2) that] assms(3) by (simp add: dai_refs_def data_clean_def)
  with assms(1) stored_task(1)[OF assms(2)] show ?thesis
    unfolding setTaskConfirmStatus_def fab_setTaskConfirmStatus_def getTaskById_def fab_getTaskById_def
      Let_def bnd_assoc case_prod_beta
    by (intro simI sim_confirm_sets twin_dai_packs) auto
qed

section \<open>The calls of both networks\<close>

lemma clean_refs_frame:
  assumes "clean_refs C s" and "\<And>k. \<not> in_index dai_indexes k \<Longrightarrow> get_object C s' k = get_object C s k"
  shows "clean_refs C s'"
proof -
  have "get_object C s' (packChallengeIndex i) = get_object C s (packChallengeIndex i)" for i
    by (rule assms(2)) (simp add: packChallengeIndex_def dai_indexes_def)
  moreover have "get_object C s' k = get_object C s k" if "under FilenameIndex k" for k
    using that by (intro assms(2) not_dai_key(2)) (auto simp: dai_indexes_def)
  ultimately show ?thesis using assms(1) by (simp add: clean_refs_def)
qed

text \<open>Only a publication adds a task; the other calls move tasks or leave them.\<close>

lemma no_new_task:
  assumes inv: "dai_inv C s" and step: "dai_tx C E s c s'" and np: "\<And>a. c \<noteq> DPublishTask a"
    and none: "get_object C s (packFlTaskIndex i) = None"
  shows "get_object C s' (packFlTaskIndex i) = None"
proof -
  from step obtain run: "dai_exec C E c s = Some s'" and named: "dai_named c" by (rule dai_txE)
  have stored: "tk_TaskID t \<noteq> i" if "get_object C s (packFlTaskIndex j) = Some v"
    "unmarshal E (dec_ptr dec_FLTask) v = Some (Some t)" for j v t
    using stored_task[OF inv that] none by (auto simp: task_at_def)
  have dec: ?thesis if "setTaskConfirmStatus C E a b s = (Inr r, s')" for a b r
    using that
    by (rule setTaskConfirmStatus_effect)
      (use none in \<open>auto simp: same_task_decided[unfolded same_task_def] dest: stored\<close>)
  have exe: ?thesis if "setTaskExecuteStatus C E a b s = (Inr r, s')" for a b r
    using that
    by (rule setTaskExecuteStatus_effect) (use none in \<open>auto simp: execute_step_id dest: stored\<close>)
  show ?thesis
  proof (cases c)
    case (XCall x)
    with run named have "tx C E s x s'" by (auto intro: tx.intros)
    from xcall_key[OF inv this, of FlTaskIndex "[i]"] none show ?thesis
      by (simp add: packFlTaskIndex_def dai_indexes_def)
  next
    case (DPublishTask a)
    with np show ?thesis by blast
  next
    case (DStartTask a)
    with run obtain r where "StartTask C E a s = (Inr r, s')" by (auto simp: commit_Some)
    then show ?thesis by (rule StartTask_effect) (use none in \<open>auto dest: stored\<close>)
  next
    case (DRegister a)
    with run obtain r where r: "RegisterExecutorNode C E a s = (Inr r, s')" by (auto simp: commit_Some)
    from writesD[OF RegisterExecutorNode_writes r, of "packFlTaskIndex i"] none show ?thesis
      by (simp add: packFlTaskIndex_def)
  qed (use run dec exe in \<open>auto simp: commit_Some ConfirmTask_def RejectTask_def ExecuteTask_def FinishTask_def\<close>)
qed

lemma task_from:
  assumes inv: "dai_inv C s" and step: "dai_tx C E s c s'" and at: "task_at C s' u"
  shows "(\<exists>t. task_at C s t \<and> same_task t u) \<or>
    (\<exists>opt t. c = DPublishTask (Got opt) \<and> pto_FLTask opt = Some t \<and> u = t\<lparr>tk_Status := TaskConfirming\<rparr>)"
proof (cases "get_object C s (packFlTaskIndex (tk_TaskID u))")
  case (Some v)
  have "task_inv C s" using inv by (simp add: dai_inv_def)
  from task_invD(1)[OF this Some] obtain t :: FLTask where t: "v = Doc (enc_FLTask t)" "tk_TaskID t = tk_TaskID u" by blast
  with Some have tt: "task_at C s t" by (simp add: task_at_def)
  from task_life[OF inv step this] obtain w where w: "task_at C s' w" "same_task t w"
    using same_task_refl task_call_step(1) by blast
  from w(2) t(2) have "tk_TaskID w = tk_TaskID u" by (simp add: same_task_def)
  with w(1) at have "w = u" by (simp add: task_at_def)
  with w(2) tt show ?thesis by blast
next
  case None
  from step have run: "dai_exec C E c s = Some s'" by (rule dai_txE)
  have new: "get_object C s' (packFlTaskIndex (tk_TaskID u)) = Some (Doc (enc_FLTask u))"
    using at by (simp add: task_at_def)
  show ?thesis
  proof (cases "\<exists>a. c = DPublishTask a")
    case True
    then obtain a r where c: "c = DPublishTask a" and "PublishTask C E a s = (Inr r, s')"
      using run by (auto simp: commit_Some)
    from this(2) show ?thesis
    proof (rule PublishTask_effect)
      fix opt :: PublishFLTaskOptions and t0 t :: FLTask
      assume a: "a = Got opt" "pto_FLTask opt = Some t0" "t = t0\<lparr>tk_Status := TaskConfirming\<rparr>"
        and get: "\<And>k. get_object C s' k = (if (\<exists>pk \<in> parties t. k = packExecutorTaskListIndex pk t) \<or>
            (\<exists>pk \<in> executors (tk_DataSets t). k = packRequesterExecutorTaskIndex pk t)
          then Some (Raw (tk_TaskID t))
          else if k = packFlTaskIndex (tk_TaskID t) then Some (Doc (enc_FLTask t)) else get_object C s k)"
      have "u = t"
      proof (rule ccontr)
        assume "u \<noteq> t"
        with new get[of "packFlTaskIndex (tk_TaskID u)"] None show False by (simp split: if_splits)
      qed
      with a c show ?thesis by blast
    qed
  next
    case False
    from no_new_task[OF inv step _ None] False new show ?thesis by simp
  qed
qed

lemma dai_refs_step:
  assumes inv: "dai_inv C s" and refs: "dai_refs C s" and step: "dai_tx C E s c s'" and cl: "dai_clean c"
  shows "dai_refs C s'"
  unfolding dai_refs_def
proof (intro allI impI)
  fix u assume "task_at C s' u"
  from task_from[OF inv step this] show "data_clean u"
  proof
    assume "\<exists>t. task_at C s t \<and> same_task t u"
    with refs data_clean_same show ?thesis unfolding dai_refs_def by blast
  next
    assume "\<exists>opt t. c = DPublishTask (Got opt) \<and> pto_FLTask opt = Some t \<and> u = t\<lparr>tk_Status := TaskConfirming\<rparr>"
    with cl show ?thesis by (auto simp: data_clean_def)
  qed
qed

lemma dai_call_sim:
  assumes m: "mirrors C F s l" and st: "settled F l" and inv: "dai_inv C s" and cr: "clean_refs C s"
    and refs: "dai_refs C s" and cl: "dai_clean c"
  shows "agree C F (dai_exec C E c s) (fab_dai_exec F E c l) \<and> (\<forall>l'. fab_dai_exec F E c l = Some l' \<longrightarrow> settled F l')"
proof (cases c)
  case (XCall x)
  with call_sim[OF m st _ cr, of x E] inv cl show ?thesis by (simp add: dai_inv_def)
next
  case (DPublishTask a)
  with sim_call[OF PublishTask_sim m st] cl show ?thesis by simp
next
  case (DConfirmTask a)
  with cl have "\<forall>opt. a = Got opt \<longrightarrow> clean_part (tco_TaskID opt)" by auto
  from sim_call[OF setTaskConfirmStatus_sim[OF this inv refs] m st] DConfirmTask show ?thesis
    by (simp add: ConfirmTask_def fab_ConfirmTask_def)
next
  case (DRejectTask a)
  with cl have "\<forall>opt. a = Got opt \<longrightarrow> clean_part (tco_TaskID opt)" by auto
  from sim_call[OF setTaskConfirmStatus_sim[OF this inv refs] m st] DRejectTask show ?thesis
    by (simp add: RejectTask_def fab_RejectTask_def)
next
  case (DStartTask a)
  with sim_call[OF StartTask_sim[OF _ inv] m st] cl show ?thesis by simp
next
  case (DExecuteTask a)
  with cl have "\<forall>opt. a = Got opt \<longrightarrow> clean_part (teo_TaskID opt)" by auto
  from sim_call[OF setTaskExecuteStatus_sim[OF this inv] m st] DExecuteTask show ?thesis
    by (simp add: ExecuteTask_def fab_ExecuteTask_def)
next
  case (DFinishTask a)
  with cl have "\<forall>opt. a = Got opt \<longrightarrow> clean_part (teo_TaskID opt)" by auto
  from sim_call[OF setTaskExecuteStatus_sim[OF this inv] m st] DFinishTask show ?thesis
    by (simp add: FinishTask_def fab_FinishTask_def)
next
  case (DRegister a)
  with sim_call[OF RegisterExecutorNode_sim m st] cl show ?thesis by simp
qed

lemma dai_clean_refs_step:
  assumes "dai_inv C s" and "clean_refs C s" and "dai_tx C E s c s'" and "dai_clean c"
  shows "clean_refs C s'"
proof -
  from assms(3) have run: "dai_exec C E c s = Some s'" by (rule dai_txE)
  show ?thesis
  proof (cases "\<exists>x. c = XCall x")
    case True
    with run assms clean_refs_step show ?thesis by (auto simp: dai_inv_def)
  next
    case False
    then show ?thesis using clean_refs_frame[OF assms(2)] dai_frame[OF run] by blast
  qed
qed

lemma dai_runs_mirror:
  assumes "mirrors C F s l" "settled F l" "dai_inv C s" "clean_refs C s" "dai_refs C s" "list_all dai_clean cs"
  shows "mirrors C F (foldl (perform (dai_exec C E)) s cs) (foldl (perform (fab_dai_exec F E)) l cs) \<and>
    settled F (foldl (perform (fab_dai_exec F E)) l cs) \<and> dai_inv C (foldl (perform (dai_exec C E)) s cs) \<and>
    clean_refs C (foldl (perform (dai_exec C E)) s cs) \<and> dai_refs C (foldl (perform (dai_exec C E)) s cs)"
  using assms
proof (induction cs arbitrary: s l)
  case (Cons c cs)
  have cl: "dai_clean c" using Cons.prems by simp
  note one = dai_call_sim[OF Cons.prems(1-5) cl, of E]
  show ?case
  proof (cases "dai_exec C E c s")
    case None
    with one have "fab_dai_exec F E c l = None" by (simp add: agree_def)
    with None Cons show ?thesis by (simp add: perform_def)
  next
    case (Some s')
    with one obtain l' where l': "fab_dai_exec F E c l = Some l'" "mirrors C F s' l'" "settled F l'"
      by (auto simp: agree_def)
    have step: "dai_tx C E s c s'" using Some dai_clean_named[OF cl] by (rule dai_tx.intros)
    from Cons.IH[OF l'(2,3) dai_inv_step[OF Cons.prems(3) step] dai_clean_refs_step[OF Cons.prems(3,4) step cl]
        dai_refs_step[OF Cons.prems(3,5) step cl]] Cons.prems(6)
    show ?thesis by (simp add: perform_def Some l'(1))
  qed
qed simp

end

end
