(* ===== verification/FabProperties.thy ===== *)
theory FabProperties
  imports DaiFabRefine DaiProperties
begin

text \<open>
  A reference ledger of the chaincodes, and their properties: they refine the contracts, but the method that writes a value lets anyone change every record.
\<close>

section \<open>A reference ledger\<close>

text \<open>The committed values and the values with the writes of the transaction.\<close>

definition mem_stub :: "(store \<times> store) fabric_stub" where
  "mem_stub = \<lparr>GetState = (\<lambda>t k. Some (value_of (store_get (fst t) k))),
     PutState = (\<lambda>t k v. if k = [] then None else Some (fst t, store_put (snd t) k v)),
     GetStateByPartialCompositeKey = (\<lambda>t obj attrs.
       if nul \<in> set obj \<or> (\<exists>a \<in> set attrs. nul \<in> set a) then None
       else Some (filter (\<lambda>kv. snd kv \<noteq> Raw []) (store_scan (fst t) (createCompositeKey obj attrs)))),
     commitTx = (\<lambda>t. (snd t, snd t))\<rparr>"

lemma mem_stub_simps [simp]:
  "GetState mem_stub t k = Some (value_of (store_get (fst t) k))"
  "PutState mem_stub t k v = (if k = [] then None else Some (fst t, store_put (snd t) k v))"
  "commitTx mem_stub t = (snd t, snd t)"
  by (simp_all add: mem_stub_def)

lemma value_of_Some: "v \<noteq> Raw [] \<Longrightarrow> value_of x = v \<longleftrightarrow> x = Some v"
  "value_of x \<noteq> Raw [] \<Longrightarrow> x = Some (value_of x)"
  by (cases x; auto)+

interpretation mem_fabric: fabric mem_stub
proof unfold_locales
  fix t obj attrs assume "nul \<notin> set obj" "\<forall>a \<in> set attrs. nul \<notin> set a"
  then show "\<exists>kvs. GetStateByPartialCompositeKey mem_stub t obj attrs = Some kvs \<and> sorted_wrt (<) (map fst kvs) \<and>
      set kvs = {(k, v). prefix (createCompositeKey obj attrs) k \<and> GetState mem_stub t k = Some v \<and> v \<noteq> Raw []}"
    using store_scan_sorted[of "fst t" "createCompositeKey obj attrs"]
    by (auto simp: mem_stub_def store_scan_set value_of_Some sorted_wrt_map sorted_wrt_filter)
qed (auto split: if_splits)


section \<open>The chaincode refines the contracts\<close>






section \<open>Anyone can write\<close>

text \<open>
  Anyone can change every record of the chaincode. \<open>SetValue\<close> is one of the methods that clients
  invoke. It checks no signature: whatever is on the ledger, one call puts a challenge of the caller's
  choice, say one that is proved, in the place of a stored one, and all queries return it.
\<close>

lemma fabric_challenge_forged:
  assumes "fabric F" and "ch_ID c = i"
  shows "\<exists>t' t''. commit (SetValue F (Some (fab_packChallengeIndex i, Doc (enc_Challenge c)))) t = Some t' \<and>
    fab_GetChallengeByID F [i] (commitTx F t') = (Inr (Doc (enc_Challenge c)), t'')"
proof -
  have "fab_packChallengeIndex i \<noteq> []" by (simp add: fab_pack_defs fab_key_def createCompositeKey_def)
  then obtain t' where t': "PutState F t (fab_packChallengeIndex i) (Doc (enc_Challenge c)) = Some t'"
    using fabric.put_some[OF assms(1)] by blast
  have "GetState F (commitTx F t') (fab_packChallengeIndex i) = Some (Doc (enc_Challenge c))"
    using fabric.put_pending[OF assms(1) t', of "fab_packChallengeIndex i"] by simp
  then have "fab_GetChallengeByID F [i] (commitTx F t') = (Inr (Doc (enc_Challenge c)), commitTx F t')"
    by (simp add: fab_GetChallengeByID_def found_def payload_def GetValue_def reads_def)
  moreover have "commit (SetValue F (Some (fab_packChallengeIndex i, Doc (enc_Challenge c)))) t = Some t'"
    by (simp add: SetValue_def commit_def t')
  ultimately show ?thesis by blast
qed

lemma fabric_challenge_forged_witness:
  "\<exists>t' t''. commit (SetValue mem_stub (Some (fab_packChallengeIndex ''c1'', Doc (enc_Challenge demo_challenge))))
      (empty_store, empty_store) = Some t' \<and>
    fab_GetChallengeByID mem_stub [''c1''] (commitTx mem_stub t') = (Inr (Doc (enc_Challenge demo_challenge)), t'')"
  by (rule fabric_challenge_forged[OF mem_fabric.fabric_axioms]) simp

text \<open>
  A call that names a file the ledger does not have stops the chaincode: the error to report wraps a
  nil error.
\<close>

lemma fabric_missing_file_panics:
  assumes "GetState F t (ueo_FileID opt) = Some (Raw [])"
  shows "fst (fab_UpdateFileExpireTime F E (Got opt) t) = Inl Panicked"
  using assms
  by (simp add: fab_UpdateFileExpireTime_def fab_getFileByID_def found_def payload_def GetValue_def act_defs fab_arg_def)

end
