(* ===== verification/EvalSplit.thy ===== *)
theory EvalSplit
  imports Golang Prelude "HOL-Library.AList" "HOL-Library.Multiset"
begin

text \<open>
  The division of a sample file into parts for the evaluation of a model:
  \<^verbatim>\<open>crypto/core/machine_learning/evaluation/validation/split.go\<close> and the type \<open>splitter\<close> of
  \<^verbatim>\<open>validation.go\<close>. A file is the list of its rows, the first of which holds the names of the
  features. Errors of these routines have no code.
\<close>

type_synonym row = "string list"

abbreviation plain_err :: "'a result" where "plain_err \<equiv> Inl (Errx ErrCodeInternal)"

abbreviation panic :: "'a result" where "panic \<equiv> Inl Panicked"

text \<open>
  MD5 and the generator of \<^verbatim>\<open>math/rand\<close> are parameters: \<open>draw seed n i\<close> is the number below \<open>i + 1\<close>
  that a generator started with the seed gives for step \<open>i\<close> of a shuffle of \<open>n\<close> elements.
\<close>

record split_env =
  md5_Sum :: "string \<Rightarrow> string"
  draw :: "int64 \<Rightarrow> nat \<Rightarrow> nat \<Rightarrow> nat"

section \<open>Dividing directly\<close>

fun split_loop :: "nat \<Rightarrow> nat \<Rightarrow> row list \<Rightarrow> row list \<times> row list" where
  "split_loop i l [] = ([], [])"
| "split_loop i l (r # rs) = (case split_loop (i + 1) l rs of (firstP, secondP) \<Rightarrow>
     if i < l then (r # firstP, secondP) else (firstP, r # secondP))"

definition Split :: "row list \<Rightarrow> int \<Rightarrow> (row list \<times> row list) result" where
  "Split fileRows percents = (case fileRows of [] \<Rightarrow> plain_err
     | names # rows \<Rightarrow>
        let percents = (if percents < 0 then 0 else percents);
            percents = (if percents > 100 then 100 else percents);
            l = nat (int (length rows) * percents div 100);
            (firstP, secondP) = split_loop 0 l rows
        in Inr (names # firstP, names # secondP))"

text \<open>The loop of the folds goes on for ever when no row is taken.\<close>

partial_function (option) kfolds_loop :: "row list \<Rightarrow> nat \<Rightarrow> nat \<Rightarrow> nat \<Rightarrow> row list list option" where
  "kfolds_loop fileRows dv remain i = (if i < length fileRows
     then let j = i; i = (if remain > 0 then i + (dv + 1) else i + dv);
              remain = (if remain > 0 then remain - 1 else remain) in
          Option.bind (kfolds_loop fileRows dv remain i)
            (\<lambda>r. Some ((hd fileRows # take (i - j) (drop j fileRows)) # r))
     else Some [])"

definition KFoldsSplit :: "row list \<Rightarrow> int \<Rightarrow> row list list result option" where
  "KFoldsSplit fileRows k = (if k \<noteq> 5 \<and> k \<noteq> 10 then Some plain_err
     else if length fileRows < 1 then Some plain_err
     else if int (length fileRows) < k + 1 then Some plain_err
     else let remain = (length fileRows - 1) mod nat k; dv = (length fileRows - 1) div nat k in
       map_option Inr (kfolds_loop fileRows dv remain 1))"

section \<open>Sorting by identifiers\<close>

fun first_index :: "string \<Rightarrow> row \<Rightarrow> nat option" where
  "first_index name [] = None"
| "first_index name (v # vs) = (if v = name then Some 0 else map_option Suc (first_index name vs))"

fun group_rows :: "nat \<Rightarrow> row list \<Rightarrow> (string \<times> row list) list \<Rightarrow> string list \<Rightarrow>
    ((string \<times> row list) list \<times> string list) result" where
  "group_rows idx [] m ids = Inr (m, ids)"
| "group_rows idx (r # rs) m ids =
     (if length r \<le> idx then plain_err
      else case map_of m (r ! idx) of
        Some rows \<Rightarrow> group_rows idx rs (AList.update (r ! idx) (rows @ [r]) m) ids
      | None \<Rightarrow> group_rows idx rs (AList.update (r ! idx) [r] m) (ids @ [r ! idx]))"

definition sortById :: "row list \<Rightarrow> string \<Rightarrow> row list result" where
  "sortById fileRows idName = (case fileRows of [] \<Rightarrow> panic
     | names # rows \<Rightarrow> (case first_index idName names of None \<Rightarrow> plain_err
        | Some idx \<Rightarrow> (case group_rows idx rows [] [] of Inl e \<Rightarrow> Inl e
           | Inr (m, ids) \<Rightarrow> Inr (names # concat (map (\<lambda>i. case map_of m i of None \<Rightarrow> [] | Some rs \<Rightarrow> rs) (sort ids))))))"

section \<open>Shuffling\<close>

definition swap :: "'a list \<Rightarrow> nat \<Rightarrow> nat \<Rightarrow> 'a list" where
  "swap xs i j = xs[i := xs ! j, j := xs ! i]"

fun shuffle_loop :: "(nat \<Rightarrow> nat) \<Rightarrow> 'a list \<Rightarrow> nat \<Rightarrow> 'a list" where
  "shuffle_loop d xs 0 = xs"
| "shuffle_loop d xs (Suc i) = shuffle_loop d (swap xs (Suc i) (d (Suc i))) i"

definition Shuffle :: "(nat \<Rightarrow> nat \<Rightarrow> nat) \<Rightarrow> 'a list \<Rightarrow> 'a list" where
  "Shuffle d xs = shuffle_loop (d (length xs)) xs (length xs - 1)"

definition seed_of :: "string \<Rightarrow> int64" where
  "seed_of ms = foldl (\<lambda>rSeed c. push_bit 8 rSeed + of_nat (of_char c :: nat)) 0 (take 8 ms)"

definition shuffle :: "split_env \<Rightarrow> row list \<Rightarrow> string \<Rightarrow> row list result" where
  "shuffle E fileRows seed = (case fileRows of [] \<Rightarrow> panic
     | names # rows \<Rightarrow> Inr (names # Shuffle (draw E (seed_of (md5_Sum E seed))) rows))"

section \<open>Dividing at random\<close>

definition ShuffleSplit :: "split_env \<Rightarrow> row list \<Rightarrow> string \<Rightarrow> int \<Rightarrow> string \<Rightarrow> (row list \<times> row list) result" where
  "ShuffleSplit E fileRows idName percents seed =
     rbind (sortById fileRows idName) (\<lambda>newFileRows.
     rbind (shuffle E newFileRows seed) (\<lambda>newFileRows. Split newFileRows percents))"

definition ShuffleKFoldsSplit :: "split_env \<Rightarrow> row list \<Rightarrow> string \<Rightarrow> int \<Rightarrow> string \<Rightarrow> row list list result option" where
  "ShuffleKFoldsSplit E fileRows idName k seed =
     (case rbind (sortById fileRows idName) (\<lambda>newFileRows. shuffle E newFileRows seed) of
        Inl e \<Rightarrow> Some (Inl e) | Inr newFileRows \<Rightarrow> KFoldsSplit newFileRows k)"

definition LooSplit :: "row list \<Rightarrow> string \<Rightarrow> row list list result" where
  "LooSplit fileRows idName = (if length fileRows < 2 then plain_err
     else rbind (sortById fileRows idName) (\<lambda>newFileRows.
       Inr (map (\<lambda>i. [newFileRows ! 0, newFileRows ! i]) [1..<length fileRows])))"

section \<open>The splitter\<close>

record splitter =
  sp_fileRows :: "row list"
  sp_idName :: string
  sp_label :: string
  sp_folds :: "row list list"

definition NewSplitter :: "row list \<Rightarrow> string \<Rightarrow> string \<Rightarrow> splitter" where
  "NewSplitter fileRows idName lab = \<lparr>sp_fileRows = fileRows, sp_idName = idName, sp_label = lab, sp_folds = []\<rparr>"

definition set_folds :: "row list list result \<Rightarrow> (splitter, unit) act" where
  "set_folds r = (\<lambda>s. case r of Inl e \<Rightarrow> (Inl e, s) | Inr splitSets \<Rightarrow> (Inr (), s\<lparr>sp_folds := splitSets\<rparr>))"

definition two_folds :: "(row list \<times> row list) result \<Rightarrow> row list list result" where
  "two_folds r = rbind r (\<lambda>(p, q). Inr [p, q])"

definition splitter_Split :: "int \<Rightarrow> (splitter, unit) act" where
  "splitter_Split percents = (\<lambda>s. if percents < 1 \<or> percents > 100 then (plain_err, s)
     else set_folds (two_folds (Split (sp_fileRows s) percents)) s)"

definition splitter_ShuffleSplit :: "split_env \<Rightarrow> int \<Rightarrow> string \<Rightarrow> (splitter, unit) act" where
  "splitter_ShuffleSplit E percents seed = (\<lambda>s. if percents < 1 \<or> percents > 100 then (plain_err, s)
     else set_folds (two_folds (ShuffleSplit E (sp_fileRows s) (sp_idName s) percents seed)) s)"

text \<open>Dividing into folds need not return; then there is no result.\<close>

definition splitter_KFoldsSplit :: "int \<Rightarrow> splitter \<Rightarrow> (unit result \<times> splitter) option" where
  "splitter_KFoldsSplit k s = map_option (\<lambda>r. set_folds r s) (KFoldsSplit (sp_fileRows s) k)"

definition splitter_ShuffleKFoldsSplit :: "split_env \<Rightarrow> int \<Rightarrow> string \<Rightarrow> splitter \<Rightarrow> (unit result \<times> splitter) option" where
  "splitter_ShuffleKFoldsSplit E k seed s =
     map_option (\<lambda>r. set_folds r s) (ShuffleKFoldsSplit E (sp_fileRows s) (sp_idName s) k seed)"

definition splitter_LooSplit :: "(splitter, unit) act" where
  "splitter_LooSplit = (\<lambda>s. set_folds (LooSplit (sp_fileRows s) (sp_idName s)) s)"

definition GetAllFolds :: "splitter \<Rightarrow> row list list result" where
  "GetAllFolds s = (if length (sp_folds s) = 0 then plain_err else Inr (sp_folds s))"

text \<open>A negative index passes the check and then panics.\<close>

definition GetValidSet :: "splitter \<Rightarrow> int \<Rightarrow> row list result" where
  "GetValidSet s idx = (if length (sp_folds s) = 0 then plain_err
     else if idx \<ge> int (length (sp_folds s)) then plain_err
     else if idx < 0 then panic else Inr (sp_folds s ! nat idx))"

fun train_rows :: "row list list \<Rightarrow> nat \<Rightarrow> nat \<Rightarrow> row list result" where
  "train_rows [] i idxHO = Inr []"
| "train_rows (part # folds) i idxHO = (if i = idxHO then train_rows folds (i + 1) idxHO
     else case part of [] \<Rightarrow> panic
       | names # rows \<Rightarrow> rbind (train_rows folds (i + 1) idxHO) (\<lambda>r. Inr (rows @ r)))"

definition GetTrainSet :: "splitter \<Rightarrow> int \<Rightarrow> row list result" where
  "GetTrainSet s idxHO = (if length (sp_folds s) = 0 then plain_err
     else if idxHO \<ge> int (length (sp_folds s)) then plain_err
     else if idxHO < 0 then panic
     else if int (length (sp_fileRows s)) - int (length (sp_folds s ! nat idxHO)) + 1 < 0 then panic
     else case sp_fileRows s of [] \<Rightarrow> panic
       | names # _ \<Rightarrow> rbind (train_rows (sp_folds s) 0 (nat idxHO)) (\<lambda>r. Inr (names # r)))"

fun remove_label :: "nat \<Rightarrow> row list \<Rightarrow> row list result" where
  "remove_label idxL [] = Inr []"
| "remove_label idxL (r # rs) = (if length r \<le> idxL then plain_err
     else rbind (remove_label idxL rs) (\<lambda>out. Inr ((take idxL r @ drop (idxL + 1) r) # out)))"

definition GetPredictSet :: "splitter \<Rightarrow> int \<Rightarrow> row list result" where
  "GetPredictSet s idx = rbind (GetValidSet s idx) (\<lambda>validSet.
     case validSet of [] \<Rightarrow> panic
     | names # _ \<Rightarrow> (case first_index (sp_label s) names of None \<Rightarrow> Inr validSet
        | Some idxL \<Rightarrow> remove_label idxL validSet))"

definition getFeaturesByName :: "row list \<Rightarrow> string \<Rightarrow> row result" where
  "getFeaturesByName fileRows name = (case fileRows of [] \<Rightarrow> plain_err
     | names # rows \<Rightarrow> (case first_index name names of None \<Rightarrow> plain_err
        | Some idx \<Rightarrow> if \<exists>r \<in> set rows. length r \<le> idx then plain_err else Inr (map (\<lambda>r. r ! idx) rows)))"

section \<open>What the loops compute\<close>

lemma split_loop_take: "split_loop i l rs = (take (l - i) rs, drop (l - i) rs)"
  by (induction i l rs rule: split_loop.induct) (simp_all add: take_Cons' drop_Cons')

text \<open>Cutting a list into pieces of given sizes.\<close>

fun pieces :: "nat list \<Rightarrow> 'a list \<Rightarrow> 'a list list" where
  "pieces [] xs = []"
| "pieces (n # ns) xs = take n xs # pieces ns (drop n xs)"

lemma length_pieces [simp]: "length (pieces ns xs) = length ns"
  by (induction ns xs rule: pieces.induct) simp_all

lemma concat_pieces: "sum_list ns = length xs \<Longrightarrow> concat (pieces ns xs) = xs"
proof (induction ns xs rule: pieces.induct)
  case (2 n ns xs)
  then have "sum_list ns = length (drop n xs)" by auto
  with 2 show ?case by simp
qed simp

lemma map_pieces: "pieces ns (map f xs) = map (map f) (pieces ns xs)"
  by (induction ns xs rule: pieces.induct) (simp_all add: take_map drop_map)

lemma sizes_pieces: "sum_list ns = length xs \<Longrightarrow> map length (pieces ns xs) = ns"
  by (induction ns xs rule: pieces.induct) auto

definition fold_sizes :: "nat \<Rightarrow> nat \<Rightarrow> nat list" where
  "fold_sizes n k = replicate (n mod k) (n div k + 1) @ replicate (k - n mod k) (n div k)"

lemma sum_fold_sizes: "0 < k \<Longrightarrow> sum_list (fold_sizes n k) = n"
proof -
  assume "0 < k"
  then have "n mod k \<le> k" by (simp add: less_imp_le)
  then have "sum_list (fold_sizes n k) = n mod k + (n mod k + (k - n mod k)) * (n div k)"
    unfolding fold_sizes_def sum_list_append sum_list_replicate by (simp only: distrib_left distrib_right) simp
  also have "n mod k + (k - n mod k) = k" using \<open>n mod k \<le> k\<close> by simp
  finally show ?thesis by simp
qed

lemma length_fold_sizes: "0 < k \<Longrightarrow> length (fold_sizes n k) = k"
  by (simp add: fold_sizes_def less_imp_le)

lemma kfolds_loop_pieces:
  assumes "0 < dv" and "i + r * (dv + 1) + q * dv = length fileRows"
  shows "kfolds_loop fileRows dv r i =
    Some (map ((#) (hd fileRows)) (pieces (replicate r (dv + 1) @ replicate q dv) (drop i fileRows)))"
  using assms(2)
proof (induction "r + q" arbitrary: i r q)
  case 0
  then show ?case by (subst kfolds_loop.simps) simp
next
  case (Suc m)
  show ?case
  proof (cases r)
    case 0
    then obtain p where q: "q = Suc p" using Suc.hyps(2) by (cases q) auto
    have "i + dv + 0 * (dv + 1) + p * dv = length fileRows" using Suc.prems q 0 by simp
    from Suc.hyps(1)[OF _ this] q 0 Suc.hyps(2) assms(1) Suc.prems show ?thesis
      by (subst kfolds_loop.simps) (simp add: Let_def drop_drop add.commute)
  next
    case (Suc p)
    have "i + (dv + 1) + p * (dv + 1) + q * dv = length fileRows" using Suc.prems Suc by simp
    from Suc.hyps(1)[OF _ this] Suc Suc.hyps(2) Suc.prems show ?thesis
      by (subst kfolds_loop.simps) (simp add: Let_def drop_drop add.commute)
  qed
qed

text \<open>Dividing into folds ends, with that many folds of almost equal sizes.\<close>

lemma KFoldsSplit_returns:
  "KFoldsSplit (names # rows) k = Some (if (k = 5 \<or> k = 10) \<and> k \<le> int (length rows)
     then Inr (map ((#) names) (pieces (fold_sizes (length rows) (nat k)) rows)) else plain_err)"
proof (cases "(k = 5 \<or> k = 10) \<and> k \<le> int (length rows)")
  case True
  define n where "n = length rows"
  from True have k: "0 < nat k" "nat k \<le> n" unfolding n_def by linarith+
  have dv: "0 < n div nat k" using k by (simp add: div_greater_zero_iff)
  have "sum_list (fold_sizes n (nat k)) = n" by (rule sum_fold_sizes[OF k(1)])
  then have "1 + (n mod nat k) * (n div nat k + 1) + (nat k - n mod nat k) * (n div nat k) = length (names # rows)"
    by (simp add: fold_sizes_def sum_list_replicate n_def)
  from kfolds_loop_pieces[OF dv this] True show ?thesis
    by (auto simp: KFoldsSplit_def Let_def n_def fold_sizes_def)
qed (auto simp: KFoldsSplit_def)

section \<open>Sorting is stable\<close>

lemma group_rows_ok:
  assumes "group_rows idx rows m ids = Inr (m', ids')"
  shows "(\<forall>r \<in> set rows. idx < length r) \<and>
    (\<forall>i. map_of m' i = (case map_of m i of
        Some rs \<Rightarrow> Some (rs @ filter (\<lambda>r. r ! idx = i) rows)
      | None \<Rightarrow> if i \<in> set (map (\<lambda>r. r ! idx) rows) then Some (filter (\<lambda>r. r ! idx = i) rows) else None)) \<and>
    (set ids = dom (map_of m) \<longrightarrow> distinct ids \<longrightarrow>
      distinct ids' \<and> set ids' = set ids \<union> set (map (\<lambda>r. r ! idx) rows))"
  using assms
proof (induction idx rows m ids rule: group_rows.induct)
  case (2 idx r rs m ids)
  from "2.prems" have l: "idx < length r" by (simp split: if_splits)
  show ?case
  proof (cases "map_of m (r ! idx)")
    case None
    with "2.prems" l have run: "group_rows idx rs (AList.update (r ! idx) [r] m) (ids @ [r ! idx]) = Inr (m', ids')"
      by simp
    from "2.IH"(1)[OF _ None run] l have
      "\<forall>r \<in> set rs. idx < length r" and
      m': "\<And>i. map_of m' i = (case map_of (AList.update (r ! idx) [r] m) i of
        Some rs' \<Rightarrow> Some (rs' @ filter (\<lambda>r. r ! idx = i) rs)
      | None \<Rightarrow> if i \<in> set (map (\<lambda>r. r ! idx) rs) then Some (filter (\<lambda>r. r ! idx = i) rs) else None)" and
      ids: "set (ids @ [r ! idx]) = dom (map_of (AList.update (r ! idx) [r] m)) \<longrightarrow> distinct (ids @ [r ! idx]) \<longrightarrow>
        distinct ids' \<and> set ids' = set (ids @ [r ! idx]) \<union> set (map (\<lambda>r. r ! idx) rs)"
      by auto
    have "set ids = dom (map_of m) \<longrightarrow> r ! idx \<notin> set ids" using None by auto
    with ids have "set ids = dom (map_of m) \<longrightarrow> distinct ids \<longrightarrow>
        distinct ids' \<and> set ids' = set ids \<union> set (map (\<lambda>r. r ! idx) (r # rs))"
      by (auto simp: AList.update_conv')
    moreover have "map_of m' i = (case map_of m i of
        Some rs' \<Rightarrow> Some (rs' @ filter (\<lambda>r. r ! idx = i) (r # rs))
      | None \<Rightarrow> if i \<in> set (map (\<lambda>r. r ! idx) (r # rs)) then Some (filter (\<lambda>r. r ! idx = i) (r # rs)) else None)" for i
      using None by (auto simp: m' AList.update_conv' split: option.split)
    ultimately show ?thesis using l \<open>\<forall>r \<in> set rs. idx < length r\<close> by simp
  next
    case (Some rows)
    with "2.prems" l have run: "group_rows idx rs (AList.update (r ! idx) (rows @ [r]) m) ids = Inr (m', ids')"
      by simp
    from "2.IH"(2)[OF _ Some run] l have
      "\<forall>r \<in> set rs. idx < length r" and
      m': "\<And>i. map_of m' i = (case map_of (AList.update (r ! idx) (rows @ [r]) m) i of
        Some rs' \<Rightarrow> Some (rs' @ filter (\<lambda>r. r ! idx = i) rs)
      | None \<Rightarrow> if i \<in> set (map (\<lambda>r. r ! idx) rs) then Some (filter (\<lambda>r. r ! idx = i) rs) else None)" and
      ids: "set ids = dom (map_of (AList.update (r ! idx) (rows @ [r]) m)) \<longrightarrow> distinct ids \<longrightarrow>
        distinct ids' \<and> set ids' = set ids \<union> set (map (\<lambda>r. r ! idx) rs)"
      by auto
    from ids Some have "set ids = dom (map_of m) \<longrightarrow> distinct ids \<longrightarrow>
        distinct ids' \<and> set ids' = set ids \<union> set (map (\<lambda>r. r ! idx) (r # rs))"
      by (auto simp: AList.update_conv' insert_absorb domI)
    moreover have "map_of m' i = (case map_of m i of
        Some rs' \<Rightarrow> Some (rs' @ filter (\<lambda>r. r ! idx = i) (r # rs))
      | None \<Rightarrow> if i \<in> set (map (\<lambda>r. r ! idx) (r # rs)) then Some (filter (\<lambda>r. r ! idx = i) (r # rs)) else None)" for i
      using Some by (auto simp: m' AList.update_conv' split: option.split)
    ultimately show ?thesis using l \<open>\<forall>r \<in> set rs. idx < length r\<close> by simp
  qed
qed (auto split: option.split)

lemma group_rows_total:
  "\<forall>r \<in> set rows. idx < length r \<Longrightarrow> \<exists>m' ids'. group_rows idx rows m ids = Inr (m', ids')"
  by (induction idx rows m ids rule: group_rows.induct) (auto split: option.split)

lemma group_rows_fails: "r \<in> set rows \<Longrightarrow> length r \<le> idx \<Longrightarrow> group_rows idx rows m ids = plain_err"
  by (induction idx rows m ids rule: group_rows.induct) (auto split: option.split)

text \<open>Rows grouped by their keys, in the order of the keys, are the rows sorted by their keys.\<close>

lemma concat_groups:
  assumes "distinct ks" and "sorted ks" and "f ` set xs \<subseteq> set ks"
  shows "concat (map (\<lambda>k. filter (\<lambda>x. f x = k) xs) ks) = sort_key f xs"
proof (rule properties_for_sort_key[symmetric])
  have step: "mset (filter (\<lambda>x. f x \<in> set (k # ks)) ys) =
        mset (filter (\<lambda>x. f x = k) ys) + mset (filter (\<lambda>x. f x \<in> set ks) ys)" if "k \<notin> set ks" for k ks ys
    using that by (induction ys) auto
  have count: "mset (concat (map (\<lambda>k. filter (\<lambda>x. f x = k) xs) ks)) = mset (filter (\<lambda>x. f x \<in> set ks) xs)"
    using assms(1)
  proof (induction ks)
    case (Cons k ks)
    from Cons step[of k ks xs] show ?case by simp
  qed simp
  moreover have "filter (\<lambda>x. f x \<in> set ks) xs = xs" using assms(3) by (auto simp: filter_id_conv)
  ultimately show "mset (concat (map (\<lambda>k. filter (\<lambda>x. f x = k) xs) ks)) = mset xs" by simp
  have one: "concat (map (\<lambda>k. filter (\<lambda>x. f y = f x) (filter (\<lambda>x. f x = k) xs)) ks) =
      (if f y \<in> set ks then filter (\<lambda>x. f y = f x) xs else [])" for y
    using assms(1)
  proof (induction ks)
    case (Cons k ks)
    show ?case
    proof (cases "f y = k")
      case True
      then have "filter (\<lambda>x. f y = f x) (filter (\<lambda>x. f x = k) xs) = filter (\<lambda>x. f y = f x) xs"
        by (auto intro!: filter_cong simp: filter_filter)
      with True Cons show ?thesis by simp
    next
      case False
      then have "filter (\<lambda>x. f y = f x) (filter (\<lambda>x. f x = k) xs) = []" by (auto simp: filter_empty_conv)
      with False Cons show ?thesis by simp
    qed
  qed simp
  show "filter (\<lambda>x. f y = f x) (concat (map (\<lambda>k. filter (\<lambda>x. f x = k) xs) ks)) = filter (\<lambda>x. f y = f x) xs"
    if "y \<in> set (concat (map (\<lambda>k. filter (\<lambda>x. f x = k) xs) ks))" for y
    using that one[of y] by (auto simp: filter_concat comp_def)
  show "sorted (map f (concat (map (\<lambda>k. filter (\<lambda>x. f x = k) xs) ks)))"
    using assms(2)
  proof (induction ks)
    case (Cons k ks)
    have "sorted (map f (filter (\<lambda>x. f x = k) xs))" by (induction xs) auto
    with Cons show ?case by (auto simp: sorted_append)
  qed simp
qed

lemma sortById_sorts:
  assumes "first_index idName names = Some idx"
  shows "sortById (names # rows) idName =
    (if \<forall>r \<in> set rows. idx < length r then Inr (names # sort_key (\<lambda>r. r ! idx) rows) else plain_err)"
proof (cases "\<forall>r \<in> set rows. idx < length r")
  case True
  then obtain m ids where g: "group_rows idx rows [] [] = Inr (m, ids)" using group_rows_total by blast
  from group_rows_ok[OF g] have m: "\<And>i. map_of m i = (if i \<in> set (map (\<lambda>r. r ! idx) rows)
        then Some (filter (\<lambda>r. r ! idx = i) rows) else None)"
    and ids: "distinct ids" "set ids = set (map (\<lambda>r. r ! idx) rows)" by auto
  have eq: "map (\<lambda>i. case map_of m i of None \<Rightarrow> [] | Some rs \<Rightarrow> rs) (sort ids) =
      map (\<lambda>i. filter (\<lambda>r. r ! idx = i) rows) (sort ids)"
    by (rule map_cong[OF refl]) (use ids(2) in \<open>auto simp: m\<close>)
  have "concat (map (\<lambda>i. case map_of m i of None \<Rightarrow> [] | Some rs \<Rightarrow> rs) (sort ids)) = sort_key (\<lambda>r. r ! idx) rows"
    unfolding eq by (rule concat_groups) (use ids in auto)
  with True show ?thesis by (simp add: sortById_def assms g)
next
  case False
  then obtain r where "r \<in> set rows" "length r \<le> idx" by (auto simp: not_less)
  from group_rows_fails[OF this] False show ?thesis by (auto simp: sortById_def assms)
qed

section \<open>Shuffling permutes\<close>

text \<open>What the code relies on of the generator: a number drawn for a step is at most that step.\<close>

locale generator =
  fixes E :: split_env
  assumes draw_le: "draw E s n i \<le> i"

lemma mset_swap: "i < length xs \<Longrightarrow> j < length xs \<Longrightarrow> mset (swap xs i j) = mset xs"
  by (simp add: swap_def mset_swap)

lemma map_swap: "i < length xs \<Longrightarrow> j < length xs \<Longrightarrow> map f (swap xs i j) = swap (map f xs) i j"
  by (simp add: swap_def map_update)

lemma length_swap [simp]: "length (swap xs i j) = length xs"
  by (simp add: swap_def)

lemma shuffle_loop_facts:
  assumes "\<And>i. d i \<le> i" and "i < length xs"
  shows "mset (shuffle_loop d xs i) = mset xs" and "map f (shuffle_loop d xs i) = shuffle_loop d (map f xs) i"
proof -
  have "mset (shuffle_loop d xs i) = mset xs \<and> map f (shuffle_loop d xs i) = shuffle_loop d (map f xs) i"
    using assms(2)
  proof (induction i arbitrary: xs)
    case (Suc i)
    have "d (Suc i) < length xs" by (rule le_less_trans[OF _ Suc.prems]) (rule assms)
    with Suc show ?case by (simp add: mset_swap map_swap)
  qed simp
  then show "mset (shuffle_loop d xs i) = mset xs" "map f (shuffle_loop d xs i) = shuffle_loop d (map f xs) i"
    by auto
qed

context generator begin

lemma mset_Shuffle: "mset (Shuffle (draw E s) xs) = mset xs"
  using shuffle_loop_facts(1)[of "draw E s (length xs)" "length xs - 1" xs] draw_le
  by (cases xs) (simp_all add: Shuffle_def)

lemma map_Shuffle: "map f (Shuffle (draw E s) xs) = Shuffle (draw E s) (map f xs)"
  using shuffle_loop_facts(2)[of "draw E s (length xs)" "length xs - 1" xs f] draw_le
  by (cases xs) (simp_all add: Shuffle_def)

end

end
