(* ===== verification/EvalFolds.thy ===== *)
theory EvalFolds
  imports EvalSplit
begin

text \<open>
  What dividing a file gives: training and validation sets, and the folds of several parties.
\<close>

section \<open>The ways of dividing\<close>

datatype division =
    Direct int | DirectFolds int | Random int string | RandomFolds int string | LeaveOneOut

fun divide :: "split_env \<Rightarrow> division \<Rightarrow> splitter \<Rightarrow> (unit result \<times> splitter) option" where
  "divide E (Direct percents) s = Some (splitter_Split percents s)"
| "divide E (DirectFolds k) s = splitter_KFoldsSplit k s"
| "divide E (Random percents seed) s = Some (splitter_ShuffleSplit E percents seed s)"
| "divide E (RandomFolds k seed) s = splitter_ShuffleKFoldsSplit E k seed s"
| "divide E LeaveOneOut s = Some (splitter_LooSplit s)"

text \<open>The parts, in terms of the rows in their final order.\<close>

definition two_parts :: "int \<Rightarrow> 'a list \<Rightarrow> 'a list list" where
  "two_parts percents rows =
     (let l = nat (int (length rows) * percents div 100) in [take l rows, drop l rows])"

definition fold_parts :: "int \<Rightarrow> 'a list \<Rightarrow> 'a list list" where
  "fold_parts k rows = pieces (fold_sizes (length rows) (nat k)) rows"

definition folds_ok :: "int \<Rightarrow> nat \<Rightarrow> bool" where
  "folds_ok k n \<longleftrightarrow> (k = 5 \<or> k = 10) \<and> k \<le> int n"

lemma Split_parts:
  assumes "1 \<le> percents" "percents \<le> 100"
  shows "two_folds (Split (names # rows) percents) = Inr (map ((#) names) (two_parts percents rows))"
  using assms by (simp add: two_folds_def Split_def Let_def split_loop_take two_parts_def)

lemma KFoldsSplit_parts:
  "KFoldsSplit (names # rows) k = Some (if folds_ok k (length rows)
     then Inr (map ((#) names) (fold_parts k rows)) else plain_err)"
  by (simp add: KFoldsSplit_returns folds_ok_def fold_parts_def)

lemma LooSplit_parts:
  assumes "sortById (names # rows) i = Inr (names # xs)" and "length xs = length rows"
  shows "LooSplit (names # rows) i = (if rows = [] then plain_err else Inr (map (\<lambda>x. [names, x]) xs))"
proof -
  have "map (\<lambda>j. [(names # xs) ! 0, (names # xs) ! j]) [1..<Suc (length rows)] = map (\<lambda>x. [names, x]) xs"
    by (rule nth_equalityI) (simp_all add: assms(2) del: upt_Suc)
  with assms show ?thesis by (simp add: LooSplit_def del: upt_Suc)
qed

lemma concat_two_parts [simp]: "concat (two_parts p rows) = rows"
  by (simp add: two_parts_def Let_def)

lemma two_parts_ne [simp]: "two_parts p rows \<noteq> []"
  by (simp add: two_parts_def Let_def)

lemma fold_parts_ne: "folds_ok k n \<Longrightarrow> fold_parts k rows \<noteq> []"
proof -
  assume "folds_ok k n"
  then have "0 < nat k" by (auto simp: folds_ok_def)
  then have "length (fold_parts k rows) \<noteq> 0" by (simp add: fold_parts_def length_fold_sizes)
  then show ?thesis by simp
qed

lemma concat_fold_parts: "folds_ok k (length rows) \<Longrightarrow> concat (fold_parts k rows) = rows"
  unfolding fold_parts_def folds_ok_def by (intro concat_pieces sum_fold_sizes) auto

lemma map_two_parts: "two_parts p (map f rows) = map (map f) (two_parts p rows)"
  by (simp add: two_parts_def Let_def take_map drop_map)

lemma map_fold_parts: "fold_parts p (map f rows) = map (map f) (fold_parts p rows)"
  by (simp add: fold_parts_def map_pieces)

section \<open>Training and validation sets\<close>

lemma train_rows_parts:
  "train_rows (map ((#) names) parts) i j =
     Inr (if i \<le> j then concat (take (j - i) parts @ drop (Suc j - i) parts) else concat parts)"
proof (induction parts arbitrary: i)
  case (Cons p parts)
  show ?case
  proof (cases "i = j")
    case True
    with Cons.IH[of "Suc i"] show ?thesis by simp
  next
    case False
    with Cons.IH[of "Suc i"] show ?thesis by (auto simp: Suc_diff_le take_Cons' drop_Cons')
  qed
qed simp

text \<open>A file divided into parts: the names on top of each part, and every row in one of them.\<close>

definition divided :: "row \<Rightarrow> row list \<Rightarrow> row list list \<Rightarrow> splitter \<Rightarrow> bool" where
  "divided names rows parts s \<longleftrightarrow> sp_fileRows s = names # rows \<and>
     sp_folds s = map ((#) names) parts \<and> mset (concat parts) = mset rows"

lemma divided_valid:
  "divided names rows parts s \<Longrightarrow> i < length parts \<Longrightarrow> GetValidSet s (int i) = Inr (names # parts ! i)"
  by (auto simp: divided_def GetValidSet_def)

lemma length_part_le:
  assumes "divided names rows parts s" and "i < length parts"
  shows "length (parts ! i) \<le> length rows"
proof -
  have "mset (parts ! i) \<subseteq># mset (concat parts)"
    using nth_mem[OF assms(2)] by (metis mset_subset_eq_add_left split_list concat.simps(2) concat_append
        mset_append subset_mset.add_increasing subset_mset.zero_le)
  then show ?thesis using assms(1) by (metis divided_def size_mset size_mset_mono)
qed

lemma divided_train:
  assumes "divided names rows parts s" and "i < length parts"
  shows "\<exists>t. GetTrainSet s (int i) = Inr (names # t) \<and> mset t + mset (parts ! i) = mset rows"
proof -
  have "concat parts = concat (take i parts) @ parts ! i @ concat (drop (Suc i) parts)"
    by (metis id_take_nth_drop[OF assms(2)] concat.simps(2) concat_append)
  then have "mset (concat (take i parts @ drop (Suc i) parts)) + mset (parts ! i) = mset rows"
    using assms(1) by (simp add: divided_def ac_simps)
  with assms length_part_le[OF assms] show ?thesis
    by (auto simp: divided_def GetTrainSet_def train_rows_parts)
qed

context generator begin

lemma sort_shuffle:
  assumes "rbind (sortById (names # rows) i) (\<lambda>f. shuffle E f seed) = Inr out"
  obtains idx where "first_index i names = Some idx" and "\<forall>r \<in> set rows. idx < length r"
    and "out = names # Shuffle (draw E (seed_of (md5_Sum E seed))) (sort_key (\<lambda>r. r ! idx) rows)"
proof -
  obtain idx where idx: "first_index i names = Some idx"
    using assms by (cases "first_index i names") (simp_all add: sortById_def)
  from assms have "\<forall>r \<in> set rows. idx < length r"
    by (simp add: sortById_sorts[OF idx] split: if_splits)
  with assms show thesis by (intro that[OF idx]) (simp_all add: sortById_sorts[OF idx] shuffle_def)
qed

text \<open>Every successful division divides the file, and dividing always returns.\<close>

lemma divide_divides:
  assumes f: "sp_fileRows s = names # rows" and d: "divide E dv s = Some (Inr u, s')"
  shows "\<exists>parts. divided names rows parts s' \<and> parts \<noteq> [] \<and>
    (\<forall>k seed. dv = DirectFolds k \<or> dv = RandomFolds k seed \<longrightarrow>
       map length parts = fold_sizes (length rows) (nat k) \<and> length parts = nat k)"
proof -
  have sizes: "map length (fold_parts k xs) = fold_sizes (length xs) (nat k)" "length (fold_parts k xs) = nat k"
    if "folds_ok k (length xs)" for k xs
    using that by (auto simp: fold_parts_def folds_ok_def sizes_pieces sum_fold_sizes length_fold_sizes)
  show ?thesis
  proof (cases dv)
    case (Direct p)
    with d f have p: "1 \<le> p" "p \<le> 100" by (auto simp: splitter_Split_def split: if_splits)
    with Direct d f show ?thesis
      by (intro exI[of _ "two_parts p rows"]) (auto simp: divided_def splitter_Split_def set_folds_def Split_parts[OF p])
  next
    case (DirectFolds k)
    with d f have k: "folds_ok k (length rows)"
      by (auto simp: splitter_KFoldsSplit_def set_folds_def KFoldsSplit_parts split: if_splits)
    with DirectFolds d f show ?thesis
      by (intro exI[of _ "fold_parts k rows"])
        (auto simp: divided_def splitter_KFoldsSplit_def set_folds_def KFoldsSplit_parts concat_fold_parts fold_parts_ne sizes)
  next
    case (Random p seed)
    with d have p: "1 \<le> p" "p \<le> 100" by (auto simp: splitter_ShuffleSplit_def split: if_splits)
    from Random d f p obtain out where out: "rbind (sortById (names # rows) (sp_idName s)) (\<lambda>f. shuffle E f seed) = Inr out"
      by (auto simp: splitter_ShuffleSplit_def set_folds_def two_folds_def ShuffleSplit_def rbind_def split: sum.splits if_splits)
    from sort_shuffle[OF this] obtain idx xs where xs: "out = names # xs" "mset xs = mset rows"
      by (metis mset_Shuffle mset_sort)
    have "ShuffleSplit E (names # rows) (sp_idName s) p seed = Split (names # xs) p"
      using out by (auto simp: ShuffleSplit_def xs(1) rbind_def split: sum.splits)
    with Random d f p xs(2) show ?thesis
      by (intro exI[of _ "two_parts p xs"]) (auto simp: divided_def splitter_ShuffleSplit_def set_folds_def Split_parts[OF p])
  next
    case (RandomFolds k seed)
    from RandomFolds d f obtain out where out: "rbind (sortById (names # rows) (sp_idName s)) (\<lambda>f. shuffle E f seed) = Inr out"
      by (auto simp: splitter_ShuffleKFoldsSplit_def set_folds_def ShuffleKFoldsSplit_def split: sum.splits)
    from sort_shuffle[OF this] obtain idx xs where xs: "out = names # xs" "mset xs = mset rows"
      by (metis mset_Shuffle mset_sort)
    then have l: "length xs = length rows" by (metis size_mset)
    from RandomFolds d f out xs(1) have k: "folds_ok k (length xs)"
      by (auto simp: splitter_ShuffleKFoldsSplit_def set_folds_def ShuffleKFoldsSplit_def KFoldsSplit_parts split: if_splits)
    with RandomFolds d f out xs l show ?thesis
      by (intro exI[of _ "fold_parts k xs"])
        (auto simp: divided_def splitter_ShuffleKFoldsSplit_def ShuffleKFoldsSplit_def set_folds_def KFoldsSplit_parts
          concat_fold_parts fold_parts_ne sizes)
  next
    case LeaveOneOut
    have ne: "rows \<noteq> []" using LeaveOneOut d f by (auto simp: splitter_LooSplit_def set_folds_def LooSplit_def)
    obtain idx where idx: "first_index (sp_idName s) names = Some idx"
      using LeaveOneOut d f ne by (cases "first_index (sp_idName s) names")
        (auto simp: splitter_LooSplit_def set_folds_def LooSplit_def sortById_def Suc_le_eq)
    have ok: "\<forall>r \<in> set rows. idx < length r"
      using LeaveOneOut d f ne by (auto simp: splitter_LooSplit_def set_folds_def LooSplit_def sortById_sorts[OF idx] split: if_splits)
    let ?xs = "sort_key (\<lambda>r. r ! idx) rows"
    have "LooSplit (names # rows) (sp_idName s) = Inr (map ((#) names) (map (\<lambda>x. [x]) ?xs))"
      using LooSplit_parts[of names rows "sp_idName s" ?xs] ok ne by (simp add: sortById_sorts[OF idx])
    moreover have "concat (map (\<lambda>x. [x]) ?xs) = ?xs" by simp
    moreover have ne': "map (\<lambda>x. [x]) ?xs \<noteq> []" using ne by (metis Nil_is_map_conv length_0_conv length_sort)
    ultimately show ?thesis using LeaveOneOut d f
      by (intro exI[of _ "map (\<lambda>x. [x]) ?xs"])
        (auto simp: divided_def splitter_LooSplit_def set_folds_def)
  qed
qed

end

lemma divide_returns:
  assumes "sp_fileRows s = names # rows"
  shows "divide E dv s \<noteq> None"
proof -
  have "ShuffleKFoldsSplit E (names # rows) i k seed \<noteq> None" for i k seed
    by (auto simp: ShuffleKFoldsSplit_def KFoldsSplit_parts shuffle_def rbind_def sortById_def split: sum.splits list.splits option.splits)
  with assms show ?thesis
    by (cases dv) (simp_all add: splitter_KFoldsSplit_def splitter_ShuffleKFoldsSplit_def KFoldsSplit_parts)
qed

section \<open>The folds of several parties\<close>

text \<open>The identifiers in a fold, below the names of the features.\<close>

definition column :: "nat \<Rightarrow> row list \<Rightarrow> string list" where
  "column idx part = map (\<lambda>r. r ! idx) (tl part)"

lemma map_sort_key: "map f (sort_key f xs) = sort (map f xs)"
  by (rule sym, rule properties_for_sort) simp_all

lemma column_parts: "map (column idx) (map ((#) names) parts) = map (map (\<lambda>r. r ! idx)) parts"
  by (simp add: column_def)

text \<open>The identifiers of the folds depend on the identifiers of the file and on nothing else of it.\<close>

fun id_folds :: "split_env \<Rightarrow> division \<Rightarrow> string list \<Rightarrow> string list list option" where
  "id_folds E (Random p seed) ids = (if 1 \<le> p \<and> p \<le> 100
     then Some (two_parts p (Shuffle (draw E (seed_of (md5_Sum E seed))) (sort ids))) else None)"
| "id_folds E (RandomFolds k seed) ids = (if folds_ok k (length ids)
     then Some (fold_parts k (Shuffle (draw E (seed_of (md5_Sum E seed))) (sort ids))) else None)"
| "id_folds E LeaveOneOut ids = (if ids = [] then None else Some (map (\<lambda>i. [i]) (sort ids)))"
| "id_folds E _ ids = None"

definition shuffles :: "division \<Rightarrow> bool" where
  "shuffles dv \<longleftrightarrow> (\<nexists>p. dv = Direct p) \<and> (\<nexists>k. dv = DirectFolds k)"

context generator begin

lemma divide_ids:
  assumes f: "sp_fileRows s = names # rows" and i: "first_index (sp_idName s) names = Some idx"
    and ok: "\<forall>r \<in> set rows. idx < length r" and dv: "shuffles dv"
  shows "case id_folds E dv (map (\<lambda>r. r ! idx) rows) of
      None \<Rightarrow> \<exists>e. divide E dv s = Some (Inl e, s)
    | Some parts \<Rightarrow> \<exists>s'. divide E dv s = Some (Inr (), s') \<and> map (column idx) (sp_folds s') = parts"
proof -
  let ?f = "\<lambda>r. r ! idx"
  let ?xs = "sort_key ?f rows"
  have srt: "sortById (names # rows) (sp_idName s) = Inr (names # ?xs)"
    using ok by (simp add: sortById_sorts[OF i])
  have sh: "map ?f (Shuffle (draw E d) ?xs) = Shuffle (draw E d) (sort (map ?f rows))" for d
    by (simp only: map_Shuffle map_sort_key)
  have len: "length (Shuffle (draw E d) ?xs) = length rows" for d
    by (metis length_sort mset_Shuffle size_mset)
  have cols: "map (column idx) (map ((#) names) (two_parts p (Shuffle (draw E d) ?xs))) =
      two_parts p (Shuffle (draw E d) (sort (map ?f rows)))"
    "map (column idx) (map ((#) names) (fold_parts p (Shuffle (draw E d) ?xs))) =
      fold_parts p (Shuffle (draw E d) (sort (map ?f rows)))" for p d
    by (simp_all only: column_parts sh[symmetric] map_two_parts map_fold_parts)
  show ?thesis
  proof (cases dv)
    case (Random p seed)
    then show ?thesis
      by (auto simp: f splitter_ShuffleSplit_def ShuffleSplit_def srt shuffle_def set_folds_def Split_parts
          cols simp del: map_map)
  next
    case (RandomFolds k seed)
    then show ?thesis
      by (auto simp: f splitter_ShuffleKFoldsSplit_def ShuffleKFoldsSplit_def srt shuffle_def set_folds_def
          KFoldsSplit_parts cols len simp del: map_map)
  next
    case LeaveOneOut
    have "map (column idx) (map (\<lambda>x. [names, x]) ?xs) = map (\<lambda>i. [i]) (map ?f ?xs)"
      by (simp add: column_def)
    then have "map (column idx) (map (\<lambda>x. [names, x]) ?xs) = map (\<lambda>i. [i]) (sort (map ?f rows))"
      by (simp only: map_sort_key)
    then show ?thesis using LeaveOneOut LooSplit_parts[OF srt]
      by (auto simp: f splitter_LooSplit_def set_folds_def simp del: map_map)
  qed (use dv in \<open>auto simp: shuffles_def\<close>)
qed

end

lemma id_folds_mset: "mset xs = mset ys \<Longrightarrow> id_folds E dv xs = id_folds E dv ys"
proof -
  assume "mset xs = mset ys"
  then have "sort xs = sort ys" "length xs = length ys"
    by (metis mset_sort properties_for_sort sorted_sort, rule mset_eq_length)
  moreover from this(2) have "xs = [] \<longleftrightarrow> ys = []" by auto
  ultimately show ?thesis by (cases dv) simp_all
qed

end
