(* ===== verification/EvalProperties.thy ===== *)
theory EvalProperties
  imports EvalFolds
begin

text \<open>
  The properties of the division of sample files, over a generator that draws for each step of a
  shuffle an arbitrary number reduced to the range of the step.
\<close>

definition math_rand :: "(string \<Rightarrow> string) \<Rightarrow> (int64 \<Rightarrow> nat \<Rightarrow> nat \<Rightarrow> nat) \<Rightarrow> split_env" where
  "math_rand md5 rng = \<lparr>md5_Sum = md5, draw = (\<lambda>s n i. rng s n i mod Suc i)\<rparr>"

interpretation mr: generator "math_rand md5 rng" for md5 rng
  by unfold_locales (simp add: math_rand_def less_Suc_eq_le[symmetric])

lemma set_folds_fails: "set_folds r s = (Inl e, s') \<Longrightarrow> s' = s"
  by (simp add: set_folds_def split: sum.splits)

lemma divide_fails: "divide E dv s = Some (Inl e, s') \<Longrightarrow> s' = s"
  by (cases dv) (auto simp: splitter_Split_def splitter_ShuffleSplit_def splitter_KFoldsSplit_def
      splitter_ShuffleKFoldsSplit_def splitter_LooSplit_def dest: set_folds_fails split: if_splits)

lemma fold_sizes_even: "p \<in> set (fold_sizes n k) \<Longrightarrow> q \<in> set (fold_sizes n k) \<Longrightarrow> p \<le> q + 1"
  by (auto simp: fold_sizes_def)

lemma parts_even:
  assumes "map length parts = fold_sizes n k" and "p \<in> set parts" and "q \<in> set parts"
  shows "length p \<le> length q + 1"
proof (rule fold_sizes_even)
  show "length p \<in> set (fold_sizes n k)" "length q \<in> set (fold_sizes n k)"
    using assms(2,3) by (simp_all flip: assms(1))
qed

text \<open>
  C29: however a sample file with a row of names is divided for an evaluation, the division returns,
  and when it succeeds every index of a fold has a validation set and a training set, both headed by
  the names, that share the rows of the file out between them: no row is lost, duplicated or both
  trained on and validated; all folds together are the file; and the folds of a division into
  five or ten differ by at most one row.
\<close>

theorem folds_partition_file:
  assumes "sp_fileRows s = names # rows"
  shows "\<exists>r s'. divide (math_rand md5 rng) dv s = Some (r, s') \<and>
    (case r of Inl e \<Rightarrow> s' = s
     | Inr _ \<Rightarrow> (\<exists>parts. GetAllFolds s' = Inr (map ((#) names) parts) \<and> mset (concat parts) = mset rows \<and>
         (\<forall>i < length parts. \<exists>t. GetValidSet s' (int i) = Inr (names # parts ! i) \<and>
            GetTrainSet s' (int i) = Inr (names # t) \<and> mset t + mset (parts ! i) = mset rows) \<and>
         (\<forall>k seed. dv = DirectFolds k \<or> dv = RandomFolds k seed \<longrightarrow>
            length parts = nat k \<and> (\<forall>p \<in> set parts. \<forall>q \<in> set parts. length p \<le> length q + 1))))"
proof -
  obtain r s' where d: "divide (math_rand md5 rng) dv s = Some (r, s')"
    using divide_returns[OF assms] by (metis not_None_eq surj_pair)
  show ?thesis
  proof (cases r)
    case (Inl e)
    with divide_fails d have "s' = s" by metis
    with d Inl show ?thesis by auto
  next
    case (Inr u)
    from mr.divide_divides[OF assms d[unfolded Inr]] obtain parts where p: "divided names rows parts s'"
      and ne: "parts \<noteq> []" and k: "\<And>k seed. dv = DirectFolds k \<or> dv = RandomFolds k seed \<Longrightarrow>
        map length parts = fold_sizes (length rows) (nat k) \<and> length parts = nat k" by blast
    have "GetAllFolds s' = Inr (map ((#) names) parts)" using p ne by (simp add: GetAllFolds_def divided_def)
    moreover have "\<forall>i < length parts. \<exists>t. GetValidSet s' (int i) = Inr (names # parts ! i) \<and>
            GetTrainSet s' (int i) = Inr (names # t) \<and> mset t + mset (parts ! i) = mset rows"
      using divided_valid[OF p] divided_train[OF p] by blast
    moreover have "\<forall>k seed. dv = DirectFolds k \<or> dv = RandomFolds k seed \<longrightarrow>
            length parts = nat k \<and> (\<forall>p \<in> set parts. \<forall>q \<in> set parts. length p \<le> length q + 1)"
    proof (intro allI impI conjI ballI)
      fix k seed p q
      assume dv: "dv = DirectFolds k \<or> dv = RandomFolds k seed"
      show "length parts = nat k" using k[OF dv] by simp
      assume "p \<in> set parts" "q \<in> set parts"
      with k[OF dv] show "length p \<le> length q + 1" using parts_even by blast
    qed
    ultimately show ?thesis using d Inr p by (auto simp: divided_def)
  qed
qed

lemma folds_partition_file_witness:
  "\<exists>r s'. divide (math_rand id (\<lambda>s n i. i + 1)) (Random 50 ''seed'')
      (NewSplitter [[''id'', ''x''], [''2'', ''7''], [''1'', ''8'']] ''id'' ''x'') = Some (r, s')"
  using folds_partition_file[of "NewSplitter [[''id'', ''x''], [''2'', ''7''], [''1'', ''8'']] ''id'' ''x''"
      "[''id'', ''x'']" "[[''2'', ''7''], [''1'', ''8'']]" id "\<lambda>s n i. i + 1" "Random 50 ''seed''"]
  by (auto simp: NewSplitter_def)

text \<open>
  C30: two parties whose files hold the same identifiers, whatever the order of their rows and their
  other columns, and who divide their files at random with the same seed, or leaving one sample out,
  either both fail or obtain as many folds, and fold by fold and row by row the same identifiers, so
  that training and predicting on a fold is on aligned samples.
\<close>

theorem parties_folds_aligned:
  assumes "sp_fileRows a = names # rows" and "first_index (sp_idName a) names = Some idx"
    and "\<forall>r \<in> set rows. idx < length r"
    and "sp_fileRows b = names' # rows'" and "first_index (sp_idName b) names' = Some idx'"
    and "\<forall>r \<in> set rows'. idx' < length r"
    and "mset (map (\<lambda>r. r ! idx) rows) = mset (map (\<lambda>r. r ! idx') rows')" and "shuffles dv"
  shows "\<exists>r r' a' b'. divide (math_rand md5 rng) dv a = Some (r, a') \<and>
    divide (math_rand md5 rng) dv b = Some (r', b') \<and> isl r = isl r' \<and>
    (\<not> isl r \<longrightarrow> map (column idx) (sp_folds a') = map (column idx') (sp_folds b'))"
proof -
  note A = mr.divide_ids[OF assms(1-3,8), of md5 rng]
  note B = mr.divide_ids[OF assms(4-6,8), of md5 rng, folded id_folds_mset[OF assms(7)]]
  show ?thesis
  proof (cases "id_folds (math_rand md5 rng) dv (map (\<lambda>r. r ! idx) rows)")
    case None
    with A B show ?thesis by force
  next
    case (Some parts)
    with A B show ?thesis by force
  qed
qed

lemma parties_folds_aligned_witness:
  "\<exists>r r' a' b'. divide (math_rand id (\<lambda>s n i. i + 1)) (Random 50 ''seed'')
      (NewSplitter [[''id'', ''x''], [''2'', ''7''], [''1'', ''8'']] ''id'' ''x'') = Some (r, a') \<and>
    divide (math_rand id (\<lambda>s n i. i + 1)) (Random 50 ''seed'')
      (NewSplitter [[''y'', ''id''], [''a'', ''1''], [''b'', ''2'']] ''id'' ''y'') = Some (r', b')"
  using parties_folds_aligned[of "NewSplitter [[''id'', ''x''], [''2'', ''7''], [''1'', ''8'']] ''id'' ''x''"
      "[''id'', ''x'']" "[[''2'', ''7''], [''1'', ''8'']]" 0
      "NewSplitter [[''y'', ''id''], [''a'', ''1''], [''b'', ''2'']] ''id'' ''y''"
      "[''y'', ''id'']" "[[''a'', ''1''], [''b'', ''2'']]" 1 "Random 50 ''seed''" id "\<lambda>s n i. i + 1"]
  by (force simp: NewSplitter_def shuffles_def)

end
