(* ===== verification/GoFloat.thy ===== *)
theory GoFloat
  imports Float64
begin

text \<open>
  The type \<^verbatim>\<open>float64\<close> with overflow, infinities and not-a-number, and the functions of the package
  \<^verbatim>\<open>math\<close> that the learning algorithms call, on the amd64 platform without fused operations.
  Both zeros are one value: nothing below divides by a zero that can be negative or prints one.
\<close>

section \<open>Values\<close>

datatype float64 = Fin rat | PInf | NInf | NaN

definition float_limit :: rat where
  "float_limit = 2 powi 1024"

text \<open>The nearest number with 53 significant bits and an exponent in range.\<close>

definition fround :: "rat \<Rightarrow> float64" where
  "fround x = (if x = 0 then Fin 0 else
     let u = 2 powi (max (binexp x) (-1022) - 52); y = of_int (round_even (x / u)) * u in
     if float_limit \<le> y then PInf else if y \<le> - float_limit then NInf else Fin y)"

definition float_of :: "int \<Rightarrow> float64" where
  "float_of i = fround (of_int i)"

section \<open>Arithmetic\<close>

fun fneg :: "float64 \<Rightarrow> float64" where
  "fneg (Fin x) = Fin (- x)"
| "fneg PInf = NInf"
| "fneg NInf = PInf"
| "fneg NaN = NaN"

fun fadd :: "float64 \<Rightarrow> float64 \<Rightarrow> float64" where
  "fadd (Fin x) (Fin y) = fround (x + y)"
| "fadd NaN _ = NaN"
| "fadd _ NaN = NaN"
| "fadd PInf NInf = NaN"
| "fadd NInf PInf = NaN"
| "fadd PInf _ = PInf"
| "fadd _ PInf = PInf"
| "fadd NInf _ = NInf"
| "fadd _ NInf = NInf"

definition fsub :: "float64 \<Rightarrow> float64 \<Rightarrow> float64" where
  "fsub x y = fadd x (fneg y)"

definition signed_inf :: "bool \<Rightarrow> float64" where
  "signed_inf neg = (if neg then NInf else PInf)"

fun fmul :: "float64 \<Rightarrow> float64 \<Rightarrow> float64" where
  "fmul (Fin x) (Fin y) = fround (x * y)"
| "fmul NaN _ = NaN"
| "fmul _ NaN = NaN"
| "fmul (Fin x) PInf = (if x = 0 then NaN else signed_inf (x < 0))"
| "fmul (Fin x) NInf = (if x = 0 then NaN else signed_inf (0 < x))"
| "fmul PInf (Fin y) = (if y = 0 then NaN else signed_inf (y < 0))"
| "fmul NInf (Fin y) = (if y = 0 then NaN else signed_inf (0 < y))"
| "fmul PInf PInf = PInf"
| "fmul NInf NInf = PInf"
| "fmul PInf NInf = NInf"
| "fmul NInf PInf = NInf"

fun fdiv :: "float64 \<Rightarrow> float64 \<Rightarrow> float64" where
  "fdiv (Fin x) (Fin y) = (if y = 0 then (if x = 0 then NaN else signed_inf (x < 0)) else fround (x / y))"
| "fdiv NaN _ = NaN"
| "fdiv _ NaN = NaN"
| "fdiv (Fin x) _ = Fin 0"
| "fdiv PInf (Fin y) = signed_inf (y < 0)"
| "fdiv NInf (Fin y) = signed_inf (\<not> y < 0)"
| "fdiv _ _ = NaN"

fun fabs :: "float64 \<Rightarrow> float64" where
  "fabs (Fin x) = Fin \<bar>x\<bar>"
| "fabs PInf = PInf"
| "fabs NInf = PInf"
| "fabs NaN = NaN"

section \<open>Comparisons\<close>

text \<open>Every comparison with not-a-number is false.\<close>

fun flt :: "float64 \<Rightarrow> float64 \<Rightarrow> bool" where
  "flt (Fin x) (Fin y) = (x < y)"
| "flt NInf (Fin y) = True"
| "flt NInf PInf = True"
| "flt (Fin x) PInf = True"
| "flt _ _ = False"

definition feq :: "float64 \<Rightarrow> float64 \<Rightarrow> bool" where
  "feq x y \<longleftrightarrow> x = y \<and> x \<noteq> NaN"

definition fle :: "float64 \<Rightarrow> float64 \<Rightarrow> bool" where
  "fle x y \<longleftrightarrow> flt x y \<or> feq x y"

section \<open>Rounding to integers\<close>

text \<open>\<^verbatim>\<open>math.Round\<close> rounds half away from zero.\<close>

definition round_away :: "rat \<Rightarrow> int" where
  "round_away x = (if x < 0 then - \<lfloor>- x + 1 / 2\<rfloor> else \<lfloor>x + 1 / 2\<rfloor>)"

fun Round :: "float64 \<Rightarrow> float64" where
  "Round (Fin x) = Fin (of_int (round_away x))"
| "Round x = x"

fun Floor :: "float64 \<Rightarrow> float64" where
  "Floor (Fin x) = Fin (of_int \<lfloor>x\<rfloor>)"
| "Floor x = x"

text \<open>
  Conversion to \<^verbatim>\<open>int64\<close> truncates; what does not fit is the smallest integer. The result is
  given as an integer.
\<close>

definition trunc_rat :: "rat \<Rightarrow> int" where
  "trunc_rat x = (if x < 0 then - \<lfloor>- x\<rfloor> else \<lfloor>x\<rfloor>)"

fun to_int64 :: "float64 \<Rightarrow> int" where
  "to_int64 (Fin x) = (if - (2 ^ 63) \<le> trunc_rat x \<and> trunc_rat x < 2 ^ 63 then trunc_rat x else - (2 ^ 63))"
| "to_int64 _ = - (2 ^ 63)"

section \<open>Square roots and powers\<close>

fun isqrt_nat :: "nat \<Rightarrow> nat" where
  "isqrt_nat n = (if n = 0 then 0 else let r = 2 * isqrt_nat (n div 4) in if (r + 1) * (r + 1) \<le> n then r + 1 else r)"

declare isqrt_nat.simps [simp del]

text \<open>
  The root is computed to more than 54 bits; a further bit, set unless the root is exact, makes the
  rounding correct.
\<close>

fun Sqrt :: "float64 \<Rightarrow> float64" where
  "Sqrt (Fin x) = (if x < 0 then NaN else if x = 0 then Fin 0 else
     let s = (110 - binexp x) div 2; y = x * 4 powi s; r = int (isqrt_nat (nat \<lfloor>y\<rfloor>)) in
     fround (of_int (2 * r + (if of_int (r * r) = y then 0 else 1)) / (2 * 2 powi s)))"
| "Sqrt PInf = PInf"
| "Sqrt _ = NaN"

text \<open>
  \<^verbatim>\<open>math.Pow\<close> with an integer as exponent: repeated squaring of the fraction, with the exponents
  kept apart, so that nothing overflows on the way.
\<close>

fun pow_loop :: "nat \<Rightarrow> rat \<Rightarrow> rat \<Rightarrow> rat" where
  "pow_loop i a x = (if i = 0 then a
     else pow_loop (i div 2) (if odd i then f64 (a * x) else a) (f64 (x * x)))"

declare pow_loop.simps [simp del]

fun Pow_int :: "float64 \<Rightarrow> int \<Rightarrow> float64" where
  "Pow_int x k = (if k = 0 then Fin 1 else if k = 1 then x else case x of
     NaN \<Rightarrow> NaN
   | Fin v \<Rightarrow> if v = 0 then (if k < 0 then PInf else Fin 0)
       else let a = pow_loop (nat \<bar>k\<bar>) 1 v in fround (if k < 0 then f64 (1 / a) else a)
   | PInf \<Rightarrow> if k < 0 then Fin 0 else PInf
   | NInf \<Rightarrow> if k < 0 then Fin 0 else signed_inf (odd k))"

definition Pow10 :: "int \<Rightarrow> float64" where
  "Pow10 k = Pow_int (Fin 10) k"

text \<open>\<^verbatim>\<open>math.Log(0.5)\<close>.\<close>

definition LogHalf :: float64 where
  "LogHalf = Fin (- (6243314768165359 / 2 ^ 53))"

section \<open>Exact cases\<close>

text \<open>Numbers in the range of normal numbers are rounded as by \<^const>\<open>f64\<close>.\<close>

lemma fround_f64:
  assumes "-1022 \<le> binexp x" and "\<bar>f64 x\<bar> < float_limit"
  shows "fround x = Fin (f64 x)"
proof (cases "x = 0")
  case False
  with assms have "f64 x = of_int (round_even (x / 2 powi (binexp x - 52))) * 2 powi (binexp x - 52)"
    by (simp add: f64_def Let_def)
  with False assms show ?thesis by (auto simp: fround_def Let_def max_def abs_less_iff)
qed (simp add: fround_def)

lemma fround_exact:
  assumes m: "\<bar>m\<bar> \<le> 2 ^ 53" and e: "-1074 \<le> e" "e \<le> 970"
  shows "fround (of_int m * 2 powi e) = Fin (of_int m * 2 powi e)"
proof (cases "m = 0")
  case True
  then show ?thesis by (simp add: fround_def)
next
  case False
  define x :: rat where "x = of_int m * 2 powi e"
  have x0: "x \<noteq> 0" using False by (simp add: x_def)
  have abs: "\<bar>x\<bar> = of_int \<bar>m\<bar> * 2 powi e" by (simp add: x_def abs_mult)
  have "\<bar>x\<bar> \<le> of_int (2 ^ 53) * 2 powi e"
    unfolding abs using m by (intro mult_right_mono) (simp_all only: of_int_le_iff, simp)
  also have "\<dots> = 2 powi (53 + e)" by (simp add: power_int_add)
  also have "\<dots> < float_limit" unfolding float_limit_def using e by (subst powi_less) linarith
  finally have lt: "\<bar>x\<bar> < float_limit" .
  show ?thesis
  proof (cases "-1022 \<le> binexp x")
    case True
    with lt f64_exact[OF m, of e] show ?thesis by (simp add: fround_f64 flip: x_def)
  next
    case False
    define u :: rat where "u = 2 powi (-1074)"
    have u: "u \<noteq> 0" by (simp add: u_def)
    have "(2 :: rat) powi e = 2 ^ nat (e + 1074) * u"
    proof -
      have "(2 :: rat) ^ nat (e + 1074) = 2 powi (e + 1074)" using e by (simp flip: power_int_of_nat)
      moreover have "(2 :: rat) powi (e + 1074) * 2 powi (-1074) = 2 powi (e + 1074 + -1074)"
        by (rule power_int_add[symmetric]) simp
      ultimately show ?thesis by (simp only: u_def add.assoc) simp
    qed
    then have "x = of_int (m * 2 ^ nat (e + 1074)) * u" by (simp add: x_def)
    then have "x / u = of_int (m * 2 ^ nat (e + 1074))" using u by (metis nonzero_mult_div_cancel_right)
    then have "of_int (round_even (x / u)) * u = x" using u by (metis nonzero_eq_divide_eq round_even_of_int)
    moreover have "fround x = (let y = of_int (round_even (x / u)) * u in
        if float_limit \<le> y then PInf else if y \<le> - float_limit then NInf else Fin y)"
      using False x0 unfolding fround_def u_def Let_def max_def by simp
    ultimately have "fround x = Fin x" using lt by (auto simp: abs_less_iff)
    then show ?thesis by (simp add: x_def)
  qed
qed

lemma float_of_exact: "\<bar>i\<bar> \<le> 2 ^ 53 \<Longrightarrow> float_of i = Fin (of_int i)"
  using fround_exact[of i 0] by (simp add: float_of_def)

text \<open>The number of a sample is read back from its floating point form.\<close>

lemma to_int64_of_int: "\<bar>i\<bar> < 2 ^ 63 \<Longrightarrow> to_int64 (Fin (of_int i)) = i"
  by (auto simp: trunc_rat_def)

lemma float_key:
  assumes "0 \<le> i" and "i < 2 ^ 52"
  shows "to_int64 (Floor (fadd (float_of i) (Fin (1 / 2)))) = i"
proof -
  have "float_of i = Fin (of_int i)" using assms by (intro float_of_exact) simp
  moreover have "fround (of_int i + 1 / 2) = Fin (of_int i + 1 / 2)"
    using fround_exact[of "2 * i + 1" "-1"] assms by (simp add: field_simps)
  moreover have "\<lfloor>of_int i + 1 / 2 :: rat\<rfloor> = i" by linarith
  moreover have "to_int64 (Fin (of_int i)) = i" using assms by (intro to_int64_of_int) simp
  ultimately show ?thesis by simp
qed

end
