(* ===== verification/VlBase.thy ===== *)
theory VlBase
  imports GoFloat Chain Paillier "HOL-Library.AList"
begin

text \<open>
  What the vertical learning algorithms share: their results, maps of big integers, sample matrices
  (\<^verbatim>\<open>crypto/core/machine_learning/common/types.go\<close>), the import of features
  (\<^verbatim>\<open>feature_import.go\<close>), encryption of fixed-point numbers, and the byte forms of what the parties
  exchange (\<^verbatim>\<open>dai/crypto/vl/common/convert.go\<close>).
\<close>

section \<open>Results\<close>

text \<open>
  An error or a panic; there is no result when the loop that draws a number for an encryption does
  not end. A nil pointer is \<open>None\<close>, and using it panics.
\<close>

datatype vl_fault = VlError | VlPanic

type_synonym 'a vl = "(vl_fault + 'a) option"
type_synonym big = "int option"

definition vret :: "'a \<Rightarrow> 'a vl" where "vret x = Some (Inr x)"

definition verr :: "'a vl" where "verr = Some (Inl VlError)"

definition vpanic :: "'a vl" where "vpanic = Some (Inl VlPanic)"

definition vbind :: "'a vl \<Rightarrow> ('a \<Rightarrow> 'b vl) \<Rightarrow> 'b vl" where
  "vbind r f = (case r of None \<Rightarrow> None | Some (Inl e) \<Rightarrow> Some (Inl e) | Some (Inr x) \<Rightarrow> f x)"

definition of_cres :: "'a cres \<Rightarrow> 'a vl" where
  "of_cres r = (case r of Inl Panic \<Rightarrow> vpanic | Inl _ \<Rightarrow> verr | Inr x \<Rightarrow> vret x)"

definition deref :: "'a option \<Rightarrow> 'a vl" where
  "deref b = (case b of None \<Rightarrow> vpanic | Some x \<Rightarrow> vret x)"

text \<open>A missing entry is an error or, where it is not checked, the nil pointer.\<close>

definition checked :: "'a option \<Rightarrow> 'a vl" where
  "checked b = (case b of None \<Rightarrow> verr | Some x \<Rightarrow> vret x)"

named_theorems vl_ok \<open>runs of the learning algorithms that succeed\<close>

lemma vret_eq [vl_ok]: "vret x = Some (Inr y) \<longleftrightarrow> x = y"
  by (auto simp: vret_def)

lemma verr_eq [vl_ok]: "verr = Some (Inr y) \<longleftrightarrow> False" "vpanic = Some (Inr y) \<longleftrightarrow> False"
  by (simp_all add: verr_def vpanic_def)

lemma vbind_eq [vl_ok]: "vbind r f = Some (Inr y) \<longleftrightarrow> (\<exists>x. r = Some (Inr x) \<and> f x = Some (Inr y))"
  by (auto simp: vbind_def split: option.splits sum.splits)

lemma vbind_simps [simp]: "vbind (vret x) f = f x" "vbind (Some (Inr x)) f = f x" "vbind verr f = verr"
  "vbind vpanic f = vpanic" "vbind None f = None"
  by (simp_all add: vbind_def vret_def verr_def vpanic_def)

lemma of_cres_eq [vl_ok]: "of_cres r = Some (Inr y) \<longleftrightarrow> r = Inr y"
  by (auto simp: of_cres_def vl_ok split: sum.splits crypto_fault.splits)

lemma deref_eq [vl_ok]: "deref b = Some (Inr y) \<longleftrightarrow> b = Some y" "checked b = Some (Inr y) \<longleftrightarrow> b = Some y"
  by (auto simp: deref_def checked_def vl_ok split: option.splits)

section \<open>Sample sets\<close>

type_synonym 'v imap = "(int \<times> 'v) list"
type_synonym fmap = "(string \<times> float64) list"
type_synonym sample = "float64 list"

text \<open>The order in which \<^verbatim>\<open>range\<close> visits a map.\<close>

type_synonym visit = "int list \<Rightarrow> int list"

record DataFeature =
  df_FeatureName :: string
  df_Sets :: "float64 imap"

type_synonym DataSet = "DataFeature list"

record StandardizedDataSet =
  sd_Features :: "DataFeature list"
  sd_XbarParams :: fmap
  sd_SigmaParams :: fmap
  sd_OriginalFeatures :: "DataFeature list"

record TrainDataSet =
  td_FeatureNames :: "string list"
  td_TrainSet :: "sample list"
  td_XbarParams :: fmap
  td_SigmaParams :: fmap
  td_OriginalTrainSet :: "sample list"

text \<open>The values of a map in the order of a visit; a missing key is the zero value.\<close>

definition fget :: "fmap \<Rightarrow> string \<Rightarrow> float64" where
  "fget m k = (case map_of m k of None \<Rightarrow> Fin 0 | Some v \<Rightarrow> v)"

definition cell :: "sample \<Rightarrow> nat \<Rightarrow> float64 vl" where
  "cell r i = (if i < length r then vret (r ! i) else vpanic)"

definition put_cell :: "sample list \<Rightarrow> int \<Rightarrow> nat \<Rightarrow> float64 \<Rightarrow> sample list vl" where
  "put_cell m k c v = (if 0 \<le> k \<and> k < int (length m) \<and> c < length (m ! nat k)
     then vret (m[nat k := (m ! nat k)[c := v]]) else vpanic)"

fun put_column :: "nat \<Rightarrow> float64 imap \<Rightarrow> sample list \<Rightarrow> sample list vl" where
  "put_column c [] m = vret m"
| "put_column c ((k, v) # es) m = vbind (put_cell m k c v) (put_column c es)"

text \<open>The number of a sample is the first entry of its row.\<close>

definition row_id :: "sample \<Rightarrow> int vl" where
  "row_id r = vbind (cell r 0) (\<lambda>v. vret (to_int64 (Floor (fadd v (Fin (1 / 2))))))"

section \<open>Import of features\<close>

text \<open>The parser of floating point numbers is a parameter; it may fail.\<close>

type_synonym parse_float = "string \<Rightarrow> float64 option"

fun import_row :: "(string \<Rightarrow> string \<Rightarrow> float64 vl) \<Rightarrow> string list \<Rightarrow> int \<Rightarrow> DataFeature list \<Rightarrow>
    DataFeature list vl" where
  "import_row parse row smp [] = vret []"
| "import_row parse row smp (f # fs) = (case row of [] \<Rightarrow> vpanic
     | c # cs \<Rightarrow> vbind (parse (df_FeatureName f) c) (\<lambda>v.
         vbind (import_row parse cs smp fs) (\<lambda>r. vret (f\<lparr>df_Sets := AList.update smp v (df_Sets f)\<rparr> # r))))"

fun import_rows :: "(string \<Rightarrow> string \<Rightarrow> float64 vl) \<Rightarrow> string list list \<Rightarrow> int \<Rightarrow> DataFeature list \<Rightarrow>
    DataFeature list vl" where
  "import_rows parse [] smp fs = vret fs"
| "import_rows parse (row # rows) smp fs =
     vbind (import_row parse row smp fs) (import_rows parse rows (smp + 1))"

definition empty_features :: "string list \<Rightarrow> DataFeature list" where
  "empty_features names = map (\<lambda>n. \<lparr>df_FeatureName = n, df_Sets = []\<rparr>) names"

definition ImportFeaturesForLinReg :: "parse_float \<Rightarrow> string list list \<Rightarrow> DataFeature list vl" where
  "ImportFeaturesForLinReg parse fileRows = (case fileRows of [] \<Rightarrow> verr
     | names # rows \<Rightarrow> import_rows (\<lambda>_ c. checked (parse c)) rows 0 (empty_features names))"

definition ImportFeaturesForLogReg :: "parse_float \<Rightarrow> string list list \<Rightarrow> string \<Rightarrow> string \<Rightarrow> DataFeature list vl" where
  "ImportFeaturesForLogReg parse fileRows lab labelName = (case fileRows of [] \<Rightarrow> verr
     | names # rows \<Rightarrow> import_rows (\<lambda>n c. if n = lab then vret (Fin (if c = labelName then 1 else 0))
         else checked (parse c)) rows 0 (empty_features names))"

section \<open>Standardization\<close>

text \<open>Mean and standard deviation of a feature, its values visited in any order, twice.\<close>

definition visited :: "visit \<Rightarrow> float64 imap \<Rightarrow> float64 list" where
  "visited rng m = map (\<lambda>k. the (map_of m k)) (rng (map fst m))"

definition feature_mean :: "visit \<Rightarrow> float64 imap \<Rightarrow> float64" where
  "feature_mean rng sets = fdiv (foldl fadd (Fin 0) (visited rng sets)) (float_of (int (length sets)))"

definition feature_sigma :: "visit \<Rightarrow> float64 imap \<Rightarrow> float64" where
  "feature_sigma rng sets = (let xbars = feature_mean rng sets;
     sigmaSum = foldl (\<lambda>s v. fadd s (Pow_int (fsub v xbars) 2)) (Fin 0) (visited rng sets) in
     Sqrt (fdiv sigmaSum (float_of (int (length sets)))))"

fun feature_params :: "(float64 imap \<Rightarrow> float64) \<Rightarrow> DataFeature list \<Rightarrow> fmap \<Rightarrow> fmap" where
  "feature_params f [] m = m"
| "feature_params f (d # ds) m = feature_params f ds (AList.update (df_FeatureName d) (f (df_Sets d)) m)"

definition standardize :: "fmap \<Rightarrow> fmap \<Rightarrow> DataFeature \<Rightarrow> DataFeature" where
  "standardize xbars sigmas f = f\<lparr>df_Sets := map (\<lambda>(k, v).
     (k, fdiv (fsub v (fget xbars (df_FeatureName f))) (fget sigmas (df_FeatureName f)))) (df_Sets f)\<rparr>"

section \<open>Regularization\<close>

definition RegLasso :: int where "RegLasso = 1"
definition RegRidge :: int where "RegRidge = 2"

definition CalLassoRegCost :: "float64 list \<Rightarrow> nat \<Rightarrow> float64 \<Rightarrow> float64" where
  "CalLassoRegCost thetas trainSetSize regParam =
     fdiv (fmul regParam (foldl (\<lambda>s t. fadd s (fabs t)) (Fin 0) thetas)) (float_of (int trainSetSize))"

definition CalRidgeRegCost :: "float64 list \<Rightarrow> nat \<Rightarrow> float64 \<Rightarrow> float64" where
  "CalRidgeRegCost thetas trainSetSize regParam =
     fdiv (fmul regParam (foldl (\<lambda>s t. fadd s (Pow_int t 2)) (Fin 0) thetas))
       (fmul (Fin 2) (float_of (int trainSetSize)))"

definition reg_cost :: "float64 list \<Rightarrow> nat \<Rightarrow> int \<Rightarrow> float64 \<Rightarrow> float64" where
  "reg_cost thetas n regMode regParam =
     (if regMode = RegLasso then CalLassoRegCost thetas n regParam
      else if regMode = RegRidge then CalRidgeRegCost thetas n regParam else Fin 0)"

end
