(* ===== verification/VlCipher.thy ===== *)
theory VlCipher
  imports VlBase Interpolation "HOL-Library.Multiset"
begin

text \<open>
  Encrypted fixed-point numbers of the vertical learning algorithms, the loop over the rows of a
  sample set, decryption of whole maps, and the byte forms of encrypted and decrypted maps
  (\<^verbatim>\<open>dai/crypto/vl/common/convert.go\<close>).
\<close>

section \<open>Fixed-point numbers\<close>

text \<open>\<^verbatim>\<open>big.NewInt(int64(math.Round(x * math.Pow(10, float64(accuracy)))))\<close>\<close>

definition fixed :: "int \<Rightarrow> float64 \<Rightarrow> int" where
  "fixed accuracy x = to_int64 (Round (fmul x (Pow10 accuracy)))"

definition scale_factor :: "int \<Rightarrow> int" where
  "scale_factor accuracy = to_int64 (Round (Pow10 accuracy))"

section \<open>Random numbers\<close>

text \<open>
  The entropy of the system with the number of its next call, and the numbers drawn for the
  encryptions: a list for every row and place in the code.
\<close>

record coin =
  cn_rng :: rng
  cn_call :: nat
  cn_draw :: "nat \<Rightarrow> nat \<Rightarrow> int option list"

definition vnoise :: "coin \<Rightarrow> int vl" where
  "vnoise K = vbind (of_cres (GenerateSeedWithStrengthAndKeyLen (cn_rng K) (cn_call K) 2 64))
     (\<lambda>randomBytes. vret (SetBytes randomBytes))"

definition vencrypt :: "PublicKey \<Rightarrow> int option list \<Rightarrow> int \<Rightarrow> int vl" where
  "vencrypt pk ds m = Option.bind (EncryptSupNegNum pk ds m) of_cres"

definition vmult :: "PublicKey \<Rightarrow> big \<Rightarrow> int \<Rightarrow> int vl" where
  "vmult pk c k = vbind (deref c) (\<lambda>c. deref (CypherPlainMultiply pk c k))"

section \<open>Rows and maps\<close>

fun enc_rows :: "(nat \<Rightarrow> int \<Rightarrow> sample \<Rightarrow> int vl) \<Rightarrow> nat \<Rightarrow> sample list \<Rightarrow> big imap \<Rightarrow> big imap vl" where
  "enc_rows f i [] m = vret m"
| "enc_rows f i (r # rs) m = vbind (row_id r) (\<lambda>ident. vbind (f i ident r)
     (\<lambda>addResult. enc_rows f (i + 1) rs (AList.update ident (Some addResult) m)))"

text \<open>Decrypting for the other party, and taking the noise away.\<close>

fun decrypt_map :: "PrivateKey \<Rightarrow> big imap \<Rightarrow> big imap vl" where
  "decrypt_map sk [] = vret []"
| "decrypt_map sk ((k, c) # m) = vbind (deref c) (\<lambda>c. vbind (of_cres (DecryptSupNegNum sk c))
     (\<lambda>v. vbind (decrypt_map sk m) (\<lambda>r. vret ((k, Some v) # r))))"

fun retrieve_map :: "int \<Rightarrow> big \<Rightarrow> big imap \<Rightarrow> float64 imap vl" where
  "retrieve_map accuracy randomInt [] = vret []"
| "retrieve_map accuracy randomInt ((k, d) # m) = vbind (deref randomInt) (\<lambda>n. vbind (deref d) (\<lambda>d.
     vbind (retrieve_map accuracy randomInt m)
       (\<lambda>r. vret ((k, fdiv (float_of (d + -1 * n)) (Pow10 (2 * accuracy))) # r))))"

section \<open>Byte forms\<close>

text \<open>
  Keys of a JSON object for a map of integers are decimal, and objects are written in the order of
  their keys. Reading takes any integer in range as a key and \<^verbatim>\<open>null\<close> as the nil pointer.
\<close>

definition enc_big :: "big \<Rightarrow> json" where
  "enc_big b = (case b of None \<Rightarrow> JNull | Some i \<Rightarrow> JNum i)"

fun dec_big :: "json \<Rightarrow> big option" where
  "dec_big JNull = Some None"
| "dec_big (JNum i) = Some (Some i)"
| "dec_big _ = None"

definition enc_imap :: "big imap \<Rightarrow> json" where
  "enc_imap m = JObj (sort_key fst (map (\<lambda>(k, v). (dec_int k, enc_big v)) m))"

fun dec_ientries :: "(string \<times> json) list \<Rightarrow> big imap \<Rightarrow> big imap option" where
  "dec_ientries [] m = Some m"
| "dec_ientries ((k, j) # r) m = (case ParseInt k of None \<Rightarrow> None
     | Some i \<Rightarrow> (case dec_big j of None \<Rightarrow> None | Some v \<Rightarrow> dec_ientries r (AList.update (sint i) v m)))"

fun dec_imap :: "json \<Rightarrow> big imap option" where
  "dec_imap JNull = Some []"
| "dec_imap (JObj kvs) = dec_ientries kvs []"
| "dec_imap _ = None"

definition GradListToBytes :: "big imap list \<Rightarrow> blob" where
  "GradListToBytes grads = Doc (enc_list enc_imap grads)"

definition GradListFromBytes :: "env \<Rightarrow> blob \<Rightarrow> big imap list vl" where
  "GradListFromBytes E b = checked (unmarshal E (dec_list dec_imap) b)"

definition CostToBytes :: "big imap \<Rightarrow> blob" where
  "CostToBytes m = Doc (enc_imap m)"

definition CostFromBytes :: "env \<Rightarrow> blob \<Rightarrow> big imap vl" where
  "CostFromBytes E b = checked (unmarshal E dec_imap b)"

text \<open>A public key without a number holds a nil pointer, which its first use dereferences.\<close>

definition HomoPubkeyToBytes :: "PublicKey \<Rightarrow> blob" where
  "HomoPubkeyToBytes key = Doc (JObj [(''N'', JNum (pk_N key)), (''G'', JNum (pk_G key))])"

definition HomoPubkeyFromBytes :: "env \<Rightarrow> blob \<Rightarrow> PublicKey vl" where
  "HomoPubkeyFromBytes E b =
     vbind (checked (unmarshal E (dec_struct (\<lambda>kvs. Option.bind (fld dec_big None ''N'' kvs) (\<lambda>n.
       Option.bind (fld dec_big None ''G'' kvs) (\<lambda>g. Some (n, g))))) b)) (\<lambda>(n, g).
     vbind (deref n) (\<lambda>n. vbind (deref g) (\<lambda>g. vret \<lparr>pk_N = n, pk_G = g\<rparr>)))"

section \<open>What a cipher means\<close>

definition means :: "int \<Rightarrow> int \<Rightarrow> int \<Rightarrow> bool" where
  "means N z c \<longleftrightarrow> (\<exists>m. stands_for N m c \<and> int m mod N = z mod N)"

lemma key_facts:
  assumes "key_from p q sk"
  shows "pk_G (sk_PublicKey sk) = pk_N (sk_PublicKey sk) + 1" and "1 < pk_N (sk_PublicKey sk)"
proof -
  obtain mu where k: "pk_N (sk_PublicKey sk) = p * q" "pk_G (sk_PublicKey sk) = p * q + 1" "p \<noteq> q"
    by (rule key_fromD[OF assms])
  then show "pk_G (sk_PublicKey sk) = pk_N (sk_PublicKey sk) + 1" by simp
  have "1 < p" "1 < q" using assms by (auto simp: key_from_def is_prime_def)
  then have "1 * 1 < p * q" by (intro mult_strict_mono) simp_all
  then show "1 < pk_N (sk_PublicKey sk)" using k(1) by simp
qed

lemma means_encrypt:
  assumes "key_from p q sk" and "vencrypt (sk_PublicKey sk) ds m = Some (Inr c)"
  shows "means (pk_N (sk_PublicKey sk)) m c"
proof -
  have "EncryptSupNegNum (sk_PublicKey sk) ds m = Some (Inr c)"
    using assms(2) by (auto simp: vencrypt_def vl_ok bind_eq_Some_conv)
  from EncryptSupNegNum_stands_for[OF this key_facts[OF assms(1)]] key_facts(2)[OF assms(1)]
  show ?thesis unfolding means_def by (intro exI[of _ "nat (m mod pk_N (sk_PublicKey sk))"]) simp
qed

lemma means_mult:
  assumes "key_from p q sk" and "means (pk_N (sk_PublicKey sk)) z c"
    and "vmult (sk_PublicKey sk) (Some c) k = Some (Inr d)"
  shows "means (pk_N (sk_PublicKey sk)) (z * k) d"
proof -
  let ?N = "pk_N (sk_PublicKey sk)"
  from assms(2) obtain m where m: "stands_for ?N m c" "int m mod ?N = z mod ?N" by (auto simp: means_def)
  from BigExp_stands_for[OF m(1) key_facts(2)[OF assms(1)], of k] obtain d' j where
    d: "BigExp c k (?N * ?N) = Some d'" "stands_for ?N j d'" "int j mod ?N = (k * int m) mod ?N" by blast
  have "d' = d" using assms(3) d(1) by (simp add: vmult_def vl_ok CypherPlainMultiply_def)
  moreover have "int j mod ?N = (z * k) mod ?N"
    using d(3) m(2) by (metis mod_mult_right_eq mult.commute)
  ultimately show ?thesis using d(2) by (auto simp: means_def)
qed

lemma means_sum:
  assumes "list_all2 (means (pk_N pk)) zs cs"
  shows "means (pk_N pk) (sum_list zs) (CyphersAdd pk cs)"
proof -
  from assms obtain ms where ms: "list_all2 (stands_for (pk_N pk)) ms cs"
    and "int (sum_list ms) mod pk_N pk = sum_list zs mod pk_N pk"
  proof (induction zs cs arbitrary: thesis rule: list_all2_induct)
    case (Cons z zs c cs)
    from Cons.hyps(1) obtain m where m: "stands_for (pk_N pk) m c" "int m mod pk_N pk = z mod pk_N pk"
      by (auto simp: means_def)
    from Cons.IH obtain ms where ms: "list_all2 (stands_for (pk_N pk)) ms cs"
      "int (sum_list ms) mod pk_N pk = sum_list zs mod pk_N pk" by blast
    have "(int m + int (sum_list ms)) mod pk_N pk = (z + sum_list zs) mod pk_N pk"
      using m(2) ms(2) by (rule mod_add_cong)
    with m(1) ms(1) Cons.prems[of "m # ms"] show ?case by simp
  qed simp
  with CyphersAdd_stands_for[OF ms] show ?thesis by (auto simp: means_def)
qed

lemma means_plains:
  assumes "key_from p q sk" and "means (pk_N (sk_PublicKey sk)) z c"
    and "CypherPlainsAdd (sk_PublicKey sk) c ps = Inr d"
  shows "means (pk_N (sk_PublicKey sk)) (z + sum_list ps) d"
  using assms(2,3)
proof (induction ps arbitrary: z c)
  case (Cons x ps)
  let ?N = "pk_N (sk_PublicKey sk)"
  from Cons.prems(1) obtain m where m: "stands_for ?N m c" "int m mod ?N = z mod ?N" by (auto simp: means_def)
  from CypherPlainAdd_stands_for[OF m(1) key_facts[OF assms(1)], of x] obtain e j where
    e: "CypherPlainAdd (sk_PublicKey sk) c x = Inr e" "stands_for ?N j e"
      "int j mod ?N = (int m + x) mod ?N" by blast
  have run: "CypherPlainsAdd (sk_PublicKey sk) e ps = Inr d"
    using Cons.prems(2) e(1) by (auto simp: CypherPlainAdd_def Let_def split: option.splits)
  have "int j mod ?N = (z + x) mod ?N" using e(3) m(2) by (metis mod_add_left_eq)
  then have "means ?N (z + x) e" using e(2) by (auto simp: means_def)
  from Cons.IH[OF this run] show ?case by (simp add: add.assoc)
qed simp

definition in_window :: "int \<Rightarrow> int \<Rightarrow> bool" where
  "in_window N z \<longleftrightarrow> - (N div 2) \<le> z \<and> z < N - N div 2"

lemma means_decrypt:
  assumes "key_from p q sk" and "means (pk_N (sk_PublicKey sk)) z c" and "in_window (pk_N (sk_PublicKey sk)) z"
  shows "DecryptSupNegNum sk c = Inr z"
proof -
  from assms(2) obtain m where m: "stands_for (pk_N (sk_PublicKey sk)) m c"
    "int m mod pk_N (sk_PublicKey sk) = z mod pk_N (sk_PublicKey sk)" by (auto simp: means_def)
  with DecryptSupNegNum_stands_for[OF assms(1) refl m] assms(3) show ?thesis by (simp add: in_window_def)
qed

section \<open>Maps of ciphers\<close>

text \<open>The rows of a sample set have numbers of their own.\<close>

definition ids_of :: "sample list \<Rightarrow> int list \<Rightarrow> bool" where
  "ids_of rows ids \<longleftrightarrow> list_all2 (\<lambda>r i. row_id r = vret i) rows ids"

lemma row_id_vret: "row_id r = vret x \<longleftrightarrow> row_id r = Some (Inr x)"
  by (simp add: vret_def)

lemma enc_rows_ok:
  assumes "enc_rows f i rows m = Some (Inr m')" and "ids_of rows ids" and "distinct ids"
  shows "(\<forall>j < length rows. \<exists>c. f (i + j) (ids ! j) (rows ! j) = Some (Inr c) \<and> map_of m' (ids ! j) = Some (Some c)) \<and>
    (\<forall>k. k \<notin> set ids \<longrightarrow> map_of m' k = map_of m k)"
  using assms
proof (induction f i rows m arbitrary: ids rule: enc_rows.induct)
  case (1 f i m)
  then show ?case by (simp add: vl_ok ids_of_def)
next
  case (2 f i r rs m)
  from "2.prems"(2) obtain k ks where ids: "ids = k # ks" "row_id r = Some (Inr k)" "ids_of rs ks"
    by (auto simp: ids_of_def list_all2_Cons1 vret_def)
  from "2.prems"(1) ids(2) obtain c where c: "f i k r = Some (Inr c)"
    and run: "enc_rows f (i + 1) rs (AList.update k (Some c) m) = Some (Inr m')" by (auto simp: vl_ok)
  have ks: "k \<notin> set ks" "distinct ks" using "2.prems"(3) ids(1) by simp_all
  note IH = "2.IH"[OF run ids(3) ks(2)]
  show ?case
  proof (intro conjI allI impI)
    fix j
    assume j: "j < length (r # rs)"
    show "\<exists>c. f (i + j) (ids ! j) ((r # rs) ! j) = Some (Inr c) \<and> map_of m' (ids ! j) = Some (Some c)"
    proof (cases j)
      case 0
      have "map_of m' k = Some (Some c)" using IH ks(1) by (simp add: update_conv')
      with 0 c show ?thesis by (simp add: ids(1))
    next
      case (Suc j')
      then have "j' < length rs" using j by simp
      with IH Suc show ?thesis by (simp add: ids(1))
    qed
  next
    fix k'
    assume "k' \<notin> set ids"
    with IH show "map_of m' k' = map_of m k'" by (auto simp: ids(1) update_conv')
  qed
qed

lemma enc_rows_keys:
  "enc_rows f i rows m = Some (Inr m') \<Longrightarrow> distinct (map fst m) \<Longrightarrow> ids_of rows ids \<Longrightarrow>
    distinct (map fst m') \<and> set (map fst m') = set (map fst m) \<union> set ids"
proof (induction f i rows m arbitrary: ids rule: enc_rows.induct)
  case (1 f i m)
  then show ?case by (simp add: vl_ok ids_of_def)
next
  case (2 f i r rs m)
  from "2.prems"(3) obtain k ks where ids: "ids = k # ks" "row_id r = Some (Inr k)" "ids_of rs ks"
    by (auto simp: ids_of_def list_all2_Cons1 vret_def)
  from "2.prems"(1) ids(2) obtain c where c: "f i k r = Some (Inr c)"
    and run: "enc_rows f (i + 1) rs (AList.update k (Some c) m) = Some (Inr m')" by (auto simp: vl_ok)
  have "distinct (map fst (AList.update k (Some c) m))" using "2.prems"(2) by (rule distinct_update)
  from "2.IH"[OF run this ids(3)] show ?case by (simp add: ids(1) dom_update)
qed

lemma decrypt_map_ok:
  assumes "\<And>k c. (k, c) \<in> set m \<Longrightarrow> \<exists>x. c = Some x \<and> DecryptSupNegNum sk x = Inr (g k)"
  shows "decrypt_map sk m = vret (map (\<lambda>(k, _). (k, Some (g k))) m)"
  using assms
proof (induction m)
  case (Cons e m)
  obtain k c where e: "e = (k, c)" by fastforce
  from Cons.prems[of k c] obtain x where x: "c = Some x" "DecryptSupNegNum sk x = Inr (g k)" by (auto simp: e)
  have "decrypt_map sk m = vret (map (\<lambda>(k, _). (k, Some (g k))) m)"
    by (rule Cons.IH) (rule Cons.prems, simp)
  with x show ?case by (simp add: e deref_def of_cres_def)
qed simp

lemma retrieve_map_ok:
  assumes "\<And>k d. (k, d) \<in> set m \<Longrightarrow> d = Some (g k + n)"
  shows "retrieve_map acc (Some n) m = vret (map (\<lambda>(k, _). (k, fdiv (float_of (g k)) (Pow10 (2 * acc)))) m)"
  using assms
proof (induction m)
  case (Cons e m)
  obtain k c where e: "e = (k, c)" by fastforce
  from Cons.prems[of k c] have c: "c = Some (g k + n)" by (simp add: e)
  have "retrieve_map acc (Some n) m = vret (map (\<lambda>(k, _). (k, fdiv (float_of (g k)) (Pow10 (2 * acc)))) m)"
    by (rule Cons.IH) (rule Cons.prems, simp)
  with c show ?case by (simp add: e deref_def)
qed simp

section \<open>Reading back\<close>

lemma ParseInt_dec_int: "in_int64 i \<Longrightarrow> ParseInt (dec_int i) = Some (word_of_int i)"
proof -
  assume "in_int64 i"
  then have "dec_int i = FormatInt (word_of_int i)" by (simp add: FormatInt_def sint_word_int64)
  then show ?thesis by (simp only: ParseInt_FormatInt)
qed

lemma dec_enc_big [json_rt, simp]: "dec_big (enc_big b) = Some b"
  by (cases b) (simp_all add: enc_big_def)

definition good_keys :: "'v imap \<Rightarrow> bool" where
  "good_keys m \<longleftrightarrow> distinct (map fst m) \<and> (\<forall>k \<in> set (map fst m). in_int64 k)"

lemma update_new: "k \<notin> set (map fst m) \<Longrightarrow> AList.update k v m = m @ [(k, v)]"
  by (induction m) auto

lemma dec_ientries_append:
  assumes "good_keys (m @ es)"
  shows "dec_ientries (map (\<lambda>(k, v). (dec_int k, enc_big v)) es) m = Some (m @ es)"
  using assms
proof (induction es arbitrary: m)
  case (Cons e es)
  obtain k v where e: "e = (k, v)" by fastforce
  from Cons.prems have k: "in_int64 k" "k \<notin> set (map fst m)" "good_keys ((m @ [(k, v)]) @ es)"
    by (auto simp: good_keys_def e)
  from Cons.IH[OF k(3)] k(1,2) show ?case
    by (simp add: e ParseInt_dec_int sint_word_int64 update_new)
qed simp

lemma sort_key_map: "sort_key f (map g xs) = map g (sort_key (\<lambda>x. f (g x)) xs)"
proof (rule properties_for_sort_key)
  show "mset (map g (sort_key (\<lambda>x. f (g x)) xs)) = mset (map g xs)" by simp
  show "sorted (map f (map g (sort_key (\<lambda>x. f (g x)) xs)))" by (simp add: comp_def)
  have "filter (\<lambda>x. f k = f (g x)) (sort_key (\<lambda>x. f (g x)) xs) = filter (\<lambda>x. f k = f (g x)) xs" for k
    using sort_key_stable[of "\<lambda>x. f (g x)" "f k" xs] by (simp add: eq_commute)
  then show "filter (\<lambda>y. f k = f y) (map g (sort_key (\<lambda>x. f (g x)) xs)) = filter (\<lambda>y. f k = f y) (map g xs)" for k
    by (simp add: filter_map comp_def)
qed

definition sorted_imap :: "'v imap \<Rightarrow> 'v imap" where
  "sorted_imap m = sort_key (\<lambda>e. dec_int (fst e)) m"

lemma sorted_imap_facts [simp]:
  "set (sorted_imap m) = set m" "distinct (map fst (sorted_imap m)) = distinct (map fst m)"
proof -
  show "set (sorted_imap m) = set m" by (simp add: sorted_imap_def)
  have "mset (map fst (sorted_imap m)) = mset (map fst m)" by (simp add: sorted_imap_def)
  then show "distinct (map fst (sorted_imap m)) = distinct (map fst m)" by (metis mset_eq_imp_distinct_iff)
qed

lemma map_of_sorted_imap: "distinct (map fst m) \<Longrightarrow> map_of (sorted_imap m) = map_of m"
proof (rule ext)
  fix k
  assume d: "distinct (map fst m)"
  then have "map_of (sorted_imap m) k = Some v \<longleftrightarrow> map_of m k = Some v" for v by simp
  then show "map_of (sorted_imap m) k = map_of m k" by (metis not_None_eq)
qed

lemma dec_enc_imap: "good_keys m \<Longrightarrow> dec_imap (enc_imap m) = Some (sorted_imap m)"
proof -
  assume m: "good_keys m"
  have e: "sort_key fst (map (\<lambda>(k, v). (dec_int k, enc_big v)) m) =
      map (\<lambda>(k, v). (dec_int k, enc_big v)) (sorted_imap m)"
    unfolding sort_key_map sorted_imap_def by (simp add: case_prod_beta)
  have "good_keys ([] @ sorted_imap m)" using m by (simp add: good_keys_def)
  from dec_ientries_append[OF this] show ?thesis by (simp add: enc_imap_def e)
qed

lemma dec_enc_imaps: "\<forall>m \<in> set ms. good_keys m \<Longrightarrow> dec_list dec_imap (enc_list enc_imap ms) = Some (map sorted_imap ms)"
proof -
  assume ms: "\<forall>m \<in> set ms. good_keys m"
  then have "dec_all dec_imap (map enc_imap ms) = Some (map sorted_imap ms)"
    by (induction ms) (simp_all add: dec_enc_imap)
  then show ?thesis by (simp add: enc_list_def)
qed

lemma GradList_roundtrip:
  "\<forall>m \<in> set ms. good_keys m \<Longrightarrow> GradListFromBytes E (GradListToBytes ms) = vret (map sorted_imap ms)"
  by (simp add: GradListFromBytes_def GradListToBytes_def dec_enc_imaps checked_def)

lemma Cost_roundtrip: "good_keys m \<Longrightarrow> CostFromBytes E (CostToBytes m) = vret (sorted_imap m)"
  by (simp add: CostFromBytes_def CostToBytes_def dec_enc_imap checked_def)

lemma HomoPubkey_roundtrip: "HomoPubkeyFromBytes E (HomoPubkeyToBytes pk) = vret pk"
  by (cases pk) (simp add: HomoPubkeyFromBytes_def HomoPubkeyToBytes_def dec_struct_def fld_def checked_def deref_def)

section \<open>From ciphers to plain values\<close>

text \<open>A map with exactly the keys of a list, and what its entries hold.\<close>

definition maps_to :: "(int \<Rightarrow> 'v \<Rightarrow> bool) \<Rightarrow> int list \<Rightarrow> 'v imap \<Rightarrow> bool" where
  "maps_to P ids m \<longleftrightarrow> distinct (map fst m) \<and> set (map fst m) = set ids \<and> (\<forall>k v. (k, v) \<in> set m \<longrightarrow> P k v)"

lemma maps_to_sorted: "maps_to P ids m \<Longrightarrow> maps_to P ids (sorted_imap m)"
  by (simp add: maps_to_def)

lemma maps_to_map_of: "maps_to P ids m \<Longrightarrow> k \<in> set ids \<Longrightarrow> \<exists>v. map_of m k = Some v \<and> P k v"
proof -
  assume m: "maps_to P ids m" and k: "k \<in> set ids"
  then have "k \<in> fst ` set m" by (simp add: maps_to_def)
  then obtain v where v: "map_of m k = Some v" by (metis map_of_eq_None_iff not_None_eq)
  with m map_of_SomeD[OF v] show ?thesis by (simp add: maps_to_def)
qed

lemma maps_to_good: "maps_to P ids m \<Longrightarrow> \<forall>k \<in> set ids. in_int64 k \<Longrightarrow> good_keys m"
  by (simp add: maps_to_def good_keys_def)

definition row_at :: "sample list \<Rightarrow> int list \<Rightarrow> int \<Rightarrow> sample" where
  "row_at rows ids k = the (map_of (zip ids rows) k)"

lemma ids_of_length: "ids_of rows ids \<Longrightarrow> length ids = length rows"
  by (simp add: ids_of_def list_all2_lengthD)

lemma row_at_nth: "ids_of rows ids \<Longrightarrow> distinct ids \<Longrightarrow> j < length rows \<Longrightarrow> row_at rows ids (ids ! j) = rows ! j"
  using ids_of_length by (simp add: row_at_def map_of_zip_nth)

lemma to_int64_range: "in_int64 (to_int64 x)"
  by (cases x) (auto simp: in_int64_def)

lemma ids_of_range: "ids_of rows ids \<Longrightarrow> k \<in> set ids \<Longrightarrow> in_int64 k"
proof (induction rows arbitrary: ids)
  case (Cons r rows)
  then obtain i ids' where ids: "ids = i # ids'" "row_id r = vret i" "ids_of rows ids'"
    by (auto simp: ids_of_def list_all2_Cons1)
  have "\<exists>x. i = to_int64 x"
    using ids(2) by (cases "0 < length r") (auto simp: row_id_def cell_def vret_def vpanic_def vbind_def)
  then have "in_int64 i" using to_int64_range by auto
  with Cons ids show ?case by auto
qed (simp add: ids_of_def)

lemma enc_rows_maps:
  assumes run: "enc_rows f 0 rows [] = Some (Inr m)" and ids: "ids_of rows ids" "distinct ids"
    and row: "\<And>j c. j < length rows \<Longrightarrow> f j (ids ! j) (rows ! j) = Some (Inr c) \<Longrightarrow> P (ids ! j) (rows ! j) c"
  shows "maps_to (\<lambda>k c. \<exists>x. c = Some x \<and> P k (row_at rows ids k) x) ids m"
proof -
  note keys = enc_rows_keys[OF run _ ids(1), simplified]
  note vals = enc_rows_ok[OF run ids]
  have "\<exists>x. c = Some x \<and> P k (row_at rows ids k) x" if "(k, c) \<in> set m" for k c
  proof -
    have "k \<in> set ids" using that keys by force
    then obtain j where j: "j < length rows" "k = ids ! j" by (metis in_set_conv_nth ids_of_length[OF ids(1)])
    have "map_of m k = Some c" using keys that by (simp add: map_of_eq_Some_iff)
    moreover obtain x where x: "f j k (rows ! j) = Some (Inr x)" "map_of m k = Some (Some x)"
      using vals j by auto
    ultimately show ?thesis using row[OF j(1), of x] row_at_nth[OF ids j(1)] j(2) by simp
  qed
  with keys show ?thesis by (simp add: maps_to_def)
qed

lemma decrypt_maps:
  assumes "key_from p q sk" and m: "maps_to (\<lambda>k c. \<exists>x. c = Some x \<and> means (pk_N (sk_PublicKey sk)) (z k) x) ids m"
    and "\<And>k. k \<in> set ids \<Longrightarrow> in_window (pk_N (sk_PublicKey sk)) (z k)"
  shows "\<exists>d. decrypt_map sk m = vret d \<and> maps_to (\<lambda>k v. v = Some (z k)) ids d"
proof -
  have "decrypt_map sk m = vret (map (\<lambda>(k, _). (k, Some (z k))) m)"
  proof (rule decrypt_map_ok)
    fix k c
    assume kc: "(k, c) \<in> set m"
    then have "k \<in> set ids" using m by (force simp: maps_to_def)
    moreover have "\<exists>x. c = Some x \<and> means (pk_N (sk_PublicKey sk)) (z k) x"
      using m kc unfolding maps_to_def by blast
    ultimately show "\<exists>x. c = Some x \<and> DecryptSupNegNum sk x = Inr (z k)"
      using means_decrypt[OF assms(1)] assms(3) by blast
  qed
  moreover have "maps_to (\<lambda>k v. v = Some (z k)) ids (map (\<lambda>(k, _). (k, Some (z k))) m)"
    using m by (force simp: maps_to_def case_prod_beta comp_def)
  ultimately show ?thesis by blast
qed

lemma retrieve_maps:
  assumes d: "maps_to (\<lambda>k v. v = Some (z k + n)) ids d"
  shows "\<exists>r. retrieve_map acc (Some n) d = vret r \<and>
    maps_to (\<lambda>k v. v = fdiv (float_of (z k)) (Pow10 (2 * acc))) ids r"
proof -
  have "retrieve_map acc (Some n) d = vret (map (\<lambda>(k, _). (k, fdiv (float_of (z k)) (Pow10 (2 * acc)))) d)"
    using d by (intro retrieve_map_ok) (auto simp: maps_to_def)
  moreover have "maps_to (\<lambda>k v. v = fdiv (float_of (z k)) (Pow10 (2 * acc))) ids
      (map (\<lambda>(k, _). (k, fdiv (float_of (z k)) (Pow10 (2 * acc)))) d)"
    using d by (force simp: maps_to_def case_prod_beta comp_def)
  ultimately show ?thesis by blast
qed

text \<open>A map of numbers and the map of their encryptions, which may hold nil pointers.\<close>

definition ciphers :: "int \<Rightarrow> int \<Rightarrow> big \<Rightarrow> bool" where
  "ciphers N z b \<longleftrightarrow> (\<forall>c. b = Some c \<longrightarrow> means N z c)"

definition matches :: "int \<Rightarrow> int imap \<Rightarrow> big imap \<Rightarrow> bool" where
  "matches N raw enc \<longleftrightarrow> (\<forall>k. rel_option (ciphers N) (map_of raw k) (map_of enc k))"

lemma matches_Nil [simp]: "matches N [] []"
  by (simp add: matches_def)

lemma matches_update:
  assumes "matches N raw enc" and "ciphers N z b"
  shows "matches N (AList.update k z raw) (AList.update k b enc)"
  unfolding matches_def
proof
  fix k'
  show "rel_option (ciphers N) (map_of (AList.update k z raw) k') (map_of (AList.update k b enc) k')"
    using assms by (cases "k' = k") (simp_all add: matches_def update_conv')
qed

lemma ciphers_Some [simp]: "ciphers N z (Some c) = means N z c"
  by (simp add: ciphers_def)

lemma matches_cong: "matches N raw enc \<Longrightarrow> map_of enc' = map_of enc \<Longrightarrow> matches N raw enc'"
  by (simp add: matches_def)

lemma matchesE:
  assumes "matches N raw enc" and "map_of enc k = Some (Some x)"
  obtains z where "map_of raw k = Some z" and "means N z x"
proof -
  have "rel_option (ciphers N) (map_of raw k) (Some (Some x))" using assms by (metis matches_def)
  with that show thesis by (auto simp: option_rel_Some2)
qed

text \<open>Multiplying an entry of the map of the other party.\<close>

definition nil_get :: "big imap \<Rightarrow> int \<Rightarrow> big" where
  "nil_get m k = (case map_of m k of None \<Rightarrow> None | Some b \<Rightarrow> b)"

lemma vmult_Some: "vmult pk b k = Some (Inr d) \<Longrightarrow> \<exists>x. b = Some x"
  by (auto simp: vmult_def vl_ok)

lemma entry_mult:
  assumes "key_from p q sk" and "matches (pk_N (sk_PublicKey sk)) raw enc"
    and "vmult (sk_PublicKey sk) (nil_get enc k) y = Some (Inr d)"
  shows "means (pk_N (sk_PublicKey sk)) (the (map_of raw k) * y) d" and "map_of raw k \<noteq> None"
proof -
  obtain x where "nil_get enc k = Some x" using vmult_Some[OF assms(3)] by blast
  then have x: "map_of enc k = Some (Some x)" by (auto simp: nil_get_def split: option.splits)
  obtain z where "map_of raw k = Some z" "means (pk_N (sk_PublicKey sk)) z x" by (rule matchesE[OF assms(2) x])
  with means_mult[OF assms(1), of z x y d] assms(3) \<open>nil_get enc k = Some x\<close>
  show "means (pk_N (sk_PublicKey sk)) (the (map_of raw k) * y) d" and "map_of raw k \<noteq> None" by simp_all
qed

end
