(* ===== verification/VlLinear.thy ===== *)
theory VlLinear
  imports VlCipher
begin

text \<open>
  Linear regression of two parties on encrypted numbers:
  \<^verbatim>\<open>linear_regression/gradient_descent/mpc_vertical/regression.go\<close> of the crypto library. One party
  has the label; the other one has features only. A party computes its part of the prediction for
  every sample, sends it encrypted under its own key, and combines the part of the other party with
  its own under the key of the other party, with a random number added.
\<close>

section \<open>Preparing the samples\<close>

definition StandardizeDataSet :: "visit \<Rightarrow> DataSet \<Rightarrow> StandardizedDataSet" where
  "StandardizeDataSet rng source =
     (let xbarParams = feature_params (feature_mean rng) source [];
          sigmaParams = feature_params (feature_sigma rng) source [] in
      \<lparr>sd_Features = map (standardize xbarParams sigmaParams) source, sd_XbarParams = xbarParams,
       sd_SigmaParams = sigmaParams, sd_OriginalFeatures = source\<rparr>)"

text \<open>Rows of zeros with the number of the sample in the first place.\<close>

definition number_rows :: "sample list \<Rightarrow> float64 imap \<Rightarrow> sample list vl" where
  "number_rows m sets = put_column 0 (map (\<lambda>(k, _). (k, float_of k)) sets) m"

fun put_features :: "nat \<Rightarrow> DataFeature list \<Rightarrow> sample list \<Rightarrow> sample list vl" where
  "put_features i [] m = vret m"
| "put_features i (f # fs) m = vbind (put_column i (df_Sets f) m) (put_features (i + 1) fs)"

definition PreProcessDataSetNoTag :: "StandardizedDataSet \<Rightarrow> TrainDataSet vl" where
  "PreProcessDataSetNoTag source = (case sd_Features source of [] \<Rightarrow> vpanic
     | f # _ \<Rightarrow>
        let zero = replicate (length (df_Sets f)) (replicate (length (sd_Features source) + 1) (Fin 0)) in
        vbind (number_rows zero (df_Sets f)) (\<lambda>rows.
        vbind (put_features 1 (sd_Features source) rows) (\<lambda>trainSet.
        vbind (put_features 1 (sd_OriginalFeatures source) rows) (\<lambda>originalTrainSet.
        vret \<lparr>td_FeatureNames = map df_FeatureName (sd_Features source), td_TrainSet = trainSet,
          td_XbarParams = sd_XbarParams source, td_SigmaParams = sd_SigmaParams source,
          td_OriginalTrainSet = originalTrainSet\<rparr>))))"

text \<open>The party with the label has a column of ones, and the label last.\<close>

fun put_features_tag :: "string \<Rightarrow> nat \<Rightarrow> nat \<Rightarrow> DataFeature list \<Rightarrow> sample list \<Rightarrow> sample list vl" where
  "put_features_tag target lastc i [] m = vret m"
| "put_features_tag target lastc i (f # fs) m =
     (if df_FeatureName f = target
      then vbind (put_column lastc (df_Sets f) m) (put_features_tag target lastc i fs)
      else vbind (put_column (i + 1) (df_Sets f) m) (put_features_tag target lastc (i + 1) fs))"

definition PreProcessDataSet :: "StandardizedDataSet \<Rightarrow> string \<Rightarrow> TrainDataSet vl" where
  "PreProcessDataSet source targetFeatureName = (case sd_Features source of [] \<Rightarrow> vpanic
     | f # _ \<Rightarrow>
        let n = length (sd_Features source);
            zero = replicate (length (df_Sets f)) (replicate (n + 2) (Fin 0)) in
        vbind (number_rows zero (df_Sets f)) (\<lambda>rows.
        vbind (put_column 1 (map (\<lambda>(k, _). (k, Fin 1)) (df_Sets f)) rows) (\<lambda>rows.
        vbind (put_features_tag targetFeatureName (n + 1) 1 (sd_Features source) rows) (\<lambda>trainSet.
        vbind (put_features_tag targetFeatureName (n + 1) 1 (sd_OriginalFeatures source) rows) (\<lambda>originalTrainSet.
        vret \<lparr>td_FeatureNames = filter (\<lambda>n. n \<noteq> targetFeatureName) (map df_FeatureName (sd_Features source)) @
            (if targetFeatureName = [] then [] else [targetFeatureName]),
          td_TrainSet = trainSet, td_XbarParams = sd_XbarParams source,
          td_SigmaParams = sd_SigmaParams source, td_OriginalTrainSet = originalTrainSet\<rparr>)))))"

text \<open>The parameters for values that are not standardized; the label is the last feature of B.\<close>

definition destandardize_theta :: "float64 list \<Rightarrow> float64 list \<Rightarrow> nat \<Rightarrow> float64 list \<Rightarrow> float64 list" where
  "destandardize_theta xbars sigmas i thetas =
     thetas[0 := fsub (thetas ! 0) (fmul (thetas ! i) (fdiv (xbars ! (i - 1)) (sigmas ! (i - 1)))),
            i := fdiv (fmul (thetas ! i) (last sigmas)) (sigmas ! (i - 1))]"

definition DeStandardizeBothThetas :: "TrainDataSet \<Rightarrow> TrainDataSet \<Rightarrow> float64 list \<Rightarrow> float64 list \<Rightarrow> float64 list vl" where
  "DeStandardizeBothThetas trainA trainB thetasA thetasB =
     (if thetasB = [] \<or> length (td_FeatureNames trainA) < length thetasA \<or>
         length (td_FeatureNames trainB) < length thetasB then vpanic
      else let thetas = hd thetasB # thetasA @ tl thetasB;
               namesA = take (length thetasA) (td_FeatureNames trainA);
               namesB = take (length thetasB) (td_FeatureNames trainB);
               xbars = map (fget (td_XbarParams trainA)) namesA @ map (fget (td_XbarParams trainB)) namesB;
               sigmas = map (fget (td_SigmaParams trainA)) namesA @ map (fget (td_SigmaParams trainB)) namesB;
               thetas = foldl (\<lambda>thetas i. destandardize_theta xbars sigmas i thetas) thetas [1..<length thetas] in
           vret (thetas[0 := fadd (fmul (thetas ! 0) (last sigmas)) (last xbars)]))"

section \<open>The part of one party\<close>

record RawLocalGradientPart =
  RawGradPart :: "int imap"
  RawGradPartSquare :: "int imap"
  RawRegCost :: int

record EncLocalGradientPart =
  EncGradPart :: "big imap"
  EncGradPartSquare :: "big imap"
  EncRegCost :: big

fun predict_loop :: "float64 list \<Rightarrow> sample \<Rightarrow> nat \<Rightarrow> float64 \<Rightarrow> float64 vl" where
  "predict_loop [] smp i predictValue = vret predictValue"
| "predict_loop (t # ts) smp i predictValue =
     vbind (cell smp i) (\<lambda>x. predict_loop ts smp (i + 1) (fadd predictValue (fmul t x)))"

definition predict :: "float64 list \<Rightarrow> sample \<Rightarrow> (int \<times> float64) vl" where
  "predict thetas smp = (case thetas of [] \<Rightarrow> vpanic
     | t # ts \<Rightarrow> vbind (predict_loop ts smp 2 t) (\<lambda>v. vbind (row_id smp) (\<lambda>ident. vret (ident, v))))"

definition predictNoTag :: "float64 list \<Rightarrow> sample \<Rightarrow> (int \<times> float64) vl" where
  "predictNoTag thetas smp =
     vbind (predict_loop thetas smp 1 (Fin 0)) (\<lambda>v. vbind (row_id smp) (\<lambda>ident. vret (ident, v)))"

definition deviation_tag :: "float64 list \<Rightarrow> sample \<Rightarrow> (int \<times> float64) vl" where
  "deviation_tag thetas smp =
     vbind (predict thetas smp) (\<lambda>(ident, predictValue). vret (ident, fsub predictValue (last smp)))"

text \<open>The loop over the samples; both parties run it, on the deviation or on the prediction.\<close>

fun local_rows :: "(sample \<Rightarrow> (int \<times> float64) vl) \<Rightarrow> coin \<Rightarrow> PublicKey \<Rightarrow> int \<Rightarrow> nat \<Rightarrow> sample list \<Rightarrow>
    RawLocalGradientPart \<Rightarrow> EncLocalGradientPart \<Rightarrow> (RawLocalGradientPart \<times> EncLocalGradientPart) vl" where
  "local_rows val K pk accuracy i [] raw enc = vret (raw, enc)"
| "local_rows val K pk accuracy i (r # rs) raw enc =
     vbind (val r) (\<lambda>(ident, v).
     let vInt = fixed accuracy v in
     vbind (vencrypt pk (cn_draw K i 0) vInt) (\<lambda>encV.
     let vSquareInt = fixed accuracy (Pow_int v 2) in
     vbind (vencrypt pk (cn_draw K i 1) vSquareInt) (\<lambda>encVSquare.
     local_rows val K pk accuracy (i + 1) rs
       (raw\<lparr>RawGradPart := AList.update ident vInt (RawGradPart raw),
            RawGradPartSquare := AList.update ident vSquareInt (RawGradPartSquare raw)\<rparr>)
       (enc\<lparr>EncGradPart := AList.update ident (Some encV) (EncGradPart enc),
            EncGradPartSquare := AList.update ident (Some encVSquare) (EncGradPartSquare enc)\<rparr>))))"

definition local_part :: "(sample \<Rightarrow> (int \<times> float64) vl) \<Rightarrow> coin \<Rightarrow> float64 list \<Rightarrow> sample list \<Rightarrow> int \<Rightarrow> int \<Rightarrow>
    float64 \<Rightarrow> PublicKey \<Rightarrow> (RawLocalGradientPart \<times> EncLocalGradientPart) vl" where
  "local_part val K thetas trainSet accuracy regMode regParam pk =
     vbind (local_rows val K pk accuracy 0 trainSet \<lparr>RawGradPart = [], RawGradPartSquare = [], RawRegCost = 0\<rparr>
       \<lparr>EncGradPart = [], EncGradPartSquare = [], EncRegCost = None\<rparr>) (\<lambda>(raw, enc).
     let rawRegCost = fixed accuracy (reg_cost thetas (length trainSet) regMode regParam) in
     vbind (vencrypt pk (cn_draw K (length trainSet) 0) rawRegCost) (\<lambda>encRegCost.
     vret (raw\<lparr>RawRegCost := rawRegCost\<rparr>, enc\<lparr>EncRegCost := Some encRegCost\<rparr>)))"

definition CalLocalGradientTagPart :: "coin \<Rightarrow> float64 list \<Rightarrow> sample list \<Rightarrow> int \<Rightarrow> int \<Rightarrow> float64 \<Rightarrow> PublicKey \<Rightarrow>
    (RawLocalGradientPart \<times> EncLocalGradientPart) vl" where
  "CalLocalGradientTagPart K thetas trainSet accuracy regMode regParam pk =
     local_part (deviation_tag thetas) K thetas trainSet accuracy regMode regParam pk"

definition CalLocalGradientPart :: "coin \<Rightarrow> float64 list \<Rightarrow> sample list \<Rightarrow> int \<Rightarrow> int \<Rightarrow> float64 \<Rightarrow> PublicKey \<Rightarrow>
    (RawLocalGradientPart \<times> EncLocalGradientPart) vl" where
  "CalLocalGradientPart K thetas trainSet accuracy regMode regParam pk =
     local_part (predictNoTag thetas) K thetas trainSet accuracy regMode regParam pk"

section \<open>Gradients under the key of the other party\<close>

definition gradient_row :: "(float64 \<Rightarrow> int) \<Rightarrow> coin \<Rightarrow> RawLocalGradientPart \<Rightarrow> EncLocalGradientPart \<Rightarrow> nat \<Rightarrow>
    PublicKey \<Rightarrow> int \<Rightarrow> nat \<Rightarrow> int \<Rightarrow> sample \<Rightarrow> int vl" where
  "gradient_row factor K localPart otherPart featureIndex pk encRanNum i ident r =
     vbind (checked (map_of (RawGradPart localPart) ident)) (\<lambda>predictValueLocalPart.
     vbind (cell r (featureIndex + 1)) (\<lambda>x.
     vbind (vencrypt pk (cn_draw K (i + 1) 0) (predictValueLocalPart * factor x)) (\<lambda>encDeviation1.
     vbind (checked (map_of (EncGradPart otherPart) ident)) (\<lambda>predictValueOtherPart.
     vbind (vmult pk predictValueOtherPart (factor x)) (\<lambda>encDeviation2.
     vret (CyphersAdd pk [encDeviation1, encDeviation2, encRanNum]))))))"

definition enc_gradient :: "(float64 \<Rightarrow> int) \<Rightarrow> coin \<Rightarrow> RawLocalGradientPart \<Rightarrow> EncLocalGradientPart \<Rightarrow> sample list \<Rightarrow>
    nat \<Rightarrow> PublicKey \<Rightarrow> (big imap \<times> int) vl" where
  "enc_gradient factor K localPart otherPart trainSet featureIndex pk =
     vbind (vnoise K) (\<lambda>ranNum.
     vbind (vencrypt pk (cn_draw K 0 0) ranNum) (\<lambda>encRanNum.
     vbind (enc_rows (gradient_row factor K localPart otherPart featureIndex pk encRanNum) 0 trainSet []) (\<lambda>encGradMap.
     vret (encGradMap, ranNum))))"

text \<open>The party without the label rounds the value of the feature before it scales it.\<close>

definition rounded_factor :: "int \<Rightarrow> float64 \<Rightarrow> int" where
  "rounded_factor accuracy x = to_int64 (Round x) * scale_factor accuracy"

definition CalEncLocalGradient :: "coin \<Rightarrow> RawLocalGradientPart \<Rightarrow> EncLocalGradientPart \<Rightarrow> sample list \<Rightarrow> nat \<Rightarrow> int \<Rightarrow>
    PublicKey \<Rightarrow> (big imap \<times> int) vl" where
  "CalEncLocalGradient K localPart tagPart trainSet featureIndex accuracy pk =
     enc_gradient (rounded_factor accuracy) K localPart tagPart trainSet featureIndex pk"

definition CalEncLocalGradientTagPart :: "coin \<Rightarrow> RawLocalGradientPart \<Rightarrow> EncLocalGradientPart \<Rightarrow> sample list \<Rightarrow> nat \<Rightarrow>
    int \<Rightarrow> PublicKey \<Rightarrow> (big imap \<times> int) vl" where
  "CalEncLocalGradientTagPart K localPart otherPart trainSet featureIndex accuracy pk =
     enc_gradient (fixed accuracy) K localPart otherPart trainSet featureIndex pk"

definition DecryptGradient :: "big imap \<Rightarrow> PrivateKey \<Rightarrow> big imap vl" where
  "DecryptGradient encGradMap sk = decrypt_map sk encGradMap"

definition RetrieveRealGradient :: "big imap \<Rightarrow> int \<Rightarrow> big \<Rightarrow> float64 imap vl" where
  "RetrieveRealGradient decGradMap accuracy randomInt = retrieve_map accuracy randomInt decGradMap"

definition CalGradient :: "visit \<Rightarrow> float64 imap \<Rightarrow> float64" where
  "CalGradient rng gradMap = fdiv (foldl fadd (Fin 0) (visited rng gradMap)) (float_of (int (length gradMap)))"

definition CalGradientWithLassoReg :: "visit \<Rightarrow> float64 list \<Rightarrow> float64 imap \<Rightarrow> nat \<Rightarrow> float64 \<Rightarrow> float64 vl" where
  "CalGradientWithLassoReg rng thetas gradMap featureIndex regParam =
     vbind (cell thetas featureIndex) (\<lambda>t.
     let sgnTheta = (if flt (Fin 0) t then Fin 1 else if flt t (Fin 0) then Fin (-1) else Fin 0) in
     vret (fadd (CalGradient rng gradMap) (fdiv (fmul regParam sgnTheta) (float_of (int (length gradMap))))))"

definition CalGradientWithRidgeReg :: "visit \<Rightarrow> float64 list \<Rightarrow> float64 imap \<Rightarrow> nat \<Rightarrow> float64 \<Rightarrow> float64 vl" where
  "CalGradientWithRidgeReg rng thetas gradMap featureIndex regParam =
     vbind (cell thetas featureIndex) (\<lambda>t.
     vret (fadd (CalGradient rng gradMap) (fdiv (fmul regParam t) (float_of (int (length gradMap))))))"

definition CalGradientWithReg :: "visit \<Rightarrow> float64 list \<Rightarrow> float64 imap \<Rightarrow> nat \<Rightarrow> int \<Rightarrow> float64 \<Rightarrow> float64 vl" where
  "CalGradientWithReg rng thetas gradMap featureIndex regMode regParam =
     (if regMode = RegLasso then CalGradientWithLassoReg rng thetas gradMap featureIndex regParam
      else if regMode = RegRidge then CalGradientWithRidgeReg rng thetas gradMap featureIndex regParam
      else vret (CalGradient rng gradMap))"

section \<open>Costs under the key of the other party\<close>

text \<open>A missing square is an error for the party with the label and a nil pointer for the other one.\<close>

definition cost_row :: "(int option \<Rightarrow> int vl) \<Rightarrow> coin \<Rightarrow> RawLocalGradientPart \<Rightarrow> EncLocalGradientPart \<Rightarrow> int \<Rightarrow>
    PublicKey \<Rightarrow> int \<Rightarrow> nat \<Rightarrow> int \<Rightarrow> sample \<Rightarrow> int vl" where
  "cost_row found K localPart otherPart accuracy pk encRanNum i ident r =
     (let scale = scale_factor accuracy in
      vbind (found (map_of (RawGradPartSquare localPart) ident)) (\<lambda>rawDeviation1.
      vbind (vencrypt pk (cn_draw K (i + 1) 0) (rawDeviation1 * scale)) (\<lambda>encDeviation1.
      vbind (checked (map_of (EncGradPartSquare otherPart) ident)) (\<lambda>encPart2.
      vbind (vmult pk encPart2 scale) (\<lambda>encDeviation2.
      vbind (checked (map_of (RawGradPart localPart) ident)) (\<lambda>rawDeviation3.
      vbind (checked (map_of (EncGradPart otherPart) ident)) (\<lambda>encPart3.
      vbind (vmult pk encPart3 (2 * rawDeviation3)) (\<lambda>encDeviation3.
      vbind (vencrypt pk (cn_draw K (i + 1) 1) (RawRegCost localPart * scale)) (\<lambda>encDeviation4.
      vbind (vmult pk (EncRegCost otherPart) scale) (\<lambda>encDeviation5.
      vret (CyphersAdd pk [encDeviation1, encDeviation2, encDeviation3, encDeviation4, encDeviation5, encRanNum])))))))))))"

definition enc_cost :: "(int option \<Rightarrow> int vl) \<Rightarrow> coin \<Rightarrow> RawLocalGradientPart \<Rightarrow> EncLocalGradientPart \<Rightarrow> sample list \<Rightarrow>
    int \<Rightarrow> PublicKey \<Rightarrow> (big imap \<times> int) vl" where
  "enc_cost found K localPart otherPart trainSet accuracy pk =
     vbind (vnoise K) (\<lambda>ranNum.
     vbind (vencrypt pk (cn_draw K 0 0) ranNum) (\<lambda>encRanNum.
     vbind (enc_rows (cost_row found K localPart otherPart accuracy pk encRanNum) 0 trainSet []) (\<lambda>costSum.
     vret (costSum, ranNum))))"

definition EvaluateEncLocalCost :: "coin \<Rightarrow> RawLocalGradientPart \<Rightarrow> EncLocalGradientPart \<Rightarrow> sample list \<Rightarrow> int \<Rightarrow>
    PublicKey \<Rightarrow> (big imap \<times> int) vl" where
  "EvaluateEncLocalCost K localPart tagPart trainSet accuracy pk =
     enc_cost deref K localPart tagPart trainSet accuracy pk"

definition EvaluateEncLocalCostTag :: "coin \<Rightarrow> RawLocalGradientPart \<Rightarrow> EncLocalGradientPart \<Rightarrow> sample list \<Rightarrow> int \<Rightarrow>
    PublicKey \<Rightarrow> (big imap \<times> int) vl" where
  "EvaluateEncLocalCostTag K localPart otherPart trainSet accuracy pk =
     enc_cost checked K localPart otherPart trainSet accuracy pk"

definition DecryptCost :: "big imap \<Rightarrow> PrivateKey \<Rightarrow> big imap vl" where
  "DecryptCost encCostMap sk = decrypt_map sk encCostMap"

definition RetrieveRealCost :: "big imap \<Rightarrow> int \<Rightarrow> big \<Rightarrow> float64 imap vl" where
  "RetrieveRealCost decCostMap accuracy randomInt = retrieve_map accuracy randomInt decCostMap"

definition CalCost :: "visit \<Rightarrow> float64 imap \<Rightarrow> float64" where
  "CalCost rng costMap = fdiv (foldl fadd (Fin 0) (visited rng costMap))
     (fmul (Fin 2) (float_of (int (length costMap))))"

section \<open>Using a model\<close>

text \<open>\<^verbatim>\<open>range\<close> over maps by name, in the order \<open>rng\<close> gives to the keys.\<close>

definition dot :: "(string list \<Rightarrow> string list) \<Rightarrow> fmap \<Rightarrow> fmap \<Rightarrow> fmap \<Rightarrow> float64 \<Rightarrow> float64" where
  "dot rng keys thetas input start =
     foldl (\<lambda>s k. fadd s (fmul (fget thetas k) (fget input k))) start (rng (map fst keys))"

definition PredictLocalPartNoTag :: "(string list \<Rightarrow> string list) \<Rightarrow> fmap \<Rightarrow> fmap \<Rightarrow> float64" where
  "PredictLocalPartNoTag rng thetas input = dot rng thetas thetas input (Fin 0)"

definition PredictLocalPartTag :: "(string list \<Rightarrow> string list) \<Rightarrow> fmap \<Rightarrow> fmap \<Rightarrow> float64" where
  "PredictLocalPartTag rng thetas input = dot rng input thetas input (fget thetas ''Intercept'')"

definition StandardizeLocalInput :: "fmap \<Rightarrow> fmap \<Rightarrow> fmap \<Rightarrow> fmap" where
  "StandardizeLocalInput xbars sigmas input =
     map (\<lambda>(k, v). (k, fdiv (fsub v (fget xbars k)) (fget sigmas k))) input"

definition DeStandardizeOutput :: "float64 \<Rightarrow> float64 \<Rightarrow> float64 \<Rightarrow> float64" where
  "DeStandardizeOutput ybar sigma output = fadd (fmul output sigma) ybar"

text \<open>The byte form of the encrypted part.\<close>

definition LinearEncGradientPartToBytes :: "EncLocalGradientPart \<Rightarrow> blob" where
  "LinearEncGradientPartToBytes e = Doc (JObj [(''enc_grad_part'', enc_imap (EncGradPart e)),
     (''enc_grad_part_square'', enc_imap (EncGradPartSquare e)), (''enc_reg_cost'', enc_big (EncRegCost e))])"

definition dec_EncLocalGradientPart :: "json \<Rightarrow> EncLocalGradientPart option" where
  "dec_EncLocalGradientPart = dec_struct (\<lambda>kvs.
     Option.bind (fld dec_imap [] ''enc_grad_part'' kvs) (\<lambda>g.
     Option.bind (fld dec_imap [] ''enc_grad_part_square'' kvs) (\<lambda>s.
     Option.bind (fld dec_big None ''enc_reg_cost'' kvs) (\<lambda>r.
     Some \<lparr>EncGradPart = g, EncGradPartSquare = s, EncRegCost = r\<rparr>))))"

definition LinearEncGradientPartFromBytes :: "env \<Rightarrow> blob \<Rightarrow> EncLocalGradientPart vl" where
  "LinearEncGradientPartFromBytes E b = checked (unmarshal E dec_EncLocalGradientPart b)"

section \<open>What the parties obtain\<close>

definition parts_match :: "int \<Rightarrow> RawLocalGradientPart \<Rightarrow> EncLocalGradientPart \<Rightarrow> bool" where
  "parts_match N raw enc \<longleftrightarrow> matches N (RawGradPart raw) (EncGradPart enc) \<and>
     matches N (RawGradPartSquare raw) (EncGradPartSquare enc) \<and> ciphers N (RawRegCost raw) (EncRegCost enc)"

definition part_keys :: "EncLocalGradientPart \<Rightarrow> bool" where
  "part_keys enc \<longleftrightarrow> good_keys (EncGradPart enc) \<and> good_keys (EncGradPartSquare enc)"

lemma good_keys_update: "good_keys m \<Longrightarrow> in_int64 k \<Longrightarrow> good_keys (AList.update k v m)"
  by (auto simp: good_keys_def distinct_update dom_update)

definition ids_in_range :: "(sample \<Rightarrow> (int \<times> float64) vl) \<Rightarrow> bool" where
  "ids_in_range val \<longleftrightarrow> (\<forall>r ident v. val r = Some (Inr (ident, v)) \<longrightarrow> in_int64 ident)"

lemma row_id_range: "row_id r = Some (Inr i) \<Longrightarrow> in_int64 i"
  using to_int64_range by (auto simp: row_id_def vl_ok)

lemma ids_in_range_vals: "ids_in_range (deviation_tag thetas)" "ids_in_range (predictNoTag thetas)"
  by (auto simp: ids_in_range_def deviation_tag_def predictNoTag_def predict_def vl_ok row_id_range
      split: list.splits)

lemma local_rows_match:
  assumes "key_from p q sk" and "local_rows val K (sk_PublicKey sk) accuracy i rows raw enc = Some (Inr (raw', enc'))"
    and "ids_in_range val" and "part_keys enc"
    and "matches (pk_N (sk_PublicKey sk)) (RawGradPart raw) (EncGradPart enc)"
    and "matches (pk_N (sk_PublicKey sk)) (RawGradPartSquare raw) (EncGradPartSquare enc)"
  shows "matches (pk_N (sk_PublicKey sk)) (RawGradPart raw') (EncGradPart enc') \<and>
    matches (pk_N (sk_PublicKey sk)) (RawGradPartSquare raw') (EncGradPartSquare enc') \<and> part_keys enc'"
  using assms(2,4,5,6)
proof (induction rows arbitrary: i raw enc)
  case (Cons r rows)
  from Cons.prems(1) obtain ident v c d where
    v: "val r = Some (Inr (ident, v))" and c: "vencrypt (sk_PublicKey sk) (cn_draw K i 0) (fixed accuracy v) = Some (Inr c)"
    and d: "vencrypt (sk_PublicKey sk) (cn_draw K i 1) (fixed accuracy (Pow_int v 2)) = Some (Inr d)"
    and run: "local_rows val K (sk_PublicKey sk) accuracy (i + 1) rows
       (raw\<lparr>RawGradPart := AList.update ident (fixed accuracy v) (RawGradPart raw),
            RawGradPartSquare := AList.update ident (fixed accuracy (Pow_int v 2)) (RawGradPartSquare raw)\<rparr>)
       (enc\<lparr>EncGradPart := AList.update ident (Some c) (EncGradPart enc),
            EncGradPartSquare := AList.update ident (Some d) (EncGradPartSquare enc)\<rparr>) = Some (Inr (raw', enc'))"
    by (auto simp: vl_ok Let_def)
  have "in_int64 ident" using v assms(3) by (auto simp: ids_in_range_def)
  note m = means_encrypt[OF assms(1) c] means_encrypt[OF assms(1) d]
  show ?case
    by (rule Cons.IH[OF run]) (use Cons.prems m \<open>in_int64 ident\<close> in
      \<open>simp_all add: matches_update part_keys_def good_keys_update\<close>)
qed (simp add: vl_ok)

lemma local_part_match:
  assumes "key_from p q sk" and "ids_in_range val"
    and "local_part val K thetas rows accuracy regMode regParam (sk_PublicKey sk) = Some (Inr (raw, enc))"
  shows "parts_match (pk_N (sk_PublicKey sk)) raw enc" and "part_keys enc"
proof -
  obtain raw1 enc1 c where l: "local_rows val K (sk_PublicKey sk) accuracy 0 rows
      \<lparr>RawGradPart = [], RawGradPartSquare = [], RawRegCost = 0\<rparr>
      \<lparr>EncGradPart = [], EncGradPartSquare = [], EncRegCost = None\<rparr> = Some (Inr (raw1, enc1))"
    and c: "vencrypt (sk_PublicKey sk) (cn_draw K (length rows) 0)
        (fixed accuracy (reg_cost thetas (length rows) regMode regParam)) = Some (Inr c)"
    and r: "raw = raw1\<lparr>RawRegCost := fixed accuracy (reg_cost thetas (length rows) regMode regParam)\<rparr>"
      "enc = enc1\<lparr>EncRegCost := Some c\<rparr>"
    using assms(3) by (auto simp: local_part_def vl_ok Let_def)
  from local_rows_match[OF assms(1) l assms(2)] means_encrypt[OF assms(1) c]
  show "parts_match (pk_N (sk_PublicKey sk)) raw enc" and "part_keys enc"
    by (simp_all add: r parts_match_def part_keys_def good_keys_def)
qed

text \<open>The plain values that the encrypted ones stand for.\<close>

definition plain_gradient :: "(float64 \<Rightarrow> int) \<Rightarrow> RawLocalGradientPart \<Rightarrow> RawLocalGradientPart \<Rightarrow> nat \<Rightarrow> int \<Rightarrow> sample \<Rightarrow> int" where
  "plain_gradient factor own other featureIndex ident r =
     (the (map_of (RawGradPart own) ident) + the (map_of (RawGradPart other) ident)) * factor (r ! (featureIndex + 1))"

definition plain_cost :: "RawLocalGradientPart \<Rightarrow> RawLocalGradientPart \<Rightarrow> int \<Rightarrow> int \<Rightarrow> int" where
  "plain_cost own other accuracy ident =
     (the (map_of (RawGradPartSquare own) ident) + the (map_of (RawGradPartSquare other) ident)) * scale_factor accuracy +
     2 * the (map_of (RawGradPart own) ident) * the (map_of (RawGradPart other) ident) +
     (RawRegCost own + RawRegCost other) * scale_factor accuracy"

lemma plain_cost_commute: "plain_cost own other accuracy ident = plain_cost other own accuracy ident"
  by (simp add: plain_cost_def algebra_simps)

lemma gradient_row_means:
  assumes key: "key_from p q sk" and other: "parts_match (pk_N (sk_PublicKey sk)) otherRaw other"
    and n: "means (pk_N (sk_PublicKey sk)) n encN"
    and run: "gradient_row factor K own other f (sk_PublicKey sk) encN i ident r = Some (Inr c)"
  shows "means (pk_N (sk_PublicKey sk)) (plain_gradient factor own otherRaw f ident r + n) c"
proof -
  obtain a x e1 b e2 where a: "map_of (RawGradPart own) ident = Some a" and x: "cell r (f + 1) = Some (Inr x)"
    and e1: "vencrypt (sk_PublicKey sk) (cn_draw K (i + 1) 0) (a * factor x) = Some (Inr e1)"
    and b: "map_of (EncGradPart other) ident = Some b" and e2: "vmult (sk_PublicKey sk) b (factor x) = Some (Inr e2)"
    and c: "c = CyphersAdd (sk_PublicKey sk) [e1, e2, encN]"
    using run by (auto simp: gradient_row_def vl_ok)
  let ?z = "the (map_of (RawGradPart otherRaw) ident)"
  have "means (pk_N (sk_PublicKey sk)) (?z * factor x) e2"
    using other e2 b by (intro entry_mult(1)[OF key, where enc = "EncGradPart other"])
      (simp_all add: parts_match_def nil_get_def)
  then have "means (pk_N (sk_PublicKey sk)) (a * factor x + (?z * factor x + (n + 0))) c"
    using means_sum[of "sk_PublicKey sk" "[a * factor x, ?z * factor x, n]" "[e1, e2, encN]"] n
      means_encrypt[OF key e1] by (simp add: c)
  moreover have "x = r ! (f + 1)" using x by (simp add: cell_def vl_ok split: if_splits)
  ultimately show ?thesis using a by (simp add: plain_gradient_def algebra_simps)
qed

lemma cost_row_means:
  assumes key: "key_from p q sk" and other: "parts_match (pk_N (sk_PublicKey sk)) otherRaw other"
    and n: "means (pk_N (sk_PublicKey sk)) n encN" and found: "\<And>b z. found b = Some (Inr z) \<Longrightarrow> b = Some z"
    and run: "cost_row found K own other accuracy (sk_PublicKey sk) encN i ident r = Some (Inr c)"
  shows "means (pk_N (sk_PublicKey sk)) (plain_cost own otherRaw accuracy ident + n) c"
proof -
  let ?pk = "sk_PublicKey sk" let ?s = "scale_factor accuracy"
  obtain s1 e1 b2 e2 a b3 e3 e4 e5 where s1: "map_of (RawGradPartSquare own) ident = Some s1"
    and e1: "vencrypt ?pk (cn_draw K (i + 1) 0) (s1 * ?s) = Some (Inr e1)"
    and b2: "map_of (EncGradPartSquare other) ident = Some b2" and e2: "vmult ?pk b2 ?s = Some (Inr e2)"
    and a: "map_of (RawGradPart own) ident = Some a"
    and b3: "map_of (EncGradPart other) ident = Some b3" and e3: "vmult ?pk b3 (2 * a) = Some (Inr e3)"
    and e4: "vencrypt ?pk (cn_draw K (i + 1) 1) (RawRegCost own * ?s) = Some (Inr e4)"
    and e5: "vmult ?pk (EncRegCost other) ?s = Some (Inr e5)"
    and c: "c = CyphersAdd ?pk [e1, e2, e3, e4, e5, encN]"
    using run by (auto simp: cost_row_def Let_def vl_ok dest: found)
  let ?z2 = "the (map_of (RawGradPartSquare otherRaw) ident)" and ?z3 = "the (map_of (RawGradPart otherRaw) ident)"
  have m2: "means (pk_N ?pk) (?z2 * ?s) e2"
    using other b2 e2 by (intro entry_mult(1)[OF key, where enc = "EncGradPartSquare other"])
      (simp_all add: parts_match_def nil_get_def)
  have m3: "means (pk_N ?pk) (?z3 * (2 * a)) e3"
    using other b3 e3 by (intro entry_mult(1)[OF key, where enc = "EncGradPart other"])
      (simp_all add: parts_match_def nil_get_def)
  obtain y5 where y5: "EncRegCost other = Some y5" using vmult_Some[OF e5] by blast
  then have "means (pk_N ?pk) (RawRegCost otherRaw) y5" using other by (simp add: parts_match_def)
  then have m5: "means (pk_N ?pk) (RawRegCost otherRaw * ?s) e5" using e5 by (intro means_mult[OF key]) (simp_all add: y5)
  have "means (pk_N ?pk) (sum_list [s1 * ?s, ?z2 * ?s, ?z3 * (2 * a), RawRegCost own * ?s, RawRegCost otherRaw * ?s, n]) c"
    unfolding c by (rule means_sum) (use n means_encrypt[OF key e1] m2 m3 means_encrypt[OF key e4] m5 in simp)
  moreover have "sum_list [s1 * ?s, ?z2 * ?s, ?z3 * (2 * a), RawRegCost own * ?s, RawRegCost otherRaw * ?s, n] =
      plain_cost own otherRaw accuracy ident + n"
    using s1 a by (simp add: plain_cost_def algebra_simps)
  ultimately show ?thesis by (simp only:)
qed

lemma enc_gradient_maps:
  assumes "key_from p q sk" and "parts_match (pk_N (sk_PublicKey sk)) otherRaw other"
    and run: "enc_gradient factor K own other rows f (sk_PublicKey sk) = Some (Inr (g, n))"
    and ids: "ids_of rows ids" "distinct ids"
  shows "maps_to (\<lambda>k c. \<exists>x. c = Some x \<and> means (pk_N (sk_PublicKey sk))
    (plain_gradient factor own otherRaw f k (row_at rows ids k) + n) x) ids g"
proof -
  obtain e where e: "vencrypt (sk_PublicKey sk) (cn_draw K 0 0) n = Some (Inr e)"
    and rows: "enc_rows (gradient_row factor K own other f (sk_PublicKey sk) e) 0 rows [] = Some (Inr g)"
    using run by (auto simp: enc_gradient_def vl_ok)
  show ?thesis
    by (rule enc_rows_maps[OF rows ids]) (rule gradient_row_means[OF assms(1,2) means_encrypt[OF assms(1) e]])
qed

lemma enc_cost_maps:
  assumes "key_from p q sk" and "parts_match (pk_N (sk_PublicKey sk)) otherRaw other"
    and found: "\<And>b z. found b = Some (Inr z) \<Longrightarrow> b = Some z"
    and run: "enc_cost found K own other rows accuracy (sk_PublicKey sk) = Some (Inr (g, n))"
    and ids: "ids_of rows ids" "distinct ids"
  shows "maps_to (\<lambda>k c. \<exists>x. c = Some x \<and> means (pk_N (sk_PublicKey sk)) (plain_cost own otherRaw accuracy k + n) x) ids g"
proof -
  obtain e where e: "vencrypt (sk_PublicKey sk) (cn_draw K 0 0) n = Some (Inr e)"
    and rows: "enc_rows (cost_row found K own other accuracy (sk_PublicKey sk) e) 0 rows [] = Some (Inr g)"
    using run by (auto simp: enc_cost_def vl_ok)
  show ?thesis
    by (rule enc_rows_maps[OF rows ids]) (rule cost_row_means[OF assms(1,2) means_encrypt[OF assms(1) e] found])
qed

lemma LinearEncGradientPart_roundtrip:
  assumes "part_keys e"
  shows "LinearEncGradientPartFromBytes E (LinearEncGradientPartToBytes e) =
    vret (e\<lparr>EncGradPart := sorted_imap (EncGradPart e), EncGradPartSquare := sorted_imap (EncGradPartSquare e)\<rparr>)"
  using assms by (cases e) (simp add: LinearEncGradientPartFromBytes_def LinearEncGradientPartToBytes_def
      dec_EncLocalGradientPart_def dec_struct_def fld_def checked_def dec_enc_imap part_keys_def)

lemma parts_match_sorted:
  "part_keys e \<Longrightarrow> parts_match N raw e \<Longrightarrow>
    parts_match N raw (e\<lparr>EncGradPart := sorted_imap (EncGradPart e), EncGradPartSquare := sorted_imap (EncGradPartSquare e)\<rparr>)"
  by (simp add: parts_match_def part_keys_def good_keys_def matches_cong[OF _ map_of_sorted_imap])

end
