(* ===== verification/VlLogic.thy ===== *)
theory VlLogic
  imports VlLinear
begin

text \<open>
  Logistic regression of two parties on encrypted numbers:
  \<^verbatim>\<open>logic_regression/mpc_vertical/regression.go\<close> of the crypto library. Gradient and cost are
  those of the Taylor polynomials of degree one and two. The functions that have the text of their
  counterparts for linear regression are defined by them.
\<close>

section \<open>Preparing the samples\<close>

text \<open>The label is not standardized.\<close>

definition logic_StandardizeDataSet :: "visit \<Rightarrow> DataSet \<Rightarrow> string \<Rightarrow> StandardizedDataSet" where
  "logic_StandardizeDataSet rng source lab =
     (let xbarParams = feature_params (feature_mean rng) source [];
          sigmaParams = feature_params (feature_sigma rng) source [] in
      \<lparr>sd_Features = map (\<lambda>f. if df_FeatureName f = lab then f else standardize xbarParams sigmaParams f) source,
       sd_XbarParams = xbarParams, sd_SigmaParams = sigmaParams, sd_OriginalFeatures = source\<rparr>)"

definition logic_PreProcessDataSet :: "StandardizedDataSet \<Rightarrow> string \<Rightarrow> TrainDataSet vl" where
  "logic_PreProcessDataSet source lab = PreProcessDataSet source lab"

definition logic_PreProcessDataSetNoTag :: "StandardizedDataSet \<Rightarrow> TrainDataSet vl" where
  "logic_PreProcessDataSetNoTag source = PreProcessDataSetNoTag source"

section \<open>The part of one party\<close>

record RawLocalGradAndCostPart =
  RawPart1 :: "int imap"
  RawPart2 :: "int imap"
  RawPart3 :: "int imap"
  RawPart4 :: "int imap"
  RawPart5 :: "int imap"
  lg_RawRegCost :: int

record EncLocalGradAndCostPart =
  EncPart1 :: "big imap"
  EncPart2 :: "big imap"
  EncPart3 :: "big imap"
  EncPart4 :: "big imap"
  EncPart5 :: "big imap"
  lg_EncRegCost :: big

type_synonym logic_part = "RawLocalGradAndCostPart \<times> EncLocalGradAndCostPart"

definition empty_logic_part :: logic_part where
  "empty_logic_part =
     (\<lparr>RawPart1 = [], RawPart2 = [], RawPart3 = [], RawPart4 = [], RawPart5 = [], lg_RawRegCost = 0\<rparr>,
      \<lparr>EncPart1 = [], EncPart2 = [], EncPart3 = [], EncPart4 = [], EncPart5 = [], lg_EncRegCost = None\<rparr>)"

text \<open>The error of the fifth encryption is not looked at; its result is then the nil pointer.\<close>

definition vencrypt_unchecked :: "PublicKey \<Rightarrow> int option list \<Rightarrow> int \<Rightarrow> big vl" where
  "vencrypt_unchecked pk ds m = (case vencrypt pk ds m of Some (Inl VlError) \<Rightarrow> vret None
     | r \<Rightarrow> vbind r (\<lambda>c. vret (Some c)))"

fun logic_tag_rows :: "coin \<Rightarrow> PublicKey \<Rightarrow> int \<Rightarrow> float64 list \<Rightarrow> nat \<Rightarrow> sample list \<Rightarrow> logic_part \<Rightarrow> logic_part vl" where
  "logic_tag_rows K pk accuracy thetas i [] part = vret part"
| "logic_tag_rows K pk accuracy thetas i (r # rs) (raw, enc) =
     vbind (predict thetas r) (\<lambda>(ident, predictValue).
     let v1 = fsub (last r) (Fin (1 / 2)); z1 = fixed accuracy v1 in
     vbind (vencrypt pk (cn_draw K i 0) z1) (\<lambda>c1.
     let z2 = fixed accuracy (fmul v1 predictValue) in
     vbind (vencrypt pk (cn_draw K i 1) z2) (\<lambda>c2.
     let z3 = fixed accuracy (fdiv (Pow_int predictValue 2) (Fin 8)) in
     vbind (vencrypt pk (cn_draw K i 2) z3) (\<lambda>c3.
     let z4 = fixed accuracy (fdiv predictValue (Fin 4)) in
     vbind (vencrypt pk (cn_draw K i 3) z4) (\<lambda>c4.
     let z5 = fixed accuracy (fsub (fadd (Fin (1 / 2)) (fmul predictValue (Fin (1 / 4)))) (last r)) in
     vbind (vencrypt_unchecked pk (cn_draw K i 4) z5) (\<lambda>c5.
     logic_tag_rows K pk accuracy thetas (i + 1) rs
       (raw\<lparr>RawPart1 := AList.update ident z1 (RawPart1 raw), RawPart2 := AList.update ident z2 (RawPart2 raw),
            RawPart3 := AList.update ident z3 (RawPart3 raw), RawPart4 := AList.update ident z4 (RawPart4 raw),
            RawPart5 := AList.update ident z5 (RawPart5 raw)\<rparr>,
        enc\<lparr>EncPart1 := AList.update ident (Some c1) (EncPart1 enc), EncPart2 := AList.update ident (Some c2) (EncPart2 enc),
            EncPart3 := AList.update ident (Some c3) (EncPart3 enc), EncPart4 := AList.update ident (Some c4) (EncPart4 enc),
            EncPart5 := AList.update ident c5 (EncPart5 enc)\<rparr>)))))))"

fun logic_rows :: "coin \<Rightarrow> PublicKey \<Rightarrow> int \<Rightarrow> float64 list \<Rightarrow> nat \<Rightarrow> sample list \<Rightarrow> logic_part \<Rightarrow> logic_part vl" where
  "logic_rows K pk accuracy thetas i [] part = vret part"
| "logic_rows K pk accuracy thetas i (r # rs) (raw, enc) =
     vbind (predictNoTag thetas r) (\<lambda>(ident, predictValue).
     let z1 = fixed accuracy predictValue in
     vbind (vencrypt pk (cn_draw K i 0) z1) (\<lambda>c1.
     let z2 = fixed accuracy (fdiv (Pow_int predictValue 2) (Fin 8)) in
     vbind (vencrypt pk (cn_draw K i 1) z2) (\<lambda>c2.
     logic_rows K pk accuracy thetas (i + 1) rs
       (raw\<lparr>RawPart1 := AList.update ident z1 (RawPart1 raw), RawPart2 := AList.update ident z2 (RawPart2 raw)\<rparr>,
        enc\<lparr>EncPart1 := AList.update ident (Some c1) (EncPart1 enc), EncPart2 := AList.update ident (Some c2) (EncPart2 enc)\<rparr>))))"

definition logic_reg_part :: "coin \<Rightarrow> float64 list \<Rightarrow> sample list \<Rightarrow> int \<Rightarrow> int \<Rightarrow> float64 \<Rightarrow> PublicKey \<Rightarrow> logic_part \<Rightarrow>
    logic_part vl" where
  "logic_reg_part K thetas trainSet accuracy regMode regParam pk = (\<lambda>(raw, enc).
     let rawRegCost = fixed accuracy (reg_cost thetas (length trainSet) regMode regParam) in
     vbind (vencrypt pk (cn_draw K (length trainSet) 0) rawRegCost) (\<lambda>encRegCost.
     vret (raw\<lparr>lg_RawRegCost := rawRegCost\<rparr>, enc\<lparr>lg_EncRegCost := Some encRegCost\<rparr>)))"

definition CalLocalGradAndCostTagPart :: "coin \<Rightarrow> float64 list \<Rightarrow> sample list \<Rightarrow> int \<Rightarrow> int \<Rightarrow> float64 \<Rightarrow> PublicKey \<Rightarrow>
    logic_part vl" where
  "CalLocalGradAndCostTagPart K thetas trainSet accuracy regMode regParam pk =
     vbind (logic_tag_rows K pk accuracy thetas 0 trainSet empty_logic_part)
       (logic_reg_part K thetas trainSet accuracy regMode regParam pk)"

definition CalLocalGradAndCostPart :: "coin \<Rightarrow> float64 list \<Rightarrow> sample list \<Rightarrow> int \<Rightarrow> int \<Rightarrow> float64 \<Rightarrow> PublicKey \<Rightarrow>
    logic_part vl" where
  "CalLocalGradAndCostPart K thetas trainSet accuracy regMode regParam pk =
     vbind (logic_rows K pk accuracy thetas 0 trainSet empty_logic_part)
       (logic_reg_part K thetas trainSet accuracy regMode regParam pk)"

section \<open>Gradients and costs under the key of the other party\<close>

definition quarter_factor :: "int \<Rightarrow> float64 \<Rightarrow> int" where
  "quarter_factor accuracy x = fixed accuracy (fmul x (Fin (1 / 4)))"

definition logic_gradient_row :: "RawLocalGradAndCostPart \<Rightarrow> EncLocalGradAndCostPart \<Rightarrow> nat \<Rightarrow> int \<Rightarrow> PublicKey \<Rightarrow> int \<Rightarrow>
    nat \<Rightarrow> int \<Rightarrow> sample \<Rightarrow> int vl" where
  "logic_gradient_row localPart tagPart featureIndex accuracy pk ranNum i ident r =
     vbind (cell r (featureIndex + 1)) (\<lambda>x.
     vbind (deref (map_of (RawPart1 localPart) ident)) (\<lambda>z.
     let rawValue1 = z * quarter_factor accuracy x in
     vbind (vmult pk (nil_get (EncPart5 tagPart) ident) (fixed accuracy x)) (\<lambda>encValue2.
     of_cres (CypherPlainsAdd pk encValue2 [rawValue1, ranNum]))))"

definition logic_gradient_row_tag :: "RawLocalGradAndCostPart \<Rightarrow> EncLocalGradAndCostPart \<Rightarrow> nat \<Rightarrow> int \<Rightarrow> PublicKey \<Rightarrow> int \<Rightarrow>
    nat \<Rightarrow> int \<Rightarrow> sample \<Rightarrow> int vl" where
  "logic_gradient_row_tag tagPart otherPart featureIndex accuracy pk ranNum i ident r =
     vbind (cell r (featureIndex + 1)) (\<lambda>x.
     vbind (vmult pk (nil_get (EncPart1 otherPart) ident) (quarter_factor accuracy x)) (\<lambda>encValue1.
     vbind (deref (map_of (RawPart5 tagPart) ident)) (\<lambda>z.
     let rawValue2 = z * fixed accuracy x in
     of_cres (CypherPlainsAdd pk encValue1 [rawValue2, ranNum]))))"

definition logic_CalEncLocalGradient :: "coin \<Rightarrow> RawLocalGradAndCostPart \<Rightarrow> EncLocalGradAndCostPart \<Rightarrow> sample list \<Rightarrow> nat \<Rightarrow>
    int \<Rightarrow> PublicKey \<Rightarrow> (big imap \<times> int) vl" where
  "logic_CalEncLocalGradient K localPart tagPart trainSet featureIndex accuracy pk = vbind (vnoise K) (\<lambda>ranNum.
     vbind (enc_rows (logic_gradient_row localPart tagPart featureIndex accuracy pk ranNum) 0 trainSet [])
       (\<lambda>encGradMap. vret (encGradMap, ranNum)))"

definition logic_CalEncLocalGradientTagPart :: "coin \<Rightarrow> RawLocalGradAndCostPart \<Rightarrow> EncLocalGradAndCostPart \<Rightarrow> sample list \<Rightarrow>
    nat \<Rightarrow> int \<Rightarrow> PublicKey \<Rightarrow> (big imap \<times> int) vl" where
  "logic_CalEncLocalGradientTagPart K tagPart otherPart trainSet featureIndex accuracy pk = vbind (vnoise K) (\<lambda>ranNum.
     vbind (enc_rows (logic_gradient_row_tag tagPart otherPart featureIndex accuracy pk ranNum) 0 trainSet [])
       (\<lambda>encGradMap. vret (encGradMap, ranNum)))"

definition lnHalf :: "int \<Rightarrow> int" where
  "lnHalf accuracy = fixed (2 * accuracy) LogHalf"

definition logic_cost_row :: "RawLocalGradAndCostPart \<Rightarrow> EncLocalGradAndCostPart \<Rightarrow> int \<Rightarrow> PublicKey \<Rightarrow> int \<Rightarrow>
    nat \<Rightarrow> int \<Rightarrow> sample \<Rightarrow> int vl" where
  "logic_cost_row localPart tagPart accuracy pk ranNum i ident r =
     (let scale = scale_factor accuracy in
      vbind (deref (map_of (RawPart1 localPart) ident)) (\<lambda>z1.
      vbind (vmult pk (nil_get (EncPart1 tagPart) ident) z1) (\<lambda>encValue1.
      vbind (vmult pk (nil_get (EncPart2 tagPart) ident) scale) (\<lambda>encValue2.
      vbind (deref (map_of (RawPart2 localPart) ident)) (\<lambda>z2.
      let rawValue3 = z2 * scale * -1 in
      vbind (vmult pk (nil_get (EncPart3 tagPart) ident) scale) (\<lambda>encValue4.
      vbind (vmult pk (Some encValue4) (-1)) (\<lambda>encValue4.
      vbind (vmult pk (nil_get (EncPart4 tagPart) ident) z1) (\<lambda>encValue5.
      vbind (vmult pk (Some encValue5) (-1)) (\<lambda>encValue5.
      of_cres (CypherPlainsAdd pk (CyphersAdd pk [encValue1, encValue2, encValue4, encValue5])
        [lnHalf accuracy, rawValue3, ranNum]))))))))))"

definition logic_cost_row_tag :: "RawLocalGradAndCostPart \<Rightarrow> EncLocalGradAndCostPart \<Rightarrow> int \<Rightarrow> PublicKey \<Rightarrow> int \<Rightarrow>
    nat \<Rightarrow> int \<Rightarrow> sample \<Rightarrow> int vl" where
  "logic_cost_row_tag localPart otherPart accuracy pk ranNum i ident r =
     (let scale = scale_factor accuracy in
      vbind (deref (map_of (RawPart1 localPart) ident)) (\<lambda>z1.
      vbind (vmult pk (nil_get (EncPart1 otherPart) ident) z1) (\<lambda>encValue1.
      vbind (deref (map_of (RawPart2 localPart) ident)) (\<lambda>z2.
      let rawValue2 = z2 * scale in
      vbind (vmult pk (nil_get (EncPart2 otherPart) ident) scale) (\<lambda>encValue3.
      vbind (vmult pk (Some encValue3) (-1)) (\<lambda>encValue3.
      vbind (deref (map_of (RawPart3 localPart) ident)) (\<lambda>z3.
      let rawValue4 = z3 * scale * -1 in
      vbind (deref (map_of (RawPart4 localPart) ident)) (\<lambda>z4.
      vbind (vmult pk (nil_get (EncPart1 otherPart) ident) z4) (\<lambda>encValue5.
      vbind (vmult pk (Some encValue5) (-1)) (\<lambda>encValue5.
      of_cres (CypherPlainsAdd pk (CyphersAdd pk [encValue1, encValue3, encValue5])
        [lnHalf accuracy, rawValue2, rawValue4, ranNum])))))))))))"

definition logic_EvaluateEncLocalCost :: "coin \<Rightarrow> RawLocalGradAndCostPart \<Rightarrow> EncLocalGradAndCostPart \<Rightarrow> sample list \<Rightarrow>
    int \<Rightarrow> PublicKey \<Rightarrow> (big imap \<times> int) vl" where
  "logic_EvaluateEncLocalCost K localPart tagPart trainSet accuracy pk = vbind (vnoise K) (\<lambda>ranNum.
     vbind (enc_rows (logic_cost_row localPart tagPart accuracy pk ranNum) 0 trainSet [])
       (\<lambda>costSum. vret (costSum, ranNum)))"

definition logic_EvaluateEncLocalCostTag :: "coin \<Rightarrow> RawLocalGradAndCostPart \<Rightarrow> EncLocalGradAndCostPart \<Rightarrow> sample list \<Rightarrow>
    int \<Rightarrow> PublicKey \<Rightarrow> (big imap \<times> int) vl" where
  "logic_EvaluateEncLocalCostTag K localPart otherPart trainSet accuracy pk = vbind (vnoise K) (\<lambda>ranNum.
     vbind (enc_rows (logic_cost_row_tag localPart otherPart accuracy pk ranNum) 0 trainSet [])
       (\<lambda>costSum. vret (costSum, ranNum)))"

section \<open>Counterparts\<close>

definition logic_DecryptGradient :: "big imap \<Rightarrow> PrivateKey \<Rightarrow> big imap vl" where
  "logic_DecryptGradient encGradMap sk = DecryptGradient encGradMap sk"

definition logic_RetrieveRealGradient :: "big imap \<Rightarrow> int \<Rightarrow> big \<Rightarrow> float64 imap vl" where
  "logic_RetrieveRealGradient decGradMap accuracy randomInt = RetrieveRealGradient decGradMap accuracy randomInt"

definition logic_CalGradientWithReg :: "visit \<Rightarrow> float64 list \<Rightarrow> float64 imap \<Rightarrow> nat \<Rightarrow> int \<Rightarrow> float64 \<Rightarrow> float64 vl" where
  "logic_CalGradientWithReg rng thetas gradMap featureIndex regMode regParam =
     CalGradientWithReg rng thetas gradMap featureIndex regMode regParam"

definition logic_DecryptCost :: "big imap \<Rightarrow> PrivateKey \<Rightarrow> big imap vl" where
  "logic_DecryptCost encCostMap sk = DecryptCost encCostMap sk"

definition logic_RetrieveRealCost :: "big imap \<Rightarrow> int \<Rightarrow> big \<Rightarrow> float64 imap vl" where
  "logic_RetrieveRealCost decCostMap accuracy randomInt = RetrieveRealCost decCostMap accuracy randomInt"

definition logic_CalCost :: "visit \<Rightarrow> float64 imap \<Rightarrow> float64" where
  "logic_CalCost rng costMap = fdiv (foldl fadd (Fin 0) (visited rng costMap))
     (fmul (Fin (-1)) (float_of (int (length costMap))))"

definition logic_PredictLocalPartNoTag :: "(string list \<Rightarrow> string list) \<Rightarrow> fmap \<Rightarrow> fmap \<Rightarrow> float64" where
  "logic_PredictLocalPartNoTag rng thetas input = PredictLocalPartNoTag rng thetas input"

definition logic_PredictLocalPartTag :: "(string list \<Rightarrow> string list) \<Rightarrow> fmap \<Rightarrow> fmap \<Rightarrow> float64" where
  "logic_PredictLocalPartTag rng thetas input = PredictLocalPartTag rng thetas input"

definition logic_StandardizeLocalInput :: "fmap \<Rightarrow> fmap \<Rightarrow> fmap \<Rightarrow> fmap" where
  "logic_StandardizeLocalInput xbars sigmas input = StandardizeLocalInput xbars sigmas input"

section \<open>The byte form of the encrypted part\<close>

text \<open>A map that was never made is nil; like an empty one it is read back as a map without entries.\<close>

definition LogicEncGradAndCostPartToBytes :: "EncLocalGradAndCostPart \<Rightarrow> blob" where
  "LogicEncGradAndCostPartToBytes e = Doc (JObj [(''EncPart1'', enc_imap (EncPart1 e)),
     (''EncPart2'', enc_imap (EncPart2 e)), (''EncPart3'', enc_imap (EncPart3 e)), (''EncPart4'', enc_imap (EncPart4 e)),
     (''EncPart5'', enc_imap (EncPart5 e)), (''EncRegCost'', enc_big (lg_EncRegCost e))])"

definition dec_EncLocalGradAndCostPart :: "json \<Rightarrow> EncLocalGradAndCostPart option" where
  "dec_EncLocalGradAndCostPart = dec_struct (\<lambda>kvs.
     Option.bind (fld dec_imap [] ''EncPart1'' kvs) (\<lambda>a. Option.bind (fld dec_imap [] ''EncPart2'' kvs) (\<lambda>b.
     Option.bind (fld dec_imap [] ''EncPart3'' kvs) (\<lambda>c. Option.bind (fld dec_imap [] ''EncPart4'' kvs) (\<lambda>d.
     Option.bind (fld dec_imap [] ''EncPart5'' kvs) (\<lambda>e. Option.bind (fld dec_big None ''EncRegCost'' kvs) (\<lambda>r.
     Some \<lparr>EncPart1 = a, EncPart2 = b, EncPart3 = c, EncPart4 = d, EncPart5 = e, lg_EncRegCost = r\<rparr>)))))))"

definition LogicEncGradAndCostPartFromBytes :: "env \<Rightarrow> blob \<Rightarrow> EncLocalGradAndCostPart vl" where
  "LogicEncGradAndCostPartFromBytes E b = checked (unmarshal E dec_EncLocalGradAndCostPart b)"

end
