(* ===== verification/VlTrain.thy ===== *)
theory VlTrain
  imports VlLogic
begin

text \<open>
  One round of training between two parties, in the form in which it passes over the network:
  \<^verbatim>\<open>dai/crypto/vl/linear/train.go\<close>, \<^verbatim>\<open>dai/crypto/vl/logic/train.go\<close> and
  \<^verbatim>\<open>dai/crypto/vl/common/train.go\<close>. Both \<^verbatim>\<open>train.go\<close> have the same text over different
  crypto functions, so they are one definition over a record of these functions.
\<close>

section \<open>Parameters\<close>

record TrainParams =
  tp_Label :: string
  tp_LabelName :: string
  tp_RegMode :: int
  tp_RegParam :: float64
  tp_Alpha :: float64
  tp_Amplitude :: float64
  tp_Accuracy :: int
  tp_IsTagPart :: bool
  tp_IdName :: string
  tp_BatchSize :: int

text \<open>The environment: the primitives of the platform, the parser of numbers and the order of visits.\<close>

record vl_env =
  ve_base :: env
  ve_parse :: parse_float
  ve_visit :: visit

section \<open>Batches\<close>

text \<open>The samples are rearranged by the hash of their place and the round.\<close>

definition place_hash :: "env \<Rightarrow> nat \<Rightarrow> nat \<Rightarrow> bytes" where
  "place_hash E rnd i = sha256 E (dec_nat i @ ''+'' @ dec_nat rnd)"

definition rand_order :: "env \<Rightarrow> nat \<Rightarrow> nat \<Rightarrow> nat list" where
  "rand_order E n rnd =
     (let hashes = map (place_hash E rnd) [0..<n];
          idxHashMap = foldl (\<lambda>m i. AList.update (place_hash E rnd i) i m) [] [0..<n] in
      map (\<lambda>h. the (map_of idxHashMap h)) (sort hashes))"

definition randTrainSet :: "env \<Rightarrow> 'a list \<Rightarrow> nat \<Rightarrow> 'a list" where
  "randTrainSet E trainSet rnd = map (\<lambda>idx. trainSet ! idx) (rand_order E (length trainSet) rnd)"

text \<open>The results are the samples of the round and the sample set, which is rearranged in place.\<close>

definition GetBatchSetBySize :: "env \<Rightarrow> 'a list \<Rightarrow> int \<Rightarrow> nat \<Rightarrow> bool \<Rightarrow> ('a list \<times> 'a list) vl" where
  "GetBatchSetBySize E trainSet batchSize rnd needCheckReorder =
     (if batchSize = 0 \<or> batchSize \<ge> int (length trainSet) then vret (trainSet, trainSet)
      else if batchSize < 0 then vpanic
      else let size = nat batchSize; segmentIdx = rnd mod (length trainSet div size);
               trainSet = (if needCheckReorder \<and> segmentIdx = 0 then randTrainSet E trainSet rnd else trainSet);
               start = segmentIdx * size in
           vret (take size (drop start trainSet), trainSet))"

section \<open>The functions of an algorithm\<close>

text \<open>The flag says whether the party has the label.\<close>

record ('raw, 'enc) vl_algo =
  al_train_set :: "vl_env \<Rightarrow> string list list \<Rightarrow> TrainParams \<Rightarrow> TrainDataSet vl"
  al_local :: "bool \<Rightarrow> coin \<Rightarrow> float64 list \<Rightarrow> sample list \<Rightarrow> int \<Rightarrow> int \<Rightarrow> float64 \<Rightarrow> PublicKey \<Rightarrow> ('raw \<times> 'enc) vl"
  al_to_bytes :: "'enc \<Rightarrow> blob"
  al_from_bytes :: "env \<Rightarrow> blob \<Rightarrow> 'enc vl"
  al_gradient :: "bool \<Rightarrow> coin \<Rightarrow> 'raw \<Rightarrow> 'enc \<Rightarrow> sample list \<Rightarrow> nat \<Rightarrow> int \<Rightarrow> PublicKey \<Rightarrow> (big imap \<times> int) vl"
  al_cost :: "bool \<Rightarrow> coin \<Rightarrow> 'raw \<Rightarrow> 'enc \<Rightarrow> sample list \<Rightarrow> int \<Rightarrow> PublicKey \<Rightarrow> (big imap \<times> int) vl"
  al_mean_cost :: "visit \<Rightarrow> float64 imap \<Rightarrow> float64"

definition linear_GetTrainDataSetFromFile :: "vl_env \<Rightarrow> string list list \<Rightarrow> TrainParams \<Rightarrow> TrainDataSet vl" where
  "linear_GetTrainDataSetFromFile E fileRows params =
     vbind (ImportFeaturesForLinReg (ve_parse E) fileRows) (\<lambda>features.
     let standardizedData = StandardizeDataSet (ve_visit E) features in
     if tp_IsTagPart params then PreProcessDataSet standardizedData (tp_Label params)
     else PreProcessDataSetNoTag standardizedData)"

definition logic_GetTrainDataSetFromFile :: "vl_env \<Rightarrow> string list list \<Rightarrow> TrainParams \<Rightarrow> TrainDataSet vl" where
  "logic_GetTrainDataSetFromFile E fileRows params =
     vbind (ImportFeaturesForLogReg (ve_parse E) fileRows (tp_Label params) (tp_LabelName params)) (\<lambda>features.
     let standardizedData = logic_StandardizeDataSet (ve_visit E) features (tp_Label params) in
     if tp_IsTagPart params then logic_PreProcessDataSet standardizedData (tp_Label params)
     else logic_PreProcessDataSetNoTag standardizedData)"

definition linear_algo :: "(RawLocalGradientPart, EncLocalGradientPart) vl_algo" where
  "linear_algo = \<lparr>al_train_set = linear_GetTrainDataSetFromFile,
     al_local = (\<lambda>t. if t then CalLocalGradientTagPart else CalLocalGradientPart),
     al_to_bytes = LinearEncGradientPartToBytes, al_from_bytes = LinearEncGradientPartFromBytes,
     al_gradient = (\<lambda>t. if t then CalEncLocalGradientTagPart else CalEncLocalGradient),
     al_cost = (\<lambda>t. if t then EvaluateEncLocalCostTag else EvaluateEncLocalCost), al_mean_cost = CalCost\<rparr>"

definition logic_algo :: "(RawLocalGradAndCostPart, EncLocalGradAndCostPart) vl_algo" where
  "logic_algo = \<lparr>al_train_set = logic_GetTrainDataSetFromFile,
     al_local = (\<lambda>t. if t then CalLocalGradAndCostTagPart else CalLocalGradAndCostPart),
     al_to_bytes = LogicEncGradAndCostPartToBytes, al_from_bytes = LogicEncGradAndCostPartFromBytes,
     al_gradient = (\<lambda>t. if t then logic_CalEncLocalGradientTagPart else logic_CalEncLocalGradient),
     al_cost = (\<lambda>t. if t then logic_EvaluateEncLocalCostTag else logic_EvaluateEncLocalCost),
     al_mean_cost = logic_CalCost\<rparr>"

section \<open>The steps of a round\<close>

definition InitThetas :: "TrainDataSet \<Rightarrow> TrainParams \<Rightarrow> float64 list vl" where
  "InitThetas trainSet params = (case td_TrainSet trainSet of [] \<Rightarrow> vpanic
     | r # _ \<Rightarrow> let k = (if tp_IsTagPart params then 2 else 1) in
         if length r < k then vpanic else vret (replicate (length r - k) (Fin 0)))"

definition CalLocalGradientAndCost :: "('raw, 'enc) vl_algo \<Rightarrow> vl_env \<Rightarrow> coin \<Rightarrow> TrainDataSet \<Rightarrow> float64 list \<Rightarrow> TrainParams \<Rightarrow>
    PublicKey \<Rightarrow> nat \<Rightarrow> ('raw \<times> blob \<times> sample list) vl" where
  "CalLocalGradientAndCost A E K trainSet thetas params pk rnd =
     vbind (GetBatchSetBySize (ve_base E) (td_TrainSet trainSet) (tp_BatchSize params) rnd True) (\<lambda>(trainSetThisRound, newSet).
     vbind (al_local A (tp_IsTagPart params) K thetas trainSetThisRound (tp_Accuracy params) (tp_RegMode params)
       (tp_RegParam params) pk) (\<lambda>(rawPart, encPart).
     vret (rawPart, al_to_bytes A encPart, newSet)))"

fun enc_gradients :: "('raw, 'enc) vl_algo \<Rightarrow> (nat \<Rightarrow> coin) \<Rightarrow> TrainParams \<Rightarrow> 'raw \<Rightarrow> 'enc \<Rightarrow> sample list \<Rightarrow> PublicKey \<Rightarrow>
    nat \<Rightarrow> nat \<Rightarrow> (big imap list \<times> int list) vl" where
  "enc_gradients A Ks params rawPart otherPart trainSet pk i 0 = vret ([], [])"
| "enc_gradients A Ks params rawPart otherPart trainSet pk i (Suc n) =
     vbind (al_gradient A (tp_IsTagPart params) (Ks i) rawPart otherPart trainSet i (tp_Accuracy params) pk) (\<lambda>(g, noise).
     vbind (enc_gradients A Ks params rawPart otherPart trainSet pk (i + 1) n) (\<lambda>(gs, noises).
     vret (g # gs, noise # noises)))"

text \<open>The coins are numbered by the features; the last ones are for the cost.\<close>

definition CalEncGradientAndCost :: "('raw, 'enc) vl_algo \<Rightarrow> vl_env \<Rightarrow> (nat \<Rightarrow> coin) \<Rightarrow> 'raw \<Rightarrow> blob \<Rightarrow> TrainDataSet \<Rightarrow>
    TrainParams \<Rightarrow> blob \<Rightarrow> float64 list \<Rightarrow> nat \<Rightarrow> (blob \<times> blob \<times> int list \<times> int) vl" where
  "CalEncGradientAndCost A E Ks rawPart otherPartBytes trainSet params publicKeyBytes thetas rnd =
     vbind (al_from_bytes A (ve_base E) otherPartBytes) (\<lambda>otherEncPart.
     vbind (HomoPubkeyFromBytes (ve_base E) publicKeyBytes) (\<lambda>publicKey.
     vbind (GetBatchSetBySize (ve_base E) (td_TrainSet trainSet) (tp_BatchSize params) rnd False) (\<lambda>(trainSetThisRound, _).
     vbind (enc_gradients A Ks params rawPart otherEncPart trainSetThisRound publicKey 0 (length thetas)) (\<lambda>(encGradList, gradientNoise).
     vbind (al_cost A (tp_IsTagPart params) (Ks (length thetas)) rawPart otherEncPart trainSetThisRound
       (tp_Accuracy params) publicKey) (\<lambda>(encCost, costNoise).
     vret (GradListToBytes encGradList, CostToBytes encCost, gradientNoise, costNoise))))))"

fun decrypt_all :: "PrivateKey \<Rightarrow> big imap list \<Rightarrow> big imap list vl" where
  "decrypt_all sk [] = vret []"
| "decrypt_all sk (g # gs) = vbind (DecryptGradient g sk) (\<lambda>d. vbind (decrypt_all sk gs) (\<lambda>ds. vret (d # ds)))"

definition DecGradientAndCost :: "vl_env \<Rightarrow> blob \<Rightarrow> blob \<Rightarrow> PrivateKey \<Rightarrow> (blob \<times> blob) vl" where
  "DecGradientAndCost E encGradsBytes encCostBytes sk =
     vbind (GradListFromBytes (ve_base E) encGradsBytes) (\<lambda>encGrads.
     vbind (decrypt_all sk encGrads) (\<lambda>decGradList.
     vbind (CostFromBytes (ve_base E) encCostBytes) (\<lambda>encCost.
     vbind (DecryptCost encCost sk) (\<lambda>cost.
     vret (GradListToBytes decGradList, CostToBytes cost)))))"

definition UpdateCost :: "('raw, 'enc) vl_algo \<Rightarrow> vl_env \<Rightarrow> blob \<Rightarrow> big \<Rightarrow> TrainParams \<Rightarrow> float64 vl" where
  "UpdateCost A E decCostBytes costNoise params =
     vbind (CostFromBytes (ve_base E) decCostBytes) (\<lambda>costMap.
     vbind (RetrieveRealCost costMap (tp_Accuracy params) costNoise) (\<lambda>realCost.
     vret (al_mean_cost A (ve_visit E) realCost)))"

text \<open>The regularization looks at the parameters before the round.\<close>

fun update_thetas :: "vl_env \<Rightarrow> TrainParams \<Rightarrow> float64 list \<Rightarrow> big imap list \<Rightarrow> int list \<Rightarrow> nat \<Rightarrow> nat \<Rightarrow> float64 list vl" where
  "update_thetas E params thetas grads noises i 0 = vret []"
| "update_thetas E params thetas grads noises i (Suc n) =
     vbind (if i < length grads then vret (grads ! i) else vpanic) (\<lambda>g.
     vbind (if i < length noises then vret (noises ! i) else vpanic) (\<lambda>noise.
     vbind (RetrieveRealGradient g (tp_Accuracy params) (Some noise)) (\<lambda>realGradient.
     vbind (CalGradientWithReg (ve_visit E) thetas realGradient i (tp_RegMode params) (tp_RegParam params)) (\<lambda>grad.
     vbind (update_thetas E params thetas grads noises (i + 1) n) (\<lambda>rest.
     vret (fsub (thetas ! i) (fmul (tp_Alpha params) grad) # rest))))))"

definition UpdateGradient :: "vl_env \<Rightarrow> blob \<Rightarrow> int list \<Rightarrow> float64 list \<Rightarrow> TrainParams \<Rightarrow> float64 list vl" where
  "UpdateGradient E decGradBytes gradientNoise thetas params =
     vbind (GradListFromBytes (ve_base E) decGradBytes) (\<lambda>grads.
     update_thetas E params thetas grads gradientNoise 0 (length thetas))"

definition StopTraining :: "float64 \<Rightarrow> float64 \<Rightarrow> TrainParams \<Rightarrow> bool" where
  "StopTraining lastCost cost params = flt (fabs (fsub cost lastCost)) (tp_Amplitude params)"

text \<open>The functions of the other \<^verbatim>\<open>train.go\<close>.\<close>

definition logic_InitThetas :: "TrainDataSet \<Rightarrow> TrainParams \<Rightarrow> float64 list vl" where
  "logic_InitThetas trainSet params = InitThetas trainSet params"

definition logic_CalLocalGradientAndCost :: "vl_env \<Rightarrow> coin \<Rightarrow> TrainDataSet \<Rightarrow> float64 list \<Rightarrow> TrainParams \<Rightarrow>
    PublicKey \<Rightarrow> nat \<Rightarrow> (RawLocalGradAndCostPart \<times> blob \<times> sample list) vl" where
  "logic_CalLocalGradientAndCost E K trainSet thetas params pk rnd = CalLocalGradientAndCost logic_algo E K trainSet thetas params pk rnd"

definition logic_CalEncGradientAndCost :: "vl_env \<Rightarrow> (nat \<Rightarrow> coin) \<Rightarrow> RawLocalGradAndCostPart \<Rightarrow> blob \<Rightarrow> TrainDataSet \<Rightarrow>
    TrainParams \<Rightarrow> blob \<Rightarrow> float64 list \<Rightarrow> nat \<Rightarrow> (blob \<times> blob \<times> int list \<times> int) vl" where
  "logic_CalEncGradientAndCost E Ks rawPart otherPartBytes trainSet params publicKeyBytes thetas rnd =
     CalEncGradientAndCost logic_algo E Ks rawPart otherPartBytes trainSet params publicKeyBytes thetas rnd"

definition logic_DecGradientAndCost :: "vl_env \<Rightarrow> blob \<Rightarrow> blob \<Rightarrow> PrivateKey \<Rightarrow> (blob \<times> blob) vl" where
  "logic_DecGradientAndCost E encGradsBytes encCostBytes sk = DecGradientAndCost E encGradsBytes encCostBytes sk"

definition logic_UpdateCost :: "vl_env \<Rightarrow> blob \<Rightarrow> big \<Rightarrow> TrainParams \<Rightarrow> float64 vl" where
  "logic_UpdateCost E decCostBytes costNoise params = UpdateCost logic_algo E decCostBytes costNoise params"

definition logic_UpdateGradient :: "vl_env \<Rightarrow> blob \<Rightarrow> int list \<Rightarrow> float64 list \<Rightarrow> TrainParams \<Rightarrow> float64 list vl" where
  "logic_UpdateGradient E decGradBytes gradientNoise thetas params = UpdateGradient E decGradBytes gradientNoise thetas params"

definition logic_StopTraining :: "float64 \<Rightarrow> float64 \<Rightarrow> TrainParams \<Rightarrow> bool" where
  "logic_StopTraining lastCost cost params = StopTraining lastCost cost params"

lemmas logic_train_defs = logic_InitThetas_def logic_CalLocalGradientAndCost_def logic_CalEncGradientAndCost_def
  logic_DecGradientAndCost_def logic_UpdateCost_def logic_UpdateGradient_def logic_StopTraining_def

section \<open>Batches of two parties\<close>

lemma randTrainSet_map: "map f (randTrainSet E xs rnd) = map (\<lambda>i. f (xs ! i)) (rand_order E (length xs) rnd)"
  by (simp add: randTrainSet_def)

lemma idx_map: "map_of (foldl (\<lambda>m i. AList.update (h i) i m) m0 ns) k =
    (case filter (\<lambda>i. h i = k) ns of [] \<Rightarrow> map_of m0 k | xs \<Rightarrow> Some (last xs))"
proof (induction ns rule: rev_induct)
  case (snoc n ns)
  then show ?case by (auto simp: update_conv' split: list.splits)
qed simp

lemma rand_order_bounds: "i \<in> set (rand_order E n rnd) \<Longrightarrow> i < n"
proof -
  assume "i \<in> set (rand_order E n rnd)"
  then obtain j where j: "j < n" "i = the (map_of (foldl (\<lambda>m i. AList.update (place_hash E rnd i) i m) [] [0..<n]) (place_hash E rnd j))"
    by (auto simp: rand_order_def Let_def)
  let ?xs = "filter (\<lambda>i. place_hash E rnd i = place_hash E rnd j) [0..<n]"
  have "?xs \<noteq> []" using j(1) by (auto simp: filter_empty_conv)
  moreover have "i = last ?xs" using calculation unfolding j(2) idx_map by (cases ?xs) simp_all
  ultimately have "i \<in> set ?xs" using last_in_set by blast
  then show ?thesis by simp
qed

text \<open>Unless two places have the same hash the samples are only rearranged.\<close>

lemma rand_order_perm:
  assumes "inj_on (place_hash E rnd) {..<n}"
  shows "mset (rand_order E n rnd) = mset [0..<n]"
proof -
  have eq: "the (map_of (foldl (\<lambda>m i. AList.update (place_hash E rnd i) i m) [] [0..<n]) (place_hash E rnd j)) = j"
    if "j < n" for j
  proof -
    have "filter (\<lambda>i. place_hash E rnd i = place_hash E rnd j) [0..<n] = filter (\<lambda>i. i = j) [0..<n]"
      using assms that by (intro filter_cong) (auto simp: inj_on_def)
    also have "filter (\<lambda>i. i = j) [0..<n] = [j]" using that by (induction n) auto
    finally show ?thesis by (simp add: idx_map)
  qed
  have "mset (rand_order E n rnd) = image_mset (\<lambda>h. the (map_of
      (foldl (\<lambda>m i. AList.update (place_hash E rnd i) i m) [] [0..<n]) h)) (image_mset (place_hash E rnd) (mset [0..<n]))"
    by (simp add: rand_order_def Let_def)
  also have "\<dots> = image_mset (\<lambda>j. j) (mset [0..<n])"
    unfolding image_mset.compositionality by (rule image_mset_cong) (use eq in auto)
  finally show ?thesis by simp
qed

lemma mset_randTrainSet:
  "inj_on (place_hash E rnd) {..<length xs} \<Longrightarrow> mset (randTrainSet E xs rnd) = mset xs"
proof -
  assume "inj_on (place_hash E rnd) {..<length xs}"
  then have "mset (randTrainSet E xs rnd) = image_mset (\<lambda>i. xs ! i) (mset [0..<length xs])"
    by (simp add: randTrainSet_def rand_order_perm)
  also have "\<dots> = mset (map (\<lambda>i. xs ! i) [0..<length xs])" by simp
  finally show ?thesis by (simp add: map_nth)
qed

text \<open>The second look at the batch of a round sees the same samples.\<close>

lemma batch_again:
  assumes "GetBatchSetBySize E xs bs rnd True = Some (Inr (batch, ys))"
  shows "GetBatchSetBySize E ys bs rnd False = Some (Inr (batch, ys))"
proof -
  have "length (randTrainSet E xs rnd) = length xs" by (simp add: randTrainSet_def rand_order_def Let_def)
  with assms show ?thesis
    by (auto simp: GetBatchSetBySize_def Let_def vl_ok split: if_splits)
qed

lemma batch_map:
  assumes "GetBatchSetBySize E xs bs rnd b = Some (Inr (batch, ys))"
  shows "GetBatchSetBySize E (map f xs) bs rnd b = Some (Inr (map f batch, map f ys))"
proof -
  have "randTrainSet E (map f xs) rnd = map f (randTrainSet E xs rnd)"
    using rand_order_bounds by (auto simp: randTrainSet_def)
  with assms show ?thesis
    by (auto simp: GetBatchSetBySize_def Let_def vl_ok take_map drop_map split: if_splits)
qed

text \<open>What does not depend on more than a column of the samples is the same for parties that share it.\<close>

lemma batches_share:
  assumes "GetBatchSetBySize E xs bs rnd b = Some (Inr (batch, ys))"
    and "GetBatchSetBySize E xs' bs rnd b = Some (Inr (batch', ys'))" and "map f xs = map g xs'"
  shows "map f batch = map g batch'" and "map f ys = map g ys'"
  using batch_map[OF assms(1), of f] batch_map[OF assms(2), of g] assms(3) by simp_all

end
