(* ===== verification/VlLogicPlain.thy ===== *)
theory VlLogicPlain
  imports VlTrain
begin

text \<open>
  What the encrypted numbers of logistic regression stand for: the parts of both parties, the
  gradients and the costs, as integers.
\<close>

definition logic_match :: "int \<Rightarrow> RawLocalGradAndCostPart \<Rightarrow> EncLocalGradAndCostPart \<Rightarrow> bool" where
  "logic_match N raw enc \<longleftrightarrow> matches N (RawPart1 raw) (EncPart1 enc) \<and> matches N (RawPart2 raw) (EncPart2 enc) \<and>
     matches N (RawPart3 raw) (EncPart3 enc) \<and> matches N (RawPart4 raw) (EncPart4 enc) \<and>
     matches N (RawPart5 raw) (EncPart5 enc)"

definition logic_keys :: "EncLocalGradAndCostPart \<Rightarrow> bool" where
  "logic_keys enc \<longleftrightarrow> good_keys (EncPart1 enc) \<and> good_keys (EncPart2 enc) \<and> good_keys (EncPart3 enc) \<and>
     good_keys (EncPart4 enc) \<and> good_keys (EncPart5 enc)"

lemma ciphers_unchecked:
  assumes "key_from p q sk" and "vencrypt_unchecked (sk_PublicKey sk) ds m = Some (Inr b)"
  shows "ciphers (pk_N (sk_PublicKey sk)) m b"
proof (cases b)
  case (Some c)
  then have "vencrypt (sk_PublicKey sk) ds m = Some (Inr c)"
    using assms(2) by (auto simp: vencrypt_unchecked_def vl_ok vret_def vbind_def split: option.splits sum.splits vl_fault.splits)
  with means_encrypt[OF assms(1)] Some show ?thesis by simp
qed (simp add: ciphers_def)

lemma logic_tag_rows_match:
  assumes "key_from p q sk"
    and "logic_tag_rows K (sk_PublicKey sk) accuracy thetas i rows (raw, enc) = Some (Inr (raw', enc'))"
    and "logic_match (pk_N (sk_PublicKey sk)) raw enc" and "logic_keys enc"
  shows "logic_match (pk_N (sk_PublicKey sk)) raw' enc' \<and> logic_keys enc'"
  using assms(2-4)
proof (induction rows arbitrary: i raw enc)
  case (Cons r rows)
  let ?pk = "sk_PublicKey sk"
  from Cons.prems(1) obtain ident v c1 c2 c3 c4 c5 z1 z2 z3 z4 z5 where v: "predict thetas r = Some (Inr (ident, v))"
    and c: "vencrypt ?pk (cn_draw K i 0) z1 = Some (Inr c1)" "vencrypt ?pk (cn_draw K i 1) z2 = Some (Inr c2)"
      "vencrypt ?pk (cn_draw K i 2) z3 = Some (Inr c3)" "vencrypt ?pk (cn_draw K i 3) z4 = Some (Inr c4)"
      "vencrypt_unchecked ?pk (cn_draw K i 4) z5 = Some (Inr c5)"
    and run: "logic_tag_rows K ?pk accuracy thetas (i + 1) rows
       (raw\<lparr>RawPart1 := AList.update ident z1 (RawPart1 raw), RawPart2 := AList.update ident z2 (RawPart2 raw),
            RawPart3 := AList.update ident z3 (RawPart3 raw), RawPart4 := AList.update ident z4 (RawPart4 raw),
            RawPart5 := AList.update ident z5 (RawPart5 raw)\<rparr>,
        enc\<lparr>EncPart1 := AList.update ident (Some c1) (EncPart1 enc), EncPart2 := AList.update ident (Some c2) (EncPart2 enc),
            EncPart3 := AList.update ident (Some c3) (EncPart3 enc), EncPart4 := AList.update ident (Some c4) (EncPart4 enc),
            EncPart5 := AList.update ident c5 (EncPart5 enc)\<rparr>) = Some (Inr (raw', enc'))"
    by (auto simp: vl_ok Let_def)
  have "in_int64 ident" using v by (auto simp: predict_def vl_ok row_id_range split: list.splits)
  note m = c(1-4)[THEN means_encrypt[OF assms(1)]] ciphers_unchecked[OF assms(1) c(5)]
  show ?case
    by (rule Cons.IH[OF run]) (use Cons.prems m \<open>in_int64 ident\<close> in
      \<open>simp_all add: logic_match_def logic_keys_def matches_update good_keys_update\<close>)
qed (simp add: vl_ok)

lemma logic_rows_match:
  assumes "key_from p q sk"
    and "logic_rows K (sk_PublicKey sk) accuracy thetas i rows (raw, enc) = Some (Inr (raw', enc'))"
    and "logic_match (pk_N (sk_PublicKey sk)) raw enc" and "logic_keys enc"
  shows "logic_match (pk_N (sk_PublicKey sk)) raw' enc' \<and> logic_keys enc'"
  using assms(2-4)
proof (induction rows arbitrary: i raw enc)
  case (Cons r rows)
  let ?pk = "sk_PublicKey sk"
  from Cons.prems(1) obtain ident v c1 c2 z1 z2 where v: "predictNoTag thetas r = Some (Inr (ident, v))"
    and c: "vencrypt ?pk (cn_draw K i 0) z1 = Some (Inr c1)" "vencrypt ?pk (cn_draw K i 1) z2 = Some (Inr c2)"
    and run: "logic_rows K ?pk accuracy thetas (i + 1) rows
       (raw\<lparr>RawPart1 := AList.update ident z1 (RawPart1 raw), RawPart2 := AList.update ident z2 (RawPart2 raw)\<rparr>,
        enc\<lparr>EncPart1 := AList.update ident (Some c1) (EncPart1 enc), EncPart2 := AList.update ident (Some c2) (EncPart2 enc)\<rparr>) =
        Some (Inr (raw', enc'))"
    by (auto simp: vl_ok Let_def)
  have "in_int64 ident" using v by (auto simp: predictNoTag_def vl_ok row_id_range)
  note m = c[THEN means_encrypt[OF assms(1)]]
  show ?case
    by (rule Cons.IH[OF run]) (use Cons.prems m \<open>in_int64 ident\<close> in
      \<open>simp_all add: logic_match_def logic_keys_def matches_update good_keys_update\<close>)
qed (simp add: vl_ok)

lemma empty_logic_part_match [simp]:
  "logic_match N (fst empty_logic_part) (snd empty_logic_part)" "logic_keys (snd empty_logic_part)"
  by (simp_all add: empty_logic_part_def logic_match_def logic_keys_def good_keys_def)

lemma logic_reg_part_match:
  assumes "logic_reg_part K thetas rows accuracy regMode regParam pk (raw, enc) = Some (Inr (raw', enc'))"
    and "logic_match N raw enc" and "logic_keys enc"
  shows "logic_match N raw' enc' \<and> logic_keys enc'"
  using assms by (auto simp: logic_reg_part_def Let_def vl_ok logic_match_def logic_keys_def)

lemma logic_local_match:
  assumes "key_from p q sk" and "al_local logic_algo t K thetas rows accuracy regMode regParam (sk_PublicKey sk) = Some (Inr (raw, enc))"
  shows "logic_match (pk_N (sk_PublicKey sk)) raw enc \<and> logic_keys enc"
proof -
  obtain f raw1 enc1 where "f = logic_tag_rows \<or> f = logic_rows"
    and f: "f K (sk_PublicKey sk) accuracy thetas 0 rows empty_logic_part = Some (Inr (raw1, enc1))"
    and r: "logic_reg_part K thetas rows accuracy regMode regParam (sk_PublicKey sk) (raw1, enc1) = Some (Inr (raw, enc))"
    using assms(2)
    by (auto simp: logic_algo_def CalLocalGradAndCostTagPart_def CalLocalGradAndCostPart_def vl_ok split: if_splits)
  then have "logic_match (pk_N (sk_PublicKey sk)) raw1 enc1 \<and> logic_keys enc1"
    using logic_tag_rows_match[OF assms(1), of K accuracy thetas 0 rows] logic_rows_match[OF assms(1), of K accuracy thetas 0 rows]
      empty_logic_part_match by (metis prod.collapse)
  with logic_reg_part_match[OF r] show ?thesis by blast
qed

definition sorted_logic :: "EncLocalGradAndCostPart \<Rightarrow> EncLocalGradAndCostPart" where
  "sorted_logic e = e\<lparr>EncPart1 := sorted_imap (EncPart1 e), EncPart2 := sorted_imap (EncPart2 e),
     EncPart3 := sorted_imap (EncPart3 e), EncPart4 := sorted_imap (EncPart4 e), EncPart5 := sorted_imap (EncPart5 e)\<rparr>"

lemma LogicEncGradAndCostPart_roundtrip:
  "logic_keys e \<Longrightarrow> LogicEncGradAndCostPartFromBytes E (LogicEncGradAndCostPartToBytes e) = vret (sorted_logic e)"
  by (cases e) (simp add: LogicEncGradAndCostPartFromBytes_def LogicEncGradAndCostPartToBytes_def sorted_logic_def
      dec_EncLocalGradAndCostPart_def dec_struct_def fld_def checked_def dec_enc_imap logic_keys_def)

lemma logic_match_sorted: "logic_keys e \<Longrightarrow> logic_match N raw e \<Longrightarrow> logic_match N raw (sorted_logic e)"
  by (simp add: logic_match_def logic_keys_def good_keys_def sorted_logic_def matches_cong[OF _ map_of_sorted_imap])

section \<open>Gradients\<close>

definition logic_plain_gradient :: "bool \<Rightarrow> int \<Rightarrow> RawLocalGradAndCostPart \<Rightarrow> RawLocalGradAndCostPart \<Rightarrow> nat \<Rightarrow> int \<Rightarrow> sample \<Rightarrow> int" where
  "logic_plain_gradient t accuracy own other f ident r =
     (let x = r ! (f + 1); (partner, tagged) = (if t then (other, own) else (own, other)) in
      the (map_of (RawPart1 partner) ident) * quarter_factor accuracy x +
      the (map_of (RawPart5 tagged) ident) * fixed accuracy x)"

lemma logic_gradient_row_means:
  assumes key: "key_from p q sk" and other: "logic_match (pk_N (sk_PublicKey sk)) otherRaw other"
    and run: "logic_gradient_row own other f accuracy (sk_PublicKey sk) n i ident r = Some (Inr c)"
  shows "means (pk_N (sk_PublicKey sk)) (logic_plain_gradient False accuracy own otherRaw f ident r + n) c"
proof -
  obtain x z e where x: "cell r (f + 1) = Some (Inr x)" and z: "map_of (RawPart1 own) ident = Some z"
    and e: "vmult (sk_PublicKey sk) (nil_get (EncPart5 other) ident) (fixed accuracy x) = Some (Inr e)"
    and c: "CypherPlainsAdd (sk_PublicKey sk) e [z * quarter_factor accuracy x, n] = Inr c"
    using run unfolding logic_gradient_row_def Let_def vl_ok by (elim exE conjE) (rule that; assumption)
  have "matches (pk_N (sk_PublicKey sk)) (RawPart5 otherRaw) (EncPart5 other)" using other by (simp add: logic_match_def)
  note m = means_plains[OF key entry_mult(1)[OF key this e] c]
  have "x = r ! (f + 1)" using x by (simp add: cell_def vl_ok split: if_splits)
  then have "logic_plain_gradient False accuracy own otherRaw f ident r + n =
      the (map_of (RawPart5 otherRaw) ident) * fixed accuracy x + sum_list [z * quarter_factor accuracy x, n]"
    using z by (simp add: logic_plain_gradient_def Let_def)
  with m show ?thesis by (simp only:)
qed

lemma logic_gradient_row_tag_means:
  assumes key: "key_from p q sk" and other: "logic_match (pk_N (sk_PublicKey sk)) otherRaw other"
    and run: "logic_gradient_row_tag own other f accuracy (sk_PublicKey sk) n i ident r = Some (Inr c)"
  shows "means (pk_N (sk_PublicKey sk)) (logic_plain_gradient True accuracy own otherRaw f ident r + n) c"
proof -
  obtain x z e where x: "cell r (f + 1) = Some (Inr x)" and z: "map_of (RawPart5 own) ident = Some z"
    and e: "vmult (sk_PublicKey sk) (nil_get (EncPart1 other) ident) (quarter_factor accuracy x) = Some (Inr e)"
    and c: "CypherPlainsAdd (sk_PublicKey sk) e [z * fixed accuracy x, n] = Inr c"
    using run unfolding logic_gradient_row_tag_def Let_def vl_ok by (elim exE conjE) (rule that; assumption)
  have "matches (pk_N (sk_PublicKey sk)) (RawPart1 otherRaw) (EncPart1 other)" using other by (simp add: logic_match_def)
  note m = means_plains[OF key entry_mult(1)[OF key this e] c]
  have "x = r ! (f + 1)" using x by (simp add: cell_def vl_ok split: if_splits)
  then have "logic_plain_gradient True accuracy own otherRaw f ident r + n =
      the (map_of (RawPart1 otherRaw) ident) * quarter_factor accuracy x + sum_list [z * fixed accuracy x, n]"
    using z by (simp add: logic_plain_gradient_def Let_def)
  with m show ?thesis by (simp only:)
qed

section \<open>Costs\<close>

definition logic_plain_cost :: "bool \<Rightarrow> int \<Rightarrow> RawLocalGradAndCostPart \<Rightarrow> RawLocalGradAndCostPart \<Rightarrow> int \<Rightarrow> int" where
  "logic_plain_cost t accuracy own other ident =
     (let s = scale_factor accuracy; (a, b) = (if t then (other, own) else (own, other)) in
      lnHalf accuracy + the (map_of (RawPart1 a) ident) * the (map_of (RawPart1 b) ident) +
      (the (map_of (RawPart2 b) ident) - the (map_of (RawPart2 a) ident) - the (map_of (RawPart3 b) ident)) * s -
      the (map_of (RawPart1 a) ident) * the (map_of (RawPart4 b) ident))"

lemma logic_plain_cost_commute: "logic_plain_cost (\<not> t) accuracy own other ident = logic_plain_cost t accuracy other own ident"
  by (simp add: logic_plain_cost_def)

lemma logic_cost_row_means:
  assumes key: "key_from p q sk" and other: "logic_match (pk_N (sk_PublicKey sk)) otherRaw other"
    and run: "logic_cost_row own other accuracy (sk_PublicKey sk) n i ident r = Some (Inr c)"
  shows "means (pk_N (sk_PublicKey sk)) (logic_plain_cost False accuracy own otherRaw ident + n) c"
proof -
  let ?pk = "sk_PublicKey sk" let ?s = "scale_factor accuracy" let ?r = "\<lambda>p. the (map_of (p otherRaw) ident)"
  obtain z1 e1 e2 z2 e4' e4 e5' e5 where z1: "map_of (RawPart1 own) ident = Some z1"
    and e1: "vmult ?pk (nil_get (EncPart1 other) ident) z1 = Some (Inr e1)"
    and e2: "vmult ?pk (nil_get (EncPart2 other) ident) ?s = Some (Inr e2)"
    and z2: "map_of (RawPart2 own) ident = Some z2"
    and e4': "vmult ?pk (nil_get (EncPart3 other) ident) ?s = Some (Inr e4')" and e4: "vmult ?pk (Some e4') (-1) = Some (Inr e4)"
    and e5': "vmult ?pk (nil_get (EncPart4 other) ident) z1 = Some (Inr e5')" and e5: "vmult ?pk (Some e5') (-1) = Some (Inr e5)"
    and c: "CypherPlainsAdd ?pk (CyphersAdd ?pk [e1, e2, e4, e5]) [lnHalf accuracy, z2 * ?s * -1, n] = Inr c"
    using run unfolding logic_cost_row_def Let_def vl_ok by (elim exE conjE) (rule that; assumption)
  note m0 = other[unfolded logic_match_def, THEN conjunct1] other[unfolded logic_match_def, THEN conjunct2, THEN conjunct1]
    other[unfolded logic_match_def, THEN conjunct2, THEN conjunct2, THEN conjunct1]
    other[unfolded logic_match_def, THEN conjunct2, THEN conjunct2, THEN conjunct2, THEN conjunct1]
  note m = entry_mult(1)[OF key m0(1) e1] entry_mult(1)[OF key m0(2) e2]
    means_mult[OF key entry_mult(1)[OF key m0(3) e4'] e4] means_mult[OF key entry_mult(1)[OF key m0(4) e5'] e5]
  have "means (pk_N ?pk) (sum_list [?r RawPart1 * z1, ?r RawPart2 * ?s, ?r RawPart3 * ?s * -1, ?r RawPart4 * z1 * -1])
      (CyphersAdd ?pk [e1, e2, e4, e5])"
    by (rule means_sum) (use m in simp)
  note m = means_plains[OF key this c]
  have "logic_plain_cost False accuracy own otherRaw ident + n =
      sum_list [?r RawPart1 * z1, ?r RawPart2 * ?s, ?r RawPart3 * ?s * -1, ?r RawPart4 * z1 * -1] +
      sum_list [lnHalf accuracy, z2 * ?s * -1, n]"
    unfolding logic_plain_cost_def Let_def if_True if_False prod.case sum_list.Cons sum_list.Nil by (simp add: z1 z2 algebra_simps)
  with m show ?thesis by (simp only:)
qed

lemma logic_cost_row_tag_means:
  assumes key: "key_from p q sk" and other: "logic_match (pk_N (sk_PublicKey sk)) otherRaw other"
    and run: "logic_cost_row_tag own other accuracy (sk_PublicKey sk) n i ident r = Some (Inr c)"
  shows "means (pk_N (sk_PublicKey sk)) (logic_plain_cost True accuracy own otherRaw ident + n) c"
proof -
  let ?pk = "sk_PublicKey sk" let ?s = "scale_factor accuracy" let ?r = "\<lambda>p. the (map_of (p otherRaw) ident)"
  obtain z1 e1 z2 e3' e3 z3 z4 e5' e5 where z1: "map_of (RawPart1 own) ident = Some z1"
    and e1: "vmult ?pk (nil_get (EncPart1 other) ident) z1 = Some (Inr e1)"
    and z2: "map_of (RawPart2 own) ident = Some z2"
    and e3': "vmult ?pk (nil_get (EncPart2 other) ident) ?s = Some (Inr e3')" and e3: "vmult ?pk (Some e3') (-1) = Some (Inr e3)"
    and z3: "map_of (RawPart3 own) ident = Some z3" and z4: "map_of (RawPart4 own) ident = Some z4"
    and e5': "vmult ?pk (nil_get (EncPart1 other) ident) z4 = Some (Inr e5')" and e5: "vmult ?pk (Some e5') (-1) = Some (Inr e5)"
    and c: "CypherPlainsAdd ?pk (CyphersAdd ?pk [e1, e3, e5]) [lnHalf accuracy, z2 * ?s, z3 * ?s * -1, n] = Inr c"
    using run unfolding logic_cost_row_tag_def Let_def vl_ok by (elim exE conjE) (rule that; assumption)
  note m0 = other[unfolded logic_match_def, THEN conjunct1] other[unfolded logic_match_def, THEN conjunct2, THEN conjunct1]
  note m = entry_mult(1)[OF key m0(1) e1] means_mult[OF key entry_mult(1)[OF key m0(2) e3'] e3]
    means_mult[OF key entry_mult(1)[OF key m0(1) e5'] e5]
  have "means (pk_N ?pk) (sum_list [?r RawPart1 * z1, ?r RawPart2 * ?s * -1, ?r RawPart1 * z4 * -1])
      (CyphersAdd ?pk [e1, e3, e5])"
    by (rule means_sum) (use m in simp)
  note m = means_plains[OF key this c]
  have "logic_plain_cost True accuracy own otherRaw ident + n =
      sum_list [?r RawPart1 * z1, ?r RawPart2 * ?s * -1, ?r RawPart1 * z4 * -1] +
      sum_list [lnHalf accuracy, z2 * ?s, z3 * ?s * -1, n]"
    unfolding logic_plain_cost_def Let_def if_True if_False prod.case sum_list.Cons sum_list.Nil by (simp add: z1 z2 z3 z4 algebra_simps)
  with m show ?thesis by (simp only:)
qed

text \<open>Whole maps.\<close>

lemma logic_gradient_maps:
  assumes "key_from p q sk" and "logic_match (pk_N (sk_PublicKey sk)) otherRaw other"
    and run: "al_gradient logic_algo t K own other rows f accuracy (sk_PublicKey sk) = Some (Inr (g, n))"
    and ids: "ids_of rows ids" "distinct ids"
  shows "maps_to (\<lambda>k c. \<exists>x. c = Some x \<and> means (pk_N (sk_PublicKey sk))
    (logic_plain_gradient t accuracy own otherRaw f k (row_at rows ids k) + n) x) ids g"
proof (cases t)
  case True
  then have t: "t = True" by simp
  with run have rows: "enc_rows (logic_gradient_row_tag own other f accuracy (sk_PublicKey sk) n) 0 rows [] = Some (Inr g)"
    by (auto simp: logic_algo_def logic_CalEncLocalGradientTagPart_def vl_ok)
  show ?thesis unfolding t by (rule enc_rows_maps[OF rows ids]) (rule logic_gradient_row_tag_means[OF assms(1,2)])
next
  case False
  then have t: "t = False" by simp
  with run have rows: "enc_rows (logic_gradient_row own other f accuracy (sk_PublicKey sk) n) 0 rows [] = Some (Inr g)"
    by (auto simp: logic_algo_def logic_CalEncLocalGradient_def vl_ok)
  show ?thesis unfolding t by (rule enc_rows_maps[OF rows ids]) (rule logic_gradient_row_means[OF assms(1,2)])
qed

lemma logic_cost_maps:
  assumes "key_from p q sk" and "logic_match (pk_N (sk_PublicKey sk)) otherRaw other"
    and run: "al_cost logic_algo t K own other rows accuracy (sk_PublicKey sk) = Some (Inr (g, n))"
    and ids: "ids_of rows ids" "distinct ids"
  shows "maps_to (\<lambda>k c. \<exists>x. c = Some x \<and> means (pk_N (sk_PublicKey sk)) (logic_plain_cost t accuracy own otherRaw k + n) x) ids g"
proof (cases t)
  case True
  then have t: "t = True" by simp
  with run have rows: "enc_rows (logic_cost_row_tag own other accuracy (sk_PublicKey sk) n) 0 rows [] = Some (Inr g)"
    by (auto simp: logic_algo_def logic_EvaluateEncLocalCostTag_def vl_ok)
  show ?thesis unfolding t by (rule enc_rows_maps[OF rows ids]) (rule logic_cost_row_tag_means[OF assms(1,2)])
next
  case False
  then have t: "t = False" by simp
  with run have rows: "enc_rows (logic_cost_row own other accuracy (sk_PublicKey sk) n) 0 rows [] = Some (Inr g)"
    by (auto simp: logic_algo_def logic_EvaluateEncLocalCost_def vl_ok)
  show ?thesis unfolding t by (rule enc_rows_maps[OF rows ids]) (rule logic_cost_row_means[OF assms(1,2)])
qed

end
