(* ===== verification/VlRound.thy ===== *)
theory VlRound
  imports VlLogicPlain
begin

text \<open>
  What a round of training computes. A party that has combined the parts of both parties under the
  key of the other one gets back exactly the gradients and costs of the plain integers, as long as
  these with the random numbers stay in the window of the key. The locale \<open>vl_algorithm\<close> says what
  a round needs of an algorithm; linear and logistic regression provide it.
\<close>

section \<open>The plain computation\<close>

definition plain_map :: "int \<Rightarrow> (int \<Rightarrow> int) \<Rightarrow> int list \<Rightarrow> float64 imap" where
  "plain_map accuracy z ids = map (\<lambda>k. (k, fdiv (float_of (z k)) (Pow10 (2 * accuracy)))) (sort_key dec_int ids)"

fun plain_update :: "vl_env \<Rightarrow> TrainParams \<Rightarrow> float64 list \<Rightarrow> (nat \<Rightarrow> int \<Rightarrow> int) \<Rightarrow> int list \<Rightarrow> nat \<Rightarrow> nat \<Rightarrow> float64 list vl" where
  "plain_update E params thetas z ids i 0 = vret []"
| "plain_update E params thetas z ids i (Suc n) =
     vbind (CalGradientWithReg (ve_visit E) thetas (plain_map (tp_Accuracy params) (z i) ids) i
       (tp_RegMode params) (tp_RegParam params)) (\<lambda>grad.
     vbind (plain_update E params thetas z ids (i + 1) n) (\<lambda>rest.
     vret (fsub (thetas ! i) (fmul (tp_Alpha params) grad) # rest)))"

text \<open>Costs and gradients of a round, with the random numbers added, are in the window of the key.\<close>

definition round_fits :: "int \<Rightarrow> (int \<Rightarrow> int) \<Rightarrow> (nat \<Rightarrow> int \<Rightarrow> int) \<Rightarrow> int list \<Rightarrow> nat \<Rightarrow> int list \<Rightarrow> int \<Rightarrow> bool" where
  "round_fits N cost grad ids n noises costNoise \<longleftrightarrow> (\<forall>k \<in> set ids. in_window N (cost k + costNoise) \<and>
     (\<forall>i < n. in_window N (grad i k + noises ! i)))"

section \<open>Maps on their way\<close>

lemma maps_exact:
  assumes m: "maps_to (\<lambda>k v. v = h k) ids m" and ids: "distinct ids" "\<forall>k \<in> set ids. in_int64 k"
  shows "sorted_imap m = map (\<lambda>k. (k, h k)) (sort_key dec_int ids)"
proof -
  have fst_m: "fst ` set m = set ids" using m by (simp add: maps_to_def)
  have "set m = (\<lambda>k. (k, h k)) ` set ids"
  proof
    show "set m \<subseteq> (\<lambda>k. (k, h k)) ` set ids" using m fst_m by (force simp: maps_to_def)
    show "(\<lambda>k. (k, h k)) ` set ids \<subseteq> set m"
    proof
      fix e
      assume "e \<in> (\<lambda>k. (k, h k)) ` set ids"
      then obtain k where k: "e = (k, h k)" "k \<in> fst ` set m" by (auto simp: fst_m)
      then obtain v where v: "(k, v) \<in> set m" by auto
      with m have "v = h k" by (simp add: maps_to_def)
      with v k(1) show "e \<in> set m" by simp
    qed
  qed
  moreover have "distinct m" using m by (simp add: maps_to_def distinct_map)
  moreover have "distinct (map (\<lambda>k. (k, h k)) (sort_key dec_int ids))"
    using ids(1) by (simp add: distinct_map inj_on_def)
  ultimately have ms: "mset m = mset (map (\<lambda>k. (k, h k)) (sort_key dec_int ids))"
    by (subst set_eq_iff_mset_eq_distinct [symmetric]) simp_all
  have "inj_on (\<lambda>e. dec_int (fst e)) (set m)"
  proof (rule inj_onI)
    fix e e'
    assume e: "e \<in> set m" "e' \<in> set m" "dec_int (fst e) = dec_int (fst e')"
    then have "fst e \<in> set ids" "fst e' \<in> set ids" using fst_m by blast+
    with e(3) ids(2) dec_int_inj have "fst e = fst e'" by blast
    moreover have "snd e = h (fst e)" "snd e' = h (fst e')" using e(1,2) m by (simp_all add: maps_to_def)
    ultimately show "e = e'" by (simp add: prod_eq_iff)
  qed
  from sort_key_inj_key_eq[OF ms this] show ?thesis by (simp add: sorted_imap_def comp_def)
qed

lemma retrieve_exact:
  "retrieve_map accuracy (Some n) (map (\<lambda>k. (k, Some (z k + n))) (sort_key dec_int ids)) = vret (plain_map accuracy z ids)"
  by (subst retrieve_map_ok[where g = z]) (auto simp: plain_map_def comp_def)

lemma enc_gradients_ok:
  "enc_gradients A Ks params own other rows pk i n = Some (Inr (gs, noises)) \<Longrightarrow>
    length gs = n \<and> length noises = n \<and> (\<forall>j < n. al_gradient A (tp_IsTagPart params) (Ks (i + j)) own other rows (i + j)
      (tp_Accuracy params) pk = Some (Inr (gs ! j, noises ! j)))"
proof (induction n arbitrary: i gs noises)
  case (Suc n)
  from Suc.prems obtain g noise gs' ns where
    g: "al_gradient A (tp_IsTagPart params) (Ks i) own other rows i (tp_Accuracy params) pk = Some (Inr (g, noise))"
    and run: "enc_gradients A Ks params own other rows pk (i + 1) n = Some (Inr (gs', ns))"
    and gs: "gs = g # gs'" "noises = noise # ns" by (auto simp: vl_ok)
  from Suc.IH[OF run] g show ?case by (auto simp: gs nth_Cons split: nat.splits)
qed (simp add: vl_ok)

lemma decrypt_all_ok:
  assumes "\<And>j. j < length gs \<Longrightarrow> \<exists>d. decrypt_map sk (gs ! j) = vret d \<and> P j d"
  shows "\<exists>ds. decrypt_all sk gs = vret ds \<and> length ds = length gs \<and> (\<forall>j < length gs. P j (ds ! j))"
  using assms
proof (induction gs arbitrary: P)
  case (Cons g gs)
  from Cons.prems[of 0] obtain d where d: "decrypt_map sk g = vret d" "P 0 d" by auto
  have "\<exists>d. decrypt_map sk (gs ! j) = vret d \<and> P (Suc j) d" if "j < length gs" for j
    using Cons.prems[of "Suc j"] that by simp
  from Cons.IH[OF this] obtain ds where ds: "decrypt_all sk gs = vret ds" "length ds = length gs"
    "\<forall>j < length gs. P (Suc j) (ds ! j)" by blast
  with d show ?case by (intro exI[of _ "d # ds"]) (auto simp: DecryptGradient_def nth_Cons split: nat.splits)
qed simp

lemma update_thetas_plain:
  assumes "length grads = length thetas" and "length noises = length thetas" and "i + n = length thetas"
    and "\<And>j. j < length thetas \<Longrightarrow>
      grads ! j = map (\<lambda>k. (k, Some (z j k + noises ! j))) (sort_key dec_int ids)"
  shows "update_thetas E params thetas grads noises i n = plain_update E params thetas z ids i n"
  using assms(3)
proof (induction n arbitrary: i)
  case (Suc n)
  then have "i < length thetas" "update_thetas E params thetas grads noises (i + 1) n = plain_update E params thetas z ids (i + 1) n"
    by simp_all
  then show ?case by (simp add: assms(1,2,4) RetrieveRealGradient_def retrieve_exact)
qed simp

section \<open>What a round needs of an algorithm\<close>

locale vl_algorithm =
  fixes A :: "('raw, 'enc) vl_algo"
    and matched :: "int \<Rightarrow> 'raw \<Rightarrow> 'enc \<Rightarrow> bool"
    and grad :: "bool \<Rightarrow> int \<Rightarrow> 'raw \<Rightarrow> 'raw \<Rightarrow> nat \<Rightarrow> int \<Rightarrow> sample \<Rightarrow> int"
    and cost :: "bool \<Rightarrow> int \<Rightarrow> 'raw \<Rightarrow> 'raw \<Rightarrow> int \<Rightarrow> int"
  assumes local_bytes: "key_from p q sk \<Longrightarrow>
      al_local A t K thetas rows accuracy regMode regParam (sk_PublicKey sk) = Some (Inr (raw, enc)) \<Longrightarrow>
      \<exists>enc'. al_from_bytes A B (al_to_bytes A enc) = vret enc' \<and> matched (pk_N (sk_PublicKey sk)) raw enc'"
    and gradient_means: "key_from p q sk \<Longrightarrow> matched (pk_N (sk_PublicKey sk)) otherRaw other \<Longrightarrow>
      al_gradient A t K own other rows f accuracy (sk_PublicKey sk) = Some (Inr (g, n)) \<Longrightarrow> ids_of rows ids \<Longrightarrow> distinct ids \<Longrightarrow>
      maps_to (\<lambda>k c. \<exists>x. c = Some x \<and> means (pk_N (sk_PublicKey sk))
        (grad t accuracy own otherRaw f k (row_at rows ids k) + n) x) ids g"
    and cost_means: "key_from p q sk \<Longrightarrow> matched (pk_N (sk_PublicKey sk)) otherRaw other \<Longrightarrow>
      al_cost A t K own other rows accuracy (sk_PublicKey sk) = Some (Inr (c, n)) \<Longrightarrow> ids_of rows ids \<Longrightarrow> distinct ids \<Longrightarrow>
      maps_to (\<lambda>k c. \<exists>x. c = Some x \<and> means (pk_N (sk_PublicKey sk)) (cost t accuracy own otherRaw k + n) x) ids c"
    and cost_sym: "cost (\<not> t) accuracy own otherRaw k = cost t accuracy otherRaw own k"
begin

lemma round_exact:
  assumes key: "key_from p q sk"
    and other: "al_local A t' K thetas' rows' accuracy' regMode' regParam' (sk_PublicKey sk) = Some (Inr (otherRaw, otherEnc))"
    and run: "CalEncGradientAndCost A E Ks own (al_to_bytes A otherEnc) trainSet params
      (HomoPubkeyToBytes (sk_PublicKey sk)) thetas rnd = Some (Inr (gradBytes, costBytes, noises, costNoise))"
    and batch: "GetBatchSetBySize (ve_base E) (td_TrainSet trainSet) (tp_BatchSize params) rnd False = Some (Inr (rows, rest))"
    and ids: "ids_of rows ids" "distinct ids"
    and fits: "round_fits (pk_N (sk_PublicKey sk)) (cost (tp_IsTagPart params) (tp_Accuracy params) own otherRaw)
      (\<lambda>i k. grad (tp_IsTagPart params) (tp_Accuracy params) own otherRaw i k (row_at rows ids k)) ids (length thetas) noises costNoise"
  shows "\<exists>decGrad decCost. DecGradientAndCost E gradBytes costBytes sk = vret (decGrad, decCost) \<and>
    UpdateGradient E decGrad noises thetas params = plain_update E params thetas
      (\<lambda>i k. grad (tp_IsTagPart params) (tp_Accuracy params) own otherRaw i k (row_at rows ids k)) ids 0 (length thetas) \<and>
    UpdateCost A E decCost (Some costNoise) params = vret (al_mean_cost A (ve_visit E)
      (plain_map (tp_Accuracy params) (cost (tp_IsTagPart params) (tp_Accuracy params) own otherRaw) ids))"
proof -
  let ?t = "tp_IsTagPart params" let ?acc = "tp_Accuracy params" let ?N = "pk_N (sk_PublicKey sk)"
  let ?z = "\<lambda>i k. grad ?t ?acc own otherRaw i k (row_at rows ids k)" let ?c = "cost ?t ?acc own otherRaw"
  obtain enc' where enc': "al_from_bytes A (ve_base E) (al_to_bytes A otherEnc) = vret enc'" "matched ?N otherRaw enc'"
    using local_bytes[OF key other] by blast
  obtain gs c where g: "enc_gradients A Ks params own enc' rows (sk_PublicKey sk) 0 (length thetas) = Some (Inr (gs, noises))"
    and c: "al_cost A ?t (Ks (length thetas)) own enc' rows ?acc (sk_PublicKey sk) = Some (Inr (c, costNoise))"
    and bytes: "gradBytes = GradListToBytes gs" "costBytes = CostToBytes c"
    using run enc'(1) batch by (auto simp: CalEncGradientAndCost_def HomoPubkey_roundtrip vl_ok)
  note gs = enc_gradients_ok[OF g, simplified]
  have range: "\<forall>k \<in> set ids. in_int64 k" using ids_of_range[OF ids(1)] by blast
  have gmap: "maps_to (\<lambda>k c. \<exists>x. c = Some x \<and> means ?N (?z j k + noises ! j) x) ids (gs ! j)" if "j < length thetas" for j
    by (rule gradient_means[OF key enc'(2) _ ids]) (use gs that in blast)
  note cmap = cost_means[OF key enc'(2) c ids]
  have good: "\<forall>m \<in> set gs. good_keys m" "good_keys c"
    using maps_to_good[OF gmap range] maps_to_good[OF cmap range] gs by (simp_all add: all_set_conv_all_nth)
  have "\<exists>d. decrypt_map sk (map sorted_imap gs ! j) = vret d \<and> maps_to (\<lambda>k v. v = Some (?z j k + noises ! j)) ids d"
    if "j < length (map sorted_imap gs)" for j
    using that gs maps_to_sorted[OF gmap] fits by (intro decrypt_maps[OF key]) (simp_all add: round_fits_def)
  from decrypt_all_ok[OF this] obtain ds where ds: "decrypt_all sk (map sorted_imap gs) = vret ds"
    "length ds = length thetas" "\<forall>j < length thetas. maps_to (\<lambda>k v. v = Some (?z j k + noises ! j)) ids (ds ! j)"
    using gs by auto
  obtain dc where dc: "decrypt_map sk (sorted_imap c) = vret dc" "maps_to (\<lambda>k v. v = Some (?c k + costNoise)) ids dc"
    using decrypt_maps[OF key maps_to_sorted[OF cmap]] fits by (auto simp: round_fits_def)
  have good': "\<forall>m \<in> set ds. good_keys m" "good_keys dc"
    using maps_to_good[OF ds(3)[rule_format] range] maps_to_good[OF dc(2) range] ds(2) by (simp_all add: all_set_conv_all_nth)
  have dec: "DecGradientAndCost E gradBytes costBytes sk = vret (GradListToBytes ds, CostToBytes dc)"
    using ds(1) dc(1) by (simp add: DecGradientAndCost_def bytes GradList_roundtrip Cost_roundtrip good DecryptCost_def)
  have "update_thetas E params thetas (map sorted_imap ds) noises 0 (length thetas) =
      plain_update E params thetas ?z ids 0 (length thetas)"
    by (rule update_thetas_plain) (use ds gs maps_exact[OF ds(3)[rule_format] ids(2) range] in simp_all)
  then have upd: "UpdateGradient E (GradListToBytes ds) noises thetas params = plain_update E params thetas ?z ids 0 (length thetas)"
    by (simp add: UpdateGradient_def GradList_roundtrip good')
  have "UpdateCost A E (CostToBytes dc) (Some costNoise) params = vret (al_mean_cost A (ve_visit E) (plain_map ?acc ?c ids))"
    by (simp add: UpdateCost_def Cost_roundtrip good' RetrieveRealCost_def maps_exact[OF dc(2) ids(2) range] retrieve_exact)
  with dec upd show ?thesis by blast
qed

text \<open>Both parties see the same cost, which each of them decrypts for the other one.\<close>

lemma costs_agree:
  assumes keys: "key_from p q skA" "key_from p' q' skB"
    and localA: "al_local A False K thetasA rowsA accA modeA regA (sk_PublicKey skA) = Some (Inr (rawA, encA))"
    and localB: "al_local A True K' thetasB rowsB accB modeB regB (sk_PublicKey skB) = Some (Inr (rawB, encB))"
    and runA: "CalEncGradientAndCost A E KA rawA (al_to_bytes A encB) setA paramsA
      (HomoPubkeyToBytes (sk_PublicKey skB)) thetasA rnd = Some (Inr (gA, cA, noisesA, costNoiseA))"
    and runB: "CalEncGradientAndCost A E KB rawB (al_to_bytes A encA) setB paramsB
      (HomoPubkeyToBytes (sk_PublicKey skA)) thetasB rnd = Some (Inr (gB, cB, noisesB, costNoiseB))"
    and batches: "GetBatchSetBySize (ve_base E) (td_TrainSet setA) (tp_BatchSize paramsA) rnd False = Some (Inr (batchA, restA))"
      "GetBatchSetBySize (ve_base E) (td_TrainSet setB) (tp_BatchSize paramsB) rnd False = Some (Inr (batchB, restB))"
    and ids: "ids_of batchA ids" "ids_of batchB ids" "distinct ids"
    and params: "\<not> tp_IsTagPart paramsA" "tp_IsTagPart paramsB" "tp_Accuracy paramsA = tp_Accuracy paramsB"
    and fits: "round_fits (pk_N (sk_PublicKey skB)) (cost False (tp_Accuracy paramsA) rawA rawB)
        (\<lambda>i k. grad False (tp_Accuracy paramsA) rawA rawB i k (row_at batchA ids k)) ids (length thetasA) noisesA costNoiseA"
      "round_fits (pk_N (sk_PublicKey skA)) (cost True (tp_Accuracy paramsB) rawB rawA)
        (\<lambda>i k. grad True (tp_Accuracy paramsB) rawB rawA i k (row_at batchB ids k)) ids (length thetasB) noisesB costNoiseB"
  shows "\<exists>dgA dcA dgB dcB c. DecGradientAndCost E gA cA skB = vret (dgA, dcA) \<and> DecGradientAndCost E gB cB skA = vret (dgB, dcB) \<and>
    UpdateCost A E dcA (Some costNoiseA) paramsA = vret c \<and> UpdateCost A E dcB (Some costNoiseB) paramsB = vret c"
proof -
  have p: "tp_IsTagPart paramsA = False" "tp_IsTagPart paramsB = True" using params by simp_all
  have "cost False (tp_Accuracy paramsA) rawA rawB = cost True (tp_Accuracy paramsB) rawB rawA"
    using cost_sym[of True "tp_Accuracy paramsB" rawA rawB] params(3) by (intro ext) simp
  with round_exact[OF keys(2) localB runA batches(1) ids(1,3)] round_exact[OF keys(1) localA runB batches(2) ids(2,3)] fits
  show ?thesis unfolding p params(3) by metis
qed

end

section \<open>Linear and logistic regression\<close>

definition linear_matched :: "int \<Rightarrow> RawLocalGradientPart \<Rightarrow> EncLocalGradientPart \<Rightarrow> bool" where
  "linear_matched N raw enc \<longleftrightarrow> parts_match N raw enc"

definition linear_plain_gradient :: "bool \<Rightarrow> int \<Rightarrow> RawLocalGradientPart \<Rightarrow> RawLocalGradientPart \<Rightarrow> nat \<Rightarrow> int \<Rightarrow> sample \<Rightarrow> int" where
  "linear_plain_gradient t accuracy own other = plain_gradient (if t then fixed accuracy else rounded_factor accuracy) own other"

definition linear_plain_cost :: "bool \<Rightarrow> int \<Rightarrow> RawLocalGradientPart \<Rightarrow> RawLocalGradientPart \<Rightarrow> int \<Rightarrow> int" where
  "linear_plain_cost t accuracy own other = plain_cost own other accuracy"

lemma linear_local_bytes:
  assumes key: "key_from p q sk"
    and run: "al_local linear_algo t K thetas rows accuracy regMode regParam (sk_PublicKey sk) = Some (Inr (raw, enc))"
  shows "\<exists>enc'. al_from_bytes linear_algo E (al_to_bytes linear_algo enc) = vret enc' \<and> linear_matched (pk_N (sk_PublicKey sk)) raw enc'"
proof -
  obtain val where "ids_in_range val" "local_part val K thetas rows accuracy regMode regParam (sk_PublicKey sk) = Some (Inr (raw, enc))"
    using run ids_in_range_vals
    by (auto simp: linear_algo_def CalLocalGradientTagPart_def CalLocalGradientPart_def split: if_splits)
  note m = local_part_match[OF key this]
  show ?thesis unfolding linear_matched_def
    using LinearEncGradientPart_roundtrip[OF m(2)] parts_match_sorted[OF m(2,1)] by (auto simp: linear_algo_def)
qed

interpretation lin: vl_algorithm linear_algo linear_matched linear_plain_gradient linear_plain_cost
proof unfold_locales
  fix p q sk t K thetas rows accuracy regMode regParam raw enc B
  assume "key_from p q sk" "al_local linear_algo t K thetas rows accuracy regMode regParam (sk_PublicKey sk) = Some (Inr (raw, enc))"
  then show "\<exists>enc'. al_from_bytes linear_algo B (al_to_bytes linear_algo enc) = vret enc' \<and> linear_matched (pk_N (sk_PublicKey sk)) raw enc'"
    by (rule linear_local_bytes)
next
  fix p q sk otherRaw other t K own rows f accuracy g n ids
  assume "key_from p q sk" "linear_matched (pk_N (sk_PublicKey sk)) otherRaw other" "ids_of rows ids" "distinct ids"
    and run: "al_gradient linear_algo t K own other rows f accuracy (sk_PublicKey sk) = Some (Inr (g, n))"
  moreover from run have "enc_gradient (if t then fixed accuracy else rounded_factor accuracy) K own other rows f (sk_PublicKey sk) =
      Some (Inr (g, n))"
    by (auto simp: linear_algo_def CalEncLocalGradientTagPart_def CalEncLocalGradient_def split: if_splits)
  ultimately show "maps_to (\<lambda>k c. \<exists>x. c = Some x \<and> means (pk_N (sk_PublicKey sk))
      (linear_plain_gradient t accuracy own otherRaw f k (row_at rows ids k) + n) x) ids g"
    unfolding linear_plain_gradient_def linear_matched_def by (intro enc_gradient_maps)
next
  fix p q sk otherRaw other t K own rows accuracy c n ids
  assume "key_from p q sk" "linear_matched (pk_N (sk_PublicKey sk)) otherRaw other" "ids_of rows ids" "distinct ids"
    and run: "al_cost linear_algo t K own other rows accuracy (sk_PublicKey sk) = Some (Inr (c, n))"
  moreover from run have "enc_cost (if t then checked else deref) K own other rows accuracy (sk_PublicKey sk) = Some (Inr (c, n))"
    by (auto simp: linear_algo_def EvaluateEncLocalCostTag_def EvaluateEncLocalCost_def split: if_splits)
  moreover have "(if t then checked else deref) b = Some (Inr z) \<Longrightarrow> b = Some z" for b :: "int option" and z
    by (simp add: vl_ok split: if_splits)
  ultimately show "maps_to (\<lambda>k c. \<exists>x. c = Some x \<and> means (pk_N (sk_PublicKey sk))
      (linear_plain_cost t accuracy own otherRaw k + n) x) ids c"
    unfolding linear_plain_cost_def linear_matched_def by (intro enc_cost_maps)
next
  fix t accuracy own otherRaw k
  show "linear_plain_cost (\<not> t) accuracy own otherRaw k = linear_plain_cost t accuracy otherRaw own k"
    unfolding linear_plain_cost_def by (rule plain_cost_commute)
qed

lemma logic_local_bytes:
  assumes "key_from p q sk"
    and "al_local logic_algo t K thetas rows accuracy regMode regParam (sk_PublicKey sk) = Some (Inr (raw, enc))"
  shows "\<exists>enc'. al_from_bytes logic_algo E (al_to_bytes logic_algo enc) = vret enc' \<and> logic_match (pk_N (sk_PublicKey sk)) raw enc'"
  using logic_local_match[OF assms] LogicEncGradAndCostPart_roundtrip logic_match_sorted
  by (auto simp: logic_algo_def)

interpretation lgc: vl_algorithm logic_algo logic_match logic_plain_gradient logic_plain_cost
  by unfold_locales (rule logic_local_bytes logic_gradient_maps logic_cost_maps logic_plain_cost_commute; assumption?)+

end
