(* ===== verification/VlShape.thy ===== *)
theory VlShape
  imports VlRound
begin

text \<open>
  The form of a training set: the rows are those of the file, numbered from zero in their first
  place, and all of the same length. The round numbers its samples by these rows.
\<close>

section \<open>Columns\<close>

lemma put_cell_shape:
  assumes "put_cell m k c v = Some (Inr m')"
  shows "length m' = length m" and "j < length m \<Longrightarrow> length (m' ! j) = length (m ! j)"
    and "j < length m \<Longrightarrow> c' \<noteq> c \<Longrightarrow> m' ! j ! c' = m ! j ! c'"
    and "nat k < length m" and "0 \<le> k" and "m' ! nat k ! c = v" and "j \<noteq> nat k \<Longrightarrow> m' ! j = m ! j"
  using assms by (auto simp: put_cell_def vl_ok nth_list_update split: if_splits)

lemma put_column_shape:
  "put_column c es m = Some (Inr m') \<Longrightarrow> length m' = length m \<and>
    (\<forall>j < length m. length (m' ! j) = length (m ! j) \<and> (\<forall>c'. c' \<noteq> c \<longrightarrow> m' ! j ! c' = m ! j ! c'))"
proof (induction c es m rule: put_column.induct)
  case (2 c k v es m)
  from "2.prems" obtain m1 where m1: "put_cell m k c v = Some (Inr m1)" and run: "put_column c es m1 = Some (Inr m')"
    by (auto simp: vl_ok)
  from "2.IH"[OF run] put_cell_shape(1-3)[OF m1] show ?case by simp
qed (simp add: vl_ok)

lemma put_column_other:
  "put_column c es m = Some (Inr m') \<Longrightarrow> int j \<notin> fst ` set es \<Longrightarrow> m' ! j = m ! j"
proof (induction c es m rule: put_column.induct)
  case (2 c k v es m)
  from "2.prems" obtain m1 where m1: "put_cell m k c v = Some (Inr m1)" and run: "put_column c es m1 = Some (Inr m')"
    by (auto simp: vl_ok)
  have "j \<noteq> nat k" using "2.prems"(2) put_cell_shape(5)[OF m1] by auto
  with "2.IH"[OF run] put_cell_shape(7)[OF m1] "2.prems"(2) show ?case by simp
qed (simp add: vl_ok)

lemma put_column_set:
  "put_column c es m = Some (Inr m') \<Longrightarrow> distinct (map fst es) \<Longrightarrow> (int j, v) \<in> set es \<Longrightarrow>
    j < length m \<and> m' ! j ! c = v"
proof (induction c es m rule: put_column.induct)
  case (2 c k w es m)
  from "2.prems"(1) obtain m1 where m1: "put_cell m k c w = Some (Inr m1)" and run: "put_column c es m1 = Some (Inr m')"
    by (auto simp: vl_ok)
  note p = put_cell_shape[OF m1]
  show ?case
  proof (cases "(int j, v) \<in> set es")
    case True
    with "2.IH"[OF run] "2.prems"(2) p(1) show ?thesis by simp
  next
    case False
    with "2.prems"(3) have kv: "k = int j" "w = v" by simp_all
    with "2.prems"(2) have "int j \<notin> fst ` set es" by simp
    from put_column_other[OF run this] p(4,6) show ?thesis by (simp add: kv)
  qed
qed simp

section \<open>The numbers of the rows\<close>

definition numbered :: "nat \<Rightarrow> nat \<Rightarrow> sample list \<Rightarrow> bool" where
  "numbered w n m \<longleftrightarrow> length m = n \<and> (\<forall>j < n. length (m ! j) = w \<and> m ! j ! 0 = float_of (int j))"

lemma numbered_put_column:
  "numbered w n m \<Longrightarrow> put_column c es m = Some (Inr m') \<Longrightarrow> 0 < c \<Longrightarrow> numbered w n m'"
  using put_column_shape[of c es m m'] by (simp add: numbered_def)

lemma numbered_put_features:
  "put_features i fs m = Some (Inr m') \<Longrightarrow> numbered w n m \<Longrightarrow> 0 < i \<Longrightarrow> numbered w n m'"
proof (induction i fs m rule: put_features.induct)
  case (2 i f fs m)
  from "2.prems"(1) obtain m1 where m1: "put_column i (df_Sets f) m = Some (Inr m1)"
    and run: "put_features (i + 1) fs m1 = Some (Inr m')" by (auto simp: vl_ok)
  show ?case by (rule "2.IH"[OF run numbered_put_column[OF "2.prems"(2) m1 "2.prems"(3)]]) simp
qed (simp add: vl_ok)

lemma numbered_put_features_tag:
  "put_features_tag lab l i fs m = Some (Inr m') \<Longrightarrow> numbered w n m \<Longrightarrow> 0 < l \<Longrightarrow> numbered w n m'"
proof (induction lab l i fs m rule: put_features_tag.induct)
  case (2 lab l i f fs m)
  let ?c = "if df_FeatureName f = lab then l else i + 1" and ?i = "if df_FeatureName f = lab then i else i + 1"
  from "2.prems"(1) obtain m1 where m1: "put_column ?c (df_Sets f) m = Some (Inr m1)"
    and run: "put_features_tag lab l ?i fs m1 = Some (Inr m')" by (auto simp: vl_ok split: if_splits)
  have "numbered w n m1" by (rule numbered_put_column[OF "2.prems"(2) m1]) (simp add: "2.prems"(3))
  with "2.IH" run "2.prems"(3) show ?case by (cases "df_FeatureName f = lab") simp_all
qed (simp add: vl_ok)

text \<open>Every feature has a value for every row.\<close>

definition full_features :: "nat \<Rightarrow> DataFeature list \<Rightarrow> bool" where
  "full_features n fs \<longleftrightarrow> (\<forall>f \<in> set fs. map fst (df_Sets f) = map int [0..<n])"

lemma standardize_keys [simp]: "map fst (df_Sets (standardize a b f)) = map fst (df_Sets f)"
  by (simp add: standardize_def case_prod_beta comp_def)

lemma full_standardize: "full_features n fs \<Longrightarrow> full_features n (map (standardize a b) fs)"
  by (simp add: full_features_def)

lemma full_logic: "full_features n fs \<Longrightarrow> full_features n (map (\<lambda>f. if P f then f else standardize a b f) fs)"
  by (auto simp: full_features_def)

lemma number_rows_numbered:
  assumes "number_rows (replicate (length sets) (replicate w (Fin 0))) sets = Some (Inr m)"
    and "map fst sets = map int [0..<n]"
  shows "numbered w n m"
proof -
  let ?es = "map (\<lambda>(k, _). (k, float_of k)) sets"
  have run: "put_column 0 ?es (replicate (length sets) (replicate w (Fin 0))) = Some (Inr m)"
    using assms(1) by (simp add: number_rows_def)
  have len: "length sets = n" using arg_cong[OF assms(2), of length] by simp
  have fst_es: "map fst ?es = map int [0..<n]" using assms(2) by (simp add: case_prod_beta comp_def)
  have "m ! j ! 0 = float_of (int j)" if "j < n" for j
  proof -
    have "int j \<in> fst ` set sets" using arg_cong[OF assms(2), of set] that by auto
    then have "(int j, float_of (int j)) \<in> set ?es" by force
    moreover have "distinct (map fst ?es)" unfolding fst_es by (simp add: distinct_map)
    ultimately show ?thesis using put_column_set[OF run] by blast
  qed
  with put_column_shape[OF run] len show ?thesis by (simp add: numbered_def)
qed

lemma PreProcessDataSetNoTag_shape:
  assumes "PreProcessDataSetNoTag s = Some (Inr td)" and "full_features n (sd_Features s)"
  shows "numbered (length (sd_Features s) + 1) n (td_TrainSet td) \<and>
    numbered (length (sd_Features s) + 1) n (td_OriginalTrainSet td)"
proof -
  from assms(1) obtain f fs rows a b where fs: "sd_Features s = f # fs"
    and rows: "number_rows (replicate (length (df_Sets f)) (replicate (length (sd_Features s) + 1) (Fin 0))) (df_Sets f) = Some (Inr rows)"
    and a: "put_features 1 (sd_Features s) rows = Some (Inr a)" and b: "put_features 1 (sd_OriginalFeatures s) rows = Some (Inr b)"
    and td: "td_TrainSet td = a" "td_OriginalTrainSet td = b"
    by (auto simp: PreProcessDataSetNoTag_def Let_def vl_ok split: list.splits)
  have "numbered (length (sd_Features s) + 1) n rows"
    by (rule number_rows_numbered[OF rows]) (use assms(2) fs in \<open>simp add: full_features_def\<close>)
  then show ?thesis using numbered_put_features[OF a] numbered_put_features[OF b] by (simp add: td)
qed

lemma PreProcessDataSet_shape:
  assumes "PreProcessDataSet s lab = Some (Inr td)" and "full_features n (sd_Features s)"
  shows "numbered (length (sd_Features s) + 2) n (td_TrainSet td) \<and>
    numbered (length (sd_Features s) + 2) n (td_OriginalTrainSet td)"
proof -
  from assms(1) obtain f fs rows ones a b where fs: "sd_Features s = f # fs"
    and rows: "number_rows (replicate (length (df_Sets f)) (replicate (length (sd_Features s) + 2) (Fin 0))) (df_Sets f) = Some (Inr rows)"
    and ones: "put_column 1 (map (\<lambda>(k, _). (k, Fin 1)) (df_Sets f)) rows = Some (Inr ones)"
    and a: "put_features_tag lab (length (sd_Features s) + 1) 1 (sd_Features s) ones = Some (Inr a)"
    and b: "put_features_tag lab (length (sd_Features s) + 1) 1 (sd_OriginalFeatures s) ones = Some (Inr b)"
    and td: "td_TrainSet td = a" "td_OriginalTrainSet td = b"
    by (auto simp: PreProcessDataSet_def Let_def vl_ok split: list.splits)
  have "numbered (length (sd_Features s) + 2) n rows"
    by (rule number_rows_numbered[OF rows]) (use assms(2) fs in \<open>simp add: full_features_def\<close>)
  then have "numbered (length (sd_Features s) + 2) n ones" by (rule numbered_put_column[OF _ ones]) simp
  then show ?thesis using numbered_put_features_tag[OF a] numbered_put_features_tag[OF b] by (simp add: td)
qed

section \<open>Import\<close>

lemma import_row_full:
  "import_row parse row (int n) fs = Some (Inr gs) \<Longrightarrow> full_features n fs \<Longrightarrow> length gs = length fs \<and> full_features (n + 1) gs"
proof (induction parse row "int n" fs arbitrary: gs rule: import_row.induct)
  case (2 parse row f fs)
  from "2.prems"(1) obtain c cs v r where row: "row = c # cs" and r: "import_row parse cs (int n) fs = Some (Inr r)"
    and gs: "gs = f\<lparr>df_Sets := AList.update (int n) v (df_Sets f)\<rparr> # r" by (auto simp: vl_ok split: list.splits)
  have f: "map fst (df_Sets f) = map int [0..<n]" and fs: "full_features n fs"
    using "2.prems"(2) by (auto simp: full_features_def)
  have "int n \<notin> set (map fst (df_Sets f))" unfolding f by auto
  from update_new[OF this, of v] f have "map fst (AList.update (int n) v (df_Sets f)) = map int [0..<n + 1]" by simp
  moreover have "length r = length fs \<and> full_features (n + 1) r"
    by (rule "2.hyps"[OF row]) (use r fs in simp_all)
  ultimately show ?case by (simp add: gs full_features_def)
qed (simp add: vl_ok full_features_def)

lemma import_rows_full:
  "import_rows parse rows (int n) fs = Some (Inr gs) \<Longrightarrow> full_features n fs \<Longrightarrow>
    length gs = length fs \<and> full_features (n + length rows) gs"
proof (induction rows arbitrary: n fs)
  case (Cons row rows)
  from Cons.prems(1) obtain hs where hs: "import_row parse row (int n) fs = Some (Inr hs)"
    and run: "import_rows parse rows (int (n + 1)) hs = Some (Inr gs)" by (auto simp: vl_ok add.commute)
  from import_row_full[OF hs Cons.prems(2)] Cons.IH[OF run] show ?case by simp
qed (simp add: vl_ok)

lemma import_shape:
  assumes "import_rows parse rows 0 (empty_features names) = Some (Inr fs)"
  shows "length fs = length names" and "full_features (length rows) fs"
  using import_rows_full[of parse rows 0 "empty_features names" fs] assms
  by (simp_all add: empty_features_def full_features_def)

text \<open>Both algorithms.\<close>

lemma linear_train_set_shape:
  assumes "linear_GetTrainDataSetFromFile E (names # rows) params = Some (Inr td)"
  shows "numbered (length names + (if tp_IsTagPart params then 2 else 1)) (length rows) (td_TrainSet td) \<and>
    numbered (length names + (if tp_IsTagPart params then 2 else 1)) (length rows) (td_OriginalTrainSet td)"
proof -
  from assms obtain fs where fs: "import_rows (\<lambda>_ c. checked (ve_parse E c)) rows 0 (empty_features names) = Some (Inr fs)"
    and td: "(if tp_IsTagPart params then PreProcessDataSet (StandardizeDataSet (ve_visit E) fs) (tp_Label params)
      else PreProcessDataSetNoTag (StandardizeDataSet (ve_visit E) fs)) = Some (Inr td)"
    by (auto simp: linear_GetTrainDataSetFromFile_def ImportFeaturesForLinReg_def vl_ok Let_def)
  have "full_features (length rows) (sd_Features (StandardizeDataSet (ve_visit E) fs))"
    by (simp add: StandardizeDataSet_def Let_def full_standardize import_shape(2)[OF fs])
  moreover have "length (sd_Features (StandardizeDataSet (ve_visit E) fs)) = length names"
    by (simp add: StandardizeDataSet_def Let_def import_shape(1)[OF fs])
  ultimately show ?thesis
    using PreProcessDataSet_shape[of "StandardizeDataSet (ve_visit E) fs" "tp_Label params" td "length rows"]
      PreProcessDataSetNoTag_shape[of "StandardizeDataSet (ve_visit E) fs" td "length rows"] td
    by (simp split: if_splits)
qed

lemma logic_train_set_shape:
  assumes "logic_GetTrainDataSetFromFile E (names # rows) params = Some (Inr td)"
  shows "numbered (length names + (if tp_IsTagPart params then 2 else 1)) (length rows) (td_TrainSet td) \<and>
    numbered (length names + (if tp_IsTagPart params then 2 else 1)) (length rows) (td_OriginalTrainSet td)"
proof -
  let ?s = "\<lambda>fs. logic_StandardizeDataSet (ve_visit E) fs (tp_Label params)"
  let ?parse = "\<lambda>n c. if n = tp_Label params then vret (Fin (if c = tp_LabelName params then 1 else 0)) else checked (ve_parse E c)"
  from assms obtain fs where fs: "import_rows ?parse rows 0 (empty_features names) = Some (Inr fs)"
    and td: "(if tp_IsTagPart params then PreProcessDataSet (?s fs) (tp_Label params)
      else PreProcessDataSetNoTag (?s fs)) = Some (Inr td)"
    unfolding logic_GetTrainDataSetFromFile_def ImportFeaturesForLogReg_def Let_def list.case
      logic_PreProcessDataSet_def logic_PreProcessDataSetNoTag_def vbind_eq by blast
  have "full_features (length rows) (sd_Features (?s fs))"
    by (simp add: logic_StandardizeDataSet_def Let_def full_logic import_shape(2)[OF fs])
  moreover have "length (sd_Features (?s fs)) = length names"
    by (simp add: logic_StandardizeDataSet_def Let_def import_shape(1)[OF fs])
  ultimately show ?thesis
    using PreProcessDataSet_shape[of "?s fs" "tp_Label params" td "length rows"]
      PreProcessDataSetNoTag_shape[of "?s fs" td "length rows"] td
    by (simp split: if_splits)
qed

lemma numbered_ids:
  assumes "numbered w n m" and "0 < w" and "n \<le> 2 ^ 52"
  shows "ids_of m (map int [0..<n])"
proof -
  have "row_id (m ! j) = vret (int j)" if "j < n" for j
  proof -
    have "m ! j ! 0 = float_of (int j)" "0 < length (m ! j)" using assms(1,2) that by (simp_all add: numbered_def)
    moreover have "to_int64 (Floor (fadd (float_of (int j)) (Fin (1 / 2)))) = int j"
      using that assms(3) by (intro float_key) simp_all
    ultimately show ?thesis by (simp add: row_id_def cell_def)
  qed
  with assms(1) show ?thesis by (simp add: ids_of_def list_all2_conv_all_nth numbered_def)
qed

end
