(* ===== verification/VlProperties.thy ===== *)
theory VlProperties
  imports VlShape
begin

text \<open>
  Properties of the vertical learning algorithms, and rounds on concrete inputs for the witnesses:
  one sample, a key of two small primes, and accuracy zero, so that all values are integers.
\<close>

section \<open>Rounds on concrete inputs\<close>

definition vl_demo_env :: vl_env where
  "vl_demo_env = \<lparr>ve_base = mem_env, ve_parse = (\<lambda>s. Some (Fin 1)), ve_visit = (\<lambda>ks. ks)\<rparr>"

definition vl_demo_rng :: rng where
  "vl_demo_rng = \<lparr>read_entropy = (\<lambda>c n. Some (replicate n CHR 0x00)),
     pbkdf2 = (\<lambda>pw salt c n. replicate (n - 1) CHR 0x00 @ [CHR 0x01])\<rparr>"

definition vl_demo_coin :: coin where
  "vl_demo_coin = \<lparr>cn_rng = vl_demo_rng, cn_call = 0, cn_draw = (\<lambda>i j. [Some 2])\<rparr>"

definition vl_demo_params :: "bool \<Rightarrow> TrainParams" where
  "vl_demo_params t = \<lparr>tp_Label = ''y'', tp_LabelName = [], tp_RegMode = 0, tp_RegParam = Fin 0, tp_Alpha = Fin 1,
     tp_Amplitude = Fin 1, tp_Accuracy = 0, tp_IsTagPart = t, tp_IdName = ''id'', tp_BatchSize = 0\<rparr>"

definition vl_demo_set :: "bool \<Rightarrow> TrainDataSet" where
  "vl_demo_set t = \<lparr>td_FeatureNames = [''x''], td_TrainSet = [if t then [Fin 0, Fin 1, Fin 0] else [Fin 0, Fin 1]],
     td_XbarParams = [], td_SigmaParams = [], td_OriginalTrainSet = []\<rparr>"

lemma fround_int: "\<bar>i\<bar> \<le> 2 ^ 53 \<Longrightarrow> fround (of_int i) = Fin (of_int i)"
  using fround_exact[of i 0] by simp

lemma fround_nums: "fround 0 = Fin 0" "fround 1 = Fin 1" "fround (-1) = Fin (-1)"
  "(numeral n :: int) \<le> 2 ^ 53 \<Longrightarrow> fround (numeral n) = Fin (numeral n)"
  "(numeral n :: int) \<le> 2 ^ 53 \<Longrightarrow> fround (- numeral n) = Fin (- numeral n)"
  using fround_int[of 0] fround_int[of 1] fround_int[of "-1"] fround_int[of "numeral n"] fround_int[of "- numeral n"]
  by simp_all

lemma fixed_int: "\<bar>i\<bar> \<le> 2 ^ 53 \<Longrightarrow> fixed 0 (Fin (of_int i)) = i"
proof -
  assume a: "\<bar>i\<bar> \<le> 2 ^ 53"
  have "\<lfloor>rat_of_int i + 1 / 2\<rfloor> = i" "\<lfloor>- rat_of_int i + 1 / 2\<rfloor> = - i" by linarith+
  then show ?thesis using a fround_int[OF a] by (auto simp: fixed_def Pow10_def round_away_def trunc_rat_def)
qed

lemma fixed_nums: "fixed 0 (Fin 0) = 0" "fixed 0 (Fin 1) = 1" "fixed 0 (Fin (-1)) = -1"
  "(numeral n :: int) \<le> 2 ^ 53 \<Longrightarrow> fixed 0 (Fin (numeral n)) = numeral n"
  "(numeral n :: int) \<le> 2 ^ 53 \<Longrightarrow> fixed 0 (Fin (- numeral n)) = - numeral n"
  using fixed_int[of 0] fixed_int[of 1] fixed_int[of "-1"] fixed_int[of "numeral n"] fixed_int[of "- numeral n"] by simp_all

lemma Pow_square: "\<bar>i * i\<bar> \<le> 2 ^ 53 \<Longrightarrow> Pow_int (Fin (of_int i)) 2 = Fin (of_int (i * i))"
proof -
  assume i: "\<bar>i * i\<bar> \<le> 2 ^ 53"
  have f: "f64 (of_int (i * i)) = of_int (i * i)" using f64_exact[OF i, of 0] by simp
  have "pow_loop 2 1 (of_int i) = of_int (i * i)"
    using f by (simp add: pow_loop.simps[of 2] pow_loop.simps[of "Suc 0"] pow_loop.simps[of 0])
  then show ?thesis using fround_int[OF i] by simp
qed

lemma Pow_squares: "Pow_int (Fin 0) 2 = Fin 0" "Pow_int (Fin 1) 2 = Fin 1" "Pow_int (Fin 2) 2 = Fin 4"
  using Pow_square[of 1] Pow_square[of 2] by (simp_all del: Pow_int.simps) simp

lemma scale_factor_0: "scale_factor 0 = 1"
  using fixed_nums(2) fround_nums(2) by (simp add: scale_factor_def fixed_def Pow10_def)

lemma row_id_0: "row_id (Fin 0 # r) = vret 0"
  using float_key[of 0] float_of_exact[of 0] by (simp add: row_id_def cell_def)

lemma demo_vencrypt: "m < 35 \<Longrightarrow> vencrypt (sk_PublicKey demo_sk) [Some 2] m = vret (36 ^ nat (m mod 35) mod 1225 * 18 mod 1225)"
proof -
  assume "m < 35"
  moreover have "gcd (2 :: int) 35 = 1" by code_simp
  moreover have "\<not> m mod 35 < 0" by simp
  ultimately show ?thesis by (simp add: vencrypt_def EncryptSupNegNum_def cipher_of_def BigExp_def demo_sk_def cbind_def of_cres_def)
qed

lemma demo_vmult: "0 \<le> k \<Longrightarrow> vmult (sk_PublicKey demo_sk) (Some c) k = vret (c ^ nat k mod 1225)"
  by (simp add: vmult_def deref_def CypherPlainMultiply_def BigExp_def demo_sk_def)

lemma demo_sum: "CyphersAdd (sk_PublicKey demo_sk) cs = foldl (\<lambda>a c. (a * c) mod 1225) 1 cs"
  by (simp add: CyphersAdd_def demo_sk_def)

lemma demo_coin: "cn_draw vl_demo_coin i j = [Some 2]" "vnoise vl_demo_coin = vret 1"
  subgoal by (simp add: vl_demo_coin_def)
  by code_simp

lemmas demo_vl = fround_nums fixed_nums Pow_squares scale_factor_0 row_id_0 demo_vencrypt demo_coin cell_def
  reg_cost_def RegLasso_def RegRidge_def fsub_def Let_def

subsection \<open>Linear regression\<close>

definition lin_demo_A :: "RawLocalGradientPart \<times> EncLocalGradientPart" where
  "lin_demo_A = (\<lparr>RawGradPart = [(0, 2)], RawGradPartSquare = [(0, 4)], RawRegCost = 0\<rparr>,
     \<lparr>EncGradPart = [(0, Some 53)], EncGradPartSquare = [(0, Some 88)], EncRegCost = Some 18\<rparr>)"

definition lin_demo_B :: "RawLocalGradientPart \<times> EncLocalGradientPart" where
  "lin_demo_B = (\<lparr>RawGradPart = [(0, 1)], RawGradPartSquare = [(0, 1)], RawRegCost = 0\<rparr>,
     \<lparr>EncGradPart = [(0, Some 648)], EncGradPartSquare = [(0, Some 648)], EncRegCost = Some 18\<rparr>)"

lemma lin_demo_local_A: "al_local linear_algo False vl_demo_coin [Fin 2] (td_TrainSet (vl_demo_set False)) 0 0 (Fin 0)
    (sk_PublicKey demo_sk) = Some (Inr lin_demo_A)"
  by (simp add: linear_algo_def CalLocalGradientPart_def local_part_def predictNoTag_def vl_demo_set_def vret_def lin_demo_A_def
      demo_vl del: Pow_int.simps)


lemma lin_demo_cost_row:
  "cost_row checked vl_demo_coin (fst lin_demo_B) (snd lin_demo_A) 0 (sk_PublicKey demo_sk) 648 0 0 r = vret 732"
  "cost_row deref vl_demo_coin (fst lin_demo_A) (snd lin_demo_B) 0 (sk_PublicKey demo_sk) 648 0 0 r = vret 743"
  unfolding cost_row_def Let_def scale_factor_0 lin_demo_A_def lin_demo_B_def
  by (simp_all add: checked_def deref_def demo_coin demo_vencrypt demo_vmult) (simp_all add: demo_sum)

lemma lin_demo_gradient_row:
  "gradient_row (fixed 0) vl_demo_coin (fst lin_demo_B) (snd lin_demo_A) 0 (sk_PublicKey demo_sk) 648 0 0 [Fin 0, Fin 1, Fin 0] =
    vret 337" (is ?A)
  "gradient_row (rounded_factor 0) vl_demo_coin (fst lin_demo_A) (snd lin_demo_B) 0 (sk_PublicKey demo_sk) 648 0 0 [Fin 0, Fin 1] =
    vret 337" (is ?B)
proof -
  have "rounded_factor 0 (Fin 1) = 1"
    using fixed_nums(2) fround_nums(2) by (simp add: rounded_factor_def scale_factor_0 fixed_def Pow10_def)
  then show ?A and ?B
    unfolding gradient_row_def lin_demo_A_def lin_demo_B_def
    by (simp_all add: checked_def demo_coin demo_vencrypt demo_vmult cell_def fixed_nums) (simp_all add: demo_sum)
qed

lemma lin_demo_bytes: "al_from_bytes linear_algo E (al_to_bytes linear_algo (snd lin_demo_A)) = vret (snd lin_demo_A)"
  "al_from_bytes linear_algo E (al_to_bytes linear_algo (snd lin_demo_B)) = vret (snd lin_demo_B)"
  by (simp_all add: linear_algo_def lin_demo_A_def lin_demo_B_def LinearEncGradientPart_roundtrip part_keys_def good_keys_def
      in_int64_def sorted_imap_def)

lemma demo_noise: "vencrypt (sk_PublicKey demo_sk) [Some 2] 1 = vret 648"
  by (simp add: demo_vencrypt)

lemma lin_demo_run:
  "CalEncGradientAndCost linear_algo vl_demo_env (\<lambda>_. vl_demo_coin) (fst lin_demo_B) (al_to_bytes linear_algo (snd lin_demo_A))
    (vl_demo_set True) (vl_demo_params True) (HomoPubkeyToBytes (sk_PublicKey demo_sk)) [Fin 1] 0 =
    Some (Inr (GradListToBytes [[(0, Some 337)]], CostToBytes [(0, Some 732)], [1], 1))"
  "CalEncGradientAndCost linear_algo vl_demo_env (\<lambda>_. vl_demo_coin) (fst lin_demo_A) (al_to_bytes linear_algo (snd lin_demo_B))
    (vl_demo_set False) (vl_demo_params False) (HomoPubkeyToBytes (sk_PublicKey demo_sk)) [Fin 2] 0 =
    Some (Inr (GradListToBytes [[(0, Some 337)]], CostToBytes [(0, Some 743)], [1], 1))"
  unfolding CalEncGradientAndCost_def lin_demo_bytes HomoPubkey_roundtrip
  by (simp_all add: GetBatchSetBySize_def vl_demo_set_def vl_demo_params_def linear_algo_def CalEncLocalGradientTagPart_def
      CalEncLocalGradient_def EvaluateEncLocalCostTag_def EvaluateEncLocalCost_def enc_gradient_def enc_cost_def
      demo_coin demo_noise row_id_0 lin_demo_cost_row lin_demo_gradient_row) (simp_all add: vret_def)

lemma lin_demo_fits:
  "round_fits 35 (linear_plain_cost True 0 (fst lin_demo_B) (fst lin_demo_A))
    (\<lambda>i k. linear_plain_gradient True 0 (fst lin_demo_B) (fst lin_demo_A) i k (row_at (td_TrainSet (vl_demo_set True)) [0] k)) [0] 1 [1] 1"
  "round_fits 35 (linear_plain_cost False 0 (fst lin_demo_A) (fst lin_demo_B))
    (\<lambda>i k. linear_plain_gradient False 0 (fst lin_demo_A) (fst lin_demo_B) i k (row_at (td_TrainSet (vl_demo_set False)) [0] k)) [0] 1 [1] 1"
proof -
  have "rounded_factor 0 (Fin 1) = 1"
    using fixed_nums(2) fround_nums(2) by (simp add: rounded_factor_def scale_factor_0 fixed_def Pow10_def)
  then show "round_fits 35 (linear_plain_cost True 0 (fst lin_demo_B) (fst lin_demo_A))
    (\<lambda>i k. linear_plain_gradient True 0 (fst lin_demo_B) (fst lin_demo_A) i k (row_at (td_TrainSet (vl_demo_set True)) [0] k)) [0] 1 [1] 1"
    and "round_fits 35 (linear_plain_cost False 0 (fst lin_demo_A) (fst lin_demo_B))
    (\<lambda>i k. linear_plain_gradient False 0 (fst lin_demo_A) (fst lin_demo_B) i k (row_at (td_TrainSet (vl_demo_set False)) [0] k)) [0] 1 [1] 1"
    by (simp_all add: round_fits_def linear_plain_cost_def plain_cost_def linear_plain_gradient_def plain_gradient_def
        lin_demo_A_def lin_demo_B_def vl_demo_set_def row_at_def in_window_def scale_factor_0 fixed_nums)
qed

lemma vl_demo_batch: "GetBatchSetBySize (ve_base vl_demo_env) (td_TrainSet (vl_demo_set t)) (tp_BatchSize (vl_demo_params t)) 0 False =
    Some (Inr (td_TrainSet (vl_demo_set t), td_TrainSet (vl_demo_set t)))"
  by (simp add: GetBatchSetBySize_def vl_demo_params_def vret_def)

lemma vl_demo_ids: "ids_of (td_TrainSet (vl_demo_set t)) [0]"
  by (simp add: ids_of_def vl_demo_set_def row_id_0)

lemma vl_demo_tag: "tp_IsTagPart (vl_demo_params t) = t" "tp_Accuracy (vl_demo_params t) = 0" "pk_N (sk_PublicKey demo_sk) = 35"
  by (simp_all add: vl_demo_params_def demo_sk_def)

subsection \<open>Logistic regression\<close>

definition lgc_demo_A :: logic_part where
  "lgc_demo_A = (\<lparr>RawPart1 = [(0, 4)], RawPart2 = [(0, 2)], RawPart3 = [], RawPart4 = [], RawPart5 = [], lg_RawRegCost = 0\<rparr>,
     \<lparr>EncPart1 = [(0, Some 88)], EncPart2 = [(0, Some 53)], EncPart3 = [], EncPart4 = [], EncPart5 = [], lg_EncRegCost = Some 18\<rparr>)"

definition lgc_demo_B :: logic_part where
  "lgc_demo_B = (\<lparr>RawPart1 = [(0, -1)], RawPart2 = [(0, -2)], RawPart3 = [(0, 2)], RawPart4 = [(0, 1)], RawPart5 = [(0, 2)],
       lg_RawRegCost = 0\<rparr>,
     \<lparr>EncPart1 = [(0, Some 613)], EncPart2 = [(0, Some 1208)], EncPart3 = [(0, Some 53)], EncPart4 = [(0, Some 648)],
       EncPart5 = [(0, Some 53)], lg_EncRegCost = Some 18\<rparr>)"

definition lgc_demo_set :: TrainDataSet where
  "lgc_demo_set = (vl_demo_set False)\<lparr>td_TrainSet := [[Fin 0, Fin 4]]\<rparr>"

lemma fround_halves: "fround (1 / 2) = Fin (1 / 2)" "fround (- (1 / 2)) = Fin (- (1 / 2))" "fround (3 / 2) = Fin (3 / 2)"
  "fround (1 / 4) = Fin (1 / 4)"
  using fround_exact[of 1 "-1"] fround_exact[of "-1" "-1"] fround_exact[of 3 "-1"] fround_exact[of 1 "-2"]
  by (simp_all add: power_int_minus_divide)

lemma fixed_halves: "fixed 0 (Fin (1 / 2)) = 1" "fixed 0 (Fin (- (1 / 2))) = -1" "fixed 0 (Fin (3 / 2)) = 2"
  using fround_halves by (simp_all add: fixed_def Pow10_def round_away_def trunc_rat_def)

lemma lgc_demo_local_B: "al_local logic_algo True vl_demo_coin [Fin 4] (td_TrainSet (vl_demo_set True)) 0 0 (Fin 0)
    (sk_PublicKey demo_sk) = Some (Inr (fst lgc_demo_B, snd lgc_demo_B))"
proof -
  have "Pow_int (Fin 4) 2 = Fin 16" using Pow_square[of 4] by (simp del: Pow_int.simps)
  then show ?thesis
    by (simp add: logic_algo_def CalLocalGradAndCostTagPart_def predict_def empty_logic_part_def logic_reg_part_def vret_def
        vl_demo_set_def lgc_demo_B_def demo_vl fround_halves fixed_halves vencrypt_unchecked_def del: Pow_int.simps)
qed

lemma lnHalf_0: "lnHalf 0 = -1"
proof -
  have "fround (- (6243314768165359 / 2 ^ 53)) = LogHalf"
    using fround_exact[of "-6243314768165359" "-53"] by (simp add: LogHalf_def power_int_minus_divide)
  moreover have "\<lfloor>6243314768165359 / 2 ^ 53 + 1 / 2 :: rat\<rfloor> = 1" by (rule floor_unique) simp_all
  ultimately show ?thesis by (simp add: lnHalf_def fixed_def Pow10_def LogHalf_def round_away_def trunc_rat_def)
qed

lemma demo_inverses: "ModInverse 36 1225 = Some 1191" "ModInverse 53 1225 = Some 1017" "ModInverse 1166 1225 = Some 436"
  by code_simp+

lemma demo_vmult_minus: "ModInverse c 1225 = Some d \<Longrightarrow> vmult (sk_PublicKey demo_sk) (Some c) (-1) = vret (d mod 1225)"
  by (simp add: vmult_def deref_def CypherPlainMultiply_def BigExp_def demo_sk_def)

lemma demo_plains: "CypherPlainsAdd (sk_PublicKey demo_sk) c [4, 1] = Inr (c * 36 ^ 4 mod 1225 * 36 mod 1225)"
  "CypherPlainsAdd (sk_PublicKey demo_sk) c [-1, -2, 1] = Inr (c * 1191 mod 1225 * (1191\<^sup>2 mod 1225) mod 1225 * 36 mod 1225)"
  by (simp_all add: demo_sk_def BigExp_def demo_inverses Let_def mod_simps)

lemma lgc_demo_cost_row: "logic_cost_row (fst lgc_demo_A) (snd lgc_demo_B) 0 (sk_PublicKey demo_sk) 1 0 0 r = vret 736"
  unfolding logic_cost_row_def Let_def scale_factor_0 lnHalf_0 lgc_demo_A_def lgc_demo_B_def
  by (simp add: deref_def nil_get_def demo_vmult demo_vmult_minus demo_inverses del: CypherPlainsAdd.simps)
    (simp add: demo_sum demo_plains of_cres_def del: CypherPlainsAdd.simps)

lemma lgc_demo_gradient_row:
  "logic_gradient_row (fst lgc_demo_A) (snd lgc_demo_B) 0 0 (sk_PublicKey demo_sk) 1 0 0 [Fin 0, Fin 4] = vret 956"
proof -
  have "quarter_factor 0 (Fin 4) = 1" using fround_nums(2) by (simp add: quarter_factor_def fixed_nums)
  then show ?thesis
    by (simp add: logic_gradient_row_def lgc_demo_A_def lgc_demo_B_def cell_def deref_def nil_get_def demo_vmult fixed_nums
        demo_plains of_cres_def del: CypherPlainsAdd.simps)
qed

lemma lgc_demo_bytes: "al_from_bytes logic_algo E (al_to_bytes logic_algo (snd lgc_demo_B)) = vret (snd lgc_demo_B)"
  by (simp add: logic_algo_def lgc_demo_B_def LogicEncGradAndCostPart_roundtrip logic_keys_def good_keys_def
      in_int64_def sorted_logic_def sorted_imap_def)

lemma lgc_demo_run:
  "CalEncGradientAndCost logic_algo vl_demo_env (\<lambda>_. vl_demo_coin) (fst lgc_demo_A) (al_to_bytes logic_algo (snd lgc_demo_B))
    lgc_demo_set (vl_demo_params False) (HomoPubkeyToBytes (sk_PublicKey demo_sk)) [Fin 1] 0 =
    Some (Inr (GradListToBytes [[(0, Some 956)]], CostToBytes [(0, Some 736)], [1], 1))"
  unfolding CalEncGradientAndCost_def lgc_demo_bytes HomoPubkey_roundtrip
  by (simp add: GetBatchSetBySize_def lgc_demo_set_def vl_demo_params_def logic_algo_def logic_CalEncLocalGradient_def
      logic_EvaluateEncLocalCost_def demo_coin row_id_0 lgc_demo_cost_row lgc_demo_gradient_row) (simp add: vret_def)

lemma lgc_demo_fits:
  "round_fits 35 (logic_plain_cost False 0 (fst lgc_demo_A) (fst lgc_demo_B))
    (\<lambda>i k. logic_plain_gradient False 0 (fst lgc_demo_A) (fst lgc_demo_B) i k (row_at [[Fin 0, Fin 4]] [0] k)) [0] 1 [1] 1"
proof -
  have "quarter_factor 0 (Fin 4) = 1" using fround_nums(2) by (simp add: quarter_factor_def fixed_nums)
  then show ?thesis
    by (simp add: round_fits_def logic_plain_cost_def logic_plain_gradient_def lgc_demo_A_def lgc_demo_B_def row_at_def
        in_window_def scale_factor_0 fixed_nums lnHalf_0 Let_def)
qed

section \<open>Properties\<close>

text \<open>
  C31: A round of linear regression computes what it would compute on plain numbers. When a party has
  combined its part with the part of the other party under the key of the other one, the other one
  decrypts, and the first one updates its parameters and its cost, without errors; the new
  parameters and the cost are those of the fixed-point numbers of both parts, as long as the numbers
  with the random ones added lie in the window of the key.
\<close>
theorem linear_round_exact:
  assumes "key_from p q sk"
    and "al_local linear_algo t K thetas' rows' accuracy regMode regParam (sk_PublicKey sk) = Some (Inr (otherRaw, otherEnc))"
    and "CalEncGradientAndCost linear_algo E Ks own (LinearEncGradientPartToBytes otherEnc) trainSet params
      (HomoPubkeyToBytes (sk_PublicKey sk)) thetas rnd = Some (Inr (gradBytes, costBytes, noises, costNoise))"
    and "GetBatchSetBySize (ve_base E) (td_TrainSet trainSet) (tp_BatchSize params) rnd False = Some (Inr (rows, rest))"
    and "ids_of rows ids" and "distinct ids"
    and "round_fits (pk_N (sk_PublicKey sk)) (linear_plain_cost (tp_IsTagPart params) (tp_Accuracy params) own otherRaw)
      (\<lambda>i k. linear_plain_gradient (tp_IsTagPart params) (tp_Accuracy params) own otherRaw i k (row_at rows ids k))
      ids (length thetas) noises costNoise"
  shows "\<exists>decGrad decCost. DecGradientAndCost E gradBytes costBytes sk = vret (decGrad, decCost) \<and>
    UpdateGradient E decGrad noises thetas params = plain_update E params thetas
      (\<lambda>i k. linear_plain_gradient (tp_IsTagPart params) (tp_Accuracy params) own otherRaw i k (row_at rows ids k)) ids 0 (length thetas) \<and>
    UpdateCost linear_algo E decCost (Some costNoise) params = vret (CalCost (ve_visit E)
      (plain_map (tp_Accuracy params) (linear_plain_cost (tp_IsTagPart params) (tp_Accuracy params) own otherRaw) ids))"
proof -
  have "al_to_bytes linear_algo = LinearEncGradientPartToBytes" "al_mean_cost linear_algo = CalCost"
    by (simp_all add: linear_algo_def)
  from lin.round_exact[OF assms(1,2), unfolded this, OF assms(3-7)] show ?thesis .
qed

lemma linear_round_exact_witness:
  "\<exists>decGrad decCost. DecGradientAndCost vl_demo_env (GradListToBytes [[(0, Some 337)]]) (CostToBytes [(0, Some 732)]) demo_sk =
    vret (decGrad, decCost)"
proof -
  have l: "al_local linear_algo False vl_demo_coin [Fin 2] (td_TrainSet (vl_demo_set False)) 0 0 (Fin 0) (sk_PublicKey demo_sk) =
      Some (Inr (fst lin_demo_A, snd lin_demo_A))"
    using lin_demo_local_A by simp
  have b: "al_to_bytes linear_algo = LinearEncGradientPartToBytes" by (simp add: linear_algo_def)
  have "\<exists>decGrad decCost. DecGradientAndCost vl_demo_env (GradListToBytes [[(0, Some 337)]]) (CostToBytes [(0, Some 732)]) demo_sk =
      vret (decGrad, decCost) \<and>
    UpdateGradient vl_demo_env decGrad [1] [Fin 1] (vl_demo_params True) = plain_update vl_demo_env (vl_demo_params True) [Fin 1]
      (\<lambda>i k. linear_plain_gradient (tp_IsTagPart (vl_demo_params True)) (tp_Accuracy (vl_demo_params True)) (fst lin_demo_B)
        (fst lin_demo_A) i k (row_at (td_TrainSet (vl_demo_set True)) [0] k)) [0] 0 (length [Fin 1]) \<and>
    UpdateCost linear_algo vl_demo_env decCost (Some 1) (vl_demo_params True) = vret (CalCost (ve_visit vl_demo_env)
      (plain_map (tp_Accuracy (vl_demo_params True)) (linear_plain_cost (tp_IsTagPart (vl_demo_params True))
        (tp_Accuracy (vl_demo_params True)) (fst lin_demo_B) (fst lin_demo_A)) [0]))"
    by (rule linear_round_exact[OF demo_sk l lin_demo_run(1)[unfolded b] vl_demo_batch vl_demo_ids])
      (use lin_demo_fits in \<open>simp_all add: vl_demo_tag\<close>)
  then show ?thesis by blast
qed

text \<open>
  C32: A round of logistic regression computes what it would compute on plain numbers: the gradient of
  the polynomial of degree one and the cost of the polynomial of degree two, both in fixed-point
  numbers of the parts of the two parties, as long as they lie in the window of the key with the
  random numbers added.
\<close>
theorem logic_round_exact:
  assumes "key_from p q sk"
    and "al_local logic_algo t K thetas' rows' accuracy regMode regParam (sk_PublicKey sk) = Some (Inr (otherRaw, otherEnc))"
    and "logic_CalEncGradientAndCost E Ks own (LogicEncGradAndCostPartToBytes otherEnc) trainSet params
      (HomoPubkeyToBytes (sk_PublicKey sk)) thetas rnd = Some (Inr (gradBytes, costBytes, noises, costNoise))"
    and "GetBatchSetBySize (ve_base E) (td_TrainSet trainSet) (tp_BatchSize params) rnd False = Some (Inr (rows, rest))"
    and "ids_of rows ids" and "distinct ids"
    and "round_fits (pk_N (sk_PublicKey sk)) (logic_plain_cost (tp_IsTagPart params) (tp_Accuracy params) own otherRaw)
      (\<lambda>i k. logic_plain_gradient (tp_IsTagPart params) (tp_Accuracy params) own otherRaw i k (row_at rows ids k))
      ids (length thetas) noises costNoise"
  shows "\<exists>decGrad decCost. logic_DecGradientAndCost E gradBytes costBytes sk = vret (decGrad, decCost) \<and>
    logic_UpdateGradient E decGrad noises thetas params = plain_update E params thetas
      (\<lambda>i k. logic_plain_gradient (tp_IsTagPart params) (tp_Accuracy params) own otherRaw i k (row_at rows ids k)) ids 0 (length thetas) \<and>
    logic_UpdateCost E decCost (Some costNoise) params = vret (logic_CalCost (ve_visit E)
      (plain_map (tp_Accuracy params) (logic_plain_cost (tp_IsTagPart params) (tp_Accuracy params) own otherRaw) ids))"
proof -
  have "al_to_bytes logic_algo = LogicEncGradAndCostPartToBytes" "al_mean_cost logic_algo = logic_CalCost"
    by (simp_all add: logic_algo_def)
  from lgc.round_exact[OF assms(1,2), unfolded this, OF assms(3)[unfolded logic_train_defs] assms(4-7)]
  show ?thesis unfolding logic_train_defs .
qed

lemma logic_round_exact_witness:
  "\<exists>decGrad decCost. logic_DecGradientAndCost vl_demo_env (GradListToBytes [[(0, Some 956)]]) (CostToBytes [(0, Some 736)]) demo_sk =
    vret (decGrad, decCost)"
proof -
  have b: "al_to_bytes logic_algo = LogicEncGradAndCostPartToBytes" by (simp add: logic_algo_def)
  have s: "GetBatchSetBySize (ve_base vl_demo_env) (td_TrainSet lgc_demo_set) (tp_BatchSize (vl_demo_params False)) 0 False =
      Some (Inr ([[Fin 0, Fin 4]], [[Fin 0, Fin 4]]))" "ids_of [[Fin 0, Fin 4]] [0]"
    by (simp_all add: GetBatchSetBySize_def vl_demo_params_def vret_def lgc_demo_set_def ids_of_def row_id_0)
  have "\<exists>decGrad decCost. logic_DecGradientAndCost vl_demo_env (GradListToBytes [[(0, Some 956)]]) (CostToBytes [(0, Some 736)]) demo_sk =
      vret (decGrad, decCost) \<and>
    logic_UpdateGradient vl_demo_env decGrad [1] [Fin 1] (vl_demo_params False) = plain_update vl_demo_env (vl_demo_params False) [Fin 1]
      (\<lambda>i k. logic_plain_gradient (tp_IsTagPart (vl_demo_params False)) (tp_Accuracy (vl_demo_params False)) (fst lgc_demo_A)
        (fst lgc_demo_B) i k (row_at [[Fin 0, Fin 4]] [0] k)) [0] 0 (length [Fin 1]) \<and>
    logic_UpdateCost vl_demo_env decCost (Some 1) (vl_demo_params False) = vret (logic_CalCost (ve_visit vl_demo_env)
      (plain_map (tp_Accuracy (vl_demo_params False)) (logic_plain_cost (tp_IsTagPart (vl_demo_params False))
        (tp_Accuracy (vl_demo_params False)) (fst lgc_demo_A) (fst lgc_demo_B)) [0]))"
    by (rule logic_round_exact[OF demo_sk lgc_demo_local_B lgc_demo_run[unfolded b, folded logic_CalEncGradientAndCost_def] s])
      (use lgc_demo_fits in \<open>simp_all add: vl_demo_tag\<close>)
  then show ?thesis by blast
qed



text \<open>
  C34: The form of a training set. What both algorithms make of a file has a row for every line, in the
  order of the lines; all rows have the same length, one place for the number, one for every column
  of the file and, for the party with the label, one for the intercept; and the numbers that the
  rounds read from the rows count from zero.
\<close>
theorem training_set_form:
  assumes "getTrainSet = linear_GetTrainDataSetFromFile \<or> getTrainSet = logic_GetTrainDataSetFromFile"
    and "getTrainSet E (names # lines) params = Some (Inr td)" and "length lines \<le> 2 ^ 52"
  shows "length (td_TrainSet td) = length lines \<and>
    (\<forall>r \<in> set (td_TrainSet td). length r = length names + (if tp_IsTagPart params then 2 else 1)) \<and>
    ids_of (td_TrainSet td) (map int [0..<length lines])"
proof -
  let ?w = "length names + (if tp_IsTagPart params then 2 else 1)"
  have n: "numbered ?w (length lines) (td_TrainSet td)"
    using linear_train_set_shape[of E names lines params td] logic_train_set_shape[of E names lines params td] assms(1,2) by blast
  moreover have "ids_of (td_TrainSet td) (map int [0..<length lines])" by (rule numbered_ids[OF n _ assms(3)]) simp
  ultimately show ?thesis by (auto simp: numbered_def in_set_conv_nth)
qed

lemma training_set_form_witness:
  "\<exists>td. linear_GetTrainDataSetFromFile vl_demo_env [[''x''], [''1'']] (vl_demo_params False) = Some (Inr td) \<and>
    ids_of (td_TrainSet td) [0]"
proof -
  have "\<exists>td. linear_GetTrainDataSetFromFile vl_demo_env [[''x''], [''1'']] (vl_demo_params False) = Some (Inr td)"
    by (simp add: linear_GetTrainDataSetFromFile_def ImportFeaturesForLinReg_def empty_features_def checked_def vl_demo_env_def
        StandardizeDataSet_def standardize_def PreProcessDataSetNoTag_def number_rows_def put_cell_def vl_demo_params_def Let_def)
      (simp add: vret_def)
  then obtain td where td: "linear_GetTrainDataSetFromFile vl_demo_env [[''x''], [''1'']] (vl_demo_params False) = Some (Inr td)" by blast
  with training_set_form[OF disjI1[OF refl] td] show ?thesis by simp
qed

text \<open>
  C35: In every round both parties take the same samples in the same order. If the rows of their sets
  have the same numbers in the same order, so have their batches, and so have the sets that the
  round leaves, so that it holds for the next round; the second look at the batch of the round finds
  the same samples; and no sample is lost unless two places have the same hash.
\<close>
theorem parties_batches_aligned:
  assumes "GetBatchSetBySize E setA batchSize rnd True = Some (Inr (batchA, restA))"
    and "GetBatchSetBySize E setB batchSize rnd True = Some (Inr (batchB, restB))"
    and "map row_id setA = map row_id setB"
  shows "map row_id batchA = map row_id batchB \<and> map row_id restA = map row_id restB \<and>
    GetBatchSetBySize E restA batchSize rnd False = Some (Inr (batchA, restA)) \<and>
    set batchA \<subseteq> set restA \<and> (inj_on (place_hash E rnd) {..<length setA} \<longrightarrow> mset restA = mset setA)"
proof -
  have "set batchA \<subseteq> set restA \<and> (inj_on (place_hash E rnd) {..<length setA} \<longrightarrow> mset restA = mset setA)"
    using assms(1) by (auto simp: GetBatchSetBySize_def Let_def vl_ok mset_randTrainSet
        dest!: in_set_takeD in_set_dropD split: if_splits)
  with batches_share[OF assms] batch_again[OF assms(1)] show ?thesis by blast
qed

lemma parties_batches_aligned_witness:
  "\<exists>batchA batchB. GetBatchSetBySize mem_env [[Fin 0, Fin 5], [Fin 0, Fin 6]] 1 2 True = Some (Inr batchA) \<and>
    GetBatchSetBySize mem_env [[Fin 0], [Fin 0]] 1 2 True = Some (Inr batchB) \<and> map row_id (fst batchA) = map row_id (fst batchB)"
proof -
  obtain a b c d where r: "GetBatchSetBySize mem_env [[Fin 0, Fin 5], [Fin 0, Fin 6]] 1 2 True = Some (Inr (a, b))"
    "GetBatchSetBySize mem_env [[Fin 0], [Fin 0]] 1 2 True = Some (Inr (c, d))"
    by (simp add: GetBatchSetBySize_def Let_def) (auto simp: vret_def)
  from parties_batches_aligned[OF r] r show ?thesis by (auto simp: row_id_0)
qed

text \<open>
  C36: The party without the label loses the fractions of its features. In linear regression it rounds
  the value of a feature to an integer before it multiplies with the power of ten, so the encrypted
  gradients are the same for all features that round to the same integers. Standardized features
  are mostly between -1/2 and 1/2.
\<close>
theorem features_rounded_without_label:
  assumes "list_all2 (\<lambda>r r'. row_id r = row_id r' \<and> featureIndex + 1 < length r \<and> featureIndex + 1 < length r' \<and>
    Round (r ! (featureIndex + 1)) = Round (r' ! (featureIndex + 1))) trainSet trainSet'"
  shows "CalEncLocalGradient K localPart tagPart trainSet featureIndex accuracy pk =
    CalEncLocalGradient K localPart tagPart trainSet' featureIndex accuracy pk"
proof -
  have "enc_rows (gradient_row (rounded_factor accuracy) K localPart tagPart featureIndex pk c) i trainSet m =
      enc_rows (gradient_row (rounded_factor accuracy) K localPart tagPart featureIndex pk c) i trainSet' m" for c i m
    using assms
  proof (induction trainSet trainSet' arbitrary: i m rule: list_all2_induct)
    case (Cons r rs r' rs')
    then have "gradient_row (rounded_factor accuracy) K localPart tagPart featureIndex pk c i ident r =
        gradient_row (rounded_factor accuracy) K localPart tagPart featureIndex pk c i ident r'" for ident
      by (simp add: gradient_row_def cell_def rounded_factor_def)
    with Cons show ?case by simp
  qed simp
  then show ?thesis by (simp add: CalEncLocalGradient_def enc_gradient_def)
qed

lemma features_rounded_without_label_witness:
  "CalEncLocalGradient vl_demo_coin (fst lin_demo_A) (snd lin_demo_B) [[Fin 0, Fin (2 / 5)]] 0 6 (sk_PublicKey demo_sk) =
    CalEncLocalGradient vl_demo_coin (fst lin_demo_A) (snd lin_demo_B) [[Fin 0, Fin (- 2 / 5)]] 0 6 (sk_PublicKey demo_sk)"
proof (rule features_rounded_without_label)
  have "\<lfloor>2 / 5 + 1 / 2 :: rat\<rfloor> = 0" by linarith
  then show "list_all2 (\<lambda>r r'. row_id r = row_id r' \<and> 0 + 1 < length r \<and> 0 + 1 < length r' \<and> Round (r ! (0 + 1)) = Round (r' ! (0 + 1)))
      [[Fin 0, Fin (2 / 5)]] [[Fin 0, Fin (- 2 / 5)]]"
    by (simp add: row_id_0 round_away_def)
qed

end
