(* ===== verification/VlProcess.thy ===== *)
theory VlProcess
  imports VlTrain
begin

text \<open>
  The state of a training run on one learner: \<^verbatim>\<open>dai/mpc/learners/linear_reg_vl/process.go\<close>. The file
  of logistic regression has the same text over the other functions, so the algorithm is a
  parameter.
\<close>

section \<open>Models\<close>

record TrainModels =
  tm_Thetas :: fmap
  tm_Xbars :: fmap
  tm_Sigmas :: fmap
  tm_Label :: string
  tm_IsTagPart :: bool
  tm_IdName :: string
  tm_Path :: string

text \<open>A missing parameter is an index out of range.\<close>

fun put_thetas :: "string list \<Rightarrow> float64 list \<Rightarrow> fmap \<Rightarrow> fmap vl" where
  "put_thetas [] thetas m = vret m"
| "put_thetas (n # ns) [] m = vpanic"
| "put_thetas (n # ns) (t # ts) m = put_thetas ns ts (AList.update n t m)"

definition thetasToMap :: "float64 list \<Rightarrow> TrainDataSet \<Rightarrow> bool \<Rightarrow> fmap vl" where
  "thetasToMap thetas trainDataSet isTagPart =
     (if isTagPart then (case thetas of [] \<Rightarrow> vpanic
        | t # ts \<Rightarrow> put_thetas (butlast (td_FeatureNames trainDataSet)) ts [(''Intercept'', t)])
      else put_thetas (td_FeatureNames trainDataSet) thetas [])"

text \<open>JSON has no infinities and no not-a-number. The result stands for its bytes.\<close>

definition finite_map :: "fmap \<Rightarrow> bool" where
  "finite_map m \<longleftrightarrow> list_all (\<lambda>(_, v). v \<notin> {PInf, NInf, NaN}) m"

definition TrainModelsToBytes :: "float64 list \<Rightarrow> TrainDataSet \<Rightarrow> TrainParams \<Rightarrow> TrainModels vl" where
  "TrainModelsToBytes thetas trainDataSet params =
     vbind (thetasToMap thetas trainDataSet (tp_IsTagPart params)) (\<lambda>thetaMap.
     if finite_map thetaMap \<and> finite_map (td_XbarParams trainDataSet) \<and> finite_map (td_SigmaParams trainDataSet)
     then vret \<lparr>tm_Thetas = thetaMap, tm_Xbars = td_XbarParams trainDataSet, tm_Sigmas = td_SigmaParams trainDataSet,
       tm_Label = tp_Label params, tm_IsTagPart = tp_IsTagPart params, tm_IdName = [], tm_Path = []\<rparr>
     else verr)"

section \<open>The state\<close>

text \<open>
  Empty byte slices are \<open>Raw []\<close>. Rounds are natural numbers: no run makes two to the power of 64 of
  them.
\<close>

record 'raw process =
  p_round :: nat
  homoPriv :: PrivateKey
  p_params :: TrainParams
  p_fileRows :: "string list list"
  trainDataSet :: "TrainDataSet option"
  homoPubOfOther :: blob
  p_cost :: float64
  lastCost :: float64
  thetas :: "float64 list"
  nextThetas :: "float64 list"
  rawPart :: "'raw option"
  partBytesForOther :: blob
  partBytesFromOther :: blob
  encGradForOther :: blob
  encGradFromOther :: blob
  encCostForOther :: blob
  encCostFromOther :: blob
  gradientNoise :: "int list"
  costNoise :: big
  gradBytesForOther :: blob
  gradBytesFromOther :: blob
  costBytesForOther :: blob
  costBytesFromOther :: blob
  p_stopped :: nat
  otherStopped :: nat
  calLocalGradientAndCostTimes :: nat
  calEncGradientAndCostTimes :: nat
  setEncGradientAndCostFromOtherTimes :: nat
  decGradientAndCostTimes :: nat
  setGradientAndCostFromOtherTimes :: nat
  partBytesFromOtherNextRound :: blob

abbreviation no_bytes :: blob where "no_bytes \<equiv> Raw []"

definition newProcess :: "PrivateKey \<Rightarrow> TrainParams \<Rightarrow> 'raw process" where
  "newProcess sk params = \<lparr>p_round = 0, homoPriv = sk, p_params = params, p_fileRows = [], trainDataSet = None,
     homoPubOfOther = no_bytes, p_cost = Fin 0, lastCost = Fin 0, thetas = [], nextThetas = [], rawPart = None,
     partBytesForOther = no_bytes, partBytesFromOther = no_bytes, encGradForOther = no_bytes,
     encGradFromOther = no_bytes, encCostForOther = no_bytes, encCostFromOther = no_bytes, gradientNoise = [],
     costNoise = None, gradBytesForOther = no_bytes, gradBytesFromOther = no_bytes, costBytesForOther = no_bytes,
     costBytesFromOther = no_bytes, p_stopped = 0, otherStopped = 0, calLocalGradientAndCostTimes = 0,
     calEncGradientAndCostTimes = 0, setEncGradientAndCostFromOtherTimes = 0, decGradientAndCostTimes = 0,
     setGradientAndCostFromOtherTimes = 0, partBytesFromOtherNextRound = no_bytes\<rparr>"

section \<open>The methods\<close>

text \<open>
  A method gives its result, or \<open>None\<close> for an error, and the state it leaves. There is nothing when it
  panics or never returns. Every method holds the mutex of the process, so it is one step.
\<close>

type_synonym ('a, 'raw) proc_method = "('a option \<times> 'raw process) option"

definition trying :: "'a vl \<Rightarrow> 'raw process \<Rightarrow> ('a \<Rightarrow> ('b, 'raw) proc_method) \<Rightarrow> ('b, 'raw) proc_method" where
  "trying r p k = (case r of None \<Rightarrow> None | Some (Inl VlPanic) \<Rightarrow> None | Some (Inl VlError) \<Rightarrow> Some (None, p)
     | Some (Inr x) \<Rightarrow> k x)"

definition process_init :: "('raw, 'enc) vl_algo \<Rightarrow> vl_env \<Rightarrow> 'raw process \<Rightarrow> string list list \<Rightarrow> (unit, 'raw) proc_method" where
  "process_init A E p fileRows =
     (let p = p\<lparr>p_fileRows := fileRows\<rparr> in
      trying (al_train_set A E fileRows (p_params p)) p (\<lambda>ds.
      let p = p\<lparr>trainDataSet := Some ds\<rparr> in
      trying (InitThetas ds (p_params p)) p (\<lambda>ts. Some (Some (), p\<lparr>thetas := ts\<rparr>))))"

definition upRound :: "'raw process \<Rightarrow> nat \<Rightarrow> (unit, 'raw) proc_method" where
  "upRound p newRound =
     (if newRound = p_round p then Some (Some (), p)
      else if newRound \<noteq> p_round p + 1 then Some (None, p)
      else Some (Some (), p\<lparr>p_round := p_round p + 1, lastCost := p_cost p, thetas := nextThetas p, p_cost := Fin 0,
        nextThetas := [], rawPart := None, partBytesForOther := no_bytes,
        partBytesFromOther := partBytesFromOtherNextRound p, partBytesFromOtherNextRound := no_bytes,
        encGradForOther := no_bytes, encGradFromOther := no_bytes, encCostForOther := no_bytes,
        encCostFromOther := no_bytes, gradientNoise := [], costNoise := None, gradBytesForOther := no_bytes,
        gradBytesFromOther := no_bytes, costBytesForOther := no_bytes, costBytesFromOther := no_bytes,
        p_stopped := 0, otherStopped := 0, calLocalGradientAndCostTimes := 0, calEncGradientAndCostTimes := 0,
        setEncGradientAndCostFromOtherTimes := 0, decGradientAndCostTimes := 0,
        setGradientAndCostFromOtherTimes := 0\<rparr>))"

definition calLocalGradientAndCost :: "('raw, 'enc) vl_algo \<Rightarrow> vl_env \<Rightarrow> coin \<Rightarrow> 'raw process \<Rightarrow> (blob \<times> nat, 'raw) proc_method" where
  "calLocalGradientAndCost A E K p =
     (if calLocalGradientAndCostTimes p \<noteq> 0
      then let t = calLocalGradientAndCostTimes p + 1 in
        Some (Some (partBytesForOther p, t), p\<lparr>calLocalGradientAndCostTimes := t\<rparr>)
      else case trainDataSet p of None \<Rightarrow> None
      | Some ds \<Rightarrow> trying (CalLocalGradientAndCost A E K ds (thetas p) (p_params p) (sk_PublicKey (homoPriv p)) (p_round p)) p
          (\<lambda>(raw, otherPartBytes, newSet). Some (Some (otherPartBytes, 1),
             p\<lparr>trainDataSet := Some (ds\<lparr>td_TrainSet := newSet\<rparr>), rawPart := Some raw,
               partBytesForOther := otherPartBytes, calLocalGradientAndCostTimes := 1\<rparr>)))"

definition setPartBytesFromOther :: "'raw process \<Rightarrow> blob \<Rightarrow> nat \<Rightarrow> (unit, 'raw) proc_method" where
  "setPartBytesFromOther p partBytes rnd =
     (if partBytes = no_bytes then Some (None, p)
      else if rnd = p_round p then Some (Some (), p\<lparr>partBytesFromOther := partBytes\<rparr>)
      else if rnd = p_round p + 1 then Some (Some (), p\<lparr>partBytesFromOtherNextRound := partBytes\<rparr>)
      else Some (None, p))"

definition calEncGradientAndCost :: "('raw, 'enc) vl_algo \<Rightarrow> vl_env \<Rightarrow> (nat \<Rightarrow> coin) \<Rightarrow> 'raw process \<Rightarrow>
    (blob \<times> blob \<times> nat, 'raw) proc_method" where
  "calEncGradientAndCost A E Ks p =
     (if calEncGradientAndCostTimes p \<noteq> 0
      then let t = calEncGradientAndCostTimes p + 1 in
        Some (Some (encGradForOther p, encCostForOther p, t), p\<lparr>calEncGradientAndCostTimes := t\<rparr>)
      else case rawPart p of None \<Rightarrow> Some (Some (no_bytes, no_bytes, 0), p)
      | Some raw \<Rightarrow> if partBytesFromOther p = no_bytes then Some (Some (no_bytes, no_bytes, 0), p)
        else case trainDataSet p of None \<Rightarrow> None
        | Some ds \<Rightarrow> trying (CalEncGradientAndCost A E Ks raw (partBytesFromOther p) ds (p_params p) (homoPubOfOther p)
            (thetas p) (p_round p)) p
          (\<lambda>(g, c, noises, noise). Some (Some (g, c, 1), p\<lparr>encGradForOther := g, encCostForOther := c,
             gradientNoise := noises, costNoise := Some noise, calEncGradientAndCostTimes := 1\<rparr>)))"

definition setEncGradientAndCostFromOther :: "'raw process \<Rightarrow> blob \<Rightarrow> blob \<Rightarrow> nat \<times> 'raw process" where
  "setEncGradientAndCostFromOther p g c =
     (let t = setEncGradientAndCostFromOtherTimes p + 1; p' = p\<lparr>setEncGradientAndCostFromOtherTimes := t\<rparr> in
      (t, if setEncGradientAndCostFromOtherTimes p \<noteq> 0 then p' else p'\<lparr>encGradFromOther := g, encCostFromOther := c\<rparr>))"

definition decGradientAndCost :: "vl_env \<Rightarrow> 'raw process \<Rightarrow> (blob \<times> blob \<times> nat, 'raw) proc_method" where
  "decGradientAndCost E p =
     (if decGradientAndCostTimes p \<noteq> 0
      then let t = decGradientAndCostTimes p + 1 in
        Some (Some (gradBytesForOther p, costBytesForOther p, t), p\<lparr>decGradientAndCostTimes := t\<rparr>)
      else trying (DecGradientAndCost E (encGradFromOther p) (encCostFromOther p) (homoPriv p)) p
        (\<lambda>(g, c). Some (Some (g, c, 1),
           p\<lparr>gradBytesForOther := g, costBytesForOther := c, decGradientAndCostTimes := 1\<rparr>)))"

definition SetGradientAndCostFromOther :: "'raw process \<Rightarrow> blob \<Rightarrow> blob \<Rightarrow> nat \<times> 'raw process" where
  "SetGradientAndCostFromOther p g c =
     (let t = setGradientAndCostFromOtherTimes p + 1; p' = p\<lparr>setGradientAndCostFromOtherTimes := t\<rparr> in
      (t, if setGradientAndCostFromOtherTimes p \<noteq> 0 then p' else p'\<lparr>gradBytesFromOther := g, costBytesFromOther := c\<rparr>))"

text \<open>In the first round there is no cost to compare with.\<close>

definition updateCostAndGradient :: "('raw, 'enc) vl_algo \<Rightarrow> vl_env \<Rightarrow> 'raw process \<Rightarrow> (bool, 'raw) proc_method" where
  "updateCostAndGradient A E p =
     (if p_stopped p \<noteq> 0 then Some (Some (p_stopped p = 1), p)
      else if gradBytesFromOther p = no_bytes \<or> gradientNoise p = [] then None
      else trying (UpdateGradient E (gradBytesFromOther p) (gradientNoise p) (thetas p) (p_params p)) p (\<lambda>ts.
        let p = p\<lparr>nextThetas := ts\<rparr> in
        if p_round p > 0
        then trying (UpdateCost A E (costBytesFromOther p) (costNoise p) (p_params p)) p (\<lambda>cost.
          let stopped = StopTraining (lastCost p) cost (p_params p) in
          Some (Some stopped, p\<lparr>p_cost := cost, p_stopped := (if stopped then 1 else 2)\<rparr>))
        else Some (Some False, p\<lparr>p_stopped := 2\<rparr>)))"

definition setOtherStatus :: "'raw process \<Rightarrow> bool \<Rightarrow> 'raw process" where
  "setOtherStatus p s = (if otherStopped p \<noteq> 0 then p else p\<lparr>otherStopped := (if s then 1 else 2)\<rparr>)"

definition process_stop :: "'raw process \<Rightarrow> bool \<times> bool" where
  "process_stop p = (let decided = otherStopped p \<noteq> 0 \<and> p_stopped p \<noteq> 0 in
     (decided, decided \<and> otherStopped p = 1 \<and> p_stopped p = 1))"

definition getTrainModels :: "'raw process \<Rightarrow> (TrainModels, 'raw) proc_method" where
  "getTrainModels p = (case trainDataSet p of None \<Rightarrow> None
     | Some ds \<Rightarrow> trying (TrainModelsToBytes (thetas p) ds (p_params p)) p (\<lambda>m. Some (Some m, p)))"

definition setHomoPubOfOther :: "'raw process \<Rightarrow> blob \<Rightarrow> 'raw process" where
  "setHomoPubOfOther p b = p\<lparr>homoPubOfOther := b\<rparr>"

section \<open>What the methods change\<close>

text \<open>The part of the state that decides when rounds begin and end.\<close>

record progress =
  pr_round :: nat
  pr_stopped :: nat
  pr_other :: nat
  pr_raw :: bool

definition progress_of :: "'raw process \<Rightarrow> progress" where
  "progress_of p = \<lparr>pr_round = p_round p, pr_stopped = p_stopped p, pr_other = otherStopped p, pr_raw = (rawPart p \<noteq> None)\<rparr>"

named_theorems process_effect \<open>what the methods of the process change\<close>

lemma trying_Some: "trying r p k = Some (x, q) \<longleftrightarrow>
    (r = Some (Inl VlError) \<and> x = None \<and> q = p) \<or> (\<exists>y. r = Some (Inr y) \<and> k y = Some (x, q))"
  by (auto simp: trying_def split: option.splits sum.splits vl_fault.splits)

lemma process_init_effect [process_effect]: "process_init A E p rows = Some (x, q) \<Longrightarrow> progress_of q = progress_of p"
  by (auto simp: process_init_def Let_def trying_Some progress_of_def)

lemma calLocal_effect [process_effect]: "calLocalGradientAndCost A E K p = Some (x, q) \<Longrightarrow>
    progress_of q = progress_of p \<or> progress_of q = (progress_of p)\<lparr>pr_raw := True\<rparr>"
  by (auto simp: calLocalGradientAndCost_def Let_def trying_Some progress_of_def split: if_splits option.splits)

lemma setPart_effect [process_effect]: "setPartBytesFromOther p b r = Some (x, q) \<Longrightarrow> progress_of q = progress_of p"
  by (auto simp: setPartBytesFromOther_def progress_of_def split: if_splits)

lemma calEnc_effect [process_effect]: "calEncGradientAndCost A E Ks p = Some (x, q) \<Longrightarrow> progress_of q = progress_of p"
  by (auto simp: calEncGradientAndCost_def Let_def trying_Some progress_of_def split: if_splits option.splits)

lemma calEnc_raw: "calEncGradientAndCost A E Ks p = Some (Some (g, c, 1), q) \<Longrightarrow> pr_raw (progress_of p)"
  by (auto simp: calEncGradientAndCost_def Let_def trying_Some progress_of_def split: if_splits option.splits)

lemma setEnc_effect [process_effect]: "setEncGradientAndCostFromOther p g c = (t, q) \<Longrightarrow> progress_of q = progress_of p"
  by (auto simp: setEncGradientAndCostFromOther_def Let_def progress_of_def split: if_splits)

lemma dec_effect [process_effect]: "decGradientAndCost E p = Some (x, q) \<Longrightarrow> progress_of q = progress_of p"
  by (auto simp: decGradientAndCost_def Let_def trying_Some progress_of_def split: if_splits)

lemma setGrad_effect [process_effect]: "SetGradientAndCostFromOther p g c = (t, q) \<Longrightarrow> progress_of q = progress_of p"
  by (auto simp: SetGradientAndCostFromOther_def Let_def progress_of_def split: if_splits)

lemma progress_of_upd:
  "progress_of (p\<lparr>nextThetas := ts\<rparr>) = progress_of p" "progress_of (p\<lparr>p_cost := c\<rparr>) = progress_of p"
  "progress_of (p\<lparr>p_stopped := n\<rparr>) = (progress_of p)\<lparr>pr_stopped := n\<rparr>" "pr_stopped (progress_of p) = p_stopped p"
  by (simp_all add: progress_of_def)

lemma update_effect [process_effect]:
  assumes "updateCostAndGradient A E p = Some (x, q)"
  shows "case x of None \<Rightarrow> progress_of q = progress_of p
     | Some b \<Rightarrow> (if pr_stopped (progress_of p) \<noteq> 0 then progress_of q = progress_of p \<and> b = (pr_stopped (progress_of p) = 1)
         else progress_of q = (progress_of p)\<lparr>pr_stopped := (if b then 1 else 2)\<rparr>)"
proof (cases "p_stopped p \<noteq> 0")
  case True
  with assms show ?thesis by (auto simp: updateCostAndGradient_def progress_of_upd)
next
  case False
  then have new: "\<not> pr_stopped (progress_of p) \<noteq> 0" by (simp add: progress_of_upd)
  note u = assms[unfolded updateCostAndGradient_def if_not_P[OF False]]
  have "\<not> (gradBytesFromOther p = no_bytes \<or> gradientNoise p = [])"
  proof
    assume b: "gradBytesFromOther p = no_bytes \<or> gradientNoise p = []"
    from u[unfolded if_P[OF b]] show False by simp
  qed
  from u[unfolded if_not_P[OF this] trying_Some] consider "x = None" "q = p" | ts where "(let p = p\<lparr>nextThetas := ts\<rparr> in
        if p_round p > 0
        then trying (UpdateCost A E (costBytesFromOther p) (costNoise p) (p_params p)) p (\<lambda>cost.
          let stopped = StopTraining (lastCost p) cost (p_params p) in
          Some (Some stopped, p\<lparr>p_cost := cost, p_stopped := (if stopped then 1 else 2)\<rparr>))
        else Some (Some False, p\<lparr>p_stopped := 2\<rparr>)) = Some (x, q)"
    by (elim disjE exE conjE) (rule that; assumption)+
  then show ?thesis
  proof cases
    case 1
    then show ?thesis by simp
  next
    case (2 ts)
    define p' where "p' = p\<lparr>nextThetas := ts\<rparr>"
    have p': "progress_of p' = progress_of p" by (simp add: p'_def progress_of_upd)
    note run = 2[unfolded Let_def, folded p'_def]
    show ?thesis
    proof (cases "0 < p_round p'")
      case True
      from run[unfolded if_P[OF True] trying_Some] consider "x = None" "q = p'"
        | c where "Some (Some (StopTraining (lastCost p') c (p_params p')),
            p'\<lparr>p_cost := c, p_stopped := (if StopTraining (lastCost p') c (p_params p') then 1 else 2)\<rparr>) = Some (x, q)"
        by (elim disjE exE conjE) (rule that; assumption)+
      then show ?thesis unfolding if_not_P[OF new] by cases (auto simp: progress_of_upd p' simp del: One_nat_def)
    next
      case False
      with run[unfolded if_not_P[OF False]] new p' show ?thesis by (auto simp: progress_of_upd)
    qed
  qed
qed

lemma setOther_effect [process_effect]: "progress_of (setOtherStatus p b) =
    (if pr_other (progress_of p) \<noteq> 0 then progress_of p else (progress_of p)\<lparr>pr_other := (if b then 1 else 2)\<rparr>)"
  by (simp add: setOtherStatus_def progress_of_def)

lemma upRound_effect [process_effect]: "upRound p r = Some (x, q) \<Longrightarrow>
    (if r = p_round p + 1 then progress_of q = \<lparr>pr_round = r, pr_stopped = 0, pr_other = 0, pr_raw = False\<rparr>
     else progress_of q = progress_of p)"
  by (auto simp: upRound_def progress_of_def split: if_splits)

lemma getTrainModels_effect [process_effect]: "getTrainModels p = Some (x, q) \<Longrightarrow> q = p"
  by (auto simp: getTrainModels_def trying_Some split: option.splits)

lemma setHomo_effect [process_effect]: "progress_of (setHomoPubOfOther p b) = progress_of p"
  by (simp add: setHomoPubOfOther_def progress_of_def)

end
