(* ===== verification/VlLearner.thy ===== *)
theory VlLearner
  imports VlProcess PsiProtocol "HOL-Library.Multiset"
begin

text \<open>
  The learner of \<^verbatim>\<open>dai/mpc/learners/linear_reg_vl/linear_reg_vl.go\<close>, with one definition for every
  kind of message; the learner of logistic regression has the same text over the other functions.
  Messages stand for their protobuf forms.
\<close>

section \<open>Messages and state\<close>

text \<open>
  The rounds are the field \<^verbatim>\<open>LoopRound\<close>. Only the other party sends \<open>MsgPsiReEnc\<close>, \<open>MsgHomoPubkey\<close>,
  \<open>MsgTrainPartBytes\<close>, \<open>MsgTrainEncGradCost\<close>, \<open>MsgTrainGradAndCost\<close> and \<open>MsgTrainStatus\<close>; the live
  evaluator sends \<open>MsgTrainSet\<close> and \<open>MsgContinueLoop\<close>; the learner sends the others to itself.
\<close>

datatype message =
    MsgPsiEnc
  | MsgPsiAskReEnc blob
  | MsgPsiReEnc string blob
  | MsgPsiIntersect
  | MsgTrainHup
  | MsgTrainSet nat "string list list"
  | MsgContinueLoop nat nat nat
  | MsgHomoPubkey blob
  | MsgTrainLoop nat
  | MsgTrainCalLocalGradCost nat
  | MsgTrainPartBytes nat blob
  | MsgTrainCalEncGradCost nat
  | MsgTrainEncGradCost nat blob blob
  | MsgTrainDecLocalGradCost nat
  | MsgTrainGradAndCost nat blob blob
  | MsgTrainUpdCostGrad nat
  | MsgTrainStatus nat bool
  | MsgTrainCheckStatus nat
  | MsgTrainModels nat
  | MsgCheckPauseRound nat

datatype learnerStatusType = learnerStatusStartPSI | learnerStatusEndPSI | learnerStatusStartTrain | learnerStatusEndTrain

text \<open>The result that the handler of results gets: an error, or a model with the rows it was trained on.\<close>

datatype train_result = TrainFailed | Trained TrainModels "string list list"

text \<open>
  What handling a message starts: a goroutine that handles a local message, sending a message to the
  other party with what is started when it has been answered, asking for the encryption of the
  identifiers, saving a result, and triggering live evaluation with the message for the evaluator
  and the one it calls back with.
\<close>

datatype activity =
    Go message
  | Send message "activity list"
  | Ask blob
  | SaveResult train_result
  | Trigger bool message message "string list list"

datatype reply = NoReply | Answered | AnsweredWith blob | Refused

record ('raw, 'p) learner =
  l_address :: string
  l_other :: string
  homoPub :: blob
  l_psi :: "'p vlTwoPartsPsi option"
  l_process :: "'raw process"
  loopRound :: nat
  lEvaluated :: bool
  triggerInter :: nat
  triggerRound :: nat
  l_fileRows :: "string list list"
  l_status :: learnerStatusType
  stopSigNeglected :: bool
  pauseRound :: nat

text \<open>The environment: the platform, the curve of the set intersection, orders of visits and entropy.\<close>

record 'p learn_env =
  le_vl :: vl_env
  le_psi :: "'p psi_env"
  le_order :: map_order
  le_parties :: party_order
  le_coins :: "nat \<Rightarrow> nat \<Rightarrow> coin"

text \<open>There is nothing when the handler panics, which ends the node, or never returns.\<close>

type_synonym ('raw, 'p) handled = "(('raw, 'p) learner \<times> activity list \<times> reply) option"

section \<open>Constructors\<close>

definition NewLearner :: "'p psi_env \<Rightarrow> bytes option \<Rightarrow> PrivateKey \<Rightarrow> string \<Rightarrow> TrainParams \<Rightarrow> bytes \<Rightarrow> string list \<Rightarrow> bool \<Rightarrow>
    (('raw, 'p) learner \<times> activity list) psi_res" where
  "NewLearner PE drawn sk address params samplesFile parties evaluated =
     pbind (NewVLTwoPartsPSI PE drawn address samplesFile (tp_IdName params) parties) (\<lambda>p.
     Inr (\<lparr>l_address = address, l_other = hd parties, homoPub = HomoPubkeyToBytes (sk_PublicKey sk), l_psi = Some p,
         l_process = newProcess sk params, loopRound = 0, lEvaluated = evaluated,
         triggerInter = (if evaluated then 5 else 0), triggerRound = 0, l_fileRows = [],
         l_status = learnerStatusStartPSI, stopSigNeglected = False, pauseRound = 0\<rparr>, [Go MsgPsiEnc]))"

text \<open>The learner of an evaluation gets its aligned samples by a message and has no set intersection.\<close>

definition NewLearnerWithoutSamples :: "PrivateKey \<Rightarrow> string \<Rightarrow> TrainParams \<Rightarrow> string list \<Rightarrow> ('raw, 'p) learner" where
  "NewLearnerWithoutSamples sk address params parties =
     \<lparr>l_address = address, l_other = hd parties, homoPub = HomoPubkeyToBytes (sk_PublicKey sk), l_psi = None,
      l_process = newProcess sk params, loopRound = 0, lEvaluated = False, triggerInter = 0, triggerRound = 0,
      l_fileRows = [], l_status = learnerStatusStartPSI, stopSigNeglected = False, pauseRound = 0\<rparr>"

section \<open>Alignment of samples\<close>

definition failing :: "('raw, 'p) learner \<Rightarrow> ('raw, 'p) handled" where
  "failing l = Some (l, [SaveResult TrainFailed], Refused)"

definition psi_step :: "'a psi_res \<Rightarrow> ('raw, 'p) learner \<Rightarrow> ('a \<Rightarrow> ('raw, 'p) handled) \<Rightarrow> ('raw, 'p) handled" where
  "psi_step r l k = (case r of Inl PsiPanic \<Rightarrow> None | Inl _ \<Rightarrow> failing l | Inr x \<Rightarrow> k x)"

definition on_PsiEnc :: "'p learn_env \<Rightarrow> ('raw, 'p) learner \<Rightarrow> ('raw, 'p) handled" where
  "on_PsiEnc X l = Option.bind (l_psi l) (\<lambda>p. psi_step (vp_EncryptSampleIDSet (le_psi X) (le_order X) p) l (\<lambda>(encIDs, p).
     Some (l\<lparr>l_psi := Some p\<rparr>, [Go (MsgPsiAskReEnc encIDs)], NoReply)))"

definition on_PsiAskReEnc :: "('raw, 'p) learner \<Rightarrow> blob \<Rightarrow> ('raw, 'p) handled" where
  "on_PsiAskReEnc l encIDs = Some (l, [Ask encIDs], NoReply)"

text \<open>The rest of it, when the other party has answered.\<close>

definition on_ReEncrypted :: "('raw, 'p) learner \<Rightarrow> blob \<Rightarrow> ('raw, 'p) handled" where
  "on_ReEncrypted l reEncIDs = Option.bind (l_psi l) (\<lambda>p.
     let (finished, p) = TwoParts_SetReEncryptIDSet p (l_other l) reEncIDs in
     Some (l\<lparr>l_psi := Some p\<rparr>, if finished then [Go MsgPsiIntersect] else [], NoReply))"

definition on_PsiReEnc :: "'p learn_env \<Rightarrow> ('raw, 'p) learner \<Rightarrow> string \<Rightarrow> blob \<Rightarrow> ('raw, 'p) handled" where
  "on_PsiReEnc X l sender encIDs = Option.bind (l_psi l) (\<lambda>p.
     psi_step (vp_ReEncryptIDSet (le_psi X) (le_order X) p sender encIDs) l (\<lambda>reEncIDs.
     Some (l\<lparr>l_psi := Some (vp_SetOtherFinalReEncryptIDSet p sender reEncIDs)\<rparr>, [Go MsgPsiIntersect], AnsweredWith reEncIDs)))"

definition on_PsiIntersect :: "'p learn_env \<Rightarrow> ('raw, 'p) learner \<Rightarrow> ('raw, 'p) handled" where
  "on_PsiIntersect X l = Option.bind (l_psi l) (\<lambda>p.
     let (r, p) = TwoParts_IntersectParts (le_psi X) (le_order X) (le_parties X) p; l = l\<lparr>l_psi := Some p\<rparr> in
     psi_step r l (\<lambda>(finished, newRows, _).
       if finished then Some (l\<lparr>l_fileRows := newRows, l_status := learnerStatusEndPSI\<rparr>, [Go MsgTrainHup], NoReply)
       else Some (l, [], NoReply)))"

section \<open>Training\<close>

definition with_process :: "('a, 'raw) proc_method \<Rightarrow> ('raw, 'p) learner \<Rightarrow> ('a \<Rightarrow> ('raw, 'p) learner \<Rightarrow> ('raw, 'p) handled) \<Rightarrow>
    ('raw, 'p) handled" where
  "with_process r l k = (case r of None \<Rightarrow> None | Some (None, p) \<Rightarrow> failing (l\<lparr>l_process := p\<rparr>)
     | Some (Some x, p) \<Rightarrow> k x (l\<lparr>l_process := p\<rparr>))"

text \<open>
  The message for the evaluator carries the aligned samples when it starts one. The round of the next
  evaluation is the one at the time of the message.
\<close>

definition on_TrainHup :: "('raw, 'enc) vl_algo \<Rightarrow> 'p learn_env \<Rightarrow> ('raw, 'p) learner \<Rightarrow> ('raw, 'p) handled" where
  "on_TrainHup A X l =
     (if l_status l \<noteq> learnerStatusEndPSI then Some (l, [], NoReply)
      else let l = l\<lparr>l_status := learnerStatusStartTrain\<rparr> in
        with_process (process_init A (le_vl X) (l_process l) (l_fileRows l)) l (\<lambda>_ l.
        let next = triggerRound l + triggerInter l in
        Some (l, [Send (MsgHomoPubkey (homoPub l))
          (if \<not> lEvaluated l then [Go (MsgTrainLoop 0)]
           else [Trigger True (MsgTrainSet next []) (MsgContinueLoop 0 next 0) (l_fileRows l)])], NoReply)))"

definition on_TrainSet :: "('raw, 'p) learner \<Rightarrow> nat \<Rightarrow> string list list \<Rightarrow> ('raw, 'p) handled" where
  "on_TrainSet l pause rows =
     (if l_status l \<noteq> learnerStatusStartPSI then Some (l, [], NoReply)
      else Some (l\<lparr>pauseRound := pause, l_fileRows := rows, l_status := learnerStatusEndPSI, stopSigNeglected := True\<rparr>,
        [Go MsgTrainHup], NoReply))"

definition on_ContinueLoop :: "('raw, 'p) learner \<Rightarrow> nat \<Rightarrow> nat \<Rightarrow> nat \<Rightarrow> ('raw, 'p) handled" where
  "on_ContinueLoop l rnd trigger pause =
     (if rnd \<noteq> loopRound l then Some (l, [], NoReply)
      else Some (if lEvaluated l then l\<lparr>triggerRound := trigger\<rparr>
          else if stopSigNeglected l then l\<lparr>pauseRound := pause\<rparr> else l,
        [Go (MsgTrainLoop (if rnd = 0 then 0 else rnd + 1))], NoReply))"

definition on_HomoPubkey :: "('raw, 'p) learner \<Rightarrow> blob \<Rightarrow> ('raw, 'p) handled" where
  "on_HomoPubkey l key = Some (l\<lparr>l_process := setHomoPubOfOther (l_process l) key\<rparr>, [], Answered)"

definition on_TrainLoop :: "('raw, 'p) learner \<Rightarrow> nat \<Rightarrow> ('raw, 'p) handled" where
  "on_TrainLoop l newRound =
     (if \<not> (newRound = 0 \<or> newRound = loopRound l + 1) then Some (l, [], NoReply)
      else let l = l\<lparr>loopRound := newRound\<rparr> in
        with_process (upRound (l_process l) newRound) l (\<lambda>_ l. Some (l, [Go (MsgTrainCalLocalGradCost newRound)], NoReply)))"

definition on_CalLocalGradCost :: "('raw, 'enc) vl_algo \<Rightarrow> 'p learn_env \<Rightarrow> ('raw, 'p) learner \<Rightarrow> nat \<Rightarrow> ('raw, 'p) handled" where
  "on_CalLocalGradCost A X l rnd =
     (if rnd \<noteq> loopRound l then Some (l, [], NoReply)
      else with_process (calLocalGradientAndCost A (le_vl X) (le_coins X rnd 0) (l_process l)) l (\<lambda>(part, t) l.
        Some (l, if t = 1 then [Send (MsgTrainPartBytes rnd part) [Go (MsgTrainCalEncGradCost rnd)]] else [], NoReply)))"

definition on_PartBytes :: "('raw, 'p) learner \<Rightarrow> nat \<Rightarrow> blob \<Rightarrow> ('raw, 'p) handled" where
  "on_PartBytes l rnd part =
     (let wake = (if rnd = loopRound l then [Go (MsgTrainCalEncGradCost rnd)] else []) in
      if rnd = loopRound l \<or> rnd = loopRound l + 1
      then with_process (setPartBytesFromOther (l_process l) part rnd) l (\<lambda>_ l. Some (l, wake, Answered))
      else Some (l, wake, Answered))"

definition on_CalEncGradCost :: "('raw, 'enc) vl_algo \<Rightarrow> 'p learn_env \<Rightarrow> ('raw, 'p) learner \<Rightarrow> nat \<Rightarrow> ('raw, 'p) handled" where
  "on_CalEncGradCost A X l rnd =
     (if rnd \<noteq> loopRound l then Some (l, [], NoReply)
      else with_process (calEncGradientAndCost A (le_vl X) (\<lambda>i. le_coins X rnd (i + 1)) (l_process l)) l (\<lambda>(g, c, t) l.
        Some (l, if t = 1 then [Send (MsgTrainEncGradCost rnd g c) []] else [], NoReply)))"

definition on_EncGradCost :: "('raw, 'p) learner \<Rightarrow> nat \<Rightarrow> blob \<Rightarrow> blob \<Rightarrow> ('raw, 'p) handled" where
  "on_EncGradCost l rnd g c =
     (if rnd \<noteq> loopRound l then Some (l, [], Answered)
      else let (t, p) = setEncGradientAndCostFromOther (l_process l) g c in
        Some (l\<lparr>l_process := p\<rparr>, if t = 1 then [Go (MsgTrainDecLocalGradCost rnd)] else [], Answered))"

definition on_DecLocalGradCost :: "'p learn_env \<Rightarrow> ('raw, 'p) learner \<Rightarrow> nat \<Rightarrow> ('raw, 'p) handled" where
  "on_DecLocalGradCost X l rnd =
     (if rnd \<noteq> loopRound l then Some (l, [], NoReply)
      else with_process (decGradientAndCost (le_vl X) (l_process l)) l (\<lambda>(g, c, t) l.
        Some (l, if t = 1 then [Send (MsgTrainGradAndCost rnd g c) []] else [], NoReply)))"

definition on_GradAndCost :: "('raw, 'p) learner \<Rightarrow> nat \<Rightarrow> blob \<Rightarrow> blob \<Rightarrow> ('raw, 'p) handled" where
  "on_GradAndCost l rnd g c =
     (if rnd \<noteq> loopRound l then Some (l, [], Answered)
      else let (t, p) = SetGradientAndCostFromOther (l_process l) g c in
        Some (l\<lparr>l_process := p\<rparr>, if t = 1 then [Go (MsgTrainUpdCostGrad rnd)] else [], Answered))"

definition on_UpdCostGrad :: "('raw, 'enc) vl_algo \<Rightarrow> 'p learn_env \<Rightarrow> ('raw, 'p) learner \<Rightarrow> nat \<Rightarrow> ('raw, 'p) handled" where
  "on_UpdCostGrad A X l rnd =
     (if rnd \<noteq> loopRound l then Some (l, [], NoReply)
      else with_process (updateCostAndGradient A (le_vl X) (l_process l)) l (\<lambda>stopped l.
        Some (l, [Send (MsgTrainStatus rnd stopped) [Go (MsgTrainCheckStatus rnd)]], NoReply)))"

definition on_Status :: "('raw, 'p) learner \<Rightarrow> nat \<Rightarrow> bool \<Rightarrow> ('raw, 'p) handled" where
  "on_Status l rnd stopped =
     (if rnd \<noteq> loopRound l then Some (l, [], Answered)
      else Some (l\<lparr>l_process := setOtherStatus (l_process l) stopped\<rparr>, [Go (MsgTrainCheckStatus rnd)], Answered))"

definition on_CheckStatus :: "('raw, 'p) learner \<Rightarrow> nat \<Rightarrow> ('raw, 'p) handled" where
  "on_CheckStatus l rnd =
     (let (decided, stopped) = process_stop (l_process l); next = triggerRound l + triggerInter l in
      Some (l, if \<not> decided then []
        else if stopSigNeglected l then [Go (MsgCheckPauseRound rnd)]
        else if stopped then [Go (MsgTrainModels rnd)]
        else if lEvaluated l \<and> rnd = triggerRound l
          then [Trigger False (MsgContinueLoop rnd 0 next) (MsgContinueLoop rnd next 0) []]
        else [Go (MsgTrainLoop (rnd + 1))], NoReply))"

definition on_TrainModels :: "('raw, 'p) learner \<Rightarrow> ('raw, 'p) handled" where
  "on_TrainModels l =
     (if l_status l \<noteq> learnerStatusStartTrain then Some (l, [], NoReply)
      else let l = l\<lparr>l_status := learnerStatusEndTrain\<rparr> in
        with_process (getTrainModels (l_process l)) l (\<lambda>model l.
        Some (l, [SaveResult (Trained model (l_fileRows l))], NoReply)))"

definition on_CheckPauseRound :: "('raw, 'p) learner \<Rightarrow> nat \<Rightarrow> ('raw, 'p) handled" where
  "on_CheckPauseRound l rnd =
     (if loopRound l = pauseRound l
      then with_process (getTrainModels (l_process l)) l (\<lambda>model l.
        Some (l, [SaveResult (Trained model (l_fileRows l))], NoReply))
      else Some (l, [Go (MsgTrainLoop (rnd + 1))], NoReply))"

fun advance :: "('raw, 'enc) vl_algo \<Rightarrow> 'p learn_env \<Rightarrow> ('raw, 'p) learner \<Rightarrow> message \<Rightarrow> ('raw, 'p) handled" where
  "advance A X l MsgPsiEnc = on_PsiEnc X l"
| "advance A X l (MsgPsiAskReEnc b) = on_PsiAskReEnc l b"
| "advance A X l (MsgPsiReEnc s b) = on_PsiReEnc X l s b"
| "advance A X l MsgPsiIntersect = on_PsiIntersect X l"
| "advance A X l MsgTrainHup = on_TrainHup A X l"
| "advance A X l (MsgTrainSet r rows) = on_TrainSet l r rows"
| "advance A X l (MsgContinueLoop r t p) = on_ContinueLoop l r t p"
| "advance A X l (MsgHomoPubkey b) = on_HomoPubkey l b"
| "advance A X l (MsgTrainLoop r) = on_TrainLoop l r"
| "advance A X l (MsgTrainCalLocalGradCost r) = on_CalLocalGradCost A X l r"
| "advance A X l (MsgTrainPartBytes r b) = on_PartBytes l r b"
| "advance A X l (MsgTrainCalEncGradCost r) = on_CalEncGradCost A X l r"
| "advance A X l (MsgTrainEncGradCost r g c) = on_EncGradCost l r g c"
| "advance A X l (MsgTrainDecLocalGradCost r) = on_DecLocalGradCost X l r"
| "advance A X l (MsgTrainGradAndCost r g c) = on_GradAndCost l r g c"
| "advance A X l (MsgTrainUpdCostGrad r) = on_UpdCostGrad A X l r"
| "advance A X l (MsgTrainStatus r s) = on_Status l r s"
| "advance A X l (MsgTrainCheckStatus r) = on_CheckStatus l r"
| "advance A X l (MsgTrainModels r) = on_TrainModels l"
| "advance A X l (MsgCheckPauseRound r) = on_CheckPauseRound l r"

section \<open>Two learners\<close>

text \<open>
  What is started and not yet done is a multiset, so it happens in any order. A message to the other
  party is handled there any number of times, since it is sent again when the answer is lost; then
  it is either answered or given up. The sender continues with the answer only.
\<close>

record ('raw, 'p) duo =
  duo_learner :: "bool \<Rightarrow> ('raw, 'p) learner"
  duo_pending :: "(bool \<times> activity) multiset"

definition at_side :: "bool \<Rightarrow> activity list \<Rightarrow> (bool \<times> activity) multiset" where
  "at_side s as = mset (map (Pair s) as)"

definition duo_put :: "('raw, 'p) duo \<Rightarrow> bool \<Rightarrow> ('raw, 'p) learner \<Rightarrow> (bool \<times> activity) multiset \<Rightarrow> ('raw, 'p) duo" where
  "duo_put S s l P = \<lparr>duo_learner = (duo_learner S)(s := l), duo_pending = P\<rparr>"

inductive duo_step :: "('raw, 'enc) vl_algo \<Rightarrow> (bool \<Rightarrow> 'p learn_env) \<Rightarrow> ('raw, 'p) duo \<Rightarrow> ('raw, 'p) duo \<Rightarrow> bool"
  for A X where
  here: "duo_pending S = add_mset (s, Go m) P \<Longrightarrow> advance A (X s) (duo_learner S s) m = Some (l, as, r) \<Longrightarrow>
    duo_step A X S (duo_put S s l (P + at_side s as))"
| lost: "(s, Send m as') \<in># duo_pending S \<Longrightarrow> advance A (X (\<not> s)) (duo_learner S (\<not> s)) m = Some (l, as, r) \<Longrightarrow>
    duo_step A X S (duo_put S (\<not> s) l (duo_pending S + at_side (\<not> s) as))"
| answered: "duo_pending S = add_mset (s, Send m as') P \<Longrightarrow>
    advance A (X (\<not> s)) (duo_learner S (\<not> s)) m = Some (l, as, r) \<Longrightarrow> r \<noteq> Refused \<Longrightarrow>
    duo_step A X S (duo_put S (\<not> s) l (P + at_side (\<not> s) as + at_side s as'))"
| given_up: "duo_pending S = add_mset (s, Send m as') P \<Longrightarrow>
    duo_step A X S (S\<lparr>duo_pending := add_mset (s, SaveResult TrainFailed) P\<rparr>)"
| ask_lost: "(s, Ask b) \<in># duo_pending S \<Longrightarrow>
    advance A (X (\<not> s)) (duo_learner S (\<not> s)) (MsgPsiReEnc (l_address (duo_learner S s)) b) = Some (l, as, r) \<Longrightarrow>
    duo_step A X S (duo_put S (\<not> s) l (duo_pending S + at_side (\<not> s) as))"
| ask_answered: "duo_pending S = add_mset (s, Ask b) P \<Longrightarrow>
    advance A (X (\<not> s)) (duo_learner S (\<not> s)) (MsgPsiReEnc (l_address (duo_learner S s)) b) = Some (l, as, AnsweredWith b') \<Longrightarrow>
    on_ReEncrypted (duo_learner S s) b' = Some (l', as', r) \<Longrightarrow>
    duo_step A X S (duo_put (duo_put S (\<not> s) l {#}) s l' (P + at_side (\<not> s) as + at_side s as'))"
| ask_given_up: "duo_pending S = add_mset (s, Ask b) P \<Longrightarrow>
    duo_step A X S (S\<lparr>duo_pending := add_mset (s, SaveResult TrainFailed) P\<rparr>)"

definition duo_reachable :: "('raw, 'enc) vl_algo \<Rightarrow> (bool \<Rightarrow> 'p learn_env) \<Rightarrow> ('raw, 'p) duo \<Rightarrow> ('raw, 'p) duo \<Rightarrow> bool" where
  "duo_reachable A X = (duo_step A X)\<^sup>*\<^sup>*"

end
