(* ===== verification/VlDuo.thy ===== *)
theory VlDuo
  imports VlLearner
begin

text \<open>
  Two learners after the alignment of samples: they stay in step, and they stop in the same round.
  The invariant looks at the progress of both processes, at who has begun to train, and at what
  every pending activity says about them.
\<close>

section \<open>What is looked at\<close>

definition seen :: "('raw, 'p) learner \<Rightarrow> progress" where
  "seen l = progress_of (l_process l)"

lemma seen_upd [simp]: "seen (l\<lparr>l_process := p\<rparr>) = progress_of p" "seen (l\<lparr>l_status := u\<rparr>) = seen l"
  "seen (l\<lparr>loopRound := k\<rparr>) = seen l"
  by (simp_all add: seen_def)

lemma seen_process: "progress_of (l_process l) = seen l" "p_round (l_process l) = pr_round (seen l)"
  by (simp_all add: seen_def progress_of_def)

definition code :: "bool \<Rightarrow> nat" where "code b = (if b then 1 else 2)"

lemma code_simps [simp]: "code b \<noteq> 0" "code b \<le> 2" "code b = Suc 0 \<longleftrightarrow> b" "code b = code c \<longleftrightarrow> b = c"
  by (simp_all add: code_def)

definition goes_on :: "progress \<Rightarrow> bool" where
  "goes_on g \<longleftrightarrow> pr_stopped g \<noteq> 0 \<and> pr_other g \<noteq> 0 \<and> \<not> (pr_stopped g = 1 \<and> pr_other g = 1)"

text \<open>Exactly one of these starts the first round.\<close>

fun is_token :: "activity \<Rightarrow> bool" where
  "is_token (Go (MsgTrainLoop k)) = (k = 0)"
| "is_token (Send (MsgHomoPubkey _) _) = True"
| "is_token _ = False"

definition tok :: "activity \<Rightarrow> nat" where "tok a = (if is_token a then 1 else 0)"

definition unstarted :: "learnerStatusType \<Rightarrow> nat" where
  "unstarted u = (if u = learnerStatusEndPSI then 1 else 0)"

lemma tok_simps [simp]: "tok (Go (MsgTrainLoop 0)) = 1" "tok (Go (MsgTrainLoop (Suc k))) = 0"
  "tok (Send (MsgHomoPubkey b) ks) = 1" "tok (SaveResult r) = 0"
  by (simp_all add: tok_def)

definition toks :: "activity list \<Rightarrow> nat" where "toks as = sum_list (map tok as)"

lemma toks_none: "\<forall>a \<in> set as. \<not> is_token a \<Longrightarrow> toks as = 0"
  by (induction as) (simp_all add: toks_def tok_def)

lemma toks_one: "toks [a] = tok a"
  by (simp add: toks_def)

definition held :: "(bool \<times> activity) multiset \<Rightarrow> bool \<Rightarrow> nat" where
  "held P s = size {#x \<in># P. fst x = s \<and> is_token (snd x)#}"

lemma held_simps [simp]: "held (P + Q) s = held P s + held Q s" "held {#} s = 0"
  "held (add_mset (s, a) P) s = tok a + held P s" "s \<noteq> t \<Longrightarrow> held (add_mset (t, a) P) s = held P s"
  by (simp_all add: held_def tok_def)

lemma held_at_side [simp]: "held (at_side s as) s = toks as" "s \<noteq> t \<Longrightarrow> held (at_side t as) s = 0"
  by (induction as) (simp_all add: at_side_def toks_def)

definition tokens :: "('raw, 'p) duo \<Rightarrow> bool \<Rightarrow> nat" where
  "tokens S s = held (duo_pending S) s + unstarted (l_status (duo_learner S s))"

section \<open>The invariant\<close>

text \<open>
  Of two sides the other one is at most one round ahead; what a side knows of the decision of the
  other one is right; and a side that is one round behind has not seen both decide to stop.
\<close>

definition pair_ok :: "(bool \<Rightarrow> bool) \<Rightarrow> (bool \<Rightarrow> progress) \<Rightarrow> (bool \<Rightarrow> learnerStatusType) \<Rightarrow> bool \<Rightarrow> bool" where
  "pair_ok T G U s \<longleftrightarrow>
     (pr_other (G s) \<noteq> 0 \<longrightarrow> pr_round (G s) \<le> pr_round (G (\<not> s))) \<and> pr_round (G s) \<le> pr_round (G (\<not> s)) + 1 \<and>
     (pr_other (G s) \<noteq> 0 \<and> pr_round (G (\<not> s)) = pr_round (G s) \<longrightarrow> pr_stopped (G (\<not> s)) = pr_other (G s)) \<and>
     (pr_round (G (\<not> s)) = pr_round (G s) + 1 \<longrightarrow> pr_stopped (G s) \<noteq> 0 \<and> \<not> (pr_stopped (G s) = 1 \<and> pr_other (G s) = 1)) \<and>
     pr_stopped (G s) \<le> 2 \<and> pr_other (G s) \<le> 2 \<and>
     (U s = learnerStatusEndTrain \<longrightarrow> pr_stopped (G s) = 1 \<and> pr_other (G s) = 1) \<and>
     (\<not> T s \<longrightarrow> pr_round (G s) = 0 \<and> \<not> pr_raw (G s) \<and> pr_stopped (G s) = 0)"

fun act_ok :: "(bool \<Rightarrow> bool) \<Rightarrow> (bool \<Rightarrow> progress) \<Rightarrow> (bool \<Rightarrow> learnerStatusType) \<Rightarrow> bool \<Rightarrow> activity \<Rightarrow> bool" where
  "act_ok T G U s (Go MsgTrainHup) = True"
| "act_ok T G U s (Send (MsgHomoPubkey _) ks) = (ks = [Go (MsgTrainLoop 0)])"
| "act_ok T G U s (Go (MsgTrainLoop k)) =
     (k = 0 \<or> T s \<and> (k \<le> pr_round (G s) \<or> k = pr_round (G s) + 1 \<and> goes_on (G s)))"
| "act_ok T G U s (Go (MsgTrainCalLocalGradCost k)) = T s"
| "act_ok T G U s (Send (MsgTrainPartBytes _ _) ks) = (\<forall>a \<in> set ks. \<exists>k. a = Go (MsgTrainCalEncGradCost k))"
| "act_ok T G U s (Go (MsgTrainCalEncGradCost k)) = True"
| "act_ok T G U s (Send (MsgTrainEncGradCost _ _ _) ks) = (ks = [] \<and> T s)"
| "act_ok T G U s (Go (MsgTrainDecLocalGradCost k)) = T (\<not> s)"
| "act_ok T G U s (Send (MsgTrainGradAndCost _ _ _) ks) = (ks = [] \<and> T (\<not> s))"
| "act_ok T G U s (Go (MsgTrainUpdCostGrad k)) = T s"
| "act_ok T G U s (Send (MsgTrainStatus k b) ks) =
     (T s \<and> k \<le> pr_round (G s) \<and> (k = pr_round (G s) \<longrightarrow> pr_stopped (G s) = code b) \<and>
      (pr_round (G s) = k + 1 \<and> pr_round (G (\<not> s)) = k \<and> pr_stopped (G (\<not> s)) = 1 \<longrightarrow> \<not> b) \<and>
      (\<forall>a \<in> set ks. \<exists>k' \<le> pr_round (G s). a = Go (MsgTrainCheckStatus k')))"
| "act_ok T G U s (Go (MsgTrainCheckStatus k)) = (k \<le> pr_round (G s))"
| "act_ok T G U s (Go (MsgTrainModels k)) = (pr_stopped (G s) = 1 \<and> pr_other (G s) = 1)"
| "act_ok T G U s (SaveResult TrainFailed) = True"
| "act_ok T G U s (SaveResult (Trained _ _)) = (U s = learnerStatusEndTrain)"
| "act_ok T G U s _ = False"

definition plain_learner :: "('raw, 'p) learner \<Rightarrow> bool" where
  "plain_learner l \<longleftrightarrow> \<not> lEvaluated l \<and> \<not> stopSigNeglected l \<and> l_status l \<noteq> learnerStatusStartPSI \<and>
     loopRound l = pr_round (seen l)"

definition duo_inv :: "('raw, 'p) duo \<Rightarrow> bool" where
  "duo_inv S \<longleftrightarrow> (let T = \<lambda>s. tokens S s = 0; G = \<lambda>s. seen (duo_learner S s); U = \<lambda>s. l_status (duo_learner S s) in
     (\<forall>s. plain_learner (duo_learner S s) \<and> tokens S s \<le> 1 \<and> pair_ok T G U s) \<and>
     (\<forall>(s, a) \<in># duo_pending S. act_ok T G U s a))"

section \<open>How a side moves\<close>

definition moves :: "(bool \<Rightarrow> bool) \<Rightarrow> (bool \<Rightarrow> progress) \<Rightarrow> bool \<Rightarrow> progress \<Rightarrow> bool" where
  "moves T G s g \<longleftrightarrow> g = G s \<or> (T s \<and> g = (G s)\<lparr>pr_raw := True\<rparr>) \<or>
     (T s \<and> pr_stopped (G s) = 0 \<and> (\<exists>b. g = (G s)\<lparr>pr_stopped := code b\<rparr>)) \<or>
     (pr_other (G s) = 0 \<and> (\<exists>b. g = (G s)\<lparr>pr_other := code b\<rparr> \<and>
        (pr_round (G (\<not> s)) = pr_round (G s) \<and> pr_stopped (G (\<not> s)) = code b \<or>
         pr_round (G (\<not> s)) = pr_round (G s) + 1 \<and> \<not> (pr_stopped (G s) = 1 \<and> b)))) \<or>
     (T s \<and> goes_on (G s) \<and> g = \<lparr>pr_round = pr_round (G s) + 1, pr_stopped = 0, pr_other = 0, pr_raw = False\<rparr>)"

definition status_moves :: "(bool \<Rightarrow> progress) \<Rightarrow> bool \<Rightarrow> learnerStatusType \<Rightarrow> learnerStatusType \<Rightarrow> bool" where
  "status_moves G s u u' \<longleftrightarrow> u' = u \<or> (u = learnerStatusEndPSI \<and> u' = learnerStatusStartTrain) \<or>
     (u' = learnerStatusEndTrain \<and> pr_stopped (G s) = 1 \<and> pr_other (G s) = 1)"

lemma moves_pair:
  assumes "moves T G s g" and own: "pair_ok T G U s" and other: "pair_ok T G U (\<not> s)"
  shows "pair_ok T (G(s := g)) U s" and "pair_ok T (G(s := g)) U (\<not> s)"
proof -
  obtain a b c d where Gs: "G s = \<lparr>pr_round = a, pr_stopped = b, pr_other = c, pr_raw = d\<rparr>" by (cases "G s")
  obtain a' b' c' d' where Go: "G (\<not> s) = \<lparr>pr_round = a', pr_stopped = b', pr_other = c', pr_raw = d'\<rparr>" by (cases "G (\<not> s)")
  note m = own[unfolded pair_ok_def Gs Go progress.simps] and m' = other[unfolded pair_ok_def Gs Go not_not progress.simps]
  have upd: "(G(s := g)) s = g" "(G(s := g)) (\<not> s) = G (\<not> s)" by simp_all
  from assms(1)[unfolded moves_def Gs Go progress.simps] consider
      "g = G s" | "T s" "g = \<lparr>pr_round = a, pr_stopped = b, pr_other = c, pr_raw = True\<rparr>"
    | x where "T s" "b = 0" "g = \<lparr>pr_round = a, pr_stopped = code x, pr_other = c, pr_raw = d\<rparr>"
    | x where "c = 0" "g = \<lparr>pr_round = a, pr_stopped = b, pr_other = code x, pr_raw = d\<rparr>"
        "a' = a \<and> b' = code x \<or> a' = a + 1 \<and> \<not> (b = 1 \<and> x)"
    | "T s" "b \<noteq> 0" "c \<noteq> 0" "\<not> (b = 1 \<and> c = 1)" "g = \<lparr>pr_round = a + 1, pr_stopped = 0, pr_other = 0, pr_raw = False\<rparr>"
    by (auto simp: Gs goes_on_def)
  then have "pair_ok T (G(s := g)) U s \<and> pair_ok T (G(s := g)) U (\<not> s)"
  proof cases
    case 1
    then show ?thesis using own other by simp
  next
    case 2
    then show ?thesis using m m' unfolding pair_ok_def unfolding upd not_not unfolding Go 2 progress.simps by blast
  next
    case (3 x)
    have "c' \<noteq> 0 \<Longrightarrow> a' \<noteq> a" "a' \<noteq> a + 1" using m m' 3 by auto
    moreover have "U s \<noteq> learnerStatusEndTrain" using m 3 by auto
    ultimately show ?thesis using m m' 3(1) unfolding pair_ok_def unfolding upd not_not unfolding Go 3 progress.simps by (auto simp: 3(2))
  next
    case (4 x)
    have "U s \<noteq> learnerStatusEndTrain" using m 4 by auto
    with m m' 4 show ?thesis unfolding pair_ok_def unfolding upd not_not unfolding Go 4(2) progress.simps by auto
  next
    case 5
    then have "a \<le> a'" using m by simp
    have "U s \<noteq> learnerStatusEndTrain" using m 5 by auto
    with m m' 5 \<open>a \<le> a'\<close> show ?thesis unfolding pair_ok_def unfolding upd not_not unfolding Go 5(5) progress.simps by auto
  qed
  then show "pair_ok T (G(s := g)) U s" and "pair_ok T (G(s := g)) U (\<not> s)" by blast+
qed

lemma status_moves_pair:
  assumes "status_moves G s (U s) u" and "pair_ok T G U t"
  shows "pair_ok T G (U(s := u)) t"
  using assms by (cases "t = s") (auto simp: pair_ok_def status_moves_def)

lemma pair_ok_started: "pair_ok T G U s \<Longrightarrow> (\<And>t. T t \<Longrightarrow> T' t) \<Longrightarrow> pair_ok T' G U s"
  unfolding pair_ok_def by blast

text \<open>What the activities say stays true when a side moves.\<close>

lemma moves_rounds:
  assumes "moves T G s g"
  shows "pr_round (G s) \<le> pr_round g" and "pr_round g = pr_round (G s) \<Longrightarrow> pr_stopped (G s) \<noteq> 0 \<Longrightarrow> pr_stopped g = pr_stopped (G s)"
    and "pr_round g = pr_round (G s) \<Longrightarrow> pr_other (G s) \<noteq> 0 \<Longrightarrow> pr_other g = pr_other (G s)"
    and "pr_round g \<noteq> pr_round (G s) \<Longrightarrow> pr_round g = pr_round (G s) + 1 \<and> goes_on (G s) \<and> pr_stopped g = 0 \<and> pr_other g = 0"
  using assms unfolding moves_def by auto

lemma moves_stop:
  assumes "moves T G s g" and "pr_stopped (G s) = 1" "pr_other (G s) = 1"
  shows "pr_stopped g = 1 \<and> pr_other g = 1"
  using assms unfolding moves_def goes_on_def by auto

lemma status_act_ok:
  assumes m: "moves T G s g" and own: "pair_ok T G U s" and other: "pair_ok T G U (\<not> s)"
    and T': "\<And>t. T t \<Longrightarrow> T' t" and ok: "act_ok T G U t (Send (MsgTrainStatus k b) ks)"
  shows "act_ok T' (G(s := g)) U' t (Send (MsgTrainStatus k b) ks)"
proof -
  note r = moves_rounds[OF m]
  have t: "T' t" using ok T' by simp
  show ?thesis
  proof (cases "t = s")
    case True
    have ks: "\<forall>a \<in> set ks. \<exists>k' \<le> pr_round g. a = Go (MsgTrainCheckStatus k')"
      using ok r(1) True by (fastforce intro: le_trans)
    from ok True have k: "k \<le> pr_round (G s)" "k = pr_round (G s) \<Longrightarrow> pr_stopped (G s) = code b"
      "pr_round (G s) = k + 1 \<Longrightarrow> pr_round (G (\<not> s)) = k \<Longrightarrow> pr_stopped (G (\<not> s)) = 1 \<Longrightarrow> \<not> b" by auto
    have "pr_stopped g = code b" if "k = pr_round g" using k(1,2) r(1,2) that by auto
    moreover have "\<not> b" if new: "pr_round g = k + 1" "pr_round (G (\<not> s)) = k" "pr_stopped (G (\<not> s)) = 1"
    proof (cases "pr_round g = pr_round (G s)")
      case True
      with k(3) new show ?thesis by simp
    next
      case False
      with r(4) new have g: "k = pr_round (G s)" "goes_on (G s)" by simp_all
      then have "pr_stopped (G (\<not> s)) = pr_other (G s)" using own new(2) unfolding pair_ok_def goes_on_def by simp
      with g k(2) new(3) show ?thesis by (auto simp: goes_on_def code_def)
    qed
    ultimately show ?thesis using True t ks k(1) r(1) by auto
  next
    case False
    then have ts: "t = (\<not> s)" by blast
    from ok ts have k: "k \<le> pr_round (G (\<not> s))" "k = pr_round (G (\<not> s)) \<longrightarrow> pr_stopped (G (\<not> s)) = code b"
      "pr_round (G (\<not> s)) = k + 1 \<Longrightarrow> pr_round (G s) = k \<Longrightarrow> pr_stopped (G s) = 1 \<Longrightarrow> \<not> b"
      "\<forall>a \<in> set ks. \<exists>k' \<le> pr_round (G (\<not> s)). a = Go (MsgTrainCheckStatus k')" by auto
    have "\<not> b" if new: "pr_round (G (\<not> s)) = k + 1" "pr_round g = k" "pr_stopped g = 1"
    proof (cases "pr_round g = pr_round (G s)")
      case True
      with new(1,2) have "pr_stopped (G s) \<noteq> 0" using own unfolding pair_ok_def by simp
      with r(2) True new(3) have "pr_stopped (G s) = 1" by simp
      with k(3) new True show ?thesis by simp
    next
      case False
      with r(4) new(3) show ?thesis by simp
    qed
    with k t ts show ?thesis by auto
  qed
qed

lemma act_ok_moves:
  assumes m: "moves T G s g" and own: "pair_ok T G U s" and other: "pair_ok T G U (\<not> s)"
    and u: "status_moves G s (U s) u" and T': "\<And>t. T t \<Longrightarrow> T' t" and ok: "act_ok T G U t a"
  shows "act_ok T' (G(s := g)) (U(s := u)) t a"
proof (cases a)
  case (Go x)
  note r = moves_rounds[OF m]
  show ?thesis
  proof (cases x)
    case (MsgTrainLoop k)
    show ?thesis
    proof (cases "t = s")
      case True
      have "goes_on g" if "pr_round g = pr_round (G s)" "goes_on (G s)"
        using r(2,3)[OF that(1)] that(2) unfolding goes_on_def by auto
      with ok True T' r(1,4) show ?thesis by (auto simp: Go MsgTrainLoop)
    qed (use ok T' in \<open>auto simp: Go MsgTrainLoop\<close>)
  next
    case (MsgTrainCheckStatus k)
    with ok r(1) show ?thesis by (auto simp: Go intro: le_trans)
  next
    case (MsgTrainModels k)
    with ok moves_stop[OF m] show ?thesis by (auto simp: Go)
  qed (use ok T' in \<open>auto simp: Go\<close>)
next
  case (Send x ks)
  show ?thesis
  proof (cases x)
    case (MsgTrainStatus k b)
    with status_act_ok[OF m own other T'] ok show ?thesis by (simp only: Send)
  qed (use ok T' in \<open>auto simp: Send\<close>)
next
  case (SaveResult x)
  with ok u show ?thesis by (cases x) (auto simp: status_moves_def)
qed (use ok in simp_all)

end
