(* ===== verification/VlHandled.thy ===== *)
theory VlHandled
  imports VlDuo
begin

text \<open>
  What the handlers of one learner do to the invariant of two learners, for every kind of message.
\<close>

section \<open>Handling a message\<close>

lemma with_process_Some: "with_process r l k = Some y \<longleftrightarrow>
    (\<exists>p. r = Some (None, p) \<and> y = (l\<lparr>l_process := p\<rparr>, [SaveResult TrainFailed], Refused)) \<or>
    (\<exists>x p. r = Some (Some x, p) \<and> k x (l\<lparr>l_process := p\<rparr>) = Some y)"
  by (cases y) (auto simp: with_process_def failing_def split: option.splits)

text \<open>
  What is started keeps the promises of its kind when the invariant holds, and at most the activity
  that is handled, of weight \<open>c\<close>, passes its right to start the first round on.
\<close>

definition handled_ok :: "(bool \<Rightarrow> bool) \<Rightarrow> (bool \<Rightarrow> progress) \<Rightarrow> (bool \<Rightarrow> learnerStatusType) \<Rightarrow> bool \<Rightarrow> nat \<Rightarrow>
    ('raw, 'p) learner \<Rightarrow> ('raw, 'p) learner \<Rightarrow> activity list \<Rightarrow> bool" where
  "handled_ok T G U s c l l' as \<longleftrightarrow> plain_learner l' \<and> moves T G s (seen l') \<and> status_moves G s (l_status l) (l_status l') \<and>
     toks as + unstarted (l_status l') \<le> c + unstarted (l_status l) \<and>
     (\<forall>T'. (\<forall>t. T t \<longrightarrow> T' t) \<longrightarrow> (toks as + unstarted (l_status l') < c + unstarted (l_status l) \<longrightarrow> T' s) \<longrightarrow>
        (\<forall>a \<in> set as. act_ok T' (G(s := seen l')) (U(s := l_status l')) s a))"

lemmas handled_simps = handled_ok_def toks_def unstarted_def status_moves_def

lemma plain_upd: "plain_learner l \<Longrightarrow> pr_round (progress_of p) = pr_round (seen l) \<Longrightarrow> plain_learner (l\<lparr>l_process := p\<rparr>)"
  by (simp add: plain_learner_def)

lemma moves_same [simp]: "moves T G s (G s)"
  by (simp add: moves_def)

lemma handled_okI:
  assumes "plain_learner l'" and "moves T G s (seen l')" and "status_moves G s (l_status l) (l_status l')"
    and "toks as + unstarted (l_status l') \<le> c + unstarted (l_status l)"
    and "\<And>T'. (\<And>t. T t \<Longrightarrow> T' t) \<Longrightarrow> (toks as + unstarted (l_status l') < c + unstarted (l_status l) \<Longrightarrow> T' s) \<Longrightarrow>
      \<forall>a \<in> set as. act_ok T' (G(s := seen l')) (U(s := l_status l')) s a"
  shows "handled_ok T G U s c l l' as"
  using assms unfolding handled_ok_def by blast

lemma handled_okD:
  assumes "handled_ok T G U s c l l' as"
  shows "plain_learner l'" and "moves T G s (seen l')" and "status_moves G s (l_status l) (l_status l')"
    and "toks as + unstarted (l_status l') \<le> c + unstarted (l_status l)"
    and "(\<And>t. T t \<Longrightarrow> T' t) \<Longrightarrow> (toks as + unstarted (l_status l') < c + unstarted (l_status l) \<Longrightarrow> T' s) \<Longrightarrow>
      a \<in> set as \<Longrightarrow> act_ok T' (G(s := seen l')) (U(s := l_status l')) s a"
  using assms unfolding handled_ok_def by blast+

text \<open>A message that is out of date, and a method that fails or changes nothing that is looked at.\<close>

lemma handled_idle: "plain_learner l \<Longrightarrow> G s = seen l \<Longrightarrow> handled_ok T G U s c l l []"
  by (rule handled_okI) (simp_all add: toks_def status_moves_def moves_def)

lemma handled_same:
  assumes "plain_learner l" "G s = seen l" and "progress_of p = seen l"
    and "\<And>T'. (\<And>t. T t \<Longrightarrow> T' t) \<Longrightarrow> \<forall>a \<in> set as. act_ok T' (G(s := seen l)) (U(s := l_status l)) s a" and "toks as \<le> c"
  shows "handled_ok T G U s c l (l\<lparr>l_process := p\<rparr>) as"
  by (rule handled_okI) (use assms in \<open>simp_all add: plain_upd status_moves_def moves_def\<close>)

lemma handled_fails:
  "plain_learner l \<Longrightarrow> G s = seen l \<Longrightarrow> progress_of p = seen l \<Longrightarrow>
    handled_ok T G U s c l (l\<lparr>l_process := p\<rparr>) [SaveResult TrainFailed]"
  by (rule handled_same) (simp_all add: toks_def)

lemma handled_TrainHup:
  assumes l: "plain_learner l" "G s = seen l" and run: "on_TrainHup A X l = Some (l', as, r)"
  shows "handled_ok T G U s 0 l l' as"
proof (cases "l_status l \<noteq> learnerStatusEndPSI")
  case True
  with run have "l' = l" "as = []" by (simp_all add: on_TrainHup_def)
  with l show ?thesis by (simp add: handled_idle)
next
  case False
  from run[unfolded on_TrainHup_def if_not_P[OF False] Let_def with_process_Some] obtain p where p: "progress_of p = seen l"
    and l': "l' = l\<lparr>l_status := learnerStatusStartTrain, l_process := p\<rparr>"
    and as: "as = [SaveResult TrainFailed] \<or> as = [Send (MsgHomoPubkey (homoPub l)) [Go (MsgTrainLoop 0)]]"
    using process_init_effect[of A "le_vl X" "l_process l" "l_fileRows l"] l(1)
    by (auto simp: seen_process plain_learner_def)
  show ?thesis
    by (rule handled_okI) (use l False as p in \<open>auto simp: l' plain_learner_def status_moves_def unstarted_def toks_def moves_def\<close>)
qed

lemma upRound_next:
  assumes "upRound p (p_round p + 1) = Some (x, q)"
  shows "x = Some ()" and "progress_of q = \<lparr>pr_round = p_round p + 1, pr_stopped = 0, pr_other = 0, pr_raw = False\<rparr>"
  using assms by (auto simp: upRound_def progress_of_def)

lemma handled_TrainLoop:
  assumes l: "plain_learner l" "G s = seen l" and run: "on_TrainLoop l k = Some (l', as, r)"
    and ok: "act_ok T G U s (Go (MsgTrainLoop k))" and own: "pair_ok T G U s" and first: "k = 0 \<Longrightarrow> \<not> T s"
  shows "handled_ok T G U s (tok (Go (MsgTrainLoop k))) l l' as"
proof (cases "\<not> (k = 0 \<or> k = loopRound l + 1)")
  case True
  from run[unfolded on_TrainLoop_def if_P[OF True]] have "l' = l" "as = []" by simp_all
  with l show ?thesis by (simp add: handled_idle)
next
  case stale: False
  have lr: "loopRound l = pr_round (seen l)" using l(1) by (simp add: plain_learner_def)
  note r = run[unfolded on_TrainLoop_def if_not_P[OF stale] Let_def]
  show ?thesis
  proof (cases "k = 0")
    case True
    then have "pr_round (seen l) = 0" using own l(2) first by (simp add: pair_ok_def)
    then have "upRound (l_process l) k = Some (Some (), l_process l)" by (simp add: upRound_def seen_process True)
    with r have l': "l' = l\<lparr>loopRound := 0\<rparr>" "as = [Go (MsgTrainCalLocalGradCost 0)]" by (simp_all add: with_process_def True)
    show ?thesis
      by (rule handled_okI) (use l lr \<open>pr_round (seen l) = 0\<close> in
        \<open>auto simp: l' True plain_learner_def status_moves_def unstarted_def toks_def moves_def tok_def\<close>)
  next
    case False
    with stale lr have k: "k = p_round (l_process l) + 1" by (simp add: seen_process)
    with ok l(2) False have go: "T s" "goes_on (G s)" by (auto simp: seen_process)
    from r obtain p where p: "upRound (l_process l) k = Some (Some (), p)"
      and l': "l' = l\<lparr>loopRound := k, l_process := p\<rparr>" "as = [Go (MsgTrainCalLocalGradCost k)]"
      using upRound_next(1)[of "l_process l"] unfolding with_process_Some k by auto
    note q = upRound_next(2)[OF p[unfolded k]]
    show ?thesis
      by (rule handled_okI) (use l go q k in
        \<open>auto simp: l' plain_learner_def status_moves_def toks_def moves_def tok_def seen_process\<close>)
  qed
qed


lemma handled_CalLocal:
  assumes l: "plain_learner l" "G s = seen l" and run: "on_CalLocalGradCost A X l k = Some (l', as, r)" and t: "T s"
  shows "handled_ok T G U s 0 l l' as"
proof (cases "k \<noteq> loopRound l")
  case True
  with run l show ?thesis by (auto simp: on_CalLocalGradCost_def handled_idle)
next
  case False
  from run[unfolded on_CalLocalGradCost_def if_not_P[OF False] with_process_Some] obtain x p
    where p: "calLocalGradientAndCost A (le_vl X) (le_coins X k 0) (l_process l) = Some (x, p)" and l': "l' = l\<lparr>l_process := p\<rparr>"
      and as: "as = [SaveResult TrainFailed] \<or> as = [] \<or> (\<exists>b. as = [Send (MsgTrainPartBytes k b) [Go (MsgTrainCalEncGradCost k)]])"
    by (auto split: if_splits)
  from calLocal_effect[OF p] have g: "progress_of p = seen l \<or> progress_of p = (seen l)\<lparr>pr_raw := True\<rparr>" by (simp add: seen_def)
  show ?thesis
    by (rule handled_okI) (use l t g as in \<open>auto simp: l' plain_upd status_moves_def toks_def tok_def moves_def\<close>)
qed

lemma handled_CalEnc:
  assumes l: "plain_learner l" "G s = seen l" and run: "on_CalEncGradCost A X l k = Some (l', as, r)" and own: "pair_ok T G U s"
  shows "handled_ok T G U s 0 l l' as"
proof (cases "k \<noteq> loopRound l")
  case True
  with run l show ?thesis by (auto simp: on_CalEncGradCost_def handled_idle)
next
  case False
  from run[unfolded on_CalEncGradCost_def if_not_P[OF False] with_process_Some] obtain x p
    where p: "calEncGradientAndCost A (le_vl X) (\<lambda>i. le_coins X k (i + 1)) (l_process l) = Some (x, p)"
      and l': "l' = l\<lparr>l_process := p\<rparr>" and as: "as = [SaveResult TrainFailed] \<or> as = [] \<or>
        (\<exists>g c. x = Some (g, c, 1) \<and> as = [Send (MsgTrainEncGradCost k g c) []])"
    by (auto split: if_splits)
  have "T s" if "x = Some (g, c, 1)" for g c
    using calEnc_raw[OF p[unfolded that]] own l(2) by (auto simp: seen_def pair_ok_def)
  with as l show ?thesis unfolding l'
    by (intro handled_same) (auto simp: toks_def tok_def calEnc_effect[OF p] seen_def)
qed

lemma handled_DecLocal:
  assumes l: "plain_learner l" "G s = seen l" and run: "on_DecLocalGradCost X l k = Some (l', as, r)" and t: "T (\<not> s)"
  shows "handled_ok T G U s 0 l l' as"
proof (cases "k \<noteq> loopRound l")
  case True
  with run l show ?thesis by (auto simp: on_DecLocalGradCost_def handled_idle)
next
  case False
  from run[unfolded on_DecLocalGradCost_def if_not_P[OF False] with_process_Some] obtain x p
    where p: "decGradientAndCost (le_vl X) (l_process l) = Some (x, p)"
      and l': "l' = l\<lparr>l_process := p\<rparr>" and as: "as = [SaveResult TrainFailed] \<or> as = [] \<or>
        (\<exists>g c. as = [Send (MsgTrainGradAndCost k g c) []])"
    by (auto split: if_splits)
  from as l t show ?thesis unfolding l'
    by (intro handled_same) (auto simp: toks_def tok_def dec_effect[OF p] seen_def)
qed

lemma handled_UpdCostGrad:
  assumes l: "plain_learner l" "G s = seen l" and run: "on_UpdCostGrad A X l k = Some (l', as, r)" and t: "T s"
    and own: "pair_ok T G U s"
  shows "handled_ok T G U s 0 l l' as"
proof (cases "k \<noteq> loopRound l")
  case True
  with run l show ?thesis by (auto simp: on_UpdCostGrad_def handled_idle)
next
  case False
  then have k: "k = pr_round (seen l)" using l(1) by (simp add: plain_learner_def)
  from run[unfolded on_UpdCostGrad_def if_not_P[OF False] with_process_Some] obtain x p
    where p: "updateCostAndGradient A (le_vl X) (l_process l) = Some (x, p)" and l': "l' = l\<lparr>l_process := p\<rparr>"
      and as: "x = None \<and> as = [SaveResult TrainFailed] \<or>
        (\<exists>b. x = Some b \<and> as = [Send (MsgTrainStatus k b) [Go (MsgTrainCheckStatus k)]])"
    by auto
  note u = update_effect[OF p, folded seen_def]
  show ?thesis
  proof (cases x)
    case None
    with as l u show ?thesis unfolding l' by (auto intro: handled_fails)
  next
    case (Some b)
    with as have as: "as = [Send (MsgTrainStatus k b) [Go (MsgTrainCheckStatus k)]]" by simp
    show ?thesis
    proof (cases "pr_stopped (seen l) = 0")
      case True
      with u Some have g: "progress_of p = (seen l)\<lparr>pr_stopped := code b\<rparr>" by (simp add: code_def)
      show ?thesis
        by (rule handled_okI) (use l t g k True in \<open>auto simp: l' as plain_upd status_moves_def toks_def tok_def moves_def\<close>)
    next
      case False
      with u Some have g: "progress_of p = seen l" "b = (pr_stopped (seen l) = 1)" by simp_all
      have "pr_stopped (seen l) \<le> 2" using own l(2) unfolding pair_ok_def by simp
      then have "pr_stopped (seen l) = code b" using g(2) False by (auto simp: code_def)
      then show ?thesis unfolding l'
        by (intro handled_same) (use l t g(1) k in \<open>auto simp: as toks_def tok_def\<close>)
    qed
  qed
qed


lemma handled_CheckStatus:
  assumes l: "plain_learner l" "G s = seen l" and run: "on_CheckStatus l k = Some (l', as, r)"
    and k: "k \<le> pr_round (seen l)" and own: "pair_ok T G U s"
  shows "handled_ok T G U s 0 l l' as"
proof -
  obtain decided stopped where d: "process_stop (l_process l) = (decided, stopped)" by fastforce
  then have dec: "decided \<longleftrightarrow> pr_other (seen l) \<noteq> 0 \<and> pr_stopped (seen l) \<noteq> 0"
      "stopped \<longleftrightarrow> pr_other (seen l) = 1 \<and> pr_stopped (seen l) = 1"
    by (auto simp: process_stop_def seen_def progress_of_def Let_def)
  have "decided \<Longrightarrow> T s" using own l(2) dec(1) unfolding pair_ok_def by auto
  moreover from run d l(1) have l': "l' = l"
    and as: "as = (if \<not> decided then [] else if stopped then [Go (MsgTrainModels k)] else [Go (MsgTrainLoop (k + 1))])"
    by (auto simp: on_CheckStatus_def plain_learner_def Let_def)
  ultimately show ?thesis unfolding l'
    by (intro handled_okI) (use l k dec in \<open>auto simp: as status_moves_def toks_def tok_def moves_def goes_on_def\<close>)
qed

lemma handled_TrainModels:
  assumes l: "plain_learner l" "G s = seen l" and run: "on_TrainModels l = Some (l', as, r)"
    and stop: "pr_stopped (seen l) = 1" "pr_other (seen l) = 1"
  shows "handled_ok T G U s 0 l l' as"
proof (cases "l_status l \<noteq> learnerStatusStartTrain")
  case True
  with run l show ?thesis by (auto simp: on_TrainModels_def handled_idle)
next
  case False
  from run[unfolded on_TrainModels_def if_not_P[OF False] Let_def with_process_Some] obtain x p
    where p: "getTrainModels (l_process l) = Some (x, p)" and l': "l' = l\<lparr>l_status := learnerStatusEndTrain, l_process := p\<rparr>"
      and as: "as = [SaveResult TrainFailed] \<or> (\<exists>m rows. as = [SaveResult (Trained m rows)])"
    by auto
  show ?thesis
    by (rule handled_okI) (use l False stop as getTrainModels_effect[OF p] in
      \<open>auto simp: l' plain_learner_def status_moves_def unstarted_def toks_def tok_def moves_def seen_process\<close>)
qed

text \<open>What the other party sends.\<close>

lemma handled_PartBytes:
  assumes l: "plain_learner l" "G s = seen l" and run: "on_PartBytes l k b = Some (l', as, r)"
  shows "handled_ok T G U s 0 l l' as"
proof (cases "k = loopRound l \<or> k = loopRound l + 1")
  case False
  with run l show ?thesis by (auto simp: on_PartBytes_def handled_idle)
next
  case True
  from run[unfolded on_PartBytes_def Let_def if_P[OF True] with_process_Some] obtain x p
    where p: "setPartBytesFromOther (l_process l) b k = Some (x, p)" and l': "l' = l\<lparr>l_process := p\<rparr>"
      and as: "as = [SaveResult TrainFailed] \<or> as = [] \<or> as = [Go (MsgTrainCalEncGradCost k)]"
    by (auto split: if_splits)
  from as l show ?thesis unfolding l'
    by (intro handled_same) (auto simp: toks_def tok_def setPart_effect[OF p] seen_def)
qed

lemma handled_EncGradCost:
  assumes l: "plain_learner l" "G s = seen l" and run: "on_EncGradCost l k g c = Some (l', as, r)" and t: "T (\<not> s)"
  shows "handled_ok T G U s 0 l l' as"
proof (cases "k \<noteq> loopRound l")
  case True
  with run l show ?thesis by (auto simp: on_EncGradCost_def handled_idle)
next
  case False
  obtain n p where p: "setEncGradientAndCostFromOther (l_process l) g c = (n, p)" by fastforce
  with run False have l': "l' = l\<lparr>l_process := p\<rparr>" and as: "as = [] \<or> as = [Go (MsgTrainDecLocalGradCost k)]"
    by (auto simp: on_EncGradCost_def split: if_splits)
  from as l t show ?thesis unfolding l'
    by (intro handled_same) (auto simp: toks_def tok_def setEnc_effect[OF p] seen_def)
qed

lemma handled_GradAndCost:
  assumes l: "plain_learner l" "G s = seen l" and run: "on_GradAndCost l k g c = Some (l', as, r)" and t: "T s"
  shows "handled_ok T G U s 0 l l' as"
proof (cases "k \<noteq> loopRound l")
  case True
  with run l show ?thesis by (auto simp: on_GradAndCost_def handled_idle)
next
  case False
  obtain n p where p: "SetGradientAndCostFromOther (l_process l) g c = (n, p)" by fastforce
  with run False have l': "l' = l\<lparr>l_process := p\<rparr>" and as: "as = [] \<or> as = [Go (MsgTrainUpdCostGrad k)]"
    by (auto simp: on_GradAndCost_def split: if_splits)
  from as l t show ?thesis unfolding l'
    by (intro handled_same) (auto simp: toks_def tok_def setGrad_effect[OF p] seen_def)
qed

lemma handled_Status:
  assumes l: "plain_learner l" "G s = seen l" and run: "on_Status l k b = Some (l', as, r)"
    and sent: "act_ok T G U (\<not> s) (Send (MsgTrainStatus k b) ks)" and other: "pair_ok T G U (\<not> s)"
  shows "handled_ok T G U s 0 l l' as"
proof (cases "k \<noteq> loopRound l")
  case True
  with run l show ?thesis by (auto simp: on_Status_def handled_idle)
next
  case False
  then have k: "k = pr_round (seen l)" using l(1) by (simp add: plain_learner_def)
  from run False have l': "l' = l\<lparr>l_process := setOtherStatus (l_process l) b\<rparr>" and as: "as = [Go (MsgTrainCheckStatus k)]"
    by (simp_all add: on_Status_def)
  note g = setOther_effect[of "l_process l" b, folded seen_def]
  show ?thesis
  proof (cases "pr_other (seen l) = 0")
    case True
    then have g: "progress_of (setOtherStatus (l_process l) b) = (seen l)\<lparr>pr_other := code b\<rparr>" using g by (simp add: code_def)
    have near: "pr_round (G (\<not> s)) \<le> pr_round (G s) + 1" using other unfolding pair_ok_def by simp
    from sent have "k \<le> pr_round (G (\<not> s))" "k = pr_round (G (\<not> s)) \<Longrightarrow> pr_stopped (G (\<not> s)) = code b"
      "pr_round (G (\<not> s)) = k + 1 \<Longrightarrow> pr_round (G s) = k \<Longrightarrow> pr_stopped (G s) = 1 \<Longrightarrow> \<not> b" by simp_all
    with near k l(2) have "pr_round (G (\<not> s)) = pr_round (G s) \<and> pr_stopped (G (\<not> s)) = code b \<or>
        pr_round (G (\<not> s)) = pr_round (G s) + 1 \<and> \<not> (pr_stopped (G s) = 1 \<and> b)"
      by (cases "k = pr_round (G (\<not> s))") auto
    then have "moves T G s ((seen l)\<lparr>pr_other := code b\<rparr>)" unfolding moves_def l(2) using True by blast
    with l k show ?thesis
      by (intro handled_okI) (auto simp: l' as g plain_upd status_moves_def toks_def tok_def)
  next
    case False
    with g have g: "progress_of (setOtherStatus (l_process l) b) = seen l" by simp
    show ?thesis unfolding l'
      by (rule handled_same) (use l g k in \<open>auto simp: as toks_def tok_def\<close>)
  qed
qed


lemma handled_local:
  assumes l: "plain_learner l" "G s = seen l" and run: "advance A X l m = Some (l', as, r)"
    and ok: "act_ok T G U s (Go m)" and own: "pair_ok T G U s" and first: "m = MsgTrainLoop 0 \<Longrightarrow> \<not> T s"
  shows "handled_ok T G U s (tok (Go m)) l l' as"
proof (cases m)
  case (MsgTrainLoop k)
  with handled_TrainLoop[OF l _ _ own] run ok first show ?thesis by simp
qed (use assms in \<open>auto simp: tok_def intro: handled_TrainHup handled_CalLocal handled_CalEnc handled_DecLocal
  handled_UpdCostGrad handled_CheckStatus handled_TrainModels\<close>)

lemma handled_remote:
  assumes l: "plain_learner l" "G s = seen l" and run: "advance A X l m = Some (l', as, r)"
    and sent: "act_ok T G U (\<not> s) (Send m ks)" and other: "pair_ok T G U (\<not> s)"
  shows "handled_ok T G U s 0 l l' as"
proof (cases m)
  case (MsgHomoPubkey b)
  with run have "l' = l\<lparr>l_process := setHomoPubOfOther (l_process l) b\<rparr>" "as = []" by (simp_all add: on_HomoPubkey_def)
  with l show ?thesis by (auto intro!: handled_same simp: setHomo_effect seen_def toks_def)
next
  case (MsgTrainStatus k b)
  have "act_ok T G U (\<not> s) (Send (MsgTrainStatus k b) ks)" using sent by (simp only: MsgTrainStatus)
  moreover have "on_Status l k b = Some (l', as, r)" using run by (simp add: MsgTrainStatus)
  ultimately show ?thesis using handled_Status l other by blast
qed (use assms in \<open>auto intro: handled_PartBytes handled_EncGradCost handled_GradAndCost\<close>)

end
