(* ===== verification/VlDuoSteps.thy ===== *)
theory VlDuoSteps
  imports VlHandled
begin

text \<open>
  Every step of two learners keeps the invariant, and a learner that has stopped stays in its round.
\<close>

section \<open>Every step keeps the invariant\<close>

abbreviation "begun S \<equiv> \<lambda>s. tokens S s = 0"
abbreviation "seens S \<equiv> \<lambda>s. seen (duo_learner S s)"
abbreviation "stats S \<equiv> \<lambda>s. l_status (duo_learner S s)"

lemma duo_invD:
  assumes "duo_inv S"
  shows "plain_learner (duo_learner S s)" "tokens S s \<le> 1" "pair_ok (begun S) (seens S) (stats S) s"
    "(s, a) \<in># duo_pending S \<Longrightarrow> act_ok (begun S) (seens S) (stats S) s a"
  using assms unfolding duo_inv_def Let_def by blast+

lemma duo_invI:
  "(\<And>s. plain_learner (duo_learner S s)) \<Longrightarrow> (\<And>s. tokens S s \<le> 1) \<Longrightarrow> (\<And>s. pair_ok (begun S) (seens S) (stats S) s) \<Longrightarrow>
    (\<And>s a. (s, a) \<in># duo_pending S \<Longrightarrow> act_ok (begun S) (seens S) (stats S) s a) \<Longrightarrow> duo_inv S"
  unfolding duo_inv_def Let_def by blast

lemma duo_put_simps: "duo_pending (duo_put S s l P) = P" "duo_learner (duo_put S s l P) = (duo_learner S)(s := l)"
  by (simp_all add: duo_put_def)

lemma duo_inv_put:
  assumes inv: "duo_inv S" and h: "handled_ok (begun S) (seens S) (stats S) s c (duo_learner S s) l as"
    and weight: "held P s + c \<le> held (duo_pending S) s" "held P (\<not> s) \<le> held (duo_pending S) (\<not> s)"
    and kept: "\<And>t a. (t, a) \<in># P \<Longrightarrow> act_ok (begun S) (seens S) (stats S) t a"
  shows "duo_inv (duo_put S s l (P + at_side s as))" (is "duo_inv ?S'")
proof (rule duo_invI)
  note d = duo_invD[OF inv]
  have G': "seens ?S' = (seens S)(s := seen l)" and U': "stats ?S' = (stats S)(s := l_status l)"
    by (auto simp: duo_put_simps)
  note m = handled_okD(2)[OF h] and u = handled_okD(3)[OF h]
  have tok: "tokens ?S' s = held P s + toks as + unstarted (l_status l)" "tokens ?S' (\<not> s) \<le> tokens S (\<not> s)"
    using weight by (simp_all add: tokens_def duo_put_simps)
  have less: "tokens ?S' s \<le> tokens S s"
    "toks as + unstarted (l_status l) < c + unstarted (l_status (duo_learner S s)) \<Longrightarrow> tokens ?S' s < tokens S s"
    using handled_okD(4)[OF h] weight(1) by (simp_all add: tokens_def duo_put_simps)
  have le: "tokens ?S' t \<le> tokens S t" for t using less(1) tok(2) by (cases "t = s") simp_all
  then show "tokens ?S' t \<le> 1" for t using d(2) le_trans by blast
  have T': "begun S t \<Longrightarrow> begun ?S' t" for t using le[of t] by simp
  have drop: "begun ?S' s" if "toks as + unstarted (l_status l) < c + unstarted (l_status (duo_learner S s))"
    using less(2)[OF that] d(2)[of s] by simp
  show "plain_learner (duo_learner ?S' t)" for t using handled_okD(1)[OF h] d(1) by (simp add: duo_put_simps)
  note p = moves_pair[OF m d(3) d(3)]
  have "pair_ok (begun S) ((seens S)(s := seen l)) (stats S) t" for t
    using p by (cases "t = s") simp_all
  moreover have "status_moves ((seens S)(s := seen l)) s (l_status (duo_learner S s)) (l_status l)"
    using u moves_stop[OF m] unfolding status_moves_def by auto
  ultimately have "pair_ok (begun S) ((seens S)(s := seen l)) ((stats S)(s := l_status l)) t" for t
    by (rule status_moves_pair[rotated])
  then show "pair_ok (begun ?S') (seens ?S') (stats ?S') t" for t
    unfolding G' U' by (rule pair_ok_started) (rule T')
  show "act_ok (begun ?S') (seens ?S') (stats ?S') t a" if a: "(t, a) \<in># duo_pending ?S'" for t a
  proof (cases "(t, a) \<in># P")
    case True
    show ?thesis unfolding G' U'
      by (rule act_ok_moves[OF m d(3) d(3) u _ kept[OF True]]) (rule T')
  next
    case False
    with a have ta: "t = s" "a \<in> set as" by (auto simp: duo_put_simps at_side_def)
    show ?thesis unfolding G' U' ta(1) 
      by (rule handled_okD(5)[OF h _ _ ta(2), where T' = "begun ?S'"]) (erule T', erule drop)
  qed
qed


text \<open>What is put in the place of an activity when nothing happens to the learners.\<close>

lemma duo_inv_swap:
  assumes inv: "duo_inv S" and pending: "duo_pending S = add_mset (s, a) P" and less: "toks bs \<le> tok a"
    and ok: "\<And>T b. (\<And>t. begun S t \<Longrightarrow> T t) \<Longrightarrow> b \<in> set bs \<Longrightarrow> act_ok T (seens S) (stats S) s b"
  shows "duo_inv (S\<lparr>duo_pending := P + at_side s bs\<rparr>)"
proof -
  note d = duo_invD[OF inv]
  have same: "(seens S)(s := seens S s) = seens S" "(stats S)(s := stats S s) = stats S" by auto
  have h: "handled_ok (begun S) (seens S) (stats S) s (tok a) (duo_learner S s) (duo_learner S s) bs"
    by (rule handled_okI) (use d(1) less ok in \<open>simp_all add: status_moves_def moves_def same\<close>)
  have "duo_inv (duo_put S s (duo_learner S s) (P + at_side s bs))"
  proof (rule duo_inv_put[OF inv h])
    show "held P s + tok a \<le> held (duo_pending S) s" "held P (\<not> s) \<le> held (duo_pending S) (\<not> s)"
      by (simp_all add: pending)
  qed (use d(4) pending in simp)
  moreover have "duo_put S s (duo_learner S s) Q = S\<lparr>duo_pending := Q\<rparr>" for Q by (simp add: duo_put_def)
  ultimately show ?thesis by simp
qed

lemma answer_ok:
  assumes "act_ok T G U s (Send m ks)"
  shows "toks ks \<le> tok (Send m ks)" and "a \<in> set ks \<Longrightarrow> act_ok T' G U s a"
proof -
  have "(\<forall>a \<in> set ks. \<not> is_token a) \<or> (\<exists>b. m = MsgHomoPubkey b) \<and> ks = [Go (MsgTrainLoop 0)]"
    using assms by (cases m) fastforce+
  then show "toks ks \<le> tok (Send m ks)" 
    by (elim disjE exE conjE) (simp_all add: toks_none toks_one)
  show "a \<in> set ks \<Longrightarrow> act_ok T' G U s a" using assms by (cases m) fastforce+
qed

lemma duo_inv_here:
  assumes inv: "duo_inv S" and pending: "duo_pending S = add_mset (s, Go m) P"
    and run: "advance A X (duo_learner S s) m = Some (l, as, r)"
  shows "duo_inv (duo_put S s l (P + at_side s as))"
    and "moves (begun S) (seens S) s (seen l)" "status_moves (seens S) s (stats S s) (l_status l)"
proof -
  note d = duo_invD[OF inv]
  have "\<not> begun S s" if "m = MsgTrainLoop 0" by (simp add: tokens_def pending that)
  then have h: "handled_ok (begun S) (seens S) (stats S) s (tok (Go m)) (duo_learner S s) l as"
    using handled_local[OF d(1) _ run d(4) d(3)] pending by simp
  show "duo_inv (duo_put S s l (P + at_side s as))"
    by (rule duo_inv_put[OF inv h]) (use d(4) in \<open>simp_all add: pending\<close>)
  show "moves (begun S) (seens S) s (seen l)" "status_moves (seens S) s (stats S s) (l_status l)"
    using handled_okD(2,3)[OF h] .
qed

lemma duo_inv_there:
  assumes inv: "duo_inv S" and sent: "(s, Send m ks) \<in># duo_pending S"
    and run: "advance A X (duo_learner S (\<not> s)) m = Some (l, as, r)"
  shows "duo_inv (duo_put S (\<not> s) l (duo_pending S + at_side (\<not> s) as))"
    and "moves (begun S) (seens S) (\<not> s) (seen l)" "status_moves (seens S) (\<not> s) (stats S (\<not> s)) (l_status l)"
proof -
  note d = duo_invD[OF inv]
  have h: "handled_ok (begun S) (seens S) (stats S) (\<not> s) 0 (duo_learner S (\<not> s)) l as"
    by (rule handled_remote[where G = "seens S", OF d(1) _ run]) (use d(3) d(4)[OF sent] in simp_all)
  show "duo_inv (duo_put S (\<not> s) l (duo_pending S + at_side (\<not> s) as))"
    by (rule duo_inv_put[OF inv h]) (use d(4) in simp_all)
  show "moves (begun S) (seens S) (\<not> s) (seen l)" "status_moves (seens S) (\<not> s) (stats S (\<not> s)) (l_status l)"
    using handled_okD(2,3)[OF h] .
qed


definition duo_moved :: "('raw, 'p) duo \<Rightarrow> ('raw, 'p) duo \<Rightarrow> bool" where
  "duo_moved S S' \<longleftrightarrow> (\<exists>t. duo_learner S' (\<not> t) = duo_learner S (\<not> t) \<and> moves (begun S) (seens S) t (seens S' t) \<and>
     status_moves (seens S) t (stats S t) (stats S' t))"

lemma duo_moved_put:
  "moves (begun S) (seens S) s (seen l) \<Longrightarrow> status_moves (seens S) s (stats S s) (l_status l) \<Longrightarrow> duo_moved S (duo_put S s l P)"
  unfolding duo_moved_def by (rule exI[of _ s]) (simp add: duo_put_simps)

lemma duo_moved_pending: "duo_moved S (S\<lparr>duo_pending := P\<rparr>)"
  by (auto simp: duo_moved_def status_moves_def moves_def)

lemma duo_step_inv:
  assumes "duo_step A X S S'" and inv: "duo_inv S"
  shows "duo_inv S' \<and> duo_moved S S'"
  using assms(1)
proof cases
  case (here s m P l as r)
  note h = duo_inv_here[OF inv here(2,3)]
  show ?thesis unfolding here(1) using h(1) duo_moved_put[OF h(2,3)] by blast
next
  case (lost s m as' l as r)
  note h = duo_inv_there[OF inv lost(2,3)]
  show ?thesis unfolding lost(1) using h(1) duo_moved_put[OF h(2,3)] by blast
next
  case (answered s m as' P l as r)
  have sent: "(s, Send m as') \<in># duo_pending S" by (simp add: answered(2))
  note h = duo_inv_there[OF inv sent answered(3)]
  let ?S = "duo_put S (\<not> s) l (duo_pending S + at_side (\<not> s) as)"
  have p: "duo_pending ?S = add_mset (s, Send m as') (P + at_side (\<not> s) as)"
    by (simp add: duo_put_simps answered(2))
  then have "act_ok (begun ?S) (seens ?S) (stats ?S) s (Send m as')" by (intro duo_invD(4)[OF h(1)]) simp
  note a = answer_ok[OF this]
  have "duo_inv (?S\<lparr>duo_pending := P + at_side (\<not> s) as + at_side s as'\<rparr>)"
    by (rule duo_inv_swap[OF h(1) p a(1)]) (rule a(2))
  moreover have "?S\<lparr>duo_pending := Q\<rparr> = duo_put S (\<not> s) l Q" for Q by (simp add: duo_put_def)
  ultimately show ?thesis unfolding answered(1) using duo_moved_put[OF h(2,3)] by simp
next
  case (given_up s m as' P)
  have "duo_inv (S\<lparr>duo_pending := P + at_side s [SaveResult TrainFailed]\<rparr>)"
    by (rule duo_inv_swap[OF inv given_up(2)]) (simp_all add: toks_one)
  then show ?thesis unfolding given_up(1) using duo_moved_pending by (simp add: at_side_def)
next
  case (ask_lost s b l as r)
  with duo_invD(4)[OF inv ask_lost(2)] show ?thesis by simp
next
  case (ask_answered s b P l as b' l' as' r)
  with duo_invD(4)[OF inv, of s "Ask b"] show ?thesis by simp
next
  case (ask_given_up s b P)
  with duo_invD(4)[OF inv, of s "Ask b"] show ?thesis by simp
qed

section \<open>From the start of the training\<close>

text \<open>Both have aligned their samples, nobody evaluates, and each has begun to handle \<open>MsgTrainHup\<close>.\<close>

definition ready_learner :: "('raw, 'p) learner \<Rightarrow> bool" where
  "ready_learner l \<longleftrightarrow> l_status l = learnerStatusEndPSI \<and> \<not> lEvaluated l \<and> \<not> stopSigNeglected l \<and> loopRound l = 0 \<and>
     progress_of (l_process l) = \<lparr>pr_round = 0, pr_stopped = 0, pr_other = 0, pr_raw = False\<rparr>"

definition duo_start :: "('raw, 'p) duo \<Rightarrow> bool" where
  "duo_start S \<longleftrightarrow> (\<forall>s. ready_learner (duo_learner S s)) \<and>
     duo_pending S = {#(False, Go MsgTrainHup), (True, Go MsgTrainHup)#}"

lemma duo_start_inv:
  assumes "duo_start S"
  shows "duo_inv S"
proof (rule duo_invI)
  have l: "ready_learner (duo_learner S s)" for s using assms by (simp add: duo_start_def)
  have p: "duo_pending S = {#(False, Go MsgTrainHup), (True, Go MsgTrainHup)#}" using assms by (simp add: duo_start_def)
  have g: "seens S s = \<lparr>pr_round = 0, pr_stopped = 0, pr_other = 0, pr_raw = False\<rparr>" "stats S s = learnerStatusEndPSI" for s
    using l[of s] by (simp_all add: ready_learner_def seen_def)
  show "plain_learner (duo_learner S s)" for s
    using l[of s] g[of s] by (simp add: plain_learner_def ready_learner_def)
  show "tokens S s \<le> 1" for s
    by (cases s) (simp_all add: tokens_def p g unstarted_def tok_def)
  show "pair_ok (begun S) (seens S) (stats S) s" for s by (simp add: pair_ok_def g)
  show "act_ok (begun S) (seens S) (stats S) s a" if "(s, a) \<in># duo_pending S" for s a
    using that by (auto simp: p)
qed

lemma duo_reachable_inv:
  assumes "duo_reachable A X S S'" and "duo_inv S"
  shows "duo_inv S'"
  using assms unfolding duo_reachable_def
  by (induction rule: rtranclp_induct) (use duo_step_inv in blast)+

text \<open>A side that has stopped stays in its round.\<close>

lemma duo_moved_stopped:
  assumes "duo_moved S S'" "duo_inv S" and "stats S s = learnerStatusEndTrain"
  shows "stats S' s = learnerStatusEndTrain \<and> pr_round (seens S' s) = pr_round (seens S s)"
proof -
  from assms(1) obtain t where t: "duo_learner S' (\<not> t) = duo_learner S (\<not> t)" "moves (begun S) (seens S) t (seens S' t)"
    "status_moves (seens S) t (stats S t) (stats S' t)" unfolding duo_moved_def by blast
  show ?thesis
  proof (cases "t = s")
    case True
    have "pr_stopped (seens S s) = 1" "pr_other (seens S s) = 1"
      using duo_invD(3)[OF assms(2), of s] assms(3) unfolding pair_ok_def by blast+
    with t(2,3) True assms(3) show ?thesis unfolding moves_def status_moves_def goes_on_def by auto
  next
    case False
    then have "s = (\<not> t)" by blast
    with t(1) assms(3) show ?thesis by simp
  qed
qed

lemma duo_reachable_stopped:
  assumes "duo_reachable A X S S'" "duo_inv S" and "stats S s = learnerStatusEndTrain"
  shows "duo_inv S' \<and> stats S' s = learnerStatusEndTrain \<and> pr_round (seens S' s) = pr_round (seens S s)"
  using assms(1) unfolding duo_reachable_def
proof (induction rule: rtranclp_induct)
  case base
  with assms show ?case by blast
next
  case (step S1 S2)
  with duo_step_inv[OF step(2)] duo_moved_stopped[of S1 S2 s] show ?case by auto
qed

lemma stopped_together:
  assumes "duo_inv S" and "stats S s = learnerStatusEndTrain"
  shows "pr_round (seens S (\<not> s)) = pr_round (seens S s)" and "pr_stopped (seens S (\<not> s)) = 1" and "pr_stopped (seens S s) = 1"
proof -
  have own: "pair_ok (begun S) (seens S) (stats S) s" and other: "pair_ok (begun S) (seens S) (stats S) (\<not> s)"
    by (rule duo_invD(3)[OF assms(1)])+
  from own assms(2) have stop: "pr_stopped (seens S s) = 1" "pr_other (seens S s) = 1" unfolding pair_ok_def by blast+
  then show "pr_stopped (seens S s) = 1" by blast
  have "pr_round (seens S s) \<le> pr_round (seens S (\<not> s))" "pr_round (seens S (\<not> s)) \<noteq> pr_round (seens S s) + 1"
    using own stop unfolding pair_ok_def by auto
  moreover have "pr_round (seens S (\<not> s)) \<le> pr_round (seens S s) + 1" using other unfolding pair_ok_def by simp
  ultimately show same: "pr_round (seens S (\<not> s)) = pr_round (seens S s)" by simp
  with own stop show "pr_stopped (seens S (\<not> s)) = 1" unfolding pair_ok_def by auto
qed

end
