(* ===== verification/VlDuoProperties.thy ===== *)
theory VlDuoProperties
  imports VlDuoSteps VlProperties
begin

section \<open>A training on concrete inputs\<close>

definition train_algo :: "(RawLocalGradientPart, EncLocalGradientPart) vl_algo" where
  "train_algo = linear_algo\<lparr>al_train_set := (\<lambda>E rows params. vret (vl_demo_set (tp_IsTagPart params)))\<rparr>"



definition zero_enc :: EncLocalGradientPart where
  "zero_enc = \<lparr>EncGradPart = [(0, Some 18)], EncGradPartSquare = [(0, Some 18)], EncRegCost = Some 18\<rparr>"





definition "zero_part = al_to_bytes train_algo zero_enc"
definition "enc_grads = GradListToBytes [[(0, Some 477)]]"
definition "enc_cost_map = CostToBytes [(0, Some 198)]"
definition "plain_grads = GradListToBytes [[(0, Some 1)]]"
definition "plain_cost_map = CostToBytes [(0, Some 1)]"










fun put_side :: "bool \<Rightarrow> 'a \<Rightarrow> 'a \<times> 'a \<Rightarrow> 'a \<times> 'a" where
  "put_side s x (a, b) = (if s then (a, x) else (x, b))"

















section \<open>Properties\<close>





end
