(* ===== verification/VlLogicLearner.thy ===== *)
theory VlLogicLearner
  imports VlLearner
begin

text \<open>
  The learner of logistic regression, \<^verbatim>\<open>dai/mpc/learners/logic_reg_vl\<close>: the methods and handlers that
  call the functions of the algorithm, over those of \<^verbatim>\<open>dai/crypto/vl/logic\<close>. The others have the same
  text as in linear regression.
\<close>

definition logic_process_init :: "vl_env \<Rightarrow> RawLocalGradAndCostPart process \<Rightarrow> string list list \<Rightarrow>
    (unit, RawLocalGradAndCostPart) proc_method" where
  "logic_process_init = process_init logic_algo"

definition logic_process_calLocal :: "vl_env \<Rightarrow> coin \<Rightarrow> RawLocalGradAndCostPart process \<Rightarrow>
    (blob \<times> nat, RawLocalGradAndCostPart) proc_method" where
  "logic_process_calLocal = calLocalGradientAndCost logic_algo"

definition logic_process_calEnc :: "vl_env \<Rightarrow> (nat \<Rightarrow> coin) \<Rightarrow> RawLocalGradAndCostPart process \<Rightarrow>
    (blob \<times> blob \<times> nat, RawLocalGradAndCostPart) proc_method" where
  "logic_process_calEnc = calEncGradientAndCost logic_algo"

definition logic_process_update :: "vl_env \<Rightarrow> RawLocalGradAndCostPart process \<Rightarrow> (bool, RawLocalGradAndCostPart) proc_method" where
  "logic_process_update = updateCostAndGradient logic_algo"

definition logic_advance :: "'p learn_env \<Rightarrow> (RawLocalGradAndCostPart, 'p) learner \<Rightarrow> message \<Rightarrow>
    (RawLocalGradAndCostPart, 'p) handled" where
  "logic_advance = advance logic_algo"

text \<open>What the handlers of logistic regression do on the methods of its process.\<close>

lemma logic_advance_simps:
  "logic_advance X l MsgTrainHup =
     (if l_status l \<noteq> learnerStatusEndPSI then Some (l, [], NoReply)
      else let l = l\<lparr>l_status := learnerStatusStartTrain\<rparr> in
        with_process (logic_process_init (le_vl X) (l_process l) (l_fileRows l)) l (\<lambda>_ l.
        let next = triggerRound l + triggerInter l in
        Some (l, [Send (MsgHomoPubkey (homoPub l))
          (if \<not> lEvaluated l then [Go (MsgTrainLoop 0)]
           else [Trigger True (MsgTrainSet next []) (MsgContinueLoop 0 next 0) (l_fileRows l)])], NoReply)))"
  "logic_advance X l (MsgTrainCalLocalGradCost rnd) =
     (if rnd \<noteq> loopRound l then Some (l, [], NoReply)
      else with_process (logic_process_calLocal (le_vl X) (le_coins X rnd 0) (l_process l)) l (\<lambda>(part, t) l.
        Some (l, if t = 1 then [Send (MsgTrainPartBytes rnd part) [Go (MsgTrainCalEncGradCost rnd)]] else [], NoReply)))"
  "logic_advance X l (MsgTrainCalEncGradCost rnd) =
     (if rnd \<noteq> loopRound l then Some (l, [], NoReply)
      else with_process (logic_process_calEnc (le_vl X) (\<lambda>i. le_coins X rnd (i + 1)) (l_process l)) l (\<lambda>(g, c, t) l.
        Some (l, if t = 1 then [Send (MsgTrainEncGradCost rnd g c) []] else [], NoReply)))"
  "logic_advance X l (MsgTrainUpdCostGrad rnd) =
     (if rnd \<noteq> loopRound l then Some (l, [], NoReply)
      else with_process (logic_process_update (le_vl X) (l_process l)) l (\<lambda>stopped l.
        Some (l, [Send (MsgTrainStatus rnd stopped) [Go (MsgTrainCheckStatus rnd)]], NoReply)))"
  by (simp_all add: logic_advance_def on_TrainHup_def on_CalLocalGradCost_def on_CalEncGradCost_def on_UpdCostGrad_def
      logic_process_init_def logic_process_calLocal_def logic_process_calEnc_def logic_process_update_def)

end
