(* ===== verification/VlPredict.thy ===== *)
theory VlPredict
  imports VlProcess
begin

text \<open>
  Predictions of two parties: \<^verbatim>\<open>dai/crypto/vl/linear/predict.go\<close>, \<^verbatim>\<open>dai/crypto/vl/logic/predict.go\<close> and
  the result of \<^verbatim>\<open>dai/crypto/vl/common/convert.go\<close>. The parser and the printer of floating point
  numbers, \<^verbatim>\<open>math.Exp\<close> and the order of maps are parameters.
\<close>

record predict_env =
  pe_parse :: parse_float
  pe_names :: "string list \<Rightarrow> string list"
  pe_exp :: "float64 \<Rightarrow> float64"
  pe_format :: "float64 \<Rightarrow> string"

section \<open>The part of a party\<close>

text \<open>A row that is shorter than the first one is an index out of range.\<close>

fun input_of :: "parse_float \<Rightarrow> string list \<Rightarrow> string list \<Rightarrow> fmap \<Rightarrow> fmap vl" where
  "input_of P [] row m = vret m"
| "input_of P (n # ns) [] m = vpanic"
| "input_of P (n # ns) (c # cs) m = vbind (checked (P c)) (\<lambda>v. input_of P ns cs (AList.update n v m))"

fun predict_rows :: "parse_float \<Rightarrow> (fmap \<Rightarrow> float64) \<Rightarrow> string list \<Rightarrow> string list list \<Rightarrow> float64 list vl" where
  "predict_rows P val names [] = vret []"
| "predict_rows P val names (row # rows) =
     vbind (input_of P names row []) (\<lambda>input. vbind (predict_rows P val names rows) (\<lambda>vs. vret (val input # vs)))"

definition PredictLocalPart :: "predict_env \<Rightarrow> string list list \<Rightarrow> TrainModels \<Rightarrow> float64 list vl" where
  "PredictLocalPart E fileRows params = (case fileRows of [] \<Rightarrow> vpanic
     | featureList # rows \<Rightarrow> predict_rows (pe_parse E) (\<lambda>input.
         let standardizedInput = StandardizeLocalInput (tm_Xbars params) (tm_Sigmas params) input in
         if tm_IsTagPart params then PredictLocalPartTag (pe_names E) (tm_Thetas params) standardizedInput
         else PredictLocalPartNoTag (pe_names E) (tm_Thetas params) standardizedInput) featureList rows)"

definition logic_PredictLocalPart :: "predict_env \<Rightarrow> string list list \<Rightarrow> TrainModels \<Rightarrow> float64 list vl" where
  "logic_PredictLocalPart E fileRows params = (case fileRows of [] \<Rightarrow> vpanic
     | featureList # rows \<Rightarrow> predict_rows (pe_parse E) (\<lambda>input.
         let standardizedInput = logic_StandardizeLocalInput (tm_Xbars params) (tm_Sigmas params) input in
         if tm_IsTagPart params then logic_PredictLocalPartTag (pe_names E) (tm_Thetas params) standardizedInput
         else logic_PredictLocalPartNoTag (pe_names E) (tm_Thetas params) standardizedInput) featureList rows)"

section \<open>The predictions of both\<close>

text \<open>If the part of the other party is shorter, that is an index out of range.\<close>

fun sum_parts :: "(float64 \<Rightarrow> float64) \<Rightarrow> float64 list \<Rightarrow> float64 list \<Rightarrow> float64 list vl" where
  "sum_parts post [] other = vret []"
| "sum_parts post (l # ls) [] = vpanic"
| "sum_parts post (l # ls) (r # rs) = vbind (sum_parts post ls rs) (\<lambda>vs. vret (post (fadd l r) # vs))"

definition DeStandardizeOutputs :: "TrainModels \<Rightarrow> float64 list \<Rightarrow> float64 list \<Rightarrow> float64 list vl" where
  "DeStandardizeOutputs params localPredict otherPredict =
     (let ybar = fget (tm_Xbars params) (tm_Label params); sigma = fget (tm_Sigmas params) (tm_Label params) in
      sum_parts (DeStandardizeOutput ybar sigma) localPredict otherPredict)"

definition CalRealPredictValue :: "predict_env \<Rightarrow> float64 list \<Rightarrow> float64 list \<Rightarrow> float64 list vl" where
  "CalRealPredictValue E localPredict otherPredict =
     sum_parts (\<lambda>predictSum. fdiv (Fin 1) (fadd (Fin 1) (pe_exp E (fmul (Fin (-1)) predictSum)))) localPredict otherPredict"

text \<open>The result stands for its JSON form.\<close>

definition PredictResultToBytes :: "predict_env \<Rightarrow> string \<Rightarrow> string list \<Rightarrow> float64 list \<Rightarrow> string list list vl" where
  "PredictResultToBytes E idName IDs values =
     (if length IDs \<noteq> length values then verr
      else vret ([idName, ''value''] # map2 (\<lambda>i v. [i, pe_format E v]) IDs values))"

section \<open>Facts\<close>

lemma sum_parts_ok: "length ls \<le> length rs \<Longrightarrow> sum_parts post ls rs = vret (map2 (\<lambda>l r. post (fadd l r)) ls rs)"
  by (induction post ls rs rule: sum_parts.induct) simp_all

lemma predict_rows_length: "predict_rows P val names rows = Some (Inr vs) \<Longrightarrow> length vs = length rows"
  by (induction rows arbitrary: vs) (auto simp: vl_ok)

lemma PredictLocalPart_length: "PredictLocalPart E rows params = Some (Inr vs) \<Longrightarrow> length vs = length rows - 1"
  by (auto simp: PredictLocalPart_def vpanic_def split: list.splits dest!: predict_rows_length)

text \<open>A column that the model does not know is divided by zero.\<close>

lemma fdiv_zero: "fdiv x (Fin 0) = NaN \<or> fdiv x (Fin 0) = PInf \<or> fdiv x (Fin 0) = NInf"
  by (cases x) (auto simp: signed_inf_def)

lemma fmul_zero_inf: "fmul (Fin 0) (fdiv x (Fin 0)) = NaN"
  using fdiv_zero[of x] by auto

lemma fadd_NaN: "fadd NaN y = NaN" "fadd y NaN = NaN"
  by (cases y; simp)+

lemma foldl_NaN: "foldl (\<lambda>s k. fadd s (f k)) NaN ks = NaN"
  by (induction ks) (simp_all add: fadd_NaN)

lemma foldl_has_NaN: "k \<in> set ks \<Longrightarrow> f k = NaN \<Longrightarrow> foldl (\<lambda>s k. fadd s (f k)) x ks = NaN"
  by (induction ks arbitrary: x) (auto simp: fadd_NaN foldl_NaN)

lemma input_of_keys: "input_of P names row m = Some (Inr input) \<Longrightarrow> fst ` set input = fst ` set m \<union> set names"
proof (induction P names row m arbitrary: input rule: input_of.induct)
  case (3 P n ns c cs m)
  then obtain v where "P c = Some v" "input_of P ns cs (AList.update n v m) = Some (Inr input)" by (auto simp: vl_ok)
  with 3(1)[of v input] show ?case by (simp add: vl_ok dom_update)
qed (simp_all add: vl_ok vpanic_def)

lemma unknown_column_NaN:
  assumes "set (rng (map fst input)) = fst ` set input" and "k \<in> fst ` set input"
    and "map_of sigmas k = None" and "map_of ts k = None"
  shows "PredictLocalPartTag rng ts (StandardizeLocalInput xbars sigmas input) = NaN"
proof -
  let ?s = "StandardizeLocalInput xbars sigmas input"
  have keys: "map fst ?s = map fst input" by (auto simp: StandardizeLocalInput_def)
  from assms(2) obtain v where "map_of input k = Some v" by (metis domIff dom_map_of_conv_image_fst option.exhaust)
  then have "map_of ?s k = Some (fdiv (fsub v (fget xbars k)) (Fin 0))"
    using assms(3) by (induction input) (auto simp: StandardizeLocalInput_def fget_def)
  then have "fmul (fget ts k) (fget ?s k) = NaN"
    using fmul_zero_inf assms(4) by (simp add: fget_def)
  then show ?thesis
    unfolding PredictLocalPartTag_def dot_def keys using assms(1,2) by (intro foldl_has_NaN[of k]) simp_all
qed

lemma predict_rows_all: "predict_rows P val names rows = Some (Inr vs) \<Longrightarrow>
    (\<And>row input. input_of P names row [] = Some (Inr input) \<Longrightarrow> Q (val input)) \<Longrightarrow> list_all Q vs"
  by (induction rows arbitrary: vs) (auto simp: vl_ok)

end
