(* ===== verification/VlModel.thy ===== *)
theory VlModel
  imports VlPredict VlLearner
begin

text \<open>
  The model that predicts, \<^verbatim>\<open>dai/mpc/models/linear_reg_vl/linear_reg_vl.go\<close>, and two models that
  exchange messages. The model of logistic regression has the same text over its own functions and
  calls \<open>PredictSum\<close> \<^verbatim>\<open>MsgPredictFinal\<close>, so the algorithm is a parameter.
\<close>

section \<open>Messages and state\<close>

datatype predict_message =
    PsiEnc
  | PsiAskReEnc blob
  | PsiReEnc string blob
  | PsiIntersect
  | PredictHup
  | PredictPart "float64 list"
  | PredictSum

datatype modelStatusType = modelStatusStartPSI | modelStatusEndPSI | modelStatusStartPredict | modelStatusEndPredict

text \<open>The party without the label saves no outcomes.\<close>

datatype predict_result = PredictFailed | Predicted "string list list option"

datatype model_activity =
    Run predict_message
  | Tell predict_message "model_activity list"
  | Request blob
  | Save predict_result

record 'p vl_model =
  m_address :: string
  m_other :: string
  m_params :: TrainModels
  m_psi :: "'p vlTwoPartsPsi"
  m_fileRows :: "string list list"
  m_intersect :: "string list"
  predictPart :: "float64 list"
  predictPartFromOther :: "float64 list"
  outcomes :: "float64 list"
  m_status :: modelStatusType

record 'p model_env =
  me_predict :: predict_env
  me_psi :: "'p psi_env"
  me_order :: map_order
  me_parties :: party_order

text \<open>The functions of an algorithm: the part of a party, and the outcomes from both parts.\<close>

record model_algo =
  ma_local :: "predict_env \<Rightarrow> string list list \<Rightarrow> TrainModels \<Rightarrow> float64 list vl"
  ma_outcomes :: "predict_env \<Rightarrow> TrainModels \<Rightarrow> float64 list \<Rightarrow> float64 list \<Rightarrow> float64 list vl"

definition linear_model :: model_algo where
  "linear_model = \<lparr>ma_local = PredictLocalPart, ma_outcomes = (\<lambda>E. DeStandardizeOutputs)\<rparr>"

definition logic_model :: model_algo where
  "logic_model = \<lparr>ma_local = logic_PredictLocalPart, ma_outcomes = (\<lambda>E params. CalRealPredictValue E)\<rparr>"

type_synonym 'p model_handled = "('p vl_model \<times> model_activity list \<times> reply) option"

definition NewModel :: "'p psi_env \<Rightarrow> bytes option \<Rightarrow> string \<Rightarrow> TrainModels \<Rightarrow> bytes \<Rightarrow> string list \<Rightarrow>
    ('p vl_model \<times> model_activity list) psi_res" where
  "NewModel PE drawn address params samplesFile parties =
     pbind (NewVLTwoPartsPSI PE drawn address samplesFile (tm_IdName params) parties) (\<lambda>p.
     Inr (\<lparr>m_address = address, m_other = hd parties, m_params = params, m_psi = p, m_fileRows = [], m_intersect = [],
       predictPart = [], predictPartFromOther = [], outcomes = [], m_status = modelStatusStartPSI\<rparr>, [Run PsiEnc]))"

section \<open>Handling a message\<close>

definition m_failing :: "'p vl_model \<Rightarrow> 'p model_handled" where
  "m_failing m = Some (m, [Save PredictFailed], Refused)"

definition m_psi_step :: "'a psi_res \<Rightarrow> 'p vl_model \<Rightarrow> ('a \<Rightarrow> 'p model_handled) \<Rightarrow> 'p model_handled" where
  "m_psi_step r m k = (case r of Inl PsiPanic \<Rightarrow> None | Inl _ \<Rightarrow> m_failing m | Inr x \<Rightarrow> k x)"

definition m_step :: "'a vl \<Rightarrow> 'p vl_model \<Rightarrow> ('a \<Rightarrow> 'p model_handled) \<Rightarrow> 'p model_handled" where
  "m_step r m k = (case r of None \<Rightarrow> None | Some (Inl VlPanic) \<Rightarrow> None | Some (Inl VlError) \<Rightarrow> m_failing m | Some (Inr x) \<Rightarrow> k x)"

definition model_PsiEnc :: "'p model_env \<Rightarrow> 'p vl_model \<Rightarrow> 'p model_handled" where
  "model_PsiEnc X m = m_psi_step (vp_EncryptSampleIDSet (me_psi X) (me_order X) (m_psi m)) m (\<lambda>(encIDs, p).
     Some (m\<lparr>m_psi := p\<rparr>, [Run (PsiAskReEnc encIDs)], NoReply))"

definition model_PsiAskReEnc :: "'p vl_model \<Rightarrow> blob \<Rightarrow> 'p model_handled" where
  "model_PsiAskReEnc m encIDs = Some (m, [Request encIDs], NoReply)"

definition model_ReEncrypted :: "'p vl_model \<Rightarrow> blob \<Rightarrow> 'p model_handled" where
  "model_ReEncrypted m reEncIDs =
     (let (finished, p) = TwoParts_SetReEncryptIDSet (m_psi m) (m_other m) reEncIDs in
      Some (m\<lparr>m_psi := p\<rparr>, if finished then [Run PsiIntersect] else [], NoReply))"

definition model_PsiReEnc :: "'p model_env \<Rightarrow> 'p vl_model \<Rightarrow> string \<Rightarrow> blob \<Rightarrow> 'p model_handled" where
  "model_PsiReEnc X m sender encIDs =
     m_psi_step (vp_ReEncryptIDSet (me_psi X) (me_order X) (m_psi m) sender encIDs) m (\<lambda>reEncIDs.
     Some (m\<lparr>m_psi := vp_SetOtherFinalReEncryptIDSet (m_psi m) sender reEncIDs\<rparr>, [Run PsiIntersect], AnsweredWith reEncIDs))"

definition model_PsiIntersect :: "'p model_env \<Rightarrow> 'p vl_model \<Rightarrow> 'p model_handled" where
  "model_PsiIntersect X m =
     (let (r, p) = TwoParts_IntersectParts (me_psi X) (me_order X) (me_parties X) (m_psi m); m = m\<lparr>m_psi := p\<rparr> in
      m_psi_step r m (\<lambda>(finished, newRows, intersect).
       if finished
       then Some (m\<lparr>m_fileRows := newRows, m_intersect := intersect, m_status := modelStatusEndPSI\<rparr>, [Run PredictHup], NoReply)
       else Some (m, [], NoReply)))"

definition model_PredictHup :: "model_algo \<Rightarrow> 'p model_env \<Rightarrow> 'p vl_model \<Rightarrow> 'p model_handled" where
  "model_PredictHup A X m =
     (if m_status m \<noteq> modelStatusEndPSI then Some (m, [], NoReply)
      else let m = m\<lparr>m_status := modelStatusStartPredict\<rparr> in
        m_step (ma_local A (me_predict X) (m_fileRows m) (m_params m)) m (\<lambda>part.
        Some (m\<lparr>predictPart := part\<rparr>,
          if \<not> tm_IsTagPart (m_params m) then [Tell (PredictPart part) [Run PredictSum]] else [Run PredictSum], NoReply)))"

definition model_PredictPart :: "'p vl_model \<Rightarrow> float64 list \<Rightarrow> 'p model_handled" where
  "model_PredictPart m part = Some (m\<lparr>predictPartFromOther := part\<rparr>, [Run PredictSum], Answered)"

text \<open>The method with the sum, for linear regression \<^verbatim>\<open>deStandardizeOutput\<close>: nothing while a part is missing.\<close>

definition model_outcomes :: "model_algo \<Rightarrow> predict_env \<Rightarrow> 'p vl_model \<Rightarrow> float64 list option vl" where
  "model_outcomes A E m =
     (if predictPart m = [] \<or> predictPartFromOther m = [] then vret None
      else vbind (ma_outcomes A E (m_params m) (predictPart m) (predictPartFromOther m)) (\<lambda>vs. vret (Some vs)))"

definition model_PredictSum :: "model_algo \<Rightarrow> 'p model_env \<Rightarrow> 'p vl_model \<Rightarrow> 'p model_handled" where
  "model_PredictSum A X m =
     (if m_status m \<noteq> modelStatusStartPredict then Some (m, [], NoReply)
      else if \<not> tm_IsTagPart (m_params m) then Some (m\<lparr>m_status := modelStatusEndPredict\<rparr>, [Save (Predicted None)], NoReply)
      else m_step (model_outcomes A (me_predict X) m) m (\<lambda>r. case r of None \<Rightarrow> Some (m, [], NoReply)
        | Some vs \<Rightarrow> let m = m\<lparr>outcomes := vs, m_status := modelStatusEndPredict\<rparr> in
            m_step (PredictResultToBytes (me_predict X) (tm_IdName (m_params m)) (m_intersect m) vs) m (\<lambda>outs.
            Some (m, [Save (Predicted (Some outs))], NoReply))))"

fun model_advance :: "model_algo \<Rightarrow> 'p model_env \<Rightarrow> 'p vl_model \<Rightarrow> predict_message \<Rightarrow> 'p model_handled" where
  "model_advance A X m PsiEnc = model_PsiEnc X m"
| "model_advance A X m (PsiAskReEnc b) = model_PsiAskReEnc m b"
| "model_advance A X m (PsiReEnc s b) = model_PsiReEnc X m s b"
| "model_advance A X m PsiIntersect = model_PsiIntersect X m"
| "model_advance A X m PredictHup = model_PredictHup A X m"
| "model_advance A X m (PredictPart part) = model_PredictPart m part"
| "model_advance A X m PredictSum = model_PredictSum A X m"

definition logic_model_advance :: "'p model_env \<Rightarrow> 'p vl_model \<Rightarrow> predict_message \<Rightarrow> 'p model_handled" where
  "logic_model_advance = model_advance logic_model"

section \<open>Two models\<close>

text \<open>Messages are delivered as between two learners.\<close>

record 'p model_pair =
  pair_model :: "bool \<Rightarrow> 'p vl_model"
  pair_pending :: "(bool \<times> model_activity) multiset"

definition by_side :: "bool \<Rightarrow> model_activity list \<Rightarrow> (bool \<times> model_activity) multiset" where
  "by_side s as = mset (map (Pair s) as)"

definition pair_put :: "'p model_pair \<Rightarrow> bool \<Rightarrow> 'p vl_model \<Rightarrow> (bool \<times> model_activity) multiset \<Rightarrow> 'p model_pair" where
  "pair_put S s m P = \<lparr>pair_model = (pair_model S)(s := m), pair_pending = P\<rparr>"

inductive pair_step :: "model_algo \<Rightarrow> (bool \<Rightarrow> 'p model_env) \<Rightarrow> 'p model_pair \<Rightarrow> 'p model_pair \<Rightarrow> bool"
  for A X where
  run: "pair_pending S = add_mset (s, Run x) P \<Longrightarrow> model_advance A (X s) (pair_model S s) x = Some (m, as, r) \<Longrightarrow>
    pair_step A X S (pair_put S s m (P + by_side s as))"
| unanswered: "(s, Tell x as') \<in># pair_pending S \<Longrightarrow> model_advance A (X (\<not> s)) (pair_model S (\<not> s)) x = Some (m, as, r) \<Longrightarrow>
    pair_step A X S (pair_put S (\<not> s) m (pair_pending S + by_side (\<not> s) as))"
| told: "pair_pending S = add_mset (s, Tell x as') P \<Longrightarrow>
    model_advance A (X (\<not> s)) (pair_model S (\<not> s)) x = Some (m, as, r) \<Longrightarrow> r \<noteq> Refused \<Longrightarrow>
    pair_step A X S (pair_put S (\<not> s) m (P + by_side (\<not> s) as + by_side s as'))"
| untold: "pair_pending S = add_mset (s, Tell x as') P \<Longrightarrow>
    pair_step A X S (S\<lparr>pair_pending := add_mset (s, Save PredictFailed) P\<rparr>)"
| request_lost: "(s, Request b) \<in># pair_pending S \<Longrightarrow>
    model_advance A (X (\<not> s)) (pair_model S (\<not> s)) (PsiReEnc (m_address (pair_model S s)) b) = Some (m, as, r) \<Longrightarrow>
    pair_step A X S (pair_put S (\<not> s) m (pair_pending S + by_side (\<not> s) as))"
| request_answered: "pair_pending S = add_mset (s, Request b) P \<Longrightarrow>
    model_advance A (X (\<not> s)) (pair_model S (\<not> s)) (PsiReEnc (m_address (pair_model S s)) b) = Some (m, as, AnsweredWith b') \<Longrightarrow>
    model_ReEncrypted (pair_model S s) b' = Some (m', as', r) \<Longrightarrow>
    pair_step A X S (pair_put (pair_put S (\<not> s) m {#}) s m' (P + by_side (\<not> s) as + by_side s as'))"
| request_given_up: "pair_pending S = add_mset (s, Request b) P \<Longrightarrow>
    pair_step A X S (S\<lparr>pair_pending := add_mset (s, Save PredictFailed) P\<rparr>)"

definition pair_reachable :: "model_algo \<Rightarrow> (bool \<Rightarrow> 'p model_env) \<Rightarrow> 'p model_pair \<Rightarrow> 'p model_pair \<Rightarrow> bool" where
  "pair_reachable A X = (pair_step A X)\<^sup>*\<^sup>*"

end
