(* ===== verification/VlModelPair.thy ===== *)
theory VlModelPair
  imports VlModel
begin

text \<open>
  Two models after the alignment of their samples: what each holds of the parts, what is pending, and
  how often a prediction is saved. The side \<open>True\<close> has the label.
\<close>

section \<open>The invariant\<close>

definition own_part :: "model_algo \<Rightarrow> (bool \<Rightarrow> 'p model_env) \<Rightarrow> 'p model_pair \<Rightarrow> bool \<Rightarrow> float64 list \<Rightarrow> bool" where
  "own_part A X S s v \<longleftrightarrow> ma_local A (me_predict (X s)) (m_fileRows (pair_model S s)) (m_params (pair_model S s)) = vret v"

text \<open>The outcomes of a pair: from both parts, with the identifiers of the party with the label.\<close>

definition joint_outcome :: "model_algo \<Rightarrow> (bool \<Rightarrow> 'p model_env) \<Rightarrow> 'p model_pair \<Rightarrow> string list list \<Rightarrow> bool" where
  "joint_outcome A X S outs \<longleftrightarrow> (\<exists>own other vs. own_part A X S True own \<and> own_part A X S False other \<and>
     ma_outcomes A (me_predict (X True)) (m_params (pair_model S True)) own other = vret vs \<and>
     PredictResultToBytes (me_predict (X True)) (tm_IdName (m_params (pair_model S True))) (m_intersect (pair_model S True)) vs = vret outs)"

fun is_save :: "model_activity \<Rightarrow> bool" where
  "is_save (Save (Predicted r)) = True"
| "is_save _ = False"

definition saves :: "(bool \<times> model_activity) multiset \<Rightarrow> bool \<Rightarrow> nat" where
  "saves P s = size {#x \<in># P. fst x = s \<and> is_save (snd x)#}"

lemma saves_simps [simp]: "saves (P + Q) s = saves P s + saves Q s" "saves {#} s = 0"
  "saves (add_mset (t, a) P) s = (if t = s \<and> is_save a then 1 else 0) + saves P s"
  by (simp_all add: saves_def)

lemma saves_by_side: "saves (by_side t as) s = (if t = s then length (filter is_save as) else 0)"
  by (induction as) (auto simp: by_side_def)

fun act_fine :: "model_algo \<Rightarrow> (bool \<Rightarrow> 'p model_env) \<Rightarrow> 'p model_pair \<Rightarrow> bool \<Rightarrow> model_activity \<Rightarrow> bool" where
  "act_fine A X S0 s (Run PredictHup) = True"
| "act_fine A X S0 s (Run PredictSum) = True"
| "act_fine A X S0 s (Tell (PredictPart v) ks) = (\<not> s \<and> own_part A X S0 False v \<and> ks = [Run PredictSum])"
| "act_fine A X S0 s (Save PredictFailed) = True"
| "act_fine A X S0 s (Save (Predicted None)) = (\<not> s)"
| "act_fine A X S0 s (Save (Predicted (Some outs))) = (s \<and> joint_outcome A X S0 outs)"
| "act_fine A X S0 s _ = False"

definition live :: "modelStatusType \<Rightarrow> nat" where
  "live u = (if u = modelStatusEndPredict then 0 else 1)"

definition model_fine :: "model_algo \<Rightarrow> (bool \<Rightarrow> 'p model_env) \<Rightarrow> 'p model_pair \<Rightarrow> bool \<Rightarrow> 'p vl_model \<Rightarrow> bool" where
  "model_fine A X S0 s m \<longleftrightarrow> m_params m = m_params (pair_model S0 s) \<and> m_fileRows m = m_fileRows (pair_model S0 s) \<and>
     m_intersect m = m_intersect (pair_model S0 s) \<and> (predictPart m = [] \<or> own_part A X S0 s (predictPart m)) \<and>
     (predictPartFromOther m = [] \<or> s \<and> own_part A X S0 False (predictPartFromOther m))"

definition pair_start :: "'p model_pair \<Rightarrow> bool" where
  "pair_start S \<longleftrightarrow> (\<forall>s. m_status (pair_model S s) = modelStatusEndPSI \<and> predictPart (pair_model S s) = [] \<and>
     predictPartFromOther (pair_model S s) = [] \<and> tm_IsTagPart (m_params (pair_model S s)) = s) \<and>
     pair_pending S = {#(False, Run PredictHup), (True, Run PredictHup)#}"

definition pair_inv :: "model_algo \<Rightarrow> (bool \<Rightarrow> 'p model_env) \<Rightarrow> 'p model_pair \<Rightarrow> 'p model_pair \<Rightarrow> bool" where
  "pair_inv A X S0 S \<longleftrightarrow> (\<forall>s. model_fine A X S0 s (pair_model S s) \<and>
       saves (pair_pending S) s + live (m_status (pair_model S s)) \<le> 1) \<and>
     (\<forall>(s, a) \<in># pair_pending S. act_fine A X S0 s a)"

lemma pair_invD:
  assumes "pair_inv A X S0 S"
  shows "model_fine A X S0 s (pair_model S s)" "saves (pair_pending S) s + live (m_status (pair_model S s)) \<le> 1"
    "(s, a) \<in># pair_pending S \<Longrightarrow> act_fine A X S0 s a"
  using assms unfolding pair_inv_def by auto

section \<open>Handling a message\<close>

text \<open>What a handler leaves and starts is fine, and it saves at most what it may still save.\<close>

definition run_fine :: "model_algo \<Rightarrow> (bool \<Rightarrow> 'p model_env) \<Rightarrow> 'p model_pair \<Rightarrow> bool \<Rightarrow> 'p vl_model \<Rightarrow> 'p vl_model \<Rightarrow>
    model_activity list \<Rightarrow> bool" where
  "run_fine A X S0 s m m' as \<longleftrightarrow> model_fine A X S0 s m' \<and> length (filter is_save as) + live (m_status m') \<le> live (m_status m) \<and>
     (\<forall>a \<in> set as. act_fine A X S0 s a)"

lemma m_step_Some: "m_step r m k = Some y \<longleftrightarrow> (r = verr \<and> y = (m, [Save PredictFailed], Refused)) \<or> (\<exists>x. r = vret x \<and> k x = Some y)"
  by (auto simp: m_step_def m_failing_def verr_def vret_def split: option.splits sum.splits vl_fault.splits)

lemma run_PredictHup:
  assumes m: "model_fine A X S0 s m" and tag: "tm_IsTagPart (m_params (pair_model S0 s)) = s"
    and run: "model_PredictHup A (X s) m = Some (m', as, r)"
  shows "run_fine A X S0 s m m' as"
proof (cases "m_status m \<noteq> modelStatusEndPSI")
  case True
  with run m show ?thesis by (simp add: model_PredictHup_def run_fine_def)
next
  case False
  let ?m = "m\<lparr>m_status := modelStatusStartPredict\<rparr>"
  from run[unfolded model_PredictHup_def if_not_P[OF False] Let_def m_step_Some] m tag consider
      "m' = ?m" "as = [Save PredictFailed]"
    | v where "own_part A X S0 s v" "m' = ?m\<lparr>predictPart := v\<rparr>"
        "as = (if \<not> s then [Tell (PredictPart v) [Run PredictSum]] else [Run PredictSum])"
    by (auto simp: own_part_def model_fine_def)
  then show ?thesis
    by cases (use m False in \<open>auto simp: run_fine_def model_fine_def live_def\<close>)
qed

lemma run_PredictPart:
  assumes "model_fine A X S0 s m" and "s" "own_part A X S0 False v" and "model_PredictPart m v = Some (m', as, r)"
  shows "run_fine A X S0 s m m' as"
  using assms by (auto simp: model_PredictPart_def run_fine_def model_fine_def)

lemma run_PredictSum:
  assumes m: "model_fine A X S0 s m" and tag: "tm_IsTagPart (m_params (pair_model S0 s)) = s"
    and run: "model_PredictSum A (X s) m = Some (m', as, r)"
  shows "run_fine A X S0 s m m' as"
proof (cases "m_status m \<noteq> modelStatusStartPredict")
  case True
  with run m show ?thesis by (simp add: model_PredictSum_def run_fine_def)
next
  case start: False
  then have live: "live (m_status m) = 1" by (simp add: live_def)
  note r = run[unfolded model_PredictSum_def if_not_P[OF start]]
  have params: "m_params m = m_params (pair_model S0 s)" using m by (simp add: model_fine_def)
  show ?thesis
  proof (cases s)
    case False
    with r tag params m live show ?thesis by (auto simp: run_fine_def model_fine_def live_def)
  next
    case True
    with tag params have tag: "\<not> \<not> tm_IsTagPart (m_params m)" by simp
    from r[unfolded if_not_P[OF tag] m_step_Some] consider "m' = m" "as = [Save PredictFailed]" | "m' = m" "as = []"
      | vs where "model_outcomes A (me_predict (X s)) m = vret (Some vs)"
          "m_step (PredictResultToBytes (me_predict (X s)) (tm_IdName (m_params m)) (m_intersect m) vs)
            (m\<lparr>outcomes := vs, m_status := modelStatusEndPredict\<rparr>)
            (\<lambda>outs. Some (m\<lparr>outcomes := vs, m_status := modelStatusEndPredict\<rparr>, [Save (Predicted (Some outs))], NoReply)) = Some (m', as, r)"
      by (auto simp: Let_def split: option.splits)
    then show ?thesis
    proof cases
      case 1
      with m live show ?thesis by (simp add: run_fine_def)
    next
      case 2
      with m show ?thesis by (simp add: run_fine_def)
    next
      case (3 vs)
      then have "predictPart m \<noteq> []" "predictPartFromOther m \<noteq> []" and
        out: "ma_outcomes A (me_predict (X s)) (m_params m) (predictPart m) (predictPartFromOther m) = vret vs"
        by (auto simp: model_outcomes_def vl_ok vret_def split: if_splits)
      with m have parts: "own_part A X S0 True (predictPart m)" "own_part A X S0 False (predictPartFromOther m)"
        using True by (auto simp: model_fine_def)
      have "joint_outcome A X S0 outs"
        if "PredictResultToBytes (me_predict (X s)) (tm_IdName (m_params m)) (m_intersect m) vs = vret outs" for outs
        unfolding joint_outcome_def using parts out that m True by (auto simp: model_fine_def)
      with 3(2) m True live show ?thesis
        unfolding m_step_Some by (auto simp: run_fine_def model_fine_def live_def)
    qed
  qed
qed


lemma run_here:
  assumes "model_fine A X S0 s m" "tm_IsTagPart (m_params (pair_model S0 s)) = s" "act_fine A X S0 s (Run x)"
    and "model_advance A (X s) m x = Some (m', as, r)"
  shows "run_fine A X S0 s m m' as"
  using assms by (cases x) (auto intro: run_PredictHup run_PredictSum)

lemma run_there:
  assumes "model_fine A X S0 s m" "act_fine A X S0 (\<not> s) (Tell x ks)" "model_advance A (X s) m x = Some (m', as, r)"
  shows "run_fine A X S0 s m m' as"
  using assms by (cases x) (auto intro: run_PredictPart)

section \<open>Every step keeps the invariant\<close>

lemma pair_put_simps: "pair_pending (pair_put S s m P) = P" "pair_model (pair_put S s m P) = (pair_model S)(s := m)"
  by (simp_all add: pair_put_def)

lemma pair_inv_put:
  assumes inv: "pair_inv A X S0 S" and run: "run_fine A X S0 s (pair_model S s) m as"
    and less: "\<And>t. saves P t \<le> saves (pair_pending S) t" and kept: "\<And>t a. (t, a) \<in># P \<Longrightarrow> act_fine A X S0 t a"
  shows "pair_inv A X S0 (pair_put S s m (P + by_side s as))"
proof -
  note run = run[unfolded run_fine_def]
  have "saves (P + by_side s as) t + live (m_status (pair_model (pair_put S s m (P + by_side s as)) t)) \<le> 1" for t
    using pair_invD(2)[OF inv, of t] less[of t] run by (auto simp: pair_put_simps saves_by_side)
  moreover have "model_fine A X S0 t (pair_model (pair_put S s m (P + by_side s as)) t)" for t
    using pair_invD(1)[OF inv, of t] run by (cases "t = s") (auto simp: pair_put_simps)
  moreover have "act_fine A X S0 t a" if "(t, a) \<in># P + by_side s as" for t a
    using that kept run by (auto simp: by_side_def)
  ultimately show ?thesis unfolding pair_inv_def by (auto simp: pair_put_simps)
qed

lemma pair_inv_pending:
  assumes inv: "pair_inv A X S0 S" and less: "\<And>t. saves P t \<le> saves (pair_pending S) t"
    and kept: "\<And>t a. (t, a) \<in># P \<Longrightarrow> act_fine A X S0 t a"
  shows "pair_inv A X S0 (S\<lparr>pair_pending := P\<rparr>)"
proof -
  have "saves P t + live (m_status (pair_model S t)) \<le> 1" for t using pair_invD(2)[OF inv, of t] less[of t] by simp
  with pair_invD(1)[OF inv] kept show ?thesis unfolding pair_inv_def by auto
qed

lemma tell_fine: "act_fine A X S0 s (Tell x ks) \<Longrightarrow> ks = [Run PredictSum]"
  by (cases x) simp_all

lemma pair_step_inv:
  assumes "pair_step A X S S'" and inv: "pair_inv A X S0 S" and start: "pair_start S0"
  shows "pair_inv A X S0 S'"
  using assms(1)
proof cases
  note d = pair_invD[OF inv]
  have tag: "tm_IsTagPart (m_params (pair_model S0 s)) = s" for s using start by (simp add: pair_start_def)
  {
    case (run s x P m as r)
    then have "act_fine A X S0 s (Run x)" using d(3) by simp
    from run_here[OF d(1) tag this run(3)] show ?thesis unfolding run(1)
      by (rule pair_inv_put[OF inv]) (use d(3) run(2) in simp_all)
  next
    case (unanswered s x as' m as r)
    from run_there[OF d(1) _ unanswered(3)] d(3)[OF unanswered(2)] have "run_fine A X S0 (\<not> s) (pair_model S (\<not> s)) m as" by simp
    then show ?thesis unfolding unanswered(1)
      by (rule pair_inv_put[OF inv]) (use d(3) in simp_all)
  next
    case (told s x as' P m as r)
    then have t: "act_fine A X S0 s (Tell x as')" using d(3) by simp
    from run_there[OF d(1) _ told(3)] t have "run_fine A X S0 (\<not> s) (pair_model S (\<not> s)) m as" by simp
    then have i: "pair_inv A X S0 (pair_put S (\<not> s) m (P + by_side (\<not> s) as))"
      by (rule pair_inv_put[OF inv]) (use d(3) told(2) in simp_all)
    have "pair_inv A X S0 ((pair_put S (\<not> s) m (P + by_side (\<not> s) as))\<lparr>pair_pending := P + by_side (\<not> s) as + by_side s as'\<rparr>)"
      by (rule pair_inv_pending[OF i]) (use pair_invD(3)[OF i] in
        \<open>auto simp: pair_put_simps by_side_def tell_fine[OF t]\<close>)
    then show ?thesis unfolding told(1) by (simp add: pair_put_def)
  next
    case (untold s x as' P)
    show ?thesis unfolding untold(1)
      by (rule pair_inv_pending[OF inv]) (use d(3) untold(2) in auto)
  next
    case (request_lost s b m as r)
    with d(3)[OF request_lost(2)] show ?thesis by simp
  next
    case (request_answered s b P m as b' m' as' r)
    with d(3)[of s "Request b"] show ?thesis by simp
  next
    case (request_given_up s b P)
    with d(3)[of s "Request b"] show ?thesis by simp
  }
qed

lemma pair_reachable_inv:
  assumes "pair_reachable A X S0 S" and start: "pair_start S0"
  shows "pair_inv A X S0 S"
  using assms(1) unfolding pair_reachable_def
proof (induction rule: rtranclp_induct)
  case base
  from start have p: "pair_pending S0 = {#(False, Run PredictHup), (True, Run PredictHup)#}" unfolding pair_start_def by blast
  from start have m: "m_status (pair_model S0 s) = modelStatusEndPSI" "predictPart (pair_model S0 s) = []"
    "predictPartFromOther (pair_model S0 s) = []" for s unfolding pair_start_def by blast+
  have "act_fine A X S0 s a" if "(s, a) \<in># pair_pending S0" for s a
    using that unfolding p by auto
  moreover have "model_fine A X S0 s (pair_model S0 s)" for s
    unfolding model_fine_def m by blast
  moreover have "saves (pair_pending S0) s + live (m_status (pair_model S0 s)) \<le> 1" for s
    unfolding m p by (simp add: live_def)
  ultimately show ?case unfolding pair_inv_def by auto
next
  case (step S S')
  show ?case by (rule pair_step_inv[OF step(2) step(3) start])
qed

end
