(* ===== verification/VlModelProperties.thy ===== *)
theory VlModelProperties
  imports VlModelPair VlProperties
begin

text \<open>Properties of predictions, and a prediction on concrete inputs for the witnesses.\<close>

section \<open>A prediction on concrete inputs\<close>

definition ask_env :: predict_env where
  "ask_env = \<lparr>pe_parse = (\<lambda>s. Some (Fin 1)), pe_names = (\<lambda>ks. ks), pe_exp = (\<lambda>x. Fin 1), pe_format = (\<lambda>v. ''1'')\<rparr>"


definition ask_params :: "bool \<Rightarrow> TrainModels" where
  "ask_params t = \<lparr>tm_Thetas = (if t then [(''Intercept'', Fin 0)] else [(''x'', Fin 1)]), tm_Xbars = [((if t then ''y'' else ''x''), Fin 0)],
     tm_Sigmas = [((if t then ''y'' else ''x''), Fin 1)], tm_Label = ''y'', tm_IsTagPart = t, tm_IdName = ''id'', tm_Path = []\<rparr>"









section \<open>Properties\<close>



text \<open>
  C40: A column that the model does not know makes all predictions of a linear regression not-a-number.
  The party with the label standardizes and adds up every column of its file; one that was not there
  in the training is divided by a standard deviation of zero and multiplied with a parameter of zero.
\<close>
theorem unknown_column_ruins_predictions:
  assumes "tm_IsTagPart params" and "k \<in> set names"
    and "map_of (tm_Sigmas params) k = None" and "map_of (tm_Thetas params) k = None" and "\<And>ks. set (pe_names E ks) = set ks"
    and own: "PredictLocalPart E (names # rows) params = Some (Inr own)"
    and outs: "DeStandardizeOutputs params own other = Some (Inr outs)"
  shows "length outs = length rows \<and> list_all ((=) NaN) outs"
proof -
  have nan: "PredictLocalPartTag (pe_names E) (tm_Thetas params) (StandardizeLocalInput (tm_Xbars params) (tm_Sigmas params) input) = NaN"
    if "input_of (pe_parse E) names row [] = Some (Inr input)" for row input
    by (rule unknown_column_NaN[where k = k]) (use input_of_keys[OF that] assms(2-5) in auto)
  from own assms(1) have "list_all ((=) NaN) own"
    by (auto simp: PredictLocalPart_def Let_def dest!: predict_rows_all[where Q = "(=) NaN", OF _ nan[symmetric]])
  moreover have "length own = length rows" using PredictLocalPart_length[OF own] by simp
  moreover have "list_all ((=) NaN) vs \<and> length vs = length ls"
    if "sum_parts (DeStandardizeOutput y sg) ls rs = Some (Inr vs)" "list_all ((=) NaN) ls" for y sg ls rs vs
    using that
  proof (induction "DeStandardizeOutput y sg" ls rs arbitrary: vs rule: sum_parts.induct)
    case (3 l ls r rs)
    have "DeStandardizeOutput y sg (fadd NaN r) = NaN" by (cases sg) (simp_all add: DeStandardizeOutput_def fadd_NaN)
    with 3 show ?case by (auto simp: vl_ok)
  qed (auto simp: vret_def vpanic_def)
  ultimately show ?thesis using outs unfolding DeStandardizeOutputs_def Let_def by force
qed

lemma unknown_column_ruins_predictions_witness:
  "\<exists>own. PredictLocalPart ask_env [[''z''], [''1'']] (ask_params True) = Some (Inr own) \<and>
    DeStandardizeOutputs (ask_params True) own [Fin 1] = Some (Inr [NaN])"
proof -
  have "\<exists>own outs. PredictLocalPart ask_env [[''z''], [''1'']] (ask_params True) = Some (Inr own) \<and>
      DeStandardizeOutputs (ask_params True) own [Fin 1] = Some (Inr outs)"
    by (simp add: PredictLocalPart_def ask_env_def checked_def DeStandardizeOutputs_def Let_def) (simp add: vret_def)
  then obtain own outs where r: "PredictLocalPart ask_env [[''z''], [''1'']] (ask_params True) = Some (Inr own)"
    "DeStandardizeOutputs (ask_params True) own [Fin 1] = Some (Inr outs)" by blast
  have "length outs = length [[''1'']] \<and> list_all ((=) NaN) outs"
    by (rule unknown_column_ruins_predictions[where k = "''z''", OF _ _ _ _ _ r]) (simp_all add: ask_params_def ask_env_def)
  then have "outs = [NaN]" by (cases outs) auto
  with r show ?thesis by blast
qed

end
