(* ===== verification/Spec2Isabelle.thy ===== *)
theory Spec2Isabelle
  imports XdbProperties DaiProperties SecretShare Paillier PsiProtocol EngProperties ChallengeProperties FabProperties EvalProperties
  VlProperties VlDuoProperties VlLogicLearner VlModelProperties
begin

text \<open>
  A verification library of PaddleDTX: the smart contracts of the decentralized storage network
  XuperDB, the engine that writes files to it and reads them back, the task contract of the
  computing network Distributed AI, its private set intersection and vertical learning, and
  cryptographic routines of the crypto library. The definitions are translations of the Go code; sources are named below relative
  to \<^verbatim>\<open>src/\<close>.

  \<^bold>\<open>Parts and theories\<close>

  \<^item> \<open>Prelude\<close>, \<open>Golang\<close>: facts on lists and maps; Go integers of 64 bits, their decimal
    representations and the formatting verbs the contracts use; Go strings as lists of bytes.
  \<^item> \<open>Json\<close>: JSON documents and the codec combinators with which every struct that is stored,
    signed or passed to a contract states its \<^verbatim>\<open>json\<close> tags.
  \<^item> \<open>Chain\<close>: the contract runtime. A ledger is a finite association of keys with values; a
    method is a function of the ledger that ends with a response or an error and may panic; a call
    that does not end with a response leaves the ledger as it was. Primitives of the platform
    (SHA-256, ECDSA verification, the parsing of hexadecimal strings) are fields of an environment.
    The locales \<open>ledger\<close> and \<open>listing\<close> state what the contracts rely on.
  \<^item> \<open>XdbTypes\<close>, \<open>XdbKeys\<close>, \<open>XdbSign\<close>: \<^verbatim>\<open>xdb/blockchain/blockchain.go\<close>, the index keys of
    \<^verbatim>\<open>xdb/blockchain/xchain/contract/core/internal.go\<close>, and \<^verbatim>\<open>xdb/pkgs/strings/strings.go\<close>.
  \<^item> \<open>MerkleTree\<close>: \<^verbatim>\<open>crypto/core/pdp/merkle/merkle.go\<close>.
  \<^item> \<open>XdbNodes\<close>, \<open>XdbFiles\<close>, \<open>XdbChallenge\<close>, \<open>XdbFileAuth\<close>: the methods of \<^verbatim>\<open>nodes.go\<close>,
    \<^verbatim>\<open>files.go\<close>, \<^verbatim>\<open>challenging.go\<close> and \<^verbatim>\<open>fileauth.go\<close> of the storage contract, with what each
    does on every path. \<open>XdbContract\<close> puts them together: the calls, the states they reach and the
    invariant of all record and index keys; \<open>XdbProperties\<close> holds the properties.
  \<^item> \<open>DaiTypes\<close>, \<open>DaiContract\<close>: the data and the methods of the task contract,
    \<^verbatim>\<open>dai/blockchain/xchain/contract/task.go\<close>, \<^verbatim>\<open>executorNodes.go\<close> and \<^verbatim>\<open>internal.go\<close>. The task
    contract runs on the ledger of the storage contract and reads its files, so \<open>DaiSystem\<close>
    takes the calls of both; \<open>DaiLife\<close> is the life of a task as a transition system;
    \<open>DaiProperties\<close> holds the properties and a run of the system used by the witnesses.
  \<^item> \<open>FabLedger\<close>, \<open>FabContract\<close>: the Fabric chaincode of the storage network,
    \<^verbatim>\<open>xdb/blockchain/fabric/chaincode/core\<close>. Its stub is a record of functions whose laws are
    the locale \<open>fabric\<close>: transactions run one after another, and a transaction reads what earlier
    ones have committed. \<open>FabRefine\<close> relates each method to the one of the storage contract by a
    calculus of simulations. \<open>DaiFab\<close>, \<open>DaiFabRefine\<close>: the same for the chaincode of the computing
    network, \<^verbatim>\<open>dai/blockchain/fabric/chaincode\<close>, which embeds that one. \<open>FabProperties\<close> holds
    a reference stub and the properties.
  \<^item> \<open>BigPolynomial\<close>, \<open>Interpolation\<close>, \<open>SecretShare\<close>: polynomials, seeds, Lagrange interpolation
    (\<^verbatim>\<open>crypto/common/math/big_polynomial\<close>, \<^verbatim>\<open>crypto/common/math/rand\<close>) and the secret sharing
    scheme of \<^verbatim>\<open>crypto/core/secret_share\<close>. \<open>Paillier\<close>:
    \<^verbatim>\<open>crypto/common/math/homomorphism/paillier\<close>. \<open>PairingProof\<close>: the proofs of possession of
    \<^verbatim>\<open>crypto/core/pdp/pairing\<close> and the requests of the crypto client that carry them, over a curve
    with a pairing whose laws are hypotheses.
  \<^item> \<open>Psi\<close>: encrypted identifier sets, their byte form and intersection, and the rows of sample files
    (\<^verbatim>\<open>dai/crypto/vl/common\<close>). \<open>PsiProtocol\<close>: the parties of
    \<^verbatim>\<open>dai/mpc/psi/psi.go\<close> and \<^verbatim>\<open>psi_bypairs.go\<close> as state machines, and their exchanges.
  \<^item> The engine of XuperDB, \<^verbatim>\<open>xdb/engine\<close>. \<open>EngCrypt\<close>: AES-GCM with derived keys and the cutting
    of files into blocks (\<^verbatim>\<open>encryptor/soft\<close>, \<^verbatim>\<open>slicer/simple\<close>). \<open>EngStore\<close>: what is put on the
    chain and how a file is read, by its owner (\<^verbatim>\<open>internal.go\<close>, \<^verbatim>\<open>token.go\<close>,
    \<^verbatim>\<open>handler_read.go\<close>) and by an executor with the owner's keys
    (\<^verbatim>\<open>dai/executor/handler/file.go\<close>). \<open>EngHealth\<close>: \<^verbatim>\<open>common/health.go\<close>. \<open>EngStorage\<close>:
    the local storage and the requests of a storage node (\<^verbatim>\<open>xdb/storage/local\<close>,
    \<^verbatim>\<open>handler.go\<close>), with the laws of a slice store as locales. \<open>EngCopier\<close>: choosing nodes, pushing,
    pulling and replicating slices (\<^verbatim>\<open>copier/random\<close>, \<^verbatim>\<open>common/migrate.go\<close>). \<open>EngWrite\<close>: the
    chain client and the pipeline of \<^verbatim>\<open>handler_write.go\<close>, over the modelled contract, whose laws are
    the locale \<open>file_ledger\<close>.
  \<^item> \<open>EngRoundtrip\<close>, \<open>EngSpread\<close>, \<open>EngWritten\<close>: what a read gives for stored copies, where the copies
    of a write are and what the nodes hold, and the state after a write. \<open>EngRun\<close>: one run of the
    engine on concrete inputs, used by the witnesses; \<open>EngProperties\<close>: the properties.
  \<^item> \<open>Float64\<close>: the rounding of floating point numbers, for the places where the engine rounds
    counts. \<open>EngMaterial\<close>: the material of Merkle challenges and its database
    (\<^verbatim>\<open>challenger/merkle\<close>). \<open>EngChallenge\<close>: rounds of the monitors that request and answer
    challenges (\<^verbatim>\<open>monitor/challenging\<close>, \<^verbatim>\<open>challenger/pairing\<close>) and the material of pairing
    challenges (\<^verbatim>\<open>common/challenge.go\<close>). \<open>ChallengeProperties\<close>: their properties.
  \<^item> \<open>EvalSplit\<close>: the division of sample files for the evaluation of models
    (\<^verbatim>\<open>crypto/core/machine_learning/evaluation/validation\<close>). \<open>EvalFolds\<close>: what the folds of one
    and of several parties are; \<open>EvalProperties\<close>: the properties.
  \<^item> Vertical learning. \<open>GoFloat\<close>: the type \<^verbatim>\<open>float64\<close>. \<open>VlBase\<close>: results, sample sets, import and
    standardization (\<^verbatim>\<open>crypto/core/machine_learning/common\<close>). \<open>VlCipher\<close>: encrypted fixed-point
    numbers and their byte forms (\<^verbatim>\<open>dai/crypto/vl/common/convert.go\<close>). \<open>VlLinear\<close>, \<open>VlLogic\<close>:
    linear and logistic regression of two parties (\<^verbatim>\<open>mpc_vertical/regression.go\<close>). \<open>VlTrain\<close>: batches
    and the steps of a round (\<^verbatim>\<open>dai/crypto/vl/common/train.go\<close>, \<^verbatim>\<open>linear/train.go\<close>,
    \<^verbatim>\<open>logic/train.go\<close>) over a record of the functions of an algorithm. \<open>VlLogicPlain\<close>,
    \<open>VlRound\<close>: what a round computes; its needs are the locale \<open>vl_algorithm\<close>, which both
    regressions interpret. \<open>VlShape\<close>: the form of training sets; \<open>VlProperties\<close>: the properties.
  \<^item> The learners that drive the rounds, \<^verbatim>\<open>dai/mpc/learners\<close>. \<open>VlProcess\<close>: the state of a training
    run and its methods (\<^verbatim>\<open>process.go\<close>). \<open>VlLearner\<close>: the handling of every kind of message
    (\<^verbatim>\<open>linear_reg_vl.go\<close>), and two learners as a step relation over the multiset of what is started
    and not yet done. \<open>VlLogicLearner\<close>: the learner of logistic regression. \<open>VlDuo\<close>: the invariant
    of two learners; \<open>VlHandled\<close>: what each handler does to it; \<open>VlDuoSteps\<close>: every step keeps it;
    \<open>VlDuoProperties\<close>: a training on concrete inputs and the properties.
  \<^item> Predictions. \<open>VlPredict\<close>: the part of a party and the outcomes from both parts
    (\<^verbatim>\<open>dai/crypto/vl/linear/predict.go\<close>, \<^verbatim>\<open>logic/predict.go\<close>). \<open>VlModel\<close>: the models that exchange them
    (\<^verbatim>\<open>dai/mpc/models\<close>), over a record of the functions of an algorithm. \<open>VlModelPair\<close>: the invariant of
    two models; \<open>VlModelProperties\<close>: a prediction on concrete inputs and the properties.

  \<^bold>\<open>What the lemmas show\<close>

  For each contract: the form of every committed call and the keys it writes; an invariant of the
  ledger that ties every record to its list keys, kept by all calls of both contracts; what stays
  as it was and who signed what changed (files, challenges, authorizations, tasks); the life cycle
  of challenges, authorizations and tasks; the exactness of the list queries; and behaviours that
  differ from the documented ones. For the engine: a write leaves every slice on different healthy
  nodes under the hash that is published, it is read back, and the exact conditions under which it
  is not; who is served slices; the ends of the loops that draw random numbers; the health of a
  file; that honest nodes pass the challenges of both kinds, and how long the material lasts. The Fabric chaincodes keep the
  records of the contracts. For set intersection: all parties get the common identifiers. For vertical
  learning: a round under encryption computes the gradients and costs of the plain fixed-point
  numbers as long as they fit the key, both parties see the same cost and take the same samples, and
  where the code loses precision; two learners stop in the same round under any order, loss and
  repetition of messages, and how a late request restarts one; two models save a prediction once. For the Merkle tree: the array algorithm computes the root of
  the balanced tree, and the root binds the leaves. For secret sharing: shares determine the
  secret, and what a share gives away. For the cryptosystem: decryption undoes encryption and
  follows the operations on ciphers, with the window of signed numbers. For proofs of possession: an
  honest proof is accepted, and how one accepted proof is turned into another.

  \<^bold>\<open>Bounds and fuel\<close>

  Loops of the code run over lists and iterators and are structural recursions here, so nothing
  needs fuel. A loop that draws random numbers until they are suitable is a function of the list of
  draws, with no result when the list is used up; cutting a file is a partial function, shown to be
  defined. Calls that may never return give an option. Integers of the contracts have 64 bits and wrap around; \<^verbatim>\<open>big.Int\<close> is \<open>int\<close>.

  \<^bold>\<open>Not modelled\<close>

  Servers and command line tools, but for the requests that carry slices, and the monitors of both
  systems, but for the rounds of challenges, are input and output in concurrent loops. What concurrency decides in a write, the order
  of the queue and what becomes of every push, is a parameter of the model. The remaining chain
  clients marshal a request and call the modelled contract. Learning by a single party and decision
  trees are not used by the network; live evaluation, which is only an activity of the learners here,
  the trainer that starts learners, and the scores of models are left out. A handler of a learner up
  to the message it sends is one step, though the code locks only parts of it. HKDF, AES-GCM, SHA-256, ECDSA and the pairing
  curve are primitives with their documented laws.
\<close>

end
